(* ===== verification/Prelude.thy ===== *)
theory Prelude
  imports Main "HOL-Library.AList" "HOL-Library.Monad_Syntax"
    "HOL-Library.Char_ord" "HOL-Library.List_Lexorder"
begin

text \<open>
  Shared vocabulary of the development: the JavaScript values that differ from their HOL
  counterparts (\<^verbatim>\<open>undefined\<close> against \<^verbatim>\<open>null\<close>, number formatting, insertion-ordered maps), and
  the generic lemmas on lists, strings and options the component theories use.
\<close>

section \<open>JavaScript values\<close>

text \<open>
  An optional property of a JavaScript object: absent (\<^verbatim>\<open>undefined\<close>), \<^verbatim>\<open>null\<close> or a value.
  The code distinguishes the first two in places (\<^verbatim>\<open>===\<close>, \<^verbatim>\<open>typeof\<close>) and not in others
  (truthiness, \<^verbatim>\<open>??\<close>).
\<close>

datatype 'a js = Undefined | Null | Val 'a

fun js_norm :: "'a js \<Rightarrow> 'a js" where
  "js_norm Null = Undefined"
| "js_norm v = v"

fun js_option :: "'a js \<Rightarrow> 'a option" where
  "js_option (Val v) = Some v"
| "js_option _ = None"

lemma js_norm_eq_iff: "js_norm a = js_norm b \<longleftrightarrow> js_option a = js_option b"
  by (cases a; cases b) auto

section \<open>Numbers as strings\<close>

text \<open>Template literals format an integer in decimal, with a leading minus sign.\<close>

fun show_nat :: "nat \<Rightarrow> string" where
  "show_nat n =
     (if n < 10 then [''0123456789'' ! n] else show_nat (n div 10) @ [''0123456789'' ! (n mod 10)])"

declare show_nat.simps [simp del]

definition show_int :: "int \<Rightarrow> string" where
  "show_int i = (if i < 0 then CHR ''-'' # show_nat (nat (- i)) else show_nat (nat i))"

definition is_digit :: "char \<Rightarrow> bool" where
  "is_digit c \<longleftrightarrow> c \<in> set ''0123456789''"

definition digit_val :: "char \<Rightarrow> nat" where
  "digit_val c = length (takeWhile (\<lambda>d. d \<noteq> c) ''0123456789'')"

definition read_nat :: "string \<Rightarrow> nat" where
  "read_nat s = foldl (\<lambda>n c. 10 * n + digit_val c) 0 s"

lemma less_10_cases:
  "(n::nat) < 10 \<Longrightarrow> n \<in> {0, 1, 2, 3, 4, 5, 6, 7, 8, 9}"
  by auto

lemma digit_val_nth: "n < 10 \<Longrightarrow> digit_val (''0123456789'' ! n) = n"
  by (drule less_10_cases) (auto simp: digit_val_def)

lemma is_digit_nth: "n < 10 \<Longrightarrow> is_digit (''0123456789'' ! n)"
  unfolding is_digit_def by (rule nth_mem) simp

lemma read_show_nat: "read_nat (show_nat n) = n"
proof (induction n rule: show_nat.induct)
  case (1 n)
  show ?case
  proof (cases "n < 10")
    case True
    then show ?thesis
      by (simp add: show_nat.simps[of n] read_nat_def digit_val_nth)
  next
    case False
    with "1.IH" have "read_nat (show_nat (n div 10)) = n div 10" by simp
    with False show ?thesis
      by (subst show_nat.simps)
        (simp add: read_nat_def digit_val_nth)
  qed
qed

lemma show_nat_digits: "list_all is_digit (show_nat n)"
proof (induction n rule: show_nat.induct)
  case (1 n)
  show ?case
  proof (cases "n < 10")
    case True
    then show ?thesis by (simp add: show_nat.simps[of n] is_digit_nth)
  next
    case False
    with "1.IH" have "list_all is_digit (show_nat (n div 10))" by simp
    with False show ?thesis by (simp add: show_nat.simps[of n] is_digit_nth)
  qed
qed

lemma show_nat_nonempty: "show_nat n \<noteq> []"
  by (simp add: show_nat.simps[of n])

lemma show_nat_inject [simp]: "show_nat m = show_nat n \<longleftrightarrow> m = n"
  by (metis read_show_nat)

definition no_digit_head :: "string \<Rightarrow> bool" where
  "no_digit_head s \<longleftrightarrow> (s = [] \<or> \<not> is_digit (hd s))"

lemma span_digits:
  assumes "list_all is_digit xs" and "no_digit_head t"
  shows "takeWhile is_digit (xs @ t) = xs" and "dropWhile is_digit (xs @ t) = t"
  using assms by (induction xs) (auto simp: no_digit_head_def takeWhile_eq_Nil_iff dropWhile_eq_self_iff)

lemma show_nat_prefix:
  assumes "show_nat m @ t = show_nat n @ u" and "no_digit_head t" and "no_digit_head u"
  shows "m = n \<and> t = u"
  using assms span_digits[OF show_nat_digits assms(2)] span_digits[OF show_nat_digits assms(3)]
  by (metis show_nat_inject)

lemma hd_show_nat: "\<exists>c cs. show_nat n = c # cs \<and> is_digit c"
  using show_nat_digits[of n] show_nat_nonempty[of n] by (cases "show_nat n") auto

lemma not_is_digit [simp]:
  "\<not> is_digit (CHR ''-'')" "\<not> is_digit (CHR '':'')" "\<not> is_digit (CHR ''^'')" "\<not> is_digit (CHR ''@'')"
  by (simp_all add: is_digit_def)

text \<open>A number followed by a character that is no digit can be read back.\<close>

lemma show_int_prefix:
  assumes "show_int i @ t = show_int j @ u" and "no_digit_head t" and "no_digit_head u"
  shows "i = j \<and> t = u"
proof (cases "i < 0"; cases "j < 0")
  assume "i < 0" "j < 0"
  with assms have "show_nat (nat (- i)) @ t = show_nat (nat (- j)) @ u" by (simp add: show_int_def)
  from show_nat_prefix[OF this assms(2,3)] \<open>i < 0\<close> \<open>j < 0\<close> show ?thesis by auto
next
  assume "i < 0" "\<not> j < 0"
  with assms(1) hd_show_nat[of "nat j"] show ?thesis by (auto simp: show_int_def)
next
  assume "\<not> i < 0" "j < 0"
  with assms(1) hd_show_nat[of "nat i"] show ?thesis by (auto simp: show_int_def)
next
  assume "\<not> i < 0" "\<not> j < 0"
  with assms have "show_nat (nat i) @ t = show_nat (nat j) @ u" by (simp add: show_int_def)
  from show_nat_prefix[OF this assms(2,3)] \<open>\<not> i < 0\<close> \<open>\<not> j < 0\<close> show ?thesis by auto
qed

lemma show_int_chars: "c \<in> set (show_int i) \<Longrightarrow> is_digit c \<or> c = CHR ''-''"
  using show_nat_digits by (fastforce simp: show_int_def list_all_iff split: if_splits)

section \<open>Lists\<close>

text \<open>A separator that occurs in neither prefix (suffix) splits a list in one way.\<close>

lemma split_first_unique:
  assumes "xs @ c # ys = xs' @ c # ys'" and "c \<notin> set xs" and "c \<notin> set xs'"
  shows "xs = xs' \<and> ys = ys'"
  using assms by (induction xs arbitrary: xs') (auto simp: Cons_eq_append_conv append_eq_Cons_conv)

lemma split_last_unique:
  assumes "xs @ c # ys = xs' @ c # ys'" and "c \<notin> set ys" and "c \<notin> set ys'"
  shows "xs = xs' \<and> ys = ys'"
proof -
  from assms(1) have "rev ys @ c # rev xs = rev ys' @ c # rev xs'"
    by (metis append.assoc append_Cons append_Nil rev.simps(2) rev_append)
  from split_first_unique[OF this] assms(2,3) show ?thesis by simp
qed

lemma distinct_map_split:
  assumes "distinct (map f (xs @ ys @ zs))" and "y \<in> set ys"
  shows "f y \<notin> f ` set xs" "f y \<notin> f ` set zs" "distinct (map f ys)"
proof -
  from assms(1) have "f ` set xs \<inter> (f ` set ys \<union> f ` set zs) = {}" "f ` set ys \<inter> f ` set zs = {}"
    by simp_all
  with assms(2) show "f y \<notin> f ` set xs" "f y \<notin> f ` set zs" by blast+
  from assms(1) show "distinct (map f ys)" by simp
qed

lemma distinct_map_inj:
  "distinct (map f xs) \<Longrightarrow> x \<in> set xs \<Longrightarrow> y \<in> set xs \<Longrightarrow> f x = f y \<Longrightarrow> x = y"
  by (meson distinct_map inj_onD)

text \<open>A list sorted by an irreflexive, transitive relation is determined by its elements.\<close>

lemma sorted_wrt_set_unique:
  assumes irrefl: "\<And>x. \<not> R x x" and trans: "\<And>x y z. R x y \<Longrightarrow> R y z \<Longrightarrow> R x z"
    and "sorted_wrt R xs" and "sorted_wrt R ys" and "set xs = set ys"
  shows "xs = ys"
  using assms(3-5)
proof (induction xs arbitrary: ys)
  case Nil
  then show ?case by simp
next
  case (Cons x xs)
  then obtain y ys' where ys: "ys = y # ys'" by (cases ys) auto
  have "x = y"
  proof (rule ccontr)
    assume "x \<noteq> y"
    with Cons.prems ys have "R x y" "R y x" by auto
    then show False using irrefl trans by blast
  qed
  moreover have "x \<notin> set xs" using Cons.prems(1) irrefl by auto
  moreover have "y \<notin> set ys'" using Cons.prems(2) ys irrefl by auto
  ultimately have "set xs = set ys'" using Cons.prems(3) ys by auto
  with Cons.IH[of ys'] Cons.prems ys \<open>x = y\<close> show ?case by simp
qed

section \<open>Results\<close>

text \<open>\<^verbatim>\<open>!!x\<close> for a text that may be missing.\<close>

definition given :: "string option \<Rightarrow> bool" where
  "given x \<longleftrightarrow> x \<noteq> None \<and> x \<noteq> Some []"

text \<open>Tests on the result of a fallible operation.\<close>

lemma case_sum_Inr_iff:
  "(case r of Inl e \<Rightarrow> False | Inr q \<Rightarrow> P q) \<longleftrightarrow> (\<exists>q. r = Inr q \<and> P q)"
  by (cases r) auto

lemma case_sum_Inl_iff:
  "(case r of Inl e \<Rightarrow> P e | Inr q \<Rightarrow> False) \<longleftrightarrow> (\<exists>e. r = Inl e \<and> P e)"
  by (cases r) auto

lemma find_distinct: "distinct (map key xs) \<Longrightarrow> x \<in> set xs \<Longrightarrow> find (\<lambda>y. key y = key x) xs = Some x"
  by (induction xs) (auto simp: image_iff)

end
