(* ===== verification/Atom2.thy ===== *)
theory Atom2
  imports Prelude
begin

text \<open>
  Atoms and their identifiers: \<^verbatim>\<open>src/src/causal-trees/core2/Atom2.ts\<close>.

  An atom id is a site, a Lamport timestamp, an optional priority and an optional cardinality; an
  atom adds the id of its cause, a value and a hash over its contents and its cause's hash.
  Timestamps, priorities and cardinality numbers are JavaScript numbers that the code only
  increments, compares and prints; they are modelled by \<open>int\<close>.

  \<^verbatim>\<open>getHash\<close> (SHA-256 of a stable JSON text, made by the packages \<^verbatim>\<open>hash.js\<close> and
  \<^verbatim>\<open>fast-json-stable-stringify\<close>) is a parameter of the definitions that use it.
\<close>

section \<open>Types\<close>

record atom_cardinality =
  group :: string
  number :: int

record atom_id =
  site :: string
  timestamp :: int
  priority :: "int js"
  cardinality :: "atom_cardinality js"

record 'v atom =
  aid :: atom_id
  cause :: "atom_id option"
  val :: 'v
  ahash :: string

text \<open>The parts of the array that is handed to \<^verbatim>\<open>getHash\<close>.\<close>

datatype 'v hash_part =
    HNull
  | HUndefined
  | HStr string
  | HNum int
  | HCardinality atom_cardinality
  | HValue 'v

type_synonym 'v hasher = "'v hash_part list \<Rightarrow> string"

section \<open>Operations\<close>

definition atomId :: "string \<Rightarrow> int \<Rightarrow> int js \<Rightarrow> atom_cardinality js \<Rightarrow> atom_id" where
  "atomId s t p c =
     \<lparr>site = s, timestamp = t,
      priority = (case p of Val n \<Rightarrow> Val n | _ \<Rightarrow> Undefined),
      cardinality = c\<rparr>"

text \<open>\<^verbatim>\<open>causeHash || null\<close>: an empty hash counts as no hash.\<close>

definition hash_cause :: "string option \<Rightarrow> 'v hash_part" where
  "hash_cause h = (case h of None \<Rightarrow> HNull | Some s \<Rightarrow> if s = [] then HNull else HStr s)"

definition hash_priority :: "int js \<Rightarrow> 'v hash_part" where
  "hash_priority p = (case p of Undefined \<Rightarrow> HUndefined | Null \<Rightarrow> HNull | Val n \<Rightarrow> HNum n)"

definition atomHash :: "'v hasher \<Rightarrow> atom_id \<Rightarrow> string option \<Rightarrow> 'v \<Rightarrow> string" where
  "atomHash getHash i causeHash v =
     (case cardinality i of
        Val c \<Rightarrow> getHash [hash_cause causeHash, HStr (site i), HNum (timestamp i),
                          hash_priority (priority i), HCardinality c, HValue v]
      | _ \<Rightarrow> getHash [hash_cause causeHash, HStr (site i), HNum (timestamp i),
                          hash_priority (priority i), HValue v])"

definition atom :: "'v hasher \<Rightarrow> atom_id \<Rightarrow> 'v atom option \<Rightarrow> 'v \<Rightarrow> 'v atom" where
  "atom getHash i c v =
     \<lparr>aid = i, cause = map_option aid c, val = v,
      ahash = atomHash getHash i (map_option ahash c) v\<rparr>"

definition atomMatchesHash :: "'v hasher \<Rightarrow> 'v atom \<Rightarrow> 'v atom option \<Rightarrow> bool" where
  "atomMatchesHash getHash a c \<longleftrightarrow> atomHash getHash (aid a) (map_option ahash c) (val a) = ahash a"

definition atomIdToString :: "atom_id \<Rightarrow> string" where
  "atomIdToString i =
     site i @ ''@'' @ show_int (timestamp i)
     @ (case priority i of Val p \<Rightarrow> if p \<noteq> 0 then '':'' @ show_int p else [] | _ \<Rightarrow> [])
     @ (case cardinality i of
          Val c \<Rightarrow> ''-'' @ group c @ ''^'' @ show_int (number c)
        | _ \<Rightarrow> [])"

text \<open>
  \<^verbatim>\<open>idEquals\<close>: two missing ids are equal, a missing id equals no id, and in two ids \<^verbatim>\<open>null\<close> and
  \<^verbatim>\<open>undefined\<close> properties count as the same.
\<close>

definition js_same :: "'a js \<Rightarrow> 'a js \<Rightarrow> bool" where
  "js_same x y \<longleftrightarrow> y = x \<or> (y = Null \<and> x = Undefined) \<or> (y = Undefined \<and> x = Null)"

definition cardinality_same :: "atom_cardinality js \<Rightarrow> atom_cardinality js \<Rightarrow> bool" where
  "cardinality_same x y \<longleftrightarrow>
     (y = Null \<and> x = Null) \<or> (y = Undefined \<and> x = Undefined) \<or>
     (y = Null \<and> x = Undefined) \<or> (y = Undefined \<and> x = Null) \<or>
     (case (y, x) of (Val d, Val c) \<Rightarrow> group d = group c \<and> number d = number c | _ \<Rightarrow> False)"

definition idEquals :: "atom_id option \<Rightarrow> atom_id option \<Rightarrow> bool" where
  "idEquals a b =
     (case (a, b) of
        (None, None) \<Rightarrow> True
      | (Some x, Some y) \<Rightarrow>
          site y = site x \<and> timestamp y = timestamp x
          \<and> js_same (priority x) (priority y)
          \<and> cardinality_same (cardinality x) (cardinality y)
      | _ \<Rightarrow> False)"

section \<open>Id equality\<close>

lemma js_same_iff: "js_same x y \<longleftrightarrow> js_norm x = js_norm y"
  by (cases x; cases y) (auto simp: js_same_def)

lemma cardinality_same_iff: "cardinality_same x y \<longleftrightarrow> js_norm x = js_norm y"
  by (cases x; cases y) (auto simp: cardinality_same_def)

text \<open>The ids that \<^verbatim>\<open>idEquals\<close> identifies have the same normal form.\<close>

definition id_norm :: "atom_id \<Rightarrow> atom_id" where
  "id_norm i = i\<lparr>priority := js_norm (priority i), cardinality := js_norm (cardinality i)\<rparr>"

lemma idEquals_Some_iff [simp]: "idEquals (Some x) (Some y) \<longleftrightarrow> id_norm x = id_norm y"
  by (cases x; cases y) (auto simp: idEquals_def id_norm_def js_same_iff cardinality_same_iff)

lemma idEquals_None [simp]:
  "idEquals None None" "\<not> idEquals None (Some y)" "\<not> idEquals (Some x) None"
  by (simp_all add: idEquals_def)

lemma idEquals_iff: "idEquals a b \<longleftrightarrow> map_option id_norm a = map_option id_norm b"
  by (cases a; cases b) auto

lemma timestamp_id_norm [simp]: "timestamp (id_norm i) = timestamp i"
  and site_id_norm [simp]: "site (id_norm i) = site i"
  by (simp_all add: id_norm_def)

section \<open>Ids as map keys\<close>

text \<open>\<^verbatim>\<open>id.priority || 0\<close> (the weave's \<^verbatim>\<open>_getPriority\<close>).\<close>

definition getPriority :: "atom_id \<Rightarrow> int" where
  "getPriority i = (case priority i of Val p \<Rightarrow> p | _ \<Rightarrow> 0)"

definition priority_suffix :: "atom_id \<Rightarrow> string" where
  "priority_suffix i = (if getPriority i \<noteq> 0 then CHR '':'' # show_int (getPriority i) else [])"

definition cardinality_suffix :: "atom_id \<Rightarrow> string" where
  "cardinality_suffix i =
     (case js_option (cardinality i) of
        None \<Rightarrow> [] | Some c \<Rightarrow> CHR ''-'' # group c @ CHR ''^'' # show_int (number c))"

lemma atomIdToString_parts:
  "atomIdToString i =
     site i @ CHR ''@'' # show_int (timestamp i) @ priority_suffix i @ cardinality_suffix i"
  by (auto simp: atomIdToString_def priority_suffix_def cardinality_suffix_def getPriority_def
      split: js.splits)

lemma cardinality_suffix_inject:
  assumes "cardinality_suffix i = cardinality_suffix j"
  shows "js_option (cardinality i) = js_option (cardinality j)"
proof (cases "js_option (cardinality i)"; cases "js_option (cardinality j)")
  fix c d assume i: "js_option (cardinality i) = Some c" and j: "js_option (cardinality j) = Some d"
  from assms i j have eq: "group c @ CHR ''^'' # show_int (number c) = group d @ CHR ''^'' # show_int (number d)"
    by (simp add: cardinality_suffix_def)
  have no: "CHR ''^'' \<notin> set (show_int n)" for n
    using show_int_chars by fastforce
  from split_last_unique[OF eq no no] have "group c = group d" "show_int (number c) = show_int (number d)"
    by simp_all
  moreover from this(2) have "number c = number d"
    using show_int_prefix[of "number c" "[]" "number d" "[]"] by (simp add: no_digit_head_def)
  ultimately show ?thesis using i j by (cases c; cases d) simp
qed (use assms in \<open>auto simp: cardinality_suffix_def\<close>)

lemma no_digit_head_suffixes:
  "no_digit_head (cardinality_suffix i)" "no_digit_head (priority_suffix i @ cardinality_suffix i)"
  by (auto simp: no_digit_head_def cardinality_suffix_def priority_suffix_def split: option.splits)

lemma priority_suffix_inject:
  assumes "priority_suffix i @ cardinality_suffix i = priority_suffix j @ cardinality_suffix j"
  shows "getPriority i = getPriority j \<and> cardinality_suffix i = cardinality_suffix j"
proof -
  have hd_card: "cardinality_suffix k \<noteq> CHR '':'' # xs" for k xs
    by (simp add: cardinality_suffix_def split: option.splits)
  show ?thesis
  proof (cases "getPriority i = 0"; cases "getPriority j = 0")
    assume "getPriority i \<noteq> 0" "getPriority j \<noteq> 0"
    with assms have "show_int (getPriority i) @ cardinality_suffix i = show_int (getPriority j) @ cardinality_suffix j"
      by (simp add: priority_suffix_def)
    from show_int_prefix[OF this no_digit_head_suffixes(1) no_digit_head_suffixes(1)] show ?thesis .
  qed (use assms hd_card in \<open>auto simp: priority_suffix_def dest: sym\<close>)
qed

text \<open>
  The string form is the key of the weave's lookup maps. For sites without an \<^verbatim>\<open>@\<close> it identifies
  exactly the ids with the same site, timestamp, effective priority and cardinality.
\<close>

lemma atomIdToString_eq_iff:
  assumes "CHR ''@'' \<notin> set (site i)" and "CHR ''@'' \<notin> set (site j)"
  shows "atomIdToString i = atomIdToString j \<longleftrightarrow>
    site i = site j \<and> timestamp i = timestamp j \<and> getPriority i = getPriority j
    \<and> js_option (cardinality i) = js_option (cardinality j)" (is "?L \<longleftrightarrow> ?R")
proof
  assume ?L
  then have "site i = site j \<and> show_int (timestamp i) @ priority_suffix i @ cardinality_suffix i
      = show_int (timestamp j) @ priority_suffix j @ cardinality_suffix j"
    unfolding atomIdToString_parts by (rule split_first_unique) (use assms in auto)
  then have s: "site i = site j" and "timestamp i = timestamp j"
    and "priority_suffix i @ cardinality_suffix i = priority_suffix j @ cardinality_suffix j"
    using show_int_prefix[OF _ no_digit_head_suffixes(2) no_digit_head_suffixes(2)] by blast+
  with priority_suffix_inject cardinality_suffix_inject show ?R by blast
next
  assume ?R
  then show ?L by (simp add: atomIdToString_parts priority_suffix_def cardinality_suffix_def)
qed

lemma idEquals_same_string: "idEquals (Some i) (Some j) \<Longrightarrow> atomIdToString i = atomIdToString j"
  by (cases i; cases j)
    (auto simp: id_norm_def js_norm_eq_iff atomIdToString_def elim!: js_option.elims split: js.splits)

section \<open>Hashes\<close>

lemma atomMatchesHash_atom: "atomMatchesHash H (atom H i c v) c"
  by (simp add: atomMatchesHash_def atom_def)

end
