(* ===== verification/WeaveNodes.thy ===== *)
theory WeaveNodes
  imports Atom2
begin

text \<open>
  The linked list of a weave: \<^verbatim>\<open>WeaveNode\<close>, the generators that walk it and the pointer updates
  that splice it (\<^verbatim>\<open>src/src/causal-trees/core2/Weave2.ts\<close>).

  Nodes are mutable objects that other parts of the program keep references to, so they live in
  an explicit heap from addresses to nodes. A generator that walks \<^verbatim>\<open>next\<close> or \<^verbatim>\<open>prev\<close> pointers
  does not return on a cycle; it is a partial function whose result is \<open>None\<close> then.
  No generator is running while a pointer is changed (the loops that insert return at once,
  the loops that update lookup maps change no pointer), so a generator is modelled by the list it
  yields.
\<close>

section \<open>Nodes\<close>

record 'v weave_node =
  node_atom :: "'v atom"
  next_node :: "nat option"
  prev_node :: "nat option"

type_synonym 'v node_heap = "nat \<Rightarrow> 'v weave_node option"

definition set_next :: "nat \<Rightarrow> nat option \<Rightarrow> 'v node_heap \<Rightarrow> 'v node_heap" where
  "set_next n p h = h(n := map_option (\<lambda>nd. nd\<lparr>next_node := p\<rparr>) (h n))"

definition set_prev :: "nat \<Rightarrow> nat option \<Rightarrow> 'v node_heap \<Rightarrow> 'v node_heap" where
  "set_prev n p h = h(n := map_option (\<lambda>nd. nd\<lparr>prev_node := p\<rparr>) (h n))"

text \<open>\<^verbatim>\<open>if (next) next.prev = prev\<close> and \<^verbatim>\<open>if (prev) prev.next = next\<close>.\<close>

definition set_next_of :: "nat option \<Rightarrow> nat option \<Rightarrow> 'v node_heap \<Rightarrow> 'v node_heap" where
  "set_next_of a p h = (case a of None \<Rightarrow> h | Some n \<Rightarrow> set_next n p h)"

definition set_prev_of :: "nat option \<Rightarrow> nat option \<Rightarrow> 'v node_heap \<Rightarrow> 'v node_heap" where
  "set_prev_of a p h = (case a of None \<Rightarrow> h | Some n \<Rightarrow> set_prev n p h)"

section \<open>Generators\<close>

partial_function (option) iterateFrom :: "'v node_heap \<Rightarrow> nat option \<Rightarrow> nat list option" where
  "iterateFrom h p =
     (case p of None \<Rightarrow> Some []
      | Some n \<Rightarrow> do { nd \<leftarrow> h n; rest \<leftarrow> iterateFrom h (next_node nd); Some (n # rest) })"

partial_function (option) iterateReverse :: "'v node_heap \<Rightarrow> nat option \<Rightarrow> nat list option" where
  "iterateReverse h p =
     (case p of None \<Rightarrow> Some []
      | Some n \<Rightarrow> do { nd \<leftarrow> h n; rest \<leftarrow> iterateReverse h (prev_node nd); Some (n # rest) })"

text \<open>The loop of \<^verbatim>\<open>iterateCausalGroup\<close>: it stops at the first node that is not later than \<open>t\<close>.\<close>

partial_function (option) causalGroupFrom ::
    "'v node_heap \<Rightarrow> int \<Rightarrow> nat option \<Rightarrow> nat list option" where
  "causalGroupFrom h t p =
     (case p of None \<Rightarrow> Some []
      | Some n \<Rightarrow> do {
          nd \<leftarrow> h n;
          if timestamp (aid (node_atom nd)) \<le> t then Some []
          else do { rest \<leftarrow> causalGroupFrom h t (next_node nd); Some (n # rest) } })"

declare iterateFrom.simps [code] iterateReverse.simps [code] causalGroupFrom.simps [code]

definition iterateCausalGroup :: "'v node_heap \<Rightarrow> nat \<Rightarrow> nat list option" where
  "iterateCausalGroup h s =
     do { nd \<leftarrow> h s; causalGroupFrom h (timestamp (aid (node_atom nd))) (next_node nd) }"

text \<open>\<^verbatim>\<open>node.cause !== null && start.cause !== null && node.cause.timestamp < start.cause.timestamp\<close>.\<close>

definition cause_before :: "atom_id option \<Rightarrow> atom_id option \<Rightarrow> bool" where
  "cause_before a b = (case (a, b) of (Some x, Some y) \<Rightarrow> timestamp x < timestamp y | _ \<Rightarrow> False)"

partial_function (option) siblingsFrom ::
    "'v node_heap \<Rightarrow> atom_id option \<Rightarrow> nat option \<Rightarrow> nat list option" where
  "siblingsFrom h c p =
     (case p of None \<Rightarrow> Some []
      | Some n \<Rightarrow> do {
          nd \<leftarrow> h n;
          rest \<leftarrow> (if cause_before (cause (node_atom nd)) c then Some []
                  else siblingsFrom h c (next_node nd));
          Some (if idEquals (cause (node_atom nd)) c then n # rest else rest) })"

definition iterateSiblings :: "'v node_heap \<Rightarrow> nat \<Rightarrow> nat list option" where
  "iterateSiblings h s = do { nd \<leftarrow> h s; siblingsFrom h (cause (node_atom nd)) (next_node nd) }"

partial_function (option) newerSiblingsFrom ::
    "'v node_heap \<Rightarrow> atom_id option \<Rightarrow> nat option \<Rightarrow> nat list option" where
  "newerSiblingsFrom h c p =
     (case p of None \<Rightarrow> Some []
      | Some n \<Rightarrow> do {
          nd \<leftarrow> h n;
          rest \<leftarrow> (if cause_before (cause (node_atom nd)) c then Some []
                  else newerSiblingsFrom h c (prev_node nd));
          Some (if idEquals (cause (node_atom nd)) c then n # rest else rest) })"

definition iterateNewerSiblings :: "'v node_heap \<Rightarrow> nat \<Rightarrow> nat list option" where
  "iterateNewerSiblings h s =
     do { nd \<leftarrow> h s; newerSiblingsFrom h (cause (node_atom nd)) (prev_node nd) }"

declare siblingsFrom.simps [code] newerSiblingsFrom.simps [code]

text \<open>\<^verbatim>\<open>first\<close>, \<^verbatim>\<open>last\<close> and \<^verbatim>\<open>nth\<close> of an iterator.\<close>

definition first :: "'a list \<Rightarrow> 'a option" where
  "first xs = (case xs of [] \<Rightarrow> None | x # _ \<Rightarrow> Some x)"

definition last_of :: "'a list \<Rightarrow> 'a option" where
  "last_of xs = (if xs = [] then None else Some (last xs))"

definition nth_of :: "'a list \<Rightarrow> nat \<Rightarrow> 'a option" where
  "nth_of xs i = (if i < length xs then Some (xs ! i) else None)"

definition iterateChildren :: "'v node_heap \<Rightarrow> nat \<Rightarrow> nat list option" where
  "iterateChildren h s =
     do { g \<leftarrow> iterateCausalGroup h s;
          case first g of None \<Rightarrow> Some []
          | Some c \<Rightarrow> do { sibs \<leftarrow> iterateSiblings h c; Some (c # sibs) } }"

definition lastInCausalGroup :: "'v node_heap \<Rightarrow> nat \<Rightarrow> nat option" where
  "lastInCausalGroup h s =
     do { g \<leftarrow> iterateCausalGroup h s;
          Some (case last_of g of None \<Rightarrow> s | Some n \<Rightarrow> n) }"

section \<open>Pointer updates\<close>

definition createNode :: "'v atom \<Rightarrow> nat option \<Rightarrow> nat option \<Rightarrow> 'v weave_node" where
  "createNode a nx pv = \<lparr>node_atom = a, next_node = nx, prev_node = pv\<rparr>"

text \<open>\<^verbatim>\<open>_insertNodeBefore\<close> and \<^verbatim>\<open>_insertNodeAfter\<close> splice an existing run of nodes into a list.\<close>

definition insertNodeBefore :: "'v node_heap \<Rightarrow> nat \<Rightarrow> nat \<Rightarrow> nat \<Rightarrow> 'v node_heap option" where
  "insertNodeBefore h pos start en =
     do { nd \<leftarrow> h pos;
          let h1 = (case prev_node nd of None \<Rightarrow> h
                    | Some q \<Rightarrow> set_prev start (Some q) (set_next q (Some start) h));
              h2 = set_next en (Some pos) h1
          in Some (set_prev pos (Some en) h2) }"

definition insertNodeAfter :: "'v node_heap \<Rightarrow> nat \<Rightarrow> nat \<Rightarrow> nat \<Rightarrow> 'v node_heap option" where
  "insertNodeAfter h pos start en =
     do { nd \<leftarrow> h pos;
          let nx = next_node nd;
              h1 = set_prev_of nx (Some en) h;
              h2 = set_next pos (Some start) h1;
              h3 = set_prev start (Some pos) h2
          in Some (set_next en nx h3) }"

text \<open>The pointer part of \<^verbatim>\<open>_insertBefore\<close> and \<^verbatim>\<open>_insertAfter\<close>; \<open>n\<close> is the new node's address.\<close>

definition linkBefore :: "'v node_heap \<Rightarrow> nat \<Rightarrow> nat \<Rightarrow> 'v atom \<Rightarrow> 'v node_heap option" where
  "linkBefore h n pos a =
     do { nd \<leftarrow> h pos;
          let pv = prev_node nd;
              h1 = h(n \<mapsto> createNode a (Some pos) pv);
              h2 = set_next_of pv (Some n) h1
          in Some (set_prev pos (Some n) h2) }"

definition linkAfter :: "'v node_heap \<Rightarrow> nat \<Rightarrow> nat \<Rightarrow> 'v atom \<Rightarrow> 'v node_heap option" where
  "linkAfter h n pos a =
     do { nd \<leftarrow> h pos;
          let nx = next_node nd;
              h1 = h(n \<mapsto> createNode a nx (Some pos));
              h2 = set_prev_of nx (Some n) h1
          in Some (set_next pos (Some n) h2) }"

text \<open>The pointer part of \<^verbatim>\<open>_removeSpan\<close>.\<close>

definition unlinkSpan :: "'v node_heap \<Rightarrow> nat \<Rightarrow> nat \<Rightarrow> 'v node_heap option" where
  "unlinkSpan h start en =
     do { nds \<leftarrow> h start; nde \<leftarrow> h en;
          let nx = next_node nde;
              pv = prev_node nds;
              h1 = set_prev_of nx pv h;
              h2 = set_next_of pv nx h1;
              h3 = set_prev start None h2
          in Some (set_next en None h3) }"

end
