(* ===== verification/Weave2.thy ===== *)
theory Weave2
  imports WeaveNodes
begin

text \<open>
  The class \<^verbatim>\<open>Weave\<close> of \<^verbatim>\<open>src/src/causal-trees/core2/Weave2.ts\<close>: the state of a weave and its
  operations, each threading the state it mutates. The outer \<open>option\<close> of an operation is \<open>None\<close>
  where a generator would not return; exceptions are \<open>Inl\<close>.
\<close>

section \<open>Results\<close>

datatype 'v weave_result =
    AtomAdded "'v atom"
  | AtomsAdded "'v atom list"
  | AtomAlreadyAdded "'v atom"
  | AtomRemoved nat
  | CauseNotFound "'v atom" bool
  | HashFailed "'v atom"
  | InvalidTimestamp "'v atom"
  | Conflict (winner: "'v atom") (loser: "'v atom") (loserRef: "nat option")
  | InvalidArgument
  | AtomNotFound "'v atom"
  | InvalidCardinality "'v atom"
  | CardinalityViolated "'v atom"
  | NothingHappened

datatype js_error = TypeError | Error string

section \<open>State\<close>

record cardinality_stats =
  current :: int
  max_number :: int

definition DEFAULT_REORDER_BUFFER_SIZE :: nat where
  "DEFAULT_REORDER_BUFFER_SIZE = 10"

text \<open>
  A JavaScript \<^verbatim>\<open>Map\<close> that is only read by key is a HOL map; the reorder buffer is also iterated, in
  insertion order, so it is an association list (\<^verbatim>\<open>set\<close> on a present key keeps its place, as
  \<open>AList.update\<close> does). \<open>next_addr\<close> is the address of the next node to be created.
\<close>

record 'v weave =
  heap :: "'v node_heap"
  next_addr :: nat
  roots :: "nat list"
  cardinalityMap :: "string \<Rightarrow> cardinality_stats option"
  idMap :: "string \<Rightarrow> nat option"
  hashMap :: "string \<Rightarrow> nat option"
  reorderBuffer :: "(string \<times> nat) list"
  maxReorderBufferSize :: nat

definition new_weave :: "nat option \<Rightarrow> 'v weave" where
  "new_weave maxSize =
     \<lparr>heap = Map.empty, next_addr = 0, roots = [], cardinalityMap = Map.empty, idMap = Map.empty,
      hashMap = Map.empty, reorderBuffer = [],
      maxReorderBufferSize =
        (case maxSize of None \<Rightarrow> DEFAULT_REORDER_BUFFER_SIZE
         | Some m \<Rightarrow> if m = 0 then DEFAULT_REORDER_BUFFER_SIZE else m)\<rparr>"

section \<open>Reading\<close>

definition node_at :: "'v weave \<Rightarrow> nat \<Rightarrow> 'v atom option" where
  "node_at w n = map_option node_atom (heap w n)"

fun atoms_at :: "'v weave \<Rightarrow> nat list \<Rightarrow> 'v atom list option" where
  "atoms_at w [] = Some []"
| "atoms_at w (n # ns) = do { a \<leftarrow> node_at w n; rest \<leftarrow> atoms_at w ns; Some (a # rest) }"

fun iterateAtoms :: "'v weave \<Rightarrow> nat list \<Rightarrow> 'v atom list option" where
  "iterateAtoms w [] = Some []"
| "iterateAtoms w (r # rs) =
     do { ns \<leftarrow> iterateFrom (heap w) (Some r);
          xs \<leftarrow> atoms_at w ns;
          rest \<leftarrow> iterateAtoms w rs;
          Some (xs @ rest) }"

definition getAtoms :: "'v weave \<Rightarrow> 'v atom list option" where
  "getAtoms w = iterateAtoms w (roots w)"

definition getNode :: "'v weave \<Rightarrow> atom_id \<Rightarrow> nat option" where
  "getNode w i = idMap w (atomIdToString i)"

definition getNodeByHash :: "'v weave \<Rightarrow> string \<Rightarrow> nat option" where
  "getNodeByHash w h = hashMap w h"

text \<open>The loop of \<^verbatim>\<open>referenceChain\<close>; the thrown error names the cause that is missing.\<close>

partial_function (option) referenceChainFrom ::
    "'v weave \<Rightarrow> atom_id option \<Rightarrow> (js_error + nat list) option" where
  "referenceChainFrom w c =
     (case c of None \<Rightarrow> Some (Inr [])
      | Some i \<Rightarrow>
          (case getNode w i of
             None \<Rightarrow> Some (Inl (Error (''[Weave] Could not find cause for atom '' @ atomIdToString i)))
           | Some n \<Rightarrow> do {
               a \<leftarrow> node_at w n;
               r \<leftarrow> referenceChainFrom w (cause a);
               Some (case r of Inl e \<Rightarrow> Inl e | Inr ns \<Rightarrow> Inr (n # ns)) }))"

declare referenceChainFrom.simps [code]

definition referenceChain :: "'v weave \<Rightarrow> atom_id \<Rightarrow> (js_error + nat list) option" where
  "referenceChain w i =
     (case getNode w i of None \<Rightarrow> Some (Inr [])
      | Some n \<Rightarrow> do {
          a \<leftarrow> node_at w n;
          r \<leftarrow> referenceChainFrom w (cause a);
          Some (case r of Inl e \<Rightarrow> Inl e | Inr ns \<Rightarrow> Inr (n # ns)) })"

section \<open>The order of siblings\<close>

text \<open>
  \<^verbatim>\<open>_compareAtomIds\<close>: higher priority first, then later timestamp, then lower site. The first three
  tests of the source are about missing ids and identical objects; ids are never missing here, and
  the same object compares as equal by the remaining tests.
\<close>

definition compareAtomIds :: "atom_id \<Rightarrow> atom_id \<Rightarrow> int" where
  "compareAtomIds a b =
     (if getPriority a > getPriority b then -1
      else if getPriority a < getPriority b then 1
      else if timestamp a > timestamp b then -1
      else if timestamp a < timestamp b then 1
      else if site a < site b then -1
      else if site a > site b then 1
      else 0)"

section \<open>Lookup maps\<close>

definition addNodeToMaps :: "'v weave \<Rightarrow> nat \<Rightarrow> 'v atom \<Rightarrow> bool \<Rightarrow> 'v weave" where
  "addNodeToMaps w n a toBuffer =
     (if toBuffer then w\<lparr>reorderBuffer := AList.update (atomIdToString (aid a)) n (reorderBuffer w)\<rparr>
      else w\<lparr>idMap := (idMap w)(atomIdToString (aid a) \<mapsto> n), hashMap := (hashMap w)(ahash a \<mapsto> n)\<rparr>)"

definition removeNodeIdFromMaps :: "'v weave \<Rightarrow> 'v atom \<Rightarrow> bool \<Rightarrow> 'v weave" where
  "removeNodeIdFromMaps w a fromBuffer =
     (if fromBuffer then w\<lparr>reorderBuffer := AList.delete (atomIdToString (aid a)) (reorderBuffer w)\<rparr>
      else w\<lparr>idMap := (idMap w)(atomIdToString (aid a) := None), hashMap := (hashMap w)(ahash a := None)\<rparr>)"

fun removeNodesFromMaps :: "'v weave \<Rightarrow> nat list \<Rightarrow> bool \<Rightarrow> 'v weave option" where
  "removeNodesFromMaps w [] b = Some w"
| "removeNodesFromMaps w (n # ns) b =
     do { a \<leftarrow> node_at w n; removeNodesFromMaps (removeNodeIdFromMaps w a b) ns b }"

definition removeListFromMaps :: "'v weave \<Rightarrow> nat \<Rightarrow> bool \<Rightarrow> 'v weave option" where
  "removeListFromMaps w n b =
     do { a \<leftarrow> node_at w n;
          let w1 = removeNodeIdFromMaps w a b;
          ns \<leftarrow> iterateFrom (heap w1) (Some n);
          removeNodesFromMaps w1 ns b }"

section \<open>Adding nodes\<close>

definition alloc_node :: "'v weave \<Rightarrow> 'v atom \<Rightarrow> nat \<times> 'v weave" where
  "alloc_node w a =
     (next_addr w,
      w\<lparr>heap := (heap w)(next_addr w \<mapsto> createNode a None None), next_addr := Suc (next_addr w)\<rparr>)"

definition addRoot :: "'v weave \<Rightarrow> 'v atom \<Rightarrow> nat \<times> 'v weave" where
  "addRoot w a =
     (let (n, w1) = alloc_node w a
      in (n, addNodeToMaps (w1\<lparr>roots := roots w1 @ [n]\<rparr>) n a False))"

definition addToReorderBuffer :: "'v weave \<Rightarrow> 'v atom \<Rightarrow> nat \<times> 'v weave" where
  "addToReorderBuffer w a =
     (let (n, w1) = alloc_node w a in (n, addNodeToMaps w1 n a True))"

definition insertBefore :: "'v weave \<Rightarrow> nat \<Rightarrow> 'v atom \<Rightarrow> bool \<Rightarrow> (nat \<times> 'v weave) option" where
  "insertBefore w pos a b =
     do { h \<leftarrow> linkBefore (heap w) (next_addr w) pos a;
          Some (next_addr w,
                addNodeToMaps (w\<lparr>heap := h, next_addr := Suc (next_addr w)\<rparr>) (next_addr w) a b) }"

definition insertAfter :: "'v weave \<Rightarrow> nat \<Rightarrow> 'v atom \<Rightarrow> bool \<Rightarrow> (nat \<times> 'v weave) option" where
  "insertAfter w pos a b =
     do { h \<leftarrow> linkAfter (heap w) (next_addr w) pos a;
          Some (next_addr w,
                addNodeToMaps (w\<lparr>heap := h, next_addr := Suc (next_addr w)\<rparr>) (next_addr w) a b) }"

text \<open>
  The position search that \<^verbatim>\<open>_insertUnder\<close> and \<^verbatim>\<open>_insertNodeUnder\<close> share: the first child of the
  cause that the new id sorts before (\<open>Inl\<close>), otherwise the last node of the causal group, or the
  cause itself when the group is empty (\<open>Inr\<close>).
\<close>

fun findPosition :: "'v weave \<Rightarrow> atom_id \<Rightarrow> atom_id \<Rightarrow> nat \<Rightarrow> nat list \<Rightarrow> (nat + nat) option" where
  "findPosition w causeId newId lastNode [] = Some (Inr lastNode)"
| "findPosition w causeId newId lastNode (n # ns) =
     do { a \<leftarrow> node_at w n;
          if idEquals (cause a) (Some causeId) \<and> compareAtomIds newId (aid a) < 0
          then Some (Inl n)
          else findPosition w causeId newId n ns }"

definition insertUnder :: "'v weave \<Rightarrow> nat \<Rightarrow> 'v atom \<Rightarrow> bool \<Rightarrow> (nat \<times> 'v weave) option" where
  "insertUnder w c a b =
     do { ca \<leftarrow> node_at w c;
          g \<leftarrow> iterateCausalGroup (heap w) c;
          pos \<leftarrow> findPosition w (aid ca) (aid a) c g;
          case pos of Inl n \<Rightarrow> insertBefore w n a b | Inr n \<Rightarrow> insertAfter w n a b }"

definition insertNodeUnder :: "'v weave \<Rightarrow> nat \<Rightarrow> nat \<Rightarrow> nat \<Rightarrow> 'v weave option" where
  "insertNodeUnder w c start en =
     do { ca \<leftarrow> node_at w c;
          sa \<leftarrow> node_at w start;
          g \<leftarrow> iterateCausalGroup (heap w) c;
          pos \<leftarrow> findPosition w (aid ca) (aid sa) c g;
          h \<leftarrow> (case pos of Inl n \<Rightarrow> insertNodeBefore (heap w) n start en
                | Inr n \<Rightarrow> insertNodeAfter (heap w) n start en);
          Some (w\<lparr>heap := h\<rparr>) }"

text \<open>
  \<^verbatim>\<open>_addMissingChildren\<close>: every buffered node whose cause is the given node is spliced under it with
  the run of nodes that follows it; unless the given node is itself buffered, the run leaves the
  reorder buffer for the lookup maps. The result tells whether a child was found.
\<close>

fun moveFromBuffer :: "'v weave \<Rightarrow> nat list \<Rightarrow> 'v weave option" where
  "moveFromBuffer w [] = Some w"
| "moveFromBuffer w (n # ns) =
     do { a \<leftarrow> node_at w n;
          moveFromBuffer (addNodeToMaps (removeNodeIdFromMaps w a True) n a False) ns }"

fun addMissingFrom :: "'v weave \<Rightarrow> nat \<Rightarrow> bool \<Rightarrow> nat list \<Rightarrow> (bool \<times> 'v weave) option" where
  "addMissingFrom w atomNode inBuffer [] = Some (False, w)"
| "addMissingFrom w atomNode inBuffer (n # ns) =
     do { pa \<leftarrow> node_at w atomNode;
          ca \<leftarrow> node_at w n;
          if idEquals (Some (aid pa)) (cause ca) then
            do { run \<leftarrow> iterateFrom (heap w) (Some n);
                 w1 \<leftarrow> (if inBuffer then Some w else moveFromBuffer w run);
                 w2 \<leftarrow> insertNodeUnder w1 atomNode n (last run);
                 (_, w3) \<leftarrow> addMissingFrom w2 atomNode inBuffer ns;
                 Some (True, w3) }
          else addMissingFrom w atomNode inBuffer ns }"

definition addMissingChildren :: "'v weave \<Rightarrow> nat \<Rightarrow> bool \<Rightarrow> (bool \<times> 'v weave) option" where
  "addMissingChildren w atomNode inBuffer =
     addMissingFrom w atomNode inBuffer (map snd (reorderBuffer w))"

section \<open>Removing nodes\<close>

definition removeSpan :: "'v weave \<Rightarrow> nat \<Rightarrow> nat \<Rightarrow> 'v weave option" where
  "removeSpan w start en =
     do { h \<leftarrow> unlinkSpan (heap w) start en;
          w1 \<leftarrow> removeListFromMaps (w\<lparr>heap := h\<rparr>) start False;
          a \<leftarrow> node_at w1 start;
          Some (if cause a = None then w1\<lparr>roots := remove1 start (roots w1)\<rparr> else w1) }"

definition remove_node :: "'v weave \<Rightarrow> nat \<Rightarrow> 'v weave option" where
  "remove_node w n = do { l \<leftarrow> lastInCausalGroup (heap w) n; removeSpan w n l }"

definition weave_remove :: "'v weave \<Rightarrow> 'v atom option \<Rightarrow> ('v weave_result \<times> 'v weave) option" where
  "weave_remove w ao =
     (case ao of None \<Rightarrow> Some (InvalidArgument, w)
      | Some a \<Rightarrow>
          (case getNode w (aid a) of None \<Rightarrow> Some (AtomNotFound a, w)
           | Some n \<Rightarrow> do { w1 \<leftarrow> remove_node w n; Some (AtomRemoved n, w1) }))"

definition removeSiblingsBefore ::
    "'v weave \<Rightarrow> 'v atom option \<Rightarrow> ('v weave_result \<times> 'v weave) option" where
  "removeSiblingsBefore w ao =
     (case ao of None \<Rightarrow> Some (InvalidArgument, w)
      | Some a \<Rightarrow>
          (case getNode w (aid a) of None \<Rightarrow> Some (AtomNotFound a, w)
           | Some n \<Rightarrow> do {
               sibs \<leftarrow> iterateSiblings (heap w) n;
               case first sibs of None \<Rightarrow> Some (NothingHappened, w)
               | Some firstSibling \<Rightarrow> do {
                   let lastSibling = last sibs;
                   lastChild \<leftarrow> lastInCausalGroup (heap w) lastSibling;
                   w1 \<leftarrow> removeSpan w firstSibling lastChild;
                   Some (AtomRemoved firstSibling, w1) } }))"

section \<open>Inserting atoms\<close>

definition resolveConflict ::
    "'v weave \<Rightarrow> nat \<Rightarrow> 'v atom \<Rightarrow> nat option \<Rightarrow> ('v weave_result \<times> 'v weave) option" where
  "resolveConflict w existing a causeNode =
     do { ea \<leftarrow> node_at w existing;
          if ahash ea \<noteq> ahash a then
            if ahash ea < ahash a then Some (Conflict ea a None, w)
            else do {
              w1 \<leftarrow> remove_node w existing;
              w2 \<leftarrow> (case causeNode of
                       Some c \<Rightarrow> map_option snd (insertUnder w1 c a False)
                     | None \<Rightarrow> Some (snd (addRoot w1 a)));
              Some (Conflict a ea (Some existing), w2) }
          else Some (AtomAlreadyAdded ea, w) }"

text \<open>
  The end of both successful branches of \<^verbatim>\<open>insert\<close>: adopt buffered children of the new node.
\<close>

definition adoptMissing ::
    "'v weave \<Rightarrow> nat \<Rightarrow> 'v atom \<Rightarrow> ('v weave_result \<times> 'v weave) option" where
  "adoptMissing w atomNode a =
     (if reorderBuffer w \<noteq> [] then
        do { (found, w1) \<leftarrow> addMissingChildren w atomNode False;
             if found then
               do { g \<leftarrow> iterateCausalGroup (heap w1) atomNode;
                    xs \<leftarrow> atoms_at w1 (atomNode # g);
                    Some (AtomsAdded xs, w1) }
             else Some (AtomAdded a, w1) }
      else Some (AtomAdded a, w))"

text \<open>
  The cardinality bookkeeping of a new root: \<open>None\<close> when its group is full, otherwise the updated
  statistics.
\<close>

definition countCardinality ::
    "(string \<Rightarrow> cardinality_stats option) \<Rightarrow> atom_id \<Rightarrow> (string \<Rightarrow> cardinality_stats option) option" where
  "countCardinality m i =
     (case cardinality i of
        Val c \<Rightarrow>
          (case m (group c) of
             Some st \<Rightarrow>
               if current st \<ge> max_number st then None
               else Some (m(group c \<mapsto> \<lparr>current = current st + 1,
                                        max_number = min (max_number st) (number c)\<rparr>))
           | None \<Rightarrow> Some (m(group c \<mapsto> \<lparr>current = 1, max_number = min (number c) (number c)\<rparr>)))
      | _ \<Rightarrow> Some m)"

text \<open>
  The validity test on a root's cardinality reads \<^verbatim>\<open>cardinality.number\<close> as soon as
  \<^verbatim>\<open>typeof cardinality\<close> is \<^verbatim>\<open>'object'\<close>, which it also is for \<^verbatim>\<open>null\<close>: that read throws.
\<close>

definition insertRoot ::
    "'v hasher \<Rightarrow> 'v weave \<Rightarrow> 'v atom \<Rightarrow> ((js_error + 'v weave_result) \<times> 'v weave) option" where
  "insertRoot H w a =
     (if \<not> atomMatchesHash H a None then Some (Inr (HashFailed a), w)
      else if cardinality (aid a) = Null then Some (Inl TypeError, w)
      else if (case cardinality (aid a) of Val c \<Rightarrow> number c \<le> 0 | _ \<Rightarrow> False)
        then Some (Inr (InvalidCardinality a), w)
      else (case getNode w (aid a) of
         Some existing \<Rightarrow>
           do { (r, w1) \<leftarrow> resolveConflict w existing a None; Some (Inr r, w1) }
       | None \<Rightarrow>
           (case countCardinality (cardinalityMap w) (aid a) of
              None \<Rightarrow> Some (Inr (CardinalityViolated a), w)
            | Some m \<Rightarrow>
                do { let (n, w1) = addRoot (w\<lparr>cardinalityMap := m\<rparr>) a;
                     (r, w2) \<leftarrow> adoptMissing w1 n a;
                     Some (Inr r, w2) })))"

text \<open>An atom whose cause is not in the weave is kept in the reorder buffer while there is room.\<close>

definition insertPending ::
    "'v hasher \<Rightarrow> 'v weave \<Rightarrow> 'v atom \<Rightarrow> atom_id \<Rightarrow> ((js_error + 'v weave_result) \<times> 'v weave) option" where
  "insertPending H w a causeId =
     (if length (reorderBuffer w) \<ge> maxReorderBufferSize w then Some (Inr (CauseNotFound a False), w)
      else (case map_of (reorderBuffer w) (atomIdToString causeId) of
         None \<Rightarrow>
           do { let (n, w1) = addToReorderBuffer w a;
                (_, w2) \<leftarrow> addMissingChildren w1 n True;
                Some (Inr (CauseNotFound a True), w2) }
       | Some c \<Rightarrow>
           do { ca \<leftarrow> node_at w c;
                if \<not> atomMatchesHash H a (Some ca) then Some (Inr (HashFailed a), w)
                else if timestamp (aid a) \<le> timestamp (aid ca) then Some (Inr (InvalidTimestamp a), w)
                else do {
                  let (n, w1) = addToReorderBuffer w a;
                  w2 \<leftarrow> insertNodeUnder w1 c n n;
                  (_, w3) \<leftarrow> addMissingChildren w2 n True;
                  Some (Inr (CauseNotFound a True), w3) } }))"

definition insertChild ::
    "'v hasher \<Rightarrow> 'v weave \<Rightarrow> 'v atom \<Rightarrow> nat \<Rightarrow> ((js_error + 'v weave_result) \<times> 'v weave) option" where
  "insertChild H w a c =
     do { ca \<leftarrow> node_at w c;
          if \<not> atomMatchesHash H a (Some ca) then Some (Inr (HashFailed a), w)
          else if timestamp (aid a) \<le> timestamp (aid ca) then Some (Inr (InvalidTimestamp a), w)
          else (case getNode w (aid a) of
             Some existing \<Rightarrow>
               do { (r, w1) \<leftarrow> resolveConflict w existing a (Some c); Some (Inr r, w1) }
           | None \<Rightarrow>
               do { (n, w1) \<leftarrow> insertUnder w c a False;
                    (r, w2) \<leftarrow> adoptMissing w1 n a;
                    Some (Inr r, w2) }) }"

definition weave_insert ::
    "'v hasher \<Rightarrow> 'v weave \<Rightarrow> 'v atom \<Rightarrow> ((js_error + 'v weave_result) \<times> 'v weave) option" where
  "weave_insert H w a =
     (case cause a of
        None \<Rightarrow> insertRoot H w a
      | Some causeId \<Rightarrow>
          (case getNode w causeId of
             None \<Rightarrow> insertPending H w a causeId
           | Some c \<Rightarrow> insertChild H w a c))"

section \<open>Reading results\<close>

definition addedWeaveAtoms :: "'v weave_result \<Rightarrow> 'v atom list option" where
  "addedWeaveAtoms r =
     (case r of AtomAdded a \<Rightarrow> Some [a] | Conflict win _ _ \<Rightarrow> Some [win] | AtomsAdded xs \<Rightarrow> Some xs
      | _ \<Rightarrow> None)"

text \<open>\<^verbatim>\<open>addedAtom\<close> returns one atom (\<open>Inl\<close>) or an array (\<open>Inr\<close>).\<close>

definition addedAtom :: "'v weave_result \<Rightarrow> ('v atom + 'v atom list) option" where
  "addedAtom r =
     (case r of AtomAdded a \<Rightarrow> Some (Inl a) | Conflict win _ _ \<Rightarrow> Some (Inl win)
      | AtomsAdded xs \<Rightarrow> Some (Inr xs) | _ \<Rightarrow> None)"

definition weaveRemovedAtoms :: "'v weave \<Rightarrow> 'v weave_result \<Rightarrow> 'v atom list option" where
  "weaveRemovedAtoms w r =
     (case r of
        Conflict _ _ ref \<Rightarrow> do { ns \<leftarrow> iterateFrom (heap w) ref; atoms_at w ns }
      | AtomRemoved n \<Rightarrow> do { ns \<leftarrow> iterateFrom (heap w) (Some n); atoms_at w ns }
      | _ \<Rightarrow> Some [])"

end
