(* ===== verification/SiteStatus.thy ===== *)
theory SiteStatus
  imports Weave2
begin

text \<open>
  Sites and their Lamport clocks: \<^verbatim>\<open>src/src/causal-trees/core2/SiteStatus.ts\<close> and
  \<^verbatim>\<open>AtomFactory2.ts\<close>. A fresh UUID is an argument of \<open>newSite\<close>.
\<close>

section \<open>Sites\<close>

record site_status =
  site_id :: string
  site_time :: int

definition newSite :: "string \<Rightarrow> string option \<Rightarrow> int option \<Rightarrow> site_status" where
  "newSite uuid i t =
     \<lparr>site_id = (case i of Some s \<Rightarrow> if s = [] then uuid else s | None \<Rightarrow> uuid),
      site_time = (case t of Some n \<Rightarrow> n | None \<Rightarrow> 0)\<rparr>"

definition calculateTimeFromId :: "string \<Rightarrow> int \<Rightarrow> string \<Rightarrow> int \<Rightarrow> int" where
  "calculateTimeFromId i time newId newTime =
     (if i \<noteq> newId then max time newTime + 1 else max time newTime)"

definition calculateTime :: "site_status \<Rightarrow> 'v atom \<Rightarrow> int" where
  "calculateTime s a = calculateTimeFromId (site_id s) (site_time s) (site (aid a)) (timestamp (aid a))"

text \<open>The loop over the added atoms starts at \<open>-1\<close>.\<close>

fun latest_time :: "site_status \<Rightarrow> int \<Rightarrow> 'v atom list \<Rightarrow> int" where
  "latest_time s t [] = t"
| "latest_time s t (a # as) = latest_time s (max t (calculateTime s a)) as"

definition calculateResultTime :: "site_status \<Rightarrow> 'v weave_result \<Rightarrow> int" where
  "calculateResultTime s r =
     (case addedAtom r of
        None \<Rightarrow> site_time s
      | Some (Inl a) \<Rightarrow> calculateTime s a
      | Some (Inr as) \<Rightarrow> latest_time s (-1) as)"

definition updateSite :: "site_status \<Rightarrow> 'v weave_result \<Rightarrow> site_status" where
  "updateSite s r =
     (case addedAtom r of
        None \<Rightarrow> s
      | Some (Inl a) \<Rightarrow> \<lparr>site_id = site_id s, site_time = calculateTime s a\<rparr>
      | Some (Inr as) \<Rightarrow> \<lparr>site_id = site_id s, site_time = latest_time s (-1) as\<rparr>)"

definition mergeSites :: "site_status option \<Rightarrow> site_status option \<Rightarrow> site_status option" where
  "mergeSites s1 s2 =
     (case (s1, s2) of
        (Some a, None) \<Rightarrow> Some a
      | (None, Some b) \<Rightarrow> Some b
      | (None, None) \<Rightarrow> None
      | (Some a, Some b) \<Rightarrow>
          Some \<lparr>site_id = site_id a,
                site_time = calculateTimeFromId (site_id a) (site_time a) (site_id b) (site_time b)\<rparr>)"

definition createAtom ::
    "'v hasher \<Rightarrow> site_status \<Rightarrow> 'v atom option \<Rightarrow> 'v \<Rightarrow> int js \<Rightarrow> atom_cardinality js \<Rightarrow> 'v atom" where
  "createAtom H s c v p k = atom H (atomId (site_id s) (site_time s + 1) p k) c v"

section \<open>Atom factories\<close>

record atom_factory =
  factory_site :: string
  factory_time :: int

definition updateTime :: "atom_factory \<Rightarrow> 'v atom \<Rightarrow> atom_factory" where
  "updateTime f a =
     (if site (aid a) \<noteq> factory_site f
      then f\<lparr>factory_time := max (factory_time f) (timestamp (aid a)) + 1\<rparr>
      else f\<lparr>factory_time := max (factory_time f) (timestamp (aid a))\<rparr>)"

definition create :: "'v hasher \<Rightarrow> atom_factory \<Rightarrow> 'v \<Rightarrow> 'v atom option \<Rightarrow> int js \<Rightarrow> 'v atom \<times> atom_factory" where
  "create H f v c p =
     (let f' = f\<lparr>factory_time := factory_time f + 1\<rparr>
      in (atom H (atomId (factory_site f') (factory_time f') p Undefined) c v, f'))"

section \<open>Clocks\<close>

lemma calculateTime_mono: "site_time s \<le> calculateTime s a"
  and calculateTime_covers: "timestamp (aid a) \<le> calculateTime s a"
  and calculateTime_other: "site (aid a) \<noteq> site_id s \<Longrightarrow> timestamp (aid a) < calculateTime s a"
  by (auto simp: calculateTime_def calculateTimeFromId_def)

lemma latest_time_ge: "t \<le> latest_time s t as"
proof (induction as arbitrary: t)
  case (Cons a as)
  from Cons[of "max t (calculateTime s a)"] show ?case by simp
qed simp

lemma latest_time_covers: "a \<in> set as \<Longrightarrow> calculateTime s a \<le> latest_time s t as"
proof (induction as arbitrary: t)
  case (Cons b as)
  then show ?case using latest_time_ge[of "max t (calculateTime s b)" s as] by auto
qed simp

lemma addedWeaveAtoms_addedAtom:
  "addedWeaveAtoms r = map_option (case_sum (\<lambda>a. [a]) (\<lambda>as. as)) (addedAtom r)"
  by (cases r) (simp_all add: addedWeaveAtoms_def addedAtom_def)

lemma updateSite_id [simp]: "site_id (updateSite s r) = site_id s"
  by (auto simp: updateSite_def split: option.splits sum.splits)

lemma updateSite_time: "site_time (updateSite s r) = calculateResultTime s r"
  by (auto simp: updateSite_def calculateResultTime_def split: option.splits sum.splits)

text \<open>After a result the clock covers every atom that was added, and is ahead of those of others.\<close>

lemma updateSite_covers:
  assumes "addedWeaveAtoms r = Some as" and "a \<in> set as"
  shows "timestamp (aid a) \<le> site_time (updateSite s r)"
    and "site (aid a) \<noteq> site_id s \<Longrightarrow> timestamp (aid a) < site_time (updateSite s r)"
    and "site_time s \<le> site_time (updateSite s r)"
proof -
  have "calculateTime s a \<le> site_time (updateSite s r)"
    using assms latest_time_covers[of a _ s "-1"]
    by (cases r) (auto simp: addedWeaveAtoms_def addedAtom_def updateSite_def)
  with calculateTime_mono[of s a] calculateTime_covers[of a s] calculateTime_other[of a s]
  show "timestamp (aid a) \<le> site_time (updateSite s r)"
    "site (aid a) \<noteq> site_id s \<Longrightarrow> timestamp (aid a) < site_time (updateSite s r)"
    "site_time s \<le> site_time (updateSite s r)"
    by auto
qed

lemma updateTime_covers:
  "timestamp (aid a) \<le> factory_time (updateTime f a)" "factory_time f \<le> factory_time (updateTime f a)"
  by (auto simp: updateTime_def)

end
