(* ===== verification/CausalOrder.thy ===== *)
theory CausalOrder
  imports Weave2
begin

text \<open>
  The abstract specification of a weave: \<^verbatim>\<open>Weave2.ts\<close> calls it the depth-first preorder traversal of
  a causal tree. A causal tree has an atom at every node and the atoms caused by it below, in the
  order of \<^verbatim>\<open>_compareAtomIds\<close>. This theory relates insertion into the tree to insertion into the
  traversal (the position search of \<^verbatim>\<open>_insertUnder\<close>), and shows that a well-formed tree is
  determined by its root and its set of atoms.
\<close>

section \<open>The order of siblings\<close>

abbreviation ts :: "'v atom \<Rightarrow> int" where "ts a \<equiv> timestamp (aid a)"

abbreviation prio :: "'v atom \<Rightarrow> int" where "prio a \<equiv> getPriority (aid a)"

definition sib_before :: "'v atom \<Rightarrow> 'v atom \<Rightarrow> bool" where
  "sib_before a b \<longleftrightarrow> compareAtomIds (aid a) (aid b) < 0"

text \<open>What \<^verbatim>\<open>_compareAtomIds\<close> compares.\<close>

definition okey :: "'v atom \<Rightarrow> int \<times> int \<times> string" where
  "okey a = (prio a, ts a, site (aid a))"

lemma sib_before_iff:
  "sib_before a b \<longleftrightarrow>
     prio b < prio a \<or> (prio a = prio b \<and> (ts b < ts a \<or> (ts a = ts b \<and> site (aid a) < site (aid b))))"
  by (auto simp: sib_before_def compareAtomIds_def)

lemma sib_before_irrefl: "\<not> sib_before a a"
  by (simp add: sib_before_iff)

lemma sib_before_trans: "sib_before a b \<Longrightarrow> sib_before b c \<Longrightarrow> sib_before a c"
  by (auto simp: sib_before_iff)

lemma sib_before_total: "okey a \<noteq> okey b \<Longrightarrow> sib_before a b \<or> sib_before b a"
  by (auto simp: sib_before_iff okey_def)

lemma compareAtomIds_refl [simp]: "compareAtomIds i i = 0"
  by (simp add: compareAtomIds_def)

lemma compareAtomIds_zero_iff:
  "compareAtomIds i j = 0 \<longleftrightarrow>
     getPriority i = getPriority j \<and> timestamp i = timestamp j \<and> site i = site j"
  by (auto simp: compareAtomIds_def)

lemma compareAtomIds_antisym: "compareAtomIds i j = - compareAtomIds j i"
  by (auto simp: compareAtomIds_def)

lemma id_norm_okey:
  assumes "id_norm (aid a) = id_norm (aid b)"
  shows "okey a = okey b"
proof -
  from assms have "js_norm (priority (aid a)) = js_norm (priority (aid b))"
    by (cases "aid a"; cases "aid b") (simp add: id_norm_def)
  then have "prio a = prio b"
    by (cases "priority (aid a)"; cases "priority (aid b)") (simp_all add: getPriority_def)
  moreover from assms have "ts a = ts b" "site (aid a) = site (aid b)"
    by (metis timestamp_id_norm, metis site_id_norm)
  ultimately show ?thesis by (simp add: okey_def)
qed

section \<open>Causal trees\<close>

datatype 'v ctree = CNode (root_atom: "'v atom") (kids: "'v ctree list")

fun preorder :: "'v ctree \<Rightarrow> 'v atom list" where
  "preorder (CNode a ks) = a # concat (map preorder ks)"

abbreviation forest :: "'v ctree list \<Rightarrow> 'v atom list" where
  "forest ks \<equiv> concat (map preorder ks)"

text \<open>
  A well-formed tree: every child names its parent as its cause and is later than it, siblings are
  in the order of \<^verbatim>\<open>_compareAtomIds\<close>, priorities are not negative and an atom with children has
  priority 0 (a prioritised atom is a leaf: see \<open>weave_remove_takes_sibling\<close> in
  \<^verbatim>\<open>WeaveFindings\<close> for what happens to one with children).
\<close>

fun wf_ctree :: "'v ctree \<Rightarrow> bool" where
  "wf_ctree (CNode a ks) \<longleftrightarrow>
     0 \<le> prio a \<and> (ks \<noteq> [] \<longrightarrow> prio a = 0) \<and> sorted_wrt sib_before (map root_atom ks) \<and>
     (\<forall>k\<in>set ks. idEquals (cause (root_atom k)) (Some (aid a)) \<and> ts a < ts (root_atom k) \<and> wf_ctree k)"

lemma preorder_root: "preorder t = root_atom t # forest (kids t)"
  by (cases t) simp

lemma preorder_not_Nil [simp]: "preorder t \<noteq> []"
  by (cases t) simp

lemma hd_preorder [simp]: "hd (preorder t) = root_atom t"
  by (cases t) simp

lemma root_in_preorder [simp]: "root_atom t \<in> set (preorder t)"
  by (cases t) simp

lemma prio_nonneg: "wf_ctree t \<Longrightarrow> x \<in> set (preorder t) \<Longrightarrow> 0 \<le> prio x"
  by (induction t arbitrary: x) auto

lemma ts_ge_root: "wf_ctree t \<Longrightarrow> x \<in> set (preorder t) \<Longrightarrow> ts (root_atom t) \<le> ts x"
proof (induction t arbitrary: x)
  case (CNode a ks)
  then show ?case by fastforce
qed

lemma ts_gt_root: "wf_ctree (CNode a ks) \<Longrightarrow> x \<in> set (forest ks) \<Longrightarrow> ts a < ts x"
  using ts_ge_root by fastforce

text \<open>Every atom below the root has its cause in the tree.\<close>

lemma cause_in_tree:
  assumes "wf_ctree t" and "x \<in> set (preorder t)"
  shows "x = root_atom t \<or> (\<exists>p\<in>set (preorder t). idEquals (cause x) (Some (aid p)))"
  using assms
proof (induction t arbitrary: x)
  case (CNode a ks)
  show ?case
  proof (cases "x = a")
    case False
    with CNode.prems obtain k where k: "k \<in> set ks" "x \<in> set (preorder k)" by auto
    with CNode have "x = root_atom k \<or> (\<exists>p\<in>set (preorder k). idEquals (cause x) (Some (aid p)))"
      by auto
    then show ?thesis
    proof
      assume "x = root_atom k"
      with CNode.prems k show ?thesis by (intro disjI2 bexI[of _ a]) auto
    next
      assume "\<exists>p\<in>set (preorder k). idEquals (cause x) (Some (aid p))"
      with k show ?thesis by auto
    qed
  qed simp
qed

section \<open>Insertion into the traversal\<close>

text \<open>
  What the position search of \<^verbatim>\<open>_insertUnder\<close> does to the atoms that follow the cause: it skips the
  causal group up to the first child of the cause that the new atom sorts before.
\<close>

fun insert_group :: "'v atom \<Rightarrow> 'v atom \<Rightarrow> 'v atom list \<Rightarrow> 'v atom list" where
  "insert_group c a [] = [a]"
| "insert_group c a (b # bs) =
     (if ts b \<le> ts c \<or> (idEquals (cause b) (Some (aid c)) \<and> sib_before a b) then a # b # bs
      else b # insert_group c a bs)"

fun insert_at :: "'v atom \<Rightarrow> 'v atom \<Rightarrow> 'v atom list \<Rightarrow> 'v atom list" where
  "insert_at c a [] = []"
| "insert_at c a (x # xs) =
     (if okey x = okey c then x # insert_group c a xs else x # insert_at c a xs)"

lemma set_insert_group [simp]: "set (insert_group c a xs) = insert a (set xs)"
  by (induction xs) auto

lemma insert_group_skip:
  assumes "\<And>y. y \<in> set ys \<Longrightarrow> ts c < ts y \<and> \<not> (idEquals (cause y) (Some (aid c)) \<and> sib_before a y)"
  shows "insert_group c a (ys @ zs) = ys @ insert_group c a zs"
  using assms
proof (induction ys)
  case (Cons y ys)
  then have "insert_group c a (ys @ zs) = ys @ insert_group c a zs" by simp
  with Cons.prems[of y] show ?case by auto
qed simp

lemma insert_at_skip:
  "okey c \<notin> okey ` set xs \<Longrightarrow> insert_at c a (xs @ ys) = xs @ insert_at c a ys"
  by (induction xs) auto

lemma insert_at_split:
  "okey c \<notin> okey ` set ps \<Longrightarrow> insert_at c a (ps @ c # qs) = ps @ c # insert_group c a qs"
  by (simp add: insert_at_skip)

section \<open>Insertion into the tree\<close>

fun insert_kid :: "'v atom \<Rightarrow> 'v ctree list \<Rightarrow> 'v ctree list" where
  "insert_kid a [] = [CNode a []]"
| "insert_kid a (k # ks) =
     (if sib_before a (root_atom k) then CNode a [] # k # ks else k # insert_kid a ks)"

fun tree_insert :: "'v atom \<Rightarrow> 'v atom \<Rightarrow> 'v ctree \<Rightarrow> 'v ctree" where
  "tree_insert c a (CNode x ks) =
     (if okey x = okey c then CNode x (insert_kid a ks) else CNode x (map (tree_insert c a) ks))"

lemma set_insert_kid: "set (insert_kid a ks) = insert (CNode a []) (set ks)"
  by (induction ks) auto

lemma root_tree_insert [simp]: "root_atom (tree_insert c a t) = root_atom t"
  by (cases t) simp

lemma tree_insert_absent:
  "okey c \<notin> okey ` set (preorder t) \<Longrightarrow> tree_insert c a t = t"
  by (induction t) (auto intro!: map_idI)

lemma forest_okey_split:
  assumes "distinct (map okey (forest (us @ k # vs)))" and "c \<in> set (preorder k)"
  shows "okey c \<notin> okey ` set (forest us)" "okey c \<notin> okey ` set (forest vs)"
    "distinct (map okey (preorder k))"
  using distinct_map_split[of okey "forest us" "preorder k" "forest vs" c] assms by simp_all

lemma tree_insert_forest_absent:
  "okey c \<notin> okey ` set (forest ks) \<Longrightarrow> map (tree_insert c a) ks = ks"
  by (induction ks) (auto intro: tree_insert_absent)

lemma set_preorder_insert:
  "distinct (map okey (preorder t)) \<Longrightarrow> c \<in> set (preorder t) \<Longrightarrow>
   set (preorder (tree_insert c a t)) = insert a (set (preorder t))"
proof (induction t)
  case (CNode x ks)
  show ?case
  proof (cases "okey x = okey c")
    case True
    then show ?thesis by (auto simp: set_insert_kid)
  next
    case False
    with CNode.prems(2) obtain k where k: "k \<in> set ks" "c \<in> set (preorder k)" by auto
    then obtain us vs where ks: "ks = us @ k # vs" by (metis split_list)
    have dist: "distinct (map okey (forest (us @ k # vs)))" using CNode.prems(1) ks by simp
    note split = forest_okey_split[OF dist k(2)]
    from split have "map (tree_insert c a) us = us" "map (tree_insert c a) vs = vs"
      by (auto intro: tree_insert_forest_absent)
    moreover from CNode.IH[OF k(1) split(3) k(2)]
    have "set (preorder (tree_insert c a k)) = insert a (set (preorder k))" .
    ultimately show ?thesis using False ks by auto
  qed
qed

section \<open>The two insertions agree\<close>

text \<open>Below the children of \<open>c\<close> nothing names \<open>c\<close> as its cause.\<close>

lemma cause_below_kid:
  assumes "wf_ctree k" and "x \<in> set (forest (kids k))" and "okey c \<notin> okey ` set (preorder k)"
  shows "\<not> idEquals (cause x) (Some (aid c))"
proof
  assume eq: "idEquals (cause x) (Some (aid c))"
  obtain r ks where k: "k = CNode r ks" by (cases k)
  from assms(2) k obtain l where l: "l \<in> set ks" "x \<in> set (preorder l)" by auto
  from assms(1) k l have wf: "wf_ctree l" "idEquals (cause (root_atom l)) (Some (aid r))" by auto
  from cause_in_tree[OF wf(1) l(2)] wf(2)
  obtain p where "p \<in> set (preorder k)" "idEquals (cause x) (Some (aid p))"
    using k l by force
  with eq have "id_norm (aid p) = id_norm (aid c)" by (cases "cause x") auto
  then have "okey p = okey c" by (rule id_norm_okey)
  with \<open>p \<in> set (preorder k)\<close> assms(3) show False by (metis image_eqI)
qed

lemma insert_group_forest:
  assumes "\<And>k. k \<in> set ks \<Longrightarrow>
      wf_ctree k \<and> idEquals (cause (root_atom k)) (Some (aid c)) \<and> ts c < ts (root_atom k)"
    and "okey c \<notin> okey ` set (forest ks)"
    and "rest = [] \<or> ts (hd rest) \<le> ts c"
  shows "insert_group c a (forest ks @ rest) = forest (insert_kid a ks) @ rest"
  using assms(1,2)
proof (induction ks)
  case Nil
  from assms(3) show ?case by (cases rest) auto
next
  case (Cons k ks)
  show ?case
  proof (cases "sib_before a (root_atom k)")
    case True
    with Cons.prems(1)[of k] show ?thesis by (simp add: preorder_root)
  next
    case False
    have "insert_group c a (preorder k @ (forest ks @ rest)) = preorder k @ insert_group c a (forest ks @ rest)"
    proof (rule insert_group_skip)
      fix y assume y: "y \<in> set (preorder k)"
      from Cons.prems(1)[of k] ts_ge_root[of k y] y have "ts c < ts y" by force
      moreover have "y \<noteq> root_atom k \<Longrightarrow> \<not> idEquals (cause y) (Some (aid c))"
        using Cons.prems y by (intro cause_below_kid[of k y c]) (auto simp: preorder_root[of k])
      ultimately show "ts c < ts y \<and> \<not> (idEquals (cause y) (Some (aid c)) \<and> sib_before a y)"
        using False by auto
    qed
    moreover have "insert_group c a (forest ks @ rest) = forest (insert_kid a ks) @ rest"
      using Cons.prems by (intro Cons.IH) (auto simp: image_Un)
    ultimately show ?thesis using False by simp
  qed
qed

text \<open>A sibling after a subtree that can be inserted into is no later than the subtree's root.\<close>

lemma next_sibling_ts:
  assumes "wf_ctree (CNode x (us @ k # vs))" and "c \<in> set (preorder k)" and "prio c = 0"
    and "rest = [] \<or> ts (hd rest) \<le> ts x"
  shows "forest vs @ rest = [] \<or> ts (hd (forest vs @ rest)) \<le> ts (root_atom k)"
proof (cases vs)
  case Nil
  with assms show ?thesis by auto
next
  case (Cons v vs')
  have "prio (root_atom k) = 0"
    using assms by (cases k) (auto split: if_splits)
  moreover have "0 \<le> prio (root_atom v)"
    using assms(1) Cons by (auto intro: prio_nonneg)
  moreover have "sib_before (root_atom k) (root_atom v)"
    using assms(1) Cons by (simp add: sorted_wrt_append)
  ultimately show ?thesis using Cons by (auto simp: sib_before_iff preorder_root)
qed

theorem insert_at_preorder:
  assumes "wf_ctree t" and "distinct (map okey (preorder t))" and "c \<in> set (preorder t)"
    and "prio c = 0" and "rest = [] \<or> ts (hd rest) \<le> ts (root_atom t)"
  shows "insert_at c a (preorder t @ rest) = preorder (tree_insert c a t) @ rest"
  using assms
proof (induction t arbitrary: rest)
  case (CNode x ks)
  show ?case
  proof (cases "okey x = okey c")
    case True
    with CNode.prems have "x = c" using distinct_map_inj[of okey "preorder (CNode x ks)" x c] by simp
    moreover have "insert_group c a (forest ks @ rest) = forest (insert_kid a ks) @ rest"
      by (rule insert_group_forest) (use CNode.prems True \<open>x = c\<close> in \<open>auto simp: image_iff\<close>)
    ultimately show ?thesis by simp
  next
    case False
    with CNode.prems(3) obtain k where k: "k \<in> set ks" "c \<in> set (preorder k)" by auto
    then obtain us vs where ks: "ks = us @ k # vs" by (metis split_list)
    have dist: "distinct (map okey (forest (us @ k # vs)))" using CNode.prems(2) ks by simp
    note split = forest_okey_split[OF dist k(2)]
    have "insert_at c a (preorder k @ (forest vs @ rest)) = preorder (tree_insert c a k) @ (forest vs @ rest)"
      using CNode.prems k ks split(3) next_sibling_ts[of x us k vs c rest]
      by (intro CNode.IH) auto
    with False ks split(1,2) show ?thesis
      by (simp add: insert_at_skip tree_insert_forest_absent)
  qed
qed

section \<open>Insertion keeps the tree well-formed\<close>

lemma sorted_insert_kid:
  assumes "sorted_wrt sib_before (map root_atom ks)" and "okey a \<notin> okey ` root_atom ` set ks"
  shows "sorted_wrt sib_before (map root_atom (insert_kid a ks))"
  using assms
proof (induction ks)
  case (Cons k ks)
  show ?case
  proof (cases "sib_before a (root_atom k)")
    case True
    with Cons.prems show ?thesis by (auto intro: sib_before_trans)
  next
    case False
    with Cons.prems(2) sib_before_total[of a "root_atom k"] have "sib_before (root_atom k) a" by auto
    with Cons False show ?thesis by (auto simp: set_insert_kid)
  qed
qed simp

lemma wf_tree_insert:
  assumes "wf_ctree t" and "distinct (map okey (preorder t))" and "c \<in> set (preorder t)"
    and "prio c = 0" and "idEquals (cause a) (Some (aid c))" and "ts c < ts a" and "0 \<le> prio a"
    and "okey a \<notin> okey ` set (preorder t)"
  shows "wf_ctree (tree_insert c a t)"
  using assms
proof (induction t)
  case (CNode x ks)
  show ?case
  proof (cases "okey x = okey c")
    case True
    with CNode.prems have x: "x = c" using distinct_map_inj[of okey "preorder (CNode x ks)" x c] by simp
    have "okey a \<notin> okey ` root_atom ` set ks"
      using CNode.prems(8) root_in_preorder by (fastforce simp: image_iff)
    with CNode.prems x show ?thesis by (auto simp: set_insert_kid sorted_insert_kid)
  next
    case False
    with CNode.prems(3) obtain k where k: "k \<in> set ks" "c \<in> set (preorder k)" by auto
    then obtain us vs where ks: "ks = us @ k # vs" by (metis split_list)
    have dist: "distinct (map okey (forest (us @ k # vs)))" using CNode.prems(2) ks by simp
    note split = forest_okey_split[OF dist k(2)]
    from CNode.IH[OF k(1)] CNode.prems k ks split(3) have "wf_ctree (tree_insert c a k)" by auto
    with CNode.prems False ks split(1,2) show ?thesis by (simp add: tree_insert_forest_absent)
  qed
qed

lemma insert_group_split: "\<exists>us vs. xs = us @ vs \<and> insert_group c a xs = us @ a # vs"
proof (induction xs)
  case (Cons b bs)
  then obtain us vs where "bs = us @ vs" "insert_group c a bs = us @ a # vs" by blast
  then show ?case
    by (cases "ts b \<le> ts c \<or> (idEquals (cause b) (Some (aid c)) \<and> sib_before a b)")
      (auto intro: exI[of _ "[]"] exI[of _ "b # us"])
qed simp

lemma insert_at_insert:
  "okey c \<in> okey ` set xs \<Longrightarrow> \<exists>us vs. xs = us @ vs \<and> insert_at c a xs = us @ a # vs"
proof (induction xs)
  case (Cons x xs)
  show ?case
  proof (cases "okey x = okey c")
    case True
    obtain us vs where "xs = us @ vs" "insert_group c a xs = us @ a # vs"
      using insert_group_split by blast
    with True have "x # xs = (x # us) @ vs \<and> insert_at c a (x # xs) = (x # us) @ a # vs" by simp
    then show ?thesis by blast
  next
    case False
    with Cons obtain us vs where "xs = us @ vs" "insert_at c a xs = us @ a # vs" by auto
    with False have "x # xs = (x # us) @ vs \<and> insert_at c a (x # xs) = (x # us) @ a # vs" by simp
    then show ?thesis by blast
  qed
qed simp

lemma distinct_tree_insert:
  assumes "wf_ctree t" and "distinct (map okey (preorder t))" and "c \<in> set (preorder t)"
    and "prio c = 0" and "okey a \<notin> okey ` set (preorder t)"
  shows "distinct (map okey (preorder (tree_insert c a t)))"
proof -
  from insert_at_preorder[OF assms(1-4), of "[]" a]
  have eq: "preorder (tree_insert c a t) = insert_at c a (preorder t)" by simp
  from assms(3) insert_at_insert[of c "preorder t" a]
  obtain us vs where "preorder t = us @ vs" "insert_at c a (preorder t) = us @ a # vs" by auto
  with eq assms(2,5) show ?thesis by auto
qed

section \<open>A tree is determined by its atoms\<close>

lemma forest_unique_kid:
  "distinct (map okey (forest ks)) \<Longrightarrow> k \<in> set ks \<Longrightarrow> l \<in> set ks \<Longrightarrow>
   x \<in> set (preorder k) \<Longrightarrow> x \<in> set (preorder l) \<Longrightarrow> k = l"
proof (induction ks)
  case (Cons m ks)
  then have "\<And>j. j \<in> set ks \<Longrightarrow> x \<in> set (preorder m) \<Longrightarrow> x \<notin> set (preorder j)" by auto
  with Cons show ?case by auto
qed simp

lemma kid_roots:
  assumes "wf_ctree (CNode r ks)" and "distinct (map okey (preorder (CNode r ks)))"
  shows "root_atom ` set ks = {x \<in> set (forest ks). idEquals (cause x) (Some (aid r))}"
proof (intro set_eqI iffI)
  fix x assume "x \<in> root_atom ` set ks"
  then obtain k where "k \<in> set ks" "x = root_atom k" by blast
  with assms(1) show "x \<in> {x \<in> set (forest ks). idEquals (cause x) (Some (aid r))}"
    by (auto intro!: bexI[of _ k])
next
  fix x assume "x \<in> {x \<in> set (forest ks). idEquals (cause x) (Some (aid r))}"
  then obtain k where k: "k \<in> set ks" "x \<in> set (preorder k)" "idEquals (cause x) (Some (aid r))" by auto
  have "okey r \<notin> okey ` set (preorder k)" using assms(2) k(1) by auto
  with cause_below_kid[of k x r] k assms(1) have "x = root_atom k"
    by (auto simp: preorder_root[of k])
  with k(1) show "x \<in> root_atom ` set ks" by blast
qed

inductive below :: "'v atom set \<Rightarrow> 'v atom \<Rightarrow> 'v atom \<Rightarrow> bool" for S x where
  refl: "below S x x"
| step: "below S x y \<Longrightarrow> z \<in> S \<Longrightarrow> idEquals (cause z) (Some (aid y)) \<Longrightarrow> below S x z"

lemma below_trans: "below S y z \<Longrightarrow> below S x y \<Longrightarrow> below S x z"
  by (induction rule: below.induct) (auto intro: below.step)

lemma preorder_below:
  "wf_ctree t \<Longrightarrow> set (preorder t) \<subseteq> S \<Longrightarrow> y \<in> set (preorder t) \<Longrightarrow> below S (root_atom t) y"
proof (induction t arbitrary: y)
  case (CNode r ks)
  show ?case
  proof (cases "y = r")
    case True
    then show ?thesis by (simp add: below.refl)
  next
    case False
    with CNode.prems obtain k where k: "k \<in> set ks" "y \<in> set (preorder k)" by auto
    with CNode have "below S (root_atom k) y" by auto
    moreover have "root_atom k \<in> set (preorder (CNode r ks))" using k(1) by (auto intro!: bexI[of _ k])
    with CNode.prems(2) have "root_atom k \<in> S" by blast
    then have "below S r (root_atom k)"
      using CNode.prems(1) k(1) by (intro below.step[OF below.refl]) auto
    ultimately show ?thesis by (auto intro: below_trans)
  qed
qed

lemma below_kid:
  assumes "wf_ctree (CNode r ks)" and "distinct (map okey (preorder (CNode r ks)))" and "k \<in> set ks"
    and "below (set (forest ks)) (root_atom k) y"
  shows "y \<in> set (preorder k)"
  using assms(4)
proof (induction rule: below.induct[consumes 1, case_names refl step])
  case (step y z)
  then obtain l where l: "l \<in> set ks" "z \<in> set (preorder l)" by auto
  have wf: "wf_ctree l" "idEquals (cause (root_atom l)) (Some (aid r))" using assms(1) l(1) by auto
  have y: "y \<in> set (forest ks)" using step.IH assms(3) by auto
  have dist: "distinct (map okey (forest ks))" and "okey r \<notin> okey ` set (forest ks)"
    using assms(2) by auto
  have "z \<noteq> root_atom l"
  proof
    assume "z = root_atom l"
    with wf(2) step.hyps(3) have "id_norm (aid y) = id_norm (aid r)" by (cases "cause z") auto
    then have "okey y = okey r" by (rule id_norm_okey)
    with y \<open>okey r \<notin> okey ` set (forest ks)\<close> show False by (metis imageI)
  qed
  with cause_in_tree[OF wf(1) l(2)] obtain p where p: "p \<in> set (preorder l)" "idEquals (cause z) (Some (aid p))"
    by blast
  with step.hyps(3) have "id_norm (aid p) = id_norm (aid y)" by (cases "cause z") auto
  then have "okey p = okey y" by (rule id_norm_okey)
  moreover have "p \<in> set (forest ks)" using p(1) l(1) by auto
  ultimately have "p = y" using distinct_map_inj[OF dist] y by blast
  with forest_unique_kid[OF dist assms(3) l(1)] step.IH p(1) have "k = l" by blast
  with l(2) show ?case by simp
qed simp

theorem wf_ctree_unique:
  assumes "wf_ctree t1" and "wf_ctree t2"
    and "distinct (map okey (preorder t1))" and "distinct (map okey (preorder t2))"
    and "root_atom t1 = root_atom t2" and "set (preorder t1) = set (preorder t2)"
  shows "t1 = t2"
  using assms
proof (induction t1 arbitrary: t2)
  case (CNode r ks)
  then obtain ls where t2: "t2 = CNode r ls" by (cases t2) simp
  have r: "r \<notin> set (forest ks)" "r \<notin> set (forest ls)"
    using CNode.prems(3,4) t2 by auto
  with CNode.prems(6) t2 have S: "set (forest ks) = set (forest ls)" by auto
  have "root_atom ` set ks = root_atom ` set ls"
    using kid_roots[OF CNode.prems(1,3)] kid_roots[OF CNode.prems(2,4)[unfolded t2]]
    by (simp only: S)
  then have roots: "map root_atom ks = map root_atom ls"
    using CNode.prems(1,2) t2 sib_before_irrefl sib_before_trans
    by (intro sorted_wrt_set_unique[of sib_before]) (auto simp: image_comp)
  have "ks = ls"
  proof (rule nth_equalityI)
    show len: "length ks = length ls" using roots by (metis length_map)
    fix i assume i: "i < length ks"
    let ?k = "ks ! i" and ?l = "ls ! i"
    have mem: "?k \<in> set ks" "?l \<in> set ls" using i len by simp_all
    have root: "root_atom ?k = root_atom ?l" using roots i len by (metis nth_map)
    have sub: "set (preorder ?k) \<subseteq> set (forest ks)" "set (preorder ?l) \<subseteq> set (forest ls)"
      using mem by auto
    have wf: "wf_ctree ?k" "wf_ctree ?l" using CNode.prems(1,2) t2 mem by auto
    have "set (preorder ?k) = set (preorder ?l)"
      using below_kid[OF CNode.prems(1,3) mem(1)] below_kid[of r ls ?l] CNode.prems(2,4) t2 mem(2)
        preorder_below[OF wf(1) sub(1)] preorder_below[OF wf(2) sub(2)] root S
      by auto
    moreover have "distinct (map okey (preorder ?k))" "distinct (map okey (preorder ?l))"
      using CNode.prems(3,4) t2 mem forest_okey_split(3) by (metis (no_types) distinct.simps(2) list.simps(9) preorder.simps root_in_preorder split_list)+
    ultimately show "?k = ?l" using CNode.IH[OF mem(1) wf] root by blast
  qed
  with t2 show ?case by simp
qed

end
