(* ===== verification/WeaveLists.thy ===== *)
theory WeaveLists
  imports CausalOrder
begin

text \<open>
  The linked list of a weave seen as a list of addresses: a segment predicate over the heap, the
  effect of every pointer update of \<^verbatim>\<open>WeaveNodes\<close> on segments, and what the generators yield on a
  well-formed list.
\<close>

section \<open>Segments\<close>

definition hdo :: "'a list \<Rightarrow> 'a option \<Rightarrow> 'a option" where
  "hdo xs q = (case xs of [] \<Rightarrow> q | x # _ \<Rightarrow> Some x)"

definition lasto :: "'a list \<Rightarrow> 'a option \<Rightarrow> 'a option" where
  "lasto xs p = (if xs = [] then p else Some (last xs))"

lemma hdo_simps [simp]: "hdo [] q = q" "hdo (x # xs) q = Some x" "hdo (xs @ ys) q = hdo xs (hdo ys q)"
  by (simp_all add: hdo_def split: list.splits)

lemma lasto_simps [simp]: "lasto [] p = p" "lasto (x # xs) p = lasto xs (Some x)"
  "lasto (xs @ ys) p = lasto ys (lasto xs p)"
  by (simp_all add: lasto_def)

text \<open>
  \<open>dll h p ns q\<close>: the nodes \<open>ns\<close> are linked in both directions, from \<open>p\<close> before the first to \<open>q\<close>
  after the last.
\<close>

fun dll :: "'v node_heap \<Rightarrow> nat option \<Rightarrow> nat list \<Rightarrow> nat option \<Rightarrow> bool" where
  "dll h p [] q = True"
| "dll h p (n # ns) q =
     (\<exists>nd. h n = Some nd \<and> prev_node nd = p \<and> next_node nd = hdo ns q \<and> dll h (Some n) ns q)"

lemma dll_append: "dll h p (xs @ ys) q \<longleftrightarrow> dll h p xs (hdo ys q) \<and> dll h (lasto xs p) ys q"
  by (induction xs arbitrary: p) auto

lemma dll_frame: "(\<And>n. n \<in> set ns \<Longrightarrow> h' n = h n) \<Longrightarrow> dll h' p ns q = dll h p ns q"
  by (induction ns arbitrary: p) auto

lemma dll_alloc: "dll h p ns q \<Longrightarrow> n \<in> set ns \<Longrightarrow> \<exists>nd. h n = Some nd"
  by (induction ns arbitrary: p) auto

text \<open>Updates outside a segment do not touch it.\<close>

lemma dll_upd_other [simp]:
  "n \<notin> set ns \<Longrightarrow> dll (h(n := v)) p ns q = dll h p ns q"
  "n \<notin> set ns \<Longrightarrow> dll (set_next n r h) p ns q = dll h p ns q"
  "n \<notin> set ns \<Longrightarrow> dll (set_prev n r h) p ns q = dll h p ns q"
  by (auto intro!: dll_frame simp: set_next_def set_prev_def)

lemma dll_upd_of_other [simp]:
  "set ys \<inter> set ns = {} \<Longrightarrow> dll (set_prev_of (hdo ys None) r h) p ns q = dll h p ns q"
  "set xs \<inter> set ns = {} \<Longrightarrow> dll (set_next_of (lasto xs None) r h) p ns q = dll h p ns q"
  by (cases ys; auto simp: set_prev_of_def)
    (cases xs rule: rev_cases; auto simp: set_next_of_def)

text \<open>Updates at the ends of a segment change what it is linked to.\<close>

lemma dll_set_prev_first:
  "dll h p (n # ns) q \<Longrightarrow> n \<notin> set ns \<Longrightarrow> dll (set_prev n p' h) p' (n # ns) q"
  by (auto simp: set_prev_def intro!: dll_frame[THEN iffD2])

lemma dll_set_next_last:
  "dll h p (ns @ [n]) q \<Longrightarrow> n \<notin> set ns \<Longrightarrow> dll (set_next n q' h) p (ns @ [n]) q'"
  by (auto simp: dll_append set_next_def intro!: dll_frame[THEN iffD2])

lemma dll_set_prev_of_hd:
  "dll h p ns q \<Longrightarrow> distinct ns \<Longrightarrow> dll (set_prev_of (hdo ns None) p' h) p' ns q"
  by (cases ns) (auto simp: set_prev_of_def intro: dll_set_prev_first simp del: dll.simps(2))

lemma dll_set_next_of_last:
  "dll h p ns q \<Longrightarrow> distinct ns \<Longrightarrow> dll (set_next_of (lasto ns None) q' h) p ns q'"
  by (cases ns rule: rev_cases)
    (auto simp: set_next_of_def intro: dll_set_next_last simp del: dll.simps(2))

section \<open>Atoms are not moved\<close>

definition atoms_of :: "'v node_heap \<Rightarrow> nat \<Rightarrow> 'v atom option" where
  "atoms_of h n = map_option node_atom (h n)"

lemma atoms_of_upd [simp]:
  "atoms_of (set_next n r h) = atoms_of h"
  "atoms_of (set_prev n r h) = atoms_of h"
  "atoms_of (set_next_of a r h) = atoms_of h"
  "atoms_of (set_prev_of a r h) = atoms_of h"
  by (auto simp: atoms_of_def set_next_def set_prev_def set_next_of_def set_prev_of_def
      fun_eq_iff option.map_comp o_def split: option.splits)

lemma atoms_of_new [simp]: "atoms_of (h(n \<mapsto> createNode a p q)) = (atoms_of h)(n \<mapsto> a)"
  by (auto simp: atoms_of_def createNode_def)

lemma node_at_atoms_of: "node_at w = atoms_of (heap w)"
  by (simp add: fun_eq_iff node_at_def atoms_of_def)

section \<open>Splicing a new node\<close>

lemma linkAfter_dll:
  assumes dll: "dll h p (xs @ pos # ys) None" and dist: "distinct (xs @ pos # ys)"
    and new: "n \<notin> set (xs @ pos # ys)"
  shows "\<exists>h'. linkAfter h n pos a = Some h' \<and> dll h' p (xs @ pos # n # ys) None \<and>
    atoms_of h' = (atoms_of h)(n \<mapsto> a) \<and> (\<forall>m. m \<notin> set (xs @ pos # n # ys) \<longrightarrow> h' m = h m)"
proof -
  from dll obtain nd where nd: "h pos = Some nd" "next_node nd = hdo ys None"
    by (auto simp: dll_append)
  let ?h1 = "h(n \<mapsto> createNode a (hdo ys None) (Some pos))"
  let ?h2 = "set_prev_of (hdo ys None) (Some n) ?h1"
  let ?h3 = "set_next pos (Some n) ?h2"
  have ys: "hdo ys None = Some m \<Longrightarrow> m \<in> set ys" for m by (cases ys) auto
  have "dll ?h1 p (xs @ [pos]) (hdo ys None)" "dll ?h1 (Some pos) ys None"
    using dll dll_append[of h p "xs @ [pos]" ys None] new by auto
  moreover have "set ys \<inter> set (xs @ [pos]) = {}" using dist by auto
  ultimately have "dll ?h2 p (xs @ [pos]) (hdo ys None)" "dll ?h2 (Some n) ys None"
    using dist by (simp_all add: dll_set_prev_of_hd)
  then have left: "dll ?h3 p (xs @ [pos]) (Some n)" and right: "dll ?h3 (Some n) ys None"
    using dist by (auto intro: dll_set_next_last)
  have "?h3 n = Some (createNode a (hdo ys None) (Some pos))"
    using new ys by (auto simp: set_next_def set_prev_of_def set_prev_def split: option.splits)
  then have "dll ?h3 p ((xs @ [pos]) @ n # ys) None"
    unfolding dll_append[of _ _ "xs @ [pos]"] using left right by (simp add: createNode_def)
  moreover have "\<forall>m. m \<notin> set (xs @ pos # n # ys) \<longrightarrow> ?h3 m = h m"
    using ys by (auto simp: set_next_def set_prev_of_def set_prev_def split: option.splits)
  ultimately show ?thesis
    using nd by (auto simp: linkAfter_def Let_def)
qed

lemma linkBefore_dll:
  assumes dll: "dll h None (xs @ pos # ys) q" and dist: "distinct (xs @ pos # ys)"
    and new: "n \<notin> set (xs @ pos # ys)"
  shows "\<exists>h'. linkBefore h n pos a = Some h' \<and> dll h' None (xs @ n # pos # ys) q \<and>
    atoms_of h' = (atoms_of h)(n \<mapsto> a) \<and> (\<forall>m. m \<notin> set (xs @ n # pos # ys) \<longrightarrow> h' m = h m)"
proof -
  from dll obtain nd where nd: "h pos = Some nd" "prev_node nd = lasto xs None"
    by (auto simp: dll_append)
  let ?h1 = "h(n \<mapsto> createNode a (Some pos) (lasto xs None))"
  let ?h2 = "set_next_of (lasto xs None) (Some n) ?h1"
  let ?h3 = "set_prev pos (Some n) ?h2"
  have xs: "lasto xs None = Some m \<Longrightarrow> m \<in> set xs" for m by (cases xs rule: rev_cases) auto
  have "dll h None xs (Some pos)" "dll h (lasto xs None) (pos # ys) q"
    using dll unfolding dll_append by auto
  then have "dll ?h1 None xs (Some pos)" "dll ?h1 (lasto xs None) (pos # ys) q"
    using new by (simp_all del: dll.simps(2))
  then have "dll ?h2 None xs (Some n)" "dll ?h2 (lasto xs None) (pos # ys) q"
    using dist by (auto simp del: dll.simps(2) intro: dll_set_next_of_last)
  then have left: "dll ?h3 None xs (Some n)" and right: "dll ?h3 (Some n) (pos # ys) q"
    using dist by (auto intro: dll_set_prev_first simp del: dll.simps(2))
  have "?h3 n = Some (createNode a (Some pos) (lasto xs None))"
    using new xs by (auto simp: set_prev_def set_next_of_def set_next_def split: option.splits)
  with left right have "dll ?h3 None (xs @ n # pos # ys) q"
    by (simp add: dll_append createNode_def)
  moreover have "\<forall>m. m \<notin> set (xs @ n # pos # ys) \<longrightarrow> ?h3 m = h m"
    using xs by (auto simp: set_prev_def set_next_of_def set_next_def split: option.splits)
  ultimately show ?thesis
    using nd by (auto simp: linkBefore_def Let_def)
qed

section \<open>Cutting out a segment\<close>

lemma unlinkSpan_dll:
  assumes dll: "dll h None (xs @ seg @ ys) None" and dist: "distinct (xs @ seg @ ys)"
    and seg: "seg \<noteq> []"
  shows "\<exists>h'. unlinkSpan h (hd seg) (last seg) = Some h' \<and> dll h' None (xs @ ys) None \<and>
    dll h' None seg None \<and> atoms_of h' = atoms_of h \<and>
    (\<forall>m. m \<notin> set (xs @ seg @ ys) \<longrightarrow> h' m = h m)"
proof -
  obtain s ss where s: "seg = s # ss" using seg by (cases seg) auto
  obtain es e where e: "seg = es @ [e]" using seg by (cases seg rule: rev_cases) auto
  have segs: "dll h None xs (hdo seg None)" "dll h (lasto xs None) seg (hdo ys None)"
      "dll h (Some e) ys None"
    using dll unfolding dll_append[of h None xs] dll_append[of h _ seg] by (auto simp: e s)
  obtain nds where nds: "h (hd seg) = Some nds" "prev_node nds = lasto xs None"
    using segs(2) s by auto
  obtain nde where nde: "h (last seg) = Some nde" "next_node nde = hdo ys None"
    using segs(2) e by (auto simp: dll_append)
  let ?h1 = "set_prev_of (hdo ys None) (lasto xs None) h"
  let ?h2 = "set_next_of (lasto xs None) (hdo ys None) ?h1"
  let ?h3 = "set_prev s None ?h2"
  let ?h4 = "set_next e None ?h3"
  have xs: "lasto xs None = Some m \<Longrightarrow> m \<in> set xs" for m by (cases xs rule: rev_cases) auto
  have ys: "hdo ys None = Some m \<Longrightarrow> m \<in> set ys" for m by (cases ys) auto
  have in_seg: "s \<in> set seg" "e \<in> set seg" by (simp add: s, simp add: e)
  have disj: "set xs \<inter> set seg = {}" "set xs \<inter> set ys = {}" "set seg \<inter> set ys = {}"
    "set ys \<inter> set xs = {}" "set ys \<inter> set seg = {}" using dist by auto
  have 1: "dll ?h1 None xs (hdo seg None)" "dll ?h1 (lasto xs None) seg (hdo ys None)"
      "dll ?h1 (lasto xs None) ys None"
    using segs disj dist by (simp_all add: dll_set_prev_of_hd)
  have 2: "dll ?h2 None xs (hdo ys None)" "dll ?h2 (lasto xs None) seg (hdo ys None)"
      "dll ?h2 (lasto xs None) ys None"
    using 1 disj dist by (simp_all add: dll_set_next_of_last)
  have "s \<notin> set xs" "s \<notin> set ys" "e \<notin> set xs" "e \<notin> set ys"
    using disj in_seg by auto
  moreover have "s \<notin> set ss" using dist s by auto
  moreover have "e \<notin> set es" using dist e by auto
  ultimately have "dll ?h4 None xs (hdo ys None)" "dll ?h4 None seg None" "dll ?h4 (lasto xs None) ys None"
    using 2 dll_set_prev_first[of ?h2 "lasto xs None" s ss "hdo ys None" None]
      dll_set_next_last[of ?h3 None es e "hdo ys None" None] by (simp_all add: s[symmetric] e[symmetric])
  moreover have "\<forall>m. m \<notin> set (xs @ seg @ ys) \<longrightarrow> ?h4 m = h m"
    using xs ys in_seg
    by (auto simp: set_prev_def set_next_of_def set_prev_of_def set_next_def split: option.splits)
  moreover have "hd seg = s" "last seg = e" by (simp add: s, simp add: e)
  ultimately show ?thesis
    using nds nde by (auto simp: unlinkSpan_def Let_def dll_append)
qed

end
