(* ===== verification/WeaveCorrect.thy ===== *)
theory WeaveCorrect
  imports WeaveLists
begin

text \<open>
  The invariant of a weave and the refinement of its operations to lists: a weave is a list of
  chains, one per root; every operation of \<^verbatim>\<open>Weave2\<close> that changes the committed part of a weave
  changes the chains as the list operations of \<^verbatim>\<open>CausalOrder\<close> do.
\<close>

section \<open>The invariant\<close>

definition atm :: "'v node_heap \<Rightarrow> nat \<Rightarrow> 'v atom" where
  "atm h n = the (atoms_of h n)"

lemma atm_node [simp]: "h n = Some nd \<Longrightarrow> atm h n = node_atom nd"
  by (simp add: atm_def atoms_of_def)

text \<open>A chain starts with its root, the only atom without a cause and the earliest.\<close>

fun chain_ok :: "'v atom list \<Rightarrow> bool" where
  "chain_ok [] = False"
| "chain_ok (x # xs) \<longleftrightarrow> cause x = None \<and> (\<forall>y\<in>set xs. cause y \<noteq> None \<and> ts x < ts y)"

abbreviation key_of :: "'v node_heap \<Rightarrow> nat \<Rightarrow> string" where
  "key_of h n \<equiv> atomIdToString (aid (atm h n))"

text \<open>
  \<open>weave_inv w nss\<close>: the chains \<open>nss\<close> (lists of addresses) are well-linked and disjoint, the id map
  finds exactly their nodes, and every entry of the hash map is one of them.
\<close>

definition weave_inv :: "'v weave \<Rightarrow> nat list list \<Rightarrow> bool" where
  "weave_inv w nss \<longleftrightarrow>
     map hd nss = roots w \<and> distinct (concat nss) \<and>
     (\<forall>ns\<in>set nss. dll (heap w) None ns None \<and> chain_ok (map (atm (heap w)) ns)) \<and>
     (\<forall>n. heap w n \<noteq> None \<longrightarrow> n < next_addr w) \<and>
     (\<forall>k n. idMap w k = Some n \<longleftrightarrow> n \<in> set (concat nss) \<and> key_of (heap w) n = k) \<and>
     (\<forall>k n. hashMap w k = Some n \<longrightarrow> n \<in> set (concat nss) \<and> ahash (atm (heap w) n) = k)"

definition chains_of :: "'v weave \<Rightarrow> nat list list \<Rightarrow> 'v atom list list" where
  "chains_of w nss = map (map (atm (heap w))) nss"

lemma weave_invD:
  assumes "weave_inv w nss"
  shows "map hd nss = roots w" "distinct (concat nss)"
    "ns \<in> set nss \<Longrightarrow> dll (heap w) None ns None" "ns \<in> set nss \<Longrightarrow> chain_ok (map (atm (heap w)) ns)"
    "heap w n \<noteq> None \<Longrightarrow> n < next_addr w"
    "idMap w k = Some n \<longleftrightarrow> n \<in> set (concat nss) \<and> key_of (heap w) n = k"
    "hashMap w k = Some n \<Longrightarrow> n \<in> set (concat nss) \<and> ahash (atm (heap w) n) = k"
  using assms unfolding weave_inv_def by blast+

lemma weave_inv_new: "weave_inv (new_weave m) []"
  by (simp add: weave_inv_def new_weave_def)

lemma weave_inv_alloc:
  assumes "weave_inv w nss" and "n \<in> set (concat nss)"
  shows "\<exists>nd. heap w n = Some nd" "n < next_addr w" "atoms_of (heap w) n = Some (atm (heap w) n)"
proof -
  from assms show ex: "\<exists>nd. heap w n = Some nd"
    unfolding weave_inv_def using dll_alloc by fastforce
  then show "n < next_addr w" using weave_invD(5)[OF assms(1)] by auto
  from ex show "atoms_of (heap w) n = Some (atm (heap w) n)" by (auto simp: atoms_of_def)
qed

lemma fresh_not_in_chains: "weave_inv w nss \<Longrightarrow> next_addr w \<notin> set (concat nss)"
  using weave_inv_alloc(2) by blast

section \<open>Generators on a chain\<close>

lemma iterateFrom_dll: "dll h p ns None \<Longrightarrow> iterateFrom h (hdo ns None) = Some ns"
proof (induction ns arbitrary: p)
  case Nil
  show ?case by (subst iterateFrom.simps) simp
next
  case (Cons n ns)
  then show ?case by (subst iterateFrom.simps) auto
qed

lemma causalGroupFrom_dll:
  "dll h p ns None \<Longrightarrow>
   causalGroupFrom h t (hdo ns None) = Some (takeWhile (\<lambda>n. t < ts (atm h n)) ns)"
proof (induction ns arbitrary: p)
  case Nil
  show ?case by (subst causalGroupFrom.simps) simp
next
  case (Cons n ns)
  then show ?case by (subst causalGroupFrom.simps) auto
qed

abbreviation later :: "'v node_heap \<Rightarrow> nat \<Rightarrow> nat \<Rightarrow> bool" where
  "later h c n \<equiv> ts (atm h c) < ts (atm h n)"

lemma iterateCausalGroup_dll:
  assumes "dll h p (xs @ c # ys) None"
  shows "iterateCausalGroup h c = Some (takeWhile (later h c) ys)"
proof -
  from assms obtain nd where "h c = Some nd" "next_node nd = hdo ys None" "dll h (Some c) ys None"
    by (auto simp: dll_append)
  then show ?thesis by (simp add: iterateCausalGroup_def causalGroupFrom_dll)
qed

lemma lastInCausalGroup_dll:
  assumes "dll h p (xs @ c # ys) None"
  shows "lastInCausalGroup h c = Some (last (c # takeWhile (later h c) ys))"
  using iterateCausalGroup_dll[OF assms] by (simp add: lastInCausalGroup_def last_of_def)

lemma atoms_at_inv:
  "weave_inv w nss \<Longrightarrow> set ns \<subseteq> set (concat nss) \<Longrightarrow> atoms_at w ns = Some (map (atm (heap w)) ns)"
  by (induction ns) (auto simp: node_at_atoms_of weave_inv_alloc(3))

text \<open>\<^verbatim>\<open>getAtoms\<close> returns the chains one after the other.\<close>

lemma iterateAtoms_inv:
  assumes "weave_inv w nss" and "set ms \<subseteq> set nss"
  shows "iterateAtoms w (map hd ms) = Some (concat (chains_of w ms))"
  using assms(2)
proof (induction ms)
  case (Cons ns ms)
  then have ns: "ns \<in> set nss" by simp
  have "hdo ns None = Some (hd ns)" using weave_invD(4)[OF assms(1) ns] by (cases ns) auto
  then have "iterateFrom (heap w) (Some (hd ns)) = Some ns"
    using iterateFrom_dll[OF weave_invD(3)[OF assms(1) ns]] by simp
  moreover have "atoms_at w ns = Some (map (atm (heap w)) ns)"
    using ns by (intro atoms_at_inv[OF assms(1)]) auto
  ultimately show ?case using Cons by (simp add: chains_of_def)
qed (simp add: chains_of_def)

lemma getAtoms_inv: "weave_inv w nss \<Longrightarrow> getAtoms w = Some (concat (chains_of w nss))"
  using iterateAtoms_inv[of w nss nss] weave_invD(1)[of w nss] by (simp add: getAtoms_def)

section \<open>Adding a node\<close>

lemma chain_split_atm:
  "atoms_of h' = (atoms_of h)(n \<mapsto> a) \<Longrightarrow> n \<notin> set ns \<Longrightarrow> map (atm h') ns = map (atm h) ns"
  by (auto simp: atm_def)

lemma chain_ok_insert:
  assumes "chain_ok (xs @ ys)" and "xs \<noteq> []" and "cause a \<noteq> None" and "ts (hd xs) < ts a"
  shows "chain_ok (xs @ a # ys)"
  using assms by (cases xs) auto

text \<open>
  A new node with a new key, spliced into a chain behind its root and entered in the maps, keeps the
  invariant.
\<close>

lemma weave_inv_splice:
  assumes inv: "weave_inv w (us @ (xs @ ys) # vs)" and xs: "xs \<noteq> []" and n: "n = next_addr w"
    and dll: "dll h' None (xs @ n # ys) None" and atoms: "atoms_of h' = (atoms_of (heap w))(n \<mapsto> a)"
    and frame: "\<And>m. m \<notin> set (xs @ n # ys) \<Longrightarrow> h' m = heap w m"
    and new: "getNode w (aid a) = None" and a: "cause a \<noteq> None" "ts (atm (heap w) (hd xs)) < ts a"
  shows "weave_inv (addNodeToMaps (w\<lparr>heap := h', next_addr := Suc n\<rparr>) n a False) (us @ (xs @ n # ys) # vs)"
proof -
  note D = weave_invD[OF inv]
  have fresh: "n \<notin> set (concat (us @ (xs @ ys) # vs))" using fresh_not_in_chains[OF inv] n by simp
  have atm': "atm h' m = (if m = n then a else atm (heap w) m)" for m
    using atoms by (simp add: atm_def)
  have other: "dll h' None ns None \<and> map (atm h') ns = map (atm (heap w)) ns"
    if "ns \<in> set us \<union> set vs" for ns
  proof -
    have disj: "m \<notin> set (xs @ n # ys)" if "m \<in> set ns" for m
      using D(2) fresh that \<open>ns \<in> set us \<union> set vs\<close> by auto
    then have "dll h' None ns None = dll (heap w) None ns None"
      by (intro dll_frame frame)
    with D(3)[of ns] that disj show ?thesis by (auto simp: atm')
  qed
  have ok: "chain_ok (map (atm h') (xs @ n # ys))"
  proof -
    have "map (atm h') (xs @ n # ys) = map (atm (heap w)) xs @ a # map (atm (heap w)) ys"
      using fresh by (auto simp: atm')
    moreover have "chain_ok (map (atm (heap w)) xs @ a # map (atm (heap w)) ys)"
      using D(4)[of "xs @ ys"] xs a by (intro chain_ok_insert) (auto simp: hd_map)
    ultimately show ?thesis by (simp only:)
  qed
  have "map hd (us @ (xs @ n # ys) # vs) = roots w" using D(1) xs by simp
  moreover have "distinct (concat (us @ (xs @ n # ys) # vs))" using D(2) fresh by auto
  moreover have "\<forall>ns\<in>set (us @ (xs @ n # ys) # vs). dll h' None ns None \<and> chain_ok (map (atm h') ns)"
  proof
    fix ns assume "ns \<in> set (us @ (xs @ n # ys) # vs)"
    then consider "ns = xs @ n # ys" | "ns \<in> set us \<union> set vs" by auto
    then show "dll h' None ns None \<and> chain_ok (map (atm h') ns)"
    proof cases
      case 2
      from other[OF 2] have "dll h' None ns None" "map (atm h') ns = map (atm (heap w)) ns" by blast+
      with D(4)[of ns] 2 show ?thesis by (simp only:) auto
    qed (use dll ok in simp)
  qed
  moreover have "\<forall>m. h' m \<noteq> None \<longrightarrow> m < Suc n"
  proof (intro allI impI)
    fix m assume "h' m \<noteq> None"
    then have "atoms_of h' m \<noteq> None" by (simp add: atoms_of_def)
    then have "m = n \<or> heap w m \<noteq> None" using atoms by (auto simp: atoms_of_def split: if_splits)
    with D(5) n show "m < Suc n" by (auto intro: less_SucI)
  qed
  moreover have "((idMap w)(atomIdToString (aid a) \<mapsto> n)) k = Some m \<longleftrightarrow>
      m \<in> set (concat (us @ (xs @ n # ys) # vs)) \<and> key_of h' m = k" for k m
    using D(6)[of k m] D(6)[of "atomIdToString (aid a)" m] new fresh
    by (auto simp: atm' getNode_def)
  moreover have "((hashMap w)(ahash a \<mapsto> n)) k = Some m \<longrightarrow>
      m \<in> set (concat (us @ (xs @ n # ys) # vs)) \<and> ahash (atm h' m) = k" for k m
    using D(7)[of k m] fresh by (auto simp: atm')
  ultimately show ?thesis
    by (simp add: weave_inv_def addNodeToMaps_def del: concat_append fun_upd_apply)
qed

section \<open>Inserting under a cause\<close>

text \<open>The position search finds the place where \<open>insert_group\<close> puts the atom.\<close>

lemma findPosition_insert_group:
  assumes "\<And>n. n \<in> set ns \<Longrightarrow> node_at w n = Some (atm (heap w) n)"
  shows "\<exists>us vs. ns = us @ vs \<and>
    insert_group c a (map (atm (heap w)) ns) = map (atm (heap w)) us @ a # map (atm (heap w)) vs \<and>
    (findPosition w (aid c) (aid a) l (takeWhile (\<lambda>n. ts c < ts (atm (heap w) n)) ns) =
       Some (Inr (last (l # us))) \<or>
     vs \<noteq> [] \<and> findPosition w (aid c) (aid a) l (takeWhile (\<lambda>n. ts c < ts (atm (heap w) n)) ns) =
       Some (Inl (hd vs)))"
  using assms
proof (induction ns arbitrary: l)
  case (Cons n ns)
  let ?b = "atm (heap w) n"
  consider (stop) "ts ?b \<le> ts c"
    | (before) "ts c < ts ?b" "idEquals (cause ?b) (Some (aid c))" "sib_before a ?b"
    | (skip) "ts c < ts ?b" "\<not> (idEquals (cause ?b) (Some (aid c)) \<and> sib_before a ?b)"
    by linarith
  then show ?case
  proof cases
    case stop
    then show ?thesis by (intro exI[of _ "[]"] exI[of _ "n # ns"]) simp
  next
    case before
    with Cons.prems show ?thesis
      by (intro exI[of _ "[]"] exI[of _ "n # ns"]) (simp add: sib_before_def)
  next
    case skip
    from Cons.IH[of n] Cons.prems obtain us vs where IH: "ns = us @ vs"
      "insert_group c a (map (atm (heap w)) ns) = map (atm (heap w)) us @ a # map (atm (heap w)) vs"
      "findPosition w (aid c) (aid a) n (takeWhile (\<lambda>n. ts c < ts (atm (heap w) n)) ns) =
         Some (Inr (last (n # us))) \<or>
       vs \<noteq> [] \<and> findPosition w (aid c) (aid a) n (takeWhile (\<lambda>n. ts c < ts (atm (heap w) n)) ns) =
         Some (Inl (hd vs))"
      by auto
    with skip Cons.prems show ?thesis
      by (intro exI[of _ "n # us"] exI[of _ vs]) (auto simp: sib_before_def)
  qed
qed simp

text \<open>What \<^verbatim>\<open>_insertUnder\<close> leaves alone.\<close>

definition same_rest :: "'v weave \<Rightarrow> 'v weave \<Rightarrow> bool" where
  "same_rest w w' \<longleftrightarrow> cardinalityMap w' = cardinalityMap w \<and> reorderBuffer w' = reorderBuffer w
     \<and> maxReorderBufferSize w' = maxReorderBufferSize w"

lemma insertUnder_inv:
  assumes inv: "weave_inv w (us @ (xs @ c # ys) # vs)"
    and new: "getNode w (aid a) = None" and cause: "cause a \<noteq> None"
    and later: "ts (atm (heap w) c) < ts a"
  shows "\<exists>w' ys1 ys2. insertUnder w c a False = Some (next_addr w, w') \<and> ys = ys1 @ ys2 \<and>
    insert_group (atm (heap w) c) a (map (atm (heap w)) ys) =
      map (atm (heap w)) ys1 @ a # map (atm (heap w)) ys2 \<and>
    weave_inv w' (us @ (xs @ c # ys1 @ next_addr w # ys2) # vs) \<and>
    atoms_of (heap w') = (atoms_of (heap w))(next_addr w \<mapsto> a) \<and> same_rest w w' \<and> roots w' = roots w"
proof -
  let ?n = "next_addr w" and ?h = "heap w"
  have mem: "xs @ c # ys \<in> set (us @ (xs @ c # ys) # vs)" by simp
  note dll = weave_invD(3)[OF inv mem]
  have nodes: "node_at w n = Some (atm ?h n)" if "n \<in> set (c # ys)" for n
    using weave_inv_alloc(3)[OF inv, of n] that by (auto simp: node_at_atoms_of)
  obtain ys1 ys2 where ys: "ys = ys1 @ ys2"
    and ins: "insert_group (atm ?h c) a (map (atm ?h) ys) = map (atm ?h) ys1 @ a # map (atm ?h) ys2"
    and pos: "findPosition w (aid (atm ?h c)) (aid a) c (takeWhile (later ?h c) ys) =
       Some (Inr (last (c # ys1))) \<or>
     ys2 \<noteq> [] \<and> findPosition w (aid (atm ?h c)) (aid a) c (takeWhile (later ?h c) ys) = Some (Inl (hd ys2))"
    using findPosition_insert_group[of ys w "atm ?h c" a c] nodes by auto
  have dist: "distinct (xs @ c # ys)" and fresh: "?n \<notin> set (xs @ c # ys)"
    using weave_invD(2)[OF inv] fresh_not_in_chains[OF inv] by auto
  have root: "ts (atm ?h (hd (xs @ [c]))) < ts a"
    using weave_invD(4)[OF inv mem] later by (cases xs) auto
  have "\<exists>h'. insertUnder w c a False =
        Some (?n, addNodeToMaps (w\<lparr>heap := h', next_addr := Suc ?n\<rparr>) ?n a False) \<and>
      dll h' None (xs @ c # ys1 @ ?n # ys2) None \<and> atoms_of h' = (atoms_of ?h)(?n \<mapsto> a) \<and>
      (\<forall>m. m \<notin> set (xs @ c # ys1 @ ?n # ys2) \<longrightarrow> h' m = ?h m)"
    using pos
  proof
    assume p: "findPosition w (aid (atm ?h c)) (aid a) c (takeWhile (later ?h c) ys) =
      Some (Inr (last (c # ys1)))"
    obtain zs z where z: "xs @ c # ys1 = zs @ [z]" by (metis append_is_Nil_conv list.distinct(1) rev_exhaust)
    then have "last (c # ys1) = z" by (metis append_is_Nil_conv last.simps last_appendR last_snoc list.distinct(1))
    moreover have "xs @ c # ys = zs @ z # ys2" using z ys by (metis append.assoc append_Cons append_Nil)
    with linkAfter_dll[of ?h None zs z ys2 ?n a] dll dist fresh z
    have "\<exists>h'. linkAfter ?h ?n z a = Some h' \<and> dll h' None (xs @ c # ys1 @ ?n # ys2) None \<and>
      atoms_of h' = (atoms_of ?h)(?n \<mapsto> a) \<and> (\<forall>m. m \<notin> set (xs @ c # ys1 @ ?n # ys2) \<longrightarrow> h' m = ?h m)"
      by (metis append.assoc append_Cons append_Nil)
    ultimately show ?thesis
      using p nodes[of c] iterateCausalGroup_dll[OF dll] by (auto simp: insertUnder_def insertAfter_def)
  next
    assume p: "ys2 \<noteq> [] \<and> findPosition w (aid (atm ?h c)) (aid a) c (takeWhile (later ?h c) ys) = Some (Inl (hd ys2))"
    then obtain y ys' where y: "ys2 = y # ys'" by (cases ys2) auto
    with linkBefore_dll[of ?h "xs @ c # ys1" y ys' None ?n a] dll dist fresh ys
    have "\<exists>h'. linkBefore ?h ?n y a = Some h' \<and> dll h' None (xs @ c # ys1 @ ?n # ys2) None \<and>
      atoms_of h' = (atoms_of ?h)(?n \<mapsto> a) \<and> (\<forall>m. m \<notin> set (xs @ c # ys1 @ ?n # ys2) \<longrightarrow> h' m = ?h m)"
      by auto
    with p y show ?thesis
      using nodes[of c] iterateCausalGroup_dll[OF dll] by (auto simp: insertUnder_def insertBefore_def)
  qed
  then obtain h' where h': "insertUnder w c a False =
        Some (?n, addNodeToMaps (w\<lparr>heap := h', next_addr := Suc ?n\<rparr>) ?n a False)"
      "dll h' None (xs @ c # ys1 @ ?n # ys2) None" "atoms_of h' = (atoms_of ?h)(?n \<mapsto> a)"
      "\<And>m. m \<notin> set (xs @ c # ys1 @ ?n # ys2) \<Longrightarrow> h' m = ?h m"
    by blast
  have "weave_inv (addNodeToMaps (w\<lparr>heap := h', next_addr := Suc ?n\<rparr>) ?n a False)
      (us @ ((xs @ c # ys1) @ ?n # ys2) # vs)"
    using inv ys h' new cause root by (intro weave_inv_splice) (auto simp: hd_append)
  moreover have "same_rest w (addNodeToMaps (w\<lparr>heap := h', next_addr := Suc ?n\<rparr>) ?n a False)"
    by (simp add: same_rest_def addNodeToMaps_def)
  ultimately show ?thesis
    using h'(1,3) ys ins by (intro exI[of _ "addNodeToMaps (w\<lparr>heap := h', next_addr := Suc ?n\<rparr>) ?n a False"]
        exI[of _ ys1] exI[of _ ys2]) (simp add: addNodeToMaps_def)
qed

end
