(* ===== verification/WeaveChains.thy ===== *)
theory WeaveChains
  imports WeaveCorrect
begin

text \<open>
  The weave as its chains of atoms: \<open>weave_chains\<close> reads the committed part of a weave as one list
  of atoms per root, \<open>weave_ok\<close> says that the pointers and the lookup maps agree with it. The
  lemmas say what removing and inserting nodes does to the chains.
\<close>

section \<open>Chains\<close>

fun chains_from :: "'v weave \<Rightarrow> nat list \<Rightarrow> 'v atom list list option" where
  "chains_from w [] = Some []"
| "chains_from w (r # rs) =
     do { ns \<leftarrow> iterateFrom (heap w) (Some r);
          xs \<leftarrow> atoms_at w ns;
          rest \<leftarrow> chains_from w rs;
          Some (xs # rest) }"

definition weave_chains :: "'v weave \<Rightarrow> 'v atom list list option" where
  "weave_chains w = chains_from w (roots w)"

definition weave_ok :: "'v weave \<Rightarrow> bool" where
  "weave_ok w \<longleftrightarrow> (\<exists>nss. weave_inv w nss)"

lemma iterateAtoms_chains: "iterateAtoms w rs = map_option concat (chains_from w rs)"
  by (induction rs) (auto simp: Option.bind_eq_None_conv split: option.splits bind_splits)

lemma getAtoms_chains: "getAtoms w = map_option concat (weave_chains w)"
  by (simp add: getAtoms_def weave_chains_def iterateAtoms_chains)

lemma chains_from_inv:
  assumes "weave_inv w nss" and "set ms \<subseteq> set nss"
  shows "chains_from w (map hd ms) = Some (chains_of w ms)"
  using assms(2)
proof (induction ms)
  case (Cons ns ms)
  then have ns: "ns \<in> set nss" by simp
  have "hdo ns None = Some (hd ns)" using weave_invD(4)[OF assms(1) ns] by (cases ns) auto
  then have "iterateFrom (heap w) (Some (hd ns)) = Some ns"
    using iterateFrom_dll[OF weave_invD(3)[OF assms(1) ns]] by simp
  moreover have "atoms_at w ns = Some (map (atm (heap w)) ns)"
    using ns by (intro atoms_at_inv[OF assms(1)]) auto
  ultimately show ?case using Cons by (simp add: chains_of_def)
qed (simp add: chains_of_def)

lemma weave_chains_inv: "weave_inv w nss \<Longrightarrow> weave_chains w = Some (chains_of w nss)"
  using chains_from_inv[of w nss nss] weave_invD(1)[of w nss] by (simp add: weave_chains_def)

lemma weave_okI [intro]: "weave_inv w nss \<Longrightarrow> weave_ok w"
  unfolding weave_ok_def by blast

text \<open>A split of the chains into atoms is a split of the addresses.\<close>

lemma weave_ok_split:
  assumes "weave_ok w" and "weave_chains w = Some (us @ (xs @ c # ys) # vs)"
  obtains us' xs' n ys' vs' where "weave_inv w (us' @ (xs' @ n # ys') # vs')"
    "us = chains_of w us'" "vs = chains_of w vs'" "xs = map (atm (heap w)) xs'"
    "ys = map (atm (heap w)) ys'" "c = atm (heap w) n"
proof -
  from assms(1) obtain nss where inv: "weave_inv w nss" unfolding weave_ok_def by blast
  with assms(2) have "map (map (atm (heap w))) nss = us @ (xs @ c # ys) # vs"
    by (simp add: weave_chains_inv chains_of_def)
  then obtain us' ns vs' where nss: "nss = us' @ ns # vs'" "us = chains_of w us'" "vs = chains_of w vs'"
    and ns: "xs @ c # ys = map (atm (heap w)) ns"
    unfolding map_eq_append_conv Cons_eq_map_conv chains_of_def by metis
  from ns obtain xs' n ys' where ns: "ns = xs' @ n # ys'" and "xs = map (atm (heap w)) xs'"
    "ys = map (atm (heap w)) ys'" "c = atm (heap w) n"
    by (auto simp: append_eq_map_conv Cons_eq_map_conv)
  with inv nss show thesis by (auto intro: that)
qed

text \<open>The atoms that are in the weave, and lookup by id.\<close>

lemma getNode_inv:
  "weave_inv w nss \<Longrightarrow> getNode w i = Some n \<longleftrightarrow>
     n \<in> set (concat nss) \<and> key_of (heap w) n = atomIdToString i"
  using weave_invD(6) by (simp add: getNode_def)

lemma getNode_None_inv:
  "weave_inv w nss \<Longrightarrow> getNode w i = None \<longleftrightarrow>
     (\<forall>a\<in>set (concat (chains_of w nss)). atomIdToString (aid a) \<noteq> atomIdToString i)"
  using getNode_inv[of w nss i] by (cases "getNode w i") (fastforce simp: chains_of_def)+

lemma getNode_None_chains:
  assumes "weave_ok w" and "weave_chains w = Some cs"
  shows "getNode w i = None \<longleftrightarrow> (\<forall>a\<in>set (concat cs). atomIdToString (aid a) \<noteq> atomIdToString i)"
proof -
  from assms(1) obtain nss where inv: "weave_inv w nss" unfolding weave_ok_def by blast
  with assms(2) have "cs = chains_of w nss" by (simp add: weave_chains_inv)
  with getNode_None_inv[OF inv] show ?thesis by simp
qed

lemma key_of_inj:
  assumes "weave_inv w nss" and "n \<in> set (concat nss)" and "m \<in> set (concat nss)"
    and "key_of (heap w) n = key_of (heap w) m"
  shows "n = m"
  using assms weave_invD(6)[of w nss "key_of (heap w) n"] by (metis option.inject)

text \<open>No two atoms of a weave have the same id string.\<close>

lemma weave_ok_distinct:
  assumes "weave_ok w" and "weave_chains w = Some cs"
  shows "distinct (map (\<lambda>a. atomIdToString (aid a)) (concat cs))"
proof -
  from assms(1) obtain nss where inv: "weave_inv w nss" unfolding weave_ok_def by blast
  have "distinct (map (key_of (heap w)) (concat nss))"
    using weave_invD(2)[OF inv] key_of_inj[OF inv] by (auto simp: distinct_map intro!: inj_onI)
  moreover have "cs = chains_of w nss" using assms(2) inv by (simp add: weave_chains_inv)
  ultimately show ?thesis by (simp add: chains_of_def map_concat o_def)
qed

section \<open>Removing a span\<close>

text \<open>The maps without the keys of some nodes.\<close>

definition drop_keys :: "(string \<Rightarrow> nat option) \<Rightarrow> string set \<Rightarrow> string \<Rightarrow> nat option" where
  "drop_keys m ks k = (if k \<in> ks then None else m k)"

lemma drop_keys_twice [simp]: "drop_keys (drop_keys m ks) ls = drop_keys m (ks \<union> ls)"
  by (auto simp: drop_keys_def)

lemma drop_keys_empty [simp]: "drop_keys m {} = m"
  by (auto simp: drop_keys_def)

lemma removeNodeIdFromMaps_drop:
  "removeNodeIdFromMaps w a False =
     w\<lparr>idMap := drop_keys (idMap w) {atomIdToString (aid a)}, hashMap := drop_keys (hashMap w) {ahash a}\<rparr>"
  by (auto simp: removeNodeIdFromMaps_def drop_keys_def fun_eq_iff)

lemma removeNodesFromMaps_drop:
  "(\<And>n. n \<in> set ns \<Longrightarrow> node_at w n = Some (atm (heap w) n)) \<Longrightarrow>
   removeNodesFromMaps w ns False =
     Some (w\<lparr>idMap := drop_keys (idMap w) (key_of (heap w) ` set ns),
             hashMap := drop_keys (hashMap w) ((\<lambda>n. ahash (atm (heap w) n)) ` set ns)\<rparr>)"
proof (induction ns arbitrary: w)
  case (Cons n ns)
  let ?w = "removeNodeIdFromMaps w (atm (heap w) n) False"
  have "heap ?w = heap w" "node_at ?w = node_at w"
    by (simp_all add: removeNodeIdFromMaps_def node_at_def fun_eq_iff)
  with Cons.IH[of ?w] Cons.prems show ?case
    by (simp add: removeNodeIdFromMaps_drop)
qed simp

definition unmapped :: "'v weave \<Rightarrow> nat list \<Rightarrow> 'v node_heap \<Rightarrow> nat list \<Rightarrow> 'v weave" where
  "unmapped w seg h rs = w\<lparr>heap := h, roots := rs,
     idMap := drop_keys (idMap w) (key_of (heap w) ` set seg),
     hashMap := drop_keys (hashMap w) ((\<lambda>n. ahash (atm (heap w) n)) ` set seg)\<rparr>"

lemma removeSpan_unmapped:
  assumes "unlinkSpan (heap w) (hd seg) (last seg) = Some h'" and "dll h' None seg None"
    and "atoms_of h' = atoms_of (heap w)" and "seg \<noteq> []"
  shows "removeSpan w (hd seg) (last seg) = Some (unmapped w seg h'
    (if cause (atm (heap w) (hd seg)) = None then remove1 (hd seg) (roots w) else roots w))"
proof -
  let ?w = "w\<lparr>heap := h'\<rparr>"
  have atm': "atm h' = atm (heap w)" using assms(3) by (simp add: fun_eq_iff atm_def)
  have nodes: "node_at ?w n = Some (atm h' n)" if "n \<in> set seg" for n
    using dll_alloc[OF assms(2) that] by (auto simp: node_at_def)
  have nd: "node_at ?w (hd seg) = Some (atm (heap w) (hd seg))"
    using nodes[of "hd seg"] assms(4) atm' by simp
  have run: "iterateFrom h' (Some (hd seg)) = Some seg"
    using iterateFrom_dll[OF assms(2)] assms(4) by (cases seg) simp_all
  let ?w1 = "removeNodeIdFromMaps ?w (atm (heap w) (hd seg)) False"
  have "heap ?w1 = h'" "node_at ?w1 = node_at ?w"
    by (simp_all add: removeNodeIdFromMaps_def node_at_def fun_eq_iff)
  moreover have "hd seg \<in> set seg" using assms(4) by simp
  then have "insert (key_of (heap w) (hd seg)) (key_of (heap w) ` set seg) = key_of (heap w) ` set seg"
    "insert (ahash (atm (heap w) (hd seg))) ((\<lambda>n. ahash (atm (heap w) n)) ` set seg) =
      (\<lambda>n. ahash (atm (heap w) n)) ` set seg"
    by blast+
  ultimately have "removeListFromMaps ?w (hd seg) False = Some (unmapped w seg h' (roots w))"
    using nodes removeNodesFromMaps_drop[of seg ?w1] run nd
    by (simp add: removeListFromMaps_def removeNodeIdFromMaps_drop unmapped_def atm')
  moreover have "node_at (unmapped w seg h' (roots w)) (hd seg) = Some (atm (heap w) (hd seg))"
    using nd by (simp add: node_at_def unmapped_def)
  ultimately show ?thesis
    using assms(1) by (simp add: removeSpan_def unmapped_def)
qed

text \<open>
  Unlinking and unmapping some nodes of a chain keeps the invariant: \<open>keep\<close> is what is left of the
  chain, no chain when nothing is.
\<close>

lemma weave_inv_unmapped:
  assumes inv: "weave_inv w nss" and mem: "set (concat nss') \<union> set seg = set (concat nss)"
    and disj: "set (concat nss') \<inter> set seg = {}" and rs: "map hd nss' = rs"
    and dist: "distinct (concat nss')"
    and ok: "\<And>ns. ns \<in> set nss' \<Longrightarrow> dll h' None ns None \<and> chain_ok (map (atm (heap w)) ns)"
    and atoms: "atoms_of h' = atoms_of (heap w)"
  shows "weave_inv (unmapped w seg h' rs) nss'"
proof -
  have atm': "atm h' = atm (heap w)" using atoms by (simp add: fun_eq_iff atm_def)
  have alloc: "(h' n \<noteq> None) = (heap w n \<noteq> None)" for n
    using fun_cong[OF atoms, of n] by (cases "h' n"; cases "heap w n") (simp_all add: atoms_of_def)
  have ids: "drop_keys (idMap w) (key_of (heap w) ` set seg) k = Some n \<longleftrightarrow>
      n \<in> set (concat nss') \<and> key_of (heap w) n = k" for k n
  proof -
    have "n \<in> set (concat nss') \<Longrightarrow> key_of (heap w) n \<notin> key_of (heap w) ` set seg"
      using mem disj key_of_inj[OF inv, of n] by blast
    then show ?thesis
      using weave_invD(6)[OF inv, of k n] mem by (auto simp: drop_keys_def simp del: set_concat)
  qed
  have hashes: "drop_keys (hashMap w) ((\<lambda>n. ahash (atm (heap w) n)) ` set seg) k = Some n \<Longrightarrow>
      n \<in> set (concat nss') \<and> ahash (atm (heap w) n) = k" for k n
    using weave_invD(7)[OF inv, of k n] mem by (auto simp: drop_keys_def simp del: set_concat split: if_splits)
  show ?thesis
    unfolding weave_inv_def unmapped_def
    using rs dist ok ids hashes alloc weave_invD(5)[OF inv] by (simp add: atm' del: set_concat)
qed

lemma chains_of_same_atoms: "atoms_of (heap w') = atoms_of (heap w) \<Longrightarrow> chains_of w' = chains_of w"
  by (simp add: chains_of_def atm_def fun_eq_iff)

end
