(* ===== verification/WeaveSpec.thy ===== *)
theory WeaveSpec
  imports WeaveChains
begin

text \<open>
  What the operations of a weave do to its chains: insertion of a root, insertion under a cause,
  removal, repeated insertion and conflicts. Each lemma gives the result that the operation returns
  and the chains of the weave it leaves.
\<close>

section \<open>Removal\<close>

definition kept :: "'v atom \<Rightarrow> 'v atom list \<Rightarrow> 'v atom list" where
  "kept c ys = dropWhile (\<lambda>y. ts c < ts y) ys"

definition group_of :: "'v atom \<Rightarrow> 'v atom list \<Rightarrow> 'v atom list" where
  "group_of c ys = takeWhile (\<lambda>y. ts c < ts y) ys"

lemma removeSpan_inv:
  assumes inv: "weave_inv w (us @ (xs @ seg @ ys) # vs)" and xs: "xs \<noteq> []" and seg: "seg \<noteq> []"
  shows "\<exists>w'. removeSpan w (hd seg) (last seg) = Some w' \<and> weave_inv w' (us @ (xs @ ys) # vs) \<and>
    atoms_of (heap w') = atoms_of (heap w) \<and> same_rest w w' \<and> dll (heap w') None seg None"
proof -
  have mem: "xs @ seg @ ys \<in> set (us @ (xs @ seg @ ys) # vs)" by simp
  note D = weave_invD[OF inv]
  have "distinct (xs @ seg @ ys)" using D(2) by auto
  from unlinkSpan_dll[OF D(3)[OF mem] this seg] obtain h' where
    h': "unlinkSpan (heap w) (hd seg) (last seg) = Some h'"
    "dll h' None (xs @ ys) None" "dll h' None seg None" "atoms_of h' = atoms_of (heap w)"
    "\<And>m. m \<notin> set (xs @ seg @ ys) \<Longrightarrow> h' m = heap w m"
    by blast
  have ok: "chain_ok (map (atm (heap w)) (xs @ ys))" and "cause (atm (heap w) (hd seg)) \<noteq> None"
    using D(4)[OF mem] xs seg by (cases xs; cases seg; auto)+
  then have "removeSpan w (hd seg) (last seg) = Some (unmapped w seg h' (roots w))"
    using removeSpan_unmapped[OF h'(1,3,4) seg] by (simp only: if_False)
  moreover have "weave_inv (unmapped w seg h' (roots w)) (us @ (xs @ ys) # vs)"
  proof (rule weave_inv_unmapped[OF inv])
    show "map hd (us @ (xs @ ys) # vs) = roots w" using D(1) xs by simp
    show "set (concat (us @ (xs @ ys) # vs)) \<inter> set seg = {}" "distinct (concat (us @ (xs @ ys) # vs))"
      using D(2) by auto
    fix ns assume "ns \<in> set (us @ (xs @ ys) # vs)"
    then consider "ns = xs @ ys" | "ns \<in> set us \<union> set vs" by auto
    then show "dll h' None ns None \<and> chain_ok (map (atm (heap w)) ns)"
    proof cases
      case 2
      then have "dll h' None ns None = dll (heap w) None ns None"
        using D(2) by (intro dll_frame h'(5)) auto
      with D(3,4)[of ns] 2 show ?thesis by auto
    qed (use ok h'(2) in simp)
  qed (use h'(4) in auto)
  ultimately show ?thesis using h'(3,4) by (auto simp: unmapped_def same_rest_def)
qed

lemma remove_node_child_inv:
  assumes inv: "weave_inv w (us @ (xs @ c # ys) # vs)" and xs: "xs \<noteq> []"
  shows "\<exists>w'. remove_node w c = Some w' \<and> weave_inv w' (us @ (xs @ dropWhile (later (heap w) c) ys) # vs) \<and>
    atoms_of (heap w') = atoms_of (heap w) \<and> same_rest w w' \<and>
    dll (heap w') None (c # takeWhile (later (heap w) c) ys) None"
proof -
  let ?g = "takeWhile (later (heap w) c) ys" and ?k = "dropWhile (later (heap w) c) ys"
  have "weave_inv w (us @ (xs @ (c # ?g) @ ?k) # vs)" using inv by simp
  from removeSpan_inv[OF this xs] have "\<exists>w'. removeSpan w c (last (c # ?g)) = Some w' \<and>
      weave_inv w' (us @ (xs @ ?k) # vs) \<and>
      atoms_of (heap w') = atoms_of (heap w) \<and> same_rest w w' \<and> dll (heap w') None (c # ?g) None"
    by (simp del: dll.simps)
  moreover have "lastInCausalGroup (heap w) c = Some (last (c # ?g))"
    using weave_invD(3)[OF inv] by (intro lastInCausalGroup_dll[of _ None xs]) simp
  ultimately show ?thesis by (simp add: remove_node_def del: dll.simps)
qed

lemma remove_node_root_inv:
  assumes inv: "weave_inv w (us @ (c # ys) # vs)"
  shows "\<exists>w'. remove_node w c = Some w' \<and> weave_inv w' (us @ vs) \<and>
    atoms_of (heap w') = atoms_of (heap w) \<and> same_rest w w' \<and>
    dll (heap w') None (c # takeWhile (later (heap w) c) ys) None"
proof -
  have mem: "c # ys \<in> set (us @ (c # ys) # vs)" by simp
  note D = weave_invD[OF inv]
  have group: "takeWhile (later (heap w) c) ys = ys" and cause: "cause (atm (heap w) c) = None"
    using D(4)[OF mem] by auto
  obtain h' where h': "unlinkSpan (heap w) (hd (c # ys)) (last (c # ys)) = Some h'"
    "dll h' None (c # ys) None" "atoms_of h' = atoms_of (heap w)"
    "\<And>m. m \<notin> set (c # ys) \<Longrightarrow> h' m = heap w m"
    using unlinkSpan_dll[of "heap w" "[]" "c # ys" "[]"] D(3)[OF mem] D(2)
    by (auto simp del: dll.simps)
  have rs: "roots w = map hd us @ c # map hd vs" using D(1) by simp
  have "c \<notin> set (map hd us)"
  proof
    assume "c \<in> set (map hd us)"
    then obtain ns where ns: "ns \<in> set us" "c = hd ns" by auto
    then have "ns \<noteq> []" using D(4)[of ns] by auto
    with ns D(2) show False by auto
  qed
  then have remove: "remove1 c (roots w) = map hd (us @ vs)" using rs by (simp add: remove1_append)
  have "lastInCausalGroup (heap w) c = Some (last (c # ys))"
    using lastInCausalGroup_dll[of "heap w" None "[]" c ys] D(3)[OF mem] group by simp
  then have "remove_node w c = Some (unmapped w (c # ys) h' (map hd (us @ vs)))"
    using removeSpan_unmapped[OF h'(1-3)] cause remove by (simp add: remove_node_def)
  moreover have "weave_inv (unmapped w (c # ys) h' (map hd (us @ vs))) (us @ vs)"
  proof (rule weave_inv_unmapped[OF inv])
    fix ns assume "ns \<in> set (us @ vs)"
    then have "ns \<in> set us \<union> set vs" by auto
    then have "dll h' None ns None = dll (heap w) None ns None"
      using D(2) by (intro dll_frame h'(4)) auto
    with D(3,4)[of ns] \<open>ns \<in> set us \<union> set vs\<close> show "dll h' None ns None \<and> chain_ok (map (atm (heap w)) ns)"
      by auto
  qed (use D(2) h'(3) in auto)
  ultimately show ?thesis
    unfolding group using h'(2,3) by (auto simp: unmapped_def same_rest_def simp del: dll.simps)
qed

text \<open>Removal of a root takes its whole chain, removal of another atom its causal group.\<close>

definition removed_chains :: "'v atom list list \<Rightarrow> 'v atom list \<Rightarrow> 'v atom \<Rightarrow> 'v atom list \<Rightarrow>
    'v atom list list \<Rightarrow> 'v atom list list" where
  "removed_chains us xs c ys vs = (if xs = [] then us @ vs else us @ (xs @ kept c ys) # vs)"

lemma remove_node_chains:
  assumes inv: "weave_inv w (us @ (xs @ c # ys) # vs)"
    and nss: "nss = (if xs = [] then us @ vs else us @ (xs @ dropWhile (later (heap w) c) ys) # vs)"
  shows "\<exists>w'. remove_node w c = Some w' \<and> weave_inv w' nss \<and>
    atoms_of (heap w') = atoms_of (heap w) \<and> same_rest w w' \<and>
    iterateFrom (heap w') (Some c) = Some (c # takeWhile (later (heap w) c) ys)"
proof -
  have "\<exists>w'. remove_node w c = Some w' \<and> weave_inv w' nss \<and>
    atoms_of (heap w') = atoms_of (heap w) \<and> same_rest w w' \<and>
    dll (heap w') None (c # takeWhile (later (heap w) c) ys) None"
    using remove_node_root_inv[of w us c ys vs] remove_node_child_inv[OF inv] inv nss
    by (cases "xs = []") (simp_all del: dll.simps)
  then show ?thesis
    using iterateFrom_dll[of _ None "c # takeWhile (later (heap w) c) ys"] by (auto simp del: dll.simps)
qed

lemma removed_chains_of:
  "removed_chains (chains_of w us) (map (atm (heap w)) xs) (atm (heap w) c) (map (atm (heap w)) ys)
     (chains_of w vs) =
   chains_of w (if xs = [] then us @ vs else us @ (xs @ dropWhile (later (heap w) c) ys) # vs)"
  by (simp add: removed_chains_def chains_of_def kept_def dropWhile_map o_def)

lemma atoms_at_atms:
  "(\<And>n. n \<in> set ns \<Longrightarrow> heap w n \<noteq> None) \<Longrightarrow> atoms_at w ns = Some (map (atm (heap w)) ns)"
proof (induction ns)
  case (Cons n ns)
  from Cons.prems[of n] obtain nd where "heap w n = Some nd" by auto
  with Cons show ?case by (simp add: node_at_def)
qed simp

lemma weave_remove_chains:
  assumes ok: "weave_ok w" and chains: "weave_chains w = Some (us @ (xs @ c # ys) # vs)"
    and key: "atomIdToString (aid a) = atomIdToString (aid c)"
  shows "\<exists>n w'. weave_remove w (Some a) = Some (AtomRemoved n, w') \<and> weave_ok w' \<and>
    weave_chains w' = Some (removed_chains us xs c ys vs) \<and>
    weaveRemovedAtoms w' (AtomRemoved n) = Some (c # group_of c ys) \<and> same_rest w w'"
proof -
  obtain us' xs' n ys' vs' where inv: "weave_inv w (us' @ (xs' @ n # ys') # vs')"
    and eqs: "us = chains_of w us'" "vs = chains_of w vs'" "xs = map (atm (heap w)) xs'"
    "ys = map (atm (heap w)) ys'" "c = atm (heap w) n"
    using weave_ok_split[OF ok chains] by blast
  let ?g = "n # takeWhile (later (heap w) n) ys'"
  have "getNode w (aid a) = Some n"
    using getNode_inv[OF inv] key eqs(5) by simp
  moreover obtain w' where w': "remove_node w n = Some w'"
    "weave_inv w' (if xs' = [] then us' @ vs' else us' @ (xs' @ dropWhile (later (heap w) n) ys') # vs')"
    "atoms_of (heap w') = atoms_of (heap w)" "same_rest w w'" "iterateFrom (heap w') (Some n) = Some ?g"
    using remove_node_chains[OF inv HOL.refl] by blast
  have atm': "atm (heap w') = atm (heap w)" using w'(3) by (simp add: fun_eq_iff atm_def)
  have "heap w' m \<noteq> None" if "m \<in> set ?g" for m
  proof -
    have "m \<in> set (concat (us' @ (xs' @ n # ys') # vs'))"
      using that set_takeWhileD[of m "later (heap w) n" ys'] by auto
    then have "atoms_of (heap w) m \<noteq> None" using weave_inv_alloc(3)[OF inv] by blast
    then show ?thesis using w'(3) by (metis atoms_of_def option.map_disc_iff)
  qed
  then have "atoms_at w' ?g = Some (c # group_of c ys)"
    using atoms_at_atms[of ?g w'] eqs(4,5) by (simp add: atm' group_of_def takeWhile_map o_def)
  then have "weaveRemovedAtoms w' (AtomRemoved n) = Some (c # group_of c ys)"
    using w'(5) by (simp add: weaveRemovedAtoms_def)
  ultimately show ?thesis
    using weave_chains_inv[OF w'(2)] eqs chains_of_same_atoms[OF w'(3)] w'(1,4) weave_okI[OF w'(2)]
    by (simp add: weave_remove_def removed_chains_of del: if_split)
qed

section \<open>Insertion of a root\<close>

lemma atoms_upd_fresh:
  assumes "atoms_of h' = (atoms_of h)(n \<mapsto> a)" and "n \<notin> set (concat nss)"
  shows "map (map (atm h')) nss = map (map (atm h)) nss"
  using assms by (auto simp: atm_def)

lemma addRoot_inv:
  assumes inv: "weave_inv w nss" and new: "getNode w (aid a) = None" and cause: "cause a = None"
    and r: "addRoot w a = (n, w')"
  shows "weave_inv w' (nss @ [[n]])" "chains_of w' (nss @ [[n]]) = chains_of w nss @ [[a]]"
    "same_rest w w'" "atoms_of (heap w') = (atoms_of (heap w))(n \<mapsto> a)" "n = next_addr w"
proof -
  let ?h = "(heap w)(next_addr w \<mapsto> createNode a None None)"
  note D = weave_invD[OF inv]
  have n: "n = next_addr w" and w': "w' = w\<lparr>heap := ?h, next_addr := Suc n, roots := roots w @ [n],
      idMap := (idMap w)(atomIdToString (aid a) \<mapsto> n), hashMap := (hashMap w)(ahash a \<mapsto> n)\<rparr>"
    using r by (auto simp: addRoot_def alloc_node_def addNodeToMaps_def)
  have fresh: "n \<notin> set (concat nss)" using fresh_not_in_chains[OF inv] n by simp
  show atoms: "atoms_of (heap w') = (atoms_of (heap w))(n \<mapsto> a)" using w' n by simp
  then have atm': "atm (heap w') m = (if m = n then a else atm (heap w) m)" for m
    by (simp add: atm_def)
  show "n = next_addr w" by (rule n)
  show "same_rest w w'" using w' by (simp add: same_rest_def)
  show chains: "chains_of w' (nss @ [[n]]) = chains_of w nss @ [[a]]"
    using atoms_upd_fresh[OF atoms fresh] by (simp add: chains_of_def atm')
  have old: "dll (heap w') None ns None \<and> chain_ok (map (atm (heap w')) ns)" if "ns \<in> set nss" for ns
  proof -
    have "n \<notin> set ns" using fresh that by auto
    then have "dll (heap w') None ns None = dll (heap w) None ns None"
      "map (atm (heap w')) ns = map (atm (heap w)) ns"
      using w' n chain_split_atm[OF atoms] by (auto intro!: dll_frame simp del: map_eq_conv)
    with D(3,4)[OF that] show ?thesis by (simp only:)
  qed
  have maps: "idMap w' = (idMap w)(atomIdToString (aid a) \<mapsto> n)" "hashMap w' = (hashMap w)(ahash a \<mapsto> n)"
    and new': "idMap w (atomIdToString (aid a)) = None"
    using w' new by (simp_all add: getNode_def)
  have "idMap w' k = Some m \<longleftrightarrow> m \<in> set (concat (nss @ [[n]])) \<and> key_of (heap w') m = k" for k m
    using D(6)[of k m] fresh new' unfolding maps by (auto simp: atm')
  moreover have "hashMap w' k = Some m \<longrightarrow> m \<in> set (concat (nss @ [[n]])) \<and> ahash (atm (heap w') m) = k" for k m
    using D(7)[of k m] fresh unfolding maps by (auto simp: atm')
  moreover have "heap w' m \<noteq> None \<longrightarrow> m < next_addr w'" for m
    using D(5)[of m] w' n by auto
  moreover have "dll (heap w') None [n] None \<and> chain_ok (map (atm (heap w')) [n])"
    using w' n cause by (simp add: createNode_def atm')
  moreover have "map hd (nss @ [[n]]) = roots w'" using D(1) w' by simp
  moreover have "distinct (concat (nss @ [[n]]))" using D(2) fresh by simp
  ultimately show "weave_inv w' (nss @ [[n]])"
    unfolding weave_inv_def using old by (auto simp del: set_concat dll.simps chain_ok.simps)
qed

lemma weave_inv_cardinality [simp]: "weave_inv (w\<lparr>cardinalityMap := m\<rparr>) nss = weave_inv w nss"
  and chains_of_cardinality [simp]: "chains_of (w\<lparr>cardinalityMap := m\<rparr>) nss = chains_of w nss"
  by (simp_all add: weave_inv_def chains_of_def)


text \<open>While nothing is buffered, the new node adopts nothing.\<close>

lemma adoptMissing_Nil [simp]: "reorderBuffer w = [] \<Longrightarrow> adoptMissing w n a = Some (AtomAdded a, w)"
  by (simp add: adoptMissing_def)

lemma countCardinality_plain [simp]: "cardinality i = Undefined \<Longrightarrow> countCardinality m i = Some m"
  by (simp add: countCardinality_def)

lemma insertRoot_chains:
  assumes ok: "weave_ok w" and chains: "weave_chains w = Some cs" and buf: "reorderBuffer w = []"
    and new: "\<And>b. b \<in> set (concat cs) \<Longrightarrow> atomIdToString (aid b) \<noteq> atomIdToString (aid a)"
    and cause: "cause a = None" and hash: "atomMatchesHash H a None"
    and card: "cardinality (aid a) \<noteq> Null"
      "\<And>k. cardinality (aid a) = Val k \<Longrightarrow> 0 < number k"
    and count: "countCardinality (cardinalityMap w) (aid a) = Some m"
  shows "\<exists>w'. weave_insert H w a = Some (Inr (AtomAdded a), w') \<and> weave_ok w' \<and>
    weave_chains w' = Some (cs @ [[a]]) \<and> cardinalityMap w' = m \<and> reorderBuffer w' = []"
proof -
  from ok obtain nss where inv: "weave_inv (w\<lparr>cardinalityMap := m\<rparr>) nss" and inv': "weave_inv w nss"
    unfolding weave_ok_def by auto
  have cs: "cs = chains_of w nss" using chains inv' by (simp add: weave_chains_inv)
  have none: "getNode w (aid a) = None" using new getNode_None_chains[OF ok chains] by blast
  then have none': "getNode (w\<lparr>cardinalityMap := m\<rparr>) (aid a) = None" by (simp add: getNode_def)
  obtain n w' where r: "addRoot (w\<lparr>cardinalityMap := m\<rparr>) a = (n, w')" by (metis surj_pair)
  note A = addRoot_inv[OF inv none' cause r]
  from A(3) buf have "reorderBuffer w' = []" "cardinalityMap w' = m" by (simp_all add: same_rest_def)
  moreover have "weave_insert H w a = Some (Inr (AtomAdded a), w')"
    using calculation r none hash card count
    by (auto simp: weave_insert_def insertRoot_def cause split: js.splits)
  ultimately show ?thesis
    using weave_chains_inv[OF A(1)] A(2) cs weave_okI[OF A(1)] by auto
qed

section \<open>Insertion under a cause\<close>

lemma insertChild_full:
  assumes ok: "weave_ok w" and chains: "weave_chains w = Some (us @ (xs @ c # ys) # vs)"
    and buf: "reorderBuffer w = []"
    and new: "\<And>b. b \<in> set (concat (us @ (xs @ c # ys) # vs)) \<Longrightarrow> atomIdToString (aid b) \<noteq> atomIdToString (aid a)"
    and cause: "cause a = Some i" "atomIdToString i = atomIdToString (aid c)"
    and hash: "atomMatchesHash H a (Some c)" and time: "ts c < ts a"
  shows "\<exists>w'. weave_insert H w a = Some (Inr (AtomAdded a), w') \<and> weave_ok w' \<and>
    weave_chains w' = Some (us @ (xs @ c # insert_group c a ys) # vs) \<and> same_rest w w' \<and>
    (\<forall>j m. getNode w j = Some m \<longrightarrow> getNode w' j = Some m \<and> node_at w' m = node_at w m)"
proof -
  obtain us' xs' n ys' vs' where inv: "weave_inv w (us' @ (xs' @ n # ys') # vs')"
    and eqs: "us = chains_of w us'" "vs = chains_of w vs'" "xs = map (atm (heap w)) xs'"
    "ys = map (atm (heap w)) ys'" "c = atm (heap w) n"
    using weave_ok_split[OF ok chains] by blast
  have none: "getNode w (aid a) = None" using new getNode_None_chains[OF ok chains] by blast
  have n: "getNode w i = Some n" using getNode_inv[OF inv] cause(2) eqs(5) by simp
  have nd: "node_at w n = Some c"
    using weave_inv_alloc(3)[OF inv, of n] eqs(5) by (simp add: node_at_atoms_of)
  obtain w' ys1 ys2 where w': "insertUnder w n a False = Some (next_addr w, w')" "ys' = ys1 @ ys2"
    "insert_group (atm (heap w) n) a (map (atm (heap w)) ys') =
      map (atm (heap w)) ys1 @ a # map (atm (heap w)) ys2"
    "weave_inv w' (us' @ (xs' @ n # ys1 @ next_addr w # ys2) # vs')"
    "atoms_of (heap w') = (atoms_of (heap w))(next_addr w \<mapsto> a)" "same_rest w w'"
    using insertUnder_inv[OF inv none] cause(1) time eqs(5) by auto
  then have "reorderBuffer w' = []" using buf by (simp add: same_rest_def)
  then have "weave_insert H w a = Some (Inr (AtomAdded a), w')"
    using w'(1) n nd hash time none cause(1)
    by (simp add: weave_insert_def insertChild_def)
  moreover have "weave_chains w' = Some (us @ (xs @ c # insert_group c a ys) # vs)"
  proof -
    have "next_addr w \<notin> set (concat (us' @ (xs' @ n # ys1 @ ys2) # vs'))"
      using fresh_not_in_chains[OF inv] w'(2) by simp
    from atoms_upd_fresh[OF w'(5) this]
    have "map (map (atm (heap w'))) us' = map (map (atm (heap w))) us'"
      "map (map (atm (heap w'))) vs' = map (map (atm (heap w))) vs'"
      "map (atm (heap w')) (xs' @ n # ys1 @ ys2) = map (atm (heap w)) (xs' @ n # ys1 @ ys2)"
      by (simp_all del: map_eq_conv)
    moreover have "atm (heap w') (next_addr w) = a" using w'(5) by (simp add: atm_def)
    ultimately show ?thesis
      using weave_chains_inv[OF w'(4)] eqs w'(3) by (simp add: chains_of_def del: map_eq_conv)
  qed
  moreover have "getNode w' j = Some m \<and> node_at w' m = node_at w m" if found: "getNode w j = Some m" for j m
  proof -
    have m: "m \<in> set (concat (us' @ (xs' @ n # ys') # vs'))" "key_of (heap w) m = atomIdToString j"
      using found getNode_inv[OF inv] by simp_all
    then have "m \<noteq> next_addr w" using fresh_not_in_chains[OF inv] by metis
    then have same: "atoms_of (heap w') m = atoms_of (heap w) m" using w'(5) by simp
    then have "atm (heap w') m = atm (heap w) m" by (simp add: atm_def)
    moreover have "m \<in> set (concat (us' @ (xs' @ n # ys1 @ next_addr w # ys2) # vs'))" using m(1) w'(2) by auto
    ultimately show ?thesis using getNode_inv[OF w'(4)] m(2) same by (simp add: node_at_atoms_of)
  qed
  ultimately show ?thesis using w'(4,6) by blast
qed

lemma insertChild_chains:
  assumes "weave_ok w" and "weave_chains w = Some (us @ (xs @ c # ys) # vs)" and "reorderBuffer w = []"
    and "\<And>b. b \<in> set (concat (us @ (xs @ c # ys) # vs)) \<Longrightarrow> atomIdToString (aid b) \<noteq> atomIdToString (aid a)"
    and "cause a = Some i" "atomIdToString i = atomIdToString (aid c)"
    and "atomMatchesHash H a (Some c)" and "ts c < ts a"
  shows "\<exists>w'. weave_insert H w a = Some (Inr (AtomAdded a), w') \<and> weave_ok w' \<and>
    weave_chains w' = Some (us @ (xs @ c # insert_group c a ys) # vs) \<and> same_rest w w'"
  using insertChild_full[OF assms] by blast

end
