(* ===== verification/Convergence.thy ===== *)
theory Convergence
  imports WeaveSpec
begin

text \<open>
  Convergence of weaves. The interface \<open>chain_store\<close> is what the causal tree needs of a weave:
  insertion of a root opens a chain, insertion of an atom whose cause is present splices it behind
  its cause. In every store with this interface, the chains that a causally ordered sequence of
  insertions leaves are the traversals of causal trees, and depend on the set of atoms only.
\<close>

section \<open>Causally ordered sequences\<close>

text \<open>
  An atom whose id string is unambiguous: no \<^verbatim>\<open>@\<close> in the site (sites are UUIDs), no cardinality
  and no negative priority.
\<close>

definition plain_atom :: "'v atom \<Rightarrow> bool" where
  "plain_atom a \<longleftrightarrow> CHR ''@'' \<notin> set (site (aid a)) \<and> cardinality (aid a) = Undefined \<and> 0 \<le> prio a"

text \<open>An atom is ready when its cause has arrived, is earlier and is not prioritised.\<close>

definition ready :: "'v hasher \<Rightarrow> 'v atom list \<Rightarrow> 'v atom \<Rightarrow> bool" where
  "ready H acc a \<longleftrightarrow>
     plain_atom a \<and> okey a \<notin> okey ` set acc \<and>
     (case cause a of
        None \<Rightarrow> atomMatchesHash H a None
      | Some i \<Rightarrow>
          list_ex (\<lambda>c. idEquals (Some i) (Some (aid c)) \<and> prio c = 0 \<and> ts c < ts a \<and> atomMatchesHash H a (Some c)) acc)"

fun causal_seq :: "'v hasher \<Rightarrow> 'v atom list \<Rightarrow> 'v atom list \<Rightarrow> bool" where
  "causal_seq H acc [] \<longleftrightarrow> True"
| "causal_seq H acc (a # as) \<longleftrightarrow> ready H acc a \<and> causal_seq H (acc @ [a]) as"

lemma plain_key_eq:
  "plain_atom a \<Longrightarrow> plain_atom b \<Longrightarrow>
   atomIdToString (aid a) = atomIdToString (aid b) \<longleftrightarrow> okey a = okey b"
  by (auto simp: plain_atom_def okey_def atomIdToString_eq_iff)

section \<open>Forests\<close>

text \<open>The atoms that were added, as a list of well-formed trees.\<close>

definition forest_of :: "'v atom list \<Rightarrow> 'v ctree list \<Rightarrow> bool" where
  "forest_of acc ks \<longleftrightarrow>
     (\<forall>t\<in>set ks. wf_ctree t \<and> cause (root_atom t) = None) \<and> distinct (map okey (forest ks)) \<and>
     set (forest ks) = set acc \<and> map root_atom ks = filter (\<lambda>a. cause a = None) acc \<and>
     (\<forall>a\<in>set acc. plain_atom a)"

lemma forest_of_root:
  assumes "forest_of acc ks" and "ready H acc a" and "cause a = None"
  shows "forest_of (acc @ [a]) (ks @ [CNode a []])"
  using assms by (auto simp: forest_of_def ready_def plain_atom_def)

lemma forest_of_child:
  assumes f: "forest_of acc (us @ t # vs)" and a: "ready H acc a" "cause a = Some i"
    and c: "c \<in> set (preorder t)" "idEquals (Some i) (Some (aid c))" "prio c = 0" "ts c < ts a"
  shows "forest_of (acc @ [a]) (us @ tree_insert c a t # vs)"
    and "preorder t = ps @ c # qs \<Longrightarrow> preorder (tree_insert c a t) = ps @ c # insert_group c a qs"
proof -
  have wf: "wf_ctree t" and dist: "distinct (map okey (preorder t))"
    and new: "okey a \<notin> okey ` set acc" and nonneg: "0 \<le> prio a"
    using f a by (auto simp: forest_of_def ready_def plain_atom_def)
  have sub: "set (preorder t) \<subseteq> set acc" using f by (auto simp: forest_of_def)
  then have new_t: "okey a \<notin> okey ` set (preorder t)" using new by blast
  have set_t: "set (preorder (tree_insert c a t)) = insert a (set (preorder t))"
    by (rule set_preorder_insert[OF dist c(1)])
  have "distinct (map okey (preorder (tree_insert c a t)))"
    by (rule distinct_tree_insert[OF wf dist c(1,3) new_t])
  then have "distinct (map okey (forest (us @ tree_insert c a t # vs)))"
    using f new set_t unfolding forest_of_def by (auto simp: set_t)
  moreover have "wf_ctree (tree_insert c a t)"
    using wf_tree_insert[OF wf dist c(1,3) _ c(4) nonneg new_t] a(2) c(2) by simp
  moreover have "set (forest (us @ tree_insert c a t # vs)) = insert a (set (forest (us @ t # vs)))"
    using set_t by auto
  ultimately show "forest_of (acc @ [a]) (us @ tree_insert c a t # vs)"
    using f a by (simp add: forest_of_def ready_def)
  assume split: "preorder t = ps @ c # qs"
  then have "okey c \<notin> okey ` set ps" using dist by auto
  then have "insert_at c a (preorder t) = ps @ c # insert_group c a qs"
    using split by (simp add: insert_at_split)
  then show "preorder (tree_insert c a t) = ps @ c # insert_group c a qs"
    using insert_at_preorder[OF wf dist c(1,3), of "[]" a] by simp
qed

text \<open>Within a forest, what is below a root is its tree.\<close>

lemma below_root:
  assumes f: "forest_of acc ks" and t: "t \<in> set ks" and b: "below (set acc) (root_atom t) y"
  shows "y \<in> set (preorder t)"
  using b
proof (induction rule: below.induct[consumes 1, case_names refl step])
  case (step y z)
  have "z \<in> set (forest ks)" using step.hyps(2) f by (simp add: forest_of_def del: set_concat)
  then obtain l where l: "l \<in> set ks" "z \<in> set (preorder l)" by auto
  have wf: "wf_ctree l" "cause (root_atom l) = None" and dist: "distinct (map okey (forest ks))"
    using f l(1) by (auto simp: forest_of_def)
  have "z \<noteq> root_atom l" using wf(2) step.hyps(3) by auto
  with cause_in_tree[OF wf(1) l(2)] obtain p where p: "p \<in> set (preorder l)" "idEquals (cause z) (Some (aid p))"
    by blast
  with step.hyps(3) have "id_norm (aid p) = id_norm (aid y)" by (cases "cause z") auto
  then have "okey p = okey y" by (rule id_norm_okey)
  moreover have "p \<in> set (forest ks)" "y \<in> set (forest ks)" using p(1) l(1) step.IH t by auto
  ultimately have "p = y" using distinct_map_inj[OF dist] by blast
  with forest_unique_kid[OF dist t l(1)] step.IH p(1) have "t = l" by blast
  with l(2) show ?case by simp
qed simp

lemma forest_unique_tree:
  assumes f: "forest_of acc ks" "forest_of acc' ls" and s: "set acc = set acc'"
    and t: "t \<in> set ks" "l \<in> set ls" "root_atom t = root_atom l"
  shows "t = l"
proof -
  have wf: "wf_ctree t" "wf_ctree l" and sub: "set (preorder t) \<subseteq> set acc" "set (preorder l) \<subseteq> set acc"
    and dist: "distinct (map okey (forest ks))" "distinct (map okey (forest ls))"
    using f s t by (auto simp: forest_of_def)
  have "distinct (map okey (preorder t))" "distinct (map okey (preorder l))"
    using dist t(1,2) by (metis forest_okey_split(3) root_in_preorder split_list)+
  moreover have "set (preorder t) = set (preorder l)"
  proof (intro set_eqI iffI)
    fix y assume "y \<in> set (preorder t)"
    from preorder_below[OF wf(1) sub(1) this] show "y \<in> set (preorder l)"
      using below_root[OF f(2) t(2)] s t(3) by simp
  next
    fix y assume "y \<in> set (preorder l)"
    from preorder_below[OF wf(2) sub(2) this] show "y \<in> set (preorder t)"
      using below_root[OF f(1) t(1)] t(3) by simp
  qed
  ultimately show ?thesis using wf_ctree_unique[OF wf] t(3) by blast
qed

text \<open>Two forests over the same atoms have the same trees, in the order of their roots.\<close>

lemma forest_unique:
  assumes f: "forest_of acc ks" "forest_of acc' ls" and s: "set acc = set acc'"
  shows "set ks = set ls"
    and "filter (\<lambda>a. cause a = None) acc = filter (\<lambda>a. cause a = None) acc' \<Longrightarrow> ks = ls"
proof -
  have roots: "root_atom ` set ks = root_atom ` set ls"
  proof -
    have "set (map root_atom ks) = set (map root_atom ls)"
      using f s unfolding forest_of_def by (auto simp del: set_map)
    then show ?thesis by simp
  qed
  show "set ks = set ls"
  proof (intro set_eqI iffI)
    fix t assume t: "t \<in> set ks"
    then obtain l where "l \<in> set ls" "root_atom t = root_atom l" using roots by (metis imageE imageI)
    with forest_unique_tree[OF f s t] show "t \<in> set ls" by blast
  next
    fix l assume l: "l \<in> set ls"
    then obtain t where "t \<in> set ks" "root_atom t = root_atom l" using roots by (metis imageE imageI)
    with forest_unique_tree[OF f s _ l] show "l \<in> set ks" by blast
  qed
  assume "filter (\<lambda>a. cause a = None) acc = filter (\<lambda>a. cause a = None) acc'"
  then have eq: "map root_atom ks = map root_atom ls" using f by (simp add: forest_of_def)
  show "ks = ls"
  proof (rule nth_equalityI)
    show len: "length ks = length ls" using eq by (metis length_map)
    fix i assume i: "i < length ks"
    with eq len have "root_atom (ks ! i) = root_atom (ls ! i)" by (metis nth_map)
    with forest_unique_tree[OF f s] i len show "ks ! i = ls ! i" by simp
  qed
qed

section \<open>The interface of a weave\<close>

fun insert_all :: "('w \<Rightarrow> 'v atom \<Rightarrow> 'w option) \<Rightarrow> 'w \<Rightarrow> 'v atom list \<Rightarrow> 'w option" where
  "insert_all ins w [] = Some w"
| "insert_all ins w (a # as) = do { w' \<leftarrow> ins w a; insert_all ins w' as }"

locale chain_store =
  fixes H :: "'v hasher" and new :: 'w and ins :: "'w \<Rightarrow> 'v atom \<Rightarrow> 'w option"
    and good :: "'w \<Rightarrow> bool" and chains :: "'w \<Rightarrow> 'v atom list list option"
  assumes good_new: "good new" and chains_new: "chains new = Some []"
    and ins_root:
      "\<lbrakk>good w; chains w = Some cs;
        \<forall>b\<in>set (concat cs). atomIdToString (aid b) \<noteq> atomIdToString (aid a);
        cause a = None; atomMatchesHash H a None; cardinality (aid a) = Undefined\<rbrakk>
       \<Longrightarrow> \<exists>w'. ins w a = Some w' \<and> good w' \<and> chains w' = Some (cs @ [[a]])"
    and ins_child:
      "\<lbrakk>good w; chains w = Some (us @ (xs @ c # ys) # vs);
        \<forall>b\<in>set (concat (us @ (xs @ c # ys) # vs)). atomIdToString (aid b) \<noteq> atomIdToString (aid a);
        cause a = Some i; atomIdToString i = atomIdToString (aid c); atomMatchesHash H a (Some c);
        ts c < ts a\<rbrakk>
       \<Longrightarrow> \<exists>w'. ins w a = Some w' \<and> good w' \<and> chains w' = Some (us @ (xs @ c # insert_group c a ys) # vs)"
begin

definition represents :: "'w \<Rightarrow> 'v atom list \<Rightarrow> 'v ctree list \<Rightarrow> bool" where
  "represents w acc ks \<longleftrightarrow> good w \<and> chains w = Some (map preorder ks) \<and> forest_of acc ks"

lemma represents_new: "represents new [] []"
  by (simp add: represents_def good_new chains_new forest_of_def)

lemma fresh_key:
  assumes "forest_of acc ks" and "ready H acc a"
  shows "\<forall>b\<in>set (forest ks). atomIdToString (aid b) \<noteq> atomIdToString (aid a)"
proof
  fix b assume "b \<in> set (forest ks)"
  then have "b \<in> set acc" using assms(1) unfolding forest_of_def by blast
  with assms show "atomIdToString (aid b) \<noteq> atomIdToString (aid a)"
    by (auto simp: forest_of_def ready_def plain_key_eq image_iff)
qed

lemma represents_step:
  assumes r: "represents w acc ks" and a: "ready H acc a"
  shows "\<exists>w' ls. ins w a = Some w' \<and> represents w' (acc @ [a]) ls"
proof (cases "cause a")
  case None
  have f: "forest_of acc ks" using r by (simp add: represents_def)
  have "\<exists>w'. ins w a = Some w' \<and> good w' \<and> chains w' = Some (map preorder ks @ [[a]])"
    using r a None fresh_key[OF f a] by (intro ins_root) (auto simp: represents_def ready_def plain_atom_def)
  then show ?thesis
    using forest_of_root[OF f a None] by (auto simp: represents_def intro!: exI[of _ "ks @ [CNode a []]"])
next
  case (Some i)
  have f: "forest_of acc ks" using r by (simp add: represents_def)
  from a Some obtain c where c: "c \<in> set acc" "idEquals (Some i) (Some (aid c))" "prio c = 0" "ts c < ts a"
    "atomMatchesHash H a (Some c)" by (auto simp: ready_def list_ex_iff)
  then have "c \<in> set (forest ks)" using f by (simp add: forest_of_def)
  then obtain us t vs where ks: "ks = us @ t # vs" and ct: "c \<in> set (preorder t)"
    by (auto dest: split_list)
  then obtain ps qs where t: "preorder t = ps @ c # qs" by (metis split_list)
  note F = forest_of_child[OF f[unfolded ks] a Some ct c(2-4)]
  have "\<exists>w'. ins w a = Some w' \<and> good w' \<and>
      chains w' = Some (map preorder us @ (ps @ c # insert_group c a qs) # map preorder vs)"
    using r fresh_key[OF f a] Some c idEquals_same_string[OF c(2)] t ks
    by (intro ins_child[of _ _ _ _ _ _ a i]) (auto simp: represents_def)
  then show ?thesis
    using F(1) F(2)[OF t] by (auto simp: represents_def intro!: exI[of _ "us @ tree_insert c a t # vs"])
qed

lemma represents_all:
  "represents w acc ks \<Longrightarrow> causal_seq H acc as \<Longrightarrow>
   \<exists>w' ls. insert_all ins w as = Some w' \<and> represents w' (acc @ as) ls"
proof (induction as arbitrary: w acc ks)
  case (Cons a as)
  from Cons.prems(2) have "ready H acc a" by simp
  from represents_step[OF Cons.prems(1) this] obtain w1 ls where
    1: "ins w a = Some w1" "represents w1 (acc @ [a]) ls" by blast
  from Cons.IH[OF 1(2)] Cons.prems(2) 1(1) show ?case by auto
qed auto

text \<open>Every causally ordered sequence is accepted, and its result is a forest of causal trees.\<close>

lemma accepts:
  assumes "causal_seq H [] as"
  shows "\<exists>w ks. insert_all ins new as = Some w \<and> good w \<and> chains w = Some (map preorder ks) \<and> forest_of as ks"
  using represents_all[OF represents_new assms] by (auto simp: represents_def)

text \<open>The result depends on the set of atoms and the order of the roots only.\<close>

lemma converges:
  assumes "causal_seq H [] as" and "causal_seq H [] bs" and "set as = set bs"
  shows "\<exists>w1 w2 cs1 cs2. insert_all ins new as = Some w1 \<and> insert_all ins new bs = Some w2 \<and>
    chains w1 = Some cs1 \<and> chains w2 = Some cs2 \<and> set cs1 = set cs2 \<and>
    (filter (\<lambda>a. cause a = None) as = filter (\<lambda>a. cause a = None) bs \<longrightarrow> cs1 = cs2)"
proof -
  from accepts[OF assms(1)] obtain w1 ks where
    1: "insert_all ins new as = Some w1" "chains w1 = Some (map preorder ks)" "forest_of as ks" by blast
  from accepts[OF assms(2)] obtain w2 ls where
    2: "insert_all ins new bs = Some w2" "chains w2 = Some (map preorder ls)" "forest_of bs ls" by blast
  from forest_unique[OF 1(3) 2(3) assms(3)] 1 2 show ?thesis by auto
qed

end

section \<open>The weave of the code provides the interface\<close>

definition insert_weave :: "'v hasher \<Rightarrow> 'v weave \<Rightarrow> 'v atom \<Rightarrow> 'v weave option" where
  "insert_weave H w a = (case weave_insert H w a of Some (Inr _, w') \<Rightarrow> Some w' | _ \<Rightarrow> None)"

interpretation wv: chain_store H "new_weave m" "insert_weave H" "\<lambda>w. weave_ok w \<and> reorderBuffer w = []" weave_chains
  for H :: "'v hasher" and m
proof unfold_locales
  show "weave_ok (new_weave m) \<and> reorderBuffer (new_weave m) = []"
    using weave_inv_new by (auto simp: new_weave_def)
  show "weave_chains (new_weave m) = Some []"
    by (simp add: weave_chains_def new_weave_def)
next
  fix w :: "'v weave" and cs and a :: "'v atom"
  assume "weave_ok w \<and> reorderBuffer w = []" "weave_chains w = Some cs"
    "\<forall>b\<in>set (concat cs). atomIdToString (aid b) \<noteq> atomIdToString (aid a)" "cause a = None"
    "atomMatchesHash H a None" "cardinality (aid a) = Undefined"
  then show "\<exists>w'. insert_weave H w a = Some w' \<and> (weave_ok w' \<and> reorderBuffer w' = []) \<and>
      weave_chains w' = Some (cs @ [[a]])"
    using insertRoot_chains[of w cs a H "cardinalityMap w"] by (fastforce simp: insert_weave_def)
next
  fix w :: "'v weave" and us vs xs ys and c a :: "'v atom" and i
  assume "weave_ok w \<and> reorderBuffer w = []" "weave_chains w = Some (us @ (xs @ c # ys) # vs)"
    "\<forall>b\<in>set (concat (us @ (xs @ c # ys) # vs)). atomIdToString (aid b) \<noteq> atomIdToString (aid a)"
    "cause a = Some i" "atomIdToString i = atomIdToString (aid c)" "atomMatchesHash H a (Some c)" "ts c < ts a"
  then show "\<exists>w'. insert_weave H w a = Some w' \<and> (weave_ok w' \<and> reorderBuffer w' = []) \<and>
      weave_chains w' = Some (us @ (xs @ c # insert_group c a ys) # vs)"
    using insertChild_chains[of w us xs c ys vs a i H] by (fastforce simp: insert_weave_def same_rest_def)
qed

end
