(* ===== verification/CausalTree2.thy ===== *)
theory CausalTree2
  imports SiteStatus Convergence
begin

text \<open>
  Causal trees: \<^verbatim>\<open>src/src/causal-trees/core2/CausalTree2.ts\<close>. A tree is a weave with a site (and its
  Lamport clock), a second site for remote edits and a version vector. The functions mutate the
  tree they are given, so they return it updated; an exception of the weave (\<open>Inl\<close>) leaves the tree
  as it was when it was thrown.
\<close>

section \<open>Trees and results\<close>

type_synonym version_vector = "string \<Rightarrow> int option"

record 'v causal_tree =
  tree_weave :: "'v weave"
  tree_site :: site_status
  tree_remoteSite :: "site_status option"
  tree_version :: version_vector

record 'v tree_result =
  results :: "'v weave_result list"
  result_site :: site_status
  result_remoteSite :: "site_status option"

record current_version =
  currentSite :: string
  remoteSite_id :: "string option"
  vector :: version_vector

definition new_tree :: "string \<Rightarrow> string option \<Rightarrow> int option \<Rightarrow> string option \<Rightarrow> 'v causal_tree" where
  "new_tree uuid i time remoteId =
     (let s = newSite uuid i time
      in \<lparr>tree_weave = new_weave None, tree_site = s,
          tree_remoteSite =
            (case remoteId of None \<Rightarrow> None | Some r \<Rightarrow> if r = [] then None else Some (newSite uuid (Some r) time)),
          tree_version = [site_id s \<mapsto> site_time s]\<rparr>)"

definition treeVersion :: "'v causal_tree \<Rightarrow> current_version" where
  "treeVersion t =
     \<lparr>currentSite = site_id (tree_site t), remoteSite_id = map_option site_id (tree_remoteSite t),
      vector = tree_version t\<rparr>"

section \<open>Versions\<close>

text \<open>\<^verbatim>\<open>version[site] || 0\<close>.\<close>

definition version_at :: "version_vector \<Rightarrow> string \<Rightarrow> int" where
  "version_at v s = (case v s of None \<Rightarrow> 0 | Some n \<Rightarrow> n)"

definition bump_version :: "version_vector \<Rightarrow> 'v atom \<Rightarrow> version_vector" where
  "bump_version v a = v(site (aid a) \<mapsto> max (timestamp (aid a)) (version_at v (site (aid a))))"

fun bump_versions :: "version_vector \<Rightarrow> 'v atom list \<Rightarrow> version_vector" where
  "bump_versions v [] = v"
| "bump_versions v (a # as) = bump_versions (bump_version v a) as"

text \<open>The inner loop of \<^verbatim>\<open>insertAtoms\<close>: the clock and the version of the tree follow every added atom.\<close>

fun track_atoms :: "'v causal_tree \<Rightarrow> 'v atom list \<Rightarrow> 'v causal_tree" where
  "track_atoms t [] = t"
| "track_atoms t (a # as) =
     track_atoms
       (t\<lparr>tree_site := (tree_site t)\<lparr>site_time := calculateTime (tree_site t) a\<rparr>,
          tree_version := bump_version (tree_version t) a\<rparr>) as"

section \<open>Operations\<close>

fun insertAtoms ::
    "'v hasher \<Rightarrow> 'v causal_tree \<Rightarrow> 'v atom list \<Rightarrow> 'v weave_result list
      \<Rightarrow> ((js_error + 'v weave_result list) \<times> 'v causal_tree) option" where
  "insertAtoms H t [] rs = Some (Inr rs, t)"
| "insertAtoms H t (a # as) rs =
     do { (r, w) \<leftarrow> weave_insert H (tree_weave t) a;
          case r of Inl e \<Rightarrow> Some (Inl e, t\<lparr>tree_weave := w\<rparr>)
          | Inr q \<Rightarrow>
              (let t1 = t\<lparr>tree_weave := w\<rparr>;
                   t2 = (case addedWeaveAtoms q of None \<Rightarrow> t1 | Some added \<Rightarrow> track_atoms t1 added)
               in insertAtoms H t2 as (rs @ [q])) }"

fun removeAtoms ::
    "'v causal_tree \<Rightarrow> string list \<Rightarrow> 'v weave_result list \<Rightarrow> ('v weave_result list \<times> 'v causal_tree) option" where
  "removeAtoms t [] rs = Some (rs, t)"
| "removeAtoms t (h # hs) rs =
     (case getNodeByHash (tree_weave t) h of None \<Rightarrow> removeAtoms t hs rs
      | Some n \<Rightarrow> do {
          a \<leftarrow> node_at (tree_weave t) n;
          (r, w) \<leftarrow> weave_remove (tree_weave t) (Some a);
          removeAtoms (t\<lparr>tree_weave := w\<rparr>) hs (rs @ [r]) })"

definition insertAtom ::
    "'v hasher \<Rightarrow> 'v causal_tree \<Rightarrow> 'v atom \<Rightarrow> ((js_error + 'v tree_result) \<times> 'v causal_tree) option" where
  "insertAtom H t a =
     do { (r, w) \<leftarrow> weave_insert H (tree_weave t) a;
          Some (case r of Inl e \<Rightarrow> Inl e
                | Inr q \<Rightarrow>
                    Inr \<lparr>results = [q], result_site = updateSite (tree_site t) q,
                         result_remoteSite = map_option (\<lambda>s. updateSite s q) (tree_remoteSite t)\<rparr>,
                t\<lparr>tree_weave := w\<rparr>) }"

text \<open>\<^verbatim>\<open>remote ? tree.remoteSite ?? tree.site : tree.site\<close>.\<close>

definition editing_site :: "'v causal_tree \<Rightarrow> bool \<Rightarrow> site_status" where
  "editing_site t remote =
     (if remote then case tree_remoteSite t of Some s \<Rightarrow> s | None \<Rightarrow> tree_site t else tree_site t)"

definition addAtom ::
    "'v hasher \<Rightarrow> 'v causal_tree \<Rightarrow> 'v atom option \<Rightarrow> 'v \<Rightarrow> int js \<Rightarrow> atom_cardinality js \<Rightarrow> bool
      \<Rightarrow> ((js_error + 'v tree_result) \<times> 'v causal_tree) option" where
  "addAtom H t c v p k remote = insertAtom H t (createAtom H (editing_site t remote) c v p k)"

definition removeAtom :: "'v causal_tree \<Rightarrow> string \<Rightarrow> ('v tree_result \<times> 'v causal_tree) option" where
  "removeAtom t h =
     (case getNodeByHash (tree_weave t) h of
        None \<Rightarrow> Some (\<lparr>results = [], result_site = tree_site t, result_remoteSite = None\<rparr>, t)
      | Some n \<Rightarrow> do {
          a \<leftarrow> node_at (tree_weave t) n;
          (r, w) \<leftarrow> weave_remove (tree_weave t) (Some a);
          Some (\<lparr>results = [r], result_site = tree_site t, result_remoteSite = tree_remoteSite t\<rparr>,
                t\<lparr>tree_weave := w\<rparr>) })"

definition merge_remote :: "site_status option \<Rightarrow> site_status option \<Rightarrow> site_status option" where
  "merge_remote a b =
     (case (a, b) of (Some _, Some _) \<Rightarrow> mergeSites a b | (Some s, None) \<Rightarrow> Some s | (None, _) \<Rightarrow> b)"

text \<open>Both results have a site, so \<^verbatim>\<open>mergeSites\<close> does not return \<^verbatim>\<open>null\<close> here.\<close>

definition mergeResults :: "'v tree_result \<Rightarrow> 'v tree_result \<Rightarrow> 'v tree_result" where
  "mergeResults r1 r2 =
     \<lparr>results = results r1 @ results r2,
      result_site = the (mergeSites (Some (result_site r1)) (Some (result_site r2))),
      result_remoteSite = merge_remote (result_remoteSite r1) (result_remoteSite r2)\<rparr>"

definition addResults :: "'v tree_result \<Rightarrow> 'v tree_result \<Rightarrow> 'v tree_result" where
  "addResults r1 r2 =
     (let r = r1\<lparr>results := results r1 @ results r2,
                 result_site := the (mergeSites (Some (result_site r1)) (Some (result_site r2)))\<rparr>
      in case (result_remoteSite r1, result_remoteSite r2) of
           (Some _, Some _) \<Rightarrow> r\<lparr>result_remoteSite := mergeSites (result_remoteSite r1) (result_remoteSite r2)\<rparr>
         | (None, Some s) \<Rightarrow> r\<lparr>result_remoteSite := Some s\<rparr>
         | _ \<Rightarrow> r)"

fun bump_results :: "version_vector \<Rightarrow> 'v weave_result list \<Rightarrow> version_vector" where
  "bump_results v [] = v"
| "bump_results v (r # rs) =
     bump_results (case addedWeaveAtoms r of None \<Rightarrow> v | Some added \<Rightarrow> bump_versions v added) rs"

definition applyResult :: "'v causal_tree \<Rightarrow> 'v tree_result \<Rightarrow> 'v causal_tree" where
  "applyResult t r =
     \<lparr>tree_weave = tree_weave t, tree_site = result_site r, tree_remoteSite = result_remoteSite r,
      tree_version = bump_results (tree_version t) (results r)\<rparr>"

fun addedAtoms :: "'v weave_result list \<Rightarrow> 'v atom list" where
  "addedAtoms [] = []"
| "addedAtoms (r # rs) =
     (case addedAtom r of None \<Rightarrow> [] | Some (Inl a) \<Rightarrow> [a] | Some (Inr as) \<Rightarrow> as) @ addedAtoms rs"

fun removedAtoms :: "'v weave \<Rightarrow> 'v weave_result list \<Rightarrow> string list option" where
  "removedAtoms w [] = Some []"
| "removedAtoms w (r # rs) =
     do { as \<leftarrow> weaveRemovedAtoms w r; hs \<leftarrow> removedAtoms w rs; Some (map ahash as @ hs) }"

end
