(* ===== verification/CausalTreeSpec.thy ===== *)
theory CausalTreeSpec
  imports CausalTree2
begin

text \<open>
  Facts about causal trees: what the functions of \<^verbatim>\<open>CausalTree2.ts\<close> do to the weave, the clock and
  the version vector.
\<close>

section \<open>Clock and version\<close>

lemma track_atoms_weave [simp]:
  "tree_weave (track_atoms t as) = tree_weave t"
  "tree_remoteSite (track_atoms t as) = tree_remoteSite t"
  "site_id (tree_site (track_atoms t as)) = site_id (tree_site t)"
  by (induction as arbitrary: t) simp_all

lemma track_atoms_append: "track_atoms t (xs @ ys) = track_atoms (track_atoms t xs) ys"
  by (induction xs arbitrary: t) simp_all

lemma bump_versions_append: "bump_versions v (xs @ ys) = bump_versions (bump_versions v xs) ys"
  by (induction xs arbitrary: v) simp_all

lemma track_atoms_cong: "tree_site t = tree_site u \<Longrightarrow> tree_site (track_atoms t xs) = tree_site (track_atoms u xs)"
  by (induction xs arbitrary: t u) simp_all

lemma track_atoms_set_weave [simp]: "tree_site (track_atoms (t\<lparr>tree_weave := w\<rparr>) xs) = tree_site (track_atoms t xs)"
  by (rule track_atoms_cong) simp

lemma track_atoms_version: "tree_version (track_atoms t as) = bump_versions (tree_version t) as"
  by (induction as arbitrary: t) simp_all

lemma track_atoms_time: "site_time (tree_site t) \<le> site_time (tree_site (track_atoms t as))"
proof (induction as arbitrary: t)
  case (Cons a as)
  from Cons[of "t\<lparr>tree_site := (tree_site t)\<lparr>site_time := calculateTime (tree_site t) a\<rparr>,
      tree_version := bump_version (tree_version t) a\<rparr>"] calculateTime_mono[of "tree_site t" a]
  show ?case by simp
qed simp

lemma track_atoms_covers:
  "a \<in> set as \<Longrightarrow> timestamp (aid a) \<le> site_time (tree_site (track_atoms t as)) \<and>
     (site (aid a) \<noteq> site_id (tree_site t) \<longrightarrow> timestamp (aid a) < site_time (tree_site (track_atoms t as)))"
proof (induction as arbitrary: t)
  case (Cons b as)
  let ?t = "t\<lparr>tree_site := (tree_site t)\<lparr>site_time := calculateTime (tree_site t) b\<rparr>,
      tree_version := bump_version (tree_version t) b\<rparr>"
  show ?case
  proof (cases "a \<in> set as")
    case True
    with Cons.IH[of ?t] show ?thesis by simp
  next
    case False
    with Cons.prems have "a = b" by simp
    then show ?thesis
      using track_atoms_time[of ?t as] calculateTime_covers[of a "tree_site t"] calculateTime_other[of a "tree_site t"]
      by auto
  qed
qed simp

lemma bump_version_at: "version_at (bump_version v a) s = (if s = site (aid a) then max (timestamp (aid a)) (version_at v s) else version_at v s)"
  by (simp add: version_at_def bump_version_def)

lemma bump_versions_mono: "version_at v s \<le> version_at (bump_versions v as) s"
proof (induction as arbitrary: v)
  case (Cons a as)
  from Cons[of "bump_version v a"] show ?case by (simp add: bump_version_at split: if_splits)
qed simp

lemma bump_versions_covers: "a \<in> set as \<Longrightarrow> timestamp (aid a) \<le> version_at (bump_versions v as) (site (aid a))"
proof (induction as arbitrary: v)
  case (Cons b as)
  show ?case
  proof (cases "a \<in> set as")
    case False
    with Cons.prems have "a = b" by simp
    then show ?thesis using bump_versions_mono[of "bump_version v b" "site (aid b)" as]
      by (simp add: bump_version_at)
  qed (use Cons.IH in simp)
qed simp

text \<open>The version of a site is the highest timestamp that was seen of it, or the initial entry.\<close>

lemma Max_insert_max:
  fixes x v :: "'a :: linorder"
  assumes "finite T"
  shows "Max (insert (max x v) T) = max x (Max (insert v T))"
  using assms by (cases "T = {}") (simp_all add: max.assoc)

definition times_of :: "string \<Rightarrow> 'v atom list \<Rightarrow> int set" where
  "times_of s as = (\<lambda>a. timestamp (aid a)) ` {a \<in> set as. site (aid a) = s}"

lemma times_of_simps [simp]:
  "times_of s [] = {}"
  "times_of s (a # as) = (if site (aid a) = s then insert (timestamp (aid a)) (times_of s as) else times_of s as)"
  "finite (times_of s as)"
  by (auto simp: times_of_def)

lemma bump_versions_exact: "version_at (bump_versions v as) s = Max (insert (version_at v s) (times_of s as))"
proof (induction as arbitrary: v)
  case (Cons a as)
  from Cons[of "bump_version v a"] show ?case
    by (simp add: bump_version_at Max_insert_max insert_commute[of "version_at v s"])
qed simp

section \<open>Inserting many atoms\<close>

text \<open>Everything that the results of an insertion say was added.\<close>

definition added_by :: "'v weave_result list \<Rightarrow> 'v atom list" where
  "added_by rs = concat (map (\<lambda>r. case addedWeaveAtoms r of None \<Rightarrow> [] | Some as \<Rightarrow> as) rs)"

lemma addedAtoms_added_by: "addedAtoms rs = added_by rs"
  by (induction rs)
    (auto simp: added_by_def addedWeaveAtoms_addedAtom split: option.splits sum.splits)

lemma bump_results_added_by: "bump_results v rs = bump_versions v (added_by rs)"
  by (induction rs arbitrary: v) (auto simp: added_by_def bump_versions_append split: option.splits)

lemma insertAtoms_tracks:
  assumes "insertAtoms H t as rs = Some (Inr rs', t')"
  shows "\<exists>new. rs' = rs @ new \<and> length new = length as \<and> tree_site t' = tree_site (track_atoms t (added_by new)) \<and>
    tree_version t' = bump_versions (tree_version t) (added_by new) \<and> tree_remoteSite t' = tree_remoteSite t"
  using assms
proof (induction as arbitrary: t rs)
  case Nil
  then show ?case by (simp add: added_by_def)
next
  case (Cons a as)
  from Cons.prems obtain r w where r: "weave_insert H (tree_weave t) a = Some (r, w)"
    by (cases "weave_insert H (tree_weave t) a") auto
  with Cons.prems obtain q where q: "r = Inr q" by (cases r) auto
  with r Cons.prems have rest: "insertAtoms H (case addedWeaveAtoms q of None \<Rightarrow> t\<lparr>tree_weave := w\<rparr>
       | Some added \<Rightarrow> track_atoms (t\<lparr>tree_weave := w\<rparr>) added) as (rs @ [q]) = Some (Inr rs', t')"
    by (simp add: Let_def)
  define added where "added = (case addedWeaveAtoms q of None \<Rightarrow> [] | Some xs \<Rightarrow> xs)"
  have "insertAtoms H (track_atoms (t\<lparr>tree_weave := w\<rparr>) added) as (rs @ [q]) = Some (Inr rs', t')"
    using rest by (simp add: added_def split: option.splits)
  from Cons.IH[OF this] obtain new where new: "rs' = (rs @ [q]) @ new" "length new = length as"
    "tree_site t' = tree_site (track_atoms (track_atoms (t\<lparr>tree_weave := w\<rparr>) added) (added_by new))"
    "tree_version t' = bump_versions (bump_versions (tree_version t) added) (added_by new)"
    "tree_remoteSite t' = tree_remoteSite t"
    by (auto simp: track_atoms_version)
  have "tree_site (track_atoms (track_atoms (t\<lparr>tree_weave := w\<rparr>) added) (added_by new)) =
      tree_site (track_atoms (track_atoms t added) (added_by new))"
    by (rule track_atoms_cong) simp
  moreover have "added_by (q # new) = added @ added_by new" by (simp add: added_by_def added_def)
  ultimately show ?case
    using new by (intro exI[of _ "q # new"]) (simp add: track_atoms_append bump_versions_append)
qed

text \<open>\<^verbatim>\<open>insertAtoms\<close> inserts into the weave what \<open>insert_all\<close> does.\<close>

lemma insertAtoms_weave:
  "insert_all (insert_weave H) (tree_weave t) as = Some w \<Longrightarrow>
   \<exists>rs' t'. insertAtoms H t as rs = Some (Inr rs', t') \<and> tree_weave t' = w"
proof (induction as arbitrary: t rs)
  case (Cons a as)
  then obtain w1 where w1: "insert_weave H (tree_weave t) a = Some w1"
    "insert_all (insert_weave H) w1 as = Some w" by (auto simp: Option.bind_eq_Some_conv)
  then obtain q where q: "weave_insert H (tree_weave t) a = Some (Inr q, w1)"
    by (auto simp: insert_weave_def split: option.splits sum.splits prod.splits)
  let ?t = "case addedWeaveAtoms q of None \<Rightarrow> t\<lparr>tree_weave := w1\<rparr> | Some added \<Rightarrow> track_atoms (t\<lparr>tree_weave := w1\<rparr>) added"
  have "tree_weave ?t = w1" by (simp split: option.splits)
  with Cons.IH[of ?t "rs @ [q]"] w1(2) have "\<exists>rs' t'. insertAtoms H ?t as (rs @ [q]) = Some (Inr rs', t') \<and> tree_weave t' = w"
    by (simp only:)
  with q show ?case by (simp add: Let_def)
qed simp

section \<open>Local edits\<close>

text \<open>The clock of a site is ahead of the atoms of its tree, whose sites have no \<^verbatim>\<open>@\<close>.\<close>

definition site_ahead :: "site_status \<Rightarrow> 'v atom list \<Rightarrow> bool" where
  "site_ahead s as \<longleftrightarrow> CHR ''@'' \<notin> set (site_id s) \<and>
     (\<forall>a\<in>set as. CHR ''@'' \<notin> set (site (aid a)) \<and> timestamp (aid a) \<le> site_time s)"

lemma createAtom_fields:
  "aid (createAtom H s c v p k) = atomId (site_id s) (site_time s + 1) p k"
  "cause (createAtom H s c v p k) = map_option aid c"
  "timestamp (aid (createAtom H s c v p k)) = site_time s + 1"
  "site (aid (createAtom H s c v p k)) = site_id s"
  by (simp_all add: createAtom_def atom_def atomId_def)

lemma createAtom_fresh:
  assumes "site_ahead s as" and "b \<in> set as"
  shows "atomIdToString (aid b) \<noteq> atomIdToString (aid (createAtom H s c v p k))"
proof -
  have "timestamp (aid b) \<noteq> timestamp (aid (createAtom H s c v p k))"
    using assms by (auto simp: site_ahead_def createAtom_fields(3))
  moreover have "CHR ''@'' \<notin> set (site (aid b))" "CHR ''@'' \<notin> set (site (aid (createAtom H s c v p k)))"
    using assms unfolding createAtom_fields(4) by (auto simp: site_ahead_def)
  ultimately show ?thesis using atomIdToString_eq_iff by blast
qed

text \<open>An atom that is created under an atom of the tree is always accepted.\<close>

lemma addAtom_accepted:
  assumes ok: "weave_ok (tree_weave t)" "weave_chains (tree_weave t) = Some (us @ (xs @ c # ys) # vs)"
    and buf: "reorderBuffer (tree_weave t) = []"
    and ahead: "site_ahead (editing_site t remote) (concat (us @ (xs @ c # ys) # vs))"
    and a: "a = createAtom H (editing_site t remote) (Some c) v p k"
  shows "\<exists>w'. addAtom H t (Some c) v p k remote =
      Some (Inr \<lparr>results = [AtomAdded a], result_site = updateSite (tree_site t) (AtomAdded a),
                 result_remoteSite = map_option (\<lambda>s. updateSite s (AtomAdded a)) (tree_remoteSite t)\<rparr>,
            t\<lparr>tree_weave := w'\<rparr>) \<and>
    weave_ok w' \<and> weave_chains w' = Some (us @ (xs @ c # insert_group c a ys) # vs) \<and> reorderBuffer w' = []"
proof -
  have "ts c < ts a" unfolding a createAtom_fields(3) using ahead by (auto simp: site_ahead_def)
  moreover have "atomMatchesHash H a (Some c)" using a by (simp add: createAtom_def atomMatchesHash_atom)
  moreover have "cause a = Some (aid c)" using a by (simp add: createAtom_fields)
  ultimately obtain w' where "weave_insert H (tree_weave t) a = Some (Inr (AtomAdded a), w')" "weave_ok w'"
    "weave_chains w' = Some (us @ (xs @ c # insert_group c a ys) # vs)" "same_rest (tree_weave t) w'"
    using insertChild_chains[OF ok buf, of a "aid c" H] createAtom_fresh[OF ahead, of _ H "Some c" v p k] a by auto
  with buf show ?thesis using a by (auto simp: addAtom_def insertAtom_def same_rest_def)
qed

section \<open>Merging results\<close>

lemma mergeResults_addResults: "mergeResults r1 r2 = addResults r1 r2"
  by (auto simp: mergeResults_def addResults_def merge_remote_def Let_def split: option.splits)

end
