(* ===== verification/WeaveRules.thy ===== *)
theory WeaveRules
  imports WeaveSpec
begin

text \<open>
  The other outcomes of \<^verbatim>\<open>Weave.insert\<close>: atoms that are already there, conflicts between two atoms
  with one id, rejections, the size of the reorder buffer and the cardinality of root groups.
\<close>

section \<open>Rejections\<close>

definition rejected :: "'v weave_result \<Rightarrow> bool" where
  "rejected r = (case r of CauseNotFound _ saved \<Rightarrow> \<not> saved | HashFailed _ \<Rightarrow> True | InvalidTimestamp _ \<Rightarrow> True
     | InvalidCardinality _ \<Rightarrow> True | CardinalityViolated _ \<Rightarrow> True | AtomAlreadyAdded _ \<Rightarrow> True
     | Conflict _ _ None \<Rightarrow> True | InvalidArgument \<Rightarrow> True | AtomNotFound _ \<Rightarrow> True
     | NothingHappened \<Rightarrow> True | _ \<Rightarrow> False)"

lemma adoptMissing_accepts:
  "adoptMissing w n a = Some (r, w') \<Longrightarrow> \<not> rejected r \<and> (r = AtomAdded a \<or> (\<exists>xs. r = AtomsAdded xs))"
  by (auto simp: adoptMissing_def rejected_def Option.bind_eq_Some_conv split: if_splits prod.splits)

lemma resolveConflict_rejects:
  "resolveConflict w e a c = Some (r, w') \<Longrightarrow> rejected r \<Longrightarrow> w' = w"
  by (auto simp: resolveConflict_def rejected_def Option.bind_eq_Some_conv split: if_splits)

lemma resolveConflict_result:
  "resolveConflict w e a c = Some (r, w') \<Longrightarrow> r \<noteq> AtomAdded b \<and> r \<noteq> AtomsAdded xs"
  by (auto simp: resolveConflict_def Option.bind_eq_Some_conv split: if_splits)

lemma insertRoot_rejects:
  assumes "insertRoot H w a = Some (Inr r, w')" and "rejected r"
  shows "w' = w"
  using assms resolveConflict_rejects[of w _ a None r w'] adoptMissing_accepts[of _ _ a r w']
  by (auto simp: insertRoot_def Option.bind_eq_Some_conv Let_def split: if_splits option.splits prod.splits)

lemma insertPending_rejects:
  "insertPending H w a i = Some (Inr r, w') \<Longrightarrow> rejected r \<Longrightarrow> w' = w"
  by (auto simp: insertPending_def rejected_def Option.bind_eq_Some_conv Let_def
      split: if_splits option.splits prod.splits)

lemma insertChild_rejects:
  assumes "insertChild H w a c = Some (Inr r, w')" and "rejected r"
  shows "w' = w"
  using assms resolveConflict_rejects[of w _ a "Some c" r w'] adoptMissing_accepts[of _ _ a r w']
  by (auto simp: insertChild_def Option.bind_eq_Some_conv split: if_splits option.splits prod.splits)

lemma weave_insert_rejects:
  "weave_insert H w a = Some (Inr r, w') \<Longrightarrow> rejected r \<Longrightarrow> w' = w"
  by (auto simp: weave_insert_def dest: insertRoot_rejects insertPending_rejects insertChild_rejects
      split: option.splits)

text \<open>The exception is raised before anything is changed.\<close>

lemma weave_insert_raises: "weave_insert H w a = Some (Inl e, w') \<Longrightarrow> w' = w \<and> e = TypeError \<and> cause a = None"
  by (auto simp: weave_insert_def insertRoot_def insertPending_def insertChild_def Option.bind_eq_Some_conv
      Let_def split: option.splits if_splits prod.splits)

section \<open>Authenticity\<close>

definition authentic :: "'v hasher \<Rightarrow> 'v weave \<Rightarrow> 'v atom \<Rightarrow> bool" where
  "authentic H w a =
     (case cause a of
        None \<Rightarrow> atomMatchesHash H a None
      | Some i \<Rightarrow>
          (case Option.bind (getNode w i) (node_at w) of None \<Rightarrow> False
           | Some c \<Rightarrow> atomMatchesHash H a (Some c) \<and> ts c < ts a))"

lemma weave_insert_authentic:
  assumes "weave_insert H w a = Some (Inr r, w')" and "r = AtomAdded b \<or> r = AtomsAdded xs"
  shows "authentic H w a"
  using assms
  by (auto simp: weave_insert_def insertRoot_def insertPending_def insertChild_def authentic_def
      Option.bind_eq_Some_conv Let_def dest: resolveConflict_result
      split: option.splits if_splits prod.splits)

section \<open>Atoms that are already there\<close>

lemma node_at_inv: "weave_inv w nss \<Longrightarrow> n \<in> set (concat nss) \<Longrightarrow> node_at w n = Some (atm (heap w) n)"
  by (simp add: node_at_atoms_of weave_inv_alloc(3))

lemma weave_ok_find:
  assumes "weave_ok w" and "weave_chains w = Some cs" and "e \<in> set (concat cs)"
    and "atomIdToString i = atomIdToString (aid e)"
  obtains n where "getNode w i = Some n" "node_at w n = Some e"
proof -
  from assms(1) obtain nss where inv: "weave_inv w nss" unfolding weave_ok_def by blast
  have "concat cs = map (atm (heap w)) (concat nss)"
    using assms(2) inv by (auto simp: weave_chains_inv chains_of_def map_concat)
  then have "e \<in> atm (heap w) ` set (concat nss)" using assms(3) by (simp only: set_map)
  then obtain n where n: "n \<in> set (concat nss)" "e = atm (heap w) n" by blast
  have "getNode w i = Some n" using getNode_inv[OF inv] n assms(4) by simp
  moreover have "node_at w n = Some e" using node_at_inv[OF inv] n by simp
  ultimately show thesis by (rule that)
qed

text \<open>An insertion that gets past the checks of its branch.\<close>

definition checked :: "'v hasher \<Rightarrow> 'v weave \<Rightarrow> 'v atom \<Rightarrow> bool" where
  "checked H w a \<longleftrightarrow> authentic H w a \<and>
     (cause a = None \<longrightarrow> cardinality (aid a) \<noteq> Null \<and> (case cardinality (aid a) of Val k \<Rightarrow> 0 < number k | _ \<Rightarrow> True))"

lemma weave_insert_existing:
  assumes "checked H w a" and "getNode w (aid a) = Some n"
  shows "weave_insert H w a =
    map_option (\<lambda>(r, w'). (Inr r, w')) (resolveConflict w n a (Option.bind (cause a) (getNode w)))"
proof (cases "cause a")
  case None
  then show ?thesis
    using assms by (auto simp: weave_insert_def insertRoot_def checked_def authentic_def map_option_case
        Option.bind_eq_None_conv split: option.splits js.splits)
next
  case (Some i)
  with assms(1) obtain m c where "getNode w i = Some m" "node_at w m = Some c"
    "atomMatchesHash H a (Some c)" "ts c < ts a"
    by (auto simp: checked_def authentic_def Option.bind_eq_Some_conv split: option.splits)
  with Some assms(2) show ?thesis
    by (auto simp: weave_insert_def insertChild_def map_option_case split: option.splits)
qed

lemma weave_insert_again:
  assumes "weave_ok w" and "weave_chains w = Some cs" and "e \<in> set (concat cs)"
    and "atomIdToString (aid a) = atomIdToString (aid e)" and "checked H w a"
  shows "ahash a = ahash e \<Longrightarrow> weave_insert H w a = Some (Inr (AtomAlreadyAdded e), w)"
    and "ahash e < ahash a \<Longrightarrow> weave_insert H w a = Some (Inr (Conflict e a None), w)"
proof -
  obtain n where n: "getNode w (aid a) = Some n" "node_at w n = Some e"
    using weave_ok_find[OF assms(1-4)] by blast
  show "weave_insert H w a = Some (Inr (AtomAlreadyAdded e), w)" if "ahash a = ahash e"
    using weave_insert_existing[OF assms(5) n(1)] n(2) that by (simp add: resolveConflict_def)
  show "weave_insert H w a = Some (Inr (Conflict e a None), w)" if "ahash e < ahash a"
    using weave_insert_existing[OF assms(5) n(1)] n(2) that by (simp add: resolveConflict_def)
qed

section \<open>Conflicts\<close>

lemma getNode_smaller:
  assumes "weave_inv w nss" and "weave_inv w1 nss1" and "atm (heap w1) = atm (heap w)"
    and "getNode w i = Some n" and "n \<notin> set (concat nss1)" and "set (concat nss1) \<subseteq> set (concat nss)"
  shows "getNode w1 i = None"
proof (rule ccontr)
  assume "getNode w1 i \<noteq> None"
  then obtain m where m: "getNode w1 i = Some m" by blast
  from getNode_inv[OF assms(2), of i m] m assms(3,6) have "m \<in> set (concat nss)" "m \<in> set (concat nss1)"
    "key_of (heap w) m = atomIdToString i" by (simp_all only:) blast+
  with getNode_inv[OF assms(1), of i m] assms(4,5) show False by (simp only:) blast
qed

text \<open>
  The atom with the lower hash wins: the other one leaves the chain with its causal group and the
  winner is inserted under the cause.
\<close>

lemma weave_insert_conflict:
  assumes ok: "weave_ok w" and chains: "weave_chains w = Some (us @ (xs @ c # ys @ e # zs) # vs)"
    and key: "atomIdToString (aid a) = atomIdToString (aid e)" and lower: "ahash a < ahash e"
    and cause: "cause a = Some i" "atomIdToString i = atomIdToString (aid c)"
    and hash: "atomMatchesHash H a (Some c)" and time: "ts c < ts a"
  shows "\<exists>n w'. weave_insert H w a = Some (Inr (Conflict a e (Some n)), w') \<and> weave_ok w' \<and>
    weave_chains w' = Some (us @ (xs @ c # insert_group c a (ys @ kept e zs)) # vs) \<and> same_rest w w'"
proof -
  obtain us' xs' m ws' vs' where inv: "weave_inv w (us' @ (xs' @ m # ws') # vs')"
    and eqs: "us = chains_of w us'" "vs = chains_of w vs'" "xs = map (atm (heap w)) xs'"
    "ys @ e # zs = map (atm (heap w)) ws'" "c = atm (heap w) m"
    using weave_ok_split[OF ok chains] by blast
  from eqs(4) obtain ys' n zs' where ws: "ws' = ys' @ n # zs'" "ys = map (atm (heap w)) ys'"
    "e = atm (heap w) n" "zs = map (atm (heap w)) zs'"
    by (auto simp: append_eq_map_conv Cons_eq_map_conv)
  let ?zs = "dropWhile (later (heap w) n) zs'"
  have inv1: "weave_inv w (us' @ ((xs' @ m # ys') @ n # zs') # vs')" using inv ws by simp
  obtain w1 where w1: "remove_node w n = Some w1" "weave_inv w1 (us' @ (xs' @ m # ys' @ ?zs) # vs')"
    "atoms_of (heap w1) = atoms_of (heap w)" "same_rest w w1"
    using remove_node_child_inv[OF inv1] by (auto simp del: dll.simps)
  have atm1: "atm (heap w1) = atm (heap w)" using w1(3) by (simp add: fun_eq_iff atm_def)
  have nodes: "getNode w i = Some m" "getNode w (aid a) = Some n"
    using getNode_inv[OF inv] cause(2) key eqs(5) ws(1,3) by simp_all
  have nd: "node_at w m = Some c" "node_at w n = Some e"
    using node_at_inv[OF inv] eqs(5) ws(1,3) by simp_all
  have "distinct (concat (us' @ ((xs' @ m # ys') @ n # zs') # vs'))" using weave_invD(2)[OF inv1] .
  then have "n \<notin> set (concat (us' @ (xs' @ m # ys' @ ?zs) # vs'))"
    using set_dropWhileD[of n "later (heap w) n" zs'] by auto
  moreover have "set (concat (us' @ (xs' @ m # ys' @ ?zs) # vs')) \<subseteq> set (concat (us' @ (xs' @ m # ws') # vs'))"
    using set_dropWhileD[of _ "later (heap w) n" zs'] ws(1) by auto
  ultimately have none: "getNode w1 (aid a) = None"
    using getNode_smaller[OF inv w1(2) atm1 nodes(2)] by blast
  obtain w2 ys1 ys2 where w2: "insertUnder w1 m a False = Some (next_addr w1, w2)"
    "insert_group (atm (heap w1) m) a (map (atm (heap w1)) (ys' @ ?zs)) =
       map (atm (heap w1)) ys1 @ a # map (atm (heap w1)) ys2" "ys' @ ?zs = ys1 @ ys2"
    "weave_inv w2 (us' @ (xs' @ m # ys1 @ next_addr w1 # ys2) # vs')"
    "atoms_of (heap w2) = (atoms_of (heap w1))(next_addr w1 \<mapsto> a)" "same_rest w1 w2"
    using insertUnder_inv[OF w1(2) none] cause(1) time unfolding eqs(5) atm1[symmetric] by blast
  have "checked H w a" using cause nodes(1) nd(1) hash time by (simp add: checked_def authentic_def)
  then have "weave_insert H w a = Some (Inr (Conflict a e (Some n)), w2)"
    using weave_insert_existing[of H w a n] nodes nd w1(1) w2(1) cause(1) lower
    by (auto simp: resolveConflict_def)
  moreover have "weave_chains w2 = Some (us @ (xs @ c # insert_group c a (ys @ kept e zs)) # vs)"
  proof -
    have "next_addr w1 \<notin> set (concat (us' @ (xs' @ m # ys1 @ ys2) # vs'))"
      using fresh_not_in_chains[OF w1(2)] w2(3) by simp
    from atoms_upd_fresh[OF w2(5) this]
    have "map (map (atm (heap w2))) us' = map (map (atm (heap w))) us'"
      "map (map (atm (heap w2))) vs' = map (map (atm (heap w))) vs'"
      "map (atm (heap w2)) (xs' @ m # ys1 @ ys2) = map (atm (heap w)) (xs' @ m # ys1 @ ys2)"
      by (simp_all del: map_eq_conv add: atm1)
    moreover have "atm (heap w2) (next_addr w1) = a" using w2(5) by (simp add: atm_def)
    moreover have "map (atm (heap w)) (ys' @ ?zs) = ys @ kept e zs"
      using ws by (simp add: kept_def dropWhile_map o_def)
    then have "insert_group c a (ys @ kept e zs) = map (atm (heap w)) ys1 @ a # map (atm (heap w)) ys2"
      using w2(2) unfolding atm1 eqs(5) by (simp only:)
    ultimately show ?thesis
      using weave_chains_inv[OF w2(4)] eqs(1-3,5) by (simp add: chains_of_def del: map_eq_conv)
  qed
  ultimately show ?thesis using w2(4,6) w1(4) by (auto simp: same_rest_def)
qed

text \<open>Two atoms with one id go to the same place; what follows is not later than them.\<close>

lemma insert_group_same_place:
  assumes "aid a = aid e" and "ts c < ts e" and "\<forall>y\<in>set ys. prio y = prio e"
  shows "\<exists>us vs. ys = us @ vs \<and> insert_group c e ys = us @ e # vs \<and> insert_group c a ys = us @ a # vs \<and>
    kept e vs = vs"
  using assms(3)
proof (induction ys)
  case Nil
  then show ?case by (simp add: kept_def)
next
  case (Cons y ys)
  have same: "sib_before a y = sib_before e y" by (simp add: sib_before_def assms(1))
  show ?case
  proof (cases "ts y \<le> ts c \<or> (idEquals (cause y) (Some (aid c)) \<and> sib_before e y)")
    case True
    have "prio y = prio e" using Cons.prems by simp
    with True assms(2) have "ts y \<le> ts e" unfolding sib_before_iff by linarith
    then have "kept e (y # ys) = y # ys" by (simp add: kept_def)
    with True same show ?thesis by (intro exI[of _ "[]"] exI[of _ "y # ys"]) auto
  next
    case False
    from Cons obtain us vs where "ys = us @ vs" "insert_group c e ys = us @ e # vs"
      "insert_group c a ys = us @ a # vs" "kept e vs = vs" by auto
    with False same show ?thesis by (intro exI[of _ "y # us"] exI[of _ vs]) auto
  qed
qed

lemma weave_insert_conflict_commutes:
  assumes ok: "weave_ok w" "weave_chains w = Some (us @ (xs @ c # ys) # vs)" "reorderBuffer w = []"
    and new: "\<forall>b\<in>set (concat (us @ (xs @ c # ys) # vs)). atomIdToString (aid b) \<noteq> atomIdToString (aid a)"
    and same: "aid a = aid e" "cause a = Some i" "cause e = Some i" "atomIdToString i = atomIdToString (aid c)"
    and hash: "atomMatchesHash H a (Some c)" "atomMatchesHash H e (Some c)" "ahash a < ahash e"
    and time: "ts c < ts a" and prio: "\<forall>y\<in>set ys. prio y = prio a"
  shows "\<exists>w1 w2 w3 n.
    weave_insert H w a = Some (Inr (AtomAdded a), w1) \<and>
    weave_insert H w1 e = Some (Inr (Conflict a e None), w1) \<and>
    weave_insert H w e = Some (Inr (AtomAdded e), w2) \<and>
    weave_insert H w2 a = Some (Inr (Conflict a e (Some n)), w3) \<and>
    weave_chains w1 = Some (us @ (xs @ c # insert_group c a ys) # vs) \<and> weave_chains w3 = weave_chains w1"
proof -
  have new': "\<forall>b\<in>set (concat (us @ (xs @ c # ys) # vs)). atomIdToString (aid b) \<noteq> atomIdToString (aid e)"
    and time': "ts c < ts e" using new time same(1) by simp_all
  obtain w1 where w1: "weave_insert H w a = Some (Inr (AtomAdded a), w1)" "weave_ok w1"
    "weave_chains w1 = Some (us @ (xs @ c # insert_group c a ys) # vs)"
    using insertChild_chains[OF ok bspec[OF new] same(2,4) hash(1) time] by blast
  obtain w2 where w2: "weave_insert H w e = Some (Inr (AtomAdded e), w2)" "weave_ok w2"
    "weave_chains w2 = Some (us @ (xs @ c # insert_group c e ys) # vs)"
    using insertChild_chains[OF ok bspec[OF new'] same(3,4) hash(2) time'] by blast
  obtain ys1 ys2 where place: "ys = ys1 @ ys2" "insert_group c e ys = ys1 @ e # ys2"
    "insert_group c a ys = ys1 @ a # ys2" "kept e ys2 = ys2"
    using insert_group_same_place[OF same(1) time', of ys] prio same(1) by auto
  obtain n w3 where w3: "weave_insert H w2 a = Some (Inr (Conflict a e (Some n)), w3)"
    "weave_chains w3 = Some (us @ (xs @ c # insert_group c a (ys1 @ kept e ys2)) # vs)"
    using weave_insert_conflict[OF w2(2) _ _ hash(3) same(2,4) hash(1) time, of us xs ys1 ys2 vs] w2(3) place(2) same(1)
    by auto
  obtain m where m: "getNode w1 i = Some m" "node_at w1 m = Some c"
    using weave_ok_find[OF w1(2,3), of c i] same(4) by auto
  then have "checked H w1 e" using same(3) hash(2) time' by (simp add: checked_def authentic_def)
  then have "weave_insert H w1 e = Some (Inr (Conflict a e None), w1)"
    using weave_insert_again(2)[OF w1(2,3), of a e H] same(1) hash(3) place(3) by simp
  with w1 w2 w3 place show ?thesis by auto
qed

end
