(* ===== verification/WeaveBounds.thy ===== *)
theory WeaveBounds
  imports WeaveRules
begin

text \<open>
  Bounds: the reorder buffer never outgrows its limit, a group of roots with one cardinality never
  outgrows it, and the chain of causes of an atom is finite and ends at a root.
\<close>

section \<open>The reorder buffer\<close>

definition buffer_ok :: "'v weave \<Rightarrow> bool" where
  "buffer_ok w \<longleftrightarrow> length (reorderBuffer w) \<le> maxReorderBufferSize w"

definition shrinks :: "'v weave \<Rightarrow> 'v weave \<Rightarrow> bool" where
  "shrinks w w' \<longleftrightarrow> length (reorderBuffer w') \<le> length (reorderBuffer w) \<and>
     maxReorderBufferSize w' = maxReorderBufferSize w"

named_theorems shrink_intros

lemma shrinks_refl [simp, shrink_intros]: "shrinks w w" by (simp add: shrinks_def)

lemma shrinks_trans: "shrinks u v \<Longrightarrow> shrinks v w \<Longrightarrow> shrinks u w" by (auto simp: shrinks_def)

lemma shrinks_ok: "shrinks w w' \<Longrightarrow> buffer_ok w \<Longrightarrow> buffer_ok w'"
  by (auto simp: shrinks_def buffer_ok_def)

lemma shrinks_fields [simp, shrink_intros]:
  "shrinks w (w\<lparr>heap := h\<rparr>)" "shrinks w (w\<lparr>heap := h, next_addr := n\<rparr>)"
  "shrinks w (w\<lparr>roots := rs\<rparr>)" "shrinks w (w\<lparr>cardinalityMap := m\<rparr>)"
  "shrinks w (addNodeToMaps w n a False)" "shrinks w (removeNodeIdFromMaps w a b)"
  by (auto simp: shrinks_def addNodeToMaps_def removeNodeIdFromMaps_def intro: length_delete_le)

lemma shrinks_addRoot: "addRoot w a = (n, w') \<Longrightarrow> shrinks w w'"
  by (auto simp: addRoot_def alloc_node_def shrinks_def addNodeToMaps_def)

lemma shrinks_insertBefore: "insertBefore w p a False = Some (n, w') \<Longrightarrow> shrinks w w'"
  and shrinks_insertAfter: "insertAfter w p a False = Some (n, w') \<Longrightarrow> shrinks w w'"
  by (auto simp: insertBefore_def insertAfter_def Option.bind_eq_Some_conv shrinks_def addNodeToMaps_def)

lemma shrinks_insertUnder:
  assumes "insertUnder w c a False = Some (n, w')"
  shows "shrinks w w'"
proof -
  from assms obtain pos where "(case pos of Inl m \<Rightarrow> insertBefore w m a False | Inr m \<Rightarrow> insertAfter w m a False) =
      Some (n, w')"
    unfolding insertUnder_def Option.bind_eq_Some_conv by blast
  then show ?thesis by (cases pos) (auto dest: shrinks_insertBefore shrinks_insertAfter)
qed

lemma shrinks_insertNodeUnder: "insertNodeUnder w c s e = Some w' \<Longrightarrow> shrinks w w'"
  by (auto simp: insertNodeUnder_def Option.bind_eq_Some_conv)

lemma shrinks_moveFromBuffer: "moveFromBuffer w ns = Some w' \<Longrightarrow> shrinks w w'"
  by (induction ns arbitrary: w)
    (auto simp: Option.bind_eq_Some_conv intro: shrinks_trans[OF shrinks_trans[OF shrinks_fields(6,5)]])

lemma shrinks_addMissingFrom: "addMissingFrom w n b ns = Some (f, w') \<Longrightarrow> shrinks w w'"
proof (induction ns arbitrary: w f)
  case (Cons m ns)
  then show ?case
    by (auto simp: Option.bind_eq_Some_conv split: if_splits
        dest!: shrinks_moveFromBuffer shrinks_insertNodeUnder Cons.IH intro: shrinks_trans)
qed simp

lemma shrinks_adoptMissing: "adoptMissing w n a = Some (r, w') \<Longrightarrow> shrinks w w'"
  by (auto simp: adoptMissing_def addMissingChildren_def Option.bind_eq_Some_conv
      split: if_splits prod.splits dest: shrinks_addMissingFrom)

lemma shrinks_removeNodesFromMaps: "removeNodesFromMaps w ns b = Some w' \<Longrightarrow> shrinks w w'"
  by (induction ns arbitrary: w)
    (auto simp: Option.bind_eq_Some_conv intro: shrinks_trans[OF shrinks_fields(6)])

lemma shrinks_removeSpan: "removeSpan w s e = Some w' \<Longrightarrow> shrinks w w'"
  by (auto simp: removeSpan_def removeListFromMaps_def Option.bind_eq_Some_conv Let_def split: if_splits
      dest!: shrinks_removeNodesFromMaps intro: shrinks_trans)
    (auto simp: shrinks_def removeNodeIdFromMaps_def)

lemma shrinks_remove_node: "remove_node w n = Some w' \<Longrightarrow> shrinks w w'"
  by (auto simp: remove_node_def Option.bind_eq_Some_conv dest: shrinks_removeSpan)

lemma shrinks_resolveConflict: "resolveConflict w e a c = Some (r, w') \<Longrightarrow> shrinks w w'"
  by (auto simp: resolveConflict_def Option.bind_eq_Some_conv split: if_splits option.splits
      dest!: shrinks_remove_node shrinks_insertUnder intro: shrinks_trans)
    (metis prod.collapse shrinks_addRoot shrinks_trans)

lemma length_AList_update: "length (AList.update k v xs) \<le> Suc (length xs)"
  by (induction xs) auto

lemma buffer_ok_add:
  assumes "length (reorderBuffer w) < maxReorderBufferSize w" and "addToReorderBuffer w a = (n, w')"
  shows "buffer_ok w'"
  using assms length_AList_update[of "atomIdToString (aid a)" n "reorderBuffer w"]
  by (auto simp: addToReorderBuffer_def alloc_node_def addNodeToMaps_def buffer_ok_def)

lemma insertPending_buffer_ok:
  assumes "insertPending H w a i = Some (r, w')" and "buffer_ok w"
  shows "buffer_ok w'"
  using assms
  by (auto simp: insertPending_def addMissingChildren_def Option.bind_eq_Some_conv Let_def not_le
      split: if_splits option.splits prod.splits
      dest!: shrinks_addMissingFrom shrinks_insertNodeUnder
      dest: buffer_ok_add intro: shrinks_ok)

lemma insertRoot_shrinks: "insertRoot H w a = Some (r, w') \<Longrightarrow> shrinks w w'"
proof (cases r)
  case (Inr q)
  assume "insertRoot H w a = Some (r, w')"
  with Inr show ?thesis
    by (auto simp: insertRoot_def Option.bind_eq_Some_conv Let_def
        split: if_splits option.splits prod.splits
        dest!: shrinks_resolveConflict shrinks_addRoot shrinks_adoptMissing intro: shrinks_trans)
      (metis shrinks_trans shrinks_fields(4))+
qed (auto simp: insertRoot_def Option.bind_eq_Some_conv Let_def split: if_splits option.splits prod.splits)

lemma insertChild_shrinks: "insertChild H w a c = Some (r, w') \<Longrightarrow> shrinks w w'"
  by (auto simp: insertChild_def Option.bind_eq_Some_conv
      split: if_splits option.splits prod.splits
      dest!: shrinks_resolveConflict shrinks_insertUnder shrinks_adoptMissing intro: shrinks_trans)

lemma weave_insert_buffer_ok:
  "weave_insert H w a = Some (r, w') \<Longrightarrow> buffer_ok w \<Longrightarrow> buffer_ok w'"
  by (auto simp: weave_insert_def dest: insertRoot_shrinks insertChild_shrinks insertPending_buffer_ok
      intro: shrinks_ok split: option.splits)

section \<open>Reachable weaves\<close>

text \<open>The weaves that the three mutating methods of the class can produce, exceptions included.\<close>

inductive weave_reachable :: "'v hasher \<Rightarrow> nat option \<Rightarrow> 'v weave \<Rightarrow> bool" for H m where
  new: "weave_reachable H m (new_weave m)"
| insert: "weave_reachable H m w \<Longrightarrow> weave_insert H w a = Some (r, w') \<Longrightarrow> weave_reachable H m w'"
| remove: "weave_reachable H m w \<Longrightarrow> weave_remove w ao = Some (q, w') \<Longrightarrow> weave_reachable H m w'"
| siblings: "weave_reachable H m w \<Longrightarrow> removeSiblingsBefore w ao = Some (q, w') \<Longrightarrow> weave_reachable H m w'"

lemma shrinks_weave_remove: "weave_remove w ao = Some (q, w') \<Longrightarrow> shrinks w w'"
  by (auto simp: weave_remove_def Option.bind_eq_Some_conv split: option.splits dest: shrinks_remove_node)

lemma shrinks_removeSiblingsBefore: "removeSiblingsBefore w ao = Some (q, w') \<Longrightarrow> shrinks w w'"
  by (auto simp: removeSiblingsBefore_def Option.bind_eq_Some_conv Let_def split: option.splits dest: shrinks_removeSpan)

lemma insertPending_max:
  "insertPending H w a i = Some (r, w') \<Longrightarrow> maxReorderBufferSize w' = maxReorderBufferSize w"
  by (auto simp: insertPending_def addMissingChildren_def Option.bind_eq_Some_conv Let_def
      addToReorderBuffer_def alloc_node_def addNodeToMaps_def
      split: if_splits option.splits prod.splits
      dest!: shrinks_addMissingFrom shrinks_insertNodeUnder simp: shrinks_def)

lemma weave_insert_max:
  "weave_insert H w a = Some (r, w') \<Longrightarrow> maxReorderBufferSize w' = maxReorderBufferSize w"
  by (auto simp: weave_insert_def shrinks_def split: option.splits
      dest!: insertRoot_shrinks insertChild_shrinks insertPending_max)

lemma reachable_buffer:
  assumes "weave_reachable H m w"
  shows "buffer_ok w \<and> maxReorderBufferSize w = maxReorderBufferSize (new_weave m :: 'v weave)"
  using assms
proof (induction rule: weave_reachable.induct)
  case new
  then show ?case by (simp add: buffer_ok_def new_weave_def)
next
  case (insert w a r w')
  with weave_insert_buffer_ok[of H w a r w'] weave_insert_max[of H w a r w'] show ?case by simp
next
  case (remove w ao q w')
  with shrinks_weave_remove[of w ao q w'] shrinks_ok[of w w'] show ?case by (simp add: shrinks_def)
next
  case (siblings w ao q w')
  with shrinks_removeSiblingsBefore[of w ao q w'] shrinks_ok[of w w'] show ?case by (simp add: shrinks_def)
qed

section \<open>Cardinality groups\<close>

text \<open>The bookkeeping for a sequence of new roots; \<open>None\<close> once a root is refused.\<close>

fun count_roots :: "(string \<Rightarrow> cardinality_stats option) \<Rightarrow> atom_id list \<Rightarrow> (string \<Rightarrow> cardinality_stats option) option" where
  "count_roots m [] = Some m"
| "count_roots m (i # is) = do { m' \<leftarrow> countCardinality m i; count_roots m' is }"

definition in_group :: "string \<Rightarrow> atom_id \<Rightarrow> bool" where
  "in_group g i = (case cardinality i of Val c \<Rightarrow> group c = g | _ \<Rightarrow> False)"

definition group_max :: "string \<Rightarrow> int \<Rightarrow> atom_id \<Rightarrow> bool" where
  "group_max g k i = (case cardinality i of Val c \<Rightarrow> group c = g \<longrightarrow> number c = k | _ \<Rightarrow> True)"

definition group_count :: "(string \<Rightarrow> cardinality_stats option) \<Rightarrow> string \<Rightarrow> int" where
  "group_count m g = (case m g of None \<Rightarrow> 0 | Some st \<Rightarrow> current st)"

definition group_stats_ok :: "(string \<Rightarrow> cardinality_stats option) \<Rightarrow> string \<Rightarrow> int \<Rightarrow> bool" where
  "group_stats_ok m g k = (case m g of None \<Rightarrow> True | Some st \<Rightarrow> max_number st = k \<and> current st \<le> k)"

lemma countCardinality_step:
  assumes "countCardinality m i = Some m'" and "group_max g k i" and "group_stats_ok m g k" and "0 < k"
  shows "group_stats_ok m' g k" "group_count m' g = group_count m g + (if in_group g i then 1 else 0)"
  using assms
  by (auto simp: countCardinality_def group_max_def group_stats_ok_def group_count_def in_group_def
      split: js.splits option.splits if_splits)

lemma count_roots_bound:
  assumes "count_roots m is = Some m'" and "\<forall>i\<in>set is. group_max g k i" and "group_stats_ok m g k" and "0 < k"
  shows "group_stats_ok m' g k" "group_count m' g = group_count m g + int (length (filter (in_group g) is))"
proof -
  have "group_stats_ok m' g k \<and> group_count m' g = group_count m g + int (length (filter (in_group g) is))"
    using assms
  proof (induction "is" arbitrary: m)
    case (Cons i "is")
    then obtain m1 where m1: "countCardinality m i = Some m1" "count_roots m1 is = Some m'"
      by (auto simp: Option.bind_eq_Some_conv)
    with Cons.IH[OF m1(2)] countCardinality_step[OF m1(1)] Cons.prems show ?case by auto
  qed simp
  then show "group_stats_ok m' g k" "group_count m' g = group_count m g + int (length (filter (in_group g) is))"
    by simp_all
qed

lemma count_roots_full:
  assumes "count_roots Map.empty is = Some m'" and "\<forall>i\<in>set is. group_max g k i" and "0 < k"
  shows "int (length (filter (in_group g) is)) \<le> k"
  using count_roots_bound[OF assms(1,2) _ assms(3)] assms(3)
  by (auto simp: group_stats_ok_def group_count_def split: option.splits)

section \<open>The chain of causes\<close>

text \<open>The atoms are closed under causes and every cause is earlier.\<close>

definition causes_closed :: "'v atom list \<Rightarrow> bool" where
  "causes_closed as \<longleftrightarrow>
     (\<forall>a\<in>set as. case cause a of None \<Rightarrow> True
       | Some i \<Rightarrow> list_ex (\<lambda>c. atomIdToString (aid c) = atomIdToString i \<and> ts c < ts a) as)"

fun cause_path :: "'v atom \<Rightarrow> 'v atom list \<Rightarrow> bool" where
  "cause_path a [] \<longleftrightarrow> cause a = None"
| "cause_path a (c # cs) \<longleftrightarrow>
     (\<exists>i. cause a = Some i \<and> atomIdToString (aid c) = atomIdToString i) \<and> ts c < ts a \<and> cause_path c cs"

lemma referenceChainFrom_path:
  assumes ok: "weave_ok w" "weave_chains w = Some cs" and closed: "causes_closed (concat cs)"
    and a: "a \<in> set (concat cs)"
  shows "\<exists>ns as. referenceChainFrom w (cause a) = Some (Inr ns) \<and> atoms_at w ns = Some as \<and> cause_path a as"
  using a
proof (induction "card {b \<in> set (concat cs). ts b < ts a}" arbitrary: a rule: less_induct)
  case less
  show ?case
  proof (cases "cause a")
    case None
    then have "referenceChainFrom w (cause a) = Some (Inr [])" by (simp add: referenceChainFrom.simps)
    with None show ?thesis by (intro exI[of _ "[]"]) simp
  next
    case (Some i)
    with closed less.prems obtain c where c: "c \<in> set (concat cs)" "atomIdToString i = atomIdToString (aid c)"
      "ts c < ts a" unfolding causes_closed_def list_ex_iff by fastforce
    obtain n where n: "getNode w i = Some n" "node_at w n = Some c"
      using weave_ok_find[OF ok c(1,2)] by blast
    have "{b \<in> set (concat cs). ts b < ts c} \<subset> {b \<in> set (concat cs). ts b < ts a}"
      using c(1,3) by (auto simp del: set_concat)
    then have "card {b \<in> set (concat cs). ts b < ts c} < card {b \<in> set (concat cs). ts b < ts a}"
      by (rule psubset_card_mono[rotated]) simp
    from less.hyps[OF this c(1)] obtain ns as where
      IH: "referenceChainFrom w (cause c) = Some (Inr ns)" "atoms_at w ns = Some as" "cause_path c as" by blast
    then have "referenceChainFrom w (cause a) = Some (Inr (n # ns))"
      using Some n by (subst referenceChainFrom.simps) simp
    with IH n Some c show ?thesis by (intro exI[of _ "n # ns"] exI[of _ "c # as"]) simp
  qed
qed

lemma referenceChain_path:
  assumes "weave_ok w" and "weave_chains w = Some cs" and "causes_closed (concat cs)"
    and "a \<in> set (concat cs)"
  shows "\<exists>ns as. referenceChain w (aid a) = Some (Inr ns) \<and> atoms_at w ns = Some (a # as) \<and> cause_path a as"
proof -
  obtain n where n: "getNode w (aid a) = Some n" "node_at w n = Some a"
    using weave_ok_find[OF assms(1,2,4)] by blast
  from referenceChainFrom_path[OF assms] obtain ns as where
    "referenceChainFrom w (cause a) = Some (Inr ns)" "atoms_at w ns = Some as" "cause_path a as" by blast
  with n show ?thesis by (intro exI[of _ "n # ns"] exI[of _ as]) (simp add: referenceChain_def)
qed

end
