(* ===== verification/AtomIndex.thy ===== *)
theory AtomIndex
  imports Atom2 "HOL-Library.Multiset" "HOL-Library.AList"
begin

text \<open>
  Indexes of atoms and their differences: \<^verbatim>\<open>src/src/causal-trees/core2/AtomIndex.ts\<close>. An index is
  what two peers compare to find out which atoms they have to exchange. \<^verbatim>\<open>getHash\<close> over a list of
  hashes is a parameter.

  The objects that map atom hashes to id strings are also enumerated, in the order in which their keys
  were inserted, so they are association lists (a hash that reads as an integer, which would come first,
  does not occur).
\<close>

section \<open>Indexes\<close>

type_synonym atom_hash_list = "(string \<times> string) list"

record atom_index =
  index_hash :: string
  index_atoms :: atom_hash_list

record atom_index_diff =
  additions :: atom_hash_list
  deletions :: atom_hash_list

fun atomHashList_from :: "atom_hash_list \<Rightarrow> 'v atom list \<Rightarrow> atom_hash_list" where
  "atomHashList_from m [] = m"
| "atomHashList_from m (a # as) = atomHashList_from (AList.update (ahash a) (atomIdToString (aid a)) m) as"

definition atomHashList :: "'v atom list \<Rightarrow> atom_hash_list" where
  "atomHashList as = atomHashList_from [] as"

definition hashAtoms :: "(string list \<Rightarrow> string) \<Rightarrow> 'v atom list \<Rightarrow> string" where
  "hashAtoms getHash as = getHash (sort (map ahash as))"

definition createIndex :: "(string list \<Rightarrow> string) \<Rightarrow> 'v atom list \<Rightarrow> atom_index" where
  "createIndex getHash as = \<lparr>index_hash = hashAtoms getHash as, index_atoms = atomHashList as\<rparr>"

definition createIndexDiff :: "'v atom list \<Rightarrow> 'v atom list \<Rightarrow> atom_index_diff" where
  "createIndexDiff added deleted = \<lparr>additions = atomHashList added, deletions = atomHashList deleted\<rparr>"

text \<open>\<^verbatim>\<open>if (!hash2)\<close>: an entry that is missing or empty.\<close>

definition no_entry :: "atom_hash_list \<Rightarrow> string \<Rightarrow> bool" where
  "no_entry m k = (case map_of m k of None \<Rightarrow> True | Some s \<Rightarrow> s = [])"

definition calculateDiff :: "atom_index \<Rightarrow> atom_index \<Rightarrow> atom_index_diff" where
  "calculateDiff first second =
     (if index_hash first = index_hash second then \<lparr>additions = [], deletions = []\<rparr>
      else \<lparr>additions = filter (\<lambda>(k, _). no_entry (index_atoms first) k) (index_atoms second),
            deletions = filter (\<lambda>(k, _). no_entry (index_atoms second) k) (index_atoms first)\<rparr>)"

text \<open>\<^verbatim>\<open>getAtomHashes\<close>: the keys of an index.\<close>

definition getAtomHashes :: "atom_hash_list \<Rightarrow> string list" where
  "getAtomHashes m = map fst m"

text \<open>What a peer that has the first index does with a difference.\<close>

definition apply_diff :: "atom_index_diff \<Rightarrow> atom_hash_list \<Rightarrow> string \<Rightarrow> string option" where
  "apply_diff d m k =
     (if map_of (additions d) k \<noteq> None then map_of (additions d) k
      else if map_of (deletions d) k \<noteq> None then None else map_of m k)"

section \<open>Facts\<close>

lemma atomHashList_from_notin: "h \<notin> ahash ` set as \<Longrightarrow> map_of (atomHashList_from m as) h = map_of m h"
  by (induction as arbitrary: m) (auto simp: update_conv')

text \<open>Atoms with one hash have one id, as they do for atoms whose hash was checked.\<close>

definition hash_consistent :: "'v atom set \<Rightarrow> bool" where
  "hash_consistent S \<longleftrightarrow>
     (\<forall>a\<in>S. \<forall>b\<in>S. ahash a = ahash b \<longrightarrow> atomIdToString (aid a) = atomIdToString (aid b))"

lemma hash_consistent_mono: "hash_consistent S \<Longrightarrow> T \<subseteq> S \<Longrightarrow> hash_consistent T"
  unfolding hash_consistent_def by blast

lemma atomHashList_from_in:
  "hash_consistent (set as) \<Longrightarrow> a \<in> set as \<Longrightarrow> map_of (atomHashList_from m as) (ahash a) = Some (atomIdToString (aid a))"
proof (induction as arbitrary: m a)
  case (Cons b as)
  have sub: "hash_consistent (set as)" using Cons.prems(1) by (rule hash_consistent_mono) auto
  show ?case
  proof (cases "ahash a \<in> ahash ` set as")
    case True
    then obtain c where c: "c \<in> set as" "ahash a = ahash c" by blast
    have "atomIdToString (aid c) = atomIdToString (aid a)"
      using Cons.prems c unfolding hash_consistent_def by (metis list.set_intros(2))
    with Cons.IH[OF sub c(1)] c(2) show ?thesis by simp
  next
    case False
    with Cons.prems(2) have "a = b" by auto
    with False show ?thesis by (simp add: atomHashList_from_notin update_conv')
  qed
qed simp

lemma atomHashList_in:
  "hash_consistent S \<Longrightarrow> set as \<subseteq> S \<Longrightarrow> a \<in> set as \<Longrightarrow> map_of (atomHashList as) (ahash a) = Some (atomIdToString (aid a))"
  unfolding atomHashList_def by (rule atomHashList_from_in) (auto intro: hash_consistent_mono)

lemma atomHashList_notin: "k \<notin> ahash ` set as \<Longrightarrow> map_of (atomHashList as) k = None"
  by (simp add: atomHashList_def atomHashList_from_notin)

lemma atomHashList_same:
  assumes "hash_consistent S" and "set as \<subseteq> S" "set bs \<subseteq> S" and "k \<in> ahash ` set as" "k \<in> ahash ` set bs"
  shows "map_of (atomHashList as) k = map_of (atomHashList bs) k"
proof -
  from assms(4,5) obtain a b where ab: "a \<in> set as" "k = ahash a" "b \<in> set bs" "k = ahash b" by blast
  then have "atomIdToString (aid a) = atomIdToString (aid b)"
    using assms(1-3) unfolding hash_consistent_def by (metis subsetD)
  with atomHashList_in[OF assms(1,2) ab(1)] atomHashList_in[OF assms(1,3) ab(3)] ab(2,4) show ?thesis by simp
qed

text \<open>The keys of an index are the hashes, each once.\<close>

lemma atomHashList_from_keys: "distinct (map fst m) \<Longrightarrow> distinct (map fst (atomHashList_from m as))"
  by (induction as arbitrary: m) (simp_all add: distinct_update)

lemma distinct_index: "distinct (map fst (atomHashList as))"
  by (simp add: atomHashList_def atomHashList_from_keys)

lemma map_of_filter_keys: "map_of (filter (\<lambda>(k, _). P k) m) k = (if P k then map_of m k else None)"
  by (induction m) auto

text \<open>The order of the atoms does not matter for the hash and the entries.\<close>

lemma createIndex_perm:
  assumes "mset as = mset bs" and "hash_consistent (set as)"
  shows "index_hash (createIndex H as) = index_hash (createIndex H bs)"
    and "map_of (index_atoms (createIndex H as)) = map_of (index_atoms (createIndex H bs))"
proof -
  have eq: "set as = set bs" using assms(1) by (metis set_mset_mset)
  have "map_of (atomHashList as) k = map_of (atomHashList bs) k" for k
    using atomHashList_same[OF assms(2), of as bs k] atomHashList_notin[of k as] atomHashList_notin[of k bs] eq
    by (cases "k \<in> ahash ` set as") simp_all
  then show "map_of (index_atoms (createIndex H as)) = map_of (index_atoms (createIndex H bs))"
    by (simp add: createIndex_def fun_eq_iff)
  have "mset (map ahash as) = mset (map ahash bs)" using assms(1) by simp
  then have "sort (map ahash as) = sort (map ahash bs)" by (metis sorted_list_of_multiset_mset)
  then show "index_hash (createIndex H as) = index_hash (createIndex H bs)" by (simp add: createIndex_def hashAtoms_def)
qed

text \<open>Equal hashes mean equal sets of atom hashes, if \<^verbatim>\<open>getHash\<close> does not collide.\<close>

lemma hashAtoms_eq_set:
  assumes "inj getHash" and "hashAtoms getHash as = hashAtoms getHash bs"
  shows "ahash ` set as = ahash ` set bs"
proof -
  have "sort (map ahash as) = sort (map ahash bs)"
    using assms by (auto simp: hashAtoms_def dest: injD)
  then have "set (sort (map ahash as)) = set (sort (map ahash bs))" by simp
  then show ?thesis by simp
qed

lemma apply_calculateDiff:
  assumes "inj getHash" and cons: "hash_consistent (set as \<union> set bs)"
  shows "apply_diff (calculateDiff (createIndex getHash as) (createIndex getHash bs)) (atomHashList as) = map_of (atomHashList bs)"
proof
  fix k
  let ?S = "set as \<union> set bs"
  have as: "set as \<subseteq> ?S" and bs: "set bs \<subseteq> ?S" by auto
  have nonempty: "atomIdToString i \<noteq> []" for i by (simp add: atomIdToString_def)
  have none: "no_entry (atomHashList cs) k \<longleftrightarrow> k \<notin> ahash ` set cs" if "set cs \<subseteq> ?S" for cs
    using atomHashList_in[OF cons that] atomHashList_notin[of k cs] nonempty
    by (cases "k \<in> ahash ` set cs") (auto simp: no_entry_def)
  have some: "k \<in> ahash ` set as \<Longrightarrow> map_of (atomHashList as) k \<noteq> None"
    using atomHashList_in[OF cons as] by auto
  show "apply_diff (calculateDiff (createIndex getHash as) (createIndex getHash bs)) (atomHashList as) k = map_of (atomHashList bs) k"
  proof (cases "hashAtoms getHash as = hashAtoms getHash bs")
    case True
    then have "ahash ` set as = ahash ` set bs" by (rule hashAtoms_eq_set[OF assms(1)])
    then have "map_of (atomHashList as) k = map_of (atomHashList bs) k"
      using atomHashList_same[OF cons as bs, of k] atomHashList_notin[of k as] atomHashList_notin[of k bs]
      by (cases "k \<in> ahash ` set as") simp_all
    with True show ?thesis by (simp add: apply_diff_def calculateDiff_def createIndex_def)
  next
    case False
    then show ?thesis
      using none[OF as] none[OF bs] some atomHashList_same[OF cons as bs, of k]
        atomHashList_notin[of k as] atomHashList_notin[of k bs]
      by (cases "k \<in> ahash ` set as"; cases "k \<in> ahash ` set bs")
        (simp_all add: apply_diff_def calculateDiff_def createIndex_def map_of_filter_keys)
  qed
qed

end
