(* ===== verification/Weave2Index.thy ===== *)
theory Weave2Index
  imports AtomIndex CausalTree2
begin

text \<open>
  The difference that a batch of weave results makes:
  \<^verbatim>\<open>src/src/causal-trees/core2/Weave2Index.ts\<close>. The nodes that a result refers to are read in the heap
  of the weave after the batch. A batch is given by the results that its generator yields.
\<close>

record 'v atom_index_full_diff =
  full_additions :: "'v atom list"
  full_deletions :: atom_hash_list

text \<open>\<^verbatim>\<open>findIndex\<close> and \<^verbatim>\<open>splice\<close>: the first atom with the hash leaves the list.\<close>

fun remove_hash :: "string \<Rightarrow> 'v atom list \<Rightarrow> 'v atom list option" where
  "remove_hash h [] = None"
| "remove_hash h (a # as) = (if ahash a = h then Some as else map_option ((#) a) (remove_hash h as))"

fun removeRef :: "'v atom list \<Rightarrow> atom_hash_list \<Rightarrow> 'v atom list \<Rightarrow> 'v atom list \<times> atom_hash_list" where
  "removeRef added deleted [] = (added, deleted)"
| "removeRef added deleted (a # as) =
     (case remove_hash (ahash a) added of
        Some added' \<Rightarrow> removeRef added' deleted as
      | None \<Rightarrow> removeRef added (AList.update (ahash a) (atomIdToString (aid a)) deleted) as)"

definition batch_step ::
    "'v weave \<Rightarrow> 'v weave_result \<Rightarrow> 'v atom list \<Rightarrow> atom_hash_list \<Rightarrow> ('v atom list \<times> atom_hash_list) option" where
  "batch_step w r added deleted =
     (case r of
        AtomAdded a \<Rightarrow> Some (added @ [a], deleted)
      | Conflict win _ None \<Rightarrow> Some (added @ [win], deleted)
      | Conflict win _ (Some ref) \<Rightarrow>
          do { ns \<leftarrow> iterateFrom (heap w) (Some ref); as \<leftarrow> atoms_at w ns;
               Some (removeRef (added @ [win]) deleted as) }
      | AtomRemoved ref \<Rightarrow>
          do { ns \<leftarrow> iterateFrom (heap w) (Some ref); as \<leftarrow> atoms_at w ns;
               Some (removeRef added deleted as) }
      | _ \<Rightarrow> Some (added, deleted))"

fun batch_from ::
    "'v weave \<Rightarrow> 'v weave_result list \<Rightarrow> 'v atom list \<Rightarrow> atom_hash_list \<Rightarrow> ('v atom list \<times> atom_hash_list) option" where
  "batch_from w [] added deleted = Some (added, deleted)"
| "batch_from w (r # rs) added deleted =
     do { (added', deleted') \<leftarrow> batch_step w r added deleted; batch_from w rs added' deleted' }"

text \<open>lodash's \<^verbatim>\<open>uniqBy\<close> keeps the first element for every key.\<close>

fun uniqBy_from :: "string list \<Rightarrow> 'v atom list \<Rightarrow> 'v atom list" where
  "uniqBy_from seen [] = []"
| "uniqBy_from seen (a # as) =
     (if ahash a \<in> set seen then uniqBy_from seen as else a # uniqBy_from (ahash a # seen) as)"

definition batchDiff :: "'v weave \<Rightarrow> 'v weave_result list \<Rightarrow> 'v atom_index_full_diff option" where
  "batchDiff w rs =
     do { (added, deleted) \<leftarrow> batch_from w rs [] [];
          Some \<lparr>full_additions = uniqBy_from [] added, full_deletions = deleted\<rparr> }"

text \<open>\<^verbatim>\<open>Weave.calculateIndex\<close>: the index of the atoms in the weave.\<close>

definition calculateIndex :: "(string list \<Rightarrow> string) \<Rightarrow> 'v weave \<Rightarrow> atom_index option" where
  "calculateIndex getHash w = map_option (createIndex getHash) (getAtoms w)"

section \<open>Facts\<close>

lemma uniqBy_from_set:
  "ahash ` set (uniqBy_from seen as) = ahash ` set as - set seen"
  "distinct (map ahash (uniqBy_from seen as))"
  by (induction as arbitrary: seen) auto

lemma uniqBy_distinct: "distinct (map ahash as) \<Longrightarrow> ahash ` set as \<inter> set seen = {} \<Longrightarrow> uniqBy_from seen as = as"
  by (induction as arbitrary: seen) auto

text \<open>A batch of results that add one atom each and remove nothing yields exactly the added atoms.\<close>

definition adds_one :: "'v weave_result \<Rightarrow> bool" where
  "adds_one r = (case r of AtomsAdded _ \<Rightarrow> False | AtomRemoved _ \<Rightarrow> False | Conflict _ _ (Some _) \<Rightarrow> False | _ \<Rightarrow> True)"

lemma batch_from_adds:
  "list_all adds_one rs \<Longrightarrow> batch_from w rs added deleted = Some (added @ addedAtoms rs, deleted)"
proof (induction rs arbitrary: added)
  case (Cons r rs)
  then show ?case
    by (cases r) (auto simp: batch_step_def adds_one_def addedAtom_def split: option.splits)
qed simp

lemma batchDiff_adds:
  assumes "list_all adds_one rs"
  shows "\<exists>d. batchDiff w rs = Some d \<and> ahash ` set (full_additions d) = ahash ` set (addedAtoms rs) \<and>
    distinct (map ahash (full_additions d)) \<and> full_deletions d = []"
  using batch_from_adds[OF assms] uniqBy_from_set[of "[]" "addedAtoms rs"] by (simp add: batchDiff_def)

end
