(* ===== verification/CausalDemo.thy ===== *)
theory CausalDemo
  imports CausalTreeSpec WeaveBounds Weave2Index
begin

text \<open>
  Concrete causal trees, and what the code does on inputs that its comments do not foresee. The
  hasher joins the parts of an atom, so that atoms with different contents have different hashes.
\<close>

section \<open>A hasher and some atoms\<close>

fun part_text :: "string hash_part \<Rightarrow> string" where
  "part_text HNull = ''n''"
| "part_text HUndefined = ''u''"
| "part_text (HStr s) = s"
| "part_text (HNum i) = show_int i"
| "part_text (HCardinality c) = group c @ show_int (number c)"
| "part_text (HValue v) = v"

definition demo_hash :: "string hasher" where
  "demo_hash ps = concat (map (\<lambda>p. part_text p @ '','') ps)"

definition demo_id :: "string \<Rightarrow> int \<Rightarrow> atom_id" where
  "demo_id s t = atomId s t Undefined Undefined"

definition atomR :: "string atom" where "atomR = atom demo_hash (demo_id ''s'' 1) None ''r''"
definition atomA :: "string atom" where "atomA = atom demo_hash (demo_id ''s'' 2) (Some atomR) ''a''"
definition atomB :: "string atom" where "atomB = atom demo_hash (demo_id ''s'' 3) (Some atomA) ''b''"
definition atomC :: "string atom" where "atomC = atom demo_hash (demo_id ''s'' 4) (Some atomB) ''c''"
definition atomD :: "string atom" where "atomD = atom demo_hash (demo_id ''t'' 5) (Some atomR) ''d''"

text \<open>An atom with the id of \<open>atomD\<close> and another value, hence another hash.\<close>

definition atomE :: "string atom" where "atomE = atom demo_hash (demo_id ''t'' 5) (Some atomR) ''e''"

text \<open>A prioritised atom, and two roots of one cardinality group.\<close>

definition atomX :: "string atom" where
  "atomX = atom demo_hash (atomId ''x'' 2 (Val 1) Undefined) (Some atomR) ''x''"
definition root2 :: "string atom" where
  "root2 = atom demo_hash (atomId ''p'' 1 Undefined (Val \<lparr>group = ''g'', number = 2\<rparr>)) None ''p''"
definition root1 :: "string atom" where
  "root1 = atom demo_hash (atomId ''q'' 1 Undefined (Val \<lparr>group = ''g'', number = 1\<rparr>)) None ''q''"

text \<open>An atom under \<open>atomR\<close> whose hash is made up.\<close>

definition forged :: "string atom" where
  "forged = \<lparr>aid = demo_id ''f'' 7, cause = Some (aid atomR), val = ''f'', ahash = ''forged''\<rparr>"

fun run :: "string weave \<Rightarrow> string atom list \<Rightarrow> string weave option" where
  "run w [] = Some w"
| "run w (a # as) = do { (_, w1) \<leftarrow> weave_insert demo_hash w a; run w1 as }"

definition shown :: "string weave option \<Rightarrow> string list option" where
  "shown w = map_option (map val) (Option.bind w getAtoms)"

definition removed_from :: "string weave option \<Rightarrow> string atom \<Rightarrow> (string weave_result \<times> string weave) option" where
  "removed_from w a = Option.bind w (\<lambda>w. weave_remove w (Some a))"

text \<open>A hash of lists of hashes without collisions.\<close>

definition joined :: "string list \<Rightarrow> string" where
  "joined hs = concat (map (\<lambda>h. concat (map (\<lambda>c. [CHR ''.'', c]) h) @ '','') hs)"

lemma joined_inj: "inj joined"
proof (rule injI)
  fix x y :: "string list"
  have dots: "concat (map (\<lambda>c. [CHR ''.'', c]) h) @ CHR '','' # r = concat (map (\<lambda>c. [CHR ''.'', c]) h') @ CHR '','' # r'
      \<Longrightarrow> h = h' \<and> r = r'" for h h' :: string and r r'
  proof (induction h arbitrary: h')
    case Nil
    then show ?case by (cases h') auto
  next
    case (Cons c h)
    then show ?case by (cases h') auto
  qed
  show "joined x = joined y \<Longrightarrow> x = y"
  proof (induction x arbitrary: y)
    case Nil
    then show ?case by (cases y) (auto simp: joined_def)
  next
    case (Cons h x)
    then obtain h' y' where y: "y = h' # y'" by (cases y) (auto simp: joined_def)
    with Cons.prems dots[of h "joined x" h' "joined y'"] have "h = h' \<and> joined x = joined y'"
      by (simp add: joined_def)
    with Cons.IH y show ?case by blast
  qed
qed

section \<open>What the code does on unforeseen inputs\<close>

lemma reordering_works:
  "shown (run (new_weave None) [atomR, atomA, atomB, atomC]) = Some [''r'', ''a'', ''b'', ''c'']"
  "shown (run (new_weave None) [atomA, atomB, atomC, atomR]) = Some [''r'', ''a'', ''b'', ''c'']"
  by code_simp+

text \<open>
  An atom that waits in the reorder buffer and arrives again is not recognised: a second node for
  the same id is created, and both end up in the weave once the cause arrives.
\<close>

lemma pending_twice_duplicates:
  "shown (run (new_weave None) [atomA, atomB, atomB, atomR]) = Some [''r'', ''a'', ''b'', ''b'']"
  by code_simp

text \<open>The second node also leaves a stale pointer behind: removing \<open>atomC\<close> reports success, and the
  atom is still there.\<close>

lemma pending_twice_breaks_removal:
  "map_option (\<lambda>(r, w). (case r of AtomRemoved _ \<Rightarrow> True | _ \<Rightarrow> False, shown (Some w)))
     (removed_from (run (new_weave None) [atomA, atomB, atomC, atomB, atomR]) atomC)
   = Some (True, Some [''r'', ''a'', ''b'', ''c''])"
  by code_simp

text \<open>
  The causal group of an atom is found by timestamps. Behind a prioritised atom comes a later
  sibling, so removing the prioritised atom removes the sibling too.
\<close>

lemma weave_remove_takes_sibling:
  "shown (run (new_weave None) [atomR, atomX, atomD]) = Some [''r'', ''x'', ''d'']"
  "map_option (\<lambda>(_, w). shown (Some w)) (removed_from (run (new_weave None) [atomR, atomX, atomD]) atomX)
   = Some (Some [''r''])"
  by code_simp+

text \<open>
  For the same reason the order of arrival decides where an atom below a prioritised one goes: its cause group ends at the
  first atom that is not later than the cause, and a later sibling of the prioritised atom is taken for a part of it. The two
  replicas hold the same atoms, in different orders, for good.
\<close>

definition prioP :: "string atom" where
  "prioP = atom demo_hash (atomId ''p'' 5 (Val 1) Undefined) (Some atomR) ''p''"
definition sibQ :: "string atom" where "sibQ = atom demo_hash (demo_id ''q'' 7) (Some atomR) ''q''"
definition underP :: "string atom" where "underP = atom demo_hash (demo_id ''p'' 8) (Some prioP) ''c''"

lemma child_of_prioritised_diverges:
  "shown (run (new_weave None) [atomR, prioP, sibQ, underP]) = Some [''r'', ''p'', ''q'', ''c'']"
  "shown (run (new_weave None) [atomR, prioP, underP, sibQ]) = Some [''r'', ''p'', ''c'', ''q'']"
  by code_simp+

text \<open>
  A conflict is decided by the order of arrival too when an atom that waited for its cause is taken along: it stays with the
  atom that came first, and goes with it if that one loses.
\<close>

definition underD :: "string atom" where "underD = atom demo_hash (demo_id ''t'' 6) (Some atomD) ''k''"

lemma conflict_with_waiting_atom:
  "map_option (\<lambda>w. (ahash atomD < ahash atomE, shown (Some w))) (run (new_weave None) [atomR, underD, atomD, atomE]) =
     Some (True, Some [''r'', ''d'', ''k''])"
  "shown (run (new_weave None) [atomR, underD, atomE, atomD]) = Some [''r'', ''d'']"
  by code_simp+

text \<open>
  The cardinality of a group is the smallest number that one of its roots asks for, but a root is
  only counted against the numbers of the roots before it: a root that asks for a group of one is
  accepted beside another root.
\<close>

lemma cardinality_of_newcomer_ignored:
  "shown (run (new_weave None) [root2, root1]) = Some [''p'', ''q'']"
  by code_simp

text \<open>A root whose cardinality is \<^verbatim>\<open>null\<close> (which the type allows) makes \<^verbatim>\<open>insert\<close> throw.\<close>

lemma null_cardinality_throws:
  "map_option fst (weave_insert demo_hash (new_weave None)
     (atom demo_hash (atomId ''s'' 1 Undefined Null) None ''r'')) = Some (Inl TypeError)"
  by code_simp

text \<open>
  The hash of an atom is checked when it is inserted under its cause, but not when it waited in the
  reorder buffer for it: a forged atom is refused after its cause and accepted before it.
\<close>

lemma forged_accepted_when_early:
  "shown (run (new_weave None) [atomR, forged]) = Some [''r'']"
  "shown (run (new_weave None) [forged, atomR]) = Some [''r'', ''f'']"
  by code_simp+

text \<open>Atoms that were added together with their cause are missing from the difference of a batch.\<close>

lemma batchDiff_misses_reordered:
  "map_option full_additions (Option.bind (run (new_weave None) [atomA])
     (\<lambda>w. Option.bind (weave_insert demo_hash w atomR)
       (\<lambda>(r, w1). case r of Inr q \<Rightarrow> batchDiff w1 [q] | Inl _ \<Rightarrow> None))) = Some []"
  "map_option (\<lambda>(r, w1). case r of Inr q \<Rightarrow> map_option (map val) (addedWeaveAtoms q) | Inl _ \<Rightarrow> None)
     (Option.bind (run (new_weave None) [atomA]) (\<lambda>w. weave_insert demo_hash w atomR))
   = Some (Some [''r'', ''a''])"
  by code_simp+

text \<open>The id string, by which atoms are found, does not tell priority 0 from no priority; the comparison
  of ids does.\<close>

lemma zero_priority_confused:
  "atomIdToString (atomId ''s'' 1 (Val 0) Undefined) = atomIdToString (atomId ''s'' 1 Undefined Undefined)"
  "\<not> idEquals (Some (atomId ''s'' 1 (Val 0) Undefined)) (Some (atomId ''s'' 1 Undefined Undefined))"
  by code_simp+

end
