(* ===== verification/CausalRemoval.thy ===== *)
theory CausalRemoval
  imports Convergence
begin

text \<open>
  The conditions on atoms under which a weave stands for a forest of causal trees, one by one, and removal from such a
  weave: what is removed with an atom without a priority is exactly what was caused by it, directly or not.
\<close>

section \<open>Sequences of atoms\<close>

text \<open>
  An atom has arrived in order when its cause came before it, is earlier, and its hash
  matches. A sequence of such atoms is causally ordered in the sense of \<open>Convergence\<close> if the atoms are plain, no two have the same
  priority, timestamp and site, and none has a cause with a priority.
\<close>

definition arrived_in_order :: "'v hasher \<Rightarrow> 'v atom list \<Rightarrow> 'v atom \<Rightarrow> bool" where
  "arrived_in_order H acc a \<longleftrightarrow>
     (case cause a of
        None \<Rightarrow> atomMatchesHash H a None
      | Some i \<Rightarrow> list_ex (\<lambda>c. idEquals (Some i) (Some (aid c)) \<and> ts c < ts a \<and> atomMatchesHash H a (Some c)) acc)"

fun causes_first :: "'v hasher \<Rightarrow> 'v atom list \<Rightarrow> 'v atom list \<Rightarrow> bool" where
  "causes_first H acc [] \<longleftrightarrow> True"
| "causes_first H acc (a # as) \<longleftrightarrow> arrived_in_order H acc a \<and> causes_first H (acc @ [a]) as"

definition prioritised_are_leaves :: "'v atom list \<Rightarrow> bool" where
  "prioritised_are_leaves as \<longleftrightarrow>
     list_all (\<lambda>a. list_all (\<lambda>c. idEquals (cause a) (Some (aid c)) \<longrightarrow> prio c = 0) as) as"

lemma causes_first_ready:
  assumes "causes_first H acc as" and "\<forall>a\<in>set as. plain_atom a" and "distinct (map okey (acc @ as))"
    and "\<forall>a\<in>set as. \<forall>c\<in>set (acc @ as). idEquals (cause a) (Some (aid c)) \<longrightarrow> prio c = 0"
  shows "causal_seq H acc as"
  using assms
proof (induction as arbitrary: acc)
  case (Cons a as)
  have "ready H acc a"
    using Cons.prems by (auto simp: ready_def arrived_in_order_def list_ex_iff split: option.splits)
  moreover have "causal_seq H (acc @ [a]) as"
    using Cons.prems by (intro Cons.IH) auto
  ultimately show ?case by simp
qed simp

lemma causal_seqI:
  assumes "causes_first H [] as" and "\<forall>a\<in>set as. plain_atom a" and "distinct (map okey as)" and "prioritised_are_leaves as"
  shows "causal_seq H [] as"
  using assms by (intro causes_first_ready) (auto simp: prioritised_are_leaves_def list_all_iff)

lemma causal_seq_causes_first:
  "causal_seq H acc as \<Longrightarrow> causes_first H acc as"
  by (induction as arbitrary: acc) (auto simp: ready_def arrived_in_order_def list_ex_iff split: option.splits)

section \<open>The part of a tree below an atom\<close>

text \<open>
  The atoms below an atom stand behind it, later than it, and the atom behind them is not. They are closed under being caused.
\<close>

definition part_below :: "'v ctree \<Rightarrow> 'v atom \<Rightarrow> 'v atom list \<Rightarrow> 'v atom list \<Rightarrow> 'v atom list \<Rightarrow> bool" where
  "part_below t x ps ys qs \<longleftrightarrow>
     preorder t = ps @ x # ys @ qs \<and> (\<forall>y\<in>set ys. ts x < ts y) \<and> (qs = [] \<or> ts (hd qs) \<le> ts x) \<and> (ps = [] \<longrightarrow> qs = []) \<and>
     (\<forall>S. set (preorder t) \<subseteq> S \<longrightarrow> (\<forall>y\<in>set ys. below S x y)) \<and>
     (\<forall>y\<in>set (x # ys). \<forall>z\<in>set (preorder t). idEquals (cause z) (Some (aid y)) \<longrightarrow> z = root_atom t \<or> z \<in> set ys)"

lemma part_belowD:
  assumes "part_below t x ps ys qs"
  shows "preorder t = ps @ x # ys @ qs" "\<And>y. y \<in> set ys \<Longrightarrow> ts x < ts y" "qs = [] \<or> ts (hd qs) \<le> ts x" "ps = [] \<Longrightarrow> qs = []"
    "\<And>S y. set (preorder t) \<subseteq> S \<Longrightarrow> y \<in> set ys \<Longrightarrow> below S x y"
    "\<And>y z. y = x \<or> y \<in> set ys \<Longrightarrow> z \<in> set (preorder t) \<Longrightarrow> idEquals (cause z) (Some (aid y)) \<Longrightarrow> z = root_atom t \<or> z \<in> set ys"
  using assms unfolding part_below_def by (simp, simp, simp, simp, simp) (metis assms part_below_def list.set_intros(1) list.set_intros(2))

lemma part_belowI:
  assumes "preorder t = ps @ x # ys @ qs" "\<And>y. y \<in> set ys \<Longrightarrow> ts x < ts y" "qs = [] \<or> ts (hd qs) \<le> ts x" "ps = [] \<Longrightarrow> qs = []"
    "\<And>S y. set (preorder t) \<subseteq> S \<Longrightarrow> y \<in> set ys \<Longrightarrow> below S x y"
    "\<And>y z. y = x \<or> y \<in> set ys \<Longrightarrow> z \<in> set (preorder t) \<Longrightarrow> idEquals (cause z) (Some (aid y)) \<Longrightarrow> z = root_atom t \<or> z \<in> set ys"
  shows "part_below t x ps ys qs"
  unfolding part_below_def using assms by (intro conjI ballI allI impI) auto

text \<open>In a tree below a root, a cause in one of the subtrees is a cause from the same subtree.\<close>

lemma cause_in_same_kid:
  assumes wf: "wf_ctree (CNode r ks)" and dist: "distinct (map okey (preorder (CNode r ks)))"
    and k: "k \<in> set ks" "y \<in> set (preorder k)" and z: "z \<in> set (preorder (CNode r ks))" "idEquals (cause z) (Some (aid y))"
  shows "z = r \<or> (z \<in> set (preorder k) \<and> z \<noteq> root_atom k)"
proof (cases "z = r")
  case False
  then obtain l where l: "l \<in> set ks" "z \<in> set (preorder l)" using z(1) by auto
  have df: "distinct (map okey (forest ks))" and "okey r \<notin> okey ` set (forest ks)" using dist by auto
  then have yr: "okey y \<noteq> okey r" using k by (metis UN_I image_eqI set_concat set_map)
  have wfl: "wf_ctree l" "idEquals (cause (root_atom l)) (Some (aid r))" using wf l(1) by auto
  have same: "okey p = okey q" if c: "idEquals (cause z) (Some (aid p))" "idEquals (cause z) (Some (aid q))" for p q
    by (rule id_norm_okey) (use c in \<open>cases "cause z"; simp\<close>)
  have "z \<noteq> root_atom l" using same[OF z(2), of r] wfl(2) yr by auto
  with cause_in_tree[OF wfl(1) l(2)] obtain p where p: "p \<in> set (preorder l)" "idEquals (cause z) (Some (aid p))" by blast
  have "p = y" using distinct_map_inj[OF df] same[OF p(2) z(2)] p(1) l(1) k by auto
  then have "l = k" using forest_unique_kid[OF df l(1) k(1)] p(1) k(2) by blast
  with l(2) \<open>z \<noteq> root_atom l\<close> show ?thesis by simp
qed simp

lemma part_below_exists:
  assumes "wf_ctree t" and "distinct (map okey (preorder t))" and "x \<in> set (preorder t)" and "prio x = 0"
  shows "\<exists>ps ys qs. part_below t x ps ys qs"
  using assms
proof (induction t)
  case (CNode r ks)
  show ?case
  proof (cases "x = r")
    case True
    have "part_below (CNode r ks) r [] (forest ks) []"
      using ts_gt_root[OF CNode.prems(1)] preorder_below[OF CNode.prems(1)] by (auto simp: part_below_def)
    with True show ?thesis by blast
  next
    case False
    then obtain k where k: "k \<in> set ks" "x \<in> set (preorder k)" using CNode.prems(3) by auto
    then obtain us vs where ks: "ks = us @ k # vs" by (meson split_list)
    have wfk: "wf_ctree k" and dk: "distinct (map okey (preorder k))" using CNode.prems(1,2) k(1) by (auto simp: ks)
    obtain ps ys qs where sub: "part_below k x ps ys qs" using CNode.IH[OF k(1) wfk dk k(2) CNode.prems(4)] by blast
    have pre: "preorder (CNode r ks) = (r # forest us @ ps) @ x # ys @ (qs @ forest vs)"
      using sub by (simp add: ks part_below_def)
    have "forest vs @ [] = [] \<or> ts (hd (forest vs @ [])) \<le> ts (root_atom k)"
      using CNode.prems(1) by (intro next_sibling_ts[where x = r and us = us and c = x]) (simp_all add: ks k(2)[unfolded ks] k(2) CNode.prems(4))
    then have "qs @ forest vs = [] \<or> ts (hd (qs @ forest vs)) \<le> ts x"
      using ts_ge_root[OF wfk k(2)] part_belowD(3)[OF sub] by (cases qs) auto
    then have "part_below (CNode r ks) x (r # forest us @ ps) ys (qs @ forest vs)"
    proof (intro part_belowI pre)
      fix y z assume y: "y = x \<or> y \<in> set ys" and z: "z \<in> set (preorder (CNode r ks))" "idEquals (cause z) (Some (aid y))"
      have "y \<in> set (preorder k)" using y part_belowD(1)[OF sub] by auto
      from cause_in_same_kid[OF CNode.prems(1,2) k(1) this z] part_belowD(6)[OF sub y _ z(2)]
      show "z = root_atom (CNode r ks) \<or> z \<in> set ys" by auto
    next
      fix S y assume "set (preorder (CNode r ks)) \<subseteq> S" "y \<in> set ys"
      then show "below S x y" by (intro part_belowD(5)[OF sub]) (simp_all add: ks)
    qed (simp_all add: part_belowD(2)[OF sub])
    then show ?thesis by blast
  qed
qed

text \<open>Within a forest they are all the atoms that are below it.\<close>

lemma part_below_all:
  assumes f: "forest_of acc ks" and t: "t \<in> set ks" and p: "part_below t x ps ys qs"
  shows "below (set acc) x y \<longleftrightarrow> y = x \<or> y \<in> set ys"
proof
  have sub: "set (preorder t) \<subseteq> set acc" and wf: "wf_ctree t" and root: "cause (root_atom t) = None"
    using f t by (auto simp: forest_of_def)
  have x: "below (set acc) (root_atom t) x" by (rule preorder_below[OF wf sub]) (simp add: part_belowD(1)[OF p])
  assume "below (set acc) x y"
  then show "y = x \<or> y \<in> set ys"
  proof (induction rule: below.induct[consumes 1, case_names refl step])
    case (step y z)
    have "below (set acc) x z" by (rule below.step[OF step.hyps])
    then have "z \<in> set (preorder t)" by (intro below_root[OF f t] below_trans[OF _ x])
    moreover have "z \<noteq> root_atom t" using root step.hyps(3) by auto
    ultimately show ?case using part_belowD(6)[OF p step.IH _ step.hyps(3)] by blast
  qed simp
next
  have "set (preorder t) \<subseteq> set acc" using f t by (auto simp: forest_of_def)
  then show "y = x \<or> y \<in> set ys \<Longrightarrow> below (set acc) x y"
    using part_belowD(5)[OF p] below.refl by metis
qed

section \<open>Removal\<close>

lemma group_of_part:
  assumes "part_below t x ps ys qs"
  shows "group_of x (ys @ qs) = ys" "kept x (ys @ qs) = qs"
  using assms by (cases qs; force simp: part_below_def group_of_def kept_def takeWhile_append2)+

lemma remove_takes_below:
  assumes "weave_ok w" and "weave_chains w = Some (map preorder ks)" and f: "forest_of acc ks"
    and a: "a \<in> set acc" "prio a = 0"
  shows "\<exists>n w' xs. getAtoms w = Some xs \<and> set xs = set acc \<and> weave_remove w (Some a) = Some (AtomRemoved n, w') \<and>
    getAtoms w' = Some (filter (\<lambda>x. \<not> below (set acc) a x) xs) \<and>
    weaveRemovedAtoms w' (AtomRemoved n) = Some (filter (below (set acc) a) xs) \<and>
    (\<forall>x. below (set acc) a x \<longrightarrow> getNode w' (aid x) = None)"
proof -
  have S: "set (forest ks) = set acc" and dist: "distinct (map okey (forest ks))"
    and wf: "\<And>t. t \<in> set ks \<Longrightarrow> wf_ctree t" using f by (auto simp: forest_of_def)
  have "a \<in> set (forest ks)" using a(1) S by blast
  then obtain us t vs where ks: "ks = us @ t # vs" and at: "a \<in> set (preorder t)"
    by (auto dest: split_list)
  obtain ps ys qs where p: "part_below t a ps ys qs"
    using part_below_exists[OF wf forest_okey_split(3)[OF dist[unfolded ks] at] at a(2)] ks by auto
  then have t: "preorder t = ps @ a # (ys @ qs)" by (simp add: part_below_def)
  have below: "below (set acc) a y \<longleftrightarrow> y = a \<or> y \<in> set ys" for y
    using part_below_all[OF f _ p] ks by simp
  let ?us = "map preorder us" and ?vs = "map preorder vs"
  have chains: "weave_chains w = Some (?us @ (ps @ a # (ys @ qs)) # ?vs)" using assms(2) ks t by simp
  from weave_remove_chains[OF assms(1) chains HOL.refl] obtain n w' where w':
    "weave_remove w (Some a) = Some (AtomRemoved n, w')" "weave_ok w'"
    "weave_chains w' = Some (removed_chains ?us ps a (ys @ qs) ?vs)"
    "weaveRemovedAtoms w' (AtomRemoved n) = Some (a # ys)"
    using group_of_part[OF p] by auto
  let ?xs = "concat ?us @ ps @ a # ys @ qs @ concat ?vs"
  have xs: "getAtoms w = Some ?xs" and xs': "getAtoms w' = Some (concat ?us @ ps @ qs @ concat ?vs)"
    using chains w'(3) group_of_part[OF p] p by (auto simp: getAtoms_chains removed_chains_def part_below_def)
  have all: "forest ks = ?xs" using ks t by simp
  have "distinct ?xs" using dist unfolding all by (simp only: distinct_map)
  then have out: "\<not> below (set acc) a y" if "y \<in> set (concat ?us) \<or> y \<in> set ps \<or> y \<in> set qs \<or> y \<in> set (concat ?vs)" for y
    using that below by auto
  have "filter (\<lambda>x. \<not> below (set acc) a x) ?xs = concat ?us @ ps @ qs @ concat ?vs"
    "filter (below (set acc) a) ?xs = a # ys"
    using out below by (simp_all add: filter_empty_conv filter_id_conv)
  moreover have "getNode w' (aid x) = None" if x: "below (set acc) a x" for x
  proof -
    have dn: "distinct (map (\<lambda>a. atomIdToString (aid a)) ?xs)"
      using weave_ok_distinct[OF assms(1) chains] by simp
    have xin: "x \<in> set ?xs" using x below by auto
    have "atomIdToString (aid b) \<noteq> atomIdToString (aid x)" if b: "b \<in> set (concat ?us @ ps @ qs @ concat ?vs)" for b
    proof
      assume "atomIdToString (aid b) = atomIdToString (aid x)"
      moreover have "b \<in> set ?xs" using b by auto
      ultimately have "b = x" using distinct_map_inj[OF dn _ xin] by simp
      with x out[of b] b show False by auto
    qed
    moreover have "concat (removed_chains ?us ps a (ys @ qs) ?vs) = concat ?us @ ps @ qs @ concat ?vs"
      using xs' w'(3) by (simp add: getAtoms_chains)
    ultimately show ?thesis using getNode_None_chains[OF w'(2,3)] by (simp only:) blast
  qed
  moreover have "set ?xs = set acc" using S all by simp
  ultimately show ?thesis
    by (intro exI[of _ n] exI[of _ w'] exI[of _ ?xs] conjI xs w'(1)) (simp_all only: xs' w'(4) simp_thms, blast)
qed

text \<open>What is below an atom, by its causes.\<close>

inductive_cases below_step_elim: "below S x z"

lemma below_iff: "z \<in> S \<Longrightarrow> below S x z \<longleftrightarrow> z = x \<or> (\<exists>y. below S x y \<and> idEquals (cause z) (Some (aid y)))"
  by (auto elim: below_step_elim intro: below.refl below.step)

lemma below_root_only: "cause z = None \<Longrightarrow> below S x z \<longleftrightarrow> z = x"
  by (auto elim: below_step_elim intro: below.refl)

lemma below_in: "below S x z \<Longrightarrow> x \<in> S \<Longrightarrow> z \<in> S"
  by (auto elim: below_step_elim)

end
