(* ===== verification/CausalClaims.thy ===== *)
theory CausalClaims
  imports CausalDemo CausalRemoval
begin

text \<open>
  The properties of causal trees, each on the definitions that model
  \<^verbatim>\<open>src/src/causal-trees/core2\<close>, with an application to the trees of \<^verbatim>\<open>CausalDemo\<close>.
\<close>

section \<open>A concrete weave\<close>

definition demo_atoms :: "string atom list" where
  "demo_atoms = [atomR, atomA, atomD, atomB]"

definition demo_weave :: "string weave" where
  "demo_weave = the (insert_all (insert_weave demo_hash) (new_weave None) demo_atoms)"

lemma demo_causal: "causal_seq demo_hash [] demo_atoms"
  by code_simp

lemma demo_chains: "weave_chains demo_weave = Some [[atomR, atomD, atomA, atomB]]"
  by code_simp

lemma demo_weave_ok: "weave_ok demo_weave" "reorderBuffer demo_weave = []"
proof -
  from wv.accepts[OF demo_causal, of None] obtain w where
    "insert_all (insert_weave demo_hash) (new_weave None) demo_atoms = Some w" "weave_ok w" "reorderBuffer w = []"
    by blast
  then show "weave_ok demo_weave" "reorderBuffer demo_weave = []" by (simp_all add: demo_weave_def)
qed

lemmas demo = demo_weave_ok demo_chains

section \<open>Convergence\<close>

text \<open>The conditions on the atoms that the properties below speak of, for the atoms of the demo.\<close>

lemma demo_plain:
  "causes_first demo_hash [] demo_atoms" "distinct (map okey demo_atoms)" "\<forall>a\<in>set demo_atoms. plain_atom a"
  "prioritised_are_leaves demo_atoms"
  by code_simp+

text \<open>C1: Two replicas without atoms, whatever their sites, that are given the same atoms, each once and each in its own order,
  accept every atom without an exception and then hold the same chains: the same chains as a set, and the same list of
  atoms if the roots came in the same order (as they do when there is one root). Conditions: in both orders every
  atom comes after its cause, is later than it and has a matching hash; no site contains an \<^verbatim>\<open>@\<close>, no atom has a cardinality
  or a negative priority, no two atoms have the same priority, timestamp and site, and no atom was caused by one with a
  priority (below such an atom the order of arrival decides: \<open>child_of_prioritised_diverges\<close>).\<close>

theorem replicas_converge:
  assumes "causes_first H [] as" and "causes_first H [] bs" and "set as = set bs"
    and "distinct (map okey as)" and "distinct (map okey bs)"
    and "\<forall>a\<in>set as. plain_atom a" and "prioritised_are_leaves as"
    and "tree_weave t1 = new_weave m" and "tree_weave t2 = new_weave m"
  shows "\<exists>rs1 t1' rs2 t2' cs1 cs2. insertAtoms H t1 as [] = Some (Inr rs1, t1') \<and>
    insertAtoms H t2 bs [] = Some (Inr rs2, t2') \<and>
    weave_chains (tree_weave t1') = Some cs1 \<and> weave_chains (tree_weave t2') = Some cs2 \<and>
    set cs1 = set cs2 \<and>
    (filter (\<lambda>a. cause a = None) as = filter (\<lambda>a. cause a = None) bs \<longrightarrow>
       getAtoms (tree_weave t1') = getAtoms (tree_weave t2'))"
proof -
  have "causal_seq H [] as" by (rule causal_seqI[OF assms(1,6,4,7)])
  moreover have "causal_seq H [] bs"
    using assms by (intro causal_seqI) (auto simp: prioritised_are_leaves_def list_all_iff)
  ultimately obtain w1 w2 cs1 cs2 where w:
    "insert_all (insert_weave H) (new_weave m) as = Some w1"
    "insert_all (insert_weave H) (new_weave m) bs = Some w2"
    "weave_chains w1 = Some cs1" "weave_chains w2 = Some cs2" "set cs1 = set cs2"
    "filter (\<lambda>a. cause a = None) as = filter (\<lambda>a. cause a = None) bs \<longrightarrow> cs1 = cs2"
    using wv.converges[of H as bs m] assms(3) by blast
  with insertAtoms_weave[of H t1 as w1 "[]"] insertAtoms_weave[of H t2 bs w2 "[]"] assms(8,9)
  obtain rs1 t1' rs2 t2' where "insertAtoms H t1 as [] = Some (Inr rs1, t1')" "tree_weave t1' = w1"
    "insertAtoms H t2 bs [] = Some (Inr rs2, t2')" "tree_weave t2' = w2"
    by auto
  with w show ?thesis by (auto simp: getAtoms_chains)
qed

lemma replicas_converge_witness:
  "\<exists>rs1 t1' rs2 t2'.
     insertAtoms demo_hash (new_tree ''u'' (Some ''s'') None None) [atomR, atomA, atomD, atomB] [] = Some (Inr rs1, t1') \<and>
     insertAtoms demo_hash (new_tree ''u'' (Some ''t'') None None) [atomR, atomD, atomA, atomB] [] = Some (Inr rs2, t2') \<and>
     getAtoms (tree_weave t1') = getAtoms (tree_weave t2')"
proof -
  let ?as = "[atomR, atomA, atomD, atomB]" and ?bs = "[atomR, atomD, atomA, atomB]"
  have "causes_first demo_hash [] ?as" "causes_first demo_hash [] ?bs" "distinct (map okey ?as)" "distinct (map okey ?bs)"
    "\<forall>a\<in>set ?as. plain_atom a" "prioritised_are_leaves ?as"
    "filter (\<lambda>a. cause a = None) ?as = filter (\<lambda>a. cause a = None) ?bs"
    by code_simp+
  moreover have "set ?as = set ?bs" by auto
  moreover have "tree_weave (new_tree ''u'' (Some ''s'') None None) = (new_weave None :: string weave)"
    "tree_weave (new_tree ''u'' (Some ''t'') None None) = (new_weave None :: string weave)"
    by (simp_all add: new_tree_def Let_def)
  ultimately show ?thesis using replicas_converge[of demo_hash ?as ?bs] by blast
qed

section \<open>Insertion and removal\<close>

text \<open>C2: An atom whose cause is in the weave, whose hash matches and whose timestamp is later than that of its cause is
  added behind its cause in the causal group, the run of atoms behind the cause that are later than it: before the first
  sibling in that group that sorts after the new atom, and otherwise at the end of the group. Nothing else of any chain moves. Conditions: the weave is consistent (\<open>weave_ok\<close>: its maps and pointers agree with its
  chains, which is not so for weaves to which an atom was given again while it waited in the reorder buffer:
  \<open>pending_twice_breaks_removal\<close>), no atom waits in the reorder buffer, and none in the weave has the new atom's id.\<close>

theorem insert_under_cause:
  assumes "weave_ok w" and "weave_chains w = Some (us @ (xs @ c # ys) # vs)" and "reorderBuffer w = []"
    and "\<forall>b\<in>set (concat (us @ (xs @ c # ys) # vs)). atomIdToString (aid b) \<noteq> atomIdToString (aid a)"
    and "cause a = Some i" and "atomIdToString i = atomIdToString (aid c)"
    and "atomMatchesHash H a (Some c)" and "ts c < ts a"
  shows "\<exists>w'. weave_insert H w a = Some (Inr (AtomAdded a), w') \<and> weave_ok w' \<and>
    weave_chains w' = Some (us @ (xs @ c # insert_group c a ys) # vs)"
  using insertChild_chains[OF assms(1-3) _ assms(5-8)] assms(4) by blast

lemma insert_under_cause_witness:
  "\<exists>w'. weave_insert demo_hash demo_weave atomC = Some (Inr (AtomAdded atomC), w') \<and>
     weave_chains w' = Some [[atomR, atomD, atomA, atomB, atomC]]"
proof -
  have "insert_group atomB atomC [] = [atomC]" by simp
  moreover have "\<forall>b\<in>set (concat ([] @ ([atomR, atomD, atomA] @ atomB # []) # [])). atomIdToString (aid b) \<noteq> atomIdToString (aid atomC)"
    "cause atomC = Some (aid atomB)" "atomMatchesHash demo_hash atomC (Some atomB)" "ts atomB < ts atomC"
    by code_simp+
  ultimately show ?thesis
    using insert_under_cause[of demo_weave "[]" "[atomR, atomD, atomA]" atomB "[]" "[]" atomC "aid atomB" demo_hash] demo
    by auto
qed

text \<open>C3: The place that the position search finds in the list of atoms is the place in the tree: if
  the atoms behind a root are the depth-first traversal of a well-formed causal tree, they are the
  traversal of the tree with the new atom among the children of its cause afterwards. Conditions: the cause of the new atom
  has no priority, is earlier, and the atom's hash matches; the weave is consistent (\<open>weave_ok\<close>), no atom waits in the reorder
  buffer and none in the weave has the new atom's id; in the tree every child is later than its parent, siblings are in
  the order of their ids, no priority is negative, no atom with a priority has children, and no two atoms have the same
  priority, timestamp and site.\<close>

theorem insert_keeps_traversal:
  assumes "weave_ok w" and "weave_chains w = Some (us @ preorder t # vs)" and "reorderBuffer w = []"
    and "\<forall>b\<in>set (concat (us @ preorder t # vs)). atomIdToString (aid b) \<noteq> atomIdToString (aid a)"
    and "wf_ctree t" and "distinct (map okey (preorder t))" and "c \<in> set (preorder t)" and "prio c = 0"
    and "idEquals (cause a) (Some (aid c))" and "atomMatchesHash H a (Some c)" and "ts c < ts a"
  shows "\<exists>w'. weave_insert H w a = Some (Inr (AtomAdded a), w') \<and>
    weave_chains w' = Some (us @ preorder (tree_insert c a t) # vs)"
proof -
  obtain i where i: "cause a = Some i" using assms(9) by (cases "cause a") auto
  with assms(9) have "atomIdToString i = atomIdToString (aid c)" by (metis idEquals_same_string)
  moreover obtain ps qs where t: "preorder t = ps @ c # qs" using assms(7) by (metis split_list)
  ultimately obtain w' where w': "weave_insert H w a = Some (Inr (AtomAdded a), w')"
    "weave_chains w' = Some (us @ (ps @ c # insert_group c a qs) # vs)"
    using insertChild_chains[of w us ps c qs vs a i H] assms i by auto
  have "okey c \<notin> okey ` set ps" using assms(6) t by auto
  then have "insert_at c a (preorder t) = ps @ c # insert_group c a qs" by (simp add: t insert_at_split)
  then have "preorder (tree_insert c a t) = ps @ c # insert_group c a qs"
    using insert_at_preorder[OF assms(5-8), of "[]" a] by simp
  with w' show ?thesis by auto
qed

lemma insert_keeps_traversal_witness:
  "\<exists>w'. weave_insert demo_hash demo_weave atomC = Some (Inr (AtomAdded atomC), w') \<and>
     weave_chains w' = Some [preorder (CNode atomR [CNode atomD [], CNode atomA [CNode atomB [CNode atomC []]]])]"
proof -
  let ?t = "CNode atomR [CNode atomD [], CNode atomA [CNode atomB []]]"
  have "\<forall>b\<in>set (concat ([] @ preorder ?t # [])). atomIdToString (aid b) \<noteq> atomIdToString (aid atomC)"
    "wf_ctree ?t" "distinct (map okey (preorder ?t))" "atomB \<in> set (preorder ?t)" "prio atomB = 0"
    "idEquals (cause atomC) (Some (aid atomB))" "atomMatchesHash demo_hash atomC (Some atomB)" "ts atomB < ts atomC"
    "tree_insert atomB atomC ?t = CNode atomR [CNode atomD [], CNode atomA [CNode atomB [CNode atomC []]]]"
    by code_simp+
  moreover have "weave_chains demo_weave = Some ([] @ preorder ?t # [])" by (simp add: demo)
  ultimately show ?thesis
    using insert_keeps_traversal[of demo_weave "[]" ?t "[]" atomC atomB demo_hash] demo_weave_ok
    by (metis append_Nil)
qed

text \<open>Removal takes the atom and its causal group, or the whole chain of a root, out of the weave
  and out of the lookup by id, leaves every other atom in place, and \<^verbatim>\<open>weaveRemovedAtoms\<close> reports
  exactly the atoms that were removed.\<close>

theorem remove_takes_group:
  assumes "weave_ok w" and "weave_chains w = Some (us @ (xs @ c # ys) # vs)"
    and "atomIdToString (aid a) = atomIdToString (aid c)"
  shows "\<exists>n w'. weave_remove w (Some a) = Some (AtomRemoved n, w') \<and> weave_ok w' \<and>
    weave_chains w' = Some (if xs = [] then us @ vs else us @ (xs @ dropWhile (\<lambda>y. ts c < ts y) ys) # vs) \<and>
    weaveRemovedAtoms w' (AtomRemoved n) = Some (c # takeWhile (\<lambda>y. ts c < ts y) ys) \<and>
    getNode w' (aid a) = None"
proof -
  from weave_remove_chains[OF assms] obtain n w' where w': "weave_remove w (Some a) = Some (AtomRemoved n, w')"
    "weave_ok w'" "weave_chains w' = Some (removed_chains us xs c ys vs)"
    "weaveRemovedAtoms w' (AtomRemoved n) = Some (c # group_of c ys)" by blast
  have "distinct (map (\<lambda>a. atomIdToString (aid a)) (concat (us @ (xs @ c # ys) # vs)))"
    by (rule weave_ok_distinct[OF assms(1,2)])
  then have "atomIdToString (aid c) \<notin> (\<lambda>a. atomIdToString (aid a)) ` set (concat us @ xs @ ys @ concat vs)"
    by (auto simp del: set_concat)
  moreover have "set (concat (removed_chains us xs c ys vs)) \<subseteq> set (concat us @ xs @ ys @ concat vs)"
    by (auto simp: removed_chains_def kept_def dest: set_dropWhileD split: if_splits)
  ultimately have "\<forall>b\<in>set (concat (removed_chains us xs c ys vs)). atomIdToString (aid b) \<noteq> atomIdToString (aid c)"
    by (metis imageI subsetD)
  then have "getNode w' (aid a) = None"
    using getNode_None_chains[OF w'(2,3), of "aid a"] assms(3) by simp
  with w' show ?thesis by (auto simp: removed_chains_def kept_def group_of_def)
qed

lemma remove_takes_group_witness:
  "\<exists>n w'. weave_remove demo_weave (Some atomA) = Some (AtomRemoved n, w') \<and>
     weave_chains w' = Some [[atomR, atomD]] \<and> weaveRemovedAtoms w' (AtomRemoved n) = Some [atomA, atomB]"
proof -
  have "ts atomA < ts atomB" by code_simp
  then show ?thesis
    using remove_takes_group[of demo_weave "[]" "[atomR, atomD]" atomA "[atomB]" "[]" atomA] demo by auto
qed

text \<open>C4: Removing an atom removes it and everything it caused, directly or not, and nothing else: in a weave that was
  filled by \<^verbatim>\<open>insertAtoms\<close> under the conditions below, \<^verbatim>\<open>remove\<close> of an atom without a priority leaves exactly the atoms that are
  not below it, in the order they had, \<^verbatim>\<open>weaveRemovedAtoms\<close> reports exactly those that are, and none of them is found by its id
  afterwards. Conditions: the atoms came with their causes first, later than their causes, with matching hashes; no site
  contains an \<^verbatim>\<open>@\<close>, no atom has a cardinality or a negative priority, no two have the same priority, timestamp and site, and
  none was caused by an atom with a priority. (Of an atom with a priority later siblings may be removed too:
  \<open>weave_remove_takes_sibling\<close>.)\<close>

theorem remove_takes_what_was_caused:
  assumes "causes_first H [] as" and "distinct (map okey as)" and "\<forall>x\<in>set as. plain_atom x" and "prioritised_are_leaves as"
    and "tree_weave t = new_weave m" and "a \<in> set as" and "prio a = 0"
  shows "\<exists>rs t' n w' xs. insertAtoms H t as [] = Some (Inr rs, t') \<and> getAtoms (tree_weave t') = Some xs \<and> set xs = set as \<and>
    weave_remove (tree_weave t') (Some a) = Some (AtomRemoved n, w') \<and>
    getAtoms w' = Some (filter (\<lambda>x. \<not> below (set as) a x) xs) \<and>
    weaveRemovedAtoms w' (AtomRemoved n) = Some (filter (below (set as) a) xs) \<and>
    (\<forall>x. below (set as) a x \<longrightarrow> getNode w' (aid x) = None)"
proof -
  from wv.accepts[OF causal_seqI[OF assms(1,3,2,4)], of m] obtain w ks where
    w: "insert_all (insert_weave H) (new_weave m) as = Some w" "weave_ok w" "weave_chains w = Some (map preorder ks)" "forest_of as ks"
    by blast
  with insertAtoms_weave[of H t as w "[]"] assms(5)
  obtain rs t' where t: "insertAtoms H t as [] = Some (Inr rs, t')" "tree_weave t' = w" by auto
  from remove_takes_below[OF w(2-4) assms(6,7)] t show ?thesis by blast
qed

lemma demo_below: "below (set demo_atoms) atomA x \<longleftrightarrow> x = atomA \<or> x = atomB"
proof
  have d: "idEquals (cause atomB) (Some (aid atomA))" "atomB \<in> set demo_atoms" by code_simp+
  have n: "\<not> idEquals (cause atomD) (Some (aid atomA))" "\<not> idEquals (cause atomD) (Some (aid atomB))"
    "\<not> idEquals (cause atomA) (Some (aid atomB))" "cause atomR = None" "set demo_atoms = {atomR, atomA, atomD, atomB}"
    by code_simp+
  show "x = atomA \<or> x = atomB \<Longrightarrow> below (set demo_atoms) atomA x"
    using below.step[OF below.refl d(2,1)] below.refl by blast
  assume "below (set demo_atoms) atomA x"
  then show "x = atomA \<or> x = atomB"
  proof (induction rule: below.induct[consumes 1, case_names refl step])
    case (step y z)
    then show ?case using n by auto
  qed simp
qed

lemma remove_takes_what_was_caused_witness:
  "\<exists>n w'. weave_remove demo_weave (Some atomA) = Some (AtomRemoved n, w') \<and>
     getAtoms w' = Some [atomR, atomD] \<and> weaveRemovedAtoms w' (AtomRemoved n) = Some [atomA, atomB]"
proof -
  let ?t = "new_tree ''u'' (Some ''s'') None None :: string causal_tree"
  have new: "tree_weave ?t = new_weave None" by (simp add: new_tree_def Let_def)
  have "atomA \<in> set demo_atoms" "prio atomA = 0" by code_simp+
  from remove_takes_what_was_caused[OF demo_plain new this] obtain rs t' n w' xs where
    t: "insertAtoms demo_hash ?t demo_atoms [] = Some (Inr rs, t')" "getAtoms (tree_weave t') = Some xs"
    "weave_remove (tree_weave t') (Some atomA) = Some (AtomRemoved n, w')"
    "getAtoms w' = Some (filter (\<lambda>x. \<not> below (set demo_atoms) atomA x) xs)"
    "weaveRemovedAtoms w' (AtomRemoved n) = Some (filter (below (set demo_atoms) atomA) xs)" by blast
  have w: "insert_all (insert_weave demo_hash) (new_weave None) demo_atoms = Some demo_weave"
    using wv.accepts[OF demo_causal, of None] by (auto simp: demo_weave_def)
  with insertAtoms_weave[of demo_hash ?t demo_atoms demo_weave "[]"] new t(1) have t': "tree_weave t' = demo_weave" by auto
  have xs: "xs = [atomR, atomD, atomA, atomB]" using t(2) by (simp add: t' getAtoms_chains demo_chains)
  have "atomR \<noteq> atomA" "atomR \<noteq> atomB" "atomD \<noteq> atomA" "atomD \<noteq> atomB" by code_simp+
  then show ?thesis using t(3-5) by (auto simp: t' xs demo_below)
qed

section \<open>Repetition, conflicts and rejections\<close>

text \<open>Inserting an atom that the weave already holds (the same id and the same hash) changes
  nothing and returns the atom that is there.\<close>

theorem insert_idempotent:
  assumes "weave_ok w" and "weave_chains w = Some cs" and "e \<in> set (concat cs)"
    and "atomIdToString (aid a) = atomIdToString (aid e)" and "ahash a = ahash e" and "checked H w a"
  shows "weave_insert H w a = Some (Inr (AtomAlreadyAdded e), w)"
  using weave_insert_again(1)[OF assms(1-4,6,5)] .

lemma demo_checked: "checked demo_hash demo_weave atomA" "checked demo_hash demo_weave atomE"
  by code_simp+

lemma insert_idempotent_witness:
  "weave_insert demo_hash demo_weave atomA = Some (Inr (AtomAlreadyAdded atomA), demo_weave)"
  using insert_idempotent[OF demo_weave_ok(1) demo_chains, of atomA atomA demo_hash] demo_checked by simp

text \<open>C5: Two valid atoms with one id and one cause are a conflict that the order of arrival does not decide: the
  atom with the lower hash wins whichever comes first, and both orders leave the same chains. Conditions: no atom waits in
  the reorder buffer (a child of one of the two that does is taken along by the first to come:
  \<open>conflict_with_waiting_atom\<close>), the weave is consistent (\<open>weave_ok\<close>) and has no atom with their id, their
  cause is in it and earlier, and the atoms behind the cause have the same priority as the two.\<close>

theorem conflict_commutes:
  assumes "weave_ok w" and "weave_chains w = Some (us @ (xs @ c # ys) # vs)" and "reorderBuffer w = []"
    and "\<forall>b\<in>set (concat (us @ (xs @ c # ys) # vs)). atomIdToString (aid b) \<noteq> atomIdToString (aid a)"
    and "aid a = aid e" and "cause a = Some i" and "cause e = Some i"
    and "atomIdToString i = atomIdToString (aid c)"
    and "atomMatchesHash H a (Some c)" and "atomMatchesHash H e (Some c)" and "ahash a < ahash e"
    and "ts c < ts a" and "\<forall>y\<in>set ys. prio y = prio a"
  shows "\<exists>w1 w2 w3 n.
    weave_insert H w a = Some (Inr (AtomAdded a), w1) \<and>
    weave_insert H w1 e = Some (Inr (Conflict a e None), w1) \<and>
    weave_insert H w e = Some (Inr (AtomAdded e), w2) \<and>
    weave_insert H w2 a = Some (Inr (Conflict a e (Some n)), w3) \<and>
    weave_chains w1 = Some (us @ (xs @ c # insert_group c a ys) # vs) \<and> weave_chains w3 = weave_chains w1"
  using weave_insert_conflict_commutes[OF assms] .

definition small_weave :: "string weave" where
  "small_weave = the (insert_all (insert_weave demo_hash) (new_weave None) [atomR, atomA])"

lemma small_weave_ok: "weave_ok small_weave" "reorderBuffer small_weave = []"
  "weave_chains small_weave = Some [[atomR, atomA]]"
proof -
  have "causal_seq demo_hash [] [atomR, atomA]" by code_simp
  from wv.accepts[OF this, of None] obtain w where
    "insert_all (insert_weave demo_hash) (new_weave None) [atomR, atomA] = Some w" "weave_ok w" "reorderBuffer w = []"
    by blast
  then show "weave_ok small_weave" "reorderBuffer small_weave = []" by (simp_all only: small_weave_def option.sel)
  show "weave_chains small_weave = Some [[atomR, atomA]]" by code_simp
qed

lemma conflict_commutes_witness:
  "\<exists>w1 w2 w3 n.
    weave_insert demo_hash small_weave atomD = Some (Inr (AtomAdded atomD), w1) \<and>
    weave_insert demo_hash w1 atomE = Some (Inr (Conflict atomD atomE None), w1) \<and>
    weave_insert demo_hash small_weave atomE = Some (Inr (AtomAdded atomE), w2) \<and>
    weave_insert demo_hash w2 atomD = Some (Inr (Conflict atomD atomE (Some n)), w3) \<and>
    weave_chains w3 = weave_chains w1"
proof -
  have "weave_chains small_weave = Some ([] @ ([] @ atomR # [atomA]) # [])" by (simp add: small_weave_ok)
  moreover have "\<forall>b\<in>set (concat ([] @ ([] @ atomR # [atomA]) # [])). atomIdToString (aid b) \<noteq> atomIdToString (aid atomD)"
    "aid atomD = aid atomE" "cause atomD = Some (aid atomR)" "cause atomE = Some (aid atomR)"
    "atomIdToString (aid atomR) = atomIdToString (aid atomR)"
    "atomMatchesHash demo_hash atomD (Some atomR)" "atomMatchesHash demo_hash atomE (Some atomR)"
    "ahash atomD < ahash atomE" "ts atomR < ts atomD" "\<forall>y\<in>set [atomA]. prio y = prio atomD"
    by code_simp+
  ultimately show ?thesis
    using conflict_commutes[OF small_weave_ok(1) _ small_weave_ok(2)] by metis
qed

text \<open>C6: An insertion that returns a rejection (a failed hash, timestamp or cardinality check, a full
  reorder buffer, an atom that is there or wins a conflict) leaves the weave exactly as it was.\<close>

theorem rejection_changes_nothing:
  assumes "weave_insert H w a = Some (Inr r, w')" and "rejected r"
  shows "w' = w"
  by (rule weave_insert_rejects[OF assms])

lemma rejection_changes_nothing_witness:
  "\<exists>r w'. weave_insert demo_hash demo_weave forged = Some (Inr r, w') \<and> rejected r \<and> w' = demo_weave"
proof -
  have "map_option (\<lambda>(r, _). case r of Inr q \<Rightarrow> rejected q | Inl _ \<Rightarrow> False)
      (weave_insert demo_hash demo_weave forged) = Some True" by code_simp
  then obtain r w' where "weave_insert demo_hash demo_weave forged = Some (Inr r, w')" "rejected r"
    by (auto simp: case_sum_Inr_iff)
  with rejection_changes_nothing show ?thesis by blast
qed

text \<open>An insertion that reports new atoms has checked the atom it was given: its hash is the hash
  over its contents and the hash of its cause, and it is later than its cause.\<close>

theorem added_atoms_are_authentic:
  assumes "weave_insert H w a = Some (Inr r, w')" and "r = AtomAdded b \<or> r = AtomsAdded xs"
  shows "case cause a of
      None \<Rightarrow> atomMatchesHash H a None
    | Some i \<Rightarrow> \<exists>n c. getNode w i = Some n \<and> node_at w n = Some c \<and> atomMatchesHash H a (Some c) \<and> ts c < ts a"
  using weave_insert_authentic[OF assms]
  by (auto simp: authentic_def Option.bind_eq_Some_conv split: option.splits)

lemma added_atoms_are_authentic_witness:
  "case cause atomC of
      None \<Rightarrow> atomMatchesHash demo_hash atomC None
    | Some i \<Rightarrow> \<exists>n c. getNode demo_weave i = Some n \<and> node_at demo_weave n = Some c \<and>
        atomMatchesHash demo_hash atomC (Some c) \<and> ts c < ts atomC"
proof -
  have "map_option (\<lambda>(r, _). r = Inr (AtomAdded atomC)) (weave_insert demo_hash demo_weave atomC) = Some True"
    by code_simp
  then obtain w' where "weave_insert demo_hash demo_weave atomC = Some (Inr (AtomAdded atomC), w')" by auto
  from added_atoms_are_authentic[OF this, of atomC "[]"] show ?thesis by simp
qed

section \<open>Bounds\<close>

text \<open>C7: Whatever is inserted and removed, in whatever order, the reorder buffer of a weave never
  holds more atoms than its maximum, ten unless the constructor was given another size.\<close>

theorem reorder_buffer_bounded:
  assumes "weave_reachable H m w"
  shows "length (reorderBuffer w) \<le> (case m of None \<Rightarrow> 10 | Some k \<Rightarrow> if k = 0 then 10 else k)"
  using reachable_buffer[OF assms]
  by (auto simp: buffer_ok_def new_weave_def DEFAULT_REORDER_BUFFER_SIZE_def split: option.splits)

lemma reorder_buffer_bounded_witness:
  "\<exists>w r. weave_insert demo_hash (new_weave (Some 1)) atomA = Some (r, w) \<and> length (reorderBuffer w) \<le> 1"
proof -
  have "weave_insert demo_hash (new_weave (Some 1)) atomA \<noteq> None" by code_simp
  then obtain r w where w: "weave_insert demo_hash (new_weave (Some 1)) atomA = Some (r, w)" by auto
  have "weave_reachable demo_hash (Some 1) w" by (rule weave_reachable.insert[OF weave_reachable.new w])
  from reorder_buffer_bounded[OF this] w show ?thesis by auto
qed

text \<open>When all roots of a cardinality group ask for the same number, the bookkeeping accepts at
  most that many roots of the group.\<close>

theorem cardinality_respected:
  assumes "count_roots Map.empty ids = Some m" and "\<forall>i\<in>set ids. group_max g k i" and "0 < k"
  shows "int (length (filter (in_group g) ids)) \<le> k"
  by (rule count_roots_full[OF assms])

lemma cardinality_respected_witness:
  "int (length (filter (in_group ''g'') [aid root2, aid root2])) \<le> 2"
proof -
  have "count_roots Map.empty [aid root2, aid root2] \<noteq> None" by code_simp
  then obtain m where "count_roots Map.empty [aid root2, aid root2] = Some m" by auto
  moreover have "\<forall>i\<in>set [aid root2, aid root2]. group_max ''g'' 2 i" by code_simp
  ultimately show ?thesis by (rule cardinality_respected) simp
qed

text \<open>In a weave whose atoms have their causes in it and later than them, \<^verbatim>\<open>referenceChain\<close> returns
  without an exception the node of the atom and then those of its causes, one below the other, down
  to an atom without a cause.\<close>

theorem reference_chain_reaches_root:
  assumes "weave_ok w" and "weave_chains w = Some cs" and "causes_closed (concat cs)" and "a \<in> set (concat cs)"
  shows "\<exists>ns as. referenceChain w (aid a) = Some (Inr ns) \<and> atoms_at w ns = Some (a # as) \<and> cause_path a as"
  by (rule referenceChain_path[OF assms])

lemma reference_chain_reaches_root_witness:
  "\<exists>ns as. referenceChain demo_weave (aid atomB) = Some (Inr ns) \<and> atoms_at demo_weave ns = Some (atomB # as) \<and>
    cause_path atomB as"
proof -
  have "causes_closed (concat [[atomR, atomD, atomA, atomB]])" by code_simp
  then show ?thesis using reference_chain_reaches_root[OF demo_weave_ok(1) demo_chains, of atomB] by auto
qed

section \<open>Clocks and versions\<close>

text \<open>C8: After \<^verbatim>\<open>insertAtoms\<close> the clock of the tree's site is not behind any atom that was added, and
  ahead of those of other sites; it never runs backwards. The version vector has, for every site,
  the highest timestamp of the atoms added by it, or what it had if that is higher.\<close>

theorem insertAtoms_clock:
  assumes "insertAtoms H t as [] = Some (Inr rs, t')"
  shows "site_time (tree_site t) \<le> site_time (tree_site t') \<and> site_id (tree_site t') = site_id (tree_site t) \<and>
    (\<forall>a\<in>set (addedAtoms rs). timestamp (aid a) \<le> site_time (tree_site t') \<and>
       (site (aid a) \<noteq> site_id (tree_site t) \<longrightarrow> timestamp (aid a) < site_time (tree_site t'))) \<and>
    (\<forall>s. version_at (tree_version t') s =
       Max (insert (version_at (tree_version t) s) (times_of s (addedAtoms rs))))"
proof -
  from insertAtoms_tracks[OF assms] obtain new where "rs = new"
    "tree_site t' = tree_site (track_atoms t (added_by new))"
    "tree_version t' = bump_versions (tree_version t) (added_by new)" by auto
  with track_atoms_time[of t "added_by new"] track_atoms_covers[of _ "added_by new" t] show ?thesis
    by (auto simp: addedAtoms_added_by bump_versions_exact)
qed

lemma insertAtoms_clock_witness:
  "\<exists>rs t'. insertAtoms demo_hash (new_tree ''u'' (Some ''z'') None None) demo_atoms [] = Some (Inr rs, t') \<and>
     (\<forall>a\<in>set (addedAtoms rs). timestamp (aid a) \<le> site_time (tree_site t'))"
proof -
  have "map_option (\<lambda>(r, _). case r of Inr _ \<Rightarrow> True | Inl _ \<Rightarrow> False)
      (insertAtoms demo_hash (new_tree ''u'' (Some ''z'') None None) demo_atoms []) = Some True" by code_simp
  then obtain rs t' where "insertAtoms demo_hash (new_tree ''u'' (Some ''z'') None None) demo_atoms [] = Some (Inr rs, t')"
    by (auto simp: case_sum_Inr_iff)
  with insertAtoms_clock show ?thesis by blast
qed

text \<open>A local edit always succeeds: while the clock is not behind the atoms of the tree and no site
  name contains an \<^verbatim>\<open>@\<close>, \<^verbatim>\<open>addAtom\<close> under any atom of the tree adds the new atom in the place that the
  sibling order gives it, and the clock of the new site status covers it.\<close>

theorem local_edit_succeeds:
  assumes "weave_ok (tree_weave t)" and "weave_chains (tree_weave t) = Some (us @ (xs @ c # ys) # vs)"
    and "reorderBuffer (tree_weave t) = []"
    and "site_ahead (editing_site t remote) (concat (us @ (xs @ c # ys) # vs))"
  shows "\<exists>a r t'. addAtom H t (Some c) v p k remote = Some (Inr r, t') \<and> results r = [AtomAdded a] \<and>
    val a = v \<and> cause a = Some (aid c) \<and> timestamp (aid a) \<le> site_time (result_site r) \<and>
    weave_ok (tree_weave t') \<and> weave_chains (tree_weave t') = Some (us @ (xs @ c # insert_group c a ys) # vs)"
proof -
  let ?a = "createAtom H (editing_site t remote) (Some c) v p k"
  have "timestamp (aid ?a) \<le> site_time (updateSite (tree_site t) (AtomAdded ?a))"
    by (rule updateSite_covers[of _ "[?a]"]) (simp_all add: addedWeaveAtoms_def)
  moreover have "val ?a = v" "cause ?a = Some (aid c)" by (simp_all add: createAtom_def atom_def)
  ultimately show ?thesis
    using addAtom_accepted[OF assms HOL.refl, of H v p k] by (auto intro!: exI[of _ ?a] simp del: createAtom_fields)
qed

lemma local_edit_succeeds_witness:
  "\<exists>a r t'. addAtom demo_hash ((new_tree ''u'' (Some ''z'') (Some 9) None)\<lparr>tree_weave := demo_weave\<rparr>)
       (Some atomB) ''new'' Undefined Undefined False = Some (Inr r, t') \<and> results r = [AtomAdded a] \<and>
     weave_chains (tree_weave t') = Some [[atomR, atomD, atomA, atomB, a]]"
proof -
  let ?t = "(new_tree ''u'' (Some ''z'') (Some 9) None)\<lparr>tree_weave := demo_weave\<rparr>"
  have "weave_chains (tree_weave ?t) = Some ([] @ ([atomR, atomD, atomA] @ atomB # []) # [])" by (simp add: demo)
  moreover have "site_ahead (editing_site ?t False) (concat ([] @ ([atomR, atomD, atomA] @ atomB # []) # []))"
    by code_simp
  ultimately show ?thesis
    using local_edit_succeeds[of ?t "[]" "[atomR, atomD, atomA]" atomB "[]" "[]" False demo_hash "''new''" Undefined Undefined]
      demo_weave_ok by fastforce
qed

section \<open>Indexes and differences\<close>

text \<open>C9: Index exchange: applying the difference between two indexes to the first one's atoms gives
  the second one's atoms, when \<^verbatim>\<open>getHash\<close> does not collide and atoms with one hash have one id.\<close>

theorem index_diff_applies:
  assumes "inj getHash" and "hash_consistent (set as \<union> set bs)"
  shows "apply_diff (calculateDiff (createIndex getHash as) (createIndex getHash bs)) (index_atoms (createIndex getHash as))
    = map_of (index_atoms (createIndex getHash bs))"
  using apply_calculateDiff[OF assms] by (simp add: createIndex_def)

lemma index_diff_applies_witness:
  "apply_diff (calculateDiff (createIndex joined [atomR, atomA]) (createIndex joined [atomR, atomD]))
     (index_atoms (createIndex joined [atomR, atomA])) = map_of (index_atoms (createIndex joined [atomR, atomD]))"
proof (rule index_diff_applies[OF joined_inj])
  show "hash_consistent (set [atomR, atomA] \<union> set [atomR, atomD])"
    unfolding hash_consistent_def by code_simp
qed

text \<open>The batch difference of results that add one atom each holds exactly the added atoms, one per
  hash, and no deletion.\<close>

theorem batch_of_additions:
  assumes "list_all adds_one rs"
  shows "\<exists>d. batchDiff w rs = Some d \<and> ahash ` set (full_additions d) = ahash ` set (addedAtoms rs) \<and>
    distinct (map ahash (full_additions d)) \<and> full_deletions d = []"
  by (rule batchDiff_adds[OF assms])

lemma batch_of_additions_witness:
  "\<exists>d. batchDiff demo_weave [AtomAdded atomR, Conflict atomA atomB None, AtomAdded atomA] = Some d \<and>
    distinct (map ahash (full_additions d))"
  using batch_of_additions[of "[AtomAdded atomR, Conflict atomA atomB None, AtomAdded atomA]" demo_weave]
  by (auto simp: adds_one_def)

end
