(* ===== verification/Permissions.thy ===== *)
theory Permissions
  imports Prelude
begin

text \<open>
  Permissions and policy documents: \<^verbatim>\<open>src/src/aux-records/PolicyPermissions.ts\<close>. The source has one
  interface per kind of permission; the kinds that share their fields share a constructor here, with
  the action as an argument.
\<close>

section \<open>Times\<close>

text \<open>A time or a duration in milliseconds, which may be \<^verbatim>\<open>Infinity\<close>.\<close>

datatype js_time = Finite int | Infinity

instantiation js_time :: linorder
begin

definition less_eq_js_time :: "js_time \<Rightarrow> js_time \<Rightarrow> bool" where
  "less_eq_js_time a b = (case (a, b) of (_, Infinity) \<Rightarrow> True | (Infinity, Finite _) \<Rightarrow> False | (Finite x, Finite y) \<Rightarrow> x \<le> y)"

definition less_js_time :: "js_time \<Rightarrow> js_time \<Rightarrow> bool" where
  "less_js_time a b = (case (a, b) of (Infinity, _) \<Rightarrow> False | (Finite _, Infinity) \<Rightarrow> True | (Finite x, Finite y) \<Rightarrow> x < y)"

instance
  by standard (auto simp: less_eq_js_time_def less_js_time_def split: js_time.splits)

end

lemma js_time_simps [simp]:
  "Finite x \<le> Finite y \<longleftrightarrow> x \<le> y" "t \<le> Infinity" "Infinity \<le> Finite y \<longleftrightarrow> False"
  "Finite x < Finite y \<longleftrightarrow> x < y" "Finite x < Infinity" "Infinity < t \<longleftrightarrow> False"
  by (auto simp: less_eq_js_time_def less_js_time_def split: js_time.splits)

fun minus_now :: "js_time \<Rightarrow> int \<Rightarrow> js_time" where
  "minus_now (Finite t) now = Finite (t - now)"
| "minus_now Infinity now = Infinity"

section \<open>Permissions\<close>

text \<open>A role is a name, or \<^verbatim>\<open>true\<close>: everyone.\<close>

datatype role_name = Everyone | Role string

text \<open>The values that a permission covers: \<^verbatim>\<open>true\<close>, or a regular expression.\<close>

datatype pattern = AnyValue | Regex string

datatype data_action = DataCreate | DataRead | DataUpdate | DataDelete | DataList
datatype file_action = FileCreate | FileRead | FileUpdate | FileDelete
datatype event_action = EventIncrement | EventCount | EventUpdate
datatype policy_action =
  PolicyRead | PolicyGrantPermission | PolicyRevokePermission | PolicyList | PolicyAssign | PolicyUnassign
datatype role_action = RoleGrant | RoleRevoke | RoleRead | RoleList | RoleUpdate

text \<open>The \<^verbatim>\<open>type\<close> of a permission.\<close>

datatype permission_type =
    TData data_action
  | TFile file_action
  | TEvent event_action
  | TPolicy policy_action
  | TRole role_action
  | TRecordKeyCreate

text \<open>\<^verbatim>\<open>allowedMimeTypes?: true | string[]\<close>, \<^verbatim>\<open>userIds: string[] | boolean\<close> and
  \<^verbatim>\<open>instances: string | boolean\<close>; the last two may be missing at run time.\<close>

datatype mime_types = AllMimeTypes | MimeTypes "string list"
datatype user_ids = AllUsers | NoUsers | UserIds "string list"
datatype inst_names = AllInsts | NoInsts | InstRegex string

datatype available_permission =
    DataPermission data_action role_name pattern
  | FilePermission file_action role_name "int option" "mime_types option"
  | EventPermission event_action role_name pattern
  | PolicyPermission policy_action role_name pattern
  | GrantRolePermission role_name pattern "user_ids option" "inst_names option" "int option"
  | RevokeRolePermission role_name pattern "user_ids option" "inst_names option"
  | ReadRolePermission role_name pattern
  | ListRolesPermission role_name pattern
  | UpdateRolePermission role_name pattern
  | CreateRecordKeyPermission role_name pattern

fun perm_role :: "available_permission \<Rightarrow> role_name" where
  "perm_role (DataPermission _ r _) = r"
| "perm_role (FilePermission _ r _ _) = r"
| "perm_role (EventPermission _ r _) = r"
| "perm_role (PolicyPermission _ r _) = r"
| "perm_role (GrantRolePermission r _ _ _ _) = r"
| "perm_role (RevokeRolePermission r _ _ _) = r"
| "perm_role (ReadRolePermission r _) = r"
| "perm_role (ListRolesPermission r _) = r"
| "perm_role (UpdateRolePermission r _) = r"
| "perm_role (CreateRecordKeyPermission r _) = r"

fun perm_type :: "available_permission \<Rightarrow> permission_type" where
  "perm_type (DataPermission a _ _) = TData a"
| "perm_type (FilePermission a _ _ _) = TFile a"
| "perm_type (EventPermission a _ _) = TEvent a"
| "perm_type (PolicyPermission a _ _) = TPolicy a"
| "perm_type (GrantRolePermission _ _ _ _ _) = TRole RoleGrant"
| "perm_type (RevokeRolePermission _ _ _ _) = TRole RoleRevoke"
| "perm_type (ReadRolePermission _ _) = TRole RoleRead"
| "perm_type (ListRolesPermission _ _) = TRole RoleList"
| "perm_type (UpdateRolePermission _ _) = TRole RoleUpdate"
| "perm_type (CreateRecordKeyPermission _ _) = TRecordKeyCreate"

type_synonym policy_document = "available_permission list"

section \<open>Default policies\<close>

definition ADMIN_ROLE_NAME :: string where "ADMIN_ROLE_NAME = ''admin''"
definition RECORD_OWNER_ROLE_NAME :: string where "RECORD_OWNER_ROLE_NAME = ''recordOwner''"
definition PUBLIC_READ_MARKER :: string where "PUBLIC_READ_MARKER = ''publicRead''"
definition ACCOUNT_MARKER :: string where "ACCOUNT_MARKER = ''account''"

abbreviation admin :: role_name where "admin \<equiv> Role ADMIN_ROLE_NAME"

definition DEFAULT_ANY_RESOURCE_POLICY_DOCUMENT :: policy_document where
  "DEFAULT_ANY_RESOURCE_POLICY_DOCUMENT =
     [DataPermission DataCreate admin AnyValue,
      DataPermission DataRead admin AnyValue,
      DataPermission DataUpdate admin AnyValue,
      DataPermission DataDelete admin AnyValue,
      DataPermission DataList admin AnyValue,
      FilePermission FileCreate admin None None,
      FilePermission FileRead admin None None,
      FilePermission FileDelete admin None None,
      FilePermission FileUpdate admin None None,
      EventPermission EventIncrement admin AnyValue,
      EventPermission EventCount admin AnyValue,
      EventPermission EventUpdate admin AnyValue,
      PolicyPermission PolicyGrantPermission admin AnyValue,
      PolicyPermission PolicyRevokePermission admin AnyValue,
      PolicyPermission PolicyAssign admin AnyValue,
      PolicyPermission PolicyUnassign admin AnyValue,
      PolicyPermission PolicyList admin AnyValue,
      PolicyPermission PolicyRead admin AnyValue,
      GrantRolePermission admin AnyValue (Some AllUsers) (Some AllInsts) None,
      RevokeRolePermission admin AnyValue (Some AllUsers) (Some AllInsts),
      ReadRolePermission admin AnyValue,
      ListRolesPermission admin AnyValue,
      UpdateRolePermission admin AnyValue,
      CreateRecordKeyPermission (Role RECORD_OWNER_ROLE_NAME) AnyValue]"

definition DEFAULT_PUBLIC_READ_POLICY_DOCUMENT :: policy_document where
  "DEFAULT_PUBLIC_READ_POLICY_DOCUMENT =
     [DataPermission DataRead Everyone AnyValue,
      DataPermission DataList Everyone AnyValue,
      FilePermission FileRead Everyone None None,
      EventPermission EventCount Everyone AnyValue]"

section \<open>Filters\<close>

text \<open>
  The filters of \<^verbatim>\<open>PolicyController.ts\<close> that look at the permission itself. \<open>rx\<close> is \<^verbatim>\<open>_testRegex\<close>:
  whether a regular expression matches, false if it is not one.
\<close>

type_synonym regex_test = "string \<Rightarrow> string \<Rightarrow> bool"

fun covers :: "regex_test \<Rightarrow> pattern \<Rightarrow> string \<Rightarrow> bool" where
  "covers rx AnyValue v = True"
| "covers rx (Regex r) v = rx r v"

definition byData :: "regex_test \<Rightarrow> data_action \<Rightarrow> string \<Rightarrow> available_permission \<Rightarrow> bool" where
  "byData rx t address p = (case p of DataPermission a _ addresses \<Rightarrow> a = t \<and> covers rx addresses address | _ \<Rightarrow> False)"

text \<open>The MIME type is \<^verbatim>\<open>null\<close> where the name of the file does not tell it.\<close>

definition byFile :: "file_action \<Rightarrow> int \<Rightarrow> string option \<Rightarrow> available_permission \<Rightarrow> bool" where
  "byFile t bytes mime p =
     (case p of
        FilePermission a _ maxSize mimes \<Rightarrow>
          a = t \<and> (case maxSize of Some m \<Rightarrow> \<not> bytes > m | None \<Rightarrow> True)
          \<and> (case mimes of Some (MimeTypes ms) \<Rightarrow> mime \<in> Some ` set ms | _ \<Rightarrow> True)
      | _ \<Rightarrow> False)"

definition byEvent :: "regex_test \<Rightarrow> event_action \<Rightarrow> string \<Rightarrow> available_permission \<Rightarrow> bool" where
  "byEvent rx t eventName p = (case p of EventPermission a _ events \<Rightarrow> a = t \<and> covers rx events eventName | _ \<Rightarrow> False)"

definition byPolicy :: "regex_test \<Rightarrow> policy_action \<Rightarrow> string \<Rightarrow> available_permission \<Rightarrow> bool" where
  "byPolicy rx t m p = (case p of PolicyPermission a _ policies \<Rightarrow> a = t \<and> covers rx policies m | _ \<Rightarrow> False)"

definition byRoleRead :: "regex_test \<Rightarrow> string \<Rightarrow> available_permission \<Rightarrow> bool" where
  "byRoleRead rx r p = (case p of ReadRolePermission _ roles \<Rightarrow> covers rx roles r | _ \<Rightarrow> False)"

definition byPolicyList :: "available_permission \<Rightarrow> bool" where
  "byPolicyList p = (case p of PolicyPermission PolicyList _ policies \<Rightarrow> policies = AnyValue | _ \<Rightarrow> False)"

definition byRoleList :: "available_permission \<Rightarrow> bool" where
  "byRoleList p = (case p of ListRolesPermission _ roles \<Rightarrow> roles = AnyValue | _ \<Rightarrow> False)"

text \<open>
  Exactly one of a user and an instance may be the target; an empty target counts as none.
\<close>

definition target_allowed ::
    "regex_test \<Rightarrow> user_ids option \<Rightarrow> inst_names option \<Rightarrow> string option \<Rightarrow> string option \<Rightarrow> bool" where
  "target_allowed rx userIds instances user inst =
     (if given user \<and> given inst then False
      else if given user then
        (case userIds of Some NoUsers \<Rightarrow> False | Some (UserIds ids) \<Rightarrow> the user \<in> set ids | _ \<Rightarrow> True)
      else if given inst then
        (case instances of Some NoInsts \<Rightarrow> False | Some (InstRegex r) \<Rightarrow> rx r (the inst) | _ \<Rightarrow> True)
      else False)"

definition byRoleGrant ::
    "regex_test \<Rightarrow> string \<Rightarrow> string option \<Rightarrow> string option \<Rightarrow> js_time \<Rightarrow> available_permission \<Rightarrow> bool" where
  "byRoleGrant rx r user inst duration p =
     (case p of
        GrantRolePermission _ roles userIds instances maxDuration \<Rightarrow>
          (case maxDuration of Some m \<Rightarrow> \<not> duration > Finite m | None \<Rightarrow> True)
          \<and> target_allowed rx userIds instances user inst \<and> covers rx roles r
      | _ \<Rightarrow> False)"

definition byRoleRevoke ::
    "regex_test \<Rightarrow> string \<Rightarrow> string option \<Rightarrow> string option \<Rightarrow> available_permission \<Rightarrow> bool" where
  "byRoleRevoke rx r user inst p =
     (case p of
        RevokeRolePermission _ roles userIds instances \<Rightarrow>
          target_allowed rx userIds instances user inst \<and> covers rx roles r
      | _ \<Rightarrow> False)"

lemma filter_types:
  "byData rx t x p \<Longrightarrow> perm_type p = TData t"
  "byFile u n m p \<Longrightarrow> perm_type p = TFile u"
  "byEvent rx v x p \<Longrightarrow> perm_type p = TEvent v"
  "byPolicy rx w x p \<Longrightarrow> perm_type p = TPolicy w"
  "byPolicyList p \<Longrightarrow> perm_type p = TPolicy PolicyList"
  "byRoleRead rx x p \<Longrightarrow> perm_type p = TRole RoleRead"
  "byRoleList p \<Longrightarrow> perm_type p = TRole RoleList"
  "byRoleGrant rx x us is d p \<Longrightarrow> perm_type p = TRole RoleGrant"
  "byRoleRevoke rx x us is p \<Longrightarrow> perm_type p = TRole RoleRevoke"
  by (cases p; simp add: byData_def byFile_def byEvent_def byPolicy_def byRoleRead_def byRoleList_def
      byRoleGrant_def byRoleRevoke_def byPolicyList_def split: policy_action.splits)+

text \<open>A grant of a role for longer than a permission allows is not covered by it.\<close>

lemma byRoleGrant_duration:
  "byRoleGrant rx r user inst d (GrantRolePermission q roles us is (Some m)) \<Longrightarrow> d \<le> Finite m"
  by (simp add: byRoleGrant_def not_less)

lemma target_allowed_one: "target_allowed rx us is user inst \<Longrightarrow> given user \<noteq> given inst"
  by (auto simp: target_allowed_def split: if_splits)

section \<open>What the request schema keeps\<close>

text \<open>
  \<^verbatim>\<open>AVAILABLE_PERMISSIONS_VALIDATION\<close>, the schema that \<^verbatim>\<open>RecordsHttpServer.ts\<close> parses a permission with
  before it is granted or revoked. The objects are not strict: a field that the schema does not
  list is dropped. \<open>None\<close>: the type of the permission is not in the union.
\<close>

definition validate_permission :: "available_permission \<Rightarrow> available_permission option" where
  "validate_permission p =
     (case p of
        DataPermission _ _ _ \<Rightarrow> Some p
      | FilePermission _ _ maxSize _ \<Rightarrow>
          (case maxSize of Some m \<Rightarrow> if m < 0 then None else Some p | None \<Rightarrow> Some p)
      | EventPermission _ _ _ \<Rightarrow> Some p
      | PolicyPermission _ _ _ \<Rightarrow> Some p
      | GrantRolePermission r roles _ _ _ \<Rightarrow> Some (GrantRolePermission r roles None None None)
      | RevokeRolePermission r roles _ _ \<Rightarrow> Some (RevokeRolePermission r roles None None)
      | ListRolesPermission _ _ \<Rightarrow> Some p
      | ReadRolePermission _ _ \<Rightarrow> None
      | UpdateRolePermission _ _ \<Rightarrow> None
      | CreateRecordKeyPermission _ _ \<Rightarrow> None)"

text \<open>
  So the limits of a permission to grant roles do not survive the schema: a permission for one user
  and one hour becomes a permission for every user, every instance and any time.
\<close>

lemma validation_drops_limits:
  "validate_permission (GrantRolePermission q AnyValue us is m) = Some (GrantRolePermission q AnyValue None None None)"
  "given user \<noteq> given inst \<Longrightarrow> byRoleGrant rx r user inst d (GrantRolePermission q AnyValue None None None)"
  by (auto simp: validate_permission_def byRoleGrant_def target_allowed_def)

end
