(* ===== verification/RecordKeys.thy ===== *)
theory RecordKeys
  imports Prelude
begin

text \<open>
  Record keys: the functions at the end of \<^verbatim>\<open>src/src/aux-records/RecordsController.ts\<close>. A record key is
  a text that joins a version, the name of a record, a secret and, in the second version, a policy.

  \<^verbatim>\<open>toBase64String\<close> and \<^verbatim>\<open>fromBase64String\<close> (\<^verbatim>\<open>Utils.ts\<close>, on top of the package \<^verbatim>\<open>base64-js\<close> and the
  platform's text codecs) are parameters; decoding fails (\<open>None\<close>) where it throws.
\<close>

section \<open>Strings\<close>

text \<open>\<^verbatim>\<open>indexOf\<close> of one character and \<^verbatim>\<open>slice\<close> at it.\<close>

fun indexOf :: "char \<Rightarrow> string \<Rightarrow> nat option" where
  "indexOf c [] = None"
| "indexOf c (x # xs) = (if x = c then Some 0 else map_option Suc (indexOf c xs))"

definition startsWith :: "string \<Rightarrow> string \<Rightarrow> bool" where
  "startsWith s p \<longleftrightarrow> take (length p) s = p"

lemma indexOf_append [simp]: "c \<notin> set xs \<Longrightarrow> indexOf c (xs @ c # ys) = Some (length xs)"
  by (induction xs) auto

lemma indexOf_None_iff: "indexOf c s = None \<longleftrightarrow> c \<notin> set s"
  by (induction s) auto

section \<open>Formatting and parsing\<close>

definition DEFAULT_RECORD_KEY_POLICY :: string where
  "DEFAULT_RECORD_KEY_POLICY = ''subjectfull''"

definition formatV1RecordKey :: "(string \<Rightarrow> string) \<Rightarrow> string \<Rightarrow> string \<Rightarrow> string" where
  "formatV1RecordKey to64 recordName recordSecret = ''vRK1.'' @ to64 recordName @ ''.'' @ to64 recordSecret"

definition formatV2RecordKey :: "(string \<Rightarrow> string) \<Rightarrow> string \<Rightarrow> string \<Rightarrow> string option \<Rightarrow> string" where
  "formatV2RecordKey to64 recordName recordSecret keyPolicy =
     ''vRK2.'' @ to64 recordName @ ''.'' @ to64 recordSecret @ ''.''
     @ (case keyPolicy of None \<Rightarrow> DEFAULT_RECORD_KEY_POLICY | Some p \<Rightarrow> p)"

text \<open>A parsed key is a name, a password and a policy.\<close>

definition parseV2RecordKey ::
    "(string \<Rightarrow> string option) \<Rightarrow> string \<Rightarrow> (string \<times> string \<times> string) option" where
  "parseV2RecordKey from64 key =
     (if key = [] then None
      else if \<not> startsWith key ''vRK2.'' then None
      else let withoutVersion = drop 5 key in
        (case indexOf CHR ''.'' withoutVersion of
           None \<Rightarrow> None
         | Some periodAfterName \<Rightarrow>
             let nameBase64 = take periodAfterName withoutVersion;
                 passwordPlusPolicy = drop (periodAfterName + 1) withoutVersion in
             (if nameBase64 = [] \<or> passwordPlusPolicy = [] then None
              else (case indexOf CHR ''.'' passwordPlusPolicy of
                 None \<Rightarrow> None
               | Some periodAfterPassword \<Rightarrow>
                   let passwordBase64 = take periodAfterPassword passwordPlusPolicy;
                       policy = drop (periodAfterPassword + 1) passwordPlusPolicy in
                   (if passwordBase64 = [] \<or> policy = [] then None
                    else if policy \<noteq> ''subjectfull'' \<and> policy \<noteq> ''subjectless'' then None
                    else do { name \<leftarrow> from64 nameBase64;
                              password \<leftarrow> from64 passwordBase64;
                              Some (name, password, policy) })))))"

definition parseV1RecordKey ::
    "(string \<Rightarrow> string option) \<Rightarrow> string \<Rightarrow> (string \<times> string \<times> string) option" where
  "parseV1RecordKey from64 key =
     (if key = [] then None
      else if \<not> startsWith key ''vRK1.'' then None
      else let withoutVersion = drop 5 key in
        (case indexOf CHR ''.'' withoutVersion of
           None \<Rightarrow> None
         | Some nextPeriod \<Rightarrow>
             let nameBase64 = take nextPeriod withoutVersion;
                 passwordBase64 = drop (nextPeriod + 1) withoutVersion in
             (if nameBase64 = [] \<or> passwordBase64 = [] then None
              else do { name \<leftarrow> from64 nameBase64;
                        password \<leftarrow> from64 passwordBase64;
                        Some (name, password, DEFAULT_RECORD_KEY_POLICY) })))"

definition parseRecordKey ::
    "(string \<Rightarrow> string option) \<Rightarrow> string \<Rightarrow> (string \<times> string \<times> string) option" where
  "parseRecordKey from64 key =
     (case parseV2RecordKey from64 key of Some k \<Rightarrow> Some k | None \<Rightarrow> parseV1RecordKey from64 key)"

definition isRecordKey :: "(string \<Rightarrow> string option) \<Rightarrow> string \<Rightarrow> bool" where
  "isRecordKey from64 key \<longleftrightarrow> parseRecordKey from64 key \<noteq> None"

section \<open>Round trips\<close>

text \<open>
  What the code relies on of base64: decoding inverts encoding, the alphabet has no period, and only
  the empty text has an empty encoding.
\<close>

definition base64_ok :: "(string \<Rightarrow> string) \<Rightarrow> (string \<Rightarrow> string option) \<Rightarrow> bool" where
  "base64_ok to64 from64 \<longleftrightarrow>
     (\<forall>s. from64 (to64 s) = Some s \<and> CHR ''.'' \<notin> set (to64 s) \<and> (to64 s = [] \<longrightarrow> s = []))"

lemma base64_okD:
  assumes "base64_ok to64 from64"
  shows "from64 (to64 s) = Some s" "CHR ''.'' \<notin> set (to64 s)" "s \<noteq> [] \<Longrightarrow> to64 s \<noteq> []"
  using assms by (auto simp: base64_ok_def)

lemma parse_formatV2:
  assumes "base64_ok to64 from64" and "n \<noteq> []" and "p \<noteq> []"
    and "k = ''subjectfull'' \<or> k = ''subjectless''"
  shows "parseRecordKey from64 (formatV2RecordKey to64 n p (Some k)) = Some (n, p, k)"
  using base64_okD[OF assms(1)] assms(2-4)
  by (auto simp: parseRecordKey_def parseV2RecordKey_def formatV2RecordKey_def startsWith_def Let_def)

lemma parse_formatV2_default:
  assumes "base64_ok to64 from64" and "n \<noteq> []" and "p \<noteq> []"
  shows "parseRecordKey from64 (formatV2RecordKey to64 n p None) = Some (n, p, ''subjectfull'')"
  using parse_formatV2[OF assms, of "''subjectfull''"]
  by (simp add: formatV2RecordKey_def DEFAULT_RECORD_KEY_POLICY_def)

lemma parse_formatV1:
  assumes "base64_ok to64 from64" and "n \<noteq> []" and "p \<noteq> []"
  shows "parseRecordKey from64 (formatV1RecordKey to64 n p) = Some (n, p, ''subjectfull'')"
  using base64_okD[OF assms(1)] assms(2,3)
  by (auto simp: parseRecordKey_def parseV2RecordKey_def parseV1RecordKey_def formatV1RecordKey_def
      startsWith_def Let_def DEFAULT_RECORD_KEY_POLICY_def)

lemma indexOf_split:
  "indexOf c s = Some i \<Longrightarrow> c \<notin> set (take i s) \<and> s = take i s @ c # drop (Suc i) s"
  by (induction s arbitrary: i) (auto split: if_splits)

text \<open>Whatever parses is a key of one of the two versions, up to the encoding of its parts.\<close>

lemma parseV2_shape:
  assumes "parseV2RecordKey from64 key = Some (n, p, k)"
  shows "\<exists>n64 p64. key = ''vRK2.'' @ n64 @ ''.'' @ p64 @ ''.'' @ k \<and> from64 n64 = Some n \<and>
    from64 p64 = Some p \<and> (k = ''subjectfull'' \<or> k = ''subjectless'')"
proof -
  let ?w = "drop 5 key"
  have "startsWith key ''vRK2.''"
    using assms by (simp add: parseV2RecordKey_def split: if_splits)
  then have "take 5 key = ''vRK2.''" by (simp add: startsWith_def numeral_eq_Suc)
  then have pre: "key = ''vRK2.'' @ ?w" by (metis append_take_drop_id)
  obtain i where i: "indexOf CHR ''.'' ?w = Some i"
    using assms by (auto simp: parseV2RecordKey_def Let_def split: if_splits option.splits)
  obtain j where j: "indexOf CHR ''.'' (drop (Suc i) ?w) = Some j"
    using assms i by (auto simp: parseV2RecordKey_def Let_def split: if_splits option.splits)
  have parts: "from64 (take i ?w) = Some n" "from64 (take j (drop (Suc i) ?w)) = Some p"
    "k = drop (Suc j) (drop (Suc i) ?w)" "k = ''subjectfull'' \<or> k = ''subjectless''"
    using assms i j by (auto simp: parseV2RecordKey_def Let_def Option.bind_eq_Some_conv split: if_splits)
  have "?w = take i ?w @ ''.'' @ take j (drop (Suc i) ?w) @ ''.'' @ k"
    using indexOf_split[OF i] indexOf_split[OF j] parts(3) by (metis append_Cons append_Nil)
  with pre parts show ?thesis by metis
qed

section \<open>A concrete codec\<close>

definition letter :: "nat \<Rightarrow> char" where "letter n = char_of (97 + n)"

definition letters :: "string \<Rightarrow> string" where
  "letters s = concat (map (\<lambda>c. [letter (of_char c div 16), letter (of_char c mod 16)]) s)"

fun unletters :: "string \<Rightarrow> string option" where
  "unletters [] = Some []"
| "unletters [c] = None"
| "unletters (c # d # s) =
     map_option (Cons (char_of (16 * ((of_char c :: nat) - 97) + ((of_char d :: nat) - 97)))) (unletters s)"

lemma of_char_letter: "n < 16 \<Longrightarrow> (of_char (letter n) :: nat) = 97 + n"
proof -
  assume "n < 16"
  then have "(97 + n) mod 256 = 97 + n" by simp
  then show ?thesis by (simp only: letter_def of_char_of)
qed

lemma code_parts: "(of_char (c :: char) :: nat) div 16 < 16" "(of_char c :: nat) mod 16 < 16"
  using of_char_mod_256[of c, where 'a = nat] by (auto simp: less_mult_imp_div_less)

lemma unletters_letters: "unletters (letters s) = Some s"
  by (induction s) (simp_all add: letters_def of_char_letter code_parts)

lemma letter_not_period: "n < 16 \<Longrightarrow> letter n \<noteq> CHR ''.''"
  using of_char_letter[of n] by auto

lemma letters_ok: "base64_ok letters unletters"
proof -
  have no_period: "CHR ''.'' \<notin> {letter (of_char c div 16), letter (of_char c mod 16)}" for c :: char
    using letter_not_period[OF code_parts(1)[of c]] letter_not_period[OF code_parts(2)[of c]] by (metis empty_iff insert_iff)
  have "CHR ''.'' \<notin> set (letters s)" for s
    using no_period by (induction s) (simp_all add: letters_def)
  moreover have "letters s = [] \<longrightarrow> s = []" for s
    by (cases s) (simp_all add: letters_def)
  ultimately show ?thesis by (simp add: base64_ok_def unletters_letters)
qed

end
