(* ===== verification/Records.thy ===== *)
theory Records
  imports RecordKeys
begin

text \<open>
  Records and their keys: \<^verbatim>\<open>src/src/aux-records/RecordsController.ts\<close> over the interface
  \<^verbatim>\<open>RecordsStore.ts\<close>, with the implementation \<^verbatim>\<open>MemoryRecordsStore.ts\<close>.

  The store is a state with operations that the controller is given (\<open>records_ops\<close>); an operation
  that throws is \<open>None\<close>. The hash functions of \<^verbatim>\<open>@casual-simulation/crypto\<close> and the random
  password and salt are parameters. A failure is its error code: the code also sends a message and a
  reason that the error code determines.
\<close>

section \<open>Errors\<close>

datatype error_code =
    NotLoggedIn
  | NotAuthorized
  | ActionNotSupported
  | UnacceptableRequest
  | ServerError
  | InvalidPolicy
  | UnauthorizedToCreateRecordKey
  | InvalidRecordKey
  | RecordNotFound
  | PolicyNotFound
  | PolicyTooLarge
  | RolesTooLarge
  | DataNotFound
  | DataTooLarge
  | InvalidUpdatePolicy
  | InvalidDeletePolicy
  | FileNotFound
  | FileAlreadyExists
  | UnacceptableUrl

section \<open>The store\<close>

record record_entry =
  rec_name :: string
  ownerId :: string
  secretHashes :: "string list"
  secretSalt :: string

record record_key =
  key_recordName :: string
  secretHash :: string
  key_policy :: string
  creatorId :: string

text \<open>The interface \<^verbatim>\<open>RecordsStore\<close>. (\<^verbatim>\<open>updateRecord\<close> is not used by the controller.)\<close>

record 'r records_ops =
  getRecordByName :: "'r \<Rightarrow> string \<Rightarrow> record_entry option option"
  addRecord :: "'r \<Rightarrow> record_entry \<Rightarrow> 'r option"
  addRecordKey :: "'r \<Rightarrow> record_key \<Rightarrow> 'r option"
  getRecordKeyByRecordAndHash :: "'r \<Rightarrow> string \<Rightarrow> string \<Rightarrow> record_key option option"

record memory_records =
  mem_records :: "record_entry list"
  mem_recordKeys :: "record_key list"

definition mem_getRecordByName :: "memory_records \<Rightarrow> string \<Rightarrow> record_entry option" where
  "mem_getRecordByName s n = find (\<lambda>e. rec_name e = n) (mem_records s)"

fun replace_record :: "record_entry \<Rightarrow> record_entry list \<Rightarrow> record_entry list" where
  "replace_record e [] = []"
| "replace_record e (x # xs) = (if rec_name x = rec_name e then e # xs else x # replace_record e xs)"

definition mem_updateRecord :: "memory_records \<Rightarrow> record_entry \<Rightarrow> memory_records" where
  "mem_updateRecord s e = s\<lparr>mem_records := replace_record e (mem_records s)\<rparr>"

definition mem_addRecord :: "memory_records \<Rightarrow> record_entry \<Rightarrow> memory_records" where
  "mem_addRecord s e =
     (if find (\<lambda>x. rec_name x = rec_name e) (mem_records s) = None
      then s\<lparr>mem_records := mem_records s @ [e]\<rparr> else s)"

definition mem_addRecordKey :: "memory_records \<Rightarrow> record_key \<Rightarrow> memory_records" where
  "mem_addRecordKey s k =
     (if find (\<lambda>x. key_recordName x = key_recordName k \<and> secretHash x = secretHash k) (mem_recordKeys s) = None
      then s\<lparr>mem_recordKeys := mem_recordKeys s @ [k]\<rparr> else s)"

definition mem_getRecordKeyByRecordAndHash :: "memory_records \<Rightarrow> string \<Rightarrow> string \<Rightarrow> record_key option" where
  "mem_getRecordKeyByRecordAndHash s n h =
     find (\<lambda>x. key_recordName x = n \<and> secretHash x = h) (mem_recordKeys s)"

definition memory_records_ops :: "memory_records records_ops" where
  "memory_records_ops =
     \<lparr>getRecordByName = (\<lambda>s n. Some (mem_getRecordByName s n)),
      addRecord = (\<lambda>s e. Some (mem_addRecord s e)),
      addRecordKey = (\<lambda>s k. Some (mem_addRecordKey s k)),
      getRecordKeyByRecordAndHash = (\<lambda>s n h. Some (mem_getRecordKeyByRecordAndHash s n h))\<rparr>"

section \<open>The controller\<close>

record key_codec =
  to64 :: "string \<Rightarrow> string"
  from64 :: "string \<Rightarrow> string option"
  hashV2 :: "string \<Rightarrow> string \<Rightarrow> string"
  hashV1 :: "string \<Rightarrow> string \<Rightarrow> string"

text \<open>\<^verbatim>\<open>!!policy && policy !== 'subjectfull' && policy !== 'subjectless'\<close>.\<close>

definition bad_key_policy :: "string option \<Rightarrow> bool" where
  "bad_key_policy p =
     (case p of None \<Rightarrow> False | Some s \<Rightarrow> s \<noteq> [] \<and> s \<noteq> ''subjectfull'' \<and> s \<noteq> ''subjectless'')"

definition stored_policy :: "string option \<Rightarrow> string" where
  "stored_policy p = (case p of None \<Rightarrow> DEFAULT_RECORD_KEY_POLICY | Some s \<Rightarrow> s)"

text \<open>The result is the record key and the record's name, with the store that the call leaves.\<close>

definition createPublicRecordKey ::
    "key_codec \<Rightarrow> 'r records_ops \<Rightarrow> string \<Rightarrow> string \<Rightarrow> 'r \<Rightarrow> string \<Rightarrow> string option \<Rightarrow> string
      \<Rightarrow> (error_code + string \<times> string) \<times> 'r" where
  "createPublicRecordKey cd ops password newSalt s n policy userId =
     (if userId = [] then (Inl NotLoggedIn, s)
      else (case getRecordByName ops s n of
         None \<Rightarrow> (Inl ServerError, s)
       | Some found \<Rightarrow>
           if bad_key_policy policy then (Inl InvalidPolicy, s)
           else (case found of
             Some e \<Rightarrow>
               if ownerId e \<noteq> userId then (Inl UnauthorizedToCreateRecordKey, s)
               else (case addRecordKey ops s
                   \<lparr>key_recordName = n, secretHash = hashV2 cd password (secretSalt e),
                    key_policy = stored_policy policy, creatorId = ownerId e\<rparr> of
                 None \<Rightarrow> (Inl ServerError, s)
               | Some s1 \<Rightarrow> (Inr (formatV2RecordKey (to64 cd) n password policy, n), s1))
           | None \<Rightarrow>
               (case addRecord ops s \<lparr>rec_name = n, ownerId = userId, secretHashes = [], secretSalt = newSalt\<rparr> of
                 None \<Rightarrow> (Inl ServerError, s)
               | Some s1 \<Rightarrow>
                   (case addRecordKey ops s1
                       \<lparr>key_recordName = n, secretHash = hashV2 cd password newSalt,
                        key_policy = stored_policy policy, creatorId = userId\<rparr> of
                     None \<Rightarrow> (Inl ServerError, s1)
                   | Some s2 \<Rightarrow> (Inr (formatV2RecordKey (to64 cd) n password policy, n), s2))))))"

record valid_key =
  vk_recordName :: string
  vk_ownerId :: string
  vk_keyCreatorId :: string
  vk_policy :: string

text \<open>
  The check of the hashes: whether the password is valid, the policy of the key and its creator
  (\<^verbatim>\<open>null\<close> where the hash is one of the record's own); \<open>None\<close> when the store throws.
\<close>

definition checkHashes ::
    "key_codec \<Rightarrow> 'r records_ops \<Rightarrow> 'r \<Rightarrow> string \<Rightarrow> string \<Rightarrow> record_entry
      \<Rightarrow> (bool \<times> string \<times> string option) option" where
  "checkHashes cd ops s n password e =
     (let h2 = hashV2 cd password (secretSalt e) in
      if h2 \<in> set (secretHashes e) then Some (True, DEFAULT_RECORD_KEY_POLICY, Some (ownerId e))
      else do {
        k \<leftarrow> getRecordKeyByRecordAndHash ops s n h2;
        case k of Some k \<Rightarrow> Some (True, key_policy k, Some (creatorId k))
        | None \<Rightarrow>
            (let h1 = hashV1 cd password (secretSalt e) in
             if h1 \<in> set (secretHashes e) then Some (True, DEFAULT_RECORD_KEY_POLICY, None)
             else do {
               k' \<leftarrow> getRecordKeyByRecordAndHash ops s n h1;
               case k' of Some k' \<Rightarrow> Some (True, key_policy k', Some (creatorId k'))
               | None \<Rightarrow> Some (False, DEFAULT_RECORD_KEY_POLICY, None) }) })"

definition validatePublicRecordKey ::
    "key_codec \<Rightarrow> 'r records_ops \<Rightarrow> 'r \<Rightarrow> string \<Rightarrow> error_code + valid_key" where
  "validatePublicRecordKey cd ops s key =
     (case parseRecordKey (from64 cd) key of
        None \<Rightarrow> Inl InvalidRecordKey
      | Some (n, password, policy) \<Rightarrow>
          (case getRecordByName ops s n of
             None \<Rightarrow> Inl ServerError
           | Some None \<Rightarrow> Inl RecordNotFound
           | Some (Some e) \<Rightarrow>
               (case checkHashes cd ops s n password e of
                  None \<Rightarrow> Inl ServerError
                | Some (valid, resultPolicy, creator) \<Rightarrow>
                    if resultPolicy \<noteq> policy then Inl InvalidRecordKey
                    else if valid then
                      Inr \<lparr>vk_recordName = n, vk_ownerId = ownerId e,
                           vk_keyCreatorId = (case creator of Some c \<Rightarrow> c | None \<Rightarrow> ownerId e),
                           vk_policy = policy\<rparr>
                    else Inl InvalidRecordKey)))"

definition validateRecordName :: "'r records_ops \<Rightarrow> 'r \<Rightarrow> string \<Rightarrow> error_code + string \<times> string" where
  "validateRecordName ops s n =
     (case getRecordByName ops s n of
        None \<Rightarrow> Inl ServerError
      | Some None \<Rightarrow> Inl RecordNotFound
      | Some (Some e) \<Rightarrow> Inr (n, ownerId e))"

lemma policy_not_bad: "policy \<in> {None, Some ''subjectfull'', Some ''subjectless''} \<Longrightarrow> \<not> bad_key_policy policy"
  by (auto simp: bad_key_policy_def)

lemma parse_created:
  assumes "base64_ok (to64 cd) (from64 cd)" and "n \<noteq> []" and "pw \<noteq> []"
    and "policy \<in> {None, Some ''subjectfull'', Some ''subjectless''}"
  shows "parseRecordKey (from64 cd) (formatV2RecordKey (to64 cd) n pw policy) = Some (n, pw, stored_policy policy)"
proof (cases policy)
  case None
  with parse_formatV2_default[OF assms(1-3)] show ?thesis
    by (simp add: stored_policy_def DEFAULT_RECORD_KEY_POLICY_def)
next
  case (Some k)
  with assms(4) have "k = ''subjectfull'' \<or> k = ''subjectless''" by simp
  from parse_formatV2[OF assms(1-3) this] Some show ?thesis by (simp add: stored_policy_def)
qed

section \<open>The contract of the store\<close>

locale records_store =
  fixes ops :: "'r records_ops"
  assumes get_record: "\<exists>e. getRecordByName ops s n = Some e"
    and get_key: "\<exists>k. getRecordKeyByRecordAndHash ops s n h = Some k"
    and add_record:
      "getRecordByName ops s (rec_name e) = Some None \<Longrightarrow>
       \<exists>s'. addRecord ops s e = Some s' \<and>
         (\<forall>n. getRecordByName ops s' n = (if n = rec_name e then Some (Some e) else getRecordByName ops s n)) \<and>
         (\<forall>n h. getRecordKeyByRecordAndHash ops s' n h = getRecordKeyByRecordAndHash ops s n h)"
    and add_key:
      "getRecordKeyByRecordAndHash ops s (key_recordName k) (secretHash k) = Some None \<Longrightarrow>
       \<exists>s'. addRecordKey ops s k = Some s' \<and>
         (\<forall>n. getRecordByName ops s' n = getRecordByName ops s n) \<and>
         (\<forall>n h. getRecordKeyByRecordAndHash ops s' n h =
           (if n = key_recordName k \<and> h = secretHash k then Some (Some k) else getRecordKeyByRecordAndHash ops s n h))"
    and add_record_keeps:
      "addRecord ops s e = Some s' \<Longrightarrow> getRecordByName ops s n = Some (Some x) \<Longrightarrow> getRecordByName ops s' n = Some (Some x)"
    and add_key_keeps: "addRecordKey ops s k = Some s' \<Longrightarrow> getRecordByName ops s' n = getRecordByName ops s n"
begin

text \<open>A key that was just created for a new record is valid, for its owner and with its policy.\<close>

lemma created_key_valid_new:
  assumes codec: "base64_ok (to64 cd) (from64 cd)" and n: "n \<noteq> []" and pw: "pw \<noteq> []" and user: "u \<noteq> []"
    and policy: "policy \<in> {None, Some ''subjectfull'', Some ''subjectless''}"
    and new: "getRecordByName ops s n = Some None"
    and unused: "getRecordKeyByRecordAndHash ops s n (hashV2 cd pw salt) = Some None"
  shows "\<exists>key s'. createPublicRecordKey cd ops pw salt s n policy u = (Inr (key, n), s') \<and>
    validatePublicRecordKey cd ops s' key =
      Inr \<lparr>vk_recordName = n, vk_ownerId = u, vk_keyCreatorId = u, vk_policy = stored_policy policy\<rparr>"
proof -
  let ?e = "\<lparr>rec_name = n, ownerId = u, secretHashes = [], secretSalt = salt\<rparr>"
  let ?k = "\<lparr>key_recordName = n, secretHash = hashV2 cd pw salt, key_policy = stored_policy policy, creatorId = u\<rparr>"
  obtain s1 where s1: "addRecord ops s ?e = Some s1" "getRecordByName ops s1 n = Some (Some ?e)"
    "getRecordKeyByRecordAndHash ops s1 n (hashV2 cd pw salt) = Some None"
    using add_record[of s ?e] new unused by auto
  obtain s2 where s2: "addRecordKey ops s1 ?k = Some s2" "getRecordByName ops s2 n = Some (Some ?e)"
    "getRecordKeyByRecordAndHash ops s2 n (hashV2 cd pw salt) = Some (Some ?k)"
    using add_key[of s1 ?k] s1 by auto
  note parse = parse_created[OF codec n pw policy] and good = policy_not_bad[OF policy]
  have "createPublicRecordKey cd ops pw salt s n policy u =
      (Inr (formatV2RecordKey (to64 cd) n pw policy, n), s2)"
    using user good new s1(1) s2(1) by (simp add: createPublicRecordKey_def)
  moreover have "checkHashes cd ops s2 n pw ?e = Some (True, stored_policy policy, Some u)"
    using s2(3) by (simp add: checkHashes_def Let_def)
  ultimately show ?thesis
    using parse s2(2) by (simp add: validatePublicRecordKey_def)
qed

lemma created_key_valid_existing:
  assumes codec: "base64_ok (to64 cd) (from64 cd)" and n: "n \<noteq> []" and pw: "pw \<noteq> []" and user: "ownerId e \<noteq> []"
    and policy: "policy \<in> {None, Some ''subjectfull'', Some ''subjectless''}"
    and existing: "getRecordByName ops s n = Some (Some e)"
    and unused: "getRecordKeyByRecordAndHash ops s n (hashV2 cd pw (secretSalt e)) = Some None"
      "hashV2 cd pw (secretSalt e) \<notin> set (secretHashes e)"
  shows "\<exists>key s'. createPublicRecordKey cd ops pw salt s n policy (ownerId e) = (Inr (key, n), s') \<and>
    validatePublicRecordKey cd ops s' key =
      Inr \<lparr>vk_recordName = n, vk_ownerId = ownerId e, vk_keyCreatorId = ownerId e, vk_policy = stored_policy policy\<rparr>"
proof -
  let ?k = "\<lparr>key_recordName = n, secretHash = hashV2 cd pw (secretSalt e), key_policy = stored_policy policy,
    creatorId = ownerId e\<rparr>"
  obtain s2 where s2: "addRecordKey ops s ?k = Some s2" "getRecordByName ops s2 n = Some (Some e)"
    "getRecordKeyByRecordAndHash ops s2 n (hashV2 cd pw (secretSalt e)) = Some (Some ?k)"
    using add_key[of s ?k] existing unused(1) by auto
  note parse = parse_created[OF codec n pw policy] and good = policy_not_bad[OF policy]
  have "createPublicRecordKey cd ops pw salt s n policy (ownerId e) =
      (Inr (formatV2RecordKey (to64 cd) n pw policy, n), s2)"
    using user good existing s2(1) by (simp add: createPublicRecordKey_def)
  moreover have "checkHashes cd ops s2 n pw e = Some (True, stored_policy policy, Some (ownerId e))"
    using s2(3) unused(2) by (simp add: checkHashes_def Let_def)
  ultimately show ?thesis
    using parse s2(2) by (simp add: validatePublicRecordKey_def)
qed

text \<open>Creating a key never changes what other records are, nor takes a record away from its owner.\<close>

lemma create_keeps_records:
  assumes "createPublicRecordKey cd ops pw salt s n policy u = (r, s')" and "getRecordByName ops s m = Some (Some e)"
  shows "getRecordByName ops s' m = Some (Some e)"
  using assms
  by (auto simp: createPublicRecordKey_def add_key_keeps dest: add_record_keeps split: if_splits option.splits)

end

lemma find_snoc: "find P (xs @ [x]) = (case find P xs of None \<Rightarrow> if P x then Some x else None | Some y \<Rightarrow> Some y)"
  by (induction xs) auto

interpretation mr: records_store memory_records_ops
proof unfold_locales
  fix s :: memory_records and e :: record_entry
  assume "getRecordByName memory_records_ops s (rec_name e) = Some None"
  then have none: "find (\<lambda>x. rec_name x = rec_name e) (mem_records s) = None"
    by (simp add: memory_records_ops_def mem_getRecordByName_def)
  have "find (\<lambda>x. rec_name x = n) (mem_records s @ [e]) =
      (if n = rec_name e then Some e else find (\<lambda>x. rec_name x = n) (mem_records s))" for n
    using none by (auto simp: find_snoc split: option.splits)
  with none show "\<exists>s'. addRecord memory_records_ops s e = Some s' \<and>
      (\<forall>n. getRecordByName memory_records_ops s' n =
        (if n = rec_name e then Some (Some e) else getRecordByName memory_records_ops s n)) \<and>
      (\<forall>n h. getRecordKeyByRecordAndHash memory_records_ops s' n h = getRecordKeyByRecordAndHash memory_records_ops s n h)"
    by (simp add: memory_records_ops_def mem_getRecordByName_def mem_addRecord_def mem_getRecordKeyByRecordAndHash_def)
next
  fix s :: memory_records and k :: record_key
  assume "getRecordKeyByRecordAndHash memory_records_ops s (key_recordName k) (secretHash k) = Some None"
  then have none: "find (\<lambda>x. key_recordName x = key_recordName k \<and> secretHash x = secretHash k) (mem_recordKeys s) = None"
    by (simp add: memory_records_ops_def mem_getRecordKeyByRecordAndHash_def)
  have "find (\<lambda>x. key_recordName x = n \<and> secretHash x = h) (mem_recordKeys s @ [k]) =
      (if n = key_recordName k \<and> h = secretHash k then Some k
       else find (\<lambda>x. key_recordName x = n \<and> secretHash x = h) (mem_recordKeys s))" for n h
    using none by (auto simp: find_snoc split: option.splits)
  with none show "\<exists>s'. addRecordKey memory_records_ops s k = Some s' \<and>
      (\<forall>n. getRecordByName memory_records_ops s' n = getRecordByName memory_records_ops s n) \<and>
      (\<forall>n h. getRecordKeyByRecordAndHash memory_records_ops s' n h =
        (if n = key_recordName k \<and> h = secretHash k then Some (Some k)
         else getRecordKeyByRecordAndHash memory_records_ops s n h))"
    by (simp add: memory_records_ops_def mem_getRecordByName_def mem_addRecordKey_def mem_getRecordKeyByRecordAndHash_def)
next
  fix s s' :: memory_records and e x n
  assume "addRecord memory_records_ops s e = Some s'" "getRecordByName memory_records_ops s n = Some (Some x)"
  then show "getRecordByName memory_records_ops s' n = Some (Some x)"
    by (auto simp: memory_records_ops_def mem_addRecord_def mem_getRecordByName_def find_snoc)
next
  fix s s' :: memory_records and k n
  assume "addRecordKey memory_records_ops s k = Some s'"
  then show "getRecordByName memory_records_ops s' n = getRecordByName memory_records_ops s n"
    by (auto simp: memory_records_ops_def mem_addRecordKey_def mem_getRecordByName_def)
qed (simp_all add: memory_records_ops_def)

end
