(* ===== verification/PolicyStore.thy ===== *)
theory PolicyStore
  imports Permissions Records
begin

text \<open>
  The store of policies and roles: the interface \<^verbatim>\<open>src/src/aux-records/PolicyStore.ts\<close> and its
  implementation \<^verbatim>\<open>MemoryPolicyStore.ts\<close>. As for records, the store is a state with operations; an
  operation that throws is \<open>None\<close>. \<^verbatim>\<open>Date.now()\<close> is an argument of the operations that read it.

  The store in memory looks markers and ids up in object literals, which also have the members that every object
  inherits: a marker or an id with the name of one of these, \<^verbatim>\<open>constructor\<close> for instance, is found although it was never stored.
  The lookup is modelled with this case. Names of records are taken not to be among them, and what a write does under such a
  name (\<^verbatim>\<open>__proto__\<close> would replace the prototype of the object) is not part of the contract below.
\<close>

section \<open>The interface\<close>

record user_policy =
  document :: policy_document
  policy_markers :: "string list"

record listed_user_policy =
  listed_marker :: string
  listed_policy :: user_policy

record assigned_role =
  role :: string
  expireTimeMs :: "js_time option"

definition getExpireTime :: "js_time option \<Rightarrow> js_time" where
  "getExpireTime e = (case e of None \<Rightarrow> Infinity | Some t \<Rightarrow> t)"

text \<open>An assignment to a user (\<^verbatim>\<open>type: 'user'\<close>) or to an instance.\<close>

datatype role_assignment = UserAssignment string assigned_role | InstAssignment string assigned_role

text \<open>
  A policy that is found without being one has no document: \<^verbatim>\<open>undefined\<close>, here \<open>None\<close>, in the list of documents and, with the
  markers, in the policy that is returned.
\<close>

record 's policy_ops =
  listPoliciesForMarker :: "'s \<Rightarrow> string \<Rightarrow> string \<Rightarrow> policy_document option list option"
  listUserPolicies :: "'s \<Rightarrow> string \<Rightarrow> string option \<Rightarrow> listed_user_policy list option"
  listRolesForUser :: "int \<Rightarrow> 's \<Rightarrow> string \<Rightarrow> string \<Rightarrow> assigned_role list option"
  listRolesForInst :: "int \<Rightarrow> 's \<Rightarrow> string \<Rightarrow> string \<Rightarrow> assigned_role list option"
  listAssignmentsForRole :: "'s \<Rightarrow> string \<Rightarrow> string \<Rightarrow> role_assignment list option"
  getUserPolicy :: "'s \<Rightarrow> string \<Rightarrow> string \<Rightarrow> (error_code + user_policy option) option"
  updateUserPolicy :: "'s \<Rightarrow> string \<Rightarrow> string \<Rightarrow> user_policy \<Rightarrow> ((error_code + unit) \<times> 's) option"
  updateUserRoles :: "int \<Rightarrow> 's \<Rightarrow> string \<Rightarrow> string \<Rightarrow> assigned_role list \<Rightarrow> ((error_code + unit) \<times> 's) option"
  updateInstRoles :: "int \<Rightarrow> 's \<Rightarrow> string \<Rightarrow> string \<Rightarrow> assigned_role list \<Rightarrow> ((error_code + unit) \<times> 's) option"

section \<open>The store in memory\<close>

text \<open>
  Objects that are only read by key are maps; the policies of a record and the assignments are also
  enumerated. The keys of \<^verbatim>\<open>roles\<close> and \<^verbatim>\<open>roleAssignments\<close> are enumerated in the order of insertion
  (association lists), those of \<^verbatim>\<open>policies\<close> are sorted before use.
\<close>

record memory_policies =
  mp_policies :: "string \<Rightarrow> (string \<times> user_policy) list option"
  mp_roles :: "string \<Rightarrow> (string \<times> string list) list option"
  mp_roleAssignments :: "string \<Rightarrow> (string \<times> assigned_role list) list option"

definition new_memory_policies :: memory_policies where
  "new_memory_policies = \<lparr>mp_policies = Map.empty, mp_roles = Map.empty, mp_roleAssignments = Map.empty\<rparr>"

definition entries :: "(string \<Rightarrow> (string \<times> 'a) list option) \<Rightarrow> string \<Rightarrow> (string \<times> 'a) list" where
  "entries m r = (case m r of None \<Rightarrow> [] | Some xs \<Rightarrow> xs)"

text \<open>
  The members that every object inherits, and \<^verbatim>\<open>object?.[key]\<close>: an own member, one of these, or \<^verbatim>\<open>undefined\<close>.
\<close>

definition inherited_names :: "string list" where
  "inherited_names =
     [''constructor'', ''toString'', ''valueOf'', ''toLocaleString'', ''hasOwnProperty'', ''isPrototypeOf'',
      ''propertyIsEnumerable'', ''__proto__'', ''__defineGetter__'', ''__defineSetter__'',
      ''__lookupGetter__'', ''__lookupSetter__'']"

datatype 'a js_member = Absent | Own 'a | Inherited

definition js_member :: "(string \<times> 'a) list option \<Rightarrow> string \<Rightarrow> 'a js_member" where
  "js_member obj k =
     (case obj of
        None \<Rightarrow> Absent
      | Some xs \<Rightarrow> (case map_of xs k of
            Some v \<Rightarrow> Own v
          | None \<Rightarrow> if k \<in> set inherited_names then Inherited else Absent))"

text \<open>The loop of \<^verbatim>\<open>listUserPolicies\<close> over the sorted keys.\<close>

fun list_from :: "(string \<times> user_policy) list \<Rightarrow> string option \<Rightarrow> bool \<Rightarrow> string list \<Rightarrow> listed_user_policy list" where
  "list_from ps startingMarker start [] = []"
| "list_from ps startingMarker start (k # ks) =
     (if start then
        (case map_of ps k of
           None \<Rightarrow> list_from ps startingMarker start ks
         | Some p \<Rightarrow> \<lparr>listed_marker = k, listed_policy = p\<rparr> # list_from ps startingMarker start ks)
      else list_from ps startingMarker (case startingMarker of None \<Rightarrow> False | Some m \<Rightarrow> m \<le> k) ks)"

definition mp_listUserPolicies :: "memory_policies \<Rightarrow> string \<Rightarrow> string option \<Rightarrow> listed_user_policy list" where
  "mp_listUserPolicies s r startingMarker =
     (let ps = entries (mp_policies s) r
      in list_from ps startingMarker (\<not> given startingMarker) (sort (map fst ps)))"

definition mp_getUserPolicy :: "memory_policies \<Rightarrow> string \<Rightarrow> string \<Rightarrow> error_code + user_policy option" where
  "mp_getUserPolicy s r m =
     (case js_member (mp_policies s r) m of Absent \<Rightarrow> Inl PolicyNotFound | Own p \<Rightarrow> Inr (Some p) | Inherited \<Rightarrow> Inr None)"

definition mp_updateUserPolicy :: "memory_policies \<Rightarrow> string \<Rightarrow> string \<Rightarrow> user_policy \<Rightarrow> memory_policies" where
  "mp_updateUserPolicy s r m p =
     s\<lparr>mp_policies := (mp_policies s)(r \<mapsto> AList.update m p (entries (mp_policies s) r))\<rparr>"

definition mp_listPoliciesForMarker :: "memory_policies \<Rightarrow> string \<Rightarrow> string \<Rightarrow> policy_document option list" where
  "mp_listPoliciesForMarker s r m =
     [Some DEFAULT_ANY_RESOURCE_POLICY_DOCUMENT]
     @ (if m = PUBLIC_READ_MARKER then [Some DEFAULT_PUBLIC_READ_POLICY_DOCUMENT] else [])
     @ (case js_member (mp_policies s r) m of Absent \<Rightarrow> [] | Own p \<Rightarrow> [Some (document p)] | Inherited \<Rightarrow> [None])"

text \<open>The lookup \<^verbatim>\<open>?? []\<close> of a list: spreading or filtering an inherited member throws.\<close>

definition list_member :: "(string \<times> 'a list) list option \<Rightarrow> string \<Rightarrow> 'a list option" where
  "list_member obj k = (case js_member obj k of Absent \<Rightarrow> Some [] | Own xs \<Rightarrow> Some xs | Inherited \<Rightarrow> None)"

definition getRolesForEntity :: "int \<Rightarrow> memory_policies \<Rightarrow> string \<Rightarrow> string \<Rightarrow> assigned_role list option" where
  "getRolesForEntity now s r i = do {
     ns \<leftarrow> list_member (mp_roles s r) i;
     as \<leftarrow> list_member (mp_roleAssignments s r) i;
     Some (map (\<lambda>n. \<lparr>role = n, expireTimeMs = None\<rparr>) ns
       @ filter (\<lambda>a. Finite now < getExpireTime (expireTimeMs a)) as) }"

fun find_role :: "string \<Rightarrow> assigned_role list \<Rightarrow> assigned_role option" where
  "find_role n [] = None"
| "find_role n (a # as) = (if role a = n then Some a else find_role n as)"

fun assignments_in :: "string \<Rightarrow> (string \<times> assigned_role list) list \<Rightarrow> role_assignment list" where
  "assignments_in n [] = []"
| "assignments_in n ((i, as) # rest) =
     (case find_role n as of None \<Rightarrow> [] | Some a \<Rightarrow> [UserAssignment i a]) @ assignments_in n rest"

definition mp_listAssignmentsForRole :: "memory_policies \<Rightarrow> string \<Rightarrow> string \<Rightarrow> role_assignment list" where
  "mp_listAssignmentsForRole s r n =
     map (\<lambda>(i, _). UserAssignment i \<lparr>role = n, expireTimeMs = None\<rparr>)
       (filter (\<lambda>(_, ns). n \<in> set ns) (entries (mp_roles s) r))
     @ assignments_in n (entries (mp_roleAssignments s) r)"

text \<open>Both updates write \<^verbatim>\<open>roleAssignments\<close>: users and instances share one space of ids.\<close>

definition stored_roles :: "int \<Rightarrow> assigned_role list \<Rightarrow> assigned_role list" where
  "stored_roles now as =
     map (\<lambda>a. a\<lparr>expireTimeMs := (if expireTimeMs a = Some Infinity then None else expireTimeMs a)\<rparr>)
       (filter (\<lambda>a. Finite now < getExpireTime (expireTimeMs a)) as)"

definition mp_updateRoles :: "int \<Rightarrow> memory_policies \<Rightarrow> string \<Rightarrow> string \<Rightarrow> assigned_role list \<Rightarrow> memory_policies" where
  "mp_updateRoles now s r i as =
     s\<lparr>mp_roleAssignments := (mp_roleAssignments s)
         (r \<mapsto> AList.update i (stored_roles now as) (entries (mp_roleAssignments s) r))\<rparr>"

definition memory_policy_ops :: "memory_policies policy_ops" where
  "memory_policy_ops =
     \<lparr>listPoliciesForMarker = (\<lambda>s r m. Some (mp_listPoliciesForMarker s r m)),
      listUserPolicies = (\<lambda>s r m. Some (mp_listUserPolicies s r m)),
      listRolesForUser = getRolesForEntity,
      listRolesForInst = getRolesForEntity,
      listAssignmentsForRole = (\<lambda>s r n. Some (mp_listAssignmentsForRole s r n)),
      getUserPolicy = (\<lambda>s r m. Some (mp_getUserPolicy s r m)),
      updateUserPolicy = (\<lambda>s r m p. Some (Inr (), mp_updateUserPolicy s r m p)),
      updateUserRoles = (\<lambda>now s r i as. Some (Inr (), mp_updateRoles now s r i as)),
      updateInstRoles = (\<lambda>now s r i as. Some (Inr (), mp_updateRoles now s r i as))\<rparr>"

section \<open>The contract of the store\<close>

text \<open>The roles that an entity holds at a time.\<close>

definition role_names :: "assigned_role list option \<Rightarrow> string set" where
  "role_names as = (case as of None \<Rightarrow> {} | Some xs \<Rightarrow> role ` set xs)"

definition live :: "int \<Rightarrow> assigned_role \<Rightarrow> bool" where
  "live now a \<longleftrightarrow> Finite now < getExpireTime (expireTimeMs a)"

text \<open>
  What every authorization relies on: the store answers. What the operations that change policies
  and roles rely on besides: what was written is read back, other entries stay, the policy of a
  marker takes part in the decisions about it, and the roles that were written are the roles that
  are held while they have not expired. \<open>fixed\<close> are the roles that the store has from elsewhere. All this for records,
  markers and ids that have not the name of an inherited member.
\<close>

definition own_name :: "string \<Rightarrow> bool" where
  "own_name n \<longleftrightarrow> n \<notin> set inherited_names"

locale policy_reads =
  fixes ops :: "'s policy_ops"
  assumes get_policies: "own_name r \<Longrightarrow> own_name m \<Longrightarrow> \<exists>ds. listPoliciesForMarker ops s r m = Some (map Some ds)"
    and get_roles: "own_name r \<Longrightarrow> own_name u \<Longrightarrow> \<exists>as. listRolesForUser ops now s r u = Some as"
    and get_inst_roles: "own_name r \<Longrightarrow> own_name u \<Longrightarrow> \<exists>as. listRolesForInst ops now s r u = Some as"
    and get_policy: "own_name r \<Longrightarrow> own_name m \<Longrightarrow>
      (\<exists>p. getUserPolicy ops s r m = Some (Inr (Some p))) \<or> (\<exists>e. getUserPolicy ops s r m = Some (Inl e))"

locale policy_store = policy_reads ops for ops :: "'s policy_ops" +
  fixes fixed :: "'s \<Rightarrow> string \<Rightarrow> string \<Rightarrow> string set"
  assumes policy_written: "\<exists>s'. updateUserPolicy ops s r m p = Some (Inr (), s')"
    and roles_written: "\<exists>s'. updateUserRoles ops now s r u as = Some (Inr (), s')"
    and inst_roles_written: "\<exists>s'. updateInstRoles ops now s r u as = Some (Inr (), s')"
    and update_policy:
      "own_name m \<Longrightarrow> \<exists>s'. updateUserPolicy ops s r m p = Some (Inr (), s') \<and>
         getUserPolicy ops s' r m = Some (Inr (Some p)) \<and>
         (\<forall>r' m'. own_name m' \<longrightarrow> (r', m') \<noteq> (r, m) \<longrightarrow> getUserPolicy ops s' r' m' = getUserPolicy ops s r' m') \<and>
         (\<forall>now r' u. listRolesForUser ops now s' r' u = listRolesForUser ops now s r' u)"
    and marker_policy:
      "getUserPolicy ops s r m = Some (Inr (Some p)) \<Longrightarrow>
       \<exists>ds. listPoliciesForMarker ops s r m = Some ds \<and> Some (document p) \<in> set ds"
    and marker_default:
      "listPoliciesForMarker ops s r m = Some ds \<Longrightarrow> \<exists>ds'. ds = Some DEFAULT_ANY_RESOURCE_POLICY_DOCUMENT # ds'"
    and public_default:
      "listPoliciesForMarker ops s r PUBLIC_READ_MARKER = Some ds \<Longrightarrow> Some DEFAULT_PUBLIC_READ_POLICY_DOCUMENT \<in> set ds"
    and missing_policy: "getUserPolicy ops s r m = Some (Inl e) \<Longrightarrow> e = PolicyNotFound"
    and update_roles:
      "own_name u \<Longrightarrow> \<exists>s'. updateUserRoles ops now s r u as = Some (Inr (), s') \<and>
         (\<forall>later\<ge>now. role_names (listRolesForUser ops later s' r u) = fixed s r u \<union> role ` {a \<in> set as. live later a}) \<and>
         fixed s' = fixed s \<and>
         (\<forall>r' m. listPoliciesForMarker ops s' r' m = listPoliciesForMarker ops s r' m)"
    and update_inst_roles:
      "own_name u \<Longrightarrow> \<exists>s'. updateInstRoles ops now s r u as = Some (Inr (), s') \<and>
         (\<forall>later\<ge>now. role_names (listRolesForInst ops later s' r u) = fixed s r u \<union> role ` {a \<in> set as. live later a}) \<and>
         fixed s' = fixed s \<and>
         (\<forall>r' m. listPoliciesForMarker ops s' r' m = listPoliciesForMarker ops s r' m)"
    and listed_roles:
      "listRolesForUser ops now s r u = Some as \<Longrightarrow> fixed s r u \<subseteq> role ` set as \<and> (\<forall>a\<in>set as. live now a)"
    and listed_inst_roles:
      "listRolesForInst ops now s r u = Some as \<Longrightarrow> fixed s r u \<subseteq> role ` set as \<and> (\<forall>a\<in>set as. live now a)"
begin

lemma updated_policy_decides:
  assumes "updateUserPolicy ops s r m p = Some (Inr (), s')" and "own_name m"
  shows "\<exists>ds. listPoliciesForMarker ops s' r m = Some ds \<and> Some (document p) \<in> set ds"
proof -
  from update_policy[of m s r p] assms have "getUserPolicy ops s' r m = Some (Inr (Some p))" by auto
  then show ?thesis by (rule marker_policy)
qed

lemma updated_roles_expire:
  assumes "updateUserRoles ops now s r u as = Some (Inr (), s')" and "own_name u" and "now \<le> later" and "n \<notin> fixed s r u"
  shows "n \<in> role_names (listRolesForUser ops later s' r u) \<longleftrightarrow> (\<exists>a\<in>set as. role a = n \<and> live later a)"
  using update_roles[of u now s r as] assms by auto

end

lemma map_of_AList_update: "map_of (AList.update k v xs) = (map_of xs)(k \<mapsto> v)"
  by (rule update_conv')

lemma entries_upd [simp]: "entries (m(r \<mapsto> xs)) r' = (if r' = r then xs else entries m r')"
  by (simp add: entries_def)

lemma live_stored_roles:
  assumes "now \<le> later"
  shows "role ` {a \<in> set (stored_roles now as). live later a} = role ` {a \<in> set as. live later a}"
proof -
  have same: "getExpireTime (if e = Some Infinity then None else e) = getExpireTime e" for e
    by (simp add: getExpireTime_def)
  have still: "Finite later < t \<Longrightarrow> Finite now < t" for t
    using assms by (cases t) auto
  let ?f = "\<lambda>a. a\<lparr>expireTimeMs := (if expireTimeMs a = Some Infinity then None else expireTimeMs a)\<rparr>"
  have "{a \<in> set (stored_roles now as). live later a} = ?f ` {a \<in> set as. live later a}"
    using still by (auto simp: stored_roles_def live_def same)
  then show ?thesis by (simp add: image_image)
qed

definition fixed_roles :: "memory_policies \<Rightarrow> string \<Rightarrow> string \<Rightarrow> string set" where
  "fixed_roles s r u = set (case map_of (entries (mp_roles s) r) u of None \<Rightarrow> [] | Some ns \<Rightarrow> ns)"

text \<open>Under a name of its own, a member is the one that was stored.\<close>

lemma js_member_upd [simp]: "js_member (Some (AList.update k v xs)) k = Own v"
  by (simp add: js_member_def map_of_AList_update)

lemma map_of_entries: "map_of (entries m r) k = Option.bind (m r) (\<lambda>xs. map_of xs k)"
  by (simp add: entries_def split: option.split)

lemma js_member_own: "own_name k \<Longrightarrow> js_member obj k = (case Option.bind obj (\<lambda>xs. map_of xs k) of None \<Rightarrow> Absent | Some v \<Rightarrow> Own v)"
  by (auto simp: js_member_def own_name_def split: option.splits)

lemma list_member_own: "own_name k \<Longrightarrow> list_member (m r) k = Some (case map_of (entries m r) k of None \<Rightarrow> [] | Some xs \<Rightarrow> xs)"
  by (simp add: list_member_def js_member_own map_of_entries split: option.split)

lemma list_member_SomeD: "list_member (m r) k = Some xs \<Longrightarrow> xs = (case map_of (entries m r) k of None \<Rightarrow> [] | Some ys \<Rightarrow> ys)"
  by (auto simp: list_member_def js_member_def entries_def split: option.splits if_splits)

lemma rolesForEntity_own:
  assumes "own_name u"
  shows "getRolesForEntity now s r u = Some (
    map (\<lambda>n. \<lparr>role = n, expireTimeMs = None\<rparr>) (case map_of (entries (mp_roles s) r) u of None \<Rightarrow> [] | Some ns \<Rightarrow> ns)
    @ filter (\<lambda>a. Finite now < getExpireTime (expireTimeMs a))
        (case map_of (entries (mp_roleAssignments s) r) u of None \<Rightarrow> [] | Some as \<Rightarrow> as))"
  by (simp add: getRolesForEntity_def list_member_own[OF assms])

interpretation mp: policy_store memory_policy_ops fixed_roles
proof unfold_locales
  fix s :: memory_policies and r m p
  have "js_member (mp_policies (mp_updateUserPolicy s r m p) r') m' = js_member (mp_policies s r') m'"
    if "own_name m'" "(r', m') \<noteq> (r, m)" for r' m'
    using that by (auto simp: js_member_own mp_updateUserPolicy_def map_of_AList_update map_of_entries)
  moreover have "js_member (mp_policies (mp_updateUserPolicy s r m p) r) m = Own p"
    by (simp add: mp_updateUserPolicy_def)
  moreover have "getRolesForEntity now (mp_updateUserPolicy s r m p) r' u = getRolesForEntity now s r' u" for now r' u
    by (simp add: getRolesForEntity_def mp_updateUserPolicy_def)
  ultimately show "\<exists>s'. updateUserPolicy memory_policy_ops s r m p = Some (Inr (), s') \<and>
      getUserPolicy memory_policy_ops s' r m = Some (Inr (Some p)) \<and>
      (\<forall>r' m'. own_name m' \<longrightarrow> (r', m') \<noteq> (r, m) \<longrightarrow> getUserPolicy memory_policy_ops s' r' m' = getUserPolicy memory_policy_ops s r' m') \<and>
      (\<forall>now r' u. listRolesForUser memory_policy_ops now s' r' u = listRolesForUser memory_policy_ops now s r' u)"
    by (simp add: memory_policy_ops_def mp_getUserPolicy_def)
next
  fix now s r u as
  assume u: "own_name u"
  have roles: "role_names (getRolesForEntity later (mp_updateRoles now s r u as) r u) =
      fixed_roles s r u \<union> role ` {a \<in> set as. live later a}" if "now \<le> later" for later
    using live_stored_roles[OF that, of as]
    by (simp add: role_names_def rolesForEntity_own[OF u] mp_updateRoles_def fixed_roles_def map_of_AList_update
        image_Un image_image live_def)
  have rest: "fixed_roles (mp_updateRoles now s r u as) = fixed_roles s"
    "mp_listPoliciesForMarker (mp_updateRoles now s r u as) = mp_listPoliciesForMarker s"
    by (auto simp: mp_updateRoles_def fixed_roles_def fun_eq_iff mp_listPoliciesForMarker_def)
  show "\<exists>s'. updateUserRoles memory_policy_ops now s r u as = Some (Inr (), s') \<and>
      (\<forall>later\<ge>now. role_names (listRolesForUser memory_policy_ops later s' r u) =
        fixed_roles s r u \<union> role ` {a \<in> set as. live later a}) \<and> fixed_roles s' = fixed_roles s \<and>
      (\<forall>r' m. listPoliciesForMarker memory_policy_ops s' r' m = listPoliciesForMarker memory_policy_ops s r' m)"
    using roles rest by (simp add: memory_policy_ops_def)
  show "\<exists>s'. updateInstRoles memory_policy_ops now s r u as = Some (Inr (), s') \<and>
      (\<forall>later\<ge>now. role_names (listRolesForInst memory_policy_ops later s' r u) =
        fixed_roles s r u \<union> role ` {a \<in> set as. live later a}) \<and> fixed_roles s' = fixed_roles s \<and>
      (\<forall>r' m. listPoliciesForMarker memory_policy_ops s' r' m = listPoliciesForMarker memory_policy_ops s r' m)"
    using roles rest by (simp add: memory_policy_ops_def)
next
  fix now s r u as
  have "fixed_roles s r u \<subseteq> role ` set as" "\<forall>a\<in>set as. live now a" if "getRolesForEntity now s r u = Some as"
    using that list_member_SomeD[of "mp_roles s" r u]
    by (auto simp: getRolesForEntity_def fixed_roles_def live_def getExpireTime_def image_Un image_image split: bind_splits)
  then show "listRolesForUser memory_policy_ops now s r u = Some as \<Longrightarrow> fixed_roles s r u \<subseteq> role ` set as \<and> (\<forall>a\<in>set as. live now a)"
    "listRolesForInst memory_policy_ops now s r u = Some as \<Longrightarrow> fixed_roles s r u \<subseteq> role ` set as \<and> (\<forall>a\<in>set as. live now a)"
    by (auto simp: memory_policy_ops_def)
next
  fix s r m assume "own_name m"
  then have "mp_listPoliciesForMarker s r m = map Some
      ([DEFAULT_ANY_RESOURCE_POLICY_DOCUMENT] @ (if m = PUBLIC_READ_MARKER then [DEFAULT_PUBLIC_READ_POLICY_DOCUMENT] else [])
       @ (case map_of (entries (mp_policies s) r) m of None \<Rightarrow> [] | Some p \<Rightarrow> [document p]))"
    by (simp add: mp_listPoliciesForMarker_def js_member_own map_of_entries split: option.split)
  then have "\<exists>ds. mp_listPoliciesForMarker s r m = map Some ds" by (rule exI)
  then show "\<exists>ds. listPoliciesForMarker memory_policy_ops s r m = Some (map Some ds)" by (simp add: memory_policy_ops_def)
  show "(\<exists>p. getUserPolicy memory_policy_ops s r m = Some (Inr (Some p))) \<or> (\<exists>e. getUserPolicy memory_policy_ops s r m = Some (Inl e))"
    using \<open>own_name m\<close> by (auto simp: memory_policy_ops_def mp_getUserPolicy_def js_member_own split: option.splits)
qed (auto simp: memory_policy_ops_def mp_getUserPolicy_def mp_listPoliciesForMarker_def rolesForEntity_own split: js_member.splits)

end
