(* ===== verification/PolicyAuth.thy ===== *)
theory PolicyAuth
  imports PolicyStore
begin

text \<open>
  Authorization: the private part of \<^verbatim>\<open>src/src/aux-records/PolicyController.ts\<close>. A request is
  authorized for the user and for every instance it is made from, against the permissions of the
  markers of the resource. Nothing here changes the store, so a call is a function of the store; it
  is \<open>None\<close> when a call of the store throws. One reading of the clock serves a request, and the
  caches of roles in \<^verbatim>\<open>RolesContext\<close>, which only save calls, are left out.
\<close>

section \<open>Contexts, requests and results\<close>

record 's policy_env =
  policies :: "'s policy_ops"
  testRegex :: regex_test
  clock :: int
  the_store :: 's

record auth_context =
  recordKeyResult :: "valid_key option"
  recordKeyProvided :: bool
  recordName :: string
  recordOwnerId :: string
  subjectPolicy :: string

datatype subject_kind = User | Inst

record 'd listed_item =
  address :: string
  item_markers :: "string list"
  item_data :: 'd

datatype 'd action =
    DataCreateRequest string "string list"
  | DataReadRequest string "string list"
  | DataUpdateRequest string "string list" "string list option" "string list option"
  | DataDeleteRequest string "string list"
  | DataListRequest "'d listed_item list"
  | FileCreateRequest int "string option" "string list"
  | FileReadRequest int "string option" "string list"
  | FileUpdateRequest int "string option" "string list" "string list option" "string list option"
  | FileDeleteRequest int "string option" "string list"
  | EventCountRequest string "string list"
  | EventIncrementRequest string "string list"
  | EventUpdateRequest string "string list" "string list option" "string list option"
  | GrantPermissionRequest string
  | RevokePermissionRequest string
  | ReadPolicyRequest string
  | ListPoliciesRequest
  | ListRolesRequest
  | ReadRoleRequest string
  | GrantRoleRequest string "string option" "string option" "js_time option"
  | RevokeRoleRequest string "string option" "string option"
  | UnsupportedRequest

record 'd request =
  recordKeyOrRecordName :: string
  userId :: "string option"
  instances :: "string list option"
  request_action :: "'d action"

type_synonym possible_permission = "policy_document \<times> available_permission"
type_synonym marker_permission = "string \<times> possible_permission list"

datatype denial_reason =
    MissingPermission subject_kind "string option" string permission_type "role_name option"
  | MissingRole
  | NoMarkers
  | NoMarkersRemaining
  | TooManyInsts

record action_authorization =
  action :: permission_type
  grantingPolicy :: policy_document
  grantingPermission :: available_permission

record marker_authorization =
  auth_marker :: string
  actions :: "action_authorization list"

record authorization =
  auth_role :: role_name
  auth_markers :: "marker_authorization list"

type_synonym generic_result = "denial_reason + authorization"

datatype inst_authorization = NotRequired string | InstAllowed string authorization

record 'd authorized =
  res_recordName :: string
  recordKeyOwnerId :: "string option"
  authorizerId :: "string option"
  subject :: authorization
  subject_userId :: "string option"
  subject_policy :: string
  res_instances :: "inst_authorization list"
  allowedDataItems :: "'d listed_item list option"

datatype 'd authorize_result = Denied error_code "denial_reason option" | Allowed "'d authorized"

definition MAX_ALLOWED_INSTANCES :: nat where "MAX_ALLOWED_INSTANCES = 2"

section \<open>Filters on permissions\<close>

type_synonym permission_filter = "available_permission \<Rightarrow> bool option"

text \<open>\<^verbatim>\<open>_every\<close> and \<^verbatim>\<open>_some\<close>: the filters are called in order until one decides.\<close>

fun every :: "permission_filter list \<Rightarrow> permission_filter" where
  "every [] p = Some True"
| "every (f # fs) p = do { b \<leftarrow> f p; if b then every fs p else Some False }"

fun some_of :: "permission_filter list \<Rightarrow> permission_filter" where
  "some_of [] p = Some False"
| "some_of (f # fs) p = do { b \<leftarrow> f p; if b then Some True else some_of fs p }"

abbreviation pure :: "(available_permission \<Rightarrow> bool) \<Rightarrow> permission_filter" where
  "pure f \<equiv> \<lambda>p. Some (f p)"

definition byRole :: "role_name \<Rightarrow> available_permission \<Rightarrow> bool" where
  "byRole r p \<longleftrightarrow> perm_role p = r"

definition byEveryoneRole :: "available_permission \<Rightarrow> bool" where
  "byEveryoneRole = byRole Everyone"

definition byRecordOwner :: "auth_context \<Rightarrow> subject_kind \<Rightarrow> string option \<Rightarrow> available_permission \<Rightarrow> bool" where
  "byRecordOwner C k sid p = (case k of Inst \<Rightarrow> False | User \<Rightarrow> Some (recordOwnerId C) = sid)"

definition byAdminRole :: "auth_context \<Rightarrow> subject_kind \<Rightarrow> string option \<Rightarrow> available_permission \<Rightarrow> bool" where
  "byAdminRole C k sid p =
     (if recordKeyResult C \<noteq> None then byRole (Role ADMIN_ROLE_NAME) p else byRecordOwner C k sid p)"

definition byUserRole :: "'s policy_env \<Rightarrow> string \<Rightarrow> string \<Rightarrow> permission_filter" where
  "byUserRole E rn u p = do {
     as \<leftarrow> listRolesForUser (policies E) (clock E) (the_store E) rn u;
     Some (case perm_role p of Everyone \<Rightarrow> False | Role n \<Rightarrow> n \<in> role ` set as) }"

text \<open>
  The roles of instances are cached in an object literal: for the names that every object inherits,
  \<^verbatim>\<open>context.instRoles[inst]\<close> is a function or an object without \<^verbatim>\<open>has\<close>, and the call throws.
\<close>

definition byInstRole :: "'s policy_env \<Rightarrow> string \<Rightarrow> string \<Rightarrow> permission_filter" where
  "byInstRole E rn i p =
     (if i \<in> set inherited_names then (case perm_role p of Everyone \<Rightarrow> Some False | Role n \<Rightarrow> None)
      else do {
        as \<leftarrow> listRolesForInst (policies E) (clock E) (the_store E) rn i;
        Some (case perm_role p of Everyone \<Rightarrow> False | Role n \<Rightarrow> n \<in> role ` set as) })"

definition bySubjectRole ::
    "'s policy_env \<Rightarrow> auth_context \<Rightarrow> subject_kind \<Rightarrow> string option \<Rightarrow> permission_filter" where
  "bySubjectRole E C k sid p =
     (if \<not> given sid then Some False
      else (case k of
          User \<Rightarrow> byUserRole E (recordName C) (the sid) p
        | Inst \<Rightarrow> byInstRole E (recordName C) (the sid) p))"

text \<open>
  The roles that a resource accepts, as long as no role has been chosen, and those that the account
  marker accepts.
\<close>

definition resourceRole ::
    "'s policy_env \<Rightarrow> auth_context \<Rightarrow> subject_kind \<Rightarrow> string option \<Rightarrow> role_name option \<Rightarrow> permission_filter" where
  "resourceRole E C k sid r =
     (case r of
        None \<Rightarrow> some_of [pure byEveryoneRole, pure (byAdminRole C k sid), bySubjectRole E C k sid]
      | Some r \<Rightarrow> pure (byRole r))"

definition accountRole ::
    "'s policy_env \<Rightarrow> auth_context \<Rightarrow> subject_kind \<Rightarrow> string option \<Rightarrow> role_name option \<Rightarrow> permission_filter" where
  "accountRole E C k sid r =
     (case r of
        None \<Rightarrow> some_of [pure byEveryoneRole, bySubjectRole E C k sid, pure (byRecordOwner C k sid)]
      | Some r \<Rightarrow> pure (byRole r))"

fun findPermissionByFilter :: "permission_filter \<Rightarrow> possible_permission list \<Rightarrow> possible_permission option option" where
  "findPermissionByFilter f [] = Some None"
| "findPermissionByFilter f (p # ps) = do { b \<leftarrow> f (snd p); if b then Some (Some p) else findPermissionByFilter f ps }"

text \<open>Reading the permissions of a document that is \<^verbatim>\<open>undefined\<close> throws, and with it the whole request.\<close>

fun defined_documents :: "'a option list \<Rightarrow> 'a list option" where
  "defined_documents [] = Some []"
| "defined_documents (d # ds) = do { x \<leftarrow> d; xs \<leftarrow> defined_documents ds; Some (x # xs) }"

fun listPermissionsForMarkers :: "'s policy_env \<Rightarrow> string \<Rightarrow> string list \<Rightarrow> marker_permission list option" where
  "listPermissionsForMarkers E rn [] = Some []"
| "listPermissionsForMarkers E rn (m # ms) = do {
     found \<leftarrow> listPoliciesForMarker (policies E) (the_store E) rn m;
     ds \<leftarrow> defined_documents found;
     rest \<leftarrow> listPermissionsForMarkers E rn ms;
     Some ((m, concat (map (\<lambda>d. map (Pair d) d) ds)) # rest) }"

section \<open>The loops over the markers\<close>

text \<open>
  The twenty \<^verbatim>\<open>_authorize...\<close> functions run four different loops. Here a loop takes the filter of the
  action \<open>F\<close>, the action \<open>t\<close> and the filter of roles \<open>R\<close>.
\<close>

definition authorized_by :: "permission_type \<Rightarrow> possible_permission \<Rightarrow> action_authorization" where
  "authorized_by t p = \<lparr>action = t, grantingPolicy = fst p, grantingPermission = snd p\<rparr>"

text \<open>Reading, counting, deleting, account operations: the first marker that permits the action decides.\<close>

fun any_marker ::
    "(available_permission \<Rightarrow> bool) \<Rightarrow> permission_type \<Rightarrow> (role_name option \<Rightarrow> permission_filter)
      \<Rightarrow> subject_kind \<Rightarrow> string option \<Rightarrow> marker_permission list \<Rightarrow> denial_reason option \<Rightarrow> generic_result option" where
  "any_marker F t R k sid [] denial = Some (Inl (case denial of None \<Rightarrow> MissingRole | Some d \<Rightarrow> d))"
| "any_marker F t R k sid ((m, ps) # ms) denial = do {
     a \<leftarrow> findPermissionByFilter (every [pure F, R None]) ps;
     case a of
       None \<Rightarrow> any_marker F t R k sid ms (Some (MissingPermission k sid m t None))
     | Some p \<Rightarrow> Some (Inr \<lparr>auth_role = perm_role (snd p),
         auth_markers = [\<lparr>auth_marker = m, actions = [authorized_by t p]\<rparr>]\<rparr>) }"

text \<open>
  One marker of an action that may also assign or unassign the marker (\<open>assigning\<close>): the permission for
  the action fixes the role, and the permission to assign must be for the same role or for everyone.
\<close>

definition authorize_marker ::
    "regex_test \<Rightarrow> (available_permission \<Rightarrow> bool) \<Rightarrow> permission_type \<Rightarrow> (role_name option \<Rightarrow> permission_filter)
      \<Rightarrow> (string \<Rightarrow> policy_action option) \<Rightarrow> subject_kind \<Rightarrow> string option \<Rightarrow> role_name option \<Rightarrow> marker_permission
      \<Rightarrow> (denial_reason + role_name \<times> marker_authorization) option" where
  "authorize_marker rx F t R assigning k sid r mp = (case mp of (m, ps) \<Rightarrow> do {
     a \<leftarrow> findPermissionByFilter (every [pure F, R r]) ps;
     case a of
       None \<Rightarrow> Some (Inl (MissingPermission k sid m t r))
     | Some p \<Rightarrow>
         (let r' = (case r of None \<Rightarrow> perm_role (snd p) | Some r \<Rightarrow> r) in
          case assigning m of
            None \<Rightarrow> Some (Inr (r', \<lparr>auth_marker = m, actions = [authorized_by t p]\<rparr>))
          | Some pa \<Rightarrow> do {
              b \<leftarrow> findPermissionByFilter
                (every [pure (byPolicy rx pa m), some_of [pure byEveryoneRole, pure (byRole (perm_role (snd p)))]]) ps;
              case b of
                None \<Rightarrow> Some (Inl (MissingPermission k sid m (TPolicy pa) (Some r')))
              | Some q \<Rightarrow> Some (Inr (r', \<lparr>auth_marker = m,
                  actions = [authorized_by t p, authorized_by (TPolicy pa) q]\<rparr>)) }) })"

definition with_role :: "role_name option \<Rightarrow> marker_authorization list \<Rightarrow> generic_result" where
  "with_role r auths =
     (case r of
        None \<Rightarrow> Inl MissingRole
      | Some r \<Rightarrow> if r = Role [] then Inl MissingRole else Inr \<lparr>auth_role = r, auth_markers = auths\<rparr>)"

text \<open>Creating, and updating files: every marker must permit the action, for one role.\<close>

fun all_markers ::
    "regex_test \<Rightarrow> (available_permission \<Rightarrow> bool) \<Rightarrow> permission_type \<Rightarrow> (role_name option \<Rightarrow> permission_filter)
      \<Rightarrow> (string \<Rightarrow> policy_action option) \<Rightarrow> subject_kind \<Rightarrow> string option \<Rightarrow> role_name option
      \<Rightarrow> marker_authorization list \<Rightarrow> marker_permission list \<Rightarrow> generic_result option" where
  "all_markers rx F t R assigning k sid r auths [] = Some (with_role r auths)"
| "all_markers rx F t R assigning k sid r auths (mp # mps) = do {
     a \<leftarrow> authorize_marker rx F t R assigning k sid r mp;
     case a of
       Inl d \<Rightarrow> Some (Inl d)
     | Inr (r', ma) \<Rightarrow> all_markers rx F t R assigning k sid (Some r') (auths @ [ma]) mps }"

text \<open>
  Updating data and events: every marker that is added or removed must permit it, and one of the
  existing ones, for one role.
\<close>

fun update_markers ::
    "regex_test \<Rightarrow> (available_permission \<Rightarrow> bool) \<Rightarrow> permission_type \<Rightarrow> (role_name option \<Rightarrow> permission_filter)
      \<Rightarrow> (string \<Rightarrow> policy_action option) \<Rightarrow> string list \<Rightarrow> subject_kind \<Rightarrow> string option \<Rightarrow> role_name option
      \<Rightarrow> marker_authorization list \<Rightarrow> bool \<Rightarrow> denial_reason option \<Rightarrow> marker_permission list \<Rightarrow> generic_result option" where
  "update_markers rx F t R assigning existing k sid r auths permitted denial [] =
     Some (case (permitted, denial) of
         (False, Some d) \<Rightarrow> Inl d
       | _ \<Rightarrow> with_role r auths)"
| "update_markers rx F t R assigning existing k sid r auths permitted denial (mp # mps) = do {
     a \<leftarrow> authorize_marker rx F t R assigning k sid r mp;
     case a of
       Inl d \<Rightarrow>
         if assigning (fst mp) \<noteq> None then Some (Inl d)
         else update_markers rx F t R assigning existing k sid r auths permitted (Some d) mps
     | Inr (r', ma) \<Rightarrow>
         update_markers rx F t R assigning existing k sid (Some r') (auths @ [ma])
           (permitted \<or> fst mp \<in> set existing) denial mps }"

text \<open>Listing: every item that one of its markers permits to list, for one role.\<close>

definition add_action :: "string \<Rightarrow> action_authorization \<Rightarrow> marker_authorization list \<Rightarrow> marker_authorization list" where
  "add_action m a =
     map (\<lambda>x. if auth_marker x = m \<and> grantingPermission a \<notin> grantingPermission ` set (actions x)
              then x\<lparr>actions := actions x @ [a]\<rparr> else x)"

fun list_item ::
    "(available_permission \<Rightarrow> bool) \<Rightarrow> (role_name option \<Rightarrow> permission_filter) \<Rightarrow> marker_permission list \<Rightarrow> role_name option
      \<Rightarrow> marker_authorization list \<Rightarrow> string list \<Rightarrow> (bool \<times> role_name option \<times> marker_authorization list) option" where
  "list_item F R mps r auths [] = Some (False, r, auths)"
| "list_item F R mps r auths (m # ms) =
     (case map_of mps m of
        None \<Rightarrow> list_item F R mps r auths ms
      | Some ps \<Rightarrow> do {
          a \<leftarrow> findPermissionByFilter (every [pure F, R r]) ps;
          case a of
            None \<Rightarrow> list_item F R mps r auths ms
          | Some p \<Rightarrow>
              Some (True, Some (case r of None \<Rightarrow> perm_role (snd p) | Some r \<Rightarrow> r),
                add_action m (authorized_by (TData DataList) p) auths) })"

fun list_items ::
    "regex_test \<Rightarrow> (role_name option \<Rightarrow> permission_filter) \<Rightarrow> marker_permission list \<Rightarrow> role_name option
      \<Rightarrow> marker_authorization list \<Rightarrow> 'd listed_item list
      \<Rightarrow> ('d listed_item list \<times> role_name option \<times> marker_authorization list) option" where
  "list_items rx R mps r auths [] = Some ([], r, auths)"
| "list_items rx R mps r auths (i # is) = do {
     (listed, r', auths') \<leftarrow> list_item (byData rx DataList (address i)) R mps r auths (item_markers i);
     (rest, r'', auths'') \<leftarrow> list_items rx R mps r' auths' is;
     Some (if listed then i # rest else rest, r'', auths'') }"

end
