(* ===== verification/PolicyRequests.thy ===== *)
theory PolicyRequests
  imports PolicyAuth
begin

text \<open>
  The requests of \<^verbatim>\<open>src/src/aux-records/PolicyController.ts\<close>: \<^verbatim>\<open>_authorizeRequest\<close>, which authorizes
  the user and then every instance, the function of every action, and the entry points.
\<close>

section \<open>The common part of all requests\<close>

text \<open>
  How one subject is authorized: with the items that it may list, for the requests that list items
  (\<^verbatim>\<open>context.allowedDataItems\<close>, which every call for such a request sets anew).
\<close>

type_synonym 'd authorizer = "subject_kind \<Rightarrow> string option \<Rightarrow> (generic_result \<times> 'd listed_item list option) option"

definition without_items :: "(subject_kind \<Rightarrow> string option \<Rightarrow> generic_result option) \<Rightarrow> 'd authorizer" where
  "without_items f k sid = map_option (\<lambda>g. (g, None)) (f k sid)"

text \<open>\<^verbatim>\<open>intersectionBy(current, allowed, i => i.address)\<close> of lodash; \<open>seen\<close> are the addresses that are in the result.\<close>

fun intersectionByAddress :: "string list \<Rightarrow> 'd listed_item list \<Rightarrow> 'd listed_item list \<Rightarrow> 'd listed_item list" where
  "intersectionByAddress seen [] other = []"
| "intersectionByAddress seen (i # is) other =
     (if address i \<notin> set seen \<and> address i \<in> address ` set other
      then i # intersectionByAddress (address i # seen) is other
      else intersectionByAddress seen is other)"

fun authorizeInstances ::
    "bool \<Rightarrow> 'd authorizer \<Rightarrow> string list \<Rightarrow> 'd listed_item list option \<Rightarrow> inst_authorization list
      \<Rightarrow> (denial_reason + inst_authorization list \<times> 'd listed_item list option) option" where
  "authorizeInstances skip authorize [] items auths = Some (Inr (auths, items))"
| "authorizeInstances skip authorize (i # is) items auths =
     (if skip then authorizeInstances skip authorize is items (auths @ [NotRequired i])
      else do {
        (result, own) \<leftarrow> authorize Inst (Some i);
        let items' = (case items of None \<Rightarrow> own | Some xs \<Rightarrow> Some (intersectionByAddress [] xs (case own of None \<Rightarrow> [] | Some ys \<Rightarrow> ys)));
        case result of
          Inl d \<Rightarrow> Some (Inl d)
        | Inr a \<Rightarrow> authorizeInstances skip authorize is items' (auths @ [InstAllowed i a]) })"

definition authorize_request ::
    "'s policy_env \<Rightarrow> auth_context \<Rightarrow> 'd request \<Rightarrow> string list \<Rightarrow> (marker_permission list \<Rightarrow> 'd authorizer) \<Rightarrow> bool
      \<Rightarrow> 'd authorize_result option" where
  "authorize_request E C q resourceMarkers authorize skipWhenKey =
     (let insts = (case instances q of None \<Rightarrow> [] | Some is \<Rightarrow> is) in
      if length insts > MAX_ALLOWED_INSTANCES then Some (Denied NotAuthorized (Some TooManyInsts))
      else if resourceMarkers = [] then Some (Denied NotAuthorized (Some NoMarkers))
      else do {
        mps \<leftarrow> listPermissionsForMarkers E (recordName C) resourceMarkers;
        (userAuthorization, items) \<leftarrow> authorize mps User (userId q);
        case userAuthorization of
          Inl d \<Rightarrow>
            if \<not> given (userId q) \<and> \<not> recordKeyProvided C then Some (Denied NotLoggedIn None)
            else Some (Denied NotAuthorized (Some d))
        | Inr a \<Rightarrow> do {
            authorizedInstances \<leftarrow>
              authorizeInstances (skipWhenKey \<and> recordKeyResult C \<noteq> None) (authorize mps) insts items [];
            case authorizedInstances of
              Inl d \<Rightarrow> Some (Denied NotAuthorized (Some d))
            | Inr (auths, items') \<Rightarrow>
                (let keyOwner = map_option vk_keyCreatorId (recordKeyResult C) in
                 Some (Allowed \<lparr>res_recordName = recordName C, recordKeyOwnerId = keyOwner,
                   authorizerId = (case keyOwner of Some o' \<Rightarrow> Some o' | None \<Rightarrow> userId q),
                   subject = a, subject_userId = userId q, subject_policy = subjectPolicy C,
                   res_instances = auths, allowedDataItems = items'\<rparr>)) } })"

section \<open>Data\<close>

text \<open>\<^verbatim>\<open>union\<close> of lodash, on the arrays that are given: the first occurrence of every value.\<close>

definition union_of :: "string list list \<Rightarrow> string list" where
  "union_of xss = rev (remdups (rev (concat xss)))"

definition listed :: "string list option \<Rightarrow> string list" where
  "listed xs = (case xs of None \<Rightarrow> [] | Some ys \<Rightarrow> ys)"

definition willMarkersBeRemaining :: "string list \<Rightarrow> string list option \<Rightarrow> string list option \<Rightarrow> bool" where
  "willMarkersBeRemaining existing removed added =
     (case removed of
        None \<Rightarrow> True
      | Some rs \<Rightarrow> listed added \<noteq> [] \<or> length existing \<noteq> length rs \<or> \<not> set existing \<subseteq> set rs)"

text \<open>What an update does to a marker: assign it, unassign it, or neither.\<close>

definition assigned_or_unassigned :: "string list option \<Rightarrow> string list option \<Rightarrow> string \<Rightarrow> policy_action option" where
  "assigned_or_unassigned added removed m =
     (if m \<in> set (listed added) then Some PolicyAssign
      else if m \<in> set (listed removed) then Some PolicyUnassign else None)"

definition authorizeDataCreate :: "'s policy_env \<Rightarrow> auth_context \<Rightarrow> 'd request \<Rightarrow> string \<Rightarrow> string list \<Rightarrow> 'd authorize_result option" where
  "authorizeDataCreate E C q a ms =
     authorize_request E C q ms (\<lambda>mps. without_items (\<lambda>k sid.
       all_markers (testRegex E) (byData (testRegex E) DataCreate a) (TData DataCreate) (resourceRole E C k sid)
         (\<lambda>_. Some PolicyAssign) k sid None [] mps)) True"

definition authorizeDataRead :: "'s policy_env \<Rightarrow> auth_context \<Rightarrow> 'd request \<Rightarrow> string \<Rightarrow> string list \<Rightarrow> 'd authorize_result option" where
  "authorizeDataRead E C q a ms =
     authorize_request E C q ms (\<lambda>mps. without_items (\<lambda>k sid.
       any_marker (byData (testRegex E) DataRead a) (TData DataRead) (resourceRole E C k sid) k sid mps None)) True"

definition authorizeDataUpdate ::
    "'s policy_env \<Rightarrow> auth_context \<Rightarrow> 'd request \<Rightarrow> string \<Rightarrow> string list \<Rightarrow> string list option \<Rightarrow> string list option
      \<Rightarrow> 'd authorize_result option" where
  "authorizeDataUpdate E C q a existing added removed =
     (if \<not> willMarkersBeRemaining existing removed added then Some (Denied NotAuthorized (Some NoMarkersRemaining))
      else authorize_request E C q (union_of [existing, listed added, listed removed]) (\<lambda>mps. without_items (\<lambda>k sid.
        update_markers (testRegex E) (byData (testRegex E) DataUpdate a) (TData DataUpdate) (resourceRole E C k sid)
          (assigned_or_unassigned added removed) existing k sid None [] False None mps)) True)"

definition authorizeDataDelete :: "'s policy_env \<Rightarrow> auth_context \<Rightarrow> 'd request \<Rightarrow> string \<Rightarrow> string list \<Rightarrow> 'd authorize_result option" where
  "authorizeDataDelete E C q a ms =
     authorize_request E C q ms (\<lambda>mps. without_items (\<lambda>k sid.
       any_marker (byData (testRegex E) DataDelete a) (TData DataDelete) (resourceRole E C k sid) k sid mps None)) True"

definition authorize_list ::
    "regex_test \<Rightarrow> (role_name option \<Rightarrow> permission_filter) \<Rightarrow> marker_permission list \<Rightarrow> 'd listed_item list
      \<Rightarrow> (generic_result \<times> 'd listed_item list option) option" where
  "authorize_list rx R mps items = do {
     (allowed, r, auths) \<leftarrow> list_items rx R mps None (map (\<lambda>mp. \<lparr>auth_marker = fst mp, actions = []\<rparr>) mps) items;
     Some (Inr \<lparr>auth_role = (case r of None \<Rightarrow> Everyone | Some r \<Rightarrow> if r = Role [] then Everyone else r),
       auth_markers = auths\<rparr>, Some allowed) }"

definition authorizeDataList :: "'s policy_env \<Rightarrow> auth_context \<Rightarrow> 'd request \<Rightarrow> 'd listed_item list \<Rightarrow> 'd authorize_result option" where
  "authorizeDataList E C q items =
     authorize_request E C q (union_of (map item_markers items))
       (\<lambda>mps k sid. authorize_list (testRegex E) (resourceRole E C k sid) mps items) True"

section \<open>Files\<close>

definition authorizeFileCreate :: "'s policy_env \<Rightarrow> auth_context \<Rightarrow> 'd request \<Rightarrow> int \<Rightarrow> string option \<Rightarrow> string list \<Rightarrow> 'd authorize_result option" where
  "authorizeFileCreate E C q bytes mime ms =
     authorize_request E C q ms (\<lambda>mps. without_items (\<lambda>k sid.
       all_markers (testRegex E) (byFile FileCreate bytes mime) (TFile FileCreate) (resourceRole E C k sid)
         (\<lambda>_. Some PolicyAssign) k sid None [] mps)) True"

definition authorizeFileRead :: "'s policy_env \<Rightarrow> auth_context \<Rightarrow> 'd request \<Rightarrow> int \<Rightarrow> string option \<Rightarrow> string list \<Rightarrow> 'd authorize_result option" where
  "authorizeFileRead E C q bytes mime ms =
     authorize_request E C q ms (\<lambda>mps. without_items (\<lambda>k sid.
       any_marker (byFile FileRead bytes mime) (TFile FileRead) (resourceRole E C k sid) k sid mps None)) True"

definition authorizeFileUpdate ::
    "'s policy_env \<Rightarrow> auth_context \<Rightarrow> 'd request \<Rightarrow> int \<Rightarrow> string option \<Rightarrow> string list \<Rightarrow> string list option \<Rightarrow> string list option
      \<Rightarrow> 'd authorize_result option" where
  "authorizeFileUpdate E C q bytes mime existing added removed =
     authorize_request E C q (union_of [existing, listed added, listed removed]) (\<lambda>mps. without_items (\<lambda>k sid.
       if listed added = [] \<and> listed removed = [] then Some (Inl NoMarkers)
       else if \<not> willMarkersBeRemaining existing removed added then Some (Inl NoMarkersRemaining)
       else all_markers (testRegex E) (byFile FileUpdate bytes mime) (TFile FileUpdate) (resourceRole E C k sid)
         (assigned_or_unassigned added removed) k sid None [] mps)) True"

definition authorizeFileDelete :: "'s policy_env \<Rightarrow> auth_context \<Rightarrow> 'd request \<Rightarrow> int \<Rightarrow> string option \<Rightarrow> string list \<Rightarrow> 'd authorize_result option" where
  "authorizeFileDelete E C q bytes mime ms =
     authorize_request E C q ms (\<lambda>mps. without_items (\<lambda>k sid.
       any_marker (byFile FileDelete bytes mime) (TFile FileDelete) (resourceRole E C k sid) k sid mps None)) True"

section \<open>Events\<close>

definition authorizeEventCount :: "'s policy_env \<Rightarrow> auth_context \<Rightarrow> 'd request \<Rightarrow> string \<Rightarrow> string list \<Rightarrow> 'd authorize_result option" where
  "authorizeEventCount E C q n ms =
     authorize_request E C q ms (\<lambda>mps. without_items (\<lambda>k sid.
       any_marker (byEvent (testRegex E) EventCount n) (TEvent EventCount) (resourceRole E C k sid) k sid mps None)) True"

definition authorizeEventIncrement :: "'s policy_env \<Rightarrow> auth_context \<Rightarrow> 'd request \<Rightarrow> string \<Rightarrow> string list \<Rightarrow> 'd authorize_result option" where
  "authorizeEventIncrement E C q n ms =
     authorize_request E C q ms (\<lambda>mps. without_items (\<lambda>k sid.
       any_marker (byEvent (testRegex E) EventIncrement n) (TEvent EventIncrement) (resourceRole E C k sid) k sid mps None)) True"

definition authorizeEventUpdate ::
    "'s policy_env \<Rightarrow> auth_context \<Rightarrow> 'd request \<Rightarrow> string \<Rightarrow> string list \<Rightarrow> string list option \<Rightarrow> string list option
      \<Rightarrow> 'd authorize_result option" where
  "authorizeEventUpdate E C q n existing added removed =
     (if \<not> willMarkersBeRemaining existing removed added then Some (Denied NotAuthorized (Some NoMarkersRemaining))
      else authorize_request E C q (union_of [existing, listed added, listed removed]) (\<lambda>mps. without_items (\<lambda>k sid.
        update_markers (testRegex E) (byEvent (testRegex E) EventUpdate n) (TEvent EventUpdate) (resourceRole E C k sid)
          (assigned_or_unassigned added removed) existing k sid None [] False None mps)) True)"

section \<open>Policies and roles\<close>

text \<open>
  Operations on policies and roles are decided by the policies of the account marker; a record key does
  not take the place of the authorization of the instances.
\<close>

definition authorizePolicyGrantPermission :: "'s policy_env \<Rightarrow> auth_context \<Rightarrow> 'd request \<Rightarrow> string \<Rightarrow> 'd authorize_result option" where
  "authorizePolicyGrantPermission E C q m =
     authorize_request E C q [ACCOUNT_MARKER] (\<lambda>mps. without_items (\<lambda>k sid.
       any_marker (byPolicy (testRegex E) PolicyGrantPermission m) (TPolicy PolicyGrantPermission)
         (accountRole E C k sid) k sid mps None)) False"

definition authorizePolicyRevokePermission :: "'s policy_env \<Rightarrow> auth_context \<Rightarrow> 'd request \<Rightarrow> string \<Rightarrow> 'd authorize_result option" where
  "authorizePolicyRevokePermission E C q m =
     authorize_request E C q [ACCOUNT_MARKER] (\<lambda>mps. without_items (\<lambda>k sid.
       any_marker (byPolicy (testRegex E) PolicyRevokePermission m) (TPolicy PolicyRevokePermission)
         (accountRole E C k sid) k sid mps None)) False"

definition authorizePolicyRead :: "'s policy_env \<Rightarrow> auth_context \<Rightarrow> 'd request \<Rightarrow> string \<Rightarrow> 'd authorize_result option" where
  "authorizePolicyRead E C q m =
     authorize_request E C q [ACCOUNT_MARKER] (\<lambda>mps. without_items (\<lambda>k sid.
       any_marker (byPolicy (testRegex E) PolicyRead m) (TPolicy PolicyRead) (accountRole E C k sid) k sid mps None)) False"

definition authorizePolicyList :: "'s policy_env \<Rightarrow> auth_context \<Rightarrow> 'd request \<Rightarrow> 'd authorize_result option" where
  "authorizePolicyList E C q =
     authorize_request E C q [ACCOUNT_MARKER] (\<lambda>mps. without_items (\<lambda>k sid.
       any_marker byPolicyList (TPolicy PolicyList) (accountRole E C k sid) k sid mps None)) False"

definition authorizeRoleList :: "'s policy_env \<Rightarrow> auth_context \<Rightarrow> 'd request \<Rightarrow> 'd authorize_result option" where
  "authorizeRoleList E C q =
     authorize_request E C q [ACCOUNT_MARKER] (\<lambda>mps. without_items (\<lambda>k sid.
       any_marker byRoleList (TRole RoleList) (accountRole E C k sid) k sid mps None)) False"

definition authorizeRoleRead :: "'s policy_env \<Rightarrow> auth_context \<Rightarrow> 'd request \<Rightarrow> string \<Rightarrow> 'd authorize_result option" where
  "authorizeRoleRead E C q r =
     authorize_request E C q [ACCOUNT_MARKER] (\<lambda>mps. without_items (\<lambda>k sid.
       any_marker (byRoleRead (testRegex E) r) (TRole RoleRead) (accountRole E C k sid) k sid mps None)) False"

definition authorizeRoleGrant ::
    "'s policy_env \<Rightarrow> auth_context \<Rightarrow> 'd request \<Rightarrow> string \<Rightarrow> string option \<Rightarrow> string option \<Rightarrow> js_time option
      \<Rightarrow> 'd authorize_result option" where
  "authorizeRoleGrant E C q r user inst expire =
     authorize_request E C q [ACCOUNT_MARKER] (\<lambda>mps. without_items (\<lambda>k sid.
       any_marker (byRoleGrant (testRegex E) r user inst (minus_now (getExpireTime expire) (clock E))) (TRole RoleGrant)
         (accountRole E C k sid) k sid mps None)) False"

definition authorizeRoleRevoke ::
    "'s policy_env \<Rightarrow> auth_context \<Rightarrow> 'd request \<Rightarrow> string \<Rightarrow> string option \<Rightarrow> string option \<Rightarrow> 'd authorize_result option" where
  "authorizeRoleRevoke E C q r user inst =
     authorize_request E C q [ACCOUNT_MARKER] (\<lambda>mps. without_items (\<lambda>k sid.
       any_marker (byRoleRevoke (testRegex E) r user inst) (TRole RoleRevoke) (accountRole E C k sid) k sid mps None)) False"

section \<open>The entry points\<close>

definition authorizeRequestUsingContext :: "'s policy_env \<Rightarrow> auth_context \<Rightarrow> 'd request \<Rightarrow> 'd authorize_result option" where
  "authorizeRequestUsingContext E C q =
     (case request_action q of
        DataCreateRequest a ms \<Rightarrow> authorizeDataCreate E C q a ms
      | DataReadRequest a ms \<Rightarrow> authorizeDataRead E C q a ms
      | DataUpdateRequest a ex add rem \<Rightarrow> authorizeDataUpdate E C q a ex add rem
      | DataDeleteRequest a ms \<Rightarrow> authorizeDataDelete E C q a ms
      | DataListRequest items \<Rightarrow> authorizeDataList E C q items
      | FileCreateRequest n t ms \<Rightarrow> authorizeFileCreate E C q n t ms
      | FileReadRequest n t ms \<Rightarrow> authorizeFileRead E C q n t ms
      | FileUpdateRequest n t ex add rem \<Rightarrow> authorizeFileUpdate E C q n t ex add rem
      | FileDeleteRequest n t ms \<Rightarrow> authorizeFileDelete E C q n t ms
      | EventCountRequest n ms \<Rightarrow> authorizeEventCount E C q n ms
      | EventIncrementRequest n ms \<Rightarrow> authorizeEventIncrement E C q n ms
      | EventUpdateRequest n ex add rem \<Rightarrow> authorizeEventUpdate E C q n ex add rem
      | GrantPermissionRequest m \<Rightarrow> authorizePolicyGrantPermission E C q m
      | RevokePermissionRequest m \<Rightarrow> authorizePolicyRevokePermission E C q m
      | ReadPolicyRequest m \<Rightarrow> authorizePolicyRead E C q m
      | ListPoliciesRequest \<Rightarrow> authorizePolicyList E C q
      | ListRolesRequest \<Rightarrow> authorizeRoleList E C q
      | ReadRoleRequest r \<Rightarrow> authorizeRoleRead E C q r
      | GrantRoleRequest r u i t \<Rightarrow> authorizeRoleGrant E C q r u i t
      | RevokeRoleRequest r u i \<Rightarrow> authorizeRoleRevoke E C q r u i
      | UnsupportedRequest \<Rightarrow> Some (Denied ActionNotSupported None))"

text \<open>The records side of the controller, \<^verbatim>\<open>this._records\<close>.\<close>

record 'r records_env =
  codec :: key_codec
  rec_ops :: "'r records_ops"
  rec_store :: 'r

definition constructAuthorizationContext :: "'r records_env \<Rightarrow> string \<Rightarrow> error_code + auth_context" where
  "constructAuthorizationContext X keyOrName =
     (if isRecordKey (from64 (codec X)) keyOrName then
        (case validatePublicRecordKey (codec X) (rec_ops X) (rec_store X) keyOrName of
           Inl e \<Rightarrow> Inl e
         | Inr k \<Rightarrow> Inr \<lparr>recordKeyResult = Some k, recordKeyProvided = True, recordName = vk_recordName k,
             recordOwnerId = vk_ownerId k, subjectPolicy = vk_policy k\<rparr>)
      else
        (case validateRecordName (rec_ops X) (rec_store X) keyOrName of
           Inl e \<Rightarrow> Inl e
         | Inr (n, o') \<Rightarrow> Inr \<lparr>recordKeyResult = None, recordKeyProvided = False, recordName = n,
             recordOwnerId = o', subjectPolicy = ''subjectfull''\<rparr>))"

definition authorizeRequest :: "'r records_env \<Rightarrow> 's policy_env \<Rightarrow> 'd request \<Rightarrow> 'd authorize_result" where
  "authorizeRequest X E q =
     (case constructAuthorizationContext X (recordKeyOrRecordName q) of
        Inl e \<Rightarrow> Denied e None
      | Inr C \<Rightarrow>
          (case authorizeRequestUsingContext E C q of
             None \<Rightarrow> Denied ServerError None
           | Some r \<Rightarrow> r))"

end
