(* ===== verification/PolicyController.thy ===== *)
theory PolicyController
  imports PolicyRequests
begin

text \<open>
  The operations of \<^verbatim>\<open>src/src/aux-records/PolicyController.ts\<close> on policies and roles. An operation
  returns its result and the store of policies that it leaves. A call of the store that throws is
  caught: the result is a server error, and the store is the one before the call.
\<close>

datatype 'a op_result = Failed error_code "denial_reason option" | Done 'a

definition returnAuthorizationResult :: "error_code \<Rightarrow> denial_reason option \<Rightarrow> 'a op_result" where
  "returnAuthorizationResult e d = (if e = ActionNotSupported then Failed ServerError None else Failed e d)"

definition account_request :: "string \<Rightarrow> string option \<Rightarrow> string list option \<Rightarrow> unit action \<Rightarrow> unit request" where
  "account_request key user insts a =
     \<lparr>recordKeyOrRecordName = key, userId = user, instances = insts, request_action = a\<rparr>"

text \<open>Every operation: the context of the record, then \<open>body\<close>; an exception is a server error.\<close>

definition in_context ::
    "'r records_env \<Rightarrow> 's policy_env \<Rightarrow> string \<Rightarrow> (auth_context \<Rightarrow> ('a op_result \<times> 's) option) \<Rightarrow> 'a op_result \<times> 's" where
  "in_context X E key body =
     (case constructAuthorizationContext X key of
        Inl e \<Rightarrow> (Failed e None, the_store E)
      | Inr C \<Rightarrow> (case body C of None \<Rightarrow> (Failed ServerError None, the_store E) | Some r \<Rightarrow> r))"

definition when_allowed ::
    "'s policy_env \<Rightarrow> auth_context \<Rightarrow> unit request \<Rightarrow> ('a op_result \<times> 's) option \<Rightarrow> ('a op_result \<times> 's) option" where
  "when_allowed E C q rest = do {
     r \<leftarrow> authorizeRequestUsingContext E C q;
     case r of
       Denied e d \<Rightarrow> Some (returnAuthorizationResult e d, the_store E)
     | Allowed _ \<Rightarrow> rest }"

definition update_result :: "((error_code + unit) \<times> 's) option \<Rightarrow> (unit op_result \<times> 's) option" where
  "update_result u = map_option (\<lambda>(r, s). (case r of Inl e \<Rightarrow> Failed e None | Inr _ \<Rightarrow> Done (), s)) u"

section \<open>Permissions of markers\<close>

text \<open>Reading the permissions of a policy without a document (\<open>Inr None\<close>) throws.\<close>

record permission_request =
  pr_key :: string
  pr_userId :: "string option"
  pr_marker :: string
  pr_permission :: available_permission
  pr_instances :: "string list option"

definition grantMarkerPermission :: "'r records_env \<Rightarrow> 's policy_env \<Rightarrow> permission_request \<Rightarrow> unit op_result \<times> 's" where
  "grantMarkerPermission X E q = in_context X E (pr_key q) (\<lambda>C.
     when_allowed E C (account_request (pr_key q) (pr_userId q) (pr_instances q) (GrantPermissionRequest (pr_marker q))) (do {
       policyResult \<leftarrow> getUserPolicy (policies E) (the_store E) (recordName C) (pr_marker q);
       if policyResult \<noteq> Inl PolicyNotFound \<and> isl policyResult
       then Some (Failed (projl policyResult) None, the_store E)
       else do {
         policy \<leftarrow> (case policyResult of Inr p \<Rightarrow> p | Inl _ \<Rightarrow> Some \<lparr>document = [], policy_markers = [ACCOUNT_MARKER]\<rparr>);
         if pr_permission q \<in> set (document policy) then Some (Done (), the_store E)
         else update_result (updateUserPolicy (policies E) (the_store E) (recordName C) (pr_marker q)
           \<lparr>document = document policy @ [pr_permission q], policy_markers = policy_markers policy\<rparr>) } }))"

text \<open>The loop that splices every equal permission out of the list.\<close>

fun without_permission :: "available_permission \<Rightarrow> policy_document \<Rightarrow> bool \<times> policy_document" where
  "without_permission x [] = (False, [])"
| "without_permission x (p # ps) =
     (let (hasUpdate, rest) = without_permission x ps in if p = x then (True, rest) else (hasUpdate, p # rest))"

definition revokeMarkerPermission :: "'r records_env \<Rightarrow> 's policy_env \<Rightarrow> permission_request \<Rightarrow> unit op_result \<times> 's" where
  "revokeMarkerPermission X E q = in_context X E (pr_key q) (\<lambda>C.
     when_allowed E C (account_request (pr_key q) (pr_userId q) (pr_instances q) (RevokePermissionRequest (pr_marker q))) (do {
       policyResult \<leftarrow> getUserPolicy (policies E) (the_store E) (recordName C) (pr_marker q);
       case policyResult of
         Inl e \<Rightarrow> Some (if e = PolicyNotFound then Done () else Failed e None, the_store E)
       | Inr found \<Rightarrow> do {
           policy \<leftarrow> found;
           let (hasUpdate, doc) = without_permission (pr_permission q) (document policy) in
            if hasUpdate then update_result (updateUserPolicy (policies E) (the_store E) (recordName C) (pr_marker q)
              \<lparr>document = doc, policy_markers = policy_markers policy\<rparr>)
            else Some (Done (), the_store E) } }))"

section \<open>Reading policies and roles\<close>

text \<open>The policy is fetched before the request is authorized.\<close>

definition readUserPolicy ::
    "'r records_env \<Rightarrow> 's policy_env \<Rightarrow> string \<Rightarrow> string option \<Rightarrow> string \<Rightarrow> string list option \<Rightarrow> user_policy option op_result \<times> 's" where
  "readUserPolicy X E key user marker insts = in_context X E key (\<lambda>C. do {
     result \<leftarrow> getUserPolicy (policies E) (the_store E) (recordName C) marker;
     case result of
       Inl e \<Rightarrow> Some (Failed e None, the_store E)
     | Inr policy \<Rightarrow> when_allowed E C (account_request key user insts (ReadPolicyRequest marker))
         (Some (Done policy, the_store E)) })"

definition listUserPolicies ::
    "'r records_env \<Rightarrow> 's policy_env \<Rightarrow> string \<Rightarrow> string option \<Rightarrow> string option \<Rightarrow> string list option
      \<Rightarrow> listed_user_policy list op_result \<times> 's" where
  "listUserPolicies X E key user startingMarker insts = in_context X E key (\<lambda>C.
     when_allowed E C (account_request key user insts ListPoliciesRequest)
       (map_option (\<lambda>ps. (Done ps, the_store E))
         (PolicyStore.listUserPolicies (policies E) (the_store E) (recordName C) startingMarker)))"

definition sorted_roles :: "assigned_role list option \<Rightarrow> 's \<Rightarrow> (assigned_role list op_result \<times> 's) option" where
  "sorted_roles as s = map_option (\<lambda>as. (Done (sort_key role as), s)) as"

text \<open>Users may list their own roles, unless the request comes from an instance.\<close>

definition listUserRoles ::
    "'r records_env \<Rightarrow> 's policy_env \<Rightarrow> string \<Rightarrow> string option \<Rightarrow> string \<Rightarrow> string list option
      \<Rightarrow> assigned_role list op_result \<times> 's" where
  "listUserRoles X E key user subjectId insts = in_context X E key (\<lambda>C.
     (let found = sorted_roles (listRolesForUser (policies E) (clock E) (the_store E) (recordName C) subjectId) (the_store E) in
      if user \<noteq> Some subjectId \<or> listed insts \<noteq> []
      then when_allowed E C (account_request key user insts ListRolesRequest) found
      else found))"

definition listInstRoles ::
    "'r records_env \<Rightarrow> 's policy_env \<Rightarrow> string \<Rightarrow> string option \<Rightarrow> string \<Rightarrow> string list option
      \<Rightarrow> assigned_role list op_result \<times> 's" where
  "listInstRoles X E key user subjectId insts = in_context X E key (\<lambda>C.
     when_allowed E C (account_request key user insts ListRolesRequest)
       (sorted_roles (listRolesForInst (policies E) (clock E) (the_store E) (recordName C) subjectId) (the_store E)))"

definition listRoleAssignments ::
    "'r records_env \<Rightarrow> 's policy_env \<Rightarrow> string \<Rightarrow> string option \<Rightarrow> string \<Rightarrow> string list option
      \<Rightarrow> role_assignment list op_result \<times> 's" where
  "listRoleAssignments X E key user r insts = in_context X E key (\<lambda>C.
     when_allowed E C (account_request key user insts ListRolesRequest)
       (map_option (\<lambda>as. (Done as, the_store E)) (listAssignmentsForRole (policies E) (the_store E) (recordName C) r)))"

section \<open>Granting and revoking roles\<close>

record role_request =
  rr_role :: string
  rr_userId :: "string option"
  rr_instance :: "string option"
  rr_expireTimeMs :: "js_time option"

text \<open>\<^verbatim>\<open>makeNewRoles\<close> of \<^verbatim>\<open>grantRole\<close>.\<close>

definition makeNewRoles :: "string \<Rightarrow> js_time \<Rightarrow> assigned_role list \<Rightarrow> assigned_role list" where
  "makeNewRoles r expire roles =
     filter (\<lambda>a. role a \<noteq> r \<or> getExpireTime (expireTimeMs a) \<le> expire) roles @ [\<lparr>role = r, expireTimeMs = Some expire\<rparr>]"

definition update_roles_of ::
    "'s policy_env \<Rightarrow> string \<Rightarrow> string option \<Rightarrow> string option \<Rightarrow> (assigned_role list \<Rightarrow> assigned_role list)
      \<Rightarrow> (unit op_result \<times> 's) option" where
  "update_roles_of E rn user inst f =
     (if given user then do {
        roles \<leftarrow> listRolesForUser (policies E) (clock E) (the_store E) rn (the user);
        update_result (updateUserRoles (policies E) (clock E) (the_store E) rn (the user) (f roles)) }
      else if given inst then do {
        roles \<leftarrow> listRolesForInst (policies E) (clock E) (the_store E) rn (the inst);
        update_result (updateInstRoles (policies E) (clock E) (the_store E) rn (the inst) (f roles)) }
      else Some (Failed UnacceptableRequest None, the_store E))"

definition grantRole ::
    "'r records_env \<Rightarrow> 's policy_env \<Rightarrow> string \<Rightarrow> string option \<Rightarrow> role_request \<Rightarrow> string list option \<Rightarrow> unit op_result \<times> 's" where
  "grantRole X E key user q insts = in_context X E key (\<lambda>C.
     (let expire = getExpireTime (rr_expireTimeMs q) in
      when_allowed E C
        (account_request key user insts (GrantRoleRequest (rr_role q) (rr_userId q) (rr_instance q) (Some expire)))
        (update_roles_of E (recordName C) (rr_userId q) (rr_instance q) (makeNewRoles (rr_role q) expire))))"

definition revokeRole ::
    "'r records_env \<Rightarrow> 's policy_env \<Rightarrow> string \<Rightarrow> string option \<Rightarrow> role_request \<Rightarrow> string list option \<Rightarrow> unit op_result \<times> 's" where
  "revokeRole X E key user q insts = in_context X E key (\<lambda>C.
     when_allowed E C (account_request key user insts (RevokeRoleRequest (rr_role q) (rr_userId q) (rr_instance q)))
       (update_roles_of E (recordName C) (rr_userId q) (rr_instance q) (filter (\<lambda>a. role a \<noteq> rr_role q))))"

end
