(* ===== verification/PolicyAuthSpec.thy ===== *)
theory PolicyAuthSpec
  imports PolicyController
begin

text \<open>
  What the loops of the authorization decide, stated without loops: the roles that a subject may act
  in, the permissions of a marker, and the requests that are granted.
\<close>

section \<open>The abstract decision\<close>

definition permission_list :: "'s policy_env \<Rightarrow> string \<Rightarrow> string \<Rightarrow> available_permission list" where
  "permission_list E rn m =
     (case Option.bind (listPoliciesForMarker (policies E) (the_store E) rn m) defined_documents of
        None \<Rightarrow> [] | Some ds \<Rightarrow> concat ds)"

abbreviation permissions_of :: "'s policy_env \<Rightarrow> string \<Rightarrow> string \<Rightarrow> available_permission set" where
  "permissions_of E rn m \<equiv> set (permission_list E rn m)"

definition subject_roles :: "'s policy_env \<Rightarrow> auth_context \<Rightarrow> subject_kind \<Rightarrow> string option \<Rightarrow> string set" where
  "subject_roles E C k sid =
     (if \<not> given sid then {}
      else role_names (case k of
          User \<Rightarrow> listRolesForUser (policies E) (clock E) (the_store E) (recordName C) (the sid)
        | Inst \<Rightarrow> listRolesForInst (policies E) (clock E) (the_store E) (recordName C) (the sid)))"

definition is_owner :: "auth_context \<Rightarrow> subject_kind \<Rightarrow> string option \<Rightarrow> bool" where
  "is_owner C k sid \<longleftrightarrow> k = User \<and> sid = Some (recordOwnerId C)"

text \<open>The roles for which a subject may use a permission, on a resource and on the account.\<close>

definition resource_entitled :: "'s policy_env \<Rightarrow> auth_context \<Rightarrow> subject_kind \<Rightarrow> string option \<Rightarrow> role_name \<Rightarrow> bool" where
  "resource_entitled E C k sid r \<longleftrightarrow>
     r = Everyone \<or> (if recordKeyResult C \<noteq> None then r = admin else is_owner C k sid)
     \<or> r \<in> Role ` subject_roles E C k sid"

definition account_entitled :: "'s policy_env \<Rightarrow> auth_context \<Rightarrow> subject_kind \<Rightarrow> string option \<Rightarrow> role_name \<Rightarrow> bool" where
  "account_entitled E C k sid r \<longleftrightarrow>
     r = Everyone \<or> r \<in> Role ` subject_roles E C k sid \<or> is_owner C k sid"

definition entitled :: "bool \<Rightarrow> 's policy_env \<Rightarrow> auth_context \<Rightarrow> subject_kind \<Rightarrow> string option \<Rightarrow> role_name \<Rightarrow> bool" where
  "entitled account = (if account then account_entitled else resource_entitled)"

text \<open>The requests that one marker suffices for: the permissions that grant them, the markers, and
  whether they concern the account.\<close>

fun demand :: "regex_test \<Rightarrow> int \<Rightarrow> 'd action \<Rightarrow> ((available_permission \<Rightarrow> bool) \<times> string list \<times> bool) option" where
  "demand rx now (DataReadRequest a ms) = Some (byData rx DataRead a, ms, False)"
| "demand rx now (DataDeleteRequest a ms) = Some (byData rx DataDelete a, ms, False)"
| "demand rx now (FileReadRequest n t ms) = Some (byFile FileRead n t, ms, False)"
| "demand rx now (FileDeleteRequest n t ms) = Some (byFile FileDelete n t, ms, False)"
| "demand rx now (EventCountRequest n ms) = Some (byEvent rx EventCount n, ms, False)"
| "demand rx now (EventIncrementRequest n ms) = Some (byEvent rx EventIncrement n, ms, False)"
| "demand rx now (GrantPermissionRequest m) = Some (byPolicy rx PolicyGrantPermission m, [ACCOUNT_MARKER], True)"
| "demand rx now (RevokePermissionRequest m) = Some (byPolicy rx PolicyRevokePermission m, [ACCOUNT_MARKER], True)"
| "demand rx now (ReadPolicyRequest m) = Some (byPolicy rx PolicyRead m, [ACCOUNT_MARKER], True)"
| "demand rx now ListPoliciesRequest = Some (byPolicyList, [ACCOUNT_MARKER], True)"
| "demand rx now ListRolesRequest = Some (byRoleList, [ACCOUNT_MARKER], True)"
| "demand rx now (ReadRoleRequest r) = Some (byRoleRead rx r, [ACCOUNT_MARKER], True)"
| "demand rx now (GrantRoleRequest r u i t) =
     Some (byRoleGrant rx r u i (minus_now (getExpireTime t) now), [ACCOUNT_MARKER], True)"
| "demand rx now (RevokeRoleRequest r u i) = Some (byRoleRevoke rx r u i, [ACCOUNT_MARKER], True)"
| "demand rx now _ = None"

definition may :: "'s policy_env \<Rightarrow> auth_context \<Rightarrow> (available_permission \<Rightarrow> bool) \<Rightarrow> string list \<Rightarrow> bool
    \<Rightarrow> subject_kind \<Rightarrow> string option \<Rightarrow> bool" where
  "may E C F ms account k sid \<longleftrightarrow>
     (\<exists>m\<in>set ms. \<exists>p\<in>permissions_of E (recordName C) m. F p \<and> entitled account E C k sid (perm_role p))"

section \<open>Filters\<close>

lemma every_True: "every fs p = Some True \<longleftrightarrow> (\<forall>f\<in>set fs. f p = Some True)"
  by (induction fs) (auto split: Option.bind_splits if_splits)

lemma some_of_True: "some_of fs p = Some True \<Longrightarrow> \<exists>f\<in>set fs. f p = Some True"
  by (induction fs) (auto split: Option.bind_splits if_splits)

lemma find_permission_Some:
  "findPermissionByFilter f ps = Some (Some p) \<Longrightarrow> p \<in> set ps \<and> f (snd p) = Some True"
  by (induction ps) (auto split: Option.bind_splits if_splits)

lemma find_permission_total:
  assumes "\<And>p. f p = Some (g p)"
  shows "findPermissionByFilter f ps = Some (find (\<lambda>p. g (snd p)) ps)"
  by (induction ps) (auto simp: assms)

lemma every_pure: "every [pure F, R] p = (if F p then R p else Some False)" for R :: permission_filter
  by (cases "R p") auto

lemma resourceRole_None:
  "resourceRole E C k sid None p = Some True \<Longrightarrow> resource_entitled E C k sid (perm_role p)"
  by (auto simp: resourceRole_def resource_entitled_def byEveryoneRole_def byRole_def byAdminRole_def
      byRecordOwner_def is_owner_def bySubjectRole_def byUserRole_def byInstRole_def subject_roles_def role_names_def
      split: if_splits subject_kind.splits role_name.splits Option.bind_splits)

lemma accountRole_None:
  "accountRole E C k sid None p = Some True \<Longrightarrow> account_entitled E C k sid (perm_role p)"
  by (auto simp: accountRole_def account_entitled_def byEveryoneRole_def byRole_def
      byRecordOwner_def is_owner_def bySubjectRole_def byUserRole_def byInstRole_def subject_roles_def role_names_def
      split: if_splits subject_kind.splits role_name.splits Option.bind_splits)

lemma role_chosen: "resourceRole E C k sid (Some r) p = Some (perm_role p = r)"
  "accountRole E C k sid (Some r) p = Some (perm_role p = r)"
  by (simp_all add: resourceRole_def accountRole_def byRole_def)

text \<open>
  A subject whose roles can be read, and a request in which no name is that of a member that objects inherit: the record,
  the markers, the user and the instances.
\<close>

definition readable :: "string option \<Rightarrow> bool" where
  "readable sid \<longleftrightarrow> (\<forall>i. sid = Some i \<longrightarrow> own_name i)"

definition own_names :: "auth_context \<Rightarrow> 'd request \<Rightarrow> string list \<Rightarrow> bool" where
  "own_names C q ms \<longleftrightarrow> own_name (recordName C) \<and> list_all own_name ms \<and>
     (case userId q of None \<Rightarrow> True | Some u \<Rightarrow> own_name u) \<and> list_all own_name (listed (instances q))"

lemma own_namesD:
  assumes "own_names C q ms"
  shows "own_name (recordName C)" "readable (userId q)" "i \<in> set (listed (instances q)) \<Longrightarrow> readable (Some i)" "m \<in> set ms \<Longrightarrow> own_name m"
  using assms by (auto simp: own_names_def readable_def list_all_iff split: option.splits)

lemma defined_map_Some [simp]: "defined_documents (map Some ds) = Some ds"
  by (induction ds) auto

lemma defined_documents_iff: "defined_documents xs = Some ds \<longleftrightarrow> xs = map Some ds"
  by (induction xs arbitrary: ds) (auto simp: Option.bind_eq_Some_conv Cons_eq_map_conv)

context policy_reads
begin

lemma subjectRole_total:
  assumes "policies E = ops" and "own_name (recordName C)" and "readable sid"
  shows "bySubjectRole E C k sid p = Some (perm_role p \<in> Role ` subject_roles E C k sid)"
proof (cases "given sid")
  case True
  then have own: "own_name (the sid)" using assms(3) by (cases sid) (auto simp: readable_def given_def)
  obtain as where u: "listRolesForUser ops (clock E) (the_store E) (recordName C) (the sid) = Some as"
    using get_roles[OF assms(2) own] by blast
  obtain bs where i: "listRolesForInst ops (clock E) (the_store E) (recordName C) (the sid) = Some bs"
    using get_inst_roles[OF assms(2) own] by blast
  from u i assms(1) own show ?thesis
    by (auto simp: bySubjectRole_def byUserRole_def byInstRole_def subject_roles_def role_names_def own_name_def
        image_image split: subject_kind.splits role_name.splits)
qed (simp add: bySubjectRole_def subject_roles_def)

lemma resourceRole_total:
  assumes "policies E = ops" and "own_name (recordName C)" and "readable sid"
  shows "resourceRole E C k sid None p = Some (resource_entitled E C k sid (perm_role p))"
  using subjectRole_total[OF assms]
  by (auto simp: resourceRole_def resource_entitled_def byEveryoneRole_def byRole_def byAdminRole_def byRecordOwner_def
      is_owner_def split: subject_kind.splits)

lemma accountRole_total:
  assumes "policies E = ops" and "own_name (recordName C)" and "readable sid"
  shows "accountRole E C k sid None p = Some (account_entitled E C k sid (perm_role p))"
  using subjectRole_total[OF assms]
  by (auto simp: accountRole_def account_entitled_def byEveryoneRole_def byRole_def byRecordOwner_def
      is_owner_def split: subject_kind.splits)

lemma list_permissions_total:
  assumes "policies E = ops" and "own_name rn" and "\<And>m. m \<in> set ms \<Longrightarrow> own_name m"
  shows "\<exists>mps. listPermissionsForMarkers E rn ms = Some mps"
  using assms(3)
proof (induction ms)
  case (Cons m ms)
  have m: "own_name m" and rest: "\<exists>mps. listPermissionsForMarkers E rn ms = Some mps" using Cons by simp_all
  obtain ds where "listPoliciesForMarker ops (the_store E) rn m = Some (map Some ds)" using get_policies[OF assms(2) m] by blast
  with rest assms(1) show ?case by auto
qed simp

end

lemma list_permissions:
  assumes "listPermissionsForMarkers E rn ms = Some mps"
  shows "map fst mps = ms" and "mp \<in> set mps \<Longrightarrow> map snd (snd mp) = permission_list E rn (fst mp)"
proof -
  from assms have "map fst mps = ms \<and> (\<forall>mp\<in>set mps. map snd (snd mp) = permission_list E rn (fst mp))"
  proof (induction ms arbitrary: mps)
    case (Cons m ms)
    from Cons.prems obtain xs ds rest where d: "listPoliciesForMarker (policies E) (the_store E) rn m = Some xs"
      "listPermissionsForMarkers E rn ms = Some rest" "mps = (m, concat (map (\<lambda>d. map (Pair d) d) ds)) # rest"
      "defined_documents xs = Some ds"
      by (auto split: Option.bind_splits)
    have "map snd (concat (map (\<lambda>d. map (Pair d) d) ds)) = concat ds"
      by (induction ds) (simp_all add: comp_def)
    with Cons.IH[OF d(2)] d(1,3,4) show ?case by (simp add: permission_list_def)
  qed simp
  then show "map fst mps = ms" "mp \<in> set mps \<Longrightarrow> map snd (snd mp) = permission_list E rn (fst mp)" by blast+
qed

lemma list_permissions_set:
  assumes "listPermissionsForMarkers E rn ms = Some mps" and "mp \<in> set mps"
  shows "snd ` set (snd mp) = permissions_of E rn (fst mp)"
  using arg_cong[OF list_permissions(2)[OF assms], of set] by simp

lemma in_markers:
  assumes "listPermissionsForMarkers E rn ms = Some mps"
  shows "(\<exists>mp\<in>set mps. \<exists>p\<in>set (snd mp). P (snd p)) \<longleftrightarrow> (\<exists>m\<in>set ms. \<exists>p\<in>permissions_of E rn m. P p)"
proof -
  note same = list_permissions_set[OF assms, symmetric]
  then show ?thesis unfolding list_permissions(1)[OF assms, symmetric] by auto
qed

section \<open>One marker suffices\<close>

lemma any_marker_sound:
  assumes "any_marker F t R k sid mps d = Some (Inr a)"
  shows "\<exists>(m, ps)\<in>set mps. \<exists>p\<in>set ps. F (snd p) \<and> R None (snd p) = Some True \<and> auth_role a = perm_role (snd p)
    \<and> auth_markers a = [\<lparr>auth_marker = m, actions = [authorized_by t p]\<rparr>]"
  using assms
proof (induction mps arbitrary: d)
  case (Cons mp mps)
  obtain m ps where mp: "mp = (m, ps)" by force
  show ?case
  proof (cases "findPermissionByFilter (every [pure F, R None]) ps")
    case (Some x)
    show ?thesis
    proof (cases x)
      case None
      with Some Cons.prems mp have "any_marker F t R k sid mps (Some (MissingPermission k sid m t None)) = Some (Inr a)"
        by (simp del: every.simps)
      from Cons.IH[OF this] show ?thesis by auto
    next
      case (Some p)
      with \<open>findPermissionByFilter _ ps = Some x\<close> have "p \<in> set ps" "every [pure F, R None] (snd p) = Some True"
        by (auto dest: find_permission_Some simp del: every.simps)
      with Cons.prems mp \<open>findPermissionByFilter _ ps = Some x\<close> Some show ?thesis
        by (auto simp: every_True simp del: every.simps)
    qed
  qed (use Cons.prems mp in \<open>simp del: every.simps\<close>)
qed simp

lemma any_marker_total:
  assumes "\<And>p. R None p = Some (ent (perm_role p))"
  shows "\<exists>g. any_marker F t R k sid mps d = Some g \<and>
    ((\<exists>a. g = Inr a) \<longleftrightarrow> (\<exists>mp\<in>set mps. \<exists>p\<in>set (snd mp). F (snd p) \<and> ent (perm_role (snd p))))"
proof (induction mps arbitrary: d)
  case (Cons mp mps)
  obtain m ps where mp: "mp = (m, ps)" by force
  have "every [pure F, R None] p = Some (F p \<and> ent (perm_role p))" for p
    by (simp add: every_pure assms del: every.simps)
  from find_permission_total[of "every [pure F, R None]", OF this]
  have found: "findPermissionByFilter (every [pure F, R None]) ps = Some (find (\<lambda>p. F (snd p) \<and> ent (perm_role (snd p))) ps)" .
  show ?case
  proof (cases "find (\<lambda>p. F (snd p) \<and> ent (perm_role (snd p))) ps")
    case None
    then have none: "\<not> (\<exists>p\<in>set ps. F (snd p) \<and> ent (perm_role (snd p)))" by (auto simp: find_None_iff)
    from found None mp have "any_marker F t R k sid (mp # mps) d =
        any_marker F t R k sid mps (Some (MissingPermission k sid m t None))"
      by (simp del: every.simps)
    moreover have "(\<exists>mp\<in>set (mp # mps). \<exists>p\<in>set (snd mp). F (snd p) \<and> ent (perm_role (snd p))) \<longleftrightarrow>
        (\<exists>mp\<in>set mps. \<exists>p\<in>set (snd mp). F (snd p) \<and> ent (perm_role (snd p)))"
      using none mp by auto
    ultimately show ?thesis using Cons.IH[of "Some (MissingPermission k sid m t None)"] by (simp only:)
  next
    case (Some p)
    then have "\<exists>p\<in>set ps. F (snd p) \<and> ent (perm_role (snd p))" by (auto simp: find_Some_iff)
    with found Some mp show ?thesis by (simp del: every.simps)
  qed
qed simp

section \<open>All subjects of a request\<close>

lemma authorizeInstances_sound:
  assumes "authorizeInstances False authorize is items auths = Some (Inr r)"
  shows "\<forall>i\<in>set is. \<exists>a own. authorize Inst (Some i) = Some (Inr a, own)"
  using assms
  by (induction "is" arbitrary: items auths) (auto simp: Let_def split: Option.bind_splits sum.splits if_splits)

lemma authorizeInstances_skip: "authorizeInstances True authorize is items auths = Some (Inr (auths @ map NotRequired is, items))"
  by (induction "is" arbitrary: auths) auto

lemma authorizeInstances_total:
  assumes "\<forall>i\<in>set is. \<exists>g. f Inst (Some i) = Some g \<and> ((\<exists>a. g = Inr a) \<longleftrightarrow> P i)"
  shows "\<exists>g. authorizeInstances False (without_items f) is None auths = Some g \<and> ((\<exists>r. g = Inr r) \<longleftrightarrow> (\<forall>i\<in>set is. P i))"
  using assms
proof (induction "is" arbitrary: auths)
  case (Cons i "is")
  then obtain g where g: "f Inst (Some i) = Some g" "(\<exists>a. g = Inr a) \<longleftrightarrow> P i" by auto
  show ?case
  proof (cases g)
    case (Inl d)
    with g show ?thesis by (auto simp: without_items_def)
  next
    case (Inr a)
    with g Cons show ?thesis by (auto simp: without_items_def)
  qed
qed simp

lemma authorizeInstances_decision:
  assumes "\<forall>i\<in>set is. \<exists>g. f Inst (Some i) = Some g \<and> ((\<exists>a. g = Inr a) \<longleftrightarrow> P i)"
  shows "\<exists>g. authorizeInstances skip (without_items f) is None auths = Some g \<and>
    ((\<exists>r. g = Inr r) \<longleftrightarrow> skip \<or> (\<forall>i\<in>set is. P i))"
  using authorizeInstances_total[where f = f and P = P, OF assms, of auths]
  by (cases skip) (auto simp: authorizeInstances_skip)

lemma authorize_request_sound:
  assumes "authorize_request E C q ms authorize skipWhenKey = Some (Allowed r)"
  shows "\<exists>mps own auths items.
    length (listed (instances q)) \<le> 2 \<and> ms \<noteq> [] \<and> listPermissionsForMarkers E (recordName C) ms = Some mps \<and>
    authorize mps User (userId q) = Some (Inr (subject r), own) \<and>
    authorizeInstances (skipWhenKey \<and> recordKeyResult C \<noteq> None) (authorize mps) (listed (instances q)) own [] = Some (Inr (auths, items)) \<and>
    r = \<lparr>res_recordName = recordName C, recordKeyOwnerId = map_option vk_keyCreatorId (recordKeyResult C),
         authorizerId = (case recordKeyResult C of Some v \<Rightarrow> Some (vk_keyCreatorId v) | None \<Rightarrow> userId q),
         subject = subject r, subject_userId = userId q, subject_policy = subjectPolicy C,
         res_instances = auths, allowedDataItems = items\<rparr>"
  using assms
  by (auto simp: authorize_request_def Let_def listed_def[symmetric] MAX_ALLOWED_INSTANCES_def
      split: if_splits Option.bind_splits sum.splits option.splits)

text \<open>A request with one filter for every subject is granted exactly if every subject passes.\<close>

lemma authorize_request_decision:
  fixes q :: "'d request"
  assumes total: "\<And>mps k sid. readable sid \<Longrightarrow> listPermissionsForMarkers E (recordName C) ms = Some mps \<Longrightarrow>
      \<exists>g. f mps k sid = Some g \<and> ((\<exists>a. g = Inr a) \<longleftrightarrow> P k sid)"
    and mps: "listPermissionsForMarkers E (recordName C) ms = Some mps"
    and names: "own_names C q ms"
  shows "\<exists>res. authorize_request E C q ms (\<lambda>mps. without_items (f mps)) skipWhenKey = Some res \<and>
    ((\<exists>r. res = Allowed r) \<longleftrightarrow> length (listed (instances q)) \<le> 2 \<and> ms \<noteq> [] \<and> P User (userId q)
      \<and> (skipWhenKey \<and> recordKeyResult C \<noteq> None \<or> (\<forall>i\<in>set (listed (instances q)). P Inst (Some i))))"
proof -
  let ?skip = "skipWhenKey \<and> recordKeyResult C \<noteq> None"
  obtain g where g: "f mps User (userId q) = Some g" "(\<exists>a. g = Inr a) \<longleftrightarrow> P User (userId q)"
    using total[OF own_namesD(2)[OF names] mps, of User] by blast
  have "\<forall>i\<in>set (listed (instances q)). \<exists>g. f mps Inst (Some i) = Some g \<and> ((\<exists>a. g = Inr a) \<longleftrightarrow> P Inst (Some i))"
  proof
    fix i assume "i \<in> set (listed (instances q))"
    with names have "readable (Some i)" by (rule own_namesD(3))
    from total[OF this mps] show "\<exists>g. f mps Inst (Some i) = Some g \<and> ((\<exists>a. g = Inr a) \<longleftrightarrow> P Inst (Some i))" .
  qed
  from authorizeInstances_decision[where f = "f mps" and P = "\<lambda>i. P Inst (Some i)" and skip = ?skip, OF this]
  obtain h :: "denial_reason + inst_authorization list \<times> 'd listed_item list option" where h: "authorizeInstances ?skip (without_items (f mps)) (listed (instances q)) None [] = Some h"
    "(\<exists>r. h = Inr r) \<longleftrightarrow> ?skip \<or> (\<forall>i\<in>set (listed (instances q)). P Inst (Some i))" by blast
  show ?thesis
  proof (cases g)
    case (Inl d)
    with g mps show ?thesis
      by (auto simp: authorize_request_def Let_def listed_def[symmetric] MAX_ALLOWED_INSTANCES_def without_items_def)
  next
    case (Inr a)
    with g mps h show ?thesis
      by (cases h) (auto simp: authorize_request_def Let_def listed_def[symmetric] MAX_ALLOWED_INSTANCES_def without_items_def)
  qed
qed

section \<open>The decision for one marker\<close>

context policy_reads
begin

lemma entitled_total:
  assumes "policies E = ops" and "own_name (recordName C)" and "readable sid"
  shows "(if account then accountRole else resourceRole) E C k sid None p = Some (entitled account E C k sid (perm_role p))"
  using accountRole_total[OF assms] resourceRole_total[OF assms] by (simp add: entitled_def)

lemma any_request_decision:
  assumes ops: "policies E = ops" and names: "own_names C q ms"
  shows "\<exists>res. authorize_request E C q ms (\<lambda>mps. without_items (\<lambda>k sid.
      any_marker F t ((if account then accountRole else resourceRole) E C k sid) k sid mps None)) (\<not> account) = Some res \<and>
    ((\<exists>r. res = Allowed r) \<longleftrightarrow> length (listed (instances q)) \<le> 2 \<and> ms \<noteq> [] \<and> may E C F ms account User (userId q)
      \<and> (\<not> account \<and> recordKeyResult C \<noteq> None \<or> (\<forall>i\<in>set (listed (instances q)). may E C F ms account Inst (Some i))))"
proof -
  obtain mps where mps: "listPermissionsForMarkers E (recordName C) ms = Some mps"
    using list_permissions_total[OF ops own_namesD(1,4)[OF names]] by blast
  show ?thesis
  proof (rule authorize_request_decision[OF _ mps names])
    fix mps k sid assume "readable sid" and mps: "listPermissionsForMarkers E (recordName C) ms = Some mps"
    from any_marker_total[of "(if account then accountRole else resourceRole) E C k sid", OF entitled_total[OF ops own_namesD(1)[OF names] this(1)]]
    show "\<exists>g. any_marker F t ((if account then accountRole else resourceRole) E C k sid) k sid mps None = Some g \<and>
        ((\<exists>a. g = Inr a) \<longleftrightarrow> may E C F ms account k sid)"
      unfolding may_def in_markers[OF mps, where P = "\<lambda>p. F p \<and> entitled account E C k sid (perm_role p)", symmetric] .
  qed
qed

lemmas resource_decision = any_request_decision[where account = False, unfolded if_False not_False_eq_True simp_thms]
lemmas account_decision = any_request_decision[where account = True, unfolded if_True not_True_eq_False simp_thms]

lemma demand_decision:
  assumes "policies E = ops" and "own_names C q ms"
    and "demand (testRegex E) (clock E) (request_action q) = Some (F, ms, account)"
  shows "\<exists>res. authorizeRequestUsingContext E C q = Some res \<and>
    ((\<exists>r. res = Allowed r) \<longleftrightarrow> length (listed (instances q)) \<le> 2 \<and> ms \<noteq> [] \<and> may E C F ms account User (userId q)
      \<and> (\<not> account \<and> recordKeyResult C \<noteq> None \<or> (\<forall>i\<in>set (listed (instances q)). may E C F ms account Inst (Some i))))"
proof -
  note resource = resource_decision[OF assms(1,2)] and account = account_decision[OF assms(1,2)]
  from assms(3) show ?thesis
    by (cases "request_action q") (auto simp only: not_False_eq_True not_True_eq_False simp_thms demand.simps option.inject prod.inject option.distinct
        authorizeRequestUsingContext_def action.case authorizeDataRead_def authorizeDataDelete_def authorizeFileRead_def
        authorizeFileDelete_def authorizeEventCount_def authorizeEventIncrement_def authorizePolicyGrantPermission_def
        authorizePolicyRevokePermission_def authorizePolicyRead_def authorizePolicyList_def authorizeRoleList_def
        authorizeRoleRead_def authorizeRoleGrant_def authorizeRoleRevoke_def intro!: resource account)
qed

end

end
