(* ===== verification/PolicyLoops.thy ===== *)
theory PolicyLoops
  imports PolicyAuthSpec
begin

text \<open>
  The loops that need more than one marker: creating resources and updating files (every marker, for one
  role), updating data and events, and listing data.
\<close>

section \<open>A marker for one role\<close>

text \<open>
  A role covers a marker if the marker's policies permit the role the action and, where the marker is
  assigned or unassigned, permit that to the role or to everyone.
\<close>

definition covered ::
    "regex_test \<Rightarrow> (available_permission \<Rightarrow> bool) \<Rightarrow> (string \<Rightarrow> policy_action option) \<Rightarrow> role_name \<Rightarrow> string
      \<Rightarrow> available_permission set \<Rightarrow> bool" where
  "covered rx F assigning r m ps \<longleftrightarrow>
     (\<exists>p\<in>ps. F p \<and> perm_role p = r) \<and>
     (\<forall>pa. assigning m = Some pa \<longrightarrow> (\<exists>p\<in>ps. byPolicy rx pa m p \<and> perm_role p \<in> {Everyone, r}))"

lemma covered_code [code]:
  "covered rx F assigning r m ps \<longleftrightarrow> (\<exists>p\<in>ps. F p \<and> perm_role p = r) \<and>
     (case assigning m of None \<Rightarrow> True | Some pa \<Rightarrow> (\<exists>p\<in>ps. byPolicy rx pa m p \<and> perm_role p \<in> {Everyone, r}))"
  by (simp add: covered_def split: option.split)

lemma every_total:
  assumes "R p = Some (P (perm_role p))"
  shows "every [pure F, R] p = Some (F p \<and> P (perm_role p))"
  by (simp add: every_pure assms del: every.simps)

lemma policy_filter:
  "every [pure G, some_of [pure byEveryoneRole, pure (byRole r)]] p = Some (G p \<and> perm_role p \<in> {Everyone, r})"
  by (auto simp: byEveryoneRole_def byRole_def)

lemma authorize_marker_total:
  assumes "\<And>p. R r p = Some (P (perm_role p))" and "\<And>\<rho>. r = Some \<rho> \<Longrightarrow> P = (\<lambda>x. x = \<rho>)"
  shows "\<exists>g. authorize_marker rx F t R assigning k sid r (m, ps) = Some g \<and>
    (case g of
       Inr (\<rho>, ma) \<Rightarrow> map_option (\<lambda>p. perm_role (snd p)) (find (\<lambda>p. F (snd p) \<and> P (perm_role (snd p))) ps) = Some \<rho> \<and>
         covered rx F assigning \<rho> m (snd ` set ps) \<and> auth_marker ma = m
     | Inl d \<Rightarrow> \<forall>p. find (\<lambda>p. F (snd p) \<and> P (perm_role (snd p))) ps = Some p \<longrightarrow>
         assigning m \<noteq> None \<and> \<not> covered rx F assigning (perm_role (snd p)) m (snd ` set ps))"
proof -
  let ?q = "find (\<lambda>p. F (snd p) \<and> P (perm_role (snd p))) ps"
  have found: "findPermissionByFilter (every [pure F, R r]) ps = Some ?q"
    by (rule find_permission_total) (rule every_total[where P = P, OF assms(1)])
  have policy: "findPermissionByFilter (every [pure (byPolicy rx pa m), some_of [pure byEveryoneRole, pure (byRole \<rho>)]]) ps
      = Some (find (\<lambda>p. byPolicy rx pa m (snd p) \<and> perm_role (snd p) \<in> {Everyone, \<rho>}) ps)" for pa \<rho>
    by (rule find_permission_total) (rule policy_filter)
  show ?thesis
  proof (cases ?q)
    case None
    with found show ?thesis by (simp add: authorize_marker_def del: every.simps some_of.simps)
  next
    case (Some p)
    then have p: "p \<in> set ps" "F (snd p)" "P (perm_role (snd p))" by (auto simp: find_Some_iff)
    have role: "(case r of None \<Rightarrow> perm_role (snd p) | Some r \<Rightarrow> r) = perm_role (snd p)"
      using assms(2) p(3) by (cases r) auto
    have F: "\<exists>x\<in>snd ` set ps. F x \<and> perm_role x = perm_role (snd p)" using p by blast
    show ?thesis
    proof (cases "assigning m")
      case None
      with found Some role F show ?thesis
        by (simp add: authorize_marker_def Let_def covered_def del: every.simps some_of.simps)
    next
      case pa: (Some pa)
      show ?thesis
      proof (cases "find (\<lambda>q. byPolicy rx pa m (snd q) \<and> perm_role (snd q) \<in> {Everyone, perm_role (snd p)}) ps")
        case None
        then have "\<not> covered rx F assigning (perm_role (snd p)) m (snd ` set ps)"
          using pa by (auto simp: covered_def find_None_iff)
        moreover from found Some role pa policy[of pa "perm_role (snd p)"] None
        have "authorize_marker rx F t R assigning k sid r (m, ps) =
            Some (Inl (MissingPermission k sid m (TPolicy pa) (Some (perm_role (snd p)))))"
          by (simp add: authorize_marker_def Let_def del: every.simps some_of.simps insert_iff)
        ultimately show ?thesis using Some pa by simp
      next
        case q: (Some q)
        then have "\<exists>x\<in>snd ` set ps. byPolicy rx pa m x \<and> perm_role x \<in> {Everyone, perm_role (snd p)}"
          by (auto simp: find_Some_iff)
        with found Some role pa policy q F show ?thesis
          by (simp add: authorize_marker_def Let_def covered_def del: every.simps some_of.simps)
      qed
    qed
  qed
qed

lemma find_in: "find P xs = Some x \<Longrightarrow> x \<in> set xs \<and> P x"
  by (auto simp: find_Some_iff)

lemma find_role: "map_option (\<lambda>p. perm_role (snd p)) (find (\<lambda>p. F (snd p) \<and> perm_role (snd p) = \<rho>) ps) = Some \<rho>'
    \<longleftrightarrow> \<rho>' = \<rho> \<and> (\<exists>p\<in>snd ` set ps. F p \<and> perm_role p = \<rho>)"
  by (induction ps) auto

section \<open>Every marker\<close>

lemma all_markers_chosen:
  assumes "\<And>p. R (Some \<rho>) p = Some (perm_role p = \<rho>)"
  shows "\<exists>g. all_markers rx F t R assigning k sid (Some \<rho>) auths mps = Some g \<and>
    ((\<exists>a. g = Inr a) \<longleftrightarrow> \<rho> \<noteq> Role [] \<and> (\<forall>mp\<in>set mps. covered rx F assigning \<rho> (fst mp) (snd ` set (snd mp))))
    \<and> (\<forall>a. g = Inr a \<longrightarrow> auth_role a = \<rho>)"
proof (induction mps arbitrary: auths)
  case Nil
  then show ?case by (auto simp: with_role_def)
next
  case (Cons mp mps)
  obtain m ps where mp: "mp = (m, ps)" by force
  obtain g where g: "authorize_marker rx F t R assigning k sid (Some \<rho>) (m, ps) = Some g"
    "case g of Inr (\<rho>', ma) \<Rightarrow> map_option (\<lambda>p. perm_role (snd p)) (find (\<lambda>p. F (snd p) \<and> perm_role (snd p) = \<rho>) ps) = Some \<rho>' \<and>
         covered rx F assigning \<rho>' m (snd ` set ps) \<and> auth_marker ma = m
     | Inl d \<Rightarrow> \<forall>p. find (\<lambda>p. F (snd p) \<and> perm_role (snd p) = \<rho>) ps = Some p \<longrightarrow>
         assigning m \<noteq> None \<and> \<not> covered rx F assigning (perm_role (snd p)) m (snd ` set ps)"
    using authorize_marker_total[where P = "\<lambda>x. x = \<rho>" and R = R and r = "Some \<rho>", OF assms] by blast
  show ?case
  proof (cases g)
    case (Inl d)
    have "\<not> covered rx F assigning \<rho> m (snd ` set ps)"
    proof (cases "find (\<lambda>p. F (snd p) \<and> perm_role (snd p) = \<rho>) ps")
      case None
      then show ?thesis by (force simp: covered_def find_None_iff)
    next
      case (Some p)
      then have "perm_role (snd p) = \<rho>" by (auto simp: find_Some_iff)
      with g(2) Inl Some show ?thesis by auto
    qed
    with g(1) Inl mp show ?thesis by auto
  next
    case (Inr x)
    obtain \<rho>' ma where x: "x = (\<rho>', ma)" by force
    with g(2) Inr find_role[of F \<rho> ps \<rho>'] have "\<rho>' = \<rho>" "covered rx F assigning \<rho>' m (snd ` set ps)" by simp_all
    with x have "x = (\<rho>, ma)" "covered rx F assigning \<rho> m (snd ` set ps)" by simp_all
    with g(1) Inr mp Cons.IH show ?thesis by auto
  qed
qed

text \<open>The role that decides: that of the first permission for the action that the subject is entitled to.\<close>

definition chosen_role ::
    "'s policy_env \<Rightarrow> auth_context \<Rightarrow> (available_permission \<Rightarrow> bool) \<Rightarrow> string \<Rightarrow> subject_kind \<Rightarrow> string option \<Rightarrow> role_name option" where
  "chosen_role E C F m k sid =
     map_option perm_role (find (\<lambda>p. F p \<and> resource_entitled E C k sid (perm_role p)) (permission_list E (recordName C) m))"

definition may_all ::
    "'s policy_env \<Rightarrow> auth_context \<Rightarrow> (available_permission \<Rightarrow> bool) \<Rightarrow> (string \<Rightarrow> policy_action option) \<Rightarrow> string list
      \<Rightarrow> subject_kind \<Rightarrow> string option \<Rightarrow> bool" where
  "may_all E C F assigning ms k sid \<longleftrightarrow>
     (\<exists>r. chosen_role E C F (hd ms) k sid = Some r \<and> r \<noteq> Role [] \<and>
       (\<forall>m\<in>set ms. covered (testRegex E) F assigning r m (permissions_of E (recordName C) m)))"

lemma may_all_code [code]:
  "may_all E C F assigning ms k sid \<longleftrightarrow>
     (case chosen_role E C F (hd ms) k sid of
        None \<Rightarrow> False
      | Some r \<Rightarrow> r \<noteq> Role [] \<and> (\<forall>m\<in>set ms. covered (testRegex E) F assigning r m (permissions_of E (recordName C) m)))"
  by (simp add: may_all_def split: option.split)

lemma find_map: "find P (map f xs) = map_option f (find (P \<circ> f) xs)"
  by (induction xs) auto

lemma all_markers_total:
  assumes "\<And>p. R None p = Some (P (perm_role p))" and "\<And>\<rho> p. R (Some \<rho>) p = Some (perm_role p = \<rho>)"
  shows "\<exists>g. all_markers rx F t R assigning k sid None auths (mp # mps) = Some g \<and>
    ((\<exists>a. g = Inr a) \<longleftrightarrow>
      (\<exists>\<rho>. map_option perm_role (find (\<lambda>p. F p \<and> P (perm_role p)) (map snd (snd mp))) = Some \<rho> \<and> \<rho> \<noteq> Role [] \<and>
        (\<forall>mp\<in>set (mp # mps). covered rx F assigning \<rho> (fst mp) (snd ` set (snd mp)))))"
proof -
  obtain m ps where mp: "mp = (m, ps)" by force
  obtain g where g: "authorize_marker rx F t R assigning k sid None (m, ps) = Some g"
    "case g of Inr (\<rho>', ma) \<Rightarrow> map_option (\<lambda>p. perm_role (snd p)) (find (\<lambda>p. F (snd p) \<and> P (perm_role (snd p))) ps) = Some \<rho>' \<and>
         covered rx F assigning \<rho>' m (snd ` set ps) \<and> auth_marker ma = m
     | Inl d \<Rightarrow> \<forall>p. find (\<lambda>p. F (snd p) \<and> P (perm_role (snd p))) ps = Some p \<longrightarrow>
         assigning m \<noteq> None \<and> \<not> covered rx F assigning (perm_role (snd p)) m (snd ` set ps)"
    using authorize_marker_total[where P = P and R = R and r = None, OF assms(1)] by blast
  show ?thesis
  proof (cases g)
    case (Inl d)
    with g mp show ?thesis by (auto simp: find_map comp_def)
  next
    case (Inr x)
    obtain \<rho> ma where x: "x = (\<rho>, ma)" by force
    obtain h where h: "all_markers rx F t R assigning k sid (Some \<rho>) (auths @ [ma]) mps = Some h"
      "(\<exists>a. h = Inr a) \<longleftrightarrow> \<rho> \<noteq> Role [] \<and> (\<forall>mp\<in>set mps. covered rx F assigning \<rho> (fst mp) (snd ` set (snd mp)))"
      using all_markers_chosen[where R = R and \<rho> = \<rho>, OF assms(2)] by blast
    from g(1) Inr x mp h(1) have all: "all_markers rx F t R assigning k sid None auths (mp # mps) = Some h" by simp
    from g(2) Inr x have chosen: "map_option perm_role (find (\<lambda>p. F p \<and> P (perm_role p)) (map snd (snd mp))) = Some \<rho>"
      "covered rx F assigning \<rho> m (snd ` set ps)"
      by (simp_all add: mp find_map comp_def option.map_comp)
    have "(\<exists>a. h = Inr a) \<longleftrightarrow> \<rho> \<noteq> Role [] \<and> (\<forall>mp\<in>set (mp # mps). covered rx F assigning \<rho> (fst mp) (snd ` set (snd mp)))"
      using h(2) chosen(2) mp by simp
    with all show ?thesis unfolding chosen(1) by (simp only: option.inject) blast
  qed
qed

context policy_reads
begin

lemma all_decision:
  assumes ops: "policies E = ops" and own: "own_name (recordName C)" "readable sid" and "ms \<noteq> []"
    and mps: "listPermissionsForMarkers E (recordName C) ms = Some mps"
  shows "\<exists>g. all_markers (testRegex E) F t (resourceRole E C k sid) assigning k sid None [] mps = Some g \<and>
    ((\<exists>a. g = Inr a) \<longleftrightarrow> may_all E C F assigning ms k sid)"
proof -
  note lp = list_permissions[OF mps]
  from lp(1) assms(4) obtain mp rest where split: "mps = mp # rest" "hd ms = fst mp" by (cases mps) auto
  from lp(2) split have perms: "map snd (snd mp) = permission_list E (recordName C) (hd ms)" by simp
  have "(\<forall>mp\<in>set mps. covered (testRegex E) F assigning \<rho> (fst mp) (snd ` set (snd mp))) \<longleftrightarrow>
      (\<forall>m\<in>set ms. covered (testRegex E) F assigning \<rho> m (permissions_of E (recordName C) m))" for \<rho>
    unfolding lp(1)[symmetric] using list_permissions_set[OF mps] by auto
  from all_markers_total[of "resourceRole E C k sid" "resource_entitled E C k sid", OF resourceRole_total[OF ops own] role_chosen(1),
      where mp = mp and mps = rest, folded split(1), unfolded perms, folded split(2), of "testRegex E" F t assigning k sid "[]", unfolded this]
  show ?thesis unfolding may_all_def chosen_role_def .
qed

end

section \<open>Updates\<close>

abbreviation mp_covered ::
    "regex_test \<Rightarrow> (available_permission \<Rightarrow> bool) \<Rightarrow> (string \<Rightarrow> policy_action option) \<Rightarrow> role_name \<Rightarrow> marker_permission \<Rightarrow> bool" where
  "mp_covered rx F assigning r mp \<equiv> covered rx F assigning r (fst mp) (snd ` set (snd mp))"

text \<open>With a role: the markers that change must be covered, and an existing one, or all.\<close>

lemma update_markers_chosen:
  assumes "\<And>p. R (Some \<rho>) p = Some (perm_role p = \<rho>)"
  shows "\<exists>g. update_markers rx F t R assigning existing k sid (Some \<rho>) auths permitted denial mps = Some g \<and>
    ((\<exists>a. g = Inr a) \<longleftrightarrow> \<rho> \<noteq> Role [] \<and>
      (\<forall>mp\<in>set mps. assigning (fst mp) \<noteq> None \<longrightarrow> mp_covered rx F assigning \<rho> mp) \<and>
      (permitted \<or> denial = None \<and> (\<forall>mp\<in>set mps. mp_covered rx F assigning \<rho> mp) \<or>
        (\<exists>mp\<in>set mps. fst mp \<in> set existing \<and> mp_covered rx F assigning \<rho> mp)))
    \<and> (\<forall>a. g = Inr a \<longrightarrow> auth_role a = \<rho>)"
proof (induction mps arbitrary: auths permitted denial)
  case Nil
  then show ?case by (cases permitted; cases denial) (auto simp: with_role_def)
next
  case (Cons mp mps)
  obtain m ps where mp: "mp = (m, ps)" by force
  obtain g where g: "authorize_marker rx F t R assigning k sid (Some \<rho>) (m, ps) = Some g"
    "case g of Inr (\<rho>', ma) \<Rightarrow> map_option (\<lambda>p. perm_role (snd p)) (find (\<lambda>p. F (snd p) \<and> perm_role (snd p) = \<rho>) ps) = Some \<rho>' \<and>
         covered rx F assigning \<rho>' m (snd ` set ps) \<and> auth_marker ma = m
     | Inl d \<Rightarrow> \<forall>p. find (\<lambda>p. F (snd p) \<and> perm_role (snd p) = \<rho>) ps = Some p \<longrightarrow>
         assigning m \<noteq> None \<and> \<not> covered rx F assigning (perm_role (snd p)) m (snd ` set ps)"
    using authorize_marker_total[where P = "\<lambda>x. x = \<rho>" and R = R and r = "Some \<rho>", OF assms] by blast
  show ?case
  proof (cases g)
    case (Inl d)
    have none: "\<not> covered rx F assigning \<rho> m (snd ` set ps)"
    proof (cases "find (\<lambda>p. F (snd p) \<and> perm_role (snd p) = \<rho>) ps")
      case None
      then show ?thesis by (force simp: covered_def find_None_iff)
    next
      case (Some p)
      then have "perm_role (snd p) = \<rho>" by (auto simp: find_Some_iff)
      with g(2) Inl Some show ?thesis by auto
    qed
    show ?thesis
    proof (cases "assigning m")
      case None
      with g(1) Inl mp have "update_markers rx F t R assigning existing k sid (Some \<rho>) auths permitted denial (mp # mps) =
          update_markers rx F t R assigning existing k sid (Some \<rho>) auths permitted (Some d) mps" by simp
      with Cons.IH[of auths permitted "Some d"] none None mp show ?thesis by simp
    next
      case (Some pa)
      with g(1) Inl mp none show ?thesis by auto
    qed
  next
    case (Inr x)
    obtain \<rho>' ma where x: "x = (\<rho>', ma)" by force
    with g(2) Inr find_role[of F \<rho> ps \<rho>'] have c: "\<rho>' = \<rho>" "covered rx F assigning \<rho> m (snd ` set ps)" by simp_all
    with g(1) Inr x mp have "update_markers rx F t R assigning existing k sid (Some \<rho>) auths permitted denial (mp # mps) =
        update_markers rx F t R assigning existing k sid (Some \<rho>) (auths @ [ma]) (permitted \<or> m \<in> set existing) denial mps"
      by simp
    then have step: "update_markers rx F t R assigning existing k sid (Some \<rho>) auths permitted denial (mp # mps) =
        update_markers rx F t R assigning existing k sid (Some \<rho>) (auths @ [ma]) (permitted \<or> m \<in> set existing) denial mps" .
    have eqs: "(\<forall>x\<in>set (mp # mps). assigning (fst x) \<noteq> None \<longrightarrow> mp_covered rx F assigning \<rho> x) \<longleftrightarrow>
        (\<forall>x\<in>set mps. assigning (fst x) \<noteq> None \<longrightarrow> mp_covered rx F assigning \<rho> x)"
      "(\<forall>x\<in>set (mp # mps). mp_covered rx F assigning \<rho> x) \<longleftrightarrow> (\<forall>x\<in>set mps. mp_covered rx F assigning \<rho> x)"
      "(\<exists>x\<in>set (mp # mps). fst x \<in> set existing \<and> mp_covered rx F assigning \<rho> x) \<longleftrightarrow>
        m \<in> set existing \<or> (\<exists>x\<in>set mps. fst x \<in> set existing \<and> mp_covered rx F assigning \<rho> x)"
      using c mp by simp_all
    obtain h where h: "update_markers rx F t R assigning existing k sid (Some \<rho>) (auths @ [ma]) (permitted \<or> m \<in> set existing) denial mps = Some h"
      "(\<exists>a. h = Inr a) \<longleftrightarrow> \<rho> \<noteq> Role [] \<and>
        (\<forall>mp\<in>set mps. assigning (fst mp) \<noteq> None \<longrightarrow> mp_covered rx F assigning \<rho> mp) \<and>
        ((permitted \<or> m \<in> set existing) \<or> denial = None \<and> (\<forall>mp\<in>set mps. mp_covered rx F assigning \<rho> mp) \<or>
          (\<exists>mp\<in>set mps. fst mp \<in> set existing \<and> mp_covered rx F assigning \<rho> mp))"
      "\<forall>a. h = Inr a \<longrightarrow> auth_role a = \<rho>"
      using Cons.IH[of "auths @ [ma]" "permitted \<or> m \<in> set existing" denial] by (elim exE conjE)
    show ?thesis unfolding step eqs h(1) using h(2,3) by (intro exI[of _ h]) argo
  qed
qed

lemma update_markers_sound:
  assumes "\<And>p. R None p = Some (P (perm_role p))" and "\<And>\<rho> p. R (Some \<rho>) p = Some (perm_role p = \<rho>)"
    and "update_markers rx F t R assigning existing k sid None auths False denial mps = Some (Inr a)"
  shows "P (auth_role a) \<and>
      (\<forall>mp\<in>set mps. assigning (fst mp) \<noteq> None \<longrightarrow> mp_covered rx F assigning (auth_role a) mp) \<and>
      (denial = None \<and> (\<forall>mp\<in>set mps. mp_covered rx F assigning (auth_role a) mp) \<or>
        (\<exists>mp\<in>set mps. fst mp \<in> set existing \<and> mp_covered rx F assigning (auth_role a) mp))"
  using assms(3)
proof (induction mps arbitrary: denial)
  case Nil
  then show ?case by (cases denial) (auto simp: with_role_def)
next
  case (Cons mp mps)
  obtain m ps where mp: "mp = (m, ps)" by force
  obtain g where g: "authorize_marker rx F t R assigning k sid None (m, ps) = Some g"
    "case g of Inr (\<rho>', ma) \<Rightarrow> map_option (\<lambda>p. perm_role (snd p)) (find (\<lambda>p. F (snd p) \<and> P (perm_role (snd p))) ps) = Some \<rho>' \<and>
         covered rx F assigning \<rho>' m (snd ` set ps) \<and> auth_marker ma = m
     | Inl d \<Rightarrow> \<forall>p. find (\<lambda>p. F (snd p) \<and> P (perm_role (snd p))) ps = Some p \<longrightarrow>
         assigning m \<noteq> None \<and> \<not> covered rx F assigning (perm_role (snd p)) m (snd ` set ps)"
    using authorize_marker_total[where P = P and R = R and r = None, OF assms(1)] by blast
  show ?case
  proof (cases g)
    case (Inl d)
    with Cons.prems g(1) mp have "assigning m = None" by (auto split: if_splits)
    with Cons.prems g(1) mp Inl
    have "update_markers rx F t R assigning existing k sid None auths False (Some d) mps = Some (Inr a)" by simp
    from Cons.IH[OF this] \<open>assigning m = None\<close> mp show ?thesis by simp
  next
    case (Inr x)
    obtain \<rho> ma where x: "x = (\<rho>, ma)" by force
    with g(2) Inr have c: "P \<rho>" "covered rx F assigning \<rho> m (snd ` set ps)" by (auto dest: find_in)
    from Cons.prems g(1) Inr x mp
    have "update_markers rx F t R assigning existing k sid (Some \<rho>) (auths @ [ma]) (m \<in> set existing) denial mps = Some (Inr a)"
      by simp
    with update_markers_chosen[where R = R and \<rho> = \<rho>, OF assms(2), of rx F t assigning existing k sid "auths @ [ma]"
        "m \<in> set existing" denial mps] c mp show ?thesis by auto
  qed
qed

section \<open>Lists\<close>

definition perms_in :: "marker_permission list \<Rightarrow> string \<Rightarrow> available_permission set" where
  "perms_in mps m = (case map_of mps m of None \<Rightarrow> {} | Some ps \<Rightarrow> snd ` set ps)"

lemma list_item_chosen:
  assumes "\<And>p. R (Some \<rho>) p = Some (perm_role p = \<rho>)"
  shows "\<exists>auths'. list_item F R mps (Some \<rho>) auths ms =
    Some (\<exists>m\<in>set ms. \<exists>p\<in>perms_in mps m. F p \<and> perm_role p = \<rho>, Some \<rho>, auths')"
proof (induction ms)
  case (Cons m ms)
  show ?case
  proof (cases "map_of mps m")
    case None
    with Cons show ?thesis by (simp add: perms_in_def)
  next
    case (Some ps)
    have found: "findPermissionByFilter (every [pure F, R (Some \<rho>)]) ps = Some (find (\<lambda>p. F (snd p) \<and> perm_role (snd p) = \<rho>) ps)"
      by (rule find_permission_total) (rule every_total[where P = "\<lambda>x. x = \<rho>", OF assms])
    show ?thesis
    proof (cases "find (\<lambda>p. F (snd p) \<and> perm_role (snd p) = \<rho>) ps")
      case None
      then have none: "\<not> (\<exists>p\<in>perms_in mps m. F p \<and> perm_role p = \<rho>)" using Some by (force simp: perms_in_def find_None_iff)
      have "list_item F R mps (Some \<rho>) auths (m # ms) = list_item F R mps (Some \<rho>) auths ms"
        using found Some None by (simp del: every.simps)
      moreover have "(\<exists>m\<in>set (m # ms). \<exists>p\<in>perms_in mps m. F p \<and> perm_role p = \<rho>) \<longleftrightarrow>
          (\<exists>m\<in>set ms. \<exists>p\<in>perms_in mps m. F p \<and> perm_role p = \<rho>)" using none by auto
      ultimately show ?thesis using Cons by (simp only:)
    next
      case q: (Some q)
      then have "\<exists>p\<in>perms_in mps m. F p \<and> perm_role p = \<rho>" using Some by (auto simp: perms_in_def find_Some_iff)
      with found Some q show ?thesis by (auto simp del: every.simps)
    qed
  qed
qed simp

lemma list_item_first:
  assumes "\<And>p. R None p = Some (P (perm_role p))"
  shows "\<exists>b r auths'. list_item F R mps None auths ms = Some (b, r, auths') \<and>
    (if b then \<exists>\<rho>. r = Some \<rho> \<and> P \<rho> \<and> (\<exists>m\<in>set ms. \<exists>p\<in>perms_in mps m. F p \<and> perm_role p = \<rho>)
     else r = None \<and> \<not> (\<exists>m\<in>set ms. \<exists>p\<in>perms_in mps m. F p \<and> P (perm_role p)))"
proof (induction ms)
  case (Cons m ms)
  show ?case
  proof (cases "map_of mps m")
    case None
    with Cons show ?thesis by (auto simp: perms_in_def split: if_splits)
  next
    case (Some ps)
    have found: "findPermissionByFilter (every [pure F, R None]) ps = Some (find (\<lambda>p. F (snd p) \<and> P (perm_role (snd p))) ps)"
      by (rule find_permission_total) (rule every_total[where P = P, OF assms])
    show ?thesis
    proof (cases "find (\<lambda>p. F (snd p) \<and> P (perm_role (snd p))) ps")
      case None
      then have none: "\<not> (\<exists>p\<in>perms_in mps m. F p \<and> P (perm_role p))" using Some by (auto simp: perms_in_def find_None_iff)
      have step: "list_item F R mps None auths (m # ms) = list_item F R mps None auths ms"
        using found Some None by (simp del: every.simps)
      have less: "(\<exists>m\<in>set (m # ms). \<exists>p\<in>perms_in mps m. F p \<and> P (perm_role p)) \<longleftrightarrow>
          (\<exists>m\<in>set ms. \<exists>p\<in>perms_in mps m. F p \<and> P (perm_role p))" using none by auto
      have more: "\<exists>m\<in>set (m # ms). Q m" if "\<exists>m\<in>set ms. Q m" for Q using that by auto
      obtain b r auths' where IH: "list_item F R mps None auths ms = Some (b, r, auths')"
        and IH': "if b then \<exists>\<rho>. r = Some \<rho> \<and> P \<rho> \<and> (\<exists>m\<in>set ms. \<exists>p\<in>perms_in mps m. F p \<and> perm_role p = \<rho>)
           else r = None \<and> \<not> (\<exists>m\<in>set ms. \<exists>p\<in>perms_in mps m. F p \<and> P (perm_role p))"
        using Cons by blast
      show ?thesis
      proof (cases b)
        case True
        with IH' obtain \<rho> where "r = Some \<rho>" "P \<rho>" "\<exists>m\<in>set ms. \<exists>p\<in>perms_in mps m. F p \<and> perm_role p = \<rho>" by auto
        then have *: "\<exists>\<rho>. r = Some \<rho> \<and> P \<rho> \<and> (\<exists>m\<in>set (m # ms). \<exists>p\<in>perms_in mps m. F p \<and> perm_role p = \<rho>)"
          by (intro exI[of _ \<rho>] conjI more)
        from * have "if b then \<exists>\<rho>. r = Some \<rho> \<and> P \<rho> \<and> (\<exists>m\<in>set (m # ms). \<exists>p\<in>perms_in mps m. F p \<and> perm_role p = \<rho>)
           else r = None \<and> \<not> (\<exists>m\<in>set (m # ms). \<exists>p\<in>perms_in mps m. F p \<and> P (perm_role p))"
          by (simp only: True if_True simp_thms)
        then show ?thesis
          unfolding step IH by (intro exI[of _ b] exI[of _ r] exI[of _ auths'] conjI refl)
      next
        case False
        with IH' less have *: "r = None \<and> \<not> (\<exists>m\<in>set (m # ms). \<exists>p\<in>perms_in mps m. F p \<and> P (perm_role p))"
          by (simp only: if_False simp_thms)
        from * have "if b then \<exists>\<rho>. r = Some \<rho> \<and> P \<rho> \<and> (\<exists>m\<in>set (m # ms). \<exists>p\<in>perms_in mps m. F p \<and> perm_role p = \<rho>)
           else r = None \<and> \<not> (\<exists>m\<in>set (m # ms). \<exists>p\<in>perms_in mps m. F p \<and> P (perm_role p))"
          by (simp only: False if_False simp_thms)
        then show ?thesis
          unfolding step IH by (intro exI[of _ b] exI[of _ r] exI[of _ auths'] conjI refl)
      qed
    next
      case q: (Some q)
      then have "P (perm_role (snd q)) \<and> (\<exists>p\<in>perms_in mps m. F p \<and> perm_role p = perm_role (snd q))"
        using Some by (auto simp: perms_in_def find_Some_iff)
      with found Some q show ?thesis by (simp add: ex_bool_eq del: every.simps)
    qed
  qed
qed (simp add: ex_bool_eq)

definition may_list :: "regex_test \<Rightarrow> (string \<Rightarrow> available_permission set) \<Rightarrow> role_name \<Rightarrow> 'd listed_item \<Rightarrow> bool" where
  "may_list rx perms \<rho> i \<longleftrightarrow> (\<exists>m\<in>set (item_markers i). \<exists>p\<in>perms m. byData rx DataList (address i) p \<and> perm_role p = \<rho>)"

lemma list_items_chosen:
  assumes "\<And>p. R (Some \<rho>) p = Some (perm_role p = \<rho>)"
  shows "\<exists>auths'. list_items rx R mps (Some \<rho>) auths items = Some (filter (may_list rx (perms_in mps) \<rho>) items, Some \<rho>, auths')"
proof (induction items arbitrary: auths)
  case (Cons i "is")
  from list_item_chosen[of R \<rho>, OF assms, of "byData rx DataList (address i)" mps auths "item_markers i"] obtain auths1
    where 1: "list_item (byData rx DataList (address i)) R mps (Some \<rho>) auths (item_markers i) =
      Some (may_list rx (perms_in mps) \<rho> i, Some \<rho>, auths1)" by (auto simp: may_list_def)
  with Cons.IH[of auths1] show ?case by auto
qed simp

lemma list_items_first:
  assumes "\<And>p. R None p = Some (P (perm_role p))" and "\<And>\<rho> p. R (Some \<rho>) p = Some (perm_role p = \<rho>)"
  shows "\<exists>ls r auths'. list_items rx R mps None auths items = Some (ls, r, auths') \<and>
    (case r of
       Some \<rho> \<Rightarrow> P \<rho> \<and> ls = filter (may_list rx (perms_in mps) \<rho>) items \<and> ls \<noteq> []
     | None \<Rightarrow> ls = [] \<and> (\<forall>i\<in>set items. \<forall>\<rho>. P \<rho> \<longrightarrow> \<not> may_list rx (perms_in mps) \<rho> i))"
proof (induction items arbitrary: auths)
  case (Cons i "is")
  from list_item_first[of R P, OF assms(1), of "byData rx DataList (address i)" mps auths "item_markers i"]
  obtain b r auths1 where 1: "list_item (byData rx DataList (address i)) R mps None auths (item_markers i) = Some (b, r, auths1)"
    and 0: "if b then \<exists>\<rho>. r = Some \<rho> \<and> P \<rho> \<and>
        (\<exists>m\<in>set (item_markers i). \<exists>p\<in>perms_in mps m. byData rx DataList (address i) p \<and> perm_role p = \<rho>)
     else r = None \<and> \<not> (\<exists>m\<in>set (item_markers i). \<exists>p\<in>perms_in mps m. byData rx DataList (address i) p \<and> P (perm_role p))"
    by blast
  show ?case
  proof (cases b)
    case True
    with 0 obtain \<rho> where r: "r = Some \<rho>" "P \<rho>" "may_list rx (perms_in mps) \<rho> i" by (auto simp: may_list_def)
    from list_items_chosen[of R \<rho>, OF assms(2), of rx mps auths1 "is"] 1 True r show ?thesis by auto
  next
    case False
    with 0 have r: "r = None" "\<forall>\<rho>. P \<rho> \<longrightarrow> \<not> may_list rx (perms_in mps) \<rho> i" by (auto simp: may_list_def)
    from Cons.IH[of auths1] obtain ls r' auths' where 2: "list_items rx R mps None auths1 is = Some (ls, r', auths')"
      "case r' of Some \<rho> \<Rightarrow> P \<rho> \<and> ls = filter (may_list rx (perms_in mps) \<rho>) is \<and> ls \<noteq> []
       | None \<Rightarrow> ls = [] \<and> (\<forall>i\<in>set is. \<forall>\<rho>. P \<rho> \<longrightarrow> \<not> may_list rx (perms_in mps) \<rho> i)" by blast
    from 1 2(1) False r(1) have "list_items rx R mps None auths (i # is) = Some (ls, r', auths')" by simp
    moreover from 2(2) r(2) have "case r' of Some \<rho> \<Rightarrow> P \<rho> \<and> ls = filter (may_list rx (perms_in mps) \<rho>) (i # is) \<and> ls \<noteq> []
       | None \<Rightarrow> ls = [] \<and> (\<forall>i\<in>set (i # is). \<forall>\<rho>. P \<rho> \<longrightarrow> \<not> may_list rx (perms_in mps) \<rho> i)"
      by (cases r') auto
    ultimately show ?thesis by blast
  qed
qed simp

end
