(* ===== verification/PolicySpec.thy ===== *)
theory PolicySpec
  imports PolicyLoops
begin

text \<open>
  Requests and operations as a whole: the decision about creations, updates and lists, what the default
  policies give the owner of a record, the holder of a record key and everyone, and what the operations
  on policies and roles leave in the store.
\<close>

section \<open>Creations\<close>

fun create_demand :: "regex_test \<Rightarrow> 'd action \<Rightarrow> ((available_permission \<Rightarrow> bool) \<times> string list) option" where
  "create_demand rx (DataCreateRequest a ms) = Some (byData rx DataCreate a, ms)"
| "create_demand rx (FileCreateRequest n t ms) = Some (byFile FileCreate n t, ms)"
| "create_demand rx _ = None"

abbreviation may_create where
  "may_create E C F ms k sid \<equiv> may_all E C F (\<lambda>_. Some PolicyAssign) ms k sid"

context policy_reads
begin

lemma create_request_decision:
  assumes ops: "policies E = ops" and names: "own_names C q ms"
  shows "\<exists>res. authorize_request E C q ms (\<lambda>mps. without_items (\<lambda>k sid.
      all_markers (testRegex E) F t (resourceRole E C k sid) (\<lambda>_. Some PolicyAssign) k sid None [] mps)) True = Some res \<and>
    ((\<exists>r. res = Allowed r) \<longleftrightarrow> length (listed (instances q)) \<le> 2 \<and> ms \<noteq> [] \<and> may_create E C F ms User (userId q)
      \<and> (recordKeyResult C \<noteq> None \<or> (\<forall>i\<in>set (listed (instances q)). may_create E C F ms Inst (Some i))))"
proof (cases "ms = []")
  case True
  then show ?thesis by (simp add: authorize_request_def Let_def)
next
  case False
  obtain mps where mps: "listPermissionsForMarkers E (recordName C) ms = Some mps"
    using list_permissions_total[OF ops own_namesD(1,4)[OF names]] by blast
  have "\<exists>g. all_markers (testRegex E) F t (resourceRole E C k sid) (\<lambda>_. Some PolicyAssign) k sid None [] mps = Some g \<and>
      ((\<exists>a. g = Inr a) \<longleftrightarrow> may_create E C F ms k sid)"
    if "readable sid" and "listPermissionsForMarkers E (recordName C) ms = Some mps" for mps k sid
    using all_decision[OF ops own_namesD(1)[OF names] that(1) False that(2)] .
  from authorize_request_decision[where P = "may_create E C F ms" and skipWhenKey = True, OF this mps names]
  show ?thesis by (simp only: simp_thms)
qed

lemma create_decision:
  assumes "policies E = ops" and "own_names C q ms"
    and "create_demand (testRegex E) (request_action q) = Some (F, ms)"
  shows "\<exists>res. authorizeRequestUsingContext E C q = Some res \<and>
    ((\<exists>r. res = Allowed r) \<longleftrightarrow> length (listed (instances q)) \<le> 2 \<and> ms \<noteq> [] \<and> may_create E C F ms User (userId q)
      \<and> (recordKeyResult C \<noteq> None \<or> (\<forall>i\<in>set (listed (instances q)). may_create E C F ms Inst (Some i))))"
  using assms(3) create_request_decision[OF assms(1,2)]
  by (cases "request_action q") (auto simp only: create_demand.simps option.inject prod.inject option.distinct
      authorizeRequestUsingContext_def action.case authorizeDataCreate_def authorizeFileCreate_def)

end

section \<open>Updates\<close>

fun update_demand ::
    "regex_test \<Rightarrow> 'd action \<Rightarrow> ((available_permission \<Rightarrow> bool) \<times> string list \<times> string list option \<times> string list option) option" where
  "update_demand rx (DataUpdateRequest a ex add rem) = Some (byData rx DataUpdate a, ex, add, rem)"
| "update_demand rx (EventUpdateRequest n ex add rem) = Some (byEvent rx EventUpdate n, ex, add, rem)"
| "update_demand rx _ = None"

lemma set_union_of [simp]: "set (union_of xss) = \<Union> (set ` set xss)"
  by (simp add: union_of_def)

lemma distinct_union_of [simp]: "distinct (union_of xss)"
  by (simp add: union_of_def)

lemma assigning_iff: "assigned_or_unassigned added removed m \<noteq> None \<longleftrightarrow> m \<in> set (listed added) \<union> set (listed removed)"
  by (simp add: assigned_or_unassigned_def)

context policy_reads
begin

lemma update_request_sound:
  assumes ops: "policies E = ops" and own: "own_name (recordName C)" "readable (userId q)"
    and allowed: "authorize_request E C q (union_of [existing, listed added, listed removed]) (\<lambda>mps. without_items (\<lambda>k sid.
      update_markers (testRegex E) F t (resourceRole E C k sid) (assigned_or_unassigned added removed) existing k sid
        None [] False None mps)) True = Some (Allowed r)"
  shows "resource_entitled E C User (userId q) (auth_role (subject r)) \<and>
    (\<forall>m\<in>set (listed added) \<union> set (listed removed).
      covered (testRegex E) F (assigned_or_unassigned added removed) (auth_role (subject r)) m (permissions_of E (recordName C) m)) \<and>
    (existing \<noteq> [] \<longrightarrow> (\<exists>m\<in>set existing.
      covered (testRegex E) F (assigned_or_unassigned added removed) (auth_role (subject r)) m (permissions_of E (recordName C) m)))"
proof -
  let ?ms = "union_of [existing, listed added, listed removed]" and ?g = "assigned_or_unassigned added removed"
  obtain mps where mps: "listPermissionsForMarkers E (recordName C) ?ms = Some mps"
    and a: "update_markers (testRegex E) F t (resourceRole E C User (userId q)) ?g existing User (userId q)
        None [] False None mps = Some (Inr (subject r))"
    using authorize_request_sound[OF allowed] by (auto simp: without_items_def)
  note sound = update_markers_sound[where P = "resource_entitled E C User (userId q)", OF resourceRole_total[OF ops own] role_chosen(1) a]
  have all: "set (map fst mps) = set existing \<union> set (listed added) \<union> set (listed removed)"
    by (simp add: list_permissions(1)[OF mps] Un_assoc)
  have cov: "mp_covered (testRegex E) F ?g (auth_role (subject r)) mp \<longleftrightarrow>
      covered (testRegex E) F ?g (auth_role (subject r)) (fst mp) (permissions_of E (recordName C) (fst mp))"
    if "mp \<in> set mps" for mp using list_permissions_set[OF mps that] by simp
  have 1: "\<forall>m\<in>set (listed added) \<union> set (listed removed).
      covered (testRegex E) F ?g (auth_role (subject r)) m (permissions_of E (recordName C) m)"
  proof
    fix m assume m: "m \<in> set (listed added) \<union> set (listed removed)"
    with all have "m \<in> set (map fst mps)" by blast
    then obtain mp where "mp \<in> set mps" "m = fst mp" unfolding set_map by (rule imageE)
    with sound cov[of mp] m show "covered (testRegex E) F ?g (auth_role (subject r)) m (permissions_of E (recordName C) m)"
      unfolding assigning_iff by blast
  qed
  have 2: "\<exists>m\<in>set existing. covered (testRegex E) F ?g (auth_role (subject r)) m (permissions_of E (recordName C) m)"
    if "existing \<noteq> []"
  proof -
    from that have hd: "hd existing \<in> set existing" by simp
    with all have "hd existing \<in> set (map fst mps)" by blast
    then obtain mp where "mp \<in> set mps" "hd existing = fst mp" unfolding set_map by (rule imageE)
    with hd have mp: "mp \<in> set mps" "fst mp \<in> set existing" by simp_all
    from sound[THEN conjunct2, THEN conjunct2]
    obtain mp' where "mp' \<in> set mps" "fst mp' \<in> set existing" "mp_covered (testRegex E) F ?g (auth_role (subject r)) mp'"
    proof (elim disjE conjE bexE)
      assume "\<forall>mp\<in>set mps. mp_covered (testRegex E) F ?g (auth_role (subject r)) mp"
      with mp that show thesis by blast
    qed
    with cov[of mp'] show ?thesis by blast
  qed
  from sound 1 2 show ?thesis by blast
qed

lemma update_sound:
  assumes "policies E = ops" and "own_name (recordName C)" and "readable (userId q)"
    and "update_demand (testRegex E) (request_action q) = Some (F, existing, added, removed)"
    and "authorizeRequestUsingContext E C q = Some (Allowed r)"
  shows "willMarkersBeRemaining existing removed added \<and> resource_entitled E C User (userId q) (auth_role (subject r)) \<and>
    (\<forall>m\<in>set (listed added) \<union> set (listed removed).
      covered (testRegex E) F (assigned_or_unassigned added removed) (auth_role (subject r)) m (permissions_of E (recordName C) m)) \<and>
    (existing \<noteq> [] \<longrightarrow> (\<exists>m\<in>set existing.
      covered (testRegex E) F (assigned_or_unassigned added removed) (auth_role (subject r)) m (permissions_of E (recordName C) m)))"
proof -
  have *: "willMarkersBeRemaining existing removed added \<and>
      (\<exists>t. authorize_request E C q (union_of [existing, listed added, listed removed]) (\<lambda>mps. without_items (\<lambda>k sid.
      update_markers (testRegex E) F t (resourceRole E C k sid) (assigned_or_unassigned added removed) existing k sid
        None [] False None mps)) True = Some (Allowed r))"
    using assms(4,5) by (cases "request_action q")
      (auto simp: authorizeRequestUsingContext_def authorizeDataUpdate_def authorizeEventUpdate_def split: if_splits)
  then show ?thesis using update_request_sound[OF assms(1-3)] by blast
qed

end

lemma remaining_iff:
  assumes "distinct existing" and "existing \<noteq> []" and "distinct (listed removed)" and "set (listed removed) \<subseteq> set existing"
  shows "willMarkersBeRemaining existing removed added \<longleftrightarrow>
    (set existing - set (listed removed)) \<union> set (listed added) \<noteq> {}"
proof (cases removed)
  case None
  with assms(2) show ?thesis by (auto simp: willMarkersBeRemaining_def listed_def)
next
  case (Some rs)
  with assms have rs: "distinct rs" "set rs \<subseteq> set existing" by (simp_all add: listed_def)
  have "length existing = length rs \<and> set existing \<subseteq> set rs \<longleftrightarrow> set existing - set rs = {}"
    using rs assms(1) by (auto simp: distinct_card[symmetric] dest: card_mono[rotated])
  moreover have "listed removed = rs" using Some by (simp add: listed_def)
  ultimately show ?thesis using Some by (auto simp: willMarkersBeRemaining_def)
qed

section \<open>Lists\<close>

lemma map_of_markers:
  assumes "map fst mps = ms" and "distinct ms" and "mp \<in> set mps"
  shows "map_of mps (fst mp) = Some (snd mp)"
  using assms by (metis map_of_is_SomeI prod.collapse)

lemma perms_in_list:
  assumes "listPermissionsForMarkers E rn ms = Some mps" and "distinct ms" and "m \<in> set ms"
  shows "perms_in mps m = permissions_of E rn m"
proof -
  from assms(3) list_permissions(1)[OF assms(1)] obtain mp where "mp \<in> set mps" "m = fst mp" by auto
  with map_of_markers[OF list_permissions(1)[OF assms(1)] assms(2)] list_permissions_set[OF assms(1)]
  show ?thesis by (simp add: perms_in_def)
qed

text \<open>The items that a role may list, by the policies of the store.\<close>

definition role_lists :: "'s policy_env \<Rightarrow> string \<Rightarrow> role_name \<Rightarrow> 'd listed_item \<Rightarrow> bool" where
  "role_lists E rn = may_list (testRegex E) (permissions_of E rn)"

text \<open>The items for a subject: those of one role it may act in, or none if no item has such a role.\<close>

definition subject_items :: "'s policy_env \<Rightarrow> auth_context \<Rightarrow> subject_kind \<Rightarrow> string option
    \<Rightarrow> 'd listed_item list \<Rightarrow> 'd listed_item list \<Rightarrow> bool" where
  "subject_items E C k sid items ls \<longleftrightarrow>
     (\<exists>\<rho>. resource_entitled E C k sid \<rho> \<and> ls = filter (role_lists E (recordName C) \<rho>) items \<and> ls \<noteq> []) \<or>
     ls = [] \<and> (\<forall>i\<in>set items. \<forall>\<rho>. resource_entitled E C k sid \<rho> \<longrightarrow> \<not> role_lists E (recordName C) \<rho> i)"

context policy_reads
begin

lemma authorize_list_total:
  assumes ops: "policies E = ops" and own: "own_name (recordName C)" "readable sid"
    and mps: "listPermissionsForMarkers E (recordName C) (union_of (map item_markers items)) = Some mps"
  shows "\<exists>a ls. authorize_list (testRegex E) (resourceRole E C k sid) mps items = Some (Inr a, Some ls) \<and>
    subject_items E C k sid items ls"
proof -
  have "may_list (testRegex E) (perms_in mps) \<rho> i \<longleftrightarrow> role_lists E (recordName C) \<rho> i" if "i \<in> set items" for \<rho> i
  proof -
    have "\<forall>m\<in>set (item_markers i). perms_in mps m = permissions_of E (recordName C) m"
      using perms_in_list[OF mps] that by auto
    then show ?thesis by (simp add: may_list_def role_lists_def)
  qed
  then have same: "filter (may_list (testRegex E) (perms_in mps) \<rho>) items = filter (role_lists E (recordName C) \<rho>) items"
    "i \<in> set items \<Longrightarrow> may_list (testRegex E) (perms_in mps) \<rho> i \<longleftrightarrow> role_lists E (recordName C) \<rho> i" for \<rho> i
    by (auto intro: filter_cong)
  obtain ls r auths where l: "list_items (testRegex E) (resourceRole E C k sid) mps None
      (map (\<lambda>mp. \<lparr>auth_marker = fst mp, actions = []\<rparr>) mps) items = Some (ls, r, auths)"
    "case r of Some \<rho> \<Rightarrow> resource_entitled E C k sid \<rho> \<and> ls = filter (may_list (testRegex E) (perms_in mps) \<rho>) items \<and> ls \<noteq> []
     | None \<Rightarrow> ls = [] \<and> (\<forall>i\<in>set items. \<forall>\<rho>. resource_entitled E C k sid \<rho> \<longrightarrow> \<not> may_list (testRegex E) (perms_in mps) \<rho> i)"
    using list_items_first[of "resourceRole E C k sid" "resource_entitled E C k sid", OF resourceRole_total[OF ops own] role_chosen(1)]
    by blast
  then have "subject_items E C k sid items ls"
    by (cases r) (auto simp: subject_items_def same)
  with l(1) show ?thesis by (auto simp: authorize_list_def)
qed

end

lemma intersection_subset: "set (intersectionByAddress seen xs ys) \<subseteq> set xs"
  by (induction xs arbitrary: seen) auto

lemma instances_items:
  assumes "authorizeInstances skip authorize is items auths = Some (Inr (auths', items'))" and "items = Some xs"
  shows "\<exists>ys. items' = Some ys \<and> set ys \<subseteq> set xs \<and> (skip \<longrightarrow> ys = xs)"
  using assms
proof (induction "is" arbitrary: items auths xs)
  case (Cons i "is")
  show ?case
  proof (cases skip)
    case True
    with Cons show ?thesis by auto
  next
    case False
    with Cons.prems obtain a own where a: "authorize Inst (Some i) = Some (Inr a, own)"
      "authorizeInstances skip authorize is
        (Some (intersectionByAddress [] xs (case own of None \<Rightarrow> [] | Some ys \<Rightarrow> ys))) (auths @ [InstAllowed i a]) = Some (Inr (auths', items'))"
      by (auto simp: Let_def split: Option.bind_splits sum.splits)
    from Cons.IH[OF a(2) refl] intersection_subset[of "[]" xs] False show ?thesis by fastforce
  qed
qed auto

context policy_reads
begin

lemma list_sound:
  assumes ops: "policies E = ops" and own: "own_name (recordName C)" "readable (userId q)" and "request_action q = DataListRequest items"
    and "authorizeRequestUsingContext E C q = Some (Allowed r)"
  shows "\<exists>ls ys. subject_items E C User (userId q) items ls \<and> allowedDataItems r = Some ys \<and> set ys \<subseteq> set ls \<and>
    (recordKeyResult C \<noteq> None \<or> listed (instances q) = [] \<longrightarrow> ys = ls)"
proof -
  let ?f = "\<lambda>mps k sid. authorize_list (testRegex E) (resourceRole E C k sid) mps items"
  from assms(4,5) have "authorize_request E C q (union_of (map item_markers items)) ?f True = Some (Allowed r)"
    by (simp add: authorizeRequestUsingContext_def authorizeDataList_def)
  from authorize_request_sound[OF this] obtain mps own auths items' where
    mps: "listPermissionsForMarkers E (recordName C) (union_of (map item_markers items)) = Some mps"
    and user: "?f mps User (userId q) = Some (Inr (subject r), own)"
    and insts: "authorizeInstances (recordKeyResult C \<noteq> None) (?f mps) (listed (instances q)) own [] = Some (Inr (auths, items'))"
    and r: "allowedDataItems r = items'" by (metis (no_types, lifting) authorized.select_convs(8) simp_thms(22))
  from authorize_list_total[OF ops own mps, of User] user obtain ls where
    ls: "own = Some ls" "subject_items E C User (userId q) items ls" by auto
  from instances_items[OF insts ls(1)] obtain ys where
    ys: "items' = Some ys" "set ys \<subseteq> set ls" "recordKeyResult C \<noteq> None \<longrightarrow> ys = ls" by blast
  moreover have "ys = ls" if "listed (instances q) = []" using insts that ys(1) ls(1) by simp
  ultimately show ?thesis using ls(2) r by blast
qed

end

end
