(* ===== verification/PolicyEffects.thy ===== *)
theory PolicyEffects
  imports PolicySpec
begin

text \<open>
  What the default policies grant, and what the operations on policies and roles change: the lemmas
  hold for every store that keeps the contract of \<open>policy_store\<close>.
\<close>

section \<open>The default policies\<close>

text \<open>A request that names what its kind needs: the target of a role is a user or an instance.\<close>

fun one_target :: "'d action \<Rightarrow> bool" where
  "one_target (GrantRoleRequest _ u i _) \<longleftrightarrow> given u \<noteq> given i"
| "one_target (RevokeRoleRequest _ u i) \<longleftrightarrow> given u \<noteq> given i"
| "one_target _ \<longleftrightarrow> True"

lemma target_admin: "given u \<noteq> given i \<Longrightarrow> target_allowed rx (Some AllUsers) (Some AllInsts) u i"
  by (auto simp: target_allowed_def)

lemmas filter_defs = byData_def byFile_def byEvent_def byPolicy_def byRoleRead_def byRoleList_def byPolicyList_def
  byRoleGrant_def byRoleRevoke_def

text \<open>The administrators may do everything that one marker suffices for.\<close>

lemma demand_default:
  assumes "demand rx now act = Some (F, ms, account)" and "one_target act"
  shows "\<exists>p\<in>set DEFAULT_ANY_RESOURCE_POLICY_DOCUMENT. F p \<and> perm_role p = admin"
  using assms
  by (cases act) (auto simp: DEFAULT_ANY_RESOURCE_POLICY_DOCUMENT_def filter_defs target_admin)

lemma create_default:
  assumes "create_demand rx act = Some (F, ms)" and "P admin"
  shows "map_option perm_role (find (\<lambda>p. F p \<and> P (perm_role p)) (DEFAULT_ANY_RESOURCE_POLICY_DOCUMENT @ ps)) = Some admin"
  using assms
  by (cases act) (auto simp: DEFAULT_ANY_RESOURCE_POLICY_DOCUMENT_def filter_defs)

lemma create_covered:
  assumes "create_demand rx act = Some (F, ms)" and "set DEFAULT_ANY_RESOURCE_POLICY_DOCUMENT \<subseteq> ps"
  shows "covered rx F (\<lambda>_. Some PolicyAssign) admin m ps"
proof -
  have "\<exists>p\<in>set DEFAULT_ANY_RESOURCE_POLICY_DOCUMENT. F p \<and> perm_role p = admin"
    "\<exists>p\<in>set DEFAULT_ANY_RESOURCE_POLICY_DOCUMENT. byPolicy rx PolicyAssign m p \<and> perm_role p = admin"
    using assms(1) by (cases act; auto simp: DEFAULT_ANY_RESOURCE_POLICY_DOCUMENT_def filter_defs)+
  with assms(2) show ?thesis unfolding covered_def by blast
qed

text \<open>The roles that the account operations accept do not include that of a record key.\<close>

lemma account_default_roles: "p \<in> set DEFAULT_ANY_RESOURCE_POLICY_DOCUMENT \<Longrightarrow> perm_role p \<noteq> Everyone"
  by (auto simp: DEFAULT_ANY_RESOURCE_POLICY_DOCUMENT_def)

text \<open>Who acts as the administrator of a resource, or of the account.\<close>

definition acts_as_admin :: "bool \<Rightarrow> auth_context \<Rightarrow> string option \<Rightarrow> bool" where
  "acts_as_admin account C user \<longleftrightarrow>
     user = Some (recordOwnerId C) \<or> \<not> account \<and> recordKeyResult C \<noteq> None"

context policy_store
begin

lemma permission_list_default:
  assumes "policies E = ops" and "own_name rn" and "own_name m"
  shows "\<exists>ps. permission_list E rn m = DEFAULT_ANY_RESOURCE_POLICY_DOCUMENT @ ps"
proof -
  obtain ds where ds: "listPoliciesForMarker ops (the_store E) rn m = Some (map Some ds)" using get_policies[OF assms(2,3)] by blast
  from marker_default[OF this] ds assms(1) show ?thesis by (auto simp: permission_list_def map_eq_Cons_conv)
qed

lemma default_in_permissions:
  assumes "policies E = ops" and "own_name rn" and "own_name m"
  shows "set DEFAULT_ANY_RESOURCE_POLICY_DOCUMENT \<subseteq> permissions_of E rn m"
  using permission_list_default[OF assms] by auto

lemma admin_entitled:
  assumes "acts_as_admin account C user" and "account = False \<longrightarrow> recordKeyResult C = None \<longrightarrow> user = Some (recordOwnerId C)"
  shows "entitled account E C User user admin"
  using assms by (auto simp: entitled_def acts_as_admin_def resource_entitled_def account_entitled_def is_owner_def)

lemma admin_may:
  assumes "policies E = ops" and "acts_as_admin account C (userId q)" and "one_target (request_action q)"
    and "demand (testRegex E) (clock E) (request_action q) = Some (F, ms, account)" and "ms \<noteq> []" and "own_names C q ms"
  shows "may E C F ms account User (userId q)"
proof -
  obtain p where p: "p \<in> set DEFAULT_ANY_RESOURCE_POLICY_DOCUMENT" "F p" "perm_role p = admin"
    using demand_default[OF assms(4,3)] by blast
  have "entitled account E C User (userId q) admin"
    using assms(2) by (intro admin_entitled) (auto simp: acts_as_admin_def)
  with p default_in_permissions[OF assms(1) own_namesD(1,4)[OF assms(6)]] assms(5) show ?thesis
    unfolding may_def by (metis hd_in_set subsetD)
qed

lemma admin_allowed:
  assumes "policies E = ops" and "acts_as_admin account C (userId q)" and "one_target (request_action q)"
    and "demand (testRegex E) (clock E) (request_action q) = Some (F, ms, account)" and "ms \<noteq> []"
    and "listed (instances q) = []" and "own_names C q ms"
  shows "\<exists>r. authorizeRequestUsingContext E C q = Some (Allowed r)"
  using demand_decision[OF assms(1,7,4)] admin_may[OF assms(1-5,7)] assms(5,6) by auto

lemma admin_may_create:
  assumes "policies E = ops" and "acts_as_admin False C (userId q)"
    and "create_demand (testRegex E) (request_action q) = Some (F, ms)" and "ms \<noteq> []"
    and "listed (instances q) = []" and "own_names C q ms"
  shows "\<exists>r. authorizeRequestUsingContext E C q = Some (Allowed r)"
proof -
  have ent: "resource_entitled E C User (userId q) admin"
    using admin_entitled[OF assms(2)] assms(2) by (auto simp: entitled_def acts_as_admin_def)
  obtain ps where ps: "permission_list E (recordName C) (hd ms) = DEFAULT_ANY_RESOURCE_POLICY_DOCUMENT @ ps"
    using permission_list_default[OF assms(1) own_namesD(1,4)[OF assms(6)]] assms(4) by (metis hd_in_set)
  have "chosen_role E C F (hd ms) User (userId q) = Some admin"
    unfolding chosen_role_def ps by (rule create_default[where P = "resource_entitled E C User (userId q)", OF assms(3) ent])
  moreover have "covered (testRegex E) F (\<lambda>_. Some PolicyAssign) admin m (permissions_of E (recordName C) m)" if "m \<in> set ms" for m
    by (rule create_covered[OF assms(3) default_in_permissions[OF assms(1) own_namesD(1,4)[OF assms(6)]]]) (rule that)
  ultimately have "may_create E C F ms User (userId q)"
    by (auto simp: may_all_def ADMIN_ROLE_NAME_def)
  with create_decision[OF assms(1,6,3)] assms(4,5) show ?thesis by auto
qed

text \<open>A record key alone does not open the account: without a user, only a policy of the account could.\<close>

lemma key_alone_denied:
  assumes "policies E = ops" and "userId q = None" and "listed (instances q) = []"
    and "demand (testRegex E) (clock E) (request_action q) = Some (F, [ACCOUNT_MARKER], True)"
    and "listPoliciesForMarker ops (the_store E) (recordName C) ACCOUNT_MARKER = Some [Some DEFAULT_ANY_RESOURCE_POLICY_DOCUMENT]"
    and "own_name (recordName C)"
  shows "\<exists>e d. authorizeRequestUsingContext E C q = Some (Denied e d)"
proof -
  have "\<not> may E C F [ACCOUNT_MARKER] True User None"
    using assms(1,5) by (auto simp: may_def permission_list_def entitled_def account_entitled_def subject_roles_def
        is_owner_def given_def dest: account_default_roles)
  moreover have "own_names C q [ACCOUNT_MARKER]"
    using assms(2,3,6) by (simp add: own_names_def) (simp add: own_name_def inherited_names_def ACCOUNT_MARKER_def)
  ultimately
  obtain res where res: "authorizeRequestUsingContext E C q = Some res" "\<nexists>r. res = Allowed r"
    using demand_decision[OF assms(1) _ assms(4), of C] assms(2,3) by auto
  then show ?thesis by (cases res) auto
qed

text \<open>What has the marker for public reading is read by everyone.\<close>

lemma public_read_allowed:
  assumes "policies E = ops" and "length (listed (instances q)) \<le> 2"
    and "own_names C q ms"
    and "request_action q \<in> {DataReadRequest a ms, FileReadRequest n t ms, EventCountRequest a ms}"
    and "PUBLIC_READ_MARKER \<in> set ms"
  shows "\<exists>r. authorizeRequestUsingContext E C q = Some (Allowed r)"
proof -
  obtain F where F: "demand (testRegex E) (clock E) (request_action q) = Some (F, ms, False)"
      "\<exists>p\<in>set DEFAULT_PUBLIC_READ_POLICY_DOCUMENT. F p \<and> perm_role p = Everyone"
    using assms(4) by (auto simp: DEFAULT_PUBLIC_READ_POLICY_DOCUMENT_def filter_defs)
  obtain ds where ds: "listPoliciesForMarker ops (the_store E) (recordName C) PUBLIC_READ_MARKER = Some (map Some ds)"
    using get_policies[OF own_namesD(1,4)[OF assms(3)]] assms(5) by blast
  have "set DEFAULT_PUBLIC_READ_POLICY_DOCUMENT \<subseteq> permissions_of E (recordName C) PUBLIC_READ_MARKER"
    using public_default[OF ds] ds assms(1) by (auto simp: permission_list_def)
  with F(2) assms(5) have "may E C F ms False k sid" for k sid
    by (auto simp: may_def entitled_def resource_entitled_def)
  with demand_decision[OF assms(1,3) F(1)] assms(2,5) show ?thesis by (cases ms) auto
qed

end

section \<open>Operations\<close>

lemma in_contextD:
  assumes "in_context X E key body = (Done x, s')"
  shows "\<exists>C. constructAuthorizationContext X key = Inr C \<and> body C = Some (Done x, s')"
  using assms by (auto simp: in_context_def split: sum.splits option.splits)

lemma in_context_known:
  assumes "in_context X E key body = (Done x, s')" and "constructAuthorizationContext X key = Inr C"
  shows "body C = Some (Done x, s')"
  using in_contextD[OF assms(1)] assms(2) by auto

lemma when_allowedD:
  assumes "when_allowed E C q rest = Some (Done x, s')"
  shows "(\<exists>r. authorizeRequestUsingContext E C q = Some (Allowed r)) \<and> rest = Some (Done x, s')"
  using assms by (auto simp: when_allowed_def returnAuthorizationResult_def split: Option.bind_splits authorize_result.splits if_splits)

lemma in_context_failed:
  assumes "in_context X E key body = (Failed e d, s')" and "\<And>C s'. body C = Some (Failed e d, s') \<Longrightarrow> s' = the_store E"
  shows "s' = the_store E"
  using assms by (auto simp: in_context_def split: sum.splits option.splits)

lemma when_allowed_failed:
  assumes "when_allowed E C q rest = Some (Failed e d, s')" and "rest = Some (Failed e d, s') \<Longrightarrow> s' = the_store E"
  shows "s' = the_store E"
  using assms by (auto simp: when_allowed_def split: Option.bind_splits authorize_result.splits)

lemma without_permission: "without_permission x ps = (x \<in> set ps, filter (\<lambda>p. p \<noteq> x) ps)"
  by (induction ps) auto

text \<open>The document of a marker, empty if it has none.\<close>

definition user_document :: "'s policy_ops \<Rightarrow> 's \<Rightarrow> string \<Rightarrow> string \<Rightarrow> policy_document" where
  "user_document ops s rn m = (case getUserPolicy ops s rn m of Some (Inr (Some p)) \<Rightarrow> document p | _ \<Rightarrow> [])"

context policy_store
begin

lemma update_policy_eq:
  assumes "updateUserPolicy ops s r m p = Some (res, s')" and "own_name m"
  shows "res = Inr () \<and> getUserPolicy ops s' r m = Some (Inr (Some p)) \<and>
    (\<forall>r' m'. own_name m' \<longrightarrow> (r', m') \<noteq> (r, m) \<longrightarrow> getUserPolicy ops s' r' m' = getUserPolicy ops s r' m')"
  using update_policy[of m s r p] assms by auto

lemma policy_in_permissions:
  assumes "policies E = ops" and "getUserPolicy ops (the_store E) rn m = Some (Inr (Some p))" and "own_name rn" and "own_name m"
  shows "set (document p) \<subseteq> permissions_of E rn m"
  using marker_policy[OF assms(2)] get_policies[OF assms(3,4), of "the_store E"] assms(1) by (auto simp: permission_list_def)

lemma grant_permission_effect:
  assumes ops: "policies E = ops" and C: "constructAuthorizationContext X (pr_key q) = Inr C"
    and ok: "grantMarkerPermission X E q = (Done (), s')"
    and own: "own_name (recordName C)" "own_name (pr_marker q)"
  shows "user_document ops s' (recordName C) (pr_marker q) =
      (let old = user_document ops (the_store E) (recordName C) (pr_marker q) in
       if pr_permission q \<in> set old then old else old @ [pr_permission q]) \<and>
    (\<exists>p. getUserPolicy ops s' (recordName C) (pr_marker q) = Some (Inr (Some p))) \<and>
    (\<forall>r m. own_name m \<longrightarrow> (r, m) \<noteq> (recordName C, pr_marker q) \<longrightarrow> getUserPolicy ops s' r m = getUserPolicy ops (the_store E) r m) \<and>
    (\<exists>r. authorizeRequestUsingContext E C (account_request (pr_key q) (pr_userId q) (pr_instances q)
       (GrantPermissionRequest (pr_marker q))) = Some (Allowed r))"
proof -
  let ?rn = "recordName C" and ?m = "pr_marker q" and ?s = "the_store E"
  let ?q = "account_request (pr_key q) (pr_userId q) (pr_instances q) (GrantPermissionRequest ?m)"
  let ?get = "\<lambda>policyResult. case policyResult of Inr p \<Rightarrow> p | Inl _ \<Rightarrow> Some \<lparr>document = [], policy_markers = [ACCOUNT_MARKER]\<rparr>"
  let ?stored_with = "\<lambda>policy. if pr_permission q \<in> set (document policy) then Some (Done (), ?s)
         else update_result (updateUserPolicy (policies E) ?s ?rn ?m
           \<lparr>document = document policy @ [pr_permission q], policy_markers = policy_markers policy\<rparr>)"
  have body: "when_allowed E C ?q (do {
       policyResult \<leftarrow> getUserPolicy (policies E) ?s ?rn ?m;
       if policyResult \<noteq> Inl PolicyNotFound \<and> isl policyResult
       then Some (Failed (projl policyResult) None, ?s)
       else do { policy \<leftarrow> ?get policyResult; ?stored_with policy } }) = Some (Done (), s')"
    by (rule in_context_known[OF ok[unfolded grantMarkerPermission_def] C])
  note auth = when_allowedD[OF body, THEN conjunct1] and rest = when_allowedD[OF body, THEN conjunct2, unfolded ops]
  obtain res where res: "getUserPolicy ops ?s ?rn ?m = Some res" "res \<noteq> Inr None" using get_policy[OF own] by blast
  then obtain p where p: "?get res = Some p" by (cases res) auto
  have doc: "document p = user_document ops ?s ?rn ?m" using res p by (auto simp: user_document_def split: sum.splits)
  from rest res p have w: "?stored_with p = Some (Done (), s')" by (auto simp: ops split: if_splits)
  show ?thesis
  proof (cases "pr_permission q \<in> set (document p)")
    case True
    with w have "s' = ?s" by simp
    moreover from True p have "res = Inr (Some p)" by (cases res) auto
    ultimately show ?thesis using True doc res auth by (auto simp: Let_def)
  next
    case False
    with w ops obtain r where upd: "updateUserPolicy ops ?s ?rn ?m
        \<lparr>document = document p @ [pr_permission q], policy_markers = policy_markers p\<rparr> = Some (r, s')"
      by (auto simp: update_result_def)
    from update_policy_eq[OF upd own(2)] False doc auth show ?thesis by (simp add: user_document_def[of ops s'] Let_def)
  qed
qed

lemma revoke_permission_effect:
  assumes ops: "policies E = ops" and C: "constructAuthorizationContext X (pr_key q) = Inr C"
    and ok: "revokeMarkerPermission X E q = (Done (), s')"
    and own: "own_name (recordName C)" "own_name (pr_marker q)"
  shows "user_document ops s' (recordName C) (pr_marker q) =
      filter (\<lambda>p. p \<noteq> pr_permission q) (user_document ops (the_store E) (recordName C) (pr_marker q)) \<and>
    (\<forall>r m. own_name m \<longrightarrow> (r, m) \<noteq> (recordName C, pr_marker q) \<longrightarrow> getUserPolicy ops s' r m = getUserPolicy ops (the_store E) r m) \<and>
    (\<exists>r. authorizeRequestUsingContext E C (account_request (pr_key q) (pr_userId q) (pr_instances q)
       (RevokePermissionRequest (pr_marker q))) = Some (Allowed r))"
proof -
  let ?rn = "recordName C" and ?m = "pr_marker q" and ?s = "the_store E"
  obtain res where res: "getUserPolicy ops ?s ?rn ?m = Some res" "res \<noteq> Inr None" using get_policy[OF own] by blast
  let ?q = "account_request (pr_key q) (pr_userId q) (pr_instances q) (RevokePermissionRequest ?m)"
  let ?rest = "do {
       policyResult \<leftarrow> getUserPolicy (policies E) ?s ?rn ?m;
       case policyResult of
         Inl e \<Rightarrow> Some (if e = PolicyNotFound then Done () else Failed e None, ?s)
       | Inr found \<Rightarrow> do {
           policy \<leftarrow> found;
           let (hasUpdate, doc) = without_permission (pr_permission q) (document policy) in
            if hasUpdate then update_result (updateUserPolicy (policies E) ?s ?rn ?m
              \<lparr>document = doc, policy_markers = policy_markers policy\<rparr>)
            else Some (Done (), ?s) } }"
  have body: "when_allowed E C ?q ?rest = Some (Done (), s')"
    by (rule in_context_known[OF ok[unfolded revokeMarkerPermission_def] C])
  note auth = when_allowedD[OF body, THEN conjunct1] and rest = when_allowedD[OF body, THEN conjunct2, unfolded ops res(1)]
  show ?thesis
  proof (cases res)
    case (Inl e)
    with rest res auth show ?thesis by (auto simp: user_document_def)
  next
    case (Inr found)
    with res obtain p where p: "found = Some p" by auto
    show ?thesis
    proof (cases "pr_permission q \<in> set (document p)")
      case True
      with rest Inr p obtain r where upd: "updateUserPolicy ops ?s ?rn ?m
          \<lparr>document = filter (\<lambda>x. x \<noteq> pr_permission q) (document p), policy_markers = policy_markers p\<rparr> = Some (r, s')"
        by (auto simp: without_permission update_result_def)
      from update_policy_eq[OF upd own(2)] Inr p res auth show ?thesis by (simp add: user_document_def)
    next
      case False
      with rest Inr p have "s' = ?s" by (simp add: without_permission)
      moreover from False have "filter (\<lambda>x. x \<noteq> pr_permission q) (document p) = document p" by (auto simp: filter_id_conv)
      ultimately show ?thesis using Inr p res auth by (simp add: user_document_def)
    qed
  qed
qed

text \<open>A failed operation leaves the store as it was.\<close>

lemma update_result_failed:
  "update_result (updateUserPolicy ops s r m p) \<noteq> Some (Failed e d, s')"
  "update_result (updateUserRoles ops now s r u as) \<noteq> Some (Failed e d, s')"
  "update_result (updateInstRoles ops now s r u as) \<noteq> Some (Failed e d, s')"
  using policy_written[of s r m p] roles_written[of now s r u as] inst_roles_written[of now s r u as]
  by (auto simp: update_result_def)

lemma failed_policy_unchanged:
  assumes "policies E = ops"
  shows "grantMarkerPermission X E q = (Failed e d, s') \<Longrightarrow> s' = the_store E"
    and "revokeMarkerPermission X E q = (Failed e d, s') \<Longrightarrow> s' = the_store E"
  unfolding grantMarkerPermission_def revokeMarkerPermission_def assms
  by (erule in_context_failed, erule when_allowed_failed,
      auto simp: Let_def update_result_failed split: Option.bind_splits if_splits sum.splits prod.splits)+

lemma failed_role_unchanged:
  assumes "policies E = ops"
  shows "grantRole X E key user rq insts = (Failed e d, s') \<Longrightarrow> s' = the_store E"
    and "revokeRole X E key user rq insts = (Failed e d, s') \<Longrightarrow> s' = the_store E"
  unfolding grantRole_def revokeRole_def update_roles_of_def assms Let_def
  by (erule in_context_failed, erule when_allowed_failed,
      auto simp: update_result_failed split: Option.bind_splits if_splits)+

text \<open>The roles of the target after an update of its roles by \<open>f\<close>.\<close>

lemma update_roles_user:
  assumes ops: "policies E = ops" and user: "given user" and own: "own_name rn" "own_name (the user)" and upd: "update_roles_of E rn user inst f = Some (Done (), s')"
  shows "\<exists>as. listRolesForUser ops (clock E) (the_store E) rn (the user) = Some as \<and>
    (\<forall>later\<ge>clock E. role_names (listRolesForUser ops later s' rn (the user)) =
      fixed (the_store E) rn (the user) \<union> role ` {a \<in> set (f as). live later a}) \<and>
    fixed s' = fixed (the_store E) \<and> (\<forall>r m. listPoliciesForMarker ops s' r m = listPoliciesForMarker ops (the_store E) r m)"
proof -
  obtain as where as: "listRolesForUser ops (clock E) (the_store E) rn (the user) = Some as" using get_roles[OF own] by blast
  obtain s1 where s1: "updateUserRoles ops (clock E) (the_store E) rn (the user) (f as) = Some (Inr (), s1)"
    using update_roles[OF own(2)] by blast
  with upd user as ops have "s1 = s'" by (simp add: update_roles_of_def update_result_def)
  with s1 have "updateUserRoles ops (clock E) (the_store E) rn (the user) (f as) = Some (Inr (), s')" by simp
  with update_roles[OF own(2), of "clock E" "the_store E" rn "f as"] as show ?thesis by auto
qed

lemma grant_role_names:
  assumes "\<forall>a\<in>set as. live now a" and "fx \<subseteq> role ` set as" and "now \<le> later"
  shows "n \<in> fx \<union> role ` {a \<in> set (makeNewRoles r t as). live later a} \<longleftrightarrow>
    n \<in> fx \<or> n = r \<and> Finite later < t \<or> n \<noteq> r \<and> (\<exists>a\<in>set as. role a = n \<and> live later a)"
proof -
  have *: "Finite later < x \<Longrightarrow> x \<le> t \<Longrightarrow> Finite later < t" for x by (rule less_le_trans)
  have "n \<in> role ` {a \<in> set (makeNewRoles r t as). live later a} \<longleftrightarrow>
      (\<exists>a\<in>set as. role a = n \<and> (n \<noteq> r \<or> getExpireTime (expireTimeMs a) \<le> t) \<and> live later a) \<or> n = r \<and> Finite later < t"
    by (auto simp: makeNewRoles_def image_iff live_def getExpireTime_def[of "Some t"])
  then show ?thesis using * by (auto simp: live_def)
qed

lemma grant_role_effect:
  assumes ops: "policies E = ops" and C: "constructAuthorizationContext X key = Inr C"
    and ok: "grantRole X E key user rq insts = (Done (), s')" and target: "given (rr_userId rq)"
    and own: "own_name (recordName C)" "own_name (the (rr_userId rq))" and later: "clock E \<le> later"
  shows "rr_role rq \<in> role_names (listRolesForUser ops later s' (recordName C) (the (rr_userId rq))) \<longleftrightarrow>
      rr_role rq \<in> fixed (the_store E) (recordName C) (the (rr_userId rq)) \<or> Finite later < getExpireTime (rr_expireTimeMs rq)"
    and "n \<noteq> rr_role rq \<Longrightarrow> n \<in> role_names (listRolesForUser ops (clock E) s' (recordName C) (the (rr_userId rq))) \<longleftrightarrow>
      n \<in> role_names (listRolesForUser ops (clock E) (the_store E) (recordName C) (the (rr_userId rq)))"
    and "listPoliciesForMarker ops s' r m = listPoliciesForMarker ops (the_store E) r m"
    and "\<exists>res. authorizeRequestUsingContext E C (account_request key user insts
      (GrantRoleRequest (rr_role rq) (rr_userId rq) (rr_instance rq) (Some (getExpireTime (rr_expireTimeMs rq))))) = Some (Allowed res)"
proof -
  let ?t = "getExpireTime (rr_expireTimeMs rq)" and ?u = "the (rr_userId rq)" and ?rn = "recordName C"
  have body: "when_allowed E C (account_request key user insts (GrantRoleRequest (rr_role rq) (rr_userId rq) (rr_instance rq) (Some ?t)))
      (update_roles_of E ?rn (rr_userId rq) (rr_instance rq) (makeNewRoles (rr_role rq) ?t)) = Some (Done (), s')"
    by (rule in_context_known[OF ok[unfolded grantRole_def Let_def] C])
  show "\<exists>res. authorizeRequestUsingContext E C (account_request key user insts
      (GrantRoleRequest (rr_role rq) (rr_userId rq) (rr_instance rq) (Some ?t))) = Some (Allowed res)"
    by (rule when_allowedD[OF body, THEN conjunct1])
  obtain as where as: "listRolesForUser ops (clock E) (the_store E) ?rn ?u = Some as"
    and new: "\<And>later. clock E \<le> later \<Longrightarrow> role_names (listRolesForUser ops later s' ?rn ?u) =
      fixed (the_store E) ?rn ?u \<union> role ` {a \<in> set (makeNewRoles (rr_role rq) ?t as). live later a}"
    and policies: "\<And>r m. listPoliciesForMarker ops s' r m = listPoliciesForMarker ops (the_store E) r m"
    using update_roles_user[OF ops target own when_allowedD[OF body, THEN conjunct2]] by blast
  from listed_roles[OF as] have live: "fixed (the_store E) ?rn ?u \<subseteq> role ` set as" "\<forall>a\<in>set as. live (clock E) a" by auto
  show "listPoliciesForMarker ops s' r m = listPoliciesForMarker ops (the_store E) r m" by (rule policies)
  show "rr_role rq \<in> role_names (listRolesForUser ops later s' ?rn ?u) \<longleftrightarrow>
      rr_role rq \<in> fixed (the_store E) ?rn ?u \<or> Finite later < ?t"
    unfolding new[OF later] grant_role_names[OF live(2,1) later] by simp
  show "n \<in> role_names (listRolesForUser ops (clock E) s' ?rn ?u) \<longleftrightarrow> n \<in> role_names (listRolesForUser ops (clock E) (the_store E) ?rn ?u)"
    if "n \<noteq> rr_role rq"
    unfolding new[OF order.refl] grant_role_names[OF live(2,1) order.refl] using that live by (auto simp: as role_names_def)
qed

lemma revoke_role_effect:
  assumes ops: "policies E = ops" and C: "constructAuthorizationContext X key = Inr C"
    and ok: "revokeRole X E key user rq insts = (Done (), s')" and target: "given (rr_userId rq)"
    and own: "own_name (recordName C)" "own_name (the (rr_userId rq))" and later: "clock E \<le> later"
  shows "rr_role rq \<in> role_names (listRolesForUser ops later s' (recordName C) (the (rr_userId rq))) \<longleftrightarrow>
      rr_role rq \<in> fixed (the_store E) (recordName C) (the (rr_userId rq))"
    and "n \<noteq> rr_role rq \<Longrightarrow> n \<in> role_names (listRolesForUser ops (clock E) s' (recordName C) (the (rr_userId rq))) \<longleftrightarrow>
      n \<in> role_names (listRolesForUser ops (clock E) (the_store E) (recordName C) (the (rr_userId rq)))"
    and "\<exists>res. authorizeRequestUsingContext E C (account_request key user insts
      (RevokeRoleRequest (rr_role rq) (rr_userId rq) (rr_instance rq))) = Some (Allowed res)"
proof -
  let ?u = "the (rr_userId rq)" and ?rn = "recordName C"
  have body: "when_allowed E C (account_request key user insts (RevokeRoleRequest (rr_role rq) (rr_userId rq) (rr_instance rq)))
      (update_roles_of E ?rn (rr_userId rq) (rr_instance rq) (filter (\<lambda>a. role a \<noteq> rr_role rq))) = Some (Done (), s')"
    by (rule in_context_known[OF ok[unfolded revokeRole_def] C])
  show "\<exists>res. authorizeRequestUsingContext E C (account_request key user insts
      (RevokeRoleRequest (rr_role rq) (rr_userId rq) (rr_instance rq))) = Some (Allowed res)"
    by (rule when_allowedD[OF body, THEN conjunct1])
  obtain as where as: "listRolesForUser ops (clock E) (the_store E) ?rn ?u = Some as"
    and new: "\<And>later. clock E \<le> later \<Longrightarrow> role_names (listRolesForUser ops later s' ?rn ?u) =
      fixed (the_store E) ?rn ?u \<union> role ` {a \<in> set (filter (\<lambda>a. role a \<noteq> rr_role rq) as). live later a}"
    using update_roles_user[OF ops target own when_allowedD[OF body, THEN conjunct2]] by blast
  from listed_roles[OF as] have live: "fixed (the_store E) ?rn ?u \<subseteq> role ` set as" "\<forall>a\<in>set as. live (clock E) a" by auto
  show "rr_role rq \<in> role_names (listRolesForUser ops later s' ?rn ?u) \<longleftrightarrow> rr_role rq \<in> fixed (the_store E) ?rn ?u"
    unfolding new[OF later] by auto
  show "n \<in> role_names (listRolesForUser ops (clock E) s' ?rn ?u) \<longleftrightarrow> n \<in> role_names (listRolesForUser ops (clock E) (the_store E) ?rn ?u)"
    if "n \<noteq> rr_role rq"
    unfolding new[OF order.refl] using that live by (auto simp: as role_names_def)
qed

text \<open>From the permission of a marker for a role, and the role of a user, to the user's access.\<close>

lemma permission_and_role_allow:
  assumes ops: "policies E = ops" and "demand (testRegex E) (clock E) (request_action q) = Some (F, ms, account)"
    and "m \<in> set ms" and "p \<in> permissions_of E (recordName C) m" and "F p" and "perm_role p = Role n"
    and "userId q = Some u" and "u \<noteq> []" and "n \<in> role_names (listRolesForUser ops (clock E) (the_store E) (recordName C) u)"
    and "listed (instances q) = []" and "own_names C q ms"
  shows "\<exists>r. authorizeRequestUsingContext E C q = Some (Allowed r)"
proof -
  have "entitled account E C User (Some u) (Role n)"
    using assms(1,8,9) by (auto simp: entitled_def resource_entitled_def account_entitled_def subject_roles_def given_def)
  with assms(3-7) have "may E C F ms account User (userId q)" unfolding may_def by (metis (no_types))
  with demand_decision[OF ops assms(11,2)] assms(3,10) show ?thesis by (cases ms) auto
qed

end

end
