(* ===== verification/PolicyClaims.thy ===== *)
theory PolicyClaims
  imports PolicyEffects
begin

text \<open>
  The properties of records, policies and authorization, on the store in memory
  (\<^verbatim>\<open>MemoryPolicyStore\<close>, \<^verbatim>\<open>MemoryRecordsStore\<close>), with an application of each to a small record: its
  owner, a marker \<^verbatim>\<open>secret\<close> that the role \<^verbatim>\<open>dev\<close> may read, and a user \<^verbatim>\<open>ann\<close> who has the role
  until time 100.
\<close>

section \<open>The store in memory and the example\<close>

definition memory_env :: "regex_test \<Rightarrow> int \<Rightarrow> memory_policies \<Rightarrow> memory_policies policy_env" where
  "memory_env rx now s = \<lparr>policies = memory_policy_ops, testRegex = rx, clock = now, the_store = s\<rparr>"

lemma memory_env_simps [simp]:
  "policies (memory_env rx now s) = memory_policy_ops" "testRegex (memory_env rx now s) = rx"
  "clock (memory_env rx now s) = now" "the_store (memory_env rx now s) = s"
  by (simp_all add: memory_env_def)

definition same_text :: regex_test where "same_text r v \<longleftrightarrow> r = v"

definition demo_policies :: memory_policies where
  "demo_policies = new_memory_policies
     \<lparr>mp_policies := [''rec'' \<mapsto> [(''secret'', \<lparr>document = [DataPermission DataRead (Role ''dev'') AnyValue], policy_markers = [ACCOUNT_MARKER]\<rparr>)]],
      mp_roleAssignments := [''rec'' \<mapsto> [(''ann'', [\<lparr>role = ''dev'', expireTimeMs = Some (Finite 100)\<rparr>])]]\<rparr>"

definition demo_env :: "memory_policies policy_env" where
  "demo_env = memory_env same_text 5 demo_policies"

text \<open>The context of the record's name, and that of a key.\<close>

definition demo_context :: auth_context where
  "demo_context = \<lparr>recordKeyResult = None, recordKeyProvided = False, recordName = ''rec'', recordOwnerId = ''own'',
     subjectPolicy = ''subjectfull''\<rparr>"

definition demo_key_context :: auth_context where
  "demo_key_context = \<lparr>recordKeyResult = Some \<lparr>vk_recordName = ''rec'', vk_ownerId = ''own'', vk_keyCreatorId = ''own'',
     vk_policy = ''subjectless''\<rparr>, recordKeyProvided = True, recordName = ''rec'', recordOwnerId = ''own'', subjectPolicy = ''subjectless''\<rparr>"

definition asks :: "string option \<Rightarrow> unit action \<Rightarrow> unit request" where
  "asks user a = \<lparr>recordKeyOrRecordName = ''rec'', userId = user, instances = None, request_action = a\<rparr>"

lemma asks_simps [simp]: "userId (asks u a) = u" "request_action (asks u a) = a" "listed (instances (asks u a)) = []"
  by (simp_all add: asks_def listed_def)

lemma demo_env_simps [simp]: "policies demo_env = memory_policy_ops" "testRegex demo_env = same_text" "clock demo_env = 5"
  by (simp_all add: demo_env_def)

section \<open>The decision\<close>

text \<open>C23: A request that one marker suffices for (reading and deleting data and files, counting and
  incrementing events, everything on policies and roles) is decided as the declarative rule says: it
  is allowed exactly if at most two instances are loaded, there is a marker, and the policies of one
  marker hold a permission of that kind, covering the address (or file, event, policy, role), for a
  role that the user may act in; and, unless a valid record key takes their place, the same holds for
  every instance. The call does not throw. This is so when neither the record nor a marker, the user or
  an instance of the request has the name of a member that every JavaScript object inherits
  (\<^verbatim>\<open>constructor\<close>, \<^verbatim>\<open>toString\<close> and the like), for which the store in memory finds what was never stored.\<close>

theorem access_decision:
  assumes "demand rx now (request_action q) = Some (F, ms, account)"
    and "own_names C q ms"
  shows "authorizeRequestUsingContext (memory_env rx now s) C q \<noteq> None \<and>
    ((\<exists>r. authorizeRequestUsingContext (memory_env rx now s) C q = Some (Allowed r)) \<longleftrightarrow>
      length (listed (instances q)) \<le> 2 \<and> ms \<noteq> [] \<and> may (memory_env rx now s) C F ms account User (userId q) \<and>
      (\<not> account \<and> recordKeyResult C \<noteq> None \<or>
        (\<forall>i\<in>set (listed (instances q)). may (memory_env rx now s) C F ms account Inst (Some i))))"
  using mp.demand_decision[of "memory_env rx now s" C q ms F account] assms by auto

lemma access_decision_witness:
  "(\<exists>r. authorizeRequestUsingContext (memory_env same_text 5 demo_policies) demo_context
      (asks (Some ''ann'') (DataReadRequest ''a'' [''secret''])) = Some (Allowed r)) \<and>
   (\<nexists>r. authorizeRequestUsingContext (memory_env same_text 5 demo_policies) demo_context
      (asks (Some ''bob'') (DataReadRequest ''a'' [''secret''])) = Some (Allowed r))"
proof -
  have "may (memory_env same_text 5 demo_policies) demo_context (byData same_text DataRead ''a'') [''secret''] False User (Some ''ann'')"
    "\<not> may (memory_env same_text 5 demo_policies) demo_context (byData same_text DataRead ''a'') [''secret''] False User (Some ''bob'')"
    "own_names demo_context (asks (Some ''ann'') (DataReadRequest ''a'' [''secret''])) [''secret'']"
    "own_names demo_context (asks (Some ''bob'') (DataReadRequest ''a'' [''secret''])) [''secret'']"
    by code_simp+
  then show ?thesis
    using access_decision[of same_text 5 "asks (Some ''ann'') (DataReadRequest ''a'' [''secret''])" "byData same_text DataRead ''a''"
        "[''secret'']" False demo_context demo_policies]
      access_decision[of same_text 5 "asks (Some ''bob'') (DataReadRequest ''a'' [''secret''])" "byData same_text DataRead ''a''"
        "[''secret'']" False demo_context demo_policies]
    by simp
qed

text \<open>C24: Creating data or a file is allowed exactly if at most two instances are loaded, there is a marker
  and, for one role (that of the first permission for the creation in the policies of the first marker
  that the user is entitled to), the policies of every marker let the role create at that address (or a
  file of that size and type) and let it, or everyone, assign the marker; and the same for every
  instance unless a valid record key is given. As before, the record, the markers, the user and the
  instances do not have the name of a member that every JavaScript object inherits.\<close>

theorem create_rule:
  assumes "create_demand rx (request_action q) = Some (F, ms)"
    and "own_names C q ms"
  shows "(\<exists>r. authorizeRequestUsingContext (memory_env rx now s) C q = Some (Allowed r)) \<longleftrightarrow>
      length (listed (instances q)) \<le> 2 \<and> ms \<noteq> [] \<and> may_create (memory_env rx now s) C F ms User (userId q) \<and>
      (recordKeyResult C \<noteq> None \<or>
        (\<forall>i\<in>set (listed (instances q)). may_create (memory_env rx now s) C F ms Inst (Some i)))"
  using mp.create_decision[of "memory_env rx now s" C q ms F] assms by auto

lemma create_rule_witness:
  "(\<exists>r. authorizeRequestUsingContext (memory_env same_text 5 demo_policies) demo_key_context
      (asks None (DataCreateRequest ''a'' [''secret'', ''other''])) = Some (Allowed r)) \<and>
   (\<nexists>r. authorizeRequestUsingContext (memory_env same_text 5 demo_policies) demo_context
      (asks (Some ''ann'') (DataCreateRequest ''a'' [''secret''])) = Some (Allowed r))"
proof -
  have "may_create (memory_env same_text 5 demo_policies) demo_key_context (byData same_text DataCreate ''a'') [''secret'', ''other''] User None"
    "\<not> may_create (memory_env same_text 5 demo_policies) demo_context (byData same_text DataCreate ''a'') [''secret''] User (Some ''ann'')"
    "own_names demo_key_context (asks None (DataCreateRequest ''a'' [''secret'', ''other''])) [''secret'', ''other'']"
    "own_names demo_context (asks (Some ''ann'') (DataCreateRequest ''a'' [''secret''])) [''secret'']"
    by code_simp+
  then show ?thesis
    using create_rule[of same_text "asks None (DataCreateRequest ''a'' [''secret'', ''other''])" "byData same_text DataCreate ''a''"
        "[''secret'', ''other'']" demo_key_context 5 demo_policies]
      create_rule[of same_text "asks (Some ''ann'') (DataCreateRequest ''a'' [''secret''])" "byData same_text DataCreate ''a''"
        "[''secret'']" demo_context 5 demo_policies]
    by simp
qed

text \<open>An update of data or of an event is only allowed if it leaves the resource a marker (by the check
  of the lists) and there is one role, which the user may act in, that the policies of every added and
  every removed marker permit the update and the assignment or removal of the marker, and that the
  policies of some existing marker permit the update.\<close>

theorem update_needs_markers:
  assumes "update_demand rx (request_action q) = Some (F, existing, added, removed)"
    and "authorizeRequestUsingContext (memory_env rx now s) C q = Some (Allowed r)"
    and "own_name (recordName C)" and "readable (userId q)"
  shows "willMarkersBeRemaining existing removed added \<and>
    resource_entitled (memory_env rx now s) C User (userId q) (auth_role (subject r)) \<and>
    (\<forall>m\<in>set (listed added) \<union> set (listed removed).
      covered rx F (assigned_or_unassigned added removed) (auth_role (subject r)) m (permissions_of (memory_env rx now s) (recordName C) m)) \<and>
    (existing \<noteq> [] \<longrightarrow> (\<exists>m\<in>set existing.
      covered rx F (assigned_or_unassigned added removed) (auth_role (subject r)) m (permissions_of (memory_env rx now s) (recordName C) m)))"
  using mp.update_sound[of "memory_env rx now s" C q F existing added removed r] assms by simp

definition owner_moves :: "unit request" where
  "owner_moves = asks (Some ''own'') (DataUpdateRequest ''a'' [''secret''] (Some [''other'']) (Some [''secret'']))"

lemma update_needs_markers_witness:
  "resource_entitled (memory_env same_text 5 demo_policies) demo_context User (Some ''own'')
     (auth_role (subject (case authorizeRequestUsingContext (memory_env same_text 5 demo_policies) demo_context owner_moves of
        Some (Allowed r) \<Rightarrow> r)))"
proof -
  have "case authorizeRequestUsingContext (memory_env same_text 5 demo_policies) demo_context owner_moves of
      Some (Allowed r) \<Rightarrow> True | _ \<Rightarrow> False"
    by code_simp
  then obtain r where r: "authorizeRequestUsingContext (memory_env same_text 5 demo_policies) demo_context owner_moves = Some (Allowed r)"
    by (auto split: option.splits authorize_result.splits)
  moreover have "own_name (recordName demo_context)" "readable (userId owner_moves)" 
    by (code_simp, simp add: readable_def owner_moves_def own_name_def inherited_names_def)
  ultimately show ?thesis
    using update_needs_markers[OF _ r, of "byData same_text DataUpdate ''a''" "[''secret'']" "Some [''other'']" "Some [''secret'']"]
    by (simp add: owner_moves_def)
qed

text \<open>When the lists of existing and removed markers hold every marker once, the markers that are
  removed exist and there is an existing marker, the check of an update says whether a marker is left
  after the removals and the additions.\<close>

theorem markers_remain:
  assumes "distinct existing" and "existing \<noteq> []" and "distinct (listed removed)" and "set (listed removed) \<subseteq> set existing"
  shows "willMarkersBeRemaining existing removed added \<longleftrightarrow>
    (set existing - set (listed removed)) \<union> set (listed added) \<noteq> {}"
  by (rule remaining_iff[OF assms])

lemma markers_remain_witness:
  "\<not> willMarkersBeRemaining [''a'', ''b''] (Some [''b'', ''a'']) (Some []) \<and> willMarkersBeRemaining [''a'', ''b''] (Some [''b'']) None"
  using markers_remain[of "[''a'', ''b'']" "Some [''b'', ''a'']" "Some []"] markers_remain[of "[''a'', ''b'']" "Some [''b'']" None]
  by (auto simp: listed_def)

text \<open>Removing a marker that is not there hides that the last one goes.\<close>

lemma remaining_misses_superset:
  "willMarkersBeRemaining [''a''] (Some [''a'', ''b'']) None \<and> set [''a''] - set [''a'', ''b''] = {}"
  by (simp add: willMarkersBeRemaining_def listed_def)

text \<open>A list request that is allowed returns, for a user, the items of the request that one role
  may list (a role the user may act in), in their order, or no item when no item is listed for any of
  the user's roles; the instances, unless a valid record key is given, can only take items away.\<close>

theorem list_returns_permitted:
  assumes "request_action q = DataListRequest items"
    and "authorizeRequestUsingContext (memory_env rx now s) C q = Some (Allowed r)"
    and "own_name (recordName C)" and "readable (userId q)"
  shows "\<exists>ls ys. subject_items (memory_env rx now s) C User (userId q) items ls \<and> allowedDataItems r = Some ys \<and>
    set ys \<subseteq> set ls \<and> (recordKeyResult C \<noteq> None \<or> listed (instances q) = [] \<longrightarrow> ys = ls)"
  using mp.list_sound[of "memory_env rx now s" C q items r] assms by simp

definition ann_lists :: "unit request" where
  "ann_lists = asks (Some ''ann'') (DataListRequest
     [\<lparr>address = ''a'', item_markers = [''secret''], item_data = ()\<rparr>, \<lparr>address = ''b'', item_markers = [''publicRead''], item_data = ()\<rparr>])"

lemma list_returns_permitted_witness:
  "case authorizeRequestUsingContext (memory_env same_text 5 demo_policies) demo_context ann_lists of
     Some (Allowed r) \<Rightarrow> \<exists>ls. allowedDataItems r = Some ls \<and> subject_items (memory_env same_text 5 demo_policies) demo_context
       User (Some ''ann'') [\<lparr>address = ''a'', item_markers = [''secret''], item_data = ()\<rparr>,
         \<lparr>address = ''b'', item_markers = [''publicRead''], item_data = ()\<rparr>] ls"
proof -
  have "case authorizeRequestUsingContext (memory_env same_text 5 demo_policies) demo_context ann_lists of
      Some (Allowed r) \<Rightarrow> True | _ \<Rightarrow> False"
    by code_simp
  then obtain r where r: "authorizeRequestUsingContext (memory_env same_text 5 demo_policies) demo_context ann_lists = Some (Allowed r)"
    by (auto split: option.splits authorize_result.splits)
  moreover have "own_name (recordName demo_context)" "own_name ''ann''" by code_simp+
  ultimately show ?thesis using list_returns_permitted[OF _ r] by (auto simp: ann_lists_def readable_def)
qed

end
