(* ===== verification/AccountClaims.thy ===== *)
theory AccountClaims
  imports PolicyClaims
begin

text \<open>
  The properties of the operations on policies, roles and record keys, and of their composition with the
  authorization.
\<close>

section \<open>What is always denied and always allowed\<close>

text \<open>A request from more than two instances is denied, whatever it asks for, whoever asks and whatever
  the policies say, and even if the store throws.\<close>

theorem too_many_instances_denied:
  assumes "2 < length (listed (instances q))"
  shows "\<exists>e d. authorizeRequestUsingContext E C q = Some (Denied e d)"
proof -
  have *: "authorize_request E C q ms a k = Some (Denied NotAuthorized (Some TooManyInsts))" for ms a k
    using assms by (simp add: authorize_request_def Let_def listed_def[symmetric] MAX_ALLOWED_INSTANCES_def)
  show ?thesis
    by (cases "request_action q") (auto simp: authorizeRequestUsingContext_def authorizeDataCreate_def authorizeDataRead_def
        authorizeDataUpdate_def authorizeDataDelete_def authorizeDataList_def authorizeFileCreate_def authorizeFileRead_def
        authorizeFileUpdate_def authorizeFileDelete_def authorizeEventCount_def authorizeEventIncrement_def
        authorizeEventUpdate_def authorizePolicyGrantPermission_def authorizePolicyRevokePermission_def authorizePolicyRead_def
        authorizePolicyList_def authorizeRoleList_def authorizeRoleRead_def authorizeRoleGrant_def authorizeRoleRevoke_def *)
qed

lemma too_many_instances_denied_witness:
  "\<exists>e d. authorizeRequestUsingContext demo_env demo_key_context
     ((asks (Some ''own'') (DataReadRequest ''a'' [''publicRead'']))\<lparr>instances := Some [''i'', ''j'', ''k'']\<rparr>) = Some (Denied e d)"
  by (rule too_many_instances_denied) (simp add: asks_def listed_def)

text \<open>The owner of a record may do everything on the account, and the owner and whoever holds a valid
  record key may do everything on its resources that one marker suffices for; no policy can take
  that away.\<close>

theorem admin_always_allowed:
  assumes "demand rx now (request_action q) = Some (F, ms, account)" and "ms \<noteq> []" and "one_target (request_action q)"
    and "acts_as_admin account C (userId q)" and "listed (instances q) = []" and "own_names C q ms"
  shows "\<exists>r. authorizeRequestUsingContext (memory_env rx now s) C q = Some (Allowed r)"
  using mp.admin_allowed[of "memory_env rx now s" account C q F ms] assms by simp

lemma admin_always_allowed_witness:
  "\<exists>r. authorizeRequestUsingContext (memory_env same_text 5 demo_policies) demo_context
     (asks (Some ''own'') (GrantRoleRequest ''dev'' (Some ''bob'') None None)) = Some (Allowed r)"
  proof -
  have "own_names demo_context (asks (Some ''own'') (GrantRoleRequest ''dev'' (Some ''bob'') None None)) [ACCOUNT_MARKER]" by code_simp
  then show ?thesis
    by (intro admin_always_allowed[where ms = "[ACCOUNT_MARKER]" and account = True])
      (simp_all add: given_def acts_as_admin_def demo_context_def)
qed

text \<open>What is marked for public reading is read by everyone, signed in or not, from at most two
  instances, when no name involved is that of an inherited member of objects.\<close>

theorem public_is_readable:
  assumes "request_action q \<in> {DataReadRequest a ms, FileReadRequest n t ms, EventCountRequest a ms}"
    and "PUBLIC_READ_MARKER \<in> set ms" and "length (listed (instances q)) \<le> 2"
    and "own_names C q ms"
  shows "\<exists>r. authorizeRequestUsingContext (memory_env rx now s) C q = Some (Allowed r)"
  by (rule mp.public_read_allowed[OF _ assms(3,4,1,2)]) simp

lemma public_is_readable_witness:
  "\<exists>r. authorizeRequestUsingContext (memory_env same_text 5 new_memory_policies) demo_context
     (asks None (DataReadRequest ''a'' [''publicRead''])) = Some (Allowed r)"
proof -
  have "own_names demo_context (asks None (DataReadRequest ''a'' [''publicRead''])) [''publicRead'']" by code_simp
  then show ?thesis
    by (intro public_is_readable[where a = "''a''" and ms = "[''publicRead'']"]) (simp_all add: PUBLIC_READ_MARKER_def)
qed

text \<open>A record key does not open the account: with a key and no user, and no policy of one's own for
  the account marker, every request on policies and roles is denied.\<close>

theorem key_alone_not_for_account:
  assumes "demand rx now (request_action q) = Some (F, [ACCOUNT_MARKER], True)" and "userId q = None"
    and "listed (instances q) = []" and "mp_getUserPolicy s (recordName C) ACCOUNT_MARKER = Inl PolicyNotFound"
    and "own_name (recordName C)"
  shows "\<exists>e d. authorizeRequestUsingContext (memory_env rx now s) C q = Some (Denied e d)"
proof -
  have "listPoliciesForMarker memory_policy_ops s (recordName C) ACCOUNT_MARKER = Some [Some DEFAULT_ANY_RESOURCE_POLICY_DOCUMENT]"
    using assms(4) by (auto simp: memory_policy_ops_def mp_listPoliciesForMarker_def mp_getUserPolicy_def ACCOUNT_MARKER_def
        PUBLIC_READ_MARKER_def split: js_member.splits)
  with mp.key_alone_denied[of "memory_env rx now s" q F C] assms show ?thesis by simp
qed

lemma key_alone_not_for_account_witness:
  "\<exists>e d. authorizeRequestUsingContext (memory_env same_text 5 demo_policies) demo_key_context
     (asks None (GrantPermissionRequest ''secret'')) = Some (Denied e d)"
  by (rule key_alone_not_for_account[OF _ _ asks_simps(3)], simp, simp) code_simp+

text \<open>
  An instance, a user or a marker with the name of an inherited member of objects makes the authorization throw: in the
  store in memory, the first as soon as a role is looked up, the user when the record has roles, the marker when it has policies.
\<close>

lemma inherited_user_throws:
  "authorizeRequestUsingContext demo_env demo_context
     (asks (Some ''constructor'') (DataReadRequest ''a'' [''secret''])) = None"
  by code_simp

lemma inherited_marker_throws:
  "authorizeRequestUsingContext demo_env demo_context
     (asks (Some ''own'') (DataReadRequest ''a'' [''constructor''])) = None"
  by code_simp

lemma inherited_name_throws:
  "authorizeRequestUsingContext demo_env demo_context
     ((asks (Some ''own'') (DataReadRequest ''a'' [''secret'']))\<lparr>instances := Some [''constructor'']\<rparr>) = None"
  by code_simp

section \<open>Permissions\<close>

text \<open>The records of the example: one, owned by \<^verbatim>\<open>own\<close>, and a codec that leaves strings as they are.\<close>

definition demo_codec :: key_codec where
  "demo_codec = \<lparr>to64 = (\<lambda>s. ''x'' @ s), from64 = (\<lambda>s. Some (tl s)), hashV2 = (\<lambda>p s. p @ s), hashV1 = (\<lambda>p s. s @ p)\<rparr>"

definition demo_records :: "memory_records records_env" where
  "demo_records = \<lparr>codec = demo_codec, rec_ops = memory_records_ops,
     rec_store = \<lparr>mem_records = [\<lparr>rec_name = ''rec'', ownerId = ''own'', secretHashes = [], secretSalt = ''s''\<rparr>], mem_recordKeys = []\<rparr>\<rparr>"

lemma demo_records_context: "constructAuthorizationContext demo_records ''rec'' = Inr demo_context"
  by code_simp

definition demo_permission :: "string option \<Rightarrow> permission_request" where
  "demo_permission user = \<lparr>pr_key = ''rec'', pr_userId = user, pr_marker = ''secret'',
     pr_permission = DataPermission DataDelete (Role ''dev'') AnyValue, pr_instances = None\<rparr>"

text \<open>Granting a permission to a marker succeeds only if the policies of the account allow it, adds the
  permission to the end of the marker's document unless it is there, and changes the policy of no
  other marker.\<close>

theorem grant_adds_permission:
  assumes "constructAuthorizationContext X (pr_key q) = Inr C"
    and "grantMarkerPermission X (memory_env rx now s) q = (Done (), s')"
    and "own_name (recordName C)" and "own_name (pr_marker q)"
  shows "user_document memory_policy_ops s' (recordName C) (pr_marker q) =
      (let old = user_document memory_policy_ops s (recordName C) (pr_marker q) in
       if pr_permission q \<in> set old then old else old @ [pr_permission q]) \<and>
    (\<forall>r m. own_name m \<longrightarrow> (r, m) \<noteq> (recordName C, pr_marker q) \<longrightarrow> mp_getUserPolicy s' r m = mp_getUserPolicy s r m) \<and>
    (\<exists>r. authorizeRequestUsingContext (memory_env rx now s) C (account_request (pr_key q) (pr_userId q) (pr_instances q)
       (GrantPermissionRequest (pr_marker q))) = Some (Allowed r))"
  using mp.grant_permission_effect[OF _ assms] by (simp add: memory_policy_ops_def)

lemma grant_adds_permission_witness:
  "user_document memory_policy_ops (snd (grantMarkerPermission demo_records (memory_env same_text 5 demo_policies)
     (demo_permission (Some ''own'')))) ''rec'' ''secret''
   = [DataPermission DataRead (Role ''dev'') AnyValue, DataPermission DataDelete (Role ''dev'') AnyValue]"
proof -
  have ok: "fst (grantMarkerPermission demo_records (memory_env same_text 5 demo_policies) (demo_permission (Some ''own''))) = Done ()"
    "user_document memory_policy_ops demo_policies ''rec'' ''secret'' = [DataPermission DataRead (Role ''dev'') AnyValue]"
    by code_simp+
  have C: "constructAuthorizationContext demo_records (pr_key (demo_permission (Some ''own''))) = Inr demo_context"
    using demo_records_context by (simp add: demo_permission_def)
  moreover have "own_name (recordName demo_context)" "own_name (pr_marker (demo_permission (Some ''own'')))" by code_simp+
  ultimately show ?thesis
    using grant_adds_permission[OF C, of same_text 5 demo_policies] ok
    by (cases "grantMarkerPermission demo_records (memory_env same_text 5 demo_policies) (demo_permission (Some ''own''))")
      (auto simp: demo_permission_def demo_context_def)
qed

text \<open>Revoking a permission from a marker succeeds only if the policies of the account allow it, and
  removes every copy of the permission and nothing else.\<close>

theorem revoke_removes_permission:
  assumes "constructAuthorizationContext X (pr_key q) = Inr C"
    and "revokeMarkerPermission X (memory_env rx now s) q = (Done (), s')"
    and "own_name (recordName C)" and "own_name (pr_marker q)"
  shows "user_document memory_policy_ops s' (recordName C) (pr_marker q) =
      filter (\<lambda>p. p \<noteq> pr_permission q) (user_document memory_policy_ops s (recordName C) (pr_marker q)) \<and>
    (\<forall>r m. own_name m \<longrightarrow> (r, m) \<noteq> (recordName C, pr_marker q) \<longrightarrow> mp_getUserPolicy s' r m = mp_getUserPolicy s r m) \<and>
    (\<exists>r. authorizeRequestUsingContext (memory_env rx now s) C (account_request (pr_key q) (pr_userId q) (pr_instances q)
       (RevokePermissionRequest (pr_marker q))) = Some (Allowed r))"
  using mp.revoke_permission_effect[OF _ assms] by (simp add: memory_policy_ops_def)

definition demo_revocation :: permission_request where
  "demo_revocation = \<lparr>pr_key = ''rec'', pr_userId = Some ''own'', pr_marker = ''secret'',
     pr_permission = DataPermission DataRead (Role ''dev'') AnyValue, pr_instances = None\<rparr>"

lemma revoke_removes_permission_witness:
  "user_document memory_policy_ops (snd (revokeMarkerPermission demo_records (memory_env same_text 5 demo_policies)
     demo_revocation)) ''rec'' ''secret'' = []"
proof -
  have ok: "fst (revokeMarkerPermission demo_records (memory_env same_text 5 demo_policies) demo_revocation) = Done ()"
    "user_document memory_policy_ops demo_policies ''rec'' ''secret'' = [DataPermission DataRead (Role ''dev'') AnyValue]"
    by code_simp+
  have C: "constructAuthorizationContext demo_records (pr_key demo_revocation) = Inr demo_context"
    using demo_records_context by (simp add: demo_revocation_def)
  moreover have "own_name (recordName demo_context)" "own_name (pr_marker demo_revocation)" by code_simp+
  ultimately show ?thesis
    using revoke_removes_permission[OF C, of same_text 5 demo_policies] ok
    by (cases "revokeMarkerPermission demo_records (memory_env same_text 5 demo_policies) demo_revocation")
      (auto simp: demo_revocation_def demo_context_def)
qed

text \<open>An operation on permissions or roles that fails, because the request is denied or for any other
  reason, leaves the store of policies as it was.\<close>

theorem failure_changes_no_policy:
  assumes "grantMarkerPermission X (memory_env rx now s) p = (Failed e d, s') \<or>
      revokeMarkerPermission X (memory_env rx now s) p = (Failed e d, s') \<or>
      grantRole X (memory_env rx now s) key user q insts = (Failed e d, s') \<or>
      revokeRole X (memory_env rx now s) key user q insts = (Failed e d, s')"
  shows "s' = s"
  using assms mp.failed_policy_unchanged[of "memory_env rx now s"] mp.failed_role_unchanged[of "memory_env rx now s"]
  by (metis memory_env_simps(1,4))

definition ann_grants :: "unit op_result \<times> memory_policies" where
  "ann_grants = grantMarkerPermission demo_records (memory_env same_text 5 demo_policies) (demo_permission (Some ''ann''))"

lemma failure_changes_no_policy_witness: "snd ann_grants = demo_policies"
proof -
  have "case fst ann_grants of Failed e d \<Rightarrow> True | _ \<Rightarrow> False" by code_simp
  then obtain e d where "ann_grants = (Failed e d, snd ann_grants)" by (cases "fst ann_grants") (auto simp: prod_eq_iff)
  then show ?thesis
    by (intro failure_changes_no_policy[where e = e and d = d] disjI1) (simp add: ann_grants_def)
qed

section \<open>Roles\<close>

text \<open>A role that the store has from elsewhere is held without an end.\<close>

lemma fixed_role_endless:
  assumes "own_name u" and "getRolesForEntity now s r u = Some held" and "n \<in> fixed_roles s r u"
  shows "\<exists>a\<in>set held. role a = n \<and> expireTimeMs a = None"
proof -
  from assms have "\<lparr>role = n, expireTimeMs = None\<rparr> \<in> set held"
    by (auto simp: rolesForEntity_own[OF assms(1)] fixed_roles_def split: option.splits)
  then show ?thesis by (force intro: bexI[rotated])
qed

text \<open>C25: After a role was granted to a user who had no grant of the role that outlasts the new one, the
  user has the role at exactly the times before the expiry that was asked for; at the time of the grant
  the user's other roles are what they were; and the grant succeeds only if the policies of the account
  allow that role for that user and duration. Record and user do not have the name of a member that
  every JavaScript object inherits.\<close>

theorem granted_role_until_expiry:
  assumes "constructAuthorizationContext X key = Inr C"
    and "grantRole X (memory_env rx now s) key user q insts = (Done (), s')"
    and "rr_userId q = Some u" and "u \<noteq> []" and "now \<le> later"
    and "own_name (recordName C)" and "own_name u"
    and "getRolesForEntity now s (recordName C) u = Some held"
    and "\<forall>a\<in>set held. role a = rr_role q \<longrightarrow> getExpireTime (expireTimeMs a) \<le> getExpireTime (rr_expireTimeMs q)"
  shows "(rr_role q \<in> role_names (getRolesForEntity later s' (recordName C) u) \<longleftrightarrow>
      Finite later < getExpireTime (rr_expireTimeMs q)) \<and>
    (\<forall>n. n \<noteq> rr_role q \<longrightarrow> (n \<in> role_names (getRolesForEntity now s' (recordName C) u) \<longleftrightarrow> n \<in> role ` set held)) \<and>
    (\<exists>res. authorizeRequestUsingContext (memory_env rx now s) C (account_request key user insts
      (GrantRoleRequest (rr_role q) (rr_userId q) (rr_instance q) (Some (getExpireTime (rr_expireTimeMs q))))) = Some (Allowed res))"
proof -
  have "Finite later < getExpireTime (rr_expireTimeMs q)" if "rr_role q \<in> fixed_roles s (recordName C) u"
    using fixed_role_endless[OF assms(7,8) that] assms(9) by (force simp: getExpireTime_def[of None] intro: less_le_trans[of _ Infinity])
  then show ?thesis
    using mp.grant_role_effect[OF _ assms(1,2), of later] assms(3-8)
    by (auto simp: memory_policy_ops_def role_names_def given_def)
qed

definition demo_role :: role_request where
  "demo_role = \<lparr>rr_role = ''dev'', rr_userId = Some ''bob'', rr_instance = None, rr_expireTimeMs = Some (Finite 50)\<rparr>"

lemma granted_role_until_expiry_witness:
  "''dev'' \<in> role_names (getRolesForEntity 49 (snd (grantRole demo_records (memory_env same_text 5 demo_policies) ''rec'' (Some ''own'')
     demo_role None)) ''rec'' ''bob'') \<and>
   ''dev'' \<notin> role_names (getRolesForEntity 50 (snd (grantRole demo_records (memory_env same_text 5 demo_policies) ''rec'' (Some ''own'')
     demo_role None)) ''rec'' ''bob'')"
proof -
  have ok: "fst (grantRole demo_records (memory_env same_text 5 demo_policies) ''rec'' (Some ''own'') demo_role None) = Done ()"
    by code_simp
  have none: "getRolesForEntity 5 demo_policies ''rec'' ''bob'' = Some []" and own: "own_name ''rec''" "own_name ''bob''" by code_simp+
  obtain s' where s': "grantRole demo_records (memory_env same_text 5 demo_policies) ''rec'' (Some ''own'') demo_role None = (Done (), s')"
    using ok by (metis prod.collapse)
  have request: "rr_role demo_role = ''dev''" "rr_userId demo_role = Some ''bob''" "rr_expireTimeMs demo_role = Some (Finite 50)"
    "recordName demo_context = ''rec''"
    by (simp_all add: demo_role_def demo_context_def)
  from granted_role_until_expiry[OF demo_records_context s', of "''bob''" 49 "[]"] granted_role_until_expiry[OF demo_records_context s', of "''bob''" 50 "[]"]
  show ?thesis by (simp add: request none own s' getExpireTime_def)
qed

text \<open>A grant of the role that outlasts the new one is removed by it.\<close>

lemma longer_grant_removed:
  "let s = mp_updateRoles 5 demo_policies ''rec'' ''bob'' [\<lparr>role = ''dev'', expireTimeMs = Some (Finite 100)\<rparr>];
       (r, s') = grantRole demo_records (memory_env same_text 5 s) ''rec'' (Some ''own'') demo_role None
   in r = Done () \<and> ''dev'' \<in> role_names (getRolesForEntity 70 s ''rec'' ''bob'') \<and>
      ''dev'' \<notin> role_names (getRolesForEntity 70 s' ''rec'' ''bob'')"
  by code_simp

text \<open>After a role was revoked from a user, the user has it at no later time, unless the store gives it
  to the user from elsewhere, and the user's other roles are what they were; the revocation succeeds
  only if the policies of the account allow it.\<close>

theorem revoked_role_is_gone:
  assumes "constructAuthorizationContext X key = Inr C"
    and "revokeRole X (memory_env rx now s) key user q insts = (Done (), s')"
    and "rr_userId q = Some u" and "u \<noteq> []" and "now \<le> later"
    and "own_name (recordName C)" and "own_name u"
  shows "(rr_role q \<in> role_names (getRolesForEntity later s' (recordName C) u) \<longleftrightarrow> rr_role q \<in> fixed_roles s (recordName C) u) \<and>
    (\<forall>n. n \<noteq> rr_role q \<longrightarrow> (n \<in> role_names (getRolesForEntity now s' (recordName C) u) \<longleftrightarrow>
      n \<in> role_names (getRolesForEntity now s (recordName C) u))) \<and>
    (\<exists>res. authorizeRequestUsingContext (memory_env rx now s) C (account_request key user insts
      (RevokeRoleRequest (rr_role q) (rr_userId q) (rr_instance q))) = Some (Allowed res))"
  using mp.revoke_role_effect[OF _ assms(1,2), of later] assms(3-7)
  by (simp add: memory_policy_ops_def role_names_def given_def)

definition demo_role_revocation :: role_request where
  "demo_role_revocation = \<lparr>rr_role = ''dev'', rr_userId = Some ''ann'', rr_instance = None, rr_expireTimeMs = None\<rparr>"

lemma revoked_role_is_gone_witness:
  "''dev'' \<in> role_names (getRolesForEntity 5 demo_policies ''rec'' ''ann'') \<and>
   ''dev'' \<notin> role_names (getRolesForEntity 6 (snd (revokeRole demo_records (memory_env same_text 5 demo_policies) ''rec'' (Some ''own'')
     demo_role_revocation None)) ''rec'' ''ann'')"
proof
  show "''dev'' \<in> role_names (getRolesForEntity 5 demo_policies ''rec'' ''ann'')" by code_simp
  have ok: "fst (revokeRole demo_records (memory_env same_text 5 demo_policies) ''rec'' (Some ''own'') demo_role_revocation None) = Done ()"
    by code_simp
  have none: "fixed_roles demo_policies ''rec'' ''ann'' = {}" and own: "own_name ''rec''" "own_name ''ann''" by code_simp+
  obtain s' where s': "revokeRole demo_records (memory_env same_text 5 demo_policies) ''rec'' (Some ''own'') demo_role_revocation None = (Done (), s')"
    using ok by (metis prod.collapse)
  have request: "rr_role demo_role_revocation = ''dev''" "rr_userId demo_role_revocation = Some ''ann''" "recordName demo_context = ''rec''"
    by (simp_all add: demo_role_revocation_def demo_context_def)
  from revoked_role_is_gone[OF demo_records_context s', of "''ann''" 6]
  show "''dev'' \<notin> role_names (getRolesForEntity 6 (snd (revokeRole demo_records (memory_env same_text 5 demo_policies) ''rec''
      (Some ''own'') demo_role_revocation None)) ''rec'' ''ann'')"
    by (simp add: request none own s')
qed

text \<open>A role that the store has from elsewhere survives its revocation.\<close>

lemma fixed_role_survives:
  "let s = demo_policies\<lparr>mp_roles := [''rec'' \<mapsto> [(''ann'', [''dev''])]]\<rparr>;
       (r, s') = revokeRole demo_records (memory_env same_text 5 s) ''rec'' (Some ''own'') demo_role_revocation None
   in r = Done () \<and> ''dev'' \<in> role_names (getRolesForEntity 5 s' ''rec'' ''ann'')"
  by code_simp

section \<open>From grants to access\<close>

text \<open>C26: A permission granted to a marker for a role, followed directly by the grant of the role to a user
  until some time, gives the user the access: on the store that the two operations leave and until that
  time, a request of the user that comes from no instance is allowed, if it is of a kind that one marker
  suffices for (reading and deleting data and files, counting and incrementing events, everything on
  policies and roles), the permission covers it, and the marker is among those that it is about. The two
  operations and the request are for the same record, each by its name or one of its keys; record, markers
  and user do not have the name of a member that every JavaScript object inherits.\<close>

theorem grants_give_access:
  assumes "constructAuthorizationContext X (pr_key p) = Inr Cp" and "constructAuthorizationContext X' key = Inr Cq"
    and "recordName Cp = recordName C" and "recordName Cq = recordName C"
    and "grantMarkerPermission X (memory_env rx before s) p = (Done (), s1)"
    and "grantRole X' (memory_env rx' now s1) key user q insts = (Done (), s2)"
    and "perm_role (pr_permission p) = Role (rr_role q)" and "rr_userId q = Some u" and "u \<noteq> []"
    and "now \<le> later" and "Finite later < getExpireTime (rr_expireTimeMs q)"
    and "demand rx'' later (request_action r) = Some (F, ms, account)" and "pr_marker p \<in> set ms" and "F (pr_permission p)"
    and "userId r = Some u" and "listed (instances r) = []" and "own_names C r ms"
  shows "\<exists>res. authorizeRequestUsingContext (memory_env rx'' later s2) C r = Some (Allowed res)"
proof -
  have own: "own_name (recordName C)" "own_name (pr_marker p)" "own_name u"
    using own_namesD[OF assms(17)] assms(13,15) by (auto simp: readable_def)
  from mp.grant_permission_effect[OF _ assms(1,5)] own assms(3) have doc:
    "pr_permission p \<in> set (user_document memory_policy_ops s1 (recordName C) (pr_marker p))"
    "\<exists>pol. getUserPolicy memory_policy_ops s1 (recordName C) (pr_marker p) = Some (Inr (Some pol))"
    by (auto simp: Let_def split: if_splits)
  then have in1: "pr_permission p \<in> permissions_of (memory_env rx' now s1) (recordName C) (pr_marker p)"
    using mp.policy_in_permissions[OF _ _ own(1,2), of "memory_env rx' now s1"]
    by (auto simp: user_document_def)
  note roles = mp.grant_role_effect[OF _ assms(2,6), of later]
  have role: "rr_role q \<in> role_names (listRolesForUser memory_policy_ops later s2 (recordName C) u)"
    using roles(1) own assms(4,8-11) by (simp add: given_def)
  have "permission_list (memory_env rx'' later s2) (recordName C) (pr_marker p) = permission_list (memory_env rx' now s1) (recordName C) (pr_marker p)"
    using roles(3) own assms(4,8-10) by (simp add: permission_list_def given_def)
  with in1 have in2: "pr_permission p \<in> permissions_of (memory_env rx'' later s2) (recordName C) (pr_marker p)" by simp
  show ?thesis
    by (rule mp.permission_and_role_allow[where E = "memory_env rx'' later s2" and n = "rr_role q" and q = r and F = F
          and ms = ms and account = account and m = "pr_marker p" and p = "pr_permission p" and u = u])
      (use assms in2 role in simp_all)
qed

definition after_permission :: memory_policies where
  "after_permission = snd (grantMarkerPermission demo_records (memory_env same_text 5 demo_policies) (demo_permission (Some ''own'')))"

definition after_role :: memory_policies where
  "after_role = snd (grantRole demo_records (memory_env same_text 5 after_permission) ''rec'' (Some ''own'') demo_role None)"

lemma grants_give_access_witness:
  "\<exists>res. authorizeRequestUsingContext (memory_env same_text 20 after_role) demo_context
     (asks (Some ''bob'') (DataDeleteRequest ''a'' [''other'', ''secret''])) = Some (Allowed res)"
proof -
  have "fst (grantMarkerPermission demo_records (memory_env same_text 5 demo_policies) (demo_permission (Some ''own''))) = Done ()"
    "fst (grantRole demo_records (memory_env same_text 5 after_permission) ''rec'' (Some ''own'') demo_role None) = Done ()"
    by code_simp+
  moreover have own: "own_names demo_context (asks (Some ''bob'') (DataDeleteRequest ''a'' [''other'', ''secret''])) [''other'', ''secret'']"
    by code_simp
  ultimately have ok: "grantMarkerPermission demo_records (memory_env same_text 5 demo_policies) (demo_permission (Some ''own'')) = (Done (), after_permission)"
    "grantRole demo_records (memory_env same_text 5 after_permission) ''rec'' (Some ''own'') demo_role None = (Done (), after_role)"
    by (simp_all add: after_permission_def after_role_def prod_eq_iff)
  show ?thesis
    by (rule grants_give_access[OF _ demo_records_context _ _ ok, where u = "''bob''" and F = "byData same_text DataDelete ''a''"
          and ms = "[''other'', ''secret'']" and account = False and Cp = demo_context])
      (simp_all add: demo_permission_def demo_role_def getExpireTime_def byData_def demo_records_context own)
qed

end
