(* ===== verification/RecordClaims.thy ===== *)
theory RecordClaims
  imports AccountClaims
begin

text \<open>
  The properties of record keys and records, and of the authorization with a record key. The witnesses
  use a codec that writes two letters for a character; what the properties assume of base 64 holds for it.
\<close>

definition key_demo :: key_codec where
  "key_demo = \<lparr>to64 = letters, from64 = unletters, hashV2 = (\<lambda>p s. p @ s), hashV1 = (\<lambda>p s. s @ p)\<rparr>"

section \<open>Keys\<close>

text \<open>C37: A record key that was formatted for a record name, a password and a policy (or none) is parsed
  back to that name and password and that policy (or the default), and is recognised as a record key,
  for a base 64 codec that the decoder inverts, that writes no period, and no empty text for a
  non-empty one.\<close>

theorem record_key_roundtrip:
  assumes "base64_ok enc dec" and "n \<noteq> []" and "pw \<noteq> []"
    and "policy \<in> {None, Some ''subjectfull'', Some ''subjectless''}"
  shows "parseRecordKey dec (formatV2RecordKey enc n pw policy) = Some (n, pw, stored_policy policy) \<and>
    parseRecordKey dec (formatV1RecordKey enc n pw) = Some (n, pw, DEFAULT_RECORD_KEY_POLICY) \<and>
    isRecordKey dec (formatV2RecordKey enc n pw policy)"
  using parse_created[of "\<lparr>to64 = enc, from64 = dec, hashV2 = \<lambda>p s. p, hashV1 = \<lambda>p s. p\<rparr>" n pw policy] assms
    parse_formatV1[OF assms(1-3)]
  by (simp add: isRecordKey_def DEFAULT_RECORD_KEY_POLICY_def)

lemma record_key_roundtrip_witness:
  "parseRecordKey unletters (formatV2RecordKey letters ''my.rec'' ''pw'' (Some ''subjectless'')) = Some (''my.rec'', ''pw'', ''subjectless'')"
  using record_key_roundtrip[OF letters_ok, of "''my.rec''" "''pw''" "Some ''subjectless''"]
  by (simp add: stored_policy_def)

text \<open>Creating a key for a record that does not exist creates the record for the user, and the key that is
  returned is valid at once: for that record, its owner and the policy that was asked for (given a
  hash that is not stored for that record yet).\<close>

theorem created_key_is_valid:
  assumes "base64_ok (to64 cd) (from64 cd)" and "n \<noteq> []" and "pw \<noteq> []" and "u \<noteq> []"
    and "policy \<in> {None, Some ''subjectfull'', Some ''subjectless''}"
    and "mem_getRecordByName s n = None"
    and "mem_getRecordKeyByRecordAndHash s n (hashV2 cd pw salt) = None"
  shows "\<exists>key s'. createPublicRecordKey cd memory_records_ops pw salt s n policy u = (Inr (key, n), s') \<and>
    validatePublicRecordKey cd memory_records_ops s' key =
      Inr \<lparr>vk_recordName = n, vk_ownerId = u, vk_keyCreatorId = u, vk_policy = stored_policy policy\<rparr>"
  by (rule mr.created_key_valid_new) (use assms in \<open>simp_all add: memory_records_ops_def\<close>)

definition no_records :: memory_records where "no_records = \<lparr>mem_records = [], mem_recordKeys = []\<rparr>"

lemma created_key_is_valid_witness:
  "\<exists>key s'. createPublicRecordKey key_demo memory_records_ops ''pw'' ''salt'' no_records ''rec'' None ''own'' = (Inr (key, ''rec''), s') \<and>
    validatePublicRecordKey key_demo memory_records_ops s' key =
      Inr \<lparr>vk_recordName = ''rec'', vk_ownerId = ''own'', vk_keyCreatorId = ''own'', vk_policy = stored_policy None\<rparr>"
  by (rule created_key_is_valid)
    (simp_all add: key_demo_def letters_ok no_records_def mem_getRecordByName_def mem_getRecordKeyByRecordAndHash_def)

text \<open>A key is only accepted if it parses to the name of a stored record and a password whose hash with
  the record's salt is stored for the record: among the record's own hashes, for keys of the default
  policy, or in a stored key of that record with the policy that the key names and the creator that
  is reported.\<close>

theorem accepted_key_is_stored:
  assumes "validatePublicRecordKey cd memory_records_ops s key = Inr v"
  shows "\<exists>pw e. parseRecordKey (from64 cd) key = Some (vk_recordName v, pw, vk_policy v) \<and>
    mem_getRecordByName s (vk_recordName v) = Some e \<and> vk_ownerId v = ownerId e \<and>
    (let hashes = {hashV2 cd pw (secretSalt e), hashV1 cd pw (secretSalt e)} in
      hashes \<inter> set (secretHashes e) \<noteq> {} \<and> vk_policy v = DEFAULT_RECORD_KEY_POLICY \<and> vk_keyCreatorId v = ownerId e \<or>
      (\<exists>k\<in>set (mem_recordKeys s). key_recordName k = vk_recordName v \<and> secretHash k \<in> hashes \<and>
        key_policy k = vk_policy v \<and> creatorId k = vk_keyCreatorId v))"
proof -
  from assms obtain n pw pol e where p: "parseRecordKey (from64 cd) key = Some (n, pw, pol)"
    and e: "mem_getRecordByName s n = Some e"
    by (auto simp: validatePublicRecordKey_def memory_records_ops_def split: option.splits)
  from assms p e obtain c where c: "checkHashes cd memory_records_ops s n pw e = Some (True, pol, c)"
    and v: "v = \<lparr>vk_recordName = n, vk_ownerId = ownerId e, vk_keyCreatorId = (case c of Some c \<Rightarrow> c | None \<Rightarrow> ownerId e), vk_policy = pol\<rparr>"
    by (auto simp: validatePublicRecordKey_def memory_records_ops_def split: option.splits if_splits)
  let ?hs = "{hashV2 cd pw (secretSalt e), hashV1 cd pw (secretSalt e)}"
  have stored: "\<exists>k\<in>set (mem_recordKeys s). key_recordName k = n \<and> secretHash k \<in> ?hs \<and> k = x"
    if "mem_getRecordKeyByRecordAndHash s n h = Some x" and "h \<in> ?hs" for h x
    using that find_in by (fastforce simp: mem_getRecordKeyByRecordAndHash_def)
  show ?thesis
    using c p e v stored
    by (auto simp: checkHashes_def Let_def memory_records_ops_def split: if_splits option.splits)
qed

definition one_key :: memory_records where
  "one_key = \<lparr>mem_records = [\<lparr>rec_name = ''rec'', ownerId = ''own'', secretHashes = [], secretSalt = ''s''\<rparr>],
     mem_recordKeys = [\<lparr>key_recordName = ''rec'', secretHash = ''pws'', key_policy = ''subjectless'', creatorId = ''ann''\<rparr>]\<rparr>"

lemma accepted_key_is_stored_witness:
  "\<exists>pw. parseRecordKey unletters (formatV2RecordKey letters ''rec'' ''pw'' (Some ''subjectless'')) = Some (''rec'', pw, ''subjectless'')"
proof -
  have "validatePublicRecordKey key_demo memory_records_ops one_key (formatV2RecordKey letters ''rec'' ''pw'' (Some ''subjectless'')) =
      Inr \<lparr>vk_recordName = ''rec'', vk_ownerId = ''own'', vk_keyCreatorId = ''ann'', vk_policy = ''subjectless''\<rparr>"
    by code_simp
  from accepted_key_is_stored[OF this] show ?thesis by (auto simp: key_demo_def)
qed

text \<open>Creating a key, whether it succeeds or fails, changes no record that exists: its owner and its
  secrets stay, whoever asks.\<close>

theorem records_keep_their_owner:
  assumes "mem_getRecordByName s m = Some e"
  shows "mem_getRecordByName (snd (createPublicRecordKey cd memory_records_ops pw salt s n policy u)) m = Some e"
  using mr.create_keeps_records[of cd pw salt s n policy u, OF prod.collapse[symmetric]] assms
  by (simp add: memory_records_ops_def)

lemma records_keep_their_owner_witness:
  "mem_getRecordByName (snd (createPublicRecordKey key_demo memory_records_ops ''p'' ''t'' one_key ''rec'' None ''bob'')) ''rec'' =
    Some \<lparr>rec_name = ''rec'', ownerId = ''own'', secretHashes = [], secretSalt = ''s''\<rparr>"
  by (rule records_keep_their_owner) (simp add: one_key_def mem_getRecordByName_def)

text \<open>The empty policy passes the check and makes a key that cannot be parsed.\<close>

lemma empty_policy_key_useless:
  "case createPublicRecordKey key_demo memory_records_ops ''pw'' ''salt'' no_records ''rec'' (Some '''') ''own'' of
     (Inr (key, _), _) \<Rightarrow> parseRecordKey unletters key = None | _ \<Rightarrow> False"
  by code_simp

section \<open>Keys and authorization\<close>

text \<open>From the key to the resource: with the key that was just created for a new record, and without
  signing in, every creation of data or of a file in that record is allowed, in any state of the
  policies, with the key's creator as the authorizer; as long as the record, the markers and the user do
  not have the name of an inherited member of objects.\<close>

theorem created_key_opens_record:
  assumes "base64_ok (to64 cd) (from64 cd)" and "n \<noteq> []" and "pw \<noteq> []" and "u \<noteq> []"
    and "policy \<in> {None, Some ''subjectfull'', Some ''subjectless''}"
    and "mem_getRecordByName rs n = None"
    and "mem_getRecordKeyByRecordAndHash rs n (hashV2 cd pw salt) = None"
    and "createPublicRecordKey cd memory_records_ops pw salt rs n policy u = (Inr (key, n'), rs')"
    and "create_demand rx (request_action q) = Some (F, ms)" and "ms \<noteq> []"
    and "recordKeyOrRecordName q = key" and "instances q = None"
    and "own_name n" and "list_all own_name ms" and "readable (userId q)"
  shows "\<exists>r. authorizeRequest \<lparr>codec = cd, rec_ops = memory_records_ops, rec_store = rs'\<rparr> (memory_env rx now s) q = Allowed r \<and>
    res_recordName r = n \<and> authorizerId r = Some u \<and> subject_policy r = stored_policy policy"
proof -
  let ?v = "\<lparr>vk_recordName = n, vk_ownerId = u, vk_keyCreatorId = u, vk_policy = stored_policy policy\<rparr>"
  from mr.created_key_valid_new[of cd n pw u policy rs salt] assms(1-8)
  have valid: "validatePublicRecordKey cd memory_records_ops rs' key = Inr ?v" and "n' = n"
    by (auto simp: memory_records_ops_def)
  then have "isRecordKey (from64 cd) key"
    by (auto simp: validatePublicRecordKey_def isRecordKey_def split: option.splits)
  then have C: "constructAuthorizationContext \<lparr>codec = cd, rec_ops = memory_records_ops, rec_store = rs'\<rparr> key =
      Inr \<lparr>recordKeyResult = Some ?v, recordKeyProvided = True, recordName = n, recordOwnerId = u, subjectPolicy = stored_policy policy\<rparr>"
    (is "_ = Inr ?C")
    by (simp add: constructAuthorizationContext_def valid)
  have "\<exists>r. authorizeRequestUsingContext (memory_env rx now s) ?C q = Some (Allowed r)"
    by (rule mp.admin_may_create) (use assms(9,10,12-15) in \<open>auto simp add: acts_as_admin_def listed_def own_names_def readable_def split: option.splits\<close>)
  then obtain r where r: "authorizeRequestUsingContext (memory_env rx now s) ?C q = Some (Allowed r)" by blast
  then obtain au f k where "authorize_request (memory_env rx now s) ?C q au f k = Some (Allowed r)"
    using assms(9) by (cases "request_action q")
      (auto simp: authorizeRequestUsingContext_def authorizeDataCreate_def authorizeFileCreate_def)
  from authorize_request_sound[OF this] have "res_recordName r = n" "authorizerId r = Some u" "subject_policy r = stored_policy policy"
    by (metis (no_types, lifting) auth_context.select_convs authorized.select_convs option.simps(5) valid_key.select_convs)+
  with C r assms(11) show ?thesis by (simp add: authorizeRequest_def)
qed

definition first_key :: "(error_code + string \<times> string) \<times> memory_records" where
  "first_key = createPublicRecordKey key_demo memory_records_ops ''pw'' ''salt'' no_records ''rec'' None ''own''"

definition key_creates :: "unit request" where
  "key_creates = \<lparr>recordKeyOrRecordName = formatV2RecordKey letters ''rec'' ''pw'' None, userId = None, instances = None,
     request_action = DataCreateRequest ''a'' [''secret'']\<rparr>"

lemma created_key_opens_record_witness:
  "\<exists>r. authorizeRequest \<lparr>codec = key_demo, rec_ops = memory_records_ops, rec_store = snd first_key\<rparr>
     (memory_env same_text 5 demo_policies) key_creates = Allowed r \<and> authorizerId r = Some ''own''"
proof -
  have key: "createPublicRecordKey key_demo memory_records_ops ''pw'' ''salt'' no_records ''rec'' None ''own'' =
      (Inr (formatV2RecordKey letters ''rec'' ''pw'' None, ''rec''), snd first_key)"
    by (simp add: first_key_def createPublicRecordKey_def memory_records_ops_def no_records_def mem_getRecordByName_def
        bad_key_policy_def key_demo_def)
  have own: "own_name ''rec''" "own_name ''secret''" by code_simp+
  have "\<exists>r. authorizeRequest \<lparr>codec = key_demo, rec_ops = memory_records_ops, rec_store = snd first_key\<rparr>
      (memory_env same_text 5 demo_policies) key_creates = Allowed r \<and> res_recordName r = ''rec'' \<and> authorizerId r = Some ''own'' \<and>
      subject_policy r = stored_policy None"
    by (rule created_key_opens_record[OF _ _ _ _ _ _ _ key, where F = "byData same_text DataCreate ''a''" and ms = "[''secret'']"])
      (simp_all add: key_demo_def letters_ok no_records_def mem_getRecordByName_def mem_getRecordKeyByRecordAndHash_def key_creates_def own readable_def)
  then show ?thesis by blast
qed

section \<open>Listing policies\<close>

text \<open>Without a starting marker, \<^verbatim>\<open>listUserPolicies\<close> returns every policy of the record once, in the order
  of the markers.\<close>

theorem policies_listed_in_order:
  assumes "distinct (map fst (entries (mp_policies s) r))"
  shows "sorted (map listed_marker (mp_listUserPolicies s r None)) \<and> distinct (map listed_marker (mp_listUserPolicies s r None)) \<and>
    (\<forall>m p. \<lparr>listed_marker = m, listed_policy = p\<rparr> \<in> set (mp_listUserPolicies s r None) \<longleftrightarrow> mp_getUserPolicy s r m = Inr (Some p))"
proof -
  let ?ps = "entries (mp_policies s) r"
  have all: "list_from ps None True ks = map (\<lambda>k. \<lparr>listed_marker = k, listed_policy = the (map_of ps k)\<rparr>) ks"
    if "set ks \<subseteq> dom (map_of ps)" for ps ks
    using that by (induction ks) auto
  have "set (sort (map fst ?ps)) \<subseteq> dom (map_of ?ps)" by (simp add: dom_map_of_conv_image_fst)
  from all[OF this] have l: "mp_listUserPolicies s r None =
      map (\<lambda>k. \<lparr>listed_marker = k, listed_policy = the (map_of ?ps k)\<rparr>) (sort (map fst ?ps))"
    by (simp add: Let_def mp_listUserPolicies_def given_def)
  have "\<lparr>listed_marker = m, listed_policy = p\<rparr> \<in> set (mp_listUserPolicies s r None) \<longleftrightarrow> mp_getUserPolicy s r m = Inr (Some p)" for m p
    by (auto simp: l mp_getUserPolicy_def js_member_def entries_def dom_map_of_conv_image_fst[symmetric] split: option.splits if_splits)
  with l assms show ?thesis by (simp add: comp_def)
qed

lemma policies_listed_in_order_witness:
  "map listed_marker (mp_listUserPolicies demo_policies ''rec'' None) = [''secret''] \<and>
   sorted (map listed_marker (mp_listUserPolicies demo_policies ''rec'' None))"
proof -
  have e: "entries (mp_policies demo_policies) ''rec'' =
      [(''secret'', \<lparr>document = [DataPermission DataRead (Role ''dev'') AnyValue], policy_markers = [ACCOUNT_MARKER]\<rparr>)]"
    by (simp add: demo_policies_def new_memory_policies_def entries_def)
  then have "distinct (map fst (entries (mp_policies demo_policies) ''rec''))" by simp
  from policies_listed_in_order[OF this] e show ?thesis by (simp add: mp_listUserPolicies_def given_def)
qed

text \<open>A starting marker that has no policy hides the first marker after it.\<close>

lemma starting_marker_skips:
  "mp_listUserPolicies demo_policies ''rec'' (Some ''a'') = []"
  by (simp add: demo_policies_def new_memory_policies_def entries_def mp_listUserPolicies_def given_def)

end
