(* ===== verification/ResourceRequests.thy ===== *)
theory ResourceRequests
  imports PolicyController
begin

text \<open>
  What the controllers of data, events and files share: the part of a request that does not depend on the
  action, the default markers, the markers that an update adds and removes, and how a controller
  answers a failed context, a denied request and an exception.
\<close>

section \<open>Requests and markers\<close>

definition base_request :: "string \<Rightarrow> string option \<Rightarrow> string list option \<Rightarrow> 'd action \<Rightarrow> 'd request" where
  "base_request key user insts a =
     \<lparr>recordKeyOrRecordName = key, userId = user, instances = insts, request_action = a\<rparr>"

lemma base_request_simps [simp]:
  "recordKeyOrRecordName (base_request key user insts a) = key" "userId (base_request key user insts a) = user"
  "instances (base_request key user insts a) = insts" "request_action (base_request key user insts a) = a"
  by (simp_all add: base_request_def)

text \<open>\<^verbatim>\<open>markers ?? [PUBLIC_READ_MARKER]\<close>, and \<^verbatim>\<open>getMarkersOrDefault\<close>, which also replaces an empty list.\<close>

definition markers_or_public :: "string list option \<Rightarrow> string list" where
  "markers_or_public ms = (case ms of None \<Rightarrow> [PUBLIC_READ_MARKER] | Some ms \<Rightarrow> ms)"

definition getMarkersOrDefault :: "string list option \<Rightarrow> string list" where
  "getMarkersOrDefault ms =
     (case ms of None \<Rightarrow> [PUBLIC_READ_MARKER] | Some ms \<Rightarrow> if length ms \<le> 0 then [PUBLIC_READ_MARKER] else ms)"

text \<open>\<^verbatim>\<open>without\<close> of lodash, and the two lists that an update is authorized for.\<close>

definition without :: "'a list \<Rightarrow> 'a list \<Rightarrow> 'a list" where
  "without xs ys = filter (\<lambda>x. x \<notin> set ys) xs"

definition addedMarkers :: "string list option \<Rightarrow> string list \<Rightarrow> string list" where
  "addedMarkers markers existing = (case markers of None \<Rightarrow> [] | Some ms \<Rightarrow> without ms existing)"

definition removedMarkers :: "string list option \<Rightarrow> string list \<Rightarrow> string list" where
  "removedMarkers markers existing = (case markers of None \<Rightarrow> [] | Some ms \<Rightarrow> without existing ms)"

section \<open>Answers\<close>

text \<open>
  The context of the record, then \<open>body\<close>, on a store \<open>s\<close>; an exception is a server error and leaves the
  store as it was before the call that threw.
\<close>

definition with_context ::
    "'r records_env \<Rightarrow> string \<Rightarrow> 't \<Rightarrow> (auth_context \<Rightarrow> ('a op_result \<times> 't) option) \<Rightarrow> 'a op_result \<times> 't" where
  "with_context X key s body =
     (case constructAuthorizationContext X key of
        Inl e \<Rightarrow> (Failed e None, s)
      | Inr C \<Rightarrow> (case body C of None \<Rightarrow> (Failed ServerError None, s) | Some r \<Rightarrow> r))"

definition if_allowed ::
    "'d authorize_result \<Rightarrow> 't \<Rightarrow> ('d authorized \<Rightarrow> ('a op_result \<times> 't) option) \<Rightarrow> ('a op_result \<times> 't) option" where
  "if_allowed r s rest =
     (case r of Denied e d \<Rightarrow> Some (returnAuthorizationResult e d, s) | Allowed a \<Rightarrow> rest a)"

text \<open>The answer to a call of the store that changes it.\<close>

definition stored :: "'a \<Rightarrow> ((error_code + unit) \<times> 't) option \<Rightarrow> ('a op_result \<times> 't) option" where
  "stored x u = map_option (\<lambda>(r, s). (case r of Inl e \<Rightarrow> Failed e None | Inr _ \<Rightarrow> Done x, s)) u"

text \<open>The user must be signed in unless the record key is subjectless.\<close>

definition must_sign_in :: "string option \<Rightarrow> string \<Rightarrow> bool" where
  "must_sign_in user policy \<longleftrightarrow> \<not> given user \<and> policy \<noteq> ''subjectless''"

section \<open>Facts\<close>

lemma with_contextD:
  assumes "with_context X key s body = (r, s')"
  shows "s' = s \<or> (\<exists>C. constructAuthorizationContext X key = Inr C \<and> body C = Some (r, s'))"
  using assms by (auto simp: with_context_def split: sum.splits option.splits)

lemma with_context_Done:
  assumes "with_context X key s body = (Done x, s')"
  obtains C where "constructAuthorizationContext X key = Inr C" "body C = Some (Done x, s')"
  using assms by (auto simp: with_context_def split: sum.splits option.splits)

lemma with_context_known [simp]:
  "constructAuthorizationContext X key = Inr C \<Longrightarrow>
   with_context X key s body = (case body C of None \<Rightarrow> (Failed ServerError None, s) | Some r \<Rightarrow> r)"
  by (simp add: with_context_def)

lemma if_allowed_simps [simp]:
  "if_allowed (Denied e d) s rest = Some (returnAuthorizationResult e d, s)"
  "if_allowed (Allowed a) s rest = rest a"
  by (simp_all add: if_allowed_def)

lemma not_Done [simp]: "returnAuthorizationResult e d \<noteq> Done x" "Done x \<noteq> returnAuthorizationResult e d"
  by (simp_all add: returnAuthorizationResult_def)

lemma if_allowed_Done:
  "if_allowed r s rest = Some (Done x, s') \<longleftrightarrow> (\<exists>a. r = Allowed a \<and> rest a = Some (Done x, s'))"
  by (cases r) auto

lemma stored_Done [simp]: "stored x u = Some (Done y, s') \<longleftrightarrow> x = y \<and> u = Some (Inr (), s')"
  by (cases u; cases "fst (the u)") (auto simp: stored_def)

lemma stored_iff:
  "stored x u = Some (res, s') \<longleftrightarrow> 
    res = Done x \<and> u = Some (Inr (), s') \<or> (\<exists>e. res = Failed e None \<and> u = Some (Inl e, s'))"
  by (cases u; cases "fst (the u)") (auto simp: stored_def)

lemma getMarkersOrDefault_not_empty [simp]: "getMarkersOrDefault ms \<noteq> []"
  by (auto simp: getMarkersOrDefault_def split: option.splits)

text \<open>The new markers are the existing ones with the removed ones taken out and the added ones put in.\<close>

lemma marker_changes:
  "set (case markers of None \<Rightarrow> existing | Some ms \<Rightarrow> ms) =
   (set existing - set (removedMarkers markers existing)) \<union> set (addedMarkers markers existing)"
  by (auto simp: removedMarkers_def addedMarkers_def without_def split: option.splits)

end
