(* ===== verification/DataRecords.thy ===== *)
theory DataRecords
  imports ResourceRequests
begin

text \<open>
  Data records: \<^verbatim>\<open>src/src/aux-records/DataRecordsController.ts\<close> over the interface \<^verbatim>\<open>DataRecordsStore.ts\<close>, with
  the implementation \<^verbatim>\<open>MemoryDataRecordsStore.ts\<close>. An operation returns its result and the store that it
  leaves.
\<close>

section \<open>Policies of one item\<close>

text \<open>
  An item can name the users who may change or erase it. The values that a request brings are not
  checked before they arrive: \<open>ListValue\<close> is an array, in which \<open>None\<close> is an element that is not a string.
\<close>

datatype user_data_policy = AnyUser | OnlyUsers "string list"
datatype policy_value = FalsyValue | TrueValue | ListValue "string option list" | OtherValue

fun isValidUserPolicy :: "policy_value \<Rightarrow> bool" where
  "isValidUserPolicy TrueValue = True"
| "isValidUserPolicy (ListValue vs) = list_all (\<lambda>v. v \<noteq> None) vs"
| "isValidUserPolicy _ = False"

text \<open>The policy that a valid value is.\<close>

fun as_policy :: "policy_value \<Rightarrow> user_data_policy" where
  "as_policy (ListValue vs) = OnlyUsers (map the vs)"
| "as_policy _ = AnyUser"

fun doesSubjectMatchPolicy :: "user_data_policy \<Rightarrow> string option \<Rightarrow> bool" where
  "doesSubjectMatchPolicy AnyUser subjectId = True"
| "doesSubjectMatchPolicy (OnlyUsers ids) subjectId = list_ex (\<lambda>i. Some i = subjectId) ids"

text \<open>\<^verbatim>\<open>if (!policy) policy = true\<close>, and \<^verbatim>\<open>policy ?? true\<close> for a stored one.\<close>

definition or_true :: "policy_value \<Rightarrow> policy_value" where
  "or_true v = (if v = FalsyValue then TrueValue else v)"

definition or_any :: "user_data_policy option \<Rightarrow> user_data_policy" where
  "or_any p = (case p of None \<Rightarrow> AnyUser | Some p \<Rightarrow> p)"

section \<open>The store\<close>

record 'd data_entry =
  entry_data :: 'd
  publisherId :: "string option"
  subjectId :: "string option"
  updatePolicy :: "user_data_policy option"
  deletePolicy :: "user_data_policy option"
  entry_markers :: "string list option"

record 'd data_list_item =
  li_address :: string
  li_data :: 'd
  li_markers :: "string list option"

record ('t, 'd) data_ops =
  ds_setData :: "'t \<Rightarrow> string \<Rightarrow> string \<Rightarrow> 'd data_entry \<Rightarrow> ((error_code + unit) \<times> 't) option"
  ds_getData :: "'t \<Rightarrow> string \<Rightarrow> string \<Rightarrow> (error_code + 'd data_entry) option"
  ds_listData :: "'t \<Rightarrow> string \<Rightarrow> string option \<Rightarrow> (error_code + 'd data_list_item list) option"
  ds_eraseData :: "'t \<Rightarrow> string \<Rightarrow> string \<Rightarrow> ((error_code + unit) \<times> 't) option"

text \<open>
  In memory a record is a \<^verbatim>\<open>Map\<close>, which is enumerated in the order of insertion: an association list. A
  record that is only read is created empty, which no operation can tell from a missing one.
\<close>

type_synonym 'd memory_data = "string \<Rightarrow> (string \<times> 'd data_entry) list option"

definition md_setData :: "'d memory_data \<Rightarrow> string \<Rightarrow> string \<Rightarrow> 'd data_entry \<Rightarrow> 'd memory_data" where
  "md_setData s r a e = s(r \<mapsto> AList.update a e (entries s r))"

definition md_getData :: "'d memory_data \<Rightarrow> string \<Rightarrow> string \<Rightarrow> error_code + 'd data_entry" where
  "md_getData s r a = (case map_of (entries s r) a of None \<Rightarrow> Inl DataNotFound | Some e \<Rightarrow> Inr e)"

definition md_eraseData :: "'d memory_data \<Rightarrow> string \<Rightarrow> string \<Rightarrow> (error_code + unit) \<times> 'd memory_data" where
  "md_eraseData s r a =
     (case map_of (entries s r) a of
        None \<Rightarrow> (Inl DataNotFound, s)
      | Some _ \<Rightarrow> (Inr (), s(r \<mapsto> AList.delete a (entries s r))))"

definition md_listData :: "'d memory_data \<Rightarrow> string \<Rightarrow> string option \<Rightarrow> 'd data_list_item list" where
  "md_listData s r a =
     map (\<lambda>(k, e). \<lparr>li_address = k, li_data = entry_data e, li_markers = entry_markers e\<rparr>)
       (filter (\<lambda>(k, e). \<not> given a \<or> the a < k) (entries s r))"

definition memory_data_ops :: "('d memory_data, 'd) data_ops" where
  "memory_data_ops =
     \<lparr>ds_setData = (\<lambda>s r a e. Some (Inr (), md_setData s r a e)),
      ds_getData = (\<lambda>s r a. Some (md_getData s r a)),
      ds_listData = (\<lambda>s r a. Some (Inr (md_listData s r a))),
      ds_eraseData = (\<lambda>s r a. Some (md_eraseData s r a))\<rparr>"

section \<open>The controller\<close>

record 'd data_request =
  dr_key :: string
  dr_address :: string
  dr_data :: 'd
  dr_subjectId :: "string option"
  dr_updatePolicy :: policy_value
  dr_deletePolicy :: policy_value
  dr_markers :: "string list option"
  dr_instances :: "string list option"

text \<open>
  The action that is authorized and the markers that are stored: an update of an item that the store
  returned, a creation otherwise (also when the store reports an error).
\<close>

definition data_action_for ::
    "'d data_request \<Rightarrow> error_code + 'd data_entry \<Rightarrow> unit action \<times> string list" where
  "data_action_for q existing =
     (case existing of
        Inr e \<Rightarrow>
          (let existingMarkers = markers_or_public (entry_markers e) in
           (DataUpdateRequest (dr_address q) existingMarkers (Some (addedMarkers (dr_markers q) existingMarkers))
              (Some (removedMarkers (dr_markers q) existingMarkers)),
            case dr_markers q of None \<Rightarrow> existingMarkers | Some ms \<Rightarrow> ms))
      | Inl _ \<Rightarrow>
          (let resourceMarkers = markers_or_public (dr_markers q) in
           (DataCreateRequest (dr_address q) resourceMarkers, resourceMarkers)))"

definition subject_for :: "string \<Rightarrow> string option \<Rightarrow> string option" where
  "subject_for policy user = (if policy = ''subjectless'' then None else user)"

text \<open>An item that exists is only changed by users that its policy (the update or the delete policy) matches.\<close>

definition permitted_by ::
    "('d data_entry \<Rightarrow> user_data_policy option) \<Rightarrow> error_code + 'd data_entry \<Rightarrow> string option \<Rightarrow> bool" where
  "permitted_by policy existing user =
     (case existing of Inr e \<Rightarrow> doesSubjectMatchPolicy (or_any (policy e)) user | Inl _ \<Rightarrow> True)"

definition new_entry :: "'d data_request \<Rightarrow> string option \<Rightarrow> string option \<Rightarrow> string list \<Rightarrow> 'd data_entry" where
  "new_entry q publisher user ms =
     \<lparr>entry_data = dr_data q, publisherId = publisher, subjectId = user,
      updatePolicy = Some (as_policy (or_true (dr_updatePolicy q))),
      deletePolicy = Some (as_policy (or_true (dr_deletePolicy q))), entry_markers = Some ms\<rparr>"

text \<open>The checks of a request before the store is asked.\<close>

definition bad_data_request :: "auth_context \<Rightarrow> 'd data_request \<Rightarrow> error_code option" where
  "bad_data_request C q =
     (let policy = subjectPolicy C; up = or_true (dr_updatePolicy q); del = or_true (dr_deletePolicy q) in
      if must_sign_in (dr_subjectId q) policy then Some NotLoggedIn
      else if \<not> isValidUserPolicy up then Some InvalidUpdatePolicy
      else if \<not> isValidUserPolicy del then Some InvalidDeletePolicy
      else if policy = ''subjectless'' \<and> up \<noteq> TrueValue then Some InvalidRecordKey
      else if policy = ''subjectless'' \<and> del \<noteq> TrueValue then Some InvalidRecordKey
      else None)"

definition recordData ::
    "'r records_env \<Rightarrow> 's policy_env \<Rightarrow> ('t, 'd) data_ops \<Rightarrow> 't \<Rightarrow> 'd data_request \<Rightarrow> (string \<times> string) op_result \<times> 't" where
  "recordData X E ops s q = with_context X (dr_key q) s (\<lambda>C.
     (case bad_data_request C q of
        Some e \<Rightarrow> Some (Failed e None, s)
      | None \<Rightarrow> do {
          let subject = subject_for (subjectPolicy C) (dr_subjectId q);
          existing \<leftarrow> ds_getData ops s (recordName C) (dr_address q);
          if \<not> permitted_by updatePolicy existing subject then Some (Failed NotAuthorized None, s)
          else do {
            let (act, resourceMarkers) = data_action_for q existing;
            r \<leftarrow> authorizeRequestUsingContext E C (base_request (dr_key q) (dr_subjectId q) (dr_instances q) act);
            if_allowed r s (\<lambda>a. stored (recordName C, dr_address q)
              (ds_setData ops s (recordName C) (dr_address q)
                (new_entry q (authorizerId a) subject resourceMarkers))) } }))"

record 'd data_result =
  got_data :: 'd
  got_publisherId :: "string option"
  got_subjectId :: "string option"
  got_recordName :: string
  got_updatePolicy :: user_data_policy
  got_deletePolicy :: user_data_policy
  got_markers :: "string list"

text \<open>The name in the result is the argument, which may be a record key.\<close>

definition getData ::
    "'r records_env \<Rightarrow> 's policy_env \<Rightarrow> ('t, 'd) data_ops \<Rightarrow> 't \<Rightarrow> string \<Rightarrow> string \<Rightarrow> string option \<Rightarrow> string list option
      \<Rightarrow> 'd data_result op_result \<times> 't" where
  "getData X E ops s key addr user insts = with_context X key s (\<lambda>C. do {
     result \<leftarrow> ds_getData ops s (recordName C) addr;
     case result of
       Inl e \<Rightarrow> Some (Failed e None, s)
     | Inr e \<Rightarrow> do {
         let markers = markers_or_public (entry_markers e);
         r \<leftarrow> authorizeRequestUsingContext E C (base_request key user insts (DataReadRequest addr markers :: unit action));
         if_allowed r s (\<lambda>_. Some (Done \<lparr>got_data = entry_data e, got_publisherId = publisherId e, got_subjectId = subjectId e,
           got_recordName = key, got_updatePolicy = or_any (updatePolicy e), got_deletePolicy = or_any (deletePolicy e),
           got_markers = markers\<rparr>, s)) } })"

text \<open>The items of the store with their default markers, as they go into the request.\<close>

definition listed_items :: "'d data_list_item list \<Rightarrow> 'd listed_item list" where
  "listed_items = map (\<lambda>i. \<lparr>address = li_address i, item_markers = markers_or_public (li_markers i), item_data = li_data i\<rparr>)"

definition listData ::
    "'r records_env \<Rightarrow> 's policy_env \<Rightarrow> ('t, 'd) data_ops \<Rightarrow> 't \<Rightarrow> string \<Rightarrow> string option \<Rightarrow> string option \<Rightarrow> string list option
      \<Rightarrow> (string \<times> 'd listed_item list) op_result \<times> 't" where
  "listData X E ops s key addr user insts = with_context X key s (\<lambda>C. do {
     result \<leftarrow> ds_listData ops s (recordName C) addr;
     case result of
       Inl e \<Rightarrow> Some (Failed e None, s)
     | Inr items \<Rightarrow> do {
         r \<leftarrow> authorizeRequestUsingContext E C (base_request key user insts (DataListRequest (listed_items items)));
         if_allowed r s (\<lambda>a. case allowedDataItems a of
             None \<Rightarrow> None
           | Some allowed \<Rightarrow> Some (Done (recordName C, allowed), s)) } })"

text \<open>Whoever created the record key may erase whatever the policy of the item says.\<close>

definition eraseData ::
    "'r records_env \<Rightarrow> 's policy_env \<Rightarrow> ('t, 'd) data_ops \<Rightarrow> 't \<Rightarrow> string \<Rightarrow> string \<Rightarrow> string option \<Rightarrow> string list option
      \<Rightarrow> (string \<times> string) op_result \<times> 't" where
  "eraseData X E ops s key addr user insts = with_context X key s (\<lambda>C.
     if must_sign_in user (subjectPolicy C) then Some (Failed NotLoggedIn None, s)
     else do {
       let subject = subject_for (subjectPolicy C) user;
       existing \<leftarrow> ds_getData ops s (recordName C) addr;
       let markers = markers_or_public (case existing of Inr e \<Rightarrow> entry_markers e | Inl _ \<Rightarrow> None);
       r \<leftarrow> authorizeRequestUsingContext E C (base_request key user insts (DataDeleteRequest addr markers :: unit action));
       if_allowed r s (\<lambda>a.
         if subject \<noteq> recordKeyOwnerId a \<and> \<not> permitted_by deletePolicy existing subject
         then Some (Failed NotAuthorized None, s)
         else stored (recordName C, addr) (ds_eraseData ops s (recordName C) addr)) })"

section \<open>The contract of the store\<close>

locale data_store =
  fixes ops :: "('t, 'd) data_ops"
  assumes get_total: "\<exists>r. ds_getData ops s n a = Some r"
    and set_get: "ds_setData ops s n a e = Some (Inr (), s') \<Longrightarrow>
      ds_getData ops s' n' a' = (if n' = n \<and> a' = a then Some (Inr e) else ds_getData ops s n' a')"
    and erase_get: "ds_eraseData ops s n a = Some (Inr (), s') \<Longrightarrow>
      (n', a') \<noteq> (n, a) \<Longrightarrow> ds_getData ops s' n' a' = ds_getData ops s n' a'"
    and erased: "ds_eraseData ops s n a = Some (Inr (), s') \<Longrightarrow> ds_getData ops s' n a = Some (Inl DataNotFound)"
    and set_failed: "ds_setData ops s n a e = Some (Inl x, s') \<Longrightarrow> s' = s"
    and erase_failed: "ds_eraseData ops s n a = Some (Inl x, s') \<Longrightarrow> s' = s"

lemma map_of_update: "map_of (AList.update k v xs) k' = (if k' = k then Some v else map_of xs k')"
  by (simp add: map_of_AList_update)

interpretation md: data_store memory_data_ops
  by unfold_locales
    (auto simp: memory_data_ops_def md_setData_def md_getData_def md_eraseData_def map_of_update
      entries_def AList.delete_conv' split: option.splits if_splits)

end
