(* ===== verification/ResourceSpec.thy ===== *)
theory ResourceSpec
  imports ResourceRequests PolicyEffects
begin

text \<open>
  Facts about the authorization that the controllers of data, events and files use: what an allowed
  request answers with, and what an administrator is listed.
\<close>

section \<open>The answer to an allowed request\<close>

text \<open>Whether a request is allowed.\<close>

abbreviation allows :: "'s policy_env \<Rightarrow> auth_context \<Rightarrow> 'd request \<Rightarrow> bool" where
  "allows E C q \<equiv> (\<exists>r. authorizeRequestUsingContext E C q = Some (Allowed r))"

lemma authorize_request_result:
  assumes "authorize_request E C q ms f k = Some (Allowed r)"
  shows "res_recordName r = recordName C \<and> recordKeyOwnerId r = map_option vk_keyCreatorId (recordKeyResult C) \<and>
    subject_userId r = userId q \<and> subject_policy r = subjectPolicy C \<and>
    authorizerId r = (case recordKeyResult C of Some k \<Rightarrow> Some (vk_keyCreatorId k) | None \<Rightarrow> userId q)"
proof -
  from authorize_request_sound[OF assms] obtain auths items where
    r: "r = \<lparr>res_recordName = recordName C, recordKeyOwnerId = map_option vk_keyCreatorId (recordKeyResult C),
      authorizerId = (case recordKeyResult C of Some v \<Rightarrow> Some (vk_keyCreatorId v) | None \<Rightarrow> userId q),
      subject = subject r, subject_userId = userId q, subject_policy = subjectPolicy C,
      res_instances = auths, allowedDataItems = items\<rparr>" by blast
  from arg_cong[OF r, of res_recordName] arg_cong[OF r, of recordKeyOwnerId] arg_cong[OF r, of subject_userId]
    arg_cong[OF r, of subject_policy] arg_cong[OF r, of authorizerId]
  show ?thesis by (simp split: option.splits)
qed

lemma allowed_result:
  assumes "authorizeRequestUsingContext E C q = Some (Allowed r)"
  shows "res_recordName r = recordName C" "recordKeyOwnerId r = map_option vk_keyCreatorId (recordKeyResult C)"
    "subject_userId r = userId q" "subject_policy r = subjectPolicy C"
    "authorizerId r = (case recordKeyResult C of Some k \<Rightarrow> Some (vk_keyCreatorId k) | None \<Rightarrow> userId q)"
proof -
  from assms obtain ms f k where "authorize_request E C q ms f k = Some (Allowed r)"
    by (cases "request_action q")
      (auto simp: authorizeRequestUsingContext_def authorizeDataCreate_def authorizeDataRead_def authorizeDataUpdate_def
        authorizeDataDelete_def authorizeDataList_def authorizeFileCreate_def authorizeFileRead_def authorizeFileUpdate_def
        authorizeFileDelete_def authorizeEventCount_def authorizeEventIncrement_def authorizeEventUpdate_def
        authorizePolicyGrantPermission_def authorizePolicyRevokePermission_def authorizePolicyRead_def authorizePolicyList_def
        authorizeRoleList_def authorizeRoleRead_def authorizeRoleGrant_def authorizeRoleRevoke_def split: if_splits)
  from authorize_request_result[OF this] show "res_recordName r = recordName C"
    "recordKeyOwnerId r = map_option vk_keyCreatorId (recordKeyResult C)"
    "subject_userId r = userId q" "subject_policy r = subjectPolicy C"
    "authorizerId r = (case recordKeyResult C of Some k \<Rightarrow> Some (vk_keyCreatorId k) | None \<Rightarrow> userId q)"
    by simp_all
qed

text \<open>A request without markers is denied, also that to list a record without items.\<close>

lemma no_items_denied:
  assumes "length (listed (instances q)) \<le> 2" and "request_action q = DataListRequest items"
    and "\<forall>i\<in>set items. item_markers i = []"
  shows "authorizeRequestUsingContext E C q = Some (Denied NotAuthorized (Some NoMarkers))"
proof -
  have "concat (map item_markers items) = []" using assms(3) by simp
  then have "union_of (map item_markers items) = []" by (simp add: union_of_def)
  with assms(1,2) show ?thesis
    by (auto simp: authorizeRequestUsingContext_def authorizeDataList_def authorize_request_def MAX_ALLOWED_INSTANCES_def
        listed_def split: option.splits)
qed

section \<open>What an administrator is listed\<close>

lemma find_snd: "map_option snd (find (\<lambda>p. Q (snd p)) ps) = find Q (map snd ps)"
  by (induction ps) auto

lemma list_default:
  "g admin \<Longrightarrow> map_option perm_role (find (\<lambda>p. byData rx DataList a p \<and> g (perm_role p)) (DEFAULT_ANY_RESOURCE_POLICY_DOCUMENT @ ps))
     = Some admin"
  by (simp add: DEFAULT_ANY_RESOURCE_POLICY_DOCUMENT_def byData_def)

lemma list_item_admin:
  assumes R: "\<And>p. R None p = Some (ent (perm_role p))" "ent admin" "\<And>\<rho> p. R (Some \<rho>) p = Some (perm_role p = \<rho>)"
    and r: "r \<in> {None, Some admin}"
    and default: "\<forall>mp\<in>set mps. \<exists>ps. map snd (snd mp) = DEFAULT_ANY_RESOURCE_POLICY_DOCUMENT @ ps"
    and m: "m \<in> fst ` set mps"
  shows "\<exists>auths'. list_item (byData rx DataList a) R mps r auths (m # ms) = Some (True, Some admin, auths')"
proof -
  from m obtain ps where ps: "map_of mps m = Some ps" by (metis map_of_eq_None_iff not_None_eq)
  with default obtain rest where rest: "map snd ps = DEFAULT_ANY_RESOURCE_POLICY_DOCUMENT @ rest"
    by (metis map_of_SomeD snd_conv)
  define g where "g = (\<lambda>\<rho>. case r of None \<Rightarrow> ent \<rho> | Some r' \<Rightarrow> \<rho> = r')"
  have g: "g admin" using r R(2) by (auto simp: g_def)
  have "every [pure (byData rx DataList a), R r] p = Some (byData rx DataList a p \<and> g (perm_role p))" for p
    using r R by (auto simp: every_pure g_def split: option.splits)
  then have f: "findPermissionByFilter (every [pure (byData rx DataList a), R r]) ps =
      Some (find (\<lambda>p. byData rx DataList a (snd p) \<and> g (perm_role (snd p))) ps)"
    by (rule find_permission_total)
  from list_default[where g = g and rx = rx and a = a and ps = rest, OF g] obtain q where
    q: "find (\<lambda>p. byData rx DataList a p \<and> g (perm_role p)) (map snd ps) = Some q" "perm_role q = admin"
    by (auto simp: rest)
  from q(1) obtain p where p: "find (\<lambda>p. byData rx DataList a (snd p) \<and> g (perm_role (snd p))) ps = Some p" "snd p = q"
    unfolding find_snd[where Q = "\<lambda>p. byData rx DataList a p \<and> g (perm_role p)", symmetric] by auto
  from ps f p q(2) r show ?thesis by auto
qed

lemma list_items_admin:
  assumes R: "\<And>p. R None p = Some (ent (perm_role p))" "ent admin" "\<And>\<rho> p. R (Some \<rho>) p = Some (perm_role p = \<rho>)"
    and default: "\<forall>mp\<in>set mps. \<exists>ps. map snd (snd mp) = DEFAULT_ANY_RESOURCE_POLICY_DOCUMENT @ ps"
    and r: "r \<in> {None, Some admin}" and "\<forall>i\<in>set items. set (item_markers i) \<subseteq> fst ` set mps"
  shows "\<exists>r' auths'. list_items rx R mps r auths items = Some (filter (\<lambda>i. item_markers i \<noteq> []) items, r', auths')"
  using assms(5,6)
proof (induction items arbitrary: r auths)
  case (Cons i items)
  show ?case
  proof (cases "item_markers i")
    case Nil
    with Cons.IH[OF Cons.prems(1)] Cons.prems(2) show ?thesis by (fastforce split: prod.splits)
  next
    case (Cons m ms)
    with Cons.prems(2) have "m \<in> fst ` set mps" by auto
    from list_item_admin[where rx = rx and a = "address i" and auths = auths and ms = ms, OF R Cons.prems(1) default this]
    obtain auths' where "list_item (byData rx DataList (address i)) R mps r auths (item_markers i) = Some (True, Some admin, auths')"
      using Cons by auto
    with Cons.IH[of "Some admin" auths'] Cons.prems(2) Cons show ?thesis by fastforce
  qed
qed auto

context policy_store
begin

text \<open>An administrator is listed every item that has a marker.\<close>

lemma admin_lists_all:
  assumes "policies E = ops" and "acts_as_admin False C (userId q)" and "listed (instances q) = []"
    and "request_action q = DataListRequest items" and "\<exists>i\<in>set items. item_markers i \<noteq> []"
    and names: "own_names C q (union_of (map item_markers items))"
  shows "\<exists>r. authorizeRequestUsingContext E C q = Some (Allowed r) \<and>
    allowedDataItems r = Some (filter (\<lambda>i. item_markers i \<noteq> []) items)"
proof -
  let ?ms = "union_of (map item_markers items)" and ?R = "resourceRole E C User (userId q)"
  obtain mps where mps: "listPermissionsForMarkers E (recordName C) ?ms = Some mps"
    using list_permissions_total[OF assms(1) own_namesD(1,4)[OF names]] by blast
  have ent: "resource_entitled E C User (userId q) admin"
    using admin_entitled[OF assms(2)] assms(2) by (auto simp: entitled_def acts_as_admin_def)
  have own: "own_name (fst mp)" if "mp \<in> set mps" for mp
    using own_namesD(4)[OF names, of "fst mp"] list_permissions(1)[OF mps] that by (metis imageI set_map)
  have default: "\<forall>mp\<in>set mps. \<exists>ps. map snd (snd mp) = DEFAULT_ANY_RESOURCE_POLICY_DOCUMENT @ ps"
    using list_permissions(2)[OF mps] permission_list_default[OF assms(1) own_namesD(1)[OF names] own] by metis
  have "fst ` set mps = set ?ms" by (metis list_permissions(1)[OF mps] set_map)
  then have sub: "\<forall>i\<in>set items. set (item_markers i) \<subseteq> fst ` set mps" by auto
  obtain r' auths' where "list_items (testRegex E) ?R mps None (map (\<lambda>mp. \<lparr>auth_marker = fst mp, actions = []\<rparr>) mps) items =
      Some (filter (\<lambda>i. item_markers i \<noteq> []) items, r', auths')"
    using list_items_admin[of ?R "resource_entitled E C User (userId q)", OF resourceRole_total[OF assms(1) own_namesD(1,2)[OF names]] ent role_chosen(1) default _ sub]
    by blast
  then obtain a where a: "authorize_list (testRegex E) ?R mps items = Some (Inr a, Some (filter (\<lambda>i. item_markers i \<noteq> []) items))"
    by (simp add: authorize_list_def)
  have "?ms \<noteq> []" using assms(5) by (metis (no_types, lifting) UN_I empty_iff imageI list.set_map set_empty set_union_of last_in_set)
  with assms(3,4) mps a show ?thesis
    by (auto simp: authorizeRequestUsingContext_def authorizeDataList_def authorize_request_def listed_def split: option.splits)
qed

end

end
