(* ===== verification/DataSpec.thy ===== *)
theory DataSpec
  imports DataRecords ResourceSpec
begin

text \<open>
  What the operations on data do: the steps of a call that changes the store, what it leaves in a store that keeps
  the contract of \<open>data_store\<close>, which items no outsider can change, and what an administrator is listed.
\<close>

section \<open>Calls that change the store\<close>

lemma recordData_changes:
  assumes "recordData X E ops s q = (res, s')" and "s' \<noteq> s \<or> (\<exists>r. res = Done r)"
  obtains C existing a res' where "constructAuthorizationContext X (dr_key q) = Inr C" "bad_data_request C q = None"
    "ds_getData ops s (recordName C) (dr_address q) = Some existing"
    "permitted_by updatePolicy existing (subject_for (subjectPolicy C) (dr_subjectId q))"
    "authorizeRequestUsingContext E C (base_request (dr_key q) (dr_subjectId q) (dr_instances q) (fst (data_action_for q existing)))
      = Some (Allowed a)"
    "ds_setData ops s (recordName C) (dr_address q)
      (new_entry q (authorizerId a) (subject_for (subjectPolicy C) (dr_subjectId q)) (snd (data_action_for q existing))) = Some (res', s')"
    "\<forall>r. res = Done r \<longrightarrow> res' = Inr () \<and> r = (recordName C, dr_address q)"
proof -
  from assms obtain C where C: "constructAuthorizationContext X (dr_key q) = Inr C"
    by (cases "constructAuthorizationContext X (dr_key q)") (auto simp: recordData_def with_context_def)
  with assms have bad: "bad_data_request C q = None"
    by (auto simp: recordData_def split: option.splits)
  from assms C bad have body: "do {
        existing \<leftarrow> ds_getData ops s (recordName C) (dr_address q);
        if \<not> permitted_by updatePolicy existing (subject_for (subjectPolicy C) (dr_subjectId q))
        then Some (Failed NotAuthorized None, s)
        else do {
          r \<leftarrow> authorizeRequestUsingContext E C (base_request (dr_key q) (dr_subjectId q) (dr_instances q) (fst (data_action_for q existing)));
          if_allowed r s (\<lambda>a. stored (recordName C, dr_address q)
            (ds_setData ops s (recordName C) (dr_address q)
              (new_entry q (authorizerId a) (subject_for (subjectPolicy C) (dr_subjectId q)) (snd (data_action_for q existing))))) } } = Some (res, s')"
    unfolding recordData_def Let_def case_prod_beta by (auto simp del: not_not split: option.splits)
  from body assms(2) obtain existing where e: "ds_getData ops s (recordName C) (dr_address q) = Some existing"
      "permitted_by updatePolicy existing (subject_for (subjectPolicy C) (dr_subjectId q))"
    and auth: "do {
          r \<leftarrow> authorizeRequestUsingContext E C (base_request (dr_key q) (dr_subjectId q) (dr_instances q) (fst (data_action_for q existing)));
          if_allowed r s (\<lambda>a. stored (recordName C, dr_address q)
            (ds_setData ops s (recordName C) (dr_address q)
              (new_entry q (authorizerId a) (subject_for (subjectPolicy C) (dr_subjectId q)) (snd (data_action_for q existing))))) } = Some (res, s')"
    by (auto split: Option.bind_splits if_splits)
  from auth assms(2) obtain a where a: "authorizeRequestUsingContext E C
      (base_request (dr_key q) (dr_subjectId q) (dr_instances q) (fst (data_action_for q existing))) = Some (Allowed a)"
    and st: "stored (recordName C, dr_address q) (ds_setData ops s (recordName C) (dr_address q)
              (new_entry q (authorizerId a) (subject_for (subjectPolicy C) (dr_subjectId q)) (snd (data_action_for q existing)))) = Some (res, s')"
    by (auto simp: if_allowed_def split: Option.bind_splits authorize_result.splits)
  from st obtain res' where r: "ds_setData ops s (recordName C) (dr_address q)
      (new_entry q (authorizerId a) (subject_for (subjectPolicy C) (dr_subjectId q)) (snd (data_action_for q existing))) = Some (res', s')"
      "res = (case res' of Inl e \<Rightarrow> Failed e None | Inr _ \<Rightarrow> Done (recordName C, dr_address q))"
    by (auto simp: stored_def)
  show thesis
    by (rule that[OF C bad e a r(1)]) (simp add: r(2) split: sum.splits)
qed

lemma eraseData_changes:
  assumes "eraseData X E ops s key addr user insts = (res, s')" and "s' \<noteq> s \<or> (\<exists>r. res = Done r)"
  obtains C existing a res' where "constructAuthorizationContext X key = Inr C" "\<not> must_sign_in user (subjectPolicy C)"
    "ds_getData ops s (recordName C) addr = Some existing"
    "authorizeRequestUsingContext E C (base_request key user insts
      (DataDeleteRequest addr (markers_or_public (case existing of Inr e \<Rightarrow> entry_markers e | Inl _ \<Rightarrow> None)) :: unit action)) = Some (Allowed a)"
    "subject_for (subjectPolicy C) user = recordKeyOwnerId a \<or> permitted_by deletePolicy existing (subject_for (subjectPolicy C) user)"
    "ds_eraseData ops s (recordName C) addr = Some (res', s')"
    "\<forall>r. res = Done r \<longrightarrow> res' = Inr () \<and> r = (recordName C, addr)"
proof -
  let ?q = "\<lambda>existing. base_request key user insts
      (DataDeleteRequest addr (markers_or_public (case existing of Inr e \<Rightarrow> entry_markers e | Inl _ \<Rightarrow> None)) :: unit action)"
  from assms obtain C existing where C: "constructAuthorizationContext X key = Inr C"
    and sign: "\<not> must_sign_in user (subjectPolicy C)"
    and e: "ds_getData ops s (recordName C) addr = Some existing"
    and auth: "do {
       r \<leftarrow> authorizeRequestUsingContext E C (?q existing);
       if_allowed r s (\<lambda>a.
         if subject_for (subjectPolicy C) user \<noteq> recordKeyOwnerId a \<and> \<not> permitted_by deletePolicy existing (subject_for (subjectPolicy C) user)
         then Some (Failed NotAuthorized None, s)
         else stored (recordName C, addr) (ds_eraseData ops s (recordName C) addr)) } = Some (res, s')"
    by (auto simp: eraseData_def with_context_def Let_def split: sum.splits option.splits if_splits Option.bind_splits)
  from auth assms(2) obtain a where a: "authorizeRequestUsingContext E C (?q existing) = Some (Allowed a)"
    and p: "subject_for (subjectPolicy C) user = recordKeyOwnerId a \<or> permitted_by deletePolicy existing (subject_for (subjectPolicy C) user)"
    and st: "stored (recordName C, addr) (ds_eraseData ops s (recordName C) addr) = Some (res, s')"
    by (auto simp: if_allowed_def split: Option.bind_splits authorize_result.splits if_splits)
  from st obtain res' where r: "ds_eraseData ops s (recordName C) addr = Some (res', s')"
      "res = (case res' of Inl e \<Rightarrow> Failed e None | Inr _ \<Rightarrow> Done (recordName C, addr))"
    by (auto simp: stored_def)
  show thesis
    by (rule that[OF C sign e a p r(1)]) (simp add: r(2) split: sum.splits)
qed

section \<open>What a change leaves\<close>

context data_store
begin

text \<open>Data that was recorded is read back by whoever may read it; every other item is what it was.\<close>

lemma recorded_is_read:
  assumes "constructAuthorizationContext X (dr_key q) = Inr C" and "recordData X E ops s q = (Done r, s')"
    and "constructAuthorizationContext X' key = Inr D" and "recordName D = recordName C"
  obtains existing publisher where "ds_getData ops s (recordName C) (dr_address q) = Some existing"
    "\<And>n a. ds_getData ops s' n a = (if n = recordName C \<and> a = dr_address q
      then Some (Inr (new_entry q publisher (subject_for (subjectPolicy C) (dr_subjectId q)) (snd (data_action_for q existing))))
      else ds_getData ops s n a)"
    "\<And>user insts. fst (getData X' E' ops s' key (dr_address q) user insts) =
      (case authorizeRequestUsingContext E' D (base_request key user insts
          (DataReadRequest (dr_address q) (snd (data_action_for q existing)) :: unit action)) of
        None \<Rightarrow> Failed ServerError None
      | Some (Denied e d) \<Rightarrow> returnAuthorizationResult e d
      | Some (Allowed _) \<Rightarrow> Done \<lparr>got_data = dr_data q, got_publisherId = publisher,
          got_subjectId = subject_for (subjectPolicy C) (dr_subjectId q), got_recordName = key,
          got_updatePolicy = as_policy (or_true (dr_updatePolicy q)), got_deletePolicy = as_policy (or_true (dr_deletePolicy q)),
          got_markers = snd (data_action_for q existing)\<rparr>)"
proof -
  obtain existing and a :: "unit authorized" where
    e: "ds_getData ops s (recordName C) (dr_address q) = Some existing"
    and set: "ds_setData ops s (recordName C) (dr_address q) (new_entry q (authorizerId a)
        (subject_for (subjectPolicy C) (dr_subjectId q)) (snd (data_action_for q existing))) = Some (Inr (), s')"
    by (rule recordData_changes[OF assms(2) disjI2]) (blast, use assms(1) in auto)
  show thesis
  proof (rule that[OF e])
    show get: "ds_getData ops s' n b = (if n = recordName C \<and> b = dr_address q
      then Some (Inr (new_entry q (authorizerId a) (subject_for (subjectPolicy C) (dr_subjectId q)) (snd (data_action_for q existing))))
      else ds_getData ops s n b)" for n b
      by (rule set_get[OF set])
    fix user insts
    let ?q = "base_request key user insts (DataReadRequest (dr_address q) (snd (data_action_for q existing)) :: unit action)"
    show "fst (getData X' E' ops s' key (dr_address q) user insts) =
      (case authorizeRequestUsingContext E' D ?q of
        None \<Rightarrow> Failed ServerError None
      | Some (Denied e d) \<Rightarrow> returnAuthorizationResult e d
      | Some (Allowed _) \<Rightarrow> Done \<lparr>got_data = dr_data q, got_publisherId = authorizerId a,
          got_subjectId = subject_for (subjectPolicy C) (dr_subjectId q), got_recordName = key,
          got_updatePolicy = as_policy (or_true (dr_updatePolicy q)), got_deletePolicy = as_policy (or_true (dr_deletePolicy q)),
          got_markers = snd (data_action_for q existing)\<rparr>)"
      using assms(3,4) get[of "recordName C" "dr_address q"]
      by (simp add: getData_def new_entry_def markers_or_public_def or_any_def
          split: option.splits authorize_result.splits)
  qed
qed

text \<open>
  A change of an item: what was authorized, and that the policy of the item, if there was one, matches the
  user. Only the creator of the record key may erase without that.
\<close>

lemma record_permitted:
  assumes "ds_getData ops (snd (recordData X E ops s q)) n a \<noteq> ds_getData ops s n a"
  shows "\<exists>C existing. constructAuthorizationContext X (dr_key q) = Inr C \<and> n = recordName C \<and> a = dr_address q \<and>
    ds_getData ops s n a = Some existing \<and>
    permitted_by updatePolicy existing (subject_for (subjectPolicy C) (dr_subjectId q)) \<and>
    allows E C (base_request (dr_key q) (dr_subjectId q) (dr_instances q) (fst (data_action_for q existing)))"
proof -
  obtain res s' where r: "recordData X E ops s q = (res, s')" by force
  with assms have "s' \<noteq> s" by auto
  then obtain C existing b res' where
    C: "constructAuthorizationContext X (dr_key q) = Inr C" "ds_getData ops s (recordName C) (dr_address q) = Some existing"
      "permitted_by updatePolicy existing (subject_for (subjectPolicy C) (dr_subjectId q))"
      "authorizeRequestUsingContext E C (base_request (dr_key q) (dr_subjectId q) (dr_instances q) (fst (data_action_for q existing))) = Some (Allowed b)"
    and set: "ds_setData ops s (recordName C) (dr_address q) (new_entry q (authorizerId b)
        (subject_for (subjectPolicy C) (dr_subjectId q)) (snd (data_action_for q existing))) = Some (res', s')"
    by (rule recordData_changes[OF r disjI1]) blast
  from \<open>s' \<noteq> s\<close> set set_failed have "res' = Inr ()" by (cases res') auto
  from set_get[OF set[unfolded this]] assms r have "n = recordName C" "a = dr_address q" by (auto split: if_splits)
  with C show ?thesis by blast
qed

lemma erase_permitted:
  assumes "ds_getData ops (snd (eraseData X E ops s key addr user insts)) n a \<noteq> ds_getData ops s n a"
  shows "\<exists>C existing. constructAuthorizationContext X key = Inr C \<and> n = recordName C \<and> a = addr \<and>
    ds_getData ops s n a = Some existing \<and>
    (subject_for (subjectPolicy C) user = map_option vk_keyCreatorId (recordKeyResult C) \<or>
      permitted_by deletePolicy existing (subject_for (subjectPolicy C) user)) \<and>
    allows E C (base_request key user insts (DataDeleteRequest addr
      (markers_or_public (case existing of Inr e \<Rightarrow> entry_markers e | Inl _ \<Rightarrow> None)) :: unit action))"
proof -
  obtain res s' where r: "eraseData X E ops s key addr user insts = (res, s')" by force
  with assms have "s' \<noteq> s" by auto
  then obtain C existing b res' where
    C: "constructAuthorizationContext X key = Inr C" "ds_getData ops s (recordName C) addr = Some existing"
      "authorizeRequestUsingContext E C (base_request key user insts (DataDeleteRequest addr
        (markers_or_public (case existing of Inr e \<Rightarrow> entry_markers e | Inl _ \<Rightarrow> None)) :: unit action)) = Some (Allowed b)"
      "subject_for (subjectPolicy C) user = recordKeyOwnerId b \<or> permitted_by deletePolicy existing (subject_for (subjectPolicy C) user)"
    and erase: "ds_eraseData ops s (recordName C) addr = Some (res', s')"
    by (rule eraseData_changes[OF r disjI1]) blast
  from \<open>s' \<noteq> s\<close> erase erase_failed have "res' = Inr ()" by (cases res') auto
  with erase_get[of s "recordName C" addr s' n a] erase assms r have "n = recordName C" "a = addr" by auto
  with C allowed_result(2)[OF C(3)] show ?thesis by auto
qed

end

section \<open>Outsiders\<close>

lemma matches_iff: "doesSubjectMatchPolicy (OnlyUsers ids) user \<longleftrightarrow> user \<in> Some ` set ids"
  by (auto simp: list_ex_iff)

text \<open>
  Any sequence of requests to record or erase data that come from users who are not in \<open>ids\<close> and that use no
  record key of their own for erasing.
\<close>

inductive outsiders_run :: "('t, 'd) data_ops \<Rightarrow> string list \<Rightarrow> 't \<Rightarrow> 't \<Rightarrow> bool" for ops ids where
  start: "outsiders_run ops ids s s"
| recording: "outsiders_run ops ids s s1 \<Longrightarrow> dr_subjectId q \<notin> Some ` set ids \<Longrightarrow>
    recordData (X :: memory_records records_env) (E :: memory_policies policy_env) ops s1 q = (res, s2) \<Longrightarrow>
    outsiders_run ops ids s s2"
| erasing: "outsiders_run ops ids s s1 \<Longrightarrow> user \<notin> Some ` set ids \<Longrightarrow>
    (\<And>C. constructAuthorizationContext X key = Inr C \<Longrightarrow>
      subject_for (subjectPolicy C) user \<noteq> map_option vk_keyCreatorId (recordKeyResult C)) \<Longrightarrow>
    eraseData (X :: memory_records records_env) (E :: memory_policies policy_env) ops s1 key addr user insts = (res, s2) \<Longrightarrow>
    outsiders_run ops ids s s2"

lemma subject_for_outside: "user \<notin> Some ` U \<Longrightarrow> subject_for policy user \<notin> Some ` U"
  by (auto simp: subject_for_def)

context data_store
begin

lemma outsiders_change_nothing:
  assumes "outsiders_run ops ids s s'" and "ds_getData ops s n a = Some (Inr e)"
    and "updatePolicy e = Some (OnlyUsers ids)" and "deletePolicy e = Some (OnlyUsers ids)"
  shows "ds_getData ops s' n a = Some (Inr e)"
  using assms(1,2)
proof (induction rule: outsiders_run.induct)
  case (recording s s1 q X E res s2)
  note IH = recording.IH[OF recording.prems]
  show ?case
  proof (rule ccontr)
    assume "ds_getData ops s2 n a \<noteq> Some (Inr e)"
    with IH recording.hyps(3) have "ds_getData ops (snd (recordData X E ops s1 q)) n a \<noteq> ds_getData ops s1 n a" by simp
    from record_permitted[OF this] obtain C :: auth_context and existing where "ds_getData ops s1 n a = Some existing"
      "permitted_by updatePolicy existing (subject_for (subjectPolicy C) (dr_subjectId q))" by blast
    with IH have "subject_for (subjectPolicy C) (dr_subjectId q) \<in> Some ` set ids"
      using matches_iff by (simp add: permitted_by_def assms(3) or_any_def)
    with subject_for_outside[OF recording.hyps(2)] show False by blast
  qed
next
  case (erasing s s1 user X key E addr insts res s2)
  note IH = erasing.IH[OF erasing.prems]
  show ?case
  proof (rule ccontr)
    assume "ds_getData ops s2 n a \<noteq> Some (Inr e)"
    with IH erasing.hyps(4) have "ds_getData ops (snd (eraseData X E ops s1 key addr user insts)) n a \<noteq> ds_getData ops s1 n a" by simp
    from erase_permitted[OF this] obtain C existing where "constructAuthorizationContext X key = Inr C"
      "ds_getData ops s1 n a = Some existing"
      "subject_for (subjectPolicy C) user = map_option vk_keyCreatorId (recordKeyResult C) \<or>
        permitted_by deletePolicy existing (subject_for (subjectPolicy C) user)" by blast
    with IH erasing.hyps(3) have "subject_for (subjectPolicy C) user \<in> Some ` set ids"
      using matches_iff by (auto simp: permitted_by_def assms(4) or_any_def)
    with subject_for_outside[OF erasing.hyps(2)] show False by blast
  qed
qed

end

section \<open>Lists\<close>

lemma listed_items_simps [simp]: "item_markers ` set (listed_items xs) = (\<lambda>i. markers_or_public (li_markers i)) ` set xs"
  by (force simp: listed_items_def)

end
