(* ===== verification/EventRecords.thy ===== *)
theory EventRecords
  imports ResourceSpec
begin

text \<open>
  Event records, counters by name: \<^verbatim>\<open>src/src/aux-records/EventRecordsController.ts\<close> over the interface
  \<^verbatim>\<open>EventRecordsStore.ts\<close>, with the implementation \<^verbatim>\<open>MemoryEventRecordsStore.ts\<close>, and what a sequence of
  increments leaves.
\<close>

section \<open>The store\<close>

record event_entry =
  ev_count :: int
  ev_markers :: "string list option"

text \<open>What \<^verbatim>\<open>cleanupObject\<close> leaves of an update: the properties that are neither \<^verbatim>\<open>null\<close> nor \<^verbatim>\<open>undefined\<close>.\<close>

record event_update =
  up_count :: "int option"
  up_markers :: "string list option"

record 't event_ops =
  es_addEventCount :: "'t \<Rightarrow> string \<Rightarrow> string \<Rightarrow> int \<Rightarrow> ((error_code + unit) \<times> 't) option"
  es_getEventCount :: "'t \<Rightarrow> string \<Rightarrow> string \<Rightarrow> (error_code + event_entry) option"
  es_updateEvent :: "'t \<Rightarrow> string \<Rightarrow> string \<Rightarrow> event_update \<Rightarrow> ((error_code + unit) \<times> 't) option"

type_synonym memory_events = "string \<Rightarrow> (string \<Rightarrow> event_entry option)"

definition me_entry :: "memory_events \<Rightarrow> string \<Rightarrow> string \<Rightarrow> event_entry" where
  "me_entry s r n = (case s r n of None \<Rightarrow> \<lparr>ev_count = 0, ev_markers = None\<rparr> | Some e \<Rightarrow> e)"

definition me_set :: "memory_events \<Rightarrow> string \<Rightarrow> string \<Rightarrow> event_entry \<Rightarrow> memory_events" where
  "me_set s r n e = s(r := (s r)(n \<mapsto> e))"

definition me_addEventCount :: "memory_events \<Rightarrow> string \<Rightarrow> string \<Rightarrow> int \<Rightarrow> memory_events" where
  "me_addEventCount s r n count =
     (case s r n of
        Some e \<Rightarrow> me_set s r n (e\<lparr>ev_count := ev_count e + count\<rparr>)
      | None \<Rightarrow> me_set s r n \<lparr>ev_count = count, ev_markers = None\<rparr>)"

definition me_updateEvent :: "memory_events \<Rightarrow> string \<Rightarrow> string \<Rightarrow> event_update \<Rightarrow> memory_events" where
  "me_updateEvent s r n u =
     (let e = me_entry s r n in
      me_set s r n \<lparr>ev_count = (case up_count u of None \<Rightarrow> ev_count e | Some c \<Rightarrow> c),
        ev_markers = (case up_markers u of None \<Rightarrow> ev_markers e | Some ms \<Rightarrow> Some ms)\<rparr>)"

definition memory_event_ops :: "memory_events event_ops" where
  "memory_event_ops =
     \<lparr>es_addEventCount = (\<lambda>s r n c. Some (Inr (), me_addEventCount s r n c)),
      es_getEventCount = (\<lambda>s r n. Some (Inr (me_entry s r n))),
      es_updateEvent = (\<lambda>s r n u. Some (Inr (), me_updateEvent s r n u))\<rparr>"

section \<open>The controller\<close>

record count_result =
  cr_recordName :: string
  cr_eventName :: string
  cr_count :: int
  cr_markers :: "string list"

definition addCount ::
    "'r records_env \<Rightarrow> 's policy_env \<Rightarrow> 't event_ops \<Rightarrow> 't \<Rightarrow> string \<Rightarrow> string \<Rightarrow> int \<Rightarrow> string option \<Rightarrow> string list option
      \<Rightarrow> (string \<times> string \<times> int) op_result \<times> 't" where
  "addCount X E ops s key eventName count user insts = with_context X key s (\<lambda>C. do {
     event \<leftarrow> es_getEventCount ops s (recordName C) eventName;
     case event of
       Inl e \<Rightarrow> Some (Failed e None, s)
     | Inr ev \<Rightarrow> do {
         r \<leftarrow> authorizeRequestUsingContext E C (base_request key user insts
           (EventIncrementRequest eventName (getMarkersOrDefault (ev_markers ev)) :: unit action));
         if_allowed r s (\<lambda>a.
           if must_sign_in user (subject_policy a) then Some (Failed NotLoggedIn None, s)
           else stored (recordName C, eventName, count) (es_addEventCount ops s (recordName C) eventName count)) } })"

text \<open>Reading and updating make the context a second time, within \<^verbatim>\<open>authorizeRequest\<close>.\<close>

definition getCount ::
    "'r records_env \<Rightarrow> 's policy_env \<Rightarrow> 't event_ops \<Rightarrow> 't \<Rightarrow> string \<Rightarrow> string \<Rightarrow> string option \<Rightarrow> string list option
      \<Rightarrow> count_result op_result \<times> 't" where
  "getCount X E ops s key eventName user insts = with_context X key s (\<lambda>C. do {
     result \<leftarrow> es_getEventCount ops s (recordName C) eventName;
     case result of
       Inl e \<Rightarrow> Some (Failed e None, s)
     | Inr ev \<Rightarrow>
         (let markers = getMarkersOrDefault (ev_markers ev) in
          if_allowed (authorizeRequest X E (base_request key user insts (EventCountRequest eventName markers :: unit action))) s
            (\<lambda>_. Some (Done \<lparr>cr_recordName = recordName C, cr_eventName = eventName, cr_count = ev_count ev, cr_markers = markers\<rparr>, s))) })"

record event_request =
  er_key :: string
  er_eventName :: string
  er_userId :: "string option"
  er_count :: "int option"
  er_markers :: "string list option"
  er_instances :: "string list option"

definition updateEvent ::
    "'r records_env \<Rightarrow> 's policy_env \<Rightarrow> 't event_ops \<Rightarrow> 't \<Rightarrow> event_request \<Rightarrow> unit op_result \<times> 't" where
  "updateEvent X E ops s q = with_context X (er_key q) s (\<lambda>C. do {
     result \<leftarrow> es_getEventCount ops s (recordName C) (er_eventName q);
     case result of
       Inl e \<Rightarrow> Some (Failed e None, s)
     | Inr ev \<Rightarrow>
         (let existingMarkers = getMarkersOrDefault (ev_markers ev) in
          if_allowed (authorizeRequest X E (base_request (er_key q) (er_userId q) (er_instances q)
              (EventUpdateRequest (er_eventName q) existingMarkers (Some (addedMarkers (er_markers q) existingMarkers))
                (Some (removedMarkers (er_markers q) existingMarkers)) :: unit action))) s
            (\<lambda>_. stored () (es_updateEvent ops s (recordName C) (er_eventName q)
              \<lparr>up_count = er_count q, up_markers = er_markers q\<rparr>))) })"

section \<open>The contract of the store\<close>

locale event_store =
  fixes ops :: "'t event_ops"
  assumes get_total: "\<exists>e. es_getEventCount ops s r n = Some (Inr e)"
    and add_get: "es_getEventCount ops s r n = Some (Inr e) \<Longrightarrow> es_addEventCount ops s r n c = Some (Inr (), s') \<Longrightarrow>
      es_getEventCount ops s' r' n' =
        (if r' = r \<and> n' = n then Some (Inr (e\<lparr>ev_count := ev_count e + c\<rparr>)) else es_getEventCount ops s r' n')"
    and add_failed: "es_addEventCount ops s r n c = Some (Inl x, s') \<Longrightarrow> s' = s"
begin

text \<open>An increment that succeeds adds its count to the one event, and any other call changes nothing.\<close>

lemma addCount_effect:
  assumes "addCount X E ops s key name c user insts = (res, s')" and "es_getEventCount ops s r n = Some (Inr e)"
  shows "es_getEventCount ops s' r n = Some (Inr (e\<lparr>ev_count := ev_count e + (if res = Done (r, n, c) then c else 0)\<rparr>))"
proof (cases "\<exists>x. res = Done x")
  case True
  with assms(1) obtain x C where C: "constructAuthorizationContext X key = Inr C" and res: "res = Done x" and
    body: "do {
     event \<leftarrow> es_getEventCount ops s (recordName C) name;
     case event of
       Inl e \<Rightarrow> Some (Failed e None, s)
     | Inr ev \<Rightarrow> do {
         r \<leftarrow> authorizeRequestUsingContext E C (base_request key user insts
           (EventIncrementRequest name (getMarkersOrDefault (ev_markers ev)) :: unit action));
         if_allowed r s (\<lambda>a.
           if must_sign_in user (subject_policy a) then Some (Failed NotLoggedIn None, s)
           else stored (recordName C, name, c) (es_addEventCount ops s (recordName C) name c)) } } = Some (Done x, s')"
    unfolding addCount_def by (elim exE, hypsubst, elim with_context_Done) blast
  then have x: "x = (recordName C, name, c)" and add: "es_addEventCount ops s (recordName C) name c = Some (Inr (), s')"
    by (auto simp: if_allowed_Done split: Option.bind_splits sum.splits if_splits)
  obtain e' where e': "es_getEventCount ops s (recordName C) name = Some (Inr e')" using get_total by blast
  show ?thesis using add_get[OF e' add, of r n] e' assms(2) by (auto simp: res x)
next
  case False
  have "s' = s"
  proof (rule ccontr)
    assume "s' \<noteq> s"
    with assms(1) False show False
      by (auto simp: addCount_def with_context_def if_allowed_def stored_iff dest: add_failed
          split: sum.splits option.splits Option.bind_splits authorize_result.splits if_splits)
  qed
  with False assms(2) show ?thesis by auto
qed

end

lemma me_entry_set [simp]: "me_entry (me_set s r n e) r' n' = (if r' = r \<and> n' = n then e else me_entry s r' n')"
  by (simp add: me_entry_def me_set_def)

lemma me_add: "me_addEventCount s r n c = me_set s r n ((me_entry s r n)\<lparr>ev_count := ev_count (me_entry s r n) + c\<rparr>)"
  by (simp add: me_addEventCount_def me_entry_def split: option.splits)

interpretation me: event_store memory_event_ops
  by unfold_locales (auto simp: memory_event_ops_def me_add)

section \<open>Sequences of increments\<close>

text \<open>A call of \<^verbatim>\<open>addCount\<close> with the state of the records and the policies at its time.\<close>

record add_call =
  ac_records :: "memory_records records_env"
  ac_policies :: "memory_policies policy_env"
  ac_key :: string
  ac_eventName :: string
  ac_count :: int
  ac_user :: "string option"
  ac_instances :: "string list option"

definition run_add :: "add_call \<Rightarrow> memory_events \<Rightarrow> (string \<times> string \<times> int) op_result \<times> memory_events" where
  "run_add a s = addCount (ac_records a) (ac_policies a) memory_event_ops s (ac_key a) (ac_eventName a) (ac_count a) (ac_user a) (ac_instances a)"

text \<open>The store after the calls, and what the calls that succeeded reported for one event.\<close>

fun run_adds :: "add_call list \<Rightarrow> memory_events \<Rightarrow> memory_events" where
  "run_adds [] s = s"
| "run_adds (a # as) s = run_adds as (snd (run_add a s))"

fun reported :: "string \<Rightarrow> string \<Rightarrow> add_call list \<Rightarrow> memory_events \<Rightarrow> int" where
  "reported r n [] s = 0"
| "reported r n (a # as) s =
     (case fst (run_add a s) of Done (r', n', c) \<Rightarrow> if r' = r \<and> n' = n then c else 0 | Failed _ _ \<Rightarrow> 0)
     + reported r n as (snd (run_add a s))"

lemma run_add_Done: "run_add a s = (Done (r, n, c), s') \<Longrightarrow> c = ac_count a"
  by (auto simp: run_add_def addCount_def if_allowed_Done elim!: with_context_Done split: Option.bind_splits sum.splits if_splits)

lemma run_add_effect:
  "me_entry (snd (run_add a s)) r n = (me_entry s r n)
     \<lparr>ev_count := ev_count (me_entry s r n) +
       (case fst (run_add a s) of Done (r', n', c) \<Rightarrow> if r' = r \<and> n' = n then c else 0 | Failed _ _ \<Rightarrow> 0)\<rparr>"
proof -
  obtain res s' where run: "run_add a s = (res, s')" by force
  from me.addCount_effect[OF run[unfolded run_add_def], of r n] run_add_Done run
  have e: "me_entry s' r n = (me_entry s r n)
      \<lparr>ev_count := ev_count (me_entry s r n) + (if res = Done (r, n, ac_count a) then ac_count a else 0)\<rparr>"
    by (simp add: memory_event_ops_def)
  then show ?thesis
  proof (cases res)
    case (Done x)
    obtain r' n' c where x: "x = (r', n', c)" by (cases x)
    from run_add_Done[OF run[unfolded Done x]] e Done x run show ?thesis by simp
  qed (simp add: run)
qed

lemma run_adds_effect:
  "me_entry (run_adds as s) r n = (me_entry s r n)\<lparr>ev_count := ev_count (me_entry s r n) + reported r n as s\<rparr>"
proof (induction as arbitrary: s)
  case (Cons a as)
  show ?case unfolding run_adds.simps Cons.IH run_add_effect by (simp add: add.assoc)
qed simp

end
