(* ===== verification/FileRecords.thy ===== *)
theory FileRecords
  imports ResourceSpec
begin

text \<open>
  File records: \<^verbatim>\<open>src/src/aux-records/FileRecordsController.ts\<close> over the interface \<^verbatim>\<open>FileRecordsStore.ts\<close>, with
  the implementation \<^verbatim>\<open>MemoryFileRecordsStore.ts\<close>. A record of a file is made before the file is uploaded to
  the address that is handed out. The package \<^verbatim>\<open>mime\<close> (\<^verbatim>\<open>getExtension\<close>, \<^verbatim>\<open>getType\<close>) is a parameter.
\<close>

section \<open>The store\<close>

type_synonym headers = "string \<Rightarrow> string option"

record presign_upload =
  pu_recordName :: string
  pu_fileName :: string
  pu_fileSha256Hex :: string
  pu_fileMimeType :: string
  pu_fileByteLength :: int
  pu_headers :: headers
  pu_markers :: "string list"

record presigned =
  presigned_url :: string
  presigned_method :: string
  presigned_headers :: headers

record stored_file =
  sf_fileName :: string
  sf_recordName :: string
  sf_publisherId :: "string option"
  sf_subjectId :: "string option"
  sf_sizeInBytes :: int
  sf_uploaded :: bool
  sf_description :: string
  sf_markers :: "string list option"

text \<open>What \<^verbatim>\<open>getFileRecord\<close> returns: the stored file with its address.\<close>

record file_record = stored_file + fr_url :: string

record 't file_ops =
  fs_presignFileUpload :: "'t \<Rightarrow> presign_upload \<Rightarrow> (error_code + presigned) option"
  fs_presignFileRead :: "'t \<Rightarrow> string \<Rightarrow> string \<Rightarrow> headers \<Rightarrow> (error_code + presigned) option"
  fs_getFileRecord :: "'t \<Rightarrow> string \<Rightarrow> string \<Rightarrow> (error_code + file_record) option"
  fs_addFileRecord :: "'t \<Rightarrow> stored_file \<Rightarrow> ((error_code + unit) \<times> 't) option"
  fs_updateFileRecord :: "'t \<Rightarrow> string \<Rightarrow> string \<Rightarrow> string list \<Rightarrow> ((error_code + unit) \<times> 't) option"
  fs_setFileRecordAsUploaded :: "'t \<Rightarrow> string \<Rightarrow> string \<Rightarrow> ((error_code + unit) \<times> 't) option"
  fs_eraseFileRecord :: "'t \<Rightarrow> string \<Rightarrow> string \<Rightarrow> ((error_code + unit) \<times> 't) option"
  fs_getFileNameFromUrl :: "string \<Rightarrow> (error_code + string \<times> string) option"

text \<open>In memory the files of all records are in one \<^verbatim>\<open>Map\<close>, by their names alone.\<close>

type_synonym memory_files = "string \<Rightarrow> stored_file option"

definition fileUploadUrl :: string where "fileUploadUrl = ''http://localhost:9191''"

definition file_url :: "string \<Rightarrow> string \<Rightarrow> string" where
  "file_url r n = fileUploadUrl @ ''/'' @ r @ ''/'' @ n"

definition mf_presignFileUpload :: "presign_upload \<Rightarrow> presigned" where
  "mf_presignFileUpload q =
     \<lparr>presigned_url = file_url (pu_recordName q) (pu_fileName q), presigned_method = ''POST'',
      presigned_headers = (pu_headers q)(''record-name'' \<mapsto> pu_recordName q, ''content-type'' \<mapsto> pu_fileMimeType q)\<rparr>"

definition mf_presignFileRead :: "string \<Rightarrow> string \<Rightarrow> headers \<Rightarrow> presigned" where
  "mf_presignFileRead r n h =
     \<lparr>presigned_url = file_url r n, presigned_method = ''GET'', presigned_headers = h(''record-name'' \<mapsto> r)\<rparr>"

definition mf_getFileNameFromUrl :: "string \<Rightarrow> error_code + string \<times> string" where
  "mf_getFileNameFromUrl url =
     (if startsWith url fileUploadUrl then
        (let recordNameAndFileName = drop (length fileUploadUrl + 1) url in
         case indexOf CHR ''/'' recordNameAndFileName of
           None \<Rightarrow> Inl UnacceptableUrl
         | Some nextSlash \<Rightarrow>
             let r = take nextSlash recordNameAndFileName; n = drop (nextSlash + 1) recordNameAndFileName in
             if r \<noteq> [] \<and> n \<noteq> [] then Inr (r, n) else Inl UnacceptableUrl)
      else Inl UnacceptableUrl)"

definition mf_getFileRecord :: "memory_files \<Rightarrow> string \<Rightarrow> string \<Rightarrow> error_code + file_record" where
  "mf_getFileRecord s r n =
     (case s n of
        None \<Rightarrow> Inl FileNotFound
      | Some f \<Rightarrow> Inr (stored_file.extend f (file_record.fields (sf_recordName f @ ''/'' @ sf_fileName f))))"

definition mf_addFileRecord :: "memory_files \<Rightarrow> stored_file \<Rightarrow> (error_code + unit) \<times> memory_files" where
  "mf_addFileRecord s f =
     (case s (sf_fileName f) of
        Some _ \<Rightarrow> (Inl FileAlreadyExists, s)
      | None \<Rightarrow> (Inr (), s(sf_fileName f \<mapsto> f)))"

definition mf_updateFileRecord :: "memory_files \<Rightarrow> string \<Rightarrow> string list \<Rightarrow> (error_code + unit) \<times> memory_files" where
  "mf_updateFileRecord s n ms =
     (case s n of None \<Rightarrow> (Inl FileNotFound, s) | Some f \<Rightarrow> (Inr (), s(n \<mapsto> f\<lparr>sf_markers := Some ms\<rparr>)))"

definition mf_setFileRecordAsUploaded :: "memory_files \<Rightarrow> string \<Rightarrow> (error_code + unit) \<times> memory_files" where
  "mf_setFileRecordAsUploaded s n =
     (case s n of None \<Rightarrow> (Inl FileNotFound, s) | Some f \<Rightarrow> (Inr (), s(n \<mapsto> f\<lparr>sf_uploaded := True\<rparr>)))"

definition mf_eraseFileRecord :: "memory_files \<Rightarrow> string \<Rightarrow> (error_code + unit) \<times> memory_files" where
  "mf_eraseFileRecord s n = (case s n of None \<Rightarrow> (Inl FileNotFound, s) | Some _ \<Rightarrow> (Inr (), s(n := None)))"

definition memory_file_ops :: "memory_files file_ops" where
  "memory_file_ops =
     \<lparr>fs_presignFileUpload = (\<lambda>s q. Some (Inr (mf_presignFileUpload q))),
      fs_presignFileRead = (\<lambda>s r n h. Some (Inr (mf_presignFileRead r n h))),
      fs_getFileRecord = (\<lambda>s r n. Some (mf_getFileRecord s r n)),
      fs_addFileRecord = (\<lambda>s f. Some (mf_addFileRecord s f)),
      fs_updateFileRecord = (\<lambda>s r n ms. Some (mf_updateFileRecord s n ms)),
      fs_setFileRecordAsUploaded = (\<lambda>s r n. Some (mf_setFileRecordAsUploaded s n)),
      fs_eraseFileRecord = (\<lambda>s r n. Some (mf_eraseFileRecord s n)),
      fs_getFileNameFromUrl = (\<lambda>url. Some (mf_getFileNameFromUrl url))\<rparr>"

section \<open>The controller\<close>

record mime_types_db =
  getExtension :: "string \<Rightarrow> string option"
  getType :: "string \<Rightarrow> string option"

record file_request =
  fq_fileSha256Hex :: string
  fq_fileByteLength :: int
  fq_fileMimeType :: string
  fq_fileDescription :: string
  fq_headers :: headers
  fq_markers :: "string list option"
  fq_instances :: "string list option"

text \<open>A file that is recorded, one that was uploaded before (with its address), or a failure.\<close>

datatype record_file_result =
    FileRecorded string presigned "string list"
  | FileExists string
  | FileFailed error_code "denial_reason option"

definition file_name_for :: "mime_types_db \<Rightarrow> file_request \<Rightarrow> string" where
  "file_name_for M q =
     (let ext = getExtension M (fq_fileMimeType q) in
      if given ext then fq_fileSha256Hex q @ ''.'' @ the ext else fq_fileSha256Hex q)"

text \<open>When the file is there already: the address once more if it was not uploaded yet.\<close>

definition already_there ::
    "'t file_ops \<Rightarrow> 't \<Rightarrow> string \<Rightarrow> string \<Rightarrow> presigned \<Rightarrow> string list \<Rightarrow> record_file_result option" where
  "already_there ops s r n p markers = do {
     fileResult \<leftarrow> fs_getFileRecord ops s r n;
     Some (case fileResult of
         Inl _ \<Rightarrow> FileFailed ServerError None
       | Inr f \<Rightarrow> if \<not> sf_uploaded f then FileRecorded n p markers else FileExists (fr_url f)) }"

definition record_allowed_file ::
    "mime_types_db \<Rightarrow> 't file_ops \<Rightarrow> 't \<Rightarrow> 'd authorized \<Rightarrow> file_request \<Rightarrow> (record_file_result \<times> 't) option" where
  "record_allowed_file M ops s a q =
     (if must_sign_in (subject_userId a) (subject_policy a) then Some (FileFailed NotLoggedIn None, s)
      else do {
        let markers = getMarkersOrDefault (fq_markers q);
        let subjectId = (if subject_policy a = ''subjectless'' then None else subject_userId a);
        let fileName = file_name_for M q;
        presignResult \<leftarrow> fs_presignFileUpload ops s
          \<lparr>pu_recordName = res_recordName a, pu_fileName = fileName, pu_fileSha256Hex = fq_fileSha256Hex q,
           pu_fileMimeType = fq_fileMimeType q, pu_fileByteLength = fq_fileByteLength q, pu_headers = fq_headers q,
           pu_markers = markers\<rparr>;
        case presignResult of
          Inl e \<Rightarrow> Some (FileFailed e None, s)
        | Inr p \<Rightarrow> do {
            (addFileResult, s1) \<leftarrow> fs_addFileRecord ops s
              \<lparr>sf_fileName = fileName, sf_recordName = res_recordName a, sf_publisherId = authorizerId a, sf_subjectId = subjectId,
               sf_sizeInBytes = fq_fileByteLength q, sf_uploaded = False, sf_description = fq_fileDescription q,
               sf_markers = Some markers\<rparr>;
            case addFileResult of
              Inl e \<Rightarrow>
                if e = FileAlreadyExists
                then map_option (\<lambda>x. (x, s1)) (already_there ops s1 (res_recordName a) fileName p markers)
                else Some (FileFailed e None, s1)
            | Inr _ \<Rightarrow> Some (FileRecorded fileName p markers, s1) } })"

definition recordFile ::
    "'r records_env \<Rightarrow> 's policy_env \<Rightarrow> mime_types_db \<Rightarrow> 't file_ops \<Rightarrow> 't \<Rightarrow> string \<Rightarrow> string option \<Rightarrow> file_request
      \<Rightarrow> record_file_result \<times> 't" where
  "recordFile X E M ops s key user q =
     (case authorizeRequest X E (base_request key user (fq_instances q)
         (FileCreateRequest (fq_fileByteLength q) (Some (fq_fileMimeType q)) (getMarkersOrDefault (fq_markers q)) :: unit action)) of
        Denied e d \<Rightarrow> (if e = ActionNotSupported then FileFailed ServerError None else FileFailed e d, s)
      | Allowed a \<Rightarrow> (case record_allowed_file M ops s a q of None \<Rightarrow> (FileFailed ServerError None, s) | Some r \<Rightarrow> r))"

text \<open>
  Erasing, reading and updating: the record of the file, then the authorization for its markers, size and
  type, then \<open>rest\<close>.
\<close>

definition with_file ::
    "'r records_env \<Rightarrow> 's policy_env \<Rightarrow> 't file_ops \<Rightarrow> 't \<Rightarrow> string \<Rightarrow> string \<Rightarrow> string option \<Rightarrow> string list option
      \<Rightarrow> (file_record \<Rightarrow> unit action) \<Rightarrow> (unit authorized \<Rightarrow> file_record \<Rightarrow> ('a op_result \<times> 't) option) \<Rightarrow> 'a op_result \<times> 't" where
  "with_file X E ops s key fileName user insts act rest = with_context X key s (\<lambda>C. do {
     fileResult \<leftarrow> fs_getFileRecord ops s (recordName C) fileName;
     case fileResult of
       Inl e \<Rightarrow> Some (Failed e None, s)
     | Inr f \<Rightarrow> do {
         r \<leftarrow> authorizeRequestUsingContext E C (base_request key user insts (act f));
         if_allowed r s (\<lambda>a.
           if must_sign_in (subject_userId a) (subject_policy a) then Some (Failed NotLoggedIn None, s) else rest a f) } })"

definition eraseFile ::
    "'r records_env \<Rightarrow> 's policy_env \<Rightarrow> mime_types_db \<Rightarrow> 't file_ops \<Rightarrow> 't \<Rightarrow> string \<Rightarrow> string \<Rightarrow> string option \<Rightarrow> string list option
      \<Rightarrow> (string \<times> string) op_result \<times> 't" where
  "eraseFile X E M ops s key fileName user insts =
     with_file X E ops s key fileName user insts
       (\<lambda>f. FileDeleteRequest (sf_sizeInBytes f) (getType M (sf_fileName f)) (getMarkersOrDefault (sf_markers f)))
       (\<lambda>a f. stored (res_recordName a, fileName) (fs_eraseFileRecord ops s (res_recordName a) fileName))"

definition readFile ::
    "'r records_env \<Rightarrow> 's policy_env \<Rightarrow> mime_types_db \<Rightarrow> 't file_ops \<Rightarrow> 't \<Rightarrow> string \<Rightarrow> string \<Rightarrow> string option \<Rightarrow> string list option
      \<Rightarrow> presigned op_result \<times> 't" where
  "readFile X E M ops s key fileName user insts =
     with_file X E ops s key fileName user insts
       (\<lambda>f. FileReadRequest (sf_sizeInBytes f) (getType M (sf_fileName f)) (getMarkersOrDefault (sf_markers f)))
       (\<lambda>a f. map_option (\<lambda>r. (case r of Inl e \<Rightarrow> Failed e None | Inr p \<Rightarrow> Done p, s))
         (fs_presignFileRead ops s (res_recordName a) fileName Map.empty))"

definition updateFile ::
    "'r records_env \<Rightarrow> 's policy_env \<Rightarrow> mime_types_db \<Rightarrow> 't file_ops \<Rightarrow> 't \<Rightarrow> string \<Rightarrow> string \<Rightarrow> string option \<Rightarrow> string list option
      \<Rightarrow> string list option \<Rightarrow> unit op_result \<times> 't" where
  "updateFile X E M ops s key fileName user markers insts =
     with_file X E ops s key fileName user insts
       (\<lambda>f. let existingMarkers = getMarkersOrDefault (sf_markers f) in
          FileUpdateRequest (sf_sizeInBytes f) (getType M (sf_fileName f)) existingMarkers
            (Some (addedMarkers markers existingMarkers)) (Some (removedMarkers markers existingMarkers)))
       (\<lambda>a f. stored () (fs_updateFileRecord ops s (res_recordName a) fileName
          (case markers of None \<Rightarrow> getMarkersOrDefault (sf_markers f) | Some ms \<Rightarrow> ms)))"

text \<open>The server calls this when an upload has arrived; it is not authorized.\<close>

definition markFileAsUploaded :: "'t file_ops \<Rightarrow> 't \<Rightarrow> string \<Rightarrow> string \<Rightarrow> unit op_result \<times> 't" where
  "markFileAsUploaded ops s r n =
     (case stored () (fs_setFileRecordAsUploaded ops s r n) of None \<Rightarrow> (Failed ServerError None, s) | Some x \<Rightarrow> x)"

definition getFileNameFromUrl :: "'t file_ops \<Rightarrow> string \<Rightarrow> error_code + string \<times> string" where
  "getFileNameFromUrl ops url = (case fs_getFileNameFromUrl ops url of None \<Rightarrow> Inl ServerError | Some r \<Rightarrow> r)"

end
