(* ===== verification/FileSpec.thy ===== *)
theory FileSpec
  imports FileRecords
begin

text \<open>
  The life of a file in the store in memory: recorded, uploaded, given other markers, erased. Every operation
  of the controller makes at most one of these steps, of the one file that it names.
\<close>

section \<open>Addresses\<close>

lemma url_parsed:
  assumes "r \<noteq> []" and "n \<noteq> []" and "CHR ''/'' \<notin> set r"
  shows "mf_getFileNameFromUrl (file_url r n) = Inr (r, n)"
proof -
  have d: "drop (length fileUploadUrl + 1) (file_url r n) = r @ CHR ''/'' # n"
    by (simp add: file_url_def)
  have "startsWith (file_url r n) fileUploadUrl" by (simp add: startsWith_def file_url_def)
  with assms show ?thesis unfolding mf_getFileNameFromUrl_def d Let_def by simp
qed

section \<open>Steps of the operations\<close>

lemma addFile_cases:
  assumes "mf_addFileRecord s f = (r, s')"
  shows "s' = s \<and> r = Inl FileAlreadyExists \<and> s (sf_fileName f) \<noteq> None \<or>
    s (sf_fileName f) = None \<and> r = Inr () \<and> s' = s(sf_fileName f \<mapsto> f)"
  using assms by (auto simp: mf_addFileRecord_def split: option.splits)

text \<open>The file that an allowed request records.\<close>

definition new_file :: "mime_types_db \<Rightarrow> file_request \<Rightarrow> 'd authorized \<Rightarrow> stored_file" where
  "new_file M q a =
     \<lparr>sf_fileName = file_name_for M q, sf_recordName = res_recordName a, sf_publisherId = authorizerId a,
      sf_subjectId = (if subject_policy a = ''subjectless'' then None else subject_userId a),
      sf_sizeInBytes = fq_fileByteLength q, sf_uploaded = False, sf_description = fq_fileDescription q,
      sf_markers = Some (getMarkersOrDefault (fq_markers q))\<rparr>"

definition create_file_request :: "string \<Rightarrow> string option \<Rightarrow> file_request \<Rightarrow> unit request" where
  "create_file_request key user q = base_request key user (fq_instances q)
     (FileCreateRequest (fq_fileByteLength q) (Some (fq_fileMimeType q)) (getMarkersOrDefault (fq_markers q)))"

text \<open>
  Recording a file that is not there adds it; one that is there stays, and the answer tells whether its
  upload is still missing.
\<close>

lemma recordFile_outcome:
  assumes "authorizeRequest X E (create_file_request key user q) = Allowed a"
    and "\<not> must_sign_in (subject_userId a) (subject_policy a)"
  shows "\<exists>p. presigned_url p = file_url (res_recordName a) (file_name_for M q) \<and>
    recordFile X E M memory_file_ops s key user q =
    (case s (file_name_for M q) of
       None \<Rightarrow> (FileRecorded (file_name_for M q) p (getMarkersOrDefault (fq_markers q)), s(file_name_for M q \<mapsto> new_file M q a))
     | Some f \<Rightarrow> (if sf_uploaded f then FileExists (sf_recordName f @ ''/'' @ sf_fileName f)
                  else FileRecorded (file_name_for M q) p (getMarkersOrDefault (fq_markers q)), s))"
proof -
  let ?u = "\<lparr>pu_recordName = res_recordName a, pu_fileName = file_name_for M q, pu_fileSha256Hex = fq_fileSha256Hex q,
    pu_fileMimeType = fq_fileMimeType q, pu_fileByteLength = fq_fileByteLength q, pu_headers = fq_headers q,
    pu_markers = getMarkersOrDefault (fq_markers q)\<rparr>"
  have "presigned_url (mf_presignFileUpload ?u) = file_url (res_recordName a) (file_name_for M q)"
    by (simp add: mf_presignFileUpload_def)
  moreover have "recordFile X E M memory_file_ops s key user q =
    (case s (file_name_for M q) of
       None \<Rightarrow> (FileRecorded (file_name_for M q) (mf_presignFileUpload ?u) (getMarkersOrDefault (fq_markers q)),
         s(file_name_for M q \<mapsto> new_file M q a))
     | Some f \<Rightarrow> (if sf_uploaded f then FileExists (sf_recordName f @ ''/'' @ sf_fileName f)
                  else FileRecorded (file_name_for M q) (mf_presignFileUpload ?u) (getMarkersOrDefault (fq_markers q)), s))"
    using assms by (simp add: recordFile_def create_file_request_def record_allowed_file_def memory_file_ops_def mf_addFileRecord_def
        already_there_def mf_getFileRecord_def new_file_def stored_file.defs file_record.defs Let_def split: option.splits)
  ultimately show ?thesis by blast
qed

lemma recordFile_step:
  assumes "recordFile X E M memory_file_ops s key user q = (res, s')" and "s' \<noteq> s"
  shows "\<exists>a. authorizeRequest X E (create_file_request key user q) = Allowed a \<and>
    s (file_name_for M q) = None \<and> s' = s(file_name_for M q \<mapsto> new_file M q a)"
proof (cases "authorizeRequest X E (create_file_request key user q)")
  case (Denied e d)
  with assms show ?thesis by (simp add: recordFile_def create_file_request_def)
next
  case (Allowed a)
  show ?thesis
  proof (cases "must_sign_in (subject_userId a) (subject_policy a)")
    case True
    with Allowed assms show ?thesis by (simp add: recordFile_def create_file_request_def record_allowed_file_def)
  next
    case False
    from recordFile_outcome[OF Allowed False, of M s] assms Allowed show ?thesis
      by (auto split: option.splits)
  qed
qed

lemma with_file_step:
  assumes "with_file X E memory_file_ops s key n user insts act rest = (res, s')" and "s' \<noteq> s"
  shows "\<exists>C f a. constructAuthorizationContext X key = Inr C \<and> s n = Some f \<and>
    authorizeRequestUsingContext E C (base_request key user insts
      (act (stored_file.extend f (file_record.fields (sf_recordName f @ ''/'' @ sf_fileName f))))) = Some (Allowed a) \<and>
    rest a (stored_file.extend f (file_record.fields (sf_recordName f @ ''/'' @ sf_fileName f))) = Some (res, s')"
  using assms
  by (auto simp: with_file_def with_context_def if_allowed_def memory_file_ops_def mf_getFileRecord_def
      split: sum.splits option.splits Option.bind_splits authorize_result.splits if_splits)

lemma extended_file [simp]:
  "sf_fileName (stored_file.extend f x) = sf_fileName f" "sf_sizeInBytes (stored_file.extend f x) = sf_sizeInBytes f"
  "sf_markers (stored_file.extend f x) = sf_markers f" "sf_uploaded (stored_file.extend f x) = sf_uploaded f"
  by (simp_all add: stored_file.defs)

definition delete_file_action :: "mime_types_db \<Rightarrow> stored_file \<Rightarrow> unit action" where
  "delete_file_action M f = FileDeleteRequest (sf_sizeInBytes f) (getType M (sf_fileName f)) (getMarkersOrDefault (sf_markers f))"

definition update_file_action :: "mime_types_db \<Rightarrow> stored_file \<Rightarrow> string list option \<Rightarrow> unit action" where
  "update_file_action M f markers =
     (let existing = getMarkersOrDefault (sf_markers f) in
      FileUpdateRequest (sf_sizeInBytes f) (getType M (sf_fileName f)) existing
        (Some (addedMarkers markers existing)) (Some (removedMarkers markers existing)))"

lemma eraseFile_step:
  assumes "eraseFile X E M memory_file_ops s key n user insts = (res, s')" and "s' \<noteq> s"
  shows "\<exists>C f. constructAuthorizationContext X key = Inr C \<and> s n = Some f \<and> s' = s(n := None) \<and>
    allows E C (base_request key user insts (delete_file_action M f))"
  using with_file_step[OF assms[unfolded eraseFile_def]] assms(2)
  by (auto simp: delete_file_action_def memory_file_ops_def stored_iff mf_eraseFileRecord_def split: option.splits)

lemma updateFile_step:
  assumes "updateFile X E M memory_file_ops s key n user markers insts = (res, s')" and "s' \<noteq> s"
  shows "\<exists>C f. constructAuthorizationContext X key = Inr C \<and> s n = Some f \<and>
    s' = s(n \<mapsto> f\<lparr>sf_markers := Some (case markers of None \<Rightarrow> getMarkersOrDefault (sf_markers f) | Some ms \<Rightarrow> ms)\<rparr>) \<and>
    allows E C (base_request key user insts (update_file_action M f markers))"
  using with_file_step[OF assms[unfolded updateFile_def]] assms(2)
  by (auto simp: update_file_action_def Let_def memory_file_ops_def stored_iff mf_updateFileRecord_def split: option.splits)

lemma readFile_step: "snd (readFile X E M memory_file_ops s key n user insts) = s"
proof (rule ccontr)
  obtain res s' where r: "readFile X E M memory_file_ops s key n user insts = (res, s')" by force
  assume "\<not> ?thesis"
  with r with_file_step[OF r[unfolded readFile_def]] show False by (auto simp: memory_file_ops_def)
qed

lemma markFile_step:
  assumes "markFileAsUploaded memory_file_ops s r n = (res, s')" and "s' \<noteq> s"
  shows "\<exists>f. s n = Some f \<and> s' = s(n \<mapsto> f\<lparr>sf_uploaded := True\<rparr>)"
  using assms by (auto simp: markFileAsUploaded_def memory_file_ops_def mf_setFileRecordAsUploaded_def stored_def split: option.splits)

section \<open>Calls\<close>

text \<open>A call with the state of the records and the policies at its time.\<close>

record file_call =
  fc_records :: "memory_records records_env"
  fc_policies :: "memory_policies policy_env"
  fc_mime :: mime_types_db
  fc_key :: string
  fc_user :: "string option"

datatype file_op =
    RecordFile file_call file_request
  | EraseFile file_call string "string list option"
  | ReadFile file_call string "string list option"
  | UpdateFile file_call string "string list option" "string list option"
  | MarkUploaded string string

fun run_file_op :: "file_op \<Rightarrow> memory_files \<Rightarrow> memory_files" where
  "run_file_op (RecordFile c q) s = snd (recordFile (fc_records c) (fc_policies c) (fc_mime c) memory_file_ops s (fc_key c) (fc_user c) q)"
| "run_file_op (EraseFile c n insts) s =
     snd (eraseFile (fc_records c) (fc_policies c) (fc_mime c) memory_file_ops s (fc_key c) n (fc_user c) insts)"
| "run_file_op (ReadFile c n insts) s =
     snd (readFile (fc_records c) (fc_policies c) (fc_mime c) memory_file_ops s (fc_key c) n (fc_user c) insts)"
| "run_file_op (UpdateFile c n ms insts) s =
     snd (updateFile (fc_records c) (fc_policies c) (fc_mime c) memory_file_ops s (fc_key c) n (fc_user c) ms insts)"
| "run_file_op (MarkUploaded r n) s = snd (markFileAsUploaded memory_file_ops s r n)"

text \<open>
  The steps of one file \<open>n\<close> that a call may make: what it was, what it becomes, and the authorization
  that the call has.
\<close>

inductive file_step :: "file_op \<Rightarrow> string \<Rightarrow> stored_file option \<Rightarrow> stored_file option \<Rightarrow> bool" where
  unchanged: "file_step op n f f"
| recorded: "authorizeRequest (fc_records c) (fc_policies c) (create_file_request (fc_key c) (fc_user c) q) = Allowed a \<Longrightarrow>
    n = file_name_for (fc_mime c) q \<Longrightarrow> file_step (RecordFile c q) n None (Some (new_file (fc_mime c) q a))"
| arrived: "file_step (MarkUploaded r n) n (Some f) (Some (f\<lparr>sf_uploaded := True\<rparr>))"
| remarked: "constructAuthorizationContext (fc_records c) (fc_key c) = Inr C \<Longrightarrow>
    allows (fc_policies c) C (base_request (fc_key c) (fc_user c) insts (update_file_action (fc_mime c) f ms)) \<Longrightarrow>
    file_step (UpdateFile c n ms insts) n (Some f)
      (Some (f\<lparr>sf_markers := Some (case ms of None \<Rightarrow> getMarkersOrDefault (sf_markers f) | Some ms \<Rightarrow> ms)\<rparr>))"
| erased: "constructAuthorizationContext (fc_records c) (fc_key c) = Inr C \<Longrightarrow>
    allows (fc_policies c) C (base_request (fc_key c) (fc_user c) insts (delete_file_action (fc_mime c) f)) \<Longrightarrow>
    file_step (EraseFile c n insts) n (Some f) None"

inductive_cases file_stepE: "file_step op n f f'"

lemma run_file_step: "file_step op n (s n) (run_file_op op s n)"
proof (cases "run_file_op op s n = s n")
  case True
  then show ?thesis by (simp add: file_step.unchanged)
next
  case False
  then have ne: "run_file_op op s \<noteq> s" by auto
  show ?thesis
  proof (cases op)
    case (RecordFile c q)
    with ne recordFile_step[OF prod.collapse[symmetric], of "fc_records c" "fc_policies c" "fc_mime c" s "fc_key c" "fc_user c" q] False
    show ?thesis by (auto split: if_splits intro: file_step.recorded)
  next
    case (EraseFile c m insts)
    with ne eraseFile_step[OF prod.collapse[symmetric], of "fc_records c" "fc_policies c" "fc_mime c" s "fc_key c" m "fc_user c" insts] False
    obtain C f where "constructAuthorizationContext (fc_records c) (fc_key c) = Inr C" "s m = Some f"
      "run_file_op op s = s(m := None)"
      "allows (fc_policies c) C (base_request (fc_key c) (fc_user c) insts (delete_file_action (fc_mime c) f))" by auto
    with False EraseFile file_step.erased[of c C insts f m] show ?thesis by (auto split: if_splits)
  next
    case (ReadFile c m insts)
    with ne show ?thesis by (simp add: readFile_step)
  next
    case (UpdateFile c m ms insts)
    with ne updateFile_step[OF prod.collapse[symmetric], of "fc_records c" "fc_policies c" "fc_mime c" s "fc_key c" m "fc_user c" ms insts] False
    obtain C f where "constructAuthorizationContext (fc_records c) (fc_key c) = Inr C" "s m = Some f"
      "run_file_op op s = s(m \<mapsto> f\<lparr>sf_markers := Some (case ms of None \<Rightarrow> getMarkersOrDefault (sf_markers f) | Some ms \<Rightarrow> ms)\<rparr>)"
      "allows (fc_policies c) C (base_request (fc_key c) (fc_user c) insts (update_file_action (fc_mime c) f ms))" by auto
    with False UpdateFile file_step.remarked[of c C insts f ms m] show ?thesis by (auto split: if_splits)
  next
    case (MarkUploaded r m)
    with ne markFile_step[OF prod.collapse[symmetric], of s r m] False
    show ?thesis by (auto split: if_splits intro: file_step.arrived)
  qed
qed

section \<open>What a call does to a file of its record\<close>

text \<open>
  The store in memory finds a file by its name alone. A call names the record of the file if the file that has the name, if
  there is one, belongs to the record that the key of the call opens, or that the notice of an upload is for.
\<close>

definition opens_record :: "file_call \<Rightarrow> stored_file option \<Rightarrow> bool" where
  "opens_record c file =
     (case (constructAuthorizationContext (fc_records c) (fc_key c), file) of
        (Inr C, Some f) \<Rightarrow> recordName C = sf_recordName f
      | _ \<Rightarrow> True)"

fun names_own_record :: "file_op \<Rightarrow> memory_files \<Rightarrow> bool" where
  "names_own_record (RecordFile c q) s \<longleftrightarrow> opens_record c (s (file_name_for (fc_mime c) q))"
| "names_own_record (EraseFile c n insts) s \<longleftrightarrow> opens_record c (s n)"
| "names_own_record (ReadFile c n insts) s \<longleftrightarrow> opens_record c (s n)"
| "names_own_record (UpdateFile c n ms insts) s \<longleftrightarrow> opens_record c (s n)"
| "names_own_record (MarkUploaded r n) s \<longleftrightarrow> (case s n of None \<Rightarrow> True | Some f \<Rightarrow> r = sf_recordName f)"

text \<open>The call is authorized for the record \<open>r\<close>, by a signed-in user or a key that needs none.\<close>

definition permits :: "file_call \<Rightarrow> string \<Rightarrow> string list option \<Rightarrow> unit action \<Rightarrow> bool" where
  "permits c r insts act =
     (case constructAuthorizationContext (fc_records c) (fc_key c) of
        Inl e \<Rightarrow> False
      | Inr C \<Rightarrow> recordName C = r \<and>
          (case authorizeRequestUsingContext (fc_policies c) C (base_request (fc_key c) (fc_user c) insts act) of
             Some (Allowed a) \<Rightarrow> \<not> must_sign_in (subject_userId a) (subject_policy a)
           | _ \<Rightarrow> False))"

text \<open>The file named \<open>n\<close> after a call.\<close>

fun file_after :: "file_op \<Rightarrow> string \<Rightarrow> stored_file option \<Rightarrow> stored_file option" where
  "file_after (RecordFile c q) n None =
     (case authorizeRequest (fc_records c) (fc_policies c) (create_file_request (fc_key c) (fc_user c) q) of
        Allowed a \<Rightarrow> if n = file_name_for (fc_mime c) q \<and> \<not> must_sign_in (subject_userId a) (subject_policy a)
          then Some (new_file (fc_mime c) q a) else None
      | Denied e d \<Rightarrow> None)"
| "file_after (EraseFile c m insts) n (Some f) =
     (if n = m \<and> permits c (sf_recordName f) insts (delete_file_action (fc_mime c) f) then None else Some f)"
| "file_after (UpdateFile c m ms insts) n (Some f) =
     (if n = m \<and> permits c (sf_recordName f) insts (update_file_action (fc_mime c) f ms)
      then Some (f\<lparr>sf_markers := Some (case ms of None \<Rightarrow> getMarkersOrDefault (sf_markers f) | Some ms \<Rightarrow> ms)\<rparr>) else Some f)"
| "file_after (MarkUploaded r m) n (Some f) =
     (if n = m \<and> r = sf_recordName f then Some (f\<lparr>sf_uploaded := True\<rparr>) else Some f)"
| "file_after op n file = file"

lemma with_file_run:
  "with_file X E memory_file_ops s key n user insts act rest =
    (case constructAuthorizationContext X key of
       Inl e \<Rightarrow> (Failed e None, s)
     | Inr C \<Rightarrow> (case s n of
         None \<Rightarrow> (Failed FileNotFound None, s)
       | Some f \<Rightarrow> (let f' = stored_file.extend f (file_record.fields (sf_recordName f @ ''/'' @ sf_fileName f)) in
           case authorizeRequestUsingContext E C (base_request key user insts (act f')) of
             None \<Rightarrow> (Failed ServerError None, s)
           | Some (Denied e d) \<Rightarrow> (returnAuthorizationResult e d, s)
           | Some (Allowed a) \<Rightarrow> if must_sign_in (subject_userId a) (subject_policy a) then (Failed NotLoggedIn None, s)
               else case rest a f' of None \<Rightarrow> (Failed ServerError None, s) | Some r \<Rightarrow> r)))"
  by (simp add: with_file_def with_context_def if_allowed_def memory_file_ops_def mf_getFileRecord_def Let_def
      split: sum.split option.split authorize_result.split)

lemma erase_after:
  assumes "opens_record c (s m)"
  shows "run_file_op (EraseFile c m insts) s n = file_after (EraseFile c m insts) n (s n)"
  using assms unfolding run_file_op.simps eraseFile_def with_file_run
  by (cases "n = m"; cases "s n") (simp_all add: Let_def permits_def opens_record_def delete_file_action_def memory_file_ops_def
      stored_def mf_eraseFileRecord_def split: sum.splits option.splits authorize_result.splits)

lemma update_after:
  assumes "opens_record c (s m)"
  shows "run_file_op (UpdateFile c m ms insts) s n = file_after (UpdateFile c m ms insts) n (s n)"
  using assms unfolding run_file_op.simps updateFile_def with_file_run
  by (cases "n = m"; cases "s n") (simp_all add: Let_def permits_def opens_record_def update_file_action_def memory_file_ops_def
      stored_def mf_updateFileRecord_def split: sum.splits option.splits authorize_result.splits)

lemma record_after: "run_file_op (RecordFile c q) s n = file_after (RecordFile c q) n (s n)"
proof (cases "authorizeRequest (fc_records c) (fc_policies c) (create_file_request (fc_key c) (fc_user c) q)")
  case (Denied e d)
  then show ?thesis by (cases "s n") (simp_all add: recordFile_def create_file_request_def)
next
  case (Allowed a)
  show ?thesis
  proof (cases "must_sign_in (subject_userId a) (subject_policy a)")
    case True
    with Allowed show ?thesis by (cases "s n") (simp_all add: recordFile_def create_file_request_def record_allowed_file_def)
  next
    case False
    from recordFile_outcome[OF Allowed False, of "fc_mime c" s] Allowed False show ?thesis
      by (cases "s n"; cases "s (file_name_for (fc_mime c) q)") auto
  qed
qed

lemma file_after_call:
  assumes "names_own_record op s"
  shows "run_file_op op s n = file_after op n (s n)"
proof (cases op)
  case (RecordFile c q)
  then show ?thesis by (simp only: record_after)
next
  case (EraseFile c m insts)
  with assms erase_after show ?thesis by simp
next
  case (UpdateFile c m ms insts)
  with assms update_after show ?thesis by simp
next
  case (ReadFile c m insts)
  then show ?thesis by (cases "s n") (simp_all add: readFile_step)
next
  case (MarkUploaded r m)
  with assms show ?thesis
    by (cases "s n") (auto simp: markFileAsUploaded_def memory_file_ops_def mf_setFileRecordAsUploaded_def stored_def split: option.splits)
qed

section \<open>Uploads stay\<close>

text \<open>Files are stored under their own names, with at least one marker when they were recorded.\<close>

fun run_file_ops :: "file_op list \<Rightarrow> memory_files \<Rightarrow> memory_files" where
  "run_file_ops [] s = s"
| "run_file_ops (op # ops) s = run_file_ops ops (run_file_op op s)"

lemma file_step_name: "file_step op n f f' \<Longrightarrow> \<forall>x\<in>set_option f. sf_fileName x = n \<Longrightarrow> \<forall>x\<in>set_option f'. sf_fileName x = n"
  by (induction rule: file_step.induct) (auto simp: new_file_def)

text \<open>An uploaded file stays uploaded, with its owner, size and description, until it is erased.\<close>

definition same_upload :: "stored_file \<Rightarrow> stored_file \<Rightarrow> bool" where
  "same_upload f g \<longleftrightarrow> sf_uploaded g \<and> sf_fileName g = sf_fileName f \<and> sf_recordName g = sf_recordName f \<and>
     sf_publisherId g = sf_publisherId f \<and> sf_subjectId g = sf_subjectId f \<and>
     sf_sizeInBytes g = sf_sizeInBytes f \<and> sf_description g = sf_description f"

fun erases :: "string \<Rightarrow> file_op \<Rightarrow> bool" where
  "erases n (EraseFile c m insts) \<longleftrightarrow> m = n"
| "erases n _ \<longleftrightarrow> False"

lemma file_step_upload:
  assumes "file_step op n (Some g) f'" and "\<not> erases n op" and "same_upload f g"
  shows "\<exists>h. f' = Some h \<and> same_upload f h"
  using assms by (auto elim!: file_stepE simp: same_upload_def)

lemma run_upload:
  assumes "\<forall>op\<in>set ops. \<not> erases n op" and "s n = Some g" and "same_upload f g"
  shows "\<exists>h. run_file_ops ops s n = Some h \<and> same_upload f h"
  using assms
proof (induction ops arbitrary: s g)
  case (Cons op ops)
  from file_step_upload[OF run_file_step[of op n s, unfolded Cons.prems(2)]] Cons.prems
  obtain h where "run_file_op op s n = Some h" "same_upload f h" by auto
  with Cons.IH Cons.prems(1) show ?case by simp
qed auto

end
