(* ===== verification/ResourceClaims.thy ===== *)
theory ResourceClaims
  imports RecordClaims DataSpec EventRecords FileSpec
begin

text \<open>
  The properties of the records of data, events and files, on the stores in memory and together with the
  authorization.
\<close>

section \<open>A small record\<close>

text \<open>The record \<^verbatim>\<open>rec\<close> of the user \<^verbatim>\<open>own\<close>, and \<^verbatim>\<open>alt\<close> of \<^verbatim>\<open>bob\<close>.\<close>

definition two_records :: "memory_records records_env" where
  "two_records = \<lparr>codec = key_demo, rec_ops = memory_records_ops,
     rec_store = \<lparr>mem_records = [\<lparr>rec_name = ''rec'', ownerId = ''own'', secretHashes = [], secretSalt = ''s''\<rparr>,
         \<lparr>rec_name = ''alt'', ownerId = ''bob'', secretHashes = [], secretSalt = ''s''\<rparr>], mem_recordKeys = []\<rparr>\<rparr>"

definition owner_writes :: "string data_request" where
  "owner_writes = \<lparr>dr_key = ''rec'', dr_address = ''a'', dr_data = ''x'', dr_subjectId = Some ''own'', dr_updatePolicy = FalsyValue,
     dr_deletePolicy = FalsyValue, dr_markers = None, dr_instances = None\<rparr>"

lemma demo_rec_context: "constructAuthorizationContext two_records ''rec'' = Inr demo_context"
  by code_simp

section \<open>Data\<close>

text \<open>C38: Data that was recorded, in a new item or over an old one, is what everybody who may read it by its markers
  gets, with the signed-in subject and the markers of the request (those of the old item if it names
  none, or the one for public reading); whoever may not gets nothing; and every other item of every
  record is what it was.\<close>

theorem data_roundtrip:
  assumes "constructAuthorizationContext X (dr_key q) = Inr C"
    and "recordData X E memory_data_ops s q = (Done r, s')"
    and "constructAuthorizationContext X' key = Inr D" and "recordName D = recordName C"
    and "markers = (case dr_markers q of Some ms \<Rightarrow> ms | None \<Rightarrow>
      (case md_getData s (recordName C) (dr_address q) of Inr e \<Rightarrow> markers_or_public (entry_markers e) | Inl _ \<Rightarrow> [PUBLIC_READ_MARKER]))"
  shows "((\<exists>x. fst (getData X' E' memory_data_ops s' key (dr_address q) user insts) = Done x) \<longleftrightarrow>
      allows E' D (base_request key user insts (DataReadRequest (dr_address q) markers :: unit action))) \<and>
    (\<forall>x. fst (getData X' E' memory_data_ops s' key (dr_address q) user insts) = Done x \<longrightarrow>
      got_data x = dr_data q \<and> got_subjectId x = subject_for (subjectPolicy C) (dr_subjectId q) \<and> got_markers x = markers) \<and>
    (\<forall>n a. (n, a) \<noteq> (recordName C, dr_address q) \<longrightarrow> md_getData s' n a = md_getData s n a)"
proof -
  obtain existing publisher where e: "ds_getData memory_data_ops s (recordName C) (dr_address q) = Some existing"
    and get: "\<And>n a. ds_getData memory_data_ops s' n a = (if n = recordName C \<and> a = dr_address q
      then Some (Inr (new_entry q publisher (subject_for (subjectPolicy C) (dr_subjectId q)) (snd (data_action_for q existing))))
      else ds_getData memory_data_ops s n a)"
    and read: "\<And>user insts. fst (getData X' E' memory_data_ops s' key (dr_address q) user insts) =
      (case authorizeRequestUsingContext E' D (base_request key user insts
          (DataReadRequest (dr_address q) (snd (data_action_for q existing)) :: unit action)) of
        None \<Rightarrow> Failed ServerError None
      | Some (Denied e d) \<Rightarrow> returnAuthorizationResult e d
      | Some (Allowed _) \<Rightarrow> Done \<lparr>got_data = dr_data q, got_publisherId = publisher,
          got_subjectId = subject_for (subjectPolicy C) (dr_subjectId q), got_recordName = key,
          got_updatePolicy = as_policy (or_true (dr_updatePolicy q)), got_deletePolicy = as_policy (or_true (dr_deletePolicy q)),
          got_markers = snd (data_action_for q existing)\<rparr>)"
    by (rule md.recorded_is_read[OF assms(1-4), of E']) (rule that; assumption)
  from e have "existing = md_getData s (recordName C) (dr_address q)" by (simp add: memory_data_ops_def)
  then have m: "snd (data_action_for q existing) = markers"
    by (simp add: data_action_for_def assms(5) markers_or_public_def Let_def split: sum.splits option.splits)
  have "md_getData s' n a = md_getData s n a" if "(n, a) \<noteq> (recordName C, dr_address q)" for n a
    using get[of n a] that by (auto simp: memory_data_ops_def)
  then show ?thesis unfolding read m by (auto split: option.splits authorize_result.splits)
qed

lemma data_roundtrip_witness:
  "case recordData two_records demo_env memory_data_ops Map.empty owner_writes of
     (Done _, s') \<Rightarrow> (\<forall>x. fst (getData two_records demo_env memory_data_ops s' ''rec'' ''a'' None None) = Done x \<longrightarrow> got_data x = ''x'')
   | _ \<Rightarrow> False"
proof -
  have C: "constructAuthorizationContext two_records (dr_key owner_writes) = Inr demo_context"
    using demo_rec_context by (simp add: owner_writes_def)
  have "case fst (recordData two_records demo_env memory_data_ops Map.empty owner_writes) of Done _ \<Rightarrow> True | _ \<Rightarrow> False"
    by code_simp
  then obtain r s' where r: "recordData two_records demo_env memory_data_ops Map.empty owner_writes = (Done r, s')"
    by (cases "recordData two_records demo_env memory_data_ops Map.empty owner_writes") (auto split: op_result.splits)
  from data_roundtrip[OF C r demo_rec_context refl refl, where E' = demo_env and user = None and insts = None,
      THEN conjunct2, THEN conjunct1]
  show ?thesis unfolding r by (simp add: owner_writes_def)
qed

text \<open>Recording changes at most the item that the request names, only with an authorization to create it or, if it
  exists, to update it with the markers that it adds and removes, and only for users that the update
  policy of the item matches; erasing the same with the authorization to delete it and its delete
  policy, which only the creator of the record key may ignore.\<close>

theorem data_change_permitted:
  "(md_getData (snd (recordData X E memory_data_ops s q)) n a \<noteq> md_getData s n a \<longrightarrow>
    (\<exists>C. constructAuthorizationContext X (dr_key q) = Inr C \<and> n = recordName C \<and> a = dr_address q \<and>
      permitted_by updatePolicy (md_getData s n a) (subject_for (subjectPolicy C) (dr_subjectId q)) \<and>
      allows E C (base_request (dr_key q) (dr_subjectId q) (dr_instances q) (fst (data_action_for q (md_getData s n a)))))) \<and>
   (md_getData (snd (eraseData X E memory_data_ops s key addr user insts)) n a \<noteq> md_getData s n a \<longrightarrow>
    (\<exists>C. constructAuthorizationContext X key = Inr C \<and> n = recordName C \<and> a = addr \<and>
      (subject_for (subjectPolicy C) user = map_option vk_keyCreatorId (recordKeyResult C) \<or>
        permitted_by deletePolicy (md_getData s n a) (subject_for (subjectPolicy C) user)) \<and>
      allows E C (base_request key user insts (DataDeleteRequest addr
        (markers_or_public (case md_getData s n a of Inr e \<Rightarrow> entry_markers e | Inl _ \<Rightarrow> None)) :: unit action))))"
  using md.record_permitted[of X E s q n a] md.erase_permitted[of X E s key addr user insts n a]
  by (simp add: memory_data_ops_def)

lemma data_change_permitted_witness:
  "permitted_by updatePolicy (md_getData Map.empty ''rec'' ''a'') (Some ''own'') \<and>
   (\<exists>C. constructAuthorizationContext two_records ''rec'' = Inr C \<and>
     allows demo_env C (base_request ''rec'' (Some ''own'') None (DataCreateRequest ''a'' [PUBLIC_READ_MARKER] :: unit action)))"
proof -
  have "case md_getData (snd (recordData two_records demo_env memory_data_ops Map.empty owner_writes)) ''rec'' ''a'' of Inr _ \<Rightarrow> True | Inl _ \<Rightarrow> False"
    by code_simp
  then have "md_getData (snd (recordData two_records demo_env memory_data_ops Map.empty owner_writes)) ''rec'' ''a'' \<noteq>
      md_getData Map.empty ''rec'' ''a''"
    by (auto simp: md_getData_def entries_def split: sum.splits)
  from data_change_permitted[of two_records demo_env Map.empty owner_writes "''rec''" "''a''", THEN conjunct1, THEN mp, OF this]
  show ?thesis by (auto simp: Let_def owner_writes_def md_getData_def entries_def data_action_for_def markers_or_public_def permitted_by_def)
qed

text \<open>C39: An item whose update and delete policies name some users is, after any sequence of requests of other users
  (with any record keys and policies, unless they erase with a key of their own), exactly what it
  was.\<close>

theorem protected_item_stays:
  assumes "outsiders_run memory_data_ops ids s s'" and "md_getData s n a = Inr e"
    and "updatePolicy e = Some (OnlyUsers ids)" and "deletePolicy e = Some (OnlyUsers ids)"
  shows "md_getData s' n a = Inr e"
  using md.outsiders_change_nothing[OF assms(1) _ assms(3,4), of n a] assms(2) by (simp add: memory_data_ops_def)

definition anns_item :: "string data_entry" where
  "anns_item = \<lparr>entry_data = ''x'', publisherId = Some ''ann'', subjectId = Some ''ann'', updatePolicy = Some (OnlyUsers [''ann'']),
     deletePolicy = Some (OnlyUsers [''ann'']), entry_markers = None\<rparr>"

lemma protected_item_stays_witness:
  "md_getData (snd (recordData two_records demo_env memory_data_ops [''rec'' \<mapsto> [(''a'', anns_item)]] owner_writes)) ''rec'' ''a'' = Inr anns_item"
proof (rule protected_item_stays)
  show "outsiders_run memory_data_ops [''ann''] [''rec'' \<mapsto> [(''a'', anns_item)]]
      (snd (recordData two_records demo_env memory_data_ops [''rec'' \<mapsto> [(''a'', anns_item)]] owner_writes))"
    by (rule outsiders_run.recording[OF outsiders_run.start _ prod.collapse[symmetric]]) (simp add: owner_writes_def)
qed (simp_all add: md_getData_def entries_def anns_item_def)

text \<open>The owner of a record, and whoever holds a key for it, is listed every item after the given address that has
  a marker, in the order in which the items were first recorded, if there is any (and no name involved is that of an
  inherited member of objects).\<close>

theorem owner_lists_all:
  assumes "constructAuthorizationContext X key = Inr C"
    and "user = Some (recordOwnerId C) \<or> recordKeyResult C \<noteq> None" and "listed insts = []"
    and "\<exists>i\<in>set (md_listData s (recordName C) addr). markers_or_public (li_markers i) \<noteq> []"
    and "own_name (recordName C)" and "readable user"
    and "\<forall>i\<in>set (md_listData s (recordName C) addr). list_all own_name (markers_or_public (li_markers i))"
  shows "fst (listData X (memory_env rx now p) memory_data_ops s key addr user insts) =
    Done (recordName C, filter (\<lambda>i. item_markers i \<noteq> []) (listed_items (md_listData s (recordName C) addr)))"
proof -
  let ?items = "listed_items (md_listData s (recordName C) addr)"
  have some: "\<exists>i\<in>set ?items. item_markers i \<noteq> []"
    using assms(4) by (auto simp: listed_items_def)
  have "\<exists>r. authorizeRequestUsingContext (memory_env rx now p) C (base_request key user insts (DataListRequest ?items)) = Some (Allowed r) \<and>
      allowedDataItems r = Some (filter (\<lambda>i. item_markers i \<noteq> []) ?items)"
    by (rule mp.admin_lists_all) (use assms(2,3,5-7) some in \<open>auto simp: acts_as_admin_def own_names_def readable_def listed_items_def list_all_iff split: option.splits\<close>)
  with assms(1) show ?thesis by (auto simp: listData_def memory_data_ops_def)
qed

lemma owner_lists_all_witness:
  "fst (listData two_records (memory_env same_text 5 demo_policies) memory_data_ops [''rec'' \<mapsto> [(''a'', anns_item)]] ''rec'' None (Some ''own'') None) =
   Done (''rec'', [\<lparr>address = ''a'', item_markers = [PUBLIC_READ_MARKER], item_data = ''x''\<rparr>])"
proof -
  have l: "md_listData [''rec'' \<mapsto> [(''a'', anns_item)]] (recordName demo_context) None = [\<lparr>li_address = ''a'', li_data = ''x'', li_markers = None\<rparr>]"
    by (simp add: md_listData_def entries_def demo_context_def given_def anns_item_def)
  have own: "own_name (recordName demo_context)" "own_name ''own''" "own_name PUBLIC_READ_MARKER" by code_simp+
  from owner_lists_all[OF demo_rec_context, of "Some ''own''" None "[''rec'' \<mapsto> [(''a'', anns_item)]]" None same_text 5 demo_policies] own
  show ?thesis unfolding l
    by (simp add: readable_def listed_def markers_or_public_def listed_items_def demo_context_def)
qed

text \<open>Listing a record without items, or from the last address on, is denied, even to the owner.\<close>

lemma empty_list_denied:
  assumes "constructAuthorizationContext X key = Inr C" and "md_listData s (recordName C) addr = []" and "listed insts = []"
  shows "fst (listData X E memory_data_ops s key addr user insts) = Failed NotAuthorized (Some NoMarkers)"
proof -
  have "authorizeRequestUsingContext E C (base_request key user insts (DataListRequest (listed_items (md_listData s (recordName C) addr)))) =
      Some (Denied NotAuthorized (Some NoMarkers))"
    by (rule no_items_denied[where items = "listed_items (md_listData s (recordName C) addr)"]) (use assms(2,3) in \<open>simp_all add: listed_items_def\<close>)
  with assms(1) show ?thesis by (simp add: listData_def memory_data_ops_def returnAuthorizationResult_def)
qed

section \<open>Events\<close>

text \<open>After any sequence of increments, by any users, an event that is counted shows its earlier count plus
  the sum of the counts that the successful calls for that event in that record reported; counting
  changes nothing and shows the markers that the event had before the sequence.\<close>

theorem counts_add_up:
  assumes "getCount X E memory_event_ops (run_adds as s) key n user insts = (Done x, s')"
  shows "cr_eventName x = n \<and> s' = run_adds as s \<and>
    cr_count x = ev_count (me_entry s (cr_recordName x) n) + reported (cr_recordName x) n as s \<and>
    cr_markers x = getMarkersOrDefault (ev_markers (me_entry s (cr_recordName x) n))"
  using assms
  by (auto simp: getCount_def memory_event_ops_def Let_def if_allowed_Done run_adds_effect elim!: with_context_Done)

definition owner_adds :: "int \<Rightarrow> add_call" where
  "owner_adds c = \<lparr>ac_records = two_records, ac_policies = demo_env, ac_key = ''rec'', ac_eventName = ''e'', ac_count = c,
     ac_user = Some ''own'', ac_instances = None\<rparr>"

definition bob_adds :: "int \<Rightarrow> add_call" where
  "bob_adds c = (owner_adds c)\<lparr>ac_user := Some ''bob''\<rparr>"

definition three_adds :: "add_call list" where
  "three_adds = [owner_adds 2, bob_adds 10, owner_adds 3]"

lemma counts_add_up_witness:
  "\<exists>x. fst (getCount two_records demo_env memory_event_ops (run_adds three_adds (\<lambda>_. Map.empty)) ''rec'' ''e'' None None) = Done x \<and>
     cr_count x = 5"
proof -
  have "case fst (getCount two_records demo_env memory_event_ops (run_adds three_adds (\<lambda>_. Map.empty)) ''rec'' ''e'' None None) of
      Done x \<Rightarrow> cr_recordName x = ''rec'' | Failed _ _ \<Rightarrow> False"
    by code_simp
  then obtain x s' where x: "getCount two_records demo_env memory_event_ops (run_adds three_adds (\<lambda>_. Map.empty)) ''rec'' ''e'' None None = (Done x, s')"
      "cr_recordName x = ''rec''"
    by (cases "getCount two_records demo_env memory_event_ops (run_adds three_adds (\<lambda>_. Map.empty)) ''rec'' ''e'' None None")
      (auto split: op_result.splits)
  have "reported ''rec'' ''e'' three_adds (\<lambda>_. Map.empty) = 5" by code_simp
  with counts_add_up[OF x(1)] x show ?thesis by (simp add: me_entry_def)
qed

section \<open>Files\<close>

text \<open>The address that is handed out for the upload of a file is the address of that file: from it the record's
  name and the file's name are read back, if the name of the record has no slash.\<close>

theorem upload_address_names_file:
  assumes "authorizeRequest X E (create_file_request key user q) = Allowed a"
    and "recordFile X E M memory_file_ops s key user q = (FileRecorded n p ms, s')"
    and "CHR ''/'' \<notin> set (res_recordName a)" and "res_recordName a \<noteq> []" and "fq_fileSha256Hex q \<noteq> []"
  shows "getFileNameFromUrl memory_file_ops (presigned_url p) = Inr (res_recordName a, n) \<and> s' n \<noteq> None"
proof -
  have signed: "\<not> must_sign_in (subject_userId a) (subject_policy a)"
    using assms(1,2) by (auto simp: recordFile_def create_file_request_def record_allowed_file_def)
  have "file_name_for M q \<noteq> []" using assms(5) by (simp add: file_name_for_def Let_def)
  from url_parsed[OF assms(4) this assms(3)] recordFile_outcome[OF assms(1) signed, of M s] assms(2)
  show ?thesis by (auto simp: getFileNameFromUrl_def memory_file_ops_def split: option.splits if_splits)
qed

definition picture :: file_request where
  "picture = \<lparr>fq_fileSha256Hex = ''abc'', fq_fileByteLength = 10, fq_fileMimeType = ''image/png'', fq_fileDescription = [],
     fq_headers = Map.empty, fq_markers = None, fq_instances = None\<rparr>"

definition png_only :: mime_types_db where
  "png_only = \<lparr>getExtension = (\<lambda>t. if t = ''image/png'' then Some ''png'' else None), getType = (\<lambda>n. Some ''image/png'')\<rparr>"

definition bobs_picture :: memory_files where
  "bobs_picture = snd (recordFile two_records demo_env png_only memory_file_ops Map.empty ''alt'' (Some ''bob'') picture)"

lemma upload_address_names_file_witness:
  "case fst (recordFile two_records demo_env png_only memory_file_ops Map.empty ''alt'' (Some ''bob'') picture) of
     FileRecorded n p ms \<Rightarrow> getFileNameFromUrl memory_file_ops (presigned_url p) = Inr (''alt'', n)
   | _ \<Rightarrow> False"
proof -
  let ?r = "recordFile two_records demo_env png_only memory_file_ops Map.empty ''alt'' (Some ''bob'') picture"
  have "case authorizeRequest two_records demo_env (create_file_request ''alt'' (Some ''bob'') picture) of
      Allowed a \<Rightarrow> res_recordName a = ''alt'' | Denied _ _ \<Rightarrow> False" by code_simp
  then obtain a where a: "authorizeRequest two_records demo_env (create_file_request ''alt'' (Some ''bob'') picture) = Allowed a"
      "res_recordName a = ''alt''"
    by (auto split: authorize_result.splits)
  have "case fst ?r of FileRecorded n p ms \<Rightarrow> True | _ \<Rightarrow> False" by code_simp
  then obtain n p ms s' where r: "?r = (FileRecorded n p ms, s')"
    by (cases ?r) (auto split: record_file_result.splits)
  from upload_address_names_file[OF a(1) r] a(2) r show ?thesis by (simp add: picture_def)
qed

text \<open>C40: The life of a file, for calls that name the record it belongs to: recording adds it, not yet uploaded and in that
  record, exactly if no file has its name and the creation of a file of that size, type and markers is authorized
  for a signed-in user or a key that needs none; it is marked as uploaded by the notice of its upload; an update
  replaces its markers, and erasing removes it, exactly if the call is authorized for the record of the file, to add
  and remove those markers or to delete it, again for a signed-in user or such a key; and no call changes a file in
  any other way or changes any file but the one it names.\<close>

theorem file_lifecycle:
  assumes "names_own_record op s"
  shows "run_file_op op s n = file_after op n (s n)"
  by (rule file_after_call[OF assms])

definition bobs_call :: file_call where
  "bobs_call = \<lparr>fc_records = two_records, fc_policies = demo_env, fc_mime = png_only, fc_key = ''alt'', fc_user = Some ''bob''\<rparr>"

lemma file_lifecycle_witness:
  "bobs_picture ''abc.png'' \<noteq> None \<and> run_file_op (EraseFile bobs_call ''abc.png'' None) bobs_picture ''abc.png'' = None"
proof
  show "bobs_picture ''abc.png'' \<noteq> None" by code_simp
  have own: "names_own_record (EraseFile bobs_call ''abc.png'' None) bobs_picture" by code_simp
  have "file_after (EraseFile bobs_call ''abc.png'' None) ''abc.png'' (bobs_picture ''abc.png'') = None" by code_simp
  then show "run_file_op (EraseFile bobs_call ''abc.png'' None) bobs_picture ''abc.png'' = None"
    by (simp only: file_lifecycle[OF own])
qed

text \<open>The store in memory does not tell the files of different records apart: the owner of one record erases a file of another.\<close>

lemma foreign_file_erased:
  "bobs_picture ''abc.png'' \<noteq> None \<and>
   snd (eraseFile two_records demo_env png_only memory_file_ops bobs_picture ''rec'' ''abc.png'' (Some ''own'') None) ''abc.png'' = None"
  by code_simp

text \<open>What was uploaded stays, with everything but its markers, until it is erased.\<close>

lemma uploaded_file_stays:
  assumes "s n = Some f" and "sf_uploaded f" and "\<forall>op\<in>set ops. \<not> erases n op"
  shows "\<exists>g. run_file_ops ops s n = Some g \<and> same_upload f g"
  using run_upload[where s = s and n = n and g = f and f = f, OF assms(3,1)] assms(2) by (simp add: same_upload_def)

end
