(* ===== verification/RepoObjects.thy ===== *)
theory RepoObjects
  imports Weave2Index RecordKeys
begin

text \<open>
  The objects of a causal repository, commits, indexes and atoms, each stored under its hash, and the
  branches that point to them: \<^verbatim>\<open>src/src/causal-trees/core2/CausalRepoObject.ts\<close>, with the interface of a store
  (\<^verbatim>\<open>CausalRepoStore.ts\<close>) and the one in memory (\<^verbatim>\<open>MemoryCausalRepoStore.ts\<close>).

  \<^verbatim>\<open>getHash\<close> and \<^verbatim>\<open>toISOString\<close> are parameters; a time is a number. A call of a store that throws is \<open>None\<close>.
\<close>

section \<open>Objects\<close>

record repo_commit =
  commit_hash :: string
  commit_message :: string
  commit_time :: int
  commit_index :: string
  previousCommit :: "string option"

datatype 'v repo_object = RepoCommit repo_commit | RepoIndex atom_index | RepoAtom "'v atom"

record repo_branch =
  branch_name :: string
  branch_hash :: "string option"
  branch_time :: "int option"

record repo_reflog =
  log_branch :: string
  log_hash :: "string option"
  log_time :: int

record repo_sitelog =
  sl_branch :: string
  sl_site :: string
  sl_time :: int
  sl_type :: "string option"
  sl_reason :: "string option"

record branch_settings =
  bs_branch :: string
  bs_time :: int
  bs_passwordHash :: "string option"

fun getObjectHash :: "'v repo_object option \<Rightarrow> string option" where
  "getObjectHash None = None"
| "getObjectHash (Some (RepoAtom a)) = Some (ahash a)"
| "getObjectHash (Some (RepoIndex i)) = Some (index_hash i)"
| "getObjectHash (Some (RepoCommit c)) = Some (commit_hash c)"

definition reflog :: "int \<Rightarrow> repo_branch \<Rightarrow> repo_reflog" where
  "reflog now b = \<lparr>log_branch = branch_name b, log_hash = branch_hash b, log_time = now\<rparr>"

definition sitelog :: "int \<Rightarrow> string \<Rightarrow> string \<Rightarrow> string option \<Rightarrow> string option \<Rightarrow> repo_sitelog" where
  "sitelog now b st type why = \<lparr>sl_branch = b, sl_site = st, sl_time = now, sl_type = type, sl_reason = why\<rparr>"

definition branchSettings :: "int \<Rightarrow> string \<Rightarrow> string option \<Rightarrow> branch_settings" where
  "branchSettings now b passwordHash = \<lparr>bs_branch = b, bs_time = now, bs_passwordHash = passwordHash\<rparr>"

record repo_hasher =
  hash_list :: "string list \<Rightarrow> string"
  hash_parts :: "string option list \<Rightarrow> string"
  toISOString :: "int \<Rightarrow> string"

definition repoCommit :: "repo_hasher \<Rightarrow> string \<Rightarrow> int \<Rightarrow> string \<Rightarrow> string option \<Rightarrow> repo_commit" where
  "repoCommit H message time indexHash previous =
     \<lparr>commit_hash = hash_parts H [Some message, Some (toISOString H time), Some indexHash, previous],
      commit_message = message, commit_time = time, commit_index = indexHash, previousCommit = previous\<rparr>"

text \<open>\<^verbatim>\<open>commit\<close>, given the index and the previous commit as objects.\<close>

definition make_commit :: "repo_hasher \<Rightarrow> string \<Rightarrow> int \<Rightarrow> atom_index \<Rightarrow> repo_commit option \<Rightarrow> repo_commit" where
  "make_commit H message time idx previous = repoCommit H message time (index_hash idx) (map_option commit_hash previous)"

definition repo_index :: "repo_hasher \<Rightarrow> 'v atom list \<Rightarrow> atom_index" where
  "repo_index H as = createIndex (hash_list H) as"

section \<open>The store\<close>

text \<open>
  A store of objects, and one that also holds branches. \<^verbatim>\<open>loadIndex\<close> and \<^verbatim>\<open>storeIndex\<close> are optional. In the
  lists of objects, \<open>None\<close> is an object that is not there.
\<close>

record ('t, 'v) object_ops =
  rs_getObject :: "'t \<Rightarrow> string option \<Rightarrow> 'v repo_object option option"
  rs_getObjects :: "'t \<Rightarrow> string \<Rightarrow> string list \<Rightarrow> 'v repo_object option list option"
  rs_storeObjects :: "'t \<Rightarrow> string \<Rightarrow> 'v repo_object list \<Rightarrow> 't option"
  rs_loadIndex :: "('t \<Rightarrow> string \<Rightarrow> atom_index \<Rightarrow> 'v repo_object option list option) option"
  rs_storeIndex :: "('t \<Rightarrow> string \<Rightarrow> string \<Rightarrow> 'v repo_object list \<Rightarrow> 't option) option"

record ('t, 'v) repo_ops = "('t, 'v) object_ops" +
  rs_getBranches :: "'t \<Rightarrow> string option \<Rightarrow> repo_branch list option"
  rs_saveBranch :: "int \<Rightarrow> 't \<Rightarrow> repo_branch \<Rightarrow> 't option"
  rs_deleteBranch :: "'t \<Rightarrow> repo_branch \<Rightarrow> 't option"

record 'v memory_repo =
  mr_map :: "string \<Rightarrow> 'v repo_object option"
  mr_headsMap :: "string \<Rightarrow> string \<Rightarrow> 'v repo_object option"
  mr_indexes :: "string \<Rightarrow> 'v repo_object list option"
  mr_branches :: "repo_branch list"
  mr_reflog :: "string \<Rightarrow> repo_reflog list option"
  mr_sitelog :: "string \<Rightarrow> repo_sitelog list option"
  mr_settings :: "string \<Rightarrow> branch_settings option"

definition new_memory_repo :: "'v memory_repo" where
  "new_memory_repo = \<lparr>mr_map = Map.empty, mr_headsMap = (\<lambda>_. Map.empty), mr_indexes = Map.empty, mr_branches = [],
     mr_reflog = Map.empty, mr_sitelog = Map.empty, mr_settings = Map.empty\<rparr>"

definition mr_getBranchSettings :: "'v memory_repo \<Rightarrow> string \<Rightarrow> branch_settings option" where
  "mr_getBranchSettings s b = mr_settings s b"

definition mr_saveSettings :: "'v memory_repo \<Rightarrow> branch_settings \<Rightarrow> 'v memory_repo" where
  "mr_saveSettings s x = s\<lparr>mr_settings := (mr_settings s)(bs_branch x \<mapsto> x)\<rparr>"

definition mr_getReflog :: "'v memory_repo \<Rightarrow> string \<Rightarrow> repo_reflog list" where
  "mr_getReflog s b = (case mr_reflog s b of None \<Rightarrow> [] | Some l \<Rightarrow> l)"

definition mr_getSitelog :: "'v memory_repo \<Rightarrow> string \<Rightarrow> repo_sitelog list" where
  "mr_getSitelog s b = (case mr_sitelog s b of None \<Rightarrow> [] | Some l \<Rightarrow> l)"

definition mr_logSite ::
    "int \<Rightarrow> 'v memory_repo \<Rightarrow> string \<Rightarrow> string \<Rightarrow> string option \<Rightarrow> string option \<Rightarrow> repo_sitelog \<times> 'v memory_repo" where
  "mr_logSite now s b st type why =
     (let newLog = sitelog now b st type why
      in (newLog, s\<lparr>mr_sitelog := (mr_sitelog s)(b \<mapsto> newLog # mr_getSitelog s b)\<rparr>))"

definition mr_getObjects :: "'v memory_repo \<Rightarrow> string \<Rightarrow> string list \<Rightarrow> 'v repo_object option list" where
  "mr_getObjects s br keys = map (mr_headsMap s br) keys"

definition mr_getObject :: "'v memory_repo \<Rightarrow> string option \<Rightarrow> 'v repo_object option" where
  "mr_getObject s key = Option.bind key (mr_map s)"

text \<open>An object that is stored has a hash; the objects are stored one after the other.\<close>

fun mr_storeObjects :: "'v memory_repo \<Rightarrow> string \<Rightarrow> 'v repo_object list \<Rightarrow> 'v memory_repo" where
  "mr_storeObjects s br [] = s"
| "mr_storeObjects s br (x # xs) =
     (let k = the (getObjectHash (Some x)) in
      mr_storeObjects
        (s\<lparr>mr_map := (mr_map s)(k \<mapsto> x), mr_headsMap := (mr_headsMap s)(br := (mr_headsMap s br)(k \<mapsto> x))\<rparr>) br xs)"

definition mr_loadIndex :: "'v memory_repo \<Rightarrow> string \<Rightarrow> atom_index \<Rightarrow> 'v repo_object option list" where
  "mr_loadIndex s br idx =
     (case mr_indexes s (index_hash idx) of
        None \<Rightarrow> mr_getObjects s br (getAtomHashes (index_atoms idx))
      | Some data \<Rightarrow> map Some data)"

definition mr_storeIndex :: "'v memory_repo \<Rightarrow> string \<Rightarrow> string \<Rightarrow> 'v repo_object list \<Rightarrow> 'v memory_repo" where
  "mr_storeIndex s br i xs = mr_storeObjects (s\<lparr>mr_indexes := (mr_indexes s)(i \<mapsto> xs)\<rparr>) br xs"

text \<open>All branches whose names start with the prefix, sorted by name.\<close>

definition mr_getBranches :: "'v memory_repo \<Rightarrow> string option \<Rightarrow> repo_branch list" where
  "mr_getBranches s prefix =
     sort_key branch_name (filter (\<lambda>b. \<not> given prefix \<or> startsWith (branch_name b) (the prefix)) (mr_branches s))"

fun replace_branch :: "repo_branch \<Rightarrow> repo_branch list \<Rightarrow> repo_branch list" where
  "replace_branch b [] = [b]"
| "replace_branch b (x # xs) = (if branch_name x = branch_name b then b # xs else x # replace_branch b xs)"

definition mr_saveBranch :: "int \<Rightarrow> 'v memory_repo \<Rightarrow> repo_branch \<Rightarrow> 'v memory_repo" where
  "mr_saveBranch now s b =
     s\<lparr>mr_branches := replace_branch b (mr_branches s),
       mr_reflog := (mr_reflog s)(branch_name b \<mapsto> reflog now b # mr_getReflog s (branch_name b))\<rparr>"

fun delete_branch :: "string \<Rightarrow> repo_branch list \<Rightarrow> repo_branch list" where
  "delete_branch n [] = []"
| "delete_branch n (x # xs) = (if branch_name x = n then xs else x # delete_branch n xs)"

definition mr_deleteBranch :: "'v memory_repo \<Rightarrow> repo_branch \<Rightarrow> 'v memory_repo" where
  "mr_deleteBranch s b = s\<lparr>mr_branches := delete_branch (branch_name b) (mr_branches s)\<rparr>"

definition memory_repo_ops :: "('v memory_repo, 'v) repo_ops" where
  "memory_repo_ops =
     \<lparr>rs_getObject = (\<lambda>s k. Some (mr_getObject s k)),
      rs_getObjects = (\<lambda>s h ks. Some (mr_getObjects s h ks)),
      rs_storeObjects = (\<lambda>s h xs. Some (mr_storeObjects s h xs)),
      rs_loadIndex = Some (\<lambda>s h i. Some (mr_loadIndex s h i)),
      rs_storeIndex = Some (\<lambda>s h i xs. Some (mr_storeIndex s h i xs)),
      rs_getBranches = (\<lambda>s p. Some (mr_getBranches s p)),
      rs_saveBranch = (\<lambda>now s b. Some (mr_saveBranch now s b)),
      rs_deleteBranch = (\<lambda>s b. Some (mr_deleteBranch s b))\<rparr>"

section \<open>Stores made of two stores\<close>

text \<open>\<^verbatim>\<open>CombinedCausalRepoStore\<close>: branches in one store, objects in another.\<close>

definition combined_store ::
    "('b, 'v) repo_ops \<Rightarrow> ('t, 'v) object_ops \<Rightarrow> ('b \<times> 't, 'v) repo_ops" where
  "combined_store B Obj =
     \<lparr>rs_getObject = (\<lambda>(b, x) k. rs_getObject Obj x k),
      rs_getObjects = (\<lambda>(b, x) h ks. rs_getObjects Obj x h ks),
      rs_storeObjects = (\<lambda>(b, x) h xs. map_option (Pair b) (rs_storeObjects Obj x h xs)),
      rs_loadIndex = map_option (\<lambda>f (b, x) h i. f x h i) (rs_loadIndex Obj),
      rs_storeIndex = map_option (\<lambda>f (b, x) h i xs. map_option (Pair b) (f x h i xs)) (rs_storeIndex Obj),
      rs_getBranches = (\<lambda>(b, x) p. rs_getBranches B b p),
      rs_saveBranch = (\<lambda>now (b, x) r. map_option (\<lambda>b'. (b', x)) (rs_saveBranch B now b r)),
      rs_deleteBranch = (\<lambda>(b, x) r. map_option (\<lambda>b'. (b', x)) (rs_deleteBranch B b r))\<rparr>"

text \<open>
  \<^verbatim>\<open>FallbackCausalObjectStore\<close>: what the first store does not have is read from the second; everything is
  written to the first. A \<^verbatim>\<open>loadIndex\<close> that is missing cannot be called.
\<close>

definition call_loadIndex :: "('t, 'v) object_ops \<Rightarrow> 't \<Rightarrow> string \<Rightarrow> atom_index \<Rightarrow> 'v repo_object option list option" where
  "call_loadIndex Obj x h i = Option.bind (rs_loadIndex Obj) (\<lambda>f. f x h i)"

definition fallback_store ::
    "('t, 'v) object_ops \<Rightarrow> ('u, 'v) object_ops \<Rightarrow> ('t \<times> 'u, 'v) object_ops" where
  "fallback_store A B =
     \<lparr>rs_getObject = (\<lambda>(x, y) k. do { r \<leftarrow> rs_getObject A x k; if r \<noteq> None then Some r else rs_getObject B y k }),
      rs_getObjects = (\<lambda>(x, y) h ks. do {
        r \<leftarrow> rs_getObjects A x h ks; if list_all Option.is_none r then rs_getObjects B y h ks else Some r }),
      rs_storeObjects = (\<lambda>(x, y) h xs. map_option (\<lambda>x'. (x', y)) (rs_storeObjects A x h xs)),
      rs_loadIndex = Some (\<lambda>(x, y) h i. do {
        r \<leftarrow> call_loadIndex A x h i; if r = [] then call_loadIndex B y h i else Some r }),
      rs_storeIndex = Some (\<lambda>(x, y) h i xs.
        do { f \<leftarrow> rs_storeIndex A; map_option (\<lambda>x'. (x', y)) (f x h i xs) })\<rparr>"

definition memory_object_ops :: "('v memory_repo, 'v) object_ops" where
  "memory_object_ops = object_ops.truncate memory_repo_ops"

end
