(* ===== verification/CausalRepo.thy ===== *)
theory CausalRepo
  imports RepoObjects
begin

text \<open>
  Causal repositories, which keep the history of a space like a version control system:
  \<^verbatim>\<open>src/src/causal-trees/core2/CausalRepo.ts\<close>. Atoms are added to and removed from a working set, a commit
  stores the set and moves the branch that is checked out, and a branch or an older commit can be
  checked out.

  A call of the store that throws, and the errors that the code throws, end an operation; what was stored
  before stays stored. An operation on a repository returns its result with the store and the repository.
  A \<^verbatim>\<open>Map\<close> is an association list in the order of insertion.
\<close>

datatype repo_error =
    StoreError
  | BadData
  | RepoTypeError
  | MissingHash string
  | BranchNotFound string
  | BranchExists
  | NoHead
  | WeaveError js_error

section \<open>Storing and loading\<close>

datatype 'v storable = StoreAtom "'v atom" | StoreIndex atom_index | StoreObject "'v repo_object"

fun stored_atoms :: "'v storable list \<Rightarrow> 'v repo_object list" where
  "stored_atoms [] = []"
| "stored_atoms (StoreAtom a # xs) = RepoAtom a # stored_atoms xs"
| "stored_atoms (_ # xs) = stored_atoms xs"

fun stored_others :: "'v storable list \<Rightarrow> 'v repo_object list" where
  "stored_others [] = []"
| "stored_others (StoreAtom a # xs) = stored_others xs"
| "stored_others (StoreIndex i # xs) = RepoIndex i # stored_others xs"
| "stored_others (StoreObject x # xs) = x # stored_others xs"

fun as_objects :: "'v storable \<Rightarrow> 'v repo_object" where
  "as_objects (StoreAtom a) = RepoAtom a"
| "as_objects (StoreIndex i) = RepoIndex i"
| "as_objects (StoreObject x) = x"

text \<open>With an index the atoms are stored for it, otherwise with the other objects, in their order.\<close>

definition storeData ::
    "('t, 'v) repo_ops \<Rightarrow> 't \<Rightarrow> string \<Rightarrow> string option \<Rightarrow> 'v storable list \<Rightarrow> (repo_error + unit) \<times> 't" where
  "storeData ops s br idx data =
     (let store = (\<lambda>s xs. case rs_storeObjects ops s br xs of None \<Rightarrow> (Inl StoreError, s) | Some s' \<Rightarrow> (Inr (), s')) in
      if given idx then
        (case rs_storeIndex ops of
           None \<Rightarrow> (Inl RepoTypeError, s)
         | Some storeIndex \<Rightarrow>
             (case storeIndex s br (the idx) (stored_atoms data) of
                None \<Rightarrow> (Inl StoreError, s)
              | Some s1 \<Rightarrow> store s1 (stored_others data)))
      else store s (map as_objects data))"

type_synonym 'v atom_map = "(string \<times> 'v atom) list"

definition atomMap :: "'v atom list \<Rightarrow> 'v atom_map" where
  "atomMap as = fold (\<lambda>a m. AList.update (ahash a) a m) as []"

record 'v commit_data =
  cd_commit :: "repo_commit option"
  cd_index :: atom_index
  cd_atoms :: "'v atom_map"

text \<open>The objects must be atoms; reading the type of one that is not there throws.\<close>

fun read_atoms :: "'v repo_object option list \<Rightarrow> repo_error + 'v atom list" where
  "read_atoms [] = Inr []"
| "read_atoms (x # xs) =
     (case x of
        None \<Rightarrow> Inl RepoTypeError
      | Some (RepoAtom a) \<Rightarrow> map_sum id (Cons a) (read_atoms xs)
      | Some _ \<Rightarrow> Inl BadData)"

definition loadAtomsForHeadOrIndex ::
    "('t, 'v) repo_ops \<Rightarrow> 't \<Rightarrow> string \<Rightarrow> atom_index \<Rightarrow> repo_error + 'v atom_map" where
  "loadAtomsForHeadOrIndex ops s br idx =
     (case (case rs_loadIndex ops of
              Some loadIndex \<Rightarrow> loadIndex s br idx
            | None \<Rightarrow> rs_getObjects ops s br (getAtomHashes (index_atoms idx))) of
        None \<Rightarrow> Inl StoreError
      | Some repoAtoms \<Rightarrow> map_sum id atomMap (read_atoms repoAtoms))"

definition loadIndex ::
    "('t, 'v) repo_ops \<Rightarrow> 't \<Rightarrow> string \<Rightarrow> repo_commit option \<Rightarrow> atom_index \<Rightarrow> repo_error + 'v commit_data" where
  "loadIndex ops s br c idx =
     map_sum id (\<lambda>as. \<lparr>cd_commit = c, cd_index = idx, cd_atoms = as\<rparr>) (loadAtomsForHeadOrIndex ops s br idx)"

definition loadCommit :: "('t, 'v) repo_ops \<Rightarrow> 't \<Rightarrow> string \<Rightarrow> repo_commit \<Rightarrow> repo_error + 'v commit_data" where
  "loadCommit ops s br c =
     (case rs_getObject ops s (Some (commit_index c)) of
        None \<Rightarrow> Inl StoreError
      | Some None \<Rightarrow> Inl RepoTypeError
      | Some (Some (RepoIndex idx)) \<Rightarrow> loadIndex ops s br (Some c) idx
      | Some (Some _) \<Rightarrow> Inl BadData)"

text \<open>A branch that points to nothing, or to an atom, has no data.\<close>

definition loadBranch :: "('t, 'v) repo_ops \<Rightarrow> 't \<Rightarrow> repo_branch \<Rightarrow> repo_error + 'v commit_data option" where
  "loadBranch ops s b =
     (case rs_getObject ops s (branch_hash b) of
        None \<Rightarrow> Inl StoreError
      | Some (Some (RepoCommit c)) \<Rightarrow> map_sum id Some (loadCommit ops s (branch_name b) c)
      | Some (Some (RepoIndex idx)) \<Rightarrow> map_sum id Some (loadIndex ops s (branch_name b) None idx)
      | Some _ \<Rightarrow> Inr None)"

fun get_all :: "('t, 'v) repo_ops \<Rightarrow> 't \<Rightarrow> string list \<Rightarrow> 'v repo_object option list option" where
  "get_all ops s [] = Some []"
| "get_all ops s (h # hs) = do { x \<leftarrow> rs_getObject ops s (Some h); xs \<leftarrow> get_all ops s hs; Some (x # xs) }"

definition loadDiff :: "('t, 'v) repo_ops \<Rightarrow> 't \<Rightarrow> atom_index_diff \<Rightarrow> repo_error + 'v atom_index_full_diff" where
  "loadDiff ops s d =
     (case get_all ops s (getAtomHashes (additions d)) of
        None \<Rightarrow> Inl StoreError
      | Some objs \<Rightarrow> map_sum id (\<lambda>as. \<lparr>full_additions = map snd (atomMap as), full_deletions = deletions d\<rparr>) (read_atoms objs))"

section \<open>Differences and weaves\<close>

text \<open>\<^verbatim>\<open>applyDiff\<close>: the outer option is that of the heap of the weave.\<close>

fun insert_added :: "'v hasher \<Rightarrow> 'v weave \<Rightarrow> 'v atom list \<Rightarrow> ((repo_error + unit) \<times> 'v weave) option" where
  "insert_added H w [] = Some (Inr (), w)"
| "insert_added H w (a # as) = do {
     (r, w1) \<leftarrow> weave_insert H w a;
     case r of Inl e \<Rightarrow> Some (Inl (WeaveError e), w1) | Inr _ \<Rightarrow> insert_added H w1 as }"

fun remove_deleted :: "'v weave \<Rightarrow> atom_hash_list \<Rightarrow> 'v weave option" where
  "remove_deleted w [] = Some w"
| "remove_deleted w ((h, i) # ds) =
     (case idMap w i of
        None \<Rightarrow> remove_deleted w ds
      | Some n \<Rightarrow> do {
          a \<leftarrow> node_at w n;
          if ahash a = h then do { (_, w1) \<leftarrow> weave_remove w (Some a); remove_deleted w1 ds } else remove_deleted w ds })"

definition applyDiff :: "'v hasher \<Rightarrow> 'v weave \<Rightarrow> 'v atom_index_full_diff \<Rightarrow> ((repo_error + unit) \<times> 'v weave) option" where
  "applyDiff H w d = do {
     (r, w1) \<leftarrow> insert_added H w (full_additions d);
     case r of
       Inl e \<Rightarrow> Some (Inl e, w1)
     | Inr _ \<Rightarrow> do { w2 \<leftarrow> remove_deleted w1 (full_deletions d); Some (Inr (), w2) } }"

text \<open>Missing atoms are \<^verbatim>\<open>undefined\<close>, whose hash \<^verbatim>\<open>atomMap\<close> cannot read.\<close>

definition pick_atoms :: "'v atom_map \<Rightarrow> string list \<Rightarrow> repo_error + 'v atom_map" where
  "pick_atoms m hs = (if list_all (\<lambda>h. map_of m h \<noteq> None) hs then Inr (atomMap (map (\<lambda>h. the (map_of m h)) hs)) else Inl RepoTypeError)"

definition calculateCommitDiff ::
    "'v commit_data option \<Rightarrow> 'v commit_data option \<Rightarrow> repo_error + 'v atom_map \<times> 'v atom_map" where
  "calculateCommitDiff before after =
     (case (before, after) of
        (None, Some b) \<Rightarrow> Inr (cd_atoms b, [])
      | (Some a, None) \<Rightarrow> Inr ([], cd_atoms a)
      | (None, None) \<Rightarrow> Inl RepoTypeError
      | (Some a, Some b) \<Rightarrow>
          (let d = calculateDiff (cd_index a) (cd_index b) in
           case pick_atoms (cd_atoms b) (map fst (additions d)) of
             Inl e \<Rightarrow> Inl e
           | Inr added \<Rightarrow>
               (case pick_atoms (cd_atoms a) (map fst (deletions d)) of
                  Inl e \<Rightarrow> Inl e | Inr deleted \<Rightarrow> Inr (added, deleted))))"

section \<open>Branches and history\<close>

definition updateBranch :: "int \<Rightarrow> ('t, 'v) repo_ops \<Rightarrow> 't \<Rightarrow> repo_branch \<Rightarrow> (repo_error + unit) \<times> 't" where
  "updateBranch now ops s b =
     (case rs_getObject ops s (branch_hash b) of
        None \<Rightarrow> (Inl StoreError, s)
      | Some None \<Rightarrow> (Inl (MissingHash (branch_name b)), s)
      | Some (Some _) \<Rightarrow> (case rs_saveBranch ops now s b of None \<Rightarrow> (Inl StoreError, s) | Some s' \<Rightarrow> (Inr (), s')))"

definition listBranches :: "('t, 'v) repo_ops \<Rightarrow> 't \<Rightarrow> string option \<Rightarrow> repo_branch list option" where
  "listBranches ops s prefix = rs_getBranches ops s prefix"

text \<open>The chain of commits from a hash on; a loop over a chain that does not end does not return (\<open>None\<close>).\<close>

partial_function (option) listCommits :: "('t, 'v) repo_ops \<Rightarrow> 't \<Rightarrow> string option \<Rightarrow> (repo_error + repo_commit list) option" where
  "listCommits ops s hash =
     (if \<not> given hash then Some (Inr [])
      else (case rs_getObject ops s hash of
         None \<Rightarrow> Some (Inl StoreError)
       | Some (Some (RepoCommit c)) \<Rightarrow> do {
           r \<leftarrow> listCommits ops s (previousCommit c);
           Some (map_sum id (Cons c) r) }
       | Some _ \<Rightarrow> Some (Inr [])))"

declare listCommits.simps [code]

section \<open>The repository\<close>

record 'v causal_repo =
  repo_stage :: "'v atom_index_full_diff"
  repo_atoms :: "'v atom_map"
  repo_head :: "repo_branch option"
  currentCommit :: "'v commit_data option"

definition empty_stage :: "'v atom_index_full_diff" where
  "empty_stage = \<lparr>full_additions = [], full_deletions = []\<rparr>"

definition setCurrentCommit :: "'v commit_data option \<Rightarrow> 'v causal_repo \<Rightarrow> 'v causal_repo" where
  "setCurrentCommit c R =
     R\<lparr>currentCommit := c, repo_stage := empty_stage, repo_atoms := (case c of None \<Rightarrow> [] | Some d \<Rightarrow> cd_atoms d)\<rparr>"

definition new_repo :: "'v causal_repo" where
  "new_repo = \<lparr>repo_stage = empty_stage, repo_atoms = [], repo_head = None, currentCommit = None\<rparr>"

definition repo_getAtoms :: "'v causal_repo \<Rightarrow> 'v atom list" where
  "repo_getAtoms R = map snd (repo_atoms R)"

definition hasChanges :: "'v causal_repo \<Rightarrow> bool" where
  "hasChanges R \<longleftrightarrow> full_additions (repo_stage R) \<noteq> [] \<or> full_deletions (repo_stage R) \<noteq> []"

text \<open>
  \<open>stage_add\<close> and \<open>stage_remove\<close> are the bodies of the loops of \<^verbatim>\<open>addMany\<close> and \<^verbatim>\<open>removeMany\<close>. \<^verbatim>\<open>indexOf\<close> finds
  the object itself: the atom of the working set with that hash.
\<close>

definition stage_add :: "'v atom \<Rightarrow> 'v causal_repo \<Rightarrow> 'v causal_repo" where
  "stage_add a R =
     R\<lparr>repo_stage := \<lparr>full_additions = full_additions (repo_stage R) @ [a],
                     full_deletions = AList.delete (ahash a) (full_deletions (repo_stage R))\<rparr>,
       repo_atoms := AList.update (ahash a) a (repo_atoms R)\<rparr>"

definition stage_remove :: "string \<Rightarrow> 'v atom \<Rightarrow> 'v causal_repo \<Rightarrow> 'v causal_repo" where
  "stage_remove h a R =
     R\<lparr>repo_stage := \<lparr>full_additions = remove1 a (full_additions (repo_stage R)),
                     full_deletions = AList.update h (atomIdToString (aid a)) (full_deletions (repo_stage R))\<rparr>,
       repo_atoms := AList.delete h (repo_atoms R)\<rparr>"

text \<open>The atoms that were really added, with the repository.\<close>

fun addMany :: "'v atom list \<Rightarrow> 'v causal_repo \<Rightarrow> 'v atom list \<times> 'v causal_repo" where
  "addMany [] R = ([], R)"
| "addMany (a # as) R =
     (if map_of (repo_atoms R) (ahash a) = None then
        (let (added, R') = addMany as (stage_add a R) in (a # added, R'))
      else addMany as R)"

fun removeMany :: "string list \<Rightarrow> 'v causal_repo \<Rightarrow> 'v atom list \<times> 'v causal_repo" where
  "removeMany [] R = ([], R)"
| "removeMany (h # hs) R =
     (case map_of (repo_atoms R) h of
        None \<Rightarrow> removeMany hs R
      | Some a \<Rightarrow> (let (removed, R') = removeMany hs (stage_remove h a R) in (a # removed, R')))"

section \<open>Moving the head\<close>

definition saveHead ::
    "int \<Rightarrow> ('t, 'v) repo_ops \<Rightarrow> 't \<Rightarrow> 'v causal_repo \<Rightarrow> repo_branch \<Rightarrow> (repo_error + unit) \<times> 't \<times> 'v causal_repo" where
  "saveHead now ops s R b =
     (case rs_saveBranch ops now s b of
        None \<Rightarrow> (Inl StoreError, s, R)
      | Some s' \<Rightarrow> (Inr (), s', R\<lparr>repo_head := Some b\<rparr>))"

definition checkoutHead :: "('t, 'v) repo_ops \<Rightarrow> 't \<Rightarrow> 'v causal_repo \<Rightarrow> (repo_error + unit) \<times> 't \<times> 'v causal_repo" where
  "checkoutHead ops s R =
     (case repo_head R of
        None \<Rightarrow> (Inr (), s, setCurrentCommit None R)
      | Some b \<Rightarrow>
          (case loadBranch ops s b of
             Inl e \<Rightarrow> (Inl e, s, R)
           | Inr c \<Rightarrow> (Inr (), s, setCurrentCommit c R)))"

definition moveHead ::
    "int \<Rightarrow> ('t, 'v) repo_ops \<Rightarrow> 't \<Rightarrow> 'v causal_repo \<Rightarrow> repo_branch \<Rightarrow> (repo_error + unit) \<times> 't \<times> 'v causal_repo" where
  "moveHead now ops s R b =
     (case saveHead now ops s R b of
        (Inl e, s1, R1) \<Rightarrow> (Inl e, s1, R1)
      | (Inr _, s1, R1) \<Rightarrow> checkoutHead ops s1 R1)"

text \<open>The result is \<open>None\<close> when there is nothing to commit. Without a head, reading its name throws.\<close>

definition repo_commit_changes ::
    "repo_hasher \<Rightarrow> int \<Rightarrow> ('t, 'v) repo_ops \<Rightarrow> 't \<Rightarrow> 'v causal_repo \<Rightarrow> string \<Rightarrow> int
      \<Rightarrow> (repo_error + repo_commit option) \<times> 't \<times> 'v causal_repo" where
  "repo_commit_changes H now ops s R message time =
     (if \<not> hasChanges R then (Inr None, s, R)
      else
        (let as = repo_getAtoms R;
             idx = repo_index H as;
             c = make_commit H message time idx (Option.bind (currentCommit R) cd_commit) in
         case repo_head R of
           None \<Rightarrow> (Inl RepoTypeError, s, R)
         | Some b \<Rightarrow>
             (case storeData ops s (branch_name b) (Some (index_hash idx))
                 (map StoreAtom as @ [StoreObject (RepoIndex idx), StoreObject (RepoCommit c)]) of
                (Inl e, s1) \<Rightarrow> (Inl e, s1, R)
              | (Inr _, s1) \<Rightarrow>
                  (case moveHead now ops s1 R
                      \<lparr>branch_name = branch_name b, branch_hash = Some (commit_hash c), branch_time = Some now\<rparr> of
                     (Inl e, s2, R2) \<Rightarrow> (Inl e, s2, R2)
                   | (Inr _, s2, R2) \<Rightarrow> (Inr (Some c), s2, R2)))))"

definition createBranch ::
    "int \<Rightarrow> ('t, 'v) repo_ops \<Rightarrow> 't \<Rightarrow> 'v causal_repo \<Rightarrow> string \<Rightarrow> string option
      \<Rightarrow> (repo_error + unit) \<times> 't \<times> 'v causal_repo" where
  "createBranch now ops s R name hash =
     (case rs_getBranches ops s (Some name) of
        None \<Rightarrow> (Inl StoreError, s, R)
      | Some branches \<Rightarrow>
          if branches \<noteq> [] then (Inl BranchExists, s, R)
          else moveHead now ops s R
            \<lparr>branch_name = name, branch_hash = (if given hash then hash else None), branch_time = Some now\<rparr>)"

text \<open>\<open>create_at\<close> is \<^verbatim>\<open>options.createIfDoesntExist\<close>: the hash that a new branch gets.\<close>

definition checkout ::
    "int \<Rightarrow> ('t, 'v) repo_ops \<Rightarrow> 't \<Rightarrow> 'v causal_repo \<Rightarrow> string \<Rightarrow> string option option
      \<Rightarrow> (repo_error + unit) \<times> 't \<times> 'v causal_repo" where
  "checkout now ops s R name create_at =
     (case rs_getBranches ops s (Some name) of
        None \<Rightarrow> (Inl StoreError, s, R)
      | Some [] \<Rightarrow>
          (case create_at of
             None \<Rightarrow> (Inl (BranchNotFound name), s, R)
           | Some hash \<Rightarrow> createBranch now ops s R name hash)
      | Some (b # _) \<Rightarrow> moveHead now ops s R b)"

text \<open>The hash of the commit to go back to.\<close>

definition reset ::
    "int \<Rightarrow> ('t, 'v) repo_ops \<Rightarrow> 't \<Rightarrow> 'v causal_repo \<Rightarrow> string option \<Rightarrow> (repo_error + unit) \<times> 't \<times> 'v causal_repo" where
  "reset now ops s R hash =
     (case repo_head R of
        None \<Rightarrow> (Inl NoHead, s, R)
      | Some b \<Rightarrow> moveHead now ops s R \<lparr>branch_name = branch_name b, branch_hash = hash, branch_time = Some now\<rparr>)"

end
