(* ===== verification/RepoSpec.thy ===== *)
theory RepoSpec
  imports CausalRepo
begin

text \<open>
  What the operations of \<open>CausalRepo\<close> keep: the maps of atoms are keyed by hash, the stage describes the
  difference between the working set and the commit that is checked out, and a commit in the store in
  memory leads back, through the commits before it, to the start of the branch.
\<close>

section \<open>Maps of atoms\<close>

definition keyed :: "'v atom_map \<Rightarrow> bool" where
  "keyed m \<longleftrightarrow> distinct (map fst m) \<and> (\<forall>(k, a) \<in> set m. k = ahash a)"

abbreviation by_hash :: "'v atom list \<Rightarrow> 'v atom_map" where
  "by_hash as \<equiv> map (\<lambda>a. (ahash a, a)) as"

lemma update_new: "k \<notin> fst ` set m \<Longrightarrow> AList.update k v m = m @ [(k, v)]"
  by (induction m) auto

lemma keyed_Nil [simp, intro]: "keyed []"
  by (simp add: keyed_def)

lemma keyed_map_of: "keyed m \<Longrightarrow> map_of m h = Some a \<Longrightarrow> ahash a = h"
  by (auto simp: keyed_def dest!: map_of_SomeD)

lemma update_subset: "set (AList.update k v m) \<subseteq> insert (k, v) (set m)"
  by (induction m) auto

lemma keyed_update: "keyed m \<Longrightarrow> keyed (AList.update (ahash a) a m)"
  using update_subset[of "ahash a" a m] by (fastforce simp: keyed_def distinct_update)

lemma keyed_delete: "keyed m \<Longrightarrow> keyed (AList.delete h m)"
  unfolding keyed_def by (intro conjI distinct_delete) (auto simp: AList.delete_eq)

lemma keyed_by_hash: "keyed m \<Longrightarrow> m = by_hash (map snd m)"
  unfolding keyed_def by (induction m) auto

lemma keyed_atomMap: "keyed (atomMap as)"
proof -
  have "keyed m \<Longrightarrow> keyed (fold (\<lambda>a m. AList.update (ahash a) a m) as m)" for m
    by (induction as arbitrary: m) (simp_all add: keyed_update)
  then show ?thesis by (simp add: atomMap_def)
qed

lemma atomMap_distinct: "distinct (map ahash as) \<Longrightarrow> atomMap as = by_hash as"
proof -
  have "distinct (map ahash as) \<Longrightarrow> fst ` set m \<inter> ahash ` set as = {}
    \<Longrightarrow> fold (\<lambda>a m. AList.update (ahash a) a m) as m = m @ by_hash as" for m
    by (induction as arbitrary: m) (auto simp: update_new)
  from this[of "[]"] show "distinct (map ahash as) \<Longrightarrow> ?thesis" by (simp add: atomMap_def)
qed

lemma keyed_hashes: "keyed m \<Longrightarrow> map ahash (map snd m) = map fst m"
  unfolding keyed_def by (induction m) auto

lemma keyed_distinct: "keyed m \<Longrightarrow> distinct (map ahash (map snd m))"
  by (subst keyed_hashes) (simp_all add: keyed_def)

lemma atomMap_keyed:
  assumes "keyed m"
  shows "atomMap (map snd m) = m"
proof -
  from keyed_distinct[OF assms] have "atomMap (map snd m) = by_hash (map snd m)" by (rule atomMap_distinct)
  also have "\<dots> = m" using keyed_by_hash[OF assms] by (rule sym)
  finally show ?thesis .
qed

section \<open>The stage\<close>

definition committed :: "'v causal_repo \<Rightarrow> 'v atom_map" where
  "committed R = (case currentCommit R of None \<Rightarrow> [] | Some d \<Rightarrow> cd_atoms d)"

text \<open>What the stage makes of the atoms of the commit.\<close>

definition apply_stage :: "'v atom_index_full_diff \<Rightarrow> 'v atom_map \<Rightarrow> string \<Rightarrow> 'v atom option" where
  "apply_stage d m h =
     (case map_of (by_hash (full_additions d)) h of
        Some a \<Rightarrow> Some a
      | None \<Rightarrow> if map_of (full_deletions d) h = None then map_of m h else None)"

definition repo_ok :: "'v causal_repo \<Rightarrow> bool" where
  "repo_ok R \<longleftrightarrow> keyed (repo_atoms R) \<and> keyed (committed R) \<and> distinct (map ahash (full_additions (repo_stage R))) \<and>
     (\<forall>h. h \<in> ahash ` set (full_additions (repo_stage R)) \<longrightarrow> map_of (full_deletions (repo_stage R)) h = None) \<and>
     (\<forall>h. map_of (repo_atoms R) h = apply_stage (repo_stage R) (committed R) h)"

lemma repo_ok_keyed: "repo_ok R \<Longrightarrow> keyed (repo_atoms R)"
  by (simp add: repo_ok_def)

lemma committed_stage [simp]: "committed (stage_add a R) = committed R" "committed (stage_remove h a R) = committed R"
  by (simp_all add: committed_def stage_add_def stage_remove_def)

lemma repo_ok_setCurrentCommit:
  "(\<And>d. c = Some d \<Longrightarrow> keyed (cd_atoms d)) \<Longrightarrow> repo_ok (setCurrentCommit c R)"
  by (auto simp: repo_ok_def setCurrentCommit_def committed_def apply_stage_def empty_stage_def split: option.splits)

lemma staged_notin: "repo_ok R \<Longrightarrow> map_of (repo_atoms R) h = None \<Longrightarrow> h \<notin> ahash ` set (full_additions (repo_stage R))"
  by (auto simp: repo_ok_def apply_stage_def map_of_eq_None_iff image_image split: option.splits dest!: spec[of _ h])

lemma repo_ok_add:
  assumes ok: "repo_ok R" and new: "map_of (repo_atoms R) (ahash a) = None"
  shows "repo_ok (stage_add a R)"
proof -
  have "map_of (by_hash (full_additions (repo_stage R))) (ahash a) = None"
    using staged_notin[OF ok new] by (simp add: map_of_eq_None_iff image_image)
  then show ?thesis
    using ok staged_notin[OF ok new] unfolding repo_ok_def
    by (auto simp: stage_add_def keyed_update apply_stage_def update_conv' delete_conv' map_add_def committed_def
        split: option.splits)
qed

lemma map_of_remove1_by_hash:
  assumes "distinct (map ahash as)"
  shows "map_of (by_hash (remove1 a as)) h = (if a \<in> set as \<and> h = ahash a then None else map_of (by_hash as) h)"
  using assms by (induction as) (auto simp: map_of_eq_None_iff image_image)

lemma distinct_remove1_hashes: "distinct (map ahash as) \<Longrightarrow> distinct (map ahash (remove1 a as))"
  by (induction as) (auto dest: notin_set_remove1 set_remove1_subset[THEN subsetD])

lemma image_remove1_distinct: "distinct (map f as) \<Longrightarrow> a \<in> set as \<Longrightarrow> f ` set (remove1 a as) = f ` set as - {f a}"
  by (induction as) auto

lemma repo_ok_remove:
  assumes ok: "repo_ok R" and here: "map_of (repo_atoms R) h = Some a"
  shows "repo_ok (stage_remove h a R)"
proof -
  have h: "ahash a = h" using keyed_map_of[OF repo_ok_keyed[OF ok] here] .
  have unstaged: "a \<notin> set (full_additions (repo_stage R)) \<Longrightarrow> map_of (by_hash (full_additions (repo_stage R))) h = None"
    using ok here unfolding repo_ok_def apply_stage_def
    by (auto split: option.splits dest!: spec[of _ h] map_of_SomeD)
  have staged_left: "h \<notin> ahash ` set (remove1 a (full_additions (repo_stage R)))"
  proof (cases "a \<in> set (full_additions (repo_stage R))")
    case True
    then show ?thesis using ok h by (simp add: repo_ok_def image_remove1_distinct)
  next
    case False
    then have "h \<notin> ahash ` set (full_additions (repo_stage R))" using unstaged by (simp add: map_of_eq_None_iff image_image)
    with False show ?thesis by (simp add: remove1_idem)
  qed
  from unstaged show ?thesis
    using ok h staged_left unfolding repo_ok_def
    by (auto simp: stage_remove_def keyed_delete apply_stage_def update_conv' delete_conv' map_of_remove1_by_hash
        distinct_remove1_hashes committed_def dest: set_remove1_subset[THEN subsetD] split: option.splits)
qed

lemma addMany_ok: "repo_ok R \<Longrightarrow> repo_ok (snd (addMany as R))"
  by (induction as R rule: addMany.induct) (auto simp: repo_ok_add split: prod.splits)

lemma removeMany_ok: "repo_ok R \<Longrightarrow> repo_ok (snd (removeMany hs R))"
  by (induction hs R rule: removeMany.induct) (auto simp: repo_ok_remove split: prod.splits option.splits)

text \<open>\<open>addMany\<close> appends, in their order, the first atoms with hashes that were not there; \<open>removeMany\<close> filters.\<close>

lemma uniqBy_seen: "set xs = set ys \<Longrightarrow> uniqBy_from xs as = uniqBy_from ys as"
proof (induction as arbitrary: xs ys)
  case (Cons a as)
  show ?case using Cons.IH[of "ahash a # xs" "ahash a # ys"] Cons.IH[OF Cons.prems] Cons.prems by simp
qed simp

lemma addMany_atoms:
  "addMany as R = (added, R') \<Longrightarrow>
     repo_atoms R' = repo_atoms R @ by_hash added \<and> added = uniqBy_from (map fst (repo_atoms R)) as"
proof (induction as R arbitrary: added R' rule: addMany.induct)
  case (2 a as R)
  show ?case
  proof (cases "map_of (repo_atoms R) (ahash a) = None")
    case True
    then have new: "ahash a \<notin> fst ` set (repo_atoms R)" by (simp add: map_of_eq_None_iff)
    obtain rest R1 where rest: "addMany as (stage_add a R) = (rest, R1)" by fastforce
    have "repo_atoms (stage_add a R) = repo_atoms R @ [(ahash a, a)]" by (simp add: stage_add_def update_new[OF new])
    with 2(1)[OF True rest] 2(3) True new rest show ?thesis
      by (auto intro!: uniqBy_seen)
  next
    case False
    then have "ahash a \<in> fst ` set (repo_atoms R)" by (simp add: map_of_eq_None_iff)
    with 2(2)[OF False] 2(3) False show ?thesis by auto
  qed
qed simp

lemma removeMany_atoms:
  "removeMany hs R = (removed, R') \<Longrightarrow> repo_atoms R' = filter (\<lambda>(k, _). k \<notin> set hs) (repo_atoms R)"
proof (induction hs R arbitrary: removed R' rule: removeMany.induct)
  case (2 h hs R)
  show ?case
  proof (cases "map_of (repo_atoms R) h")
    case None
    then have "h \<notin> fst ` set (repo_atoms R)" by (simp add: map_of_eq_None_iff)
    then have "filter (\<lambda>(k, _). k \<notin> set (h # hs)) (repo_atoms R) = filter (\<lambda>(k, _). k \<notin> set hs) (repo_atoms R)"
      by (intro filter_cong) (auto simp: image_iff)
    with 2(1)[OF None] 2(3) None show ?thesis by simp
  next
    case (Some a)
    obtain rest R1 where rest: "removeMany hs (stage_remove h a R) = (rest, R1)" by fastforce
    have "repo_atoms (stage_remove h a R) = filter (\<lambda>(k, _). h \<noteq> k) (repo_atoms R)"
      by (simp add: stage_remove_def AList.delete_eq)
    with 2(2)[OF Some rest] 2(3) Some rest show ?thesis
      by (auto intro!: filter_cong)
  qed
qed simp

section \<open>Differences of commits\<close>

text \<open>The data that is loaded for a commit whose index lists its atoms.\<close>

definition commit_of :: "repo_hasher \<Rightarrow> 'v commit_data \<Rightarrow> bool" where
  "commit_of H d \<longleftrightarrow> (\<exists>as. distinct (map ahash as) \<and> cd_index d = repo_index H as \<and> cd_atoms d = by_hash as)"

lemma index_entry: "map_of (atomHashList as) k = None \<longleftrightarrow> k \<notin> ahash ` set as"
proof -
  have "fst ` set (atomHashList_from m as) = fst ` set m \<union> ahash ` set as" for m
    by (induction as arbitrary: m) (auto simp: dom_update)
  then show ?thesis by (simp add: map_of_eq_None_iff atomHashList_def)
qed

lemma no_entry_index: "no_entry (atomHashList as) k \<longleftrightarrow> k \<notin> ahash ` set as"
proof -
  have "map_of (atomHashList_from m as) k = Some s \<Longrightarrow> (\<And>s. map_of m k = Some s \<Longrightarrow> s \<noteq> []) \<Longrightarrow> s \<noteq> []" for m s
  proof (induction as arbitrary: m)
    case (Cons a as)
    show ?case
      by (rule Cons.IH[OF Cons.prems(1)[unfolded atomHashList_from.simps]])
        (use Cons.prems(2) in \<open>auto simp: update_conv' atomIdToString_def split: if_splits\<close>)
  qed simp
  from this[of "[]"] show ?thesis using index_entry[of as k]
    by (auto simp: no_entry_def atomHashList_def split: option.splits)
qed

lemma atomHashList_distinct:
  "distinct (map ahash as) \<Longrightarrow> atomHashList as = map (\<lambda>a. (ahash a, atomIdToString (aid a))) as"
proof -
  have "distinct (map ahash as) \<Longrightarrow> fst ` set m \<inter> ahash ` set as = {}
    \<Longrightarrow> atomHashList_from m as = m @ map (\<lambda>a. (ahash a, atomIdToString (aid a))) as" for m
    by (induction as arbitrary: m) (auto simp: update_new)
  from this[of "[]"] show "distinct (map ahash as) \<Longrightarrow> ?thesis" by (simp add: atomHashList_def)
qed

lemma pick_atoms_filter:
  assumes "distinct (map ahash as)"
  shows "pick_atoms (by_hash as) (map ahash (filter P as)) = Inr (by_hash (filter P as))"
proof -
  have found: "a \<in> set as \<Longrightarrow> map_of (by_hash as) (ahash a) = Some a" for a
    by (rule map_of_is_SomeI) (use assms in \<open>auto simp: comp_def\<close>)
  have "map (\<lambda>h. the (map_of (by_hash as) h)) (map ahash (filter P as)) = filter P as"
    unfolding map_map by (rule map_idI) (simp add: found)
  moreover have "list_all (\<lambda>h. map_of (by_hash as) h \<noteq> None) (map ahash (filter P as))"
    by (simp add: list_all_iff found)
  moreover have "atomMap (filter P as) = by_hash (filter P as)"
    using assms by (intro atomMap_distinct) (simp add: distinct_map inj_on_def)
  ultimately show ?thesis by (simp add: pick_atoms_def)
qed

lemma filter_by_hash: "filter (\<lambda>(k, _). P k) (by_hash as) = by_hash (filter (\<lambda>a. P (ahash a)) as)"
  by (induction as) auto

lemma commit_diff_filters:
  assumes a: "commit_of H a" and b: "commit_of H b" and inj: "inj (hash_list H)"
  shows "calculateCommitDiff (Some a) (Some b) =
    Inr (filter (\<lambda>(h, _). map_of (cd_atoms a) h = None) (cd_atoms b),
         filter (\<lambda>(h, _). map_of (cd_atoms b) h = None) (cd_atoms a))"
proof -
  obtain as where as: "distinct (map ahash as)" "cd_index a = repo_index H as" "cd_atoms a = by_hash as"
    using a unfolding commit_of_def by blast
  obtain bs where bs: "distinct (map ahash bs)" "cd_index b = repo_index H bs" "cd_atoms b = by_hash bs"
    using b unfolding commit_of_def by blast
  have gone: "map_of (by_hash cs) h = None \<longleftrightarrow> h \<notin> ahash ` set cs" for cs :: "'a atom list" and h
    by (simp add: map_of_eq_None_iff image_image)
  have keys: "map fst (filter (\<lambda>(k, _). no_entry (atomHashList cs) k) (atomHashList ds)) =
      map ahash (filter (\<lambda>a. ahash a \<notin> ahash ` set cs) ds)"
    if "distinct (map ahash ds)" for cs ds :: "'a atom list"
    by (simp add: atomHashList_distinct[OF that] no_entry_index filter_map comp_def)
  have same: "filter (\<lambda>a. ahash a \<notin> ahash ` set cs) ds = []" if "ahash ` set cs = ahash ` set ds" for cs ds :: "'a atom list"
    using that by auto
  show ?thesis
  proof (cases "hashAtoms (hash_list H) as = hashAtoms (hash_list H) bs")
    case True
    then have eq: "ahash ` set as = ahash ` set bs" by (rule hashAtoms_eq_set[OF inj])
    from True show ?thesis
      by (simp add: calculateCommitDiff_def as bs repo_index_def createIndex_def calculateDiff_def pick_atoms_def
          atomMap_def gone filter_by_hash same[OF eq] same[OF eq[symmetric]])
  next
    case False
    then show ?thesis
      by (simp add: calculateCommitDiff_def as bs repo_index_def createIndex_def calculateDiff_def gone filter_by_hash
          keys[OF as(1)] keys[OF bs(1)] pick_atoms_filter[OF as(1)] pick_atoms_filter[OF bs(1)])
  qed
qed

end
