(* ===== verification/RepoHistory.thy ===== *)
theory RepoHistory
  imports RepoSpec
begin

text \<open>
  Commits in the store in memory: what they write, what a later checkout reads, and the history of a
  branch, as a step relation over the store and the repository.
\<close>

section \<open>What is stored\<close>

abbreviation obj_hash :: "'v repo_object \<Rightarrow> string" where
  "obj_hash x \<equiv> the (getObjectHash (Some x))"

text \<open>
  The same object as far as the hash can tell: an index is hashed over the sorted hashes of its atoms, so that indexes of the
  same atoms in different orders are the same object to the store.
\<close>

definition same_object :: "'v repo_object \<Rightarrow> 'v repo_object \<Rightarrow> bool" where
  "same_object x y \<longleftrightarrow> x = y \<or>
     (case (x, y) of
        (RepoIndex i, RepoIndex j) \<Rightarrow> index_hash i = index_hash j \<and> set (index_atoms i) = set (index_atoms j)
      | _ \<Rightarrow> False)"

lemma same_object_refl [simp]: "same_object x x"
  by (simp add: same_object_def)

lemma same_object_trans: "same_object x y \<Longrightarrow> same_object y z \<Longrightarrow> same_object x z"
  by (auto simp: same_object_def split: repo_object.splits)

lemma same_object_simps:
  "same_object (RepoCommit c) y \<longleftrightarrow> y = RepoCommit c" "same_object (RepoAtom a) y \<longleftrightarrow> y = RepoAtom a"
  "same_object y (RepoAtom a) \<longleftrightarrow> y = RepoAtom a"
  by (auto simp: same_object_def split: repo_object.splits)

text \<open>The hashes of new objects do not collide: an object that is stored with one of them is the same.\<close>

definition fits :: "'v memory_repo \<Rightarrow> 'v repo_object list \<Rightarrow> bool" where
  "fits s xs \<longleftrightarrow> (\<forall>x\<in>set xs. (case mr_map s (obj_hash x) of None \<Rightarrow> True | Some y \<Rightarrow> same_object y x) \<and>
     (\<forall>y\<in>set xs. obj_hash y = obj_hash x \<longrightarrow> y = x))"

text \<open>A later store has the same objects, and perhaps more.\<close>

definition keeps_objects :: "'v memory_repo \<Rightarrow> 'v memory_repo \<Rightarrow> bool" where
  "keeps_objects s s' \<longleftrightarrow> (\<forall>h x. mr_map s h = Some x \<longrightarrow> (\<exists>y. mr_map s' h = Some y \<and> same_object x y))"

lemma keeps_objectsD:
  assumes "keeps_objects s s'"
  shows "mr_map s h = Some (RepoCommit c) \<Longrightarrow> mr_map s' h = Some (RepoCommit c)"
    and "mr_map s h = Some (RepoAtom a) \<Longrightarrow> mr_map s' h = Some (RepoAtom a)"
  using assms unfolding keeps_objects_def by (metis same_object_simps(1), metis same_object_simps(2))

lemma keeps_objects_same: "mr_map s' = mr_map s \<Longrightarrow> keeps_objects s s'"
  by (simp add: keeps_objects_def)

lemma fitsD:
  assumes "fits s xs" and "x \<in> set xs"
  shows "mr_map s (obj_hash x) = Some y \<Longrightarrow> same_object y x" "\<And>y. y \<in> set xs \<Longrightarrow> obj_hash y = obj_hash x \<Longrightarrow> y = x"
  using assms unfolding fits_def by (fastforce split: option.splits)+

lemma storeObjects_branches [simp]: "mr_branches (mr_storeObjects s br xs) = mr_branches s"
  by (induction s br xs rule: mr_storeObjects.induct) (simp_all add: Let_def)

lemma storeObjects_indexes [simp]: "mr_indexes (mr_storeObjects s br xs) = mr_indexes s"
  by (induction s br xs rule: mr_storeObjects.induct) (simp_all add: Let_def)

lemma storeObjects_map:
  "mr_map (mr_storeObjects s br xs) = fold (\<lambda>x m. m(obj_hash x \<mapsto> x)) xs (mr_map s)"
  by (induction s br xs rule: mr_storeObjects.induct) (simp_all add: Let_def)

lemma storeObjects_append: "mr_storeObjects (mr_storeObjects s br xs) br ys = mr_storeObjects s br (xs @ ys)"
  by (induction s br xs rule: mr_storeObjects.induct) (simp_all add: Let_def)

lemma fold_store:
  "fold (\<lambda>x m. m(obj_hash x \<mapsto> x)) xs m h =
     (case find (\<lambda>x. obj_hash x = h) (rev xs) of Some x \<Rightarrow> Some x | None \<Rightarrow> m h)"
proof (induction xs rule: rev_induct)
  case (snoc x xs)
  then show ?case by auto
qed simp

lemma find_rev:
  "find P (rev xs) = Some x \<Longrightarrow> x \<in> set xs \<and> P x"
  "find P (rev xs) = None \<Longrightarrow> x \<in> set xs \<Longrightarrow> \<not> P x"
proof -
  have "find P ys = Some x \<Longrightarrow> x \<in> set ys \<and> P x" for ys
    by (induction ys) (auto split: if_splits)
  from this[of "rev xs"] show "find P (rev xs) = Some x \<Longrightarrow> x \<in> set xs \<and> P x" by simp
qed (simp add: find_None_iff)

lemma stored_from:
  "mr_map (mr_storeObjects s br xs) h = Some y \<Longrightarrow> mr_map s h = Some y \<or> (y \<in> set xs \<and> obj_hash y = h)"
  using find_rev(1)[of "\<lambda>x. obj_hash x = h" xs] by (auto simp: storeObjects_map fold_store split: option.splits)

lemma stored_fits:
  assumes "fits s xs"
  shows "keeps_objects s (mr_storeObjects s br xs)"
    and "x \<in> set xs \<Longrightarrow> mr_map (mr_storeObjects s br xs) (obj_hash x) = Some x"
proof -
  have "\<exists>z. mr_map (mr_storeObjects s br xs) h = Some z \<and> same_object y z" if "mr_map s h = Some y" for h y
  proof (cases "find (\<lambda>x. obj_hash x = h) (rev xs)")
    case (Some z)
    with fitsD(1)[OF assms, of z y] find_rev(1)[OF Some] that have "same_object y z" by blast
    with Some show ?thesis by (simp add: storeObjects_map fold_store)
  qed (use that in \<open>simp add: storeObjects_map fold_store\<close>)
  then show "keeps_objects s (mr_storeObjects s br xs)" by (simp add: keeps_objects_def)
  show "mr_map (mr_storeObjects s br xs) (obj_hash x) = Some x" if "x \<in> set xs"
  proof (cases "find (\<lambda>y. obj_hash y = obj_hash x) (rev xs)")
    case None
    from find_rev(2)[OF None that] show ?thesis by simp
  next
    case (Some z)
    from find_rev(1)[OF Some] fitsD(2)[OF assms that] have "z = x" by blast
    with Some show ?thesis by (simp add: storeObjects_map fold_store)
  qed
qed

section \<open>Branches\<close>

definition branches_ok :: "'v memory_repo \<Rightarrow> bool" where
  "branches_ok s \<longleftrightarrow> distinct (map branch_name (mr_branches s))"

lemma replace_branch_names:
  "branch_name ` set (replace_branch b bs) = insert (branch_name b) (branch_name ` set bs)"
  "distinct (map branch_name bs) \<Longrightarrow> distinct (map branch_name (replace_branch b bs))"
proof -
  show names: "branch_name ` set (replace_branch b bs) = insert (branch_name b) (branch_name ` set bs)" for bs
    by (induction bs) auto
  show "distinct (map branch_name bs) \<Longrightarrow> distinct (map branch_name (replace_branch b bs))"
    by (induction bs) (auto simp: names)
qed

lemma replace_branch_in: "b \<in> set (replace_branch b bs)"
  by (induction bs) auto

lemma saveBranch_ok: "branches_ok s \<Longrightarrow> branches_ok (mr_saveBranch now s b)"
  by (simp add: branches_ok_def mr_saveBranch_def replace_branch_names)

lemma prefix_le: "take (length p) s = p \<Longrightarrow> p \<le> (s :: string)"
proof (induction p arbitrary: s)
  case (Cons c p)
  then obtain d s' where "s = d # s'" by (cases s) auto
  with Cons show ?case by auto
qed simp

text \<open>The name of a branch comes before every other name that it is a prefix of.\<close>

lemma getBranches_exact:
  assumes ok: "branches_ok s" and b: "b \<in> set (mr_branches s)"
  shows "\<exists>rest. mr_getBranches s (Some (branch_name b)) = b # rest"
proof -
  let ?bs = "filter (\<lambda>x. \<not> given (Some (branch_name b)) \<or> startsWith (branch_name x) (branch_name b)) (mr_branches s)"
  have eq: "mr_getBranches s (Some (branch_name b)) = sort_key branch_name ?bs" by (simp add: mr_getBranches_def)
  have in_bs: "b \<in> set ?bs" using b by (simp add: startsWith_def)
  then obtain x rest where x: "sort_key branch_name ?bs = x # rest"
    by (metis list.exhaust set_sort list.set(1) empty_iff)
  have "x \<in> set ?bs" using x by (metis list.set_intros(1) set_sort)
  moreover have "branch_name x \<le> branch_name b"
  proof -
    have "sorted (map branch_name (x # rest))" by (metis x sorted_sort_key)
    moreover have "b \<in> set (x # rest)" using in_bs by (metis x set_sort)
    ultimately show ?thesis by auto
  qed
  moreover have "branch_name b \<le> branch_name y" if "y \<in> set ?bs" for y
    using that by (cases "branch_name b = []") (auto simp: given_def startsWith_def intro: prefix_le)
  ultimately have "branch_name x = branch_name b" "x \<in> set (mr_branches s)" by (auto intro: order.antisym)
  then have "x = b" using ok b unfolding branches_ok_def by (metis distinct_map inj_onD)
  with x eq show ?thesis by simp
qed

lemma replace_branch_kept: "branch_name x \<noteq> branch_name b \<Longrightarrow> x \<in> set bs \<Longrightarrow> x \<in> set (replace_branch b bs)"
  by (induction bs) auto

section \<open>Commits\<close>

definition old_commit :: "'v causal_repo \<Rightarrow> repo_commit option" where
  "old_commit R = Option.bind (currentCommit R) cd_commit"

definition next_index :: "repo_hasher \<Rightarrow> 'v causal_repo \<Rightarrow> atom_index" where
  "next_index H R = repo_index H (repo_getAtoms R)"

definition next_commit :: "repo_hasher \<Rightarrow> 'v causal_repo \<Rightarrow> string \<Rightarrow> int \<Rightarrow> repo_commit" where
  "next_commit H R message time = make_commit H message time (next_index H R) (old_commit R)"

definition next_objects :: "repo_hasher \<Rightarrow> 'v causal_repo \<Rightarrow> string \<Rightarrow> int \<Rightarrow> 'v repo_object list" where
  "next_objects H R message time =
     map RepoAtom (repo_getAtoms R) @ [RepoIndex (next_index H R), RepoCommit (next_commit H R message time)]"

definition next_head :: "repo_hasher \<Rightarrow> int \<Rightarrow> 'v causal_repo \<Rightarrow> string \<Rightarrow> int \<Rightarrow> repo_branch \<Rightarrow> repo_branch" where
  "next_head H now R message time b =
     \<lparr>branch_name = branch_name b, branch_hash = Some (commit_hash (next_commit H R message time)), branch_time = Some now\<rparr>"

definition next_store :: "repo_hasher \<Rightarrow> int \<Rightarrow> 'v memory_repo \<Rightarrow> 'v causal_repo \<Rightarrow> string \<Rightarrow> int \<Rightarrow> repo_branch \<Rightarrow> 'v memory_repo" where
  "next_store H now s R message time b =
     mr_saveBranch now
       (mr_storeObjects (s\<lparr>mr_indexes := (mr_indexes s)(index_hash (next_index H R) \<mapsto> map RepoAtom (repo_getAtoms R))\<rparr>)
         (branch_name b) (next_objects H R message time))
       (next_head H now R message time b)"

definition next_data :: "repo_hasher \<Rightarrow> 'v causal_repo \<Rightarrow> string \<Rightarrow> int \<Rightarrow> 'v commit_data" where
  "next_data H R message time =
     \<lparr>cd_commit = Some (next_commit H R message time), cd_index = next_index H R, cd_atoms = repo_atoms R\<rparr>"

lemmas next_defs = next_index_def next_commit_def next_objects_def next_head_def next_store_def next_data_def old_commit_def

lemma stored_lists:
  "stored_atoms (map StoreAtom as @ [StoreObject x, StoreObject y]) = map RepoAtom as"
  "stored_others (map StoreAtom as @ [StoreObject x, StoreObject y]) = [x, y]"
  by (induction as) simp_all

lemma read_atoms_all: "read_atoms (map (Some \<circ> RepoAtom) as) = Inr as"
  by (induction as) simp_all

lemma memory_ops [simp]:
  "rs_getObject memory_repo_ops s k = Some (Option.bind k (mr_map s))"
  "rs_storeObjects memory_repo_ops s br xs = Some (mr_storeObjects s br xs)"
  "rs_loadIndex memory_repo_ops = Some (\<lambda>s h i. Some (mr_loadIndex s h i))"
  "rs_storeIndex memory_repo_ops = Some (\<lambda>s h i xs. Some (mr_storeIndex s h i xs))"
  "rs_getBranches memory_repo_ops s p = Some (mr_getBranches s p)"
  "rs_saveBranch memory_repo_ops now s b = Some (mr_saveBranch now s b)"
  by (simp_all add: memory_repo_ops_def mr_getObject_def)

text \<open>
  A commit that is made: atoms were added or removed since the last one, and the hashes of the objects that it stores are not
  empty and no hashes of other objects. (The same atoms may have been committed before, in any order.)
\<close>

definition can_commit :: "repo_hasher \<Rightarrow> 'v memory_repo \<Rightarrow> 'v causal_repo \<Rightarrow> string \<Rightarrow> int \<Rightarrow> bool" where
  "can_commit H s R message time \<longleftrightarrow> hasChanges R \<and> fits s (next_objects H R message time) \<and>
     index_hash (next_index H R) \<noteq> [] \<and> commit_hash (next_commit H R message time) \<noteq> []"

lemma next_store_map:
  assumes "fits s (next_objects H R message time)"
  shows "keeps_objects s (next_store H now s R message time b)"
    and "mr_map (next_store H now s R message time b) (commit_hash (next_commit H R message time)) =
      Some (RepoCommit (next_commit H R message time))"
    and "mr_map (next_store H now s R message time b) (index_hash (next_index H R)) = Some (RepoIndex (next_index H R))"
proof -
  let ?s = "s\<lparr>mr_indexes := (mr_indexes s)(index_hash (next_index H R) \<mapsto> map RepoAtom (repo_getAtoms R))\<rparr>"
  have f: "fits ?s (next_objects H R message time)" using assms by (simp add: fits_def)
  show "keeps_objects s (next_store H now s R message time b)"
    using stored_fits(1)[OF f] by (simp add: next_store_def mr_saveBranch_def keeps_objects_def)
  show "mr_map (next_store H now s R message time b) (commit_hash (next_commit H R message time)) =
      Some (RepoCommit (next_commit H R message time))"
    using stored_fits(2)[OF f, of "RepoCommit (next_commit H R message time)"]
    by (simp add: next_store_def mr_saveBranch_def next_objects_def)
  show "mr_map (next_store H now s R message time b) (index_hash (next_index H R)) = Some (RepoIndex (next_index H R))"
    using stored_fits(2)[OF f, of "RepoIndex (next_index H R)"]
    by (simp add: next_store_def mr_saveBranch_def next_objects_def)
qed

text \<open>What a checkout of the new head loads, in any repository.\<close>

lemma load_next:
  assumes "keyed (repo_atoms R)" and "fits s (next_objects H R message time)"
    and "branch_hash x = Some (commit_hash (next_commit H R message time))"
    and "mr_map s' = mr_map (next_store H now s R message time b)"
    and "mr_indexes s' = mr_indexes (next_store H now s R message time b)"
  shows "loadBranch memory_repo_ops s' x = Inr (Some (next_data H R message time))"
proof -
  have idx: "commit_index (next_commit H R message time) = index_hash (next_index H R)"
    by (simp add: next_commit_def make_commit_def repoCommit_def)
  have "mr_loadIndex s' n (next_index H R) = map (Some \<circ> RepoAtom) (repo_getAtoms R)" for n
    by (simp add: mr_loadIndex_def assms(5) next_store_def mr_saveBranch_def)
  then have "loadIndex memory_repo_ops s' n (Some (next_commit H R message time)) (next_index H R) = Inr (next_data H R message time)" for n
    using atomMap_keyed[OF assms(1)]
    by (simp add: loadIndex_def loadAtomsForHeadOrIndex_def read_atoms_all next_data_def del: map_map)
      (simp add: repo_getAtoms_def)
  then show ?thesis
    by (simp add: loadBranch_def loadCommit_def assms(3,4) idx next_store_map(2,3)[OF assms(2)])
qed

lemma commit_memory:
  assumes "repo_ok R" and can: "can_commit H s R message time" and "repo_head R = Some b"
  shows "repo_commit_changes H now memory_repo_ops s R message time =
    (Inr (Some (next_commit H R message time)), next_store H now s R message time b,
     setCurrentCommit (Some (next_data H R message time)) (R\<lparr>repo_head := Some (next_head H now R message time b)\<rparr>))"
proof -
  let ?s1 = "mr_storeObjects (s\<lparr>mr_indexes := (mr_indexes s)(index_hash (next_index H R) \<mapsto> map RepoAtom (repo_getAtoms R))\<rparr>)
         (branch_name b) (next_objects H R message time)"
  have "storeData memory_repo_ops s (branch_name b) (Some (index_hash (next_index H R)))
      (map StoreAtom (repo_getAtoms R) @ [StoreObject (RepoIndex (next_index H R)), StoreObject (RepoCommit (next_commit H R message time))])
      = (Inr (), ?s1)"
    using can by (simp add: storeData_def given_def can_commit_def stored_lists mr_storeIndex_def
        storeObjects_append next_objects_def)
  moreover have "loadBranch memory_repo_ops (next_store H now s R message time b) (next_head H now R message time b)
      = Inr (Some (next_data H R message time))"
    by (rule load_next) (use assms in \<open>simp_all add: repo_ok_keyed can_commit_def next_head_def\<close>)
  ultimately show ?thesis
    using can assms(3)
    by (simp add: repo_commit_changes_def can_commit_def moveHead_def saveHead_def checkoutHead_def
        flip: next_index_def next_commit_def old_commit_def next_head_def next_store_def)
qed

section \<open>The store of branches as an interface\<close>

text \<open>What \<open>checkout\<close> and \<open>createBranch\<close> rely on in a store of branches.\<close>

locale branch_store =
  fixes ops :: "('t, 'v) repo_ops" and branches :: "'t \<Rightarrow> repo_branch list" and inv :: "'t \<Rightarrow> bool"
  assumes lists_exact: "inv s \<Longrightarrow> b \<in> set (branches s) \<Longrightarrow> \<exists>rest. rs_getBranches ops s (Some (branch_name b)) = Some (b # rest)"
    and lists_prefixed: "inv s \<Longrightarrow> rs_getBranches ops s (Some n) = Some bs
      \<Longrightarrow> set bs \<subseteq> set (branches s) \<and> (\<forall>b\<in>set (branches s). startsWith (branch_name b) n \<longrightarrow> b \<in> set bs)"
    and saves: "inv s \<Longrightarrow> \<exists>s'. rs_saveBranch ops now s b = Some s' \<and> inv s' \<and> b \<in> set (branches s') \<and>
      set (branches s') \<subseteq> insert b (set (branches s))"
begin

lemma checkout_exact:
  assumes "inv s" and "b \<in> set (branches s)"
  shows "checkout now ops s R (branch_name b) create_at = moveHead now ops s R b"
  using lists_exact[OF assms] by (auto simp: checkout_def)

lemma moveHead_saves:
  assumes "inv s" and "moveHead now ops s R b = (r, s', R')"
  shows "inv s' \<and> b \<in> set (branches s') \<and> set (branches s') \<subseteq> insert b (set (branches s)) \<and> repo_head R' = Some b"
  using assms(2) saves[OF assms(1), of now b]
  by (auto simp: moveHead_def saveHead_def checkoutHead_def setCurrentCommit_def split: sum.splits)

lemma createBranch_moves:
  assumes "createBranch now ops s R n hash = (Inr (), s', R')"
  shows "moveHead now ops s R \<lparr>branch_name = n, branch_hash = (if given hash then hash else None), branch_time = Some now\<rparr>
    = (Inr (), s', R')"
  using assms by (auto simp: createBranch_def split: option.splits if_splits)

lemma checkout_moves:
  assumes "inv s" and "checkout now ops s R n None = (Inr (), s', R')"
  shows "\<exists>b\<in>set (branches s). moveHead now ops s R b = (Inr (), s', R')"
  using assms(2) lists_prefixed[OF assms(1), of n] by (auto simp: checkout_def split: option.splits list.splits)

end

lemma getBranches_set:
  "b \<in> set (mr_getBranches s (Some n)) \<longleftrightarrow> b \<in> set (mr_branches s) \<and> startsWith (branch_name b) n"
  by (cases n) (auto simp: mr_getBranches_def given_def startsWith_def)

lemma replace_branch_subset: "set (replace_branch b bs) \<subseteq> insert b (set bs)"
  by (induction bs) auto

interpretation mb: branch_store memory_repo_ops mr_branches branches_ok
proof unfold_locales
  fix s :: "'v memory_repo" and b now
  assume "branches_ok s"
  then show "\<exists>s'. rs_saveBranch memory_repo_ops now s b = Some s' \<and> branches_ok s' \<and> b \<in> set (mr_branches s') \<and>
      set (mr_branches s') \<subseteq> insert b (set (mr_branches s))"
    using replace_branch_subset by (simp add: saveBranch_ok) (simp add: mr_saveBranch_def replace_branch_in replace_branch_subset)
qed (use getBranches_exact in \<open>auto simp: getBranches_set\<close>)

section \<open>History\<close>

text \<open>The commits from a hash on, newest first.\<close>

inductive commit_chain :: "'v memory_repo \<Rightarrow> string option \<Rightarrow> repo_commit list \<Rightarrow> bool" for s where
  chain_end: "\<not> given h \<Longrightarrow> commit_chain s h []"
| chain_more: "h \<noteq> [] \<Longrightarrow> mr_map s h = Some (RepoCommit c) \<Longrightarrow> commit_chain s (previousCommit c) cs
    \<Longrightarrow> commit_chain s (Some h) (c # cs)"

inductive_simps commit_chain_Cons: "commit_chain s (Some h) (c # cs)"

lemma chain_listed: "commit_chain s h cs \<Longrightarrow> listCommits memory_repo_ops s h = Some (Inr cs)"
  by (induction rule: commit_chain.induct) (simp_all add: listCommits.simps given_def)

lemma chain_mono: "commit_chain s h cs \<Longrightarrow> keeps_objects s s' \<Longrightarrow> commit_chain s' h cs"
proof (induction rule: commit_chain.induct)
  case (chain_more h c cs)
  with keeps_objectsD(1)[OF chain_more.prems] have "mr_map s' h = Some (RepoCommit c)" by blast
  with chain_more show ?case by (auto intro: commit_chain.chain_more)
qed (rule commit_chain.chain_end)

text \<open>
  The state of a run: the store, a repository over it, the history of its head, newest first, and, for
  every commit made so far, its history and the atoms that were committed.
\<close>

type_synonym 'v saved = "(repo_commit list \<times> 'v atom list) list"
type_synonym 'v repo_state = "'v memory_repo \<times> 'v causal_repo \<times> repo_commit list \<times> 'v saved"

definition find_saved :: "'v saved \<Rightarrow> string \<Rightarrow> (repo_commit list \<times> 'v atom list) option" where
  "find_saved saved k = find (\<lambda>(cs, _). map commit_hash (take 1 cs) = [k]) saved"

definition history_of :: "'v saved \<Rightarrow> string option \<Rightarrow> repo_commit list" where
  "history_of saved h = (case Option.bind h (find_saved saved) of None \<Rightarrow> [] | Some (cs, _) \<Rightarrow> cs)"

definition known :: "'v saved \<Rightarrow> string option \<Rightarrow> bool" where
  "known saved h = (case h of None \<Rightarrow> True | Some k \<Rightarrow> find_saved saved k \<noteq> None)"

text \<open>
  An operation adds or removes atoms, commits, goes back to a commit, creates a branch at a commit or
  without one, or checks out a branch, which discards what is not committed.
\<close>

inductive repo_step :: "repo_hasher \<Rightarrow> 'v repo_state \<Rightarrow> 'v repo_state \<Rightarrow> bool" for H where
  step_add: "addMany as R = (added, R') \<Longrightarrow> repo_step H (s, R, cs, saved) (s, R', cs, saved)"
| step_remove: "removeMany hs R = (removed, R') \<Longrightarrow> repo_step H (s, R, cs, saved) (s, R', cs, saved)"
| step_commit: "can_commit H s R message time
    \<Longrightarrow> repo_commit_changes H now memory_repo_ops s R message time = (Inr (Some c), s', R')
    \<Longrightarrow> repo_step H (s, R, cs, saved) (s', R', c # cs, (c # cs, repo_getAtoms R) # saved)"
| step_reset: "known saved h \<Longrightarrow> reset now memory_repo_ops s R h = (Inr (), s', R')
    \<Longrightarrow> repo_step H (s, R, cs, saved) (s', R', history_of saved h, saved)"
| step_branch: "known saved h \<Longrightarrow> createBranch now memory_repo_ops s R n h = (Inr (), s', R')
    \<Longrightarrow> repo_step H (s, R, cs, saved) (s', R', history_of saved h, saved)"
| step_checkout: "checkout now memory_repo_ops s R n None = (Inr (), s', R') \<Longrightarrow> repo_head R' = Some b
    \<Longrightarrow> repo_step H (s, R, cs, saved) (s', R', history_of saved (branch_hash b), saved)"

definition repo_start :: "'v repo_state" where
  "repo_start = (new_memory_repo, new_repo, [], [])"

section \<open>The invariant\<close>

text \<open>The atoms that are stored for an index are stored by themselves too.\<close>

definition indexes_ok :: "'v memory_repo \<Rightarrow> bool" where
  "indexes_ok s \<longleftrightarrow> (\<forall>i xs. mr_indexes s i = Some xs \<longrightarrow>
     (\<exists>as. xs = map RepoAtom as \<and> (\<forall>a\<in>set as. mr_map s (ahash a) = Some (RepoAtom a))))"

text \<open>The list of atoms that is stored for an index.\<close>

definition index_stored :: "repo_hasher \<Rightarrow> 'v memory_repo \<Rightarrow> string \<Rightarrow> 'v atom list \<Rightarrow> bool" where
  "index_stored H s i as \<longleftrightarrow> distinct (map ahash as) \<and> mr_map s i = Some (RepoIndex (repo_index H as)) \<and>
     i = index_hash (repo_index H as) \<and> mr_indexes s i = Some (map RepoAtom as)"

lemma index_storedD:
  assumes "index_stored H s i as"
  shows "distinct (map ahash as)" "mr_map s i = Some (RepoIndex (repo_index H as))" "i = index_hash (repo_index H as)"
    "mr_indexes s i = Some (map RepoAtom as)"
  using assms unfolding index_stored_def by blast+

text \<open>
  A commit that was made can be loaded, with its history. Its atoms are stored in the order in which they were
  committed last.
\<close>

definition saved_ok :: "repo_hasher \<Rightarrow> 'v memory_repo \<Rightarrow> repo_commit list \<Rightarrow> 'v atom list \<Rightarrow> bool" where
  "saved_ok H s cs as \<longleftrightarrow> (\<exists>c rest bs. cs = c # rest \<and> commit_chain s (Some (commit_hash c)) cs \<and>
     index_stored H s (commit_index c) bs \<and> set bs = set as)"

text \<open>A later store has the atoms of every index, perhaps in another order.\<close>

definition keeps_indexes :: "repo_hasher \<Rightarrow> 'v memory_repo \<Rightarrow> 'v memory_repo \<Rightarrow> bool" where
  "keeps_indexes H s s' \<longleftrightarrow> (\<forall>i as. index_stored H s i as \<longrightarrow> (\<exists>bs. index_stored H s' i bs \<and> set bs = set as))"

definition head_ok :: "'v memory_repo \<Rightarrow> 'v causal_repo \<Rightarrow> repo_commit list \<Rightarrow> 'v saved \<Rightarrow> bool" where
  "head_ok s R cs saved \<longleftrightarrow> (case repo_head R of
     None \<Rightarrow> currentCommit R = None \<and> cs = []
   | Some b \<Rightarrow> b \<in> set (mr_branches s) \<and> cs = history_of saved (branch_hash b) \<and>
       map_option commit_hash (old_commit R) = branch_hash b)"

definition repo_inv :: "repo_hasher \<Rightarrow> 'v repo_state \<Rightarrow> bool" where
  "repo_inv H x = (case x of (s, R, cs, saved) \<Rightarrow> repo_ok R \<and> branches_ok s \<and> indexes_ok s \<and>
     (\<forall>(h, as)\<in>set saved. saved_ok H s h as) \<and> (\<forall>b\<in>set (mr_branches s). known saved (branch_hash b)) \<and>
     head_ok s R cs saved)"

lemma repo_inv_start: "repo_inv H repo_start"
  by (simp add: repo_inv_def repo_start_def new_memory_repo_def new_repo_def repo_ok_def branches_ok_def indexes_ok_def
      head_ok_def committed_def apply_stage_def empty_stage_def)

lemma find_savedD: "find_saved saved k = Some (cs, as) \<Longrightarrow> (cs, as) \<in> set saved \<and> map commit_hash (take 1 cs) = [k]"
  unfolding find_saved_def by (induction saved) (auto split: if_splits prod.splits)

lemma find_saved_known: "(c # cs, as) \<in> set saved \<Longrightarrow> find_saved saved (commit_hash c) \<noteq> None"
  unfolding find_saved_def by (induction saved) auto

text \<open>Storing more objects keeps what was saved.\<close>

lemma saved_ok_mono:
  assumes "saved_ok H s cs as" and "keeps_objects s s'" and "keeps_indexes H s s'"
  shows "saved_ok H s' cs as"
proof -
  obtain c rest bs where c: "cs = c # rest" "commit_chain s (Some (commit_hash c)) cs"
      "index_stored H s (commit_index c) bs" "set bs = set as" using assms(1) unfolding saved_ok_def by blast
  obtain ds where "index_stored H s' (commit_index c) ds" "set ds = set bs"
    using assms(3) c(3) unfolding keeps_indexes_def by blast
  then show ?thesis using c chain_mono[OF c(2) assms(2)] unfolding saved_ok_def by blast
qed

lemma history_chain:
  assumes "\<forall>(h, as)\<in>set saved. saved_ok H s h as" and "known saved h"
  shows "commit_chain s h (history_of saved h)"
proof (cases h)
  case None
  then show ?thesis by (simp add: history_of_def chain_end given_def)
next
  case (Some k)
  then obtain cs as where f: "find_saved saved k = Some (cs, as)" using assms(2) by (auto simp: known_def)
  then have "saved_ok H s cs as" "map commit_hash (take 1 cs) = [k]" using assms(1) find_savedD[OF f] by auto
  then show ?thesis using Some f by (auto simp: history_of_def saved_ok_def)
qed

text \<open>Loading a commit that was saved yields its atoms.\<close>

lemma load_saved_commit:
  assumes "index_stored H s (commit_index c) bs"
  shows "loadCommit memory_repo_ops s n c = Inr \<lparr>cd_commit = Some c, cd_index = repo_index H bs, cd_atoms = by_hash bs\<rparr>"
proof -
  note i = index_storedD[OF assms]
  have "atomMap bs = by_hash bs" by (rule atomMap_distinct[OF i(1)])
  then show ?thesis
    using i(2,4) unfolding i(3) by (simp add: loadCommit_def loadIndex_def loadAtomsForHeadOrIndex_def mr_loadIndex_def i(3) read_atoms_all)
qed

lemma load_saved:
  assumes "saved_ok H s (c # cs) as" and "branch_hash b = Some (commit_hash c)"
  shows "\<exists>bs. loadBranch memory_repo_ops s b = Inr (Some \<lparr>cd_commit = Some c, cd_index = repo_index H bs, cd_atoms = by_hash bs\<rparr>) \<and>
    distinct (map ahash bs) \<and> set bs = set as"
proof -
  obtain bs where bs: "commit_chain s (Some (commit_hash c)) (c # cs)" "index_stored H s (commit_index c) bs" "set bs = set as"
    using assms(1) unfolding saved_ok_def by blast
  have "mr_map s (commit_hash c) = Some (RepoCommit c)" using bs(1) by (simp add: commit_chain_Cons)
  then have "loadBranch memory_repo_ops s b = Inr (Some \<lparr>cd_commit = Some c, cd_index = repo_index H bs, cd_atoms = by_hash bs\<rparr>)"
    by (simp add: loadBranch_def assms(2) load_saved_commit[OF bs(2)])
  moreover have "distinct (map ahash bs)" using bs(2) by (simp add: index_stored_def)
  ultimately show ?thesis using bs(3) by blast
qed

lemma image_eq_same:
  assumes eq: "f ` A = f ` B" and same: "\<And>x y. x \<in> A \<Longrightarrow> y \<in> B \<Longrightarrow> f x = f y \<Longrightarrow> x = y"
  shows "A = B"
proof (intro set_eqI iffI)
  fix x assume x: "x \<in> A"
  then obtain y where "y \<in> B" "f x = f y" using eq by (metis (no_types) imageE imageI)
  with same[OF x] show "x \<in> B" by blast
next
  fix y assume y: "y \<in> B"
  then obtain x where "x \<in> A" "f x = f y" using eq by (metis (no_types) imageE imageI)
  with same[OF _ y] show "y \<in> A" by blast
qed

lemma repo_index_atoms:
  "distinct (map ahash as) \<Longrightarrow> set (index_atoms (repo_index H as)) = (\<lambda>a. (ahash a, atomIdToString (aid a))) ` set as"
  by (simp add: repo_index_def createIndex_def atomHashList_distinct)

lemma next_indexes:
  assumes idx: "indexes_ok s" and f: "fits s (next_objects H R message time)" and "keyed (repo_atoms R)"
  shows "keeps_indexes H s (next_store H now s R message time b)"
    and "indexes_ok (next_store H now s R message time b)"
proof -
  let ?as = "repo_getAtoms R" and ?i = "index_hash (next_index H R)" and ?s = "next_store H now s R message time b"
  let ?new = "next_objects H R message time"
  have dist: "distinct (map ahash ?as)" unfolding repo_getAtoms_def by (rule keyed_distinct[OF assms(3)])
  have new: "mr_indexes ?s = (mr_indexes s)(?i \<mapsto> map RepoAtom ?as)" by (simp add: next_store_def mr_saveBranch_def)
  have in_new: "RepoAtom a \<in> set ?new" if "a \<in> set ?as" for a using that by (simp add: next_objects_def)
  have kept: "mr_map ?s h = Some (RepoAtom a)" if "mr_map s h = Some (RepoAtom a)" for h a
    by (rule keeps_objectsD(2)[OF next_store_map(1)[OF f] that])
  have stored: "mr_map ?s (ahash a) = Some (RepoAtom a)" if "a \<in> set ?as" for a
    using stored_fits(2)[of "s\<lparr>mr_indexes := (mr_indexes s)(?i \<mapsto> map RepoAtom ?as)\<rparr>" ?new "RepoAtom a" "branch_name b"] f in_new[OF that]
    by (auto simp: next_store_def mr_saveBranch_def fits_def)
  have now: "index_stored H ?s ?i ?as"
    using dist next_store_map(3)[OF f, of now b] new by (simp add: index_stored_def next_index_def)
  have same: "set as = set ?as" if as: "index_stored H s ?i as" for as
  proof -
    note d = index_storedD(1)[OF as] and m = index_storedD(2)[OF as] and l = index_storedD(4)[OF as]
    have "set (index_atoms (repo_index H as)) = set (index_atoms (repo_index H ?as))"
      using fitsD(1)[OF f, of "RepoIndex (next_index H R)" "RepoIndex (repo_index H as)"] m
      by (auto simp: next_objects_def same_object_def next_index_def)
    then have hashes: "(\<lambda>a. (ahash a, atomIdToString (aid a))) ` set as = (\<lambda>a. (ahash a, atomIdToString (aid a))) ` set ?as"
      by (simp only: repo_index_atoms[OF d] repo_index_atoms[OF dist])
    obtain bs where "map RepoAtom as = map RepoAtom bs" "\<forall>a\<in>set bs. mr_map s (ahash a) = Some (RepoAtom a)"
      using idx l unfolding indexes_ok_def by blast
    moreover from this(1) have "as = bs" by (rule list.inj_map_strong[rotated]) simp
    ultimately have mine: "mr_map s (ahash a) = Some (RepoAtom a)" if "a \<in> set as" for a using that by blast
    have eq: "a = c" if "a \<in> set as" "c \<in> set ?as" "ahash a = ahash c" for a c
      using fitsD(1)[OF f in_new[OF that(2)], of "RepoAtom a"] mine[OF that(1)] that(3) by (simp add: same_object_simps)
    have "ahash ` set as = ahash ` set ?as" using arg_cong[OF hashes, of "image fst"] by (simp add: image_image)
    then show ?thesis using eq by (rule image_eq_same)
  qed
  show "keeps_indexes H s ?s"
    unfolding keeps_indexes_def
  proof (intro allI impI)
    fix i as assume as: "index_stored H s i as"
    show "\<exists>bs. index_stored H ?s i bs \<and> set bs = set as"
    proof (cases "i = ?i")
      case True
      with same as now show ?thesis by blast
    next
      case False
      note m = index_storedD(2)[OF as]
      obtain y where y: "mr_map ?s i = Some y" "same_object (RepoIndex (repo_index H as)) y"
        using next_store_map(1)[OF f, of now b] m unfolding keeps_objects_def by blast
      have "\<not> (y \<in> set ?new \<and> obj_hash y = i)"
        using y(2) False by (auto simp: next_objects_def same_object_simps same_object_def next_index_def)
      moreover have "mr_map s i = Some y \<or> (y \<in> set ?new \<and> obj_hash y = i)"
        using stored_from[of "s\<lparr>mr_indexes := (mr_indexes s)(?i \<mapsto> map RepoAtom ?as)\<rparr>" "branch_name b" ?new i y] y(1)
        by (simp add: next_store_def mr_saveBranch_def)
      ultimately have "mr_map s i = Some y" by blast
      then have "mr_map ?s i = Some (RepoIndex (repo_index H as))" using m y(1) by simp
      moreover have "mr_indexes ?s i = Some (map RepoAtom as)" using index_storedD(4)[OF as] new False by simp
      ultimately have "index_stored H ?s i as" unfolding index_stored_def using index_storedD(1,3)[OF as] by blast
      then show ?thesis by blast
    qed
  qed
  show "indexes_ok ?s"
    unfolding indexes_ok_def
  proof (intro allI impI)
    fix i xs assume i: "mr_indexes ?s i = Some xs"
    show "\<exists>as. xs = map RepoAtom as \<and> (\<forall>a\<in>set as. mr_map ?s (ahash a) = Some (RepoAtom a))"
    proof (cases "i = ?i")
      case True
      with i new stored show ?thesis by auto
    next
      case False
      with i new have "mr_indexes s i = Some xs" by simp
      then obtain as where "xs = map RepoAtom as" "\<forall>a\<in>set as. mr_map s (ahash a) = Some (RepoAtom a)"
        using idx unfolding indexes_ok_def by blast
      then show ?thesis using kept by blast
    qed
  qed
qed

section \<open>Every operation keeps the invariant\<close>

lemma addMany_frame: "addMany as R = (added, R') \<Longrightarrow> repo_head R' = repo_head R \<and> currentCommit R' = currentCommit R"
  by (induction as R arbitrary: added R' rule: addMany.induct)
    (auto simp: stage_add_def split: prod.splits if_splits)

lemma removeMany_frame: "removeMany hs R = (removed, R') \<Longrightarrow> repo_head R' = repo_head R \<and> currentCommit R' = currentCommit R"
  by (induction hs R arbitrary: removed R' rule: removeMany.induct)
    (auto simp: stage_remove_def split: prod.splits option.splits)

lemma setCurrentCommit_simps [simp]:
  "repo_head (setCurrentCommit c R) = repo_head R"
  "currentCommit (setCurrentCommit c R) = c"
  "repo_atoms (setCurrentCommit c R) = (case c of None \<Rightarrow> [] | Some d \<Rightarrow> cd_atoms d)"
  "\<not> hasChanges (setCurrentCommit c R)"
  by (simp_all add: setCurrentCommit_def hasChanges_def empty_stage_def)

lemma old_commit_set [simp]: "old_commit (setCurrentCommit c R) = Option.bind c cd_commit"
  by (simp add: old_commit_def)

lemma keyed_by_hash_distinct: "distinct (map ahash as) \<Longrightarrow> keyed (by_hash as)"
  by (auto simp: keyed_def comp_def)

lemma load_known:
  assumes "\<forall>(h, as)\<in>set saved. saved_ok H s h as" and "known saved (branch_hash b)"
  shows "\<exists>d. loadBranch memory_repo_ops s b = Inr d \<and> (\<forall>x. d = Some x \<longrightarrow> keyed (cd_atoms x)) \<and>
    map_option commit_hash (Option.bind d cd_commit) = branch_hash b"
proof (cases "branch_hash b")
  case None
  then show ?thesis by (intro exI[of _ None]) (simp add: loadBranch_def)
next
  case (Some k)
  then obtain cs as where f: "find_saved saved k = Some (cs, as)" using assms(2) by (auto simp: known_def)
  then have ok: "saved_ok H s cs as" "map commit_hash (take 1 cs) = [k]" using assms(1) find_savedD[OF f] by auto
  then obtain c rest where c: "cs = c # rest" "commit_hash c = k" by (auto simp: saved_ok_def)
  show ?thesis using load_saved[OF ok(1)[unfolded c(1)], of b] Some c(2) by (auto simp: keyed_by_hash_distinct)
qed

lemma saved_ok_saveBranch: "saved_ok H s cs as \<Longrightarrow> saved_ok H (mr_saveBranch now s b) cs as"
  by (erule saved_ok_mono) (auto simp: mr_saveBranch_def keeps_objects_def keeps_indexes_def index_stored_def)

lemma moveHead_inv:
  assumes inv: "repo_inv H (s, R, cs, saved)" and known: "known saved (branch_hash b)"
  shows "\<exists>s' R'. moveHead now memory_repo_ops s R b = (Inr (), s', R') \<and>
    repo_inv H (s', R', history_of saved (branch_hash b), saved) \<and> repo_head R' = Some b \<and> \<not> hasChanges R' \<and>
    Inr (currentCommit R') = loadBranch memory_repo_ops s' b"
proof -
  let ?s = "mr_saveBranch now s b"
  have saved: "\<forall>(h, as)\<in>set saved. saved_ok H ?s h as" using inv by (auto simp: repo_inv_def saved_ok_saveBranch)
  obtain d where d: "loadBranch memory_repo_ops ?s b = Inr d" "\<And>x. d = Some x \<Longrightarrow> keyed (cd_atoms x)"
      "map_option commit_hash (Option.bind d cd_commit) = branch_hash b"
    using load_known[OF saved known] by blast
  let ?R = "setCurrentCommit d (R\<lparr>repo_head := Some b\<rparr>)"
  have run: "moveHead now memory_repo_ops s R b = (Inr (), ?s, ?R)"
    using d(1) by (simp add: moveHead_def saveHead_def checkoutHead_def)
  have "b \<in> set (mr_branches ?s)" by (simp add: mr_saveBranch_def replace_branch_in)
  then have "head_ok ?s ?R (history_of saved (branch_hash b)) saved" using d(3) by (simp add: head_ok_def)
  moreover have "branches_ok ?s" "indexes_ok ?s"
    using inv by (auto simp: repo_inv_def saveBranch_ok) (simp add: indexes_ok_def mr_saveBranch_def)
  moreover have "\<forall>x\<in>set (mr_branches ?s). known saved (branch_hash x)"
    using inv known replace_branch_subset[of b "mr_branches s"] by (auto simp: repo_inv_def mr_saveBranch_def)
  moreover have "repo_ok ?R" by (rule repo_ok_setCurrentCommit) (rule d(2))
  ultimately have "repo_inv H (?s, ?R, history_of saved (branch_hash b), saved)" using saved by (simp add: repo_inv_def)
  with run d(1) show ?thesis by simp
qed

lemma moveHead_keeps:
  assumes "repo_inv H (s, R, cs, saved)" and "known saved (branch_hash b)"
    and "moveHead now memory_repo_ops s R b = (Inr (), s', R')"
  shows "repo_inv H (s', R', history_of saved (branch_hash b), saved)" and "repo_head R' = Some b"
  using moveHead_inv[OF assms(1,2), of now] assms(3) by auto

lemma next_saved:
  assumes inv: "repo_inv H (s, R, cs, saved)" and can: "can_commit H s R message time" and head: "repo_head R = Some b"
  shows "saved_ok H (next_store H now s R message time b) (next_commit H R message time # cs) (repo_getAtoms R)"
proof -
  let ?c = "next_commit H R message time" and ?s = "next_store H now s R message time b"
  have f: "fits s (next_objects H R message time)" using can by (simp add: can_commit_def)
  have b: "cs = history_of saved (branch_hash b)" "map_option commit_hash (old_commit R) = branch_hash b"
      "b \<in> set (mr_branches s)" and keyed: "keyed (repo_atoms R)"
    using inv head by (auto simp: repo_inv_def head_ok_def repo_ok_keyed)
  have "commit_chain s (branch_hash b) cs"
    unfolding b(1) by (rule history_chain) (use inv b(3) in \<open>auto simp: repo_inv_def\<close>)
  then have "commit_chain ?s (previousCommit ?c) cs"
    using chain_mono[OF _ next_store_map(1)[OF f]] b(2) by (simp add: next_commit_def make_commit_def repoCommit_def)
  then have chain: "commit_chain ?s (Some (commit_hash ?c)) (?c # cs)"
    by (intro chain_more) (use can next_store_map(2)[OF f] in \<open>auto simp: can_commit_def\<close>)
  have idx: "commit_index ?c = index_hash (repo_index H (repo_getAtoms R))"
    by (simp add: next_commit_def make_commit_def repoCommit_def next_index_def)
  have "mr_indexes ?s (index_hash (next_index H R)) = Some (map RepoAtom (repo_getAtoms R))"
    by (simp add: next_store_def mr_saveBranch_def)
  with idx next_store_map(3)[OF f] keyed_distinct[OF keyed] have "index_stored H ?s (commit_index ?c) (repo_getAtoms R)"
    by (simp add: index_stored_def repo_getAtoms_def next_index_def)
  with chain show ?thesis unfolding saved_ok_def by blast
qed

lemma repo_inv_commit:
  assumes inv: "repo_inv H (s, R, cs, saved)" and can: "can_commit H s R message time"
    and run: "repo_commit_changes H now memory_repo_ops s R message time = (Inr (Some c), s', R')"
  shows "repo_inv H (s', R', c # cs, (c # cs, repo_getAtoms R) # saved)"
proof -
  have ok: "repo_ok R" "branches_ok s" "indexes_ok s" and f: "fits s (next_objects H R message time)"
    using inv can by (auto simp: repo_inv_def can_commit_def)
  obtain b where head: "repo_head R = Some b"
    using run can by (cases "repo_head R") (auto simp: repo_commit_changes_def can_commit_def)
  let ?c = "next_commit H R message time" and ?s = "next_store H now s R message time b" and ?b = "next_head H now R message time b"
  let ?saved = "(?c # cs, repo_getAtoms R) # saved"
  have res: "c = ?c" "s' = ?s" "R' = setCurrentCommit (Some (next_data H R message time)) (R\<lparr>repo_head := Some ?b\<rparr>)"
    using commit_memory[OF ok(1) can head, of now] run by simp_all
  have keyed: "keyed (repo_atoms R)" using ok(1) by (rule repo_ok_keyed)
  have old: "saved_ok H s h as \<Longrightarrow> saved_ok H ?s h as" for h as
    by (rule saved_ok_mono[OF _ next_store_map(1)[OF f] next_indexes(1)[OF ok(3) f keyed]])
  have saved: "\<forall>(h, as)\<in>set ?saved. saved_ok H ?s h as"
    using next_saved[OF inv can head] inv old by (auto simp: repo_inv_def)
  have more: "known saved h \<Longrightarrow> known ?saved h" for h
    by (auto simp: known_def find_saved_def split: option.splits)
  have new: "known ?saved (branch_hash ?b)" "history_of ?saved (branch_hash ?b) = ?c # cs"
    by (simp_all add: known_def history_of_def find_saved_def next_head_def)
  have branches: "mr_branches ?s = replace_branch ?b (mr_branches s)" by (simp add: next_store_def mr_saveBranch_def)
  then have "\<forall>x\<in>set (mr_branches ?s). known ?saved (branch_hash x)"
    using inv new(1) more replace_branch_subset[of ?b "mr_branches s"] by (auto simp: repo_inv_def)
  moreover have "branches_ok ?s" using ok(2) branches by (simp add: branches_ok_def replace_branch_names)
  moreover have "repo_ok R'" unfolding res by (rule repo_ok_setCurrentCommit) (use keyed in \<open>auto simp: next_data_def\<close>)
  moreover have "head_ok ?s R' (?c # cs) ?saved"
    using new(2) branches replace_branch_in[of ?b] by (simp add: head_ok_def res next_data_def) (simp add: next_head_def)
  ultimately show ?thesis
    using saved next_indexes(2)[OF ok(3) f keyed] by (simp add: repo_inv_def res)
qed

lemma known_given:
  assumes "repo_inv H (s, R, cs, saved)" and "known saved h"
  shows "given h \<or> h = None"
proof (rule ccontr)
  assume "\<not> (given h \<or> h = None)"
  then have "h = Some []" by (auto simp: given_def)
  with assms(2) obtain es as where f: "find_saved saved [] = Some (es, as)" by (auto simp: known_def)
  from find_savedD[OF f] have "(es, as) \<in> set saved" "map commit_hash (take 1 es) = [[]]" by auto
  moreover from this(1) assms(1) have "saved_ok H s es as" by (auto simp: repo_inv_def)
  ultimately show False by (auto simp: saved_ok_def commit_chain_Cons)
qed

lemma repo_inv_step: "repo_step H x y \<Longrightarrow> repo_inv H x \<Longrightarrow> repo_inv H y"
proof (induction rule: repo_step.induct)
  case (step_add as R added R' s cs saved)
  then show ?case using addMany_ok[of R as] addMany_frame[of as R]
    by (auto simp: repo_inv_def old_commit_def head_ok_def split: option.splits)
next
  case (step_remove hs R removed R' s cs saved)
  then show ?case using removeMany_ok[of R hs] removeMany_frame[of hs R]
    by (auto simp: repo_inv_def old_commit_def head_ok_def split: option.splits)
next
  case (step_commit s R message time now c s' R' cs saved)
  then show ?case by (blast intro: repo_inv_commit)
next
  case (step_reset saved h now s R s' R' cs)
  then obtain b :: repo_branch where "moveHead now memory_repo_ops s R \<lparr>branch_name = branch_name b, branch_hash = h, branch_time = Some now\<rparr>
      = (Inr (), s', R')"
    by (auto simp: reset_def split: option.splits)
  from moveHead_keeps(1)[OF step_reset(3) _ this] step_reset(1) show ?case by simp
next
  case (step_branch saved h now s R n s' R' cs)
  have eq: "(if given h then h else None) = h"
    using known_given[OF step_branch(3,1)] by auto
  from moveHead_keeps(1)[OF step_branch(3) _ mb.createBranch_moves[OF step_branch(2)]] step_branch(1) show ?case
    by (simp add: eq)
next
  case (step_checkout now s R n s' R' b cs saved)
  obtain x where x: "x \<in> set (mr_branches s)" "moveHead now memory_repo_ops s R x = (Inr (), s', R')"
    using mb.checkout_moves[OF _ step_checkout(1)] step_checkout(3) by (auto simp: repo_inv_def)
  then have "known saved (branch_hash x)" using step_checkout(3) by (auto simp: repo_inv_def)
  from moveHead_keeps[OF step_checkout(3) this x(2)] step_checkout(2) show ?case by simp
qed

lemma repo_inv_reachable: "(repo_step H)\<^sup>*\<^sup>* repo_start x \<Longrightarrow> repo_inv H x"
  by (induction rule: rtranclp_induct) (auto intro: repo_inv_step repo_inv_start)

end
