(* ===== verification/RepoClaims.thy ===== *)
theory RepoClaims
  imports RepoHistory CausalDemo
begin

text \<open>
  Properties of causal repositories over the store in memory, for every state that a sequence of
  operations on one repository leads to, with examples, and what the code does on some inputs that its
  comments do not foresee.
\<close>

section \<open>A run\<close>

definition demo_repo_hasher :: repo_hasher where
  "demo_repo_hasher = \<lparr>hash_list = joined,
     hash_parts = (\<lambda>ps. concat (map (\<lambda>p. case p of None \<Rightarrow> ''-'' | Some x \<Rightarrow> x @ '';'') ps)), toISOString = show_int\<rparr>"

text \<open>Two commits on a new branch: two atoms, then one of them replaced by another.\<close>

definition demo1 :: "string memory_repo \<times> string causal_repo" where
  "demo1 = (case createBranch 1 memory_repo_ops new_memory_repo new_repo ''main'' None of
     (_, s, R) \<Rightarrow> (s, snd (addMany [atomR, atomA] R)))"

definition demo2 :: "string memory_repo \<times> string causal_repo" where
  "demo2 = (case repo_commit_changes demo_repo_hasher 2 memory_repo_ops (fst demo1) (snd demo1) ''first'' 2 of
     (_, s, R) \<Rightarrow> (s, snd (removeMany [ahash atomA] (snd (addMany [atomD] R)))))"

definition demo3 :: "string memory_repo \<times> string causal_repo" where
  "demo3 = (case repo_commit_changes demo_repo_hasher 3 memory_repo_ops (fst demo2) (snd demo2) ''second'' 3 of (_, s, R) \<Rightarrow> (s, R))"

definition demo_commit1 :: repo_commit where "demo_commit1 = next_commit demo_repo_hasher (snd demo1) ''first'' 2"
definition demo_commit2 :: repo_commit where "demo_commit2 = next_commit demo_repo_hasher (snd demo2) ''second'' 3"

lemma demo1_can: "can_commit demo_repo_hasher (fst demo1) (snd demo1) ''first'' 2" by code_simp
lemma demo2_can: "can_commit demo_repo_hasher (fst demo2) (snd demo2) ''second'' 3" by code_simp

lemma demo1_reached: "(repo_step demo_repo_hasher)\<^sup>*\<^sup>* repo_start (fst demo1, snd demo1, [], [])"
proof -
  obtain r s and R :: "string causal_repo" where
    b: "createBranch 1 memory_repo_ops new_memory_repo new_repo ''main'' None = (r, s, R)" by (metis prod_cases3)
  moreover have "fst (createBranch 1 memory_repo_ops (new_memory_repo :: string memory_repo) new_repo ''main'' None) = Inr ()"
    by code_simp
  ultimately have run: "createBranch 1 memory_repo_ops new_memory_repo new_repo ''main'' None = (Inr (), s, R)" by simp
  have "repo_step demo_repo_hasher repo_start (s, R, history_of ([] :: string saved) None, [])"
    unfolding repo_start_def by (rule step_branch[OF _ run]) (simp add: known_def)
  then have "repo_step demo_repo_hasher repo_start (s, R, [], [])" by (simp add: history_of_def)
  moreover have "repo_step demo_repo_hasher (s, R, [], []) (s, snd (addMany [atomR, atomA] R), [], [])"
    by (rule step_add) (rule prod.collapse[symmetric])
  ultimately show ?thesis unfolding demo1_def b by (auto intro: rtranclp.intros)
qed

lemma commit_succeeds:
  assumes "(repo_step H)\<^sup>*\<^sup>* repo_start (s, R, cs, saved)" and "can_commit H s R message time" and "repo_head R \<noteq> None"
  shows "\<exists>s' R'. repo_commit_changes H now memory_repo_ops s R message time = (Inr (Some (next_commit H R message time)), s', R') \<and>
    (repo_step H)\<^sup>*\<^sup>* repo_start (s', R', next_commit H R message time # cs, (next_commit H R message time # cs, repo_getAtoms R) # saved)"
proof -
  obtain b where b: "repo_head R = Some b" using assms(3) by blast
  have "repo_ok R" using repo_inv_reachable[OF assms(1)] by (simp add: repo_inv_def)
  from commit_memory[OF this assms(2) b, of now] step_commit[OF assms(2)] assms(1) show ?thesis
    by (fastforce intro: rtranclp.rtrancl_into_rtrancl)
qed

lemma demo2_reached:
  "(repo_step demo_repo_hasher)\<^sup>*\<^sup>* repo_start (fst demo2, snd demo2, [demo_commit1], [([demo_commit1], repo_getAtoms (snd demo1))])"
proof -
  have "repo_head (snd demo1) \<noteq> None" by code_simp
  then obtain s and R :: "string causal_repo" where
    c: "repo_commit_changes demo_repo_hasher 2 memory_repo_ops (fst demo1) (snd demo1) ''first'' 2 = (Inr (Some demo_commit1), s, R)"
    and r: "(repo_step demo_repo_hasher)\<^sup>*\<^sup>* repo_start (s, R, [demo_commit1], [([demo_commit1], repo_getAtoms (snd demo1))])"
    unfolding demo_commit1_def using commit_succeeds[OF demo1_reached demo1_can, of 2] by blast
  let ?R = "snd (addMany [atomD] R)"
  have step: "repo_step demo_repo_hasher (s, R, cs, saved) (s, ?R, cs, saved)"
    "repo_step demo_repo_hasher (s, ?R, cs, saved) (s, snd (removeMany [ahash atomA] ?R), cs, saved)" for cs saved
    by (rule step_add step_remove, rule prod.collapse[symmetric])+
  show ?thesis unfolding demo2_def c
    using rtranclp.rtrancl_into_rtrancl[OF rtranclp.rtrancl_into_rtrancl[OF r step(1)] step(2)] by simp
qed

lemma demo3_reached:
  "(repo_step demo_repo_hasher)\<^sup>*\<^sup>* repo_start (fst demo3, snd demo3, [demo_commit2, demo_commit1],
     [([demo_commit2, demo_commit1], repo_getAtoms (snd demo2)), ([demo_commit1], repo_getAtoms (snd demo1))])"
proof -
  have "repo_head (snd demo2) \<noteq> None" by code_simp
  from commit_succeeds[OF demo2_reached demo2_can this, of 3] show ?thesis
    by (auto simp: demo3_def demo_commit2_def)
qed

section \<open>Properties\<close>

text \<open>After any operations the stage describes exactly how the working set differs from the commit that is
  checked out: the atom with a hash is the staged addition, if there is one, no atom, if the hash is among the
  staged deletions, and otherwise that of the commit; every atom is kept under its own hash, once, and no hash is staged
  both for addition and for deletion.\<close>

theorem stage_describes_changes:
  assumes "(repo_step H)\<^sup>*\<^sup>* repo_start (s, R, cs, saved)"
  shows "keyed (repo_atoms R) \<and> distinct (map ahash (full_additions (repo_stage R))) \<and>
    (h \<in> ahash ` set (full_additions (repo_stage R)) \<longrightarrow> map_of (full_deletions (repo_stage R)) h = None) \<and>
    map_of (repo_atoms R) h =
      (case map_of (by_hash (full_additions (repo_stage R))) h of
         Some a \<Rightarrow> Some a
       | None \<Rightarrow> if map_of (full_deletions (repo_stage R)) h = None then map_of (committed R) h else None)"
  using repo_inv_reachable[OF assms] by (simp add: repo_inv_def repo_ok_def apply_stage_def)

lemma stage_describes_changes_witness:
  "map_of (repo_atoms (snd demo2)) (ahash atomA) = None \<and> map_of (repo_atoms (snd demo2)) (ahash atomR) = Some atomR \<and>
   map_of (repo_atoms (snd demo2)) (ahash atomD) = Some atomD"
  unfolding stage_describes_changes[OF demo2_reached, THEN conjunct2, THEN conjunct2, THEN conjunct2] by (intro conjI) code_simp+

text \<open>C21: The history that is listed from the head of a repository is the list of the commits that were made on the
  way to it, newest first, whatever was added, removed and committed, on this branch and on others, and whatever was reset
  or checked out in between; the listing always returns. Conditions: one repository works on the store in memory, and
  no commit stores an object whose hash is empty or is that of a different object (\<open>can_commit\<close>).\<close>

theorem history_is_commits:
  assumes "(repo_step H)\<^sup>*\<^sup>* repo_start (s, R, cs, saved)" and "repo_head R = Some b"
  shows "listCommits memory_repo_ops s (branch_hash b) = Some (Inr cs)"
proof -
  have inv: "repo_inv H (s, R, cs, saved)" by (rule repo_inv_reachable[OF assms(1)])
  then have "b \<in> set (mr_branches s)" "cs = history_of saved (branch_hash b)"
    using assms(2) by (auto simp: repo_inv_def head_ok_def)
  with inv show ?thesis using history_chain[of saved H s "branch_hash b"] chain_listed by (fastforce simp: repo_inv_def)
qed

lemma history_is_commits_witness:
  "\<exists>b. repo_head (snd demo3) = Some b \<and> listCommits memory_repo_ops (fst demo3) (branch_hash b) = Some (Inr [demo_commit2, demo_commit1])"
proof -
  have "repo_head (snd demo3) \<noteq> None" by code_simp
  then show ?thesis using history_is_commits[OF demo3_reached] by blast
qed

text \<open>A commit of changed atoms whose hashes do not collide succeeds: it follows on the commit of the branch, leaves
  the working set as it is, with nothing staged, and moves the branch, so that every repository over the store
  that checks the branch out gets the same atoms in the same order.\<close>

theorem commit_is_checked_out:
  assumes "(repo_step H)\<^sup>*\<^sup>* repo_start (s, R, cs, saved)" and "repo_head R = Some b" and "can_commit H s R message time"
  shows "\<exists>c s' R'. repo_commit_changes H now memory_repo_ops s R message time = (Inr (Some c), s', R') \<and>
    previousCommit c = branch_hash b \<and> repo_getAtoms R' = repo_getAtoms R \<and> \<not> hasChanges R' \<and>
    (\<forall>now' R2. \<exists>s2 R3. checkout now' memory_repo_ops s' R2 (branch_name b) None = (Inr (), s2, R3) \<and>
       repo_getAtoms R3 = repo_getAtoms R \<and> \<not> hasChanges R3)"
proof -
  have inv: "repo_inv H (s, R, cs, saved)" by (rule repo_inv_reachable[OF assms(1)])
  then have ok: "repo_ok R" "branches_ok s" by (simp_all add: repo_inv_def)
  let ?c = "next_commit H R message time" and ?s = "next_store H now s R message time b" and ?b = "next_head H now R message time b"
  let ?d = "Some (next_data H R message time)"
  have run: "repo_commit_changes H now memory_repo_ops s R message time = (Inr (Some ?c), ?s, setCurrentCommit ?d (R\<lparr>repo_head := Some ?b\<rparr>))"
    by (rule commit_memory[OF ok(1) assms(3,2)])
  have "branches_ok ?s" "?b \<in> set (mr_branches ?s)"
    using ok(2) by (simp_all add: branches_ok_def next_store_def mr_saveBranch_def replace_branch_names replace_branch_in)
  then have out: "checkout now' memory_repo_ops ?s R2 (branch_name b) None = moveHead now' memory_repo_ops ?s R2 ?b" for now' R2
    using mb.checkout_exact[of ?s ?b] by (simp add: next_head_def)
  have "loadBranch memory_repo_ops (mr_saveBranch now' ?s ?b) ?b = Inr ?d" for now'
    by (rule load_next) (use ok(1) assms(3) in \<open>simp_all add: repo_ok_keyed can_commit_def next_head_def mr_saveBranch_def\<close>)
  then have "moveHead now' memory_repo_ops ?s R2 ?b = (Inr (), mr_saveBranch now' ?s ?b, setCurrentCommit ?d (R2\<lparr>repo_head := Some ?b\<rparr>))" for now' R2
    by (simp add: moveHead_def saveHead_def checkoutHead_def)
  moreover have "previousCommit ?c = branch_hash b"
    using inv assms(2) by (simp add: next_commit_def make_commit_def repoCommit_def repo_inv_def head_ok_def)
  ultimately show ?thesis using run out by (simp add: repo_getAtoms_def next_data_def)
qed

lemma commit_is_checked_out_witness:
  "\<exists>c s' R'. repo_commit_changes demo_repo_hasher 3 memory_repo_ops (fst demo2) (snd demo2) ''second'' 3 = (Inr (Some c), s', R') \<and>
    repo_getAtoms R' = [atomR, atomD]"
proof -
  have "repo_head (snd demo2) \<noteq> None" by code_simp
  then obtain b where "repo_head (snd demo2) = Some b" by blast
  moreover have "repo_getAtoms (snd demo2) = [atomR, atomD]" by code_simp
  ultimately show ?thesis using commit_is_checked_out[OF demo2_reached _ demo2_can, of b 3] by auto
qed

text \<open>C22: Whatever was done since, also on other branches: resetting the branch that is checked out to a commit that was made
  restores exactly the atoms that were committed, each once, with nothing staged, and the history of that commit. They are
  restored as a set: when the same atoms were committed again in another order, that is the order of all commits of them
  (\<open>order_of_commit_lost\<close>). Conditions: one repository works on the store in memory, and no commit stores an object whose
  hash is empty or is that of a different object (\<open>can_commit\<close>).\<close>

theorem commit_is_never_lost:
  assumes "(repo_step H)\<^sup>*\<^sup>* repo_start (s, R, cs, saved)" and "repo_head R = Some b" and "(c # h, as) \<in> set saved"
  shows "\<exists>s' R'. reset now memory_repo_ops s R (Some (commit_hash c)) = (Inr (), s', R') \<and>
    set (repo_getAtoms R') = set as \<and> distinct (map ahash (repo_getAtoms R')) \<and> \<not> hasChanges R' \<and>
    listCommits memory_repo_ops s' (Some (commit_hash c)) = Some (Inr (c # h))"
proof -
  have inv: "repo_inv H (s, R, cs, saved)" by (rule repo_inv_reachable[OF assms(1)])
  have ok: "saved_ok H s (c # h) as" using inv assms(3) by (auto simp: repo_inv_def)
  let ?b = "\<lparr>branch_name = branch_name b, branch_hash = Some (commit_hash c), branch_time = Some now\<rparr>"
  have kept: "saved_ok H (mr_saveBranch now s ?b) (c # h) as" by (rule saved_ok_saveBranch[OF ok])
  then have chain: "commit_chain (mr_saveBranch now s ?b) (Some (commit_hash c)) (c # h)" by (auto simp: saved_ok_def)
  obtain bs where bs: "loadBranch memory_repo_ops (mr_saveBranch now s ?b) ?b =
      Inr (Some \<lparr>cd_commit = Some c, cd_index = repo_index H bs, cd_atoms = by_hash bs\<rparr>)" "distinct (map ahash bs)" "set bs = set as"
    using load_saved[OF kept, of ?b] by auto
  have "reset now memory_repo_ops s R (Some (commit_hash c)) = moveHead now memory_repo_ops s R ?b"
    using assms(2) by (simp add: reset_def)
  also have "\<dots> = (Inr (), mr_saveBranch now s ?b,
      setCurrentCommit (Some \<lparr>cd_commit = Some c, cd_index = repo_index H bs, cd_atoms = by_hash bs\<rparr>) (R\<lparr>repo_head := Some ?b\<rparr>))"
    using bs(1) by (simp add: moveHead_def saveHead_def checkoutHead_def)
  finally have "reset now memory_repo_ops s R (Some (commit_hash c)) = (Inr (), mr_saveBranch now s ?b,
      setCurrentCommit (Some \<lparr>cd_commit = Some c, cd_index = repo_index H bs, cd_atoms = by_hash bs\<rparr>) (R\<lparr>repo_head := Some ?b\<rparr>))" .
  moreover have "repo_getAtoms (setCurrentCommit (Some \<lparr>cd_commit = Some c, cd_index = repo_index H bs, cd_atoms = by_hash bs\<rparr>)
      (R\<lparr>repo_head := Some ?b\<rparr>)) = bs" by (simp add: repo_getAtoms_def comp_def)
  ultimately show ?thesis using chain_listed[OF chain] bs(2,3) by (intro exI conjI) (assumption | simp)+
qed

lemma commit_is_never_lost_witness:
  "\<exists>s' R'. reset 4 memory_repo_ops (fst demo3) (snd demo3) (Some (commit_hash demo_commit1)) = (Inr (), s', R') \<and>
    set (repo_getAtoms R') = {atomR, atomA}"
proof -
  have "repo_head (snd demo3) \<noteq> None" by code_simp
  then obtain b where b: "repo_head (snd demo3) = Some b" by blast
  have "repo_getAtoms (snd demo1) = [atomR, atomA]" by code_simp
  then have "([demo_commit1], [atomR, atomA]) \<in> set [([demo_commit2, demo_commit1], repo_getAtoms (snd demo2)), ([demo_commit1], repo_getAtoms (snd demo1))]"
    by simp
  from commit_is_never_lost[OF demo3_reached b this, of 4] show ?thesis by auto
qed

text \<open>
  The atoms of a commit lose their order when they are committed again in another one: here \<open>atomA\<close> was taken out and put back
  before the second commit, and comes back last from the first one.
\<close>

definition recommitted :: "string memory_repo \<times> string causal_repo" where
  "recommitted = (case createBranch 1 memory_repo_ops new_memory_repo new_repo ''main'' None of (_, s, R) \<Rightarrow>
     (case repo_commit_changes demo_repo_hasher 2 memory_repo_ops s (snd (addMany [atomR, atomA, atomD] R)) ''first'' 2 of (_, s, R) \<Rightarrow>
     (case repo_commit_changes demo_repo_hasher 3 memory_repo_ops s (snd (addMany [atomA] (snd (removeMany [ahash atomA] R)))) ''second'' 3 of
        (_, s, R) \<Rightarrow> (s, R))))"

definition back_to_first :: "string causal_repo" where
  "back_to_first = (case recommitted of (s, R) \<Rightarrow>
     (case listCommits memory_repo_ops s (Option.bind (repo_head R) branch_hash) of
        Some (Inr cs) \<Rightarrow> snd (snd (reset 4 memory_repo_ops s R (Some (commit_hash (last cs)))))
      | _ \<Rightarrow> R))"

lemma order_of_commit_lost:
  "map val (repo_getAtoms back_to_first) = [''r'', ''d'', ''a'']"
  "map_option commit_message (Option.bind (currentCommit back_to_first) cd_commit) = Some ''first''"
  by code_simp+

text \<open>A branch is checked out by its name, also when other branches have names that start with it: the head becomes
  that branch, and whoever checks out a name that no branch starts with gets an error and keeps everything.\<close>

theorem checkout_finds_branch:
  assumes "(repo_step H)\<^sup>*\<^sup>* repo_start (s, R, cs, saved)"
  shows "(\<forall>b\<in>set (mr_branches s). \<exists>s' R'. checkout now memory_repo_ops s R (branch_name b) create_at = (Inr (), s', R') \<and>
      repo_head R' = Some b \<and> \<not> hasChanges R') \<and>
    (\<forall>n. (\<forall>b\<in>set (mr_branches s). \<not> startsWith (branch_name b) n) \<longrightarrow>
      checkout now memory_repo_ops s R n None = (Inl (BranchNotFound n), s, R))"
proof (intro conjI ballI allI impI)
  have inv: "repo_inv H (s, R, cs, saved)" by (rule repo_inv_reachable[OF assms])
  fix b assume b: "b \<in> set (mr_branches s)"
  then have "known saved (branch_hash b)" "branches_ok s" using inv by (auto simp: repo_inv_def)
  then show "\<exists>s' R'. checkout now memory_repo_ops s R (branch_name b) create_at = (Inr (), s', R') \<and>
      repo_head R' = Some b \<and> \<not> hasChanges R'"
    unfolding mb.checkout_exact[OF \<open>branches_ok s\<close> b] using moveHead_inv[OF inv, of b now] by blast
next
  fix n assume none: "\<forall>b\<in>set (mr_branches s). \<not> startsWith (branch_name b) n"
  have "mr_getBranches s (Some n) = []"
    using none getBranches_set[of _ s n] by (metis list.set_intros(1) neq_Nil_conv)
  then show "checkout now memory_repo_ops s R n None = (Inl (BranchNotFound n), s, R)" by (simp add: checkout_def)
qed

lemma checkout_finds_branch_witness:
  "checkout 5 memory_repo_ops (fst demo3) (snd demo3) ''x'' None = (Inl (BranchNotFound ''x''), fst demo3, snd demo3)"
proof -
  have "\<forall>b\<in>set (mr_branches (fst demo3)). \<not> startsWith (branch_name b) ''x''" by code_simp
  then show ?thesis using checkout_finds_branch[OF demo3_reached, of 5 None] by blast
qed

text \<open>The difference of two commits that were made, loaded from the store, has as additions exactly the atoms of the
  second that the first does not have and as deletions those of the first that the second does not have, each once, if the
  hash of an index does not collide.\<close>

theorem commit_diff_exact:
  assumes "(repo_step H)\<^sup>*\<^sup>* repo_start (s, R, cs, saved)" and "inj (hash_list H)"
    and "(c1 # h1, as1) \<in> set saved" and "(c2 # h2, as2) \<in> set saved"
  shows "\<exists>d1 d2 added deleted. loadCommit memory_repo_ops s n c1 = Inr d1 \<and> loadCommit memory_repo_ops s n c2 = Inr d2 \<and>
    calculateCommitDiff (Some d1) (Some d2) = Inr (by_hash added, by_hash deleted) \<and>
    distinct (map ahash added) \<and> set added = {a \<in> set as2. ahash a \<notin> ahash ` set as1} \<and>
    distinct (map ahash deleted) \<and> set deleted = {a \<in> set as1. ahash a \<notin> ahash ` set as2}"
proof -
  have inv: "repo_inv H (s, R, cs, saved)" by (rule repo_inv_reachable[OF assms(1)])
  have "saved_ok H s (c1 # h1) as1" "saved_ok H s (c2 # h2) as2" using inv assms(3,4) by (auto simp: repo_inv_def)
  then obtain bs1 bs2 where bs: "index_stored H s (commit_index c1) bs1" "set bs1 = set as1"
      "index_stored H s (commit_index c2) bs2" "set bs2 = set as2" by (auto simp: saved_ok_def)
  let ?d = "\<lambda>c as. \<lparr>cd_commit = Some c, cd_index = repo_index H as, cd_atoms = by_hash as\<rparr>"
  have gone: "map_of (by_hash as) h = None \<longleftrightarrow> h \<notin> ahash ` set as" for as :: "'a atom list" and h
    by (simp add: map_of_eq_None_iff image_image)
  have "commit_of H (?d c1 bs1)" "commit_of H (?d c2 bs2)"
    using index_storedD(1)[OF bs(1)] index_storedD(1)[OF bs(3)] by (auto simp: commit_of_def)
  from commit_diff_filters[OF this assms(2)]
  have "calculateCommitDiff (Some (?d c1 bs1)) (Some (?d c2 bs2)) =
      Inr (by_hash (filter (\<lambda>a. ahash a \<notin> ahash ` set as1) bs2), by_hash (filter (\<lambda>a. ahash a \<notin> ahash ` set as2) bs1))"
    by (simp add: gone filter_by_hash bs(2,4))
  moreover have "distinct (map ahash (filter P bs1))" "distinct (map ahash (filter P bs2))" for P
    using index_storedD(1)[OF bs(1)] index_storedD(1)[OF bs(3)] by (simp_all add: distinct_map inj_on_def)
  moreover have "set (filter (\<lambda>a. ahash a \<notin> ahash ` set as1) bs2) = {a \<in> set as2. ahash a \<notin> ahash ` set as1}"
    "set (filter (\<lambda>a. ahash a \<notin> ahash ` set as2) bs1) = {a \<in> set as1. ahash a \<notin> ahash ` set as2}"
    by (simp_all add: bs(2,4))
  ultimately show ?thesis using load_saved_commit[OF bs(1)] load_saved_commit[OF bs(3)] by blast
qed

lemma commit_diff_exact_witness:
  "\<exists>d1 d2 added deleted. loadCommit memory_repo_ops (fst demo3) [] demo_commit1 = Inr d1 \<and> loadCommit memory_repo_ops (fst demo3) [] demo_commit2 = Inr d2 \<and>
    calculateCommitDiff (Some d1) (Some d2) = Inr (by_hash added, by_hash deleted) \<and> set added = {atomD} \<and> set deleted = {atomA}"
proof -
  have as: "repo_getAtoms (snd demo1) = [atomR, atomA]" "repo_getAtoms (snd demo2) = [atomR, atomD]" by code_simp+
  have "inj (hash_list demo_repo_hasher)" using joined_inj by (simp add: demo_repo_hasher_def)
  note diff = commit_diff_exact[OF demo3_reached this, of demo_commit1 "[]" "[atomR, atomA]" demo_commit2 "[demo_commit1]" "[atomR, atomD]" "[]"]
  have "ahash atomR \<noteq> ahash atomA" "ahash atomR \<noteq> ahash atomD" "ahash atomA \<noteq> ahash atomD" by code_simp+
  then have "{a \<in> set [atomR, atomD]. ahash a \<notin> ahash ` set [atomR, atomA]} = {atomD}"
    "{a \<in> set [atomR, atomA]. ahash a \<notin> ahash ` set [atomR, atomD]} = {atomA}" by auto
  with diff show ?thesis by (auto simp: as)
qed

section \<open>Inputs that the code does not foresee\<close>

definition with_branch :: "string \<Rightarrow> string memory_repo \<times> string causal_repo" where
  "with_branch n = snd (createBranch 1 memory_repo_ops new_memory_repo new_repo n None)"

text \<open>Checking out a branch that does not exist takes one whose name is longer; creating it is refused.\<close>

lemma longer_name_checked_out:
  "map_option branch_name (repo_head (snd (snd (checkout 2 memory_repo_ops (fst (with_branch ''foo-bar'')) new_repo ''foo'' None))))
    = Some ''foo-bar''" by code_simp

lemma longer_name_blocks_creation:
  "fst (createBranch 2 memory_repo_ops (fst (with_branch ''foo-bar'')) (new_repo :: string causal_repo) ''foo'' None) = Inl BranchExists" by code_simp

text \<open>An atom that is added and removed again leaves a deletion of something that was never committed.\<close>

lemma undone_change_remains:
  "let R = snd (removeMany [ahash atomA] (snd (addMany [atomA] new_repo))) in repo_atoms R = [] \<and> hasChanges R" by code_simp

text \<open>Without commits there is no difference but an error.\<close>

lemma no_commits_no_diff: "calculateCommitDiff None None = Inl RepoTypeError"
  by (simp add: calculateCommitDiff_def)

text \<open>A first store in memory answers for an index that it does not hold with objects that are not there, and the second is not asked.\<close>

definition second_has_atom :: "string memory_repo \<times> string memory_repo" where
  "second_has_atom = (new_memory_repo, mr_storeObjects new_memory_repo ''main'' [RepoAtom atomR])"

lemma fallback_not_asked:
  "Option.bind (rs_loadIndex (fallback_store memory_object_ops memory_object_ops))
     (\<lambda>f. f second_has_atom ''main'' (repo_index demo_repo_hasher [atomR])) = Some [None] \<and>
   rs_getObjects memory_object_ops (snd second_has_atom) ''main'' [ahash atomR] = Some [Some (RepoAtom atomR)]"
  by code_simp

end
