(* ===== verification/BotState.thy ===== *)
theory BotState
  imports Prelude
begin

text \<open>
  The state of bots: \<^verbatim>\<open>src/src/aux-common/aux-format-2/AuxStateHelpers.ts\<close> with what it uses of \<^verbatim>\<open>Bot.ts\<close>,
  \<^verbatim>\<open>BotCalculations.ts\<close> and \<^verbatim>\<open>utils.ts\<close>. A partition tells the others what changed by a partial state; it is applied to
  the state, and summarised for those who watch bots. The value of a tag may be an edit of its text.

  An object is the list of its properties in order. A property that is missing is not in the list.
\<close>

section \<open>Objects\<close>

type_synonym 'v obj = "(string \<times> 'v) list"

text \<open>\<^verbatim>\<open>Object.assign\<close> to an object of another one.\<close>

definition assign :: "'v obj \<Rightarrow> 'v obj \<Rightarrow> 'v obj" where
  "assign o1 o2 = foldl (\<lambda>acc (k, v). AList.update k v acc) o1 o2"

definition or_empty :: "'v obj option \<Rightarrow> 'v obj" where
  "or_empty x = (case x of None \<Rightarrow> [] | Some p \<Rightarrow> p)"

text \<open>An object without properties is dropped.\<close>

definition drop_empty :: "'v obj option \<Rightarrow> 'v obj option" where
  "drop_empty x = (if x = Some [] then None else x)"

definition delete_all :: "string list \<Rightarrow> 'v obj \<Rightarrow> 'v obj" where
  "delete_all ks x = foldl (\<lambda>acc k. AList.delete k acc) x ks"

section \<open>Edits\<close>

datatype tag_op = PreserveOp int | InsertOp string | DeleteOp int

record tag_edit =
  te_version :: "int obj"
  te_operations :: "tag_op list list"
  te_isRemote :: bool

definition edits :: "int obj \<Rightarrow> tag_op list list \<Rightarrow> tag_edit" where
  "edits v ops = \<lparr>te_version = v, te_operations = ops, te_isRemote = False\<rparr>"

definition edit :: "int obj \<Rightarrow> tag_op list \<Rightarrow> tag_edit" where
  "edit v ops = edits v [ops]"

definition remoteEdit :: "int obj \<Rightarrow> tag_op list \<Rightarrow> tag_edit" where
  "remoteEdit v ops = (edit v ops)\<lparr>te_isRemote := True\<rparr>"

definition remoteEdits :: "int obj \<Rightarrow> tag_op list list \<Rightarrow> tag_edit" where
  "remoteEdits v ops = (edits v ops)\<lparr>te_isRemote := True\<rparr>"

text \<open>\<^verbatim>\<open>Math.max(final[site] || 0, second[site] || 0)\<close>.\<close>

definition time_of :: "int obj \<Rightarrow> string \<Rightarrow> int" where
  "time_of v site = (case map_of v site of None \<Rightarrow> 0 | Some t \<Rightarrow> t)"

definition mergeVersions :: "int obj \<Rightarrow> int obj \<Rightarrow> int obj" where
  "mergeVersions a b = foldl (\<lambda>acc (site, t). AList.update site (max (time_of acc site) t) acc) a b"

definition mergeEdits :: "tag_edit \<Rightarrow> tag_edit \<Rightarrow> tag_edit" where
  "mergeEdits a b =
     (edits (mergeVersions (te_version a) (te_version b)) (te_operations a @ te_operations b))
       \<lparr>te_isRemote := te_isRemote a \<or> te_isRemote b\<rparr>"

section \<open>Values\<close>

text \<open>A date is its ISO string, any other object but an edit its JSON text; numbers are integers.\<close>

datatype plain_value = StrV string | BoolV bool | NumV int | DateV string | ObjectV string | EditV tag_edit

type_synonym tag_value = "plain_value js"

definition isTagEdit :: "tag_value \<Rightarrow> bool" where
  "isTagEdit v = (case v of Val (EditV _) \<Rightarrow> True | _ \<Rightarrow> False)"

definition hasValue :: "tag_value \<Rightarrow> bool" where
  "hasValue v \<longleftrightarrow> \<not> (v = Null \<or> v = Undefined \<or> v = Val (StrV []))"

text \<open>\<^verbatim>\<open>JSON.stringify\<close> of an edit.\<close>

definition hex_digit :: "nat \<Rightarrow> char" where
  "hex_digit n = ''0123456789abcdef'' ! n"

definition json_char :: "char \<Rightarrow> string" where
  "json_char c =
     (if c = CHR 0x22 \<or> c = CHR 0x5C then [CHR 0x5C, c]
      else if c = CHR 8 then [CHR 0x5C, CHR ''b'']
      else if c = CHR 9 then [CHR 0x5C, CHR ''t'']
      else if c = CHR 10 then [CHR 0x5C, CHR ''n'']
      else if c = CHR 12 then [CHR 0x5C, CHR ''f'']
      else if c = CHR 13 then [CHR 0x5C, CHR ''r'']
      else if of_char c < (32 :: nat) then CHR 0x5C # ''u00'' @ [hex_digit (of_char c div 16), hex_digit (of_char c mod 16)]
      else [c])"

definition json_string :: "string \<Rightarrow> string" where
  "json_string s = [CHR 0x22] @ concat (map json_char s) @ [CHR 0x22]"

fun joined_by :: "string \<Rightarrow> string list \<Rightarrow> string" where
  "joined_by sep [] = []"
| "joined_by sep [x] = x"
| "joined_by sep (x # y # ys) = x @ sep @ joined_by sep (y # ys)"

definition json_list :: "string list \<Rightarrow> string" where
  "json_list xs = ''['' @ joined_by '','' xs @ '']''"

definition json_object :: "string obj \<Rightarrow> string" where
  "json_object ps = ''{'' @ joined_by '','' (map (\<lambda>(k, v). json_string k @ '':'' @ v) ps) @ ''}''"

fun json_op :: "tag_op \<Rightarrow> string" where
  "json_op (PreserveOp n) = json_object [(''type'', json_string ''preserve''), (''count'', show_int n)]"
| "json_op (InsertOp t) = json_object [(''type'', json_string ''insert''), (''text'', json_string t)]"
| "json_op (DeleteOp n) = json_object [(''type'', json_string ''delete''), (''count'', show_int n)]"

definition json_edit :: "tag_edit \<Rightarrow> string" where
  "json_edit e = json_object
     ([(CHR 0x11 # ''tag_edit'', ''true''), (''version'', json_object (map (map_prod id show_int) (te_version e))),
       (''operations'', json_list (map (\<lambda>ops. json_list (map json_op ops)) (te_operations e)))] @
      (if te_isRemote e then [(''isRemote'', ''true'')] else []))"

definition convertToString :: "tag_value \<Rightarrow> string" where
  "convertToString v =
     (if \<not> hasValue v then []
      else (case v of
          Val (StrV s) \<Rightarrow> s
        | Val (BoolV b) \<Rightarrow> if b then ''true'' else ''false''
        | Val (NumV n) \<Rightarrow> show_int n
        | Val (DateV s) \<Rightarrow> s
        | Val (ObjectV s) \<Rightarrow> s
        | Val (EditV e) \<Rightarrow> json_edit e
        | _ \<Rightarrow> []))"

section \<open>Applying edits\<close>

text \<open>\<^verbatim>\<open>slice\<close> counts a negative index from the end.\<close>

definition slice_index :: "string \<Rightarrow> int \<Rightarrow> nat" where
  "slice_index s i = nat (if i < 0 then int (length s) + i else i)"

definition splice :: "string \<Rightarrow> int \<Rightarrow> int \<Rightarrow> string \<Rightarrow> string" where
  "splice s i n t = take (slice_index s i) s @ t @ drop (slice_index s (i + n)) s"

fun apply_ops :: "string \<Rightarrow> int \<Rightarrow> tag_op list \<Rightarrow> string" where
  "apply_ops s i [] = s"
| "apply_ops s i (PreserveOp n # ops) = apply_ops s (i + n) ops"
| "apply_ops s i (InsertOp t # ops) = apply_ops (splice s i 0 t) (i + int (length t)) ops"
| "apply_ops s i (DeleteOp n # ops) = apply_ops (splice s i n []) i ops"

definition applyEdit :: "tag_value \<Rightarrow> tag_edit \<Rightarrow> string" where
  "applyEdit v e = foldl (\<lambda>s ops. apply_ops s 0 ops) (convertToString v) (te_operations e)"

definition applyTagEdit :: "tag_value \<Rightarrow> tag_edit \<Rightarrow> tag_value" where
  "applyTagEdit v e = (let r = Val (StrV (applyEdit v e)) in if hasValue r then r else Null)"

section \<open>Bots\<close>

type_synonym tags = "tag_value obj"

text \<open>A whole or a partial bot. A signature that is \<^verbatim>\<open>null\<close> is \<open>None\<close>.\<close>

record aux_bot =
  ab_id :: "string option"
  ab_space :: "string option"
  ab_tags :: "tags option"
  ab_signatures :: "string option obj option"
  ab_values :: "tags option"
  ab_masks :: "tags obj option"

type_synonym bots_state = "aux_bot obj"

text \<open>In an update, \<^verbatim>\<open>null\<close> for a bot is \<open>None\<close>.\<close>

type_synonym partial_state = "aux_bot option obj"

definition isBot :: "aux_bot option \<Rightarrow> bool" where
  "isBot b = (case b of None \<Rightarrow> False | Some x \<Rightarrow> ab_id x \<noteq> None \<and> ab_id x \<noteq> Some [] \<and> ab_tags x \<noteq> None)"

section \<open>Applying an update\<close>

text \<open>The value of a tag: an edit is applied to the old one.\<close>

definition edited :: "bool \<Rightarrow> tags \<Rightarrow> string \<Rightarrow> tag_value \<Rightarrow> tag_value" where
  "edited isNew ts t v =
     (case v of
        Val (EditV e) \<Rightarrow>
          applyTagEdit (if isNew then Val (StrV []) else (case map_of ts t of None \<Rightarrow> Undefined | Some x \<Rightarrow> x)) e
      | _ \<Rightarrow> v)"

definition set_tags :: "bool \<Rightarrow> tags \<Rightarrow> tags \<Rightarrow> tags" where
  "set_tags isNew ts upd = foldl (\<lambda>acc (t, v). AList.update t (edited isNew acc t v) acc) ts upd"

definition set_masks :: "bool \<Rightarrow> tags obj \<Rightarrow> tags obj \<Rightarrow> tags obj" where
  "set_masks isNew ms upd =
     foldl (\<lambda>acc (space, ts). AList.update space (set_tags isNew (or_empty (map_of acc space)) ts) acc) ms upd"

text \<open>The properties of the second object that are \<^verbatim>\<open>null\<close> in the first.\<close>

definition null_keys :: "'v \<Rightarrow> 'v obj \<Rightarrow> 'v obj \<Rightarrow> string list" where
  "null_keys n x upd = filter (\<lambda>k. map_of x k = Some n) (map fst upd)"

definition clean_masks :: "tags obj \<Rightarrow> tags obj \<Rightarrow> tags obj" where
  "clean_masks ms upd =
     foldl (\<lambda>acc (space, ts).
        (let left = delete_all (null_keys Null (or_empty (map_of acc space)) ts) (or_empty (map_of acc space))
         in if left = [] then AList.delete space acc else AList.update space left acc)) ms upd"

definition apply_bot :: "bool \<Rightarrow> aux_bot option \<Rightarrow> aux_bot \<Rightarrow> aux_bot" where
  "apply_bot isNew old upd =
     (let b = (case old of None \<Rightarrow> upd | Some x \<Rightarrow> x);
          ts = (case ab_tags upd of None \<Rightarrow> ab_tags b | Some u \<Rightarrow> Some (set_tags isNew (or_empty (ab_tags b)) u));
          sg = (case ab_signatures upd of None \<Rightarrow> ab_signatures b | Some u \<Rightarrow> Some (assign (or_empty (ab_signatures b)) u));
          vs = (case ab_values upd of None \<Rightarrow> ab_values b | Some u \<Rightarrow> Some (assign (or_empty (ab_values b)) u));
          ms = (case ab_masks upd of None \<Rightarrow> ab_masks b | Some u \<Rightarrow> Some (set_masks isNew (or_empty (ab_masks b)) u));
          gone = null_keys Null (or_empty ts) (or_empty (ab_tags upd))
      in b\<lparr>ab_tags := map_option (delete_all gone) ts,
           ab_values := map_option (delete_all gone) vs,
           ab_signatures := drop_empty (map_option (\<lambda>s. delete_all (null_keys None s (or_empty (ab_signatures upd))) s) sg),
           ab_masks := drop_empty (map_option (\<lambda>m. clean_masks m (or_empty (ab_masks upd))) ms)\<rparr>)"

definition apply_state :: "bots_state \<Rightarrow> partial_state \<Rightarrow> bots_state" where
  "apply_state s u =
     foldl (\<lambda>acc (i, upd).
        (case upd of
           None \<Rightarrow> AList.delete i acc
         | Some b \<Rightarrow> AList.update i (apply_bot (map_of s i = None) (map_of acc i) b) acc)) s u"

section \<open>What was changed\<close>

record updated_bot =
  ub_bot :: aux_bot
  ub_tags :: "string list"
  ub_signatures :: "string list option"

record bot_state_updates =
  addedBots :: "aux_bot list"
  removedBots :: "string option list"
  updatedBots :: "updated_bot list"

definition put_tags :: "tags \<Rightarrow> tags \<Rightarrow> tags" where
  "put_tags ts upd = foldl (\<lambda>acc (t, v). if v = Null then AList.delete t acc else AList.update t v acc) ts upd"

definition put_signatures :: "string option obj option \<Rightarrow> string option obj \<Rightarrow> string option obj option" where
  "put_signatures sg upd =
     foldl (\<lambda>acc (h, v).
        (if v = None then map_option (AList.delete h) acc else Some (AList.update h v (or_empty acc)))) sg upd"

text \<open>Taking away a mask of a bot, or of a space, that has none throws.\<close>

fun put_mask :: "string \<Rightarrow> tags obj option \<Rightarrow> tags \<Rightarrow> tags obj option option" where
  "put_mask space ms [] = Some ms"
| "put_mask space ms ((t, v) # rest) =
     (if v = Null then
        (case ms of
           None \<Rightarrow> None
         | Some m \<Rightarrow>
             (case map_of m space of
                None \<Rightarrow> None
              | Some ts \<Rightarrow> put_mask space (Some (AList.update space (AList.delete t ts) m)) rest))
      else put_mask space
        (Some (AList.update space (AList.update t v (or_empty (map_of (or_empty ms) space))) (or_empty ms))) rest)"

fun put_masks :: "tags obj option \<Rightarrow> tags obj \<Rightarrow> tags obj option option" where
  "put_masks ms [] = Some ms"
| "put_masks ms ((space, ts) # rest) = do { m \<leftarrow> put_mask space ms ts; put_masks m rest }"

definition updated_of :: "aux_bot \<Rightarrow> aux_bot \<Rightarrow> updated_bot option option" where
  "updated_of b upd =
     (let ts = put_tags (or_empty (ab_tags b)) (or_empty (ab_tags upd));
          sg = (case ab_signatures upd of None \<Rightarrow> ab_signatures b | Some u \<Rightarrow> drop_empty (put_signatures (ab_signatures b) u));
          tag_names = map fst (or_empty (ab_tags upd));
          hashes = map fst (or_empty (ab_signatures upd));
          mask_names = concat (map (map fst \<circ> snd) (or_empty (ab_masks upd)))
      in do {
        ms \<leftarrow> put_masks (ab_masks b) (or_empty (ab_masks upd));
        Some (if tag_names = [] \<and> hashes = [] then None
          else Some \<lparr>ub_bot = b\<lparr>ab_tags := Some ts, ab_signatures := sg, ab_masks := ms\<rparr>,
                     ub_tags = foldl (\<lambda>acc k. if k \<in> set acc then acc else acc @ [k]) [] (tag_names @ mask_names),
                     ub_signatures = (if hashes = [] then None else Some hashes)\<rparr>) })"

fun updates_from :: "bots_state \<Rightarrow> partial_state \<Rightarrow> bot_state_updates \<Rightarrow> bot_state_updates option" where
  "updates_from s [] r = Some r"
| "updates_from s ((i, upd) # rest) r =
     (case map_of s i of
        None \<Rightarrow> updates_from s rest (if isBot upd then r\<lparr>addedBots := addedBots r @ [the upd]\<rparr> else r)
      | Some b \<Rightarrow>
          (case upd of
             None \<Rightarrow> updates_from s rest (r\<lparr>removedBots := removedBots r @ [ab_id b]\<rparr>)
           | Some x \<Rightarrow> do {
               y \<leftarrow> updated_of b x;
               updates_from s rest (case y of None \<Rightarrow> r | Some z \<Rightarrow> r\<lparr>updatedBots := updatedBots r @ [z]\<rparr>) }))"

text \<open>\<open>None\<close>: a \<^verbatim>\<open>TypeError\<close>.\<close>

definition updates :: "bots_state \<Rightarrow> partial_state \<Rightarrow> bot_state_updates option" where
  "updates s u = updates_from s u \<lparr>addedBots = [], removedBots = [], updatedBots = []\<rparr>"

end
