(* ===== verification/BotStateSpec.thy ===== *)
theory BotStateSpec
  imports BotState
begin

text \<open>
  What an update makes of the state, tag by tag. A state is seen through four views: whether a bot is there, the values
  of its tags, of its masks by space, and its signatures. All loops over the properties of an object put or delete
  one property at a time, which the first section treats once.
\<close>

section \<open>Loops over properties\<close>

definition put :: "string \<Rightarrow> 'v option \<Rightarrow> 'v obj \<Rightarrow> 'v obj" where
  "put k v x = (case v of None \<Rightarrow> AList.delete k x | Some w \<Rightarrow> AList.update k w x)"

lemma map_of_put [simp]: "map_of (put k v x) = (map_of x)(k := v)"
  by (cases v) (auto simp: put_def update_conv' delete_conv' fun_eq_iff)

lemma distinct_put: "distinct (map fst x) \<Longrightarrow> distinct (map fst (put k v x))"
  by (cases v) (simp_all add: put_def distinct_update distinct_delete)

lemma fold_put:
  assumes "\<And>acc k w. step acc (k, w) = put k (g (map_of acc k) k w) acc" and "distinct (map fst upd)"
  shows "map_of (foldl step x upd) k = (case map_of upd k of None \<Rightarrow> map_of x k | Some w \<Rightarrow> g (map_of x k) k w)"
  using assms(2)
proof (induction upd arbitrary: x)
  case (Cons p upd)
  obtain j w where p: "p = (j, w)" by fastforce
  have "map_of upd j = None" using Cons.prems p by (simp add: map_of_eq_None_iff)
  with Cons.IH[of "put j (g (map_of x j) j w) x"] Cons.prems p show ?case by (auto simp: assms(1) split: option.splits)
qed simp

lemma fold_put_distinct:
  assumes "\<And>acc k w. step acc (k, w) = put k (g (map_of acc k) k w) acc" and "distinct (map fst x)"
  shows "distinct (map fst (foldl step x upd))"
  using assms(2) by (induction upd arbitrary: x) (auto simp: assms(1) distinct_put)

lemma update_put: "AList.update k w x = put k (Some w) x"
  by (simp add: put_def)

lemma delete_put: "AList.delete k x = put k None x"
  by (simp add: put_def)

lemma map_of_delete_all: "map_of (delete_all ks x) k = (if k \<in> set ks then None else map_of x k)"
  unfolding delete_all_def by (induction ks arbitrary: x) (auto simp: delete_conv')

lemma delete_none [simp]: "delete_all [] x = x" "map_option (delete_all []) y = y"
  by (cases y; simp add: delete_all_def)+

lemma distinct_delete_all: "distinct (map fst x) \<Longrightarrow> distinct (map fst (delete_all ks x))"
  unfolding delete_all_def by (induction ks arbitrary: x) (auto simp: distinct_delete)

lemma set_null_keys: "k \<in> set (null_keys n x upd) \<longleftrightarrow> map_of upd k \<noteq> None \<and> map_of x k = Some n"
  by (auto simp: null_keys_def map_of_eq_None_iff)

lemma or_empty_simps [simp]: "or_empty None = []" "or_empty (Some x) = x"
  by (simp_all add: or_empty_def)

lemma or_empty_drop [simp]: "or_empty (drop_empty x) = or_empty x"
  by (simp add: drop_empty_def)

section \<open>Tags\<close>

definition edit_value :: "bool \<Rightarrow> tag_value option \<Rightarrow> tag_value \<Rightarrow> tag_value" where
  "edit_value isNew old v =
     (case v of
        Val (EditV e) \<Rightarrow> applyTagEdit (if isNew then Val (StrV []) else (case old of None \<Rightarrow> Undefined | Some x \<Rightarrow> x)) e
      | _ \<Rightarrow> v)"

text \<open>What becomes of a tag, given its old value and what the update has for it.\<close>

definition tag_after :: "bool \<Rightarrow> tag_value option \<Rightarrow> tag_value option \<Rightarrow> tag_value option" where
  "tag_after isNew old upd =
     (case upd of
        None \<Rightarrow> old
      | Some v \<Rightarrow> (let w = edit_value isNew old v in if w = Null then None else Some w))"

definition signature_after :: "string option option \<Rightarrow> string option option \<Rightarrow> string option option" where
  "signature_after old upd = (case upd of None \<Rightarrow> old | Some None \<Rightarrow> None | Some (Some x) \<Rightarrow> Some (Some x))"

lemma edited_value: "edited isNew ts t v = edit_value isNew (map_of ts t) v"
  by (simp add: edited_def edit_value_def)

lemma map_of_set_tags:
  assumes "distinct (map fst upd)"
  shows "map_of (set_tags isNew ts upd) t =
    (case map_of upd t of None \<Rightarrow> map_of ts t | Some v \<Rightarrow> Some (edit_value isNew (map_of ts t) v))"
  unfolding set_tags_def
  by (rule fold_put[where g = "\<lambda>old t v. Some (edit_value isNew old v)", OF _ assms]) (simp add: edited_value update_put)

lemma distinct_set_tags: "distinct (map fst ts) \<Longrightarrow> distinct (map fst (set_tags isNew ts upd))"
  unfolding set_tags_def
  by (rule fold_put_distinct[where g = "\<lambda>old t v. Some (edit_value isNew old v)"]) (simp_all add: edited_value update_put)

text \<open>The tags that are set, less those that are null.\<close>

lemma tags_after:
  assumes "distinct (map fst upd)"
  shows "map_of (delete_all (null_keys Null (set_tags isNew ts upd) upd) (set_tags isNew ts upd)) t =
    tag_after isNew (map_of ts t) (map_of upd t)"
  by (auto simp: map_of_delete_all set_null_keys map_of_set_tags[OF assms] tag_after_def Let_def split: option.splits)

lemma tag_after_new: "map_of upd t = Some v \<Longrightarrow> tag_after True (Some v) (Some v) = tag_after True None (Some v)"
  by (simp add: tag_after_def edit_value_def cong: js.case_cong plain_value.case_cong)

section \<open>Masks\<close>

definition mask_of :: "tags obj \<Rightarrow> string \<Rightarrow> string \<Rightarrow> tag_value option" where
  "mask_of m space t = map_of (or_empty (map_of m space)) t"

definition masks_ok :: "tags obj \<Rightarrow> bool" where
  "masks_ok m \<longleftrightarrow> distinct (map fst m) \<and> (\<forall>(space, ts)\<in>set m. distinct (map fst ts))"

lemma map_of_set_masks:
  assumes "distinct (map fst upd)"
  shows "map_of (set_masks isNew m upd) space =
    (case map_of upd space of None \<Rightarrow> map_of m space | Some ts \<Rightarrow> Some (set_tags isNew (or_empty (map_of m space)) ts))"
  unfolding set_masks_def
  by (rule fold_put[where g = "\<lambda>old _ ts. Some (set_tags isNew (or_empty old) ts)", OF _ assms]) (simp add: update_put)

definition clean_mask :: "tags option \<Rightarrow> tags \<Rightarrow> tags option" where
  "clean_mask old ts =
     (let left = delete_all (null_keys Null (or_empty old) ts) (or_empty old) in if left = [] then None else Some left)"

lemma clean_step:
  "(case (space, ts) of (space, ts) \<Rightarrow>
      (let left = delete_all (null_keys Null (or_empty (map_of acc space)) ts) (or_empty (map_of acc space))
       in if left = [] then AList.delete space acc else AList.update space left acc)) =
    put space (clean_mask (map_of acc space) ts) acc"
  by (simp add: clean_mask_def Let_def put_def)

lemma map_of_clean_masks:
  assumes "distinct (map fst upd)"
  shows "map_of (clean_masks m upd) space =
    (case map_of upd space of None \<Rightarrow> map_of m space | Some ts \<Rightarrow> clean_mask (map_of m space) ts)"
  unfolding clean_masks_def
  by (rule fold_put[where g = "\<lambda>old _ ts. clean_mask old ts", OF _ assms]) (rule clean_step)

lemma or_empty_clean: "or_empty (clean_mask old ts) = delete_all (null_keys Null (or_empty old) ts) (or_empty old)"
  by (simp add: clean_mask_def Let_def)

lemma masks_after:
  assumes "masks_ok upd"
  shows "mask_of (clean_masks (set_masks isNew m upd) upd) space t = tag_after isNew (mask_of m space t) (mask_of upd space t)"
proof (cases "map_of upd space")
  case None
  with assms show ?thesis by (simp add: mask_of_def map_of_clean_masks map_of_set_masks masks_ok_def tag_after_def)
next
  case (Some ts)
  then have "distinct (map fst ts)" using assms by (auto simp: masks_ok_def dest!: map_of_SomeD)
  with Some assms show ?thesis
    by (simp add: mask_of_def map_of_clean_masks map_of_set_masks masks_ok_def or_empty_clean tags_after)
qed

section \<open>Bots\<close>

definition objects_ok :: "aux_bot \<Rightarrow> bool" where
  "objects_ok b \<longleftrightarrow> distinct (map fst (or_empty (ab_tags b))) \<and> distinct (map fst (or_empty (ab_signatures b))) \<and>
     distinct (map fst (or_empty (ab_values b))) \<and> masks_ok (or_empty (ab_masks b))"

definition partial_ok :: "partial_state \<Rightarrow> bool" where
  "partial_ok u \<longleftrightarrow> distinct (map fst u) \<and> (\<forall>(_, x)\<in>set u. case x of None \<Rightarrow> True | Some b \<Rightarrow> objects_ok b)"

lemma partial_ok_at: "partial_ok u \<Longrightarrow> map_of u i = Some (Some b) \<Longrightarrow> objects_ok b"
  by (auto simp: partial_ok_def dest!: map_of_SomeD)

text \<open>The three views of a bot that may be missing.\<close>

definition tag_in :: "aux_bot option \<Rightarrow> string \<Rightarrow> tag_value option" where
  "tag_in b t = (case b of None \<Rightarrow> None | Some x \<Rightarrow> map_of (or_empty (ab_tags x)) t)"

definition mask_in :: "aux_bot option \<Rightarrow> string \<Rightarrow> string \<Rightarrow> tag_value option" where
  "mask_in b space t = (case b of None \<Rightarrow> None | Some x \<Rightarrow> mask_of (or_empty (ab_masks x)) space t)"

definition signature_in :: "aux_bot option \<Rightarrow> string \<Rightarrow> string option option" where
  "signature_in b h = (case b of None \<Rightarrow> None | Some x \<Rightarrow> map_of (or_empty (ab_signatures x)) h)"

lemmas views = tag_in_def mask_in_def signature_in_def

lemma tag_after_none [simp]: "tag_after n old None = old"
  by (simp add: tag_after_def)

lemma signature_after_none [simp]: "signature_after old None = old"
  by (simp add: signature_after_def)

text \<open>A new bot starts as a copy of the update, which the update then overwrites.\<close>

lemma tag_after_copy: "tag_after True x x = tag_after True None x"
  by (cases x) (auto simp: tag_after_def edit_value_def Let_def split: js.splits plain_value.splits)

lemma map_of_assign:
  assumes "distinct (map fst b)"
  shows "map_of (assign a b) k = (case map_of b k of None \<Rightarrow> map_of a k | Some v \<Rightarrow> Some v)"
  unfolding assign_def by (rule fold_put[where g = "\<lambda>_ _ v. Some v", OF _ assms]) (simp add: update_put)

lemma signatures_after:
  assumes "distinct (map fst u)"
  shows "map_of (delete_all (null_keys None (assign s u) u) (assign s u)) h = signature_after (map_of s h) (map_of u h)"
  by (auto simp: map_of_delete_all set_null_keys map_of_assign[OF assms] signature_after_def split: option.splits)

lemma apply_bot_views:
  assumes "objects_ok upd" and "isNew \<longleftrightarrow> old = None"
  shows "tag_in (Some (apply_bot isNew old upd)) t = tag_after isNew (tag_in old t) (map_of (or_empty (ab_tags upd)) t)"
    and "mask_in (Some (apply_bot isNew old upd)) space t = tag_after isNew (mask_in old space t) (mask_of (or_empty (ab_masks upd)) space t)"
    and "signature_in (Some (apply_bot isNew old upd)) h = signature_after (signature_in old h) (map_of (or_empty (ab_signatures upd)) h)"
proof -
  have d: "distinct (map fst (or_empty (ab_tags upd)))" "distinct (map fst (or_empty (ab_signatures upd)))" "masks_ok (or_empty (ab_masks upd))"
    using assms(1) by (simp_all add: objects_ok_def)
  show "tag_in (Some (apply_bot isNew old upd)) t = tag_after isNew (tag_in old t) (map_of (or_empty (ab_tags upd)) t)"
    using d(1) assms(2) tags_after[OF d(1)] tag_after_copy[of "map_of (or_empty (ab_tags upd)) t"]
    by (cases old; cases "ab_tags upd") (auto simp: tag_in_def apply_bot_def Let_def null_keys_def)
  show "mask_in (Some (apply_bot isNew old upd)) space t = tag_after isNew (mask_in old space t) (mask_of (or_empty (ab_masks upd)) space t)"
    using d(3) assms(2) masks_after[OF d(3)] tag_after_copy[of "mask_of (or_empty (ab_masks upd)) space t"]
    by (cases old; cases "ab_masks upd") (auto simp: mask_in_def apply_bot_def Let_def clean_masks_def mask_of_def option.map_ident)
  have copy: "signature_after x x = signature_after None x" for x by (auto simp: signature_after_def split: option.splits)
  show "signature_in (Some (apply_bot isNew old upd)) h = signature_after (signature_in old h) (map_of (or_empty (ab_signatures upd)) h)"
    using d(2) signatures_after[OF d(2)] copy[of "map_of (or_empty (ab_signatures upd)) h"]
    by (cases old; cases "ab_signatures upd") (auto simp: signature_in_def apply_bot_def Let_def null_keys_def option.map_ident)
qed

section \<open>The state\<close>

lemma map_of_apply_state:
  assumes "distinct (map fst u)"
  shows "map_of (apply_state s u) i =
    (case map_of u i of
       None \<Rightarrow> map_of s i
     | Some None \<Rightarrow> None
     | Some (Some b) \<Rightarrow> Some (apply_bot (map_of s i = None) (map_of s i) b))"
proof -
  let ?g = "\<lambda>old i x. case x of None \<Rightarrow> None | Some b \<Rightarrow> Some (apply_bot (map_of s i = None) old b)"
  have "map_of (apply_state s u) i = (case map_of u i of None \<Rightarrow> map_of s i | Some x \<Rightarrow> ?g (map_of s i) i x)"
    unfolding apply_state_def
    by (rule fold_put[where g = ?g, OF _ assms]) (simp add: put_def split: option.split)
  then show ?thesis by (simp split: option.splits)
qed

definition bot_tag :: "bots_state \<Rightarrow> string \<Rightarrow> string \<Rightarrow> tag_value option" where
  "bot_tag s i = tag_in (map_of s i)"

definition bot_mask :: "bots_state \<Rightarrow> string \<Rightarrow> string \<Rightarrow> string \<Rightarrow> tag_value option" where
  "bot_mask s i = mask_in (map_of s i)"

definition bot_signature :: "bots_state \<Rightarrow> string \<Rightarrow> string \<Rightarrow> string option option" where
  "bot_signature s i = signature_in (map_of s i)"

lemmas state_views = bot_tag_def bot_mask_def bot_signature_def

lemma apply_state_views:
  assumes "partial_ok u"
  shows "map_of (apply_state s u) i = None \<longleftrightarrow> (case map_of u i of None \<Rightarrow> map_of s i = None | Some x \<Rightarrow> x = None)"
    and "bot_tag (apply_state s u) i t = (case map_of u i of None \<Rightarrow> bot_tag s i t | Some None \<Rightarrow> None
       | Some (Some b) \<Rightarrow> tag_after (map_of s i = None) (bot_tag s i t) (map_of (or_empty (ab_tags b)) t))"
    and "bot_mask (apply_state s u) i space t = (case map_of u i of None \<Rightarrow> bot_mask s i space t | Some None \<Rightarrow> None
       | Some (Some b) \<Rightarrow> tag_after (map_of s i = None) (bot_mask s i space t) (mask_of (or_empty (ab_masks b)) space t))"
    and "bot_signature (apply_state s u) i h = (case map_of u i of None \<Rightarrow> bot_signature s i h | Some None \<Rightarrow> None
       | Some (Some b) \<Rightarrow> signature_after (bot_signature s i h) (map_of (or_empty (ab_signatures b)) h))"
proof -
  have d: "distinct (map fst u)" using assms by (simp add: partial_ok_def)
  note at = map_of_apply_state[OF d, of s i]
  show "map_of (apply_state s u) i = None \<longleftrightarrow> (case map_of u i of None \<Rightarrow> map_of s i = None | Some x \<Rightarrow> x = None)"
    by (simp add: at split: option.splits)
  have bot: "objects_ok b" if "map_of u i = Some (Some b)" for b using partial_ok_at[OF assms that] .
  show "bot_tag (apply_state s u) i t = (case map_of u i of None \<Rightarrow> bot_tag s i t | Some None \<Rightarrow> None
       | Some (Some b) \<Rightarrow> tag_after (map_of s i = None) (bot_tag s i t) (map_of (or_empty (ab_tags b)) t))"
    using apply_bot_views(1)[OF bot] by (auto simp: bot_tag_def at tag_in_def[of None] split: option.split)
  show "bot_mask (apply_state s u) i space t = (case map_of u i of None \<Rightarrow> bot_mask s i space t | Some None \<Rightarrow> None
       | Some (Some b) \<Rightarrow> tag_after (map_of s i = None) (bot_mask s i space t) (mask_of (or_empty (ab_masks b)) space t))"
    using apply_bot_views(2)[OF bot] by (auto simp: bot_mask_def at mask_in_def[of None] split: option.split)
  show "bot_signature (apply_state s u) i h = (case map_of u i of None \<Rightarrow> bot_signature s i h | Some None \<Rightarrow> None
       | Some (Some b) \<Rightarrow> signature_after (bot_signature s i h) (map_of (or_empty (ab_signatures b)) h))"
    using apply_bot_views(3)[OF bot, where isNew = "map_of s i = None"] by (auto simp: bot_signature_def at signature_in_def[of None] split: option.split)
qed

section \<open>Well-formed states\<close>

text \<open>Every property is there once; tags and masks hold values, not \<^verbatim>\<open>null\<close> and not edits, and nothing is kept empty.\<close>

definition wf_tags :: "tags \<Rightarrow> bool" where
  "wf_tags ts \<longleftrightarrow> distinct (map fst ts) \<and> (\<forall>(_, v)\<in>set ts. v \<noteq> Null \<and> \<not> isTagEdit v)"

definition wf_bot :: "aux_bot \<Rightarrow> bool" where
  "wf_bot b \<longleftrightarrow> wf_tags (or_empty (ab_tags b)) \<and> ab_masks b \<noteq> Some [] \<and> ab_signatures b \<noteq> Some [] \<and>
     distinct (map fst (or_empty (ab_masks b))) \<and> (\<forall>(_, ts)\<in>set (or_empty (ab_masks b)). ts \<noteq> [] \<and> wf_tags ts) \<and>
     distinct (map fst (or_empty (ab_signatures b))) \<and> (\<forall>(_, v)\<in>set (or_empty (ab_signatures b)). v \<noteq> None)"

definition wf_state :: "bots_state \<Rightarrow> bool" where
  "wf_state s \<longleftrightarrow> distinct (map fst s) \<and> (\<forall>(_, b)\<in>set s. wf_bot b)"

lemma ball_map_of: "distinct (map fst x) \<Longrightarrow> (\<forall>(_, v)\<in>set x. P v) \<longleftrightarrow> (\<forall>k v. map_of x k = Some v \<longrightarrow> P v)"
  by (auto simp: map_of_eq_Some_iff)

lemma applyTagEdit_no_edit: "\<not> isTagEdit (applyTagEdit v e)"
  by (simp add: applyTagEdit_def Let_def isTagEdit_def)

lemma tag_after_wf: "tag_after n old upd = Some v \<Longrightarrow> (old = Some v \<Longrightarrow> v \<noteq> Null \<and> \<not> isTagEdit v) \<Longrightarrow> v \<noteq> Null \<and> \<not> isTagEdit v"
  by (auto simp: tag_after_def edit_value_def Let_def isTagEdit_def applyTagEdit_def split: option.splits js.splits plain_value.splits if_splits)

lemma wf_tags_map: "distinct (map fst ts) \<Longrightarrow> wf_tags ts \<longleftrightarrow> (\<forall>t v. map_of ts t = Some v \<longrightarrow> v \<noteq> Null \<and> \<not> isTagEdit v)"
  unfolding wf_tags_def by (simp add: ball_map_of[where P = "\<lambda>v. v \<noteq> Null \<and> \<not> isTagEdit v"])

text \<open>The base of a loop is the old object, or, for what is new, the update itself.\<close>

lemma wf_tags_after:
  assumes "distinct (map fst upd)" and "wf_tags ts \<or> isNew \<and> ts = upd"
  shows "wf_tags (delete_all (null_keys Null (set_tags isNew ts upd) upd) (set_tags isNew ts upd))"
proof -
  have d: "distinct (map fst ts)" using assms by (auto simp: wf_tags_def)
  show ?thesis
  proof (subst wf_tags_map; (intro allI impI)?)
    show "distinct (map fst (delete_all (null_keys Null (set_tags isNew ts upd) upd) (set_tags isNew ts upd)))"
      by (rule distinct_delete_all[OF distinct_set_tags[OF d]])
  next
    fix t v
    assume "map_of (delete_all (null_keys Null (set_tags isNew ts upd) upd) (set_tags isNew ts upd)) t = Some v"
    then have v: "tag_after isNew (map_of ts t) (map_of upd t) = Some v" by (simp add: tags_after[OF assms(1)])
    show "v \<noteq> Null \<and> \<not> isTagEdit v"
    proof (cases "wf_tags ts")
      case True
      with v show ?thesis by (rule_tac tag_after_wf[OF v]) (simp add: wf_tags_map[OF d])
    next
      case False
      with assms(2) v have "tag_after True None (map_of upd t) = Some v" by (simp add: tag_after_copy)
      then show ?thesis by (rule tag_after_wf) simp
    qed
  qed
qed

lemma distinct_masks:
  "distinct (map fst m) \<Longrightarrow> distinct (map fst (set_masks isNew m upd))"
  "distinct (map fst m) \<Longrightarrow> distinct (map fst (clean_masks m upd))"
  unfolding set_masks_def clean_masks_def
  by (rule fold_put_distinct[where g = "\<lambda>old _ ts. Some (set_tags isNew (or_empty old) ts)"]; simp add: update_put)
     (rule fold_put_distinct[where g = "\<lambda>old _ ts. clean_mask old ts"], rule clean_step)

lemma wf_masks_after:
  assumes upd: "masks_ok upd" and old: "distinct (map fst m)" "(\<forall>(_, ts)\<in>set m. ts \<noteq> [] \<and> wf_tags ts) \<or> isNew \<and> m = upd"
    and at: "map_of (clean_masks (set_masks isNew m upd) upd) space = Some ts"
  shows "ts \<noteq> [] \<and> wf_tags ts"
proof (cases "map_of upd space")
  case None
  with at upd have "map_of m space = Some ts" by (simp add: map_of_clean_masks map_of_set_masks masks_ok_def)
  with old(2) None show ?thesis by (auto dest: map_of_SomeD)
next
  case (Some us)
  then have us: "distinct (map fst us)" using upd by (auto simp: masks_ok_def dest!: map_of_SomeD)
  let ?base = "or_empty (map_of m space)"
  from at Some upd have "clean_mask (Some (set_tags isNew ?base us)) us = Some ts"
    by (simp add: map_of_clean_masks map_of_set_masks masks_ok_def)
  then have ts: "ts \<noteq> []" "ts = delete_all (null_keys Null (set_tags isNew ?base us) us) (set_tags isNew ?base us)"
    by (auto simp: clean_mask_def Let_def split: if_splits)
  have "wf_tags ?base \<or> isNew \<and> ?base = us"
  proof (cases "map_of m space")
    case None
    then show ?thesis by (simp add: wf_tags_def)
  next
    case (Some a)
    with old(2) \<open>map_of upd space = Some us\<close> show ?thesis by (auto dest: map_of_SomeD)
  qed
  with wf_tags_after[OF us] ts show ?thesis by simp
qed

lemma wf_apply_bot:
  assumes upd: "objects_ok upd" and old: "isNew \<longleftrightarrow> old = None" "\<And>b. old = Some b \<Longrightarrow> wf_bot b"
  shows "wf_bot (apply_bot isNew old upd)"
proof -
  let ?b = "case old of None \<Rightarrow> upd | Some x \<Rightarrow> x"
  let ?r = "apply_bot isNew old upd"
  have d: "distinct (map fst (or_empty (ab_tags upd)))" "distinct (map fst (or_empty (ab_signatures upd)))" "masks_ok (or_empty (ab_masks upd))"
    using upd by (simp_all add: objects_ok_def)
  have base: "isNew \<and> ?b = upd \<or> \<not> isNew \<and> wf_bot ?b" using old by (cases old) auto
  have tags: "wf_tags (or_empty (ab_tags ?r))"
  proof (cases "ab_tags upd")
    case None
    with base show ?thesis by (auto simp: apply_bot_def Let_def null_keys_def wf_bot_def wf_tags_def)
  next
    case (Some u)
    have "wf_tags (or_empty (ab_tags ?b)) \<or> isNew \<and> or_empty (ab_tags ?b) = u" using base Some by (auto simp: wf_bot_def)
    with wf_tags_after[of u] d(1) Some show ?thesis by (simp add: apply_bot_def Let_def)
  qed
  have masks: "distinct (map fst (or_empty (ab_masks ?r))) \<and> (\<forall>(_, ts)\<in>set (or_empty (ab_masks ?r)). ts \<noteq> [] \<and> wf_tags ts)"
  proof (cases "ab_masks upd")
    case None
    with base show ?thesis by (auto simp: apply_bot_def Let_def clean_masks_def option.map_ident wf_bot_def)
  next
    case (Some u)
    have m: "distinct (map fst (or_empty (ab_masks ?b)))"
      "(\<forall>(_, ts)\<in>set (or_empty (ab_masks ?b)). ts \<noteq> [] \<and> wf_tags ts) \<or> isNew \<and> or_empty (ab_masks ?b) = u"
      using base Some d(3) by (auto simp: wf_bot_def masks_ok_def)
    have r: "or_empty (ab_masks ?r) = clean_masks (set_masks isNew (or_empty (ab_masks ?b)) u) u"
      using Some by (simp add: apply_bot_def Let_def)
    have dr: "distinct (map fst (or_empty (ab_masks ?r)))" unfolding r by (intro distinct_masks m(1))
    moreover have "\<forall>(_, ts)\<in>set (or_empty (ab_masks ?r)). ts \<noteq> [] \<and> wf_tags ts"
      unfolding ball_map_of[OF dr, of "\<lambda>ts. ts \<noteq> [] \<and> wf_tags ts"] using wf_masks_after[of u, OF _ m] d(3) Some by (simp add: r)
    ultimately show ?thesis by blast
  qed
  have sigs: "distinct (map fst (or_empty (ab_signatures ?r))) \<and> (\<forall>(_, v)\<in>set (or_empty (ab_signatures ?r)). v \<noteq> None)"
  proof (cases "ab_signatures upd")
    case None
    with base show ?thesis by (auto simp: apply_bot_def Let_def null_keys_def wf_bot_def option.map_ident)
  next
    case (Some u)
    have s: "distinct (map fst (or_empty (ab_signatures ?b)))"
      "(\<forall>h v. map_of (or_empty (ab_signatures ?b)) h = Some v \<longrightarrow> v \<noteq> None) \<or> isNew \<and> or_empty (ab_signatures ?b) = u"
      using base Some d(2) by (auto simp: wf_bot_def dest!: map_of_SomeD)
    let ?s = "assign (or_empty (ab_signatures ?b)) u"
    have r: "or_empty (ab_signatures ?r) = delete_all (null_keys None ?s u) ?s" using Some by (simp add: apply_bot_def Let_def)
    have dr: "distinct (map fst (or_empty (ab_signatures ?r)))"
      unfolding r assign_def by (intro distinct_delete_all fold_put_distinct[where g = "\<lambda>_ _ v. Some v"] s(1)) (simp add: update_put)
    moreover have "\<forall>(_, v)\<in>set (or_empty (ab_signatures ?r)). v \<noteq> None"
      unfolding ball_map_of[OF dr, of "\<lambda>v. v \<noteq> None"] unfolding r using signatures_after[of u] s(2) d(2) Some
      by (auto simp: signature_after_def split: option.splits)
    ultimately show ?thesis by blast
  qed
  have "ab_masks ?r \<noteq> Some [] \<and> ab_signatures ?r \<noteq> Some []" by (simp add: apply_bot_def Let_def drop_empty_def)
  with tags masks sigs show ?thesis by (simp add: wf_bot_def)
qed

lemma wf_apply_state:
  assumes "wf_state s" and "partial_ok u"
  shows "wf_state (apply_state s u)"
proof -
  have d: "distinct (map fst u)" "distinct (map fst s)" using assms by (simp_all add: partial_ok_def wf_state_def)
  have dr: "distinct (map fst (apply_state s u))"
    unfolding apply_state_def
    by (rule fold_put_distinct[where g = "\<lambda>old i x. case x of None \<Rightarrow> None | Some b \<Rightarrow> Some (apply_bot (map_of s i = None) old b)"])
       (simp_all add: put_def d split: option.split)
  have "wf_bot b" if "map_of (apply_state s u) i = Some b" for i b
  proof -
    have old: "map_of s i = Some x \<Longrightarrow> wf_bot x" for x using assms(1) by (auto simp: wf_state_def dest: map_of_SomeD)
    from that show ?thesis
      using old wf_apply_bot[OF partial_ok_at[OF assms(2)], of i _ "map_of s i = None" "map_of s i"]
      by (auto simp: map_of_apply_state[OF d(1)] split: option.splits)
  qed
  with dr show ?thesis unfolding wf_state_def ball_map_of[OF dr] by blast
qed

section \<open>Summaries of updates\<close>

text \<open>An update that sets values and takes them away, without edits of text.\<close>

definition no_edits :: "aux_bot \<Rightarrow> bool" where
  "no_edits b \<longleftrightarrow> (\<forall>(_, v)\<in>set (or_empty (ab_tags b)). \<not> isTagEdit v) \<and>
     (\<forall>(_, ts)\<in>set (or_empty (ab_masks b)). \<forall>(_, v)\<in>set ts. \<not> isTagEdit v)"

lemma edit_value_plain: "\<not> isTagEdit v \<Longrightarrow> edit_value n old v = v"
  by (auto simp: edit_value_def isTagEdit_def split: js.splits plain_value.splits)

lemma map_of_put_tags:
  assumes "distinct (map fst upd)" and "\<forall>(_, v)\<in>set upd. \<not> isTagEdit v"
  shows "map_of (put_tags ts upd) t = tag_after n (map_of ts t) (map_of upd t)"
proof -
  have "map_of (put_tags ts upd) t =
      (case map_of upd t of None \<Rightarrow> map_of ts t | Some v \<Rightarrow> if v = Null then None else Some v)"
    unfolding put_tags_def
    by (rule fold_put[where g = "\<lambda>_ _ v. if v = Null then None else Some v", OF _ assms(1)]) (simp add: put_def)
  moreover have "map_of upd t = Some v \<Longrightarrow> \<not> isTagEdit v" for v using assms(2) by (auto dest: map_of_SomeD)
  ultimately show ?thesis by (auto simp: tag_after_def edit_value_plain split: option.split)
qed

lemma or_empty_put_signatures:
  "or_empty (put_signatures sg upd) = foldl (\<lambda>acc (h, v). if v = None then AList.delete h acc else AList.update h v acc) (or_empty sg) upd"
  unfolding put_signatures_def
proof (induction upd arbitrary: sg)
  case (Cons p upd)
  then show ?case by (cases p; cases sg) simp_all
qed simp

lemma map_of_put_signatures:
  assumes "distinct (map fst upd)"
  shows "map_of (or_empty (put_signatures sg upd)) h = signature_after (map_of (or_empty sg) h) (map_of upd h)"
proof -
  have "map_of (or_empty (put_signatures sg upd)) h =
      (case map_of upd h of None \<Rightarrow> map_of (or_empty sg) h | Some v \<Rightarrow> if v = None then None else Some v)"
    unfolding or_empty_put_signatures
    by (rule fold_put[where g = "\<lambda>_ _ v. if v = None then None else Some v", OF _ assms]) (simp add: put_def)
  then show ?thesis by (auto simp: signature_after_def split: option.split)
qed

text \<open>The masks after a loop that did not throw.\<close>

lemma mask_of_update: "mask_of (AList.update space ts m) space' t = (if space' = space then map_of ts t else mask_of m space' t)"
  by (simp add: mask_of_def update_conv')

lemma put_mask_view:
  assumes "put_mask space m ts = Some m'" and "distinct (map fst ts)" and "\<forall>(_, v)\<in>set ts. \<not> isTagEdit v"
  shows "mask_of (or_empty m') space' t =
    (if space' = space then tag_after n (mask_of (or_empty m) space t) (map_of ts t) else mask_of (or_empty m) space' t)"
  using assms
proof (induction space m ts rule: put_mask.induct)
  case (2 space m k v rest)
  have rest: "map_of rest k = None" using 2(4) by (simp add: map_of_eq_None_iff)
  have d: "distinct (map fst rest)" "\<forall>(_, v)\<in>set rest. \<not> isTagEdit v" using 2(4,5) by simp_all
  have v: "edit_value n old v = v" for old using 2(5) by (simp add: edit_value_plain)
  define m1 where "m1 = (if v = Null then AList.update space (AList.delete k (or_empty (map_of (or_empty m) space))) (or_empty m)
     else AList.update space (AList.update k v (or_empty (map_of (or_empty m) space))) (or_empty m))"
  have "put_mask space (Some m1) rest = Some m'"
    using 2(3) by (auto simp: m1_def split: if_splits option.splits)
  moreover have "mask_of (or_empty m') space' t =
      (if space' = space then tag_after n (mask_of m1 space t) (map_of rest t) else mask_of m1 space' t)"
  proof (cases "v = Null")
    case True
    with 2(3) obtain o1 ts1 where "m = Some o1" "map_of o1 space = Some ts1"
        "put_mask space (Some (AList.update space (AList.delete k ts1) o1)) rest = Some m'"
      by (auto split: option.splits)
    with 2(1)[OF True this d] True show ?thesis by (simp add: m1_def)
  next
    case False
    with 2(2)[OF False _ d] 2(3) show ?thesis by (simp add: m1_def)
  qed
  moreover have "mask_of m1 space' t =
      (if space' = space then (if t = k then (if v = Null then None else Some v) else mask_of (or_empty m) space t)
       else mask_of (or_empty m) space' t)" for space' t
    by (auto simp: m1_def mask_of_update delete_conv' update_conv' mask_of_def)
  ultimately show ?case using rest v by (simp add: tag_after_def Let_def)
qed (simp add: tag_after_def)

lemma put_masks_view:
  assumes "put_masks m upd = Some m'" and "masks_ok upd" and "\<forall>(_, ts)\<in>set upd. \<forall>(_, v)\<in>set ts. \<not> isTagEdit v"
  shows "mask_of (or_empty m') space t = tag_after n (mask_of (or_empty m) space t) (mask_of upd space t)"
  using assms
proof (induction m upd rule: put_masks.induct)
  case (2 m sp ts rest)
  then obtain m1 where m1: "put_mask sp m ts = Some m1" "put_masks m1 rest = Some m'" by (auto split: bind_splits)
  have ok: "masks_ok rest" "distinct (map fst ts)" "map_of rest sp = None"
    using 2(3) by (auto simp: masks_ok_def map_of_eq_None_iff)
  from 2(1)[OF m1 ok(1)] put_mask_view[OF m1(1) ok(2), of space t n] 2(4) ok(3) show ?case
    by (auto simp: mask_of_def[of "(sp, ts) # rest"] mask_of_def[of rest])
qed (simp add: mask_of_def)

lemma set_dedupe: "set (foldl (\<lambda>acc k. if k \<in> set acc then acc else acc @ [k]) acc ks) = set acc \<union> set ks"
  by (induction ks arbitrary: acc) auto

lemma distinct_dedupe: "distinct acc \<Longrightarrow> distinct (foldl (\<lambda>acc k. if k \<in> set acc then acc else acc @ [k]) acc ks)"
  by (induction ks arbitrary: acc) auto

text \<open>A bot as a watcher gets it, compared with the bot that \<open>apply_state\<close> makes.\<close>

lemma updated_of_views:
  assumes "updated_of b upd = Some (Some z)" and "objects_ok upd" and "no_edits upd"
  shows "tag_in (Some (ub_bot z)) t = tag_in (Some (apply_bot False (Some b) upd)) t"
    and "mask_in (Some (ub_bot z)) space t = mask_in (Some (apply_bot False (Some b) upd)) space t"
    and "signature_in (Some (ub_bot z)) h = signature_in (Some (apply_bot False (Some b) upd)) h"
    and "ab_id (ub_bot z) = ab_id b"
    and "set (ub_tags z) = fst ` set (or_empty (ab_tags upd)) \<union> (\<Union>(_, ts)\<in>set (or_empty (ab_masks upd)). fst ` set ts)"
    and "distinct (ub_tags z)"
proof -
  have ok: "distinct (map fst (or_empty (ab_tags upd)))" "distinct (map fst (or_empty (ab_signatures upd)))"
    "masks_ok (or_empty (ab_masks upd))" using assms(2) by (simp_all add: objects_ok_def)
  have plain: "\<forall>(_, v)\<in>set (or_empty (ab_tags upd)). \<not> isTagEdit v"
    "\<forall>(_, ts)\<in>set (or_empty (ab_masks upd)). \<forall>(_, v)\<in>set ts. \<not> isTagEdit v" using assms(3) by (simp_all add: no_edits_def)
  obtain m where m: "put_masks (ab_masks b) (or_empty (ab_masks upd)) = Some m"
    and z: "z = \<lparr>ub_bot = b\<lparr>ab_tags := Some (put_tags (or_empty (ab_tags b)) (or_empty (ab_tags upd))),
         ab_signatures := (case ab_signatures upd of None \<Rightarrow> ab_signatures b | Some u \<Rightarrow> drop_empty (put_signatures (ab_signatures b) u)),
         ab_masks := m\<rparr>,
       ub_tags = foldl (\<lambda>acc k. if k \<in> set acc then acc else acc @ [k]) []
         (map fst (or_empty (ab_tags upd)) @ concat (map (map fst \<circ> snd) (or_empty (ab_masks upd)))),
       ub_signatures = (if map fst (or_empty (ab_signatures upd)) = [] then None else Some (map fst (or_empty (ab_signatures upd))))\<rparr>"
    using assms(1) by (auto simp: updated_of_def Let_def split: bind_splits if_splits)
  have old: "False \<longleftrightarrow> Some b = None" by simp
  note after = apply_bot_views[OF assms(2) old]
  show "tag_in (Some (ub_bot z)) t = tag_in (Some (apply_bot False (Some b) upd)) t"
    unfolding after using map_of_put_tags[OF ok(1) plain(1)] by (simp add: tag_in_def z)
  show "mask_in (Some (ub_bot z)) space t = mask_in (Some (apply_bot False (Some b) upd)) space t"
    unfolding after using put_masks_view[OF m ok(3) plain(2)] by (simp add: mask_in_def z)
  show "signature_in (Some (ub_bot z)) h = signature_in (Some (apply_bot False (Some b) upd)) h"
    unfolding after using map_of_put_signatures[OF ok(2), of "ab_signatures b" h]
    by (cases "ab_signatures upd") (simp_all add: signature_in_def z)
  show "ab_id (ub_bot z) = ab_id b" by (simp add: z)
  show "set (ub_tags z) = fst ` set (or_empty (ab_tags upd)) \<union> (\<Union>(_, ts)\<in>set (or_empty (ab_masks upd)). fst ` set ts)"
    unfolding z by (auto simp: set_dedupe case_prod_unfold)
  show "distinct (ub_tags z)" unfolding z by (simp add: distinct_dedupe)
qed

text \<open>Which bots are listed.\<close>

lemma updates_from_lists:
  "updates_from s u r = Some r' \<Longrightarrow>
     addedBots r' = addedBots r @ concat (map (\<lambda>(i, x). if map_of s i = None \<and> isBot x then [the x] else []) u) \<and>
     removedBots r' = removedBots r @ concat (map (\<lambda>(i, x). case map_of s i of None \<Rightarrow> [] | Some b \<Rightarrow> if x = None then [ab_id b] else []) u) \<and>
     set (updatedBots r') = set (updatedBots r) \<union>
       {z. \<exists>i b x. (i, Some x) \<in> set u \<and> map_of s i = Some b \<and> updated_of b x = Some (Some z)} \<and>
     (\<forall>i b x. (i, Some x) \<in> set u \<and> map_of s i = Some b \<longrightarrow> updated_of b x \<noteq> None)"
proof (induction s u r arbitrary: r' rule: updates_from.induct)
  case (2 s i upd rest r)
  show ?case
  proof (cases "map_of s i")
    case None
    with 2(1)[OF None] 2(4) show ?thesis by (auto split: if_splits)
  next
    case b: (Some b)
    show ?thesis
    proof (cases upd)
      case None
      with 2(2)[OF b None] 2(4) b show ?thesis by auto
    next
      case (Some x)
      with 2(4) b obtain y where y: "updated_of b x = Some y"
          "updates_from s rest (case y of None \<Rightarrow> r | Some z \<Rightarrow> r\<lparr>updatedBots := updatedBots r @ [z]\<rparr>) = Some r'"
        by (auto split: bind_splits)
      from 2(3)[OF b Some y] b Some y(1) show ?thesis by (cases y) auto
    qed
  qed
qed simp

section \<open>Edits of text\<close>

lemma convert_applied [simp]: "convertToString (applyTagEdit v e) = applyEdit v e"
  by (simp add: applyTagEdit_def Let_def convertToString_def hasValue_def)

lemma applyEdit_twice: "te_operations e = te_operations a @ te_operations b \<Longrightarrow> applyEdit (applyTagEdit v a) b = applyEdit v e"
  by (simp add: applyEdit_def[of _ b] applyEdit_def[of _ e]) (simp add: applyEdit_def)

lemma map_of_mergeVersions:
  assumes "distinct (map fst b)"
  shows "map_of (mergeVersions a b) i = (case map_of b i of None \<Rightarrow> map_of a i | Some t \<Rightarrow> Some (max (time_of a i) t))"
proof -
  have "map_of (mergeVersions a b) i =
      (case map_of b i of None \<Rightarrow> map_of a i | Some t \<Rightarrow> Some (max (case map_of a i of None \<Rightarrow> 0 | Some t \<Rightarrow> t) t))"
    unfolding mergeVersions_def
    by (rule fold_put[where g = "\<lambda>old _ t. Some (max (case old of None \<Rightarrow> 0 | Some t \<Rightarrow> t) t)", OF _ assms])
       (simp add: time_of_def update_put)
  then show ?thesis by (simp add: time_of_def split: option.split)
qed

lemma splice_between: "splice (a @ b @ c) (int (length a)) (int (length b)) t = a @ t @ c"
  by (simp add: splice_def slice_index_def nat_add_distrib)

lemma splice_insert: "splice (a @ c) (int (length a)) 0 t = a @ t @ c"
  by (simp add: splice_def slice_index_def)

text \<open>Replacing a part of a text.\<close>

definition replace_ops :: "string \<Rightarrow> string \<Rightarrow> string \<Rightarrow> tag_op list" where
  "replace_ops a b t = [PreserveOp (int (length a)), DeleteOp (int (length b)), InsertOp t]"

lemma apply_replace: "apply_ops (a @ b @ c) 0 (replace_ops a b t) = a @ t @ c"
  using splice_between[of a b c "[]"] splice_insert[of a c t] by (simp add: replace_ops_def)

end
