(* ===== verification/BotClaims.thy ===== *)
theory BotClaims
  imports BotStateSpec
begin

text \<open>
  Properties of the state of bots, with examples, and what the code does on some inputs that its comments do not
  foresee.
\<close>

section \<open>A state\<close>

definition text_value :: "string \<Rightarrow> tag_value" where "text_value s = Val (StrV s)"

definition bot_with :: "string option \<Rightarrow> tags option \<Rightarrow> tags obj option \<Rightarrow> aux_bot" where
  "bot_with i ts ms = \<lparr>ab_id = i, ab_space = None, ab_tags = ts, ab_signatures = None, ab_values = None, ab_masks = ms\<rparr>"

definition demo_state :: bots_state where
  "demo_state = [(''b1'', bot_with (Some ''b1'') (Some [(''color'', text_value ''red''), (''label'', text_value ''hello'')]) None),
                 (''b2'', bot_with (Some ''b2'') (Some []) (Some [(''tempLocal'', [(''x'', Val (NumV 1))])]))]"

text \<open>An edit, a new tag and a removal; a mask that goes; and a new bot.\<close>

definition demo_partial :: partial_state where
  "demo_partial =
     [(''b1'', Some (bot_with None (Some [(''label'', Val (EditV (edit [(''s'', 3)] [PreserveOp 5, InsertOp '' you'']))),
                                       (''size'', Val (NumV 2)), (''color'', Null)]) None)),
      (''b2'', Some (bot_with None None (Some [(''tempLocal'', [(''x'', Null)])]))),
      (''b3'', Some (bot_with (Some ''b3'') (Some [(''a'', Val (BoolV True)), (''b'', Null)]) None))]"

section \<open>Applying an update\<close>

text \<open>C16: An update changes exactly what it names: a bot that is set to null is gone, a bot that is not named stays, and of
  one that is named every tag, every mask of every space and every signature becomes what the update has for it, an edit
  being applied to the old text (to the empty one for a new bot) and null taking it away; all others stay.\<close>

theorem apply_is_pointwise:
  assumes "partial_ok u"
  shows "(map_of (apply_state s u) i = None \<longleftrightarrow> (case map_of u i of None \<Rightarrow> map_of s i = None | Some x \<Rightarrow> x = None)) \<and>
    bot_tag (apply_state s u) i t = (case map_of u i of None \<Rightarrow> bot_tag s i t | Some None \<Rightarrow> None
       | Some (Some b) \<Rightarrow> tag_after (map_of s i = None) (bot_tag s i t) (map_of (or_empty (ab_tags b)) t)) \<and>
    bot_mask (apply_state s u) i space t = (case map_of u i of None \<Rightarrow> bot_mask s i space t | Some None \<Rightarrow> None
       | Some (Some b) \<Rightarrow> tag_after (map_of s i = None) (bot_mask s i space t) (mask_of (or_empty (ab_masks b)) space t)) \<and>
    bot_signature (apply_state s u) i h = (case map_of u i of None \<Rightarrow> bot_signature s i h | Some None \<Rightarrow> None
       | Some (Some b) \<Rightarrow> signature_after (bot_signature s i h) (map_of (or_empty (ab_signatures b)) h))"
  by (intro conjI apply_state_views[OF assms])

lemma apply_is_pointwise_witness:
  "bot_tag (apply_state demo_state demo_partial) ''b1'' ''label'' = Some (text_value ''hello you'') \<and>
   bot_tag (apply_state demo_state demo_partial) ''b1'' ''color'' = None \<and>
   bot_mask (apply_state demo_state demo_partial) ''b2'' ''tempLocal'' ''x'' = None \<and>
   bot_tag (apply_state demo_state demo_partial) ''b3'' ''a'' = Some (Val (BoolV True))"
proof -
  have ok: "partial_ok demo_partial" by code_simp
  note at = apply_is_pointwise[OF ok]
  show ?thesis unfolding at[THEN conjunct2, THEN conjunct1] at[THEN conjunct2, THEN conjunct2, THEN conjunct1]
    by (intro conjI) code_simp+
qed

text \<open>C19: Applying updates keeps a state well-formed: every bot, tag, mask and signature is there once, no value of a tag or
  mask is null or an unapplied edit, and no empty object of masks or signatures is left.\<close>

theorem apply_keeps_well_formed:
  assumes "wf_state s" and "\<forall>u\<in>set us. partial_ok u"
  shows "wf_state (foldl apply_state s us)"
  using assms by (induction us arbitrary: s) (simp_all add: wf_apply_state)

lemma apply_keeps_well_formed_witness: "wf_state (foldl apply_state demo_state [demo_partial, [(''b1'', None)]])"
  by (rule apply_keeps_well_formed; code_simp)

section \<open>Independent updates\<close>

text \<open>Two updates that remove or make no bot that the other names, and name no tag, mask or signature in common.\<close>

definition disjoint_keys :: "'v obj \<Rightarrow> 'w obj \<Rightarrow> bool" where
  "disjoint_keys x y \<longleftrightarrow> (\<forall>(k, _)\<in>set x. map_of y k = None)"

definition disjoint_bots :: "aux_bot \<Rightarrow> aux_bot \<Rightarrow> bool" where
  "disjoint_bots a b \<longleftrightarrow> disjoint_keys (or_empty (ab_tags a)) (or_empty (ab_tags b)) \<and>
     disjoint_keys (or_empty (ab_signatures a)) (or_empty (ab_signatures b)) \<and>
     (\<forall>(space, ts)\<in>set (or_empty (ab_masks a)). disjoint_keys ts (or_empty (map_of (or_empty (ab_masks b)) space)))"

definition independent :: "bots_state \<Rightarrow> partial_state \<Rightarrow> partial_state \<Rightarrow> bool" where
  "independent s u v \<longleftrightarrow> (\<forall>(i, x)\<in>set u.
     (case map_of v i of
        None \<Rightarrow> True
      | Some y \<Rightarrow> map_of s i \<noteq> None \<and> (case (x, y) of (Some a, Some b) \<Rightarrow> disjoint_bots a b | _ \<Rightarrow> False)))"

definition same_bots :: "bots_state \<Rightarrow> bots_state \<Rightarrow> bool" where
  "same_bots s s' \<longleftrightarrow> (\<forall>i. (map_of s i = None \<longleftrightarrow> map_of s' i = None) \<and> bot_tag s i = bot_tag s' i \<and>
     bot_mask s i = bot_mask s' i \<and> bot_signature s i = bot_signature s' i)"

lemma disjoint_keysD: "disjoint_keys x y \<Longrightarrow> map_of x k \<noteq> None \<Longrightarrow> map_of y k = None"
  by (auto simp: disjoint_keys_def dest!: map_of_SomeD)

lemma disjoint_botsD:
  assumes "disjoint_bots a b"
  shows "map_of (or_empty (ab_tags a)) t = None \<or> map_of (or_empty (ab_tags b)) t = None"
    and "map_of (or_empty (ab_signatures a)) h = None \<or> map_of (or_empty (ab_signatures b)) h = None"
    and "mask_of (or_empty (ab_masks a)) space t = None \<or> mask_of (or_empty (ab_masks b)) space t = None"
proof -
  show "map_of (or_empty (ab_tags a)) t = None \<or> map_of (or_empty (ab_tags b)) t = None"
    "map_of (or_empty (ab_signatures a)) h = None \<or> map_of (or_empty (ab_signatures b)) h = None"
    using disjoint_keysD[of "or_empty (ab_tags a)" "or_empty (ab_tags b)" t]
      disjoint_keysD[of "or_empty (ab_signatures a)" "or_empty (ab_signatures b)" h] assms
    unfolding disjoint_bots_def by argo+
  show "mask_of (or_empty (ab_masks a)) space t = None \<or> mask_of (or_empty (ab_masks b)) space t = None"
  proof (cases "map_of (or_empty (ab_masks a)) space")
    case (Some ts)
    then have d: "disjoint_keys ts (or_empty (map_of (or_empty (ab_masks b)) space))"
      using assms by (auto simp: disjoint_bots_def dest: map_of_SomeD)
    from Some disjoint_keysD[OF d, of t] show ?thesis by (cases "map_of ts t") (auto simp: mask_of_def)
  qed (simp add: mask_of_def)
qed

lemma independentD:
  assumes "independent s u v" and "map_of u i = Some x" and "map_of v i = Some y"
  shows "\<exists>a b. x = Some a \<and> y = Some b \<and> map_of s i \<noteq> None \<and> disjoint_bots a b"
  using map_of_SomeD[OF assms(2)] assms(1,3) unfolding independent_def
  by (cases x; cases y) (fastforce split: option.splits)+

text \<open>C17: Updates that are independent of each other have the same result in either order, also with edits of text: devices that
  change different tags of the same bots, or different bots, agree on the state whichever change arrives first.\<close>

theorem independent_updates_commute:
  assumes "partial_ok u" and "partial_ok v" and "independent s u v"
  shows "same_bots (apply_state (apply_state s u) v) (apply_state (apply_state s v) u)"
proof -
  note at = apply_state_views[OF assms(1)] apply_state_views[OF assms(2)]
  have both: "\<exists>a b. x = Some a \<and> y = Some b \<and> map_of s i \<noteq> None \<and> disjoint_bots a b"
    if "map_of u i = Some x" "map_of v i = Some y" for i x y using independentD[OF assms(3) that] .
  have "(map_of (apply_state (apply_state s u) v) i = None) = (map_of (apply_state (apply_state s v) u) i = None) \<and>
      bot_tag (apply_state (apply_state s u) v) i t = bot_tag (apply_state (apply_state s v) u) i t \<and>
      bot_mask (apply_state (apply_state s u) v) i space t = bot_mask (apply_state (apply_state s v) u) i space t \<and>
      bot_signature (apply_state (apply_state s u) v) i h = bot_signature (apply_state (apply_state s v) u) i h" for i t space h
  proof -
    have "map_of v i = None \<or> map_of u i = None \<or>
        (\<exists>a b. map_of u i = Some (Some a) \<and> map_of v i = Some (Some b) \<and> map_of s i \<noteq> None \<and> disjoint_bots a b)"
    proof (cases "map_of u i"; cases "map_of v i")
      fix x y
      assume xy: "map_of u i = Some x" "map_of v i = Some y"
      from both[OF xy] xy show ?thesis by auto
    qed simp_all
    then consider (left) "map_of v i = None" | (right) "map_of u i = None"
      | (both) a b where "map_of u i = Some (Some a)" "map_of v i = Some (Some b)" "map_of s i \<noteq> None" "disjoint_bots a b"
      by auto
    then show ?thesis
    proof cases
      case (both a b)
      from disjoint_botsD(1)[OF both(4), of t] disjoint_botsD(2)[OF both(4), of h] disjoint_botsD(3)[OF both(4), of space t] both(1-3)
      show ?thesis by (auto simp: at)
    qed (simp_all add: at split: option.split)
  qed
  then show ?thesis unfolding same_bots_def by blast
qed

lemma independent_updates_commute_witness:
  "same_bots (apply_state (apply_state demo_state demo_partial) [(''b1'', Some (bot_with None (Some [(''shape'', text_value ''cube'')]) None))])
     (apply_state (apply_state demo_state [(''b1'', Some (bot_with None (Some [(''shape'', text_value ''cube'')]) None))]) demo_partial)"
  by (rule independent_updates_commute; code_simp)

section \<open>Summaries\<close>

lemma isBot_the: "isBot x \<Longrightarrow> x = Some (the x)"
  by (cases x) (simp_all add: isBot_def)

lemma in_concat_map: "y \<in> set (concat (map f u)) \<longleftrightarrow> (\<exists>i x. (i, x) \<in> set u \<and> y \<in> set (f (i, x)))"
  by auto

text \<open>The bots that are there and whose part of the update names a tag or a signature, in the order of the update.\<close>

definition changed_bots :: "bots_state \<Rightarrow> partial_state \<Rightarrow> (string \<times> aux_bot \<times> aux_bot) list" where
  "changed_bots s u = concat (map (\<lambda>(i, x). case (map_of s i, x) of
       (Some b, Some y) \<Rightarrow> if or_empty (ab_tags y) = [] \<and> or_empty (ab_signatures y) = [] then [] else [(i, b, y)]
     | _ \<Rightarrow> []) u)"

lemma in_changed_bots:
  "(i, b, x) \<in> set (changed_bots s u) \<Longrightarrow> (i, Some x) \<in> set u \<and> map_of s i = Some b"
  by (auto simp: changed_bots_def split: option.splits if_splits)

lemma updated_of_none: "updated_of b x = Some None \<Longrightarrow> or_empty (ab_tags x) = [] \<and> or_empty (ab_signatures x) = []"
  by (auto simp: updated_of_def Let_def split: bind_splits if_splits)

lemma updated_of_some: "updated_of b x = Some (Some z) \<Longrightarrow> \<not> (or_empty (ab_tags x) = [] \<and> or_empty (ab_signatures x) = [])"
  by (auto simp: updated_of_def Let_def split: bind_splits if_splits)

lemma updates_from_changed:
  "updates_from s u r = Some r' \<Longrightarrow>
   \<exists>zs. updatedBots r' = updatedBots r @ zs \<and> list_all2 (\<lambda>z (i, b, x). updated_of b x = Some (Some z)) zs (changed_bots s u)"
proof (induction s u r arbitrary: r' rule: updates_from.induct)
  case (2 s i upd rest r)
  show ?case
  proof (cases "map_of s i")
    case None
    with 2(1)[OF None] 2(4) show ?thesis by (fastforce simp: changed_bots_def split: if_splits)
  next
    case b: (Some b)
    show ?thesis
    proof (cases upd)
      case None
      with 2(2)[OF b None] 2(4) b show ?thesis by (fastforce simp: changed_bots_def)
    next
      case (Some x)
      with 2(4) b obtain y where y: "updated_of b x = Some y"
          "updates_from s rest (case y of None \<Rightarrow> r | Some z \<Rightarrow> r\<lparr>updatedBots := updatedBots r @ [z]\<rparr>) = Some r'"
        by (auto split: bind_splits)
      from 2(3)[OF b Some y] obtain zs where zs:
        "updatedBots r' = updatedBots (case y of None \<Rightarrow> r | Some z \<Rightarrow> r\<lparr>updatedBots := updatedBots r @ [z]\<rparr>) @ zs"
        "list_all2 (\<lambda>z (i, b, x). updated_of b x = Some (Some z)) zs (changed_bots s rest)" by blast
      show ?thesis
      proof (cases y)
        case None
        then have "changed_bots s ((i, upd) # rest) = changed_bots s rest"
          using b Some updated_of_none[of b x] y(1) by (simp add: changed_bots_def)
        with zs None show ?thesis by simp
      next
        case (Some z)
        then have "changed_bots s ((i, upd) # rest) = (i, b, x) # changed_bots s rest"
          using b \<open>upd = Some x\<close> updated_of_some[of b x z] y(1) by (simp add: changed_bots_def)
        with zs Some y(1) show ?thesis by (intro exI[of _ "z # zs"]) simp
      qed
    qed
  qed
qed (simp add: changed_bots_def)

lemma updated_of_signatures:
  "updated_of b x = Some (Some z) \<Longrightarrow>
   ub_signatures z = (if or_empty (ab_signatures x) = [] then None else Some (map fst (or_empty (ab_signatures x))))"
  by (auto simp: updated_of_def Let_def split: bind_splits if_splits)

text \<open>C18: The summary of an update without edits fits its result. The bots listed as added are the whole bots of the update that
  are new, those listed as removed are the ones that it takes away. Listed as updated are exactly the bots that are there and
  whose part of the update names a tag or a signature (so not those with changes of tag masks alone), one entry for each in
  the order of the update: with the tags, masks and signatures that the bot has in the new state, with the names of all tags
  and masks that the update has for it, each once, and with the names of the signatures if there are any.\<close>

theorem updates_describe_apply:
  assumes "partial_ok u" and "\<forall>(_, x)\<in>set u. case x of None \<Rightarrow> True | Some b \<Rightarrow> no_edits b" and "updates s u = Some r"
  shows "set (addedBots r) = {b. \<exists>i. map_of u i = Some (Some b) \<and> map_of s i = None \<and> isBot (Some b)} \<and>
    set (removedBots r) = {ab_id b |i b. map_of u i = Some None \<and> map_of s i = Some b} \<and>
    list_all2 (\<lambda>z (i, b, x). ab_id (ub_bot z) = ab_id b \<and>
       tag_in (Some (ub_bot z)) = bot_tag (apply_state s u) i \<and> mask_in (Some (ub_bot z)) = bot_mask (apply_state s u) i \<and>
       signature_in (Some (ub_bot z)) = bot_signature (apply_state s u) i \<and> distinct (ub_tags z) \<and>
       set (ub_tags z) = fst ` set (or_empty (ab_tags x)) \<union> (\<Union>(_, ts)\<in>set (or_empty (ab_masks x)). fst ` set ts) \<and>
       ub_signatures z = (if or_empty (ab_signatures x) = [] then None else Some (map fst (or_empty (ab_signatures x)))))
     (updatedBots r) (changed_bots s u)"
proof -
  have d: "distinct (map fst u)" using assms(1) by (simp add: partial_ok_def)
  have in_u: "(i, x) \<in> set u \<longleftrightarrow> map_of u i = Some x" for i x using d by simp
  from updates_from_lists[OF assms(3)[unfolded updates_def]]
  have lists: "addedBots r = concat (map (\<lambda>(i, x). if map_of s i = None \<and> isBot x then [the x] else []) u)"
    "removedBots r = concat (map (\<lambda>(i, x). case map_of s i of None \<Rightarrow> [] | Some b \<Rightarrow> if x = None then [ab_id b] else []) u)"
    by (simp_all add: in_u)
  have 1: "set (addedBots r) = {b. \<exists>i. map_of u i = Some (Some b) \<and> map_of s i = None \<and> isBot (Some b)}"
    unfolding lists(1) in_concat_map set_eq_iff in_u using isBot_the by (auto split: if_splits)
  have 2: "set (removedBots r) = {ab_id b |i b. map_of u i = Some None \<and> map_of s i = Some b}"
    unfolding lists(2) in_concat_map set_eq_iff in_u by (auto split: if_splits option.splits) metis+
  have 3: "ab_id (ub_bot z) = ab_id b \<and>
       tag_in (Some (ub_bot z)) = bot_tag (apply_state s u) i \<and> mask_in (Some (ub_bot z)) = bot_mask (apply_state s u) i \<and>
       signature_in (Some (ub_bot z)) = bot_signature (apply_state s u) i \<and> distinct (ub_tags z) \<and>
       set (ub_tags z) = fst ` set (or_empty (ab_tags x)) \<union> (\<Union>(_, ts)\<in>set (or_empty (ab_masks x)). fst ` set ts) \<and>
       ub_signatures z = (if or_empty (ab_signatures x) = [] then None else Some (map fst (or_empty (ab_signatures x))))"
    if "(i, b, x) \<in> set (changed_bots s u)" "updated_of b x = Some (Some z)" for i b x z
  proof -
    have x: "map_of u i = Some (Some x)" "map_of s i = Some b" using in_changed_bots[OF that(1)] by (simp_all add: in_u)
    have plain: "no_edits x" using assms(2) x(1) by (auto dest!: map_of_SomeD)
    note views = updated_of_views[OF that(2) partial_ok_at[OF assms(1) x(1)] plain]
    show ?thesis
      using x views updated_of_signatures[OF that(2)] by (simp add: state_views map_of_apply_state[OF d] fun_eq_iff)
  qed
  obtain zs where "updatedBots r = zs" "list_all2 (\<lambda>z (i, b, x). updated_of b x = Some (Some z)) zs (changed_bots s u)"
    using updates_from_changed[OF assms(3)[unfolded updates_def]] by auto
  then have all: "list_all2 (\<lambda>z (i, b, x). updated_of b x = Some (Some z)) (updatedBots r) (changed_bots s u)" by simp
  show ?thesis
    by (intro conjI 1 2 list.rel_mono_strong[OF all]) (simp only: split_paired_all prod.case, rule 3)
qed

text \<open>Tags of one bot, a mask of another one, and a third that goes.\<close>

definition three_bots :: bots_state where
  "three_bots = demo_state @ [(''b4'', bot_with (Some ''b4'') (Some []) None)]"

definition plain_partial :: partial_state where
  "plain_partial = [(''b1'', Some (bot_with None (Some [(''size'', Val (NumV 2)), (''color'', Null)]) None)),
     (''b2'', Some (bot_with None None (Some [(''tempLocal'', [(''x'', Null)])]))), (''b4'', None)]"

lemma updates_describe_apply_witness:
  "\<exists>r z. updates three_bots plain_partial = Some r \<and> set (removedBots r) = {Some ''b4''} \<and> set (addedBots r) = {} \<and>
     updatedBots r = [z] \<and> ab_id (ub_bot z) = Some ''b1'' \<and>
     tag_in (Some (ub_bot z)) ''size'' = Some (Val (NumV 2)) \<and> tag_in (Some (ub_bot z)) ''color'' = None"
proof -
  have ok: "partial_ok plain_partial" by code_simp
  have plain: "\<forall>(_, x)\<in>set plain_partial. case x of None \<Rightarrow> True | Some b \<Rightarrow> no_edits b" by code_simp
  have "updates three_bots plain_partial \<noteq> None" by code_simp
  then obtain r where r: "updates three_bots plain_partial = Some r" by blast
  note claim = updates_describe_apply[OF ok plain r]
  have added: "set (addedBots r) = {}"
    unfolding claim[THEN conjunct1] by (auto simp: plain_partial_def three_bots_def demo_state_def split: if_splits)
  have removed: "set (removedBots r) = {Some ''b4''}"
    unfolding claim[THEN conjunct2, THEN conjunct1]
    by (auto simp: plain_partial_def three_bots_def demo_state_def bot_with_def split: if_splits)
  obtain b x where "changed_bots three_bots plain_partial = [(''b1'', b, x)]" "ab_id b = Some ''b1''"
    by (simp add: changed_bots_def plain_partial_def three_bots_def demo_state_def bot_with_def)
  with claim[THEN conjunct2, THEN conjunct2] obtain z where z: "updatedBots r = [z]" "ab_id (ub_bot z) = Some ''b1''"
    "tag_in (Some (ub_bot z)) = bot_tag (apply_state three_bots plain_partial) ''b1''"
    by (auto simp: list_all2_Cons2)
  moreover have "bot_tag (apply_state three_bots plain_partial) ''b1'' ''size'' = Some (Val (NumV 2))"
    "bot_tag (apply_state three_bots plain_partial) ''b1'' ''color'' = None" by code_simp+
  ultimately show ?thesis using r added removed by auto
qed

section \<open>Edits of text\<close>

text \<open>C20: Merging two edits composes them: applied to any value the merged edit does what the first does and then the second,
  its version has the later time of every site, and it is remote if one of them is.\<close>

theorem edits_merge:
  assumes "distinct (map fst (te_version b))" and "\<forall>(_, t)\<in>set (te_version a) \<union> set (te_version b). 0 \<le> t"
  shows "applyTagEdit v (mergeEdits a b) = applyTagEdit (applyTagEdit v a) b \<and>
    time_of (te_version (mergeEdits a b)) site = max (time_of (te_version a) site) (time_of (te_version b) site) \<and>
    te_isRemote (mergeEdits a b) = (te_isRemote a \<or> te_isRemote b)"
proof -
  have "applyEdit v (mergeEdits a b) = applyEdit (applyTagEdit v a) b"
    by (rule applyEdit_twice[symmetric]) (simp add: mergeEdits_def edits_def)
  moreover have "0 \<le> time_of (te_version a) site" "map_of (te_version b) site = Some t \<Longrightarrow> 0 \<le> t" for t
    using assms(2) by (auto simp: time_of_def split: option.splits dest!: map_of_SomeD)
  moreover have "time_of (mergeVersions (te_version a) (te_version b)) site = max (time_of (te_version a) site) (time_of (te_version b) site)"
    using calculation(2) map_of_mergeVersions[OF assms(1), of "te_version a" site]
    by (cases "map_of (te_version b) site") (simp_all add: time_of_def)
  ultimately show ?thesis by (simp add: applyTagEdit_def[of v] applyTagEdit_def[of _ b] mergeEdits_def edits_def)
qed

lemma edits_merge_witness:
  "applyTagEdit (text_value ''abc'') (mergeEdits (edit [(''s'', 1)] [PreserveOp 3, InsertOp ''d'']) (remoteEdit [(''t'', 2)] [DeleteOp 1]))
     = text_value ''bcd''"
  by (subst edits_merge[THEN conjunct1]; code_simp)

text \<open>Replacing a part of a text by another one does just that wherever the part is, and the edit that replaces it back
  restores the text, also when both are merged into one edit.\<close>

theorem edit_is_undone:
  "applyEdit (text_value (a @ b @ c)) (edit v (replace_ops a b t)) = a @ t @ c \<and>
   applyEdit (text_value (a @ b @ c)) (mergeEdits (edit v (replace_ops a b t)) (edit w (replace_ops a t b))) = a @ b @ c"
proof -
  have str: "convertToString (text_value s) = s" for s by (simp add: convertToString_def hasValue_def text_value_def)
  show ?thesis by (simp add: applyEdit_def edit_def edits_def mergeEdits_def str apply_replace)
qed

section \<open>What the comments do not foresee\<close>

text \<open>Taking away a mask of a bot that has none throws in \<open>updates\<close>, while \<open>apply_state\<close> does nothing.\<close>

lemma null_mask_throws:
  "updates demo_state [(''b1'', Some (bot_with None None (Some [(''tempLocal'', [(''x'', Null)])])))] = None \<and>
   apply_state demo_state [(''b1'', Some (bot_with None None (Some [(''tempLocal'', [(''x'', Null)])])))] = demo_state"
  by (intro conjI) code_simp+

text \<open>The summary of an update with an edit holds the edit instead of the new text.\<close>

lemma summary_keeps_edit:
  "map_option (map (\<lambda>z. tag_in (Some (ub_bot z)) ''label'') \<circ> updatedBots)
     (updates demo_state [(''b1'', Some (bot_with None (Some [(''label'', Val (EditV (edit [] [DeleteOp 1])))]) None))]) =
     Some [Some (Val (EditV (edit [] [DeleteOp 1])))]"
  by code_simp

end
