(* ===== verification/SessionKeys.thy ===== *)
theory SessionKeys
  imports RecordKeys "HOL-Library.Word"
begin

text \<open>
  The codes and keys of a login: \<^verbatim>\<open>src/src/aux-records/AuthUtils.ts\<close>. A session key is a text that joins a
  version, the id of a user, the id of a session, its secret and the time at which it expires, each in base 64.
\<close>

section \<open>Codes\<close>

definition RANDOM_CODE_LENGTH :: nat where
  "RANDOM_CODE_LENGTH = 6"

definition padStart :: "string \<Rightarrow> nat \<Rightarrow> char \<Rightarrow> string" where
  "padStart s n c = replicate (n - length s) c @ s"

text \<open>The four random bytes are the machine word.\<close>

definition randomCode :: "32 word \<Rightarrow> string" where
  "randomCode int32 = padStart (take RANDOM_CODE_LENGTH (show_nat (unat int32))) RANDOM_CODE_LENGTH (CHR ''0'')"

section \<open>Numbers\<close>

text \<open>
  \<^verbatim>\<open>parseInt\<close> without a radix: white space, a sign, \<open>0x\<close> for hexadecimal digits, and the longest prefix of
  digits; \<open>None\<close> is \<^verbatim>\<open>NaN\<close>.
\<close>

definition is_space :: "char \<Rightarrow> bool" where
  "is_space c \<longleftrightarrow> of_char c \<in> {9 :: nat, 10, 11, 12, 13, 32, 160}"

fun hex_val :: "char \<Rightarrow> nat option" where
  "hex_val c =
     (let n = of_char c in
      if 48 \<le> n \<and> n \<le> 57 then Some (n - 48)
      else if 97 \<le> n \<and> n \<le> 102 then Some (n - 87)
      else if 65 \<le> n \<and> n \<le> 70 then Some (n - 55) else None)"

definition read_hex :: "string \<Rightarrow> nat" where
  "read_hex s = foldl (\<lambda>n c. 16 * n + the (hex_val c)) 0 s"

definition parse_nat :: "string \<Rightarrow> nat option" where
  "parse_nat s =
     (if startsWith s ''0x'' \<or> startsWith s ''0X'' then
        (let ds = takeWhile (\<lambda>c. hex_val c \<noteq> None) (drop 2 s) in if ds = [] then None else Some (read_hex ds))
      else (let ds = takeWhile is_digit s in if ds = [] then None else Some (read_nat ds)))"

definition parseInt :: "string \<Rightarrow> int option" where
  "parseInt s =
     (case dropWhile is_space s of
        [] \<Rightarrow> None
      | c # r \<Rightarrow>
          if c = CHR ''-'' then map_option (\<lambda>n. - int n) (parse_nat r)
          else if c = CHR ''+'' then map_option int (parse_nat r)
          else map_option int (parse_nat (c # r)))"

section \<open>Session keys\<close>

definition formatV1SessionKey :: "(string \<Rightarrow> string) \<Rightarrow> string \<Rightarrow> string \<Rightarrow> string \<Rightarrow> int \<Rightarrow> string" where
  "formatV1SessionKey enc user session secret expires =
     ''vSK1.'' @ enc user @ ''.'' @ enc session @ ''.'' @ enc secret @ ''.'' @ enc (show_int expires)"

text \<open>The parts before and after the first period, neither of them empty.\<close>

definition split_period :: "string \<Rightarrow> (string \<times> string) option" where
  "split_period s =
     (case indexOf CHR ''.'' s of
        None \<Rightarrow> None
      | Some i \<Rightarrow> if take i s = [] \<or> drop (i + 1) s = [] then None else Some (take i s, drop (i + 1) s))"

definition parseV1SessionKey ::
    "(string \<Rightarrow> string option) \<Rightarrow> string \<Rightarrow> (string \<times> string \<times> string \<times> int option) option" where
  "parseV1SessionKey dec key =
     (if key = [] then None
      else if \<not> startsWith key ''vSK1.'' then None
      else do {
        (user64, r1) \<leftarrow> split_period (drop 5 key);
        (session64, r2) \<leftarrow> split_period r1;
        (secret64, time64) \<leftarrow> split_period r2;
        user \<leftarrow> dec user64;
        session \<leftarrow> dec session64;
        secret \<leftarrow> dec secret64;
        time \<leftarrow> dec time64;
        Some (user, session, secret, parseInt time) })"

definition parseSessionKey ::
    "(string \<Rightarrow> string option) \<Rightarrow> string \<Rightarrow> (string \<times> string \<times> string \<times> int option) option" where
  "parseSessionKey = parseV1SessionKey"

section \<open>Keys of OpenAI\<close>

definition formatV1OpenAiKey :: "(string \<Rightarrow> string) \<Rightarrow> string \<Rightarrow> string" where
  "formatV1OpenAiKey enc apiKey = ''vAI1.'' @ enc apiKey"

definition isOpenAiKey :: "string \<Rightarrow> bool" where
  "isOpenAiKey k \<longleftrightarrow> startsWith k ''vAI1.''"

text \<open>Inner \<open>None\<close>: no key. Outer \<open>None\<close>: the decoding throws.\<close>

definition parseOpenAiKey :: "(string \<Rightarrow> string option) \<Rightarrow> string \<Rightarrow> string option option" where
  "parseOpenAiKey dec k =
     (if k = [] \<or> \<not> startsWith k ''vAI1.'' then Some None else map_option Some (dec (drop 5 k)))"

section \<open>Facts\<close>

lemma randomCode_digits: "length (randomCode w) = RANDOM_CODE_LENGTH \<and> list_all is_digit (randomCode w)"
proof -
  have "list_all is_digit (take n (show_nat k))" for n k
    using show_nat_digits[of k] by (auto simp: list_all_iff dest: in_set_takeD)
  moreover have "is_digit CHR ''0''" by (simp add: is_digit_def)
  ultimately show ?thesis by (auto simp: randomCode_def padStart_def RANDOM_CODE_LENGTH_def list_all_iff)
qed

lemma split_period_append [simp]: "CHR ''.'' \<notin> set a \<Longrightarrow> a \<noteq> [] \<Longrightarrow> b \<noteq> [] \<Longrightarrow> split_period (a @ CHR ''.'' # b) = Some (a, b)"
  by (simp add: split_period_def)

lemma parse_nat_show: "parse_nat (show_nat n) = Some n"
proof -
  have x: "\<not> startsWith (show_nat n) ''0x''" "\<not> startsWith (show_nat n) ''0X''"
  proof -
    have "x \<in> set (show_nat n) \<Longrightarrow> is_digit x" for x using show_nat_digits[of n] by (simp add: list_all_iff)
    moreover have "\<not> is_digit CHR ''x''" "\<not> is_digit CHR ''X''" by (simp_all add: is_digit_def)
    moreover have "startsWith s [a, b] \<Longrightarrow> b \<in> set s" for s a b
      by (cases s; cases "tl s") (auto simp: startsWith_def)
    ultimately show "\<not> startsWith (show_nat n) ''0x''" "\<not> startsWith (show_nat n) ''0X''" by blast+
  qed
  have eq: "takeWhile is_digit (show_nat n) = show_nat n"
    using span_digits(1)[OF show_nat_digits, of "[]" n] by (simp add: no_digit_head_def)
  show ?thesis by (simp add: parse_nat_def x eq Let_def show_nat_nonempty read_show_nat)
qed

lemma parseInt_show: "parseInt (show_int i) = Some i"
proof (cases "i < 0")
  case True
  have "\<not> is_space CHR ''-''" by (simp add: is_space_def)
  with True show ?thesis by (simp add: parseInt_def show_int_def parse_nat_show)
next
  case False
  obtain c cs where c: "show_nat (nat i) = c # cs" "is_digit c" using hd_show_nat by blast
  from c(2) have "\<not> is_space c" "c \<noteq> CHR ''-''" "c \<noteq> CHR ''+''" by (auto simp: is_digit_def is_space_def)
  with False c(1) parse_nat_show[of "nat i"] show ?thesis by (simp add: parseInt_def show_int_def)
qed

lemma show_int_nonempty: "show_int i \<noteq> []"
  by (simp add: show_int_def show_nat_nonempty)

lemma parse_formatV1SessionKey:
  assumes "base64_ok enc dec" and "user \<noteq> []" and "session \<noteq> []" and "secret \<noteq> []"
  shows "parseSessionKey dec (formatV1SessionKey enc user session secret expires) = Some (user, session, secret, Some expires)"
  using base64_okD[OF assms(1)] assms(2-4) show_int_nonempty[of expires]
  by (simp add: parseSessionKey_def parseV1SessionKey_def formatV1SessionKey_def startsWith_def parseInt_show)

lemma parse_formatV1OpenAiKey:
  assumes "base64_ok enc dec"
  shows "isOpenAiKey (formatV1OpenAiKey enc k)" and "parseOpenAiKey dec (formatV1OpenAiKey enc k) = Some (Some k)"
  using base64_okD[OF assms] by (simp_all add: isOpenAiKey_def parseOpenAiKey_def formatV1OpenAiKey_def startsWith_def)

lemma show_nat_length: "0 < k \<Longrightarrow> length (show_nat n) \<le> k \<longleftrightarrow> n < 10 ^ k"
proof (induction n arbitrary: k rule: show_nat.induct)
  case (1 n)
  show ?case
  proof (cases "n < 10")
    case True
    have "(10::nat) ^ 1 \<le> 10 ^ k" using 1(2) by (intro power_increasing) simp_all
    with True 1(2) show ?thesis by (simp add: show_nat.simps[of n])
  next
    case False
    then obtain j where k: "k = Suc j" using 1(2) by (cases k) simp_all
    have "j = 0 \<or> (length (show_nat (n div 10)) \<le> j \<longleftrightarrow> n div 10 < 10 ^ j)" using 1(1)[OF False, of j] by blast
    moreover have "n div 10 < 10 ^ j \<longleftrightarrow> n < 10 ^ k" by (simp add: k div_less_iff_less_mult mult.commute)
    ultimately show ?thesis using False show_nat_nonempty[of "n div 10"] by (auto simp: show_nat.simps[of n] k)
  qed
qed

lemma show_nat_leading: "0 < n \<Longrightarrow> \<exists>c cs. show_nat n = c # cs \<and> c \<noteq> CHR ''0''"
proof (induction n rule: show_nat.induct)
  case (1 n)
  show ?case
  proof (cases "n < 10")
    case True
    with 1(2) have "n \<in> {1, 2, 3, 4, 5, 6, 7, 8, 9}" by auto
    with True show ?thesis by (auto simp: show_nat.simps[of n])
  next
    case False
    then have "0 < n div 10" by simp
    with 1(1)[OF False] False show ?thesis by (auto simp: show_nat.simps[of n])
  qed
qed

text \<open>A code starts with a zero only if the number has fewer digits.\<close>

lemma code_leading_zero: "hd (randomCode w) = CHR ''0'' \<longleftrightarrow> unat w < 100000"
proof (cases "unat w < 100000")
  case True
  then have "length (show_nat (unat w)) \<le> 5" using show_nat_length[of 5 "unat w"] by simp
  then obtain k where "RANDOM_CODE_LENGTH - length (take RANDOM_CODE_LENGTH (show_nat (unat w))) = Suc k"
    by (cases "RANDOM_CODE_LENGTH - length (take RANDOM_CODE_LENGTH (show_nat (unat w)))") (auto simp: RANDOM_CODE_LENGTH_def)
  with True show ?thesis by (simp add: randomCode_def padStart_def)
next
  case False
  then have "\<not> length (show_nat (unat w)) \<le> 5" using show_nat_length[of 5 "unat w"] by simp
  moreover obtain c cs where "show_nat (unat w) = c # cs" "c \<noteq> CHR ''0''" using show_nat_leading[of "unat w"] False by auto
  ultimately show ?thesis using False by (simp add: randomCode_def padStart_def RANDOM_CODE_LENGTH_def)
qed

end
