(* ===== verification/AuthStore.thy ===== *)
theory AuthStore
  imports SessionKeys
begin

text \<open>
  Users, login requests and sessions: the interface \<^verbatim>\<open>src/src/aux-records/AuthStore.ts\<close> and the store in memory,
  \<^verbatim>\<open>MemoryAuthStore.ts\<close>. A call that throws is \<open>None\<close>; a time that is \<^verbatim>\<open>null\<close> or missing is \<open>None\<close>, except for the
  time at which all sessions were revoked, where the code tells the two apart.
\<close>

section \<open>Data\<close>

datatype address_type = EmailAddress | PhoneAddress

record auth_user =
  au_id :: string
  au_name :: "string option"
  au_email :: "string option"
  au_phoneNumber :: "string option"
  au_avatarUrl :: "string option"
  au_avatarPortraitUrl :: "string option"
  au_openAiKey :: "string option"
  au_stripeCustomerId :: "string option"
  au_subscriptionStatus :: "string option"
  au_subscriptionId :: "string option"
  au_allSessionRevokeTimeMs :: "int js"
  au_currentLoginRequestId :: "string option"
  au_banTimeMs :: "int option"
  au_banReason :: "string option"

record login_request =
  lr_userId :: string
  lr_requestId :: string
  lr_secretHash :: string
  lr_requestTimeMs :: int
  lr_expireTimeMs :: int
  lr_completedTimeMs :: "int option"
  lr_attemptCount :: nat
  lr_address :: string
  lr_addressType :: address_type
  lr_ipAddress :: string

record auth_session =
  as_userId :: string
  as_sessionId :: string
  as_secretHash :: string
  as_grantedTimeMs :: int
  as_expireTimeMs :: int
  as_revokeTimeMs :: "int option"
  as_requestId :: "string option"
  as_previousSessionId :: "string option"
  as_nextSessionId :: "string option"
  as_ipAddress :: string

datatype rule_type = AllowRule | DenyRule

record regex_rule =
  rr_type :: rule_type
  rr_pattern :: string

text \<open>The results of \<open>au_saveNewUser\<close> and \<open>au_listSessions\<close> are inside the option of a call that may throw.\<close>

record 's auth_ops =
  st_saveUser :: "'s \<Rightarrow> auth_user \<Rightarrow> 's option"
  st_saveNewUser :: "'s \<Rightarrow> auth_user \<Rightarrow> (bool \<times> 's) option"
  st_findUser :: "'s \<Rightarrow> string \<Rightarrow> auth_user option option"
  st_findUserByAddress :: "'s \<Rightarrow> string \<Rightarrow> address_type \<Rightarrow> auth_user option option"
  st_findUserByStripeCustomerId :: "'s \<Rightarrow> string \<Rightarrow> auth_user option option"
  st_findLoginRequest :: "'s \<Rightarrow> string \<Rightarrow> string \<Rightarrow> login_request option option"
  st_findSession :: "'s \<Rightarrow> string \<Rightarrow> string \<Rightarrow> auth_session option option"
  st_saveLoginRequest :: "'s \<Rightarrow> login_request \<Rightarrow> 's option"
  st_markLoginRequestComplete :: "'s \<Rightarrow> string \<Rightarrow> string \<Rightarrow> int \<Rightarrow> 's option"
  st_incrementLoginRequestAttemptCount :: "'s \<Rightarrow> string \<Rightarrow> string \<Rightarrow> 's option"
  st_saveSession :: "'s \<Rightarrow> auth_session \<Rightarrow> 's option"
  st_listSessions :: "'s \<Rightarrow> string \<Rightarrow> int option \<Rightarrow> auth_session list option option"
  st_setRevokeAllSessionsTimeForUser :: "'s \<Rightarrow> string \<Rightarrow> int \<Rightarrow> 's option"
  st_setCurrentLoginRequest :: "'s \<Rightarrow> string \<Rightarrow> string \<Rightarrow> 's option"
  st_listEmailRules :: "'s \<Rightarrow> regex_rule list option option"
  st_listSmsRules :: "'s \<Rightarrow> regex_rule list option option"

section \<open>The store in memory\<close>

record memory_auth =
  ma_users :: "auth_user list"
  ma_loginRequests :: "login_request list"
  ma_sessions :: "auth_session list"
  ma_emailRules :: "regex_rule list"
  ma_smsRules :: "regex_rule list"

definition new_memory_auth :: memory_auth where
  "new_memory_auth = \<lparr>ma_users = [], ma_loginRequests = [], ma_sessions = [], ma_emailRules = [], ma_smsRules = []\<rparr>"

text \<open>\<^verbatim>\<open>findIndex\<close> and the assignment at the index, or \<^verbatim>\<open>push\<close>.\<close>

fun replace_or_push :: "('a \<Rightarrow> bool) \<Rightarrow> 'a \<Rightarrow> 'a list \<Rightarrow> 'a list" where
  "replace_or_push P y [] = [y]"
| "replace_or_push P y (x # xs) = (if P x then y # xs else x # replace_or_push P y xs)"

text \<open>The first element with the property is changed.\<close>

fun change_first :: "('a \<Rightarrow> bool) \<Rightarrow> ('a \<Rightarrow> 'a) \<Rightarrow> 'a list \<Rightarrow> 'a list" where
  "change_first P f [] = []"
| "change_first P f (x # xs) = (if P x then f x # xs else x # change_first P f xs)"

definition ma_saveUser :: "memory_auth \<Rightarrow> auth_user \<Rightarrow> memory_auth" where
  "ma_saveUser s u = s\<lparr>ma_users := replace_or_push (\<lambda>x. au_id x = au_id u) u (ma_users s)\<rparr>"

definition ma_saveNewUser :: "memory_auth \<Rightarrow> auth_user \<Rightarrow> bool \<times> memory_auth" where
  "ma_saveNewUser s u =
     (if (\<exists>x\<in>set (ma_users s). (given (au_email u) \<and> au_email x = au_email u) \<or>
            (given (au_phoneNumber u) \<and> au_phoneNumber x = au_phoneNumber u))
      then (False, s) else (True, s\<lparr>ma_users := ma_users s @ [u]\<rparr>))"

definition ma_findUser :: "memory_auth \<Rightarrow> string \<Rightarrow> auth_user option" where
  "ma_findUser s i = find (\<lambda>u. au_id u = i) (ma_users s)"

definition ma_setRevokeAllSessionsTimeForUser :: "memory_auth \<Rightarrow> string \<Rightarrow> int \<Rightarrow> memory_auth" where
  "ma_setRevokeAllSessionsTimeForUser s i t =
     (case ma_findUser s i of None \<Rightarrow> s | Some u \<Rightarrow> ma_saveUser s (u\<lparr>au_allSessionRevokeTimeMs := Val t\<rparr>))"

definition ma_findUserByAddress :: "memory_auth \<Rightarrow> string \<Rightarrow> address_type \<Rightarrow> auth_user option" where
  "ma_findUserByAddress s addr ty =
     find (\<lambda>u. case ty of EmailAddress \<Rightarrow> au_email u = Some addr | PhoneAddress \<Rightarrow> au_phoneNumber u = Some addr) (ma_users s)"

definition ma_findUserByStripeCustomerId :: "memory_auth \<Rightarrow> string \<Rightarrow> auth_user option" where
  "ma_findUserByStripeCustomerId s c = find (\<lambda>u. au_stripeCustomerId u = Some c) (ma_users s)"

definition ma_findLoginRequest :: "memory_auth \<Rightarrow> string \<Rightarrow> string \<Rightarrow> login_request option" where
  "ma_findLoginRequest s u r = find (\<lambda>x. lr_userId x = u \<and> lr_requestId x = r) (ma_loginRequests s)"

definition ma_findSession :: "memory_auth \<Rightarrow> string \<Rightarrow> string \<Rightarrow> auth_session option" where
  "ma_findSession s u i = find (\<lambda>x. as_userId x = u \<and> as_sessionId x = i) (ma_sessions s)"

definition ma_saveLoginRequest :: "memory_auth \<Rightarrow> login_request \<Rightarrow> memory_auth" where
  "ma_saveLoginRequest s q =
     s\<lparr>ma_loginRequests :=
         replace_or_push (\<lambda>x. lr_userId x = lr_userId q \<and> lr_requestId x = lr_requestId q) q (ma_loginRequests s)\<rparr>"

definition ma_setCurrentLoginRequest :: "memory_auth \<Rightarrow> string \<Rightarrow> string \<Rightarrow> memory_auth" where
  "ma_setCurrentLoginRequest s u r =
     s\<lparr>ma_users := change_first (\<lambda>x. au_id x = u) (\<lambda>x. x\<lparr>au_currentLoginRequestId := Some r\<rparr>) (ma_users s)\<rparr>"

text \<open>A request that is missing throws.\<close>

definition ma_markLoginRequestComplete :: "memory_auth \<Rightarrow> string \<Rightarrow> string \<Rightarrow> int \<Rightarrow> memory_auth option" where
  "ma_markLoginRequestComplete s u r t =
     (if ma_findLoginRequest s u r = None then None
      else Some (s\<lparr>ma_loginRequests :=
        change_first (\<lambda>x. lr_userId x = u \<and> lr_requestId x = r) (\<lambda>x. x\<lparr>lr_completedTimeMs := Some t\<rparr>) (ma_loginRequests s)\<rparr>))"

definition ma_incrementLoginRequestAttemptCount :: "memory_auth \<Rightarrow> string \<Rightarrow> string \<Rightarrow> memory_auth" where
  "ma_incrementLoginRequestAttemptCount s u r =
     s\<lparr>ma_loginRequests :=
         change_first (\<lambda>x. lr_userId x = u \<and> lr_requestId x = r) (\<lambda>x. x\<lparr>lr_attemptCount := lr_attemptCount x + 1\<rparr>) (ma_loginRequests s)\<rparr>"

definition ma_saveSession :: "memory_auth \<Rightarrow> auth_session \<Rightarrow> memory_auth" where
  "ma_saveSession s a =
     s\<lparr>ma_sessions :=
         replace_or_push (\<lambda>x. as_userId x = as_userId a \<and> as_sessionId x = as_sessionId a) a (ma_sessions s)\<rparr>"

text \<open>At most ten sessions, those that expire last first, from the given time of expiration on.\<close>

definition ma_listSessions :: "memory_auth \<Rightarrow> string \<Rightarrow> int option \<Rightarrow> auth_session list" where
  "ma_listSessions s u t =
     (let ordered = sort_key (\<lambda>a. - as_expireTimeMs a) (filter (\<lambda>a. as_userId a = u) (ma_sessions s));
          later = (case t of None \<Rightarrow> ordered
                   | Some e \<Rightarrow> if e = 0 then ordered else filter (\<lambda>a. as_expireTimeMs a < e) ordered)
      in take 10 later)"

definition memory_auth_ops :: "memory_auth auth_ops" where
  "memory_auth_ops =
     \<lparr>st_saveUser = (\<lambda>s u. Some (ma_saveUser s u)),
      st_saveNewUser = (\<lambda>s u. Some (ma_saveNewUser s u)),
      st_findUser = (\<lambda>s i. Some (ma_findUser s i)),
      st_findUserByAddress = (\<lambda>s a ty. Some (ma_findUserByAddress s a ty)),
      st_findUserByStripeCustomerId = (\<lambda>s c. Some (ma_findUserByStripeCustomerId s c)),
      st_findLoginRequest = (\<lambda>s u r. Some (ma_findLoginRequest s u r)),
      st_findSession = (\<lambda>s u i. Some (ma_findSession s u i)),
      st_saveLoginRequest = (\<lambda>s q. Some (ma_saveLoginRequest s q)),
      st_markLoginRequestComplete = ma_markLoginRequestComplete,
      st_incrementLoginRequestAttemptCount = (\<lambda>s u r. Some (ma_incrementLoginRequestAttemptCount s u r)),
      st_saveSession = (\<lambda>s a. Some (ma_saveSession s a)),
      st_listSessions = (\<lambda>s u t. Some (Some (ma_listSessions s u t))),
      st_setRevokeAllSessionsTimeForUser = (\<lambda>s u t. Some (ma_setRevokeAllSessionsTimeForUser s u t)),
      st_setCurrentLoginRequest = (\<lambda>s u r. Some (ma_setCurrentLoginRequest s u r)),
      st_listEmailRules = (\<lambda>s. Some (Some (ma_emailRules s))),
      st_listSmsRules = (\<lambda>s. Some (Some (ma_smsRules s)))\<rparr>"

end
