(* ===== verification/AuthController.thy ===== *)
theory AuthController
  imports AuthStore
begin

text \<open>
  Logging in and sessions: \<^verbatim>\<open>src/src/aux-records/AuthController.ts\<close>. A login request sends a code to an address;
  whoever completes the request with the code gets the key of a new session, which later requests show.

  An argument that need not be a string is an optional string. The clock is read once for a request. The
  hashes of \<^verbatim>\<open>@casual-simulation/crypto\<close>, base 64, the random bytes and the compilation of regular expressions
  (\<open>None\<close>: a syntax error) are parameters. A failure is its error code, with the reason of a ban.
\<close>

datatype auth_error =
    UnacceptableAddress
  | UnacceptableAddressType
  | UnacceptableIpAddress
  | AddressTypeNotSupported
  | UserIsBanned "string option"
  | UnacceptableUserId
  | UnacceptableRequestId
  | UnacceptableCode
  | UnacceptableSessionId
  | UnacceptableSessionKey
  | UnacceptableExpireTime
  | UnacceptableUpdate
  | InvalidRequest
  | InvalidCode
  | InvalidKey
  | SessionExpired
  | SessionNotFound
  | SessionAlreadyRevoked
  | AuthServerError

section \<open>The environment\<close>

record 'm messenger_ops =
  supportsAddressType :: "'m \<Rightarrow> address_type \<Rightarrow> bool option"
  sendCode :: "'m \<Rightarrow> string \<Rightarrow> address_type \<Rightarrow> string \<Rightarrow> ((auth_error + unit) \<times> 'm) option"

type_synonym memory_messenger = "(string \<times> address_type \<times> string) list"

definition memory_messenger_ops :: "memory_messenger messenger_ops" where
  "memory_messenger_ops =
     \<lparr>supportsAddressType = (\<lambda>_ _. Some True), sendCode = (\<lambda>m a ty code. Some (Inr (), m @ [(a, ty, code)]))\<rparr>"

text \<open>\<open>verify code salt hash\<close> is \<^verbatim>\<open>verifyPasswordAgainstHashes\<close> for one hash; it may throw.\<close>

record auth_crypto =
  enc64 :: "string \<Rightarrow> string"
  dec64 :: "string \<Rightarrow> string option"
  hashPasswordWithSalt :: "string \<Rightarrow> string \<Rightarrow> string"
  hashHighEntropyPasswordWithSalt :: "string \<Rightarrow> string \<Rightarrow> string"
  verify :: "string \<Rightarrow> string \<Rightarrow> string \<Rightarrow> bool option"

definition LOGIN_REQUEST_LIFETIME_MS :: int where "LOGIN_REQUEST_LIFETIME_MS = 1000 * 60 * 5"
definition SESSION_LIFETIME_MS :: int where "SESSION_LIFETIME_MS = 1000 * 60 * 60 * 24 * 14"
definition MAX_LOGIN_REQUEST_ATTEMPTS :: nat where "MAX_LOGIN_REQUEST_ATTEMPTS = 5"
definition MAX_EMAIL_ADDRESS_LENGTH :: nat where "MAX_EMAIL_ADDRESS_LENGTH = 200"
definition MAX_SMS_ADDRESS_LENGTH :: nat where "MAX_SMS_ADDRESS_LENGTH = 30"

text \<open>\<^verbatim>\<open>t > 0\<close> for an optional time.\<close>

definition positive :: "int option \<Rightarrow> bool" where
  "positive t = (case t of None \<Rightarrow> False | Some n \<Rightarrow> n > 0)"

text \<open>The truth value of an optional time.\<close>

definition truthy :: "int option \<Rightarrow> bool" where
  "truthy t = (case t of None \<Rightarrow> False | Some n \<Rightarrow> n \<noteq> 0)"

section \<open>Rules for addresses\<close>

type_synonym regex = "string \<Rightarrow> (string \<Rightarrow> bool) option"

fun compile_rules :: "regex \<Rightarrow> regex_rule list \<Rightarrow> (rule_type \<times> (string \<Rightarrow> bool)) list option" where
  "compile_rules re [] = Some []"
| "compile_rules re (r # rs) = do { p \<leftarrow> re (rr_pattern r); ps \<leftarrow> compile_rules re rs; Some ((rr_type r, p) # ps) }"

text \<open>The first rule that matches decides.\<close>

fun first_match :: "string \<Rightarrow> (rule_type \<times> (string \<Rightarrow> bool)) list \<Rightarrow> bool" where
  "first_match v [] = False"
| "first_match v ((ty, p) # ps) = (if p v then ty = AllowRule else first_match v ps)"

definition isStringValid :: "regex \<Rightarrow> string \<Rightarrow> regex_rule list \<Rightarrow> bool option" where
  "isStringValid re v rules = (if rules = [] then Some True else map_option (first_match v) (compile_rules re rules))"

definition validateAddress :: "regex \<Rightarrow> 's auth_ops \<Rightarrow> 's \<Rightarrow> string \<Rightarrow> address_type \<Rightarrow> bool" where
  "validateAddress re ops s addr ty =
     (case (case ty of EmailAddress \<Rightarrow> st_listEmailRules ops s | PhoneAddress \<Rightarrow> st_listSmsRules ops s) of
        None \<Rightarrow> False
      | Some None \<Rightarrow> True
      | Some (Some rules) \<Rightarrow> (case isStringValid re addr rules of None \<Rightarrow> False | Some b \<Rightarrow> b))"

section \<open>Requesting a login\<close>

record login_args =
  la_address :: "string option"
  la_addressType :: "address_type option"
  la_ipAddress :: "string option"

record login_info =
  li_userId :: string
  li_requestId :: string
  li_address :: string
  li_addressType :: address_type
  li_expireTimeMs :: int

text \<open>The checks on the arguments.\<close>

definition bad_login_args :: "login_args \<Rightarrow> auth_error option" where
  "bad_login_args q =
     (if \<not> given (la_address q) then Some UnacceptableAddress
      else if la_addressType q = None then Some UnacceptableAddressType
      else if \<not> given (la_ipAddress q) then Some UnacceptableIpAddress
      else (case the (la_addressType q) of
          EmailAddress \<Rightarrow> if length (the (la_address q)) > MAX_EMAIL_ADDRESS_LENGTH then Some UnacceptableAddress else None
        | PhoneAddress \<Rightarrow> if length (the (la_address q)) > MAX_SMS_ADDRESS_LENGTH then Some UnacceptableAddress else None))"

definition new_auth_user :: "string \<Rightarrow> string \<Rightarrow> address_type \<Rightarrow> auth_user" where
  "new_auth_user i addr ty =
     \<lparr>au_id = i, au_name = None,
      au_email = (case ty of EmailAddress \<Rightarrow> Some addr | PhoneAddress \<Rightarrow> None),
      au_phoneNumber = (case ty of EmailAddress \<Rightarrow> None | PhoneAddress \<Rightarrow> Some addr),
      au_avatarUrl = None, au_avatarPortraitUrl = None, au_openAiKey = None, au_stripeCustomerId = None,
      au_subscriptionStatus = None, au_subscriptionId = None, au_allSessionRevokeTimeMs = Null,
      au_currentLoginRequestId = None, au_banTimeMs = None, au_banReason = None\<rparr>"

text \<open>
  What happens once the code was sent: a new user is saved, and if another one has the address by now,
  that user is taken; then the request is stored as the current one.
\<close>

definition finish_login :: "'s auth_ops \<Rightarrow> 's \<Rightarrow> login_request \<Rightarrow> (auth_error + login_info) \<times> 's" where
  "finish_login ops s q =
     (case st_saveLoginRequest ops s q of
        None \<Rightarrow> (Inl AuthServerError, s)
      | Some s1 \<Rightarrow>
          (case st_setCurrentLoginRequest ops s1 (lr_userId q) (lr_requestId q) of
             None \<Rightarrow> (Inl AuthServerError, s1)
           | Some s2 \<Rightarrow>
               (Inr \<lparr>li_userId = lr_userId q, li_requestId = lr_requestId q, li_address = lr_address q,
                     li_addressType = lr_addressType q, li_expireTimeMs = lr_expireTimeMs q\<rparr>, s2)))"

definition save_login ::
    "'s auth_ops \<Rightarrow> 's \<Rightarrow> bool \<Rightarrow> auth_user \<Rightarrow> login_request \<Rightarrow> (auth_error + login_info) \<times> 's" where
  "save_login ops s newUser user q =
     (if newUser then
        (case st_saveNewUser ops s user of
           None \<Rightarrow> (Inl AuthServerError, s)
         | Some (True, s1) \<Rightarrow> finish_login ops s1 q
         | Some (False, s1) \<Rightarrow>
             (case st_findUserByAddress ops s1 (lr_address q) (lr_addressType q) of
                None \<Rightarrow> (Inl AuthServerError, s1)
              | Some None \<Rightarrow> (Inl AuthServerError, s1)
              | Some (Some u) \<Rightarrow> finish_login ops s1 (q\<lparr>lr_userId := au_id u\<rparr>)))
      else finish_login ops s q)"

definition send_login ::
    "auth_crypto \<Rightarrow> 'm messenger_ops \<Rightarrow> 's auth_ops \<Rightarrow> int \<Rightarrow> string \<Rightarrow> string \<Rightarrow> 'm \<Rightarrow> 's \<Rightarrow> login_args
      \<Rightarrow> bool \<Rightarrow> auth_user \<Rightarrow> (auth_error + login_info) \<times> 'm \<times> 's" where
  "send_login C mops ops now requestId code m s args newUser user =
     (if positive (au_banTimeMs user) then (Inl (UserIsBanned (au_banReason user)), m, s)
      else
        (let q = \<lparr>lr_userId = au_id user, lr_requestId = requestId, lr_secretHash = hashPasswordWithSalt C code requestId,
                  lr_requestTimeMs = now, lr_expireTimeMs = now + LOGIN_REQUEST_LIFETIME_MS, lr_completedTimeMs = None,
                  lr_attemptCount = 0, lr_address = the (la_address args), lr_addressType = the (la_addressType args),
                  lr_ipAddress = the (la_ipAddress args)\<rparr>
         in case sendCode mops m (lr_address q) (lr_addressType q) code of
              None \<Rightarrow> (Inl AuthServerError, m, s)
            | Some (Inl e, m1) \<Rightarrow> (Inl e, m1, s)
            | Some (Inr _, m1) \<Rightarrow> (let (r, s1) = save_login ops s newUser user q in (r, m1, s1))))"

text \<open>\<open>uid\<close>, \<open>requestId\<close> and \<open>code\<close> are the random id of a new user, the id of the request and its code.\<close>

definition requestLogin ::
    "auth_crypto \<Rightarrow> regex \<Rightarrow> 'm messenger_ops \<Rightarrow> 's auth_ops \<Rightarrow> int \<Rightarrow> string \<Rightarrow> string \<Rightarrow> string
      \<Rightarrow> 'm \<Rightarrow> 's \<Rightarrow> login_args \<Rightarrow> (auth_error + login_info) \<times> 'm \<times> 's" where
  "requestLogin C re mops ops now uid requestId code m s args =
     (case bad_login_args args of
        Some e \<Rightarrow> (Inl e, m, s)
      | None \<Rightarrow>
          (let addr = the (la_address args); ty = the (la_addressType args) in
           case supportsAddressType mops m ty of
             None \<Rightarrow> (Inl AuthServerError, m, s)
           | Some False \<Rightarrow> (Inl AddressTypeNotSupported, m, s)
           | Some True \<Rightarrow>
               (case st_findUserByAddress ops s addr ty of
                  None \<Rightarrow> (Inl AuthServerError, m, s)
                | Some (Some user) \<Rightarrow> send_login C mops ops now requestId code m s args False user
                | Some None \<Rightarrow>
                    if \<not> validateAddress re ops s addr ty then (Inl UnacceptableAddress, m, s)
                    else send_login C mops ops now requestId code m s args True (new_auth_user uid addr ty))))"

section \<open>Completing a login\<close>

record complete_args =
  ca_userId :: "string option"
  ca_requestId :: "string option"
  ca_code :: "string option"
  ca_ipAddress :: "string option"

record session_info =
  si_userId :: string
  si_sessionKey :: string
  si_expireTimeMs :: int

definition bad_complete_args :: "complete_args \<Rightarrow> auth_error option" where
  "bad_complete_args q =
     (if \<not> given (ca_userId q) then Some UnacceptableUserId
      else if \<not> given (ca_requestId q) then Some UnacceptableRequestId
      else if \<not> given (ca_code q) then Some UnacceptableCode
      else if \<not> given (ca_ipAddress q) then Some UnacceptableIpAddress else None)"

definition open_request :: "int \<Rightarrow> string option \<Rightarrow> login_request \<Rightarrow> bool" where
  "open_request now ip q \<longleftrightarrow> now < lr_expireTimeMs q \<and> \<not> positive (lr_completedTimeMs q) \<and>
     lr_attemptCount q < MAX_LOGIN_REQUEST_ATTEMPTS \<and> ip = Some (lr_ipAddress q)"

definition grant_session ::
    "auth_crypto \<Rightarrow> 's auth_ops \<Rightarrow> int \<Rightarrow> string \<Rightarrow> string \<Rightarrow> 's \<Rightarrow> login_request \<Rightarrow> string \<Rightarrow> (auth_error + session_info) \<times> 's" where
  "grant_session C ops now sessionId sessionSecret s q ip =
     (let a = \<lparr>as_userId = lr_userId q, as_sessionId = sessionId,
               as_secretHash = hashHighEntropyPasswordWithSalt C sessionSecret sessionId,
               as_grantedTimeMs = now, as_expireTimeMs = now + SESSION_LIFETIME_MS, as_revokeTimeMs = None,
               as_requestId = Some (lr_requestId q), as_previousSessionId = None, as_nextSessionId = None, as_ipAddress = ip\<rparr>
      in case st_markLoginRequestComplete ops s (lr_userId q) (lr_requestId q) now of
           None \<Rightarrow> (Inl AuthServerError, s)
         | Some s1 \<Rightarrow>
             (case st_saveSession ops s1 a of
                None \<Rightarrow> (Inl AuthServerError, s1)
              | Some s2 \<Rightarrow>
                  (Inr \<lparr>si_userId = as_userId a,
                        si_sessionKey = formatV1SessionKey (enc64 C) (lr_userId q) sessionId sessionSecret (as_expireTimeMs a),
                        si_expireTimeMs = as_expireTimeMs a\<rparr>, s2)))"

text \<open>An exception of the verification counts as a wrong code.\<close>

definition completeLogin ::
    "auth_crypto \<Rightarrow> 's auth_ops \<Rightarrow> int \<Rightarrow> string \<Rightarrow> string \<Rightarrow> 's \<Rightarrow> complete_args \<Rightarrow> (auth_error + session_info) \<times> 's" where
  "completeLogin C ops now sessionId sessionSecret s args =
     (case bad_complete_args args of
        Some e \<Rightarrow> (Inl e, s)
      | None \<Rightarrow>
          (case st_findLoginRequest ops s (the (ca_userId args)) (the (ca_requestId args)) of
             None \<Rightarrow> (Inl AuthServerError, s)
           | Some None \<Rightarrow> (Inl InvalidRequest, s)
           | Some (Some q) \<Rightarrow>
               if \<not> open_request now (ca_ipAddress args) q then (Inl InvalidRequest, s)
               else if verify C (the (ca_code args)) (lr_requestId q) (lr_secretHash q) \<noteq> Some True then
                 (case st_incrementLoginRequestAttemptCount ops s (lr_userId q) (lr_requestId q) of
                    None \<Rightarrow> (Inl AuthServerError, s)
                  | Some s1 \<Rightarrow> (Inl InvalidCode, s1))
               else
                 (case st_findUser ops s (lr_userId q) of
                    None \<Rightarrow> (Inl AuthServerError, s)
                  | Some None \<Rightarrow> (Inl InvalidRequest, s)
                  | Some (Some user) \<Rightarrow>
                      if au_currentLoginRequestId user \<noteq> Some (lr_requestId q) then (Inl InvalidRequest, s)
                      else grant_session C ops now sessionId sessionSecret s q (the (ca_ipAddress args)))))"

section \<open>Session keys\<close>

record key_info =
  ki_userId :: string
  ki_sessionId :: string
  ki_allSessionsRevokedTimeMs :: "int js"

definition check_user :: "int \<Rightarrow> auth_session \<Rightarrow> auth_user \<Rightarrow> auth_error + key_info" where
  "check_user now a u =
     (if (case au_allSessionRevokeTimeMs u of Val t \<Rightarrow> t \<ge> as_grantedTimeMs a | _ \<Rightarrow> False) then Inl InvalidKey
      else if positive (au_banTimeMs u) then Inl (UserIsBanned (au_banReason u))
      else Inr \<lparr>ki_userId = as_userId a, ki_sessionId = as_sessionId a, ki_allSessionsRevokedTimeMs = au_allSessionRevokeTimeMs u\<rparr>)"

definition validateSessionKey ::
    "auth_crypto \<Rightarrow> 's auth_ops \<Rightarrow> int \<Rightarrow> 's \<Rightarrow> string option \<Rightarrow> auth_error + key_info" where
  "validateSessionKey C ops now s key =
     (if \<not> given key then Inl UnacceptableSessionKey
      else (case parseSessionKey (dec64 C) (the key) of
         None \<Rightarrow> Inl UnacceptableSessionKey
       | Some (user, sessionId, sessionSecret, _) \<Rightarrow>
           (case st_findSession ops s user sessionId of
              None \<Rightarrow> Inl AuthServerError
            | Some None \<Rightarrow> Inl InvalidKey
            | Some (Some a) \<Rightarrow>
                (case verify C sessionSecret (as_sessionId a) (as_secretHash a) of
                   None \<Rightarrow> Inl AuthServerError
                 | Some False \<Rightarrow> Inl InvalidKey
                 | Some True \<Rightarrow>
                     if truthy (as_revokeTimeMs a) \<and> now \<ge> the (as_revokeTimeMs a) then Inl InvalidKey
                     else if now \<ge> as_expireTimeMs a then Inl SessionExpired
                     else (case st_findUser ops s user of
                         None \<Rightarrow> Inl AuthServerError
                       | Some None \<Rightarrow> Inl InvalidKey
                       | Some (Some u) \<Rightarrow> check_user now a u)))))"

text \<open>The key must be one of the user that the request names.\<close>

definition key_for ::
    "auth_crypto \<Rightarrow> 's auth_ops \<Rightarrow> int \<Rightarrow> 's \<Rightarrow> string option \<Rightarrow> string option \<Rightarrow> auth_error + key_info" where
  "key_for C ops now s user key =
     (case validateSessionKey C ops now s key of
        Inl e \<Rightarrow> Inl e
      | Inr k \<Rightarrow> if Some (ki_userId k) \<noteq> user then Inl InvalidKey else Inr k)"

definition revokeSession ::
    "auth_crypto \<Rightarrow> 's auth_ops \<Rightarrow> int \<Rightarrow> 's \<Rightarrow> string option \<Rightarrow> string option \<Rightarrow> string option
      \<Rightarrow> (auth_error + unit) \<times> 's" where
  "revokeSession C ops now s user sessionId key =
     (if \<not> given user then (Inl UnacceptableUserId, s)
      else if \<not> given sessionId then (Inl UnacceptableSessionId, s)
      else if \<not> given key then (Inl UnacceptableSessionKey, s)
      else (case key_for C ops now s user key of
         Inl e \<Rightarrow> (Inl e, s)
       | Inr _ \<Rightarrow>
           (case st_findSession ops s (the user) (the sessionId) of
              None \<Rightarrow> (Inl AuthServerError, s)
            | Some None \<Rightarrow> (Inl SessionNotFound, s)
            | Some (Some a) \<Rightarrow>
                if truthy (as_revokeTimeMs a) then (Inl SessionAlreadyRevoked, s)
                else (case st_saveSession ops s (a\<lparr>as_revokeTimeMs := Some now\<rparr>) of
                    None \<Rightarrow> (Inl AuthServerError, s)
                  | Some s1 \<Rightarrow> (Inr (), s1)))))"

definition revokeAllSessions ::
    "auth_crypto \<Rightarrow> 's auth_ops \<Rightarrow> int \<Rightarrow> 's \<Rightarrow> string option \<Rightarrow> string option \<Rightarrow> (auth_error + unit) \<times> 's" where
  "revokeAllSessions C ops now s user key =
     (if \<not> given user then (Inl UnacceptableUserId, s)
      else if \<not> given key then (Inl UnacceptableSessionKey, s)
      else (case key_for C ops now s user key of
         Inl e \<Rightarrow> (Inl e, s)
       | Inr _ \<Rightarrow>
           (case st_setRevokeAllSessionsTimeForUser ops s (the user) now of
              None \<Rightarrow> (Inl AuthServerError, s)
            | Some s1 \<Rightarrow> (Inr (), s1))))"

text \<open>The old session is saved as revoked and as followed by the new one, then the new one is saved.\<close>

definition replaceSession ::
    "auth_crypto \<Rightarrow> 's auth_ops \<Rightarrow> int \<Rightarrow> string \<Rightarrow> string \<Rightarrow> 's \<Rightarrow> string option \<Rightarrow> string option
      \<Rightarrow> (auth_error + session_info) \<times> 's" where
  "replaceSession C ops now newSessionId newSessionSecret s key ip =
     (if \<not> given key then (Inl UnacceptableSessionKey, s)
      else if \<not> given ip then (Inl UnacceptableIpAddress, s)
      else (case validateSessionKey C ops now s key of
         Inl e \<Rightarrow> (Inl e, s)
       | Inr k \<Rightarrow>
           (let user = ki_userId k;
                b = \<lparr>as_userId = user, as_sessionId = newSessionId,
                     as_secretHash = hashPasswordWithSalt C newSessionSecret newSessionId,
                     as_grantedTimeMs = now, as_expireTimeMs = now + SESSION_LIFETIME_MS, as_revokeTimeMs = None,
                     as_requestId = None, as_previousSessionId = Some (ki_sessionId k), as_nextSessionId = None,
                     as_ipAddress = the ip\<rparr>
            in case st_findSession ops s user (ki_sessionId k) of
                 None \<Rightarrow> (Inl AuthServerError, s)
               | Some None \<Rightarrow> (Inl InvalidKey, s)
               | Some (Some a) \<Rightarrow>
                   (case st_saveSession ops s (a\<lparr>as_nextSessionId := Some newSessionId, as_revokeTimeMs := Some now\<rparr>) of
                      None \<Rightarrow> (Inl AuthServerError, s)
                    | Some s1 \<Rightarrow>
                        (case st_saveSession ops s1 b of
                           None \<Rightarrow> (Inl AuthServerError, s1)
                         | Some s2 \<Rightarrow>
                             (Inr \<lparr>si_userId = user,
                                   si_sessionKey = formatV1SessionKey (enc64 C) user newSessionId newSessionSecret (as_expireTimeMs b),
                                   si_expireTimeMs = as_expireTimeMs b\<rparr>, s2))))))"

section \<open>Listing sessions\<close>

record listed_session =
  ls_userId :: string
  ls_sessionId :: string
  ls_grantedTimeMs :: int
  ls_expireTimeMs :: int
  ls_revokeTimeMs :: "int option"
  ls_currentSession :: bool
  ls_ipAddress :: string
  ls_nextSessionId :: "string option"

text \<open>In a comparison \<^verbatim>\<open>null\<close> counts as 0 and \<^verbatim>\<open>undefined\<close> is false.\<close>

definition listed_revoke_time :: "int js \<Rightarrow> auth_session \<Rightarrow> int option" where
  "listed_revoke_time all a =
     (let before = (\<lambda>t. t \<ge> as_grantedTimeMs a \<and>
            (\<not> truthy (as_revokeTimeMs a) \<or> the (as_revokeTimeMs a) > t))
      in case all of
           Undefined \<Rightarrow> as_revokeTimeMs a
         | Null \<Rightarrow> if before 0 then None else as_revokeTimeMs a
         | Val t \<Rightarrow> if before t then Some t else as_revokeTimeMs a)"

definition list_session :: "key_info \<Rightarrow> auth_session \<Rightarrow> listed_session" where
  "list_session k a =
     \<lparr>ls_userId = as_userId a, ls_sessionId = as_sessionId a, ls_grantedTimeMs = as_grantedTimeMs a,
      ls_expireTimeMs = as_expireTimeMs a, ls_revokeTimeMs = listed_revoke_time (ki_allSessionsRevokedTimeMs k) a,
      ls_currentSession = (as_sessionId a = ki_sessionId k), ls_ipAddress = as_ipAddress a, ls_nextSessionId = as_nextSessionId a\<rparr>"

text \<open>The time of expiration is \<open>Inl\<close> for a value that is neither a number nor \<^verbatim>\<open>null\<close>.\<close>

definition listSessions ::
    "auth_crypto \<Rightarrow> 's auth_ops \<Rightarrow> int \<Rightarrow> 's \<Rightarrow> string option \<Rightarrow> (unit + int option) \<Rightarrow> string option
      \<Rightarrow> auth_error + listed_session list" where
  "listSessions C ops now s user expires key =
     (if \<not> given user then Inl UnacceptableUserId
      else (case expires of
         Inl _ \<Rightarrow> Inl UnacceptableExpireTime
       | Inr t \<Rightarrow>
           if \<not> given key then Inl UnacceptableSessionKey
           else (case key_for C ops now s user key of
              Inl e \<Rightarrow> Inl e
            | Inr k \<Rightarrow>
                (case st_listSessions ops s (the user) t of
                   None \<Rightarrow> Inl AuthServerError
                 | Some None \<Rightarrow> Inl AuthServerError
                 | Some (Some as) \<Rightarrow> Inr (map (list_session k) as)))))"

section \<open>The user's data\<close>

record subscription =
  sub_id :: string
  sub_defaultSubscription :: bool
  sub_tier :: "string option"

record user_info =
  ui_userId :: string
  ui_name :: "string option"
  ui_email :: "string option"
  ui_phoneNumber :: "string option"
  ui_avatarPortraitUrl :: "string option"
  ui_avatarUrl :: "string option"
  ui_hasActiveSubscription :: bool
  ui_subscriptionTier :: "string option"
  ui_openAiKey :: "string option"

definition isActiveSubscription :: "string option \<Rightarrow> bool" where
  "isActiveSubscription status \<longleftrightarrow> status = Some ''active'' \<or> status = Some ''trialing''"

text \<open>The subscription that the user has, else the default one, else the first.\<close>

definition subscription_for :: "subscription list option \<Rightarrow> auth_user \<Rightarrow> subscription option" where
  "subscription_for config u =
     (let subs = (case config of None \<Rightarrow> [] | Some l \<Rightarrow> l);
          own = (if given (au_subscriptionId u) then find (\<lambda>x. Some (sub_id x) = au_subscriptionId u) subs else None)
      in case own of
           Some x \<Rightarrow> Some x
         | None \<Rightarrow>
             (case find sub_defaultSubscription subs of
                Some x \<Rightarrow> Some x
              | None \<Rightarrow> (case subs of [] \<Rightarrow> None | x # _ \<Rightarrow> Some x)))"

definition tier_for :: "subscription list option \<Rightarrow> auth_user \<Rightarrow> string" where
  "tier_for config u =
     (case subscription_for config u of
        None \<Rightarrow> ''beta''
      | Some x \<Rightarrow> if given (sub_tier x) then the (sub_tier x) else ''beta'')"

definition getUserInfo ::
    "auth_crypto \<Rightarrow> 's auth_ops \<Rightarrow> bool \<Rightarrow> subscription list option \<Rightarrow> int \<Rightarrow> 's \<Rightarrow> string option \<Rightarrow> string option
      \<Rightarrow> auth_error + user_info" where
  "getUserInfo C ops forceAllow config now s user key =
     (if \<not> given user then Inl UnacceptableUserId
      else if \<not> given key then Inl UnacceptableSessionKey
      else (case key_for C ops now s user key of
         Inl e \<Rightarrow> Inl e
       | Inr _ \<Rightarrow>
           (case st_findUser ops s (the user) of
              Some (Some u) \<Rightarrow>
                (let active = (forceAllow \<or> isActiveSubscription (au_subscriptionStatus u))
                 in Inr \<lparr>ui_userId = au_id u, ui_name = au_name u, ui_email = au_email u, ui_phoneNumber = au_phoneNumber u,
                         ui_avatarPortraitUrl = au_avatarPortraitUrl u, ui_avatarUrl = au_avatarUrl u, ui_hasActiveSubscription = active,
                         ui_subscriptionTier = (if active then Some (tier_for config u) else None),
                         ui_openAiKey = (if active then au_openAiKey u else None)\<rparr>)
            | _ \<Rightarrow> Inl AuthServerError)))"

text \<open>An update that is not an object is \<open>None\<close>; a field that is missing or \<^verbatim>\<open>null\<close> stays as it is.\<close>

record user_update =
  uu_name :: "string option"
  uu_avatarUrl :: "string option"
  uu_avatarPortraitUrl :: "string option"
  uu_email :: "string option"
  uu_phoneNumber :: "string option"
  uu_openAiKey :: "string option"

definition keep :: "'a option \<Rightarrow> 'a option \<Rightarrow> 'a option" where
  "keep old new = (case new of None \<Rightarrow> old | Some x \<Rightarrow> Some x)"

definition updated_user :: "auth_crypto \<Rightarrow> bool \<Rightarrow> auth_user \<Rightarrow> user_update \<Rightarrow> auth_user" where
  "updated_user C active u d =
     u\<lparr>au_name := keep (au_name u) (uu_name d), au_avatarUrl := keep (au_avatarUrl u) (uu_avatarUrl d),
       au_avatarPortraitUrl := keep (au_avatarPortraitUrl u) (uu_avatarPortraitUrl d),
       au_email := keep (au_email u) (uu_email d), au_phoneNumber := keep (au_phoneNumber u) (uu_phoneNumber d),
       au_openAiKey := keep (au_openAiKey u)
         (if active then map_option (\<lambda>k. if k = [] then [] else formatV1OpenAiKey (enc64 C) k) (uu_openAiKey d) else None)\<rparr>"

definition updateUserInfo ::
    "auth_crypto \<Rightarrow> 's auth_ops \<Rightarrow> bool \<Rightarrow> int \<Rightarrow> 's \<Rightarrow> string option \<Rightarrow> string option \<Rightarrow> user_update option
      \<Rightarrow> (auth_error + string) \<times> 's" where
  "updateUserInfo C ops forceAllow now s user key update =
     (if \<not> given user then (Inl UnacceptableUserId, s)
      else if \<not> given key then (Inl UnacceptableSessionKey, s)
      else (case update of
         None \<Rightarrow> (Inl UnacceptableUpdate, s)
       | Some d \<Rightarrow>
           (case key_for C ops now s user key of
              Inl e \<Rightarrow> (Inl e, s)
            | Inr _ \<Rightarrow>
                (case st_findUser ops s (the user) of
                   Some (Some u) \<Rightarrow>
                     (case st_saveUser ops s
                         (updated_user C (forceAllow \<or> isActiveSubscription (au_subscriptionStatus u)) u d) of
                        None \<Rightarrow> (Inl AuthServerError, s)
                      | Some s1 \<Rightarrow> (Inr (au_id u), s1))
                 | _ \<Rightarrow> (Inl AuthServerError, s)))))"

definition listEmailRules :: "'s auth_ops \<Rightarrow> 's \<Rightarrow> auth_error + regex_rule list option" where
  "listEmailRules ops s = (case st_listEmailRules ops s of None \<Rightarrow> Inl AuthServerError | Some r \<Rightarrow> Inr r)"

definition listSmsRules :: "'s auth_ops \<Rightarrow> 's \<Rightarrow> auth_error + regex_rule list option" where
  "listSmsRules ops s = (case st_listSmsRules ops s of None \<Rightarrow> Inl AuthServerError | Some r \<Rightarrow> Inr r)"

end
