(* ===== verification/Subscriptions.thy ===== *)
theory Subscriptions
  imports AuthController
begin

text \<open>
  Paid subscriptions: \<^verbatim>\<open>src/src/aux-records/SubscriptionController.ts\<close>, \<^verbatim>\<open>SubscriptionConfiguration.ts\<close> and the interface
  \<^verbatim>\<open>StripeInterface.ts\<close>. A user is sent to Stripe to buy or to manage a subscription; Stripe reports what became of it by a
  webhook, which updates the user.

  Stripe is a parameter: a record of operations over a state of its own, which a call that throws (no result) may have changed too.
  \<^verbatim>\<open>JSON.parse\<close> is a parameter as well; of an object with a repeated key it keeps one.
\<close>

section \<open>The configuration\<close>

datatype json =
    JsonNull
  | JsonBool bool
  | JsonNumber int
  | JsonString string
  | JsonArray "json list"
  | JsonObject "(string \<times> json) list"

text \<open>The fields that \<open>getUserInfo\<close> reads are those of \<open>subscription\<close>.\<close>

record plan = subscription +
  plan_product :: string
  plan_featureList :: "string list"
  plan_eligibleProducts :: "string list"
  plan_purchasable :: "bool option"

record subscription_config =
  sc_subscriptions :: "plan list"
  sc_checkoutConfig :: "(string \<times> json) list option"
  sc_portalConfig :: "(string \<times> json) list option"
  sc_webhookSecret :: string
  sc_successUrl :: string
  sc_cancelUrl :: string
  sc_returnUrl :: string

fun json_truthy :: "json \<Rightarrow> bool" where
  "json_truthy JsonNull = False"
| "json_truthy (JsonBool b) = b"
| "json_truthy (JsonNumber n) = (n \<noteq> 0)"
| "json_truthy (JsonString s) = (s \<noteq> [])"
| "json_truthy _ = True"

fun json_member :: "json \<Rightarrow> string \<Rightarrow> json option" where
  "json_member (JsonObject ps) k = map_of ps k"
| "json_member _ k = None"

fun is_json_string :: "json option \<Rightarrow> bool" where
  "is_json_string (Some (JsonString _)) = True"
| "is_json_string _ = False"

fun is_json_array :: "json option \<Rightarrow> bool" where
  "is_json_array (Some (JsonArray _)) = True"
| "is_json_array _ = False"

fun is_json_bool :: "json option \<Rightarrow> bool" where
  "is_json_bool (Some (JsonBool _)) = True"
| "is_json_bool _ = False"

definition isValidSubscription :: "json \<Rightarrow> bool" where
  "isValidSubscription sub \<longleftrightarrow> json_truthy sub \<and> is_json_string (json_member sub ''id'') \<and>
     is_json_array (json_member sub ''featureList'') \<and> is_json_array (json_member sub ''eligibleProducts'') \<and>
     is_json_string (json_member sub ''product'') \<and> is_json_bool (json_member sub ''defaultSubscription'')"

definition isValidConfig :: "json \<Rightarrow> bool" where
  "isValidConfig c \<longleftrightarrow> is_json_string (json_member c ''cancelUrl'') \<and> is_json_string (json_member c ''returnUrl'') \<and>
     is_json_string (json_member c ''successUrl'') \<and>
     (case json_member c ''subscriptions'' of Some (JsonArray subs) \<Rightarrow> list_all isValidSubscription subs | _ \<Rightarrow> False)"

definition tryParseSubscriptionConfig :: "(string \<Rightarrow> json option) \<Rightarrow> string \<Rightarrow> json js" where
  "tryParseSubscriptionConfig parse config =
     (case parse config of
        None \<Rightarrow> Undefined
      | Some c \<Rightarrow> if \<not> json_truthy c then Undefined else if isValidConfig c then Val c else Null)"

section \<open>Stripe\<close>

datatype interval = Month | Year | Week | Day

record stripe_price =
  sp_id :: string
  sp_interval :: interval
  sp_intervalCount :: int
  sp_currency :: string
  sp_unitAmount :: int

record stripe_product =
  sd_id :: string
  sd_name :: string
  sd_description :: string
  sd_defaultPrice :: stripe_price

record stripe_item =
  it_price :: stripe_price
  it_productId :: string
  it_productName :: string

record stripe_subscription =
  ss_id :: string
  ss_status :: string
  ss_startDate :: int
  ss_endedAt :: "int option"
  ss_cancelAt :: "int option"
  ss_canceledAt :: "int option"
  ss_currentPeriodStart :: "int option"
  ss_currentPeriodEnd :: "int option"
  ss_items :: "stripe_item list"

record customer_request =
  cr_name :: "string option"
  cr_email :: "string option"
  cr_phone :: "string option"

text \<open>The object of an event; of its items the ids of their products. It is \<open>None\<close> if it has no list of items.\<close>

record webhook_subscription =
  ws_items :: "string list"
  ws_status :: string
  ws_customer :: string

record stripe_event =
  ev_type :: string
  ev_object :: "webhook_subscription option"

text \<open>The requests of the two sessions are objects, a map of their fields.\<close>

record 'x stripe_ops =
  sx_publishableKey :: string
  sx_getProductAndPriceInfo :: "'x \<Rightarrow> string \<Rightarrow> stripe_product option option"
  sx_createCheckoutSession :: "'x \<Rightarrow> (string \<rightharpoonup> json) \<Rightarrow> string option \<times> 'x"
  sx_createPortalSession :: "'x \<Rightarrow> (string \<rightharpoonup> json) \<Rightarrow> string option \<times> 'x"
  sx_createCustomer :: "'x \<Rightarrow> customer_request \<Rightarrow> string option \<times> 'x"
  sx_listActiveSubscriptionsForCustomer :: "'x \<Rightarrow> string \<Rightarrow> stripe_subscription list option"
  sx_constructWebhookEvent :: "string \<Rightarrow> string \<Rightarrow> string \<Rightarrow> stripe_event option"

section \<open>Errors\<close>

datatype subscription_error =
    NotSupported
  | UnacceptableRequest
  | PriceDoesNotMatch
  | InvalidWebhook
  | AuthFailure auth_error

text \<open>The user whose key it is, who must be the one that the request names.\<close>

definition user_for_key ::
    "auth_crypto \<Rightarrow> 's auth_ops \<Rightarrow> int \<Rightarrow> 's \<Rightarrow> string option \<Rightarrow> string option \<Rightarrow> subscription_error + auth_user" where
  "user_for_key C ops now s user key =
     (case key_for C ops now s user key of
        Inl e \<Rightarrow> Inl (AuthFailure e)
      | Inr k \<Rightarrow>
          (case st_findUser ops s (ki_userId k) of
             Some (Some u) \<Rightarrow> Inr u
           | _ \<Rightarrow> Inl (AuthFailure AuthServerError)))"

section \<open>The status of a user's subscriptions\<close>

record subscription_status =
  st_active :: bool
  st_statusCode :: string
  st_startDate :: int
  st_cancelDate :: "int option"
  st_canceledDate :: "int option"
  st_endedDate :: "int option"
  st_currentPeriodEnd :: "int option"
  st_currentPeriodStart :: "int option"
  st_renewalInterval :: interval
  st_intervalLength :: int
  st_intervalCost :: int
  st_currency :: string
  st_productName :: string

record offered_price =
  of_id :: string
  of_currency :: string
  of_cost :: int
  of_interval :: interval
  of_intervalLength :: int

record purchasable_subscription =
  ps_id :: string
  ps_name :: string
  ps_description :: string
  ps_featureList :: "string list"
  ps_prices :: "offered_price list"

record status_result =
  sr_userId :: string
  sr_publishableKey :: string
  sr_subscriptions :: "subscription_status list"
  sr_purchasableSubscriptions :: "purchasable_subscription list"

definition offer :: "plan \<Rightarrow> stripe_product \<Rightarrow> purchasable_subscription" where
  "offer p d =
     \<lparr>ps_id = sub_id p, ps_name = sd_name d, ps_description = sd_description d, ps_featureList = plan_featureList p,
      ps_prices = [\<lparr>of_id = ''default'', of_currency = sp_currency (sd_defaultPrice d), of_cost = sp_unitAmount (sd_defaultPrice d),
        of_interval = sp_interval (sd_defaultPrice d), of_intervalLength = sp_intervalCount (sd_defaultPrice d)\<rparr>]\<rparr>"

text \<open>One lookup that throws makes all of them fail; a product that is unknown is left out.\<close>

fun offers :: "'x stripe_ops \<Rightarrow> 'x \<Rightarrow> plan list \<Rightarrow> purchasable_subscription list option" where
  "offers X x [] = Some []"
| "offers X x (p # ps) =
     do { d \<leftarrow> sx_getProductAndPriceInfo X x (plan_product p);
          rest \<leftarrow> offers X x ps;
          Some (case d of None \<Rightarrow> rest | Some info \<Rightarrow> offer p info # rest) }"

definition getPurchasableSubscriptions :: "'x stripe_ops \<Rightarrow> 'x \<Rightarrow> subscription_config \<Rightarrow> purchasable_subscription list option" where
  "getPurchasableSubscriptions X x config = offers X x (filter (\<lambda>p. plan_purchasable p \<noteq> Some False) (sc_subscriptions config))"

text \<open>A subscription without items throws.\<close>

definition status_of :: "stripe_subscription \<Rightarrow> subscription_status option" where
  "status_of a =
     (case ss_items a of
        [] \<Rightarrow> None
      | i # _ \<Rightarrow>
          Some \<lparr>st_active = (ss_status a = ''active''), st_statusCode = ss_status a, st_startDate = ss_startDate a,
                st_cancelDate = ss_cancelAt a, st_canceledDate = ss_canceledAt a, st_endedDate = ss_endedAt a,
                st_currentPeriodEnd = ss_currentPeriodEnd a, st_currentPeriodStart = ss_currentPeriodStart a,
                st_renewalInterval = sp_interval (it_price i), st_intervalLength = sp_intervalCount (it_price i),
                st_intervalCost = sp_unitAmount (it_price i), st_currency = sp_currency (it_price i),
                st_productName = it_productName i\<rparr>)"

fun statuses :: "stripe_subscription list \<Rightarrow> subscription_status list option" where
  "statuses [] = Some []"
| "statuses (a # as) = do { b \<leftarrow> status_of a; bs \<leftarrow> statuses as; Some (b # bs) }"

text \<open>Offers are made only to those who have no subscription.\<close>

definition subscriptions_and_offers ::
    "'x stripe_ops \<Rightarrow> 'x \<Rightarrow> subscription_config \<Rightarrow> auth_user
      \<Rightarrow> (subscription_status list \<times> purchasable_subscription list) option" where
  "subscriptions_and_offers X x config u =
     (if \<not> given (au_stripeCustomerId u) then do { ps \<leftarrow> getPurchasableSubscriptions X x config; Some ([], ps) }
      else do { as \<leftarrow> sx_listActiveSubscriptionsForCustomer X x (the (au_stripeCustomerId u));
                bs \<leftarrow> statuses as;
                ps \<leftarrow> (if bs \<noteq> [] then Some [] else getPurchasableSubscriptions X x config);
                Some (bs, ps) })"

definition getSubscriptionStatus ::
    "auth_crypto \<Rightarrow> 's auth_ops \<Rightarrow> 'x stripe_ops option \<Rightarrow> subscription_config \<Rightarrow> int \<Rightarrow> 'x \<Rightarrow> 's \<Rightarrow> string option \<Rightarrow> string option
      \<Rightarrow> subscription_error + status_result" where
  "getSubscriptionStatus C ops stripe config now x s user key =
     (case stripe of
        None \<Rightarrow> Inl NotSupported
      | Some X \<Rightarrow>
          if \<not> given user then Inl (AuthFailure UnacceptableUserId)
          else (case user_for_key C ops now s user key of
              Inl e \<Rightarrow> Inl e
            | Inr u \<Rightarrow>
                (case subscriptions_and_offers X x config u of
                   None \<Rightarrow> Inl (AuthFailure AuthServerError)
                 | Some (bs, ps) \<Rightarrow>
                     Inr \<lparr>sr_userId = the user, sr_publishableKey = sx_publishableKey X, sr_subscriptions = bs,
                          sr_purchasableSubscriptions = ps\<rparr>)))"

section \<open>Links to buy or to manage a subscription\<close>

text \<open>
  A field of the expected price is \<open>None\<close> if it is missing or of another type. An argument is \<open>Inl\<close> if it is
  present but of the wrong type.
\<close>

record expected_price =
  ep_currency :: "string option"
  ep_cost :: "int option"
  ep_interval :: "interval option"
  ep_intervalLength :: "int option"

record link_request =
  lk_sessionKey :: "string option"
  lk_userId :: "string option"
  lk_subscriptionId :: "unit + string option"
  lk_expectedPrice :: "unit + expected_price option"

definition is_expected :: "expected_price \<Rightarrow> stripe_price \<Rightarrow> bool" where
  "is_expected e p \<longleftrightarrow> ep_currency e = Some (sp_currency p) \<and> ep_cost e = Some (sp_unitAmount p) \<and>
     ep_interval e = Some (sp_interval p) \<and> ep_intervalLength e = Some (sp_intervalCount p)"

text \<open>The plan that was asked for, else the default one, else the first.\<close>

definition plan_for :: "subscription_config \<Rightarrow> string option \<Rightarrow> plan option" where
  "plan_for config i =
     (case (if given i then find (\<lambda>p. Some (sub_id p) = i) (sc_subscriptions config) else None) of
        Some p \<Rightarrow> Some p
      | None \<Rightarrow>
          (case find sub_defaultSubscription (sc_subscriptions config) of
             Some p \<Rightarrow> Some p
           | None \<Rightarrow> (case sc_subscriptions config of [] \<Rightarrow> None | p # _ \<Rightarrow> Some p)))"

definition config_fields :: "(string \<times> json) list option \<Rightarrow> string \<rightharpoonup> json" where
  "config_fields c = map_of (case c of None \<Rightarrow> [] | Some ps \<Rightarrow> ps)"

definition checkout_fields :: "subscription_config \<Rightarrow> string \<Rightarrow> string \<Rightarrow> string \<Rightarrow> string \<rightharpoonup> json" where
  "checkout_fields config customer priceId userId =
     config_fields (sc_checkoutConfig config) ++
     [''customer'' \<mapsto> JsonString customer, ''success_url'' \<mapsto> JsonString (sc_successUrl config),
      ''cancel_url'' \<mapsto> JsonString (sc_cancelUrl config),
      ''line_items'' \<mapsto> JsonArray [JsonObject [(''price'', JsonString priceId), (''quantity'', JsonNumber 1)]],
      ''mode'' \<mapsto> JsonString ''subscription'', ''metadata'' \<mapsto> JsonObject [(''userId'', JsonString userId)]]"

definition portal_fields :: "subscription_config \<Rightarrow> string \<Rightarrow> string \<rightharpoonup> json" where
  "portal_fields config customer =
     config_fields (sc_portalConfig config) ++
     [''customer'' \<mapsto> JsonString customer, ''return_url'' \<mapsto> JsonString (sc_returnUrl config)]"

text \<open>The link of a session, or the error of a call that throws.\<close>

definition link :: "string option \<Rightarrow> subscription_error + string" where
  "link url = (case url of None \<Rightarrow> Inl (AuthFailure AuthServerError) | Some l \<Rightarrow> Inr l)"

text \<open>A plan or a product that is missing throws.\<close>

definition createCheckoutSession ::
    "'x stripe_ops \<Rightarrow> subscription_config \<Rightarrow> 'x \<Rightarrow> string option \<Rightarrow> expected_price option \<Rightarrow> auth_user \<Rightarrow> string
      \<Rightarrow> (subscription_error + string) \<times> 'x" where
  "createCheckoutSession X config x i expected u customer =
     (case plan_for config i of
        None \<Rightarrow> (Inl (AuthFailure AuthServerError), x)
      | Some p \<Rightarrow>
          (case sx_getProductAndPriceInfo X x (plan_product p) of
             Some (Some d) \<Rightarrow>
               if (case expected of None \<Rightarrow> False | Some e \<Rightarrow> \<not> is_expected e (sd_defaultPrice d)) then (Inl PriceDoesNotMatch, x)
               else map_prod link id
                 (sx_createCheckoutSession X x (checkout_fields config customer (sp_id (sd_defaultPrice d)) (au_id u)))
           | _ \<Rightarrow> (Inl (AuthFailure AuthServerError), x)))"

definition isManagable :: "subscription_config \<Rightarrow> stripe_subscription \<Rightarrow> bool" where
  "isManagable config a \<longleftrightarrow>
     ss_status a \<in> {''active'', ''trialing'', ''paused'', ''incomplete'', ''past_due'', ''unpaid''} \<and>
     (\<exists>p\<in>set (sc_subscriptions config). \<exists>e\<in>set (plan_eligibleProducts p). \<exists>i\<in>set (ss_items a). it_productId i = e)"

definition bad_link_args :: "link_request \<Rightarrow> subscription_error option" where
  "bad_link_args q =
     (if \<not> given (lk_userId q) then Some (AuthFailure UnacceptableUserId)
      else if lk_subscriptionId q = Inl () then Some UnacceptableRequest
      else if lk_expectedPrice q = Inl () then Some UnacceptableRequest else None)"

text \<open>A user without a customer id gets a new one, which is saved before the checkout starts.\<close>

definition first_link ::
    "'s auth_ops \<Rightarrow> 'x stripe_ops \<Rightarrow> subscription_config \<Rightarrow> 'x \<Rightarrow> 's \<Rightarrow> string option \<Rightarrow> expected_price option \<Rightarrow> auth_user
      \<Rightarrow> (subscription_error + string) \<times> 'x \<times> 's" where
  "first_link ops X config x s i expected u =
     (if sc_subscriptions config = [] then (Inl NotSupported, x, s)
      else (case sx_createCustomer X x \<lparr>cr_name = au_name u, cr_email = au_email u, cr_phone = au_phoneNumber u\<rparr> of
         (None, x1) \<Rightarrow> (Inl (AuthFailure AuthServerError), x1, s)
       | (Some customer, x1) \<Rightarrow>
           (let u1 = u\<lparr>au_stripeCustomerId := Some customer\<rparr> in
            case st_saveUser ops s u1 of
              None \<Rightarrow> (Inl (AuthFailure AuthServerError), x1, s)
            | Some s1 \<Rightarrow> (let (r, x2) = createCheckoutSession X config x1 i expected u1 customer in (r, x2, s1)))))"

definition customer_link ::
    "'x stripe_ops \<Rightarrow> subscription_config \<Rightarrow> 'x \<Rightarrow> string option \<Rightarrow> expected_price option \<Rightarrow> auth_user \<Rightarrow> string
      \<Rightarrow> (subscription_error + string) \<times> 'x" where
  "customer_link X config x i expected u customer =
     (case sx_listActiveSubscriptionsForCustomer X x customer of
        None \<Rightarrow> (Inl (AuthFailure AuthServerError), x)
      | Some as \<Rightarrow>
          if \<exists>a\<in>set as. isManagable config a
          then map_prod link id (sx_createPortalSession X x (portal_fields config customer))
          else createCheckoutSession X config x i expected u customer)"

definition createManageSubscriptionLink ::
    "auth_crypto \<Rightarrow> 's auth_ops \<Rightarrow> 'x stripe_ops option \<Rightarrow> subscription_config \<Rightarrow> int \<Rightarrow> 'x \<Rightarrow> 's \<Rightarrow> link_request
      \<Rightarrow> (subscription_error + string) \<times> 'x \<times> 's" where
  "createManageSubscriptionLink C ops stripe config now x s q =
     (case stripe of
        None \<Rightarrow> (Inl NotSupported, x, s)
      | Some X \<Rightarrow>
          (case bad_link_args q of
             Some e \<Rightarrow> (Inl e, x, s)
           | None \<Rightarrow>
               (case user_for_key C ops now s (lk_userId q) (lk_sessionKey q) of
                  Inl e \<Rightarrow> (Inl e, x, s)
                | Inr u \<Rightarrow>
                    (let i = projr (lk_subscriptionId q); expected = projr (lk_expectedPrice q) in
                     if \<not> given (au_stripeCustomerId u) then first_link ops X config x s i expected u
                     else (let (r, x1) = customer_link X config x i expected u (the (au_stripeCustomerId u)) in (r, x1, s))))))"

section \<open>The webhook\<close>

text \<open>The first plan for which one of the products, taken in their order, is eligible.\<close>

fun plan_of_items :: "plan list \<Rightarrow> string list \<Rightarrow> plan option" where
  "plan_of_items ps [] = None"
| "plan_of_items ps (d # ds) =
     (case find (\<lambda>p. d \<in> set (plan_eligibleProducts p)) ps of Some p \<Rightarrow> Some p | None \<Rightarrow> plan_of_items ps ds)"

definition subscription_event :: "string \<Rightarrow> bool" where
  "subscription_event ty \<longleftrightarrow> ty = ''customer.subscription.created'' \<or> ty = ''customer.subscription.deleted'' \<or>
     ty = ''customer.subscription.updated''"

definition with_subscription :: "auth_user \<Rightarrow> string \<Rightarrow> string \<Rightarrow> auth_user" where
  "with_subscription u status i = u\<lparr>au_subscriptionStatus := Some status, au_subscriptionId := Some i\<rparr>"

definition update_subscription ::
    "'s auth_ops \<Rightarrow> subscription_config \<Rightarrow> 's \<Rightarrow> webhook_subscription \<Rightarrow> (subscription_error + unit) \<times> 's" where
  "update_subscription ops config s w =
     (case plan_of_items (sc_subscriptions config) (ws_items w) of
        None \<Rightarrow> (Inr (), s)
      | Some p \<Rightarrow>
          (case st_findUserByStripeCustomerId ops s (ws_customer w) of
             None \<Rightarrow> (Inl (AuthFailure AuthServerError), s)
           | Some None \<Rightarrow> (Inr (), s)
           | Some (Some u) \<Rightarrow>
               if au_subscriptionStatus u \<noteq> Some (ws_status w) \<or> au_subscriptionId u \<noteq> Some (sub_id p) then
                 (case st_saveUser ops s (with_subscription u (ws_status w) (sub_id p)) of
                    None \<Rightarrow> (Inl (AuthFailure AuthServerError), s)
                  | Some s1 \<Rightarrow> (Inr (), s1))
               else (Inr (), s)))"

definition handleStripeWebhook ::
    "'s auth_ops \<Rightarrow> 'x stripe_ops option \<Rightarrow> subscription_config \<Rightarrow> 's \<Rightarrow> string option \<Rightarrow> string option
      \<Rightarrow> (subscription_error + unit) \<times> 's" where
  "handleStripeWebhook ops stripe config s body signature =
     (case stripe of
        None \<Rightarrow> (Inl NotSupported, s)
      | Some X \<Rightarrow>
          if \<not> given body \<or> \<not> given signature then (Inl InvalidWebhook, s)
          else (case sx_constructWebhookEvent X (the body) (the signature) (sc_webhookSecret config) of
              None \<Rightarrow> (Inl InvalidWebhook, s)
            | Some event \<Rightarrow>
                if \<not> subscription_event (ev_type event) then (Inr (), s)
                else (case ev_object event of
                    None \<Rightarrow> (Inl (AuthFailure AuthServerError), s)
                  | Some w \<Rightarrow> update_subscription ops config s w)))"

end
