(* ===== verification/AuthSpec.thy ===== *)
theory AuthSpec
  imports AuthController
begin

text \<open>
  What the login relies on in a store, as locales that are interpreted on the store in memory, and what follows
  for every such store: a login that is completed with its code gives a session, a request can be tried only
  a few times, and a session that was revoked stays so.
\<close>

section \<open>The contract of a store\<close>

definition changed_at :: "('k \<Rightarrow> 'a option option) \<Rightarrow> 'k \<Rightarrow> ('a \<Rightarrow> 'a) \<Rightarrow> 'k \<Rightarrow> 'a option option" where
  "changed_at g k f = g(k := map_option (map_option f) (g k))"

lemma changed_at_simps [simp]:
  "changed_at g k f k = map_option (map_option f) (g k)"
  "j \<noteq> k \<Longrightarrow> changed_at g k f j = g j"
  by (simp_all add: changed_at_def)

definition session_at :: "'s auth_ops \<Rightarrow> 's \<Rightarrow> string \<times> string \<Rightarrow> auth_session option option" where
  "session_at ops s k = st_findSession ops s (fst k) (snd k)"

definition request_at :: "'s auth_ops \<Rightarrow> 's \<Rightarrow> string \<times> string \<Rightarrow> login_request option option" where
  "request_at ops s k = st_findLoginRequest ops s (fst k) (snd k)"

text \<open>Sessions and users.\<close>

locale session_store =
  fixes ops :: "'s auth_ops"
  assumes find_session: "\<exists>x. session_at ops s k = Some x"
    and session_ids: "session_at ops s k = Some (Some a) \<Longrightarrow> (as_userId a, as_sessionId a) = k"
    and find_user: "\<exists>x. st_findUser ops s u = Some x"
    and user_id: "st_findUser ops s u = Some (Some x) \<Longrightarrow> au_id x = u"
    and save_session: "\<exists>s'. st_saveSession ops s a = Some s' \<and>
      session_at ops s' = (session_at ops s)((as_userId a, as_sessionId a) := Some (Some a)) \<and>
      st_findUser ops s' = st_findUser ops s \<and> request_at ops s' = request_at ops s"
    and save_user: "\<exists>s'. st_saveUser ops s x = Some s' \<and> st_findUser ops s' = (st_findUser ops s)(au_id x := Some (Some x)) \<and>
      session_at ops s' = session_at ops s \<and> request_at ops s' = request_at ops s"
    and save_revoke_all: "\<exists>s'. st_setRevokeAllSessionsTimeForUser ops s u t = Some s' \<and>
      st_findUser ops s' = changed_at (st_findUser ops s) u (\<lambda>x. x\<lparr>au_allSessionRevokeTimeMs := Val t\<rparr>) \<and>
      session_at ops s' = session_at ops s \<and> request_at ops s' = request_at ops s"

text \<open>Login requests besides.\<close>

locale auth_store = session_store +
  assumes find_request: "\<exists>x. request_at ops s k = Some x"
    and request_ids: "request_at ops s k = Some (Some q) \<Longrightarrow> (lr_userId q, lr_requestId q) = k"
    and find_address: "\<exists>x. st_findUserByAddress ops s addr ty = Some x"
    and address_user: "st_findUserByAddress ops s addr ty = Some (Some x) \<Longrightarrow> st_findUser ops s (au_id x) \<noteq> Some None"
    and save_request: "\<exists>s'. st_saveLoginRequest ops s q = Some s' \<and>
      request_at ops s' = (request_at ops s)((lr_userId q, lr_requestId q) := Some (Some q)) \<and>
      session_at ops s' = session_at ops s \<and> st_findUser ops s' = st_findUser ops s"
    and save_complete: "request_at ops s (u, r) \<noteq> Some None \<Longrightarrow> \<exists>s'. st_markLoginRequestComplete ops s u r t = Some s' \<and>
      request_at ops s' = changed_at (request_at ops s) (u, r) (\<lambda>q. q\<lparr>lr_completedTimeMs := Some t\<rparr>) \<and>
      session_at ops s' = session_at ops s \<and> st_findUser ops s' = st_findUser ops s"
    and save_attempt: "\<exists>s'. st_incrementLoginRequestAttemptCount ops s u r = Some s' \<and>
      request_at ops s' = changed_at (request_at ops s) (u, r) (\<lambda>q. q\<lparr>lr_attemptCount := lr_attemptCount q + 1\<rparr>) \<and>
      session_at ops s' = session_at ops s \<and> st_findUser ops s' = st_findUser ops s"
    and save_current: "\<exists>s'. st_setCurrentLoginRequest ops s u r = Some s' \<and>
      st_findUser ops s' = changed_at (st_findUser ops s) u (\<lambda>x. x\<lparr>au_currentLoginRequestId := Some r\<rparr>) \<and>
      session_at ops s' = session_at ops s \<and> request_at ops s' = request_at ops s"
    and save_new_user: "\<exists>ok s'. st_saveNewUser ops s x = Some (ok, s') \<and> session_at ops s' = session_at ops s \<and>
      request_at ops s' = request_at ops s \<and> (\<not> ok \<longrightarrow> s' = s) \<and>
      (ok \<longrightarrow> st_findUser ops s' = (if st_findUser ops s (au_id x) = Some None
         then (st_findUser ops s)(au_id x := Some (Some x)) else st_findUser ops s))"

section \<open>The store in memory\<close>

lemma find_replace:
  "find (\<lambda>x. key x = k) (replace_or_push (\<lambda>x. key x = key y) y xs) = (if k = key y then Some y else find (\<lambda>x. key x = k) xs)"
  by (induction xs) auto

lemma find_change:
  assumes "\<And>x. key (f x) = key x"
  shows "find (\<lambda>x. key x = k) (change_first (\<lambda>x. key x = j) f xs) =
    (if k = j then map_option f (find (\<lambda>x. key x = k) xs) else find (\<lambda>x. key x = k) xs)"
  using assms by (induction xs) auto

lemma find_property: "find P xs = Some x \<Longrightarrow> P x \<and> x \<in> set xs"
  by (induction xs) (auto split: if_splits)

lemma find_append: "find P (xs @ ys) = (case find P xs of Some x \<Rightarrow> Some x | None \<Rightarrow> find P ys)"
  by (induction xs) auto

definition session_key :: "auth_session \<Rightarrow> string \<times> string" where "session_key a = (as_userId a, as_sessionId a)"
definition request_key :: "login_request \<Rightarrow> string \<times> string" where "request_key q = (lr_userId q, lr_requestId q)"

lemma memory_auth_at [simp]:
  "session_at memory_auth_ops s k = Some (find (\<lambda>a. session_key a = k) (ma_sessions s))"
  "request_at memory_auth_ops s k = Some (find (\<lambda>q. request_key q = k) (ma_loginRequests s))"
  "st_findUser memory_auth_ops s u = Some (find (\<lambda>x. au_id x = u) (ma_users s))"
  by (cases k; simp add: session_at_def request_at_def memory_auth_ops_def ma_findSession_def ma_findLoginRequest_def
      ma_findUser_def session_key_def request_key_def)+

text \<open>The writing operations, one equation for each.\<close>

lemma memory_auth_saves [simp]:
  "st_saveSession memory_auth_ops s a = Some (ma_saveSession s a)"
  "st_saveUser memory_auth_ops s x = Some (ma_saveUser s x)"
  "st_saveNewUser memory_auth_ops s x = Some (ma_saveNewUser s x)"
  "st_setRevokeAllSessionsTimeForUser memory_auth_ops s u t = Some (ma_setRevokeAllSessionsTimeForUser s u t)"
  "st_saveLoginRequest memory_auth_ops s q = Some (ma_saveLoginRequest s q)"
  "st_markLoginRequestComplete memory_auth_ops s u r t = ma_markLoginRequestComplete s u r t"
  "st_incrementLoginRequestAttemptCount memory_auth_ops s u r = Some (ma_incrementLoginRequestAttemptCount s u r)"
  "st_setCurrentLoginRequest memory_auth_ops s u r = Some (ma_setCurrentLoginRequest s u r)"
  "st_findUserByAddress memory_auth_ops s addr ty = Some (ma_findUserByAddress s addr ty)"
  "st_findUserByStripeCustomerId memory_auth_ops s c = Some (ma_findUserByStripeCustomerId s c)"
  by (simp_all add: memory_auth_ops_def)

interpretation ms: session_store memory_auth_ops
proof unfold_locales
  fix s :: memory_auth and u a x t
  have "(\<lambda>y. as_userId y = as_userId a \<and> as_sessionId y = as_sessionId a) = (\<lambda>y. session_key y = session_key a)"
    by (auto simp: session_key_def)
  then show "\<exists>s'. st_saveSession memory_auth_ops s a = Some s' \<and>
      session_at memory_auth_ops s' = (session_at memory_auth_ops s)((as_userId a, as_sessionId a) := Some (Some a)) \<and>
      st_findUser memory_auth_ops s' = st_findUser memory_auth_ops s \<and> request_at memory_auth_ops s' = request_at memory_auth_ops s"
    by (simp add: ma_saveSession_def fun_eq_iff find_replace flip: session_key_def)
  show "\<exists>s'. st_saveUser memory_auth_ops s x = Some s' \<and>
      st_findUser memory_auth_ops s' = (st_findUser memory_auth_ops s)(au_id x := Some (Some x)) \<and>
      session_at memory_auth_ops s' = session_at memory_auth_ops s \<and> request_at memory_auth_ops s' = request_at memory_auth_ops s"
    by (simp add: ma_saveUser_def fun_eq_iff find_replace)
  show "\<exists>s'. st_setRevokeAllSessionsTimeForUser memory_auth_ops s u t = Some s' \<and>
      st_findUser memory_auth_ops s' = changed_at (st_findUser memory_auth_ops s) u (\<lambda>x. x\<lparr>au_allSessionRevokeTimeMs := Val t\<rparr>) \<and>
      session_at memory_auth_ops s' = session_at memory_auth_ops s \<and> request_at memory_auth_ops s' = request_at memory_auth_ops s"
  proof (cases "find (\<lambda>x. au_id x = u) (ma_users s)")
    case None
    then show ?thesis by (simp add: ma_setRevokeAllSessionsTimeForUser_def ma_findUser_def changed_at_def fun_eq_iff)
  next
    case (Some y)
    then have id: "au_id y = u" by (auto dest: find_property)
    have "find (\<lambda>x. au_id x = k) (replace_or_push (\<lambda>x. au_id x = u) (y\<lparr>au_allSessionRevokeTimeMs := Val t\<rparr>) xs) =
        (if k = u then Some (y\<lparr>au_allSessionRevokeTimeMs := Val t\<rparr>) else find (\<lambda>x. au_id x = k) xs)" for k xs
      using find_replace[of au_id k "y\<lparr>au_allSessionRevokeTimeMs := Val t\<rparr>" xs] id by simp
    with Some id show ?thesis
      by (simp add: ma_setRevokeAllSessionsTimeForUser_def ma_findUser_def ma_saveUser_def changed_at_def fun_eq_iff)
  qed
qed (auto dest: find_property simp: session_key_def)

lemma find_request_key: "find (\<lambda>x. lr_userId x = u \<and> lr_requestId x = r) xs = find (\<lambda>x. request_key x = (u, r)) xs"
  by (simp add: request_key_def)

lemma change_request:
  "change_first (\<lambda>x. lr_userId x = u \<and> lr_requestId x = r) f xs = change_first (\<lambda>x. request_key x = (u, r)) f xs"
  by (simp add: request_key_def)

interpretation ma: auth_store memory_auth_ops
proof unfold_locales
  fix s :: memory_auth and u r q x t k and addr :: string and ty
  have key: "(\<lambda>y. lr_userId y = lr_userId q \<and> lr_requestId y = lr_requestId q) = (\<lambda>y. request_key y = request_key q)"
    by (auto simp: request_key_def)
  show "request_at memory_auth_ops s k = Some (Some q) \<Longrightarrow> (lr_userId q, lr_requestId q) = k"
    by (auto dest: find_property simp: request_key_def)
  show "st_findUserByAddress memory_auth_ops s addr ty = Some (Some x) \<Longrightarrow> st_findUser memory_auth_ops s (au_id x) \<noteq> Some None"
    by (auto dest!: find_property simp: ma_findUserByAddress_def find_None_iff)
  show "\<exists>s'. st_saveLoginRequest memory_auth_ops s q = Some s' \<and>
      request_at memory_auth_ops s' = (request_at memory_auth_ops s)((lr_userId q, lr_requestId q) := Some (Some q)) \<and>
      session_at memory_auth_ops s' = session_at memory_auth_ops s \<and> st_findUser memory_auth_ops s' = st_findUser memory_auth_ops s"
    by (simp add: ma_saveLoginRequest_def key fun_eq_iff find_replace flip: request_key_def)
  have change: "find (\<lambda>y. request_key y = k) (change_first (\<lambda>x. request_key x = (u, r)) f xs) =
      (if k = (u, r) then map_option f (find (\<lambda>y. request_key y = k) xs) else find (\<lambda>y. request_key y = k) xs)"
    if "\<And>q. lr_userId (f q) = lr_userId q \<and> lr_requestId (f q) = lr_requestId q" for k f xs
    by (rule find_change) (simp add: request_key_def that)
  show "request_at memory_auth_ops s (u, r) \<noteq> Some None \<Longrightarrow> \<exists>s'. st_markLoginRequestComplete memory_auth_ops s u r t = Some s' \<and>
      request_at memory_auth_ops s' = changed_at (request_at memory_auth_ops s) (u, r) (\<lambda>q. q\<lparr>lr_completedTimeMs := Some t\<rparr>) \<and>
      session_at memory_auth_ops s' = session_at memory_auth_ops s \<and> st_findUser memory_auth_ops s' = st_findUser memory_auth_ops s"
    by (auto simp: ma_markLoginRequestComplete_def ma_findLoginRequest_def find_request_key change_request change changed_at_def fun_eq_iff)
  show "\<exists>s'. st_incrementLoginRequestAttemptCount memory_auth_ops s u r = Some s' \<and>
      request_at memory_auth_ops s' = changed_at (request_at memory_auth_ops s) (u, r) (\<lambda>q. q\<lparr>lr_attemptCount := lr_attemptCount q + 1\<rparr>) \<and>
      session_at memory_auth_ops s' = session_at memory_auth_ops s \<and> st_findUser memory_auth_ops s' = st_findUser memory_auth_ops s"
    by (auto simp: ma_incrementLoginRequestAttemptCount_def change_request change changed_at_def fun_eq_iff)
  show "\<exists>s'. st_setCurrentLoginRequest memory_auth_ops s u r = Some s' \<and>
      st_findUser memory_auth_ops s' = changed_at (st_findUser memory_auth_ops s) u (\<lambda>x. x\<lparr>au_currentLoginRequestId := Some r\<rparr>) \<and>
      session_at memory_auth_ops s' = session_at memory_auth_ops s \<and> request_at memory_auth_ops s' = request_at memory_auth_ops s"
    by (simp add: ma_setCurrentLoginRequest_def changed_at_def fun_eq_iff find_change)
  show "\<exists>ok s'. st_saveNewUser memory_auth_ops s x = Some (ok, s') \<and> session_at memory_auth_ops s' = session_at memory_auth_ops s \<and>
      request_at memory_auth_ops s' = request_at memory_auth_ops s \<and> (\<not> ok \<longrightarrow> s' = s) \<and>
      (ok \<longrightarrow> st_findUser memory_auth_ops s' = (if st_findUser memory_auth_ops s (au_id x) = Some None
         then (st_findUser memory_auth_ops s)(au_id x := Some (Some x)) else st_findUser memory_auth_ops s))"
    by (auto simp: ma_saveNewUser_def fun_eq_iff find_append split: option.splits)
qed (auto simp: ma_findUserByAddress_def)

end
