(* ===== verification/AuthSessions.thy ===== *)
theory AuthSessions
  imports AuthSpec
begin

text \<open>
  Sessions over time: when a session key is accepted, what every operation does to sessions and users, and
  runs of operations at times that do not go back.
\<close>

section \<open>When a key is accepted\<close>

definition live_session :: "int \<Rightarrow> auth_session \<Rightarrow> bool" where
  "live_session now a \<longleftrightarrow> now < as_expireTimeMs a \<and> \<not> (truthy (as_revokeTimeMs a) \<and> now \<ge> the (as_revokeTimeMs a))"

definition user_admits :: "auth_user \<Rightarrow> auth_session \<Rightarrow> bool" where
  "user_admits u a \<longleftrightarrow> (\<forall>t. au_allSessionRevokeTimeMs u = Val t \<longrightarrow> t < as_grantedTimeMs a) \<and> \<not> positive (au_banTimeMs u)"

lemma check_user_Inr:
  "check_user now a u = Inr k \<longleftrightarrow> user_admits u a \<and>
     k = \<lparr>ki_userId = as_userId a, ki_sessionId = as_sessionId a, ki_allSessionsRevokedTimeMs = au_allSessionRevokeTimeMs u\<rparr>"
  by (auto simp: check_user_def user_admits_def split: js.splits)

text \<open>The parts of a key with the session and the user that it opens.\<close>

definition opens :: "auth_crypto \<Rightarrow> 's auth_ops \<Rightarrow> int \<Rightarrow> 's \<Rightarrow> string option \<Rightarrow> auth_session \<Rightarrow> auth_user \<Rightarrow> bool" where
  "opens C ops now s key a u \<longleftrightarrow> given key \<and>
     (\<exists>secret e. parseSessionKey (dec64 C) (the key) = Some (as_userId a, as_sessionId a, secret, e) \<and>
        verify C secret (as_sessionId a) (as_secretHash a) = Some True) \<and>
     session_at ops s (as_userId a, as_sessionId a) = Some (Some a) \<and> st_findUser ops s (as_userId a) = Some (Some u) \<and>
     live_session now a \<and> user_admits u a"

context session_store
begin

lemma validate_Inr:
  "validateSessionKey C ops now s key = Inr k \<longleftrightarrow>
     (\<exists>a u. opens C ops now s key a u \<and>
        k = \<lparr>ki_userId = as_userId a, ki_sessionId = as_sessionId a, ki_allSessionsRevokedTimeMs = au_allSessionRevokeTimeMs u\<rparr>)"
  (is "?l \<longleftrightarrow> ?r")
proof
  assume l: ?l
  then obtain user i secret e where p: "given key" "parseSessionKey (dec64 C) (the key) = Some (user, i, secret, e)"
    by (auto simp: validateSessionKey_def split: if_splits option.splits)
  with l obtain a where a: "session_at ops s (user, i) = Some (Some a)"
    by (auto simp: validateSessionKey_def session_at_def split: option.splits)
  then have ids: "as_userId a = user" "as_sessionId a = i" using session_ids by blast+
  with l p a obtain u where u: "st_findUser ops s user = Some (Some u)" "verify C secret i (as_secretHash a) = Some True"
      "live_session now a" "check_user now a u = Inr k"
    by (auto simp: validateSessionKey_def session_at_def live_session_def split: option.splits bool.splits if_splits)
  with p a ids show ?r by (auto simp: check_user_Inr opens_def)
next
  assume ?r
  then show ?l
    by (auto simp: opens_def validateSessionKey_def session_at_def live_session_def check_user_Inr)
qed

lemma key_for_Inr:
  "key_for C ops now s user key = Inr k \<longleftrightarrow> validateSessionKey C ops now s key = Inr k \<and> Some (ki_userId k) = user"
  by (auto simp: key_for_def split: sum.splits)

section \<open>What the operations change\<close>

lemma revokeSession_effect:
  assumes "revokeSession C ops now s user sid key = (r, s')"
  shows "st_findUser ops s' = st_findUser ops s \<and>
    (session_at ops s' = session_at ops s \<and> r \<noteq> Inr () \<or>
     (\<exists>a. user = Some (as_userId a) \<and> sid = Some (as_sessionId a) \<and> session_at ops s (as_userId a, as_sessionId a) = Some (Some a) \<and>
        \<not> truthy (as_revokeTimeMs a) \<and> r = Inr () \<and>
        session_at ops s' = (session_at ops s)((as_userId a, as_sessionId a) := Some (Some (a\<lparr>as_revokeTimeMs := Some now\<rparr>)))))"
proof (cases "given user \<and> given sid \<and> given key \<and> (\<exists>k. key_for C ops now s user key = Inr k)")
  case False
  then have "s' = s \<and> (\<exists>e. r = Inl e)" using assms by (auto simp: revokeSession_def split: sum.splits if_splits)
  then show ?thesis by auto
next
  case True
  then obtain k u i where k: "key_for C ops now s user key = Inr k" "user = Some u" "sid = Some i" by (auto simp: given_def)
  consider "session_at ops s (u, i) = Some None" | a where "session_at ops s (u, i) = Some (Some a)"
    using find_session[of s "(u, i)"] by force
  then show ?thesis
  proof cases
    case 1
    with assms True k show ?thesis by (auto simp: revokeSession_def session_at_def)
  next
    case 2
    have ids: "as_userId a = u" "as_sessionId a = i" using session_ids[OF 2] by auto
    obtain s1 where s1: "st_saveSession ops s (a\<lparr>as_revokeTimeMs := Some now\<rparr>) = Some s1"
        "session_at ops s1 = (session_at ops s)((u, i) := Some (Some (a\<lparr>as_revokeTimeMs := Some now\<rparr>)))"
        "st_findUser ops s1 = st_findUser ops s"
      using save_session[of s "a\<lparr>as_revokeTimeMs := Some now\<rparr>"] ids by auto
    show ?thesis
    proof (cases "truthy (as_revokeTimeMs a)")
      case True
      with assms \<open>given user \<and> _\<close> k 2 show ?thesis by (auto simp: revokeSession_def session_at_def)
    next
      case False
      with assms \<open>given user \<and> _\<close> k 2 s1 have "r = Inr ()" "s' = s1" by (auto simp: revokeSession_def session_at_def)
      with False 2 ids k s1 show ?thesis by blast
    qed
  qed
qed

lemma revokeAllSessions_effect:
  assumes "revokeAllSessions C ops now s user key = (r, s')"
  shows "session_at ops s' = session_at ops s \<and>
    (st_findUser ops s' = st_findUser ops s \<and> r \<noteq> Inr () \<or>
     (\<exists>u x. user = Some u \<and> st_findUser ops s u = Some (Some x) \<and> r = Inr () \<and>
        st_findUser ops s' = changed_at (st_findUser ops s) u (\<lambda>x. x\<lparr>au_allSessionRevokeTimeMs := Val now\<rparr>)))"
proof (cases "given user \<and> given key \<and> (\<exists>k. key_for C ops now s user key = Inr k)")
  case False
  then have "s' = s \<and> (\<exists>e. r = Inl e)" using assms by (auto simp: revokeAllSessions_def split: sum.splits if_splits)
  then show ?thesis by auto
next
  case True
  then obtain k u where k: "key_for C ops now s user key = Inr k" "user = Some u" by (auto simp: given_def)
  then obtain x where "st_findUser ops s u = Some (Some x)" by (auto simp: key_for_Inr validate_Inr opens_def)
  with assms True k save_revoke_all[of s u now] show ?thesis by (auto simp: revokeAllSessions_def)
qed

lemma updateUserInfo_effect:
  assumes "updateUserInfo C ops force now s user key upd = (r, s')"
  shows "session_at ops s' = session_at ops s \<and>
    (s' = s \<or> (\<exists>u x d active. user = Some u \<and> upd = Some d \<and> st_findUser ops s u = Some (Some x) \<and>
       st_findUser ops s' = (st_findUser ops s)(u := Some (Some (updated_user C active x d)))))"
proof (cases "given user \<and> given key \<and> upd \<noteq> None \<and> (\<exists>k. key_for C ops now s user key = Inr k)")
  case False
  then show ?thesis using assms by (auto simp: updateUserInfo_def split: sum.splits option.splits if_splits)
next
  case True
  then obtain k u d where k: "key_for C ops now s user key = Inr k" "user = Some u" "upd = Some d" by (auto simp: given_def)
  then obtain x where x: "st_findUser ops s u = Some (Some x)" by (auto simp: key_for_Inr validate_Inr opens_def)
  let ?x = "updated_user C (force \<or> isActiveSubscription (au_subscriptionStatus x)) x d"
  have "au_id ?x = u" using user_id[OF x] by (simp add: updated_user_def)
  then show ?thesis using assms True k x save_user[of s ?x] by (auto simp: updateUserInfo_def)
qed

lemma replaceSession_effect:
  assumes "replaceSession C ops now i secret s key ip = (r, s')"
  shows "st_findUser ops s' = st_findUser ops s \<and>
    (session_at ops s' = session_at ops s \<and> \<not> (\<exists>x. r = Inr x) \<or>
     (\<exists>a b u. opens C ops now s key a u \<and> as_userId b = as_userId a \<and> as_sessionId b = i \<and> as_grantedTimeMs b = now \<and>
        as_expireTimeMs b = now + SESSION_LIFETIME_MS \<and> as_revokeTimeMs b = None \<and>
        as_secretHash b = hashPasswordWithSalt C secret i \<and> as_previousSessionId b = Some (as_sessionId a) \<and>
        r = Inr \<lparr>si_userId = as_userId a, si_sessionKey = formatV1SessionKey (enc64 C) (as_userId a) i secret (as_expireTimeMs b),
             si_expireTimeMs = as_expireTimeMs b\<rparr> \<and>
        session_at ops s' = (session_at ops s)
          ((as_userId a, as_sessionId a) := Some (Some (a\<lparr>as_nextSessionId := Some i, as_revokeTimeMs := Some now\<rparr>)),
           (as_userId a, i) := Some (Some b))))"
proof (cases "given key \<and> given ip \<and> (\<exists>k. validateSessionKey C ops now s key = Inr k)")
  case False
  then have "s' = s \<and> (\<exists>e. r = Inl e)" using assms by (auto simp: replaceSession_def split: sum.splits if_splits)
  then show ?thesis by auto
next
  case True
  then obtain k :: key_info and a u where k: "validateSessionKey C ops now s key = Inr k" "opens C ops now s key a u"
      "ki_userId k = as_userId a" "ki_sessionId k = as_sessionId a"
    unfolding validate_Inr by fastforce
  let ?a = "a\<lparr>as_nextSessionId := Some i, as_revokeTimeMs := Some now\<rparr>"
  let ?b = "\<lparr>as_userId = as_userId a, as_sessionId = i, as_secretHash = hashPasswordWithSalt C secret i,
      as_grantedTimeMs = now, as_expireTimeMs = now + SESSION_LIFETIME_MS, as_revokeTimeMs = None,
      as_requestId = None, as_previousSessionId = Some (as_sessionId a), as_nextSessionId = None, as_ipAddress = the ip\<rparr>"
  obtain s1 where s1: "st_saveSession ops s ?a = Some s1"
      "session_at ops s1 = (session_at ops s)((as_userId a, as_sessionId a) := Some (Some ?a))"
      "st_findUser ops s1 = st_findUser ops s"
    using save_session[of s ?a] by auto
  obtain s2 where s2: "st_saveSession ops s1 ?b = Some s2"
      "session_at ops s2 = (session_at ops s1)((as_userId a, i) := Some (Some ?b))" "st_findUser ops s2 = st_findUser ops s1"
    using save_session[of s1 ?b] by auto
  have found: "st_findSession ops s (as_userId a) (as_sessionId a) = Some (Some a)"
    using k(2) by (simp add: opens_def session_at_def)
  have "r = Inr \<lparr>si_userId = as_userId a, si_sessionKey = formatV1SessionKey (enc64 C) (as_userId a) i secret (as_expireTimeMs ?b),
             si_expireTimeMs = as_expireTimeMs ?b\<rparr>" "s' = s2"
    using assms True k found s1(1) s2(1) by (auto simp: replaceSession_def Let_def)
  with k(2) s1 s2 show ?thesis by (intro conjI disjI2 exI[of _ a] exI[of _ ?b] exI[of _ u]) simp_all
qed

end

text \<open>What matters of the users is kept, and nobody disappears.\<close>

definition same_rights :: "auth_user \<Rightarrow> auth_user \<Rightarrow> bool" where
  "same_rights x y \<longleftrightarrow> au_allSessionRevokeTimeMs y = au_allSessionRevokeTimeMs x \<and> au_banTimeMs y = au_banTimeMs x"

definition keeps_users :: "'s auth_ops \<Rightarrow> 's \<Rightarrow> 's \<Rightarrow> bool" where
  "keeps_users ops s s' \<longleftrightarrow> (\<forall>u x. st_findUser ops s u = Some (Some x) \<longrightarrow>
     (\<exists>y. st_findUser ops s' u = Some (Some y) \<and> same_rights x y))"

lemma keeps_users_same: "st_findUser ops s' = st_findUser ops s \<Longrightarrow> keeps_users ops s s'"
  by (simp add: keeps_users_def same_rights_def)

lemma keeps_users_trans: "keeps_users ops s s1 \<Longrightarrow> keeps_users ops s1 s2 \<Longrightarrow> keeps_users ops s s2"
  unfolding keeps_users_def same_rights_def by metis

lemma keeps_users_changed:
  "st_findUser ops s' = changed_at (st_findUser ops s) u f \<Longrightarrow> (\<And>x. same_rights x (f x)) \<Longrightarrow> keeps_users ops s s'"
  by (auto simp: keeps_users_def changed_at_def same_rights_def)

context auth_store
begin

lemma finish_login_effect:
  "\<exists>s'. finish_login ops s q = (Inr \<lparr>li_userId = lr_userId q, li_requestId = lr_requestId q, li_address = lr_address q,
      li_addressType = lr_addressType q, li_expireTimeMs = lr_expireTimeMs q\<rparr>, s') \<and>
    session_at ops s' = session_at ops s \<and>
    request_at ops s' = (request_at ops s)((lr_userId q, lr_requestId q) := Some (Some q)) \<and>
    st_findUser ops s' = changed_at (st_findUser ops s) (lr_userId q) (\<lambda>x. x\<lparr>au_currentLoginRequestId := Some (lr_requestId q)\<rparr>)"
proof -
  obtain s1 where s1: "st_saveLoginRequest ops s q = Some s1" "session_at ops s1 = session_at ops s"
      "request_at ops s1 = (request_at ops s)((lr_userId q, lr_requestId q) := Some (Some q))" "st_findUser ops s1 = st_findUser ops s"
    using save_request[of s q] by auto
  obtain s2 where "st_setCurrentLoginRequest ops s1 (lr_userId q) (lr_requestId q) = Some s2"
      "st_findUser ops s2 = changed_at (st_findUser ops s1) (lr_userId q) (\<lambda>x. x\<lparr>au_currentLoginRequestId := Some (lr_requestId q)\<rparr>)"
      "session_at ops s2 = session_at ops s1" "request_at ops s2 = request_at ops s1"
    using save_current[of s1 "lr_userId q" "lr_requestId q"] by auto
  with s1 show ?thesis by (simp add: finish_login_def)
qed

lemma finish_login_keeps: "finish_login ops s q = (r, s') \<Longrightarrow> session_at ops s' = session_at ops s \<and> keeps_users ops s s'"
  using finish_login_effect[of s q] by (auto intro!: keeps_users_changed simp: same_rights_def)

lemma save_login_keeps:
  assumes "save_login ops s new user q = (r, s')"
  shows "session_at ops s' = session_at ops s \<and> keeps_users ops s s'"
proof (cases new)
  case False
  with assms show ?thesis by (auto simp: save_login_def dest: finish_login_keeps)
next
  case True
  obtain ok s1 where s1: "st_saveNewUser ops s user = Some (ok, s1)" "session_at ops s1 = session_at ops s"
      "\<not> ok \<longrightarrow> s1 = s" "ok \<longrightarrow> st_findUser ops s1 = (if st_findUser ops s (au_id user) = Some None
         then (st_findUser ops s)(au_id user := Some (Some user)) else st_findUser ops s)"
    using save_new_user[of s user] by auto
  have keep: "keeps_users ops s s1" using s1(3,4) by (cases ok) (auto simp: keeps_users_def same_rights_def)
  have "session_at ops s' = session_at ops s1 \<and> keeps_users ops s1 s'"
    using assms True s1(1) find_address[of s1 "lr_address q" "lr_addressType q"]
    by (cases ok) (auto simp: save_login_def keeps_users_same dest: finish_login_keeps split: option.splits)
  with s1(2) keep show ?thesis by (auto intro: keeps_users_trans)
qed

lemma requestLogin_keeps:
  assumes "requestLogin C re mops ops now uid rid code m s args = (r, m', s')"
  shows "session_at ops s' = session_at ops s \<and> keeps_users ops s s'"
proof -
  have send: "session_at ops s' = session_at ops s \<and> keeps_users ops s s'"
    if "send_login C mops ops now rid code m s args new user = (r, m', s')" for new user
    using that by (auto simp: send_login_def Let_def keeps_users_same dest: save_login_keeps split: if_splits option.splits sum.splits prod.splits)
  show ?thesis
    using assms by (auto simp: requestLogin_def Let_def keeps_users_same dest: send split: option.splits if_splits bool.splits)
qed

lemma grant_session_effect:
  assumes "request_at ops s (lr_userId q, lr_requestId q) \<noteq> Some None"
  shows "\<exists>a s'. grant_session C ops now i secret s q ip =
      (Inr \<lparr>si_userId = lr_userId q, si_sessionKey = formatV1SessionKey (enc64 C) (lr_userId q) i secret (as_expireTimeMs a),
            si_expireTimeMs = as_expireTimeMs a\<rparr>, s') \<and>
    as_userId a = lr_userId q \<and> as_sessionId a = i \<and> as_grantedTimeMs a = now \<and> as_expireTimeMs a = now + SESSION_LIFETIME_MS \<and>
    as_revokeTimeMs a = None \<and> as_secretHash a = hashHighEntropyPasswordWithSalt C secret i \<and>
    session_at ops s' = (session_at ops s)((lr_userId q, i) := Some (Some a)) \<and>
    request_at ops s' = changed_at (request_at ops s) (lr_userId q, lr_requestId q) (\<lambda>q. q\<lparr>lr_completedTimeMs := Some now\<rparr>) \<and>
    st_findUser ops s' = st_findUser ops s"
proof -
  let ?a = "\<lparr>as_userId = lr_userId q, as_sessionId = i, as_secretHash = hashHighEntropyPasswordWithSalt C secret i,
         as_grantedTimeMs = now, as_expireTimeMs = now + SESSION_LIFETIME_MS, as_revokeTimeMs = None,
         as_requestId = Some (lr_requestId q), as_previousSessionId = None, as_nextSessionId = None, as_ipAddress = ip\<rparr>"
  obtain s1 where s1: "st_markLoginRequestComplete ops s (lr_userId q) (lr_requestId q) now = Some s1"
      "request_at ops s1 = changed_at (request_at ops s) (lr_userId q, lr_requestId q) (\<lambda>q. q\<lparr>lr_completedTimeMs := Some now\<rparr>)"
      "session_at ops s1 = session_at ops s" "st_findUser ops s1 = st_findUser ops s"
    using save_complete[OF assms, of now] by auto
  obtain s2 where "st_saveSession ops s1 ?a = Some s2" "session_at ops s2 = (session_at ops s1)((lr_userId q, i) := Some (Some ?a))"
      "st_findUser ops s2 = st_findUser ops s1" "request_at ops s2 = request_at ops s1"
    using save_session[of s1 ?a] by auto
  with s1 show ?thesis by (intro exI[of _ ?a] exI[of _ s2]) (simp add: grant_session_def)
qed

text \<open>Completing a login: what can happen to the request, and the new session.\<close>

lemma completeLogin_effect:
  assumes "completeLogin C ops now i secret s args = (r, s')"
  shows "st_findUser ops s' = st_findUser ops s \<and>
    (s' = s \<and> r \<noteq> Inl InvalidCode \<and> \<not> (\<exists>x. r = Inr x) \<or>
     (\<exists>q k. k = (the (ca_userId args), the (ca_requestId args)) \<and> bad_complete_args args = None \<and>
        request_at ops s k = Some (Some q) \<and> open_request now (ca_ipAddress args) q \<and>
        (r = Inl InvalidCode \<and> session_at ops s' = session_at ops s \<and>
           request_at ops s' = changed_at (request_at ops s) k (\<lambda>q. q\<lparr>lr_attemptCount := lr_attemptCount q + 1\<rparr>) \<or>
         (\<exists>a u. verify C (the (ca_code args)) (lr_requestId q) (lr_secretHash q) = Some True \<and>
           st_findUser ops s (fst k) = Some (Some u) \<and> au_currentLoginRequestId u = Some (snd k) \<and>
           as_userId a = fst k \<and> as_sessionId a = i \<and> as_grantedTimeMs a = now \<and> as_expireTimeMs a = now + SESSION_LIFETIME_MS \<and>
           as_revokeTimeMs a = None \<and> as_secretHash a = hashHighEntropyPasswordWithSalt C secret i \<and>
           r = Inr \<lparr>si_userId = fst k, si_sessionKey = formatV1SessionKey (enc64 C) (fst k) i secret (as_expireTimeMs a),
                si_expireTimeMs = as_expireTimeMs a\<rparr> \<and>
           session_at ops s' = (session_at ops s)((fst k, i) := Some (Some a)) \<and>
           request_at ops s' = changed_at (request_at ops s) k (\<lambda>q. q\<lparr>lr_completedTimeMs := Some now\<rparr>)))))"
proof (cases "bad_complete_args args")
  case (Some e)
  with assms show ?thesis by (auto simp: completeLogin_def bad_complete_args_def split: if_splits)
next
  case None
  let ?k = "(the (ca_userId args), the (ca_requestId args))"
  consider "request_at ops s ?k = Some None" | q where "request_at ops s ?k = Some (Some q)"
    using find_request[of s ?k] by force
  then show ?thesis
  proof cases
    case 1
    with assms None show ?thesis by (auto simp: completeLogin_def request_at_def)
  next
    case 2
    have ids: "lr_userId q = fst ?k" "lr_requestId q = snd ?k" using request_ids[OF 2] by auto
    have found: "st_findLoginRequest ops s (the (ca_userId args)) (the (ca_requestId args)) = Some (Some q)"
      using 2 by (simp add: request_at_def)
    consider "\<not> open_request now (ca_ipAddress args) q"
      | "open_request now (ca_ipAddress args) q" "verify C (the (ca_code args)) (lr_requestId q) (lr_secretHash q) \<noteq> Some True"
      | "open_request now (ca_ipAddress args) q" "verify C (the (ca_code args)) (lr_requestId q) (lr_secretHash q) = Some True"
      by blast
    then show ?thesis
    proof cases
      case 1
      with assms None found show ?thesis by (auto simp: completeLogin_def)
    next
      case wrong: 2
      obtain s1 where s1: "st_incrementLoginRequestAttemptCount ops s (lr_userId q) (lr_requestId q) = Some s1"
          "request_at ops s1 = changed_at (request_at ops s) ?k (\<lambda>q. q\<lparr>lr_attemptCount := lr_attemptCount q + 1\<rparr>)"
          "session_at ops s1 = session_at ops s" "st_findUser ops s1 = st_findUser ops s"
        using save_attempt[of s "lr_userId q" "lr_requestId q"] ids by auto
      have "r = Inl InvalidCode" "s' = s1" using assms None found wrong s1(1) by (auto simp: completeLogin_def)
      with wrong(1) 2 None s1 show ?thesis by blast
    next
      case right: 3
      consider "st_findUser ops s (fst ?k) = Some None"
        | u where "st_findUser ops s (fst ?k) = Some (Some u)" "au_currentLoginRequestId u \<noteq> Some (lr_requestId q)"
        | u where "st_findUser ops s (fst ?k) = Some (Some u)" "au_currentLoginRequestId u = Some (lr_requestId q)"
        using find_user[of s "fst ?k"] by force
      then show ?thesis
      proof cases
        case 1
        with assms None found right ids show ?thesis by (auto simp: completeLogin_def)
      next
        case (2 u)
        with assms None found right ids show ?thesis by (auto simp: completeLogin_def)
      next
        case u: (3 u)
        have "(r, s') = grant_session C ops now i secret s q (the (ca_ipAddress args))"
          using assms None found right u ids by (simp add: completeLogin_def)
        with grant_session_effect[of s q C now i secret "the (ca_ipAddress args)"] right 2 None u ids show ?thesis
          by (auto intro!: disjI2)
      qed
    qed
  qed
qed

end

end
