(* ===== verification/SubscriptionSpec.thy ===== *)
theory SubscriptionSpec
  imports Subscriptions AuthSessions
begin

text \<open>
  What subscriptions rely on in a store of users, as a locale that is interpreted on the store in memory, and
  what follows for every such store: what a series of webhooks leaves of a user, and what a link costs.
\<close>

section \<open>The contract of a store\<close>

text \<open>\<open>unique\<close> says that no two users have one id.\<close>

locale customer_store = session_store ops for ops :: "'s auth_ops" +
  fixes unique :: "'s \<Rightarrow> bool"
  assumes find_customer: "\<exists>x. st_findUserByStripeCustomerId ops s c = Some x"
    and customer_user: "unique s \<Longrightarrow> st_findUserByStripeCustomerId ops s c = Some (Some u) \<Longrightarrow>
      au_stripeCustomerId u = Some c \<and> st_findUser ops s (au_id u) = Some (Some u)"
    and customer_found: "st_findUser ops s i = Some (Some u) \<Longrightarrow> au_stripeCustomerId u = Some c \<Longrightarrow>
      st_findUserByStripeCustomerId ops s c \<noteq> Some None"
    and unique_saved: "unique s \<Longrightarrow> st_saveUser ops s x = Some s' \<Longrightarrow> unique s'"

definition distinct_users :: "memory_auth \<Rightarrow> bool" where
  "distinct_users s \<longleftrightarrow> distinct (map au_id (ma_users s))"

lemma set_replace: "set (map f (replace_or_push (\<lambda>x. f x = f y) y xs)) = insert (f y) (f ` set xs)"
  by (induction xs) auto

lemma distinct_replace: "distinct (map f xs) \<Longrightarrow> distinct (map f (replace_or_push (\<lambda>x. f x = f y) y xs))"
proof (induction xs)
  case (Cons x xs)
  then show ?case using set_replace[of f y xs] by auto
qed simp

interpretation mc: customer_store memory_auth_ops distinct_users
proof unfold_locales
  fix s s' :: memory_auth and c u i x
  show "\<exists>y. st_findUserByStripeCustomerId memory_auth_ops s c = Some y" by simp
  show "au_stripeCustomerId u = Some c \<and> st_findUser memory_auth_ops s (au_id u) = Some (Some u)"
    if "distinct_users s" "st_findUserByStripeCustomerId memory_auth_ops s c = Some (Some u)"
    using that by (auto simp: ma_findUserByStripeCustomerId_def distinct_users_def dest!: find_property intro: find_distinct)
  show "st_findUserByStripeCustomerId memory_auth_ops s c \<noteq> Some None"
    if "st_findUser memory_auth_ops s i = Some (Some u)" "au_stripeCustomerId u = Some c"
    using that by (auto simp: ma_findUserByStripeCustomerId_def find_None_iff dest!: find_property)
  show "distinct_users s'" if "distinct_users s" "st_saveUser memory_auth_ops s x = Some s'"
    using that by (auto simp: distinct_users_def ma_saveUser_def distinct_replace)
qed

section \<open>Keys do not depend on subscriptions\<close>

text \<open>A user is replaced by one with the same rights.\<close>

definition replaces_user :: "'s auth_ops \<Rightarrow> 's \<Rightarrow> 's \<Rightarrow> auth_user \<Rightarrow> auth_user \<Rightarrow> bool" where
  "replaces_user ops s s' u v \<longleftrightarrow> st_findUser ops s (au_id u) = Some (Some u) \<and> same_rights u v \<and>
     st_findUser ops s' = (st_findUser ops s)(au_id u := Some (Some v)) \<and> session_at ops s' = session_at ops s \<and>
     request_at ops s' = request_at ops s"

lemma check_user_same_rights:
  "same_rights u v \<Longrightarrow> au_banReason v = au_banReason u \<Longrightarrow> check_user now a v = check_user now a u"
  by (simp add: check_user_def same_rights_def cong: js.case_cong)

lemma keys_unaffected:
  assumes "replaces_user ops s s' u v" and "au_banReason v = au_banReason u"
  shows "validateSessionKey C ops now s' key = validateSessionKey C ops now s key"
proof -
  have "session_at ops s' = session_at ops s" using assms(1) by (simp add: replaces_user_def)
  then have sess: "st_findSession ops s' i j = st_findSession ops s i j" for i j
    by (auto simp: session_at_def dest: fun_cong[of _ _ "(i, j)"])
  have user: "(case st_findUser ops s' i of None \<Rightarrow> Inl AuthServerError | Some None \<Rightarrow> Inl InvalidKey | Some (Some w) \<Rightarrow> check_user now a w) =
      (case st_findUser ops s i of None \<Rightarrow> Inl AuthServerError | Some None \<Rightarrow> Inl InvalidKey | Some (Some w) \<Rightarrow> check_user now a w)" for a i
    using assms by (auto simp: replaces_user_def check_user_same_rights)
  show ?thesis unfolding validateSessionKey_def sess user by (rule refl)
qed

lemma with_subscription_simps [simp]:
  "au_id (with_subscription u a i) = au_id u" "au_stripeCustomerId (with_subscription u a i) = au_stripeCustomerId u"
  "same_rights u (with_subscription u a i)" "au_banReason (with_subscription u a i) = au_banReason u"
  "au_subscriptionStatus (with_subscription u a i) = Some a" "au_subscriptionId (with_subscription u a i) = Some i"
  "with_subscription (with_subscription u a i) b j = with_subscription u b j"
  by (simp_all add: with_subscription_def same_rights_def)

lemma with_subscription_same:
  "au_subscriptionStatus u = Some a \<Longrightarrow> au_subscriptionId u = Some i \<Longrightarrow> with_subscription u a i = u"
  by (simp add: with_subscription_def)

section \<open>A series of webhooks\<close>

text \<open>What a request of the webhook reports of a customer: the status of the subscription and the plan.\<close>

definition reported :: "'x stripe_ops \<Rightarrow> subscription_config \<Rightarrow> string option \<times> string option \<Rightarrow> (string \<times> string \<times> string) option" where
  "reported X config q =
     (if \<not> given (fst q) \<or> \<not> given (snd q) then None
      else do { event \<leftarrow> sx_constructWebhookEvent X (the (fst q)) (the (snd q)) (sc_webhookSecret config);
                w \<leftarrow> (if subscription_event (ev_type event) then ev_object event else None);
                p \<leftarrow> plan_of_items (sc_subscriptions config) (ws_items w);
                Some (ws_customer w, ws_status w, sub_id p) })"

definition reported_of :: "'x stripe_ops \<Rightarrow> subscription_config \<Rightarrow> string \<Rightarrow> (string option \<times> string option) list \<Rightarrow> (string \<times> string) list" where
  "reported_of X config c qs = map snd (filter (\<lambda>r. fst r = c) (List.map_filter (reported X config) qs))"

definition handle_all ::
    "'s auth_ops \<Rightarrow> 'x stripe_ops \<Rightarrow> subscription_config \<Rightarrow> 's \<Rightarrow> (string option \<times> string option) list \<Rightarrow> 's" where
  "handle_all ops X config = foldl (\<lambda>s (body, signature). snd (handleStripeWebhook ops (Some X) config s body signature))"

lemma reported_of_simps [simp]:
  "reported_of X config c [] = []"
  "reported_of X config c (q # qs) =
     (case reported X config q of Some (d, r) \<Rightarrow> if d = c then r # reported_of X config c qs else reported_of X config c qs
      | None \<Rightarrow> reported_of X config c qs)"
  by (auto simp: reported_of_def split: option.splits)

lemma handle_all_simps [simp]:
  "handle_all ops X config s [] = s"
  "handle_all ops X config s ((b, g) # qs) = handle_all ops X config (snd (handleStripeWebhook ops (Some X) config s b g)) qs"
  by (simp_all add: handle_all_def)

lemma webhook_not_reported:
  "reported X config (b, g) = None \<Longrightarrow> snd (handleStripeWebhook ops (Some X) config s b g) = s"
  by (auto simp: reported_def handleStripeWebhook_def update_subscription_def split: option.splits if_splits)

text \<open>No two users of the store are the same customer.\<close>

definition own_customer :: "'s auth_ops \<Rightarrow> 's \<Rightarrow> auth_user \<Rightarrow> string \<Rightarrow> bool" where
  "own_customer ops s u c \<longleftrightarrow> st_findUser ops s (au_id u) = Some (Some u) \<and> au_stripeCustomerId u = Some c \<and>
     (\<forall>j v. st_findUser ops s j = Some (Some v) \<longrightarrow> au_stripeCustomerId v = Some c \<longrightarrow> j = au_id u)"

lemma own_customer_unique:
  "own_customer ops s u c \<Longrightarrow> st_findUser ops s (au_id v) = Some (Some v) \<Longrightarrow> au_stripeCustomerId v = Some c \<Longrightarrow> v = u"
  unfolding own_customer_def by (metis option.inject)

text \<open>The customer id of a user, and Stripe and the store once the user has it: it was there, or it is new and saved.\<close>

definition customer_of ::
    "'s auth_ops \<Rightarrow> 'x stripe_ops \<Rightarrow> 'x \<Rightarrow> 's \<Rightarrow> auth_user \<Rightarrow> string \<Rightarrow> 'x \<Rightarrow> 's \<Rightarrow> bool" where
  "customer_of ops X x s u c x1 s' \<longleftrightarrow>
     given (au_stripeCustomerId u) \<and> au_stripeCustomerId u = Some c \<and> x1 = x \<and> s' = s \<or>
     \<not> given (au_stripeCustomerId u) \<and>
       sx_createCustomer X x \<lparr>cr_name = au_name u, cr_email = au_email u, cr_phone = au_phoneNumber u\<rparr> = (Some c, x1) \<and>
       st_saveUser ops s (u\<lparr>au_stripeCustomerId := Some c\<rparr>) = Some s'"

context customer_store
begin

lemma save_user_replaces:
  assumes "st_findUser ops s (au_id u) = Some (Some u)" and "same_rights u v" and "au_id v = au_id u"
  obtains s' where "st_saveUser ops s v = Some s'" and "replaces_user ops s s' u v"
  using save_user[of s v] assms by (auto simp: replaces_user_def)

text \<open>A webhook changes one user at most, the customer, to what it reports.\<close>

lemma webhook_reported:
  assumes unique: "unique s" and "reported X config (b, g) = Some (c, a, i)"
    and u: "st_findUserByStripeCustomerId ops s c = Some (Some u)"
    and run: "handleStripeWebhook ops (Some X) config s b g = (r, s')"
  shows "r = Inr () \<and> unique s' \<and> replaces_user ops s s' u (with_subscription u a i)"
proof -
  obtain w p where w: "ws_customer w = c" "ws_status w = a" "sub_id p = i"
      "plan_of_items (sc_subscriptions config) (ws_items w) = Some p"
      and upd: "handleStripeWebhook ops (Some X) config s b g = update_subscription ops config s w"
    using assms(2) by (auto simp: reported_def handleStripeWebhook_def split: if_splits bind_splits)
  have found: "st_findUser ops s (au_id u) = Some (Some u)" using customer_user[OF unique u] by simp
  obtain s1 where s1: "st_saveUser ops s (with_subscription u a i) = Some s1" "replaces_user ops s s1 u (with_subscription u a i)"
    using save_user_replaces[OF found, of "with_subscription u a i"] by auto
  show ?thesis
  proof (cases "au_subscriptionStatus u \<noteq> Some a \<or> au_subscriptionId u \<noteq> Some i")
    case True
    then show ?thesis using run s1 unique_saved[OF unique s1(1)] by (auto simp: upd update_subscription_def w u)
  next
    case False
    then have "with_subscription u a i = u" by (simp add: with_subscription_same)
    with False show ?thesis using run unique found
      by (auto simp: upd update_subscription_def w u replaces_user_def same_rights_def fun_upd_idem)
  qed
qed

lemma webhook_no_customer:
  assumes "reported X config (b, g) = Some (c, a, i)" and "st_findUserByStripeCustomerId ops s c = Some None"
  shows "handleStripeWebhook ops (Some X) config s b g = (Inr (), s)"
  using assms by (auto simp: reported_def handleStripeWebhook_def update_subscription_def split: if_splits bind_splits)

text \<open>All that holds of the store after one webhook.\<close>

lemma webhook_step:
  assumes unique: "unique s" and own: "own_customer ops s u c"
    and s': "s' = snd (handleStripeWebhook ops (Some X) config s b g)"
  shows "unique s' \<and> session_at ops s' = session_at ops s \<and> request_at ops s' = request_at ops s \<and>
    (\<forall>now key. validateSessionKey C ops now s' key = validateSessionKey C ops now s key) \<and>
    own_customer ops s' (case reported X config (b, g) of
       Some (d, a, i) \<Rightarrow> if d = c then with_subscription u a i else u | None \<Rightarrow> u) c"
proof (cases "reported X config (b, g)")
  case None
  then show ?thesis using s' webhook_not_reported[OF None, of ops s] unique own by simp
next
  case (Some q)
  then obtain d a i where q: "reported X config (b, g) = Some (d, a, i)" by (cases q) auto
  show ?thesis
  proof (cases "st_findUserByStripeCustomerId ops s d")
    case None
    then show ?thesis using find_customer[of s d] by simp
  next
    case (Some v)
    show ?thesis
    proof (cases v)
      case None
      with Some have "d \<noteq> c" using own customer_found[of s "au_id u" u c] by (auto simp: own_customer_def)
      then show ?thesis using s' webhook_no_customer[OF q] Some None unique own q by simp
    next
      case (Some v')
      with \<open>_ = Some v\<close> have v': "st_findUserByStripeCustomerId ops s d = Some (Some v')" by simp
      from webhook_reported[OF unique q v'] s' have rep: "unique s'" "replaces_user ops s s' v' (with_subscription v' a i)"
        by (metis prod.collapse)+
      have cust: "au_stripeCustomerId v' = Some d" "st_findUser ops s (au_id v') = Some (Some v')"
        using customer_user[OF unique v'] by auto
      have keys: "validateSessionKey C ops now s' key = validateSessionKey C ops now s key" for now key
        by (rule keys_unaffected[OF rep(2)]) simp
      have frame: "session_at ops s' = session_at ops s" "request_at ops s' = request_at ops s"
        "st_findUser ops s' = (st_findUser ops s)(au_id v' := Some (Some (with_subscription v' a i)))"
        using rep(2) by (simp_all add: replaces_user_def)
      have "own_customer ops s' (if d = c then with_subscription u a i else u) c"
      proof (cases "d = c")
        case True
        then have "v' = u" using own_customer_unique[OF own cust(2)] cust(1) by simp
        with own True cust(1) show ?thesis unfolding own_customer_def frame by (simp add: fun_upd_def)
      next
        case False
        then have "au_id v' \<noteq> au_id u" using own cust unfolding own_customer_def by (metis option.inject)
        with own False cust(1) show ?thesis unfolding own_customer_def frame by (simp add: fun_upd_def)
      qed
      then show ?thesis using rep(1) frame(1,2) keys by (simp add: q)
    qed
  qed
qed

lemma webhooks_leave:
  assumes "unique s" and "own_customer ops s u c"
  shows "session_at ops (handle_all ops X config s qs) = session_at ops s \<and>
    (\<forall>now key. validateSessionKey C ops now (handle_all ops X config s qs) key = validateSessionKey C ops now s key) \<and>
    own_customer ops (handle_all ops X config s qs)
      (if reported_of X config c qs = [] then u
       else with_subscription u (fst (last (reported_of X config c qs))) (snd (last (reported_of X config c qs)))) c"
  using assms
proof (induction qs arbitrary: s u)
  case (Cons q qs)
  obtain b g where q: "q = (b, g)" by fastforce
  define s1 where "s1 = snd (handleStripeWebhook ops (Some X) config s b g)"
  from webhook_step[OF Cons.prems s1_def] have step: "unique s1" "session_at ops s1 = session_at ops s"
      "\<And>now key. validateSessionKey C ops now s1 key = validateSessionKey C ops now s key"
      "own_customer ops s1 (case reported X config (b, g) of
         Some (d, a, i) \<Rightarrow> if d = c then with_subscription u a i else u | None \<Rightarrow> u) c" by blast+
  from Cons.IH[OF step(1,4)] step(2,3) show ?case
    by (cases "reported X config (b, g)") (auto simp: q s1_def split: if_splits)
qed simp

section \<open>Links\<close>

lemma user_for_key_Inr:
  "user_for_key C ops now s user key = Inr u \<longleftrightarrow>
     (\<exists>k. validateSessionKey C ops now s key = Inr k \<and> user = Some (ki_userId k) \<and> ki_userId k = au_id u \<and>
        st_findUser ops s (au_id u) = Some (Some u))"
proof (cases "key_for C ops now s user key")
  case (Inl e)
  then show ?thesis by (auto simp: user_for_key_def key_for_def split: sum.splits if_splits)
next
  case (Inr k)
  then have k: "validateSessionKey C ops now s key = Inr k" "user = Some (ki_userId k)" by (auto simp: key_for_Inr)
  obtain x where x: "st_findUser ops s (ki_userId k) = Some x" using find_user by blast
  show ?thesis
  proof (cases x)
    case None
    with x k Inr show ?thesis by (auto simp: user_for_key_def)
  next
    case (Some v)
    with x user_id have "ki_userId k = au_id v" by metis
    with x Some have found: "st_findUser ops s (au_id v) = Some (Some v)" by simp
    have "user_for_key C ops now s user key = Inr u \<longleftrightarrow> v = u" using x Some Inr by (simp add: user_for_key_def)
    moreover have "v = u \<longleftrightarrow> au_id v = au_id u \<and> st_findUser ops s (au_id u) = Some (Some u)" using found by auto
    ultimately show ?thesis using k \<open>ki_userId k = au_id v\<close> by simp
  qed
qed

lemma link_Inr: "map_prod link id p = (Inr url, x) \<longleftrightarrow> p = (Some url, x)"
  by (cases p) (auto simp: link_def split: option.splits)

text \<open>A link is only given to the user whose key it is, and is one of a session for that user as a customer.\<close>

lemma checkout_success:
  assumes "createCheckoutSession X config x i expected u customer = (Inr url, x')"
  shows "\<exists>p d f. p \<in> set (sc_subscriptions config) \<and> sx_getProductAndPriceInfo X x (plan_product p) = Some (Some d) \<and>
    (\<forall>e. expected = Some e \<longrightarrow> is_expected e (sd_defaultPrice d)) \<and>
    f = checkout_fields config customer (sp_id (sd_defaultPrice d)) (au_id u) \<and> sx_createCheckoutSession X x f = (Some url, x')"
proof -
  obtain p where p: "plan_for config i = Some p" using assms by (auto simp: createCheckoutSession_def split: option.splits)
  then have "p \<in> set (sc_subscriptions config)"
    by (auto simp: plan_for_def dest!: find_property split: option.splits if_splits list.splits)
  moreover obtain d where "sx_getProductAndPriceInfo X x (plan_product p) = Some (Some d)"
      "\<forall>e. expected = Some e \<longrightarrow> is_expected e (sd_defaultPrice d)"
      "sx_createCheckoutSession X x (checkout_fields config customer (sp_id (sd_defaultPrice d)) (au_id u)) = (Some url, x')"
    using assms p by (auto simp: createCheckoutSession_def link_Inr split: option.splits if_splits)
  ultimately show ?thesis by blast
qed

lemma createCheckoutSession_customer [simp]:
  "createCheckoutSession X config x i e (u\<lparr>au_stripeCustomerId := z\<rparr>) c = createCheckoutSession X config x i e u c"
  by (simp add: createCheckoutSession_def split: option.splits)

lemma link_success:
  assumes "createManageSubscriptionLink C ops (Some X) config now x s q = (Inr url, x', s')"
  shows "\<exists>u c x1. user_for_key C ops now s (lk_userId q) (lk_sessionKey q) = Inr u \<and> customer_of ops X x s u c x1 s' \<and>
    ((\<exists>as a. sx_listActiveSubscriptionsForCustomer X x1 c = Some as \<and> a \<in> set as \<and> isManagable config a \<and>
       sx_createPortalSession X x1 (portal_fields config c) = (Some url, x')) \<or>
     createCheckoutSession X config x1 (projr (lk_subscriptionId q)) (projr (lk_expectedPrice q)) u c = (Inr url, x'))"
proof -
  obtain u where u: "user_for_key C ops now s (lk_userId q) (lk_sessionKey q) = Inr u"
    using assms by (auto simp: createManageSubscriptionLink_def split: option.splits sum.splits)
  show ?thesis
  proof (cases "given (au_stripeCustomerId u)")
    case True
    then obtain c where c: "au_stripeCustomerId u = Some c" by (auto simp: given_def)
    with assms u True have run: "customer_link X config x (projr (lk_subscriptionId q)) (projr (lk_expectedPrice q)) u c = (Inr url, x')" "s' = s"
      by (auto simp: createManageSubscriptionLink_def Let_def split: option.splits prod.splits)
    have "customer_of ops X x s u c x s'" using True c run(2) by (simp add: customer_of_def)
    with run(1) u show ?thesis by (fastforce simp: customer_link_def link_Inr split: option.splits if_splits)
  next
    case False
    with assms u have run: "first_link ops X config x s (projr (lk_subscriptionId q)) (projr (lk_expectedPrice q)) u = (Inr url, x', s')"
      by (auto simp: createManageSubscriptionLink_def Let_def split: option.splits)
    then obtain c x1 where "customer_of ops X x s u c x1 s'"
        "createCheckoutSession X config x1 (projr (lk_subscriptionId q)) (projr (lk_expectedPrice q)) u c = (Inr url, x')"
      using False by (auto simp: first_link_def Let_def customer_of_def split: option.splits if_splits prod.splits)
    with u show ?thesis by blast
  qed
qed

text \<open>A user who is a customer is not made one again: the operation of Stripe that would do it does not matter.\<close>

lemma customer_stays:
  assumes "st_findUser ops s i = Some (Some u)" and "given (au_stripeCustomerId u)" and "lk_userId q = Some i"
  shows "createManageSubscriptionLink C ops (Some (X\<lparr>sx_createCustomer := f\<rparr>)) config now x s q =
    createManageSubscriptionLink C ops (Some X) config now x s q"
proof (cases "user_for_key C ops now s (lk_userId q) (lk_sessionKey q)")
  case (Inl e)
  then show ?thesis by (simp add: createManageSubscriptionLink_def split: option.splits)
next
  case (Inr v)
  then have "v = u" using assms(1,3) by (auto simp: user_for_key_def key_for_def split: sum.splits option.splits if_splits)
  have "createCheckoutSession (X\<lparr>sx_createCustomer := f\<rparr>) = createCheckoutSession X"
    by (simp add: fun_eq_iff createCheckoutSession_def split: option.splits)
  then have "customer_link (X\<lparr>sx_createCustomer := f\<rparr>) = customer_link X"
    by (simp add: fun_eq_iff customer_link_def split: option.splits)
  then show ?thesis using Inr \<open>v = u\<close> assms(2) by (simp add: createManageSubscriptionLink_def Let_def split: option.splits)
qed

lemma first_link_saves:
  assumes "user_for_key C ops now s (lk_userId q) (lk_sessionKey q) = Inr u" and "bad_link_args q = None"
    and "\<not> given (au_stripeCustomerId u)" and "sc_subscriptions config \<noteq> []"
    and "sx_createCustomer X x \<lparr>cr_name = au_name u, cr_email = au_email u, cr_phone = au_phoneNumber u\<rparr> = (Some c, x1)"
    and "createManageSubscriptionLink C ops (Some X) config now x s q = (r, x', s')"
  shows "replaces_user ops s s' u (u\<lparr>au_stripeCustomerId := Some c\<rparr>)"
proof -
  have found: "st_findUser ops s (au_id u) = Some (Some u)" using assms(1) by (auto simp: user_for_key_Inr)
  obtain s1 where "st_saveUser ops s (u\<lparr>au_stripeCustomerId := Some c\<rparr>) = Some s1"
      "replaces_user ops s s1 u (u\<lparr>au_stripeCustomerId := Some c\<rparr>)"
    using save_user_replaces[OF found, of "u\<lparr>au_stripeCustomerId := Some c\<rparr>"] by (auto simp: same_rights_def)
  with assms show ?thesis
    by (auto simp: createManageSubscriptionLink_def first_link_def Let_def split: prod.splits)
qed

end

section \<open>Offers\<close>

text \<open>The plans that are on offer are those whose products Stripe knows, in the order of the configuration.\<close>

lemma offers_known:
  "offers X x ps = Some os \<Longrightarrow>
    map ps_id os = map sub_id (filter (\<lambda>p. sx_getProductAndPriceInfo X x (plan_product p) \<noteq> Some None) ps)"
  by (induction ps arbitrary: os) (auto simp: offer_def split: bind_splits option.splits)

end
