(* ===== verification/AuthRuns.thy ===== *)
theory AuthRuns
  imports AuthSessions
begin

text \<open>
  Runs of the operations of \<open>AuthController\<close> at times that do not go back, over any store that keeps the
  contract: sessions that were revoked stay revoked, and a login request is tried only a few times.
\<close>

section \<open>Runs\<close>

text \<open>The random id of a new session is one that no session has.\<close>

definition unused :: "'s auth_ops \<Rightarrow> 's \<Rightarrow> string \<Rightarrow> bool" where
  "unused ops s i \<longleftrightarrow> (\<forall>u. session_at ops s (u, i) = Some None)"

inductive auth_step ::
    "auth_crypto \<Rightarrow> regex \<Rightarrow> 'm messenger_ops \<Rightarrow> 's auth_ops \<Rightarrow> int \<Rightarrow> 'm \<times> 's \<Rightarrow> 'm \<times> 's \<Rightarrow> bool"
  for C re mops ops now where
  step_request: "requestLogin C re mops ops now uid rid code m s args = (r, m', s') \<Longrightarrow> auth_step C re mops ops now (m, s) (m', s')"
| step_complete: "completeLogin C ops now i secret s args = (r, s') \<Longrightarrow> unused ops s i \<Longrightarrow> auth_step C re mops ops now (m, s) (m, s')"
| step_replace: "replaceSession C ops now i secret s key ip = (r, s') \<Longrightarrow> unused ops s i \<Longrightarrow> auth_step C re mops ops now (m, s) (m, s')"
| step_revoke: "revokeSession C ops now s user sid key = (r, s') \<Longrightarrow> auth_step C re mops ops now (m, s) (m, s')"
| step_revoke_all: "revokeAllSessions C ops now s user key = (r, s') \<Longrightarrow> auth_step C re mops ops now (m, s) (m, s')"
| step_update: "updateUserInfo C ops force now s user key upd = (r, s') \<Longrightarrow> auth_step C re mops ops now (m, s) (m, s')"

text \<open>A run from one time and state to another.\<close>

inductive auth_run ::
    "auth_crypto \<Rightarrow> regex \<Rightarrow> 'm messenger_ops \<Rightarrow> 's auth_ops \<Rightarrow> int \<times> 'm \<times> 's \<Rightarrow> int \<times> 'm \<times> 's \<Rightarrow> bool"
  for C re mops ops where
  run_none: "auth_run C re mops ops x x"
| run_more: "auth_run C re mops ops x (t, y) \<Longrightarrow> t \<le> now \<Longrightarrow> auth_step C re mops ops now y z \<Longrightarrow> auth_run C re mops ops x (now, z)"

section \<open>Dead sessions\<close>

text \<open>A session that is revoked by now, or was granted before all sessions of its user were revoked.\<close>

definition revoked_by :: "'s auth_ops \<Rightarrow> string \<times> string \<Rightarrow> int \<Rightarrow> 's \<Rightarrow> bool" where
  "revoked_by ops k t s \<longleftrightarrow> (\<exists>a r. session_at ops s k = Some (Some a) \<and> as_revokeTimeMs a = Some r \<and> 0 < r \<and> r \<le> t)"

definition cut_off :: "'s auth_ops \<Rightarrow> string \<times> string \<Rightarrow> int \<Rightarrow> 's \<Rightarrow> bool" where
  "cut_off ops k t s \<longleftrightarrow> (\<exists>a x r. session_at ops s k = Some (Some a) \<and> as_grantedTimeMs a \<le> t \<and>
     st_findUser ops s (fst k) = Some (Some x) \<and> au_allSessionRevokeTimeMs x = Val r \<and> as_grantedTimeMs a \<le> r)"

text \<open>Neither opens anything.\<close>

lemma revoked_not_live: "revoked_by ops k t s \<Longrightarrow> t \<le> now \<Longrightarrow> session_at ops s k = Some (Some a) \<Longrightarrow> \<not> live_session now a"
  by (auto simp: revoked_by_def live_session_def truthy_def)

lemma cut_off_not_admitted:
  "cut_off ops k t s \<Longrightarrow> session_at ops s k = Some (Some a) \<Longrightarrow> st_findUser ops s (fst k) = Some (Some u) \<Longrightarrow> \<not> user_admits u a"
  by (auto simp: cut_off_def user_admits_def)

context session_store
begin

lemma dead_not_accepted:
  assumes "revoked_by ops k t s \<or> cut_off ops k t s" and "t \<le> now"
    and "validateSessionKey C ops now s key = Inr x"
  shows "(ki_userId x, ki_sessionId x) \<noteq> k"
  using assms revoked_not_live[of ops k t s now] cut_off_not_admitted[of ops k t s]
  by (fastforce simp: validate_Inr opens_def)

end

text \<open>What a step keeps: sessions that are there and are not written keep everything.\<close>

lemma revoked_by_later: "revoked_by ops k t s \<Longrightarrow> t \<le> now \<Longrightarrow> revoked_by ops k now s"
  by (fastforce simp: revoked_by_def)

lemma revoked_by_frame: "revoked_by ops k t s \<Longrightarrow> session_at ops s' k = session_at ops s k \<Longrightarrow> revoked_by ops k t s'"
  by (simp add: revoked_by_def)

lemma cut_off_frame:
  "cut_off ops k t s \<Longrightarrow> session_at ops s' k = session_at ops s k \<Longrightarrow> keeps_users ops s s' \<Longrightarrow> cut_off ops k t s'"
  unfolding cut_off_def keeps_users_def same_rights_def by (metis (no_types, lifting))

context auth_store
begin

lemma unused_other: "unused ops s i \<Longrightarrow> session_at ops s k = Some (Some a) \<Longrightarrow> k \<noteq> (u, i)"
  by (auto simp: unused_def)

lemma step_keeps_revoked:
  assumes "auth_step C re mops ops now (m, s) (m', s')" and dead: "revoked_by ops k t s" and t: "t \<le> now"
  shows "revoked_by ops k t s'"
proof -
  obtain a where a: "session_at ops s k = Some (Some a)" and rev: "truthy (as_revokeTimeMs a)"
    using dead by (auto simp: revoked_by_def truthy_def)
  have not_opened: "\<not> opens C ops now s key b u" if "(as_userId b, as_sessionId b) = k" for key b u
    using revoked_not_live[OF dead t] that by (auto simp: opens_def)
  from assms(1) have "session_at ops s' k = session_at ops s k"
  proof cases
    case step_request
    then show ?thesis by (simp add: requestLogin_keeps[OF step_request])
  next
    case step_complete
    then show ?thesis using completeLogin_effect[OF step_complete(2)] unused_other[OF step_complete(3) a] by auto
  next
    case step_replace
    then show ?thesis using replaceSession_effect[OF step_replace(2)] unused_other[OF step_replace(3) a] not_opened by fastforce
  next
    case step_revoke
    then show ?thesis using revokeSession_effect[OF step_revoke(2)] a rev by fastforce
  next
    case step_revoke_all
    then show ?thesis using revokeAllSessions_effect[OF step_revoke_all(2)] by simp
  next
    case step_update
    then show ?thesis using updateUserInfo_effect[OF step_update(2)] by simp
  qed
  then show ?thesis by (rule revoked_by_frame[OF dead])
qed

lemma step_keeps_cut_off:
  assumes "auth_step C re mops ops now (m, s) (m', s')" and cut: "cut_off ops k t s" and t: "t \<le> now"
  shows "cut_off ops k t s'"
proof -
  obtain a x r where a: "session_at ops s k = Some (Some a)" "as_grantedTimeMs a \<le> t"
      and x: "st_findUser ops s (fst k) = Some (Some x)" "au_allSessionRevokeTimeMs x = Val r" "as_grantedTimeMs a \<le> r"
    using cut by (auto simp: cut_off_def)
  from assms(1) show ?thesis
  proof cases
    case step_request
    then show ?thesis by (intro cut_off_frame[OF cut]) (simp_all add: requestLogin_keeps[OF step_request])
  next
    case step_complete
    then show ?thesis using completeLogin_effect[OF step_complete(2)] unused_other[OF step_complete(3) a(1)]
      by (intro cut_off_frame[OF cut]) (auto intro: keeps_users_same)
  next
    case step_replace
    have eff: "st_findUser ops s' = st_findUser ops s" using replaceSession_effect[OF step_replace(2)] by blast
    have "\<exists>b. session_at ops s' k = Some (Some b) \<and> as_grantedTimeMs b = as_grantedTimeMs a"
      using replaceSession_effect[OF step_replace(2)] unused_other[OF step_replace(3) a(1)] a(1) by (fastforce simp: opens_def)
    then show ?thesis using a(2) x eff by (auto simp: cut_off_def)
  next
    case step_revoke
    have eff: "st_findUser ops s' = st_findUser ops s" using revokeSession_effect[OF step_revoke(2)] by blast
    have "\<exists>b. session_at ops s' k = Some (Some b) \<and> as_grantedTimeMs b = as_grantedTimeMs a"
      using revokeSession_effect[OF step_revoke(2)] a(1) by fastforce
    then show ?thesis using a(2) x eff by (auto simp: cut_off_def)
  next
    case step_revoke_all
    have "session_at ops s' = session_at ops s" using revokeAllSessions_effect[OF step_revoke_all(2)] by blast
    moreover have "\<exists>y r'. st_findUser ops s' (fst k) = Some (Some y) \<and> au_allSessionRevokeTimeMs y = Val r' \<and> as_grantedTimeMs a \<le> r'"
      using revokeAllSessions_effect[OF step_revoke_all(2)] x a(2) t by (fastforce simp: changed_at_def)
    ultimately show ?thesis using a by (auto simp: cut_off_def)
  next
    case step_update
    then show ?thesis using updateUserInfo_effect[OF step_update(2)] cut_off_frame[OF cut]
      by (auto simp: keeps_users_def same_rights_def updated_user_def)
  qed
qed

lemma run_keeps_dead:
  "auth_run C re mops ops x y \<Longrightarrow> revoked_by ops k t (snd (snd x)) \<or> cut_off ops k t (snd (snd x)) \<Longrightarrow> t \<le> fst x
    \<Longrightarrow> t \<le> fst y \<and> (revoked_by ops k t (snd (snd y)) \<or> cut_off ops k t (snd (snd y)))"
proof (induction rule: auth_run.induct)
  case (run_more x t' y now z)
  obtain m s m' s' where yz: "y = (m, s)" "z = (m', s')" by fastforce
  from run_more have t: "t \<le> now" and dead: "revoked_by ops k t s \<or> cut_off ops k t s" by (simp_all add: yz)
  have step: "auth_step C re mops ops now (m, s) (m', s')" using run_more.hyps(3) by (simp add: yz)
  from dead have "revoked_by ops k t s' \<or> cut_off ops k t s'"
    using step_keeps_revoked[OF step _ t] step_keeps_cut_off[OF step _ t] by blast
  with t show ?case by (simp add: yz)
qed simp

end

section \<open>The number of attempts\<close>

text \<open>Attempts to complete logins, one after the other: their arguments with their results.\<close>

fun attempts :: "auth_crypto \<Rightarrow> 's auth_ops \<Rightarrow> 's \<Rightarrow> (int \<times> string \<times> string \<times> complete_args) list
    \<Rightarrow> (complete_args \<times> (auth_error + session_info)) list" where
  "attempts C ops s [] = []"
| "attempts C ops s ((now, i, secret, args) # xs) =
     (let (r, s') = completeLogin C ops now i secret s args in (args, r) # attempts C ops s' xs)"

definition names_request :: "complete_args \<Rightarrow> string \<times> string \<Rightarrow> bool" where
  "names_request args k \<longleftrightarrow> ca_userId args = Some (fst k) \<and> ca_requestId args = Some (snd k)"

definition wrong_codes :: "string \<times> string \<Rightarrow> (complete_args \<times> (auth_error + session_info)) list \<Rightarrow> nat" where
  "wrong_codes k rs = length (filter (\<lambda>(args, r). names_request args k \<and> r = Inl InvalidCode) rs)"

definition sessions_granted :: "string \<times> string \<Rightarrow> (complete_args \<times> (auth_error + session_info)) list \<Rightarrow> nat" where
  "sessions_granted k rs = length (filter (\<lambda>(args, r). names_request args k \<and> (\<exists>x. r = Inr x)) rs)"

lemma counts_Cons:
  "wrong_codes k ((args, r) # rs) = (if names_request args k \<and> r = Inl InvalidCode then 1 else 0) + wrong_codes k rs"
  "sessions_granted k ((args, r) # rs) = (if names_request args k \<and> (\<exists>x. r = Inr x) then 1 else 0) + sessions_granted k rs"
  by (simp_all add: wrong_codes_def sessions_granted_def)

context auth_store
begin

lemma attempts_bound:
  "request_at ops s k = Some (Some q) \<Longrightarrow> \<forall>(now, _)\<in>set xs. 0 < now \<Longrightarrow>
    sessions_granted k (attempts C ops s xs) \<le> (if positive (lr_completedTimeMs q) then 0 else 1) \<and>
    wrong_codes k (attempts C ops s xs) \<le> (if positive (lr_completedTimeMs q) then 0 else MAX_LOGIN_REQUEST_ATTEMPTS - lr_attemptCount q)"
proof (induction xs arbitrary: s q)
  case Nil
  then show ?case by (simp add: sessions_granted_def wrong_codes_def)
next
  case (Cons x xs)
  obtain now i secret args where x: "x = (now, i, secret, args)" by (cases x)
  obtain r s' where run: "completeLogin C ops now i secret s args = (r, s')" by fastforce
  have now: "0 < now" and rest: "\<forall>(now, _)\<in>set xs. 0 < now" using Cons.prems(2) x by auto
  note eff = completeLogin_effect[OF run, THEN conjunct2]
  show ?case
  proof (cases "r = Inl InvalidCode \<or> (\<exists>y. r = Inr y)")
    case False
    then have "s' = s" using eff by blast
    with Cons.IH[OF Cons.prems(1) rest] False run x show ?thesis by (auto simp: counts_Cons)
  next
    case True
    then obtain q' k' where k': "k' = (the (ca_userId args), the (ca_requestId args))" "bad_complete_args args = None"
        "request_at ops s k' = Some (Some q')" "open_request now (ca_ipAddress args) q'"
        "request_at ops s' = changed_at (request_at ops s) k'
          (if r = Inl InvalidCode then (\<lambda>q. q\<lparr>lr_attemptCount := lr_attemptCount q + 1\<rparr>) else (\<lambda>q. q\<lparr>lr_completedTimeMs := Some now\<rparr>))"
      using eff by fastforce
    show ?thesis
    proof (cases "k' = k")
      case False
      then have "\<not> names_request args k" using k'(1) by (cases k) (auto simp: names_request_def)
      moreover have "request_at ops s' k = Some (Some q)" using k'(5) False Cons.prems(1) by simp
      ultimately show ?thesis using Cons.IH[OF _ rest, of s' q] run x by (simp add: counts_Cons)
    next
      case True
      then have q: "q' = q" using k'(3) Cons.prems(1) by simp
      then have open_q: "\<not> positive (lr_completedTimeMs q)" "lr_attemptCount q < MAX_LOGIN_REQUEST_ATTEMPTS"
        using k'(4) by (simp_all add: open_request_def)
      show ?thesis
      proof (cases "r = Inl InvalidCode")
        case wrong: True
        let ?q = "q\<lparr>lr_attemptCount := lr_attemptCount q + 1\<rparr>"
        have "request_at ops s' k = Some (Some ?q)" using k'(5) True wrong Cons.prems(1) by simp
        from Cons.IH[OF this rest] open_q wrong run x show ?thesis by (auto simp: counts_Cons)
      next
        case right: False
        let ?q = "q\<lparr>lr_completedTimeMs := Some now\<rparr>"
        have "request_at ops s' k = Some (Some ?q)" using k'(5) True right Cons.prems(1) by simp
        from Cons.IH[OF this rest] now open_q right run x show ?thesis by (auto simp: counts_Cons positive_def)
      qed
    qed
  qed
qed

end

end
