(* ===== verification/RateLimit.thy ===== *)
theory RateLimit
  imports Prelude
begin

text \<open>
  The limit on the number of requests from one address: \<^verbatim>\<open>src/src/aux-records/RateLimitController.ts\<close> over the
  limiter in memory, \<^verbatim>\<open>MemoryRateLimiter.ts\<close>. The interface of a limiter is that of the package
  \<^verbatim>\<open>rate-limit-redis\<close>. A count is a number or \<^verbatim>\<open>NaN\<close> (\<open>None\<close>).
\<close>

section \<open>The limiter in memory\<close>

record limiter_state =
  hit_count :: "int option"
  resetTimeMs :: int

record memory_limiter =
  ml_states :: "string \<Rightarrow> limiter_state option"
  ml_windowMs :: int

definition new_limiter :: memory_limiter where
  "new_limiter = \<lparr>ml_states = Map.empty, ml_windowMs = 1000\<rparr>"

definition limiter_init :: "int \<Rightarrow> memory_limiter \<Rightarrow> memory_limiter" where
  "limiter_init window l = l\<lparr>ml_windowMs := window\<rparr>"

text \<open>A state that is new, or whose window is over, starts at 0 with a new window.\<close>

definition limiter_getState :: "int \<Rightarrow> memory_limiter \<Rightarrow> string \<Rightarrow> limiter_state" where
  "limiter_getState now l k =
     (let fresh = \<lparr>hit_count = Some 0, resetTimeMs = now + ml_windowMs l\<rparr>;
          st = (case ml_states l k of None \<Rightarrow> fresh | Some x \<Rightarrow> x)
      in if resetTimeMs st < now then fresh else st)"

definition add_count :: "int option \<Rightarrow> int option \<Rightarrow> int option" where
  "add_count a b = do { x \<leftarrow> a; y \<leftarrow> b; Some (x + y) }"

text \<open>The result is the number of hits and the time of the reset.\<close>

definition limiter_increment ::
    "int \<Rightarrow> memory_limiter \<Rightarrow> string \<Rightarrow> int \<Rightarrow> (int option \<times> int) \<times> memory_limiter" where
  "limiter_increment now l k amount =
     (let st = limiter_getState now l k;
          st' = st\<lparr>hit_count := add_count (hit_count st) (Some amount)\<rparr>
      in ((hit_count st', resetTimeMs st'), l\<lparr>ml_states := (ml_states l)(k \<mapsto> st')\<rparr>))"

text \<open>The amount may be missing; adding \<^verbatim>\<open>undefined\<close> yields \<^verbatim>\<open>NaN\<close>.\<close>

definition limiter_decrement :: "int \<Rightarrow> memory_limiter \<Rightarrow> string \<Rightarrow> int option \<Rightarrow> memory_limiter" where
  "limiter_decrement now l k amount =
     (let st = limiter_getState now l k
      in l\<lparr>ml_states := (ml_states l)(k \<mapsto> st\<lparr>hit_count := add_count (hit_count st) amount\<rparr>)\<rparr>)"

definition limiter_resetKey :: "memory_limiter \<Rightarrow> string \<Rightarrow> memory_limiter" where
  "limiter_resetKey l k = l\<lparr>ml_states := (ml_states l)(k := None)\<rparr>"

section \<open>The controller\<close>

datatype rate_error = RateLimitExceeded | RateServerError

text \<open>The interface of a limiter; a call that throws is \<open>None\<close>.\<close>

type_synonym 'l increment_op = "int \<Rightarrow> 'l \<Rightarrow> string \<Rightarrow> ((int option \<times> int) \<times> 'l) option"

definition memory_increment :: "memory_limiter increment_op" where
  "memory_increment now l k = Some (limiter_increment now l k 1)"

definition checkRateLimit :: "'l increment_op \<Rightarrow> int \<Rightarrow> int \<Rightarrow> 'l \<Rightarrow> string \<Rightarrow> (rate_error + unit) \<times> 'l" where
  "checkRateLimit inc maxHits now l ip =
     (case inc now l ip of
        None \<Rightarrow> (Inl RateServerError, l)
      | Some ((hits, _), l1) \<Rightarrow>
          (if (case hits of None \<Rightarrow> False | Some n \<Rightarrow> n > maxHits) then (Inl RateLimitExceeded, l1) else (Inr (), l1)))"

section \<open>The limit\<close>

text \<open>Requests from addresses at times, one after the other; the results of those from one address.\<close>

fun check_all :: "int \<Rightarrow> memory_limiter \<Rightarrow> (int \<times> string) list \<Rightarrow> (string \<times> (rate_error + unit)) list \<times> memory_limiter" where
  "check_all maxHits l [] = ([], l)"
| "check_all maxHits l ((now, ip) # qs) =
     (let (r, l1) = checkRateLimit memory_increment maxHits now l ip;
          (rs, l2) = check_all maxHits l1 qs
      in ((ip, r) # rs, l2))"

definition allowed_from :: "string \<Rightarrow> (string \<times> (rate_error + unit)) list \<Rightarrow> nat" where
  "allowed_from ip rs = length (filter (\<lambda>x. x = (ip, Inr ())) rs)"

lemma checkRateLimit_memory:
  "checkRateLimit memory_increment maxHits now l ip =
     (let st = limiter_getState now l ip; n = add_count (hit_count st) (Some 1)
      in (if (case n of None \<Rightarrow> False | Some n \<Rightarrow> n > maxHits) then Inl RateLimitExceeded else Inr (),
          l\<lparr>ml_states := (ml_states l)(ip \<mapsto> st\<lparr>hit_count := n\<rparr>)\<rparr>))"
  by (simp add: checkRateLimit_def memory_increment_def limiter_increment_def Let_def)

text \<open>Within the window of a state, the requests that are allowed are the first ones, as many as are left.\<close>

definition requests_from :: "string \<Rightarrow> (int \<times> string) list \<Rightarrow> nat" where
  "requests_from ip qs = length (filter (\<lambda>x. snd x = ip) qs)"

lemma allowed_in_window:
  "ml_states l ip = Some st \<Longrightarrow> hit_count st = Some n \<Longrightarrow> \<forall>(t, _)\<in>set qs. t \<le> resetTimeMs st
    \<Longrightarrow> allowed_from ip (fst (check_all maxHits l qs)) = min (requests_from ip qs) (nat (maxHits - n))"
proof (induction qs arbitrary: l st n)
  case (Cons q qs)
  obtain t i where q: "q = (t, i)" by fastforce
  show ?case
  proof (cases "i = ip")
    case True
    have st: "limiter_getState t l ip = st" using Cons.prems q by (simp add: limiter_getState_def)
    let ?st = "st\<lparr>hit_count := Some (n + 1)\<rparr>"
    have "allowed_from ip (fst (check_all maxHits (l\<lparr>ml_states := (ml_states l)(ip \<mapsto> ?st)\<rparr>) qs)) =
        min (requests_from ip qs) (nat (maxHits - (n + 1)))"
      by (rule Cons.IH[of _ ?st]) (use Cons.prems(3) in auto)
    then show ?thesis
      using Cons.prems(2) True q st
      by (auto simp: checkRateLimit_memory Let_def add_count_def allowed_from_def requests_from_def split: prod.splits)
  next
    case False
    let ?l = "snd (checkRateLimit memory_increment maxHits t l i)"
    have "ml_states ?l ip = Some st" using False Cons.prems(1) by (simp add: checkRateLimit_memory Let_def)
    from Cons.IH[OF this Cons.prems(2)] Cons.prems(3) False q show ?thesis
      by (auto simp: allowed_from_def requests_from_def split: prod.splits)
  qed
qed (simp add: allowed_from_def requests_from_def)

text \<open>A request that opens a window.\<close>

definition window_over :: "int \<Rightarrow> memory_limiter \<Rightarrow> string \<Rightarrow> bool" where
  "window_over now l ip \<longleftrightarrow> (case ml_states l ip of None \<Rightarrow> True | Some st \<Rightarrow> resetTimeMs st < now)"

lemma window_opens:
  assumes "window_over t l ip" and "0 \<le> ml_windowMs l"
  shows "limiter_getState t l ip = \<lparr>hit_count = Some 0, resetTimeMs = t + ml_windowMs l\<rparr>"
  using assms by (auto simp: window_over_def limiter_getState_def split: option.splits)

lemma allowed_from_start:
  assumes "window_over t l ip" and "0 \<le> ml_windowMs l" and "\<forall>(u, _)\<in>set qs. u \<le> t + ml_windowMs l"
  shows "allowed_from ip (fst (check_all maxHits l ((t, ip) # qs))) = min (1 + requests_from ip qs) (nat maxHits)"
proof -
  let ?st = "\<lparr>hit_count = Some 1, resetTimeMs = t + ml_windowMs l\<rparr>"
  let ?l = "l\<lparr>ml_states := (ml_states l)(ip \<mapsto> ?st)\<rparr>"
  have step: "checkRateLimit memory_increment maxHits t l ip = (if 1 > maxHits then Inl RateLimitExceeded else Inr (), ?l)"
    using window_opens[OF assms(1,2)] by (simp add: checkRateLimit_memory Let_def add_count_def)
  have "allowed_from ip (fst (check_all maxHits ?l qs)) = min (requests_from ip qs) (nat (maxHits - 1))"
    by (rule allowed_in_window[of _ _ ?st]) (use assms(3) in auto)
  then show ?thesis by (auto simp: step allowed_from_def split: prod.splits)
qed

end
