(* ===== verification/AuthClaims.thy ===== *)
theory AuthClaims
  imports AuthRuns RateLimit
begin

text \<open>
  Properties of logins, sessions and the limit on requests, over the store in memory, with examples, and what
  the code does on some inputs that its comments do not foresee.
\<close>

section \<open>Codes\<close>

text \<open>A login code has six digits whatever the four random bytes are, and it starts with a zero exactly for the
  numbers below 100000: of the 2 ^ 32 possible numbers, each of the 100000 codes that start with a zero comes from only one.\<close>

theorem login_code_digits:
  "length (randomCode w) = 6 \<and> list_all is_digit (randomCode w) \<and> (hd (randomCode w) = CHR ''0'' \<longleftrightarrow> unat w < 100000)"
  using randomCode_digits[of w] code_leading_zero[of w] by (simp add: RANDOM_CODE_LENGTH_def)

section \<open>Keys\<close>

text \<open>What is used of the hashes and of base 64.\<close>

definition crypto_ok :: "auth_crypto \<Rightarrow> bool" where
  "crypto_ok C \<longleftrightarrow> base64_ok (enc64 C) (dec64 C) \<and>
     (\<forall>p salt. verify C p salt (hashPasswordWithSalt C p salt) = Some True) \<and>
     (\<forall>p salt. verify C p salt (hashHighEntropyPasswordWithSalt C p salt) = Some True)"

text \<open>A code that is easy to read.\<close>

definition demo_crypto :: auth_crypto where
  "demo_crypto = \<lparr>enc64 = letters, dec64 = unletters,
     hashPasswordWithSalt = (\<lambda>p salt. ''P'' @ letters p @ ''.'' @ salt),
     hashHighEntropyPasswordWithSalt = (\<lambda>p salt. ''H'' @ letters p @ ''.'' @ salt),
     verify = (\<lambda>p salt h. Some (tl h = letters p @ ''.'' @ salt))\<rparr>"

lemma demo_enc [simp]: "enc64 demo_crypto = letters"
  by (simp add: demo_crypto_def)

lemma demo_crypto_ok: "crypto_ok demo_crypto"
  by (simp add: crypto_ok_def demo_crypto_def letters_ok)

lemma key_opens:
  assumes "crypto_ok C" and "u \<noteq> []" and "i \<noteq> []" and "secret \<noteq> []"
  shows "opens C ops now s (Some (formatV1SessionKey (enc64 C) u i secret e)) a x \<longleftrightarrow>
    as_userId a = u \<and> as_sessionId a = i \<and> verify C secret i (as_secretHash a) = Some True \<and>
    session_at ops s (u, i) = Some (Some a) \<and> st_findUser ops s u = Some (Some x) \<and> live_session now a \<and> user_admits x a"
proof -
  have "parseSessionKey (dec64 C) (formatV1SessionKey (enc64 C) u i secret e) = Some (u, i, secret, Some e)"
    using assms by (intro parse_formatV1SessionKey) (simp_all add: crypto_ok_def)
  moreover have "given (Some (formatV1SessionKey (enc64 C) u i secret e))" by (simp add: given_def formatV1SessionKey_def)
  ultimately show ?thesis by (auto simp: opens_def)
qed

section \<open>A user\<close>

definition demo_re :: regex where "demo_re = (\<lambda>_. Some (\<lambda>_. True))"

definition demo_login :: login_args where
  "demo_login = \<lparr>la_address = Some ''a@b.c'', la_addressType = Some EmailAddress, la_ipAddress = Some ''1.1''\<rparr>"

definition demo_complete :: "string \<Rightarrow> string \<Rightarrow> complete_args" where
  "demo_complete r code = \<lparr>ca_userId = Some ''u1'', ca_requestId = Some r, ca_code = Some code, ca_ipAddress = Some ''1.1''\<rparr>"

text \<open>The user logs in twice: a request, its completion, another request and its completion.\<close>

definition auth1 :: memory_auth where
  "auth1 = snd (snd (requestLogin demo_crypto demo_re memory_messenger_ops memory_auth_ops 1000 ''u1'' ''r1'' ''123456'' [] new_memory_auth demo_login))"

definition auth2 :: memory_auth where
  "auth2 = snd (completeLogin demo_crypto memory_auth_ops 2000 ''s1'' ''k1'' auth1 (demo_complete ''r1'' ''123456''))"

definition auth3 :: memory_auth where
  "auth3 = snd (snd (requestLogin demo_crypto demo_re memory_messenger_ops memory_auth_ops 3000 ''u9'' ''r2'' ''654321'' [] auth2 demo_login))"

definition auth4 :: memory_auth where
  "auth4 = snd (completeLogin demo_crypto memory_auth_ops 4000 ''s2'' ''k2'' auth3 (demo_complete ''r2'' ''654321''))"

definition key1 :: string where "key1 = formatV1SessionKey letters ''u1'' ''s1'' ''k1'' (2000 + SESSION_LIFETIME_MS)"
definition key2 :: string where "key2 = formatV1SessionKey letters ''u1'' ''s2'' ''k2'' (4000 + SESSION_LIFETIME_MS)"

text \<open>The two sessions.\<close>

definition session1 :: auth_session where
  "session1 = \<lparr>as_userId = ''u1'', as_sessionId = ''s1'', as_secretHash = ''H'' @ letters ''k1'' @ ''.'' @ ''s1'', as_grantedTimeMs = 2000,
     as_expireTimeMs = 2000 + SESSION_LIFETIME_MS, as_revokeTimeMs = None, as_requestId = Some ''r1'', as_previousSessionId = None,
     as_nextSessionId = None, as_ipAddress = ''1.1''\<rparr>"

definition session2 :: auth_session where
  "session2 = \<lparr>as_userId = ''u1'', as_sessionId = ''s2'', as_secretHash = ''H'' @ letters ''k2'' @ ''.'' @ ''s2'', as_grantedTimeMs = 4000,
     as_expireTimeMs = 4000 + SESSION_LIFETIME_MS, as_revokeTimeMs = None, as_requestId = Some ''r2'', as_previousSessionId = None,
     as_nextSessionId = None, as_ipAddress = ''1.1''\<rparr>"

definition request1 :: login_request where
  "request1 = \<lparr>lr_userId = ''u1'', lr_requestId = ''r1'', lr_secretHash = ''P'' @ letters ''123456'' @ ''.'' @ ''r1'', lr_requestTimeMs = 1000,
     lr_expireTimeMs = 1000 + LOGIN_REQUEST_LIFETIME_MS, lr_completedTimeMs = None, lr_attemptCount = 0, lr_address = ''a@b.c'',
     lr_addressType = EmailAddress, lr_ipAddress = ''1.1''\<rparr>"

definition request2 :: login_request where
  "request2 = \<lparr>lr_userId = ''u1'', lr_requestId = ''r2'', lr_secretHash = ''P'' @ letters ''654321'' @ ''.'' @ ''r2'', lr_requestTimeMs = 3000,
     lr_expireTimeMs = 3000 + LOGIN_REQUEST_LIFETIME_MS, lr_completedTimeMs = None, lr_attemptCount = 0, lr_address = ''a@b.c'',
     lr_addressType = EmailAddress, lr_ipAddress = ''1.1''\<rparr>"

definition user1 :: auth_user where
  "user1 = (new_auth_user ''u1'' ''a@b.c'' EmailAddress)\<lparr>au_currentLoginRequestId := Some ''r1''\<rparr>"

lemma letters_eq [simp]: "letters a = letters b \<longleftrightarrow> a = b"
  by (metis option.inject unletters_letters)

lemmas demo_simps = demo_crypto_def demo_login_def demo_complete_def request1_def request2_def session1_def session2_def user1_def
  new_auth_user_def given_def positive_def

lemmas login_simps = requestLogin_def bad_login_args_def MAX_EMAIL_ADDRESS_LENGTH_def send_login_def save_login_def finish_login_def
  memory_messenger_ops_def memory_auth_ops_def ma_findUserByAddress_def ma_saveNewUser_def ma_saveLoginRequest_def
  ma_setCurrentLoginRequest_def validateAddress_def isStringValid_def Let_def

lemmas complete_simps = completeLogin_def bad_complete_args_def open_request_def LOGIN_REQUEST_LIFETIME_MS_def
  MAX_LOGIN_REQUEST_ATTEMPTS_def grant_session_def memory_auth_ops_def ma_findLoginRequest_def ma_findUser_def
  ma_markLoginRequestComplete_def ma_saveSession_def

lemma auth1_eq: "auth1 = \<lparr>ma_users = [user1], ma_loginRequests = [request1], ma_sessions = [], ma_emailRules = [], ma_smsRules = []\<rparr>"
  by (simp add: auth1_def new_memory_auth_def demo_simps login_simps)

lemma auth2_eq: "auth2 = \<lparr>ma_users = [user1], ma_loginRequests = [request1\<lparr>lr_completedTimeMs := Some 2000\<rparr>],
    ma_sessions = [session1], ma_emailRules = [], ma_smsRules = []\<rparr>"
  by (simp add: auth2_def auth1_eq demo_simps complete_simps)

lemma auth3_eq: "auth3 = \<lparr>ma_users = [user1\<lparr>au_currentLoginRequestId := Some ''r2''\<rparr>],
    ma_loginRequests = [request1\<lparr>lr_completedTimeMs := Some 2000\<rparr>, request2], ma_sessions = [session1], ma_emailRules = [], ma_smsRules = []\<rparr>"
  by (simp add: auth3_def auth2_eq demo_simps login_simps)

lemma auth4_eq: "auth4 = \<lparr>ma_users = [user1\<lparr>au_currentLoginRequestId := Some ''r2''\<rparr>],
    ma_loginRequests = [request1\<lparr>lr_completedTimeMs := Some 2000\<rparr>, request2\<lparr>lr_completedTimeMs := Some 4000\<rparr>],
    ma_sessions = [session1, session2], ma_emailRules = [], ma_smsRules = []\<rparr>"
  by (simp add: auth4_def auth3_eq demo_simps complete_simps)

lemmas key_simps = validateSessionKey_def key1_def key2_def parse_formatV1SessionKey[OF letters_ok] memory_auth_ops_def
  ma_findSession_def ma_findUser_def check_user_def truthy_def SESSION_LIFETIME_MS_def

lemma key_given [simp]: "given (Some (formatV1SessionKey enc u i secret e))"
  by (simp add: given_def formatV1SessionKey_def)

lemma key_not_empty [simp]: "formatV1SessionKey enc u i secret e \<noteq> []"
  by (simp add: formatV1SessionKey_def)

lemma keys_given [simp]: "given (Some key1)" "given (Some key2)"
  by (simp_all add: key1_def key2_def)

lemma demo_keys:
  "validateSessionKey demo_crypto memory_auth_ops 5000 auth4 (Some key1) = Inr \<lparr>ki_userId = ''u1'', ki_sessionId = ''s1'', ki_allSessionsRevokedTimeMs = Null\<rparr>"
  "validateSessionKey demo_crypto memory_auth_ops 5000 auth4 (Some key2) = Inr \<lparr>ki_userId = ''u1'', ki_sessionId = ''s2'', ki_allSessionsRevokedTimeMs = Null\<rparr>"
  using key_given by (simp_all add: auth4_eq key_simps demo_simps)

section \<open>When a key is accepted\<close>

lemma session_at_memory: "session_at memory_auth_ops s (u, i) = Some (ma_findSession s u i)"
  by (simp add: session_at_def memory_auth_ops_def del: memory_auth_at)

lemma findUser_memory: "st_findUser memory_auth_ops s u = Some (ma_findUser s u)"
  by (simp add: memory_auth_ops_def)

text \<open>C28: The key that was made for a user, a session and a secret is accepted exactly as long as the session is in the store, its
  hash fits the secret, it has not expired and is not revoked by now, and its user is there, is not banned and has not
  revoked all sessions since it was granted. The answer names the session's user and the session. The time of
  expiration that stands in the key has no influence.\<close>

theorem session_key_accepted_iff:
  assumes "crypto_ok C" and "u \<noteq> []" and "i \<noteq> []" and "secret \<noteq> []"
  shows "validateSessionKey C memory_auth_ops now s (Some (formatV1SessionKey (enc64 C) u i secret e)) = Inr k \<longleftrightarrow>
    (\<exists>a x. ma_findSession s u i = Some a \<and> verify C secret i (as_secretHash a) = Some True \<and>
       now < as_expireTimeMs a \<and> (\<forall>r. as_revokeTimeMs a = Some r \<longrightarrow> r = 0 \<or> now < r) \<and>
       ma_findUser s u = Some x \<and> \<not> positive (au_banTimeMs x) \<and>
       (\<forall>t. au_allSessionRevokeTimeMs x = Val t \<longrightarrow> t < as_grantedTimeMs a) \<and>
       k = \<lparr>ki_userId = u, ki_sessionId = i, ki_allSessionsRevokedTimeMs = au_allSessionRevokeTimeMs x\<rparr>)"
proof -
  have live: "live_session now a \<longleftrightarrow> now < as_expireTimeMs a \<and> (\<forall>r. as_revokeTimeMs a = Some r \<longrightarrow> r = 0 \<or> now < r)" for a
    by (auto simp: live_session_def truthy_def split: option.splits)
  have opened: "opens C memory_auth_ops now s (Some (formatV1SessionKey (enc64 C) u i secret e)) a x \<longleftrightarrow>
      as_userId a = u \<and> as_sessionId a = i \<and> verify C secret i (as_secretHash a) = Some True \<and> ma_findSession s u i = Some a \<and>
      ma_findUser s u = Some x \<and> live_session now a \<and> user_admits x a" for a x
    using key_opens[OF assms, of memory_auth_ops now s e a x] by (simp add: session_at_memory findUser_memory del: memory_auth_at)
  have ids: "ma_findSession s u i = Some a \<Longrightarrow> as_userId a = u \<and> as_sessionId a = i" for a
    by (auto simp: ma_findSession_def dest: find_property)
  show ?thesis unfolding ms.validate_Inr opened live user_admits_def using ids by blast
qed

theorem session_key_accepted_iff_witness:
  "\<exists>a x. ma_findSession auth4 ''u1'' ''s1'' = Some a \<and> ma_findUser auth4 ''u1'' = Some x \<and> 5000 < as_expireTimeMs a \<and>
     \<not> positive (au_banTimeMs x)"
proof -
  have "validateSessionKey demo_crypto memory_auth_ops 5000 auth4
      (Some (formatV1SessionKey (enc64 demo_crypto) ''u1'' ''s1'' ''k1'' (2000 + SESSION_LIFETIME_MS)))
    = Inr \<lparr>ki_userId = ''u1'', ki_sessionId = ''s1'', ki_allSessionsRevokedTimeMs = Null\<rparr>"
    using demo_keys(1) by (simp add: key1_def)
  then show ?thesis by (subst (asm) session_key_accepted_iff[OF demo_crypto_ok]) auto
qed

section \<open>Revoking\<close>

text \<open>C29: A session that was revoked is never accepted again: after any further sequence of logins, completions, replacements,
  revocations and updates at times that do not go back, and with any key, no answer names that session.\<close>

theorem revoked_session_stays_dead:
  assumes "revokeSession C memory_auth_ops t s (Some u) (Some i) key = (Inr (), s1)" and "0 < t"
    and "auth_run C re mops memory_auth_ops (t, m, s1) (t', m', s')" and "t' \<le> now"
    and "validateSessionKey C memory_auth_ops now s' key' = Inr k"
  shows "(ki_userId k, ki_sessionId k) \<noteq> (u, i)"
proof -
  have "revoked_by memory_auth_ops (u, i) t s1"
    using ms.revokeSession_effect[OF assms(1)] assms(2) by (force simp: revoked_by_def simp del: memory_auth_at)
  then have "t \<le> t'" "revoked_by memory_auth_ops (u, i) t s' \<or> cut_off memory_auth_ops (u, i) t s'"
    using ma.run_keeps_dead[OF assms(3), of "(u, i)" t] by simp_all
  then show ?thesis using ms.dead_not_accepted[OF _ _ assms(5), of "(u, i)" t] assms(4) by simp
qed

text \<open>The second session is revoked with the key of the first, which stays good.\<close>

definition auth5 :: memory_auth where
  "auth5 = snd (revokeSession demo_crypto memory_auth_ops 5000 auth4 (Some ''u1'') (Some ''s2'') (Some key1))"

lemma auth5_eq: "auth5 = auth4\<lparr>ma_sessions := [session1, session2\<lparr>as_revokeTimeMs := Some 5000\<rparr>]\<rparr>"
    "revokeSession demo_crypto memory_auth_ops 5000 auth4 (Some ''u1'') (Some ''s2'') (Some key1) = (Inr (), auth5)"
proof -
  have found: "st_findSession memory_auth_ops auth4 ''u1'' ''s2'' = Some (Some session2)"
    by (simp add: auth4_eq memory_auth_ops_def ma_findSession_def session1_def session2_def)
  have "revokeSession demo_crypto memory_auth_ops 5000 auth4 (Some ''u1'') (Some ''s2'') (Some key1) =
      (Inr (), ma_saveSession auth4 (session2\<lparr>as_revokeTimeMs := Some 5000\<rparr>))"
    by (simp add: revokeSession_def key_for_def demo_keys found given_def[of "Some ''u1''"] given_def[of "Some ''s2''"] truthy_def)
       (simp add: session2_def)
  then show "auth5 = auth4\<lparr>ma_sessions := [session1, session2\<lparr>as_revokeTimeMs := Some 5000\<rparr>]\<rparr>"
    and "revokeSession demo_crypto memory_auth_ops 5000 auth4 (Some ''u1'') (Some ''s2'') (Some key1) = (Inr (), auth5)"
    by (simp_all add: auth5_def ma_saveSession_def auth4_eq session1_def session2_def)
qed

text \<open>Then the user asks for another login.\<close>

definition auth6 :: memory_auth where
  "auth6 = snd (snd (requestLogin demo_crypto demo_re memory_messenger_ops memory_auth_ops 6000 ''u9'' ''r3'' ''111111'' [] auth5 demo_login))"

lemma auth6_key: "validateSessionKey demo_crypto memory_auth_ops 7000 auth6 (Some key1) =
    Inr \<lparr>ki_userId = ''u1'', ki_sessionId = ''s1'', ki_allSessionsRevokedTimeMs = Null\<rparr>"
  by (simp add: auth6_def auth5_eq(1) auth4_eq login_simps key_simps demo_simps)

lemma auth6_run: "\<exists>m. auth_run demo_crypto demo_re memory_messenger_ops memory_auth_ops (5000, [], auth5) (6000, m, auth6)"
proof -
  obtain r m s where run: "requestLogin demo_crypto demo_re memory_messenger_ops memory_auth_ops 6000 ''u9'' ''r3'' ''111111'' []
      auth5 demo_login = (r, m, s)" by (rule prod_cases3)
  then have "s = auth6" by (simp add: auth6_def)
  with run_more[OF run_none _ step_request[OF run], of 5000] show ?thesis by auto
qed

theorem revoked_session_stays_dead_witness:
  "validateSessionKey demo_crypto memory_auth_ops 7000 auth6 (Some key1) =
     Inr \<lparr>ki_userId = ''u1'', ki_sessionId = ''s1'', ki_allSessionsRevokedTimeMs = Null\<rparr> \<and> (''u1'', ''s1'') \<noteq> (''u1'', ''s2'')"
  using auth6_run revoked_session_stays_dead[OF auth5_eq(2) _ _ _ auth6_key, of demo_re memory_messenger_ops "[]" 6000] auth6_key
  by auto

text \<open>C30: Revoking all sessions ends every session of the user that was granted until then, for good.\<close>

theorem revoke_all_ends_sessions:
  assumes "revokeAllSessions C memory_auth_ops t s (Some u) key = (Inr (), s1)"
    and "ma_findSession s u i = Some a" and "as_grantedTimeMs a \<le> t"
    and "auth_run C re mops memory_auth_ops (t, m, s1) (t', m', s')" and "t' \<le> now"
    and "validateSessionKey C memory_auth_ops now s' key' = Inr k"
  shows "(ki_userId k, ki_sessionId k) \<noteq> (u, i)"
proof -
  have "cut_off memory_auth_ops (u, i) t s1"
    using ms.revokeAllSessions_effect[OF assms(1)] assms(2,3)
    by (auto simp: cut_off_def changed_at_def session_at_memory simp del: memory_auth_at)
  then have "t \<le> t'" "revoked_by memory_auth_ops (u, i) t s' \<or> cut_off memory_auth_ops (u, i) t s'"
    using ma.run_keeps_dead[OF assms(4), of "(u, i)" t] by simp_all
  then show ?thesis using ms.dead_not_accepted[OF _ _ assms(6), of "(u, i)" t] assms(5) by simp
qed

text \<open>All sessions are revoked, and the user logs in again.\<close>

definition auth7 :: memory_auth where
  "auth7 = snd (revokeAllSessions demo_crypto memory_auth_ops 5000 auth4 (Some ''u1'') (Some key1))"

definition auth8 :: memory_auth where
  "auth8 = snd (snd (requestLogin demo_crypto demo_re memory_messenger_ops memory_auth_ops 6000 ''u9'' ''r3'' ''111111'' [] auth7 demo_login))"

definition auth9 :: memory_auth where
  "auth9 = snd (completeLogin demo_crypto memory_auth_ops 7000 ''s3'' ''k3'' auth8 (demo_complete ''r3'' ''111111''))"

definition session3 :: auth_session where
  "session3 = session1\<lparr>as_sessionId := ''s3'', as_secretHash := ''H'' @ letters ''k3'' @ ''.'' @ ''s3'', as_grantedTimeMs := 7000,
     as_expireTimeMs := 7000 + SESSION_LIFETIME_MS, as_requestId := Some ''r3''\<rparr>"

definition request3 :: login_request where
  "request3 = request2\<lparr>lr_requestId := ''r3'', lr_secretHash := ''P'' @ letters ''111111'' @ ''.'' @ ''r3'', lr_requestTimeMs := 6000,
     lr_expireTimeMs := 6000 + LOGIN_REQUEST_LIFETIME_MS\<rparr>"

definition key3 :: string where "key3 = formatV1SessionKey letters ''u1'' ''s3'' ''k3'' (7000 + SESSION_LIFETIME_MS)"

lemma auth7_eq: "auth7 = auth4\<lparr>ma_users := [user1\<lparr>au_currentLoginRequestId := Some ''r2'', au_allSessionRevokeTimeMs := Val 5000\<rparr>]\<rparr>"
    "revokeAllSessions demo_crypto memory_auth_ops 5000 auth4 (Some ''u1'') (Some key1) = (Inr (), auth7)"
proof -
  have "revokeAllSessions demo_crypto memory_auth_ops 5000 auth4 (Some ''u1'') (Some key1) =
      (Inr (), ma_setRevokeAllSessionsTimeForUser auth4 ''u1'' 5000)"
    by (simp add: revokeAllSessions_def key_for_def demo_keys given_def[of "Some ''u1''"])
  then show "auth7 = auth4\<lparr>ma_users := [user1\<lparr>au_currentLoginRequestId := Some ''r2'', au_allSessionRevokeTimeMs := Val 5000\<rparr>]\<rparr>"
    and "revokeAllSessions demo_crypto memory_auth_ops 5000 auth4 (Some ''u1'') (Some key1) = (Inr (), auth7)"
    by (simp_all add: auth7_def ma_setRevokeAllSessionsTimeForUser_def ma_findUser_def ma_saveUser_def auth4_eq user1_def new_auth_user_def)
qed

lemma auth8_eq: "auth8 = auth7\<lparr>ma_users := [user1\<lparr>au_currentLoginRequestId := Some ''r3'', au_allSessionRevokeTimeMs := Val 5000\<rparr>],
    ma_loginRequests := ma_loginRequests auth7 @ [request3]\<rparr>"
  by (simp add: auth8_def auth7_eq(1) auth4_eq login_simps demo_simps request3_def)

lemma auth9_eq: "auth9 = auth8\<lparr>ma_loginRequests := ma_loginRequests auth7 @ [request3\<lparr>lr_completedTimeMs := Some 7000\<rparr>],
    ma_sessions := [session1, session2, session3]\<rparr>"
  by (simp add: auth9_def auth8_eq auth7_eq(1) auth4_eq complete_simps demo_simps request3_def session3_def)

lemma auth9_key: "validateSessionKey demo_crypto memory_auth_ops 8000 auth9 (Some key3) =
    Inr \<lparr>ki_userId = ''u1'', ki_sessionId = ''s3'', ki_allSessionsRevokedTimeMs = Val 5000\<rparr>"
  by (simp add: auth9_eq auth8_eq auth7_eq(1) auth4_eq key_simps key3_def demo_simps session3_def)

lemma auth9_run: "\<exists>m. auth_run demo_crypto demo_re memory_messenger_ops memory_auth_ops (5000, [], auth7) (7000, m, auth9)"
proof -
  obtain r m s where run: "requestLogin demo_crypto demo_re memory_messenger_ops memory_auth_ops 6000 ''u9'' ''r3'' ''111111'' []
      auth7 demo_login = (r, m, s)" by (rule prod_cases3)
  then have s: "s = auth8" by (simp add: auth8_def)
  obtain r2 s2 where run2: "completeLogin demo_crypto memory_auth_ops 7000 ''s3'' ''k3'' auth8 (demo_complete ''r3'' ''111111'') = (r2, s2)"
    by fastforce
  have "unused memory_auth_ops auth8 ''s3''"
    by (simp add: unused_def auth8_eq auth7_eq(1) auth4_eq session_key_def session1_def session2_def)
  then have step: "auth_step demo_crypto demo_re memory_messenger_ops memory_auth_ops 7000 (m, auth8) (m, auth9)"
    using step_complete[OF run2] run2 by (simp add: auth9_def)
  have "auth_run demo_crypto demo_re memory_messenger_ops memory_auth_ops (5000, [], auth7) (6000, m, auth8)"
    using run_more[OF run_none _ step_request[OF run], of 5000] s by simp
  from run_more[OF this _ step] show ?thesis by auto
qed

theorem revoke_all_ends_sessions_witness:
  "validateSessionKey demo_crypto memory_auth_ops 8000 auth9 (Some key3) =
     Inr \<lparr>ki_userId = ''u1'', ki_sessionId = ''s3'', ki_allSessionsRevokedTimeMs = Val 5000\<rparr> \<and> (''u1'', ''s3'') \<noteq> (''u1'', ''s1'')"
proof -
  have "ma_findSession auth4 ''u1'' ''s1'' = Some session1" by (simp add: auth4_eq ma_findSession_def session1_def)
  moreover have "as_grantedTimeMs session1 \<le> 5000" by (simp add: session1_def)
  ultimately show ?thesis
    using auth9_run revoke_all_ends_sessions[OF auth7_eq(2) _ _ _ _ auth9_key, of "''s1''" session1 demo_re memory_messenger_ops "[]" 7000] auth9_key
    by auto
qed

section \<open>Trying codes\<close>

text \<open>C31: However many attempts are made to complete a login request, at most five of them in all reach the code and
  fail, counting those before, and at most one gets a session; a request that is completed gives none.\<close>

theorem code_attempts_bounded:
  assumes "ma_findLoginRequest s u r = Some q" and "\<forall>(now, _)\<in>set xs. 0 < now"
  shows "lr_attemptCount q + wrong_codes (u, r) (attempts C memory_auth_ops s xs) \<le> max 5 (lr_attemptCount q) \<and>
    sessions_granted (u, r) (attempts C memory_auth_ops s xs) \<le> (if positive (lr_completedTimeMs q) then 0 else 1)"
proof -
  have "request_at memory_auth_ops s (u, r) = Some (Some q)"
    using assms(1) by (simp add: request_at_def memory_auth_ops_def del: memory_auth_at)
  from ma.attempts_bound[OF this assms(2), of C] show ?thesis by (auto simp: MAX_LOGIN_REQUEST_ATTEMPTS_def split: if_splits)
qed

text \<open>Six wrong codes and the right one: five attempts count, and then the right code is too late.\<close>

definition demo_attempts :: "string list \<Rightarrow> (complete_args \<times> (auth_error + session_info)) list" where
  "demo_attempts codes = attempts demo_crypto memory_auth_ops auth1 (map (\<lambda>c. (2000, ''s1'', ''k1'', demo_complete ''r1'' c)) codes)"

theorem code_attempts_bounded_witness:
  "wrong_codes (''u1'', ''r1'') (demo_attempts [''1'', ''2'', ''3'', ''4'', ''5'', ''6'', ''123456'']) = 5 \<and>
   sessions_granted (''u1'', ''r1'') (demo_attempts [''1'', ''123456'', ''123456'']) = 1"
proof -
  have "ma_findLoginRequest auth1 ''u1'' ''r1'' = Some request1" by (simp add: auth1_eq ma_findLoginRequest_def request1_def)
  from code_attempts_bounded[OF this, of "map (\<lambda>c. (2000, ''s1'', ''k1'', demo_complete ''r1'' c)) [''1'', ''2'', ''3'', ''4'', ''5'', ''6'', ''123456'']" demo_crypto]
  have "wrong_codes (''u1'', ''r1'') (demo_attempts [''1'', ''2'', ''3'', ''4'', ''5'', ''6'', ''123456'']) \<le> 5"
    by (simp add: demo_attempts_def request1_def)
  moreover have "wrong_codes (''u1'', ''r1'') (demo_attempts [''1'', ''2'', ''3'', ''4'', ''5'', ''6'', ''123456'']) \<ge> 5"
    by (simp add: demo_attempts_def auth1_eq complete_simps ma_incrementLoginRequestAttemptCount_def wrong_codes_def names_request_def demo_simps)
  moreover have "sessions_granted (''u1'', ''r1'') (demo_attempts [''1'', ''123456'', ''123456'']) = 1"
    by (simp add: demo_attempts_def auth1_eq complete_simps ma_incrementLoginRequestAttemptCount_def sessions_granted_def names_request_def demo_simps)
  ultimately show ?thesis by simp
qed

section \<open>Logging in\<close>

context session_store
begin

lemma new_key_valid:
  assumes "crypto_ok C" and "u \<noteq> []" and "i \<noteq> []" and "secret \<noteq> []"
    and "session_at ops s (u, i) = Some (Some a)" and "verify C secret i (as_secretHash a) = Some True"
    and "st_findUser ops s u = Some (Some x)" and "live_session now a" and "user_admits x a"
  shows "validateSessionKey C ops now s (Some (formatV1SessionKey (enc64 C) u i secret e)) =
    Inr \<lparr>ki_userId = u, ki_sessionId = i, ki_allSessionsRevokedTimeMs = au_allSessionRevokeTimeMs x\<rparr>"
proof -
  have "as_userId a = u" "as_sessionId a = i" using session_ids[OF assms(5)] by auto
  with assms show ?thesis unfolding validate_Inr by (intro exI[of _ a] exI[of _ x]) (simp add: key_opens)
qed

lemma replaceSession_succeeds:
  assumes "validateSessionKey C ops now s key = Inr k" and "given key" and "given ip"
  shows "\<exists>x s'. replaceSession C ops now i secret s key ip = (Inr x, s')"
proof -
  obtain a where "st_findSession ops s (ki_userId k) (ki_sessionId k) = Some (Some a)"
    using assms(1) by (auto simp: validate_Inr opens_def session_at_def)
  moreover have "st_saveSession ops s b \<noteq> None" for s b using save_session[of s b] by auto
  ultimately show ?thesis using assms by (auto simp: replaceSession_def Let_def split: option.splits) (metis option.distinct(1))
qed

lemma replaced_exactly:
  assumes run: "replaceSession C ops t i secret s key ip = (r, s1)" and a: "opens C ops t s key a u" and "given ip"
  shows "\<exists>b. as_userId b = as_userId a \<and> as_sessionId b = i \<and> as_grantedTimeMs b = t \<and> as_expireTimeMs b = t + SESSION_LIFETIME_MS \<and>
    as_revokeTimeMs b = None \<and> as_secretHash b = hashPasswordWithSalt C secret i \<and> as_previousSessionId b = Some (as_sessionId a) \<and>
    r = Inr \<lparr>si_userId = as_userId a, si_sessionKey = formatV1SessionKey (enc64 C) (as_userId a) i secret (as_expireTimeMs b),
             si_expireTimeMs = as_expireTimeMs b\<rparr> \<and>
    session_at ops s1 = (session_at ops s)
          ((as_userId a, as_sessionId a) := Some (Some (a\<lparr>as_nextSessionId := Some i, as_revokeTimeMs := Some t\<rparr>)),
           (as_userId a, i) := Some (Some b))"
proof -
  obtain k where k: "validateSessionKey C ops t s key = Inr k" using a unfolding validate_Inr by blast
  have key: "given key" using a by (simp add: opens_def)
  obtain x where r: "r = Inr x" using replaceSession_succeeds[OF k key assms(3), of i secret] run by fastforce
  have same: "a' = a" if a': "opens C ops t s key a' u'" for a' u'
  proof -
    have parts: "\<exists>x. parseSessionKey (dec64 C) (the key) = Some (as_userId b, as_sessionId b, x) \<and>
        session_at ops s (as_userId b, as_sessionId b) = Some (Some b)" if "opens C ops t s key b v" for b v
      using that unfolding opens_def by blast
    from parts[OF a] obtain x where x: "parseSessionKey (dec64 C) (the key) = Some (as_userId a, as_sessionId a, x)"
      "session_at ops s (as_userId a, as_sessionId a) = Some (Some a)" by (elim exE conjE)
    from parts[OF a'] obtain x' where "parseSessionKey (dec64 C) (the key) = Some (as_userId a', as_sessionId a', x')"
      "session_at ops s (as_userId a', as_sessionId a') = Some (Some a')" by (elim exE conjE)
    with x show ?thesis by simp
  qed
  from replaceSession_effect[OF run] r show ?thesis
    apply (elim conjE disjE exE)
     apply simp
    apply (drule same)
    apply (rule exI)
    apply (intro conjI; (assumption | simp)?)
    done
qed

end

context auth_store
begin

lemma completeLogin_succeeds:
  assumes "bad_complete_args args = None" and "k = (the (ca_userId args), the (ca_requestId args))"
    and "request_at ops s k = Some (Some q)" and "open_request now (ca_ipAddress args) q"
    and "verify C (the (ca_code args)) (lr_requestId q) (lr_secretHash q) = Some True"
    and "st_findUser ops s (fst k) = Some (Some x)" and "au_currentLoginRequestId x = Some (snd k)"
  shows "\<exists>a s'. completeLogin C ops now i secret s args =
      (Inr \<lparr>si_userId = fst k, si_sessionKey = formatV1SessionKey (enc64 C) (fst k) i secret (as_expireTimeMs a),
            si_expireTimeMs = as_expireTimeMs a\<rparr>, s') \<and>
    as_grantedTimeMs a = now \<and> as_expireTimeMs a = now + SESSION_LIFETIME_MS \<and> as_revokeTimeMs a = None \<and>
    as_secretHash a = hashHighEntropyPasswordWithSalt C secret i \<and> session_at ops s' (fst k, i) = Some (Some a) \<and>
    st_findUser ops s' = st_findUser ops s"
proof -
  have ids: "lr_userId q = fst k" "lr_requestId q = snd k" using request_ids[OF assms(3)] by auto
  have "st_findLoginRequest ops s (the (ca_userId args)) (the (ca_requestId args)) = Some (Some q)"
    using assms(2,3) by (simp add: request_at_def)
  then have "completeLogin C ops now i secret s args = grant_session C ops now i secret s q (the (ca_ipAddress args))"
    using assms ids by (simp add: completeLogin_def)
  then show ?thesis using grant_session_effect[of s q C now i secret "the (ca_ipAddress args)"] assms(3) ids by auto
qed

end

lemma finish_login_memory:
  assumes "finish_login memory_auth_ops s q = (r, s1)" and "ma_findUser s (lr_userId q) = Some x"
  shows "r = Inr \<lparr>li_userId = lr_userId q, li_requestId = lr_requestId q, li_address = lr_address q,
      li_addressType = lr_addressType q, li_expireTimeMs = lr_expireTimeMs q\<rparr> \<and>
    request_at memory_auth_ops s1 (lr_userId q, lr_requestId q) = Some (Some q) \<and>
    ma_findUser s1 (lr_userId q) = Some (x\<lparr>au_currentLoginRequestId := Some (lr_requestId q)\<rparr>)"
  using ma.finish_login_effect[of s q] assms findUser_memory[of s "lr_userId q"] findUser_memory[of s1 "lr_userId q"]
  by (auto simp: changed_at_def simp del: memory_auth_at)

text \<open>What a successful request leaves behind.\<close>

lemma requestLogin_memory:
  assumes run: "requestLogin C re memory_messenger_ops memory_auth_ops now uid rid code m s args = (Inr info, m1, s1)"
    and ids: "distinct (map au_id (ma_users s))" and new: "ma_findUser s uid = None"
  shows "m1 = m @ [(the (la_address args), the (la_addressType args), code)] \<and> li_requestId info = rid \<and>
    (\<exists>x q. request_at memory_auth_ops s1 (li_userId info, rid) = Some (Some q) \<and> lr_requestId q = rid \<and>
       lr_secretHash q = hashPasswordWithSalt C code rid \<and> lr_expireTimeMs q = now + LOGIN_REQUEST_LIFETIME_MS \<and>
       lr_completedTimeMs q = None \<and> lr_attemptCount q = 0 \<and> la_ipAddress args = Some (lr_ipAddress q) \<and> given (la_ipAddress args) \<and>
       ma_findUser s1 (li_userId info) = Some x \<and> au_currentLoginRequestId x = Some rid \<and> \<not> positive (au_banTimeMs x))"
proof -
  have args: "bad_login_args args = None" using run by (auto simp: requestLogin_def split: option.splits)
  then have ip: "given (la_ipAddress args)" "la_ipAddress args = Some (the (la_ipAddress args))"
    and addr: "given (la_address args)"
    by (auto simp: bad_login_args_def given_def split: if_splits)
  let ?addr = "the (la_address args)" and ?ty = "the (la_addressType args)"
  let ?q = "\<lambda>u. \<lparr>lr_userId = u, lr_requestId = rid, lr_secretHash = hashPasswordWithSalt C code rid, lr_requestTimeMs = now,
     lr_expireTimeMs = now + LOGIN_REQUEST_LIFETIME_MS, lr_completedTimeMs = None, lr_attemptCount = 0, lr_address = ?addr,
     lr_addressType = ?ty, lr_ipAddress = the (la_ipAddress args)\<rparr>"
  have "\<exists>x s0. m1 = m @ [(?addr, ?ty, code)] \<and> ma_findUser s0 (au_id x) = Some x \<and> \<not> positive (au_banTimeMs x) \<and>
      finish_login memory_auth_ops s0 (?q (au_id x)) = (Inr info, s1)"
  proof (cases "ma_findUserByAddress s ?addr ?ty")
    case (Some x)
    then have "ma_findUser s (au_id x) = Some x"
      using find_distinct[OF ids] by (auto simp: ma_findUserByAddress_def ma_findUser_def dest: find_property)
    moreover have "send_login C memory_messenger_ops memory_auth_ops now rid code m s args False x = (Inr info, m1, s1)"
      using run args Some by (simp add: requestLogin_def memory_messenger_ops_def)
    ultimately show ?thesis
      by (auto simp: send_login_def save_login_def memory_messenger_ops_def Let_def split: if_splits prod.splits)
  next
    case None
    let ?x = "new_auth_user uid ?addr ?ty" and ?s0 = "s\<lparr>ma_users := ma_users s @ [new_auth_user uid (the (la_address args)) (the (la_addressType args))]\<rparr>"
    have send: "send_login C memory_messenger_ops memory_auth_ops now rid code m s args True ?x = (Inr info, m1, s1)"
      using run args None by (auto simp: requestLogin_def memory_messenger_ops_def Let_def split: if_splits)
    have "ma_saveNewUser s ?x = (True, ?s0)"
      using None addr by (auto simp: ma_saveNewUser_def ma_findUserByAddress_def new_auth_user_def find_None_iff given_def split: address_type.splits)
    with send have "m1 = m @ [(?addr, ?ty, code)]" "finish_login memory_auth_ops ?s0 (?q uid) = (Inr info, s1)"
      by (auto simp: send_login_def save_login_def memory_messenger_ops_def Let_def new_auth_user_def split: if_splits prod.splits)
    moreover have "ma_findUser ?s0 uid = Some ?x" using new by (simp add: ma_findUser_def find_append new_auth_user_def)
    ultimately show ?thesis by (intro exI[of _ ?x] exI[of _ ?s0]) (simp add: new_auth_user_def positive_def)
  qed
  then obtain x s0 where x: "m1 = m @ [(?addr, ?ty, code)]" "ma_findUser s0 (au_id x) = Some x" "\<not> positive (au_banTimeMs x)"
      "finish_login memory_auth_ops s0 (?q (au_id x)) = (Inr info, s1)" by blast
  from finish_login_memory[OF x(4), of x] x(2)
  have "info = \<lparr>li_userId = au_id x, li_requestId = rid, li_address = ?addr, li_addressType = ?ty,
      li_expireTimeMs = now + LOGIN_REQUEST_LIFETIME_MS\<rparr>"
    "request_at memory_auth_ops s1 (au_id x, rid) = Some (Some (?q (au_id x)))"
    "ma_findUser s1 (au_id x) = Some (x\<lparr>au_currentLoginRequestId := Some rid\<rparr>)" by simp_all
  with x(1,3) ip show ?thesis
    by (intro conjI exI[of _ "x\<lparr>au_currentLoginRequestId := Some rid\<rparr>"] exI[of _ "?q (au_id x)"]) simp_all
qed

text \<open>C27: Logging in works: when a request for a login succeeds, the last message went to the address that was given and holds the
  code. If the next thing that happens in the store is that this code is sent for that request, from the same IP address and
  before the request expires, the answer is a key, and on the store that this leaves the key is accepted for that user at every
  time before the session expires two weeks later. (Nothing is said of what happens after other calls in between, such as
  wrong codes or a second request. The ids of the users are distinct, the id for a new user is not in use, no id, code or secret is
  empty, the codes of the keys and the hashes do what their documentation says, and no time at which the user revoked all sessions
  is later than the completion or equal to it.)\<close>

theorem login_gives_session:
  assumes "crypto_ok C" and "distinct (map au_id (ma_users s))" and "ma_findUser s uid = None"
    and "requestLogin C re memory_messenger_ops memory_auth_ops t1 uid rid code m s args = (Inr info, m1, s1)"
    and "t2 < t1 + LOGIN_REQUEST_LIFETIME_MS"
    and "\<forall>x t. ma_findUser s1 (li_userId info) = Some x \<and> au_allSessionRevokeTimeMs x = Val t \<longrightarrow> t < t2"
    and "li_userId info \<noteq> []" and "rid \<noteq> []" and "code \<noteq> []" and "i \<noteq> []" and "secret \<noteq> []"
  shows "m1 = m @ [(the (la_address args), the (la_addressType args), code)] \<and>
    (\<exists>key s2. completeLogin C memory_auth_ops t2 i secret s1 \<lparr>ca_userId = Some (li_userId info), ca_requestId = Some (li_requestId info),
         ca_code = Some code, ca_ipAddress = la_ipAddress args\<rparr> =
       (Inr \<lparr>si_userId = li_userId info, si_sessionKey = key, si_expireTimeMs = t2 + SESSION_LIFETIME_MS\<rparr>, s2) \<and>
     (\<forall>now. now < t2 + SESSION_LIFETIME_MS \<longrightarrow>
        (\<exists>k. validateSessionKey C memory_auth_ops now s2 (Some key) = Inr k \<and> ki_userId k = li_userId info \<and> ki_sessionId k = i)))"
proof -
  let ?u = "li_userId info"
  let ?args = "\<lparr>ca_userId = Some ?u, ca_requestId = Some (li_requestId info), ca_code = Some code, ca_ipAddress = la_ipAddress args\<rparr>"
  obtain x q where m1: "m1 = m @ [(the (la_address args), the (la_addressType args), code)]" and rid: "li_requestId info = rid"
      and q: "request_at memory_auth_ops s1 (?u, rid) = Some (Some q)" "lr_requestId q = rid"
        "lr_secretHash q = hashPasswordWithSalt C code rid" "lr_expireTimeMs q = t1 + LOGIN_REQUEST_LIFETIME_MS" "lr_completedTimeMs q = None"
        "lr_attemptCount q = 0" "la_ipAddress args = Some (lr_ipAddress q)" "given (la_ipAddress args)"
      and x: "ma_findUser s1 ?u = Some x" "au_currentLoginRequestId x = Some rid" "\<not> positive (au_banTimeMs x)"
    using requestLogin_memory[OF assms(4,2,3)] by blast
  from assms(6) x(1,3) have admits: "user_admits x a" if "as_grantedTimeMs a = t2" for a using that by (auto simp: user_admits_def)
  have "bad_complete_args ?args = None" using assms(7-9) q(8) rid by (simp add: bad_complete_args_def given_def)
  moreover have "open_request t2 (ca_ipAddress ?args) q"
    using q(4-7) assms(5) by (simp add: open_request_def positive_def MAX_LOGIN_REQUEST_ATTEMPTS_def)
  moreover have "verify C code rid (hashPasswordWithSalt C code rid) = Some True" using assms(1) by (simp add: crypto_ok_def)
  ultimately obtain a s2 where completed: "completeLogin C memory_auth_ops t2 i secret s1 ?args =
      (Inr \<lparr>si_userId = ?u, si_sessionKey = formatV1SessionKey (enc64 C) ?u i secret (as_expireTimeMs a),
            si_expireTimeMs = as_expireTimeMs a\<rparr>, s2)" and a: "as_grantedTimeMs a = t2" "as_expireTimeMs a = t2 + SESSION_LIFETIME_MS"
      "as_revokeTimeMs a = None" "as_secretHash a = hashHighEntropyPasswordWithSalt C secret i"
      "session_at memory_auth_ops s2 (?u, i) = Some (Some a)" "st_findUser memory_auth_ops s2 = st_findUser memory_auth_ops s1"
    using ma.completeLogin_succeeds[of ?args "(?u, rid)" s1 q t2 C x i secret] q x rid findUser_memory[of s1 ?u]
    by (auto simp del: memory_auth_at)
  have "\<exists>k. validateSessionKey C memory_auth_ops now s2 (Some (formatV1SessionKey (enc64 C) ?u i secret (as_expireTimeMs a))) = Inr k \<and>
      ki_userId k = ?u \<and> ki_sessionId k = i" if "now < t2 + SESSION_LIFETIME_MS" for now
    using ms.new_key_valid[OF assms(1,7,10,11) a(5), of x now "as_expireTimeMs a"] a(1-4,6) admits[OF a(1)] x(1) that assms(1)
      findUser_memory[of s1 ?u]
    by (auto simp: crypto_ok_def live_session_def truthy_def simp del: memory_auth_at)
  with m1 completed a(2) show ?thesis by auto
qed

theorem login_gives_session_witness:
  "\<exists>key s2. completeLogin demo_crypto memory_auth_ops 2000 ''s1'' ''k1'' auth1 (demo_complete ''r1'' ''123456'') =
       (Inr \<lparr>si_userId = ''u1'', si_sessionKey = key, si_expireTimeMs = 2000 + SESSION_LIFETIME_MS\<rparr>, s2) \<and>
     (\<exists>k. validateSessionKey demo_crypto memory_auth_ops 9000 s2 (Some key) = Inr k \<and> ki_userId k = ''u1'' \<and> ki_sessionId k = ''s1'')"
proof -
  let ?info = "\<lparr>li_userId = ''u1'', li_requestId = ''r1'', li_address = ''a@b.c'', li_addressType = EmailAddress,
     li_expireTimeMs = 1000 + LOGIN_REQUEST_LIFETIME_MS\<rparr>"
  have run: "requestLogin demo_crypto demo_re memory_messenger_ops memory_auth_ops 1000 ''u1'' ''r1'' ''123456'' [] new_memory_auth demo_login =
      (Inr ?info, [(''a@b.c'', EmailAddress, ''123456'')], auth1)"
    by (simp add: auth1_eq new_memory_auth_def demo_simps login_simps)
  have "\<forall>x t. ma_findUser auth1 (li_userId ?info) = Some x \<and> au_allSessionRevokeTimeMs x = Val t \<longrightarrow> t < 2000"
    by (simp add: auth1_eq demo_simps ma_findUser_def)
  from login_gives_session[OF demo_crypto_ok _ _ run _ this, of "''s1''" "''k1''"] show ?thesis
    by (auto simp: new_memory_auth_def ma_findUser_def LOGIN_REQUEST_LIFETIME_MS_def SESSION_LIFETIME_MS_def demo_complete_def demo_login_def)
qed

section \<open>Replacing a session\<close>

text \<open>A key that is accepted can be exchanged for another: the new key is accepted for the same user until two weeks later, it
  names a new session, which refers to the old one, and the old session is not accepted from then on, whatever is done later.\<close>

theorem session_is_replaced:
  assumes "crypto_ok C" and "validateSessionKey C memory_auth_ops t s key = Inr k" and "given (Some ip)"
    and "unused memory_auth_ops s i" and "i \<noteq> []" and "secret \<noteq> []" and "ki_userId k \<noteq> []" and "0 < t"
    and "\<forall>x\<in>set (ma_users s). \<forall>r. au_allSessionRevokeTimeMs x = Val r \<longrightarrow> r < t"
  shows "\<exists>key' s1. replaceSession C memory_auth_ops t i secret s key (Some ip) =
      (Inr \<lparr>si_userId = ki_userId k, si_sessionKey = key', si_expireTimeMs = t + SESSION_LIFETIME_MS\<rparr>, s1) \<and>
    (\<exists>b. ma_findSession s1 (ki_userId k) i = Some b \<and> as_previousSessionId b = Some (ki_sessionId k)) \<and>
    (\<forall>now. now < t + SESSION_LIFETIME_MS \<longrightarrow>
       (\<exists>k'. validateSessionKey C memory_auth_ops now s1 (Some key') = Inr k' \<and> ki_userId k' = ki_userId k \<and> ki_sessionId k' = i)) \<and>
    (\<forall>re mops m t' m' s' now key'' k''. auth_run C re (mops :: 'm messenger_ops) memory_auth_ops (t, m, s1) (t', m', s') \<and> t' \<le> now \<and>
       validateSessionKey C memory_auth_ops now s' key'' = Inr k'' \<longrightarrow> (ki_userId k'', ki_sessionId k'') \<noteq> (ki_userId k, ki_sessionId k))"
proof -
  obtain r s1 where run: "replaceSession C memory_auth_ops t i secret s key (Some ip) = (r, s1)" by fastforce
  obtain a u where a: "opens C memory_auth_ops t s key a u" and k: "ki_userId k = as_userId a" "ki_sessionId k = as_sessionId a"
    using assms(2) unfolding ms.validate_Inr by fastforce
  then have at_a: "session_at memory_auth_ops s (as_userId a, as_sessionId a) = Some (Some a)"
    and u: "st_findUser memory_auth_ops s (as_userId a) = Some (Some u)" by (simp_all only: opens_def)
  have other: "as_sessionId a \<noteq> i" using ma.unused_other[OF assms(4) at_a] by blast
  have users: "st_findUser memory_auth_ops s1 = st_findUser memory_auth_ops s" using ms.replaceSession_effect[OF run] by (elim conjE)
  obtain b where b: "as_userId b = as_userId a" "as_sessionId b = i" "as_grantedTimeMs b = t" "as_expireTimeMs b = t + SESSION_LIFETIME_MS"
      "as_revokeTimeMs b = None" "as_secretHash b = hashPasswordWithSalt C secret i" "as_previousSessionId b = Some (as_sessionId a)"
    and r: "r = Inr \<lparr>si_userId = as_userId a, si_sessionKey = formatV1SessionKey (enc64 C) (as_userId a) i secret (as_expireTimeMs b),
             si_expireTimeMs = as_expireTimeMs b\<rparr>"
    and s1: "session_at memory_auth_ops s1 = (session_at memory_auth_ops s)
          ((as_userId a, as_sessionId a) := Some (Some (a\<lparr>as_nextSessionId := Some i, as_revokeTimeMs := Some t\<rparr>)),
           (as_userId a, i) := Some (Some b))"
    using ms.replaced_exactly[OF run a assms(3)] by (elim exE conjE)
  have old: "revoked_by memory_auth_ops (as_userId a, as_sessionId a) t s1"
    using s1 other assms(8) by (simp add: revoked_by_def del: memory_auth_at)
  have "ma_findUser s (as_userId a) = Some u" using u findUser_memory[of s] by simp
  then have "u \<in> set (ma_users s)" by (auto simp: ma_findUser_def dest: find_property)
  then have admits: "user_admits u b" using assms(9) a b(3) by (auto simp: user_admits_def opens_def)
  have at_b: "session_at memory_auth_ops s1 (as_userId a, i) = Some (Some b)" using s1 by (simp del: memory_auth_at)
  have "\<exists>k'. validateSessionKey C memory_auth_ops now s1 (Some (formatV1SessionKey (enc64 C) (as_userId a) i secret (as_expireTimeMs b))) = Inr k' \<and>
      ki_userId k' = as_userId a \<and> ki_sessionId k' = i" if "now < t + SESSION_LIFETIME_MS" for now
    using ms.new_key_valid[OF assms(1) _ assms(5,6) at_b, of u now "as_expireTimeMs b"] assms(1,7) k(1) b(2-6) u users admits that
    by (simp add: crypto_ok_def live_session_def truthy_def del: memory_auth_at)
  moreover have "\<exists>b. ma_findSession s1 (as_userId a) i = Some b \<and> as_previousSessionId b = Some (as_sessionId a)"
    using at_b b(7) by (simp add: session_at_memory del: memory_auth_at)
  moreover have "(ki_userId k'', ki_sessionId k'') \<noteq> (as_userId a, as_sessionId a)"
    if "auth_run C re (mops :: 'm messenger_ops) memory_auth_ops (t, m, s1) (t', m', s') \<and> t' \<le> now \<and>
       validateSessionKey C memory_auth_ops now s' key'' = Inr k''" for re mops m t' m' s' now key'' k''
  proof -
    from that old ma.run_keeps_dead[of C re mops "(t, m, s1)" "(t', m', s')" "(as_userId a, as_sessionId a)" t]
    have "t \<le> t'" "revoked_by memory_auth_ops (as_userId a, as_sessionId a) t s' \<or> cut_off memory_auth_ops (as_userId a, as_sessionId a) t s'"
      by simp_all
    then show ?thesis using ms.dead_not_accepted[of "(as_userId a, as_sessionId a)" t s' now C key'' k''] that by simp
  qed
  ultimately show ?thesis using run r b(4) k by (simp del: memory_auth_at)
qed

theorem session_is_replaced_witness:
  "\<exists>key' s1. replaceSession demo_crypto memory_auth_ops 5000 ''s3'' ''k3'' auth4 (Some key1) (Some ''2.2'') =
      (Inr \<lparr>si_userId = ''u1'', si_sessionKey = key', si_expireTimeMs = 5000 + SESSION_LIFETIME_MS\<rparr>, s1) \<and>
    (\<exists>k'. validateSessionKey demo_crypto memory_auth_ops 6000 s1 (Some key') = Inr k' \<and> ki_sessionId k' = ''s3'')"
proof -
  have "unused memory_auth_ops auth4 ''s3''" by (simp add: unused_def auth4_eq session_key_def session1_def session2_def)
  moreover have "\<forall>x\<in>set (ma_users auth4). \<forall>r. au_allSessionRevokeTimeMs x = Val r \<longrightarrow> r < 5000"
    by (simp add: auth4_eq user1_def new_auth_user_def)
  ultimately obtain key' s1 where "replaceSession demo_crypto memory_auth_ops 5000 ''s3'' ''k3'' auth4 (Some key1) (Some ''2.2'') =
      (Inr \<lparr>si_userId = ''u1'', si_sessionKey = key', si_expireTimeMs = 5000 + SESSION_LIFETIME_MS\<rparr>, s1)"
    "\<forall>now. now < 5000 + SESSION_LIFETIME_MS \<longrightarrow> (\<exists>k'. validateSessionKey demo_crypto memory_auth_ops now s1 (Some key') = Inr k' \<and>
       ki_userId k' = ''u1'' \<and> ki_sessionId k' = ''s3'')"
    using session_is_replaced[OF demo_crypto_ok demo_keys(1), of "''2.2''" "''s3''" "''k3''"]
    by (simp add: given_def del: memory_auth_at) (elim exE conjE, rule that)
  moreover from this(2)[THEN spec[of _ 6000]] have "\<exists>k'. validateSessionKey demo_crypto memory_auth_ops 6000 s1 (Some key') = Inr k' \<and>
      ki_userId k' = ''u1'' \<and> ki_sessionId k' = ''s3''" by (simp add: SESSION_LIFETIME_MS_def)
  ultimately show ?thesis by (intro exI[of _ key'] exI[of _ s1]) blast
qed

section \<open>A user's own data\<close>

text \<open>A change of a user's data is made only with a key of that user, and touches nothing but the user's names, addresses,
  pictures and, with an active subscription, the key of OpenAI, each of them set to what the request gives: the sessions, the
  login requests, all other users and whether the user is banned, subscribed or has revoked all sessions stay as they are.\<close>

theorem profile_update_is_own:
  assumes "updateUserInfo C memory_auth_ops force now s user key upd = (r, s')"
  shows "(\<exists>e. r = Inl e \<and> s' = s) \<or>
    (\<exists>u d x y k. user = Some u \<and> upd = Some d \<and> r = Inr u \<and> validateSessionKey C memory_auth_ops now s key = Inr k \<and> ki_userId k = u \<and>
       ma_findUser s u = Some x \<and> ma_findUser s' u = Some y \<and> (\<forall>v. v \<noteq> u \<longrightarrow> ma_findUser s' v = ma_findUser s v) \<and>
       ma_sessions s' = ma_sessions s \<and> ma_loginRequests s' = ma_loginRequests s \<and> ma_emailRules s' = ma_emailRules s \<and>
       ma_smsRules s' = ma_smsRules s \<and>
       au_id y = u \<and> au_banTimeMs y = au_banTimeMs x \<and> au_subscriptionStatus y = au_subscriptionStatus x \<and>
       au_subscriptionId y = au_subscriptionId x \<and> au_stripeCustomerId y = au_stripeCustomerId x \<and>
       au_allSessionRevokeTimeMs y = au_allSessionRevokeTimeMs x \<and> au_currentLoginRequestId y = au_currentLoginRequestId x \<and>
       au_name y = (if uu_name d = None then au_name x else uu_name d) \<and> au_email y = (if uu_email d = None then au_email x else uu_email d) \<and>
       au_phoneNumber y = (if uu_phoneNumber d = None then au_phoneNumber x else uu_phoneNumber d) \<and>
       (\<not> force \<and> \<not> isActiveSubscription (au_subscriptionStatus x) \<longrightarrow> au_openAiKey y = au_openAiKey x))"
proof (cases "given user \<and> given key \<and> upd \<noteq> None \<and> (\<exists>k. key_for C memory_auth_ops now s user key = Inr k)")
  case False
  then show ?thesis using assms by (auto simp: updateUserInfo_def split: sum.splits option.splits if_splits)
next
  case True
  then obtain k u d where k: "key_for C memory_auth_ops now s user key = Inr k" "user = Some u" "upd = Some d"
    by (auto simp: given_def)
  then have valid: "validateSessionKey C memory_auth_ops now s key = Inr k" "ki_userId k = u" by (simp_all add: ms.key_for_Inr)
  from valid(1) obtain a x where "opens C memory_auth_ops now s key a x" "ki_userId k = as_userId a" unfolding ms.validate_Inr by fastforce
  with valid(2) have x: "ma_findUser s u = Some x" by (simp add: opens_def findUser_memory del: memory_auth_at)
  then have id: "au_id x = u" by (auto simp: ma_findUser_def dest: find_property)
  let ?y = "updated_user C (force \<or> isActiveSubscription (au_subscriptionStatus x)) x d"
  have "r = Inr u" "s' = ma_saveUser s ?y"
    using assms True k x id by (auto simp: updateUserInfo_def findUser_memory simp del: memory_auth_at(3))
  moreover have "ma_findUser (ma_saveUser s ?y) v = (if v = u then Some ?y else ma_findUser s v)" for v
    using find_replace[of au_id v ?y "ma_users s"] id by (auto simp: ma_findUser_def ma_saveUser_def updated_user_def)
  moreover have "ma_sessions (ma_saveUser s ?y) = ma_sessions s" "ma_loginRequests (ma_saveUser s ?y) = ma_loginRequests s"
    "ma_emailRules (ma_saveUser s ?y) = ma_emailRules s" "ma_smsRules (ma_saveUser s ?y) = ma_smsRules s"
    by (simp_all add: ma_saveUser_def)
  moreover have "au_name ?y = (if uu_name d = None then au_name x else uu_name d)"
    "au_email ?y = (if uu_email d = None then au_email x else uu_email d)"
    "au_phoneNumber ?y = (if uu_phoneNumber d = None then au_phoneNumber x else uu_phoneNumber d)"
    "\<not> force \<and> \<not> isActiveSubscription (au_subscriptionStatus x) \<longrightarrow> au_openAiKey ?y = au_openAiKey x"
    by (simp_all add: updated_user_def keep_def split: option.split)
  moreover have "au_id ?y = u" "au_banTimeMs ?y = au_banTimeMs x" "au_subscriptionStatus ?y = au_subscriptionStatus x"
    "au_subscriptionId ?y = au_subscriptionId x" "au_stripeCustomerId ?y = au_stripeCustomerId x"
    "au_allSessionRevokeTimeMs ?y = au_allSessionRevokeTimeMs x" "au_currentLoginRequestId ?y = au_currentLoginRequestId x"
    using id by (simp_all add: updated_user_def)
  ultimately show ?thesis
    using k(2,3) valid x by (intro disjI2 exI[of _ u] exI[of _ d] exI[of _ x] exI[of _ ?y] exI[of _ k] conjI) simp_all
qed

definition demo_update :: user_update where
  "demo_update = \<lparr>uu_name = Some ''A'', uu_avatarUrl = None, uu_avatarPortraitUrl = None, uu_email = None, uu_phoneNumber = None,
     uu_openAiKey = Some ''x''\<rparr>"

theorem profile_update_is_own_witness:
  "\<exists>y. ma_findUser (snd (updateUserInfo demo_crypto memory_auth_ops False 5000 auth4 (Some ''u1'') (Some key1) (Some demo_update))) ''u1'' = Some y \<and>
     au_name y = Some ''A'' \<and> au_email y = Some ''a@b.c'' \<and> au_openAiKey y = None"
proof -
  obtain r s' where run: "updateUserInfo demo_crypto memory_auth_ops False 5000 auth4 (Some ''u1'') (Some key1) (Some demo_update) = (r, s')"
    by fastforce
  have found: "ma_findUser auth4 ''u1'' = Some (user1\<lparr>au_currentLoginRequestId := Some ''r2''\<rparr>)"
    by (simp add: auth4_eq ma_findUser_def user1_def new_auth_user_def)
  have "r = Inr ''u1''"
    using run by (auto simp: updateUserInfo_def key_for_def demo_keys given_def[of "Some ''u1''"] findUser_memory found user1_def
        new_auth_user_def simp del: memory_auth_at)
  with profile_update_is_own[OF run] show ?thesis unfolding run
    by (auto simp: found user1_def new_auth_user_def demo_update_def isActiveSubscription_def)
qed

section \<open>The limit on requests\<close>

text \<open>C32: From a request that opens a window on, exactly the first \<open>maxHits\<close> requests of an address within that window are allowed,
  whatever other addresses do.\<close>

theorem rate_limit_exact:
  assumes "window_over t l ip" and "0 \<le> ml_windowMs l" and "\<forall>(u, _)\<in>set qs. u \<le> t + ml_windowMs l"
  shows "allowed_from ip (fst (check_all maxHits l ((t, ip) # qs))) = min (requests_from ip ((t, ip) # qs)) (nat maxHits)"
  using allowed_from_start[OF assms, of maxHits] by (simp add: requests_from_def)

theorem rate_limit_exact_witness:
  "allowed_from ''a'' (fst (check_all 2 (limiter_init 100 new_limiter)
     [(10, ''a''), (20, ''b''), (30, ''a''), (40, ''a''), (110, ''a'')])) = 2"
  using rate_limit_exact[of 10 "limiter_init 100 new_limiter" "''a''" "[(20, ''b''), (30, ''a''), (40, ''a''), (110, ''a'')]" 2]
  by (simp add: window_over_def limiter_init_def new_limiter_def requests_from_def)

section \<open>What the comments do not foresee\<close>

text \<open>
  Changing the address of an account needs no proof that it is the user's: whoever enters another person's
  address first gets that person's later logins into the own account.
\<close>

definition taken_address :: memory_auth where
  "taken_address = snd (updateUserInfo demo_crypto memory_auth_ops False 5000 auth4 (Some ''u1'') (Some key1)
     (Some (demo_update\<lparr>uu_email := Some ''v@w.x''\<rparr>)))"

lemma address_not_verified:
  "ma_findUserByAddress taken_address ''v@w.x'' EmailAddress \<noteq> None \<and>
   (\<exists>info m s. requestLogin demo_crypto demo_re memory_messenger_ops memory_auth_ops 6000 ''u2'' ''r3'' ''111111'' [] taken_address
      (demo_login\<lparr>la_address := Some ''v@w.x''\<rparr>) = (Inr info, m, s) \<and> li_userId info = ''u1'')"
proof -
  let ?x = "user1\<lparr>au_name := Some ''A'', au_email := Some ''v@w.x'', au_currentLoginRequestId := Some ''r2''\<rparr>"
  have found: "ma_findUser auth4 ''u1'' = Some (user1\<lparr>au_currentLoginRequestId := Some ''r2''\<rparr>)"
    by (simp add: auth4_eq ma_findUser_def user1_def new_auth_user_def)
  have "taken_address = ma_saveUser auth4 ?x"
    by (simp add: taken_address_def updateUserInfo_def key_for_def demo_keys given_def[of "Some ''u1''"] findUser_memory found
        updated_user_def keep_def demo_update_def isActiveSubscription_def user1_def new_auth_user_def del: memory_auth_at)
  then have eq: "taken_address = auth4\<lparr>ma_users := [?x]\<rparr>" by (simp add: ma_saveUser_def auth4_eq user1_def new_auth_user_def)
  show ?thesis unfolding eq by (simp add: auth4_eq login_simps demo_simps)
qed

text \<open>Rules that only deny reject every address.\<close>

lemma deny_only_rejects:
  assumes "rules \<noteq> []" and "\<forall>r\<in>set rules. rr_type r = DenyRule"
  shows "isStringValid re v rules \<noteq> Some True"
proof -
  have "\<not> first_match v ps" if "compile_rules re rules = Some ps" "\<forall>r\<in>set rules. rr_type r = DenyRule" for ps rules
    using that by (induction rules arbitrary: ps) (auto split: bind_splits if_splits)
  with assms show ?thesis by (auto simp: isStringValid_def)
qed

text \<open>
  \<^verbatim>\<open>decrement\<close> adds the amount, and without an amount the count is not a number any more: then no request is refused.
\<close>

lemma decrement_increments:
  "checkRateLimit memory_increment 1 20 (limiter_decrement 10 (limiter_init 100 new_limiter) ''a'' (Some 1)) ''a'' =
     (Inl RateLimitExceeded, snd (checkRateLimit memory_increment 1 20 (limiter_decrement 10 (limiter_init 100 new_limiter) ''a'' (Some 1)) ''a''))"
  by (simp add: checkRateLimit_memory limiter_decrement_def limiter_getState_def limiter_init_def new_limiter_def add_count_def)

lemma decrement_lifts_limit:
  assumes "0 \<le> ml_windowMs l" and "window_over t l ip" and "now \<le> t + ml_windowMs l"
  shows "fst (checkRateLimit memory_increment maxHits now (limiter_decrement t l ip None) ip) = Inr ()"
proof -
  have "limiter_getState now (limiter_decrement t l ip None) ip = \<lparr>hit_count = None, resetTimeMs = t + ml_windowMs l\<rparr>"
    using window_opens[OF assms(2,1)] assms(3) by (simp add: limiter_decrement_def limiter_getState_def add_count_def)
  then show ?thesis by (simp add: checkRateLimit_memory add_count_def)
qed

end
