(* ===== verification/SubscriptionClaims.thy ===== *)
theory SubscriptionClaims
  imports SubscriptionSpec AuthClaims
begin

text \<open>
  Properties of subscriptions over the store in memory, for any Stripe, with an example that goes from a user's
  first link to what the user is told after the payment, and what the code does on some inputs.
\<close>

section \<open>An example\<close>

text \<open>A Stripe that sells one product, keeps a list of what it was asked to do, and signs with the secret itself.\<close>

definition demo_price :: stripe_price where
  "demo_price = \<lparr>sp_id = ''price1'', sp_interval = Month, sp_intervalCount = 1, sp_currency = ''usd'', sp_unitAmount = 900\<rparr>"

definition demo_event :: "string \<Rightarrow> string \<Rightarrow> stripe_event" where
  "demo_event product status =
     \<lparr>ev_type = ''customer.subscription.updated'',
      ev_object = Some \<lparr>ws_items = [product], ws_status = status, ws_customer = ''cus1''\<rparr>\<rparr>"

definition demo_stripe :: "string list stripe_ops" where
  "demo_stripe =
     \<lparr>sx_publishableKey = ''pk'',
      sx_getProductAndPriceInfo = (\<lambda>x p. Some (if p = ''prod1'' \<or> p = ''prod2''
        then Some \<lparr>sd_id = p, sd_name = ''Pro'', sd_description = ''All'', sd_defaultPrice = demo_price\<rparr> else None)),
      sx_createCheckoutSession = (\<lambda>x f. (Some ''/pay'', x @ [''checkout''])),
      sx_createPortalSession = (\<lambda>x f. (Some ''/portal'', x @ [''portal''])),
      sx_createCustomer = (\<lambda>x q. (Some ''cus1'', x @ [''customer''])),
      sx_listActiveSubscriptionsForCustomer = (\<lambda>x c. Some []),
      sx_constructWebhookEvent = (\<lambda>b g k. if g = k then Some (demo_event ''prod1'' b) else None)\<rparr>"

definition demo_plan :: plan where
  "demo_plan = \<lparr>sub_id = ''pro'', sub_defaultSubscription = True, sub_tier = Some ''gold'', plan_product = ''prod1'',
     plan_featureList = [''f''], plan_eligibleProducts = [''prod1''], plan_purchasable = None\<rparr>"

definition hidden_plan :: plan where
  "hidden_plan = \<lparr>sub_id = ''old'', sub_defaultSubscription = False, sub_tier = Some ''old'', plan_product = ''prod2'',
     plan_featureList = [], plan_eligibleProducts = [''prod2''], plan_purchasable = Some False\<rparr>"

definition demo_config :: subscription_config where
  "demo_config = \<lparr>sc_subscriptions = [demo_plan, hidden_plan], sc_checkoutConfig = None, sc_portalConfig = None, sc_webhookSecret = ''w'',
     sc_successUrl = ''/s'', sc_cancelUrl = ''/c'', sc_returnUrl = ''/r''\<rparr>"

definition demo_link :: link_request where
  "demo_link = \<lparr>lk_sessionKey = Some key1, lk_userId = Some ''u1'', lk_subscriptionId = Inr None, lk_expectedPrice = Inr None\<rparr>"

text \<open>The user of the example, before and after the first link.\<close>

definition user2 :: auth_user where "user2 = user1\<lparr>au_currentLoginRequestId := Some ''r2''\<rparr>"
definition paying_user :: auth_user where "paying_user = user2\<lparr>au_stripeCustomerId := Some ''cus1''\<rparr>"
definition auth_paying :: memory_auth where "auth_paying = auth4\<lparr>ma_users := [paying_user]\<rparr>"

lemmas subscription_demo_simps = demo_stripe_def demo_event_def demo_price_def demo_plan_def hidden_plan_def demo_config_def demo_link_def

lemma demo_users [simp]:
  "au_id user2 = ''u1''" "au_stripeCustomerId user2 = None" "au_id paying_user = ''u1''" "au_stripeCustomerId paying_user = Some ''cus1''"
  "ma_users auth_paying = [paying_user]" "distinct_users auth_paying"
  by (simp_all add: user2_def paying_user_def auth_paying_def user1_def new_auth_user_def distinct_users_def)

lemma found_users [simp]: "ma_findUser auth4 ''u1'' = Some user2" "ma_findUser auth_paying ''u1'' = Some paying_user"
  by (simp_all add: ma_findUser_def auth4_eq user2_def user1_def new_auth_user_def auth_paying_def paying_user_def)

lemma auth_paying_saved: "ma_saveUser auth4 paying_user = auth_paying"
  by (simp add: ma_saveUser_def auth_paying_def auth4_eq paying_user_def user2_def user1_def new_auth_user_def)

section \<open>Over the store in memory\<close>

lemma own_customer_memory:
  "own_customer memory_auth_ops s u c \<longleftrightarrow> ma_findUser s (au_id u) = Some u \<and> au_stripeCustomerId u = Some c \<and>
     (\<forall>j v. ma_findUser s j = Some v \<longrightarrow> au_stripeCustomerId v = Some c \<longrightarrow> j = au_id u)"
  by (simp add: own_customer_def findUser_memory del: memory_auth_at)

lemma own_customer_found: "own_customer memory_auth_ops s u c \<Longrightarrow> ma_findUser s (au_id u) = Some u"
  by (simp only: own_customer_memory)

lemma same_sessions:
  assumes "session_at memory_auth_ops s' = session_at memory_auth_ops s"
  shows "ma_findSession s' j k = ma_findSession s j k"
  using fun_cong[OF assms, of "(j, k)"] by (simp add: session_at_memory del: memory_auth_at)

section \<open>Webhooks\<close>

text \<open>C33: After any requests of the webhook, in whatever order and with whatever signatures, a customer has the
  status and the plan of the last genuine report on a plan of the configuration, and everything else of the user,
  every session and what every session key opens are as they were.\<close>

theorem webhooks_last_report:
  assumes "distinct_users s" and "ma_findUser s (au_id u) = Some u" and "au_stripeCustomerId u = Some c"
    and "\<forall>j v. ma_findUser s j = Some v \<longrightarrow> au_stripeCustomerId v = Some c \<longrightarrow> j = au_id u"
  shows "ma_findUser (handle_all memory_auth_ops X config s qs) (au_id u) = Some (case rev (reported_of X config c qs) of
      [] \<Rightarrow> u | (status, plan) # _ \<Rightarrow> u\<lparr>au_subscriptionStatus := Some status, au_subscriptionId := Some plan\<rparr>) \<and>
    (\<forall>j k. ma_findSession (handle_all memory_auth_ops X config s qs) j k = ma_findSession s j k) \<and>
    (\<forall>now key. validateSessionKey C memory_auth_ops now (handle_all memory_auth_ops X config s qs) key =
      validateSessionKey C memory_auth_ops now s key)"
proof -
  have "own_customer memory_auth_ops s u c" unfolding own_customer_memory using assms(2-4) by blast
  note left = mc.webhooks_leave[OF assms(1) this, of X config qs C]
  have "ma_findUser (handle_all memory_auth_ops X config s qs) (au_id u) = Some (case rev (reported_of X config c qs) of
      [] \<Rightarrow> u | (status, plan) # _ \<Rightarrow> with_subscription u status plan)"
    using own_customer_found[OF conjunct2[OF conjunct2[OF left]]]
    by (cases "reported_of X config c qs" rule: rev_cases) (simp_all add: case_prod_unfold)
  moreover have "ma_findSession (handle_all memory_auth_ops X config s qs) j k = ma_findSession s j k" for j k
    by (rule same_sessions[OF conjunct1[OF left]])
  ultimately show ?thesis using left unfolding with_subscription_def by blast
qed

theorem webhooks_last_report_witness:
  "ma_findUser (handle_all memory_auth_ops demo_stripe demo_config auth_paying
     [(Some ''active'', Some ''w''), (Some ''canceled'', Some ''w''), (Some ''active'', Some ''forged'')]) ''u1'' =
   Some (paying_user\<lparr>au_subscriptionStatus := Some ''canceled'', au_subscriptionId := Some ''pro''\<rparr>)"
proof -
  have "\<forall>j v. ma_findUser auth_paying j = Some v \<longrightarrow> au_stripeCustomerId v = Some ''cus1'' \<longrightarrow> j = au_id paying_user"
    by (auto simp: ma_findUser_def split: if_splits)
  from webhooks_last_report[OF _ _ _ this, of demo_stripe demo_config
      "[(Some ''active'', Some ''w''), (Some ''canceled'', Some ''w''), (Some ''active'', Some ''forged'')]"]
  show ?thesis by (simp add: reported_def given_def subscription_demo_simps subscription_event_def)
qed

text \<open>C34: A user whose subscription to a plan was last reported with some status is told by \<^verbatim>\<open>getUserInfo\<close> exactly
  that: an active subscription if the status is active or trialing (or all are allowed one), with the tier of that plan.\<close>

theorem report_reaches_user_info:
  assumes "distinct_users s" and "ma_findUser s (au_id u) = Some u" and "au_stripeCustomerId u = Some c"
    and "\<forall>j v. ma_findUser s j = Some v \<longrightarrow> au_stripeCustomerId v = Some c \<longrightarrow> j = au_id u"
    and "rev (reported_of X config c qs) = (status, sub_id p) # older" and "p \<in> set (sc_subscriptions config)"
    and "distinct (map sub_id (sc_subscriptions config))" and "sub_id p \<noteq> []"
    and "validateSessionKey C memory_auth_ops now s (Some key) = Inr k" and "ki_userId k = au_id u" and "au_id u \<noteq> []" and "key \<noteq> []"
  shows "getUserInfo C memory_auth_ops force (Some (map subscription.truncate (sc_subscriptions config))) now
      (handle_all memory_auth_ops X config s qs) (Some (au_id u)) (Some key) =
    (let active = (force \<or> status = ''active'' \<or> status = ''trialing'') in
     Inr \<lparr>ui_userId = au_id u, ui_name = au_name u, ui_email = au_email u, ui_phoneNumber = au_phoneNumber u,
          ui_avatarPortraitUrl = au_avatarPortraitUrl u, ui_avatarUrl = au_avatarUrl u, ui_hasActiveSubscription = active,
          ui_subscriptionTier = (if active then Some (if given (sub_tier p) then the (sub_tier p) else ''beta'') else None),
          ui_openAiKey = (if active then au_openAiKey u else None)\<rparr>)"
proof -
  let ?s = "handle_all memory_auth_ops X config s qs" and ?v = "with_subscription u status (sub_id p)"
  have own: "own_customer memory_auth_ops s u c" unfolding own_customer_memory using assms(2-4) by blast
  have last: "reported_of X config c qs \<noteq> []" "last (reported_of X config c qs) = (status, sub_id p)"
    using assms(5) by (auto simp: hd_rev[symmetric])
  note left = mc.webhooks_leave[OF assms(1) own, of X config qs C]
  have found: "ma_findUser ?s (au_id u) = Some ?v"
    using own_customer_found[OF conjunct2[OF conjunct2[OF left]]] last by simp
  have key: "validateSessionKey C memory_auth_ops now ?s (Some key) = Inr k" using left assms(9) by simp
  have "find (\<lambda>x. sub_id x = sub_id p) (map subscription.truncate (sc_subscriptions config)) = Some (subscription.truncate p)"
    using assms(7) assms(6) find_distinct[of sub_id "map subscription.truncate (sc_subscriptions config)" "subscription.truncate p"]
    by (simp add: subscription.truncate_def comp_def)
  then have "subscription_for (Some (map subscription.truncate (sc_subscriptions config))) ?v = Some (subscription.truncate p)"
    using assms(8) by (simp add: subscription_for_def given_def)
  then have "tier_for (Some (map subscription.truncate (sc_subscriptions config))) ?v =
      (if given (sub_tier p) then the (sub_tier p) else ''beta'')"
    by (simp add: tier_for_def subscription.truncate_def)
  then show ?thesis using key found assms(10-12)
    by (simp add: getUserInfo_def key_for_def given_def[of "Some _"] findUser_memory isActiveSubscription_def Let_def
        with_subscription_def del: memory_auth_at)
qed

lemma paying_key: "validateSessionKey demo_crypto memory_auth_ops 5000 auth_paying (Some key1) =
    Inr \<lparr>ki_userId = ''u1'', ki_sessionId = ''s1'', ki_allSessionsRevokedTimeMs = Null\<rparr>"
proof -
  have "same_rights user2 paying_user" by (simp add: paying_user_def same_rights_def)
  with ms.save_user[of auth4 paying_user] have "replaces_user memory_auth_ops auth4 auth_paying user2 paying_user"
    by (simp add: replaces_user_def auth_paying_saved findUser_memory[of auth4] del: memory_auth_at)
  from keys_unaffected[OF this] demo_keys(1) show ?thesis by (simp add: paying_user_def)
qed

lemma only_paying: "\<forall>j v. ma_findUser auth_paying j = Some v \<longrightarrow> au_stripeCustomerId v = Some ''cus1'' \<longrightarrow> j = au_id paying_user"
  by (auto simp: ma_findUser_def split: if_splits)

theorem report_reaches_user_info_witness:
  "\<exists>info. getUserInfo demo_crypto memory_auth_ops False (Some (map subscription.truncate (sc_subscriptions demo_config))) 5000
     (handle_all memory_auth_ops demo_stripe demo_config auth_paying [(Some ''past_due'', Some ''w''), (Some ''active'', Some ''w'')])
     (Some ''u1'') (Some key1) = Inr info \<and> ui_hasActiveSubscription info \<and> ui_subscriptionTier info = Some ''gold''"
proof -
  have "rev (reported_of demo_stripe demo_config ''cus1'' [(Some ''past_due'', Some ''w''), (Some ''active'', Some ''w'')]) =
      (''active'', sub_id demo_plan) # [(''past_due'', ''pro'')]"
    by (simp add: reported_def given_def subscription_demo_simps subscription_event_def)
  from report_reaches_user_info[OF _ _ _ only_paying this _ _ _ paying_key, of False] show ?thesis
    by (simp add: demo_config_def demo_plan_def hidden_plan_def given_def key1_def formatV1SessionKey_def)
qed

section \<open>Links\<close>

text \<open>C35: A link is given only for an accepted key of the very user that is named, and Stripe was then asked for exactly one
  session for that user's customer id (a new one if there was none): to manage a subscription to an eligible product that the customer has, or
  to buy one unit of the default price of a configured product, for the user, and at the expected price if one was given.\<close>

theorem link_is_own_and_expected:
  assumes "createManageSubscriptionLink C memory_auth_ops (Some X) config now x s q = (Inr url, x', s')"
  shows "\<exists>u k c x1. validateSessionKey C memory_auth_ops now s (lk_sessionKey q) = Inr k \<and>
    lk_userId q = Some (ki_userId k) \<and> ma_findUser s (ki_userId k) = Some u \<and> customer_of memory_auth_ops X x s u c x1 s' \<and>
    ((\<exists>f as a. sx_createPortalSession X x1 f = (Some url, x') \<and> f ''customer'' = Some (JsonString c) \<and>
        sx_listActiveSubscriptionsForCustomer X x1 c = Some as \<and> a \<in> set as \<and> isManagable config a) \<or>
     (\<exists>f p d. sx_createCheckoutSession X x1 f = (Some url, x') \<and> f ''customer'' = Some (JsonString c) \<and>
        p \<in> set (sc_subscriptions config) \<and> sx_getProductAndPriceInfo X x1 (plan_product p) = Some (Some d) \<and>
        (\<forall>e. lk_expectedPrice q = Inr (Some e) \<longrightarrow> is_expected e (sd_defaultPrice d)) \<and>
        f ''line_items'' = Some (JsonArray [JsonObject [(''price'', JsonString (sp_id (sd_defaultPrice d))), (''quantity'', JsonNumber 1)]]) \<and>
        f ''metadata'' = Some (JsonObject [(''userId'', JsonString (ki_userId k))])))"
proof -
  from mc.link_success[OF assms] obtain u c x1 where
    u: "user_for_key C memory_auth_ops now s (lk_userId q) (lk_sessionKey q) = Inr u" "customer_of memory_auth_ops X x s u c x1 s'" and
    run: "(\<exists>as a. sx_listActiveSubscriptionsForCustomer X x1 c = Some as \<and> a \<in> set as \<and> isManagable config a \<and>
       sx_createPortalSession X x1 (portal_fields config c) = (Some url, x')) \<or>
     createCheckoutSession X config x1 (projr (lk_subscriptionId q)) (projr (lk_expectedPrice q)) u c = (Inr url, x')" by blast
  from u(1) obtain k where k: "validateSessionKey C memory_auth_ops now s (lk_sessionKey q) = Inr k" "lk_userId q = Some (ki_userId k)"
      "ki_userId k = au_id u" "ma_findUser s (ki_userId k) = Some u"
    unfolding mc.user_for_key_Inr findUser_memory by auto
  have portal: "portal_fields config c ''customer'' = Some (JsonString c)" by (simp add: portal_fields_def)
  have checkout: "checkout_fields config c i j ''customer'' = Some (JsonString c)"
    "checkout_fields config c i j ''line_items'' =
       Some (JsonArray [JsonObject [(''price'', JsonString i), (''quantity'', JsonNumber 1)]])"
    "checkout_fields config c i j ''metadata'' = Some (JsonObject [(''userId'', JsonString j)])" for i j
    by (simp_all add: checkout_fields_def)
  from run show ?thesis
  proof
    assume "\<exists>as a. sx_listActiveSubscriptionsForCustomer X x1 c = Some as \<and> a \<in> set as \<and> isManagable config a \<and>
       sx_createPortalSession X x1 (portal_fields config c) = (Some url, x')"
    then show ?thesis using u(2) k portal by blast
  next
    assume "createCheckoutSession X config x1 (projr (lk_subscriptionId q)) (projr (lk_expectedPrice q)) u c = (Inr url, x')"
    from mc.checkout_success[OF this] obtain p d where d: "p \<in> set (sc_subscriptions config)"
        "sx_getProductAndPriceInfo X x1 (plan_product p) = Some (Some d)"
        "\<forall>e. projr (lk_expectedPrice q) = Some e \<longrightarrow> is_expected e (sd_defaultPrice d)"
        "sx_createCheckoutSession X x1 (checkout_fields config c (sp_id (sd_defaultPrice d)) (au_id u)) = (Some url, x')" by blast
    then have "\<forall>e. lk_expectedPrice q = Inr (Some e) \<longrightarrow> is_expected e (sd_defaultPrice d)" by auto
    with d u(2) k checkout[of "sp_id (sd_defaultPrice d)" "ki_userId k"] show ?thesis by metis
  qed
qed

lemma demo_link_run: "createManageSubscriptionLink demo_crypto memory_auth_ops (Some demo_stripe) demo_config 5000 [] auth4 demo_link =
    (Inr ''/pay'', [''customer'', ''checkout''], auth_paying)"
proof -
  have "user_for_key demo_crypto memory_auth_ops 5000 auth4 (Some ''u1'') (Some key1) = Inr user2"
    by (simp add: user_for_key_def key_for_def demo_keys findUser_memory del: memory_auth_at)
  then show ?thesis using auth_paying_saved
    by (simp add: createManageSubscriptionLink_def bad_link_args_def first_link_def createCheckoutSession_def plan_for_def link_def
        given_def subscription_demo_simps paying_user_def Let_def)
qed

theorem link_is_own_and_expected_witness:
  "\<exists>c x1. customer_of memory_auth_ops demo_stripe [] auth4 user2 c x1 auth_paying \<and> c = ''cus1''"
proof -
  obtain u k c x1 where "validateSessionKey demo_crypto memory_auth_ops 5000 auth4 (lk_sessionKey demo_link) = Inr k"
      "lk_userId demo_link = Some (ki_userId k)" "ma_findUser auth4 (ki_userId k) = Some u"
      "customer_of memory_auth_ops demo_stripe [] auth4 u c x1 auth_paying"
    using link_is_own_and_expected[OF demo_link_run] by blast
  moreover from this have "ki_userId k = ''u1''" by (simp add: demo_link_def)
  ultimately have "customer_of memory_auth_ops demo_stripe [] auth4 user2 c x1 auth_paying" by simp
  then show ?thesis by (auto simp: customer_of_def given_def subscription_demo_simps)
qed



section \<open>What the code does on some inputs\<close>

text \<open>A plan that is not offered for purchase is sold to whoever names it.\<close>

lemma hidden_plan_sold:
  "getPurchasableSubscriptions demo_stripe [] demo_config = Some [offer demo_plan \<lparr>sd_id = ''prod1'', sd_name = ''Pro'',
     sd_description = ''All'', sd_defaultPrice = demo_price\<rparr>] \<and>
   createCheckoutSession demo_stripe demo_config [] (Some ''old'') None user2 ''cus1'' = (Inr ''/pay'', [''checkout'']) \<and>
   plan_for demo_config (Some ''old'') = Some hidden_plan"
  by (simp add: getPurchasableSubscriptions_def createCheckoutSession_def plan_for_def link_def given_def subscription_demo_simps)

text \<open>The report on an old subscription that ends replaces that on the one that is active.\<close>

lemma old_subscription_overwrites:
  "let stripe = demo_stripe\<lparr>sx_constructWebhookEvent := (\<lambda>b g k.
      Some (if b = ''new'' then demo_event ''prod1'' ''active'' else demo_event ''prod2'' ''canceled''))\<rparr>
   in ma_findUser (handle_all memory_auth_ops stripe demo_config auth_paying [(Some ''new'', Some ''w''), (Some ''old'', Some ''w'')]) ''u1'' =
     Some (paying_user\<lparr>au_subscriptionStatus := Some ''canceled'', au_subscriptionId := Some ''old''\<rparr>)"
proof -
  let ?stripe = "demo_stripe\<lparr>sx_constructWebhookEvent := (\<lambda>b g k.
      Some (if b = ''new'' then demo_event ''prod1'' ''active'' else demo_event ''prod2'' ''canceled''))\<rparr>"
  have "own_customer memory_auth_ops auth_paying paying_user ''cus1''" unfolding own_customer_memory using only_paying by simp
  from own_customer_found[OF conjunct2[OF conjunct2[OF mc.webhooks_leave[OF _ this, of ?stripe demo_config "[(Some ''new'', Some ''w''), (Some ''old'', Some ''w'')]"]]]]
  show ?thesis by (simp add: reported_def given_def subscription_demo_simps subscription_event_def with_subscription_def Let_def)
qed

text \<open>Without plans, a user who is no customer is told that this is not supported; for a customer the server fails.\<close>

lemma no_plans_fails:
  "fst (first_link memory_auth_ops demo_stripe (demo_config\<lparr>sc_subscriptions := []\<rparr>) [] auth4 None None user2) = Inl NotSupported \<and>
   fst (customer_link demo_stripe (demo_config\<lparr>sc_subscriptions := []\<rparr>) [] None None paying_user ''cus1'') = Inl (AuthFailure AuthServerError)"
  by (simp add: first_link_def customer_link_def createCheckoutSession_def plan_for_def given_def subscription_demo_simps)

text \<open>A configuration must say of each plan whether it is the default, and need not have a secret for the webhook.\<close>

lemma config_checks:
  "let plan = [(''id'', JsonString ''pro''), (''product'', JsonString ''prod1''), (''featureList'', JsonArray []),
       (''eligibleProducts'', JsonArray [JsonNumber 7])];
     config = (\<lambda>p. JsonObject [(''cancelUrl'', JsonString ''c''), (''returnUrl'', JsonString ''r''), (''successUrl'', JsonString ''s''),
       (''subscriptions'', JsonArray [JsonObject p])])
   in tryParseSubscriptionConfig (\<lambda>_. Some (config plan)) [] = Null \<and>
      tryParseSubscriptionConfig (\<lambda>_. Some (config ((''defaultSubscription'', JsonBool False) # plan))) [] =
        Val (config ((''defaultSubscription'', JsonBool False) # plan))"
  by (simp add: Let_def tryParseSubscriptionConfig_def isValidConfig_def isValidSubscription_def)

end
