(* ===== verification/AuxOps.thy ===== *)
theory AuxOps
  imports BotState Atom2
begin

text \<open>
  The operations that atoms of an AUX tree carry: \<^verbatim>\<open>src/src/aux-common/aux-format-2/AuxOpTypes.ts\<close>, with certificates
  and signatures. Signing, verification and hashing are those of \<^verbatim>\<open>@casual-simulation/crypto\<close>; with the encoding
  of the texts that are signed they are parameters.
\<close>

section \<open>Operations\<close>

text \<open>A start or an end of a deletion that is not given is \<open>None\<close>, like a signature that is missing or \<^verbatim>\<open>null\<close>.\<close>

datatype aux_op =
    BotOp string
  | TagOp string
  | ValueOp tag_value
  | TextInsertOp int string
  | TextDeleteOp "int option" "int option"
  | CertificateOp string "string option"
  | SignatureOp atom_id string string
  | RevocationOp atom_id string string
  | TagMaskOp string string

definition botOp :: "string \<Rightarrow> aux_op" where "botOp i = BotOp i"
definition tagOp :: "string \<Rightarrow> aux_op" where "tagOp name = TagOp name"
definition valueOp :: "tag_value \<Rightarrow> aux_op" where "valueOp v = ValueOp v"
definition insertOp :: "int \<Rightarrow> string \<Rightarrow> aux_op" where "insertOp i t = TextInsertOp i t"
definition deleteOp :: "int option \<Rightarrow> int option \<Rightarrow> aux_op" where "deleteOp s e = TextDeleteOp s e"
definition sigOp :: "atom_id \<Rightarrow> string \<Rightarrow> string \<Rightarrow> aux_op" where "sigOp i h s = SignatureOp i h s"
definition revocation :: "atom_id \<Rightarrow> string \<Rightarrow> string \<Rightarrow> aux_op" where "revocation i h s = RevocationOp i h s"
definition tagMask :: "string \<Rightarrow> string \<Rightarrow> aux_op" where "tagMask b name = TagMaskOp b name"

text \<open>\<^verbatim>\<open>signature || null\<close>.\<close>

definition cert :: "string \<Rightarrow> string option \<Rightarrow> aux_op" where
  "cert keypair signature = CertificateOp keypair (if given signature then signature else None)"

section \<open>Signatures\<close>

text \<open>
  \<open>sign\<close> has no result if the password does not open the key; \<open>verifies\<close> is \<open>None\<close> if the call throws. \<open>encode\<close> is
  \<^verbatim>\<open>TextEncoder\<close> after a stable \<^verbatim>\<open>stringify\<close>.
\<close>

record 'b signer =
  keypair :: "string \<Rightarrow> string"
  sign :: "string \<Rightarrow> string \<Rightarrow> 'b \<Rightarrow> string option"
  verifies :: "string \<Rightarrow> string option \<Rightarrow> 'b \<Rightarrow> bool option"
  encode :: "string list \<Rightarrow> 'b"

text \<open>An atom of a certificate, with what the code reads of it.\<close>

definition cert_keypair :: "aux_op atom \<Rightarrow> string" where
  "cert_keypair a = (case val a of CertificateOp k _ \<Rightarrow> k | _ \<Rightarrow> [])"

definition certSigningBytes :: "'b signer \<Rightarrow> aux_op atom option \<Rightarrow> string \<Rightarrow> 'b" where
  "certSigningBytes G c k = (case c of None \<Rightarrow> encode G [k] | Some a \<Rightarrow> encode G [ahash a, k])"

definition valueSigningBytes :: "'b signer \<Rightarrow> aux_op atom \<Rightarrow> aux_op atom \<Rightarrow> 'b" where
  "valueSigningBytes G c v = encode G [ahash c, ahash v]"

definition revocationSigningBytes :: "'b signer \<Rightarrow> aux_op atom \<Rightarrow> aux_op atom \<Rightarrow> 'b" where
  "revocationSigningBytes G c v = encode G [ahash c, ahash v]"

text \<open>A signature that is missing or empty is an exception: no operation.\<close>

definition signedCert :: "'b signer \<Rightarrow> aux_op atom option \<Rightarrow> string \<Rightarrow> string \<Rightarrow> aux_op option" where
  "signedCert G c password k =
     (let s = sign G (case c of None \<Rightarrow> k | Some a \<Rightarrow> cert_keypair a) password (certSigningBytes G c k)
      in if \<not> given s then None else Some (cert k s))"

definition selfSignedCert :: "'b signer \<Rightarrow> string \<Rightarrow> aux_op option" where
  "selfSignedCert G password = signedCert G None password (keypair G password)"

text \<open>What a call that throws validates is false.\<close>

definition validateCertSignature :: "'b signer \<Rightarrow> aux_op atom option \<Rightarrow> aux_op atom \<Rightarrow> bool" where
  "validateCertSignature G c a =
     (case val a of
        CertificateOp k s \<Rightarrow>
          verifies G (case c of None \<Rightarrow> k | Some b \<Rightarrow> cert_keypair b) s (certSigningBytes G c k) = Some True
      | _ \<Rightarrow> False)"

definition signedValue :: "'b signer \<Rightarrow> aux_op atom \<Rightarrow> string \<Rightarrow> aux_op atom \<Rightarrow> aux_op option" where
  "signedValue G c password v =
     (let s = sign G (cert_keypair c) password (valueSigningBytes G c v)
      in if \<not> given s then None else Some (sigOp (aid v) (ahash v) (the s)))"

definition validateSignedValue :: "'b signer \<Rightarrow> aux_op atom \<Rightarrow> aux_op atom \<Rightarrow> aux_op atom \<Rightarrow> bool" where
  "validateSignedValue G c a v =
     (case val a of
        SignatureOp _ _ s \<Rightarrow> verifies G (cert_keypair c) (Some s) (valueSigningBytes G c v) = Some True
      | _ \<Rightarrow> False)"

definition signedRevocation :: "'b signer \<Rightarrow> aux_op atom \<Rightarrow> string \<Rightarrow> aux_op atom \<Rightarrow> aux_op option" where
  "signedRevocation G c password v =
     (let s = sign G (cert_keypair c) password (revocationSigningBytes G c v)
      in if \<not> given s then None else Some (revocation (aid c) (ahash c) (the s)))"

definition validateRevocation :: "'b signer \<Rightarrow> aux_op atom \<Rightarrow> aux_op atom \<Rightarrow> aux_op atom \<Rightarrow> bool" where
  "validateRevocation G c a v =
     (case val a of
        RevocationOp _ _ s \<Rightarrow> verifies G (cert_keypair c) (Some s) (revocationSigningBytes G c v) = Some True
      | _ \<Rightarrow> False)"

text \<open>\<open>getHash\<close> hashes the bot's id, the tag and the value.\<close>

definition tagValueHash :: "(string \<Rightarrow> string \<Rightarrow> tag_value \<Rightarrow> string) \<Rightarrow> string \<Rightarrow> string \<Rightarrow> tag_value \<Rightarrow> string" where
  "tagValueHash getHash b tag v = getHash b tag v"

end
