(* ===== verification/TextEdits.thy ===== *)
theory TextEdits
  imports AuxOps WeaveNodes
begin

text \<open>
  Bots, tags and the text of tags in a weave: \<^verbatim>\<open>src/src/aux-common/aux-format-2/AuxWeaveHelpers.ts\<close>, with the edits that
  \<^verbatim>\<open>AuxWeaveReducer.ts\<close> reports for a change of a text. A text is a value with atoms below it that insert into the
  text of their cause or delete from it. A node is its address with its atom.
\<close>

section \<open>Finding nodes\<close>

type_synonym edit_node = "nat \<times> aux_op atom"

definition nodes_at :: "aux_op node_heap \<Rightarrow> nat list \<Rightarrow> edit_node list option" where
  "nodes_at h ns = those (map (\<lambda>n. map_option (\<lambda>nd. (n, node_atom nd)) (h n)) ns)"

text \<open>\<^verbatim>\<open>[node, ...iterateCausalGroup(node)]\<close>.\<close>

definition group_nodes :: "aux_op node_heap \<Rightarrow> nat \<Rightarrow> edit_node list option" where
  "group_nodes h n = do { g \<leftarrow> iterateCausalGroup h n; nodes_at h (n # g) }"

definition is_delete :: "aux_op atom \<Rightarrow> bool" where
  "is_delete a = (case val a of TextDeleteOp _ _ \<Rightarrow> True | _ \<Rightarrow> False)"

text \<open>The roots with the property that were not deleted: a deletion comes first in the causal group.\<close>

fun living_roots :: "(aux_op \<Rightarrow> bool) \<Rightarrow> aux_op node_heap \<Rightarrow> nat list \<Rightarrow> nat list option" where
  "living_roots P h [] = Some []"
| "living_roots P h (r # rs) =
     do { nd \<leftarrow> h r;
          g \<leftarrow> (if P (val (node_atom nd)) then iterateCausalGroup h r else Some []);
          as \<leftarrow> nodes_at h g;
          rest \<leftarrow> living_roots P h rs;
          Some (if P (val (node_atom nd)) \<and> (as = [] \<or> \<not> is_delete (snd (hd as))) then r # rest else rest) }"

definition findBotNodes :: "aux_op node_heap \<Rightarrow> nat list \<Rightarrow> string \<Rightarrow> nat list option" where
  "findBotNodes h roots i = living_roots (\<lambda>v. v = BotOp i) h roots"

definition findBotNode :: "aux_op node_heap \<Rightarrow> nat list \<Rightarrow> string \<Rightarrow> nat option option" where
  "findBotNode h roots i = map_option first (findBotNodes h roots i)"

definition findTagMaskNodes :: "aux_op node_heap \<Rightarrow> nat list \<Rightarrow> string \<Rightarrow> string \<Rightarrow> nat list option" where
  "findTagMaskNodes h roots b tag = living_roots (\<lambda>v. v = TagMaskOp b tag) h roots"

text \<open>The first node of the causal group with the property.\<close>

definition find_in_group :: "(aux_op \<Rightarrow> bool) \<Rightarrow> aux_op node_heap \<Rightarrow> nat \<Rightarrow> nat option option" where
  "find_in_group P h n =
     do { g \<leftarrow> iterateCausalGroup h n; as \<leftarrow> nodes_at h g; Some (map_option fst (find (\<lambda>x. P (val (snd x))) as)) }"

definition findTagNode :: "aux_op node_heap \<Rightarrow> nat \<Rightarrow> string \<Rightarrow> nat option option" where
  "findTagNode h botNode tag = find_in_group (\<lambda>v. v = TagOp tag) h botNode"

definition findValueNode :: "aux_op node_heap \<Rightarrow> nat \<Rightarrow> nat option option" where
  "findValueNode h tag = find_in_group (\<lambda>v. case v of ValueOp _ \<Rightarrow> True | _ \<Rightarrow> False) h tag"

definition findValueNodeByValue :: "aux_op node_heap \<Rightarrow> nat \<Rightarrow> tag_value \<Rightarrow> nat option option" where
  "findValueNodeByValue h tag x = find_in_group (\<lambda>v. v = ValueOp x) h tag"

section \<open>The segments of a text\<close>

definition NUL :: char where "NUL = CHR 0x00"

text \<open>A part of the text of a node, from the offset on; characters that were deleted are \<open>NUL\<close>.\<close>

record segment_info =
  si_text :: string
  si_node :: edit_node
  si_offset :: int

definition seg_id :: "segment_info \<Rightarrow> atom_id" where "seg_id s = aid (snd (si_node s))"

text \<open>
  The loop over the segments for an insertion. It keeps the segments that it has passed, the number of
  characters of the cause among them, the index of the last one of the causal group of the cause as far as it is
  known, whether it is inside of this group, and the time of the cause.
\<close>

fun insert_segment :: "segment_info \<Rightarrow> atom_id option \<Rightarrow> int \<Rightarrow> segment_info list \<Rightarrow> int \<Rightarrow> nat \<Rightarrow> bool \<Rightarrow> int
    \<Rightarrow> segment_info list \<Rightarrow> segment_info list" where
  "insert_segment new c i acc count li inGroup t [] = take (li + 1) acc @ [new] @ drop (li + 1) acc"
| "insert_segment new c i acc count li inGroup t (s # ss) =
     (if \<not> idEquals (Some (seg_id s)) c then
        (if inGroup then
           (if timestamp (seg_id s) < t then insert_segment new c i (acc @ [s]) count li False t ss
            else insert_segment new c i (acc @ [s]) count (length acc) True t ss)
         else insert_segment new c i (acc @ [s]) count li False t ss)
      else if i \<le> 0 then acc @ [new] @ s # ss
      else if i - count < int (length (si_text s)) then
        acc @ [s\<lparr>si_text := take (nat (i - count)) (si_text s)\<rparr>, new,
                s\<lparr>si_text := drop (nat (i - count)) (si_text s), si_offset := si_offset s + (i - count)\<rparr>] @ ss
      else insert_segment new c i (acc @ [s]) (count + int (length (si_text s))) (length acc) True (timestamp (seg_id s)) ss)"

text \<open>The deleted characters of a text.\<close>

definition delete_text :: "int option \<Rightarrow> int option \<Rightarrow> string \<Rightarrow> string" where
  "delete_text b e t =
     (case (b, e) of (Some x, Some y) \<Rightarrow> foldl (\<lambda>t i. splice t i 1 [NUL]) t [x..y - 1] | _ \<Rightarrow> t)"

text \<open>The first segment of the cause.\<close>

fun delete_segment :: "atom_id option \<Rightarrow> int option \<Rightarrow> int option \<Rightarrow> segment_info list \<Rightarrow> segment_info list" where
  "delete_segment c b e [] = []"
| "delete_segment c b e (s # ss) =
     (if idEquals (Some (seg_id s)) c then s\<lparr>si_text := delete_text b e (si_text s)\<rparr> # ss else s # delete_segment c b e ss)"

text \<open>A value that is \<^verbatim>\<open>null\<close> or missing has no length: an exception.\<close>

fun add_node :: "edit_node \<Rightarrow> segment_info list \<Rightarrow> segment_info list option" where
  "add_node n ss =
     (case val (snd n) of
        ValueOp v \<Rightarrow> if v = Null \<or> v = Undefined then None
          else Some (ss @ [\<lparr>si_text = convertToString v, si_node = n, si_offset = 0\<rparr>])
      | TextInsertOp i t \<Rightarrow> Some (insert_segment \<lparr>si_text = t, si_node = n, si_offset = 0\<rparr> (cause (snd n)) i [] 0 0 False (-1) ss)
      | TextDeleteOp b e \<Rightarrow> Some (delete_segment (cause (snd n)) b e ss)
      | _ \<Rightarrow> Some ss)"

fun add_nodes :: "edit_node list \<Rightarrow> segment_info list \<Rightarrow> segment_info list option" where
  "add_nodes [] ss = Some ss"
| "add_nodes (n # ns) ss = do { ss1 \<leftarrow> add_node n ss; add_nodes ns ss1 }"

record text_segment =
  tx_text :: string
  tx_marked :: string
  tx_offset :: int
  tx_node :: edit_node

definition visible :: "string \<Rightarrow> string" where "visible t = filter (\<lambda>c. c \<noteq> NUL) t"

definition text_of_segment :: "segment_info \<Rightarrow> text_segment" where
  "text_of_segment s = \<lparr>tx_text = visible (si_text s), tx_marked = si_text s, tx_offset = si_offset s, tx_node = si_node s\<rparr>"

definition calculateOrderedEdits :: "edit_node list \<Rightarrow> bool \<Rightarrow> text_segment list option" where
  "calculateOrderedEdits ns preserveEmpty =
     do { ss \<leftarrow> add_nodes ns [];
          Some (filter (\<lambda>s. preserveEmpty \<or> tx_text s \<noteq> []) (map text_of_segment ss)) }"

definition calculateFinalEditValue :: "aux_op node_heap \<Rightarrow> nat \<Rightarrow> string option" where
  "calculateFinalEditValue h value =
     do { ns \<leftarrow> group_nodes h value; es \<leftarrow> calculateOrderedEdits ns False; Some (concat (map tx_text es)) }"

section \<open>Positions in a text\<close>

datatype affinity = LeftAffinity | RightAffinity

record edit_position =
  ep_node :: edit_node
  ep_index :: int
  ep_count :: "int option"

text \<open>
  The index in the marked text after which \<open>n\<close> characters of the text were met, less \<open>n\<close>: the loop over \<open>i\<close> and \<open>b\<close>.
\<close>

fun marked_offset :: "nat \<Rightarrow> string \<Rightarrow> string \<Rightarrow> nat" where
  "marked_offset 0 ts ms = 0"
| "marked_offset (Suc n) ts [] = 0"
| "marked_offset (Suc n) (t # ts) (m # ms) = (if t = m then marked_offset n ts ms else Suc (marked_offset (Suc n) (t # ts) ms))"
| "marked_offset (Suc n) [] (m # ms) = Suc (marked_offset (Suc n) [] ms)"

text \<open>The deleted characters among the first ones that hold \<open>n\<close> others.\<close>

fun deleted_among :: "int \<Rightarrow> string \<Rightarrow> nat" where
  "deleted_among n [] = 0"
| "deleted_among n (m # ms) =
     (if n \<le> 0 then 0 else if m = NUL then Suc (deleted_among n ms) else deleted_among (n - 1) ms)"

definition position_in :: "nat \<Rightarrow> int \<Rightarrow> text_segment \<Rightarrow> edit_position" where
  "position_in relativeIndex nodeDeleteCount e =
     (let finalOffset = relativeIndex + marked_offset relativeIndex (tx_text e) (tx_marked e);
          after = drop finalOffset (tx_marked e);
          removed = length (takeWhile (\<lambda>c. c = NUL) after)
      in \<lparr>ep_node = tx_node e, ep_index = int finalOffset + int removed + tx_offset e,
          ep_count = Some (nodeDeleteCount + int (deleted_among nodeDeleteCount (drop removed after)))\<rparr>)"

fun edit_positions :: "int \<Rightarrow> int \<Rightarrow> int \<Rightarrow> affinity \<Rightarrow> text_segment list \<Rightarrow> edit_position list" where
  "edit_positions i count remaining aff [] = []"
| "edit_positions i count remaining aff (e # es) =
     (let len = int (length (tx_text e)) in
      if (case aff of LeftAffinity \<Rightarrow> count + len \<ge> i | RightAffinity \<Rightarrow> count + len > i) then
        (let relativeIndex = \<bar>count - i\<bar>;
             nodeDeleteCount = min (len - relativeIndex) remaining;
             remaining1 = remaining - nodeDeleteCount
         in position_in (nat relativeIndex) nodeDeleteCount e #
            (if remaining1 \<le> 0 then [] else edit_positions i (count + relativeIndex) remaining1 aff es))
      else if remaining \<le> 0 then [] else edit_positions i (count + len) remaining aff es)"

definition findMultipleEditPositions :: "int \<Rightarrow> int \<Rightarrow> text_segment list \<Rightarrow> affinity \<Rightarrow> edit_position list" where
  "findMultipleEditPositions i n es aff = edit_positions i 0 n aff es"

definition findSingleEditPosition :: "int \<Rightarrow> text_segment list \<Rightarrow> edit_position option" where
  "findSingleEditPosition i es = first (findMultipleEditPositions i 1 es LeftAffinity)"

text \<open>A site that is missing, or whose time is 0, counts as -1.\<close>

definition seen :: "int obj \<Rightarrow> edit_node \<Rightarrow> bool" where
  "seen version n \<longleftrightarrow>
     timestamp (aid (snd n)) \<le> (case map_of version (site (aid (snd n))) of None \<Rightarrow> -1 | Some t \<Rightarrow> if t = 0 then -1 else t)"

definition seen_edits :: "aux_op node_heap \<Rightarrow> nat \<Rightarrow> int obj \<Rightarrow> text_segment list option" where
  "seen_edits h value version = do { ns \<leftarrow> group_nodes h value; calculateOrderedEdits (filter (seen version) ns) False }"

definition is_value :: "aux_op node_heap \<Rightarrow> nat \<Rightarrow> bool" where
  "is_value h n = (case h n of Some nd \<Rightarrow> (case val (node_atom nd) of ValueOp _ \<Rightarrow> True | _ \<Rightarrow> False) | None \<Rightarrow> False)"

text \<open>\<^verbatim>\<open>findEditPosition\<close> without and with a number of characters to delete; a node that is no value throws.\<close>

definition findEditPosition :: "aux_op node_heap \<Rightarrow> nat \<Rightarrow> int obj \<Rightarrow> int \<Rightarrow> edit_position option option" where
  "findEditPosition h value version i =
     (if \<not> is_value h value then None
      else do { es \<leftarrow> seen_edits h value version;
                nd \<leftarrow> h value;
                Some (if es = [] then Some \<lparr>ep_node = (value, node_atom nd), ep_index = 0, ep_count = None\<rparr>
                      else findSingleEditPosition i es) })"

definition findEditPositions :: "aux_op node_heap \<Rightarrow> nat \<Rightarrow> int obj \<Rightarrow> int \<Rightarrow> int \<Rightarrow> edit_position list option" where
  "findEditPositions h value version i n =
     (if \<not> is_value h value then None
      else do { es \<leftarrow> seen_edits h value version; Some (findMultipleEditPositions i n es RightAffinity) })"

section \<open>The edits that are reported\<close>

text \<open>An insertion: what stands before the first segment of the atom is kept.\<close>

definition insert_edit_ops :: "text_segment list \<Rightarrow> aux_op atom \<Rightarrow> string \<Rightarrow> tag_op list" where
  "insert_edit_ops es a t =
     (let count = int (length (concat (map tx_text (takeWhile (\<lambda>e. snd (tx_node e) \<noteq> a) es))))
      in (if count > 0 then [PreserveOp count] else []) @ [InsertOp t])"

text \<open>
  The characters of one segment from the index on: how many are deleted now, and how many before the start
  were deleted already.
\<close>

fun scan_deleted :: "int \<Rightarrow> int \<Rightarrow> int \<Rightarrow> string \<Rightarrow> int \<times> int" where
  "scan_deleted i b e [] = (0, 0)"
| "scan_deleted i b e (m # ms) =
     (if i \<ge> e then (0, 0)
      else (let (now, before) = scan_deleted (i + 1) b e ms in
        if i \<ge> b then (if m \<noteq> NUL then now + 1 else now, before) else (now, if m = NUL then before + 1 else before)))"

text \<open>The state of the loop: the characters since the last point, those of the cause, and whether there was a point.\<close>

fun delete_points :: "atom_id option \<Rightarrow> int \<Rightarrow> int \<Rightarrow> int \<Rightarrow> int \<Rightarrow> bool \<Rightarrow> text_segment list \<Rightarrow> (int \<times> int) list" where
  "delete_points c b e count nodeCount created [] = []"
| "delete_points c b e count nodeCount created (x # xs) =
     (let len = int (length (tx_marked x)); textLen = int (length (tx_text x)) in
      if idEquals (Some (aid (snd (tx_node x)))) c then
        (if nodeCount + len > b then
           (let (now, before) = scan_deleted 0 (b - tx_offset x) (e - tx_offset x) (tx_marked x); count1 = count - before in
            if now > 0 then
              (if created then count1 else count1 + (b - tx_offset x), now) #
                delete_points c b e 0 (nodeCount + len) True xs
            else delete_points c b e (count1 + textLen) (nodeCount + len) created xs)
         else delete_points c b e (count + textLen) (nodeCount + len) created xs)
      else delete_points c b e (count + textLen) nodeCount created xs)"

definition findDeletePoints :: "text_segment list \<Rightarrow> aux_op atom \<Rightarrow> int option \<Rightarrow> int option \<Rightarrow> (int \<times> int) list" where
  "findDeletePoints es a b e =
     (case (b, e) of (Some x, Some y) \<Rightarrow> delete_points (cause a) x y 0 0 False es | _ \<Rightarrow> [])"

definition delete_edit_ops :: "text_segment list \<Rightarrow> aux_op atom \<Rightarrow> int option \<Rightarrow> int option \<Rightarrow> tag_op list" where
  "delete_edit_ops es a b e =
     concat (map (\<lambda>(count, len). (if count > 0 then [PreserveOp count] else []) @ [DeleteOp len]) (findDeletePoints es a b e))"

end
