(* ===== verification/TextUpdate.thy ===== *)
theory TextUpdate
  imports TextEdits CausalTree2
begin

text \<open>
  How an edit of a tag changes a causal tree: \<^verbatim>\<open>updateTag\<close> of \<^verbatim>\<open>applyEvents\<close> in
  \<^verbatim>\<open>src/src/aux-common/aux-format-2/AuxCausalTree2.ts\<close>, less the update of the bot state that is computed along the way.
  A step gives the results of the weave and the tree; \<open>None\<close> is an exception.
\<close>

type_synonym aux_tree = "aux_op causal_tree"
type_synonym aux_step = "((js_error + aux_op weave_result list) \<times> aux_tree) option"

definition after :: "aux_step \<Rightarrow> (aux_tree \<Rightarrow> aux_step) \<Rightarrow> aux_step" where
  "after r k =
     do { (x, T) \<leftarrow> r;
          case x of
            Inl e \<Rightarrow> Some (Inl e, T)
          | Inr rs \<Rightarrow> do { (y, T2) \<leftarrow> k T; Some (map_sum id ((@) rs) y, T2) } }"

text \<open>\<^verbatim>\<open>addAtom\<close> and \<^verbatim>\<open>applyResult\<close>.\<close>

definition add_op :: "aux_op hasher \<Rightarrow> aux_tree \<Rightarrow> aux_op atom \<Rightarrow> aux_op \<Rightarrow> int js \<Rightarrow> bool \<Rightarrow> aux_step" where
  "add_op H T c v p remote =
     do { (x, T1) \<leftarrow> addAtom H T (Some c) v p Undefined remote;
          Some (case x of Inl e \<Rightarrow> (Inl e, T1) | Inr q \<Rightarrow> (Inr (results q), applyResult T1 q)) }"

fun delete_at :: "aux_op hasher \<Rightarrow> bool \<Rightarrow> edit_position list \<Rightarrow> aux_tree \<Rightarrow> aux_step" where
  "delete_at H remote [] T = Some (Inr [], T)"
| "delete_at H remote (p # ps) T =
     after (add_op H T (snd (ep_node p)) (deleteOp (Some (ep_index p)) (Some (ep_index p + the (ep_count p)))) (Val 1) remote)
       (delete_at H remote ps)"

text \<open>
  The operations of one group, with the index so far; the positions are those in the text that the version has seen.
  Without a position the rest of the group is left out.
\<close>

fun edit_ops :: "aux_op hasher \<Rightarrow> nat \<Rightarrow> int obj \<Rightarrow> bool \<Rightarrow> int \<Rightarrow> tag_op list \<Rightarrow> aux_tree \<Rightarrow> aux_step" where
  "edit_ops H n v remote i [] T = Some (Inr [], T)"
| "edit_ops H n v remote i (PreserveOp k # ops) T = edit_ops H n v remote (i + k) ops T"
| "edit_ops H n v remote i (InsertOp s # ops) T =
     (if s = [] then edit_ops H n v remote i ops T
      else do { pos \<leftarrow> findEditPosition (heap (tree_weave T)) n v i;
                case pos of
                  None \<Rightarrow> Some (Inr [], T)
                | Some p \<Rightarrow> after (add_op H T (snd (ep_node p)) (insertOp (ep_index p) s) Undefined remote)
                    (edit_ops H n v remote (i + int (length s)) ops) })"
| "edit_ops H n v remote i (DeleteOp k # ops) T =
     (if k \<le> 0 then edit_ops H n v remote i ops T
      else do { ps \<leftarrow> findEditPositions (heap (tree_weave T)) n v i k;
                if ps = [] then Some (Inr [], T)
                else after (delete_at H remote ps T) (edit_ops H n v remote (i + k) ops) })"

definition see_site :: "int obj \<Rightarrow> site_status \<Rightarrow> int obj" where
  "see_site v s = AList.update (site_id s) (site_time s) v"

definition next_version :: "int obj \<Rightarrow> aux_tree \<Rightarrow> int obj" where
  "next_version v T =
     (let v1 = see_site v (tree_site T) in case tree_remoteSite T of None \<Rightarrow> v1 | Some s \<Rightarrow> see_site v1 s)"

fun edit_groups :: "aux_op hasher \<Rightarrow> nat \<Rightarrow> int obj \<Rightarrow> bool \<Rightarrow> tag_op list list \<Rightarrow> aux_tree \<Rightarrow> aux_step" where
  "edit_groups H n v remote [] T = Some (Inr [], T)"
| "edit_groups H n v remote (g # gs) T =
     after (edit_ops H n v remote 0 g T) (\<lambda>T1. edit_groups H n (next_version v T1) remote gs T1)"

text \<open>The tag or tag mask, with the node of its value if it has one. An edit of a tag without a value gives it an empty one.\<close>

definition updateTag :: "aux_op hasher \<Rightarrow> aux_tree \<Rightarrow> aux_op atom \<Rightarrow> nat option \<Rightarrow> tag_value \<Rightarrow> aux_step" where
  "updateTag H T tag currentVal x =
     (case x of
        Val (EditV e) \<Rightarrow>
          (let v = see_site (te_version e) (tree_site T) in
           case currentVal of
             Some n \<Rightarrow> edit_groups H n v (te_isRemote e) (te_operations e) T
           | None \<Rightarrow>
               do { (r, T1) \<leftarrow> add_op H T tag (valueOp (Val (StrV []))) Undefined False;
                    case r of
                      Inl err \<Rightarrow> Some (Inl err, T1)
                    | Inr rs \<Rightarrow>
                        (case map_option addedAtom (first rs) of
                           Some (Some (Inl a)) \<Rightarrow>
                             do { n \<leftarrow> getNode (tree_weave T1) (aid a);
                                  after (Some (Inr rs, T1)) (edit_groups H n v (te_isRemote e) (te_operations e)) }
                         | _ \<Rightarrow> None) })
      | _ \<Rightarrow> add_op H T tag (valueOp x) Undefined False)"

end
