(* ===== verification/TextSpec.thy ===== *)
theory TextSpec
  imports TextEdits CausalOrder
begin

text \<open>
  What a text is, independently of the order in which its atoms are visited: every character has a label, its node with its
  index there, and a node inserts the characters of its subtree before one label of its cause. The list of segments
  of \<^verbatim>\<open>calculateOrderedEdits\<close>, computed from the traversal of a causal tree, has exactly these characters in this order.
\<close>

section \<open>The characters of a tree\<close>

type_synonym token = "(aux_op atom \<times> int) \<times> char"

fun numbered :: "aux_op atom \<Rightarrow> int \<Rightarrow> string \<Rightarrow> token list" where
  "numbered a i [] = []"
| "numbered a i (c # cs) = ((a, i), c) # numbered a (i + 1) cs"

text \<open>Before the characters of a node stands a mark with the label \<open>-1\<close>, which is not visible.\<close>

definition tokens_at :: "token list \<Rightarrow> aux_op atom \<times> int \<Rightarrow> token list \<Rightarrow> token list" where
  "tokens_at new l xs = takeWhile (\<lambda>x. fst x \<noteq> l) xs @ new @ dropWhile (\<lambda>x. fst x \<noteq> l) xs"

definition gap :: "int \<Rightarrow> int" where "gap i = (if i \<le> 0 then -1 else i)"

definition own_text :: "aux_op atom \<Rightarrow> string" where
  "own_text a = (case val a of ValueOp v \<Rightarrow> convertToString v | TextInsertOp i t \<Rightarrow> t | _ \<Rightarrow> [])"

definition deleted_by :: "aux_op atom \<Rightarrow> string \<Rightarrow> string" where
  "deleted_by d t = (case val d of TextDeleteOp b e \<Rightarrow> delete_text b e t | _ \<Rightarrow> t)"

definition marked_text :: "aux_op atom \<Rightarrow> aux_op atom list \<Rightarrow> string" where
  "marked_text a ds = foldl (\<lambda>t d. deleted_by d t) (own_text a) ds"

fun tree_tokens :: "aux_op ctree \<Rightarrow> token list" where
  "tree_tokens (CNode a ks) =
     foldl (\<lambda>xs k. case val (root_atom k) of TextInsertOp i _ \<Rightarrow> tokens_at (tree_tokens k) (a, gap i) xs | _ \<Rightarrow> xs)
       (((a, -1), NUL) # numbered a 0 (marked_text a (map root_atom ks))) ks"

definition shown :: "token list \<Rightarrow> string" where "shown xs = visible (map snd xs)"

text \<open>The trees of texts: below a value there are insertions, and deletions, which have a priority and nothing below.\<close>

definition is_insert :: "aux_op atom \<Rightarrow> bool" where
  "is_insert a = (case val a of TextInsertOp _ _ \<Rightarrow> True | _ \<Rightarrow> False)"

definition is_text_value :: "aux_op atom \<Rightarrow> bool" where
  "is_text_value a = (case val a of ValueOp v \<Rightarrow> v \<noteq> Null \<and> v \<noteq> Undefined | _ \<Rightarrow> False)"

fun text_below :: "aux_op ctree \<Rightarrow> bool" where
  "text_below (CNode a ks) \<longleftrightarrow>
     (\<forall>k\<in>set ks. (is_delete (root_atom k) \<and> 0 < prio (root_atom k) \<and> kids k = []) \<or>
        (is_insert (root_atom k) \<and> prio (root_atom k) = 0 \<and> text_below k))"

definition text_tree :: "aux_op ctree \<Rightarrow> bool" where
  "text_tree t \<longleftrightarrow> is_text_value (root_atom t) \<and> text_below t \<and> wf_ctree t \<and> distinct (map okey (preorder t))"

section \<open>Segments\<close>

abbreviation seg_atom :: "segment_info \<Rightarrow> aux_op atom" where "seg_atom s \<equiv> snd (si_node s)"

definition segment_tokens :: "segment_info \<Rightarrow> token list" where
  "segment_tokens s =
     (if si_offset s = 0 then [((seg_atom s, -1), NUL)] else []) @ numbered (seg_atom s) (si_offset s) (si_text s)"

abbreviation all_tokens :: "segment_info list \<Rightarrow> token list" where "all_tokens ss \<equiv> concat (map segment_tokens ss)"

text \<open>The segments of one atom are consecutive parts of its text, from \<open>n\<close> on.\<close>

fun pieces :: "aux_op atom \<Rightarrow> int \<Rightarrow> segment_info list \<Rightarrow> bool" where
  "pieces a n [] = True"
| "pieces a n (s # ss) =
     (if seg_atom s = a then si_offset s = n \<and> pieces a (n + int (length (si_text s))) ss else pieces a n ss)"

text \<open>Where an insertion goes within the segments of the causal group of its cause.\<close>

fun place :: "aux_op atom \<Rightarrow> int \<Rightarrow> segment_info \<Rightarrow> int \<Rightarrow> segment_info list \<Rightarrow> segment_info list" where
  "place a i new n [] = [new]"
| "place a i new n (s # ss) =
     (if seg_atom s \<noteq> a then s # place a i new n ss
      else if i \<le> 0 then new # s # ss
      else if i - n < int (length (si_text s)) then
        s\<lparr>si_text := take (nat (i - n)) (si_text s)\<rparr> # new #
        s\<lparr>si_text := drop (nat (i - n)) (si_text s), si_offset := si_offset s + (i - n)\<rparr> # ss
      else s # place a i new (n + int (length (si_text s))) ss)"

lemma insert_segment_outside:
  assumes "\<forall>s\<in>set ss. \<not> idEquals (Some (seg_id s)) c"
  shows "insert_segment new c i acc count li False t ss = take (li + 1) (acc @ ss) @ [new] @ drop (li + 1) (acc @ ss)"
  using assms by (induction ss arbitrary: acc) (simp_all del: take_append drop_append)

lemma insert_segment_inside:
  assumes "\<forall>s\<in>set (ss @ qs). idEquals (Some (seg_id s)) c \<longleftrightarrow> seg_atom s = a" and "\<forall>s\<in>set ss. ts a \<le> ts (seg_atom s)"
    and "\<forall>s\<in>set qs. seg_atom s \<noteq> a" and "qs = [] \<or> ts (seg_atom (hd qs)) < ts a" and "li + 1 = length acc"
  shows "insert_segment new c i acc n li True (ts a) (ss @ qs) = acc @ place a i new n ss @ qs"
  using assms
proof (induction ss arbitrary: acc n li)
  case Nil
  then have len: "li + 1 = length acc" by simp
  show ?case
  proof (cases qs)
    case Nil
    then show ?thesis using len by simp
  next
    case (Cons q qs')
    with Nil.prems have "\<not> idEquals (Some (seg_id q)) c" "ts (seg_atom q) < ts a" by auto
    moreover have "\<forall>s\<in>set qs'. \<not> idEquals (Some (seg_id s)) c" using Nil.prems Cons by auto
    ultimately show ?thesis using len Cons by (simp add: insert_segment_outside seg_id_def)
  qed
next
  case (Cons s ss)
  show ?case
  proof (cases "seg_atom s = a")
    case True
    with Cons.prems(1) have "idEquals (Some (seg_id s)) c" by auto
    with True Cons.prems Cons.IH[of "length acc" "acc @ [s]" "n + int (length (si_text s))"] show ?thesis
      by (auto simp: seg_id_def)
  next
    case False
    with Cons.prems have "\<not> idEquals (Some (seg_id s)) c" "\<not> ts (seg_atom s) < ts a" by auto
    with False Cons.prems Cons.IH[of "length acc" "acc @ [s]" n] show ?thesis by (auto simp: seg_id_def)
  qed
qed

lemma insert_segment_place:
  assumes "\<forall>s\<in>set (ss @ qs). idEquals (Some (seg_id s)) c \<longleftrightarrow> seg_atom s = a" and "\<forall>s\<in>set ss. ts a \<le> ts (seg_atom s)"
    and "\<forall>s\<in>set qs. seg_atom s \<noteq> a" and "qs = [] \<or> ts (seg_atom (hd qs)) < ts a" and "\<exists>s\<in>set ss. seg_atom s = a"
  shows "insert_segment new c i acc 0 li False t (ss @ qs) = acc @ place a i new 0 ss @ qs"
  using assms
proof (induction ss arbitrary: acc)
  case (Cons s ss)
  show ?case
  proof (cases "seg_atom s = a")
    case True
    with Cons.prems(1) have "idEquals (Some (seg_id s)) c" by auto
    with True Cons.prems insert_segment_inside[of ss qs c a "length acc" "acc @ [s]" new i "int (length (si_text s))"] show ?thesis
      by (auto simp: seg_id_def)
  next
    case False
    with Cons.prems have "\<not> idEquals (Some (seg_id s)) c" by auto
    with False Cons.prems Cons.IH[of "acc @ [s]"] show ?thesis by auto
  qed
qed simp

lemma insert_segment_skip:
  assumes "\<forall>s\<in>set ps. \<not> idEquals (Some (seg_id s)) c"
  shows "insert_segment new c i acc 0 li False t (ps @ ss) = insert_segment new c i (acc @ ps) 0 li False t ss"
  using assms by (induction ps arbitrary: acc) auto

section \<open>The characters of a placed segment\<close>

lemma numbered_append: "numbered a i (xs @ ys) = numbered a i xs @ numbered a (i + int (length xs)) ys"
  by (induction xs arbitrary: i) (auto simp: algebra_simps)

lemma numbered_labels: "x \<in> set (numbered a i xs) \<Longrightarrow> \<exists>j. fst x = (a, j) \<and> i \<le> j \<and> j < i + int (length xs)"
  by (induction xs arbitrary: i) fastforce+

lemma segment_labels: "x \<in> set (segment_tokens s) \<Longrightarrow> fst (fst x) = seg_atom s"
  by (auto simp: segment_tokens_def dest: numbered_labels split: if_splits)

lemma tokens_at_skip:
  "\<forall>x\<in>set xs. fst x \<noteq> l \<Longrightarrow> tokens_at new l (xs @ ys) = xs @ tokens_at new l ys"
  by (simp add: tokens_at_def)

lemma tokens_at_front: "ys \<noteq> [] \<Longrightarrow> fst (hd ys) = l \<Longrightarrow> tokens_at new l ys = new @ ys"
  by (cases ys) (simp_all add: tokens_at_def)

text \<open>A segment is placed between two lists of segments; what follows it is nothing or a segment of the cause.\<close>

lemma place_front: "pieces a n ss \<Longrightarrow> i \<le> 0 \<Longrightarrow> \<exists>s\<in>set ss. seg_atom s = a \<Longrightarrow>
  \<exists>us s vs. ss = us @ s # vs \<and> place a i new n ss = us @ new # s # vs \<and> seg_atom s = a \<and> (\<forall>u\<in>set us. seg_atom u \<noteq> a) \<and> si_offset s = n"
proof (induction ss)
  case (Cons s ss)
  show ?case
  proof (cases "seg_atom s = a")
    case True
    with Cons.prems show ?thesis by (intro exI[of _ "[]"] exI[of _ s] exI[of _ ss]) auto
  next
    case False
    with Cons obtain us s' vs where "ss = us @ s' # vs" "place a i new n ss = us @ new # s' # vs" "seg_atom s' = a"
        "\<forall>u\<in>set us. seg_atom u \<noteq> a" "si_offset s' = n" by auto
    with False show ?thesis by (intro exI[of _ "s # us"] exI[of _ s'] exI[of _ vs]) auto
  qed
qed simp

lemma labels_differ: "\<forall>u\<in>set us. seg_atom u \<noteq> a \<Longrightarrow> x \<in> set (all_tokens us) \<Longrightarrow> fst x \<noteq> (a, j)"
  using segment_labels by fastforce

text \<open>The labels that a segment of \<open>a\<close> at \<open>n\<close> has.\<close>

lemma segment_token_labels:
  assumes "seg_atom s = a" and "x \<in> set (segment_tokens s)" and "0 < i" and "si_offset s = n" and "n + int (length (si_text s)) \<le> i"
  shows "fst x \<noteq> (a, i)"
  using assms by (auto simp: segment_tokens_def dest!: numbered_labels split: if_splits)

lemma segment_split:
  assumes "seg_atom s = a" and "si_offset s = n" and "0 \<le> n" and "n \<le> i" and "0 < i" and "i - n < int (length (si_text s))"
  defines "s1 \<equiv> s\<lparr>si_text := take (nat (i - n)) (si_text s)\<rparr>"
    and "s2 \<equiv> s\<lparr>si_text := drop (nat (i - n)) (si_text s), si_offset := si_offset s + (i - n)\<rparr>"
  shows "segment_tokens s = segment_tokens s1 @ segment_tokens s2" and "\<forall>x\<in>set (segment_tokens s1). fst x \<noteq> (a, i)"
    and "segment_tokens s2 \<noteq> []" and "fst (hd (segment_tokens s2)) = (a, i)"
proof -
  have len: "int (length (take (nat (i - n)) (si_text s))) = i - n" using assms(4,6) by auto
  have "numbered a n (si_text s) = numbered a n (take (nat (i - n)) (si_text s)) @ numbered a i (drop (nat (i - n)) (si_text s))"
    using numbered_append[of a n "take (nat (i - n)) (si_text s)" "drop (nat (i - n)) (si_text s)"] len by simp
  then show "segment_tokens s = segment_tokens s1 @ segment_tokens s2"
    using assms(1-5) by (simp add: segment_tokens_def s1_def s2_def)
  show "\<forall>x\<in>set (segment_tokens s1). fst x \<noteq> (a, i)"
    using assms(1,2,5) len by (auto simp: segment_tokens_def s1_def dest!: numbered_labels split: if_splits)
  have "drop (nat (i - n)) (si_text s) \<noteq> []" using assms(4,6) by auto
  then obtain c cs where "drop (nat (i - n)) (si_text s) = c # cs" by (meson neq_Nil_conv)
  then show "segment_tokens s2 \<noteq> []" "fst (hd (segment_tokens s2)) = (a, i)"
    using assms(1-5) by (auto simp: segment_tokens_def s2_def)
qed

lemma place_inside:
  assumes "pieces a n ss" and "0 \<le> n" and "n \<le> i" and "0 < i"
  shows "\<exists>us vs. place a i new n ss = us @ new # vs \<and> all_tokens ss = all_tokens us @ all_tokens vs \<and>
    (\<forall>x\<in>set (all_tokens us). fst x \<noteq> (a, i)) \<and>
    (vs = [] \<or> seg_atom (hd vs) = a \<and> segment_tokens (hd vs) \<noteq> [] \<and> fst (hd (segment_tokens (hd vs))) = (a, i)) \<and>
    seg_atom ` set (us @ vs) = seg_atom ` set ss \<and> pieces a n (us @ vs)"
  using assms
proof (induction ss arbitrary: n)
  case Nil
  then show ?case by (intro exI[of _ "[]"]) simp
next
  case (Cons s ss)
  show ?case
  proof (cases "seg_atom s = a")
    case False
    with Cons.prems Cons.IH[of n] obtain us vs where "place a i new n ss = us @ new # vs" "all_tokens ss = all_tokens us @ all_tokens vs"
        "\<forall>x\<in>set (all_tokens us). fst x \<noteq> (a, i)"
        "vs = [] \<or> seg_atom (hd vs) = a \<and> segment_tokens (hd vs) \<noteq> [] \<and> fst (hd (segment_tokens (hd vs))) = (a, i)"
        "seg_atom ` set (us @ vs) = seg_atom ` set ss" "pieces a n (us @ vs)" by auto
    moreover have "\<forall>x\<in>set (segment_tokens s). fst x \<noteq> (a, i)" using False segment_labels[of _ s] by force
    ultimately show ?thesis using False by (intro exI[of _ "s # us"] exI[of _ vs]) auto
  next
    case True
    show ?thesis
    proof (cases "i - n < int (length (si_text s))")
      case inside: True
      let ?s1 = "s\<lparr>si_text := take (nat (i - n)) (si_text s)\<rparr>"
        and ?s2 = "s\<lparr>si_text := drop (nat (i - n)) (si_text s), si_offset := si_offset s + (i - n)\<rparr>"
      have off: "si_offset s = n" using Cons.prems(1) True by simp
      have split: "segment_tokens s = segment_tokens ?s1 @ segment_tokens ?s2" "\<forall>x\<in>set (segment_tokens ?s1). fst x \<noteq> (a, i)"
        "segment_tokens ?s2 \<noteq> []" "fst (hd (segment_tokens ?s2)) = (a, i)"
        using segment_split[OF True off Cons.prems(2,3,4) inside] by blast+
      have "place a i new n (s # ss) = [?s1] @ new # ?s2 # ss" using True inside Cons.prems(4) by simp
      moreover have "pieces a n ([?s1] @ ?s2 # ss)" using Cons.prems(1,3) True inside off by (auto simp: min_def algebra_simps)
      ultimately show ?thesis using split True
        by (intro exI[of _ "[?s1]"] exI[of _ "?s2 # ss"]) auto
    next
      case after: False
      with Cons.prems True Cons.IH[of "n + int (length (si_text s))"] obtain us vs where
        IH: "place a i new (n + int (length (si_text s))) ss = us @ new # vs" "all_tokens ss = all_tokens us @ all_tokens vs"
        "\<forall>x\<in>set (all_tokens us). fst x \<noteq> (a, i)"
        "vs = [] \<or> seg_atom (hd vs) = a \<and> segment_tokens (hd vs) \<noteq> [] \<and> fst (hd (segment_tokens (hd vs))) = (a, i)"
        "seg_atom ` set (us @ vs) = seg_atom ` set ss" "pieces a (n + int (length (si_text s))) (us @ vs)" by auto
      have "\<forall>x\<in>set (segment_tokens s). fst x \<noteq> (a, i)"
        using segment_token_labels[OF True, of _ i n] after Cons.prems(1,4) True by auto
      with IH True after Cons.prems show ?thesis by (intro exI[of _ "s # us"] exI[of _ vs]) auto
    qed
  qed
qed

lemma place_tokens:
  assumes "pieces a 0 ss" and "\<exists>s\<in>set ss. seg_atom s = a"
  shows "\<exists>us vs. place a i new 0 ss = us @ new # vs \<and> tokens_at ys (a, gap i) (all_tokens ss) = all_tokens us @ ys @ all_tokens vs \<and>
    (vs = [] \<or> seg_atom (hd vs) = a) \<and> seg_atom ` set (us @ vs) = seg_atom ` set ss \<and> pieces a 0 (us @ vs)"
proof (cases "i \<le> 0")
  case True
  from place_front[OF assms(1) True assms(2)] obtain us s vs where s: "ss = us @ s # vs" "place a i new 0 ss = us @ new # s # vs"
      "seg_atom s = a" "\<forall>u\<in>set us. seg_atom u \<noteq> a" "si_offset s = 0" by blast
  have "tokens_at ys (a, -1) (all_tokens us @ all_tokens (s # vs)) = all_tokens us @ ys @ all_tokens (s # vs)"
    using s(3,5) labels_differ[OF s(4)] by (subst tokens_at_skip) (auto simp: tokens_at_front segment_tokens_def)
  with s True assms(1) show ?thesis by (intro exI[of _ us] exI[of _ "s # vs"]) (simp add: gap_def)
next
  case False
  with place_inside[OF assms(1), of i new] obtain us vs where p: "place a i new 0 ss = us @ new # vs"
      "all_tokens ss = all_tokens us @ all_tokens vs" "\<forall>x\<in>set (all_tokens us). fst x \<noteq> (a, i)"
      "vs = [] \<or> seg_atom (hd vs) = a \<and> segment_tokens (hd vs) \<noteq> [] \<and> fst (hd (segment_tokens (hd vs))) = (a, i)"
      "seg_atom ` set (us @ vs) = seg_atom ` set ss" "pieces a 0 (us @ vs)" by auto
  have "tokens_at ys (a, i) (all_tokens vs) = ys @ all_tokens vs"
    using p(4) by (cases vs) (auto simp: tokens_at_def[of _ _ "[]"] intro!: tokens_at_front)
  with p(2,3) have "tokens_at ys (a, gap i) (all_tokens ss) = all_tokens us @ ys @ all_tokens vs"
    using False by (simp add: tokens_at_skip gap_def)
  with p show ?thesis by blast
qed

section \<open>The traversal gives the characters of the tree\<close>

text \<open>The segments of the causal group of an atom.\<close>

definition block :: "aux_op atom \<Rightarrow> segment_info list \<Rightarrow> bool" where
  "block a ss \<longleftrightarrow> pieces a 0 ss \<and> (\<exists>s\<in>set ss. seg_atom s = a) \<and> (\<forall>s\<in>set ss. ts a \<le> ts (seg_atom s))"

definition follows :: "aux_op atom \<Rightarrow> segment_info list \<Rightarrow> bool" where
  "follows a qs \<longleftrightarrow> qs = [] \<or> ts (seg_atom (hd qs)) < ts a"

definition noded :: "(aux_op atom \<Rightarrow> nat) \<Rightarrow> aux_op atom list \<Rightarrow> edit_node list" where
  "noded ad xs = map (\<lambda>a. (ad a, a)) xs"

definition own_segment :: "(aux_op atom \<Rightarrow> nat) \<Rightarrow> aux_op atom \<Rightarrow> string \<Rightarrow> segment_info" where
  "own_segment ad a t = \<lparr>si_text = t, si_node = (ad a, a), si_offset = 0\<rparr>"

definition ids_differ :: "aux_op atom set \<Rightarrow> bool" where
  "ids_differ U \<longleftrightarrow> (\<forall>x\<in>U. \<forall>y\<in>U. id_norm (aid x) = id_norm (aid y) \<longrightarrow> x = y)"

lemma noded_simps [simp]:
  "noded ad [] = []" "noded ad (a # xs) = (ad a, a) # noded ad xs" "noded ad (xs @ ys) = noded ad xs @ noded ad ys"
  by (simp_all add: noded_def)

lemma add_nodes_append: "add_nodes (xs @ ys) ss = do { s1 \<leftarrow> add_nodes xs ss; add_nodes ys s1 }"
  by (induction xs arbitrary: ss) (auto split: bind_splits)

lemma own_segment_simps [simp]:
  "seg_atom (own_segment ad a t) = a" "si_text (own_segment ad a t) = t" "si_offset (own_segment ad a t) = 0"
  by (simp_all add: own_segment_def)

lemma pieces_absent: "\<forall>s\<in>set ss. seg_atom s \<noteq> a \<Longrightarrow> pieces a n ss"
  by (induction ss) auto

lemma pieces_between:
  "\<forall>s\<in>set bs. seg_atom s \<noteq> a \<Longrightarrow> pieces a n (us @ bs @ vs) = pieces a n (us @ vs)"
proof (induction us arbitrary: n)
  case Nil
  then show ?case by (induction bs) auto
qed simp

lemma cause_segment:
  assumes "ids_differ U" and "a \<in> U" and "seg_atom s \<in> U" and "idEquals c (Some (aid a))"
  shows "idEquals (Some (seg_id s)) c \<longleftrightarrow> seg_atom s = a"
proof -
  obtain i where i: "c = Some i" "id_norm i = id_norm (aid a)" using assms(4) by (cases c) auto
  then have "idEquals (Some (seg_id s)) c \<longleftrightarrow> id_norm (aid (seg_atom s)) = id_norm (aid a)" by (auto simp: seg_id_def)
  also have "\<dots> \<longleftrightarrow> seg_atom s = a" using assms(1-3) by (auto simp: ids_differ_def)
  finally show ?thesis .
qed

text \<open>Deletions change the text of the only segment of their cause.\<close>

lemma delete_segment_at:
  assumes "\<forall>s\<in>set ps. \<not> idEquals (Some (seg_id s)) c" and "idEquals (Some (seg_id x)) c"
  shows "delete_segment c b e (ps @ x # qs) = ps @ x\<lparr>si_text := delete_text b e (si_text x)\<rparr> # qs"
  using assms by (induction ps) auto

lemma run_deletes:
  assumes "ids_differ U" and "r \<in> U" and "\<forall>s\<in>set ps. seg_atom s \<in> U \<and> seg_atom s \<noteq> r"
    and "\<forall>d\<in>set ds. is_delete d \<and> idEquals (cause d) (Some (aid r))"
  shows "add_nodes (noded ad ds) (ps @ own_segment ad r t # qs) =
    Some (ps @ own_segment ad r (foldl (\<lambda>t d. deleted_by d t) t ds) # qs)"
  using assms(4)
proof (induction ds arbitrary: t)
  case (Cons d ds)
  then obtain b e where d: "val d = TextDeleteOp b e" "idEquals (cause d) (Some (aid r))"
    by (auto simp: is_delete_def split: aux_op.splits)
  have "\<forall>s\<in>set ps. \<not> idEquals (Some (seg_id s)) (cause d)" using cause_segment[OF assms(1,2) _ d(2)] assms(3) by auto
  moreover have "idEquals (Some (seg_id (own_segment ad r t))) (cause d)" using cause_segment[OF assms(1,2) _ d(2)] assms(2) by simp
  ultimately have "add_node (ad d, d) (ps @ own_segment ad r t # qs) = Some (ps @ own_segment ad r (deleted_by d t) # qs)"
    using d(1) by (simp add: delete_segment_at deleted_by_def own_segment_def)
  with Cons show ?case by simp
qed simp

text \<open>Deletions come before insertions.\<close>

lemma kids_split:
  assumes "\<forall>k\<in>set ks. (is_delete (root_atom k) \<and> 0 < prio (root_atom k) \<and> kids k = []) \<or>
        (is_insert (root_atom k) \<and> prio (root_atom k) = 0 \<and> text_below k)"
    and "sorted_wrt sib_before (map root_atom ks)"
  shows "\<exists>ds ls. ks = ds @ ls \<and> (\<forall>k\<in>set ds. is_delete (root_atom k) \<and> kids k = []) \<and>
    (\<forall>k\<in>set ls. is_insert (root_atom k) \<and> prio (root_atom k) = 0 \<and> text_below k)"
  using assms
proof (induction ks)
  case (Cons k ks)
  then obtain ds ls where IH: "ks = ds @ ls" "\<forall>k\<in>set ds. is_delete (root_atom k) \<and> kids k = []"
      "\<forall>k\<in>set ls. is_insert (root_atom k) \<and> prio (root_atom k) = 0 \<and> text_below k" by auto
  show ?case
  proof (cases "is_delete (root_atom k)")
    case True
    with Cons.prems(1) have "kids k = []" by (auto simp: is_delete_def is_insert_def split: aux_op.splits)
    with True IH show ?thesis by (intro exI[of _ "k # ds"] exI[of _ ls]) simp
  next
    case False
    with Cons.prems(1) have k: "is_insert (root_atom k) \<and> prio (root_atom k) = 0 \<and> text_below k" by auto
    have "is_insert (root_atom j) \<and> prio (root_atom j) = 0 \<and> text_below j" if j: "j \<in> set ks" for j
    proof -
      have "sib_before (root_atom k) (root_atom j)" using Cons.prems(2) j by auto
      then have "\<not> 0 < prio (root_atom j)" using k by (auto simp: sib_before_iff)
      then show ?thesis using Cons.prems(1) j by auto
    qed
    with k show ?thesis by (intro exI[of _ "[]"] exI[of _ "k # ks"]) simp
  qed
qed simp

lemma deletes_forest: "\<forall>k\<in>set ds. kids k = [] \<Longrightarrow> forest ds = map root_atom ds"
  by (induction ds) (auto simp: preorder_root)

lemma marked_text_inserts: "\<forall>d\<in>set ds. is_insert d \<Longrightarrow> foldl (\<lambda>t d. deleted_by d t) t ds = t"
  by (induction ds) (auto simp: deleted_by_def is_insert_def split: aux_op.splits)

lemma delete_is_not_insert: "is_delete d \<Longrightarrow> \<not> (\<exists>i t. val d = TextInsertOp i t)"
  by (auto simp: is_delete_def split: aux_op.splits)

text \<open>The segments before, of and behind a causal group, with none of the atoms that are to come.\<close>

definition apart :: "aux_op atom set \<Rightarrow> aux_op atom \<Rightarrow> segment_info list \<Rightarrow> segment_info list \<Rightarrow> segment_info list \<Rightarrow> aux_op atom list \<Rightarrow> bool" where
  "apart U a ps ss qs xs \<longleftrightarrow> block a ss \<and> (\<forall>s\<in>set (ps @ qs). seg_atom s \<noteq> a) \<and> follows a qs \<and>
     seg_atom ` set (ps @ ss @ qs) \<subseteq> U \<and> seg_atom ` set (ps @ ss @ qs) \<inter> set xs = {}"

definition add_kid :: "aux_op atom \<Rightarrow> token list \<Rightarrow> aux_op ctree \<Rightarrow> token list" where
  "add_kid a xs k = (case val (root_atom k) of TextInsertOp i _ \<Rightarrow> tokens_at (tree_tokens k) (a, gap i) xs | _ \<Rightarrow> xs)"

lemma tree_tokens_fold:
  "tree_tokens (CNode a ks) = foldl (add_kid a) (((a, -1), NUL) # numbered a 0 (marked_text a (map root_atom ks))) ks"
proof -
  have "(\<lambda>xs k. case val (root_atom k) of TextInsertOp i _ \<Rightarrow> tokens_at (tree_tokens k) (a, gap i) xs | _ \<Rightarrow> xs) = add_kid a"
    by (simp add: fun_eq_iff add_kid_def)
  then show ?thesis by simp
qed

definition runs :: "(aux_op atom \<Rightarrow> nat) \<Rightarrow> aux_op atom set \<Rightarrow> aux_op atom \<Rightarrow> aux_op ctree \<Rightarrow> bool" where
  "runs ad U a k \<longleftrightarrow> (\<forall>ps ss qs. apart U a ps ss qs (preorder k) \<longrightarrow>
     (\<exists>ss'. add_nodes (noded ad (preorder k)) (ps @ ss @ qs) = Some (ps @ ss' @ qs) \<and> block a ss' \<and>
        all_tokens ss' = add_kid a (all_tokens ss) k \<and> seg_atom ` set ss' \<subseteq> seg_atom ` set ss \<union> set (preorder k)))"

lemma runs_step:
  "runs ad U a k \<Longrightarrow> apart U a ps ss qs (preorder k) \<Longrightarrow>
    \<exists>ss'. add_nodes (noded ad (preorder k)) (ps @ ss @ qs) = Some (ps @ ss' @ qs) \<and> block a ss' \<and>
        all_tokens ss' = add_kid a (all_tokens ss) k \<and> seg_atom ` set ss' \<subseteq> seg_atom ` set ss \<union> set (preorder k)"
  unfolding runs_def by (elim allE impE) assumption+

lemma apart_next:
  assumes "apart U r ps ss qs (xs @ ys)" and "block r s1" and "seg_atom ` set s1 \<subseteq> seg_atom ` set ss \<union> set xs"
    and "distinct (xs @ ys)" and "set (xs @ ys) \<subseteq> U"
  shows "apart U r ps s1 qs ys"
proof -
  let ?A = "seg_atom ` set (ps @ ss @ qs)"
  have sub: "seg_atom ` set (ps @ s1 @ qs) \<subseteq> ?A \<union> set xs" using assms(3) by (simp only: set_append image_Un) blast
  have A: "?A \<subseteq> U" "?A \<inter> (set xs \<union> set ys) = {}" using assms(1) by (simp_all only: apart_def set_append)
  have xy: "set xs \<inter> set ys = {}" "set xs \<subseteq> U" using assms(4,5) by simp_all
  have "seg_atom ` set (ps @ s1 @ qs) \<subseteq> U" using sub A(1) xy(2) by (meson Un_least subset_trans)
  moreover have "seg_atom ` set (ps @ s1 @ qs) \<inter> set ys = {}" using sub A(2) xy(1) by blast
  ultimately have "seg_atom ` set (ps @ s1 @ qs) \<subseteq> U" "seg_atom ` set (ps @ s1 @ qs) \<inter> set ys = {}" by blast+
  then show ?thesis using assms(1,2) unfolding apart_def by blast
qed

lemma text_below_insert: "text_below (CNode a ks) \<Longrightarrow> l \<in> set ks \<Longrightarrow> is_insert (root_atom l) \<Longrightarrow> text_below l"
  using delete_is_not_insert[of "root_atom l"] by (simp add: is_insert_def split: aux_op.splits) (metis)

lemma run_inserts:
  assumes "\<forall>l\<in>set ls. runs ad U r l" and "apart U r ps ss qs (forest ls)" and "distinct (forest ls)" and "set (forest ls) \<subseteq> U"
  shows "\<exists>ss'. add_nodes (noded ad (forest ls)) (ps @ ss @ qs) = Some (ps @ ss' @ qs) \<and> block r ss' \<and>
    all_tokens ss' = foldl (add_kid r) (all_tokens ss) ls \<and> seg_atom ` set ss' \<subseteq> seg_atom ` set ss \<union> set (forest ls)"
  using assms
proof (induction ls arbitrary: ss)
  case Nil
  then show ?case by (auto simp: apart_def)
next
  case (Cons l ls)
  have "apart U r ps ss qs (preorder l)" using Cons.prems(2) by (auto simp: apart_def)
  moreover have "runs ad U r l" using Cons.prems(1) by simp
  ultimately have "\<exists>ss'. add_nodes (noded ad (preorder l)) (ps @ ss @ qs) = Some (ps @ ss' @ qs) \<and> block r ss' \<and>
      all_tokens ss' = add_kid r (all_tokens ss) l \<and> seg_atom ` set ss' \<subseteq> seg_atom ` set ss \<union> set (preorder l)"
    by (rule runs_step[rotated])
  then obtain s1 where s1: "add_nodes (noded ad (preorder l)) (ps @ ss @ qs) = Some (ps @ s1 @ qs)" "block r s1"
      "all_tokens s1 = add_kid r (all_tokens ss) l" "seg_atom ` set s1 \<subseteq> seg_atom ` set ss \<union> set (preorder l)"
    unfolding runs_def by blast
  have "apart U r ps s1 qs (forest ls)"
    using Cons.prems(2-4) s1(2,4) by (intro apart_next[of U r ps ss qs "preorder l" "forest ls" s1]) auto
  moreover have "\<forall>l\<in>set ls. runs ad U r l" "distinct (forest ls)" "set (forest ls) \<subseteq> U" using Cons.prems by simp_all
  ultimately obtain s2 where s2: "add_nodes (noded ad (forest ls)) (ps @ s1 @ qs) = Some (ps @ s2 @ qs)" "block r s2"
      "all_tokens s2 = foldl (add_kid r) (all_tokens s1) ls" "seg_atom ` set s2 \<subseteq> seg_atom ` set s1 \<union> set (forest ls)"
    using Cons.IH[of s1] by blast
  have "add_nodes (noded ad (forest (l # ls))) (ps @ ss @ qs) = Some (ps @ s2 @ qs)"
    using s1(1) s2(1) by (simp add: add_nodes_append)
  moreover have "seg_atom ` set s2 \<subseteq> seg_atom ` set ss \<union> set (forest (l # ls))"
    using s1(4) s2(4) by (simp only: list.map concat.simps set_append) blast
  ultimately show ?case using s1(3) s2(2,3) by (intro exI[of _ s2]) simp
qed

lemma fold_deletes: "\<forall>k\<in>set ds. is_delete (root_atom k) \<Longrightarrow> foldl (add_kid r) xs ds = xs"
  by (induction ds) (auto simp: add_kid_def is_delete_def split: aux_op.splits)

lemma run_node:
  assumes ids: "ids_differ U" and U: "r \<in> U" "set (forest ks) \<subseteq> U" and wf: "wf_ctree (CNode r ks)" and below: "text_below (CNode r ks)"
    and dist: "distinct (forest ks)" "r \<notin> set (forest ks)"
    and kids: "\<forall>l\<in>set ks. is_insert (root_atom l) \<longrightarrow> runs ad U r l"
    and around: "\<forall>s\<in>set (ps @ qs). seg_atom s \<in> U \<and> seg_atom s \<noteq> r \<and> seg_atom s \<notin> set (forest ks)" "follows r qs"
  shows "\<exists>bs. add_nodes (noded ad (forest ks)) (ps @ own_segment ad r (own_text r) # qs) = Some (ps @ bs @ qs) \<and> block r bs \<and>
    all_tokens bs = tree_tokens (CNode r ks) \<and> seg_atom ` set bs \<subseteq> insert r (set (forest ks))"
proof -
  obtain ds ls where ks: "ks = ds @ ls" "\<forall>k\<in>set ds. is_delete (root_atom k) \<and> kids k = []"
      "\<forall>k\<in>set ls. is_insert (root_atom k) \<and> prio (root_atom k) = 0 \<and> text_below k"
    using kids_split[of ks] below wf by auto
  let ?t = "marked_text r (map root_atom ks)" and ?s = "own_segment ad r (marked_text r (map root_atom ks))"
  have "\<forall>d\<in>set (map root_atom ds). is_delete d \<and> idEquals (cause d) (Some (aid r))" using ks(1,2) wf by auto
  from run_deletes[OF ids U(1) _ this, of ps ad "own_text r" qs]
  have "add_nodes (noded ad (map root_atom ds)) (ps @ own_segment ad r (own_text r) # qs) =
      Some (ps @ own_segment ad r (foldl (\<lambda>t d. deleted_by d t) (own_text r) (map root_atom ds)) # qs)"
    using around(1) by auto
  moreover have "foldl (\<lambda>t d. deleted_by d t) (own_text r) (map root_atom ds) = ?t"
    using marked_text_inserts[of "map root_atom ls"] ks(1,3) by (simp add: marked_text_def)
  ultimately have dels: "add_nodes (noded ad (forest ds)) (ps @ own_segment ad r (own_text r) # qs) = Some (ps @ [?s] @ qs)"
    using ks(2) deletes_forest[of ds] by simp
  have "apart U r ps [?s] qs (forest ls)"
    using around U ks(1) dist by (auto simp: apart_def block_def)
  moreover have "\<forall>l\<in>set ls. runs ad U r l" using kids ks(1,3) by auto
  moreover have "distinct (forest ls)" "set (forest ls) \<subseteq> U" using dist U ks(1) by auto
  ultimately obtain bs where bs: "add_nodes (noded ad (forest ls)) (ps @ [?s] @ qs) = Some (ps @ bs @ qs)" "block r bs"
      "all_tokens bs = foldl (add_kid r) (all_tokens [?s]) ls" "seg_atom ` set bs \<subseteq> seg_atom ` set [?s] \<union> set (forest ls)"
    using run_inserts by blast
  have "all_tokens bs = tree_tokens (CNode r ks)"
    using bs(3) fold_deletes[of ds r] ks(1,2) by (simp add: tree_tokens_fold segment_tokens_def del: tree_tokens.simps)
  with bs dels ks(1) show ?thesis by (intro exI[of _ bs]) (auto simp: add_nodes_append)
qed

lemma run_tree:
  assumes "wf_ctree k" and "text_below k" and "is_insert (root_atom k)" and "idEquals (cause (root_atom k)) (Some (aid a))"
    and "ts a < ts (root_atom k)" and "ids_differ U" and "a \<in> U" and "set (preorder k) \<subseteq> U" and "distinct (preorder k)"
    and "a \<notin> set (preorder k)"
  shows "runs ad U a k"
  using assms
proof (induction k arbitrary: a)
  case (CNode r ks)
  obtain i t where r: "val r = TextInsertOp i t" using CNode.prems(3) by (auto simp: is_insert_def split: aux_op.splits)
  have kids: "\<forall>l\<in>set ks. is_insert (root_atom l) \<longrightarrow> runs ad U r l"
  proof (intro ballI impI)
    fix l assume l: "l \<in> set ks" "is_insert (root_atom l)"
    have "text_below l" using CNode.prems(2) l by (rule text_below_insert)
    moreover have "distinct (preorder l)" using CNode.prems(9) l(1) by (auto dest!: split_list)
    ultimately show "runs ad U r l" using CNode.prems l by (intro CNode.IH) auto
  qed
  show ?case unfolding runs_def
  proof (intro allI impI)
    fix ps ss qs assume ap: "apart U a ps ss qs (preorder (CNode r ks))"
    then have ap1: "block a ss" "\<forall>s\<in>set (ps @ qs). seg_atom s \<noteq> a" "follows a qs" "seg_atom ` set (ps @ ss @ qs) \<subseteq> U"
      "seg_atom ` set (ps @ ss @ qs) \<inter> set (preorder (CNode r ks)) = {}" by (simp_all add: apart_def)
    let ?new = "own_segment ad r t"
    have cause: "idEquals (Some (seg_id s)) (cause r) \<longleftrightarrow> seg_atom s = a" if "s \<in> set (ps @ ss @ qs)" for s
      using cause_segment[OF CNode.prems(6,7) _ , of s "cause r"] CNode.prems(4) ap1(4) that by auto
    have "add_node (ad r, r) (ps @ ss @ qs) = Some (insert_segment ?new (cause r) i [] 0 0 False (-1) (ps @ ss @ qs))"
      using r by (simp add: own_segment_def)
    also have "insert_segment ?new (cause r) i [] 0 0 False (-1) (ps @ ss @ qs) =
        insert_segment ?new (cause r) i ps 0 0 False (-1) (ss @ qs)"
      using insert_segment_skip[of ps "cause r"] cause ap1(2) by simp
    also have "\<dots> = ps @ place a i ?new 0 ss @ qs"
      using ap1 cause by (intro insert_segment_place) (auto simp: block_def follows_def)
    finally have added: "add_node (ad r, r) (ps @ ss @ qs) = Some (ps @ place a i ?new 0 ss @ qs)" .
    obtain us vs where p: "place a i ?new 0 ss = us @ ?new # vs"
        "tokens_at (tree_tokens (CNode r ks)) (a, gap i) (all_tokens ss) = all_tokens us @ tree_tokens (CNode r ks) @ all_tokens vs"
        "vs = [] \<or> seg_atom (hd vs) = a" "seg_atom ` set (us @ vs) = seg_atom ` set ss" "pieces a 0 (us @ vs)"
      using place_tokens[of a ss i ?new "tree_tokens (CNode r ks)"] ap1(1) by (auto simp: block_def simp del: tree_tokens.simps)
    have atoms: "seg_atom ` set ((ps @ us) @ (vs @ qs)) = seg_atom ` set (ps @ ss @ qs)" using p(4) by (auto simp: image_Un)
    have "follows r (vs @ qs)"
      using p(3) ap1(3) CNode.prems(5) by (cases vs) (auto simp: follows_def)
    moreover have "\<forall>s\<in>set ((ps @ us) @ (vs @ qs)). seg_atom s \<in> U \<and> seg_atom s \<noteq> r \<and> seg_atom s \<notin> set (forest ks)"
    proof
      fix s assume "s \<in> set ((ps @ us) @ (vs @ qs))"
      then have "seg_atom s \<in> seg_atom ` set (ps @ ss @ qs)" using atoms by blast
      with ap1(4,5) show "seg_atom s \<in> U \<and> seg_atom s \<noteq> r \<and> seg_atom s \<notin> set (forest ks)" by auto
    qed
    ultimately obtain bs where bs: "add_nodes (noded ad (forest ks)) ((ps @ us) @ own_segment ad r (own_text r) # (vs @ qs)) =
        Some ((ps @ us) @ bs @ (vs @ qs))" "block r bs" "all_tokens bs = tree_tokens (CNode r ks)"
        "seg_atom ` set bs \<subseteq> insert r (set (forest ks))"
      using run_node[OF CNode.prems(6) _ _ CNode.prems(1,2) _ _ kids, of "ps @ us" "vs @ qs"] CNode.prems(8,9)
      by (auto simp del: tree_tokens.simps set_append)
    let ?S = "us @ bs @ vs"
    have "own_text r = t" using r by (simp add: own_text_def)
    then have "add_nodes (noded ad (preorder (CNode r ks))) (ps @ ss @ qs) = Some (ps @ ?S @ qs)"
      using added p(1) bs(1) by simp
    moreover have "block a ?S"
    proof -
      have "\<forall>s\<in>set bs. seg_atom s \<noteq> a" using bs(4) CNode.prems(10) by auto
      then have "pieces a 0 ?S" using p(5) pieces_between[of bs a 0 us vs] by simp
      moreover obtain s where "s \<in> set (us @ vs)" "seg_atom s = a" using ap1(1) p(4) by (force simp: block_def)
      moreover have "ts a \<le> ts (seg_atom s)" if "s \<in> set ?S" for s
      proof (cases "s \<in> set bs")
        case True
        then show ?thesis using bs(2) CNode.prems(5) by (force simp: block_def)
      next
        case False
        then have "seg_atom s \<in> seg_atom ` set ss" using that p(4) by auto
        then show ?thesis using ap1(1) by (auto simp: block_def)
      qed
      ultimately show ?thesis unfolding block_def by auto
    qed
    moreover have "all_tokens ?S = add_kid a (all_tokens ss) (CNode r ks)"
      using p(2) bs(3) r by (simp add: add_kid_def del: tree_tokens.simps)
    moreover have "seg_atom ` set ?S \<subseteq> seg_atom ` set ss \<union> set (preorder (CNode r ks))"
      using p(4) bs(4) by auto
    ultimately show "\<exists>ss'. add_nodes (noded ad (preorder (CNode r ks))) (ps @ ss @ qs) = Some (ps @ ss' @ qs) \<and> block a ss' \<and>
        all_tokens ss' = add_kid a (all_tokens ss) (CNode r ks) \<and>
        seg_atom ` set ss' \<subseteq> seg_atom ` set ss \<union> set (preorder (CNode r ks))" by blast
  qed
qed

lemma okey_ids_differ: "distinct (map okey xs) \<Longrightarrow> ids_differ (set xs)"
  unfolding ids_differ_def by (metis distinct_map_inj id_norm_okey)

text \<open>The segments of a text have the characters of its tree.\<close>

theorem segments_of_tree:
  assumes "text_tree t"
  shows "\<exists>ss. add_nodes (noded ad (preorder t)) [] = Some ss \<and> all_tokens ss = tree_tokens t \<and> block (root_atom t) ss \<and>
    seg_atom ` set ss \<subseteq> set (preorder t)"
proof -
  obtain v ks where t: "t = CNode v ks" by (cases t)
  have tree: "is_text_value v" "text_below t" "wf_ctree t" "distinct (map okey (preorder t))"
    using assms by (auto simp: text_tree_def t)
  have dist: "distinct (preorder t)" using tree(4) by (simp add: distinct_map)
  have ids: "ids_differ (set (preorder t))" using tree(4) by (rule okey_ids_differ)
  have "\<forall>l\<in>set ks. is_insert (root_atom l) \<longrightarrow> runs ad (set (preorder t)) v l"
  proof (intro ballI impI)
    fix l assume l: "l \<in> set ks" "is_insert (root_atom l)"
    have "text_below l" using tree(2) l unfolding t by (rule text_below_insert)
    moreover have "distinct (preorder l)" using dist l(1) by (auto simp: t dest!: split_list)
    ultimately show "runs ad (set (preorder t)) v l" using tree(3) dist l ids by (intro run_tree) (auto simp: t)
  qed
  from run_node[OF ids _ _ _ _ _ _ this, of "[]" "[]"] obtain bs where
    "add_nodes (noded ad (forest ks)) [own_segment ad v (own_text v)] = Some bs" "block v bs"
    "all_tokens bs = tree_tokens t" "seg_atom ` set bs \<subseteq> set (preorder t)"
    using tree dist by (auto simp: t follows_def simp del: tree_tokens.simps)
  moreover have "add_node (ad v, v) [] = Some [own_segment ad v (own_text v)]"
    using tree(1) by (auto simp: is_text_value_def own_segment_def own_text_def split: aux_op.splits)
  ultimately show ?thesis by (simp add: t del: tree_tokens.simps)
qed

end
