(* ===== verification/TextPlaces.thy ===== *)
theory TextPlaces
  imports TextSpec
begin

text \<open>
  Where the characters of a new node stand among those of the tree: a node that is newer than the others inserts its
  characters directly behind the character before its index. The labels of the characters are all different, so a
  label and the segments of \<^verbatim>\<open>calculateOrderedEdits\<close> agree on this place.
\<close>

declare tree_tokens.simps [simp del]

section \<open>Labels\<close>

lemma set_tokens_at [simp]: "set (tokens_at new l xs) = set new \<union> set xs"
proof -
  have "set (takeWhile (\<lambda>x. fst x \<noteq> l) xs) \<union> set (dropWhile (\<lambda>x. fst x \<noteq> l) xs) = set xs"
    by (metis set_append takeWhile_dropWhile_id)
  then show ?thesis by (auto simp: tokens_at_def)
qed

lemma distinct_numbered: "distinct (map fst (numbered a i xs))"
  by (induction xs arbitrary: i) (auto dest: numbered_labels)

lemma distinct_tokens_at:
  assumes "distinct (map fst new)" and "distinct (map fst xs)" and "fst ` set new \<inter> fst ` set xs = {}"
  shows "distinct (map fst (tokens_at new l xs))"
proof -
  let ?u = "takeWhile (\<lambda>x. fst x \<noteq> l) xs" and ?v = "dropWhile (\<lambda>x. fst x \<noteq> l) xs"
  have "map fst xs = map fst ?u @ map fst ?v" by (metis map_append takeWhile_dropWhile_id)
  with assms(2) have "distinct (map fst ?u @ map fst ?v)" by metis
  moreover have "fst ` set ?u \<subseteq> fst ` set xs" "fst ` set ?v \<subseteq> fst ` set xs"
    by (auto dest: set_takeWhileD set_dropWhileD)
  ultimately show ?thesis using assms(1,3) unfolding tokens_at_def map_append distinct_append set_append set_map by blast
qed

text \<open>The characters of one node, in order.\<close>

definition of_node :: "aux_op atom \<Rightarrow> token list \<Rightarrow> token list" where
  "of_node c xs = filter (\<lambda>x. fst (fst x) = c) xs"

lemma of_node_append [simp]: "of_node c (xs @ ys) = of_node c xs @ of_node c ys"
  by (simp add: of_node_def)

lemma of_node_Cons [simp]: "of_node c (x # xs) = (if fst (fst x) = c then x # of_node c xs else of_node c xs)"
  by (simp add: of_node_def)

lemma of_node_label: "(c, j) \<in> fst ` set xs \<Longrightarrow> (c, j) \<in> fst ` set (of_node c xs)"
  by (auto simp: of_node_def image_iff)

lemma of_node_absent: "\<forall>x\<in>set xs. fst (fst x) \<noteq> c \<Longrightarrow> of_node c xs = []"
  by (simp add: of_node_def filter_empty_conv)

lemma of_node_numbered [simp]: "of_node c (numbered a i xs) = (if a = c then numbered a i xs else [])"
  by (induction xs arbitrary: i) (auto simp: of_node_def)

lemma of_node_at:
  "of_node c new = [] \<Longrightarrow> of_node c (tokens_at new l xs) = of_node c xs"
  "of_node c xs = [] \<Longrightarrow> of_node c (tokens_at new l xs) = of_node c new"
proof -
  have "of_node c xs = of_node c (takeWhile (\<lambda>x. fst x \<noteq> l) xs) @ of_node c (dropWhile (\<lambda>x. fst x \<noteq> l) xs)"
    by (metis of_node_append takeWhile_dropWhile_id)
  then show "of_node c new = [] \<Longrightarrow> of_node c (tokens_at new l xs) = of_node c xs"
    "of_node c xs = [] \<Longrightarrow> of_node c (tokens_at new l xs) = of_node c new" by (auto simp: tokens_at_def)
qed

definition base_tokens :: "aux_op atom \<Rightarrow> aux_op ctree list \<Rightarrow> token list" where
  "base_tokens a ks = ((a, -1), NUL) # numbered a 0 (marked_text a (map root_atom ks))"

lemma tree_tokens_base: "tree_tokens (CNode a ks) = foldl (add_kid a) (base_tokens a ks) ks"
  by (simp only: tree_tokens_fold base_tokens_def)

lemma add_kid_insert: "val (root_atom k) = TextInsertOp i t \<Longrightarrow> add_kid a xs k = tokens_at (tree_tokens k) (a, gap i) xs"
  by (simp add: add_kid_def)

lemma add_kid_other: "\<not> is_insert (root_atom k) \<Longrightarrow> add_kid a xs k = xs"
  by (simp add: add_kid_def is_insert_def split: aux_op.splits)

lemma set_add_kid: "set (add_kid a xs k) \<subseteq> set xs \<union> set (tree_tokens k)"
  by (auto simp: add_kid_def split: aux_op.splits)

lemma set_fold_kids: "set (foldl (add_kid a) xs ks) \<subseteq> set xs \<union> (\<Union>k\<in>set ks. set (tree_tokens k))"
proof (induction ks arbitrary: xs)
  case (Cons k ks)
  from Cons.IH[of "add_kid a xs k"] set_add_kid[of a xs k] show ?case by simp blast
qed simp

lemma token_nodes: "x \<in> set (tree_tokens t) \<Longrightarrow> fst (fst x) \<in> set (preorder t)"
proof (induction t arbitrary: x)
  case (CNode a ks)
  then have "x \<in> set (base_tokens a ks) \<union> (\<Union>k\<in>set ks. set (tree_tokens k))"
    using set_fold_kids[of a "base_tokens a ks" ks] by (simp only: tree_tokens_base) blast
  then show ?case
  proof
    assume "x \<in> set (base_tokens a ks)"
    then show ?thesis by (auto simp: base_tokens_def dest!: numbered_labels)
  next
    assume "x \<in> (\<Union>k\<in>set ks. set (tree_tokens k))"
    then obtain k where "k \<in> set ks" "x \<in> set (tree_tokens k)" by blast
    with CNode.IH have "fst (fst x) \<in> set (preorder k)" by blast
    with \<open>k \<in> set ks\<close> show ?thesis by auto
  qed
qed

text \<open>Only the root and insertions have characters.\<close>

lemma token_kinds: "text_below t \<Longrightarrow> x \<in> set (tree_tokens t) \<Longrightarrow> fst (fst x) = root_atom t \<or> is_insert (fst (fst x))"
proof (induction t arbitrary: x)
  case (CNode a ks)
  have "set (foldl (add_kid a) xs js) \<subseteq> set xs \<union> (\<Union>k\<in>{k \<in> set js. is_insert (root_atom k)}. set (tree_tokens k))" for xs js
  proof (induction js arbitrary: xs)
    case (Cons k ks)
    have "set (add_kid a xs k) \<subseteq> set xs \<union> (if is_insert (root_atom k) then set (tree_tokens k) else {})"
      by (auto simp: add_kid_def is_insert_def split: aux_op.splits)
    with Cons.IH[of "add_kid a xs k"] show ?case by (simp split: if_splits) blast+
  qed simp
  with CNode.prems(2) have "x \<in> set (base_tokens a ks) \<union> (\<Union>k\<in>{k \<in> set ks. is_insert (root_atom k)}. set (tree_tokens k))"
    by (simp only: tree_tokens_base) blast
  then show ?case
  proof
    assume "x \<in> set (base_tokens a ks)"
    then show ?thesis by (auto simp: base_tokens_def dest!: numbered_labels)
  next
    assume "x \<in> (\<Union>k\<in>{k \<in> set ks. is_insert (root_atom k)}. set (tree_tokens k))"
    then obtain k where "k \<in> set ks" "is_insert (root_atom k)" "x \<in> set (tree_tokens k)" by blast
    with CNode.IH text_below_insert[OF CNode.prems(1)] show ?thesis by metis
  qed
qed

lemma fold_kids_distinct:
  assumes "distinct (map fst xs)" and "\<forall>k\<in>set ks. distinct (map fst (tree_tokens k))"
    and "(fst \<circ> fst) ` set xs \<inter> set (forest ks) = {}" and "distinct (forest ks)"
  shows "distinct (map fst (foldl (add_kid a) xs ks))"
  using assms
proof (induction ks arbitrary: xs)
  case (Cons k ks)
  have nodes: "(fst \<circ> fst) ` set (tree_tokens k) \<subseteq> set (preorder k)" using token_nodes by auto
  have "fst ` set (tree_tokens k) \<inter> fst ` set xs = {}"
  proof (rule ccontr)
    assume "fst ` set (tree_tokens k) \<inter> fst ` set xs \<noteq> {}"
    then obtain x y where x: "x \<in> set (tree_tokens k)" "y \<in> set xs" "fst x = fst y" by blast
    then have "(fst \<circ> fst) y \<in> set (preorder k)" using token_nodes[of x k] by simp
    with x(2) Cons.prems(3) show False by (simp add: disjoint_iff)
  qed
  then have "distinct (map fst (add_kid a xs k))"
    using Cons.prems(1,2) by (auto simp: add_kid_def split: aux_op.splits intro!: distinct_tokens_at)
  moreover have "(fst \<circ> fst) ` set (add_kid a xs k) \<inter> set (forest ks) = {}"
  proof -
    have "(fst \<circ> fst) ` set (add_kid a xs k) \<subseteq> (fst \<circ> fst) ` set xs \<union> set (preorder k)"
      using set_add_kid[of a xs k] nodes by blast
    moreover have "(fst \<circ> fst) ` set xs \<inter> set (forest ks) = {}" "set (preorder k) \<inter> set (forest ks) = {}"
      using Cons.prems(3,4) by (simp_all add: Int_Un_distrib)
    ultimately show ?thesis by blast
  qed
  ultimately show ?case using Cons by simp
qed simp

lemma distinct_tree_tokens: "distinct (preorder t) \<Longrightarrow> distinct (map fst (tree_tokens t))"
proof (induction t)
  case (CNode a ks)
  have "\<forall>k\<in>set ks. distinct (map fst (tree_tokens k))"
    using CNode by (auto dest!: split_list)
  moreover have "distinct (map fst (base_tokens a ks))"
    by (auto simp: base_tokens_def distinct_numbered dest: numbered_labels)
  moreover have "(fst \<circ> fst) ` set (base_tokens a ks) \<inter> set (forest ks) = {}"
    using CNode.prems by (auto simp: base_tokens_def dest!: numbered_labels)
  ultimately show ?case using CNode.prems fold_kids_distinct by (simp only: tree_tokens_base preorder.simps distinct.simps)
qed


section \<open>Insertion\<close>

text \<open>
  New characters between \<open>us\<close> and \<open>vs\<close> that are inserted at the index \<open>i\<close> of the node \<open>c\<close>: directly behind
  the character before the index, or before all of the node.
\<close>

definition at_index :: "aux_op atom \<Rightarrow> int \<Rightarrow> token list \<Rightarrow> token list \<Rightarrow> bool" where
  "at_index c i us vs \<longleftrightarrow>
     (if 0 < i then us \<noteq> [] \<and> fst (last us) = (c, i - 1) else (c, -1) \<in> fst ` set vs)"

lemma dropWhile_not_Nil: "x \<in> set xs \<Longrightarrow> \<not> P x \<Longrightarrow> dropWhile P xs \<noteq> []"
  by (auto simp: dropWhile_eq_Nil_conv)

text \<open>What is inserted at another label leaves the new characters behind the same character.\<close>

definition between_same :: "token list \<Rightarrow> token list \<Rightarrow> token list \<Rightarrow> token list \<Rightarrow> bool" where
  "between_same us vs us' vs' \<longleftrightarrow> (us \<noteq> [] \<longrightarrow> us' \<noteq> [] \<and> last us' = last us) \<and> set vs \<subseteq> set vs'"

lemma at_index_between: "at_index c i us vs \<Longrightarrow> between_same us vs us' vs' \<Longrightarrow> at_index c i us' vs'"
  by (auto simp: at_index_def between_same_def split: if_splits)

lemma between_same_trans: "between_same us vs u v \<Longrightarrow> between_same u v us' vs' \<Longrightarrow> between_same us vs us' vs'"
  by (auto simp: between_same_def)

lemma tokens_at_around:
  assumes "\<forall>x\<in>set new. fst x \<noteq> l"
  shows "\<exists>us' vs'. tokens_at ys l (us @ vs) = us' @ vs' \<and> tokens_at ys l (us @ new @ vs) = us' @ new @ vs' \<and> between_same us vs us' vs'"
proof (cases "\<exists>x\<in>set us. fst x = l")
  case True
  then obtain x where x: "x \<in> set us" "fst x = l" by blast
  then have split: "tokens_at ys l (us @ zs) = tokens_at ys l us @ zs" for zs
    by (simp add: tokens_at_def takeWhile_append1[of x] dropWhile_append1[of x])
  from x have "dropWhile (\<lambda>x. fst x \<noteq> l) us \<noteq> []" by (intro dropWhile_not_Nil[of x]) auto
  moreover from this have "last us = last (dropWhile (\<lambda>x. fst x \<noteq> l) us)"
    using last_appendR[of "dropWhile (\<lambda>x. fst x \<noteq> l) us" "takeWhile (\<lambda>x. fst x \<noteq> l) us"] by simp
  ultimately have "last (tokens_at ys l us) = last us" "tokens_at ys l us \<noteq> []"
    by (simp_all add: tokens_at_def)
  with split show ?thesis
    by (intro exI[of _ "tokens_at ys l us"] exI[of _ vs]) (simp add: between_same_def)
next
  case False
  then have "tokens_at ys l (us @ zs) = us @ tokens_at ys l zs" for zs by (simp add: tokens_at_skip)
  moreover have "tokens_at ys l (new @ vs) = new @ tokens_at ys l vs" using assms(1) by (simp add: tokens_at_skip)
  ultimately show ?thesis
    by (intro exI[of _ us] exI[of _ "tokens_at ys l vs"]) (auto simp: between_same_def)
qed

lemma fold_kids_around:
  assumes "\<forall>x\<in>set new. fst (fst x) \<noteq> r"
  shows "\<exists>us' vs'. foldl (add_kid r) (us @ vs) ks = us' @ vs' \<and> foldl (add_kid r) (us @ new @ vs) ks = us' @ new @ vs' \<and>
    between_same us vs us' vs'"
proof (induction ks arbitrary: us vs)
  case Nil
  then show ?case by (intro exI[of _ us] exI[of _ vs]) (simp add: between_same_def)
next
  case (Cons k ks)
  have "\<exists>us' vs'. add_kid r (us @ vs) k = us' @ vs' \<and> add_kid r (us @ new @ vs) k = us' @ new @ vs' \<and> between_same us vs us' vs'"
  proof (cases "is_insert (root_atom k)")
    case True
    then obtain j t where "val (root_atom k) = TextInsertOp j t" by (auto simp: is_insert_def split: aux_op.splits)
    moreover have "\<forall>x\<in>set new. fst x \<noteq> (r, gap j)" using assms(1) by force
    ultimately show ?thesis using tokens_at_around[of new "(r, gap j)" "tree_tokens k" us vs]
      by (simp add: add_kid_insert)
  next
    case False
    then show ?thesis by (intro exI[of _ us] exI[of _ vs]) (simp add: add_kid_other between_same_def)
  qed
  then obtain u v where "add_kid r (us @ vs) k = u @ v" "add_kid r (us @ new @ vs) k = u @ new @ v" "between_same us vs u v" by blast
  moreover obtain u' v' where "foldl (add_kid r) (u @ v) ks = u' @ v'" "foldl (add_kid r) (u @ new @ v) ks = u' @ new @ v'"
      "between_same u v u' v'" using Cons.IH[of u v] by blast
  ultimately show ?case using between_same_trans[of us vs u v u' v'] by (intro exI[of _ u'] exI[of _ v']) simp
qed

lemma insert_not_delete: "is_insert a \<Longrightarrow> \<not> is_delete a"
  by (auto simp: is_insert_def is_delete_def split: aux_op.splits)

text \<open>Among the children, an insertion that is newer comes directly behind the deletions.\<close>

lemma insert_kid_newest:
  assumes "\<forall>k\<in>set ds. prio a < prio (root_atom k)" and "\<forall>k\<in>set ls. prio (root_atom k) = prio a \<and> ts (root_atom k) < ts a"
  shows "insert_kid a (ds @ ls) = ds @ CNode a [] # ls"
  using assms(1)
proof (induction ds)
  case Nil
  then show ?case using assms(2) by (cases ls) (auto simp: sib_before_iff)
qed (auto simp: sib_before_iff)

lemma numbered_before:
  fixes a :: "aux_op atom"
  assumes "0 < i" and "i \<le> int (length t)"
  defines "xs \<equiv> ((a, -1), NUL) # numbered a 0 t"
  shows "at_index a i (takeWhile (\<lambda>x. fst x \<noteq> (a, i)) xs) (dropWhile (\<lambda>x. fst x \<noteq> (a, i)) xs)"
proof -
  let ?u = "numbered a 0 (take (nat i) t)" and ?v = "numbered a i (drop (nat i) t)"
  have "numbered a 0 t = ?u @ ?v"
    using assms(1,2) numbered_append[of a 0 "take (nat i) t" "drop (nat i) t"] by simp
  moreover have "\<forall>x\<in>set ?u. fst x \<noteq> (a, i)" using assms(1,2) by (auto dest!: numbered_labels)
  moreover have "?v = [] \<or> fst (hd ?v) = (a, i)" by (cases "drop (nat i) t") auto
  ultimately have "takeWhile (\<lambda>x. fst x \<noteq> (a, i)) xs = ((a, -1), NUL) # ?u"
    using assms(1) by (cases ?v) (auto simp: xs_def)
  moreover obtain n where n: "nat i = Suc n" using assms(1) by (cases "nat i") auto
  then have "numbered a 0 (take (nat i) t) = numbered a 0 (take n t) @ [((a, i - 1), t ! n)]"
    using assms(1,2) numbered_append[of a 0 "take n t" "[t ! n]"] by (simp add: take_Suc_conv_app_nth)
  ultimately show ?thesis using assms(1) by (simp add: at_index_def)
qed


text \<open>The characters of a tree with a new insertion below one of its nodes.\<close>

definition new_tokens :: "aux_op atom \<Rightarrow> token list" where
  "new_tokens a = tree_tokens (CNode a [])"

lemma new_tokens_nodes: "\<forall>x\<in>set (new_tokens a). fst (fst x) = a"
  using token_nodes[of _ "CNode a []"] by (simp add: new_tokens_def)

lemma marked_text_append_inserts:
  "\<not> is_delete a \<Longrightarrow> marked_text r (xs @ a # ys) = marked_text r (xs @ ys)"
  by (simp add: marked_text_def deleted_by_def is_delete_def split: aux_op.splits)

lemma marked_text_length: "\<forall>d\<in>set ds. \<not> is_delete d \<Longrightarrow> marked_text r ds = own_text r"
  by (induction ds) (auto simp: marked_text_def deleted_by_def is_delete_def split: aux_op.splits)

lemma insert_at_root:
  assumes "text_below (CNode r ks)" and "wf_ctree (CNode r ks)" and "val a = TextInsertOp i t" and "prio a = 0"
    and "\<forall>k\<in>set ks. ts (root_atom k) < ts a" and "a \<noteq> r" and "0 < i \<longrightarrow> (r, i - 1) \<in> fst ` set (base_tokens r ks)"
  shows "\<exists>us vs. tree_tokens (CNode r ks) = us @ vs \<and> tree_tokens (CNode r (insert_kid a ks)) = us @ new_tokens a @ vs \<and>
    at_index r i us vs"
proof -
  obtain ds ls where ks: "ks = ds @ ls" "\<forall>k\<in>set ds. is_delete (root_atom k) \<and> kids k = []"
      "\<forall>k\<in>set ls. is_insert (root_atom k) \<and> prio (root_atom k) = 0 \<and> text_below k"
    using kids_split[of ks] assms(1,2) by auto
  have pos: "\<forall>k\<in>set ds. 0 < prio (root_atom k)"
    using assms(1) ks(1,2) insert_not_delete by auto
  have kid: "insert_kid a ks = ds @ CNode a [] # ls"
    unfolding ks(1) using pos ks(3) assms(4,5) ks(1) by (intro insert_kid_newest) auto
  let ?b = "base_tokens r ks" and ?l = "(r, gap i)"
  have base: "base_tokens r (insert_kid a ks) = ?b"
  proof -
    have "marked_text r (map root_atom (insert_kid a ks)) = marked_text r (map root_atom ks)"
      unfolding kid using assms(3) by (simp add: ks(1) marked_text_append_inserts is_delete_def)
    then show ?thesis by (simp add: base_tokens_def)
  qed
  have dels: "foldl (add_kid r) xs ds = xs" for xs using fold_deletes ks(2) by blast
  let ?us = "takeWhile (\<lambda>x. fst x \<noteq> ?l) ?b" and ?vs = "dropWhile (\<lambda>x. fst x \<noteq> ?l) ?b"
  have "add_kid r ?b (CNode a []) = ?us @ new_tokens a @ ?vs"
    using assms(3) by (simp add: add_kid_insert tokens_at_def new_tokens_def)
  then have new: "tree_tokens (CNode r (insert_kid a ks)) = foldl (add_kid r) (?us @ new_tokens a @ ?vs) ls"
    by (simp only: tree_tokens_base base) (simp add: kid dels)
  have old: "tree_tokens (CNode r ks) = foldl (add_kid r) (?us @ ?vs) ls"
    by (simp only: tree_tokens_base takeWhile_dropWhile_id) (simp add: ks(1) dels)
  have "at_index r i ?us ?vs"
  proof (cases "0 < i")
    case True
    with assms(7) have "i \<le> int (length (marked_text r (map root_atom ks)))"
      by (auto simp: base_tokens_def dest!: numbered_labels)
    with True numbered_before[of i "marked_text r (map root_atom ks)" r] show ?thesis
      by (simp only: base_tokens_def gap_def) simp
  next
    case False
    then show ?thesis by (simp add: at_index_def gap_def base_tokens_def)
  qed
  moreover have "\<forall>x\<in>set (new_tokens a). fst (fst x) \<noteq> r" using new_tokens_nodes assms(6) by metis
  moreover from this obtain us' vs' where "foldl (add_kid r) (?us @ ?vs) ls = us' @ vs'"
      "foldl (add_kid r) (?us @ new_tokens a @ ?vs) ls = us' @ new_tokens a @ vs'" "between_same ?us ?vs us' vs'"
    using fold_kids_around[of "new_tokens a" r ?us ?vs ls] by blast
  ultimately show ?thesis using old new at_index_between[of r i ?us ?vs us' vs'] by (intro exI[of _ us'] exI[of _ vs']) simp
qed

lemma of_node_fold:
  assumes "\<forall>k\<in>set ks. of_node c (tree_tokens k) = []"
  shows "of_node c (foldl (add_kid r) xs ks) = of_node c xs"
  using assms
proof (induction ks arbitrary: xs)
  case (Cons k ks)
  have "of_node c (add_kid r xs k) = of_node c xs"
    using Cons.prems by (auto simp: add_kid_def of_node_at(1) split: aux_op.splits)
  with Cons show ?case by simp
qed simp

lemma of_node_other: "c \<notin> set (preorder k) \<Longrightarrow> of_node c (tree_tokens k) = []"
  using token_nodes by (intro of_node_absent) blast

text \<open>The characters of a node keep their order.\<close>

lemma of_node_tokens:
  assumes "c \<in> set (preorder t)" and "distinct (preorder t)" and "text_below t" and "c = root_atom t \<or> \<not> is_delete c"
  shows "\<exists>m. of_node c (tree_tokens t) = ((c, -1), NUL) # numbered c 0 m"
  using assms
proof (induction t)
  case (CNode r ks)
  show ?case
  proof (cases "c = r")
    case True
    then have "\<forall>k\<in>set ks. of_node c (tree_tokens k) = []" using CNode.prems(2) by (auto intro!: of_node_other)
    from of_node_fold[OF this, of r "base_tokens r ks"] True show ?thesis
      by (simp only: tree_tokens_base) (auto simp: base_tokens_def)
  next
    case False
    then obtain k where c: "k \<in> set ks" "c \<in> set (preorder k)" using CNode.prems(1) by auto
    obtain us vs where "ks = us @ k # vs" using c(1) by (meson split_list)
    note ks = this c(2)
    have other: "\<forall>l\<in>set us \<union> set vs. of_node c (tree_tokens l) = []"
      using CNode.prems(2) ks by (auto intro!: of_node_other)
    have k: "is_insert (root_atom k) \<and> text_below k"
    proof (rule ccontr)
      assume "\<not> ?thesis"
      then have "is_delete (root_atom k)" "kids k = []" using CNode.prems(3) ks(1) by auto
      then have "c = root_atom k" using ks(2) by (cases k) auto
      then show False using \<open>is_delete (root_atom k)\<close> CNode.prems(4) False by simp
    qed
    then obtain j t where j: "val (root_atom k) = TextInsertOp j t" by (auto simp: is_insert_def split: aux_op.splits)
    have "distinct (preorder k)" using CNode.prems(2) ks(1) by simp
    moreover have "c = root_atom k \<or> \<not> is_delete c" using CNode.prems(4) False by simp
    ultimately obtain m where m: "of_node c (tree_tokens k) = ((c, -1), NUL) # numbered c 0 m"
      using CNode.IH[of k] ks k by auto
    have base: "of_node c (base_tokens r ks) = []"
      using False by (intro of_node_absent) (auto simp: base_tokens_def dest!: numbered_labels)
    have "of_node c (tree_tokens (CNode r ks)) = of_node c (add_kid r (foldl (add_kid r) (base_tokens r ks) us) k)"
      unfolding tree_tokens_base using of_node_fold[of vs c r] other by (simp add: ks(1))
    also have "\<dots> = of_node c (tree_tokens k)"
      unfolding add_kid_insert[OF j] using of_node_fold[of us c r "base_tokens r ks"] other base by (simp add: of_node_at(2))
    finally show ?thesis using m by (intro exI[of _ m]) simp
  qed
qed


lemma base_labels:
  assumes "distinct (preorder (CNode r ks))"
  shows "of_node r (tree_tokens (CNode r ks)) = base_tokens r ks"
proof -
  have "\<forall>k\<in>set ks. of_node r (tree_tokens k) = []" using assms by (auto intro!: of_node_other)
  from of_node_fold[OF this, of r "base_tokens r ks"] show ?thesis
    by (simp only: tree_tokens_base) (simp add: base_tokens_def)
qed

text \<open>
  A new insertion, newer than the rest, at an index of a node that has a character before it: the characters are those
  of the tree with the new ones at this index.
\<close>

theorem insert_tokens:
  assumes "text_below t" and "wf_ctree t" and "distinct (map okey (preorder t))" and "c \<in> set (preorder t)"
    and "c = root_atom t \<or> \<not> is_delete c" and "val a = TextInsertOp i s" and "prio a = 0"
    and "\<forall>x\<in>set (preorder t). ts x < ts a" and "0 < i \<longrightarrow> (c, i - 1) \<in> fst ` set (tree_tokens t)"
  shows "\<exists>us vs. tree_tokens t = us @ vs \<and> tree_tokens (tree_insert c a t) = us @ new_tokens a @ vs \<and> at_index c i us vs"
  using assms
proof (induction t)
  case (CNode r ks)
  have dist: "distinct (preorder (CNode r ks))" using CNode.prems(3) by (simp only: distinct_map)
  have new: "a \<notin> set (preorder (CNode r ks))" using CNode.prems(8) by auto
  show ?case
  proof (cases "c = r")
    case True
    have "0 < i \<longrightarrow> (r, i - 1) \<in> fst ` set (base_tokens r ks)"
      using CNode.prems(9) True of_node_label[of r "i - 1" "tree_tokens (CNode r ks)"] base_labels[OF dist] by simp
    moreover have "\<forall>k\<in>set ks. ts (root_atom k) < ts a" using CNode.prems(8) root_in_preorder by fastforce
    ultimately show ?thesis using insert_at_root[of r ks a i s] CNode.prems(1,2,6,7) new True by simp
  next
    case False
    then obtain k where c: "k \<in> set ks" "c \<in> set (preorder k)" using CNode.prems(4) by auto
    obtain us vs where "ks = us @ k # vs" using c(1) by (meson split_list)
    note ks = this c(2)
    have "okey c \<noteq> okey r"
      using CNode.prems(3,4) False distinct_map_inj[of okey "preorder (CNode r ks)" c r] by auto
    moreover have dist2: "distinct (map okey (forest (us @ k # vs)))" using CNode.prems(3) ks(1) by simp
    note split = forest_okey_split[OF dist2 ks(2)]
    ultimately have ins: "tree_insert c a (CNode r ks) = CNode r (us @ tree_insert c a k # vs)"
      by (simp add: ks(1) tree_insert_forest_absent)
    have k: "is_insert (root_atom k) \<and> text_below k"
    proof (rule ccontr)
      assume "\<not> ?thesis"
      then have d: "is_delete (root_atom k)" "kids k = []" using CNode.prems(1) ks(1) by auto
      then have "c = root_atom k" using ks(2) by (cases k) auto
      then show False using d(1) CNode.prems(5) False by simp
    qed
    then obtain j t where j: "val (root_atom k) = TextInsertOp j t" by (auto simp: is_insert_def split: aux_op.splits)
    have other: "c \<notin> set (forest us)" "c \<notin> set (forest vs)" using split(1,2) by auto
    have "(c, i - 1) \<in> fst ` set (tree_tokens k)" if "0 < i"
    proof -
      obtain x where x: "x \<in> set (tree_tokens (CNode r ks))" "fst x = (c, i - 1)" using CNode.prems(9) \<open>0 < i\<close> by auto
      then have "x \<in> set (base_tokens r ks) \<union> (\<Union>k\<in>set ks. set (tree_tokens k))"
        using set_fold_kids[of r "base_tokens r ks" ks] by (simp only: tree_tokens_base) blast
      moreover have "x \<notin> set (base_tokens r ks)" using x(2) False by (auto simp: base_tokens_def dest!: numbered_labels)
      ultimately obtain l where l: "l \<in> set ks" "x \<in> set (tree_tokens l)" by blast
      then have "c \<in> set (preorder l)" using token_nodes[of x l] x(2) by simp
      then have "l = k" using l(1) ks(1) other by auto
      then show ?thesis using l(2) x(2) by force
    qed
    moreover have "\<forall>x\<in>set (preorder k). ts x < ts a" using CNode.prems(8) ks(1) by auto
    ultimately obtain u v where uv: "tree_tokens k = u @ v" "tree_tokens (tree_insert c a k) = u @ new_tokens a @ v" "at_index c i u v"
      using CNode.IH[OF c(1)] CNode.prems(2,5-7) k ks split(3) False by auto
    have base: "base_tokens r (us @ tree_insert c a k # vs) = base_tokens r ks" by (simp add: base_tokens_def ks(1))
    let ?X = "foldl (add_kid r) (base_tokens r ks) us"
    let ?u = "takeWhile (\<lambda>x. fst x \<noteq> (r, gap j)) ?X @ u" and ?v = "v @ dropWhile (\<lambda>x. fst x \<noteq> (r, gap j)) ?X"
    have j': "val (root_atom (tree_insert c a k)) = TextInsertOp j t" using j by simp
    have "add_kid r ?X k = ?u @ ?v" "add_kid r ?X (tree_insert c a k) = ?u @ new_tokens a @ ?v"
      unfolding add_kid_insert[OF j] add_kid_insert[OF j'] by (simp_all add: tokens_at_def uv(1,2))
    then have "tree_tokens (CNode r ks) = foldl (add_kid r) (?u @ ?v) vs"
      "tree_tokens (CNode r (us @ tree_insert c a k # vs)) = foldl (add_kid r) (?u @ new_tokens a @ ?v) vs"
      unfolding tree_tokens_base base by (simp_all add: ks(1))
    moreover have "at_index c i ?u ?v" using uv(3) by (auto simp: at_index_def image_Un split: if_splits)
    moreover have "\<forall>x\<in>set (new_tokens a). fst (fst x) \<noteq> r" using new_tokens_nodes new by (metis list.set_intros(1) preorder.simps)
    moreover from this obtain us' vs' where "foldl (add_kid r) (?u @ ?v) vs = us' @ vs'"
        "foldl (add_kid r) (?u @ new_tokens a @ ?v) vs = us' @ new_tokens a @ vs'" "between_same ?u ?v us' vs'"
      using fold_kids_around[of "new_tokens a" r ?u ?v vs] by blast
    ultimately show ?thesis using at_index_between[of c i ?u ?v us' vs'] unfolding ins
      by (intro exI[of _ us'] exI[of _ vs']) simp
  qed
qed

lemma insert_kid_split: "\<exists>ps qs. ks = ps @ qs \<and> insert_kid a ks = ps @ CNode a [] # qs"
proof (induction ks)
  case (Cons k ks)
  then obtain ps qs where "ks = ps @ qs" "insert_kid a ks = ps @ CNode a [] # qs" by blast
  then show ?case
    by (cases "sib_before a (root_atom k)") (auto intro: exI[of _ "[]"] exI[of _ "k # ps"])
qed simp

text \<open>Any insertion without children, wherever it comes among the siblings, adds its characters at one place.\<close>

lemma insert_leaf_root:
  assumes "val a = TextInsertOp i s" and "a \<noteq> r"
  shows "\<exists>us vs. tree_tokens (CNode r ks) = us @ vs \<and> tree_tokens (CNode r (insert_kid a ks)) = us @ new_tokens a @ vs"
proof -
  obtain ps qs where ks: "ks = ps @ qs" "insert_kid a ks = ps @ CNode a [] # qs" using insert_kid_split by blast
  have "marked_text r (map root_atom (insert_kid a ks)) = marked_text r (map root_atom ks)"
    unfolding ks(2) using assms(1) by (simp add: ks(1) marked_text_append_inserts is_delete_def)
  then have base: "base_tokens r (insert_kid a ks) = base_tokens r ks" by (simp add: base_tokens_def)
  let ?X = "foldl (add_kid r) (base_tokens r ks) ps"
  let ?u = "takeWhile (\<lambda>x. fst x \<noteq> (r, gap i)) ?X" and ?v = "dropWhile (\<lambda>x. fst x \<noteq> (r, gap i)) ?X"
  have "add_kid r ?X (CNode a []) = ?u @ new_tokens a @ ?v"
    using assms(1) by (simp add: add_kid_insert tokens_at_def new_tokens_def)
  then have "tree_tokens (CNode r (insert_kid a ks)) = foldl (add_kid r) (?u @ new_tokens a @ ?v) qs"
    by (simp only: tree_tokens_base base) (simp add: ks(2))
  moreover have "tree_tokens (CNode r ks) = foldl (add_kid r) (?u @ ?v) qs"
    by (simp only: tree_tokens_base takeWhile_dropWhile_id) (simp add: ks(1))
  moreover have "\<forall>x\<in>set (new_tokens a). fst (fst x) \<noteq> r" using new_tokens_nodes assms(2) by metis
  moreover from this obtain us' vs' where "foldl (add_kid r) (?u @ ?v) qs = us' @ vs'"
      "foldl (add_kid r) (?u @ new_tokens a @ ?v) qs = us' @ new_tokens a @ vs'"
    using fold_kids_around[of "new_tokens a" r ?u ?v qs] by blast
  ultimately show ?thesis by (intro exI[of _ us'] exI[of _ vs']) simp
qed

theorem insert_leaf_tokens:
  assumes "text_below t" and "distinct (map okey (preorder t))" and "c \<in> set (preorder t)"
    and "c = root_atom t \<or> \<not> is_delete c" and "val a = TextInsertOp i s" and "a \<notin> set (preorder t)"
  shows "\<exists>us vs. tree_tokens t = us @ vs \<and> tree_tokens (tree_insert c a t) = us @ new_tokens a @ vs"
  using assms
proof (induction t)
  case (CNode r ks)
  show ?case
  proof (cases "c = r")
    case True
    then show ?thesis using insert_leaf_root[OF CNode.prems(5), of r ks] CNode.prems(6) by auto
  next
    case False
    then obtain k where c: "k \<in> set ks" "c \<in> set (preorder k)" using CNode.prems(3) by auto
    obtain us vs where ks: "ks = us @ k # vs" using c(1) by (meson split_list)
    have "okey c \<noteq> okey r"
      using CNode.prems(2,3) False distinct_map_inj[of okey "preorder (CNode r ks)" c r] by auto
    moreover have dist2: "distinct (map okey (forest (us @ k # vs)))" using CNode.prems(2) ks by simp
    note split = forest_okey_split[OF dist2 c(2)]
    ultimately have ins: "tree_insert c a (CNode r ks) = CNode r (us @ tree_insert c a k # vs)"
      by (simp add: ks tree_insert_forest_absent)
    have k: "is_insert (root_atom k) \<and> text_below k"
    proof (rule ccontr)
      assume "\<not> ?thesis"
      then have d: "is_delete (root_atom k)" "kids k = []" using CNode.prems(1) ks by auto
      then have "c = root_atom k" using c(2) by (cases k) auto
      then show False using d(1) CNode.prems(4) False by simp
    qed
    then obtain j t where j: "val (root_atom k) = TextInsertOp j t" by (auto simp: is_insert_def split: aux_op.splits)
    have j': "val (root_atom (tree_insert c a k)) = TextInsertOp j t" using j by simp
    obtain u v where uv: "tree_tokens k = u @ v" "tree_tokens (tree_insert c a k) = u @ new_tokens a @ v"
      using CNode.IH[OF c(1)] CNode.prems(4-6) k c split(3) False by auto
    have base: "base_tokens r (us @ tree_insert c a k # vs) = base_tokens r ks" by (simp add: base_tokens_def ks)
    let ?X = "foldl (add_kid r) (base_tokens r ks) us"
    let ?u = "takeWhile (\<lambda>x. fst x \<noteq> (r, gap j)) ?X @ u" and ?v = "v @ dropWhile (\<lambda>x. fst x \<noteq> (r, gap j)) ?X"
    have "add_kid r ?X k = ?u @ ?v" "add_kid r ?X (tree_insert c a k) = ?u @ new_tokens a @ ?v"
      unfolding add_kid_insert[OF j] add_kid_insert[OF j'] by (simp_all add: tokens_at_def uv)
    then have "tree_tokens (CNode r ks) = foldl (add_kid r) (?u @ ?v) vs"
      "tree_tokens (CNode r (us @ tree_insert c a k # vs)) = foldl (add_kid r) (?u @ new_tokens a @ ?v) vs"
      unfolding tree_tokens_base base by (simp_all add: ks)
    moreover have "\<forall>x\<in>set (new_tokens a). fst (fst x) \<noteq> r" using new_tokens_nodes CNode.prems(6) by (metis list.set_intros(1) preorder.simps)
    moreover from this obtain us' vs' where "foldl (add_kid r) (?u @ ?v) vs = us' @ vs'"
        "foldl (add_kid r) (?u @ new_tokens a @ ?v) vs = us' @ new_tokens a @ vs'"
      using fold_kids_around[of "new_tokens a" r ?u ?v vs] by blast
    ultimately show ?thesis unfolding ins by (intro exI[of _ us'] exI[of _ vs']) simp
  qed
qed

end
