(* ===== verification/TextTyping.thy ===== *)
theory TextTyping
  imports TextPlaces
begin

text \<open>
  An insertion at the position that \<^verbatim>\<open>findEditPosition\<close> gives for an index of the text goes to this index of the text.
\<close>

section \<open>The visible characters\<close>

lemma shown_simps [simp]: "shown [] = []" "shown (xs @ ys) = shown xs @ shown ys"
  "shown (((a, i), c) # xs) = (if c = NUL then shown xs else c # shown xs)"
  by (simp_all add: shown_def visible_def)

lemma visible_simps [simp]: "visible [] = []" "visible (xs @ ys) = visible xs @ visible ys"
  "visible (c # xs) = (if c = NUL then visible xs else c # visible xs)"
  by (simp_all add: visible_def)

lemma shown_numbered [simp]: "shown (numbered a i xs) = visible xs"
  by (induction xs arbitrary: i) auto

lemma shown_segment [simp]: "shown (segment_tokens s) = visible (si_text s)"
  by (simp add: segment_tokens_def)

lemma shown_prefix_Nil: "shown (us @ vs) = [] \<Longrightarrow> shown us = []"
  by simp

lemma shown_new: "val a = TextInsertOp i s \<Longrightarrow> shown (new_tokens a) = visible s"
  by (simp add: new_tokens_def tree_tokens_base base_tokens_def marked_text_def own_text_def)

abbreviation text_segments :: "segment_info list \<Rightarrow> text_segment list" where
  "text_segments ss \<equiv> filter (\<lambda>s. tx_text s \<noteq> []) (map text_of_segment ss)"

lemma text_segments_shown: "concat (map tx_text (text_segments ss)) = shown (all_tokens ss)"
  by (induction ss) (auto simp: text_of_segment_def)

lemma visible_length: "length (visible xs) \<le> length xs"
  by (simp add: visible_def)

section \<open>Positions\<close>

text \<open>The first \<open>n\<close> characters of a text within its marked text.\<close>

lemma marked_offset_take:
  "n \<le> length (visible m) \<Longrightarrow> n + marked_offset n (visible m) m \<le> length m \<and>
    visible (take (n + marked_offset n (visible m) m) m) = take n (visible m)"
proof (induction m arbitrary: n)
  case (Cons c m)
  show ?case
  proof (cases n)
    case (Suc k)
    show ?thesis
    proof (cases "c = NUL")
      case True
      with Cons.prems Suc obtain t ts where t: "visible m = t # ts" by (cases "visible m") auto
      then have "t \<noteq> NUL" unfolding visible_def by (metis (mono_tags) filter_eq_ConsD)
      with True Suc Cons.IH[of n] Cons.prems t show ?thesis by auto
    next
      case False
      with Suc Cons.IH[of k] Cons.prems show ?thesis by simp
    qed
  qed simp
qed simp

lemma visible_NULs: "visible (takeWhile (\<lambda>c. c = NUL) xs) = []"
  by (induction xs) auto

lemma takeWhile_take: "takeWhile P xs = take (length (takeWhile P xs)) xs"
  by (induction xs) auto

text \<open>The position in a segment: behind the characters before the index, and behind the deleted characters there.\<close>

lemma position_in_segment:
  assumes "n \<le> length (visible (si_text s))"
  shows "\<exists>j. j \<le> length (si_text s) \<and> n \<le> j \<and> ep_index (position_in n d (text_of_segment s)) = si_offset s + int j \<and>
    length (visible (take j (si_text s))) = n \<and> ep_node (position_in n d (text_of_segment s)) = si_node s"
proof -
  let ?m = "si_text s"
  let ?k = "n + marked_offset n (visible ?m) ?m"
  let ?r = "length (takeWhile (\<lambda>c. c = NUL) (drop ?k ?m))"
  have k: "?k \<le> length ?m" "visible (take ?k ?m) = take n (visible ?m)" using marked_offset_take[OF assms] by blast+
  have "?r \<le> length (drop ?k ?m)" by (rule length_takeWhile_le)
  then have "?k + ?r \<le> length ?m" using k(1) by simp
  moreover have "visible (take (?k + ?r) ?m) = take n (visible ?m)"
    using k(2) visible_NULs[of "drop ?k ?m"] takeWhile_take[of "\<lambda>c. c = NUL" "drop ?k ?m"] by (simp add: take_add)
  ultimately show ?thesis using assms
    by (intro exI[of _ "?k + ?r"]) (simp add: position_in_def Let_def text_of_segment_def)
qed

abbreviation shown_length :: "segment_info list \<Rightarrow> int" where "shown_length ss \<equiv> int (length (shown (all_tokens ss)))"

lemma first_position:
  assumes "count \<le> i" and "first (edit_positions i count 1 LeftAffinity (text_segments ss)) = Some p"
  shows "\<exists>pre s post d. ss = pre @ s # post \<and> visible (si_text s) \<noteq> [] \<and> count + shown_length pre \<le> i \<and>
    i - (count + shown_length pre) \<le> int (length (visible (si_text s))) \<and> (count + shown_length pre < i \<or> i = count) \<and>
    p = position_in (nat (i - (count + shown_length pre))) d (text_of_segment s)"
  using assms
proof (induction ss arbitrary: count)
  case (Cons s ss)
  let ?e = "text_of_segment s" and ?n = "int (length (visible (si_text s)))"
  show ?case
  proof (cases "visible (si_text s) = []")
    case True
    then have "text_segments (s # ss) = text_segments ss" by (simp add: text_of_segment_def)
    with Cons.prems Cons.IH[of count] obtain pre s' post d where "ss = pre @ s' # post" "visible (si_text s') \<noteq> []" "count + shown_length pre \<le> i"
        "i - (count + shown_length pre) \<le> int (length (visible (si_text s')))" "count + shown_length pre < i \<or> i = count"
        "p = position_in (nat (i - (count + shown_length pre))) d (text_of_segment s')" by auto
    with True show ?thesis by (intro exI[of _ "s # pre"]) auto
  next
    case False
    then have es: "text_segments (s # ss) = ?e # text_segments ss" by (simp add: text_of_segment_def)
    have len: "int (length (tx_text ?e)) = ?n" by (simp add: text_of_segment_def)
    show ?thesis
    proof (cases "i \<le> count + ?n")
      case True
      with Cons.prems len False show ?thesis unfolding es
        by (intro exI[of _ "[]"] exI[of _ s] exI[of _ ss]) (auto simp: first_def Let_def)
    next
      case later: False
      with Cons.prems len have "first (edit_positions i (count + ?n) 1 LeftAffinity (text_segments ss)) = Some p"
        unfolding es by (simp add: Let_def)
      with Cons.IH[of "count + ?n"] later obtain pre s' post d where "ss = pre @ s' # post" "visible (si_text s') \<noteq> []" "count + ?n + shown_length pre \<le> i"
          "i - (count + ?n + shown_length pre) \<le> int (length (visible (si_text s')))"
          "p = position_in (nat (i - (count + ?n + shown_length pre))) d (text_of_segment s')" "count + ?n + shown_length pre < i" by auto
      then show ?thesis by (intro exI[of _ "s # pre"]) (auto simp: algebra_simps)
    qed
  qed
qed (simp add: first_def)


section \<open>The place of an index\<close>

lemma nth_numbered: "n < length xs \<Longrightarrow> fst (numbered a i xs ! n) = (a, i + int n)"
  by (induction xs arbitrary: i n) (auto simp: nth_Cons split: nat.splits)

lemma length_numbered [simp]: "length (numbered a i xs) = length xs"
  by (induction xs arbitrary: i) auto

lemma marked_label:
  assumes "((a, -1), NUL) # numbered a 0 m = ps @ y # qs"
  shows "fst y = (a, int (length ps) - 1)" and "ps \<noteq> [] \<Longrightarrow> fst (last ps) = (a, int (length ps) - 2)" and "ps = [] \<Longrightarrow> snd y = NUL"
proof -
  let ?xs = "((a, -1), NUL) # numbered a 0 m"
  have label: "n < length ?xs \<Longrightarrow> fst (?xs ! n) = (a, int n - 1)" for n
    using nth_numbered[of _ m a 0] by (cases n) auto
  have len: "length ps < length ?xs" unfolding assms by simp
  have "?xs ! length ps = y" unfolding assms by simp
  with label[OF len] show "fst y = (a, int (length ps) - 1)" by simp
  show "ps = [] \<Longrightarrow> snd y = NUL" using assms by auto
  assume "ps \<noteq> []"
  then have "?xs ! (length ps - 1) = last ps" unfolding assms by (simp add: nth_append last_conv_nth)
  with label[of "length ps - 1"] len \<open>ps \<noteq> []\<close> show "fst (last ps) = (a, int (length ps) - 2)"
    by (cases ps) auto
qed

lemma append_meet:
  assumes "xs @ ys = us @ vs"
  shows "(\<exists>zs. xs = us @ zs) \<or> (\<exists>zs. us = xs @ zs \<and> ys = zs @ vs \<and> zs \<noteq> [])"
proof (cases "\<exists>zs. xs = us @ zs")
  case False
  with assms obtain zs where "us = xs @ zs" "ys = zs @ vs" by (auto simp: append_eq_append_conv2)
  with False show ?thesis by (intro disjI2 exI[of _ zs]) auto
qed blast

lemma split_inside:
  assumes "distinct (map fst (xs @ ys))" and "xs @ ys = us @ vs" and "us = [] \<or> fst (last us) \<in> fst ` set xs"
  shows "\<exists>zs. xs = us @ zs"
proof -
  from append_meet[OF assms(2)] consider zs where "xs = us @ zs" | zs where "us = xs @ zs" "ys = zs @ vs" "zs \<noteq> []"
    by blast
  then show ?thesis
  proof cases
    case 2
    then have "fst (last us) \<in> fst ` set ys" "us \<noteq> []" by auto
    moreover have "fst ` set xs \<inter> fst ` set ys = {}" using assms(1) by simp
    ultimately show ?thesis using assms(3) by blast
  qed blast
qed

lemma same_split:
  assumes "distinct (map fst (us @ vs))" and "us @ vs = us' @ vs'" and "us \<noteq> []" and "us' \<noteq> []"
    and "fst (last us) = fst (last us')"
  shows "us = us'"
proof -
  have last: "fst (last us) \<in> fst ` set us'" "fst (last us') \<in> fst ` set us"
    using assms(3-5) by (metis imageI last_in_set)+
  have dist: "distinct (map fst (us' @ vs'))" using assms(1,2) by simp
  have "\<exists>zs. us' = us @ zs" using split_inside[OF dist assms(2)[symmetric]] last(1) by blast
  moreover have "\<exists>zs. us = us' @ zs" using split_inside[OF assms(1,2)] last(2) by blast
  ultimately show ?thesis by auto
qed

lemma split_before:
  assumes "distinct (map fst (xs @ ys))" and "xs @ ys = us @ vs" and "l \<in> fst ` set vs" and "ys \<noteq> []" and "l = fst (hd ys)"
  shows "\<exists>zs. xs = us @ zs"
proof -
  from append_meet[OF assms(2)] consider zs where "xs = us @ zs" | zs where "us = xs @ zs" "ys = zs @ vs" "zs \<noteq> []"
    by blast
  then show ?thesis
  proof cases
    case 2
    then have "l \<in> fst ` set zs" using assms(4,5) by (cases zs) auto
    with assms(1,3) 2 show ?thesis by auto
  qed blast
qed


text \<open>
  The place of an index of a node within the characters, for an index that lies in a segment of the node: the
  characters before it are those of the earlier segments and those before the index in its own one.
\<close>

lemma index_place:
  assumes "distinct (map fst (all_tokens (pre @ s # post)))" and "all_tokens (pre @ s # post) = us @ vs"
    and "at_index (seg_atom s) (si_offset s + int j) us vs" and "j \<le> length (si_text s)" and "visible (si_text s) \<noteq> []"
    and "visible (take j (si_text s)) = [] \<longrightarrow> shown (all_tokens pre) = []"
    and "of_node (seg_atom s) (all_tokens (pre @ s # post)) = ((seg_atom s, -1), NUL) # numbered (seg_atom s) 0 m"
  shows "int (length (shown us)) = shown_length pre + int (length (visible (take j (si_text s))))"
proof -
  let ?a = "seg_atom s" and ?i = "si_offset s + int j" and ?A = "all_tokens pre" and ?B = "all_tokens post"
  have tokens: "?A @ segment_tokens s @ ?B = us @ vs" using assms(2) by simp
  have dist: "distinct (map fst (?A @ segment_tokens s @ ?B))" using assms(1) by simp
  have nonempty: "si_text s \<noteq> []" using assms(5) by auto
  obtain y ys where y: "segment_tokens s = y # ys"
    using nonempty by (cases "segment_tokens s") (auto simp: segment_tokens_def neq_Nil_conv)
  have own: "of_node ?a (segment_tokens s) = segment_tokens s"
    by (simp add: of_node_def filter_id_conv segment_labels)
  let ?P = "of_node ?a ?A"
  have marked: "((?a, -1), NUL) # numbered ?a 0 m = ?P @ y # (ys @ of_node ?a ?B)"
  proof -
    have "of_node ?a (all_tokens (pre @ s # post)) = ?P @ of_node ?a (segment_tokens s) @ of_node ?a ?B" by simp
    also have "\<dots> = ?P @ y # (ys @ of_node ?a ?B)" unfolding own unfolding y by (simp only: append_Cons)
    finally show ?thesis using assms(7) by metis
  qed
  note label = marked_label[OF marked]
  have front: "int (length (shown us)) = shown_length pre + int (length (visible (take j (si_text s))))"
    if "\<exists>zs. ?A = us @ zs" "visible (take j (si_text s)) = []"
    using that assms(6) by auto
  show ?thesis
  proof (cases "0 < ?i")
    case True
    then have us: "us \<noteq> []" "fst (last us) = (?a, ?i - 1)" using assms(3) by (simp_all add: at_index_def)
    show ?thesis
    proof (cases j)
      case 0
      then have "si_offset s \<noteq> 0" using True by simp
      then have "fst y = (?a, si_offset s)" using y nonempty by (auto simp: segment_tokens_def neq_Nil_conv)
      with label(1) have off: "si_offset s = int (length ?P) - 1" by simp
      then have "?P \<noteq> []" using True 0 by auto
      with label(2) off have "fst (last ?P) = (?a, ?i - 1)" using 0 by simp
      moreover have "last ?P \<in> set ?A" using \<open>?P \<noteq> []\<close> last_in_set[of ?P] by (auto simp: of_node_def)
      ultimately have "fst (last us) \<in> fst ` set ?A" using us(2) by (metis imageI)
      with split_inside[OF dist tokens] have "\<exists>zs. ?A = us @ zs" by blast
      then show ?thesis using front 0 by simp
    next
      case (Suc k)
      let ?S1 = "(if si_offset s = 0 then [((?a, -1), NUL)] else []) @ numbered ?a (si_offset s) (take j (si_text s))"
      let ?S2 = "numbered ?a ?i (drop j (si_text s))"
      have "segment_tokens s = ?S1 @ ?S2"
        using assms(4) numbered_append[of ?a "si_offset s" "take j (si_text s)" "drop j (si_text s)"]
        by (simp add: segment_tokens_def)
      then have split: "us @ vs = (?A @ ?S1) @ (?S2 @ ?B)" using tokens by simp
      have n: "numbered ?a (si_offset s) (take j (si_text s)) \<noteq> []" using Suc nonempty by (cases "si_text s") auto
      then have "fst (last ?S1) = (?a, ?i - 1)"
        using Suc assms(4) nth_numbered[of k "take j (si_text s)" ?a "si_offset s"] by (simp add: last_conv_nth)
      then have "us = ?A @ ?S1"
        using same_split[OF _ split us(1)] us(2) n dist tokens by simp
      then show ?thesis by auto
    qed
  next
    case False
    then have vs: "(?a, -1) \<in> fst ` set vs" using assms(3) by (simp add: at_index_def)
    have y': "fst y = (?a, -1)"
    proof (cases "si_offset s = 0")
      case True
      then show ?thesis using y by (auto simp: segment_tokens_def)
    next
      case off: False
      then have "fst y = (?a, si_offset s)" using y nonempty by (auto simp: segment_tokens_def neq_Nil_conv)
      moreover from this have "int (length ?P) = si_offset s + 1" using label(1) by simp
      then have "length ?P = 0" using off False by linarith
      ultimately show ?thesis using label(1) by simp
    qed
    have "\<exists>zs. ?A = us @ zs"
      using split_before[OF dist tokens vs] y y' by simp
    moreover have "visible (take j (si_text s)) = []"
    proof (cases "si_offset s = 0")
      case True
      then show ?thesis using False by simp
    next
      case off: False
      then have "fst y = (?a, si_offset s)" and c: "snd y = hd (si_text s)" using y nonempty by (auto simp: segment_tokens_def neq_Nil_conv)
      have len: "int (length ?P) = si_offset s + 1" using \<open>fst y = (?a, si_offset s)\<close> label(1) by simp
      then have "length ?P = 0" using off False by linarith
      then have "si_offset s = -1" "hd (si_text s) = NUL" using len label(3) c by simp_all
      then show ?thesis using False nonempty by (cases "si_text s"; cases j) auto
    qed
    ultimately show ?thesis by (rule front)
  qed
qed


lemma numbered_label_iff: "(a, k) \<in> fst ` set (numbered a i xs) \<longleftrightarrow> i \<le> k \<and> k < i + int (length xs)"
proof
  assume k: "i \<le> k \<and> k < i + int (length xs)"
  then have "nat (k - i) < length xs" by linarith
  then have "numbered a i xs ! nat (k - i) \<in> set (numbered a i xs)" "fst (numbered a i xs ! nat (k - i)) = (a, k)"
    using k nth_numbered[of "nat (k - i)" xs a i] by simp_all
  then show "(a, k) \<in> fst ` set (numbered a i xs)" by (metis imageI)
qed (auto dest!: numbered_labels)

lemma labels_below:
  assumes "of_node c xs = ((c, -1), NUL) # numbered c 0 m" and "(c, k) \<in> fst ` set xs" and "0 < k \<or> k = 0"
  shows "(c, k - 1) \<in> fst ` set xs"
proof -
  have "(c, k) \<in> fst ` set (of_node c xs)" using assms(2) by (rule of_node_label)
  then have "k < int (length m)" using assms(1,3) by (auto simp: numbered_label_iff)
  then have "(c, k - 1) \<in> fst ` set (of_node c xs)"
    using assms(1,3) numbered_label_iff[of c "k - 1" 0 m] by (cases "k = 0") auto
  then show ?thesis by (auto simp: of_node_def)
qed

text \<open>An insertion at a position of the tree that is newer than the tree puts its characters at the index of the text.\<close>

definition typed_at :: "aux_op ctree \<Rightarrow> edit_position \<Rightarrow> nat \<Rightarrow> bool" where
  "typed_at t p i \<longleftrightarrow> (\<forall>a s. val a = TextInsertOp (ep_index p) s \<and> prio a = 0 \<and> (\<forall>x\<in>set (preorder t). ts x < ts a) \<longrightarrow>
     shown (tree_tokens (tree_insert (snd (ep_node p)) a t)) =
       take i (shown (tree_tokens t)) @ visible s @ drop i (shown (tree_tokens t)))"

text \<open>
  The position that is found for an index of the text, as an index of a node of the tree.
\<close>

theorem position_is_index:
  assumes t: "text_tree t" and ss: "all_tokens ss = tree_tokens t" and i: "0 \<le> i"
    and p: "findSingleEditPosition i (text_segments ss) = Some p"
  shows "snd (ep_node p) \<in> set (preorder t)" "snd (ep_node p) = root_atom t \<or> \<not> is_delete (snd (ep_node p))"
    "typed_at t p (nat i)"
proof -
  have tree: "text_below t" "wf_ctree t" "distinct (map okey (preorder t))" using t by (simp_all add: text_tree_def)
  then have dist: "distinct (preorder t)" by (simp add: distinct_map)
  from p obtain pre g post d where g: "ss = pre @ g # post" "visible (si_text g) \<noteq> []" "shown_length pre \<le> i"
      "i - shown_length pre \<le> int (length (visible (si_text g)))" "shown_length pre < i \<or> i = 0"
      "p = position_in (nat (i - shown_length pre)) d (text_of_segment g)"
    using first_position[of 0 i ss p] i by (auto simp: findSingleEditPosition_def findMultipleEditPositions_def)
  let ?n = "nat (i - shown_length pre)" and ?c = "seg_atom g"
  have "?n \<le> length (visible (si_text g))" using g(3,4) by simp
  from position_in_segment[OF this, of d] obtain j where j: "j \<le> length (si_text g)" "ep_index p = si_offset g + int j"
      "length (visible (take j (si_text g))) = ?n" "ep_node p = si_node g" unfolding g(6) by blast
  have nonempty: "si_text g \<noteq> []" using g(2) by auto
  have label: "(?c, si_offset g + int k) \<in> fst ` set (tree_tokens t)" if "k < length (si_text g)" for k
  proof -
    have "(?c, si_offset g + int k) \<in> fst ` set (numbered ?c (si_offset g) (si_text g))" using that by (simp add: numbered_label_iff)
    moreover have "set (numbered ?c (si_offset g) (si_text g)) \<subseteq> set (all_tokens ss)" by (auto simp: g(1) segment_tokens_def)
    ultimately show ?thesis unfolding ss by blast
  qed
  obtain x where x: "x \<in> set (tree_tokens t)" "fst (fst x) = ?c" using label[of 0] nonempty by fastforce
  have c: "?c \<in> set (preorder t)" "?c = root_atom t \<or> \<not> is_delete ?c"
    using token_nodes[OF x(1)] token_kinds[OF tree(1) x(1)] x(2) insert_not_delete by auto
  obtain m where m: "of_node ?c (tree_tokens t) = ((?c, -1), NUL) # numbered ?c 0 m"
    using of_node_tokens[OF c(1) dist tree(1) c(2)] by blast
  have before: "(?c, ep_index p - 1) \<in> fst ` set (tree_tokens t)" if "0 < ep_index p"
  proof (cases j)
    case 0
    with label[of 0] labels_below[OF m, of "ep_index p"] that j(2) nonempty show ?thesis by simp
  next
    case (Suc k)
    with label[of k] j(1,2) show ?thesis by (simp add: algebra_simps)
  qed
  show "snd (ep_node p) \<in> set (preorder t)" "snd (ep_node p) = root_atom t \<or> \<not> is_delete (snd (ep_node p))"
    using c j(4) by simp_all
  show "typed_at t p (nat i)" unfolding typed_at_def
  proof (intro allI impI, elim conjE)
    fix a s assume a: "val a = TextInsertOp (ep_index p) s" "prio a = 0" "\<forall>x\<in>set (preorder t). ts x < ts a"
    obtain us vs where uv: "tree_tokens t = us @ vs" "tree_tokens (tree_insert ?c a t) = us @ new_tokens a @ vs"
        "at_index ?c (ep_index p) us vs"
      using insert_tokens[OF tree c a] before by blast
    have "visible (take j (si_text g)) = [] \<longrightarrow> shown (all_tokens pre) = []" using j(3) g(3,5) by auto
    from index_place[OF _ _ _ j(1) g(2) this] have "int (length (shown us)) = shown_length pre + int ?n"
      using distinct_tree_tokens[OF dist] uv(1,3) j(2,3) m ss unfolding g(1) by metis
    then have "length (shown us) = nat i" using g(3) i by simp
    with uv j(4) shown_new[OF a(1)] show "shown (tree_tokens (tree_insert (snd (ep_node p)) a t)) =
        take (nat i) (shown (tree_tokens t)) @ visible s @ drop (nat i) (shown (tree_tokens t))" by simp
  qed
qed

end
