(* ===== verification/TextWeave.thy ===== *)
theory TextWeave
  imports TextTyping WeaveSpec
begin

text \<open>Texts in a weave: the causal group of a value is the traversal of its tree.\<close>

section \<open>The text of a value\<close>

definition text_at :: "aux_op weave \<Rightarrow> aux_op ctree \<Rightarrow> bool" where
  "text_at w t \<longleftrightarrow> weave_ok w \<and> text_tree t \<and>
     (\<exists>us xs ys vs. weave_chains w = Some (us @ (xs @ preorder t @ ys) # vs) \<and> (ys = [] \<or> ts (hd ys) \<le> ts (root_atom t)))"

lemma nodes_at_inv:
  assumes "weave_inv w nss" and "set ns \<subseteq> set (concat nss)"
  shows "nodes_at (heap w) ns = Some (map (\<lambda>n. (n, atm (heap w) n)) ns)"
  using assms(2)
proof (induction ns)
  case (Cons n ns)
  then obtain nd where "heap w n = Some nd" using weave_inv_alloc(1)[OF assms(1), of n] by auto
  with Cons show ?case by (simp add: nodes_at_def)
qed (simp add: nodes_at_def)

lemma noded_addresses:
  assumes "distinct (map f ns)"
  shows "\<exists>ad. map (\<lambda>n. (n, f n)) ns = noded ad (map f ns)"
proof -
  have "map (\<lambda>n. (n, f n)) ns = noded (inv_into (set ns) f) (map f ns)"
    using assms by (simp add: noded_def distinct_map)
  then show ?thesis by blast
qed

lemma group_is_preorder:
  assumes "wf_ctree (CNode v ks)" and "ys = [] \<or> ts (hd ys) \<le> ts v"
  shows "takeWhile (\<lambda>x. ts v < ts x) (forest ks @ ys) = forest ks"
proof -
  have "\<forall>x\<in>set (forest ks). ts v < ts x" using ts_gt_root[OF assms(1)] by blast
  then have "takeWhile (\<lambda>x. ts v < ts x) (forest ks @ ys) = forest ks @ takeWhile (\<lambda>x. ts v < ts x) ys"
    by (intro takeWhile_append2) blast
  moreover have "takeWhile (\<lambda>x. ts v < ts x) ys = []" using assms(2) by (cases ys) auto
  ultimately show ?thesis by simp
qed

lemma text_group:
  assumes "text_at w t"
  shows "\<exists>n ad. getNode w (aid (root_atom t)) = Some n \<and> group_nodes (heap w) n = Some (noded ad (preorder t)) \<and>
    is_value (heap w) n \<and> map_option node_atom (heap w n) = Some (root_atom t)"
proof -
  obtain v ks where t: "t = CNode v ks" by (cases t)
  obtain us xs ys vs where chains: "weave_chains w = Some (us @ (xs @ preorder t @ ys) # vs)" "ys = [] \<or> ts (hd ys) \<le> ts v"
    and w: "weave_ok w" "text_tree t" using assms by (auto simp: text_at_def t)
  have "weave_chains w = Some (us @ (xs @ v # (forest ks @ ys)) # vs)" using chains(1) by (simp add: t)
  from weave_ok_split[OF w(1) this] obtain us' xs' n ys' vs' where inv: "weave_inv w (us' @ (xs' @ n # ys') # vs')"
      and v: "v = atm (heap w) n" and rest: "forest ks @ ys = map (atm (heap w)) ys'" by metis
  let ?nss = "us' @ (xs' @ n # ys') # vs'" and ?g = "takeWhile (later (heap w) n) ys'"
  obtain nd where nd: "heap w n = Some nd" using weave_inv_alloc(1)[OF inv, of n] by auto
  have "dll (heap w) None (xs' @ n # ys') None" using weave_invD(3)[OF inv] by simp
  then have "iterateCausalGroup (heap w) n = Some ?g" by (rule iterateCausalGroup_dll)
  moreover have sub: "set (n # ?g) \<subseteq> set (concat ?nss)" by (auto dest: set_takeWhileD)
  ultimately have group: "group_nodes (heap w) n = Some (map (\<lambda>m. (m, atm (heap w) m)) (n # ?g))"
    using nodes_at_inv[OF inv sub] by (simp add: group_nodes_def)
  have "map (atm (heap w)) ?g = takeWhile (\<lambda>x. ts v < ts x) (forest ks @ ys)"
    unfolding rest v by (simp add: takeWhile_map o_def)
  also have "\<dots> = forest ks" using w(2) chains(2) by (intro group_is_preorder) (auto simp: text_tree_def t)
  finally have atoms: "map (atm (heap w)) (n # ?g) = preorder t" by (simp add: t v)
  moreover have "distinct (preorder t)" using w(2) by (simp add: text_tree_def distinct_map)
  ultimately obtain ad where "group_nodes (heap w) n = Some (noded ad (preorder t))"
    using noded_addresses[of "atm (heap w)" "n # ?g"] group by metis
  moreover have "getNode w (aid v) = Some n" using getNode_inv[OF inv] v by simp
  moreover have "is_value (heap w) n"
    using w(2) nd v by (auto simp: is_value_def text_tree_def t is_text_value_def split: aux_op.splits)
  ultimately show ?thesis using nd v t by auto
qed

lemma ordered_edits:
  assumes "text_tree t"
  shows "\<exists>ss. calculateOrderedEdits (noded ad (preorder t)) False = Some (text_segments ss) \<and> all_tokens ss = tree_tokens t"
  using segments_of_tree[OF assms, of ad] by (auto simp: calculateOrderedEdits_def)

lemma final_value:
  assumes "text_tree t" and "group_nodes h n = Some (noded ad (preorder t))"
  shows "calculateFinalEditValue h n = Some (shown (tree_tokens t))"
  using ordered_edits[OF assms(1), of ad] assms(2) text_segments_shown
  by (auto simp: calculateFinalEditValue_def)

section \<open>Insertion\<close>

definition text_kid :: "aux_op atom \<Rightarrow> bool" where
  "text_kid a \<longleftrightarrow> (is_delete a \<and> 0 < prio a) \<or> (is_insert a \<and> prio a = 0)"

lemma text_below_insert_kid:
  "text_below (CNode r ks) \<Longrightarrow> text_kid a \<Longrightarrow> text_below (CNode r (insert_kid a ks))"
  by (auto simp: set_insert_kid text_kid_def)

lemma text_below_tree_insert:
  assumes "text_below t" and "text_kid a" and "c = root_atom t \<or> \<not> is_delete c" and "c \<in> set (preorder t)"
    and "distinct (map okey (preorder t))"
  shows "text_below (tree_insert c a t)"
  using assms
proof (induction t)
  case (CNode r ks)
  show ?case
  proof (cases "okey r = okey c")
    case True
    then show ?thesis using CNode.prems(1,2) text_below_insert_kid by simp
  next
    case False
    have "(is_delete (root_atom k) \<and> 0 < prio (root_atom k) \<and> kids (tree_insert c a k) = []) \<or>
        (is_insert (root_atom k) \<and> prio (root_atom k) = 0 \<and> text_below (tree_insert c a k))" if k: "k \<in> set ks" for k
    proof (cases "c \<in> set (preorder k)")
      case True
      have "c \<noteq> r" using False by auto
      have "\<not> is_delete (root_atom k)"
      proof
        assume d: "is_delete (root_atom k)"
        then have "kids k = []" using CNode.prems(1) k insert_not_delete by auto
        then have "c = root_atom k" using True by (cases k) auto
        then show False using d CNode.prems(3) \<open>c \<noteq> r\<close> by simp
      qed
      moreover have "distinct (map okey (preorder k))"
        using CNode.prems(5) k by (auto dest!: split_list)
      ultimately show ?thesis
        using CNode.IH[OF k] CNode.prems(1-3) k True \<open>c \<noteq> r\<close> by auto
    next
      case absent: False
      have "okey c \<notin> okey ` set (preorder k)"
      proof
        assume "okey c \<in> okey ` set (preorder k)"
        then obtain x where x: "x \<in> set (preorder k)" "okey x = okey c" by auto
        then have "x \<in> set (preorder (CNode r ks))" using k by auto
        then have "x = c" using distinct_map_inj[OF CNode.prems(5)] CNode.prems(4) x(2) by blast
        with x(1) absent show False by simp
      qed
      then show ?thesis using CNode.prems(1) k by (simp add: tree_insert_absent)
    qed
    then show ?thesis using False by simp
  qed
qed


lemma text_tree_insert:
  assumes "text_tree t" and "c \<in> set (preorder t)" and "c = root_atom t \<or> \<not> is_delete c" and "prio c = 0"
    and "text_kid a" and "idEquals (cause a) (Some (aid c))" and "\<forall>x\<in>set (preorder t). ts x < ts a"
  shows "text_tree (tree_insert c a t)"
proof -
  have tree: "wf_ctree t" "distinct (map okey (preorder t))" "text_below t" "is_text_value (root_atom t)"
    using assms(1) by (simp_all add: text_tree_def)
  have new: "okey a \<notin> okey ` set (preorder t)" using assms(7) by (auto simp: okey_def)
  have "ts c < ts a" using assms(2,7) by blast
  then have "wf_ctree (tree_insert c a t)"
    using wf_tree_insert[OF tree(1,2) assms(2,4,6)] new assms(5) by (auto simp: text_kid_def)
  moreover have "distinct (map okey (preorder (tree_insert c a t)))"
    by (rule distinct_tree_insert[OF tree(1,2) assms(2,4) new])
  moreover have "text_below (tree_insert c a t)"
    using text_below_tree_insert[OF tree(3) assms(5,3,2) tree(2)] .
  ultimately show ?thesis using tree(4) by (simp add: text_tree_def)
qed

text \<open>Atoms of a text with nothing above them but insertions have no priority.\<close>

lemma text_prio:
  assumes "text_below t" and "x \<in> set (preorder t)" and "x = root_atom t \<or> \<not> is_delete x"
  shows "x = root_atom t \<or> prio x = 0"
  using assms
proof (induction t)
  case (CNode r ks)
  show ?case
  proof (cases "x = r")
    case False
    then obtain k where k: "k \<in> set ks" "x \<in> set (preorder k)" using CNode.prems(2) by auto
    have "\<not> is_delete (root_atom k)"
    proof
      assume d: "is_delete (root_atom k)"
      then have "kids k = []" using CNode.prems(1) k(1) insert_not_delete by auto
      then have "x = root_atom k" using k(2) by (cases k) auto
      then show False using d CNode.prems(3) False by simp
    qed
    then have "prio (root_atom k) = 0" "text_below k" using CNode.prems(1) k(1) by auto
    then show ?thesis using CNode.IH[OF k(1)] k(2) CNode.prems(3) False by auto
  qed simp
qed

text \<open>The place of an insertion in the chain, for a node of the tree.\<close>

lemma text_weave_insert:
  assumes at: "text_at w t" and c: "c \<in> set (preorder t)" "c = root_atom t \<or> \<not> is_delete c" "prio c = 0"
    and a: "cause a = Some (aid c)" "text_kid a" "\<forall>x\<in>set (preorder t). ts x < ts a"
    and new: "getNode w (aid a) = None" and buf: "reorderBuffer w = []" and hash: "atomMatchesHash H a (Some c)"
  shows "\<exists>w' cs cs'. weave_insert H w a = Some (Inr (AtomAdded a), w') \<and> text_at w' (tree_insert c a t) \<and> reorderBuffer w' = [] \<and>
    (\<forall>j m. getNode w j = Some m \<longrightarrow> getNode w' j = Some m) \<and>
    weave_chains w = Some cs \<and> weave_chains w' = Some cs' \<and> set (concat cs') = insert a (set (concat cs))"
proof -
  obtain us xs ys vs where chains: "weave_chains w = Some (us @ (xs @ preorder t @ ys) # vs)" "ys = [] \<or> ts (hd ys) \<le> ts (root_atom t)"
    and w: "weave_ok w" "text_tree t" using at by (auto simp: text_at_def)
  have tree: "wf_ctree t" "distinct (map okey (preorder t))" using w(2) by (simp_all add: text_tree_def)
  obtain ps qs where t: "preorder t = ps @ c # qs" using c(1) by (meson split_list)
  have split: "weave_chains w = Some (us @ ((xs @ ps) @ c # (qs @ ys)) # vs)" using chains(1) by (simp add: t)
  have none: "atomIdToString (aid b) \<noteq> atomIdToString (aid a)" if "b \<in> set (concat (us @ ((xs @ ps) @ c # (qs @ ys)) # vs))" for b
    using getNode_None_chains[OF w(1) split] new that by blast
  have "ts c < ts a" using a(3) c(1) by blast
  from insertChild_full[OF w(1) split buf none a(1) HOL.refl hash this] obtain w' where w':
    "weave_insert H w a = Some (Inr (AtomAdded a), w')" "weave_ok w'" "same_rest w w'"
    "weave_chains w' = Some (us @ ((xs @ ps) @ c # insert_group c a (qs @ ys)) # vs)"
    "\<forall>j m. getNode w j = Some m \<longrightarrow> getNode w' j = Some m" by blast
  have "okey c \<notin> okey ` set ps" using tree(2) t by auto
  then have "ps @ c # insert_group c a (qs @ ys) = preorder (tree_insert c a t) @ ys"
    using insert_at_preorder[OF tree c(1,3) chains(2), of a] insert_at_split[of c ps a "qs @ ys"] by (simp add: t)
  then have "weave_chains w' = Some (us @ (xs @ preorder (tree_insert c a t) @ ys) # vs)" using w'(4) by simp
  moreover have "text_tree (tree_insert c a t)"
    using text_tree_insert[OF w(2) c a(2) _ a(3)] a(1) by simp
  ultimately have "text_at w' (tree_insert c a t)" using w'(2) chains(2) by (auto simp: text_at_def)
  moreover have "set (concat (us @ ((xs @ ps) @ c # insert_group c a (qs @ ys)) # vs)) =
      insert a (set (concat (us @ ((xs @ ps) @ c # (qs @ ys)) # vs)))" by auto
  moreover have "reorderBuffer w' = []" using w'(3) buf by (simp add: same_rest_def)
  ultimately show ?thesis using w'(1,4,5) split by blast
qed

section \<open>Typing\<close>

text \<open>The position for an index of the text, when the version has seen all of the text.\<close>

definition all_seen :: "int obj \<Rightarrow> aux_op ctree \<Rightarrow> bool" where
  "all_seen version t \<longleftrightarrow> (\<forall>x\<in>set (preorder t). seen version (0, x))"

lemma seen_all: "all_seen version t \<Longrightarrow> filter (seen version) (noded ad (preorder t)) = noded ad (preorder t)"
  by (auto simp: all_seen_def noded_def seen_def filter_id_conv)

lemma find_position:
  assumes "text_at w t" and "getNode w (aid (root_atom t)) = Some n" and "all_seen version t"
    and "findEditPosition (heap w) n version i = Some (Some p)" and "0 \<le> i"
  shows "snd (ep_node p) \<in> set (preorder t) \<and> (snd (ep_node p) = root_atom t \<or> \<not> is_delete (snd (ep_node p))) \<and>
    typed_at t p (nat i)"
proof -
  have t: "text_tree t" using assms(1) by (simp add: text_at_def)
  then have tree: "text_below t" "wf_ctree t" "distinct (map okey (preorder t))" by (simp_all add: text_tree_def)
  obtain ad where g: "group_nodes (heap w) n = Some (noded ad (preorder t))" "is_value (heap w) n"
      "map_option node_atom (heap w n) = Some (root_atom t)"
    using text_group[OF assms(1)] assms(2) by auto
  obtain ss where ss: "calculateOrderedEdits (noded ad (preorder t)) False = Some (text_segments ss)" "all_tokens ss = tree_tokens t"
    using ordered_edits[OF t, of ad] by blast
  have "seen_edits (heap w) n version = Some (text_segments ss)"
    using g(1) seen_all[OF assms(3), of ad] ss(1) by (simp add: seen_edits_def)
  then have pos: "(if text_segments ss = [] then Some \<lparr>ep_node = (n, root_atom t), ep_index = 0, ep_count = None\<rparr>
      else findSingleEditPosition i (text_segments ss)) = Some p"
    using assms(4) g(2,3) by (auto simp: findEditPosition_def)
  show ?thesis
  proof (cases "text_segments ss = []")
    case True
    then have empty: "shown (tree_tokens t) = []" using text_segments_shown[of ss] ss(2) by simp
    have p: "snd (ep_node p) = root_atom t" "ep_index p = 0" using pos True by auto
    have "typed_at t p (nat i)" unfolding typed_at_def
    proof (intro allI impI, elim conjE)
      fix a s assume a: "val a = TextInsertOp (ep_index p) s" "prio a = 0" "\<forall>x\<in>set (preorder t). ts x < ts a"
      obtain us vs where "tree_tokens t = us @ vs" "tree_tokens (tree_insert (root_atom t) a t) = us @ new_tokens a @ vs"
        using insert_tokens[OF tree root_in_preorder _ a] p(2) by auto
      then show "shown (tree_tokens (tree_insert (snd (ep_node p)) a t)) =
          take (nat i) (shown (tree_tokens t)) @ visible s @ drop (nat i) (shown (tree_tokens t))"
        using empty p(1) shown_new[OF a(1)] by simp
    qed
    with p(1) show ?thesis by simp
  next
    case False
    with pos show ?thesis using position_is_index[OF t ss(2) assms(5)] by simp
  qed
qed

section \<open>The edit that is reported\<close>

lemma apply_insert_ops:
  "n \<le> length old \<Longrightarrow> apply_ops old 0 ((if 0 < int n then [PreserveOp (int n)] else []) @ [InsertOp s]) = take n old @ s @ drop n old"
  by (cases "n = 0") (auto simp: splice_def slice_index_def)

text \<open>What stands before the first visible segment of the new atom.\<close>

lemma before_segment:
  "\<exists>pre post. ss = pre @ post \<and> concat (map tx_text (takeWhile (\<lambda>e. snd (tx_node e) \<noteq> a) (text_segments ss))) = shown (all_tokens pre) \<and>
    (\<forall>s\<in>set pre. seg_atom s = a \<longrightarrow> visible (si_text s) = []) \<and>
    (post = [] \<or> seg_atom (hd post) = a \<and> visible (si_text (hd post)) \<noteq> [])"
proof (induction ss)
  case (Cons s ss)
  then obtain pre post where IH: "ss = pre @ post"
      "concat (map tx_text (takeWhile (\<lambda>e. snd (tx_node e) \<noteq> a) (text_segments ss))) = shown (all_tokens pre)"
      "\<forall>s\<in>set pre. seg_atom s = a \<longrightarrow> visible (si_text s) = []"
      "post = [] \<or> seg_atom (hd post) = a \<and> visible (si_text (hd post)) \<noteq> []" by blast
  show ?case
  proof (cases "seg_atom s = a \<and> visible (si_text s) \<noteq> []")
    case True
    then show ?thesis by (intro exI[of _ "[]"] exI[of _ "s # ss"]) (simp add: text_of_segment_def)
  next
    case False
    then have "concat (map tx_text (takeWhile (\<lambda>e. snd (tx_node e) \<noteq> a) (text_segments (s # ss)))) = shown (all_tokens (s # pre))"
      using IH(2) by (auto simp: text_of_segment_def)
    with IH False show ?thesis by (intro exI[of _ "s # pre"] exI[of _ post]) auto
  qed
qed simp

lemma numbered_chars: "x \<in> set (numbered a i xs) \<Longrightarrow> snd x \<in> set xs"
  by (induction xs arbitrary: i) auto

lemma shown_NULs: "\<forall>x\<in>set xs. snd x = NUL \<Longrightarrow> shown xs = []"
  by (auto simp: shown_def visible_def filter_empty_conv)

lemma reported_count:
  assumes "all_tokens ss = us @ new_tokens a @ vs" and "val a = TextInsertOp i s" and "s \<noteq> []" and "NUL \<notin> set s"
    and "\<forall>x\<in>set us. fst (fst x) \<noteq> a"
  shows "concat (map tx_text (takeWhile (\<lambda>e. snd (tx_node e) \<noteq> a) (text_segments ss))) = shown us"
proof -
  obtain pre post where p: "ss = pre @ post"
      "concat (map tx_text (takeWhile (\<lambda>e. snd (tx_node e) \<noteq> a) (text_segments ss))) = shown (all_tokens pre)"
      "\<forall>s\<in>set pre. seg_atom s = a \<longrightarrow> visible (si_text s) = []"
      "post = [] \<or> seg_atom (hd post) = a \<and> visible (si_text (hd post)) \<noteq> []"
    using before_segment[of ss a] by blast
  let ?A = "all_tokens pre" and ?P = "all_tokens post" and ?N = "new_tokens a"
  have N: "?N = ((a, -1), NUL) # numbered a 0 s"
    using assms(2) by (simp add: new_tokens_def tree_tokens_base base_tokens_def marked_text_def own_text_def)
  have hidden: "snd x = NUL" if x: "x \<in> set ?A" "fst (fst x) = a" for x
  proof -
    obtain g where g: "g \<in> set pre" "x \<in> set (segment_tokens g)" using x(1) by auto
    then have "visible (si_text g) = []" using x(2) segment_labels[OF g(2)] p(3) by simp
    then show ?thesis using g(2) by (auto simp: segment_tokens_def visible_def filter_empty_conv dest: numbered_chars split: if_splits)
  qed
  have shows_s: "\<not> set ?N \<subseteq> set ?A"
  proof
    assume sub: "set ?N \<subseteq> set ?A"
    obtain c cs where s: "s = c # cs" using assms(3) by (cases s) auto
    then have "((a, 0), c) \<in> set ?N" by (simp add: N)
    with sub hidden[of "((a, 0), c)"] assms(4) s show False by auto
  qed
  have meet: "?A @ ?P = us @ ?N @ vs" using assms(1) p(1) by simp
  from append_meet[OF meet] have "shown ?A = shown us"
  proof
    assume "\<exists>zs. ?A = us @ zs"
    then obtain zs where zs: "?A = us @ zs" "zs @ ?P = ?N @ vs" using meet by auto
    have "\<not> (\<exists>z. zs = ?N @ z)" using shows_s zs(1) by auto
    with append_meet[OF zs(2)] obtain z where "?N = zs @ z" by blast
    moreover have "\<forall>x\<in>set ?N. fst (fst x) = a" by (rule new_tokens_nodes)
    ultimately have "\<forall>x\<in>set zs. snd x = NUL" using hidden zs(1) by simp
    then show ?thesis using zs(1) shown_NULs[of zs] by simp
  next
    assume "\<exists>zs. us = ?A @ zs \<and> ?P = zs @ ?N @ vs \<and> zs \<noteq> []"
    then obtain zs where zs: "us = ?A @ zs" "?P = zs @ ?N @ vs" "zs \<noteq> []" by blast
    then obtain h hs where h: "post = h # hs" by (cases post) auto
    with p(4) have "si_text h \<noteq> []" by auto
    then have first: "segment_tokens h \<noteq> []" by (cases "si_text h") (simp_all add: segment_tokens_def)
    have "hd zs = hd ?P" unfolding zs(2) using zs(3) by simp
    also have "\<dots> = hd (segment_tokens h)" using first h by simp
    finally have "hd zs = hd (segment_tokens h)" "hd (segment_tokens h) \<in> set (segment_tokens h)" using first by simp_all
    then have "fst (fst (hd zs)) = a" using segment_labels[of "hd zs" h] p(4) h by simp
    moreover have "hd zs \<in> set us" using zs(1,3) by simp
    ultimately show ?thesis using assms(5) by blast
  qed
  with p(2) show ?thesis by simp
qed

end
