(* ===== verification/TextDelete.thy ===== *)
theory TextDelete
  imports TextTyping
begin

text \<open>
  Deletions: a deletion below a node makes the characters of a range of indexes of the node \<open>NUL\<close>, whatever other
  deletions there are. The ranges that \<^verbatim>\<open>findEditPosition\<close> gives for a range of the text are those of its characters.
\<close>

section \<open>Striking out characters\<close>

definition strike :: "nat \<Rightarrow> nat \<Rightarrow> string \<Rightarrow> string" where
  "strike b e t = map (\<lambda>j. if b \<le> j \<and> j < e then NUL else t ! j) [0..<length t]"

lemma length_strike [simp]: "length (strike b e t) = length t"
  by (simp add: strike_def)

lemma nth_strike [simp]: "j < length t \<Longrightarrow> strike b e t ! j = (if b \<le> j \<and> j < e then NUL else t ! j)"
  by (simp add: strike_def)

lemma splice_one:
  "0 \<le> j \<Longrightarrow> j < int (length t) \<Longrightarrow> splice t j 1 [x] = t[nat j := x]"
  by (simp add: splice_def slice_index_def upd_conv_take_nth_drop Suc_nat_eq_nat_zadd1 add.commute)

lemma delete_text_strike:
  assumes "0 \<le> b" and "b \<le> e" and "e \<le> int (length t)"
  shows "delete_text (Some b) (Some e) t = strike (nat b) (nat e) t"
proof -
  have "foldl (\<lambda>t i. splice t i 1 [NUL]) t [b..e - 1] = strike (nat b) (nat e) t"
    using assms
  proof (induction "nat (e - b)" arbitrary: e)
    case 0
    then show ?case by (auto simp: strike_def intro!: nth_equalityI)
  next
    case (Suc n)
    then have be: "b \<le> e - 1" by linarith
    then have "[b..e - 1] = [b..e - 1 - 1] @ [e - 1]" using upto_rec2[of b "e - 1"] by simp
    moreover have "foldl (\<lambda>t i. splice t i 1 [NUL]) t [b..e - 1 - 1] = strike (nat b) (nat (e - 1)) t"
      using Suc be by (intro Suc.hyps(1)) auto
    ultimately have "foldl (\<lambda>t i. splice t i 1 [NUL]) t [b..e - 1] = (strike (nat b) (nat (e - 1)) t)[nat (e - 1) := NUL]"
      using Suc.prems be by (simp add: splice_one)
    also have "\<dots> = strike (nat b) (nat e) t"
      using Suc.prems be by (intro nth_equalityI) (auto simp: nth_list_update)
    finally show ?case .
  qed
  then show ?thesis by (simp add: delete_text_def)
qed

lemma splice_NUL:
  "0 \<le> j \<Longrightarrow> splice t j 1 [NUL] = (if nat j < length t then t[nat j := NUL] else t @ [NUL])"
  by (auto simp: splice_def slice_index_def upd_conv_take_nth_drop Suc_nat_eq_nat_zadd1 add.commute)

lemma strike_splice:
  assumes "e \<le> length t" and "0 \<le> j"
  shows "splice (strike b e t) j 1 [NUL] = strike b e (splice t j 1 [NUL])"
proof (cases "nat j < length t")
  case True
  moreover have "(strike b e t)[nat j := NUL] = strike b e (t[nat j := NUL])"
    using True by (intro nth_equalityI) (auto simp: nth_list_update)
  ultimately show ?thesis using assms(2) by (simp add: splice_NUL)
next
  case False
  moreover have "strike b e t @ [NUL] = strike b e (t @ [NUL])"
    using assms(1) by (intro nth_equalityI) (auto simp: nth_append)
  ultimately show ?thesis using assms(2) by (simp add: splice_NUL)
qed

text \<open>A deletion does not start before the text.\<close>

definition starts_inside :: "aux_op atom \<Rightarrow> bool" where
  "starts_inside d = (case val d of TextDeleteOp (Some b) _ \<Rightarrow> 0 \<le> b | _ \<Rightarrow> True)"

lemma foldl_strike:
  "e \<le> length t \<Longrightarrow> \<forall>i\<in>set is. 0 \<le> i \<Longrightarrow>
    foldl (\<lambda>t i. splice t i 1 [NUL]) (strike b e t) is = strike b e (foldl (\<lambda>t i. splice t i 1 [NUL]) t is)"
proof (induction "is" arbitrary: t)
  case (Cons j js)
  then have "e \<le> length (splice t j 1 [NUL])" by (auto simp: splice_NUL)
  with Cons show ?case by (simp add: strike_splice)
qed simp

lemma length_foldl_splice: "\<forall>i\<in>set is. 0 \<le> i \<Longrightarrow> length t \<le> length (foldl (\<lambda>t i. splice t i 1 [NUL]) t is)"
proof (induction "is" arbitrary: t)
  case (Cons j js)
  then have "length t \<le> length (splice t j 1 [NUL])" by (simp add: splice_NUL)
  also have "\<dots> \<le> length (foldl (\<lambda>t i. splice t i 1 [NUL]) (splice t j 1 [NUL]) js)" using Cons by simp
  finally show ?case by simp
qed simp

lemma deleted_by_strike: "e \<le> length t \<Longrightarrow> starts_inside d \<Longrightarrow> deleted_by d (strike b e t) = strike b e (deleted_by d t)"
  by (auto simp: deleted_by_def delete_text_def foldl_strike starts_inside_def split: aux_op.splits option.splits)

lemma length_deleted_by: "starts_inside d \<Longrightarrow> length t \<le> length (deleted_by d t)"
  by (auto simp: deleted_by_def delete_text_def length_foldl_splice starts_inside_def split: aux_op.splits option.splits)

lemma length_marked: "\<forall>d\<in>set ds. starts_inside d \<Longrightarrow> length (own_text r) \<le> length (marked_text r ds)"
proof (induction ds rule: rev_induct)
  case (snoc d ds)
  then have "length (own_text r) \<le> length (marked_text r ds)" by simp
  also have "\<dots> \<le> length (deleted_by d (marked_text r ds))" using snoc.prems length_deleted_by by simp
  finally show ?case by (simp add: marked_text_def)
qed (simp add: marked_text_def)

lemma foldl_deleted_strike:
  "n \<le> length t \<Longrightarrow> \<forall>d\<in>set ds. starts_inside d \<Longrightarrow>
    foldl (\<lambda>t d. deleted_by d t) (strike m n t) ds = strike m n (foldl (\<lambda>t d. deleted_by d t) t ds)"
proof (induction ds arbitrary: t)
  case (Cons d ds)
  then have "n \<le> length (deleted_by d t)" using length_deleted_by[of d t] by simp
  with Cons show ?case by (simp add: deleted_by_strike)
qed simp

lemma marked_strike:
  assumes "val d = TextDeleteOp (Some b) (Some e)" and "0 \<le> b" and "b \<le> e" and "e \<le> int (length (own_text r))"
    and "\<forall>x\<in>set (xs @ ys). starts_inside x"
  shows "marked_text r (xs @ d # ys) = strike (nat b) (nat e) (marked_text r (xs @ ys))"
proof -
  have len: "length (own_text r) \<le> length (marked_text r xs)" using length_marked assms(5) by simp
  then have "deleted_by d (marked_text r xs) = strike (nat b) (nat e) (marked_text r xs)"
    using assms(1-4) by (simp add: deleted_by_def delete_text_strike)
  moreover have "nat e \<le> length (marked_text r xs)" using assms(4) len by simp
  ultimately show ?thesis using foldl_deleted_strike[of "nat e" "marked_text r xs" ys "nat b"] assms(5)
    by (simp add: marked_text_def)
qed

section \<open>Striking out in a tree\<close>

definition struck :: "aux_op atom \<Rightarrow> int \<Rightarrow> int \<Rightarrow> token list \<Rightarrow> token list" where
  "struck c b e xs = map (\<lambda>(l, ch). if fst l = c \<and> b \<le> snd l \<and> snd l < e then (l, NUL) else (l, ch)) xs"

lemma struck_simps [simp]:
  "struck c b e [] = []" "struck c b e (xs @ ys) = struck c b e xs @ struck c b e ys"
  "struck c b e (x # xs) = (if fst (fst x) = c \<and> b \<le> snd (fst x) \<and> snd (fst x) < e then (fst x, NUL) else x) # struck c b e xs"
  by (auto simp: struck_def split: prod.splits)

lemma struck_outside: "\<forall>x\<in>set xs. \<not> (fst (fst x) = c \<and> b \<le> snd (fst x) \<and> snd (fst x) < e) \<Longrightarrow> struck c b e xs = xs"
  by (induction xs) auto

lemma map_fst_struck [simp]: "map fst (struck c b e xs) = map fst xs"
  by (induction xs) auto

lemma fst_set_struck [simp]: "fst ` set (struck c b e xs) = fst ` set xs"
  by (metis map_fst_struck set_map)

lemma struck_numbered:
  "struck c b e (numbered c i t) = numbered c i (map (\<lambda>j. if b \<le> i + int j \<and> i + int j < e then NUL else t ! j) [0..<length t])"
proof (induction t arbitrary: i)
  case (Cons x t)
  have "map (\<lambda>j. if b \<le> i + int j \<and> i + int j < e then NUL else (x # t) ! j) [0..<length (x # t)] =
    (if b \<le> i \<and> i < e then NUL else x) # map (\<lambda>j. if b \<le> i + 1 + int j \<and> i + 1 + int j < e then NUL else t ! j) [0..<length t]"
    by (simp add: upt_conv_Cons map_Suc_upt[symmetric] del: upt_Suc)
  with Cons.IH[of "i + 1"] show ?case by simp
qed simp

lemma struck_strike: "0 \<le> b \<Longrightarrow> struck c b e (numbered c 0 t) = numbered c 0 (strike (nat b) (nat e) t)"
  by (simp add: struck_numbered strike_def nat_le_iff zless_nat_eq_int_zless cong: if_cong)

lemma takeWhile_struck: "takeWhile (\<lambda>x. fst x \<noteq> l) (struck c b e xs) = struck c b e (takeWhile (\<lambda>x. fst x \<noteq> l) xs)"
  by (induction xs) auto

lemma dropWhile_struck: "dropWhile (\<lambda>x. fst x \<noteq> l) (struck c b e xs) = struck c b e (dropWhile (\<lambda>x. fst x \<noteq> l) xs)"
  by (induction xs) auto

lemma struck_tokens_at: "struck c b e (tokens_at new l xs) = tokens_at (struck c b e new) l (struck c b e xs)"
  by (simp add: tokens_at_def takeWhile_struck dropWhile_struck)

lemma struck_absent: "\<forall>x\<in>set xs. fst (fst x) \<noteq> c \<Longrightarrow> struck c b e xs = xs"
  by (rule struck_outside) blast

lemma struck_fold:
  assumes "\<forall>k\<in>set ks. c \<notin> set (preorder k)"
  shows "foldl (add_kid r) (struck c b e xs) ks = struck c b e (foldl (add_kid r) xs ks)"
  using assms
proof (induction ks arbitrary: xs)
  case (Cons k ks)
  have "struck c b e (tree_tokens k) = tree_tokens k"
    using Cons.prems token_nodes by (intro struck_absent) fastforce
  then have "add_kid r (struck c b e xs) k = struck c b e (add_kid r xs k)"
    by (auto simp: add_kid_def struck_tokens_at split: aux_op.splits)
  with Cons show ?case by simp
qed simp


text \<open>The characters of a tree with a new deletion below one of its nodes.\<close>

lemma base_struck:
  assumes "val d = TextDeleteOp (Some b) (Some e)" and "0 \<le> b" and "b \<le> e" and "e \<le> int (length (own_text r))"
    and "\<forall>k\<in>set ks. starts_inside (root_atom k)"
  shows "base_tokens r (insert_kid d ks) = struck r b e (base_tokens r ks)"
proof -
  obtain ps qs where ks: "ks = ps @ qs" "insert_kid d ks = ps @ CNode d [] # qs" using insert_kid_split by blast
  have "marked_text r (map root_atom (insert_kid d ks)) = strike (nat b) (nat e) (marked_text r (map root_atom ks))"
  proof -
    have "\<forall>x\<in>set (map root_atom ps @ map root_atom qs). starts_inside x" using assms(5) ks(1) by auto
    from marked_strike[OF assms(1-4) this] show ?thesis unfolding ks(2) by (simp add: ks(1))
  qed
  then show ?thesis using assms(2) by (simp add: base_tokens_def struck_strike)
qed

lemma delete_at_root:
  assumes "val d = TextDeleteOp (Some b) (Some e)" and "0 \<le> b" and "b \<le> e" and "e \<le> int (length (own_text r))"
    and "\<forall>k\<in>set ks. starts_inside (root_atom k)" and "r \<notin> set (forest ks)"
  shows "tree_tokens (CNode r (insert_kid d ks)) = struck r b e (tree_tokens (CNode r ks))"
proof -
  obtain ps qs where ks: "ks = ps @ qs" "insert_kid d ks = ps @ CNode d [] # qs" using insert_kid_split by blast
  have "\<not> is_insert d" using assms(1) by (simp add: is_insert_def)
  then have "foldl (add_kid r) X (insert_kid d ks) = foldl (add_kid r) X ks" for X
    unfolding ks(2) by (simp add: ks(1) add_kid_other)
  then have "tree_tokens (CNode r (insert_kid d ks)) = foldl (add_kid r) (struck r b e (base_tokens r ks)) ks"
    unfolding tree_tokens_base base_struck[OF assms(1-5)] by simp
  also have "\<dots> = struck r b e (foldl (add_kid r) (base_tokens r ks) ks)"
    using assms(6) by (intro struck_fold) auto
  finally show ?thesis by (simp add: tree_tokens_base)
qed

theorem delete_tokens:
  assumes "val d = TextDeleteOp (Some b) (Some e)" and "0 \<le> b" and "b \<le> e" and "e \<le> int (length (own_text c))"
    and "distinct (map okey (preorder t))" and "c \<in> set (preorder t)" and "\<forall>x\<in>set (preorder t). starts_inside x"
  shows "tree_tokens (tree_insert c d t) = struck c b e (tree_tokens t)"
  using assms(5-7)
proof (induction t)
  case (CNode r ks)
  have dist: "distinct (preorder (CNode r ks))" using CNode.prems(1) by (simp only: distinct_map)
  show ?case
  proof (cases "c = r")
    case True
    have "\<forall>k\<in>set ks. starts_inside (root_atom k)" using CNode.prems(3) root_in_preorder by fastforce
    then show ?thesis using delete_at_root[OF assms(1-4), unfolded True, of ks] dist True by simp
  next
    case False
    then obtain k where c: "k \<in> set ks" "c \<in> set (preorder k)" using CNode.prems(2) by auto
    obtain us vs where "ks = us @ k # vs" using c(1) by (meson split_list)
    note ks = this c(2)
    have "okey c \<noteq> okey r"
      using CNode.prems(1,2) False distinct_map_inj[of okey "preorder (CNode r ks)" c r] by auto
    moreover have dist2: "distinct (map okey (forest (us @ k # vs)))" using CNode.prems(1) ks(1) by simp
    note split = forest_okey_split[OF dist2 ks(2)]
    ultimately have ins: "tree_insert c d (CNode r ks) = CNode r (us @ tree_insert c d k # vs)"
      by (simp add: ks(1) tree_insert_forest_absent)
    have other: "\<forall>l\<in>set us. c \<notin> set (preorder l)" "\<forall>l\<in>set vs. c \<notin> set (preorder l)" using split(1,2) by auto
    have IH: "tree_tokens (tree_insert c d k) = struck c b e (tree_tokens k)"
      using CNode.IH[OF c(1) split(3) c(2)] CNode.prems(3) c(1) by auto
    have base: "base_tokens r (us @ tree_insert c d k # vs) = base_tokens r ks" by (simp add: base_tokens_def ks(1))
    have fixed: "struck c b e (base_tokens r ks) = base_tokens r ks"
      using False by (intro struck_absent) (auto simp: base_tokens_def dest!: numbered_labels)
    have step: "add_kid r (struck c b e X) (tree_insert c d k) = struck c b e (add_kid r X k)" for X
      by (auto simp: add_kid_def IH struck_tokens_at split: aux_op.splits)
    have "tree_tokens (CNode r (us @ tree_insert c d k # vs)) =
        foldl (add_kid r) (add_kid r (foldl (add_kid r) (struck c b e (base_tokens r ks)) us) (tree_insert c d k)) vs"
      unfolding tree_tokens_base base fixed by simp
    also have "\<dots> = struck c b e (foldl (add_kid r) (add_kid r (foldl (add_kid r) (base_tokens r ks) us) k) vs)"
      using struck_fold[OF other(1)] struck_fold[OF other(2)] by (simp add: step)
    also have "\<dots> = struck c b e (tree_tokens (CNode r ks))" by (simp add: tree_tokens_base ks(1))
    finally show ?thesis by (simp only: ins)
  qed
qed


section \<open>Visible characters\<close>

text \<open>The characters that a deletion adds beyond the text of its node are not visible.\<close>

lemma beyond_own:
  assumes "\<forall>d\<in>set ds. starts_inside d" and "length (own_text r) \<le> j" and "j < length (marked_text r ds)"
  shows "marked_text r ds ! j = NUL"
proof -
  have step: "\<forall>i\<in>set is. 0 \<le> i \<Longrightarrow> \<forall>j. n \<le> j \<and> j < length t \<longrightarrow> t ! j = NUL \<Longrightarrow>
      \<forall>j. n \<le> j \<and> j < length (foldl (\<lambda>t i. splice t i 1 [NUL]) t is) \<longrightarrow> foldl (\<lambda>t i. splice t i 1 [NUL]) t is ! j = NUL" for n t "is"
  proof (induction "is" arbitrary: t)
    case (Cons i js)
    have "\<forall>j. n \<le> j \<and> j < length (splice t i 1 [NUL]) \<longrightarrow> splice t i 1 [NUL] ! j = NUL"
      using Cons.prems by (auto simp: splice_NUL nth_list_update nth_append less_Suc_eq)
    with Cons show ?case by simp
  qed simp
  have "\<forall>j. length (own_text r) \<le> j \<and> j < length (marked_text r ds) \<longrightarrow> marked_text r ds ! j = NUL"
    using assms(1)
  proof (induction ds rule: rev_induct)
    case (snoc d ds)
    then have "\<forall>j. length (own_text r) \<le> j \<and> j < length (marked_text r ds) \<longrightarrow> marked_text r ds ! j = NUL" by simp
    then have "\<forall>j. length (own_text r) \<le> j \<and> j < length (deleted_by d (marked_text r ds)) \<longrightarrow> deleted_by d (marked_text r ds) ! j = NUL"
      using snoc.prems step[of "[b..e - 1]" for b e]
      by (auto simp: deleted_by_def delete_text_def starts_inside_def split: aux_op.splits option.splits)
    then show ?case by (simp add: marked_text_def)
  qed (auto simp: marked_text_def)
  with assms(2,3) show ?thesis by blast
qed

definition own_range :: "token \<Rightarrow> bool" where
  "own_range x \<longleftrightarrow> (snd x \<noteq> NUL \<longrightarrow> 0 \<le> snd (fst x) \<and> snd (fst x) < int (length (own_text (fst (fst x)))))"

lemma numbered_nth_token: "x \<in> set (numbered a i t) \<Longrightarrow> \<exists>j<length t. x = ((a, i + int j), t ! j)"
proof (induction t arbitrary: i)
  case (Cons c t)
  then consider "x = ((a, i), c)" | j where "j < length t" "x = ((a, i + 1 + int j), t ! j)" by auto
  then show ?case
  proof cases
    case 1
    then show ?thesis by (intro exI[of _ 0]) simp
  next
    case 2
    then show ?thesis by (intro exI[of _ "Suc j"]) simp
  qed
qed simp

lemma visible_label: "\<forall>x\<in>set (preorder t). starts_inside x \<Longrightarrow> x \<in> set (tree_tokens t) \<Longrightarrow> own_range x"
proof (induction t arbitrary: x)
  case (CNode r ks)
  from CNode.prems(2) have "x \<in> set (base_tokens r ks) \<union> (\<Union>k\<in>set ks. set (tree_tokens k))"
    using set_fold_kids[of r "base_tokens r ks" ks] by (simp only: tree_tokens_base) blast
  then show ?case
  proof
    assume x: "x \<in> set (base_tokens r ks)"
    have "\<forall>d\<in>set (map root_atom ks). starts_inside d" using CNode.prems(1) root_in_preorder by fastforce
    note hidden = beyond_own[OF this, of r]
    show ?thesis
    proof (cases "x = ((r, -1), NUL)")
      case False
      with x obtain j where "j < length (marked_text r (map root_atom ks))" "x = ((r, 0 + int j), marked_text r (map root_atom ks) ! j)"
        using numbered_nth_token[of x r 0] by (auto simp: base_tokens_def)
      with hidden[of j] show ?thesis by (cases "length (own_text r) \<le> j") (auto simp: own_range_def)
    qed (simp add: own_range_def)
  next
    assume "x \<in> (\<Union>k\<in>set ks. set (tree_tokens k))"
    then obtain k where "k \<in> set ks" "x \<in> set (tree_tokens k)" by blast
    with CNode show ?thesis by auto
  qed
qed

section \<open>The positions of a range\<close>

lemma deleted_among_zero [simp]: "deleted_among 0 xs = 0"
  by (cases xs) simp_all

lemma deleted_among_take:
  assumes "n \<le> length (visible xs)"
  shows "n + deleted_among (int n) xs \<le> length xs \<and> visible (take (n + deleted_among (int n) xs) xs) = take n (visible xs) \<and>
    (0 < n \<longrightarrow> xs ! (n + deleted_among (int n) xs - 1) \<noteq> NUL)"
  using assms
proof (induction xs arbitrary: n)
  case (Cons c xs)
  show ?case
  proof (cases n)
    case (Suc k)
    show ?thesis
    proof (cases "c = NUL")
      case True
      with Cons.IH[of n] Cons.prems Suc show ?thesis by (auto simp: nth_Cons split: nat.splits)
    next
      case False
      with Cons.IH[of k] Cons.prems Suc show ?thesis by (cases k) (auto simp: nth_Cons split: nat.splits)
    qed
  qed simp
qed simp


text \<open>A position with a count is a range of a segment that starts and ends with a visible character.\<close>

definition range_in :: "nat \<Rightarrow> nat \<Rightarrow> segment_info \<Rightarrow> edit_position \<Rightarrow> bool" where
  "range_in j m s p \<longleftrightarrow> ep_node p = si_node s \<and> ep_index p = si_offset s + int j \<and> ep_count p = Some (int m) \<and>
     0 < m \<and> j + m \<le> length (si_text s) \<and> si_text s ! j \<noteq> NUL \<and> si_text s ! (j + m - 1) \<noteq> NUL"

lemma drop_of_take: "v = take n v @ y \<Longrightarrow> y = drop n v"
  by (metis append_take_drop_id same_append_eq)

lemma range_position:
  assumes "0 < n" and "rel + n \<le> length (visible (si_text s))"
  shows "\<exists>j m. range_in j m s (position_in rel (int n) (text_of_segment s)) \<and>
    visible (take j (si_text s)) = take rel (visible (si_text s)) \<and> visible (drop (j + m) (si_text s)) = drop (rel + n) (visible (si_text s))"
proof -
  let ?t = "si_text s" and ?p = "position_in rel (int n) (text_of_segment s)"
  let ?k = "rel + marked_offset rel (visible ?t) ?t"
  let ?r = "length (takeWhile (\<lambda>c. c = NUL) (drop ?k ?t))"
  let ?j = "?k + ?r" let ?rest = "drop ?j ?t"
  let ?m = "n + deleted_among (int n) ?rest"
  have k: "?k \<le> length ?t" "visible (take ?k ?t) = take rel (visible ?t)" using marked_offset_take[of rel ?t] assms(2) by simp_all
  have j: "visible (take ?j ?t) = take rel (visible ?t)"
    using k(2) visible_NULs[of "drop ?k ?t"] takeWhile_take[of "\<lambda>c. c = NUL" "drop ?k ?t"] by (simp add: take_add)
  have whole: "visible ?t = visible (take i ?t) @ visible (drop i ?t)" for i
    by (metis append_take_drop_id visible_simps(2))
  have rest: "visible ?rest = drop rel (visible ?t)"
    using whole[of ?j] unfolding j by (rule drop_of_take)
  have "n \<le> length (visible ?rest)" using rest assms(2) by simp
  note m = deleted_among_take[OF this]
  have after: "visible (drop ?m ?rest) = drop n (visible ?rest)"
  proof -
    have "visible ?rest = visible (take ?m ?rest) @ visible (drop ?m ?rest)" by (metis append_take_drop_id visible_simps(2))
    then show ?thesis using m by (intro drop_of_take) metis
  qed
  have ne: "?rest \<noteq> []" using rest assms by auto
  have "?rest = dropWhile (\<lambda>c. c = NUL) (drop ?k ?t)" by (simp add: dropWhile_eq_drop add.commute)
  with ne have "hd ?rest \<noteq> NUL" by (metis (mono_tags, lifting) hd_dropWhile)
  then have first: "?t ! ?j \<noteq> NUL" using ne by (simp add: hd_drop_conv_nth)
  have len: "?j + ?m \<le> length ?t" using m ne by (simp add: nat_le_iff) linarith
  have "?rest ! (?m - 1) = ?t ! (?j + ?m - 1)" using ne assms(1) by (simp add: nth_drop)
  then have last: "?t ! (?j + ?m - 1) \<noteq> NUL" using m assms(1) by simp
  have "range_in ?j ?m s ?p"
    unfolding range_in_def using first last len assms(1) by (simp add: position_in_def Let_def text_of_segment_def add.commute)
  moreover have "visible (drop (?j + ?m) ?t) = drop (rel + n) (visible ?t)" using after rest by (simp add: add.commute)
  ultimately show ?thesis using j by blast
qed


text \<open>The characters after the deletions at some positions.\<close>

abbreviation struck_at :: "token list \<Rightarrow> edit_position \<Rightarrow> token list" where
  "struck_at xs p \<equiv> struck (snd (ep_node p)) (ep_index p) (ep_index p + the (ep_count p)) xs"

definition strike_all :: "edit_position list \<Rightarrow> token list \<Rightarrow> token list" where
  "strike_all ps xs = foldl struck_at xs ps"

lemma strike_all_simps [simp]:
  "strike_all [] xs = xs" "strike_all (p # ps) xs = strike_all ps (struck_at xs p)"
  by (simp_all add: strike_all_def)

lemma strike_all_append: "strike_all ps (xs @ ys) = strike_all ps xs @ strike_all ps ys"
  by (induction ps arbitrary: xs ys) simp_all

lemma visible_replicate: "\<forall>x\<in>set xs. x = NUL \<Longrightarrow> visible xs = []"
  by (induction xs) auto

lemma struck_all_range:
  "\<forall>x\<in>set xs. fst (fst x) = c \<and> b \<le> snd (fst x) \<and> snd (fst x) < e \<Longrightarrow> shown (struck c b e xs) = []"
  by (induction xs) auto

text \<open>A range of a segment: the visible characters before it and behind it stay.\<close>

lemma struck_segment:
  assumes "range_in j m s p"
  shows "shown (struck_at (segment_tokens s) p) = visible (take j (si_text s)) @ visible (drop (j + m) (si_text s))"
proof -
  let ?a = "seg_atom s" and ?o = "si_offset s" and ?t = "si_text s"
  let ?b = "?o + int j" and ?e = "?o + int j + int m"
  let ?x = "numbered ?a ?o (take j ?t)" and ?y = "numbered ?a ?b (take m (drop j ?t))" and ?z = "numbered ?a ?e (drop (j + m) ?t)"
  have len: "j + m \<le> length ?t" using assms by (simp add: range_in_def)
  have "numbered ?a ?o ?t = ?x @ numbered ?a ?b (drop j ?t)"
    using len numbered_append[of ?a ?o "take j ?t" "drop j ?t"] by simp
  moreover have "drop j ?t = take m (drop j ?t) @ drop (j + m) ?t" by (metis append_take_drop_id drop_drop add.commute)
  then have "numbered ?a ?b (drop j ?t) = ?y @ ?z"
    using len numbered_append[of ?a ?b "take m (drop j ?t)" "drop (j + m) ?t"] by (metis (no_types, lifting) length_take length_drop min_absorb2 add_le_imp_le_diff add.commute)
  ultimately have "numbered ?a ?o ?t = ?x @ ?y @ ?z" by simp
  moreover have "struck ?a ?b ?e ?x = ?x" by (rule struck_outside) (auto dest!: numbered_labels)
  moreover have "struck ?a ?b ?e ?z = ?z" by (rule struck_outside) (auto dest!: numbered_labels)
  moreover have "shown (struck ?a ?b ?e ?y) = []" using len by (intro struck_all_range) (auto dest!: numbered_labels)
  ultimately have "shown (struck ?a ?b ?e (numbered ?a ?o ?t)) = visible (take j ?t) @ visible (drop (j + m) ?t)" by simp
  then show ?thesis using assms by (simp add: segment_tokens_def range_in_def)
qed

lemma range_labels:
  assumes "range_in j m s p" and "ep_index p \<le> k" and "k < ep_index p + the (ep_count p)"
  shows "(snd (ep_node p), k) \<in> fst ` set (segment_tokens s)"
proof -
  have "(seg_atom s, k) \<in> fst ` set (numbered (seg_atom s) (si_offset s) (si_text s))"
    using assms by (auto simp: range_in_def numbered_label_iff)
  then show ?thesis using assms(1) by (auto simp: segment_tokens_def range_in_def)
qed

text \<open>A range of a segment leaves the characters with other labels.\<close>

lemma struck_elsewhere:
  assumes "range_in j m s p" and "fst ` set (segment_tokens s) \<inter> fst ` set xs = {}"
  shows "struck_at xs p = xs"
proof (rule struck_outside, rule ballI)
  fix x assume x: "x \<in> set xs"
  show "\<not> (fst (fst x) = snd (ep_node p) \<and> ep_index p \<le> snd (fst x) \<and> snd (fst x) < ep_index p + the (ep_count p))"
  proof
    assume r: "fst (fst x) = snd (ep_node p) \<and> ep_index p \<le> snd (fst x) \<and> snd (fst x) < ep_index p + the (ep_count p)"
    then have "fst x \<in> fst ` set (segment_tokens s)"
      using range_labels[OF assms(1), of "snd (fst x)"] by (metis prod.collapse)
    with x assms(2) show False by blast
  qed
qed

definition range_of :: "segment_info list \<Rightarrow> edit_position \<Rightarrow> bool" where
  "range_of ss p \<longleftrightarrow> (\<exists>s\<in>set ss. \<exists>j m. range_in j m s p)"

lemma strike_all_elsewhere:
  assumes "\<forall>p\<in>set ps. range_of ss p" and "fst ` set (all_tokens ss) \<inter> fst ` set xs = {}"
  shows "strike_all ps xs = xs"
  using assms(1)
proof (induction ps)
  case (Cons p ps)
  then obtain s j m where s: "s \<in> set ss" "range_in j m s p" by (auto simp: range_of_def)
  then have "fst ` set (segment_tokens s) \<inter> fst ` set xs = {}" using assms(2) by auto
  from struck_elsewhere[OF s(2) this] show ?case using Cons by simp
qed simp

lemma range_of_mono: "range_of ss p \<Longrightarrow> set ss \<subseteq> set ss' \<Longrightarrow> range_of ss' p"
  by (auto simp: range_of_def)

theorem positions_of_range:
  assumes "distinct (map fst (all_tokens ss))" and "c \<le> i" and "0 < n"
  shows "(\<forall>p\<in>set (edit_positions i c n RightAffinity (text_segments ss)). range_of ss p) \<and>
    shown (strike_all (edit_positions i c n RightAffinity (text_segments ss)) (all_tokens ss)) =
      take (nat (i - c)) (shown (all_tokens ss)) @ drop (nat (i - c + n)) (shown (all_tokens ss))"
  using assms
proof (induction ss arbitrary: c n)
  case (Cons s ss)
  let ?v = "visible (si_text s)" and ?e = "text_of_segment s" and ?T = "all_tokens ss"
  have dist: "distinct (map fst ?T)" "fst ` set (segment_tokens s) \<inter> fst ` set ?T = {}"
    using Cons.prems(1) by auto
  have rest: "(\<forall>p\<in>set (edit_positions i c' n' RightAffinity (text_segments ss)). range_of (s # ss) p) \<and>
      strike_all (edit_positions i c' n' RightAffinity (text_segments ss)) (segment_tokens s) = segment_tokens s \<and>
      shown (strike_all (edit_positions i c' n' RightAffinity (text_segments ss)) ?T) =
        take (nat (i - c')) (shown ?T) @ drop (nat (i - c' + n')) (shown ?T)" if "c' \<le> i" "0 < n'" for c' n'
  proof -
    note IH = Cons.IH[OF dist(1) that]
    have "fst ` set ?T \<inter> fst ` set (segment_tokens s) = {}" using dist(2) by (simp only: Int_commute)
    with IH have "strike_all (edit_positions i c' n' RightAffinity (text_segments ss)) (segment_tokens s) = segment_tokens s"
      by (intro strike_all_elsewhere[of _ ss]) simp_all
    moreover have "\<forall>p\<in>set (edit_positions i c' n' RightAffinity (text_segments ss)). range_of (s # ss) p"
      using IH range_of_mono[of ss _ "s # ss"] by (meson set_subset_Cons)
    ultimately show ?thesis using IH by blast
  qed
  show ?case
  proof (cases "?v = []")
    case True
    then have "text_segments (s # ss) = text_segments ss" by (simp add: text_of_segment_def)
    then show ?thesis using rest[OF Cons.prems(2,3)] True by (simp add: strike_all_append)
  next
    case False
    then have es: "text_segments (s # ss) = ?e # text_segments ss" by (simp add: text_of_segment_def)
    have len: "int (length (tx_text ?e)) = int (length ?v)" by (simp add: text_of_segment_def)
    show ?thesis
    proof (cases "i < c + int (length ?v)")
      case later: False
      let ?c = "c + int (length ?v)"
      have ps: "edit_positions i c n RightAffinity (text_segments (s # ss)) = edit_positions i ?c n RightAffinity (text_segments ss)"
        using later Cons.prems(3) unfolding es by (simp add: len Let_def)
      have c: "?c \<le> i" using later by simp
      then have nats: "nat (i - c) = length ?v + nat (i - ?c)" "nat (i - c + n) = length ?v + nat (i - ?c + n)"
        using Cons.prems(2,3) by auto
      note R = rest[OF c Cons.prems(3)]
      have "shown (strike_all (edit_positions i ?c n RightAffinity (text_segments ss)) (all_tokens (s # ss))) =
          ?v @ take (nat (i - ?c)) (shown ?T) @ drop (nat (i - ?c + n)) (shown ?T)"
        using R by (simp add: strike_all_append)
      also have "\<dots> = take (nat (i - c)) (shown (all_tokens (s # ss))) @ drop (nat (i - c + n)) (shown (all_tokens (s # ss)))"
        unfolding nats by simp
      finally show ?thesis using R unfolding ps by blast
    next
      case here: True
      let ?rel = "nat (i - c)"
      let ?k = "min (int (length ?v) - (i - c)) n"
      have k: "0 < ?k" "?rel + nat ?k \<le> length ?v" using here Cons.prems(2,3) by auto
      then have "int (nat ?k) = ?k" "0 < nat ?k" by simp_all
      with range_position[OF _ k(2)] obtain j m where p: "range_in j m s (position_in ?rel ?k ?e)"
          "visible (take j (si_text s)) = take ?rel ?v" "visible (drop (j + m) (si_text s)) = drop (?rel + nat ?k) ?v" by metis
      let ?p = "position_in ?rel ?k ?e"
      let ?ps = "if n - ?k \<le> 0 then [] else edit_positions i (c + (i - c)) (n - ?k) RightAffinity (text_segments ss)"
      have ps: "edit_positions i c n RightAffinity (text_segments (s # ss)) = ?p # ?ps"
        using here Cons.prems(2) unfolding es by (simp add: len Let_def)
      have range: "range_of (s # ss) ?p" using p(1) by (auto simp: range_of_def)
      have seg: "shown (struck_at (segment_tokens s) ?p) = take ?rel ?v @ drop (?rel + nat ?k) ?v"
        using struck_segment[OF p(1)] p(2,3) by simp
      have other: "struck_at ?T ?p = ?T" by (rule struck_elsewhere[OF p(1) dist(2)])
      show ?thesis
      proof (cases "n - ?k \<le> 0")
        case True
        then have "?k = n" by linarith
        then show ?thesis using True k Cons.prems(2,3) range seg other unfolding ps by (simp add: nat_add_distrib)
      next
        case more: False
        then have full: "?k = int (length ?v) - (i - c)" by linarith
        let ?Q = "edit_positions i i (n - ?k) RightAffinity (text_segments ss)"
        have Q: "edit_positions i c n RightAffinity (text_segments (s # ss)) = ?p # ?Q" using ps more by simp
        note R = rest[of i "n - ?k"]
        have pos: "0 < n - ?k" using more by simp
        have "range_of ss p" if "p \<in> set ?Q" for p using Cons.IH[OF dist(1), of i "n - ?k"] pos that by simp
        moreover have "fst ` set ?T \<inter> fst ` set (struck_at (segment_tokens s) ?p) = {}" using dist(2) by auto
        ultimately have elsewhere: "strike_all ?Q (struck_at (segment_tokens s) ?p) = struck_at (segment_tokens s) ?p"
          by (intro strike_all_elsewhere[of _ ss]) blast+
        have nats: "nat (i - c + n) = length ?v + nat (n - ?k)" "?rel + nat ?k = length ?v" "?rel \<le> length ?v"
          using full Cons.prems(2,3) pos k by linarith+
        have "strike_all (?p # ?Q) (all_tokens (s # ss)) = struck_at (segment_tokens s) ?p @ strike_all ?Q ?T"
          using elsewhere other by (simp add: strike_all_append)
        then have "shown (strike_all (?p # ?Q) (all_tokens (s # ss))) = take ?rel ?v @ drop (nat (n - ?k)) (shown ?T)"
          using seg R pos nats(2) by simp
        also have "\<dots> = take ?rel (shown (all_tokens (s # ss))) @ drop (nat (i - c + n)) (shown (all_tokens (s # ss)))"
          unfolding nats(1) using nats(3) by simp
        finally show ?thesis using R pos range unfolding Q by simp
      qed
    qed
  qed
qed simp

end
