(* ===== verification/TextUpdateSpec.thy ===== *)
theory TextUpdateSpec
  imports TextUpdate TextWeave TextDelete CausalTreeSpec
begin

text \<open>
  An edit of a tag does to the text of its value in the causal tree what \<^verbatim>\<open>applyEdit\<close> does to a string.
\<close>

section \<open>Trees that can be edited\<close>

text \<open>The clocks of a tree are ahead of its atoms.\<close>

definition clocks :: "aux_tree \<Rightarrow> bool" where
  "clocks T \<longleftrightarrow> (\<exists>cs. weave_chains (tree_weave T) = Some cs \<and>
     (\<forall>s. s = tree_site T \<or> tree_remoteSite T = Some s \<longrightarrow> site_ahead s (concat cs) \<and> 0 < site_time s))"

definition editable :: "aux_tree \<Rightarrow> aux_op ctree \<Rightarrow> nat \<Rightarrow> bool" where
  "editable T t n \<longleftrightarrow> text_at (tree_weave T) t \<and> getNode (tree_weave T) (aid (root_atom t)) = Some n \<and>
     reorderBuffer (tree_weave T) = [] \<and> prio (root_atom t) = 0 \<and> (\<forall>x\<in>set (preorder t). starts_inside x) \<and> clocks T"

lemma editable_text: "editable T t n \<Longrightarrow> text_tree t"
  by (simp add: editable_def text_at_def)

lemma editable_chain:
  assumes "editable T t n" and "weave_chains (tree_weave T) = Some cs"
  shows "set (preorder t) \<subseteq> set (concat cs)"
  using assms by (auto simp: editable_def text_at_def)

lemma editing_site_cases: "editing_site T remote = tree_site T \<or> tree_remoteSite T = Some (editing_site T remote)"
  by (simp add: editing_site_def split: option.splits)

definition by_sites :: "aux_tree \<Rightarrow> aux_op atom \<Rightarrow> bool" where
  "by_sites T a \<longleftrightarrow> site (aid a) = site_id (tree_site T) \<or> (\<exists>s. tree_remoteSite T = Some s \<and> site (aid a) = site_id s)"

text \<open>The sites of a tree stay; only their clocks go on.\<close>

definition same_sites :: "aux_tree \<Rightarrow> aux_tree \<Rightarrow> bool" where
  "same_sites T T' \<longleftrightarrow> site_id (tree_site T') = site_id (tree_site T) \<and>
     map_option site_id (tree_remoteSite T') = map_option site_id (tree_remoteSite T)"

lemma by_sites_same: "same_sites T T' \<Longrightarrow> by_sites T a \<Longrightarrow> by_sites T' a"
  by (auto simp: by_sites_def same_sites_def)

lemma same_sites_trans: "same_sites T1 T2 \<Longrightarrow> same_sites T2 T3 \<Longrightarrow> same_sites T1 T3"
  by (simp add: same_sites_def)

text \<open>Every atom that is added under a node of the text is accepted and goes to its place in the tree.\<close>

lemma add_op_text:
  assumes ed: "editable T t n" and c: "c \<in> set (preorder t)" "c = root_atom t \<or> \<not> is_delete c"
    and v: "(\<exists>i s. v = TextInsertOp i s \<and> p = Undefined) \<or> (\<exists>b e. v = TextDeleteOp (Some b) (Some e) \<and> p = Val 1 \<and> 0 \<le> b)"
  shows "\<exists>a T'. add_op H T c v p remote = Some (Inr [AtomAdded a], T') \<and> val a = v \<and>
    (\<forall>x\<in>set (preorder t). ts x < ts a) \<and> prio a = (if p = Undefined then 0 else 1) \<and>
    editable T' (tree_insert c a t) n \<and> same_sites T T' \<and> by_sites T' a"
proof -
  let ?s = "editing_site T remote" and ?w = "tree_weave T"
  let ?a = "createAtom H ?s (Some c) v p Undefined"
  have ed': "text_at ?w t" "getNode ?w (aid (root_atom t)) = Some n" "reorderBuffer ?w = []" "prio (root_atom t) = 0"
    "\<forall>x\<in>set (preorder t). starts_inside x" using ed by (simp_all add: editable_def)
  have tree: "text_below t" "distinct (map okey (preorder t))" using editable_text[OF ed] by (simp_all add: text_tree_def)
  obtain cs where cs: "weave_chains ?w = Some cs"
      "\<forall>s. s = tree_site T \<or> tree_remoteSite T = Some s \<longrightarrow> site_ahead s (concat cs) \<and> 0 < site_time s"
    using ed by (auto simp: editable_def clocks_def)
  have ahead: "site_ahead ?s (concat cs)" using cs(2) editing_site_cases[of T remote] by blast
  have sub: "set (preorder t) \<subseteq> set (concat cs)" by (rule editable_chain[OF ed cs(1)])
  have time: "ts ?a = site_time ?s + 1" by (rule createAtom_fields(3))
  have new: "\<forall>x\<in>set (concat cs). ts x < ts ?a"
    using ahead unfolding site_ahead_def time zless_add1_eq order_le_less by blast
  have "weave_ok ?w" using ed'(1) by (simp add: text_at_def)
  then have none: "getNode ?w (aid ?a) = None"
    unfolding getNode_None_chains[OF \<open>weave_ok ?w\<close> cs(1)] by (intro ballI createAtom_fresh[OF ahead])
  have made: "val ?a = v" "prio ?a = (if p = Undefined then 0 else 1)"
    using v by (auto simp: createAtom_def atom_def atomId_def getPriority_def)
  have kid: "text_kid ?a" using v made by (auto simp: text_kid_def is_insert_def is_delete_def)
  have starts: "starts_inside ?a" using v made(1) by (auto simp: starts_inside_def)
  have prio: "prio c = 0" using text_prio[OF tree(1) c] ed'(4) by auto
  have hash: "atomMatchesHash H ?a (Some c)" by (simp add: createAtom_def atomMatchesHash_atom)
  have cause: "cause ?a = Some (aid c)" by (simp add: createAtom_fields)
  have newer: "\<forall>x\<in>set (preorder t). ts x < ts ?a" using new sub by blast
  from text_weave_insert[OF ed'(1) c prio cause kid newer none ed'(3) hash] cs(1) obtain w' cs' where
    w': "weave_insert H ?w ?a = Some (Inr (AtomAdded ?a), w')" "text_at w' (tree_insert c ?a t)" "reorderBuffer w' = []"
      "\<forall>j m. getNode ?w j = Some m \<longrightarrow> getNode w' j = Some m" "weave_chains w' = Some cs'"
      "set (concat cs') = insert ?a (set (concat cs))" by auto
  let ?q = "\<lparr>results = [AtomAdded ?a], result_site = updateSite (tree_site T) (AtomAdded ?a),
      result_remoteSite = map_option (\<lambda>s. updateSite s (AtomAdded ?a)) (tree_remoteSite T)\<rparr>"
  let ?T = "applyResult (T\<lparr>tree_weave := w'\<rparr>) ?q"
  have added: "add_op H T c v p remote = Some (Inr [AtomAdded ?a], ?T)"
    using w'(1) by (simp add: add_op_def addAtom_def insertAtom_def)
  have T: "tree_weave ?T = w'" "tree_site ?T = updateSite (tree_site T) (AtomAdded ?a)"
    "tree_remoteSite ?T = map_option (\<lambda>s. updateSite s (AtomAdded ?a)) (tree_remoteSite T)" by (simp_all add: applyResult_def)
  have covered: "site_ahead (updateSite s (AtomAdded ?a)) (concat cs') \<and> 0 < site_time (updateSite s (AtomAdded ?a))"
    if "s = tree_site T \<or> tree_remoteSite T = Some s" for s
  proof -
    have s: "site_ahead s (concat cs)" "0 < site_time s" using cs(2) that by blast+
    have up: "ts ?a \<le> site_time (updateSite s (AtomAdded ?a))" "site_time s \<le> site_time (updateSite s (AtomAdded ?a))"
      using updateSite_covers[of "AtomAdded ?a" "[?a]" ?a s] by (simp_all add: addedWeaveAtoms_def addedAtom_def)
    have "CHR ''@'' \<notin> set (site (aid ?a))" using ahead unfolding createAtom_fields(4) site_ahead_def by blast
    then show ?thesis using s up w'(6) unfolding site_ahead_def updateSite_id by (auto intro: order_trans)
  qed
  have "clocks ?T" unfolding clocks_def T using w'(5) covered by auto
  moreover have "set (preorder (tree_insert c ?a t)) = insert ?a (set (preorder t))"
    by (rule set_preorder_insert[OF tree(2) c(1)])
  ultimately have "editable ?T (tree_insert c ?a t) n"
    using w'(2,3,4) ed' starts by (simp add: editable_def T(1))
  moreover have "same_sites T ?T" by (simp add: same_sites_def T(2,3) option.map_comp o_def)
  moreover have "by_sites ?T ?a"
    using editing_site_cases[of T remote] unfolding by_sites_def T(2,3) createAtom_fields(4) by auto
  ultimately show ?thesis using added made newer by blast
qed


section \<open>What a version has seen\<close>

lemma seen_site:
  assumes "timestamp (aid x) \<le> site_time s" and "0 < site_time s" and "seen v (0, x) \<or> site (aid x) = site_id s"
  shows "seen (see_site v s) (0, x)"
  using assms by (auto simp: seen_def see_site_def update_conv')

lemma seen_site_other:
  assumes "seen v (0, x)" and "site (aid x) = site_id s \<Longrightarrow> timestamp (aid x) \<le> site_time s \<and> 0 < site_time s"
  shows "seen (see_site v s) (0, x)"
  using assms by (auto simp: seen_def see_site_def update_conv')

lemma ahead_text:
  assumes "editable T t n" and "x \<in> set (preorder t)" and "s = tree_site T \<or> tree_remoteSite T = Some s"
  shows "timestamp (aid x) \<le> site_time s \<and> 0 < site_time s"
proof -
  obtain cs where cs: "weave_chains (tree_weave T) = Some cs" "site_ahead s (concat cs)" "0 < site_time s"
    using assms(1,3) by (auto simp: editable_def clocks_def)
  then show ?thesis using editable_chain[OF assms(1) cs(1)] assms(2) by (auto simp: site_ahead_def)
qed

lemma seen_start:
  assumes "editable T t n" and "all_seen v t"
  shows "all_seen (see_site v (tree_site T)) t"
  using assms ahead_text[OF assms(1)] by (auto simp: all_seen_def intro!: seen_site_other)

lemma seen_next:
  assumes ed: "editable T t n" and old: "\<forall>x\<in>set (preorder t). seen v (0, x) \<or> by_sites T x"
  shows "all_seen (next_version v T) t"
  unfolding all_seen_def
proof
  fix x assume x: "x \<in> set (preorder t)"
  let ?v = "see_site v (tree_site T)"
  note ahead = ahead_text[OF ed x]
  have one: "seen ?v (0, x) \<or> (\<exists>s. tree_remoteSite T = Some s \<and> site (aid x) = site_id s)"
    using old x ahead[of "tree_site T"] seen_site[of x "tree_site T" v] by (auto simp: by_sites_def)
  show "seen (next_version v T) (0, x)"
  proof (cases "tree_remoteSite T")
    case None
    then show ?thesis using one by (simp add: next_version_def Let_def)
  next
    case (Some s)
    then have "seen (see_site ?v s) (0, x)" using one ahead[of s] by (intro seen_site) auto
    then show ?thesis using Some by (simp add: next_version_def Let_def)
  qed
qed

section \<open>One insertion\<close>

lemma position_exists:
  assumes "count \<le> i" and "i \<le> count + shown_length ss" and "text_segments ss \<noteq> []"
  shows "first (edit_positions i count 1 LeftAffinity (text_segments ss)) \<noteq> None"
  using assms
proof (induction ss arbitrary: count)
  case (Cons s ss)
  show ?case
  proof (cases "visible (si_text s) = []")
    case True
    then show ?thesis using Cons by (simp add: text_of_segment_def)
  next
    case False
    then have es: "text_segments (s # ss) = text_of_segment s # text_segments ss" by (simp add: text_of_segment_def)
    have len: "int (length (tx_text (text_of_segment s))) = int (length (visible (si_text s)))" by (simp add: text_of_segment_def)
    show ?thesis
    proof (cases "i \<le> count + int (length (visible (si_text s)))")
      case True
      then show ?thesis unfolding es using len by (simp add: first_def Let_def)
    next
      case later: False
      then have "text_segments ss \<noteq> []"
      proof -
        have "shown (all_tokens ss) \<noteq> []" using later Cons.prems(2) by auto
        then show ?thesis using text_segments_shown[of ss] by auto
      qed
      then have "first (edit_positions i (count + int (length (visible (si_text s)))) 1 LeftAffinity (text_segments ss)) \<noteq> None"
        using Cons.prems(2) later by (intro Cons.IH) auto
      then show ?thesis unfolding es using later len by (simp add: Let_def)
    qed
  qed
qed simp

lemma edit_position_exists:
  assumes "text_at w t" and "getNode w (aid (root_atom t)) = Some n" and "all_seen v t" and "0 \<le> i"
    and "i \<le> int (length (shown (tree_tokens t)))"
  shows "\<exists>p. findEditPosition (heap w) n v i = Some (Some p)"
proof -
  have t: "text_tree t" using assms(1) by (simp add: text_at_def)
  obtain ad where g: "group_nodes (heap w) n = Some (noded ad (preorder t))" "is_value (heap w) n"
      "map_option node_atom (heap w n) = Some (root_atom t)"
    using text_group[OF assms(1)] assms(2) by auto
  obtain ss where ss: "calculateOrderedEdits (noded ad (preorder t)) False = Some (text_segments ss)" "all_tokens ss = tree_tokens t"
    using ordered_edits[OF t, of ad] by blast
  have "seen_edits (heap w) n v = Some (text_segments ss)"
    using g(1) seen_all[OF assms(3), of ad] ss(1) by (simp add: seen_edits_def)
  moreover have "text_segments ss \<noteq> [] \<longrightarrow> findSingleEditPosition i (text_segments ss) \<noteq> None"
    using position_exists[of 0 i ss] assms(4,5) ss(2) by (simp add: findSingleEditPosition_def findMultipleEditPositions_def)
  ultimately show ?thesis using g(2,3) by (auto simp: findEditPosition_def)
qed

lemma insert_step:
  assumes ed: "editable T t n" and seen: "all_seen v t" and i: "0 \<le> i" "i \<le> int (length (shown (tree_tokens t)))"
    and s: "s \<noteq> []" "NUL \<notin> set s"
  shows "\<exists>rs T' t'. edit_ops H n v remote i [InsertOp s] T = Some (Inr rs, T') \<and> editable T' t' n \<and> all_seen (next_version v T') t' \<and>
    shown (tree_tokens t') = take (nat i) (shown (tree_tokens t)) @ s @ drop (nat i) (shown (tree_tokens t))"
proof -
  have at: "text_at (tree_weave T) t" "getNode (tree_weave T) (aid (root_atom t)) = Some n" using ed by (simp_all add: editable_def)
  obtain p where p: "findEditPosition (heap (tree_weave T)) n v i = Some (Some p)"
    using edit_position_exists[OF at seen i] by blast
  let ?c = "snd (ep_node p)"
  from find_position[OF at seen p i(1)] have c: "?c \<in> set (preorder t)" "?c = root_atom t \<or> \<not> is_delete ?c"
    and typed: "typed_at t p (nat i)" by blast+
  obtain a T' where a: "add_op H T ?c (TextInsertOp (ep_index p) s) Undefined remote = Some (Inr [AtomAdded a], T')"
      "val a = TextInsertOp (ep_index p) s" "\<forall>x\<in>set (preorder t). ts x < ts a" "prio a = 0"
      "editable T' (tree_insert ?c a t) n" "by_sites T' a"
    using add_op_text[OF ed c, of "TextInsertOp (ep_index p) s" Undefined H remote] by auto
  have "edit_ops H n v remote i [InsertOp s] T = Some (Inr [AtomAdded a], T')"
    using p s(1) a(1) by (simp add: after_def insertOp_def)
  moreover have "set (preorder (tree_insert ?c a t)) = insert a (set (preorder t))"
    using editable_text[OF ed] c(1) by (intro set_preorder_insert) (simp_all add: text_tree_def)
  then have "all_seen (next_version v T') (tree_insert ?c a t)"
    using seen_next[OF a(5), of v] seen a(6) by (auto simp: all_seen_def)
  moreover have "visible s = s" using s(2) by (auto simp: visible_def filter_id_conv)
  then have "shown (tree_tokens (tree_insert ?c a t)) = take (nat i) (shown (tree_tokens t)) @ s @ drop (nat i) (shown (tree_tokens t))"
    using typed a(2-4) unfolding typed_at_def by metis
  ultimately show ?thesis using a(5) by blast
qed


section \<open>One deletion\<close>

text \<open>A position whose range lies in the text of its node.\<close>

definition own_position :: "aux_op ctree \<Rightarrow> edit_position \<Rightarrow> bool" where
  "own_position t p \<longleftrightarrow> (let c = snd (ep_node p); b = ep_index p; e = ep_index p + the (ep_count p) in
     0 \<le> b \<and> b \<le> e \<and> e \<le> int (length (own_text c)) \<and> c \<in> set (preorder t) \<and> (c = root_atom t \<or> \<not> is_delete c))"

lemma numbered_nth: "k < length xs \<Longrightarrow> numbered a i xs ! k = ((a, i + int k), xs ! k)"
  by (induction xs arbitrary: i k) (auto simp: nth_Cons split: nat.splits)

lemma range_own:
  assumes "range_of ss p" and ss: "all_tokens ss = tree_tokens t" and starts: "\<forall>x\<in>set (preorder t). starts_inside x" and "text_below t"
  shows "own_position t p"
proof -
  obtain s j m where s: "s \<in> set ss" "range_in j m s p" using assms(1) by (auto simp: range_of_def)
  let ?c = "seg_atom s" and ?o = "si_offset s"
  have sub: "set (segment_tokens s) \<subseteq> set (tree_tokens t)" unfolding ss[symmetric] using s(1) by auto
  have char: "((?c, ?o + int k), si_text s ! k) \<in> set (tree_tokens t)" if k: "k < length (si_text s)" for k
  proof -
    have "numbered ?c ?o (si_text s) ! k \<in> set (numbered ?c ?o (si_text s))" using k by simp
    then have "((?c, ?o + int k), si_text s ! k) \<in> set (segment_tokens s)" using numbered_nth[OF k] by (simp add: segment_tokens_def)
    then show ?thesis using sub by blast
  qed
  have r: "ep_node p = si_node s" "ep_index p = ?o + int j" "ep_count p = Some (int m)" "0 < m" "j + m \<le> length (si_text s)"
    "si_text s ! j \<noteq> NUL" "si_text s ! (j + m - 1) \<noteq> NUL" using s(2) by (simp_all add: range_in_def)
  have x: "((?c, ?o + int j), si_text s ! j) \<in> set (tree_tokens t)" using char[of j] r(4,5) by simp
  have y: "((?c, ?o + int (j + m - 1)), si_text s ! (j + m - 1)) \<in> set (tree_tokens t)" using char[of "j + m - 1"] r(4,5) by simp
  have "0 \<le> ?o + int j" using visible_label[OF starts x] r(6) by (simp add: own_range_def)
  moreover have "?o + int (j + m - 1) < int (length (own_text ?c))" using visible_label[OF starts y] r(7) by (simp add: own_range_def)
  moreover have "?c \<in> set (preorder t)" using token_nodes[OF x] by simp
  moreover have "?c = root_atom t \<or> \<not> is_delete ?c" using token_kinds[OF assms(4) x] insert_not_delete by auto
  ultimately show ?thesis using r(1-4) by (auto simp: own_position_def Let_def)
qed

lemma delete_run:
  assumes "editable T t n" and "\<forall>p\<in>set ps. own_position t p"
  shows "\<exists>rs T' t'. delete_at H remote ps T = Some (Inr rs, T') \<and> editable T' t' n \<and> same_sites T T' \<and>
    tree_tokens t' = strike_all ps (tree_tokens t) \<and> (\<forall>x\<in>set (preorder t'). x \<in> set (preorder t) \<or> by_sites T' x)"
  using assms
proof (induction ps arbitrary: T t)
  case Nil
  then show ?case by (auto simp: same_sites_def)
next
  case (Cons p ps)
  let ?c = "snd (ep_node p)" and ?b = "ep_index p" and ?e = "ep_index p + the (ep_count p)"
  have p: "0 \<le> ?b" "?b \<le> ?e" "?e \<le> int (length (own_text ?c))" "?c \<in> set (preorder t)" "?c = root_atom t \<or> \<not> is_delete ?c"
    using Cons.prems(2) by (simp_all add: own_position_def Let_def)
  obtain a T1 where a: "add_op H T ?c (TextDeleteOp (Some ?b) (Some ?e)) (Val 1) remote = Some (Inr [AtomAdded a], T1)"
      "val a = TextDeleteOp (Some ?b) (Some ?e)" "editable T1 (tree_insert ?c a t) n" "same_sites T T1" "by_sites T1 a"
    using add_op_text[OF Cons.prems(1) p(4,5), of "TextDeleteOp (Some ?b) (Some ?e)" "Val 1" H remote] p(1) by auto
  have tree: "distinct (map okey (preorder t))" using editable_text[OF Cons.prems(1)] by (simp add: text_tree_def)
  have starts: "\<forall>x\<in>set (preorder t). starts_inside x" using Cons.prems(1) by (simp add: editable_def)
  have atoms: "set (preorder (tree_insert ?c a t)) = insert a (set (preorder t))" by (rule set_preorder_insert[OF tree p(4)])
  have tokens: "tree_tokens (tree_insert ?c a t) = struck_at (tree_tokens t) p"
    by (rule delete_tokens[OF a(2) p(1-3) tree p(4) starts])
  have "\<forall>q\<in>set ps. own_position (tree_insert ?c a t) q"
    using Cons.prems(2) atoms by (auto simp: own_position_def Let_def)
  with Cons.IH[OF a(3)] obtain rs T' t' where IH: "delete_at H remote ps T1 = Some (Inr rs, T')" "editable T' t' n" "same_sites T1 T'"
      "tree_tokens t' = strike_all ps (tree_tokens (tree_insert ?c a t))"
      "\<forall>x\<in>set (preorder t'). x \<in> set (preorder (tree_insert ?c a t)) \<or> by_sites T' x" by blast
  have "delete_at H remote (p # ps) T = Some (Inr (AtomAdded a # rs), T')"
    using a(1) IH(1) by (simp add: after_def deleteOp_def)
  moreover have "\<forall>x\<in>set (preorder t'). x \<in> set (preorder t) \<or> by_sites T' x"
    using IH(5) by_sites_same[OF IH(3) a(5)] unfolding atoms by auto
  ultimately show ?case using IH(2,4) tokens same_sites_trans[OF a(4) IH(3)] by auto
qed

lemma delete_step:
  assumes ed: "editable T t n" and seen: "all_seen v t" and i: "0 \<le> i" "0 < k" "i + k \<le> int (length (shown (tree_tokens t)))"
  shows "\<exists>rs T' t'. edit_ops H n v remote i [DeleteOp k] T = Some (Inr rs, T') \<and> editable T' t' n \<and> all_seen (next_version v T') t' \<and>
    shown (tree_tokens t') = take (nat i) (shown (tree_tokens t)) @ drop (nat (i + k)) (shown (tree_tokens t))"
proof -
  let ?w = "tree_weave T"
  have at: "text_at ?w t" "getNode ?w (aid (root_atom t)) = Some n" and starts: "\<forall>x\<in>set (preorder t). starts_inside x"
    using ed by (simp_all add: editable_def)
  have t: "text_tree t" "text_below t" "distinct (preorder t)" using editable_text[OF ed] by (simp_all add: text_tree_def distinct_map)
  obtain ad where g: "group_nodes (heap ?w) n = Some (noded ad (preorder t))" "is_value (heap ?w) n"
    using text_group[OF at(1)] at(2) by auto
  obtain ss where ss: "calculateOrderedEdits (noded ad (preorder t)) False = Some (text_segments ss)" "all_tokens ss = tree_tokens t"
    using ordered_edits[OF t(1), of ad] by blast
  let ?ps = "edit_positions i 0 k RightAffinity (text_segments ss)"
  have "seen_edits (heap ?w) n v = Some (text_segments ss)"
    using g(1) seen_all[OF seen, of ad] ss(1) by (simp add: seen_edits_def)
  then have find: "findEditPositions (heap ?w) n v i k = Some ?ps"
    using g(2) by (simp add: findEditPositions_def findMultipleEditPositions_def)
  have "distinct (map fst (all_tokens ss))" using distinct_tree_tokens[OF t(3)] ss(2) by simp
  from positions_of_range[OF this i(1,2)] have pos: "\<forall>p\<in>set ?ps. range_of ss p"
      "shown (strike_all ?ps (tree_tokens t)) = take (nat i) (shown (tree_tokens t)) @ drop (nat (i + k)) (shown (tree_tokens t))"
    using ss(2) by simp_all
  have "?ps \<noteq> []"
  proof
    assume "?ps = []"
    then have "shown (tree_tokens t) = take (nat i) (shown (tree_tokens t)) @ drop (nat (i + k)) (shown (tree_tokens t))" using pos(2) by simp
    then have "length (shown (tree_tokens t)) = min (length (shown (tree_tokens t))) (nat i) + (length (shown (tree_tokens t)) - nat (i + k))"
      by (metis length_append length_drop length_take)
    then show False using i by linarith
  qed
  have "\<forall>p\<in>set ?ps. own_position t p" using pos(1) range_own[OF _ ss(2) starts t(2)] by blast
  from delete_run[OF ed this] obtain rs T' t' where d: "delete_at H remote ?ps T = Some (Inr rs, T')" "editable T' t' n"
      "tree_tokens t' = strike_all ?ps (tree_tokens t)" "\<forall>x\<in>set (preorder t'). x \<in> set (preorder t) \<or> by_sites T' x" by blast
  have "edit_ops H n v remote i [DeleteOp k] T = Some (Inr rs, T')"
    using i(2) find \<open>?ps \<noteq> []\<close> d(1) by (simp add: after_def)
  moreover have "all_seen (next_version v T') t'"
    using seen_next[OF d(2), of v] seen d(4) by (auto simp: all_seen_def)
  ultimately show ?thesis using d(2,3) pos(2) by auto
qed


section \<open>Edits\<close>

text \<open>A group with one change, inside of the text.\<close>

fun fits :: "string \<Rightarrow> tag_op list \<Rightarrow> bool" where
  "fits old [InsertOp s] \<longleftrightarrow> s \<noteq> [] \<and> NUL \<notin> set s"
| "fits old [PreserveOp i, InsertOp s] \<longleftrightarrow> 0 \<le> i \<and> i \<le> int (length old) \<and> s \<noteq> [] \<and> NUL \<notin> set s"
| "fits old [DeleteOp k] \<longleftrightarrow> 0 < k \<and> k \<le> int (length old)"
| "fits old [PreserveOp i, DeleteOp k] \<longleftrightarrow> 0 \<le> i \<and> 0 < k \<and> i + k \<le> int (length old)"
| "fits old _ \<longleftrightarrow> False"

fun fits_all :: "string \<Rightarrow> tag_op list list \<Rightarrow> bool" where
  "fits_all old [] \<longleftrightarrow> True"
| "fits_all old (g # gs) \<longleftrightarrow> fits old g \<and> fits_all (apply_ops old 0 g) gs"

lemma splice_inside: "0 \<le> i \<Longrightarrow> 0 \<le> k \<Longrightarrow> splice s i k u = take (nat i) s @ u @ drop (nat (i + k)) s"
  by (simp add: splice_def slice_index_def)

lemma group_step:
  assumes ed: "editable T t n" and seen: "all_seen v t" and "fits (shown (tree_tokens t)) g"
  shows "\<exists>rs T' t'. edit_ops H n v remote 0 g T = Some (Inr rs, T') \<and> editable T' t' n \<and> all_seen (next_version v T') t' \<and>
    shown (tree_tokens t') = apply_ops (shown (tree_tokens t)) 0 g"
  using assms(3)
proof (cases "(shown (tree_tokens t), g)" rule: fits.cases)
  case (1 old s)
  with assms(3) insert_step[OF ed seen, of 0 s H remote] show ?thesis by (simp add: splice_inside)
next
  case (2 old i s)
  with assms(3) insert_step[OF ed seen, of i s H remote] show ?thesis by (simp add: splice_inside del: edit_ops.simps(3))
next
  case (3 old k)
  with assms(3) delete_step[OF ed seen, of 0 k H remote] show ?thesis by (simp add: splice_inside del: edit_ops.simps(4))
next
  case (4 old i k)
  with assms(3) delete_step[OF ed seen, of i k H remote] show ?thesis by (simp add: splice_inside del: edit_ops.simps(4))
qed simp_all

lemma groups_run:
  assumes "editable T t n" and "all_seen v t" and "fits_all (shown (tree_tokens t)) gs"
  shows "\<exists>rs T' t'. edit_groups H n v remote gs T = Some (Inr rs, T') \<and> editable T' t' n \<and>
    shown (tree_tokens t') = foldl (\<lambda>s ops. apply_ops s 0 ops) (shown (tree_tokens t)) gs"
  using assms
proof (induction gs arbitrary: T t v)
  case (Cons g gs)
  then obtain rs T1 t1 where g: "edit_ops H n v remote 0 g T = Some (Inr rs, T1)" "editable T1 t1 n" "all_seen (next_version v T1) t1"
      "shown (tree_tokens t1) = apply_ops (shown (tree_tokens t)) 0 g" using group_step[of T t n v g H remote] by auto
  with Cons.IH[OF g(2,3)] Cons.prems(3) obtain qs T' t' where "edit_groups H n (next_version v T1) remote gs T1 = Some (Inr qs, T')"
      "editable T' t' n" "shown (tree_tokens t') = foldl (\<lambda>s ops. apply_ops s 0 ops) (shown (tree_tokens t1)) gs" by auto
  with g(1,4) show ?case by (auto simp: after_def)
qed auto

text \<open>The text of a value.\<close>

lemma editable_value:
  assumes "editable T t n"
  shows "calculateFinalEditValue (heap (tree_weave T)) n = Some (shown (tree_tokens t))"
proof -
  have at: "text_at (tree_weave T) t" "getNode (tree_weave T) (aid (root_atom t)) = Some n" using assms by (simp_all add: editable_def)
  obtain ad where "group_nodes (heap (tree_weave T)) n = Some (noded ad (preorder t))"
    using text_group[OF at(1)] at(2) by auto
  then show ?thesis using final_value[OF editable_text[OF assms]] by blast
qed

end
