(* ===== verification/TextClaims.thy ===== *)
theory TextClaims
  imports TextUpdateSpec Convergence
begin

text \<open>
  The properties of texts in AUX trees, with a tree on which they are witnessed, and what the code does on some
  concurrent edits.
\<close>

section \<open>A concrete tree\<close>

fun op_text :: "aux_op hash_part \<Rightarrow> string" where
  "op_text HNull = ''n''"
| "op_text HUndefined = ''u''"
| "op_text (HStr s) = s"
| "op_text (HNum i) = show_int i"
| "op_text (HCardinality c) = group c @ show_int (number c)"
| "op_text (HValue v) =
     (case v of BotOp i \<Rightarrow> ''b'' @ i | TagOp s \<Rightarrow> ''t'' @ s | ValueOp x \<Rightarrow> ''v'' @ convertToString x
      | TextInsertOp i s \<Rightarrow> ''i'' @ show_int i @ ''-'' @ s | TextDeleteOp (Some b) (Some e) \<Rightarrow> ''d'' @ show_int b @ ''-'' @ show_int e
      | _ \<Rightarrow> ''o'')"

definition text_hash :: "aux_op hasher" where "text_hash ps = concat (map (\<lambda>p. op_text p @ '','') ps)"

definition text_id :: "int \<Rightarrow> atom_id" where "text_id t = atomId ''s'' t Undefined Undefined"

definition botA :: "aux_op atom" where "botA = atom text_hash (text_id 1) None (botOp ''b'')"
definition tagA :: "aux_op atom" where "tagA = atom text_hash (text_id 2) (Some botA) (tagOp ''t'')"
definition valueA :: "aux_op atom" where "valueA = atom text_hash (text_id 3) (Some tagA) (valueOp (Val (StrV ''abcd'')))"
definition insertA :: "aux_op atom" where "insertA = atom text_hash (text_id 4) (Some valueA) (insertOp 2 ''XY'')"

definition text_atoms :: "aux_op atom list" where "text_atoms = [botA, tagA, valueA, insertA]"

definition text_weave :: "aux_op weave" where
  "text_weave = the (insert_all (insert_weave text_hash) (new_weave None) text_atoms)"

definition text_tree1 :: "aux_op ctree" where "text_tree1 = CNode valueA [CNode insertA []]"

definition text_doc :: aux_tree where
  "text_doc = \<lparr>tree_weave = text_weave, tree_site = \<lparr>site_id = ''s'', site_time = 4\<rparr>, tree_remoteSite = None,
     tree_version = Map.empty\<rparr>"




lemma text_tree1: "text_tree text_tree1"
  by code_simp



section \<open>The text of a value\<close>






text \<open>C12: The edit that is reported for an insertion, from the segments with the new atom, makes the new text of the
  old one. The new atom has nothing below it and may come in any order, before or behind its siblings.\<close>

theorem reported_insert_makes_text:
  assumes "text_tree t" and "text_tree (tree_insert c a t)" and "c \<in> set (preorder t)" and "c = root_atom t \<or> \<not> is_delete c"
    and "a \<notin> set (preorder t)" and "val a = TextInsertOp i s" and "s \<noteq> []" and "NUL \<notin> set s"
    and "calculateOrderedEdits (noded ad (preorder t)) False = Some es"
    and "calculateOrderedEdits (noded ad (preorder (tree_insert c a t))) False = Some es'"
  shows "apply_ops (concat (map tx_text es)) 0 (insert_edit_ops es' a s) = concat (map tx_text es')"
proof -
  have tree: "text_below t" "distinct (map okey (preorder t))" using assms(1) by (simp_all add: text_tree_def)
  obtain us vs where uv: "tree_tokens t = us @ vs" "tree_tokens (tree_insert c a t) = us @ new_tokens a @ vs"
    using insert_leaf_tokens[OF tree assms(3,4,6,5)] by blast
  obtain ss where ss: "es = text_segments ss" "all_tokens ss = tree_tokens t" using ordered_edits[OF assms(1), of ad] assms(9) by auto
  obtain ss' where ss': "es' = text_segments ss'" "all_tokens ss' = tree_tokens (tree_insert c a t)"
    using ordered_edits[OF assms(2), of ad] assms(10) by auto
  have us: "\<forall>x\<in>set us. fst (fst x) \<noteq> a" using token_nodes[of _ t] uv(1) assms(5) by (metis UnCI set_append)
  have "visible s = s" using assms(8) by (auto simp: visible_def filter_id_conv)
  moreover have "concat (map tx_text es) = shown us @ shown vs" using text_segments_shown[of ss] ss uv(1) by simp
  moreover have "concat (map tx_text (takeWhile (\<lambda>e. snd (tx_node e) \<noteq> a) es')) = shown us"
    using reported_count[of ss' us a vs i s] ss' uv(2) us assms(6-8) by simp
  moreover have "concat (map tx_text es') = shown us @ visible s @ shown vs"
    using text_segments_shown[of ss'] ss' uv(2) shown_new[OF assms(6)] by simp
  ultimately show ?thesis using apply_insert_ops[of "length (shown us)" "shown us @ shown vs" s]
    by (simp add: insert_edit_ops_def Let_def)
qed

text \<open>An insertion that came earlier, and is received later, at the index of the other one.\<close>

definition insertB :: "aux_op atom" where "insertB = atom text_hash (atomId ''r'' 4 Undefined Undefined) (Some valueA) (insertOp 2 ''pq'')"

lemma reported_insert_makes_text_witness:
  "\<exists>es'. calculateOrderedEdits (noded (\<lambda>_. 0) (preorder (tree_insert valueA insertB text_tree1))) False = Some es' \<and>
    apply_ops ''abXYcd'' 0 (insert_edit_ops es' insertB ''pq'') = ''abpqXYcd''"
proof -
  have c: "text_tree (tree_insert valueA insertB text_tree1)" "valueA \<in> set (preorder text_tree1)" "valueA = root_atom text_tree1"
    "insertB \<notin> set (preorder text_tree1)" "val insertB = TextInsertOp 2 ''pq''" "NUL \<notin> set ''pq''"
    "map_option (\<lambda>es. concat (map tx_text es)) (calculateOrderedEdits (noded (\<lambda>_. 0) (preorder text_tree1)) False) = Some ''abXYcd''"
    "map_option (\<lambda>es. concat (map tx_text es))
      (calculateOrderedEdits (noded (\<lambda>_. 0) (preorder (tree_insert valueA insertB text_tree1))) False) = Some ''abpqXYcd''"
    by code_simp+
  then obtain es es' where "calculateOrderedEdits (noded (\<lambda>_. 0) (preorder text_tree1)) False = Some es"
      "calculateOrderedEdits (noded (\<lambda>_. 0) (preorder (tree_insert valueA insertB text_tree1))) False = Some es'"
      "concat (map tx_text es) = ''abXYcd''" "concat (map tx_text es') = ''abpqXYcd''" by auto
  with reported_insert_makes_text[OF text_tree1 c(1,2) disjI1[OF c(3)] c(4,5) _ c(6), of "\<lambda>_. 0" es es'] show ?thesis by auto
qed

text \<open>The text depends on the atoms only: two weaves in which a value has the same atoms below it, each in the place
  of its causal tree, show the same text.\<close>

theorem same_atoms_same_text:
  assumes "text_at w t" and "text_at w' t'" and "getNode w (aid (root_atom t)) = Some n" and "getNode w' (aid (root_atom t')) = Some n'"
    and "root_atom t = root_atom t'" and "set (preorder t) = set (preorder t')"
  shows "calculateFinalEditValue (heap w) n = calculateFinalEditValue (heap w') n'"
proof -
  have t: "text_tree t" "text_tree t'" using assms(1,2) by (simp_all add: text_at_def)
  then have "t = t'" using wf_ctree_unique[of t t'] assms(5,6) by (simp add: text_tree_def)
  moreover obtain ad where "group_nodes (heap w) n = Some (noded ad (preorder t))" using text_group[OF assms(1)] assms(3) by auto
  moreover obtain ad' where "group_nodes (heap w') n' = Some (noded ad' (preorder t'))" using text_group[OF assms(2)] assms(4) by auto
  ultimately show ?thesis using final_value[OF t(1)] final_value[OF t(2)] by simp
qed


definition text_weave_of :: "aux_op atom list \<Rightarrow> aux_op weave" where
  "text_weave_of as = the (insert_all (insert_weave text_hash) (new_weave None) as)"

lemma text_weave_of_ok: "causal_seq text_hash [] as \<Longrightarrow> weave_ok (text_weave_of as)"
  using wv.accepts[of text_hash as None] by (auto simp: text_weave_of_def)

lemma text_at_weave_of:
  assumes "as = [botA, tagA, valueA, insertA, insertB] \<or> as = [botA, tagA, valueA, insertB, insertA]"
  shows "text_at (text_weave_of as) (tree_insert valueA insertB text_tree1)"
  unfolding text_at_def
proof (intro conjI exI)
  have "causal_seq text_hash [] [botA, tagA, valueA, insertA, insertB]" "causal_seq text_hash [] [botA, tagA, valueA, insertB, insertA]"
    by code_simp+
  with assms show "weave_ok (text_weave_of as)" using text_weave_of_ok by blast
  have "weave_chains (text_weave_of [botA, tagA, valueA, insertA, insertB]) =
      Some ([] @ ([botA, tagA] @ preorder (tree_insert valueA insertB text_tree1) @ []) # [])"
    "weave_chains (text_weave_of [botA, tagA, valueA, insertB, insertA]) =
      Some ([] @ ([botA, tagA] @ preorder (tree_insert valueA insertB text_tree1) @ []) # [])"
    by code_simp+
  with assms show "weave_chains (text_weave_of as) = Some ([] @ ([botA, tagA] @ preorder (tree_insert valueA insertB text_tree1) @ []) # [])"
    by blast
  show "text_tree (tree_insert valueA insertB text_tree1)" by code_simp
qed simp

lemma same_atoms_same_text_witness:
  "calculateFinalEditValue (heap (text_weave_of [botA, tagA, valueA, insertA, insertB])) 2 =
     calculateFinalEditValue (heap (text_weave_of [botA, tagA, valueA, insertB, insertA])) 2"
proof -
  have "getNode (text_weave_of [botA, tagA, valueA, insertA, insertB]) (aid (root_atom (tree_insert valueA insertB text_tree1))) = Some 2"
    "getNode (text_weave_of [botA, tagA, valueA, insertB, insertA]) (aid (root_atom (tree_insert valueA insertB text_tree1))) = Some 2"
    by code_simp+
  then show ?thesis by (intro same_atoms_same_text[OF text_at_weave_of text_at_weave_of]) auto
qed

section \<open>Findings\<close>

text \<open>
  Within a group the index goes on by the length of an insertion, but the version does not see what was inserted: a second
  insertion of the group comes too late in the text.
\<close>

definition two_inserts :: tag_edit where
  "two_inserts = edits [(''s'', 4)] [[InsertOp ''1'', PreserveOp 1, InsertOp ''2'']]"

lemma second_insert_shifted:
  "map_option (\<lambda>(r, T). calculateFinalEditValue (heap (tree_weave T)) 2)
     (updateTag text_hash text_doc tagA (Some 2) (Val (EditV two_inserts))) = Some (Some ''1ab2XYcd'')"
  "applyEdit (Val (StrV ''abXYcd'')) two_inserts = ''1a2bXYcd''"
  by code_simp+

text \<open>
  The reported deletion of a range of a node that starts with characters that were deleted before, and has an insertion in
  it, takes a character of the insertion.
\<close>

definition plainV :: "aux_op atom" where "plainV = atom text_hash (text_id 1) None (valueOp (Val (StrV ''abcd'')))"
definition insertX :: "aux_op atom" where "insertX = atom text_hash (text_id 2) (Some plainV) (insertOp 2 ''X'')"
definition deleteB :: "aux_op atom" where
  "deleteB = atom text_hash (atomId ''s'' 3 (Val 1) Undefined) (Some plainV) (deleteOp (Some 1) (Some 2))"
definition deleteBC :: "aux_op atom" where
  "deleteBC = atom text_hash (atomId ''s'' 4 (Val 1) Undefined) (Some plainV) (deleteOp (Some 1) (Some 3))"

definition texts_of :: "aux_op atom list \<Rightarrow> string option" where
  "texts_of as = map_option (\<lambda>es. concat (map tx_text es)) (calculateOrderedEdits (noded (\<lambda>_. 0) as) True)"

lemma reported_delete_takes_insertion:
  "texts_of [plainV, deleteB, insertX] = Some ''aXcd''" "texts_of [plainV, deleteBC, deleteB, insertX] = Some ''aXd''"
  "map_option (\<lambda>es. delete_edit_ops es deleteBC (Some 1) (Some 3))
     (calculateOrderedEdits (noded (\<lambda>_. 0) [plainV, deleteB, insertX]) True) = Some [PreserveOp 1, DeleteOp 1]"
  "apply_ops ''aXcd'' 0 [PreserveOp 1, DeleteOp 1] = ''acd''"
  by code_simp+

text \<open>A value that is \<^verbatim>\<open>null\<close> has no text: the calculation of its segments throws.\<close>

lemma null_value_throws: "val (snd x) = ValueOp Null \<Longrightarrow> calculateOrderedEdits (x # xs) e = None"
  by (simp add: calculateOrderedEdits_def)

end
