(* ===== verification/AuxReducer.thy ===== *)
theory AuxReducer
  imports TextEdits AuxOps Weave2
begin

text \<open>
  What a change of the weave means for the bots: \<^verbatim>\<open>src/src/aux-common/aux-format-2/AuxWeaveReducer.ts\<close>. The result of
  an insertion or a removal becomes a change of a partial state, which collects the changes of a batch. \<open>None\<close> is an
  exception. The reducer changes the partial state that it is given and merges with lodash.
\<close>

section \<open>Parameters and merging\<close>

text \<open>
  Signatures, the id of a certificate's bot (a UUID made of its hash), the hash of a tag's value, the merge of two
  objects that are values of a tag, and an atom as the value of a tag.
\<close>

record 'b aux_env =
  ax_signer :: "'b signer"
  ax_uuidv5 :: "string \<Rightarrow> string"
  ax_getHash :: "string \<Rightarrow> string \<Rightarrow> tag_value \<Rightarrow> string"
  ax_merge :: "plain_value \<Rightarrow> plain_value \<Rightarrow> plain_value"
  ax_atomValue :: "aux_op atom \<Rightarrow> tag_value"

text \<open>
  \<^verbatim>\<open>merge\<close> of lodash: properties of the source are assigned, but \<^verbatim>\<open>undefined\<close> does not replace a property that is there, and an
  object is merged into one that is there.
\<close>

fun is_object :: "plain_value \<Rightarrow> bool" where
  "is_object (ObjectV _) = True"
| "is_object (EditV _) = True"
| "is_object (DateV _) = True"
| "is_object _ = False"

definition is_plain_object :: "plain_value \<Rightarrow> bool" where
  "is_plain_object v \<longleftrightarrow> (case v of ObjectV _ \<Rightarrow> True | EditV _ \<Rightarrow> True | _ \<Rightarrow> False)"

definition merge_value :: "'b aux_env \<Rightarrow> tag_value option \<Rightarrow> tag_value \<Rightarrow> tag_value" where
  "merge_value E old new =
     (case new of
        Undefined \<Rightarrow> (case old of None \<Rightarrow> Undefined | Some v \<Rightarrow> v)
      | Null \<Rightarrow> Null
      | Val y \<Rightarrow>
          (case old of
             Some (Val x) \<Rightarrow> Val (if is_plain_object y \<and> is_object x then ax_merge E x y else y)
           | _ \<Rightarrow> Val y))"

definition merge_obj :: "('v option \<Rightarrow> 'v \<Rightarrow> 'v) \<Rightarrow> 'v obj \<Rightarrow> 'v obj \<Rightarrow> 'v obj" where
  "merge_obj f x y = foldl (\<lambda>acc (k, v). AList.update k (f (map_of acc k) v) acc) x y"

definition merge_tags :: "'b aux_env \<Rightarrow> tags \<Rightarrow> tags \<Rightarrow> tags" where
  "merge_tags E = merge_obj (merge_value E)"

definition merge_field :: "('a obj \<Rightarrow> 'a obj \<Rightarrow> 'a obj) \<Rightarrow> 'a obj option \<Rightarrow> 'a obj option \<Rightarrow> 'a obj option" where
  "merge_field f old new = (case new of None \<Rightarrow> old | Some y \<Rightarrow> Some (f (or_empty old) y))"

definition merge_bot :: "'b aux_env \<Rightarrow> aux_bot \<Rightarrow> aux_bot \<Rightarrow> aux_bot" where
  "merge_bot E a b =
     \<lparr>ab_id = (if ab_id b = None then ab_id a else ab_id b),
      ab_space = (if ab_space b = None then ab_space a else ab_space b),
      ab_tags = merge_field (merge_tags E) (ab_tags a) (ab_tags b),
      ab_signatures = merge_field (merge_obj (\<lambda>_ v. v)) (ab_signatures a) (ab_signatures b),
      ab_values = merge_field (merge_tags E) (ab_values a) (ab_values b),
      ab_masks = merge_field (merge_obj (\<lambda>old. merge_tags E (or_empty old))) (ab_masks a) (ab_masks b)\<rparr>"

definition no_bot :: aux_bot where
  "no_bot = \<lparr>ab_id = None, ab_space = None, ab_tags = None, ab_signatures = None, ab_values = None, ab_masks = None\<rparr>"

definition lodashMerge :: "'b aux_env \<Rightarrow> partial_state \<Rightarrow> partial_state \<Rightarrow> partial_state" where
  "lodashMerge E st change =
     merge_obj (\<lambda>old new.
       (case new of
          None \<Rightarrow> None
        | Some b \<Rightarrow> Some (merge_bot E (case old of Some (Some a) \<Rightarrow> a | _ \<Rightarrow> no_bot) b))) st change"

section \<open>Changes\<close>

definition createBot :: "string \<Rightarrow> tags option \<Rightarrow> string option \<Rightarrow> aux_bot" where
  "createBot i ts space =
     no_bot\<lparr>ab_id := Some i, ab_tags := Some (or_empty ts), ab_space := (if given space then space else None)\<rparr>"

text \<open>The literals that the reducer merges: the value of a tag, of a tag mask, a signature, a bot that is gone.\<close>

definition tag_change :: "string \<Rightarrow> string \<Rightarrow> tag_value \<Rightarrow> partial_state" where
  "tag_change i t v = [(i, Some (no_bot\<lparr>ab_tags := Some [(t, v)]\<rparr>))]"

text \<open>A space that is missing is used as the name \<^verbatim>\<open>undefined\<close>.\<close>

definition space_name :: "string option \<Rightarrow> string" where
  "space_name space = (case space of None \<Rightarrow> ''undefined'' | Some s \<Rightarrow> s)"

definition mask_change :: "string \<Rightarrow> string option \<Rightarrow> string \<Rightarrow> tag_value \<Rightarrow> partial_state" where
  "mask_change i space t v = [(i, Some (no_bot\<lparr>ab_masks := Some [(space_name space, [(t, v)])]\<rparr>))]"

definition signature_change :: "string \<Rightarrow> string \<Rightarrow> string option \<Rightarrow> partial_state" where
  "signature_change i h v = [(i, Some (no_bot\<lparr>ab_signatures := Some [(h, v)]\<rparr>))]"

text \<open>\<^verbatim>\<open>state?.[id]?.tags?.[tag]\<close>; what is missing is \<^verbatim>\<open>undefined\<close>.\<close>

definition changed_tag :: "partial_state \<Rightarrow> string \<Rightarrow> string \<Rightarrow> tag_value" where
  "changed_tag st i t =
     (case map_of st i of
        Some (Some b) \<Rightarrow> (case map_of (or_empty (ab_tags b)) t of Some v \<Rightarrow> v | None \<Rightarrow> Undefined)
      | _ \<Rightarrow> Undefined)"

definition changed_mask :: "partial_state \<Rightarrow> string \<Rightarrow> string option \<Rightarrow> string \<Rightarrow> tag_value" where
  "changed_mask st i space t =
     (case map_of st i of
        Some (Some b) \<Rightarrow>
          (case map_of (or_empty (map_of (or_empty (ab_masks b)) (space_name space))) t of Some v \<Rightarrow> v | None \<Rightarrow> Undefined)
      | _ \<Rightarrow> Undefined)"

section \<open>Reading the weave\<close>

definition op_of :: "edit_node \<Rightarrow> aux_op" where "op_of n = val (snd n)"

definition node_of :: "aux_op weave \<Rightarrow> nat \<Rightarrow> edit_node option" where
  "node_of w n = map_option (\<lambda>a. (n, a)) (node_at w n)"

text \<open>The nodes from an atom to its root; an exception of the weave is one of the reducer.\<close>

definition chain_of :: "aux_op weave \<Rightarrow> atom_id option \<Rightarrow> edit_node list option" where
  "chain_of w i =
     (case i of
        None \<Rightarrow> Some []
      | Some j \<Rightarrow> do { r \<leftarrow> referenceChain w j; case r of Inl _ \<Rightarrow> None | Inr ns \<Rightarrow> nodes_at (heap w) ns })"

definition cause_node :: "aux_op weave \<Rightarrow> aux_op atom \<Rightarrow> edit_node option option" where
  "cause_node w a =
     (case cause a of
        None \<Rightarrow> Some None
      | Some i \<Rightarrow> (case getNode w i of None \<Rightarrow> Some None | Some n \<Rightarrow> map_option Some (node_of w n)))"

definition first_in_group :: "aux_op weave \<Rightarrow> nat \<Rightarrow> edit_node option option" where
  "first_in_group w n = do { g \<leftarrow> iterateCausalGroup (heap w) n; ns \<leftarrow> nodes_at (heap w) g; Some (first ns) }"

text \<open>A bot that nothing was put below throws.\<close>

definition isBotDeleted :: "aux_op weave \<Rightarrow> edit_node \<Rightarrow> bool option" where
  "isBotDeleted w bn = do { x \<leftarrow> first_in_group w (fst bn); n \<leftarrow> x; Some (is_delete (snd n)) }"

section \<open>Bots and values\<close>

definition addBot :: "'b aux_env \<Rightarrow> aux_op atom \<Rightarrow> string \<Rightarrow> partial_state \<Rightarrow> string option \<Rightarrow> partial_state" where
  "addBot E a i st space = (if cause a \<noteq> None then st else lodashMerge E st [(i, Some (createBot i None space))])"

definition deleteBot :: "'b aux_env \<Rightarrow> string \<Rightarrow> partial_state \<Rightarrow> partial_state" where
  "deleteBot E i st = lodashMerge E st [(i, None)]"

definition deleteBotReducer ::
    "'b aux_env \<Rightarrow> aux_op weave \<Rightarrow> edit_node \<Rightarrow> string \<Rightarrow> aux_op atom \<Rightarrow> partial_state \<Rightarrow> partial_state option" where
  "deleteBotReducer E w bn i a st =
     do { x \<leftarrow> first_in_group w (fst bn);
          Some (if (case x of None \<Rightarrow> False | Some n \<Rightarrow> ahash (snd n) \<noteq> ahash a) then st else deleteBot E i st) }"

definition tagMaskValueAtomAddedReducer ::
    "'b aux_env \<Rightarrow> aux_op weave \<Rightarrow> aux_op atom \<Rightarrow> tag_value \<Rightarrow> edit_node \<Rightarrow> string \<Rightarrow> string \<Rightarrow> partial_state \<Rightarrow> string option
      \<Rightarrow> partial_state option" where
  "tagMaskValueAtomAddedReducer E w a v tag i t st space =
     (if \<not> given space \<or> t = [] then Some st
      else do { x \<leftarrow> first_in_group w (fst tag);
                Some (if (case x of None \<Rightarrow> False | Some n \<Rightarrow> ahash (snd n) \<noteq> ahash a) then st
                      else lodashMerge E st (mask_change i space t (if hasValue v then v else Null))) })"

text \<open>Whether one of the certificates has a signature of the value with the hash.\<close>

fun signs :: "aux_op weave \<Rightarrow> string \<Rightarrow> nat list \<Rightarrow> bool option" where
  "signs w h [] = Some False"
| "signs w h (r # rs) =
     do { cs \<leftarrow> iterateChildren (heap w) r;
          as \<leftarrow> atoms_at w cs;
          if \<exists>a\<in>set as. case val a of SignatureOp _ h1 _ \<Rightarrow> h1 = h | _ \<Rightarrow> False then Some True else signs w h rs }"

fun certificate_roots :: "aux_op weave \<Rightarrow> nat list \<Rightarrow> nat list option" where
  "certificate_roots w [] = Some []"
| "certificate_roots w (r # rs) =
     do { a \<leftarrow> node_at w r; cs \<leftarrow> certificate_roots w rs;
          Some (case val a of CertificateOp _ _ \<Rightarrow> r # cs | _ \<Rightarrow> cs) }"

text \<open>The signature of the value that the new one replaces is taken away.\<close>

definition replaced_signature ::
    "'b aux_env \<Rightarrow> aux_op weave \<Rightarrow> edit_node \<Rightarrow> string \<Rightarrow> string \<Rightarrow> partial_state \<Rightarrow> partial_state option" where
  "replaced_signature E w firstValue i t st =
     do { sibs \<leftarrow> iterateSiblings (heap w) (fst firstValue);
          ns \<leftarrow> nodes_at (heap w) sibs;
          (case first ns of
             None \<Rightarrow> Some st
           | Some s \<Rightarrow>
               (case op_of s of
                  ValueOp x \<Rightarrow>
                    do { rs \<leftarrow> certificate_roots w (roots w);
                         b \<leftarrow> signs w (ahash (snd s)) rs;
                         Some (if b then lodashMerge E st (signature_change i (tagValueHash (ax_getHash E) i t x) None) else st) }
                | _ \<Rightarrow> Some st)) }"

definition valueAtomAddedReducer ::
    "'b aux_env \<Rightarrow> aux_op weave \<Rightarrow> aux_op atom \<Rightarrow> tag_value \<Rightarrow> partial_state \<Rightarrow> string option \<Rightarrow> partial_state option" where
  "valueAtomAddedReducer E w a v st space =
     do { ns \<leftarrow> chain_of w (Some (aid a));
          (case ns of
             _ # tag # rest \<Rightarrow>
               (case op_of tag of
                  TagMaskOp i t \<Rightarrow> tagMaskValueAtomAddedReducer E w a v tag i t st space
                | TagOp t \<Rightarrow>
                    (case rest of
                       bn # _ \<Rightarrow>
                         (case op_of bn of
                            BotOp i \<Rightarrow>
                              if t = [] then Some st
                              else do {
                                x \<leftarrow> first_in_group w (fst tag);
                                if (case x of None \<Rightarrow> False | Some n \<Rightarrow> ahash (snd n) \<noteq> ahash a) then Some st
                                else do {
                                  gone \<leftarrow> isBotDeleted w bn;
                                  if gone then Some st
                                  else do {
                                    firstValue \<leftarrow> x;
                                    st1 \<leftarrow> replaced_signature E w firstValue i t st;
                                    Some (lodashMerge E st1 (tag_change i t (if hasValue v then v else Null))) } } }
                          | _ \<Rightarrow> Some st)
                     | [] \<Rightarrow> Some st)
                | _ \<Rightarrow> Some st)
           | _ \<Rightarrow> Some st) }"

section \<open>Texts\<close>

text \<open>The second, the first and the third node from the root.\<close>

definition getTextEditNodes ::
    "aux_op weave \<Rightarrow> aux_op atom \<Rightarrow> (edit_node option \<times> edit_node \<times> edit_node option) option" where
  "getTextEditNodes w a =
     do { ns \<leftarrow> chain_of w (Some (aid a));
          if ns = [] then None else Some (nth_of (rev ns) 1, last ns, nth_of (rev ns) 2) }"

text \<open>The value that the update holds for the tag, if any, with the edit.\<close>

definition edit_again :: "tag_value \<Rightarrow> tag_edit \<Rightarrow> tag_value" where
  "edit_again old e =
     (case old of
        Val (EditV x) \<Rightarrow> Val (EditV (mergeEdits x e))
      | _ \<Rightarrow> if hasValue old then applyTagEdit old e else Val (EditV e))"

definition atom_edit :: "aux_op atom \<Rightarrow> tag_op list \<Rightarrow> tag_edit" where
  "atom_edit a ops = edit [(site (aid a), timestamp (aid a))] ops"

definition report_tag_edit ::
    "'b aux_env \<Rightarrow> string \<Rightarrow> string \<Rightarrow> aux_op atom \<Rightarrow> tag_op list \<Rightarrow> partial_state \<Rightarrow> partial_state" where
  "report_tag_edit E i t a ops st = lodashMerge E st (tag_change i t (edit_again (changed_tag st i t) (atom_edit a ops)))"

definition report_mask_edit ::
    "'b aux_env \<Rightarrow> string option \<Rightarrow> string \<Rightarrow> string \<Rightarrow> aux_op atom \<Rightarrow> tag_op list \<Rightarrow> partial_state \<Rightarrow> partial_state" where
  "report_mask_edit E space i t a ops st =
     lodashMerge E st (mask_change i space t (edit_again (changed_mask st i space t) (atom_edit a ops)))"

definition insertion_ops :: "aux_op weave \<Rightarrow> nat \<Rightarrow> aux_op atom \<Rightarrow> string \<Rightarrow> tag_op list option" where
  "insertion_ops w n a s =
     do { ns \<leftarrow> group_nodes (heap w) n; es \<leftarrow> calculateOrderedEdits ns False; Some (insert_edit_ops es a s) }"

definition deletion_ops :: "aux_op weave \<Rightarrow> nat \<Rightarrow> aux_op atom \<Rightarrow> int option \<Rightarrow> int option \<Rightarrow> tag_op list option" where
  "deletion_ops w n a b e =
     do { ns \<leftarrow> group_nodes (heap w) n;
          es \<leftarrow> calculateOrderedEdits (filter (\<lambda>m. \<not> idEquals (Some (aid (snd m))) (Some (aid a))) ns) True;
          Some (delete_edit_ops es a b e) }"

definition insertTagMaskAtomAddedReducer ::
    "'b aux_env \<Rightarrow> aux_op weave \<Rightarrow> aux_op atom \<Rightarrow> string \<Rightarrow> partial_state \<Rightarrow> string option \<Rightarrow> string \<Rightarrow> string \<Rightarrow> edit_node
      \<Rightarrow> partial_state option" where
  "insertTagMaskAtomAddedReducer E w a s st space i t v =
     (if i = [] \<or> t = [] then Some st
      else (case op_of v of
              ValueOp _ \<Rightarrow> do { ops \<leftarrow> insertion_ops w (fst v) a s; Some (report_mask_edit E space i t a ops st) }
            | _ \<Rightarrow> Some st))"

definition insertAtomAddedReducer ::
    "'b aux_env \<Rightarrow> aux_op weave \<Rightarrow> aux_op atom \<Rightarrow> string \<Rightarrow> partial_state \<Rightarrow> string option \<Rightarrow> partial_state option" where
  "insertAtomAddedReducer E w a s st space =
     do { (tag, bn, v) \<leftarrow> getTextEditNodes w a;
          (case tag of
             None \<Rightarrow> Some st
           | Some tg \<Rightarrow>
               (case op_of bn of
                  TagMaskOp i t \<Rightarrow> insertTagMaskAtomAddedReducer E w a s st space i t tg
                | BotOp i \<Rightarrow>
                    (case op_of tg of
                       TagOp t \<Rightarrow>
                         if t = [] then Some st
                         else do { n \<leftarrow> v; ops \<leftarrow> insertion_ops w (fst n) a s; Some (report_tag_edit E i t a ops st) }
                     | _ \<Rightarrow> Some st)
                | _ \<Rightarrow> Some st)) }"

definition deleteTagMaskTextReducer ::
    "'b aux_env \<Rightarrow> aux_op weave \<Rightarrow> aux_op atom \<Rightarrow> int option \<Rightarrow> int option \<Rightarrow> partial_state \<Rightarrow> string option \<Rightarrow> string \<Rightarrow> string
      \<Rightarrow> edit_node \<Rightarrow> partial_state option" where
  "deleteTagMaskTextReducer E w a b e st space i t v =
     (case op_of v of
        ValueOp _ \<Rightarrow>
          if i = [] \<or> t = [] then Some st
          else do { ops \<leftarrow> deletion_ops w (fst v) a b e; Some (if ops = [] then st else report_mask_edit E space i t a ops st) }
      | _ \<Rightarrow> Some st)"

definition deleteTextReducer ::
    "'b aux_env \<Rightarrow> aux_op weave \<Rightarrow> aux_op atom \<Rightarrow> int option \<Rightarrow> int option \<Rightarrow> partial_state \<Rightarrow> string option
      \<Rightarrow> partial_state option" where
  "deleteTextReducer E w a b e st space =
     do { (tag, bn, v) \<leftarrow> getTextEditNodes w a;
          (case tag of
             None \<Rightarrow> Some st
           | Some tg \<Rightarrow>
               (case op_of bn of
                  TagMaskOp i t \<Rightarrow> deleteTagMaskTextReducer E w a b e st space i t tg
                | BotOp i \<Rightarrow>
                    (case op_of tg of
                       TagOp t \<Rightarrow>
                         if t = [] then Some st
                         else do { n \<leftarrow> v; ops \<leftarrow> deletion_ops w (fst n) a b e;
                                   Some (if ops = [] then st else report_tag_edit E i t a ops st) }
                     | _ \<Rightarrow> Some st)
                | _ \<Rightarrow> Some st)) }"

definition deleteAtomAddedReducer ::
    "'b aux_env \<Rightarrow> aux_op weave \<Rightarrow> aux_op atom \<Rightarrow> int option \<Rightarrow> int option \<Rightarrow> partial_state \<Rightarrow> string option
      \<Rightarrow> partial_state option" where
  "deleteAtomAddedReducer E w a b e st space =
     do { p \<leftarrow> cause_node w a;
          (case p of
             None \<Rightarrow> Some st
           | Some n \<Rightarrow>
               (case op_of n of
                  BotOp i \<Rightarrow> deleteBotReducer E w n i a st
                | TextInsertOp _ _ \<Rightarrow> deleteTextReducer E w a b e st space
                | ValueOp _ \<Rightarrow> deleteTextReducer E w a b e st space
                | _ \<Rightarrow> Some st)) }"

section \<open>Certificates and signatures\<close>

definition certificateId :: "'b aux_env \<Rightarrow> aux_op atom \<Rightarrow> string" where
  "certificateId E a = ax_uuidv5 E (ahash a)"

definition CERTIFIED_SPACE :: string where "CERTIFIED_SPACE = ''certified''"

text \<open>The first certificate above (or at) the atom whose hash the revocation names must have signed it.\<close>

definition isRevocationValid :: "'b aux_env \<Rightarrow> aux_op weave \<Rightarrow> aux_op atom \<Rightarrow> aux_op atom \<Rightarrow> bool option" where
  "isRevocationValid E w r parent =
     do { ns \<leftarrow> chain_of w (Some (aid parent));
          Some (case find (\<lambda>n. (case op_of n of CertificateOp _ _ \<Rightarrow> True | _ \<Rightarrow> False) \<and>
                      (case val r of RevocationOp _ h _ \<Rightarrow> ahash (snd n) = h | _ \<Rightarrow> False)) ns of
                  None \<Rightarrow> False
                | Some n \<Rightarrow> validateRevocation (ax_signer E) (snd n) r parent) }"

fun any_revocation :: "'b aux_env \<Rightarrow> aux_op weave \<Rightarrow> aux_op atom \<Rightarrow> aux_op atom list \<Rightarrow> bool option" where
  "any_revocation E w c [] = Some False"
| "any_revocation E w c (a # as) =
     (case val a of
        RevocationOp _ _ _ \<Rightarrow> do { b \<leftarrow> isRevocationValid E w a c; if b then Some True else any_revocation E w c as }
      | _ \<Rightarrow> any_revocation E w c as)"

definition isCertDirectlyRevoked :: "'b aux_env \<Rightarrow> aux_op weave \<Rightarrow> edit_node \<Rightarrow> bool option" where
  "isCertDirectlyRevoked E w c =
     do { ns \<leftarrow> iterateChildren (heap w) (fst c); as \<leftarrow> atoms_at w ns; any_revocation E w (snd c) as }"

text \<open>The certificates above one, up to the root, each signing the one below and not revoked.\<close>

fun chain_valid :: "'b aux_env \<Rightarrow> aux_op weave \<Rightarrow> aux_op atom \<Rightarrow> edit_node list \<Rightarrow> bool option" where
  "chain_valid E w signee [] =
     (if cause signee \<noteq> None \<or> \<not> validateCertSignature (ax_signer E) None signee then Some False
      else do { n \<leftarrow> getNode w (aid signee); m \<leftarrow> node_of w n; r \<leftarrow> isCertDirectlyRevoked E w m; Some (\<not> r) })"
| "chain_valid E w signee (n # ns) =
     (case op_of n of
        CertificateOp _ _ \<Rightarrow>
          if \<not> validateCertSignature (ax_signer E) (Some (snd n)) signee then Some False
          else do { r \<leftarrow> isCertDirectlyRevoked E w n; if r then Some False else chain_valid E w (snd n) ns }
      | _ \<Rightarrow> Some False)"

definition isCertificateChainValid :: "'b aux_env \<Rightarrow> aux_op weave \<Rightarrow> aux_op atom \<Rightarrow> bool option" where
  "isCertificateChainValid E w a = do { ns \<leftarrow> chain_of w (cause a); chain_valid E w a ns }"

text \<open>The bot of a certificate is named by its hash; a certificate without a cause signs itself.\<close>

definition certificateAtomAddedReducer ::
    "'b aux_env \<Rightarrow> aux_op weave \<Rightarrow> aux_op atom \<Rightarrow> string \<Rightarrow> string option \<Rightarrow> partial_state \<Rightarrow> partial_state option" where
  "certificateAtomAddedReducer E w a k s st =
     do { signer \<leftarrow> (if cause a \<noteq> None
             then do { ok \<leftarrow> isCertificateChainValid E w a;
                       if ok then do { p \<leftarrow> cause_node w a; n \<leftarrow> p; Some (Some (certificateId E (snd n))) } else Some None }
             else Some (if validateCertSignature (ax_signer E) None a then Some (certificateId E a) else None));
          Some (case signer of
             None \<Rightarrow> st
           | Some j \<Rightarrow>
               lodashMerge E st [(certificateId E a, Some (createBot (certificateId E a)
                 (Some [(''keypair'', Val (StrV k)), (''signature'', case s of None \<Rightarrow> Null | Some x \<Rightarrow> Val (StrV x)),
                        (''signingCertificate'', Val (StrV j)), (''atom'', ax_atomValue E a)]) (Some CERTIFIED_SPACE)))]) }"

text \<open>The value that a signature names, with its tag and its bot.\<close>

definition signed_nodes ::
    "aux_op weave \<Rightarrow> atom_id \<Rightarrow> string \<Rightarrow> (edit_node \<times> string \<times> edit_node \<times> string) option option" where
  "signed_nodes w i h =
     do { ns \<leftarrow> chain_of w (Some i);
          Some (case ns of
             v # tag # bn # _ \<Rightarrow>
               if ahash (snd v) \<noteq> h then None
               else (case (op_of tag, op_of bn) of (TagOp t, BotOp b) \<Rightarrow> Some (v, t, bn, b) | _ \<Rightarrow> None)
           | _ \<Rightarrow> None) }"

definition signatureAtomAddedReducer ::
    "'b aux_env \<Rightarrow> aux_op weave \<Rightarrow> aux_op atom \<Rightarrow> atom_id \<Rightarrow> string \<Rightarrow> partial_state \<Rightarrow> partial_state option" where
  "signatureAtomAddedReducer E w a i h st =
     do { p \<leftarrow> cause_node w a;
          (case p of
             None \<Rightarrow> Some st
           | Some c \<Rightarrow>
               (case op_of c of
                  CertificateOp _ _ \<Rightarrow> do {
                    r \<leftarrow> signed_nodes w i h;
                    (case r of
                       None \<Rightarrow> Some st
                     | Some (v, t, bn, b) \<Rightarrow>
                         if t = [] then Some st
                         else do {
                           gone \<leftarrow> isBotDeleted w bn;
                           if gone then Some st
                           else do {
                             ok \<leftarrow> isCertificateChainValid E w (snd c);
                             Some (if \<not> ok \<or> \<not> validateSignedValue (ax_signer E) (snd c) a (snd v) then st
                               else lodashMerge E st (signature_change b (tagValueHash (ax_getHash E) b t
                                 (case op_of v of ValueOp x \<Rightarrow> x | _ \<Rightarrow> Undefined)) (Some t))) } }) }
                | _ \<Rightarrow> Some st)) }"

definition signatureRemovedAtomReducer ::
    "'b aux_env \<Rightarrow> aux_op weave \<Rightarrow> atom_id \<Rightarrow> string \<Rightarrow> partial_state \<Rightarrow> partial_state option" where
  "signatureRemovedAtomReducer E w i h st =
     do { r \<leftarrow> signed_nodes w i h;
          Some (case r of
             None \<Rightarrow> st
           | Some (v, t, _, b) \<Rightarrow>
               (case op_of v of
                  ValueOp x \<Rightarrow> lodashMerge E st (signature_change b (tagValueHash (ax_getHash E) b t x) None)
                | _ \<Rightarrow> st)) }"

text \<open>A certificate that is removed takes everything in its causal group with it, and so does every certificate in there.\<close>

partial_function (option) certificates_removed ::
    "'b aux_env \<Rightarrow> aux_op weave \<Rightarrow> nat list \<Rightarrow> partial_state \<Rightarrow> partial_state option" where
  "certificates_removed E w ns st =
     (case ns of
        [] \<Rightarrow> Some st
      | n # rest \<Rightarrow> do {
          a \<leftarrow> node_at w n;
          st1 \<leftarrow> (case val a of
                    CertificateOp _ _ \<Rightarrow> do {
                      g \<leftarrow> iterateCausalGroup (heap w) n;
                      certificates_removed E w g (lodashMerge E st [(certificateId E a, None)]) }
                  | SignatureOp i h _ \<Rightarrow> signatureRemovedAtomReducer E w i h st
                  | _ \<Rightarrow> Some st);
          certificates_removed E w rest st1 })"

declare certificates_removed.simps [code]

definition certificateRemovedAtomReducer ::
    "'b aux_env \<Rightarrow> aux_op weave \<Rightarrow> aux_op atom \<Rightarrow> nat \<Rightarrow> partial_state \<Rightarrow> partial_state option" where
  "certificateRemovedAtomReducer E w a n st =
     do { g \<leftarrow> iterateCausalGroup (heap w) n; certificates_removed E w g (lodashMerge E st [(certificateId E a, None)]) }"

definition revocationRemovedAtomReducer ::
    "'b aux_env \<Rightarrow> aux_op weave \<Rightarrow> aux_op atom \<Rightarrow> partial_state \<Rightarrow> partial_state option" where
  "revocationRemovedAtomReducer E w a st =
     do { p \<leftarrow> cause_node w a;
          (case p of
             None \<Rightarrow> Some st
           | Some n \<Rightarrow>
               (case op_of n of
                  CertificateOp k s \<Rightarrow> certificateAtomAddedReducer E w (snd n) k s st
                | _ \<Rightarrow> Some st)) }"

definition revokeAtomAddedReducer ::
    "'b aux_env \<Rightarrow> aux_op weave \<Rightarrow> aux_op atom \<Rightarrow> partial_state \<Rightarrow> partial_state option" where
  "revokeAtomAddedReducer E w a st =
     do { p \<leftarrow> cause_node w a;
          (case p of
             None \<Rightarrow> Some st
           | Some n \<Rightarrow>
               (case op_of n of
                  CertificateOp _ _ \<Rightarrow> do {
                    ok \<leftarrow> isRevocationValid E w a (snd n);
                    if ok then certificateRemovedAtomReducer E w (snd n) (fst n) st else Some st }
                | SignatureOp i h _ \<Rightarrow> do {
                    ok \<leftarrow> isRevocationValid E w a (snd n);
                    if ok then signatureRemovedAtomReducer E w i h st else Some st }
                | _ \<Rightarrow> Some st)) }"

section \<open>The reducer\<close>

definition atomAddedReducer ::
    "'b aux_env \<Rightarrow> aux_op weave \<Rightarrow> aux_op atom \<Rightarrow> partial_state \<Rightarrow> string option \<Rightarrow> bool \<Rightarrow> partial_state option" where
  "atomAddedReducer E w a st space initial =
     (case val a of
        BotOp i \<Rightarrow> Some (addBot E a i st space)
      | ValueOp v \<Rightarrow> valueAtomAddedReducer E w a v st space
      | TextInsertOp _ s \<Rightarrow> if initial then Some st else insertAtomAddedReducer E w a s st space
      | TextDeleteOp b e \<Rightarrow> if initial \<and> b \<noteq> None then Some st else deleteAtomAddedReducer E w a b e st space
      | CertificateOp k s \<Rightarrow> certificateAtomAddedReducer E w a k s st
      | RevocationOp _ _ _ \<Rightarrow> revokeAtomAddedReducer E w a st
      | SignatureOp i h _ \<Rightarrow> signatureAtomAddedReducer E w a i h st
      | _ \<Rightarrow> Some st)"

text \<open>The object that is returned: the state it was given, or a new one for what it does not handle.\<close>

definition returns_state :: "aux_op atom \<Rightarrow> bool \<Rightarrow> bool" where
  "returns_state a initial =
     (case val a of
        TagOp _ \<Rightarrow> False
      | TagMaskOp _ _ \<Rightarrow> False
      | TextInsertOp _ _ \<Rightarrow> \<not> initial
      | TextDeleteOp b _ \<Rightarrow> \<not> initial \<or> b = None
      | _ \<Rightarrow> True)"

fun atomsAddedReducer ::
    "'b aux_env \<Rightarrow> aux_op weave \<Rightarrow> aux_op atom list \<Rightarrow> partial_state \<Rightarrow> string option \<Rightarrow> bool \<Rightarrow> partial_state option" where
  "atomsAddedReducer E w [] st space initial = Some st"
| "atomsAddedReducer E w (a # as) st space initial =
     do { st1 \<leftarrow> atomAddedReducer E w a st space initial; atomsAddedReducer E w as st1 space initial }"

definition deleteTag :: "'b aux_env \<Rightarrow> string \<Rightarrow> string \<Rightarrow> partial_state \<Rightarrow> partial_state" where
  "deleteTag E t i st = lodashMerge E st (tag_change i t Null)"

fun delete_tags :: "'b aux_env \<Rightarrow> string \<Rightarrow> aux_op atom list \<Rightarrow> partial_state \<Rightarrow> partial_state" where
  "delete_tags E i [] st = st"
| "delete_tags E i (a # as) st = delete_tags E i as (case val a of TagOp t \<Rightarrow> deleteTag E t i st | _ \<Rightarrow> st)"

text \<open>What the atom that lost a conflict had brought is taken away.\<close>

definition loser_removed ::
    "'b aux_env \<Rightarrow> aux_op weave \<Rightarrow> aux_op atom \<Rightarrow> nat \<Rightarrow> partial_state \<Rightarrow> partial_state option" where
  "loser_removed E w lost ref st =
     (case val lost of
        BotOp i \<Rightarrow> do { ns \<leftarrow> iterateChildren (heap w) ref; as \<leftarrow> atoms_at w ns; Some (delete_tags E i as st) }
      | TagOp t \<Rightarrow> do {
          p \<leftarrow> cause_node w lost;
          n \<leftarrow> p;
          Some (case op_of n of BotOp i \<Rightarrow> deleteTag E t i st | _ \<Rightarrow> st) }
      | CertificateOp _ _ \<Rightarrow> certificateRemovedAtomReducer E w lost ref st
      | RevocationOp _ _ _ \<Rightarrow> revocationRemovedAtomReducer E w lost st
      | SignatureOp i h _ \<Rightarrow> signatureRemovedAtomReducer E w i h st
      | _ \<Rightarrow> Some st)"

definition conflictReducer ::
    "'b aux_env \<Rightarrow> aux_op weave \<Rightarrow> aux_op atom \<Rightarrow> aux_op atom \<Rightarrow> nat option \<Rightarrow> partial_state \<Rightarrow> string option \<Rightarrow> bool
      \<Rightarrow> partial_state option" where
  "conflictReducer E w won lost ref st space initial =
     (case ref of
        None \<Rightarrow> Some st
      | Some n \<Rightarrow> do { st1 \<leftarrow> loser_removed E w lost n st; atomAddedReducer E w won st1 space initial })"

text \<open>A value that was removed leaves the tag with the one that is first now, if that is not a later one.\<close>

definition valueRemovedAtomReducer ::
    "'b aux_env \<Rightarrow> aux_op weave \<Rightarrow> aux_op atom \<Rightarrow> partial_state \<Rightarrow> partial_state option" where
  "valueRemovedAtomReducer E w a st =
     do { ns \<leftarrow> chain_of w (cause a);
          (case ns of
             tag # bn # _ \<Rightarrow>
               (case (op_of bn, op_of tag) of
                  (BotOp i, TagOp t) \<Rightarrow>
                    if t = [] then Some st
                    else do {
                      gone \<leftarrow> isBotDeleted w bn;
                      if gone then Some st
                      else do {
                        x \<leftarrow> first_in_group w (fst tag);
                        Some (case map_option (\<lambda>n. (snd n, op_of n)) x of
                           Some (b, ValueOp v) \<Rightarrow>
                             if ahash b \<noteq> ahash a then
                               (if timestamp (aid b) \<le> timestamp (aid a) then lodashMerge E st (tag_change i t v) else st)
                             else lodashMerge E st (tag_change i t Null)
                         | _ \<Rightarrow> lodashMerge E st (tag_change i t Null)) } }
                | _ \<Rightarrow> Some st)
           | _ \<Rightarrow> Some st) }"

definition removeAtom_reducer :: "'b aux_env \<Rightarrow> aux_op weave \<Rightarrow> edit_node \<Rightarrow> partial_state \<Rightarrow> partial_state option" where
  "removeAtom_reducer E w n st =
     (case op_of n of
        BotOp i \<Rightarrow> Some (deleteBot E i st)
      | ValueOp _ \<Rightarrow> valueRemovedAtomReducer E w (snd n) st
      | CertificateOp _ _ \<Rightarrow> certificateRemovedAtomReducer E w (snd n) (fst n) st
      | RevocationOp _ _ _ \<Rightarrow> revocationRemovedAtomReducer E w (snd n) st
      | SignatureOp i h _ \<Rightarrow> signatureRemovedAtomReducer E w i h st
      | _ \<Rightarrow> Some st)"

fun remove_all :: "'b aux_env \<Rightarrow> aux_op weave \<Rightarrow> edit_node list \<Rightarrow> partial_state \<Rightarrow> partial_state option" where
  "remove_all E w [] st = Some st"
| "remove_all E w (n # ns) st = do { st1 \<leftarrow> removeAtom_reducer E w n st; remove_all E w ns st1 }"

text \<open>The first node that was removed and its siblings.\<close>

definition atomRemovedReducer :: "'b aux_env \<Rightarrow> aux_op weave \<Rightarrow> nat \<Rightarrow> partial_state \<Rightarrow> partial_state option" where
  "atomRemovedReducer E w n st =
     do { m \<leftarrow> node_of w n; sibs \<leftarrow> iterateSiblings (heap w) n; ns \<leftarrow> nodes_at (heap w) sibs; remove_all E w (m # ns) st }"

text \<open>The object that is returned, and the state that was given, changed.\<close>

definition reducer ::
    "'b aux_env \<Rightarrow> aux_op weave \<Rightarrow> aux_op weave_result \<Rightarrow> partial_state \<Rightarrow> string option \<Rightarrow> bool
      \<Rightarrow> (partial_state \<times> partial_state) option" where
  "reducer E w r st space initial =
     (case r of
        AtomAdded a \<Rightarrow> do {
          st1 \<leftarrow> atomAddedReducer E w a st space initial; Some (if returns_state a initial then st1 else [], st1) }
      | AtomsAdded as \<Rightarrow> do { st1 \<leftarrow> atomsAddedReducer E w as st space initial; Some (st1, st1) }
      | Conflict win lose ref \<Rightarrow> do { st1 \<leftarrow> conflictReducer E w win lose ref st space initial; Some (st1, st1) }
      | AtomRemoved n \<Rightarrow> do { st1 \<leftarrow> atomRemovedReducer E w n st; Some (st1, st1) }
      | _ \<Rightarrow> Some ([], st))"

end
