(* ===== verification/AuxTree.thy ===== *)
theory AuxTree
  imports AuxReducer TextUpdate
begin

text \<open>
  AUX trees: \<^verbatim>\<open>src/src/aux-common/aux-format-2/AuxCausalTree2.ts\<close>, a causal tree with the state of the bots that it stands
  for. Every operation on the tree is followed by the reducer, whose update is applied to the state. \<open>None\<close> is an exception.
\<close>

section \<open>Trees and results\<close>

record aux_doc =
  doc_tree :: aux_tree
  doc_state :: bots_state

text \<open>A result that nothing happened in has no site.\<close>

record aux_result =
  ar_results :: "aux_op weave_result list"
  ar_newSite :: "site_status option"
  ar_newRemoteSite :: "site_status option"
  ar_update :: partial_state

text \<open>The remote site is given, made of a random id, or left out.\<close>

definition auxTree :: "string \<Rightarrow> string option \<Rightarrow> string \<Rightarrow> bool + string option \<Rightarrow> aux_doc" where
  "auxTree uuid i uuid2 remote =
     \<lparr>doc_tree = new_tree uuid i None (case remote of Inl True \<Rightarrow> Some uuid2 | Inl False \<Rightarrow> None | Inr r \<Rightarrow> r), doc_state = []\<rparr>"

definition with_update :: "aux_op tree_result \<Rightarrow> partial_state \<Rightarrow> aux_result" where
  "with_update q u =
     \<lparr>ar_results = results q, ar_newSite = Some (result_site q), ar_newRemoteSite = result_remoteSite q, ar_update = u\<rparr>"

definition auxResultIdentity :: aux_result where
  "auxResultIdentity = \<lparr>ar_results = [], ar_newSite = None, ar_newRemoteSite = None, ar_update = []\<rparr>"

text \<open>The result of a change of the tree with the update for its first result.\<close>

definition reduced ::
    "'b aux_env \<Rightarrow> string option \<Rightarrow> ((js_error + aux_op tree_result) \<times> aux_tree) option \<Rightarrow> (aux_result \<times> aux_tree) option" where
  "reduced E space r =
     do { (x, T) \<leftarrow> r;
          (case x of
             Inl _ \<Rightarrow> None
           | Inr q \<Rightarrow> do { f \<leftarrow> first (results q); (u, _) \<leftarrow> reducer E (tree_weave T) f [] space False; Some (with_update q u, T) }) }"

definition addAuxAtom ::
    "aux_op hasher \<Rightarrow> 'b aux_env \<Rightarrow> aux_tree \<Rightarrow> aux_op atom option \<Rightarrow> aux_op \<Rightarrow> int js \<Rightarrow> string option \<Rightarrow> atom_cardinality js
      \<Rightarrow> (aux_result \<times> aux_tree) option" where
  "addAuxAtom H E T c v p space k = reduced E space (addAtom H T c v p k False)"

definition insertAuxAtom :: "aux_op hasher \<Rightarrow> 'b aux_env \<Rightarrow> aux_tree \<Rightarrow> aux_op atom \<Rightarrow> (aux_result \<times> aux_tree) option" where
  "insertAuxAtom H E T a = reduced E None (insertAtom H T a)"

definition removeAuxAtom :: "'b aux_env \<Rightarrow> aux_tree \<Rightarrow> string \<Rightarrow> (aux_result \<times> aux_tree) option" where
  "removeAuxAtom E T h =
     do { (q, T1) \<leftarrow> removeAtom T h;
          if results q = [] then Some (with_update q [], T1) else reduced E None (Some (Inr q, T1)) }"

text \<open>A result without a site would leave the tree without one.\<close>

definition applyAuxResult :: "aux_doc \<Rightarrow> aux_result \<Rightarrow> aux_doc option" where
  "applyAuxResult D r =
     do { s \<leftarrow> ar_newSite r;
          Some \<lparr>doc_tree = applyResult (doc_tree D)
                  \<lparr>results = ar_results r, result_site = s, result_remoteSite = ar_newRemoteSite r\<rparr>,
                doc_state = apply_state (doc_state D) (ar_update r)\<rparr> }"

section \<open>Atoms that are received\<close>

text \<open>
  \<^verbatim>\<open>getBotIdAndTagNameForEdit\<close>: the id of the bot, the tag, whether it is a mask, and the value. A missing id or name is empty.
\<close>

definition getBotIdAndTagNameForEdit ::
    "aux_op weave \<Rightarrow> aux_op atom \<Rightarrow> (string \<times> string \<times> bool \<times> edit_node option) option" where
  "getBotIdAndTagNameForEdit w a =
     do { (tag, b, v) \<leftarrow> getTextEditNodes w a;
          (case op_of b of
             BotOp i \<Rightarrow> do { n \<leftarrow> tag; Some (i, case op_of n of TagOp t \<Rightarrow> t | _ \<Rightarrow> [], False, v) }
           | TagMaskOp i t \<Rightarrow> Some (i, t, True, v)
           | _ \<Rightarrow> Some ([], [], False, v)) }"

type_synonym edited_tags = "(string \<times> string \<times> bool \<times> edit_node option) obj"

definition edited_tag :: "aux_op weave \<Rightarrow> aux_op atom \<Rightarrow> edited_tags \<Rightarrow> edited_tags option" where
  "edited_tag w a ed =
     do { (i, t, isMask, v) \<leftarrow> getBotIdAndTagNameForEdit w a;
          Some (if i = [] \<or> t = [] then ed else AList.update (i @ ''.'' @ t) (i, t, isMask, v) ed) }"

text \<open>On the first load, the tags whose text an atom edits are remembered.\<close>

definition note_edit :: "aux_op weave \<Rightarrow> aux_op atom \<Rightarrow> edited_tags \<Rightarrow> edited_tags option" where
  "note_edit w a ed =
     (case val a of
        TextInsertOp _ _ \<Rightarrow> edited_tag w a ed
      | TextDeleteOp _ _ \<Rightarrow> do {
          p \<leftarrow> cause_node w a;
          n \<leftarrow> p;
          (case op_of n of TextInsertOp _ _ \<Rightarrow> edited_tag w a ed | ValueOp _ \<Rightarrow> edited_tag w a ed | _ \<Rightarrow> Some ed) }
      | _ \<Rightarrow> Some ed)"

fun receive_atoms ::
    "aux_op hasher \<Rightarrow> 'b aux_env \<Rightarrow> string option \<Rightarrow> bool \<Rightarrow> aux_op atom list
      \<Rightarrow> aux_tree \<times> aux_op weave_result list \<times> partial_state \<times> edited_tags
      \<Rightarrow> (aux_tree \<times> aux_op weave_result list \<times> partial_state \<times> edited_tags) option" where
  "receive_atoms H E space initial [] s = Some s"
| "receive_atoms H E space initial (a # as) (T, rs, u, ed) =
     do { (r, w) \<leftarrow> weave_insert H (tree_weave T) a;
          (case r of
             Inl _ \<Rightarrow> None
           | Inr q \<Rightarrow> do {
               (_, u1) \<leftarrow> reducer E w q u space initial;
               (T1, ed1) \<leftarrow> (case addedWeaveAtoms q of
                   None \<Rightarrow> Some (T\<lparr>tree_weave := w\<rparr>, ed)
                 | Some added \<Rightarrow> do {
                     ed1 \<leftarrow> (if initial then note_edit w a ed else Some ed);
                     Some (track_atoms (T\<lparr>tree_weave := w\<rparr>) added, ed1) });
               receive_atoms H E space initial as (T1, rs @ [q], u1, ed1) }) }"

fun receive_removals ::
    "'b aux_env \<Rightarrow> string option \<Rightarrow> bool \<Rightarrow> string list \<Rightarrow> aux_tree \<times> aux_op weave_result list \<times> partial_state
      \<Rightarrow> (aux_tree \<times> aux_op weave_result list \<times> partial_state) option" where
  "receive_removals E space initial [] s = Some s"
| "receive_removals E space initial (h # hs) (T, rs, u) =
     (case getNodeByHash (tree_weave T) h of
        None \<Rightarrow> receive_removals E space initial hs (T, rs, u)
      | Some n \<Rightarrow> do {
          a \<leftarrow> node_at (tree_weave T) n;
          (r, w) \<leftarrow> weave_remove (tree_weave T) (Some a);
          (_, u1) \<leftarrow> reducer E w r u space initial;
          receive_removals E space initial hs (T\<lparr>tree_weave := w\<rparr>, rs @ [r], u1) })"

text \<open>The texts of the tags that were remembered, whatever the atoms before did to them.\<close>

fun final_values :: "'b aux_env \<Rightarrow> aux_op weave \<Rightarrow> string option \<Rightarrow> edited_tags \<Rightarrow> partial_state \<Rightarrow> partial_state option" where
  "final_values E w space [] u = Some u"
| "final_values E w space ((_, i, t, isMask, v) # ed) u =
     do { n \<leftarrow> v;
          x \<leftarrow> calculateFinalEditValue (heap w) (fst n);
          final_values E w space ed
            (lodashMerge E u (if isMask then mask_change i space t (Val (StrV x)) else tag_change i t (Val (StrV x)))) }"

definition applyAtoms ::
    "aux_op hasher \<Rightarrow> 'b aux_env \<Rightarrow> aux_doc \<Rightarrow> aux_op atom list \<Rightarrow> string list \<Rightarrow> string option \<Rightarrow> bool
      \<Rightarrow> (aux_doc \<times> bot_state_updates \<times> aux_op weave_result list \<times> partial_state) option" where
  "applyAtoms H E D atoms removed space initial =
     do { (T1, rs1, u1, ed) \<leftarrow> receive_atoms H E space initial atoms (doc_tree D, [], [], []);
          (T2, rs2, u2) \<leftarrow> receive_removals E space initial removed (T1, rs1, u1);
          u3 \<leftarrow> final_values E (tree_weave T2) space ed u2;
          ups \<leftarrow> updates (doc_state D) u3;
          Some (\<lparr>doc_tree = T2, doc_state = apply_state (doc_state D) u3\<rparr>, ups, rs2, u3) }"

end
