(* ===== verification/SpaceTree.thy ===== *)
theory SpaceTree
  imports AuxTree WeaveRules TextWeave
begin

text \<open>
  Reading a weave that stands for a forest of causal trees: where an atom is, what its causal group starts with, and what
  the code finds above and beside it.
\<close>

section \<open>Trees\<close>

definition child :: "'v atom \<Rightarrow> 'v atom \<Rightarrow> bool" where
  "child y x \<longleftrightarrow> idEquals (cause y) (Some (aid x))"

lemma same_cause_okey: "child y x \<Longrightarrow> child y x' \<Longrightarrow> okey x = okey x'"
  by (cases "cause y") (auto simp: child_def intro: id_norm_okey)

lemma child_cause: "child y x \<Longrightarrow> cause y \<noteq> None"
  by (cases "cause y") (auto simp: child_def)

lemmas cause_child = cause_in_tree[folded child_def]

text \<open>The part of a tree below one of its atoms, which has all of the atom's children.\<close>

lemma subtree_at:
  assumes "wf_ctree t" and "distinct (map okey (preorder t))" and "x \<in> set (preorder t)"
  shows "\<exists>ks ps qs. wf_ctree (CNode x ks) \<and> preorder t = ps @ x # forest ks @ qs \<and>
    (\<forall>y\<in>set (preorder t). child y x \<longrightarrow> y = root_atom t \<or> y \<in> root_atom ` set ks)"
  using assms
proof (induction t)
  case (CNode r ts)
  show ?case
  proof (cases "x = r")
    case True
    have "\<forall>y\<in>set (preorder (CNode r ts)). child y r \<longrightarrow> y = r \<or> y \<in> root_atom ` set ts"
      using kid_roots[OF CNode.prems(1,2)] by (auto simp: child_def)
    then show ?thesis using True CNode.prems(1) by (intro exI[of _ ts] exI[of _ "[]"]) simp
  next
    case False
    then obtain k where k: "k \<in> set ts" "x \<in> set (preorder k)" using CNode.prems(3) by auto
    then obtain us vs where ts: "ts = us @ k # vs" by (meson split_list)
    have dist: "distinct (map okey (forest ts))" using CNode.prems(2) by simp
    have wfk: "wf_ctree k" using CNode.prems(1) k(1) by simp
    moreover have dk: "distinct (map okey (preorder k))" using dist by (simp add: ts)
    ultimately obtain ks ps qs where sub: "wf_ctree (CNode x ks)" "preorder k = ps @ x # forest ks @ qs"
        "\<forall>y\<in>set (preorder k). child y x \<longrightarrow> y = root_atom k \<or> y \<in> root_atom ` set ks"
      using CNode.IH[OF k(1) wfk dk k(2)] by blast
    have "preorder (CNode r ts) = (r # forest us @ ps) @ x # forest ks @ (qs @ forest vs)"
      by (simp add: ts sub(2))
    moreover have "y = r \<or> y \<in> root_atom ` set ks" if y: "y \<in> set (preorder (CNode r ts))" "child y x" for y
    proof (cases "y = r")
      case False
      then obtain l where l: "l \<in> set ts" "y \<in> set (preorder l)" using y(1) by auto
      have wfl: "wf_ctree l" "child (root_atom l) r" using CNode.prems(1) l(1) by (auto simp: child_def)
      have "y \<noteq> root_atom l"
      proof
        assume "y = root_atom l"
        then have "okey x = okey r" using same_cause_okey[OF y(2)] wfl(2) by simp
        moreover have "okey r \<noteq> okey x" using CNode.prems(2) k by (auto simp: ts)
        ultimately show False by simp
      qed
      with cause_child[OF wfl(1) l(2)] obtain p where p: "p \<in> set (preorder l)" "child y p" by blast
      have "okey p = okey x" by (rule same_cause_okey[OF p(2) y(2)])
      then have "p = x" using distinct_map_inj[OF dist] p(1) l(1) k by auto
      then have "l = k" using forest_unique_kid[OF dist l(1) k(1)] p(1) k(2) by blast
      with sub(3) l(2) y(2) have "y = root_atom k \<or> y \<in> root_atom ` set ks" by blast
      with \<open>y \<noteq> root_atom l\<close> \<open>l = k\<close> show ?thesis by simp
    qed simp
    ultimately show ?thesis using sub(1) by (intro exI[of _ ks] exI[of _ "r # forest us @ ps"] exI[of _ "qs @ forest vs"]) auto
  qed
qed

section \<open>Forests in a weave\<close>

definition rep :: "aux_op weave \<Rightarrow> aux_op atom list \<Rightarrow> aux_op ctree list \<Rightarrow> bool" where
  "rep w acc ks \<longleftrightarrow> weave_ok w \<and> reorderBuffer w = [] \<and> weave_chains w = Some (map preorder ks) \<and> forest_of acc ks"

lemma rep_represents:
  "chain_store.represents (\<lambda>w. weave_ok w \<and> reorderBuffer w = []) weave_chains w acc ks \<longleftrightarrow> rep w acc ks"
  by (auto simp: wv.represents_def rep_def)

lemma rep_new: "rep (new_weave m) [] []"
  by (subst rep_represents[symmetric]) (rule wv.represents_new)

lemma rep_atoms: "rep w acc ks \<Longrightarrow> set (forest ks) = set acc" "rep w acc ks \<Longrightarrow> distinct (map okey (forest ks))"
  by (simp_all add: rep_def forest_of_def)

lemma rep_unique: "rep w acc ks \<Longrightarrow> x \<in> set acc \<Longrightarrow> y \<in> set acc \<Longrightarrow> okey x = okey y \<Longrightarrow> x = y"
  using rep_atoms[of w acc ks] distinct_map_inj[of okey "forest ks"] by blast

lemma rep_one_cause: "rep w acc ks \<Longrightarrow> x \<in> set acc \<Longrightarrow> x' \<in> set acc \<Longrightarrow> child y x \<Longrightarrow> child y x' \<Longrightarrow> x = x'"
  using rep_unique same_cause_okey by blast

text \<open>No atom is without its cause.\<close>

lemma rep_cause:
  assumes "rep w acc ks" and "y \<in> set acc" and "cause y \<noteq> None"
  shows "\<exists>x\<in>set acc. child y x"
proof -
  obtain t where t: "t \<in> set ks" "y \<in> set (preorder t)" using rep_atoms(1)[OF assms(1)] assms(2) by auto
  then have wf: "wf_ctree t" "cause (root_atom t) = None" using assms(1) by (auto simp: rep_def forest_of_def)
  then have "y \<noteq> root_atom t" using assms(3) by auto
  with cause_child[OF wf(1) t(2)] obtain x where "x \<in> set (preorder t)" "child y x" by blast
  then show ?thesis using rep_atoms(1)[OF assms(1)] t(1) by (auto intro!: bexI[of _ x])
qed

text \<open>An atom that is ready is added.\<close>

lemma rep_step:
  assumes "rep w acc ks" and "ready H acc a"
  shows "\<exists>w' ls. weave_insert H w a = Some (Inr (AtomAdded a), w') \<and> rep w' (acc @ [a]) ls"
proof -
  obtain w' ls where w': "insert_weave H w a = Some w'" "rep w' (acc @ [a]) ls"
    using wv.represents_step[of w acc ks H a] assms by (auto simp: rep_represents)
  have f: "forest_of acc ks" and ok: "weave_ok w" "reorderBuffer w = []" "weave_chains w = Some (map preorder ks)"
    using assms(1) by (simp_all add: rep_def)
  note new = wv.fresh_key[OF f assms(2)]
  have "\<exists>v. weave_insert H w a = Some (Inr (AtomAdded a), v)"
  proof (cases "cause a")
    case None
    then show ?thesis
      using insertRoot_chains[OF ok(1,3,2), of a H "cardinalityMap w"] new assms(2)
      by (auto simp: ready_def plain_atom_def countCardinality_plain)
  next
    case (Some i)
    with assms(2) obtain c where c: "c \<in> set acc" "idEquals (Some i) (Some (aid c))" "ts c < ts a" "atomMatchesHash H a (Some c)"
      by (auto simp: ready_def list_ex_iff)
    then obtain t where "t \<in> set ks" "c \<in> set (preorder t)" using rep_atoms(1)[OF assms(1)] by auto
    then obtain us vs ps qs where ks: "ks = us @ t # vs" "preorder t = ps @ c # qs" by (metis split_list)
    then have chains: "weave_chains w = Some (map preorder us @ (ps @ c # qs) # map preorder vs)" using ok(3) by simp
    have none: "atomIdToString (aid b) \<noteq> atomIdToString (aid a)"
      if "b \<in> set (concat (map preorder us @ (ps @ c # qs) # map preorder vs))" for b
      using new that by (auto simp: ks)
    show ?thesis
      using insertChild_chains[OF ok(1) chains ok(2) none Some idEquals_same_string[OF c(2)] c(4,3)] by blast
  qed
  then obtain v where v: "weave_insert H w a = Some (Inr (AtomAdded a), v)" by blast
  then have "v = w'" using w'(1) by (simp add: insert_weave_def)
  then show ?thesis using v w'(2) by blast
qed

section \<open>Finding atoms\<close>

lemma rep_find:
  assumes "rep w acc ks" and "x \<in> set acc" and "atomIdToString i = atomIdToString (aid x)"
  obtains n where "getNode w i = Some n" "node_at w n = Some x"
proof -
  have "weave_ok w" "weave_chains w = Some (map preorder ks)" "x \<in> set (forest ks)"
    using assms(1,2) rep_atoms(1)[OF assms(1)] by (simp_all add: rep_def del: set_concat)
  then show ?thesis using weave_ok_find assms(3) that by blast
qed

lemma rep_cause_node:
  assumes "rep w acc ks" and "x \<in> set acc" and "child y x"
  obtains n where "cause_node w y = Some (Some (n, x))" "getNode w (aid x) = Some n"
proof -
  obtain i where i: "cause y = Some i" "idEquals (Some i) (Some (aid x))" using assms(3) by (cases "cause y") (auto simp: child_def)
  note eq = idEquals_same_string[OF i(2)]
  from rep_find[OF assms(1,2) eq] obtain n where "getNode w i = Some n" "node_at w n = Some x" by blast
  moreover have "getNode w (aid x) = getNode w i" using eq by (simp add: getNode_def)
  ultimately show ?thesis using that i(1) by (simp add: cause_node_def node_of_def)
qed

lemma node_at_heap: "node_at w n = Some a \<Longrightarrow> \<exists>nd. heap w n = Some nd \<and> node_atom nd = a"
  by (auto simp: node_at_def)

lemma nodes_at_atoms: "nodes_at (heap w) ns = Some xs \<longleftrightarrow> (\<exists>as. atoms_at w ns = Some as \<and> xs = zip ns as)"
proof (induction ns arbitrary: xs)
  case (Cons n ns)
  then show ?case
    by (cases "heap w n") (auto simp: nodes_at_def node_at_def bind_eq_Some_conv)
qed (auto simp: nodes_at_def)

text \<open>The nodes above a child of a child of a root.\<close>

lemma chain_from: 
  assumes "rep w acc ks" and "x \<in> set acc"
  shows "cause y = None \<Longrightarrow> referenceChainFrom w (cause y) = Some (Inr [])"
    and "child y x \<Longrightarrow> \<exists>n. getNode w (aid x) = Some n \<and> node_at w n = Some x \<and>
      referenceChainFrom w (cause y) = do { r \<leftarrow> referenceChainFrom w (cause x); Some (case r of Inl e \<Rightarrow> Inl e | Inr ns \<Rightarrow> Inr (n # ns)) }"
proof -
  show "cause y = None \<Longrightarrow> referenceChainFrom w (cause y) = Some (Inr [])" by (simp add: referenceChainFrom.simps)
  assume y: "child y x"
  then obtain i where i: "cause y = Some i" "idEquals (Some i) (Some (aid x))" by (cases "cause y") (auto simp: child_def)
  note eq = idEquals_same_string[OF i(2)]
  from rep_find[OF assms eq] obtain n where n: "getNode w i = Some n" "node_at w n = Some x" by blast
  have "getNode w (aid x) = getNode w i" using eq by (simp add: getNode_def)
  with n i(1) show "\<exists>n. getNode w (aid x) = Some n \<and> node_at w n = Some x \<and>
      referenceChainFrom w (cause y) = do { r \<leftarrow> referenceChainFrom w (cause x); Some (case r of Inl e \<Rightarrow> Inl e | Inr ns \<Rightarrow> Inr (n # ns)) }"
    by (subst (1) referenceChainFrom.simps) simp
qed

lemma value_chain:
  assumes rep: "rep w acc ks" and x: "x \<in> set acc" "d \<in> set acc" "b \<in> set acc" "child x d" "child d b" "cause b = None"
  obtains nx nd nb where "chain_of w (Some (aid x)) = Some [(nx, x), (nd, d), (nb, b)]" "getNode w (aid x) = Some nx"
    "getNode w (aid d) = Some nd" "getNode w (aid b) = Some nb"
proof -
  obtain nx where nx: "getNode w (aid x) = Some nx" "node_at w nx = Some x" using rep_find[OF rep x(1) HOL.refl] by blast
  obtain nd where nd: "getNode w (aid d) = Some nd" "node_at w nd = Some d" "referenceChainFrom w (cause x) =
      do { r \<leftarrow> referenceChainFrom w (cause d); Some (case r of Inl e \<Rightarrow> Inl e | Inr ns \<Rightarrow> Inr (nd # ns)) }"
    using chain_from(2)[OF rep x(2,4)] by blast
  obtain nb where nb: "getNode w (aid b) = Some nb" "node_at w nb = Some b" "referenceChainFrom w (cause d) =
      do { r \<leftarrow> referenceChainFrom w (cause b); Some (case r of Inl e \<Rightarrow> Inl e | Inr ns \<Rightarrow> Inr (nb # ns)) }"
    using chain_from(2)[OF rep x(3,5)] by blast
  have "referenceChain w (aid x) = Some (Inr [nx, nd, nb])"
    using nx nd nb chain_from(1)[OF rep x(3,6)] by (simp add: referenceChain_def)
  moreover have "nodes_at (heap w) [nx, nd, nb] = Some [(nx, x), (nd, d), (nb, b)]" using nx nd nb by (simp add: nodes_at_atoms)
  ultimately show ?thesis using that nx nd nb by (simp add: chain_of_def)
qed

section \<open>The first child\<close>

text \<open>The child of an atom that comes before all others.\<close>

definition newest :: "'v atom set \<Rightarrow> 'v atom \<Rightarrow> 'v atom \<Rightarrow> bool" where
  "newest A x y \<longleftrightarrow> y \<in> A \<and> child y x \<and> (\<forall>z\<in>A. child z x \<longrightarrow> z = y \<or> sib_before y z)"

lemma newest_unique: "newest A x y \<Longrightarrow> newest A x z \<Longrightarrow> y = z"
  unfolding newest_def using sib_before_irrefl sib_before_trans by blast

lemma first_child:
  assumes rep: "rep w acc ks" and x: "x \<in> set acc" "getNode w (aid x) = Some n" and z: "z \<in> set acc" "child z x"
  obtains m y where "first_in_group w n = Some (Some (m, y))" "newest (set acc) x y" "getNode w (aid y) = Some m"
proof -
  obtain t where t: "t \<in> set ks" "x \<in> set (preorder t)" using rep_atoms(1)[OF rep] x(1) by auto
  have wf: "wf_ctree t" "cause (root_atom t) = None" and dt: "distinct (map okey (preorder t))"
    using rep t(1) rep_atoms(2)[OF rep] by (auto simp: rep_def forest_of_def dest!: split_list)
  obtain kk ps qs where sub: "wf_ctree (CNode x kk)" "preorder t = ps @ x # forest kk @ qs"
      "\<forall>y\<in>set (preorder t). child y x \<longrightarrow> y = root_atom t \<or> y \<in> root_atom ` set kk"
    using subtree_at[OF wf(1) dt t(2)] by blast
  have kids: "y \<in> root_atom ` set kk" if y: "y \<in> set acc" "child y x" for y
  proof -
    obtain l where l: "l \<in> set ks" "y \<in> set (preorder l)" using rep_atoms(1)[OF rep] y(1) by auto
    have wl: "wf_ctree l" "cause (root_atom l) = None" using rep l(1) by (auto simp: rep_def forest_of_def)
    then have "y \<noteq> root_atom l" using child_cause[OF y(2)] by auto
    with cause_child[OF wl(1) l(2)] obtain p where p: "p \<in> set (preorder l)" "child y p" by blast
    have "p \<in> set acc" using rep_atoms(1)[OF rep] p(1) l(1) by auto
    then have "p = x" using rep_one_cause[OF rep _ x(1) p(2) y(2)] by blast
    then have "l = t" using forest_unique_kid[OF rep_atoms(2)[OF rep] l(1) t(1)] p(1) t(2) by blast
    then have "y = root_atom t \<or> y \<in> root_atom ` set kk" using sub(3) l(2) y(2) by blast
    then show ?thesis using \<open>y \<noteq> root_atom l\<close> \<open>l = t\<close> by simp
  qed
  obtain k ks' where kk: "kk = k # ks'" using kids[OF z] by (cases kk) auto
  let ?y = "root_atom k"
  have fk: "forest kk = ?y # (forest (kids k) @ forest ks')" by (simp add: kk preorder_root[of k])
  have y: "child ?y x" "ts x < ts ?y" using sub(1) by (simp_all add: kk child_def)
  have "?y \<in> set (preorder t)" using sub(2) fk by simp
  then have yacc: "?y \<in> set acc" using rep_atoms(1)[OF rep] t(1) by auto
  have "u = ?y \<or> sib_before ?y u" if "u \<in> set acc" "child u x" for u
    using kids[OF that] sub(1) by (auto simp: kk)
  then have new: "newest (set acc) x ?y" using yacc y(1) by (simp add: newest_def)
  obtain us vs where ks: "ks = us @ t # vs" using t(1) by (meson split_list)
  have chains: "weave_chains w = Some (map preorder us @ (ps @ x # (?y # (forest (kids k) @ forest ks') @ qs)) # map preorder vs)"
    using rep sub(2) fk by (simp add: rep_def ks)
  have ok: "weave_ok w" using rep by (simp add: rep_def)
  from weave_ok_split[OF ok chains] obtain us' ps' n' ys' vs' where inv: "weave_inv w (us' @ (ps' @ n' # ys') # vs')"
      and eqs: "x = atm (heap w) n'" "?y # (forest (kids k) @ forest ks') @ qs = map (atm (heap w)) ys'" by metis
  from eqs(2) obtain m ms where ys: "ys' = m # ms" "?y = atm (heap w) m" by (cases ys') auto
  have "getNode w (aid x) = Some n'" using getNode_inv[OF inv] eqs(1) by simp
  then have n': "n' = n" using x(2) by simp
  have "dll (heap w) None (ps' @ n' # ys') None" using weave_invD(3)[OF inv] by simp
  from iterateCausalGroup_dll[OF this] have g: "iterateCausalGroup (heap w) n = Some (m # takeWhile (later (heap w) n') ms)"
    using y(2) eqs(1) ys by (simp add: n')
  have "set (m # takeWhile (later (heap w) n') ms) \<subseteq> set (concat (us' @ (ps' @ n' # ys') # vs'))"
    by (auto simp: ys(1) dest: set_takeWhileD)
  then have "nodes_at (heap w) (m # takeWhile (later (heap w) n') ms) =
      Some (map (\<lambda>u. (u, atm (heap w) u)) (m # takeWhile (later (heap w) n') ms))"
    by (rule nodes_at_inv[OF inv])
  then have "first_in_group w n = Some (Some (m, ?y))" using g ys(2) by (simp add: first_in_group_def first_def)
  moreover have "getNode w (aid ?y) = Some m" using getNode_inv[OF inv] ys by simp
  ultimately show ?thesis using that new by blast
qed

section \<open>Siblings and roots\<close>

lemma siblingsFrom_dll:
  "dll h p ns None \<Longrightarrow> \<exists>sibs. siblingsFrom h c (hdo ns None) = Some sibs \<and> set sibs \<subseteq> set ns"
proof (induction ns arbitrary: p)
  case (Cons n ns)
  then obtain nd where nd: "h n = Some nd" "next_node nd = hdo ns None" "dll h (Some n) ns None" by auto
  from Cons.IH[OF nd(3)] obtain sibs where sibs: "siblingsFrom h c (hdo ns None) = Some sibs" "set sibs \<subseteq> set ns" by blast
  have "siblingsFrom h c (hdo (n # ns) None) = siblingsFrom h c (Some n)" by simp
  then show ?case using nd sibs by (subst siblingsFrom.simps) auto
qed (simp add: siblingsFrom.simps)

lemma rep_node:
  assumes "rep w acc ks" and "y \<in> set acc" and "getNode w (aid y) = Some m"
  obtains us ps qs vs where "weave_inv w (us @ (ps @ m # qs) # vs)" "atm (heap w) m = y"
proof -
  have "y \<in> set (forest ks)" using rep_atoms(1)[OF assms(1)] assms(2) by simp
  then obtain t where t: "t \<in> set ks" "y \<in> set (preorder t)" by auto
  then obtain us vs ps qs where ks: "ks = us @ t # vs" "preorder t = ps @ y # qs" by (metis split_list)
  have "weave_ok w" "weave_chains w = Some (map preorder us @ (ps @ y # qs) # map preorder vs)"
    using assms(1) ks by (simp_all add: rep_def)
  from weave_ok_split[OF this] obtain us' ps' n qs' vs' where inv: "weave_inv w (us' @ (ps' @ n # qs') # vs')" "y = atm (heap w) n"
    by metis
  moreover have "getNode w (aid y) = Some n" using getNode_inv[OF inv(1)] inv(2) by simp
  then have "n = m" using assms(3) by simp
  ultimately show ?thesis using that by simp
qed

text \<open>Without certificates, no signature is taken away.\<close>

lemma nothing_signed:
  assumes rep: "rep w acc ks" and y: "y \<in> set acc" "getNode w (aid y) = Some m"
    and none: "\<forall>x\<in>set acc. case val x of CertificateOp _ _ \<Rightarrow> False | _ \<Rightarrow> True"
  shows "replaced_signature E w (m, y) i t st = Some st"
proof -
  obtain us ps qs vs where inv: "weave_inv w (us @ (ps @ m # qs) # vs)" "atm (heap w) m = y" using rep_node[OF rep y] .
  have "dll (heap w) None (ps @ m # qs) None" using weave_invD(3)[OF inv(1)] by simp
  then obtain nd where nd: "heap w m = Some nd" "next_node nd = hdo qs None" "dll (heap w) (Some m) qs None"
    by (auto simp: dll_append)
  from siblingsFrom_dll[OF nd(3)] obtain sibs where sibs: "iterateSiblings (heap w) m = Some sibs" "set sibs \<subseteq> set qs"
    using nd by (auto simp: iterateSiblings_def)
  then have ns: "nodes_at (heap w) sibs = Some (map (\<lambda>n. (n, atm (heap w) n)) sibs)" by (intro nodes_at_inv[OF inv(1)]) auto
  have root: "node_at w r = Some (atm (heap w) r) \<and> atm (heap w) r \<in> set acc" if "r \<in> set (roots w)" for r
  proof -
    have "map hd (us @ (ps @ m # qs) # vs) = roots w" by (rule weave_invD(1)[OF inv(1)])
    then obtain ns where ns: "ns \<in> set (us @ (ps @ m # qs) # vs)" "r = hd ns" using \<open>r \<in> set (roots w)\<close> by (metis imageE set_map)
    have "chain_ok (map (atm (heap w)) ns)" by (rule weave_invD(4)[OF inv(1) ns(1)])
    then have "r \<in> set ns" using ns(2) by (cases ns) auto
    then have r: "r \<in> set (concat (us @ (ps @ m # qs) # vs))" using ns(1) by (metis UN_I set_concat)
    have "map preorder ks = chains_of w (us @ (ps @ m # qs) # vs)"
      using rep weave_chains_inv[OF inv(1)] by (simp add: rep_def)
    then have "forest ks = map (atm (heap w)) (concat (us @ (ps @ m # qs) # vs))" by (simp only: chains_of_def map_concat)
    then have "atm (heap w) r \<in> set (forest ks)" using r by (metis image_eqI set_map)
    then show ?thesis using node_at_inv[OF inv(1) r] unfolding rep_atoms(1)[OF rep] by simp
  qed
  have "certificate_roots w rs = Some []" if "set rs \<subseteq> set (roots w)" for rs
    using that root none by (induction rs) (auto split: aux_op.splits)
  then have "certificate_roots w (roots w) = Some []" by simp
  then show ?thesis using sibs(1) ns by (simp add: replaced_signature_def split: option.split aux_op.split)
qed

end
