(* ===== verification/SpaceSpec.thy ===== *)
theory SpaceSpec
  imports SpaceTree BotStateSpec
begin

text \<open>
  The bots of a space are those of its atoms: what is shown is defined on the set of atoms, and every atom that is received
  changes the state to what the atoms show now.
\<close>

section \<open>What the atoms show\<close>

text \<open>A bot is there unless it was deleted. A tag shows the value that comes first among its values.\<close>

definition live_bot :: "aux_op atom set \<Rightarrow> string \<Rightarrow> bool" where
  "live_bot A i \<longleftrightarrow> (\<exists>b\<in>A. val b = BotOp i \<and> (\<forall>d\<in>A. child d b \<longrightarrow> \<not> is_delete d))"

definition value_shown :: "aux_op atom set \<Rightarrow> string \<Rightarrow> string \<Rightarrow> tag_value \<Rightarrow> bool" where
  "value_shown A i t v \<longleftrightarrow> live_bot A i \<and> hasValue v \<and>
     (\<exists>b\<in>A. \<exists>d\<in>A. \<exists>x\<in>A. val b = BotOp i \<and> child d b \<and> val d = TagOp t \<and> newest A d x \<and> val x = ValueOp v)"

definition shows_atoms :: "bots_state \<Rightarrow> aux_op atom set \<Rightarrow> bool" where
  "shows_atoms s A \<longleftrightarrow>
     (\<forall>i. map_of s i \<noteq> None \<longleftrightarrow> live_bot A i) \<and> (\<forall>i t v. bot_tag s i t = Some v \<longleftrightarrow> value_shown A i t v)"

text \<open>
  The atoms of a space without masks, certificates and edits of text: bots, their tags, values that are no objects, and
  deletions of bots, which have a priority. A bot has one atom, and a tag of a bot too.
\<close>

fun is_bot :: "aux_op atom \<Rightarrow> bool" where
  "is_bot a = (case val a of BotOp _ \<Rightarrow> True | _ \<Rightarrow> False)"

fun is_tag :: "aux_op atom \<Rightarrow> bool" where
  "is_tag a = (case val a of TagOp _ \<Rightarrow> True | _ \<Rightarrow> False)"

definition no_object :: "tag_value \<Rightarrow> bool" where
  "no_object v = (case v of Val p \<Rightarrow> \<not> is_plain_object p | _ \<Rightarrow> True)"

definition space_atom :: "aux_op atom set \<Rightarrow> aux_op atom \<Rightarrow> bool" where
  "space_atom A a \<longleftrightarrow>
     (case val a of
        BotOp i \<Rightarrow> cause a = None \<and> (\<forall>b\<in>A. val b = BotOp i \<longrightarrow> b = a)
      | TagOp t \<Rightarrow> cause a \<noteq> None \<and> t \<noteq> [] \<and> prio a = 0 \<and>
          (\<forall>c\<in>A. child a c \<longrightarrow> is_bot c \<and> (\<forall>d\<in>A. child d c \<and> val d = TagOp t \<longrightarrow> d = a))
      | ValueOp v \<Rightarrow> cause a \<noteq> None \<and> no_object v \<and> (\<forall>c\<in>A. child a c \<longrightarrow> is_tag c)
      | TextDeleteOp p _ \<Rightarrow> p = None \<and> cause a \<noteq> None \<and> 0 < prio a \<and> (\<forall>c\<in>A. child a c \<longrightarrow> is_bot c)
      | _ \<Rightarrow> False)"

definition space_atoms :: "aux_op atom set \<Rightarrow> bool" where
  "space_atoms A \<longleftrightarrow> (\<forall>a\<in>A. space_atom A a)"

lemma space_atom_mono: "space_atom B a \<Longrightarrow> A \<subseteq> B \<Longrightarrow> space_atom A a"
  unfolding space_atom_def by (cases "val a") (simp_all only: aux_op.case, blast+)

lemma space_atoms_mono: "space_atoms B \<Longrightarrow> A \<subseteq> B \<Longrightarrow> space_atoms A"
  unfolding space_atoms_def using space_atom_mono by blast

lemma kind_of:
  "is_bot a \<longleftrightarrow> (\<exists>i. val a = BotOp i)" "is_tag a \<longleftrightarrow> (\<exists>t. val a = TagOp t)"
  "is_delete a \<longleftrightarrow> (\<exists>p q. val a = TextDeleteOp p q)"
  by (cases "val a"; simp add: is_delete_def)+

text \<open>What a set of atoms is known to be, once it is that of a weave.\<close>

definition closed_space :: "aux_op atom set \<Rightarrow> bool" where
  "closed_space A \<longleftrightarrow> space_atoms A \<and> (\<forall>x\<in>A. \<forall>y\<in>A. okey x = okey y \<longrightarrow> x = y) \<and>
     (\<forall>y\<in>A. cause y \<noteq> None \<longrightarrow> (\<exists>x\<in>A. child y x))"

lemma rep_closed: "rep w acc ks \<Longrightarrow> space_atoms (set acc) \<Longrightarrow> closed_space (set acc)"
  unfolding closed_space_def using rep_unique rep_cause by blast

lemma closed_cause: "closed_space A \<Longrightarrow> x \<in> A \<Longrightarrow> x' \<in> A \<Longrightarrow> child y x \<Longrightarrow> child y x' \<Longrightarrow> x = x'"
  unfolding closed_space_def using same_cause_okey by blast

lemma closed_atom: "closed_space A \<Longrightarrow> a \<in> A \<Longrightarrow> space_atom A a"
  by (simp add: closed_space_def space_atoms_def)

lemma closed_parent: "closed_space A \<Longrightarrow> a \<in> A \<Longrightarrow> cause a \<noteq> None \<Longrightarrow> \<exists>x\<in>A. child a x"
  by (simp add: closed_space_def)

lemma space_bot:
  assumes "closed_space A" and "a \<in> A" and "val a = BotOp i"
  shows "cause a = None" "\<And>b. b \<in> A \<Longrightarrow> val b = BotOp i \<Longrightarrow> b = a"
  using closed_atom[OF assms(1,2)] assms(3) by (simp_all add: space_atom_def)

lemma space_tag:
  assumes "closed_space A" and "a \<in> A" and "val a = TagOp t"
  obtains b i where "t \<noteq> []" "prio a = 0" "b \<in> A" "child a b" "val b = BotOp i" "\<And>d. d \<in> A \<Longrightarrow> child d b \<Longrightarrow> val d = TagOp t \<Longrightarrow> d = a"
proof -
  have a: "cause a \<noteq> None" "t \<noteq> []" "prio a = 0"
    "\<And>c. c \<in> A \<Longrightarrow> child a c \<Longrightarrow> is_bot c \<and> (\<forall>d\<in>A. child d c \<and> val d = TagOp t \<longrightarrow> d = a)"
    using closed_atom[OF assms(1,2)] assms(3) by (simp_all add: space_atom_def)
  obtain b where b: "b \<in> A" "child a b" using closed_parent[OF assms(1,2) a(1)] by blast
  obtain i where "val b = BotOp i" using a(4)[OF b] kind_of(1) by blast
  then show ?thesis using that a(2,3) b a(4)[OF b] by blast
qed

lemma space_value:
  assumes "closed_space A" and "a \<in> A" and "val a = ValueOp v"
  obtains d t where "no_object v" "d \<in> A" "child a d" "val d = TagOp t"
proof -
  have a: "cause a \<noteq> None" "no_object v" "\<And>c. c \<in> A \<Longrightarrow> child a c \<Longrightarrow> is_tag c"
    using closed_atom[OF assms(1,2)] assms(3) by (simp_all add: space_atom_def)
  obtain d where d: "d \<in> A" "child a d" using closed_parent[OF assms(1,2) a(1)] by blast
  obtain t where "val d = TagOp t" using a(3)[OF d] kind_of(2) by blast
  then show ?thesis using that a(2) d by blast
qed

lemma space_delete:
  assumes "closed_space A" and "a \<in> A" and "is_delete a"
  obtains b i where "0 < prio a" "b \<in> A" "child a b" "val b = BotOp i"
proof -
  obtain p q where "val a = TextDeleteOp p q" using assms(3) kind_of(3) by blast
  then have a: "cause a \<noteq> None" "0 < prio a" "\<And>c. c \<in> A \<Longrightarrow> child a c \<Longrightarrow> is_bot c"
    using closed_atom[OF assms(1,2)] by (simp_all add: space_atom_def)
  obtain b where b: "b \<in> A" "child a b" using closed_parent[OF assms(1,2) a(1)] by blast
  obtain i where "val b = BotOp i" using a(3)[OF b] kind_of(1) by blast
  then show ?thesis using that a(2) b by blast
qed

lemma space_delete_all: "closed_space A \<Longrightarrow> a \<in> A \<Longrightarrow> val a = TextDeleteOp p q \<Longrightarrow> p = None"
  using closed_atom[of A a] by (simp add: space_atom_def)

lemma space_kinds:
  assumes "closed_space A" and "a \<in> A"
  shows "is_bot a \<or> is_tag a \<or> (\<exists>v. val a = ValueOp v) \<or> is_delete a"
  using closed_atom[OF assms] by (cases "val a") (simp_all add: space_atom_def is_delete_def)

declare is_bot.simps [simp del] is_tag.simps [simp del]

section \<open>What one more atom shows\<close>

definition grows :: "aux_op atom set \<Rightarrow> aux_op atom \<Rightarrow> bool" where
  "grows A a \<longleftrightarrow> closed_space A \<and> a \<notin> A \<and> closed_space (insert a A)"

lemma growsD:
  assumes "grows A a"
  shows "closed_space A" "a \<notin> A" "closed_space (insert a A)"
  using assms by (simp_all add: grows_def)

text \<open>Nothing is below an atom that is new.\<close>

lemma not_own_child:
  assumes "closed_space A" and "a \<in> A"
  shows "\<not> child a a"
proof
  assume self: "child a a"
  have one: "b = a" if "b \<in> A" "child a b" for b using closed_cause[OF assms(1) that(1) assms(2) that(2) self] .
  consider "is_bot a" | t where "val a = TagOp t" | v where "val a = ValueOp v" | "is_delete a"
    using space_kinds[OF assms] kind_of(2) by blast
  then show False
  proof cases
    case 1
    then show ?thesis using space_bot(1)[OF assms] child_cause[OF self] by (auto simp: kind_of)
  next
    case 2
    from space_tag[OF assms this] one 2 show ?thesis by (metis aux_op.distinct(1))
  next
    case 3
    from space_value[OF assms this] one 3 show ?thesis by (metis aux_op.distinct(17))
  next
    case 4
    from space_delete[OF assms this] one 4 show ?thesis by (metis aux_op.distinct(7) kind_of(3))
  qed
qed

lemma below_new:
  assumes "grows A a" and "y \<in> insert a A"
  shows "\<not> child y a"
proof
  assume y: "child y a"
  show False
  proof (cases "y = a")
    case True
    then show ?thesis using not_own_child[OF growsD(3)[OF assms(1)], of a] y by simp
  next
    case False
    then have "y \<in> A" using assms(2) by simp
    then obtain x where x: "x \<in> A" "child y x" using closed_parent[OF growsD(1)[OF assms(1)] _ child_cause[OF y]] by blast
    have "x = a" by (rule closed_cause[OF growsD(3)[OF assms(1)] _ _ x(2) y]) (simp_all add: x(1))
    with x(1) growsD(2)[OF assms(1)] show False by simp
  qed
qed

lemma same_bot:
  assumes "grows A a" and "b \<in> insert a A" and "b' \<in> insert a A" and "val b = BotOp i" and "val b' = BotOp i"
  shows "b = b'"
  using space_bot(2)[OF growsD(3)[OF assms(1)] assms(3,5,2,4)] .

lemma one_parent:
  assumes "grows A a" and "b \<in> insert a A" and "b' \<in> insert a A" and "child x b" and "child x b'"
  shows "b = b'"
  using closed_cause[OF growsD(3)[OF assms(1)] assms(2-5)] .

text \<open>The children of an atom that the new one is not below are as they were.\<close>

lemma newest_same: "\<not> child a d \<Longrightarrow> newest (insert a A) d x \<longleftrightarrow> newest A d x"
  by (auto simp: newest_def)

lemma newest_of_new: "grows A a \<Longrightarrow> \<not> newest (insert a A) a x"
  using below_new by (auto simp: newest_def)

text \<open>Where a value is shown: its tag and its bot.\<close>

definition shown_at :: "aux_op atom set \<Rightarrow> string \<Rightarrow> string \<Rightarrow> aux_op atom \<Rightarrow> aux_op atom \<Rightarrow> bool" where
  "shown_at A i t d x \<longleftrightarrow> d \<in> A \<and> val d = TagOp t \<and> newest A d x \<and> (\<exists>b\<in>A. val b = BotOp i \<and> child d b)"

lemma value_shown_at: "value_shown A i t v \<longleftrightarrow> live_bot A i \<and> hasValue v \<and> (\<exists>d x. shown_at A i t d x \<and> val x = ValueOp v)"
  unfolding value_shown_def shown_at_def newest_def by blast

text \<open>A tag that the new atom is not below is shown as before.\<close>

lemma shown_at_same:
  assumes g: "grows A a" and d: "\<not> child a d"
  shows "shown_at (insert a A) i t d x \<longleftrightarrow> shown_at A i t d x"
proof
  assume s: "shown_at (insert a A) i t d x"
  then have "d \<noteq> a" using newest_of_new[OF g] unfolding shown_at_def by blast
  moreover have "\<not> child d a" using below_new[OF g, of d] s unfolding shown_at_def by blast
  ultimately show "shown_at A i t d x" using s newest_same[OF d] unfolding shown_at_def by blast
next
  assume "shown_at A i t d x"
  then show "shown_at (insert a A) i t d x" using newest_same[OF d] unfolding shown_at_def by blast
qed

lemma live_same:
  assumes "\<not> is_delete a" and "\<not> is_bot a"
  shows "live_bot (insert a A) i \<longleftrightarrow> live_bot A i"
proof -
  have "val a \<noteq> BotOp i" using assms(2) by (auto simp: kind_of)
  then show ?thesis using assms(1) unfolding live_bot_def by blast
qed

lemma bot_live:
  assumes g: "grows A a" and a: "val a = BotOp i"
  shows "live_bot (insert a A) j \<longleftrightarrow> j = i \<or> live_bot A j"
proof -
  have no: "\<not> is_delete a" using a by (simp add: kind_of)
  have none: "\<not> child d a" if "d \<in> insert a A" for d using below_new[OF g that] .
  show ?thesis
  proof (cases "j = i")
    case True
    then show ?thesis using a none unfolding live_bot_def by blast
  next
    case False
    then have "val a \<noteq> BotOp j" using a by simp
    then show ?thesis using False no unfolding live_bot_def by blast
  qed
qed

lemma bot_not_before:
  assumes g: "grows A a" and a: "val a = BotOp i"
  shows "\<not> (\<exists>b\<in>A. val b = BotOp i)"
proof
  assume "\<exists>b\<in>A. val b = BotOp i"
  then obtain b where b: "b \<in> A" "val b = BotOp i" by blast
  have "b = a" by (rule same_bot[OF g _ _ b(2) a]) (simp_all add: b(1))
  with b(1) growsD(2)[OF g] show False by simp
qed

lemma no_bot_dead: "\<not> (\<exists>b\<in>A. val b = BotOp i) \<Longrightarrow> \<not> live_bot A i"
  unfolding live_bot_def by blast

lemma bot_shows:
  assumes g: "grows A a" and a: "val a = BotOp i"
  shows "value_shown (insert a A) j t v \<longleftrightarrow> value_shown A j t v"
proof -
  have "cause a = None" using space_bot(1)[OF growsD(3)[OF g] _ a] by simp
  then have "\<not> child a d" for d using child_cause by blast
  then have same: "shown_at (insert a A) j t d x \<longleftrightarrow> shown_at A j t d x" for d x using shown_at_same[OF g] by blast
  have "live_bot (insert a A) j \<longleftrightarrow> live_bot A j" if s: "shown_at A j t d x" for d x
  proof -
    obtain b where "b \<in> A" "val b = BotOp j" using s unfolding shown_at_def by blast
    then have "j \<noteq> i" using bot_not_before[OF g a] by blast
    then show ?thesis using bot_live[OF g a] by simp
  qed
  with same show ?thesis unfolding value_shown_at by blast
qed

lemma tag_shows:
  assumes g: "grows A a" and a: "val a = TagOp t'"
  shows "live_bot (insert a A) j \<longleftrightarrow> live_bot A j" "value_shown (insert a A) j t v \<longleftrightarrow> value_shown A j t v"
proof -
  show live: "live_bot (insert a A) j \<longleftrightarrow> live_bot A j" by (rule live_same) (simp_all add: kind_of a)
  obtain b i where b: "b \<in> insert a A" "child a b" "val b = BotOp i"
    by (rule space_tag[OF growsD(3)[OF g] _ a]) auto
  have "\<not> child a d" if "d \<in> insert a A" "val d = TagOp t" for d
    using one_parent[OF g b(1) that(1) b(2)] b(3) that(2) by auto
  then have "shown_at (insert a A) j t d x \<longleftrightarrow> shown_at A j t d x" for d x
    using shown_at_same[OF g] unfolding shown_at_def by blast
  with live show "value_shown (insert a A) j t v \<longleftrightarrow> value_shown A j t v" unfolding value_shown_at by blast
qed

text \<open>A value changes what its tag shows, if it comes first.\<close>

lemma value_live:
  assumes "val a = ValueOp w"
  shows "live_bot (insert a A) j \<longleftrightarrow> live_bot A j"
  by (rule live_same) (simp_all add: kind_of assms)

lemma newest_old:
  assumes g: "grows A a" and d: "child a d" "\<not> newest (insert a A) d a"
  shows "newest (insert a A) d x \<longleftrightarrow> newest A d x"
proof
  assume x: "newest (insert a A) d x"
  then have "x \<noteq> a" using d(2) by blast
  with x show "newest A d x" by (auto simp: newest_def)
next
  assume x: "newest A d x"
  then have xa: "x \<in> A" by (simp add: newest_def)
  have "okey a \<noteq> okey x" using growsD[OF g] xa unfolding closed_space_def by blast
  then have "sib_before x a \<or> sib_before a x" using sib_before_total by blast
  moreover have "\<not> sib_before a x"
  proof
    assume "sib_before a x"
    then have "newest (insert a A) d a" using x d(1) sib_before_trans unfolding newest_def by blast
    with d(2) show False by simp
  qed
  ultimately show "newest (insert a A) d x" using x by (auto simp: newest_def)
qed

lemma value_hidden:
  assumes g: "grows A a" and a: "val a = ValueOp w" and d: "child a d" "d \<in> A" "\<not> newest (insert a A) d a"
  shows "value_shown (insert a A) j u v \<longleftrightarrow> value_shown A j u v"
proof -
  have "shown_at (insert a A) j u e x \<longleftrightarrow> shown_at A j u e x" for e x
  proof (cases "e = d")
    case True
    have "\<not> child d a" using below_new[OF g, of d] d(2) by simp
    then show ?thesis using newest_old[OF g d(1,3)] d(2) unfolding shown_at_def True by blast
  next
    case False
    then show ?thesis
      using shown_at_same[OF g] one_parent[OF g _ _ d(1)] d(2) unfolding shown_at_def by (metis insertCI)
  qed
  with value_live[OF a] show ?thesis unfolding value_shown_at by blast
qed

lemma value_first:
  assumes g: "grows A a" and a: "val a = ValueOp w" and d: "d \<in> A" "child a d" "val d = TagOp t" and b: "b \<in> A" "child d b" "val b = BotOp i"
    and first: "newest (insert a A) d a"
  shows "value_shown (insert a A) j u v \<longleftrightarrow>
    (if j = i \<and> u = t then live_bot A i \<and> hasValue v \<and> v = w else value_shown A j u v)"
proof (cases "j = i \<and> u = t")
  case True
  have "shown_at (insert a A) i t e x \<longleftrightarrow> e = d \<and> x = a" for e x
  proof
    assume s: "shown_at (insert a A) i t e x"
    then obtain c where c: "c \<in> insert a A" "val c = BotOp i" "child e c" and e: "e \<in> insert a A" "val e = TagOp t"
      and x: "newest (insert a A) e x" unfolding shown_at_def by blast
    have "c = b" by (rule same_bot[OF g c(1) _ c(2) b(3)]) (simp add: b(1))
    moreover obtain b' where b': "b' \<in> insert a A" "child d b'" "\<And>e. e \<in> insert a A \<Longrightarrow> child e b' \<Longrightarrow> val e = TagOp t \<Longrightarrow> e = d"
      using space_tag[OF growsD(3)[OF g] _ d(3)] d(1) by (metis insertCI)
    moreover have "b' = b" by (rule one_parent[OF g b'(1) _ b'(2) b(2)]) (simp add: b(1))
    ultimately have "e = d" using e c(3) by blast
    then show "e = d \<and> x = a" using newest_unique[OF x[unfolded \<open>e = d\<close>] first] by simp
  next
    assume "e = d \<and> x = a"
    then show "shown_at (insert a A) i t e x" using first d b unfolding shown_at_def by blast
  qed
  then have "(\<exists>d x. shown_at (insert a A) i t d x \<and> val x = ValueOp v) \<longleftrightarrow> val a = ValueOp v" by simp
  then have "value_shown (insert a A) i t v \<longleftrightarrow> live_bot A i \<and> hasValue v \<and> val a = ValueOp v"
    unfolding value_shown_at value_live[OF a] by simp
  then show ?thesis using True a by auto
next
  case False
  have "shown_at (insert a A) j u e x \<longleftrightarrow> shown_at A j u e x" for e x
  proof (cases "e = d")
    case True
    have "\<not> shown_at B j u d x" if B: "B \<subseteq> insert a A" for B
    proof
      assume "shown_at B j u d x"
      then obtain c where c: "c \<in> insert a A" "val c = BotOp j" "child d c" "u = t" using B d(3) unfolding shown_at_def by auto
      have "c = b" by (rule one_parent[OF g c(1) _ c(3) b(2)]) (simp add: b(1))
      then show False using c(2,4) b(3) False by simp
    qed
    then show ?thesis using True by blast
  next
    case False
    then show ?thesis
      using shown_at_same[OF g] one_parent[OF g _ _ d(2)] d(1) unfolding shown_at_def by (metis insertCI)
  qed
  then have "value_shown (insert a A) j u v \<longleftrightarrow> value_shown A j u v" unfolding value_shown_at value_live[OF a] by blast
  then show ?thesis using False by auto
qed

text \<open>A deletion takes the bot with everything it shows.\<close>

lemma delete_shows:
  assumes g: "grows A a" and a: "is_delete a" and b: "b \<in> A" "child a b" "val b = BotOp i"
  shows "live_bot (insert a A) j \<longleftrightarrow> j \<noteq> i \<and> live_bot A j"
    and "value_shown (insert a A) j t v \<longleftrightarrow> j \<noteq> i \<and> value_shown A j t v"
proof -
  have av: "val a \<noteq> BotOp k" "val a \<noteq> TagOp k" for k using a by (auto simp: kind_of)
  show live: "live_bot (insert a A) j \<longleftrightarrow> j \<noteq> i \<and> live_bot A j"
  proof (cases "j = i")
    case True
    have "c = b" if "c \<in> insert a A" "val c = BotOp i" for c
      by (rule same_bot[OF g that(1) _ that(2) b(3)]) (simp add: b(1))
    then show ?thesis using b(2) a True unfolding live_bot_def by blast
  next
    case False
    have "\<not> child a c" if "c \<in> A" "val c = BotOp j" for c
    proof
      assume "child a c"
      have "c = b" by (rule one_parent[OF g _ _ \<open>child a c\<close> b(2)]) (simp_all add: that(1) b(1))
      then show False using b(3) that(2) False by simp
    qed
    then show ?thesis using False av(1) unfolding live_bot_def by blast
  qed
  have "\<not> child a d" if "d \<in> insert a A" "val d = TagOp t" for d
  proof
    assume "child a d"
    have "d = b" by (rule one_parent[OF g that(1) _ \<open>child a d\<close> b(2)]) (simp add: b(1))
    then show False using b(3) that(2) by simp
  qed
  then have "shown_at (insert a A) j t d x \<longleftrightarrow> shown_at A j t d x" for d x
    using shown_at_same[OF g] unfolding shown_at_def by blast
  with live show "value_shown (insert a A) j t v \<longleftrightarrow> j \<noteq> i \<and> value_shown A j t v" unfolding value_shown_at by blast
qed

end
