(* ===== verification/SpaceState.thy ===== *)
theory SpaceState
  imports SpaceSpec
begin

text \<open>
  Receiving atoms keeps the state of the bots to what the atoms show: what a merge does to a partial state, what the
  reducer does for each kind of atom, and batches.
\<close>

section \<open>Merging\<close>

lemma map_of_merge_obj:
  assumes "distinct (map fst y)"
  shows "map_of (merge_obj f x y) k = (case map_of y k of None \<Rightarrow> map_of x k | Some v \<Rightarrow> Some (f (map_of x k) v))"
  unfolding merge_obj_def by (rule fold_put[where g = "\<lambda>old _ v. Some (f old v)", OF _ assms]) (simp add: update_put)

lemma distinct_merge_obj: "distinct (map fst x) \<Longrightarrow> distinct (map fst (merge_obj f x y))"
  unfolding merge_obj_def by (rule fold_put_distinct[where g = "\<lambda>old _ v. Some (f old v)"]) (simp_all add: update_put)

lemma merge_value_plain: "no_object v \<Longrightarrow> v \<noteq> Undefined \<Longrightarrow> merge_value E old v = v"
  by (auto simp: merge_value_def no_object_def split: js.splits option.splits)

definition merged :: "'b aux_env \<Rightarrow> aux_bot option option \<Rightarrow> aux_bot option \<Rightarrow> aux_bot option" where
  "merged E old change =
     (case change of None \<Rightarrow> None | Some b \<Rightarrow> Some (merge_bot E (case old of Some (Some a) \<Rightarrow> a | _ \<Rightarrow> no_bot) b))"

lemma lodashMerge_one: "lodashMerge E u [(i, c)] = put i (Some (merged E (map_of u i) c)) u"
  by (simp add: lodashMerge_def merge_obj_def merged_def update_put)

lemma map_of_lodashMerge: "map_of (lodashMerge E u [(i, c)]) j = (if j = i then Some (merged E (map_of u i) c) else map_of u j)"
  by (simp add: lodashMerge_one)

text \<open>Partial states without masks.\<close>

definition plain_partial :: "partial_state \<Rightarrow> bool" where
  "plain_partial u \<longleftrightarrow> partial_ok u \<and> (\<forall>i b. map_of u i = Some (Some b) \<longrightarrow> ab_masks b = None)"

lemma partial_ok_map: "partial_ok u \<longleftrightarrow> distinct (map fst u) \<and> (\<forall>i b. map_of u i = Some (Some b) \<longrightarrow> objects_ok b)"
proof -
  have "(\<forall>(_, x)\<in>set u. case x of None \<Rightarrow> True | Some b \<Rightarrow> objects_ok b) \<longleftrightarrow>
      (\<forall>i x. map_of u i = Some x \<longrightarrow> (case x of None \<Rightarrow> True | Some b \<Rightarrow> objects_ok b))" if "distinct (map fst u)"
    using ball_map_of[OF that, of "\<lambda>x. case x of None \<Rightarrow> True | Some b \<Rightarrow> objects_ok b"] by simp
  then show ?thesis unfolding partial_ok_def by (auto split: option.splits)
qed

text \<open>The changes of the reducer: a bot, or the value of a tag.\<close>

definition small_change :: "aux_bot \<Rightarrow> bool" where
  "small_change b \<longleftrightarrow> distinct (map fst (or_empty (ab_tags b))) \<and> ab_signatures b = None \<and> ab_values b = None \<and> ab_masks b = None"

lemma objects_no_bot: "objects_ok no_bot" "ab_masks no_bot = None"
  by (simp_all add: objects_ok_def no_bot_def masks_ok_def)

lemma objects_merge:
  assumes "objects_ok a" and "ab_masks a = None" and "small_change b"
  shows "objects_ok (merge_bot E a b)" "ab_masks (merge_bot E a b) = None"
  using assms
  by (auto simp: objects_ok_def merge_bot_def merge_field_def small_change_def masks_ok_def merge_tags_def distinct_merge_obj
      split: option.splits)

lemma plain_partial_merge:
  assumes "plain_partial u" and "\<And>b. c = Some b \<Longrightarrow> small_change b"
  shows "plain_partial (lodashMerge E u [(i, c)])"
proof -
  let ?old = "case map_of u i of Some (Some a) \<Rightarrow> a | _ \<Rightarrow> no_bot"
  have old: "objects_ok ?old" "ab_masks ?old = None"
    using assms(1) objects_no_bot unfolding plain_partial_def partial_ok_map by (auto split: option.splits)
  have "distinct (map fst (lodashMerge E u [(i, c)]))"
    using assms(1) unfolding lodashMerge_one by (intro distinct_put) (simp add: plain_partial_def partial_ok_def)
  moreover have "objects_ok b \<and> ab_masks b = None" if b: "map_of (lodashMerge E u [(i, c)]) j = Some (Some b)" for j b
  proof (cases "j = i")
    case True
    with b obtain d where d: "c = Some d" "b = merge_bot E ?old d"
      by (auto simp: map_of_lodashMerge merged_def split: option.splits)
    from objects_merge[OF old assms(2)[OF d(1)], of E] d(2) show ?thesis by blast
  next
    case False
    with b assms(1) show ?thesis unfolding plain_partial_def partial_ok_map by (simp add: map_of_lodashMerge)
  qed
  ultimately show ?thesis unfolding plain_partial_def partial_ok_map by blast
qed

lemma small_changes:
  "small_change (no_bot\<lparr>ab_tags := Some [(t, v)]\<rparr>)" "small_change (createBot i None space)"
  by (simp_all add: small_change_def no_bot_def createBot_def)

section \<open>What a change makes of the state\<close>

text \<open>Bots that the change does not name are as they were.\<close>

lemma change_elsewhere:
  assumes "partial_ok u" and "partial_ok (lodashMerge E u [(i, c)])" and "j \<noteq> i"
  shows "map_of (apply_state s (lodashMerge E u [(i, c)])) j = map_of (apply_state s u) j"
  using assms by (simp add: map_of_apply_state partial_ok_def map_of_lodashMerge)

lemma bot_tag_same: "map_of s i = map_of s' i \<Longrightarrow> bot_tag s i t = bot_tag s' i t"
  by (simp add: bot_tag_def)

lemma merged_tags:
  assumes "no_object v" and "v \<noteq> Undefined"
  shows "map_of (or_empty (ab_tags (merge_bot E a (no_bot\<lparr>ab_tags := Some [(t, v)]\<rparr>)))) k =
    (if k = t then Some v else map_of (or_empty (ab_tags a)) k)"
  using merge_value_plain[OF assms, of E]
  by (simp add: merge_bot_def merge_field_def no_bot_def merge_tags_def map_of_merge_obj)

lemma tag_after_plain: "no_object v \<Longrightarrow> tag_after n old (Some v) = (if v = Null then None else Some v)"
  by (auto simp: tag_after_def edit_value_def no_object_def is_plain_object_def Let_def split: js.splits plain_value.splits)

lemma tag_changed:
  assumes u: "plain_partial u" and there: "map_of (apply_state s u) i \<noteq> None" and v: "no_object v" "v \<noteq> Undefined"
  shows "map_of (apply_state s (lodashMerge E u (tag_change i t v))) j = None \<longleftrightarrow> map_of (apply_state s u) j = None"
    and "bot_tag (apply_state s (lodashMerge E u (tag_change i t v))) j k =
      (if j = i \<and> k = t then (if v = Null then None else Some v) else bot_tag (apply_state s u) j k)"
proof -
  let ?d = "no_bot\<lparr>ab_tags := Some [(t, v)]\<rparr>"
  let ?u = "lodashMerge E u (tag_change i t v)"
  have ok: "partial_ok u" "partial_ok ?u"
    using u plain_partial_merge[OF u, of "Some ?d" E i] small_changes(1) by (simp_all add: plain_partial_def tag_change_def)
  have at: "map_of ?u i = Some (Some (merge_bot E (case map_of u i of Some (Some a) \<Rightarrow> a | _ \<Rightarrow> no_bot) ?d))"
    by (simp add: tag_change_def map_of_lodashMerge merged_def)
  have other: "map_of (apply_state s ?u) j = map_of (apply_state s u) j" if "j \<noteq> i" for j
    using change_elsewhere[OF ok(1) _ that] ok(2) by (simp add: tag_change_def)
  have "map_of (apply_state s ?u) i \<noteq> None" using at by (simp add: apply_state_views(1)[OF ok(2)])
  with there other show "map_of (apply_state s ?u) j = None \<longleftrightarrow> map_of (apply_state s u) j = None"
    by (cases "j = i") auto
  have "bot_tag (apply_state s ?u) i k = (if k = t then (if v = Null then None else Some v) else bot_tag (apply_state s u) i k)"
  proof (cases "map_of u i")
    case None
    then show ?thesis
      by (simp add: apply_state_views(2)[OF ok(2)] apply_state_views(2)[OF ok(1)] at merged_tags[OF v] tag_after_plain[OF v(1)])
        (simp add: no_bot_def)
  next
    case (Some x)
    then obtain a where "x = Some a" using there by (cases x) (simp_all add: apply_state_views(1)[OF ok(1)])
    with Some show ?thesis
      by (simp add: apply_state_views(2)[OF ok(2)] apply_state_views(2)[OF ok(1)] at merged_tags[OF v] tag_after_plain[OF v(1)])
  qed
  then show "bot_tag (apply_state s ?u) j k =
      (if j = i \<and> k = t then (if v = Null then None else Some v) else bot_tag (apply_state s u) j k)"
    using bot_tag_same[OF other, of j k] by (cases "j = i") simp_all
qed

lemma bot_added:
  assumes u: "plain_partial u" and none: "map_of s i = None" "map_of u i = None"
  shows "map_of (apply_state s (lodashMerge E u [(i, Some (createBot i None space))])) j = None \<longleftrightarrow>
      j \<noteq> i \<and> map_of (apply_state s u) j = None"
    and "bot_tag (apply_state s (lodashMerge E u [(i, Some (createBot i None space))])) j k = bot_tag (apply_state s u) j k"
proof -
  let ?u = "lodashMerge E u [(i, Some (createBot i None space))]"
  have ok: "partial_ok u" "partial_ok ?u"
    using u plain_partial_merge[OF u, of "Some (createBot i None space)" E i] small_changes(2) by (simp_all add: plain_partial_def)
  have at: "map_of ?u i = Some (Some (merge_bot E no_bot (createBot i None space)))"
    using none(2) by (simp add: map_of_lodashMerge merged_def)
  have other: "map_of (apply_state s ?u) j = map_of (apply_state s u) j" if "j \<noteq> i" for j
    using change_elsewhere[OF ok that] .
  have "map_of (apply_state s ?u) i \<noteq> None" using at by (simp add: apply_state_views(1)[OF ok(2)])
  with other show "map_of (apply_state s ?u) j = None \<longleftrightarrow> j \<noteq> i \<and> map_of (apply_state s u) j = None"
    by (cases "j = i") auto
  have "map_of (or_empty (ab_tags (merge_bot E no_bot (createBot i None space)))) k = None"
    by (simp add: merge_bot_def merge_field_def createBot_def merge_tags_def merge_obj_def no_bot_def)
  then have "bot_tag (apply_state s ?u) i k = bot_tag (apply_state s u) i k"
    using none by (simp add: apply_state_views(2)[OF ok(2)] apply_state_views(2)[OF ok(1)] at)
  then show "bot_tag (apply_state s ?u) j k = bot_tag (apply_state s u) j k"
    using bot_tag_same[OF other] by (cases "j = i") simp_all
qed

lemma bot_removed:
  assumes u: "plain_partial u"
  shows "map_of (apply_state s (lodashMerge E u [(i, None)])) j = None \<longleftrightarrow> j = i \<or> map_of (apply_state s u) j = None"
    and "bot_tag (apply_state s (lodashMerge E u [(i, None)])) j k = (if j = i then None else bot_tag (apply_state s u) j k)"
proof -
  let ?u = "lodashMerge E u [(i, None)]"
  have ok: "partial_ok u" "partial_ok ?u"
    using u plain_partial_merge[OF u, of None E i] by (simp_all add: plain_partial_def)
  have at: "map_of ?u i = Some None" by (simp add: map_of_lodashMerge merged_def)
  have other: "map_of (apply_state s ?u) j = map_of (apply_state s u) j" if "j \<noteq> i" for j
    using change_elsewhere[OF ok that] .
  show "map_of (apply_state s ?u) j = None \<longleftrightarrow> j = i \<or> map_of (apply_state s u) j = None"
    using other at by (cases "j = i") (simp_all add: apply_state_views(1)[OF ok(2)])
  show "bot_tag (apply_state s ?u) j k = (if j = i then None else bot_tag (apply_state s u) j k)"
    using bot_tag_same[OF other] at by (cases "j = i") (simp_all add: apply_state_views(2)[OF ok(2)])
qed

section \<open>One atom\<close>

text \<open>The state that a partial state makes of another shows the atoms, and no bot is in either that is not theirs.\<close>

definition batch_ok :: "bots_state \<Rightarrow> partial_state \<Rightarrow> aux_op atom set \<Rightarrow> bool" where
  "batch_ok s u A \<longleftrightarrow> plain_partial u \<and> shows_atoms (apply_state s u) A \<and>
     (\<forall>i. map_of s i \<noteq> None \<or> map_of u i \<noteq> None \<longrightarrow> (\<exists>b\<in>A. val b = BotOp i))"

lemma batch_known:
  assumes "batch_ok s u A" and "\<exists>b\<in>A. val b = BotOp i"
  shows "\<forall>j. map_of s j \<noteq> None \<or> map_of (lodashMerge E u [(i, c)]) j \<noteq> None \<longrightarrow> (\<exists>b\<in>A. val b = BotOp j)"
proof (intro allI impI)
  fix j assume j: "map_of s j \<noteq> None \<or> map_of (lodashMerge E u [(i, c)]) j \<noteq> None"
  show "\<exists>b\<in>A. val b = BotOp j"
  proof (cases "j = i")
    case False
    then have "map_of (lodashMerge E u [(i, c)]) j = map_of u j" by (simp add: map_of_lodashMerge)
    then show ?thesis using j assms(1) unfolding batch_ok_def by metis
  qed (use assms(2) in simp)
qed

text \<open>An atom that shows nothing new.\<close>

lemma batch_same:
  assumes "batch_ok s u A" and "\<And>i. live_bot (insert a A) i \<longleftrightarrow> live_bot A i"
    and "\<And>i t v. value_shown (insert a A) i t v \<longleftrightarrow> value_shown A i t v"
  shows "batch_ok s u (insert a A)"
  using assms unfolding batch_ok_def shows_atoms_def by blast

lemma live_there: "batch_ok s u A \<Longrightarrow> live_bot A i \<longleftrightarrow> map_of (apply_state s u) i \<noteq> None"
  unfolding batch_ok_def shows_atoms_def by blast

lemma shown_there: "batch_ok s u A \<Longrightarrow> value_shown A i t v \<longleftrightarrow> bot_tag (apply_state s u) i t = Some v"
  unfolding batch_ok_def shows_atoms_def by blast

lemma bot_step:
  assumes g: "grows A a" and a: "val a = BotOp i" and ok: "batch_ok s u A"
  shows "batch_ok s (addBot E a i u space) (insert a A)"
proof -
  have cause: "cause a = None" using space_bot(1)[OF growsD(3)[OF g] _ a] by simp
  have none: "map_of s i = None" "map_of u i = None"
    using bot_not_before[OF g a] ok unfolding batch_ok_def by blast+
  have u: "plain_partial u" using ok by (simp add: batch_ok_def)
  note added = bot_added[OF u none, of E space]
  have "\<exists>b\<in>insert a A. val b = BotOp j" if "map_of s j \<noteq> None \<or> map_of (lodashMerge E u [(i, Some (createBot i None space))]) j \<noteq> None" for j
    using that ok a by (cases "j = i") (auto simp: batch_ok_def map_of_lodashMerge)
  moreover have "shows_atoms (apply_state s (lodashMerge E u [(i, Some (createBot i None space))])) (insert a A)"
    unfolding shows_atoms_def bot_live[OF g a] bot_shows[OF g a] live_there[OF ok] shown_there[OF ok]
    using added by auto
  moreover have "plain_partial (lodashMerge E u [(i, Some (createBot i None space))])"
    by (rule plain_partial_merge[OF u]) (use small_changes(2) in auto)
  moreover have "addBot E a i u space = lodashMerge E u [(i, Some (createBot i None space))]" using cause by (simp add: addBot_def)
  ultimately show ?thesis unfolding batch_ok_def by simp
qed

lemma tag_step:
  assumes "grows A a" and "val a = TagOp t" and "batch_ok s u A"
  shows "batch_ok s u (insert a A)"
  using batch_same[OF assms(3)] tag_shows[OF assms(1,2)] by blast

text \<open>The first child of a bot is a deletion if the bot was deleted.\<close>

lemma deleted_first:
  assumes c: "closed_space A" and b: "b \<in> A" "val b = BotOp i" and y: "newest A b y"
  shows "is_delete y \<longleftrightarrow> \<not> live_bot A i"
proof
  have one: "c = b" if "c \<in> A" "val c = BotOp i" for c using space_bot(2)[OF c b that] .
  have ya: "y \<in> A" "child y b" using y by (simp_all add: newest_def)
  show "is_delete y \<Longrightarrow> \<not> live_bot A i" using one ya unfolding live_bot_def by blast
  assume "\<not> live_bot A i"
  then obtain z where z: "z \<in> A" "child z b" "is_delete z" using b unfolding live_bot_def by blast
  have zp: "0 < prio z" by (rule space_delete[OF c z(1,3)])
  show "is_delete y"
  proof (rule ccontr)
    assume no: "\<not> is_delete y"
    have "is_tag y"
    proof -
      consider "is_bot y" | "is_tag y" | v where "val y = ValueOp v" using space_kinds[OF c ya(1)] no by blast
      then show ?thesis
      proof cases
        case 1
        then obtain k where "val y = BotOp k" using kind_of(1) by blast
        from space_bot(1)[OF c ya(1) this] child_cause[OF ya(2)] show ?thesis by simp
      next
        case 3
        obtain d t where d: "d \<in> A" "child y d" "val d = TagOp t" by (rule space_value[OF c ya(1) 3])
        have "d = b" by (rule closed_cause[OF c d(1) b(1) d(2) ya(2)])
        with d(3) b(2) show ?thesis by simp
      qed
    qed
    then obtain t where "val y = TagOp t" using kind_of(2) by blast
    then have yp: "prio y = 0" by (rule space_tag[OF c ya(1)])
    have "z \<noteq> y" using no z(3) by blast
    then have "sib_before y z" using y z by (auto simp: newest_def)
    then show False using zp yp by (simp add: sib_before_iff)
  qed
qed

lemma value_step:
  assumes g: "grows A a" and a: "val a = ValueOp w" and ok: "batch_ok s u A"
    and d: "d \<in> A" "child a d" "val d = TagOp t" and b: "b \<in> A" "child d b" "val b = BotOp i" "live_bot A i"
    and first: "newest (insert a A) d a"
  shows "batch_ok s (lodashMerge E u (tag_change i t (if hasValue w then w else Null))) (insert a A)"
proof -
  let ?v = "if hasValue w then w else Null"
  have "no_object w" by (rule space_value[OF growsD(3)[OF g] _ a]) auto
  then have v: "no_object ?v" "?v \<noteq> Undefined" by (auto simp: no_object_def hasValue_def)
  have u: "plain_partial u" using ok by (simp add: batch_ok_def)
  have there: "map_of (apply_state s u) i \<noteq> None" using b(4) live_there[OF ok] by simp
  note changed = tag_changed[OF u there v, where E = E and t = t]
  have "shows_atoms (apply_state s (lodashMerge E u (tag_change i t ?v))) (insert a A)"
    unfolding shows_atoms_def value_live[OF a] value_first[OF g a d b(1-3) first] live_there[OF ok] shown_there[OF ok]
    using changed there by (auto simp: hasValue_def split: if_splits)
  moreover have "plain_partial (lodashMerge E u (tag_change i t ?v))"
    unfolding tag_change_def by (rule plain_partial_merge[OF u]) (use small_changes(1) in auto)
  moreover have "\<exists>c\<in>A. val c = BotOp i" using b by blast
  ultimately show ?thesis using batch_known[OF ok, of i E] unfolding batch_ok_def tag_change_def by blast
qed

lemma gone_step:
  assumes g: "grows A a" and a: "is_delete a" and b: "b \<in> A" "child a b" "val b = BotOp i" and ok: "batch_ok s u A"
  shows "batch_ok s (deleteBot E i u) (insert a A)"
    and "\<not> live_bot A i \<Longrightarrow> batch_ok s u (insert a A)"
proof -
  have u: "plain_partial u" using ok by (simp add: batch_ok_def)
  note gone = bot_removed[OF u, where E = E and s = s and i = i]
  have "shows_atoms (apply_state s (lodashMerge E u [(i, None)])) (insert a A)"
    unfolding shows_atoms_def delete_shows[OF g a b] live_there[OF ok] shown_there[OF ok] using gone by auto
  moreover have "plain_partial (lodashMerge E u [(i, None)])" by (rule plain_partial_merge[OF u]) simp
  moreover have "\<exists>c\<in>A. val c = BotOp i" using b by blast
  ultimately show "batch_ok s (deleteBot E i u) (insert a A)"
    using batch_known[OF ok, of i E] unfolding batch_ok_def deleteBot_def by blast
  assume dead: "\<not> live_bot A i"
  then have "\<not> value_shown A i t v" for t v by (simp add: value_shown_def)
  with dead show "batch_ok s u (insert a A)"
    by (intro batch_same[OF ok]; unfold delete_shows[OF g a b]) blast+
qed

end
