(* ===== verification/SpaceStep.thy ===== *)
theory SpaceStep
  imports SpaceState
begin

text \<open>
  What the reducer does for an atom that was added to the weave of a space is to keep the state to what the atoms show.
\<close>

section \<open>A value\<close>

lemma no_certificates: "closed_space A \<Longrightarrow> \<forall>x\<in>A. case val x of CertificateOp _ _ \<Rightarrow> False | _ \<Rightarrow> True"
  using space_kinds kind_of by (fastforce split: aux_op.split)

text \<open>Where the new atom is: in a weave that holds it and the atoms before.\<close>

definition placed :: "aux_op weave \<Rightarrow> aux_op atom list \<Rightarrow> aux_op ctree list \<Rightarrow> aux_op atom \<Rightarrow> aux_op atom set \<Rightarrow> bool" where
  "placed w acc ks a A \<longleftrightarrow> rep w acc ks \<and> set acc = insert a A \<and> grows A a \<and> inj_on ahash (set acc)"

lemma placedD:
  assumes "placed w acc ks a A"
  shows "rep w acc ks" "set acc = insert a A" "grows A a" "a \<in> set acc" "closed_space (set acc)"
    "\<And>y. y \<in> set acc \<Longrightarrow> ahash y = ahash a \<longleftrightarrow> y = a"
  using assms growsD by (auto simp: placed_def dest: inj_onD)

lemma other_atom: "placed w acc ks a A \<Longrightarrow> x \<in> set acc \<Longrightarrow> x \<noteq> a \<Longrightarrow> x \<in> A"
  using placedD(2) by blast

text \<open>The tag and the bot of a value, with the first children that the code asks for.\<close>

lemma value_place:
  assumes p: "placed w acc ks a A" and a: "val a = ValueOp v"
  obtains d t b i na nd nb m y m' y' where
    "d \<in> A" "child a d" "val d = TagOp t" "t \<noteq> []" "b \<in> A" "child d b" "val b = BotOp i"
    "chain_of w (Some (aid a)) = Some [(na, a), (nd, d), (nb, b)]"
    "first_in_group w nd = Some (Some (m, y))" "newest (set acc) d y" "getNode w (aid y) = Some m"
    "first_in_group w nb = Some (Some (m', y'))" "newest (set acc) b y'"
proof -
  note rep = placedD(1)[OF p] and c = placedD(5)[OF p]
  obtain d t where d: "d \<in> set acc" "child a d" "val d = TagOp t" by (rule space_value[OF c placedD(4)[OF p] a])
  obtain b i where b: "t \<noteq> []" "b \<in> set acc" "child d b" "val b = BotOp i" by (rule space_tag[OF c d(1,3)])
  have "cause b = None" by (rule space_bot(1)[OF c b(2,4)])
  then obtain na nd nb where chain: "chain_of w (Some (aid a)) = Some [(na, a), (nd, d), (nb, b)]"
      "getNode w (aid d) = Some nd" "getNode w (aid b) = Some nb"
    by (rule value_chain[OF rep placedD(4)[OF p] d(1) b(2) d(2) b(3)])
  obtain m y where y: "first_in_group w nd = Some (Some (m, y))" "newest (set acc) d y" "getNode w (aid y) = Some m"
    by (rule first_child[OF rep d(1) chain(2) placedD(4)[OF p] d(2)])
  obtain m' y' where y': "first_in_group w nb = Some (Some (m', y'))" "newest (set acc) b y'"
    by (rule first_child[OF rep b(2) chain(3) d(1) b(3)])
  have "d \<noteq> a" "b \<noteq> a" using a d(3) b(4) by auto
  then have "d \<in> A" "b \<in> A" using other_atom[OF p] d(1) b(2) by simp_all
  with that show ?thesis using d b chain(1) y y' by blast
qed

lemma value_added:
  assumes p: "placed w acc ks a A" and a: "val a = ValueOp v" and ok: "batch_ok s u A"
  shows "\<exists>u1. valueAtomAddedReducer E w a v u space = Some u1 \<and> batch_ok s u1 (insert a A)"
proof -
  note g = placedD(3)[OF p] and c = placedD(5)[OF p] and all = placedD(2)[OF p]
  obtain d t b i na nd nb m y m' y' where d: "d \<in> A" "child a d" "val d = TagOp t" "t \<noteq> []"
    and b: "b \<in> A" "child d b" "val b = BotOp i"
    and chain: "chain_of w (Some (aid a)) = Some [(na, a), (nd, d), (nb, b)]"
    and y: "first_in_group w nd = Some (Some (m, y))" "newest (set acc) d y" "getNode w (aid y) = Some m"
    and y': "first_in_group w nb = Some (Some (m', y'))" "newest (set acc) b y'"
    by (rule value_place[OF p a])
  have ya: "y \<in> set acc" using y(2) by (simp add: newest_def)
  have bacc: "b \<in> set acc" using b(1) all by simp
  have dead: "is_delete y' \<longleftrightarrow> \<not> live_bot A i"
    using deleted_first[OF c bacc b(3) y'(2)] unfolding all value_live[OF a] .
  show ?thesis
  proof (cases "y = a")
    case False
    then have "valueAtomAddedReducer E w a v u space = Some u"
      using chain d(3,4) b(3) y(1) placedD(6)[OF p ya] by (simp add: valueAtomAddedReducer_def op_of_def)
    moreover have "\<not> newest (insert a A) d a" using False newest_unique y(2) all by metis
    then have "batch_ok s u (insert a A)"
      by (intro batch_same[OF ok] value_live[OF a] value_hidden[OF g a d(2,1)])
    ultimately show ?thesis by blast
  next
    case True
    then have first: "newest (insert a A) d a" using y(2) all by simp
    show ?thesis
    proof (cases "live_bot A i")
      case False
      then have "valueAtomAddedReducer E w a v u space = Some u"
        using chain d(3,4) b(3) y(1) y'(1) True dead by (simp add: valueAtomAddedReducer_def op_of_def isBotDeleted_def)
      moreover have "\<not> value_shown A i t x" for x using False by (simp add: value_shown_def)
      with False have "value_shown (insert a A) j k x \<longleftrightarrow> value_shown A j k x" for j k x
        unfolding value_first[OF g a d(1-3) b first] by auto
      then have "batch_ok s u (insert a A)" by (rule batch_same[OF ok value_live[OF a]])
      ultimately show ?thesis by blast
    next
      case live: True
      have "replaced_signature E w (m, a) i t u = Some u"
        by (rule nothing_signed[OF placedD(1,4)[OF p] _ no_certificates[OF c]]) (use y(3) True in simp)
      then have "valueAtomAddedReducer E w a v u space = Some (lodashMerge E u (tag_change i t (if hasValue v then v else Null)))"
        using chain d(3,4) b(3) y(1) y'(1) True dead live
        by (simp add: valueAtomAddedReducer_def op_of_def isBotDeleted_def)
      with value_step[OF g a ok d(1-3) b live first] show ?thesis by blast
    qed
  qed
qed

section \<open>A deletion\<close>

lemma delete_added:
  assumes p: "placed w acc ks a A" and a: "is_delete a" and ok: "batch_ok s u A"
  shows "\<exists>u1. deleteAtomAddedReducer E w a q e u space = Some u1 \<and> batch_ok s u1 (insert a A)"
proof -
  note g = placedD(3)[OF p] and c = placedD(5)[OF p] and all = placedD(2)[OF p] and rep = placedD(1)[OF p]
  obtain b i where b: "b \<in> set acc" "child a b" "val b = BotOp i" by (rule space_delete[OF c placedD(4)[OF p] a])
  have "b \<noteq> a" using a b(3) by (auto simp: is_delete_def)
  then have bA: "b \<in> A" using other_atom[OF p b(1)] by simp
  obtain n where n: "cause_node w a = Some (Some (n, b))" "getNode w (aid b) = Some n" by (rule rep_cause_node[OF rep b(1,2)])
  obtain m y where y: "first_in_group w n = Some (Some (m, y))" "newest (set acc) b y"
    by (rule first_child[OF rep b(1) n(2) placedD(4)[OF p] b(2)])
  have ya: "y \<in> set acc" using y(2) by (simp add: newest_def)
  have red: "deleteAtomAddedReducer E w a q e u space = Some (if y \<noteq> a then u else deleteBot E i u)"
    using n(1) b(3) y(1) placedD(6)[OF p ya] by (simp add: deleteAtomAddedReducer_def op_of_def deleteBotReducer_def)
  note step = gone_step[OF g a bA b(2,3) ok]
  show ?thesis
  proof (cases "y = a")
    case True
    then show ?thesis using red step(1)[of E] by simp
  next
    case False
    have "\<not> live_bot (set acc) i" unfolding all delete_shows(1)[OF g a bA b(2,3)] by simp
    then have del: "is_delete y" using deleted_first[OF c b(1,3) y(2)] by simp
    have "\<not> newest (insert a A) b a" using False newest_unique y(2) all by metis
    then have "newest A b y" using newest_old[OF g b(2)] y(2) all by simp
    then have "\<not> live_bot A i" using deleted_first[OF growsD(1)[OF g] bA b(3)] del by simp
    then show ?thesis using red False step(2) by simp
  qed
qed

section \<open>Every atom\<close>

lemma atom_added:
  assumes p: "placed w acc ks a A" and ok: "batch_ok s u A"
  shows "\<exists>u1. atomAddedReducer E w a u space initial = Some u1 \<and> batch_ok s u1 (insert a A)"
proof -
  note g = placedD(3)[OF p] and c = placedD(5)[OF p]
  consider i where "val a = BotOp i" | t where "val a = TagOp t" | v where "val a = ValueOp v" | q e where "val a = TextDeleteOp q e"
    using space_kinds[OF c placedD(4)[OF p]] kind_of by blast
  then show ?thesis
  proof cases
    case 1
    then show ?thesis using bot_step[OF g 1 ok, where E = E and space = space] by (simp add: atomAddedReducer_def)
  next
    case 2
    then show ?thesis using tag_step[OF g _ ok] by (simp add: atomAddedReducer_def)
  next
    case 3
    then show ?thesis using value_added[OF p 3 ok, of E space] by (simp add: atomAddedReducer_def)
  next
    case 4
    then have "is_delete a" "q = None" using space_delete_all[OF c placedD(4)[OF p]] by (simp_all add: is_delete_def)
    then show ?thesis using 4 delete_added[OF p _ ok, of E q e space] by (simp add: atomAddedReducer_def)
  qed
qed

end
