(* ===== verification/SpaceBatches.thy ===== *)
theory SpaceBatches
  imports SpaceStep CausalTreeSpec
begin

text \<open>
  Batches of atoms for an AUX tree: after each one the bots of the state are those that all the atoms show.
\<close>

section \<open>One batch\<close>

text \<open>A partial state without masks can be described.\<close>

lemma updates_from_plain: "(\<forall>(_, x)\<in>set u. \<forall>b. x = Some b \<longrightarrow> ab_masks b = None) \<Longrightarrow> updates_from s u r \<noteq> None"
  by (induction u arbitrary: r) (auto simp: updated_of_def Let_def split: option.splits)

lemma plain_updates: "plain_partial u \<Longrightarrow> \<exists>ups. updates s u = Some ups"
  using updates_from_plain[of u s] ball_map_of[of u "\<lambda>x. \<forall>b. x = Some b \<longrightarrow> ab_masks b = None"]
  by (auto simp: plain_partial_def partial_ok_def updates_def)

text \<open>Nothing in a space edits a text.\<close>

lemma nothing_noted:
  assumes p: "placed w acc ks a A"
  shows "note_edit w a ed = Some ed"
proof -
  note c = placedD(5)[OF p]
  have "\<exists>n b i. cause_node w a = Some (Some (n, b)) \<and> val b = BotOp i" if del: "is_delete a"
  proof -
    obtain b i where b: "b \<in> set acc" "child a b" "val b = BotOp i" by (rule space_delete[OF c placedD(4)[OF p] del])
    obtain n where "cause_node w a = Some (Some (n, b))" by (rule rep_cause_node[OF placedD(1)[OF p] b(1,2)])
    with b(3) show ?thesis by blast
  qed
  then show ?thesis using space_kinds[OF c placedD(4)[OF p]] kind_of
    by (auto simp: note_edit_def op_of_def split: aux_op.split)
qed

lemma placed_new:
  assumes "rep w acc ks" and "rep w' (acc @ [a]) ls" and "ready H acc a"
    and "space_atoms (set (acc @ [a]))" and "inj_on ahash (set (acc @ [a]))"
  shows "placed w' (acc @ [a]) ls a (set acc)"
proof -
  have "closed_space (set acc)" using rep_closed[OF assms(1)] space_atoms_mono[OF assms(4)] by auto
  moreover have "closed_space (insert a (set acc))" using rep_closed[OF assms(2,4)] by simp
  moreover have "a \<notin> set acc" using assms(3) by (auto simp: ready_def)
  ultimately show ?thesis using assms(2,5) by (simp add: placed_def grows_def)
qed

lemma receive_space:
  assumes "rep (tree_weave T) acc ks" and "batch_ok s u (set acc)" and "causal_seq H acc as"
    and "space_atoms (set (acc @ as))" and "inj_on ahash (set (acc @ as))"
  shows "\<exists>T' rs' u' ls. receive_atoms H E space initial as (T, rs, u, []) = Some (T', rs', u', []) \<and>
    rep (tree_weave T') (acc @ as) ls \<and> batch_ok s u' (set (acc @ as))"
  using assms
proof (induction as arbitrary: T acc ks u rs)
  case (Cons a as)
  have ready: "ready H acc a" and rest: "causal_seq H (acc @ [a]) as" using Cons.prems(3) by simp_all
  obtain w ls where w: "weave_insert H (tree_weave T) a = Some (Inr (AtomAdded a), w)" "rep w (acc @ [a]) ls"
    using rep_step[OF Cons.prems(1) ready] by blast
  have p: "placed w (acc @ [a]) ls a (set acc)"
    using Cons.prems(4,5) by (intro placed_new[OF Cons.prems(1) w(2) ready]) (auto elim: space_atoms_mono inj_on_subset)
  from atom_added[OF p Cons.prems(2), of E space initial] obtain u1 where
    u1: "atomAddedReducer E w a u space initial = Some u1" "batch_ok s u1 (set (acc @ [a]))" by auto
  let ?T = "track_atoms (T\<lparr>tree_weave := w\<rparr>) [a]"
  have T: "rep (tree_weave ?T) (acc @ [a]) ls" using w(2) by simp
  have all: "space_atoms (set ((acc @ [a]) @ as))" "inj_on ahash (set ((acc @ [a]) @ as))" using Cons.prems(4,5) by simp_all
  have "receive_atoms H E space initial (a # as) (T, rs, u, []) =
      receive_atoms H E space initial as (?T, rs @ [AtomAdded a], u1, [])"
    using w(1) u1(1) nothing_noted[OF p, of "[]"] by (simp add: reducer_def addedWeaveAtoms_def)
  then show ?case using Cons.IH[OF T u1(2) rest all, of "rs @ [AtomAdded a]"] by simp
qed (simp, blast)

section \<open>Devices\<close>

text \<open>The tree holds the atoms and the state shows them.\<close>

definition mirrors :: "aux_doc \<Rightarrow> aux_op atom list \<Rightarrow> bool" where
  "mirrors D acc \<longleftrightarrow> (\<exists>ks. rep (tree_weave (doc_tree D)) acc ks) \<and> shows_atoms (doc_state D) (set acc)"

lemma mirrors_new: "mirrors (auxTree uuid i uuid2 remote) []"
proof -
  have "rep (tree_weave (doc_tree (auxTree uuid i uuid2 remote))) [] []" by (simp add: auxTree_def new_tree_def Let_def rep_new)
  moreover have "shows_atoms [] {}" by (simp add: shows_atoms_def live_bot_def value_shown_def bot_tag_def tag_in_def)
  ultimately show ?thesis by (auto simp: mirrors_def auxTree_def)
qed

lemma batch_start:
  assumes "shows_atoms s A"
  shows "batch_ok s [] A"
proof -
  have "\<exists>b\<in>A. val b = BotOp i" if "map_of s i \<noteq> None" for i
    using assms that unfolding shows_atoms_def live_bot_def by metis
  then show ?thesis using assms by (simp add: batch_ok_def plain_partial_def partial_ok_def apply_state_def)
qed

lemma applyAtoms_mirrors:
  assumes m: "mirrors D acc" and "causal_seq H acc as" and "space_atoms (set (acc @ as))" and "inj_on ahash (set (acc @ as))"
  shows "\<exists>D' ups rs u. applyAtoms H E D as [] space initial = Some (D', ups, rs, u) \<and> mirrors D' (acc @ as)"
proof -
  obtain ks where "rep (tree_weave (doc_tree D)) acc ks" "batch_ok (doc_state D) [] (set acc)"
    using m batch_start by (auto simp: mirrors_def)
  from receive_space[OF this assms(2-4), of E space initial "[]"] obtain T rs u ls where
    1: "receive_atoms H E space initial as (doc_tree D, [], [], []) = Some (T, rs, u, [])"
    and T: "rep (tree_weave T) (acc @ as) ls" and u: "batch_ok (doc_state D) u (set (acc @ as))" by blast
  have "plain_partial u" using u by (simp add: batch_ok_def)
  then obtain ups where "updates (doc_state D) u = Some ups" using plain_updates by blast
  with 1 have "applyAtoms H E D as [] space initial = Some (\<lparr>doc_tree = T, doc_state = apply_state (doc_state D) u\<rparr>, ups, rs, u)"
    by (simp add: applyAtoms_def)
  moreover have "mirrors \<lparr>doc_tree = T, doc_state = apply_state (doc_state D) u\<rparr> (acc @ as)"
    using T u by (auto simp: mirrors_def batch_ok_def)
  ultimately show ?thesis by blast
qed

text \<open>Batches, each with whether it is the first load.\<close>

fun deliver ::
    "aux_op hasher \<Rightarrow> 'b aux_env \<Rightarrow> string option \<Rightarrow> aux_doc \<Rightarrow> (aux_op atom list \<times> bool) list \<Rightarrow> aux_doc option" where
  "deliver H E space D [] = Some D"
| "deliver H E space D ((as, initial) # bs) =
     do { (D1, _) \<leftarrow> applyAtoms H E D as [] space initial; deliver H E space D1 bs }"

definition delivered :: "(aux_op atom list \<times> bool) list \<Rightarrow> aux_op atom list" where
  "delivered bs = concat (map fst bs)"

lemma causal_seq_append: "causal_seq H acc (as @ bs) \<longleftrightarrow> causal_seq H acc as \<and> causal_seq H (acc @ as) bs"
  by (induction as arbitrary: acc) simp_all

lemma deliver_mirrors:
  assumes "mirrors D acc" and "causal_seq H acc (delivered bs)" and "space_atoms (set (acc @ delivered bs))"
    and "inj_on ahash (set (acc @ delivered bs))"
  shows "\<exists>D'. deliver H E space D bs = Some D' \<and> mirrors D' (acc @ delivered bs)"
  using assms
proof (induction bs arbitrary: D acc)
  case (Cons b bs)
  obtain as initial where b: "b = (as, initial)" by (cases b)
  have all: "delivered (b # bs) = as @ delivered bs" by (simp add: b delivered_def)
  have seq: "causal_seq H acc as" "causal_seq H (acc @ as) (delivered bs)"
    using Cons.prems(2) by (simp_all add: all causal_seq_append)
  have "\<exists>D' ups rs u. applyAtoms H E D as [] space initial = Some (D', ups, rs, u) \<and> mirrors D' (acc @ as)"
    using Cons.prems(3,4) unfolding all
    by (intro applyAtoms_mirrors[OF Cons.prems(1) seq(1)]) (auto elim: space_atoms_mono inj_on_subset)
  then obtain D' ups rs u where D: "applyAtoms H E D as [] space initial = Some (D', ups, rs, u)" "mirrors D' (acc @ as)" by blast
  have "\<exists>D''. deliver H E space D' bs = Some D'' \<and> mirrors D'' ((acc @ as) @ delivered bs)"
    using Cons.prems(3,4) unfolding all by (intro Cons.IH[OF D(2) seq(2)]) simp_all
  then show ?case using D(1) all by (simp add: b)
qed (simp add: delivered_def)

end
