(* ===== verification/SpaceClaims.thy ===== *)
theory SpaceClaims
  imports SpaceBatches TextClaims CausalRemoval
begin

text \<open>
  The properties of AUX trees that receive atoms, with a space on which they are witnessed, and what the code does where two
  devices add the same tag and where texts are loaded.
\<close>

section \<open>A space\<close>

definition space_env :: "string aux_env" where
  "space_env = \<lparr>ax_signer = \<lparr>keypair = (\<lambda>p. p), sign = (\<lambda>k p b. Some b), verifies = (\<lambda>k s b. Some (s = Some b)),
       encode = concat\<rparr>,
     ax_uuidv5 = (\<lambda>h. h), ax_getHash = (\<lambda>i t v. i @ t), ax_merge = (\<lambda>x y. y), ax_atomValue = (\<lambda>_. Null)\<rparr>"

definition valueB :: "aux_op atom" where
  "valueB = atom text_hash (atomId ''r'' 4 Undefined Undefined) (Some tagA) (valueOp (Val (StrV ''efgh'')))"
definition botB :: "aux_op atom" where "botB = atom text_hash (text_id 5) None (botOp ''c'')"
definition goneB :: "aux_op atom" where "goneB = atom text_hash (atomId ''s'' 6 (Val 1) Undefined) (Some botB) (deleteOp None None)"

definition space_atoms1 :: "(aux_op atom list \<times> bool) list" where
  "space_atoms1 = [([botA, tagA, valueA, valueB, botB, goneB], True)]"
definition space_atoms2 :: "(aux_op atom list \<times> bool) list" where
  "space_atoms2 = [([botB, botA, tagA, valueB], True), ([goneB, valueA], False)]"

definition space_device :: aux_doc where "space_device = auxTree ''u'' (Some ''d'') ''v'' (Inl False)"

lemma space_runs:
  "causes_first text_hash [] (delivered space_atoms1)" "causes_first text_hash [] (delivered space_atoms2)"
  "space_atoms (set (delivered space_atoms1))" "set (delivered space_atoms2) = set (delivered space_atoms1)"
  "distinct (map okey (delivered space_atoms1))" "distinct (map okey (delivered space_atoms2))"
  "\<forall>a\<in>set (delivered space_atoms1). plain_atom a" "prioritised_are_leaves (delivered space_atoms1)"
  by code_simp+

lemma space_hashes: "inj_on ahash (set (delivered space_atoms1))"
proof -
  have "distinct (map ahash (delivered space_atoms1))" by code_simp
  then show ?thesis by (simp add: distinct_map)
qed

lemma space_shows:
  "value_shown (set (delivered space_atoms1)) ''b'' ''t'' (Val (StrV ''efgh''))" "\<not> live_bot (set (delivered space_atoms1)) ''c''"
  by code_simp+

section \<open>Receiving atoms\<close>

text \<open>C13: The bots of a space follow its atoms: a new device that receives atoms in batches accepts all batches, and then has
  exactly the bots that were added and not deleted, each with exactly the tags whose first value (in the order of the weave:
  by priority, then the latest) is not empty, and with that value. Conditions on the atoms received: each comes once, after
  its cause, later than its cause, and with a matching hash that no other atom has; no site contains an \<^verbatim>\<open>@\<close>, no atom has a
  cardinality or a negative priority, no two have the same priority, timestamp and site, and none was caused by an atom with
  a priority; and (\<open>space_atoms\<close>) they are bots, tags of bots with a name and without a priority, values of tags that are no
  objects, and deletions of whole bots with a priority, where no bot is added twice and no tag is added twice to a bot.\<close>

theorem bots_follow_atoms:
  assumes "causes_first H [] (delivered bs)" and "distinct (map okey (delivered bs))"
    and "\<forall>a\<in>set (delivered bs). plain_atom a" and "prioritised_are_leaves (delivered bs)"
    and "inj_on ahash (set (delivered bs))" and "space_atoms (set (delivered bs))"
  shows "\<exists>D. deliver H E space (auxTree uuid i uuid2 remote) bs = Some D \<and>
    (\<forall>j. map_of (doc_state D) j \<noteq> None \<longleftrightarrow> live_bot (set (delivered bs)) j) \<and>
    (\<forall>j t v. bot_tag (doc_state D) j t = Some v \<longleftrightarrow> value_shown (set (delivered bs)) j t v)"
proof -
  have "space_atoms (set ([] @ delivered bs))" "inj_on ahash (set ([] @ delivered bs))" using assms by simp_all
  from deliver_mirrors[OF mirrors_new causal_seqI[OF assms(1,3,2,4)] this, of E space uuid i uuid2 remote] show ?thesis
    unfolding mirrors_def shows_atoms_def by auto
qed

lemma bots_follow_atoms_witness:
  "\<exists>D. deliver text_hash space_env None (auxTree ''u'' (Some ''d'') ''v'' (Inl False)) space_atoms1 = Some D \<and>
     bot_tag (doc_state D) ''b'' ''t'' = Some (Val (StrV ''efgh'')) \<and> map_of (doc_state D) ''c'' = None"
  using bots_follow_atoms[OF space_runs(1,5,7,8) space_hashes space_runs(3), of space_env None "''u''" "Some ''d''" "''v''" "Inl False"]
    space_shows by blast

text \<open>C14: Devices show the same: two new devices, whatever their sites, that received the same atoms of a space, each in its
  own batches and its own order, have the same bots, with the same values of the same tags. Conditions, as before: each
  device gets each atom once, after its cause; every atom is later than its cause and has a matching hash that no other atom
  has; no site contains an \<^verbatim>\<open>@\<close>, no atom has a cardinality or a negative priority, no two have the same priority, timestamp and
  site, and none was caused by an atom with a priority; and (\<open>space_atoms\<close>) they are bots, tags of bots with a name and
  without a priority, values of tags that are no objects, and deletions of whole bots with a priority, where no bot is added
  twice and no tag is added twice to a bot (\<open>same_tag_added_twice\<close> shows what happens otherwise).\<close>

theorem devices_show_same:
  assumes "causes_first H [] (delivered bs)" and "causes_first H [] (delivered cs)" and "set (delivered bs) = set (delivered cs)"
    and "distinct (map okey (delivered bs))" and "distinct (map okey (delivered cs))"
    and "\<forall>a\<in>set (delivered bs). plain_atom a" and "prioritised_are_leaves (delivered bs)"
    and "inj_on ahash (set (delivered bs))" and "space_atoms (set (delivered bs))"
  shows "\<exists>D D'. deliver H E space (auxTree uuid i uuid2 remote) bs = Some D \<and>
    deliver H E space' (auxTree uuid' i' uuid2' remote') cs = Some D' \<and>
    (\<forall>j. map_of (doc_state D) j = None \<longleftrightarrow> map_of (doc_state D') j = None) \<and>
    (\<forall>j t. bot_tag (doc_state D) j t = bot_tag (doc_state D') j t)"
proof -
  have seq: "causal_seq H [] (delivered bs)" "causal_seq H [] (delivered cs)"
    using assms by (auto intro!: causal_seqI simp: prioritised_are_leaves_def list_all_iff)
  have all: "space_atoms (set ([] @ delivered bs))" "inj_on ahash (set ([] @ delivered bs))"
    "space_atoms (set ([] @ delivered cs))" "inj_on ahash (set ([] @ delivered cs))" using assms(3,8,9) by simp_all
  obtain D where D: "deliver H E space (auxTree uuid i uuid2 remote) bs = Some D" "shows_atoms (doc_state D) (set (delivered bs))"
    using deliver_mirrors[OF mirrors_new seq(1) all(1,2), of E space uuid i uuid2 remote] by (auto simp: mirrors_def)
  obtain D' where D': "deliver H E space' (auxTree uuid' i' uuid2' remote') cs = Some D'"
      "shows_atoms (doc_state D') (set (delivered bs))"
    using deliver_mirrors[OF mirrors_new seq(2) all(3,4), of E space' uuid' i' uuid2' remote'] assms(3)
    by (auto simp: mirrors_def)
  have "bot_tag (doc_state D) j t = bot_tag (doc_state D') j t" for j t
    using D(2) D'(2) unfolding shows_atoms_def by (metis not_None_eq)
  moreover have "map_of (doc_state D) j = None \<longleftrightarrow> map_of (doc_state D') j = None" for j
    using D(2) D'(2) unfolding shows_atoms_def by metis
  ultimately show ?thesis using D(1) D'(1) by blast
qed

lemma devices_show_same_witness:
  "\<exists>D D'. deliver text_hash space_env None (auxTree ''u'' (Some ''d'') ''v'' (Inl False)) space_atoms1 = Some D \<and>
     deliver text_hash space_env (Some ''shared'') (auxTree ''w'' None ''v'' (Inl True)) space_atoms2 = Some D' \<and>
     (\<forall>j t. bot_tag (doc_state D) j t = bot_tag (doc_state D') j t)"
  using devices_show_same[OF space_runs(1,2) space_runs(4)[symmetric] space_runs(5-8) space_hashes space_runs(3),
      of space_env None "''u''" "Some ''d''" "''v''" "Inl False" "Some ''shared''" "''w''" None "''v''" "Inl True"] by blast

section \<open>Adding atoms\<close>

lemma reducer_update:
  assumes "reducer E w q [] space False = Some (u, u')"
  shows "u' = u"
proof (cases q)
  case (AtomAdded a)
  then show ?thesis
    using assms by (cases "val a") (auto simp: reducer_def returns_state_def atomAddedReducer_def split: bind_splits)
qed (use assms in \<open>auto simp: reducer_def split: bind_splits\<close>)

text \<open>C15: Adding an atom is receiving it: what a device shows after it added an atom and applied the result is what it shows
  when it receives that very atom, with the same update, results and description of what changed, the same weave and the
  same version vector. Whatever the operation is.\<close>

theorem added_is_received:
  assumes "addAuxAtom H E (doc_tree D) c v p space k = Some (r, T)" and "updates (doc_state D) (ar_update r) = Some ups"
  shows "\<exists>D' D1. applyAtoms H E D [createAtom H (tree_site (doc_tree D)) c v p k] [] space False =
      Some (D', ups, ar_results r, ar_update r) \<and>
    applyAuxResult (D\<lparr>doc_tree := T\<rparr>) r = Some D1 \<and> doc_state D' = doc_state D1 \<and>
    tree_weave (doc_tree D') = tree_weave (doc_tree D1) \<and> tree_version (doc_tree D') = tree_version (doc_tree D1)"
proof -
  let ?a = "createAtom H (tree_site (doc_tree D)) c v p k"
  obtain f w u u' where w: "weave_insert H (tree_weave (doc_tree D)) ?a = Some (Inr f, w)" "T = (doc_tree D)\<lparr>tree_weave := w\<rparr>"
    and r: "reducer E w f [] space False = Some (u, u')" "ar_update r = u" "ar_results r = [f]"
      "ar_newSite r = Some (updateSite (tree_site (doc_tree D)) f)"
    using assms(1)
    by (auto simp: addAuxAtom_def reduced_def addAtom_def insertAtom_def editing_site_def with_update_def first_def
        split: bind_splits sum.splits)
  show ?thesis
    using w r reducer_update[OF r(1)] assms(2)
    by (cases "addedWeaveAtoms f") (auto simp: applyAtoms_def applyAuxResult_def applyResult_def track_atoms_version)
qed

lemma added_is_received_witness:
  "\<exists>r T ups D' D1. addAuxAtom text_hash space_env (doc_tree space_device) None (botOp ''b'') Undefined None Undefined = Some (r, T) \<and>
     applyAtoms text_hash space_env space_device
       [createAtom text_hash (tree_site (doc_tree space_device)) None (botOp ''b'') Undefined Undefined] [] None False =
       Some (D', ups, ar_results r, ar_update r) \<and>
     applyAuxResult (space_device\<lparr>doc_tree := T\<rparr>) r = Some D1 \<and> doc_state D' = doc_state D1"
proof -
  have "(case addAuxAtom text_hash space_env (doc_tree space_device) None (botOp ''b'') Undefined None Undefined of
      None \<Rightarrow> False | Some (r, _) \<Rightarrow> updates (doc_state space_device) (ar_update r) \<noteq> None)" by code_simp
  then obtain r T ups where "addAuxAtom text_hash space_env (doc_tree space_device) None (botOp ''b'') Undefined None Undefined = Some (r, T)"
      "updates (doc_state space_device) (ar_update r) = Some ups" by (auto split: option.splits)
  from added_is_received[OF this] this show ?thesis by blast
qed

section \<open>Findings\<close>

definition shown_value :: "aux_doc option \<Rightarrow> string \<Rightarrow> string \<Rightarrow> tag_value option" where
  "shown_value D i t = (case D of None \<Rightarrow> None | Some d \<Rightarrow> bot_tag (doc_state d) i t)"

definition received :: "(aux_op atom list \<times> bool) list \<Rightarrow> aux_doc option" where
  "received bs = deliver text_hash space_env (Some ''shared'') space_device bs"

text \<open>
  Two devices add the same tag to a bot at the same time: there are two atoms of the tag, the value of each is the first of
  its own, and every device shows the value that came to it last. They do not agree again.
\<close>

definition tagC :: "aux_op atom" where "tagC = atom text_hash (atomId ''r'' 2 Undefined Undefined) (Some botA) (tagOp ''t'')"
definition valueC :: "aux_op atom" where
  "valueC = atom text_hash (atomId ''r'' 3 Undefined Undefined) (Some tagC) (valueOp (Val (StrV ''efgh'')))"

lemma same_tag_added_twice:
  "causal_seq text_hash [] [botA, tagA, valueA, tagC, valueC]" "causal_seq text_hash [] [botA, tagC, valueC, tagA, valueA]"
  "shown_value (received [([botA], True), ([tagA, valueA], False), ([tagC, valueC], False)]) ''b'' ''t'' = Some (Val (StrV ''efgh''))"
  "shown_value (received [([botA], True), ([tagC, valueC], False), ([tagA, valueA], False)]) ''b'' ''t'' = Some (Val (StrV ''abcd''))"
  by code_simp+

text \<open>
  An edit of a value that another device has replaced in the meantime is applied to the new value while it is running, and
  shows the old value, edited, to a device that loads the same atoms.
\<close>

lemma edit_of_replaced_value:
  "shown_value (received [([botA, tagA, valueA, valueB], False), ([insertA], False)]) ''b'' ''t'' = Some (Val (StrV ''efXYgh''))"
  "shown_value (received [([botA, tagA, valueA, valueB, insertA], True)]) ''b'' ''t'' = Some (Val (StrV ''abXYcd''))"
  by code_simp+

text \<open>A bot that was deleted comes back, without an id, for a device that loads it with an edit of one of its texts.\<close>

definition goneA :: "aux_op atom" where "goneA = atom text_hash (atomId ''s'' 5 (Val 1) Undefined) (Some botA) (deleteOp None None)"

lemma deleted_bot_loaded:
  "map_option (\<lambda>d. map_of (doc_state d) ''b'') (received [([botA, tagA, valueA, insertA], True), ([goneA], False)]) = Some None"
  "map_option (\<lambda>d. map_option ab_id (map_of (doc_state d) ''b'')) (received [([botA, tagA, valueA, insertA, goneA], True)]) =
     Some (Some None)"
  by code_simp+

text \<open>
  The chain of an edit of a tag mask is one atom shorter, but the same position in it is taken for the value: loaded, the
  mask shows the text of the insertion alone.
\<close>

definition maskM :: "aux_op atom" where "maskM = atom text_hash (text_id 1) None (tagMask ''b'' ''t'')"
definition valueM :: "aux_op atom" where "valueM = atom text_hash (text_id 2) (Some maskM) (valueOp (Val (StrV ''abcd'')))"
definition insertM :: "aux_op atom" where "insertM = atom text_hash (text_id 3) (Some valueM) (insertOp 2 ''XY'')"

definition shown_mask :: "aux_doc option \<Rightarrow> string \<Rightarrow> string \<Rightarrow> string \<Rightarrow> tag_value option" where
  "shown_mask D i space t = (case D of None \<Rightarrow> None | Some d \<Rightarrow> bot_mask (doc_state d) i space t)"

lemma mask_text_loaded:
  "shown_mask (received [([maskM, valueM], True), ([insertM], False)]) ''b'' ''shared'' ''t'' = Some (Val (StrV ''abXYcd''))"
  "shown_mask (received [([maskM, valueM, insertM], True)]) ''b'' ''shared'' ''t'' = Some (Val (StrV ''XY''))"
  by code_simp+

text \<open>
  On the first load, an edit that comes before the value it edits waits in the reorder buffer. When it is added with the value
  the code looks at the value again and not at the edit, so the edit is not shown.
\<close>

lemma waiting_edit_not_loaded:
  "shown_value (received [([botA, tagA, insertA, valueA], True)]) ''b'' ''t'' = Some (Val (StrV ''abcd''))"
  "shown_value (received [([botA, tagA, valueA, insertA], True)]) ''b'' ''t'' = Some (Val (StrV ''abXYcd''))"
  by code_simp+

end
