(* ===== verification/Spec2Isabelle.thy ===== *)
theory Spec2Isabelle
  imports CausalClaims CausalTreeSpec Weave2Index ResourceClaims RepoClaims BotClaims
    SubscriptionClaims TextClaims SpaceClaims
begin

text \<open>
  A verification library for CasualOS (\<^verbatim>\<open>src/src\<close>, TypeScript). CasualOS shares the state of bots between
  devices. Three of its parts carry the rules that the rest relies on, and they are modelled here:

    \<^item> the causal trees (\<^verbatim>\<open>causal-trees/core2\<close>), the replicated data type through which devices edit a
      space without coordination;
    \<^item> the state of bots (\<^verbatim>\<open>aux-common/aux-format-2\<close>) and what an update makes of it;
    \<^item> records (\<^verbatim>\<open>aux-records\<close>), the stored data of users, with the keys, the policies and the roles that
      decide who may do what.

  \<^bold>\<open>Causal trees.\<close> An atom is a value with an id (site, timestamp, priority, cardinality), a cause and a
  hash (theory \<open>Atom2\<close>, \<^verbatim>\<open>Atom2.ts\<close>). The weave keeps atoms in doubly linked lists, one per root, in
  the order of a preorder traversal of the causes. \<open>WeaveNodes\<close> models the nodes of \<^verbatim>\<open>Weave2.ts\<close> as a heap of
  records by address with the generators and pointer updates; \<open>Weave2\<close> the class: its maps from id strings
  and hashes to addresses, the reorder buffer, insertion with its four cases (root, child, conflict, cause
  missing), and removal. \<open>SiteStatus\<close> models \<^verbatim>\<open>SiteStatus.ts\<close> and \<^verbatim>\<open>AtomFactory2.ts\<close> (sites and Lamport
  clocks), \<open>AtomIndex\<close> and \<open>Weave2Index\<close> the files of those names (what two peers compare), \<open>CausalTree2\<close> the
  tree that puts a weave, a site and a version together. A throw is the left side of a sum; \<open>None\<close> is a
  dangling address or a cycle in the lists, which the invariant excludes.

  The lemmas are built in layers. \<open>CausalOrder\<close> is the specification: the order of siblings and insertion
  into a list of atoms. \<open>WeaveLists\<close> relates the heap to lists of addresses, \<open>WeaveCorrect\<close> has the invariant
  of a weave and that every operation keeps it, \<open>WeaveChains\<close>, \<open>WeaveSpec\<close> and \<open>WeaveRules\<close> give the result
  of every operation in terms of the chains of atoms, \<open>WeaveBounds\<close> the bounds of the reorder buffer and of the
  cardinality groups and the termination of the walk to the root. \<open>Convergence\<close> has the locale \<open>chain_store\<close>, what the
  convergence argument needs of a weave, interpreted on \<open>Weave2\<close>; \<open>CausalRemoval\<close> has what a removal takes, in terms of the causes, and the
  conditions on atoms under which all this holds (causes come first, only leaves have a priority); \<open>CausalTreeSpec\<close> lifts the facts to
  trees. \<open>CausalDemo\<close> holds concrete trees and the behaviours that are findings; \<open>CausalClaims\<close> the properties.

  \<^bold>\<open>Texts of AUX trees.\<close> The atoms of a space are operations on bots (\<open>AuxOps\<close>,
  \<^verbatim>\<open>AuxOpTypes.ts\<close>): a bot is a root, its tags are below it, and below a tag is its value. A value that is
  edited by several devices has insertions and deletions below it, each at an index of the text of its cause.
  \<open>TextEdits\<close> models \<^verbatim>\<open>AuxWeaveHelpers.ts\<close> (finding nodes, the segments of a text, and the
  node and index for a position in the text that a version has seen), with the edits that
  \<^verbatim>\<open>AuxWeaveReducer.ts\<close> reports. \<open>TextUpdate\<close> models \<^verbatim>\<open>updateTag\<close> of
  \<^verbatim>\<open>AuxCausalTree2.ts\<close>, which turns an edit of a tag into atoms. \<open>TextSpec\<close> is the
  specification: the list of tokens (characters with the node and the index they come from) of a causal tree, and that the
  segments of the code have these tokens. \<open>TextPlaces\<close> says what an insertion of an atom into the tree does to the
  tokens, \<open>TextTyping\<close> that the node and index found for a position give an insertion there,
  \<open>TextDelete\<close> the same of deletions; \<open>TextWeave\<close> takes the trees from a weave and
  \<open>TextUpdateSpec\<close> composes them: an edit of a tag reaches the text. The trees have the form that the code gives them
  (\<open>text_tree\<close>): below a value that is neither \<^verbatim>\<open>null\<close> nor missing are insertions without a
  priority, with their own trees, and deletions with one; at any index. Characters 0, by which the code marks deletions, count as
  deleted. \<open>fits\<close> restricts an edit to one insertion or deletion per group, inside of the text, and to insertions
  without a character 0; what goes wrong with two changes is a finding. The properties are in \<open>TextClaims\<close>.

  \<^bold>\<open>Bots of AUX trees.\<close> A device that receives atoms inserts them into its weave; the reducer makes a change of the bots
  of every result, and the changes of a batch, merged, are applied to the state. \<open>AuxReducer\<close> models
  \<^verbatim>\<open>AuxWeaveReducer.ts\<close> (with the deep merge of lodash written out, but for two objects that are values of a tag),
  \<open>AuxTree\<close> the tree with its state in \<^verbatim>\<open>AuxCausalTree2.ts\<close>: \<^verbatim>\<open>addAuxAtom\<close> and its like, and
  \<^verbatim>\<open>applyAtoms\<close>. The specification is in \<open>SpaceSpec\<close>, on the set of atoms alone: which bots are alive,
  and the value that comes first below a tag. \<open>SpaceTree\<close> has what the code finds in a weave that stands for a forest of
  trees, \<open>SpaceState\<close> what a change makes of the state, \<open>SpaceStep\<close> that the reducer keeps the state to what the
  atoms show, \<open>SpaceBatches\<close> the same of batches. \<open>space_atoms\<close> says which atoms this is proved for: bots, one tag atom
  for a tag of a bot, values that are no objects, and deletions of bots; what the code does otherwise (two atoms for one tag, edits of replaced
  values, masks that are loaded) is among the findings. The properties are in \<open>SpaceClaims\<close>.

  \<^bold>\<open>Repositories.\<close> A repository keeps the history of a causal tree: commits, indexes and atoms, stored under their
  hashes, and branches that point to commits. \<open>RepoObjects\<close> models \<^verbatim>\<open>CausalRepoObject.ts\<close>, \<^verbatim>\<open>CausalRepoStore.ts\<close> (with
  the stores that are made of two) and \<^verbatim>\<open>MemoryCausalRepoStore.ts\<close>; \<open>CausalRepo\<close> the file of that name: storing and loading,
  differences of commits, the history of a branch, and the class, whose operations return the store and
  the repository with their result. \<open>RepoSpec\<close> has the invariant of the stage and the differences; \<open>RepoHistory\<close> what a
  commit stores, the locale \<open>branch_store\<close> for what a checkout needs of the branches, interpreted on the store in
  memory, and the step relation \<open>repo_step\<close> of all operations with the invariant that every commit can be loaded.
  A commit of a run is made under the condition \<open>can_commit\<close>: there is a change to commit, and the hashes of the objects that it stores
  are not empty and not those of other objects. Committing atoms that were committed before is such a commit, in any order;
  what a commit keeps is the set of its atoms, since the hash of an index does not depend on their order. The properties are in \<open>RepoClaims\<close>.

  \<^bold>\<open>Records.\<close> \<open>RecordKeys\<close> models the format of record keys at the end of \<^verbatim>\<open>RecordsController.ts\<close>, \<open>Records\<close> the
  rest of that file with \<^verbatim>\<open>RecordsStore.ts\<close> and \<^verbatim>\<open>MemoryRecordsStore.ts\<close>: the locale \<open>records_store\<close> is the
  contract of a store and is interpreted on the one in memory. \<open>Permissions\<close> models \<^verbatim>\<open>PolicyPermissions.ts\<close>:
  the permissions, the default policies and what the request schemas keep of a permission. \<open>PolicyStore\<close>
  models \<^verbatim>\<open>PolicyStore.ts\<close> and \<^verbatim>\<open>MemoryPolicyStore.ts\<close>, with the locales \<open>policy_reads\<close> (what authorizing
  needs of a store) and \<open>policy_store\<close> (what the operations on policies and roles need besides). The store in memory looks names up in
  object literals, which inherit members: the lookups are modelled with these, the contract is for names that are not among them (\<open>own_name\<close>),
  and what the code does with the others is a finding. \<^verbatim>\<open>PolicyController.ts\<close> is
  three theories: \<open>PolicyAuth\<close> has the filters on permissions and the loops over the markers, \<open>PolicyRequests\<close> the
  twenty kinds of requests and the authorization of instances, \<open>PolicyController\<close> the operations on policies
  and roles. A request is decided against a context, which \<open>constructAuthorizationContext\<close> makes from a record
  key or a record's name, and so from \<open>Records\<close>.

  \<open>PolicyAuthSpec\<close> and \<open>PolicyLoops\<close> state what the loops decide, without loops: the roles that a subject is
  entitled to, the permissions of a marker, and the requests that are granted. \<open>PolicySpec\<close> composes them to the
  decision about a request, \<open>PolicyEffects\<close> has what the default policies grant and what the operations change. The
  properties are in \<open>PolicyClaims\<close>, \<open>AccountClaims\<close> and \<open>RecordClaims\<close>.

  \<^bold>\<open>Data, events and files.\<close> Three controllers store the resources of a record, each over the policy controller and
  a store of its own: \<open>DataRecords\<close> (\<^verbatim>\<open>DataRecordsController.ts\<close>, \<^verbatim>\<open>DataRecordsStore.ts\<close>,
  \<^verbatim>\<open>MemoryDataRecordsStore.ts\<close>), \<open>EventRecords\<close> and \<open>FileRecords\<close> (the files of those names). An operation makes the
  context of the record, reads the resource, authorizes the action for the markers of the resource and then
  changes the store; \<open>ResourceRequests\<close> has the steps that the three share. The locales \<open>data_store\<close> and \<open>event_store\<close> are
  the contracts of the stores, interpreted on those in memory; the files are proved about on the store in memory, for calls that name the record of the file, since this store finds
  files by name alone.
  \<open>ResourceSpec\<close> has what an allowed request answers and what an administrator is listed, \<open>DataSpec\<close> the effects of
  the operations on data and the runs of outsiders, \<open>FileSpec\<close> the life of a file: \<open>file_after\<close> says what a call makes of it. The
  properties are in \<open>ResourceClaims\<close>.

  \<^bold>\<open>Bots.\<close> The state of a space is a map from ids to bots, with their tags, masks and signatures. \<open>BotState\<close> models
  \<^verbatim>\<open>AuxStateHelpers.ts\<close>: edits of text, applying a partial state (\<open>apply_state\<close>), and the summary of what it changes
  (\<open>updates\<close>, \<open>None\<close> where the code throws). \<open>BotStateSpec\<close> gives the result tag by tag, from one lemma about loops over
  properties, and the invariant of well-formed states. The properties are in \<open>BotClaims\<close>.

  \<^bold>\<open>Logins and sessions.\<close> \<open>SessionKeys\<close> models \<^verbatim>\<open>AuthUtils.ts\<close> (login codes and the text of session keys), \<open>AuthStore\<close> the
  files \<^verbatim>\<open>AuthStore.ts\<close> and \<^verbatim>\<open>MemoryAuthStore.ts\<close> (users, login requests and sessions), \<open>AuthController\<close> the file of that name:
  a login request sends a code to an address, completing it with the code gives the key of a session, and sessions are
  checked, revoked, replaced and listed. An operation returns its result, or an error code, with the new state of the
  store (and of the messenger). \<open>RateLimit\<close> models \<^verbatim>\<open>RateLimitController.ts\<close> and \<^verbatim>\<open>MemoryRateLimiter.ts\<close>. The locale \<open>session_store\<close> is what checking and
  changing sessions needs of a store and \<open>auth_store\<close> what logins need besides (theory \<open>AuthSpec\<close>), both interpreted on the
  store in memory. \<open>AuthSessions\<close> states when a key is accepted and what every operation changes; \<open>AuthRuns\<close> has the step
  relation of the operations and proves over its runs that a session that is revoked, or that was granted before all of
  them were revoked, stays closed, and that the number of attempts at a code is bounded. The properties are in \<open>AuthClaims\<close>.

  \<^bold>\<open>Subscriptions.\<close> \<open>Subscriptions\<close> models \<^verbatim>\<open>SubscriptionController.ts\<close> and \<^verbatim>\<open>SubscriptionConfiguration.ts\<close>: the status of a user's subscriptions, the link
  that sends a user to Stripe to buy or to manage one, and the webhook by which Stripe reports changes, which are saved with the user.
  Stripe (\<^verbatim>\<open>StripeInterface.ts\<close>) is a record of operations over a state of its own. The locale \<open>customer_store\<close> (theory \<open>SubscriptionSpec\<close>)
  extends the contract of sessions by finding users by their customer ids, interpreted on the store in memory; what the webhook leaves alone
  follows from the facts about sessions. The properties are in \<open>SubscriptionClaims\<close>.

  \<^bold>\<open>Parameters.\<close> The hash of \<^verbatim>\<open>@casual-simulation/crypto\<close> (over the parts of an atom, and over a list of hashes),
  the password hashes, base 64, random bytes and UUIDs, the test of a regular expression (which may throw),
  the package \<^verbatim>\<open>mime\<close> and the clock are arguments. Named hypotheses state what is used of them: the hash of an atom is
  injective, \<open>base64_ok\<close> for the codec, \<open>crypto_ok\<close> that a password fits its own hash, \<open>unused\<close> that a random id is new. One reading of the clock serves a request. Store
  operations return \<open>None\<close> where they throw.

  \<^bold>\<open>Numbers, strings, bounds.\<close> Timestamps, priorities and byte counts are integers: JavaScript numbers below
  \<open>2 ^ 53\<close> behave so. Strings are lists of characters, compared in code order, which for JavaScript's UTF-16
  units is right for ASCII. A map that is read by key only is a HOL map; where the order of iteration matters
  it is an association list. No fuel is used: recursion is structural or over a \<open>partial_function\<close>
  (walking the causes, the nodes of a list), for which termination under the invariant is proved.

  \<^bold>\<open>Not modelled.\<close> The file \<^verbatim>\<open>PROJECT.json\<close> lists the components. Clients of repositories are
  streams over a connection. Console output and the texts of error messages are left out everywhere. The script runtime (\<^verbatim>\<open>aux-common/runtime\<close>) runs the
  users' JavaScript. Of the function
  \<^verbatim>\<open>applyEvents\<close> of \<^verbatim>\<open>AuxCausalTree2.ts\<close>, which turns the actions of scripts into atoms, only the local function \<^verbatim>\<open>updateTag\<close>
  (the edits of tags) is modelled; the rest of it is not. Partitions and servers are streams over the network; \<^verbatim>\<open>RecordsHttpServer.ts\<close> parses requests and calls
  the controllers.
\<close>

end
